(* ===== verification/Prelude.thy ===== *)
theory Prelude
  imports Main "HOL-Library.AList" "HOL-Library.Sublist"
begin

section \<open>Prelude: results, Python text and insertion-ordered dictionaries\<close>

text \<open>
  What every component of the development shares.
  \<^item> A Python call that may raise is a value of \<open>'e res\<close>: \<open>Inl e\<close> is the exception,
    \<open>Inr v\<close> the returned value. \<open>bindr\<close> sequences two such calls.
  \<^item> \<open>str\<close> is \<open>string\<close> (code points below 256), with \<open>str.strip\<close> and
    \<open>str.startswith\<close> as the source uses them.
  \<^item> \<open>dict\<close> is an association list with distinct keys in insertion order:
    \<open>d[k] = v\<close> is \<open>AList.update\<close> (in place when the key is present, at the end
    otherwise), \<open>d.get(k)\<close> is \<open>map_of\<close>, \<open>del d[k]\<close> is \<open>AList.delete\<close>.
  \<^item> \<open>copy.deepcopy\<close> is the identity: the model passes values, never references.
\<close>

named_theorems res_simps "rewriting of results and their sequencing"
named_theorems dict_simps "rewriting of dictionary operations"
named_theorems model_defs "definitions of the operations, for unfolding in component proofs"

subsection \<open>Results\<close>

type_synonym ('e, 'a) res = "'e + 'a"

definition bindr :: "('e, 'a) res \<Rightarrow> ('a \<Rightarrow> ('e, 'b) res) \<Rightarrow> ('e, 'b) res" where
  "bindr r f = (case r of Inl e \<Rightarrow> Inl e | Inr v \<Rightarrow> f v)"

definition is_ok :: "('e, 'a) res \<Rightarrow> bool" where
  "is_ok r = (case r of Inl _ \<Rightarrow> False | Inr _ \<Rightarrow> True)"

text \<open>A guard that raises: the exception when the test holds, else the continuation.\<close>

definition raise_if :: "bool \<Rightarrow> 'e \<Rightarrow> ('e, 'a) res \<Rightarrow> ('e, 'a) res" where
  "raise_if b e k = (if b then Inl e else k)"

lemma bindr_simps [simp, res_simps]:
  "bindr (Inl e) f = Inl e" "bindr (Inr v) f = f v"
  by (simp_all add: bindr_def)

lemma bindr_eq_Inr [res_simps]: "bindr r f = Inr w \<longleftrightarrow> (\<exists>v. r = Inr v \<and> f v = Inr w)"
  by (cases r) (auto simp: bindr_def)

lemma bindr_eq_Inl [res_simps]:
  "bindr r f = Inl e \<longleftrightarrow> r = Inl e \<or> (\<exists>v. r = Inr v \<and> f v = Inl e)"
  by (cases r) (auto simp: bindr_def)

lemma bindr_assoc: "bindr (bindr r f) g = bindr r (\<lambda>v. bindr (f v) g)"
  by (cases r) simp_all

lemma bindr_split:
  "P (bindr r f) \<longleftrightarrow> (\<forall>e. r = Inl e \<longrightarrow> P (Inl e)) \<and> (\<forall>v. r = Inr v \<longrightarrow> P (f v))"
  by (cases r) auto

lemma is_ok_simps [simp, res_simps]: "\<not> is_ok (Inl e)" "is_ok (Inr v)"
  by (simp_all add: is_ok_def)

lemma is_ok_iff [res_simps]: "is_ok r \<longleftrightarrow> (\<exists>v. r = Inr v)"
  by (cases r) auto

lemma raise_if_simps [simp, res_simps]:
  "raise_if True e k = Inl e" "raise_if False e k = k"
  by (simp_all add: raise_if_def)

lemma raise_if_eq_Inr [res_simps]: "raise_if b e k = Inr v \<longleftrightarrow> \<not> b \<and> k = Inr v"
  by (cases b) auto

lemma raise_if_eq_Inl [res_simps]: "raise_if b e k = Inl e' \<longleftrightarrow> (b \<and> e = e') \<or> (\<not> b \<and> k = Inl e')"
  by (cases b) auto

subsection \<open>Python text\<close>

text \<open>
  \<open>str.isspace\<close> on the code points below 256: tab to carriage return, the four
  separators 28 to 31, the space, the next-line control 133 and the no-break space 160.
\<close>

definition py_isspace :: "char \<Rightarrow> bool" where
  "py_isspace c = (let n = of_char c :: nat in
     (9 \<le> n \<and> n \<le> 13) \<or> (28 \<le> n \<and> n \<le> 32) \<or> n = 133 \<or> n = 160)"

definition py_lstrip :: "string \<Rightarrow> string" where
  "py_lstrip s = dropWhile py_isspace s"

definition py_rstrip :: "string \<Rightarrow> string" where
  "py_rstrip s = rev (dropWhile py_isspace (rev s))"

definition py_strip :: "string \<Rightarrow> string" where
  "py_strip s = py_rstrip (py_lstrip s)"

definition startswith :: "string \<Rightarrow> string \<Rightarrow> bool" where
  "startswith s p = (take (length p) s = p)"

lemma startswith_prefix: "startswith s p \<longleftrightarrow> prefix p s"
  unfolding startswith_def
  by (metis append_eq_conv_conj prefix_def)

lemma py_strip_Nil [simp]: "py_strip [] = []"
  by (simp add: py_strip_def py_lstrip_def py_rstrip_def)

lemma py_strip_empty_iff: "py_strip s = [] \<longleftrightarrow> (\<forall>c \<in> set s. py_isspace c)"
proof -
  have "py_strip s = [] \<longleftrightarrow> (\<forall>c \<in> set (dropWhile py_isspace s). py_isspace c)"
    by (simp add: py_strip_def py_lstrip_def py_rstrip_def)
  also have "\<dots> \<longleftrightarrow> (\<forall>c \<in> set s. py_isspace c)"
    by (induction s) auto
  finally show ?thesis .
qed

subsection \<open>Dictionaries\<close>

type_synonym 'v dict = "(string \<times> 'v) list"

abbreviation dict_get :: "'v dict \<Rightarrow> string \<Rightarrow> 'v option" where
  "dict_get \<equiv> map_of"

abbreviation dict_set :: "string \<Rightarrow> 'v \<Rightarrow> 'v dict \<Rightarrow> 'v dict" where
  "dict_set \<equiv> AList.update"

abbreviation dict_del :: "string \<Rightarrow> 'v dict \<Rightarrow> 'v dict" where
  "dict_del \<equiv> AList.delete"

abbreviation dict_keys :: "'v dict \<Rightarrow> string list" where
  "dict_keys d \<equiv> map fst d"

definition dict_update :: "'v dict \<Rightarrow> 'v dict \<Rightarrow> 'v dict" where
  "dict_update d u = fold (\<lambda>(k, v). dict_set k v) u d"

definition dict_wf :: "'v dict \<Rightarrow> bool" where
  "dict_wf d \<longleftrightarrow> distinct (dict_keys d)"

lemma dict_get_set [simp, dict_simps]:
  "dict_get (dict_set k v d) k' = (if k' = k then Some v else dict_get d k')"
  by (simp add: update_conv')

lemma dict_get_del [simp, dict_simps]:
  "dict_get (dict_del k d) k' = (if k' = k then None else dict_get d k')"
  by (simp add: delete_conv')

lemma dict_wf_set [simp, dict_simps]: "dict_wf d \<Longrightarrow> dict_wf (dict_set k v d)"
  by (simp add: dict_wf_def distinct_update)

lemma dict_wf_del [simp, dict_simps]: "dict_wf d \<Longrightarrow> dict_wf (dict_del k d)"
  by (simp add: dict_wf_def distinct_delete)

lemma dict_wf_update [simp, dict_simps]: "dict_wf d \<Longrightarrow> dict_wf (dict_update d u)"
  unfolding dict_update_def
  by (induction u arbitrary: d) auto

lemma dict_get_update [dict_simps]:
  "dict_get (dict_update d u) k = (case dict_get (rev u) k of None \<Rightarrow> dict_get d k | Some v \<Rightarrow> Some v)"
  unfolding dict_update_def
  by (induction u arbitrary: d) (auto simp: map_add_def split: option.splits)

lemma dict_get_rev: "dict_wf d \<Longrightarrow> dict_get (rev d) k = dict_get d k"
proof (cases "dict_get d k")
  case (Some v)
  assume "dict_wf d"
  moreover from Some have "(k, v) \<in> set (rev d)" by (simp add: map_of_SomeD)
  ultimately show ?thesis using Some by (simp add: dict_wf_def rev_map [symmetric])
next
  case None
  then have "k \<notin> fst ` set (rev d)" by (simp add: map_of_eq_None_iff)
  then have "dict_get (rev d) k = None" unfolding map_of_eq_None_iff .
  then show ?thesis using None by simp
qed

lemma dict_get_update_wf [dict_simps]:
  "dict_wf u \<Longrightarrow> dict_get (dict_update d u) k = (case dict_get u k of None \<Rightarrow> dict_get d k | Some v \<Rightarrow> Some v)"
  by (simp add: dict_get_update dict_get_rev)

lemma dict_get_filter_keys:
  "dict_get (filter (\<lambda>p. P (fst p)) d) k = (if P k then dict_get d k else None)"
  by (induction d) auto

subsection \<open>Sequencing over lists\<close>

text \<open>A comprehension whose body may raise: the first exception wins.\<close>

fun mapr :: "('a \<Rightarrow> ('e, 'b) res) \<Rightarrow> 'a list \<Rightarrow> ('e, 'b list) res" where
  "mapr f [] = Inr []"
| "mapr f (x # xs) = bindr (f x) (\<lambda>y. bindr (mapr f xs) (\<lambda>ys. Inr (y # ys)))"

lemma bindr_cong [fundef_cong]:
  "\<lbrakk>r = s; \<And>v. s = Inr v \<Longrightarrow> f v = g v\<rbrakk> \<Longrightarrow> bindr r f = bindr s g"
  by (cases s) auto

lemma mapr_cong [fundef_cong]:
  "\<lbrakk>xs = ys; \<And>x. x \<in> set ys \<Longrightarrow> f x = g x\<rbrakk> \<Longrightarrow> mapr f xs = mapr g ys"
  by (induction ys arbitrary: xs) auto

lemma mapr_Inr: "mapr f xs = Inr ys \<longleftrightarrow> list_all2 (\<lambda>x y. f x = Inr y) xs ys"
  by (induction xs arbitrary: ys) (auto simp: bindr_eq_Inr list_all2_Cons1)

lemma mapr_map: "mapr f (map g xs) = mapr (\<lambda>x. f (g x)) xs"
  by (induction xs) auto

lemma mapr_id: "(\<And>x. x \<in> set xs \<Longrightarrow> f x = Inr x) \<Longrightarrow> mapr f xs = Inr xs"
  by (induction xs) auto

lemma py_strip_idem [simp]: "py_strip (py_strip s) = py_strip s"
proof -
  have hd: "\<not> py_isspace (hd (dropWhile py_isspace t))" if "dropWhile py_isspace t \<noteq> []" for t
    using that by (rule hd_dropWhile)
  define t where "t = dropWhile py_isspace s"
  define u where "u = rev (dropWhile py_isspace (rev t))"
  obtain w where w: "t = u @ w"
  proof
    show "t = u @ rev (takeWhile py_isspace (rev t))"
      unfolding u_def by (metis rev_append rev_rev_ident takeWhile_dropWhile_id)
  qed
  have "dropWhile py_isspace u = u"
  proof (cases u)
    case (Cons c cs)
    then have "hd t = c" "t \<noteq> []" using w by auto
    then have "\<not> py_isspace c" using hd [of s] by (simp add: t_def)
    then show ?thesis using Cons by simp
  qed simp
  moreover have "rev (dropWhile py_isspace (rev u)) = u"
    unfolding u_def by (simp add: dropWhile_idem)
  ultimately show ?thesis
    by (simp add: py_strip_def py_lstrip_def py_rstrip_def t_def [symmetric] u_def [symmetric])
qed

lemma list_all2_elem:
  assumes "list_all2 R xs ys" "y \<in> set ys"
  shows "\<exists>x \<in> set xs. R x y"
  using assms by (induction rule: list_all2_induct) auto

end
