(* ===== verification/Leases.thy ===== *)
theory Leases
  imports Prelude
begin

section \<open>Execution ownership records\<close>

text \<open>
  The value classes of \<open>src/unchain/execution.py\<close>: fences, leases, cancellation
  tombstones and the timing configuration. A dataclass is a record and its
  \<open>__post_init__\<close> a constructor function \<open>mk_\<dots>\<close> that returns the exception of the
  first check that fails. Parameters are typed, so the \<open>isinstance\<close> tests of the checks
  hold by construction; the tests on values are kept in their order.
\<close>

text \<open>The subclasses of \<open>ExecutionLeaseError\<close>.\<close>

datatype lease_class =
    ExecutionLeaseError
  | ExecutionLeaseConflictError
  | ExecutionLeaseExpiredError
  | ExecutionLeaseNotOwnedError
  | StaleExecutionLeaseError
  | ActiveExecutionLeaseError
  | ExecutionCancelledError

text \<open>
  \<open>LeaseExc c m e o t\<close> is an instance of class \<open>c\<close> with message \<open>m\<close> and the attributes
  \<open>execution_id\<close>, \<open>owner_id\<close> and \<open>fencing_token\<close>.
\<close>

datatype exec_exc =
    ValueError string
  | TypeError string
  | LeaseExc lease_class string "string option" "string option" "int option"
  | SessionRevisionConflictError string int int
  | SessionStoreCorruptionError string string

fun is_lease_subclass :: "lease_class \<Rightarrow> lease_class \<Rightarrow> bool" where
  "is_lease_subclass c ExecutionLeaseError = True"
| "is_lease_subclass c ExecutionLeaseConflictError =
     (c \<in> {ExecutionLeaseConflictError, StaleExecutionLeaseError, ActiveExecutionLeaseError})"
| "is_lease_subclass c d = (c = d)"

definition validate_identifier :: "string \<Rightarrow> string \<Rightarrow> (exec_exc, string) res" where
  "validate_identifier v name =
     (if py_strip v = [] then Inl (ValueError (name @ '' must be a non-empty string''))
      else Inr v)"

definition validate_positive_int :: "int \<Rightarrow> string \<Rightarrow> (exec_exc, int) res" where
  "validate_positive_int v name =
     (if v \<le> 0 then Inl (ValueError (name @ '' must be a positive integer'')) else Inr v)"

definition validate_expected_revision :: "int option \<Rightarrow> (exec_exc, int option) res" where
  "validate_expected_revision v =
     (case v of
        None \<Rightarrow> Inr None
      | Some n \<Rightarrow>
          if n < 0 then Inl (ValueError ''expected_revision must be a non-negative integer'')
          else Inr (Some n))"

subsection \<open>Fences, leases and tombstones\<close>

record execution_fence =
  fence_execution_id :: string
  fence_owner_id :: string
  fence_token :: int

definition mk_fence :: "string \<Rightarrow> string \<Rightarrow> int \<Rightarrow> (exec_exc, execution_fence) res" where
  "mk_fence eid oid tok =
     bindr (validate_identifier eid ''execution_id'') (\<lambda>_.
     bindr (validate_identifier oid ''owner_id'') (\<lambda>_.
     bindr (validate_positive_int tok ''fencing_token'') (\<lambda>_.
     Inr \<lparr>fence_execution_id = eid, fence_owner_id = oid, fence_token = tok\<rparr>)))"

record execution_lease =
  lease_execution_id :: string
  lease_owner_id :: string
  lease_token :: int
  lease_acquired_at_ms :: int
  lease_expires_at_ms :: int

definition mk_lease ::
  "string \<Rightarrow> string \<Rightarrow> int \<Rightarrow> int \<Rightarrow> int \<Rightarrow> (exec_exc, execution_lease) res" where
  "mk_lease eid oid tok acquired expires =
     bindr (validate_identifier eid ''execution_id'') (\<lambda>_.
     bindr (validate_identifier oid ''owner_id'') (\<lambda>_.
     bindr (validate_positive_int tok ''fencing_token'') (\<lambda>_.
     raise_if (acquired < 0) (ValueError ''acquired_at_ms must be a non-negative integer'')
     (raise_if (expires \<le> acquired)
        (ValueError ''expires_at_ms must be greater than acquired_at_ms'')
     (Inr \<lparr>lease_execution_id = eid, lease_owner_id = oid, lease_token = tok,
           lease_acquired_at_ms = acquired, lease_expires_at_ms = expires\<rparr>)))))"

text \<open>The \<open>fence\<close> property of a lease.\<close>

definition lease_fence :: "execution_lease \<Rightarrow> (exec_exc, execution_fence) res" where
  "lease_fence l = mk_fence (lease_execution_id l) (lease_owner_id l) (lease_token l)"

record execution_cancellation =
  canc_execution_id :: string
  canc_owner_id :: string
  canc_token :: "int option"
  canc_requested_at_ms :: int
  canc_reason :: string

definition mk_cancellation ::
  "string \<Rightarrow> string \<Rightarrow> int option \<Rightarrow> int \<Rightarrow> string \<Rightarrow> (exec_exc, execution_cancellation) res" where
  "mk_cancellation eid oid tok requested why =
     bindr (validate_identifier eid ''execution_id'') (\<lambda>_.
     bindr (validate_identifier oid ''owner_id'') (\<lambda>_.
     bindr (case tok of None \<Rightarrow> Inr 0 | Some t \<Rightarrow> validate_positive_int t ''fencing_token'') (\<lambda>_.
     raise_if (requested < 0) (ValueError ''requested_at_ms must be a non-negative integer'')
     (Inr \<lparr>canc_execution_id = eid, canc_owner_id = oid, canc_token = tok,
           canc_requested_at_ms = requested, canc_reason = why\<rparr>))))"

record lease_config =
  cfg_ttl_ms :: int
  cfg_heartbeat_interval_ms :: int

definition mk_lease_config :: "int \<Rightarrow> int \<Rightarrow> (exec_exc, lease_config) res" where
  "mk_lease_config ttl heartbeat =
     bindr (validate_positive_int ttl ''ttl_ms'') (\<lambda>_.
     raise_if (heartbeat < 0)
       (ValueError ''heartbeat_interval_ms must be a non-negative integer'')
     (raise_if (ttl \<le> heartbeat \<and> heartbeat \<noteq> 0)
       (ValueError ''heartbeat_interval_ms must be smaller than ttl_ms'')
     (Inr \<lparr>cfg_ttl_ms = ttl, cfg_heartbeat_interval_ms = heartbeat\<rparr>)))"

definition default_lease_config :: lease_config where
  "default_lease_config = \<lparr>cfg_ttl_ms = 60000, cfg_heartbeat_interval_ms = 20000\<rparr>"

subsection \<open>What the constructors establish\<close>

definition nonblank :: "string \<Rightarrow> bool" where
  "nonblank s \<longleftrightarrow> py_strip s \<noteq> []"

definition lease_ok :: "execution_lease \<Rightarrow> bool" where
  "lease_ok l \<longleftrightarrow>
     nonblank (lease_execution_id l) \<and> nonblank (lease_owner_id l) \<and> 0 < lease_token l \<and>
     0 \<le> lease_acquired_at_ms l \<and> lease_acquired_at_ms l < lease_expires_at_ms l"

definition config_ok :: "lease_config \<Rightarrow> bool" where
  "config_ok c \<longleftrightarrow>
     0 < cfg_ttl_ms c \<and> 0 \<le> cfg_heartbeat_interval_ms c \<and>
     (cfg_heartbeat_interval_ms c = 0 \<or> cfg_heartbeat_interval_ms c < cfg_ttl_ms c)"

lemma validate_identifier_ok [res_simps]:
  "validate_identifier v n = Inr w \<longleftrightarrow> nonblank v \<and> w = v"
  by (auto simp: validate_identifier_def nonblank_def)

lemma validate_positive_int_ok [res_simps]:
  "validate_positive_int v n = Inr w \<longleftrightarrow> 0 < v \<and> w = v"
  by (auto simp: validate_positive_int_def)

lemma validate_expected_revision_ok [res_simps]:
  "validate_expected_revision v = Inr w \<longleftrightarrow> w = v \<and> (\<forall>n. v = Some n \<longrightarrow> 0 \<le> n)"
  by (auto simp: validate_expected_revision_def split: option.splits)

lemma mk_lease_Inr [res_simps]:
  "mk_lease e o' t a x = Inr l \<longleftrightarrow>
     l = \<lparr>lease_execution_id = e, lease_owner_id = o', lease_token = t,
          lease_acquired_at_ms = a, lease_expires_at_ms = x\<rparr> \<and> lease_ok l"
  by (auto simp: mk_lease_def lease_ok_def res_simps)

lemma mk_fence_Inr [res_simps]:
  "mk_fence e o' t = Inr f \<longleftrightarrow>
     nonblank e \<and> nonblank o' \<and> 0 < t \<and>
     f = \<lparr>fence_execution_id = e, fence_owner_id = o', fence_token = t\<rparr>"
  by (auto simp: mk_fence_def res_simps)

lemma mk_cancellation_Inr [res_simps]:
  "mk_cancellation e o' t r w = Inr c \<longleftrightarrow>
     nonblank e \<and> nonblank o' \<and> (\<forall>n. t = Some n \<longrightarrow> 0 < n) \<and> 0 \<le> r \<and>
     c = \<lparr>canc_execution_id = e, canc_owner_id = o', canc_token = t,
          canc_requested_at_ms = r, canc_reason = w\<rparr>"
  by (auto simp: mk_cancellation_def res_simps split: option.splits)

lemma mk_lease_config_Inr [res_simps]:
  "mk_lease_config t h = Inr c \<longleftrightarrow>
     c = \<lparr>cfg_ttl_ms = t, cfg_heartbeat_interval_ms = h\<rparr> \<and> config_ok c"
  by (auto simp: mk_lease_config_def config_ok_def res_simps)

lemma lease_fence_of_ok: "lease_ok l \<Longrightarrow>
  lease_fence l = Inr \<lparr>fence_execution_id = lease_execution_id l,
    fence_owner_id = lease_owner_id l, fence_token = lease_token l\<rparr>"
  by (simp add: lease_fence_def mk_fence_Inr lease_ok_def)

end
