(* ===== verification/PyValue.thy ===== *)
theory PyValue
  imports Complex_Main Prelude
begin

section \<open>The Python values the framework moves around\<close>

text \<open>
  Messages, session states, deltas and journal payloads are JSON-shaped Python values:
  \<open>None\<close>, booleans, unbounded integers, finite floats (by their exact rational value),
  text, lists and dictionaries with text keys. \<open>PyObj c fields\<close> is an instance of the
  dataclass \<open>c\<close> (a \<open>ToolCall\<close> in a state update, say). \<open>isinstance\<close> tests are constructor tests;
  \<open>bool(v)\<close> is \<open>truthy\<close>; \<open>==\<close> is \<open>py_eq\<close>, which identifies \<open>True\<close> with \<open>1\<close>
  and \<open>1\<close> with \<open>1.0\<close> and ignores the order of dictionary keys, as Python does.
\<close>

datatype pyval =
    PyNone
  | PyBool bool
  | PyInt int
  | PyFloat rat
  | PyStr string
  | PyList "pyval list"
  | PyDict "(string \<times> pyval) list"
  | PyObj string "(string \<times> pyval) list"

type_synonym pydict = "pyval dict"

fun is_dict :: "pyval \<Rightarrow> bool" where
  "is_dict (PyDict _) = True"
| "is_dict _ = False"

fun is_list :: "pyval \<Rightarrow> bool" where
  "is_list (PyList _) = True"
| "is_list _ = False"

fun is_str :: "pyval \<Rightarrow> bool" where
  "is_str (PyStr _) = True"
| "is_str _ = False"

text \<open>\<open>isinstance(v, int)\<close> holds of booleans too.\<close>

fun is_int :: "pyval \<Rightarrow> bool" where
  "is_int (PyInt _) = True"
| "is_int (PyBool _) = True"
| "is_int _ = False"

fun truthy :: "pyval \<Rightarrow> bool" where
  "truthy PyNone = False"
| "truthy (PyBool b) = b"
| "truthy (PyInt i) = (i \<noteq> 0)"
| "truthy (PyFloat q) = (q \<noteq> 0)"
| "truthy (PyStr s) = (s \<noteq> [])"
| "truthy (PyList xs) = (xs \<noteq> [])"
| "truthy (PyDict d) = (d \<noteq> [])"
| "truthy (PyObj c d) = True"

text \<open>The numeric value of booleans, integers and floats; None for the other values.\<close>

fun num_of :: "pyval \<Rightarrow> rat option" where
  "num_of (PyBool b) = Some (if b then 1 else 0)"
| "num_of (PyInt i) = Some (of_int i)"
| "num_of (PyFloat q) = Some q"
| "num_of _ = None"

text \<open>\<open>v.get(k)\<close> for a dictionary \<open>v\<close>, with None for a missing key.\<close>

definition dget :: "pydict \<Rightarrow> string \<Rightarrow> pyval" where
  "dget d k = (case dict_get d k of None \<Rightarrow> PyNone | Some v \<Rightarrow> v)"

text \<open>\<open>message.get(k)\<close> where \<open>message\<close> was filtered to be a dictionary.\<close>

fun vget :: "pyval \<Rightarrow> string \<Rightarrow> pyval" where
  "vget (PyDict d) k = dget d k"
| "vget _ k = PyNone"

fun vhas :: "pyval \<Rightarrow> string \<Rightarrow> bool" where
  "vhas (PyDict d) k = (dict_get d k \<noteq> None)"
| "vhas _ k = False"

lemma size_list_elem [termination_simp]:
  "x \<in> set xs \<Longrightarrow> size x < Suc (size_list size xs)"
  by (simp add: less_Suc_eq_le size_list_estimation')

lemma size_zip_elem [termination_simp]:
  "p \<in> set (zip xs ys) \<Longrightarrow> size (fst p) < Suc (size_list size xs)"
  by (cases p) (auto dest: set_zip_leftD intro: size_list_elem)

lemma size_dict_elem [termination_simp]:
  "p \<in> set d \<Longrightarrow> size (snd p) < Suc (size_list (size_prod (\<lambda>x. 0) size) d)"
  by (cases p) (auto simp: less_Suc_eq_le intro: size_list_estimation')

function py_eq :: "pyval \<Rightarrow> pyval \<Rightarrow> bool" where
  "py_eq a b =
     (case (a, b) of
        (PyNone, PyNone) \<Rightarrow> True
      | (PyStr s, PyStr t) \<Rightarrow> s = t
      | (PyList xs, PyList ys) \<Rightarrow>
          length xs = length ys \<and> (\<forall>p \<in> set (zip xs ys). py_eq (fst p) (snd p))
      | (PyDict d, PyDict e) \<Rightarrow>
          length d = length e \<and>
          (\<forall>p \<in> set d. case dict_get e (fst p) of None \<Rightarrow> False | Some v \<Rightarrow> py_eq (snd p) v)
      | (PyObj c d, PyObj c' e) \<Rightarrow>
          c = c' \<and> length d = length e \<and>
          (\<forall>p \<in> set d. case dict_get e (fst p) of None \<Rightarrow> False | Some v \<Rightarrow> py_eq (snd p) v)
      | _ \<Rightarrow> num_of a \<noteq> None \<and> num_of a = num_of b)"
  by pat_completeness auto
termination
  by (relation "measure (\<lambda>(a, b). size a)")
    (auto simp: case_prod_beta dest: size_zip_elem size_dict_elem)

declare py_eq.simps [simp del]

text \<open>Every dictionary inside a value has distinct keys, as every Python dictionary does.\<close>

fun value_wf :: "pyval \<Rightarrow> bool" where
  "value_wf (PyList xs) = (\<forall>x \<in> set xs. value_wf x)"
| "value_wf (PyDict d) = (dict_wf d \<and> (\<forall>p \<in> set d. value_wf (snd p)))"
| "value_wf (PyObj c d) = (dict_wf d \<and> (\<forall>p \<in> set d. value_wf (snd p)))"
| "value_wf _ = True"

lemma value_wf_dget: "value_wf (PyDict d) \<Longrightarrow> value_wf (dget d k)"
  by (cases "dict_get d k") (auto simp: dget_def dest!: map_of_SomeD)

text \<open>Only dictionaries survive \<open>_deepcopy_messages\<close>.\<close>

definition deepcopy_messages :: "pyval list \<Rightarrow> pyval list" where
  "deepcopy_messages ms = filter is_dict ms"

lemma deepcopy_messages_simps [simp]:
  "deepcopy_messages [] = []"
  "deepcopy_messages (m # ms) = (if is_dict m then m # deepcopy_messages ms else deepcopy_messages ms)"
  "deepcopy_messages (ms @ ns) = deepcopy_messages ms @ deepcopy_messages ns"
  by (simp_all add: deepcopy_messages_def)

lemma deepcopy_messages_id: "(\<forall>m \<in> set ms. is_dict m) \<Longrightarrow> deepcopy_messages ms = ms"
  by (simp add: deepcopy_messages_def)

lemma deepcopy_messages_idem [simp]:
  "deepcopy_messages (deepcopy_messages ms) = deepcopy_messages ms"
  by (simp add: deepcopy_messages_def)

lemma set_deepcopy_messages [simp]: "set (deepcopy_messages ms) = {m \<in> set ms. is_dict m}"
  by (auto simp: deepcopy_messages_def)

end
