(* ===== verification/SessionStore.thy ===== *)
theory SessionStore
  imports Leases PyValue
begin

section \<open>The in-memory session store\<close>

text \<open>
  \<open>InMemorySessionStore\<close> of \<open>src/unchain/memory/manager.py\<close>: session states with
  revisions, execution leases with fencing tokens, and cancellation tombstones. Each
  method runs under one lock, so it is one function from the store to its result and the
  new store. A method that raises still returns the store it leaves behind, because some
  paths raise after a mutation. Every reading of the injected clock is a parameter.
\<close>

record lease_record =
  last_fencing_token :: int
  last_owner_id :: string
  active :: "execution_lease option"

record session_store =
  sessions :: "string \<rightharpoonup> pydict"
  revisions :: "string \<rightharpoonup> int"
  execution_leases :: "string \<rightharpoonup> lease_record"
  execution_cancellations :: "string \<rightharpoonup> (string \<rightharpoonup> execution_cancellation)"

type_synonym 'a store_op = "session_store \<Rightarrow> (exec_exc, 'a) res \<times> session_store"

definition empty_store :: session_store where
  "empty_store = \<lparr>sessions = Map.empty, revisions = Map.empty,
     execution_leases = Map.empty, execution_cancellations = Map.empty\<rparr>"

definition empty_record :: lease_record where
  "empty_record = \<lparr>last_fencing_token = 0, last_owner_id = [], active = None\<rparr>"

subsection \<open>Checks shared by the methods\<close>

definition validate_lease_request ::
  "string \<Rightarrow> string \<Rightarrow> int option \<Rightarrow> int option \<Rightarrow> (exec_exc, unit) res" where
  "validate_lease_request eid oid ttl tok =
     (if py_strip eid = [] then Inl (ValueError ''execution_id must be a non-empty string'')
      else if py_strip oid = [] then Inl (ValueError ''owner_id must be a non-empty string'')
      else if (case ttl of None \<Rightarrow> False | Some t \<Rightarrow> t \<le> 0)
        then Inl (ValueError ''ttl_ms must be a positive integer'')
      else if (case tok of None \<Rightarrow> False | Some t \<Rightarrow> t \<le> 0)
        then Inl (ValueError ''fencing_token must be a positive integer'')
      else Inr ())"

text \<open>\<open>setdefault\<close> on the lease table, and the record it returns.\<close>

definition lease_record_unlocked :: "string \<Rightarrow> session_store \<Rightarrow> lease_record \<times> session_store" where
  "lease_record_unlocked eid st =
     (case execution_leases st eid of
        Some r \<Rightarrow> (r, st)
      | None \<Rightarrow> (empty_record,
                 st\<lparr>execution_leases := (execution_leases st)(eid \<mapsto> empty_record)\<rparr>))"

definition cancellation_of ::
  "session_store \<Rightarrow> string \<Rightarrow> string \<Rightarrow> execution_cancellation option" where
  "cancellation_of st eid oid =
     (case execution_cancellations st eid of None \<Rightarrow> None | Some m \<Rightarrow> m oid)"

definition cancelled_exc ::
  "execution_cancellation \<Rightarrow> string \<Rightarrow> string \<Rightarrow> int option \<Rightarrow> exec_exc" where
  "cancelled_exc c eid oid tok =
     LeaseExc ExecutionCancelledError
       (if canc_reason c = [] then ''execution was cancelled'' else canc_reason c)
       (Some eid) (Some oid) tok"

definition last_token :: "session_store \<Rightarrow> string \<Rightarrow> int" where
  "last_token st eid =
     (case execution_leases st eid of None \<Rightarrow> 0 | Some r \<Rightarrow> last_fencing_token r)"

definition active_lease :: "session_store \<Rightarrow> string \<Rightarrow> execution_lease option" where
  "active_lease st eid = (case execution_leases st eid of None \<Rightarrow> None | Some r \<Rightarrow> active r)"

definition assert_active_lease_unlocked ::
  "session_store \<Rightarrow> int \<Rightarrow> string \<Rightarrow> string \<Rightarrow> int \<Rightarrow> (exec_exc, execution_lease) res" where
  "assert_active_lease_unlocked st now eid oid tok =
     (let raise = (\<lambda>c m. Inl (LeaseExc c m (Some eid) (Some oid) (Some tok))) in
      case cancellation_of st eid oid of
        Some c \<Rightarrow>
          Inl (cancelled_exc c eid oid
                 (Some (case canc_token c of Some t \<Rightarrow> (if t = 0 then tok else t) | None \<Rightarrow> tok)))
      | None \<Rightarrow>
        (case active_lease st eid of
           None \<Rightarrow>
             if tok \<le> last_token st eid
             then raise StaleExecutionLeaseError
                    ''execution lease has already been released or superseded''
             else raise ExecutionLeaseNotOwnedError ''execution lease is not owned''
         | Some l \<Rightarrow>
             if tok \<noteq> lease_token l
             then raise (if tok < lease_token l then StaleExecutionLeaseError
                         else ExecutionLeaseNotOwnedError)
                    ''execution fencing token is not current''
             else if oid \<noteq> lease_owner_id l
             then raise ExecutionLeaseNotOwnedError
                    ''execution lease belongs to a different owner''
             else if lease_expires_at_ms l \<le> now
             then raise ExecutionLeaseExpiredError ''execution lease has expired''
             else Inr l))"

definition ensure_unfenced_write_allowed ::
  "session_store \<Rightarrow> int \<Rightarrow> string \<Rightarrow> (exec_exc, unit) res" where
  "ensure_unfenced_write_allowed st now sid =
     (case active_lease st sid of
        None \<Rightarrow> Inr ()
      | Some l \<Rightarrow>
          if now < lease_expires_at_ms l
          then Inl (LeaseExc ActiveExecutionLeaseError
                 ''unfenced session write is forbidden while an execution lease is active''
                 (Some sid) (Some (lease_owner_id l)) (Some (lease_token l)))
          else Inr ())"

text \<open>\<open>_validate_execution_fence_target\<close> of \<open>memory/revision.py\<close>.\<close>

definition validate_execution_fence_target :: "string \<Rightarrow> string \<Rightarrow> (exec_exc, unit) res" where
  "validate_execution_fence_target sid eid =
     (if sid = eid \<or> startswith sid (eid @ '':'') then Inr ()
      else Inl (ValueError
        ''execution fence must target its own session_id or a descendant session''))"

subsection \<open>Session state\<close>

definition revision_of :: "session_store \<Rightarrow> string \<Rightarrow> int" where
  "revision_of st sid = (case revisions st sid of None \<Rightarrow> 0 | Some n \<Rightarrow> n)"

definition state_of :: "session_store \<Rightarrow> string \<Rightarrow> pydict" where
  "state_of st sid = (case sessions st sid of None \<Rightarrow> [] | Some d \<Rightarrow> d)"

definition load :: "string \<Rightarrow> pydict store_op" where
  "load sid st = (Inr (state_of st sid), st)"

definition load_with_revision :: "string \<Rightarrow> (pydict \<times> int) store_op" where
  "load_with_revision sid st = (Inr (state_of st sid, revision_of st sid), st)"

text \<open>The write all saving methods end in: the new state and the next revision.\<close>

definition commit_state :: "string \<Rightarrow> pydict \<Rightarrow> session_store \<Rightarrow> session_store" where
  "commit_state sid d st =
     st\<lparr>sessions := (sessions st)(sid \<mapsto> d),
        revisions := (revisions st)(sid \<mapsto> revision_of st sid + 1)\<rparr>"

text \<open>The compare-and-swap of the revisioned methods.\<close>

definition cas_state :: "string \<Rightarrow> pydict \<Rightarrow> int \<Rightarrow> int store_op" where
  "cas_state sid d expected st =
     (if revision_of st sid \<noteq> expected
      then (Inl (SessionRevisionConflictError sid expected (revision_of st sid)), st)
      else (Inr (revision_of st sid + 1), commit_state sid d st))"

definition save :: "string \<Rightarrow> pydict \<Rightarrow> int \<Rightarrow> unit store_op" where
  "save sid d now st =
     (case ensure_unfenced_write_allowed st now sid of
        Inl e \<Rightarrow> (Inl e, st)
      | Inr _ \<Rightarrow> (Inr (), commit_state sid d st))"

definition save_if_revision :: "string \<Rightarrow> pydict \<Rightarrow> int \<Rightarrow> int \<Rightarrow> int store_op" where
  "save_if_revision sid d expected now st =
     (if expected < 0
      then (Inl (ValueError ''expected_revision must be a non-negative integer''), st)
      else case ensure_unfenced_write_allowed st now sid of
        Inl e \<Rightarrow> (Inl e, st)
      | Inr _ \<Rightarrow> cas_state sid d expected st)"

definition save_if_revision_and_execution_not_cancelled ::
  "string \<Rightarrow> pydict \<Rightarrow> int \<Rightarrow> string \<Rightarrow> string \<Rightarrow> int store_op" where
  "save_if_revision_and_execution_not_cancelled sid d expected eid oid st =
     (case bindr (validate_execution_fence_target sid eid) (\<lambda>_.
           bindr (validate_expected_revision (Some expected)) (\<lambda>_.
           validate_lease_request eid oid None None)) of
        Inl e \<Rightarrow> (Inl e, st)
      | Inr _ \<Rightarrow>
        (case cancellation_of st eid oid of
           Some c \<Rightarrow> (Inl (cancelled_exc c eid oid (canc_token c)), st)
         | None \<Rightarrow> cas_state sid d expected st))"

definition save_if_revision_and_execution_cancelled ::
  "string \<Rightarrow> pydict \<Rightarrow> int \<Rightarrow> string \<Rightarrow> string \<Rightarrow> int store_op" where
  "save_if_revision_and_execution_cancelled sid d expected eid oid st =
     (case bindr (validate_execution_fence_target sid eid) (\<lambda>_.
           bindr (validate_expected_revision (Some expected)) (\<lambda>_.
           validate_lease_request eid oid None None)) of
        Inl e \<Rightarrow> (Inl e, st)
      | Inr _ \<Rightarrow>
        (case cancellation_of st eid oid of
           None \<Rightarrow> (Inl (LeaseExc ExecutionLeaseError
                      ''execution cancellation is required for terminal cleanup''
                      (Some eid) (Some oid) None), st)
         | Some c \<Rightarrow> cas_state sid d expected st))"

definition save_if_revision_and_fence ::
  "string \<Rightarrow> pydict \<Rightarrow> int \<Rightarrow> string \<Rightarrow> string \<Rightarrow> int \<Rightarrow> int \<Rightarrow> int store_op" where
  "save_if_revision_and_fence sid d expected eid oid tok now st =
     (case bindr (validate_execution_fence_target sid eid) (\<lambda>_.
           bindr (validate_expected_revision (Some expected)) (\<lambda>_.
           bindr (validate_lease_request eid oid None (Some tok)) (\<lambda>_.
           assert_active_lease_unlocked st now eid oid tok))) of
        Inl e \<Rightarrow> (Inl e, st)
      | Inr _ \<Rightarrow> cas_state sid d expected st)"

subsection \<open>Leases and cancellation\<close>

definition set_record :: "string \<Rightarrow> lease_record \<Rightarrow> session_store \<Rightarrow> session_store" where
  "set_record eid r st = st\<lparr>execution_leases := (execution_leases st)(eid \<mapsto> r)\<rparr>"

text \<open>The last part of \<open>acquire_lease\<close>: a new lease under the next fencing token.\<close>

definition grant_lease ::
  "string \<Rightarrow> string \<Rightarrow> int \<Rightarrow> int \<Rightarrow> lease_record \<Rightarrow> execution_lease store_op" where
  "grant_lease eid oid ttl now r st =
     (let tok = last_fencing_token r + 1 in
      case mk_lease eid oid tok now (now + ttl) of
        Inl e \<Rightarrow> (Inl e, st)
      | Inr l \<Rightarrow> (Inr l, set_record eid
          \<lparr>last_fencing_token = tok, last_owner_id = oid, active = Some l\<rparr> st))"

definition acquire_lease ::
  "string \<Rightarrow> string \<Rightarrow> int \<Rightarrow> int option \<Rightarrow> int \<Rightarrow> execution_lease store_op" where
  "acquire_lease eid oid ttl expected now st =
     (case bindr (validate_lease_request eid oid (Some ttl) None) (\<lambda>_.
           validate_expected_revision expected) of
        Inl e \<Rightarrow> (Inl e, st)
      | Inr _ \<Rightarrow>
        (case cancellation_of st eid oid of
           Some c \<Rightarrow> (Inl (cancelled_exc c eid oid (canc_token c)), st)
         | None \<Rightarrow>
           (if (case expected of None \<Rightarrow> False | Some n \<Rightarrow> revision_of st eid \<noteq> n)
            then (Inl (SessionRevisionConflictError eid (the expected) (revision_of st eid)), st)
            else
              let (r, st1) = lease_record_unlocked eid st in
              case active r of
                None \<Rightarrow> grant_lease eid oid ttl now r st1
              | Some l \<Rightarrow>
                  if now < lease_expires_at_ms l
                  then (if lease_owner_id l = oid then (Inr l, st1)
                        else (Inl (LeaseExc ExecutionLeaseConflictError
                                ''execution is already leased by another owner''
                                (Some eid) (Some oid) (Some (lease_token l))), st1))
                  else grant_lease eid oid ttl now r st1)))"

text \<open>
  The middle of \<open>request_execution_cancel\<close>: the fencing token the tombstone records, and
  the lease of the cancelled owner cleared. It runs before the tombstone is built.
\<close>

definition revoke_owner :: "string \<Rightarrow> string \<Rightarrow> lease_record \<Rightarrow> session_store \<Rightarrow> int option \<times> session_store" where
  "revoke_owner eid oid r st =
     (if (case active r of None \<Rightarrow> False | Some l \<Rightarrow> lease_owner_id l = oid)
      then (Some (lease_token (the (active r))), set_record eid (r\<lparr>active := None\<rparr>) st)
      else if last_owner_id r = oid
      then ((if last_fencing_token r = 0 then None else Some (last_fencing_token r)), st)
      else (None, st))"

definition set_cancellations ::
  "string \<Rightarrow> (string \<rightharpoonup> execution_cancellation) \<Rightarrow> session_store \<Rightarrow> session_store" where
  "set_cancellations eid m st =
     st\<lparr>execution_cancellations := (execution_cancellations st)(eid \<mapsto> m)\<rparr>"

definition request_execution_cancel ::
  "string \<Rightarrow> string \<Rightarrow> string \<Rightarrow> int \<Rightarrow> execution_cancellation store_op" where
  "request_execution_cancel eid oid why now st =
     (case validate_lease_request eid oid None None of
        Inl e \<Rightarrow> (Inl e, st)
      | Inr _ \<Rightarrow>
        (let m = (case execution_cancellations st eid of None \<Rightarrow> Map.empty | Some m \<Rightarrow> m);
             st1 = set_cancellations eid m st
         in case m oid of
              Some c \<Rightarrow> (Inr c, st1)
            | None \<Rightarrow>
              (let (r, st2) = lease_record_unlocked eid st1;
                   (tok, st3) = revoke_owner eid oid r st2
               in case mk_cancellation eid oid tok now why of
                    Inl e \<Rightarrow> (Inl e, st3)
                  | Inr c \<Rightarrow> (Inr c, set_cancellations eid (m(oid \<mapsto> c)) st3))))"

definition load_execution_cancellation ::
  "string \<Rightarrow> string \<Rightarrow> execution_cancellation option store_op" where
  "load_execution_cancellation eid oid st =
     (case validate_lease_request eid oid None None of
        Inl e \<Rightarrow> (Inl e, st)
      | Inr _ \<Rightarrow> (Inr (cancellation_of st eid oid), st))"

definition verify_lease :: "string \<Rightarrow> string \<Rightarrow> int \<Rightarrow> int \<Rightarrow> execution_lease store_op" where
  "verify_lease eid oid tok now st =
     (bindr (validate_lease_request eid oid None (Some tok)) (\<lambda>_.
        assert_active_lease_unlocked st now eid oid tok), st)"

text \<open>The clock is read once by the ownership check and once for the new expiry.\<close>

definition renew_lease ::
  "string \<Rightarrow> string \<Rightarrow> int \<Rightarrow> int \<Rightarrow> int \<Rightarrow> int \<Rightarrow> execution_lease store_op" where
  "renew_lease eid oid tok ttl now now' st =
     (case bindr (validate_lease_request eid oid (Some ttl) (Some tok)) (\<lambda>_.
           assert_active_lease_unlocked st now eid oid tok) of
        Inl e \<Rightarrow> (Inl e, st)
      | Inr l \<Rightarrow>
        (case mk_lease (lease_execution_id l) (lease_owner_id l) (lease_token l)
                (lease_acquired_at_ms l) (max (lease_expires_at_ms l) (now' + ttl)) of
           Inl e \<Rightarrow> (Inl e, st)
         | Inr l' \<Rightarrow>
             (let (r, st1) = lease_record_unlocked eid st
              in (Inr l', set_record eid (r\<lparr>active := Some l'\<rparr>) st1))))"

definition release_lease :: "string \<Rightarrow> string \<Rightarrow> int \<Rightarrow> int \<Rightarrow> unit store_op" where
  "release_lease eid oid tok now st =
     (case validate_lease_request eid oid None (Some tok) of
        Inl e \<Rightarrow> (Inl e, st)
      | Inr _ \<Rightarrow>
        (case active_lease st eid of
           None \<Rightarrow>
             if (case execution_leases st eid of
                   None \<Rightarrow> False
                 | Some r \<Rightarrow> last_fencing_token r = tok \<and> last_owner_id r = oid)
             then (Inr (), st)
             else (map_sum id (\<lambda>_. ()) (assert_active_lease_unlocked st now eid oid tok), st)
         | Some l \<Rightarrow>
             (case assert_active_lease_unlocked st now eid oid tok of
                Inl e \<Rightarrow> (Inl e, st)
              | Inr _ \<Rightarrow>
                  (Inr (), (case execution_leases st eid of
                              None \<Rightarrow> st
                            | Some r \<Rightarrow> set_record eid (r\<lparr>active := None\<rparr>) st)))))"

end
