(* ===== verification/SessionSafety.thy ===== *)
theory SessionSafety
  imports SessionStore
begin

section \<open>Safety of leases, tombstones and revisions\<close>

text \<open>
  The store as a state machine: one call per method of \<open>InMemorySessionStore\<close>, runs as
  sequences of calls by any number of workers with any clock. The invariant ties the
  active lease to the last fencing token and keeps cancelled owners without a lease;
  from it follow that tokens only grow, that a superseded token is refused for ever, that
  a tombstone is permanent and that revisions count the writes.
\<close>

subsection \<open>How each method changes what the others observe\<close>

lemma lease_record_unlocked_frame [simp]:
  "last_token (snd (lease_record_unlocked e st)) e' = last_token st e'"
  "active_lease (snd (lease_record_unlocked e st)) e' = active_lease st e'"
  "cancellation_of (snd (lease_record_unlocked e st)) e' o' = cancellation_of st e' o'"
  "revision_of (snd (lease_record_unlocked e st)) s = revision_of st s"
  "state_of (snd (lease_record_unlocked e st)) s = state_of st s"
  by (auto simp: lease_record_unlocked_def last_token_def active_lease_def cancellation_of_def
      revision_of_def state_of_def empty_record_def split: option.splits)

lemma lease_record_unlocked_view:
  "last_fencing_token (fst (lease_record_unlocked e st)) = last_token st e"
  "active (fst (lease_record_unlocked e st)) = active_lease st e"
  by (auto simp: lease_record_unlocked_def last_token_def active_lease_def empty_record_def
      split: option.splits)

lemma set_record_frame [simp]:
  "last_token (set_record e r st) e' = (if e' = e then last_fencing_token r else last_token st e')"
  "active_lease (set_record e r st) e' = (if e' = e then active r else active_lease st e')"
  "cancellation_of (set_record e r st) e' o' = cancellation_of st e' o'"
  "revision_of (set_record e r st) s = revision_of st s"
  "state_of (set_record e r st) s = state_of st s"
  by (auto simp: set_record_def last_token_def active_lease_def cancellation_of_def
      revision_of_def state_of_def)

lemma commit_state_frame [simp]:
  "last_token (commit_state s d st) e = last_token st e"
  "active_lease (commit_state s d st) e = active_lease st e"
  "cancellation_of (commit_state s d st) e o' = cancellation_of st e o'"
  "revision_of (commit_state s d st) s' = (if s' = s then revision_of st s + 1 else revision_of st s')"
  "state_of (commit_state s d st) s' = (if s' = s then d else state_of st s')"
  by (auto simp: commit_state_def last_token_def active_lease_def cancellation_of_def
      revision_of_def state_of_def)

text \<open>The observations the safety properties are about, as one abstract state.\<close>

record store_view =
  v_token :: "string \<Rightarrow> int"
  v_active :: "string \<Rightarrow> execution_lease option"
  v_cancelled :: "string \<Rightarrow> string \<Rightarrow> execution_cancellation option"
  v_revision :: "string \<Rightarrow> int"
  v_state :: "string \<Rightarrow> pydict"

definition view :: "session_store \<Rightarrow> store_view" where
  "view st = \<lparr>v_token = last_token st, v_active = active_lease st,
     v_cancelled = cancellation_of st, v_revision = revision_of st, v_state = state_of st\<rparr>"

lemma view_lease_record_unlocked [simp]: "view (snd (lease_record_unlocked e st)) = view st"
  by (simp add: view_def fun_eq_iff)

lemma view_set_record [simp]:
  "view (set_record e r st) = (view st)\<lparr>v_token := (v_token (view st))(e := last_fencing_token r),
     v_active := (v_active (view st))(e := active r)\<rparr>"
  by (simp add: view_def fun_eq_iff)

lemma view_commit_state [simp]:
  "view (commit_state s d st) = (view st)\<lparr>v_revision := (v_revision (view st))(s := v_revision (view st) s + 1),
     v_state := (v_state (view st))(s := d)\<rparr>"
  by (simp add: view_def fun_eq_iff)

lemma view_simps [simp]:
  "v_token (view st) = last_token st" "v_active (view st) = active_lease st"
  "v_cancelled (view st) = cancellation_of st" "v_revision (view st) = revision_of st"
  "v_state (view st) = state_of st"
  by (simp_all add: view_def)

subsection \<open>The abstract transitions\<close>

text \<open>
  What a call may do to the view: nothing, grant a fresh lease, extend the active lease,
  clear it, write a session, or record a tombstone.
\<close>

inductive view_step :: "store_view \<Rightarrow> store_view \<Rightarrow> bool" where
  stutter: "view_step v v"
| grant: "lease_ok l \<Longrightarrow> lease_execution_id l = e \<Longrightarrow> lease_token l = v_token v e + 1 \<Longrightarrow>
    v_cancelled v e (lease_owner_id l) = None \<Longrightarrow>
    (\<forall>l'. v_active v e = Some l' \<longrightarrow> lease_expires_at_ms l' \<le> lease_acquired_at_ms l) \<Longrightarrow>
    view_step v (v\<lparr>v_token := (v_token v)(e := lease_token l), v_active := (v_active v)(e := Some l)\<rparr>)"
| extend: "v_active v e = Some l \<Longrightarrow> lease_ok l' \<Longrightarrow> lease_execution_id l' = lease_execution_id l \<Longrightarrow>
    lease_owner_id l' = lease_owner_id l \<Longrightarrow> lease_token l' = lease_token l \<Longrightarrow>
    lease_acquired_at_ms l' = lease_acquired_at_ms l \<Longrightarrow>
    lease_expires_at_ms l \<le> lease_expires_at_ms l' \<Longrightarrow>
    view_step v (v\<lparr>v_active := (v_active v)(e := Some l')\<rparr>)"
| clear: "view_step v (v\<lparr>v_active := (v_active v)(e := None)\<rparr>)"
| commit: "view_step v (v\<lparr>v_revision := (v_revision v)(s := v_revision v s + 1),
    v_state := (v_state v)(s := d)\<rparr>)"
| tombstone: "v_cancelled v e o' = None \<Longrightarrow> canc_execution_id c = e \<Longrightarrow> canc_owner_id c = o' \<Longrightarrow>
    (\<forall>l. act = Some l \<longrightarrow> v_active v e = Some l \<and> lease_owner_id l \<noteq> o') \<Longrightarrow>
    view_step v (v\<lparr>v_active := (v_active v)(e := act),
      v_cancelled := (v_cancelled v)(e := (v_cancelled v e)(o' := Some c))\<rparr>)"

inductive_cases view_step_cases: "view_step v v'"

subsection \<open>Calls and runs\<close>

datatype store_call =
    Load string
  | LoadWithRevision string
  | Save string pydict int
  | SaveIfRevision string pydict int int
  | SaveNotCancelled string pydict int string string
  | SaveCancelled string pydict int string string
  | SaveFenced string pydict int string string int int
  | Acquire string string int "int option" int
  | RequestCancel string string string int
  | LoadCancellation string string
  | Verify string string int int
  | Renew string string int int int int
  | Release string string int int

fun store_apply :: "store_call \<Rightarrow> session_store \<Rightarrow> session_store" where
  "store_apply (Load s) st = snd (load s st)"
| "store_apply (LoadWithRevision s) st = snd (load_with_revision s st)"
| "store_apply (Save s d now) st = snd (save s d now st)"
| "store_apply (SaveIfRevision s d n now) st = snd (save_if_revision s d n now st)"
| "store_apply (SaveNotCancelled s d n e o') st =
     snd (save_if_revision_and_execution_not_cancelled s d n e o' st)"
| "store_apply (SaveCancelled s d n e o') st =
     snd (save_if_revision_and_execution_cancelled s d n e o' st)"
| "store_apply (SaveFenced s d n e o' t now) st =
     snd (save_if_revision_and_fence s d n e o' t now st)"
| "store_apply (Acquire e o' ttl n now) st = snd (acquire_lease e o' ttl n now st)"
| "store_apply (RequestCancel e o' why now) st = snd (request_execution_cancel e o' why now st)"
| "store_apply (LoadCancellation e o') st = snd (load_execution_cancellation e o' st)"
| "store_apply (Verify e o' t now) st = snd (verify_lease e o' t now st)"
| "store_apply (Renew e o' t ttl now now') st = snd (renew_lease e o' t ttl now now' st)"
| "store_apply (Release e o' t now) st = snd (release_lease e o' t now st)"

inductive store_steps :: "session_store \<Rightarrow> session_store \<Rightarrow> bool" where
  none: "store_steps st st"
| call: "store_steps st st' \<Longrightarrow> store_steps st (store_apply c st')"

subsection \<open>The methods refine the abstract transitions\<close>

lemma validate_lease_request_ok [res_simps]:
  "validate_lease_request e o' ttl tok = Inr u \<longleftrightarrow>
     nonblank e \<and> nonblank o' \<and> (\<forall>t. ttl = Some t \<longrightarrow> 0 < t) \<and> (\<forall>t. tok = Some t \<longrightarrow> 0 < t)"
  by (auto simp: validate_lease_request_def nonblank_def split: option.splits)

lemma assert_active_ok [res_simps]:
  "assert_active_lease_unlocked st now e o' t = Inr l \<longleftrightarrow>
     cancellation_of st e o' = None \<and> active_lease st e = Some l \<and> lease_token l = t \<and>
     lease_owner_id l = o' \<and> now < lease_expires_at_ms l"
  by (auto simp: assert_active_lease_unlocked_def Let_def split: option.splits if_splits)

lemma cas_state_step: "view_step (view st) (view (snd (cas_state s d n st)))"
  by (auto simp: cas_state_def intro: view_step.stutter view_step.commit [of "view st", simplified])

lemma save_steps:
  "view_step (view st) (view (snd (save s d now st)))"
  "view_step (view st) (view (snd (save_if_revision s d n now st)))"
  "view_step (view st) (view (snd (save_if_revision_and_execution_not_cancelled s d n e o' st)))"
  "view_step (view st) (view (snd (save_if_revision_and_execution_cancelled s d n e o' st)))"
  "view_step (view st) (view (snd (save_if_revision_and_fence s d n e o' t now st)))"
  by (auto simp: save_def save_if_revision_def save_if_revision_and_execution_not_cancelled_def
      save_if_revision_and_execution_cancelled_def save_if_revision_and_fence_def
      intro: view_step.stutter cas_state_step view_step.commit [of "view st", simplified]
      split: sum.splits option.splits)

lemma grant_lease_step:
  assumes "last_fencing_token r = last_token st e" "cancellation_of st e o' = None"
    and "\<forall>l. active_lease st e = Some l \<longrightarrow> lease_expires_at_ms l \<le> now"
  shows "view_step (view st) (view (snd (grant_lease e o' ttl now r st)))"
  using assms view_step.grant [of _ e "view st"]
  by (auto simp: grant_lease_def Let_def mk_lease_Inr intro: view_step.stutter split: sum.splits)

lemma acquire_step: "view_step (view st) (view (snd (acquire_lease e o' ttl n now st)))"
proof -
  obtain r st1 where r: "lease_record_unlocked e st = (r, st1)" by force
  have v: "view st1 = view st" "last_fencing_token r = last_token st e" "active r = active_lease st e"
    using view_lease_record_unlocked [of e st] lease_record_unlocked_view [of e st] by (simp_all add: r)
  then have f: "last_token st1 = last_token st" "cancellation_of st1 = cancellation_of st"
    "active_lease st1 = active_lease st"
    by (metis view_simps)+
  note g = grant_lease_step [of r st1 e o' now ttl, unfolded v f]
  show ?thesis
    using g by (auto simp: acquire_lease_def r v intro: view_step.stutter split: sum.splits option.splits)
qed

lemma clear_active_view:
  assumes "last_fencing_token r = last_token st e"
  shows "view (set_record e (r\<lparr>active := a\<rparr>) st) = (view st)\<lparr>v_active := (active_lease st)(e := a)\<rparr>"
  using assms by (simp add: fun_upd_idem)

lemma renew_step: "view_step (view st) (view (snd (renew_lease e o' t ttl now now' st)))"
proof -
  obtain r st1 where r: "lease_record_unlocked e st = (r, st1)" by force
  have v: "view st1 = view st" "last_fencing_token r = last_token st e"
    using view_lease_record_unlocked [of e st] lease_record_unlocked_view [of e st] by (simp_all add: r)
  then have f: "last_token st1 = last_token st" "active_lease st1 = active_lease st"
    by (metis view_simps)+
  have c: "view (set_record e (r\<lparr>active := a\<rparr>) st1) = (view st)\<lparr>v_active := (active_lease st)(e := a)\<rparr>" for a
    using clear_active_view [of r st1 e a] v f by simp
  show ?thesis
    using view_step.extend [of "view st" e]
    by (auto simp: renew_lease_def r c mk_lease_Inr assert_active_ok bindr_eq_Inr simp del: view_set_record
        intro: view_step.stutter split: sum.splits)
qed

lemma release_step: "view_step (view st) (view (snd (release_lease e o' t now st)))"
proof -
  have c: "view (set_record e (r\<lparr>active := None\<rparr>) st) = (view st)\<lparr>v_active := (active_lease st)(e := None)\<rparr>"
    if "execution_leases st e = Some r" for r
    using that by (intro clear_active_view) (simp add: last_token_def)
  show ?thesis
    using view_step.clear [of "view st" e]
    by (auto simp: release_lease_def c simp del: view_set_record intro: view_step.stutter
        split: sum.splits option.splits)
qed

lemma set_cancellations_view:
  "view (set_cancellations e m st) = (view st)\<lparr>v_cancelled := (cancellation_of st)(e := m)\<rparr>"
  by (auto simp: set_cancellations_def view_def last_token_def active_lease_def cancellation_of_def
      revision_of_def state_of_def fun_eq_iff)

lemma revoke_owner_view:
  assumes "last_fencing_token r = last_token st e" "active r = active_lease st e"
    and "revoke_owner e o' r st = (tok, st')"
  obtains act where "view st' = (view st)\<lparr>v_active := (active_lease st)(e := act)\<rparr>"
    and "act = None \<or> act = active_lease st e"
    and "\<forall>l. act = Some l \<longrightarrow> active_lease st e = Some l \<and> lease_owner_id l \<noteq> o'"
proof (cases "\<exists>l. active r = Some l \<and> lease_owner_id l = o'")
  case True
  with assms show ?thesis
    by (intro that [of None]) (auto simp: revoke_owner_def clear_active_view simp del: view_set_record)
next
  case False
  with assms have "st' = st"
    by (auto simp: revoke_owner_def split: option.splits if_splits)
  with False assms(2) show ?thesis
    by (intro that [of "active_lease st e"]) (auto simp: view_def fun_upd_idem)
qed

lemma cancel_step: "view_step (view st) (view (snd (request_execution_cancel e o' why now st)))"
proof -
  define m where "m = (case execution_cancellations st e of None \<Rightarrow> Map.empty | Some m \<Rightarrow> m)"
  define st1 where "st1 = set_cancellations e m st"
  obtain r st2 where r: "lease_record_unlocked e st1 = (r, st2)" by force
  obtain tok st3 where k: "revoke_owner e o' r st2 = (tok, st3)" by force
  have m: "m = cancellation_of st e"
    by (auto simp: m_def cancellation_of_def fun_eq_iff split: option.splits)
  have v1: "view st1 = view st"
    by (simp add: st1_def set_cancellations_view m)
  have v2: "view st2 = view st"
    using view_lease_record_unlocked [of e st1] by (simp add: r v1)
  then have f: "last_token st2 = last_token st" "active_lease st2 = active_lease st"
    by (metis view_simps)+
  have "last_fencing_token r = last_token st e" "active r = active_lease st e"
    using lease_record_unlocked_view [of e st1] v1 by (metis fst_conv r view_simps(1,2))+
  with k f obtain act where act: "view st3 = (view st)\<lparr>v_active := (active_lease st)(e := act)\<rparr>"
    "act = None \<or> act = active_lease st e"
    "\<forall>l. act = Some l \<longrightarrow> active_lease st e = Some l \<and> lease_owner_id l \<noteq> o'"
    by (metis revoke_owner_view v2)
  have c3: "cancellation_of st3 = cancellation_of st"
    by (metis act(1) view_simps(3) store_view.select_convs(3) store_view.surjective store_view.update_convs(2))
  have s3: "view_step (view st) (view st3)"
    using act(1,2) view_step.clear [of "view st" e] view_step.stutter [of "view st"]
    by (auto simp: view_def fun_upd_idem)
  have "view_step (view st) (view (set_cancellations e (m(o' \<mapsto> c)) st3))"
    if "mk_cancellation e o' tok now why = Inr c" "m o' = None" for c
    using that view_step.tombstone [of "view st" e o' c act] act(1,3) c3
    by (simp add: set_cancellations_view mk_cancellation_Inr m)
  with s3 show ?thesis
    by (auto simp: request_execution_cancel_def m_def [symmetric] st1_def [symmetric] r k v1 Let_def
        intro: view_step.stutter split: sum.splits option.splits)
qed

text \<open>Every call of the store is a transition of the abstract machine.\<close>

lemma store_apply_step: "view_step (view st) (view (store_apply c st))"
  by (cases c) (auto intro: view_step.stutter save_steps acquire_step renew_step release_step cancel_step
      simp: load_def load_with_revision_def verify_lease_def load_execution_cancellation_def
      split: sum.splits)

subsection \<open>The invariant of the abstract machine\<close>

definition view_inv :: "store_view \<Rightarrow> bool" where
  "view_inv v \<longleftrightarrow>
     (\<forall>e. 0 \<le> v_token v e) \<and> (\<forall>s. 0 \<le> v_revision v s) \<and>
     (\<forall>e l. v_active v e = Some l \<longrightarrow>
        lease_ok l \<and> lease_execution_id l = e \<and> lease_token l = v_token v e \<and>
        v_cancelled v e (lease_owner_id l) = None) \<and>
     (\<forall>e o' c. v_cancelled v e o' = Some c \<longrightarrow> canc_execution_id c = e \<and> canc_owner_id c = o')"

lemma view_step_inv: "view_step v v' \<Longrightarrow> view_inv v \<Longrightarrow> view_inv v'"
proof (induction rule: view_step.induct)
  case (grant l e v)
  then show ?case by (auto simp: view_inv_def intro: add_nonneg_nonneg)
next
  case (commit v s d)
  then show ?case by (auto simp: view_inv_def intro: add_nonneg_nonneg)
qed (fastforce simp: view_inv_def)+

lemma view_step_token_mono: "view_step v v' \<Longrightarrow> v_token v e \<le> v_token v' e"
  by (induction rule: view_step.induct) auto

lemma view_step_revision_mono: "view_step v v' \<Longrightarrow> v_revision v s \<le> v_revision v' s"
  by (induction rule: view_step.induct) auto

lemma view_step_tombstone_stays:
  "view_step v v' \<Longrightarrow> v_cancelled v e o' = Some c \<Longrightarrow> v_cancelled v' e o' = Some c"
  by (induction rule: view_step.induct) auto

text \<open>A token that was issued and is no longer the active one is dead.\<close>

definition dead_token :: "store_view \<Rightarrow> string \<Rightarrow> int \<Rightarrow> bool" where
  "dead_token v e t \<longleftrightarrow> t \<le> v_token v e \<and> (\<forall>l. v_active v e = Some l \<longrightarrow> lease_token l \<noteq> t)"

lemma view_step_dead_token: "view_step v v' \<Longrightarrow> dead_token v e t \<Longrightarrow> dead_token v' e t"
  by (induction rule: view_step.induct) (auto simp: dead_token_def split: if_splits)

lemma store_steps_keep:
  assumes "store_steps st st'" "P (view st)"
    and keep: "\<And>v v'. view_step v v' \<Longrightarrow> P v \<Longrightarrow> P v'"
  shows "P (view st')"
  using assms(1,2) by (induction rule: store_steps.induct) (auto intro: keep store_apply_step)

text \<open>
  How the lease of an execution may change while others call the store: the same grant,
  extended, or a grant with a newer token.
\<close>

definition evolves :: "execution_lease \<Rightarrow> execution_lease \<Rightarrow> bool" where
  "evolves l l' \<longleftrightarrow>
     lease_execution_id l' = lease_execution_id l \<and> lease_owner_id l' = lease_owner_id l \<and>
     lease_token l' = lease_token l \<and> lease_acquired_at_ms l' = lease_acquired_at_ms l \<and>
     lease_expires_at_ms l \<le> lease_expires_at_ms l'"

definition evolved :: "store_view \<Rightarrow> store_view \<Rightarrow> string \<Rightarrow> bool" where
  "evolved v0 v e \<longleftrightarrow> v_token v0 e \<le> v_token v e \<and>
     (\<forall>l'. v_active v e = Some l' \<longrightarrow>
        (\<exists>l. v_active v0 e = Some l \<and> evolves l l') \<or> v_token v0 e < lease_token l')"

lemma evolved_refl: "evolved v v e"
  by (auto simp: evolved_def evolves_def)

lemma view_step_evolved: "view_step v v' \<Longrightarrow> evolved v0 v e \<Longrightarrow> evolved v0 v' e"
proof (induction rule: view_step.induct)
  case (extend v e' l l')
  then show ?case by (fastforce simp: evolved_def evolves_def)
next
  case (tombstone v e' o' c act)
  then show ?case by (cases act) (auto simp: evolved_def)
qed (auto simp: evolved_def)

definition store_inv :: "session_store \<Rightarrow> bool" where
  "store_inv st \<longleftrightarrow>
     (\<forall>e. 0 \<le> last_token st e) \<and> (\<forall>s. 0 \<le> revision_of st s) \<and>
     (\<forall>e l. active_lease st e = Some l \<longrightarrow>
        lease_ok l \<and> lease_execution_id l = e \<and> lease_token l = last_token st e \<and>
        cancellation_of st e (lease_owner_id l) = None) \<and>
     (\<forall>e o' c. cancellation_of st e o' = Some c \<longrightarrow> canc_execution_id c = e \<and> canc_owner_id c = o')"

lemma store_inv_view: "store_inv st \<longleftrightarrow> view_inv (view st)"
  by (simp add: store_inv_def view_inv_def)

lemma store_inv_empty: "store_inv empty_store"
  by (simp add: store_inv_def empty_store_def last_token_def revision_of_def active_lease_def cancellation_of_def)

lemma store_inv_steps: "store_steps st st' \<Longrightarrow> store_inv st \<Longrightarrow> store_inv st'"
  unfolding store_inv_view by (rule store_steps_keep [where P = view_inv]) (auto intro: view_step_inv)

subsection \<open>Properties of the store\<close>

text \<open>
  C3: in every store reachable from the empty one by any sequence of calls, whatever their
  arguments, errors and clock readings, the active lease of an execution carries the last
  fencing token issued for it, is well formed, and belongs to an owner that is not cancelled;
  tokens and revisions are never negative.
\<close>
theorem lease_store_invariant:
  assumes "store_steps empty_store st"
  shows "store_inv st"
  using assms store_inv_empty by (rule store_inv_steps)

text \<open>
  C4: a fencing token that was issued and has since been released, superseded or revoked is
  refused by every fenced operation in every later state, under every owner and clock.
\<close>
theorem dead_token_refused_forever:
  assumes "t \<le> last_token st e"
    and "\<forall>l. active_lease st e = Some l \<longrightarrow> lease_token l \<noteq> t"
    and "store_steps st st'"
  shows "\<not> is_ok (fst (verify_lease e o' t now st')) \<and>
         \<not> is_ok (fst (renew_lease e o' t ttl now now' st')) \<and>
         \<not> is_ok (fst (save_if_revision_and_fence s d n e o' t now st'))"
proof (intro conjI)
  have "dead_token (view st') e t"
    using assms(3) _ view_step_dead_token
    by (rule store_steps_keep) (use assms(1,2) in \<open>simp add: dead_token_def\<close>)
  then have no: "assert_active_lease_unlocked st' now e o' t \<noteq> Inr l" for l now
    by (auto simp: dead_token_def assert_active_ok)
  show "\<not> is_ok (fst (verify_lease e o' t now st'))"
    by (auto simp: verify_lease_def is_ok_iff bindr_eq_Inr no)
  show "\<not> is_ok (fst (renew_lease e o' t ttl now now' st'))"
    by (auto simp: renew_lease_def is_ok_iff bindr_eq_Inr no split: sum.splits)
  show "\<not> is_ok (fst (save_if_revision_and_fence s d n e o' t now st'))"
    by (auto simp: save_if_revision_and_fence_def is_ok_iff bindr_eq_Inr no split: sum.splits)
qed

text \<open>
  C15: once an owner's execution is cancelled, that owner can never again acquire, verify or
  renew the lease, nor write under its fence or as a live attempt, in any later state.
\<close>
theorem cancelled_owner_locked_out:
  assumes "cancellation_of st e o' = Some c" and "store_steps st st'"
  shows "\<not> is_ok (fst (acquire_lease e o' ttl n now st')) \<and>
         \<not> is_ok (fst (verify_lease e o' t now st')) \<and>
         \<not> is_ok (fst (renew_lease e o' t ttl now now' st')) \<and>
         \<not> is_ok (fst (save_if_revision_and_fence s d r e o' t now st')) \<and>
         \<not> is_ok (fst (save_if_revision_and_execution_not_cancelled s d r e o' st'))"
proof -
  have "v_cancelled (view st') e o' = Some c"
    using assms(2) _ view_step_tombstone_stays
    by (rule store_steps_keep) (use assms(1) in simp)
  then have c: "cancellation_of st' e o' = Some c" by simp
  then have no: "assert_active_lease_unlocked st' now e o' t \<noteq> Inr l" for l now t
    by (simp add: assert_active_ok)
  from c no show ?thesis
    by (auto simp: acquire_lease_def verify_lease_def renew_lease_def save_if_revision_and_fence_def
        save_if_revision_and_execution_not_cancelled_def is_ok_iff bindr_eq_Inr split: sum.splits)
qed

text \<open>
  At one instant at most one owner holds an execution: if two workers' presented
  credentials both pass verification against the same store, they are the same owner with
  the same token, and it is the last token issued.
\<close>
theorem single_lease_holder:
  assumes "store_steps empty_store st"
    and "fst (verify_lease e o1 t1 now1 st) = Inr l1"
    and "fst (verify_lease e o2 t2 now2 st) = Inr l2"
  shows "o1 = o2 \<and> t1 = t2 \<and> l1 = l2 \<and> t1 = last_token st e"
proof -
  have "store_inv st"
    using assms(1) store_inv_empty by (rule store_inv_steps)
  with assms(2,3) show ?thesis
    by (auto simp: verify_lease_def bindr_eq_Inr assert_active_ok store_inv_def)
qed

lemma grant_lease_Inr:
  "grant_lease e o' ttl now r st = (Inr l, st') \<longleftrightarrow>
     mk_lease e o' (last_fencing_token r + 1) now (now + ttl) = Inr l \<and>
     st' = set_record e \<lparr>last_fencing_token = last_fencing_token r + 1, last_owner_id = o',
             active = Some l\<rparr> st"
  by (auto simp: grant_lease_def Let_def split: sum.splits)

lemma acquire_Inr_cases:
  assumes "acquire_lease e o' ttl n now st = (Inr l', st')"
  obtains (reuse) "active_lease st e = Some l'" "lease_owner_id l' = o'" "now < lease_expires_at_ms l'"
      "st' = st"
    | (fresh) "lease_ok l'" "l' = \<lparr>lease_execution_id = e, lease_owner_id = o',
        lease_token = last_token st e + 1, lease_acquired_at_ms = now, lease_expires_at_ms = now + ttl\<rparr>"
      "\<forall>l. active_lease st e = Some l \<longrightarrow> lease_expires_at_ms l \<le> now"
      "active_lease st' e = Some l'" "last_token st' e = last_token st e + 1"
proof -
  obtain r st1 where r: "lease_record_unlocked e st = (r, st1)" by force
  have v: "last_fencing_token r = last_token st e" "active r = active_lease st e"
    using lease_record_unlocked_view [of e st] by (simp_all add: r)
  have same: "st1 = st" if "active_lease st e = Some l" for l
    using r that by (auto simp: lease_record_unlocked_def active_lease_def split: option.splits)
  show ?thesis
  proof (cases "\<exists>l. active_lease st e = Some l \<and> now < lease_expires_at_ms l")
    case True
    with assms v same show ?thesis
      by (intro reuse) (auto simp: acquire_lease_def r split: sum.splits option.splits if_splits)
  next
    case False
    with assms v have "grant_lease e o' ttl now r st1 = (Inr l', st')"
      by (auto simp: acquire_lease_def r split: sum.splits option.splits if_splits)
    with False v show ?thesis
      by (intro fresh) (auto simp: grant_lease_Inr mk_lease_Inr)
  qed
qed

text \<open>
  A worker takes over an execution held by another owner only once that lease has expired,
  and it then holds a strictly newer fencing token, which is the last token of the execution.
\<close>
theorem takeover_after_expiry:
  assumes "acquire_lease e o' ttl n now st = (Inr l', st')"
    and "active_lease st e = Some l" and "lease_owner_id l \<noteq> o'"
  shows "lease_expires_at_ms l \<le> now \<and> last_token st e < lease_token l' \<and>
         last_token st' e = lease_token l' \<and> active_lease st' e = Some l'"
  using assms(1) by (cases rule: acquire_Inr_cases) (use assms(2,3) in auto)

text \<open>
  A fenced write that succeeds was made by the current, unexpired holder at the expected
  revision; it stores exactly the given state under the next revision and changes neither any
  other session nor any lease or tombstone. A fenced write that fails changes nothing.
\<close>
theorem fenced_write_effect:
  assumes "save_if_revision_and_fence s d n e o' t now st = (res, st')"
  shows "(case res of
            Inl _ \<Rightarrow> st' = st
          | Inr n' \<Rightarrow>
              revision_of st s = n \<and> n' = n + 1 \<and>
              (\<exists>l. active_lease st e = Some l \<and> lease_owner_id l = o' \<and> lease_token l = t \<and>
                   now < lease_expires_at_ms l \<and> cancellation_of st e o' = None) \<and>
              load_with_revision s st' = (Inr (d, n'), st') \<and>
              (\<forall>s'. s' \<noteq> s \<longrightarrow> load_with_revision s' st' = (fst (load_with_revision s' st), st')) \<and>
              active_lease st' = active_lease st \<and> cancellation_of st' = cancellation_of st)"
  using assms
  by (auto simp: save_if_revision_and_fence_def cas_state_def load_with_revision_def bindr_eq_Inr
      assert_active_ok fun_eq_iff split: sum.splits if_splits)

text \<open>
  While an execution lease is unexpired, no unfenced write to its session succeeds, whatever
  revision the writer presents, and the store is left as it was.
\<close>
theorem unfenced_write_blocked:
  assumes "active_lease st s = Some l" and "now < lease_expires_at_ms l"
  shows "\<not> is_ok (fst (save s d now st)) \<and> snd (save s d now st) = st \<and>
         \<not> is_ok (fst (save_if_revision s d n now st)) \<and> snd (save_if_revision s d n now st) = st"
  using assms
  by (auto simp: save_def save_if_revision_def ensure_unfenced_write_allowed_def)

text \<open>
  Progress: when no unexpired lease stands in the way, a valid request of an owner that is
  not cancelled, at a matching revision and a non-negative clock, is granted, under the token
  after the last one, and the granted lease verifies until it expires.
\<close>
theorem acquire_progress:
  assumes "nonblank e" "nonblank o'" "0 < ttl" "0 \<le> now"
    and "store_inv st" and "cancellation_of st e o' = None"
    and "\<forall>k. n = Some k \<longrightarrow> 0 \<le> k \<and> revision_of st e = k"
    and "\<forall>l. active_lease st e = Some l \<longrightarrow> lease_expires_at_ms l \<le> now"
    and "now' < now + ttl"
  shows "\<exists>l st'. acquire_lease e o' ttl n now st = (Inr l, st') \<and>
           lease_token l = last_token st e + 1 \<and> lease_expires_at_ms l = now + ttl \<and>
           verify_lease e o' (lease_token l) now' st' = (Inr l, st')"
proof -
  obtain r st1 where r: "lease_record_unlocked e st = (r, st1)" by force
  have v: "last_fencing_token r = last_token st e" "active r = active_lease st e"
    and c: "cancellation_of st1 = cancellation_of st"
    using lease_record_unlocked_view [of e st] lease_record_unlocked_frame(3) [of e st]
    by (auto simp: r fun_eq_iff)
  define l where "l = \<lparr>lease_execution_id = e, lease_owner_id = o',
    lease_token = last_token st e + 1, lease_acquired_at_ms = now, lease_expires_at_ms = now + ttl\<rparr>"
  have tok: "0 \<le> last_token st e"
    using assms(5) by (simp add: store_inv_def)
  then have mk: "mk_lease e o' (last_token st e + 1) now (now + ttl) = Inr l"
    using assms by (simp add: mk_lease_Inr l_def lease_ok_def)
  have val: "validate_lease_request e o' (Some ttl) None = Inr ()" "validate_expected_revision n = Inr n"
    using assms by (auto simp: res_simps)
  define st' where "st' = set_record e
    \<lparr>last_fencing_token = last_token st e + 1, last_owner_id = o', active = Some l\<rparr> st1"
  have "acquire_lease e o' ttl n now st = grant_lease e o' ttl now r st1"
    using assms v by (auto simp: acquire_lease_def r val split: option.splits)
  then have acq: "acquire_lease e o' ttl n now st = (Inr l, st')"
    by (simp add: grant_lease_def Let_def v mk st'_def)
  have "verify_lease e o' (lease_token l) now' st' = (Inr l, st')"
    using assms tok
    by (auto simp: verify_lease_def st'_def bindr_eq_Inr validate_lease_request_ok assert_active_ok c l_def)
  with acq show ?thesis by (auto simp: l_def)
qed

subsection \<open>Concrete runs\<close>

text \<open>
  One worker acquires execution \<open>run\<close> for a second at time 5; it releases; or the user stops
  it; or a second worker takes over after the expiry.
\<close>

definition demo_store :: session_store where
  "demo_store = store_apply (Acquire ''run'' ''w1'' 1000 None 5) empty_store"

definition demo_released :: session_store where
  "demo_released = store_apply (Release ''run'' ''w1'' 1 6) demo_store"

definition demo_cancelled :: session_store where
  "demo_cancelled = store_apply (RequestCancel ''run'' ''w1'' ''stop'' 7) demo_store"

definition demo_lease :: execution_lease where
  "demo_lease = \<lparr>lease_execution_id = ''run'', lease_owner_id = ''w1'', lease_token = 1,
     lease_acquired_at_ms = 5, lease_expires_at_ms = 1005\<rparr>"

definition demo_takeover :: execution_lease where
  "demo_takeover = \<lparr>lease_execution_id = ''run'', lease_owner_id = ''w2'', lease_token = 2,
     lease_acquired_at_ms = 2000, lease_expires_at_ms = 3000\<rparr>"

lemma demo_store_steps: "store_steps empty_store demo_store"
  unfolding demo_store_def by (rule store_steps.call [OF store_steps.none])

lemma demo_store_active: "active_lease demo_store ''run'' = Some demo_lease"
  by code_simp

lemma demo_verify: "fst (verify_lease ''run'' ''w1'' 1 6 demo_store) = Inr demo_lease"
  by code_simp

theorem lease_store_invariant_witness: "store_steps empty_store demo_store \<and> store_inv demo_store"
  using lease_store_invariant [OF demo_store_steps] demo_store_steps by simp

theorem dead_token_refused_forever_witness:
  "1 \<le> last_token demo_released ''run'' \<and> active_lease demo_released ''run'' = None \<and>
   \<not> is_ok (fst (renew_lease ''run'' ''w1'' 1 1000 7 7 demo_released))"
proof -
  have t: "(1::int) \<le> last_token demo_released ''run''" by code_simp
  have a: "active_lease demo_released ''run'' = None" by code_simp
  show ?thesis
    using dead_token_refused_forever [OF t _ store_steps.none, of "''w1''" 7 1000 7] t a by simp
qed

theorem cancelled_owner_locked_out_witness:
  "cancellation_of demo_cancelled ''run'' ''w1'' \<noteq> None \<and>
   \<not> is_ok (fst (acquire_lease ''run'' ''w1'' 1000 None 9 demo_cancelled))"
proof -
  have "cancellation_of demo_cancelled ''run'' ''w1'' \<noteq> None" by code_simp
  then obtain c where "cancellation_of demo_cancelled ''run'' ''w1'' = Some c" by auto
  from cancelled_owner_locked_out [OF this store_steps.none, of 1000 None 9] this show ?thesis by simp
qed

theorem single_lease_holder_witness:
  "is_ok (fst (verify_lease ''run'' ''w1'' 1 6 demo_store)) \<and> (1::int) = last_token demo_store ''run''"
  using single_lease_holder [OF demo_store_steps demo_verify demo_verify] demo_verify by simp

theorem takeover_after_expiry_witness:
  "active_lease demo_store ''run'' = Some demo_lease \<and>
   fst (acquire_lease ''run'' ''w2'' 1000 None 2000 demo_store) = Inr demo_takeover \<and>
   lease_expires_at_ms demo_lease \<le> 2000 \<and> last_token demo_store ''run'' < lease_token demo_takeover"
proof -
  obtain st' where a: "acquire_lease ''run'' ''w2'' 1000 None 2000 demo_store = (Inr demo_takeover, st')"
  proof
    have "fst (acquire_lease ''run'' ''w2'' 1000 None 2000 demo_store) = Inr demo_takeover" by code_simp
    then show "acquire_lease ''run'' ''w2'' 1000 None 2000 demo_store =
      (Inr demo_takeover, snd (acquire_lease ''run'' ''w2'' 1000 None 2000 demo_store))"
      by (metis prod.collapse)
  qed
  have "lease_owner_id demo_lease \<noteq> ''w2''" by code_simp
  from takeover_after_expiry [OF a demo_store_active this] a demo_store_active show ?thesis by simp
qed

theorem fenced_write_effect_witness:
  "fst (save_if_revision_and_fence ''run'' [] 0 ''run'' ''w1'' 1 6 demo_store) = Inr 1 \<and>
   fst (load_with_revision ''run'' (snd (save_if_revision_and_fence ''run'' [] 0 ''run'' ''w1'' 1 6 demo_store))) = Inr ([], 1)"
proof -
  have f: "fst (save_if_revision_and_fence ''run'' [] 0 ''run'' ''w1'' 1 6 demo_store) = Inr 1" by code_simp
  from fenced_write_effect [OF prod.collapse [symmetric], of "''run''" "[]" 0 "''run''" "''w1''" 1 6 demo_store] f
  show ?thesis by simp
qed

theorem unfenced_write_blocked_witness:
  "active_lease demo_store ''run'' = Some demo_lease \<and>
   \<not> is_ok (fst (save_if_revision ''run'' [] 0 6 demo_store))"
proof -
  have "6 < lease_expires_at_ms demo_lease" by code_simp
  from unfenced_write_blocked [OF demo_store_active this] demo_store_active show ?thesis by simp
qed

theorem acquire_progress_witness:
  "\<exists>l st'. acquire_lease ''run'' ''w1'' 1000 None 5 empty_store = (Inr l, st') \<and>
     lease_token l = 1 \<and> verify_lease ''run'' ''w1'' 1 6 st' = (Inr l, st')"
proof -
  have n: "nonblank ''run''" "nonblank ''w1''" by code_simp+
  have e: "cancellation_of empty_store ''run'' ''w1'' = None" "active_lease empty_store ''run'' = None"
    "last_token empty_store ''run'' = 0" by code_simp+
  show ?thesis
    using acquire_progress [OF n _ _ store_inv_empty e(1), of 1000 5 None 6] e(2,3) by auto
qed

end
