(* ===== verification/ExecutionGuard.thy ===== *)
theory ExecutionGuard
  imports SessionSafety
begin

section \<open>Execution guards over a lease store\<close>

text \<open>
  \<open>ExecutionRuntime\<close>, \<open>ExecutionGuard\<close>, \<open>_BorrowedExecutionGuard\<close> and
  \<open>_GuardedModelIO\<close> of \<open>src/unchain/execution.py\<close>. The guard calls any object that
  implements the \<open>ExecutionLeaseStore\<close> protocol, so every operation takes the store method
  it calls as an argument; \<open>'c\<close> is what the store reads from its environment during one call
  (its clock), \<open>'s\<close> the store. A guard method runs under the guard's lock: it maps guard and
  store to a result, the guard and the store. The locale \<open>lease_store\<close> states what the guard
  relies on, and the in-memory store is its interpretation.
\<close>

type_synonym ('c, 's) acquire_op =
  "'c \<Rightarrow> string \<Rightarrow> string \<Rightarrow> int \<Rightarrow> int option \<Rightarrow> 's \<Rightarrow> (exec_exc, execution_lease) res \<times> 's"
type_synonym ('c, 's) verify_op =
  "'c \<Rightarrow> string \<Rightarrow> string \<Rightarrow> int \<Rightarrow> 's \<Rightarrow> (exec_exc, execution_lease) res \<times> 's"
type_synonym ('c, 's) renew_op =
  "'c \<Rightarrow> string \<Rightarrow> string \<Rightarrow> int \<Rightarrow> int \<Rightarrow> 's \<Rightarrow> (exec_exc, execution_lease) res \<times> 's"
type_synonym ('c, 's) release_op =
  "'c \<Rightarrow> string \<Rightarrow> string \<Rightarrow> int \<Rightarrow> 's \<Rightarrow> (exec_exc, unit) res \<times> 's"

datatype guard_state = GActive | GWaiting | GReleased

record exec_guard =
  g_lease :: execution_lease
  g_state :: guard_state
  g_heartbeat_error :: "exec_exc option"
  g_heartbeat_stop :: bool
  g_heartbeat_running :: bool

subsection \<open>Operations of the guard\<close>

definition guard_exc :: "lease_class \<Rightarrow> string \<Rightarrow> execution_lease \<Rightarrow> exec_exc" where
  "guard_exc c m l =
     LeaseExc c m (Some (lease_execution_id l)) (Some (lease_owner_id l)) (Some (lease_token l))"

definition validate_store_lease ::
  "execution_lease \<Rightarrow> string \<Rightarrow> string \<Rightarrow> int option \<Rightarrow> (exec_exc, execution_lease) res" where
  "validate_store_lease l eid oid tok =
     (if lease_execution_id l \<noteq> eid \<or> lease_owner_id l \<noteq> oid
      then Inl (LeaseExc ExecutionLeaseNotOwnedError
             ''execution lease store returned ownership for a different execution''
             (Some eid) (Some oid) tok)
      else if (case tok of None \<Rightarrow> False | Some t \<Rightarrow> lease_token l \<noteq> t)
      then Inl (LeaseExc StaleExecutionLeaseError
             ''execution lease store changed the fencing token unexpectedly''
             (Some eid) (Some oid) tok)
      else Inr l)"

text \<open>\<open>__init__\<close> starts the heartbeat thread unless its interval is zero.\<close>

definition guard_init :: "lease_config \<Rightarrow> execution_lease \<Rightarrow> exec_guard" where
  "guard_init cfg l =
     \<lparr>g_lease = l, g_state = GActive, g_heartbeat_error = None, g_heartbeat_stop = False,
      g_heartbeat_running = (cfg_heartbeat_interval_ms cfg \<noteq> 0)\<rparr>"

definition not_active_error :: "exec_guard \<Rightarrow> exec_exc" where
  "not_active_error g =
     guard_exc ExecutionLeaseNotOwnedError
       (if g_state g = GWaiting then ''execution lease is released while waiting''
        else ''execution lease guard has been released'') (g_lease g)"

definition ensure_active :: "exec_guard \<Rightarrow> (exec_exc, unit) res" where
  "ensure_active g =
     (if g_state g \<noteq> GActive then Inl (not_active_error g)
      else case g_heartbeat_error g of Some e \<Rightarrow> Inl e | None \<Rightarrow> Inr ())"

definition guard_fence :: "exec_guard \<Rightarrow> (exec_exc, execution_fence) res" where
  "guard_fence g = bindr (ensure_active g) (\<lambda>_. lease_fence (g_lease g))"

definition guard_assert_active ::
  "('c, 's) verify_op \<Rightarrow> 'c \<Rightarrow> exec_guard \<Rightarrow> 's \<Rightarrow> (exec_exc, execution_lease) res \<times> exec_guard \<times> 's" where
  "guard_assert_active verify c g s =
     (case ensure_active g of
        Inl e \<Rightarrow> (Inl e, g, s)
      | Inr _ \<Rightarrow>
        (let l = g_lease g;
             (r, s') = verify c (lease_execution_id l) (lease_owner_id l) (lease_token l) s
         in case bindr r (\<lambda>v. validate_store_lease v (lease_execution_id l) (lease_owner_id l)
                                 (Some (lease_token l))) of
              Inl e \<Rightarrow> (Inl e, g, s')
            | Inr v \<Rightarrow> (Inr v, g\<lparr>g_lease := v\<rparr>, s')))"

definition renew_locked ::
  "('c, 's) renew_op \<Rightarrow> lease_config \<Rightarrow> 'c \<Rightarrow> exec_guard \<Rightarrow> 's \<Rightarrow>
     (exec_exc, execution_lease) res \<times> exec_guard \<times> 's" where
  "renew_locked renew cfg c g s =
     (let l = g_lease g;
          (r, s') = renew c (lease_execution_id l) (lease_owner_id l) (lease_token l)
                      (cfg_ttl_ms cfg) s
      in case bindr r (\<lambda>v. validate_store_lease v (lease_execution_id l) (lease_owner_id l)
                              (Some (lease_token l))) of
           Inl e \<Rightarrow> (Inl e, g, s')
         | Inr v \<Rightarrow>
             if lease_acquired_at_ms v \<noteq> lease_acquired_at_ms l
             then (Inl (guard_exc ExecutionLeaseError
                     ''execution lease store changed acquired_at_ms during renewal'' l), g, s')
             else if lease_expires_at_ms v < lease_expires_at_ms l
             then (Inl (guard_exc ExecutionLeaseError
                     ''execution lease store shortened the lease during renewal'' l), g, s')
             else (Inr v, g\<lparr>g_lease := v\<rparr>, s'))"

definition guard_renew ::
  "('c, 's) renew_op \<Rightarrow> lease_config \<Rightarrow> 'c \<Rightarrow> exec_guard \<Rightarrow> 's \<Rightarrow>
     (exec_exc, execution_lease) res \<times> exec_guard \<times> 's" where
  "guard_renew renew cfg c g s =
     (case ensure_active g of
        Inl e \<Rightarrow> (Inl e, g, s)
      | Inr _ \<Rightarrow> renew_locked renew cfg c g s)"

text \<open>
  \<open>release\<close> and \<open>release_for_wait\<close> first ask the heartbeat thread to stop and join it on
  every path, also when the store refuses the release.
\<close>

definition heartbeat_halted :: "exec_guard \<Rightarrow> exec_guard" where
  "heartbeat_halted g = g\<lparr>g_heartbeat_stop := True, g_heartbeat_running := False\<rparr>"

definition guard_release ::
  "('c, 's) release_op \<Rightarrow> 'c \<Rightarrow> exec_guard \<Rightarrow> 's \<Rightarrow> (exec_exc, unit) res \<times> exec_guard \<times> 's" where
  "guard_release release c g s =
     (let g1 = heartbeat_halted g; l = g_lease g in
      case g_state g of
        GReleased \<Rightarrow> (Inr (), g1, s)
      | GWaiting \<Rightarrow> (Inr (), g1\<lparr>g_state := GReleased, g_heartbeat_error := None\<rparr>, s)
      | GActive \<Rightarrow>
          (case release c (lease_execution_id l) (lease_owner_id l) (lease_token l) s of
             (Inl e, s') \<Rightarrow> (Inl e, g1, s')
           | (Inr _, s') \<Rightarrow> (Inr (), g1\<lparr>g_state := GReleased, g_heartbeat_error := None\<rparr>, s')))"

definition guard_release_for_wait ::
  "('c, 's) release_op \<Rightarrow> 'c \<Rightarrow> exec_guard \<Rightarrow> 's \<Rightarrow> (exec_exc, unit) res \<times> exec_guard \<times> 's" where
  "guard_release_for_wait release c g s =
     (let g1 = heartbeat_halted g; l = g_lease g in
      case g_state g of
        GWaiting \<Rightarrow> (Inr (), g1, s)
      | GReleased \<Rightarrow> (Inl (not_active_error g), g1, s)
      | GActive \<Rightarrow>
          (case release c (lease_execution_id l) (lease_owner_id l) (lease_token l) s of
             (Inl e, s') \<Rightarrow> (Inl e, g1, s')
           | (Inr _, s') \<Rightarrow> (Inr (), g1\<lparr>g_state := GWaiting, g_heartbeat_error := None\<rparr>, s')))"

definition guard_reacquire ::
  "('c, 's) acquire_op \<Rightarrow> lease_config \<Rightarrow> 'c \<Rightarrow> int option \<Rightarrow> exec_guard \<Rightarrow> 's \<Rightarrow>
     (exec_exc, execution_lease) res \<times> exec_guard \<times> 's" where
  "guard_reacquire acquire cfg c expected g s =
     (case validate_expected_revision expected of
        Inl e \<Rightarrow> (Inl e, g, s)
      | Inr n \<Rightarrow>
        if g_state g \<noteq> GWaiting
        then (Inl (guard_exc ActiveExecutionLeaseError
                ''execution guard can only reacquire after release_for_wait'' (g_lease g)), g, s)
        else
          (let p = g_lease g;
               (r, s') = acquire c (lease_execution_id p) (lease_owner_id p) (cfg_ttl_ms cfg) n s
           in case bindr r (\<lambda>l. validate_store_lease l (lease_execution_id p) (lease_owner_id p) None) of
                Inl e \<Rightarrow> (Inl e, g, s')
              | Inr l \<Rightarrow>
                  if lease_token l \<le> lease_token p
                  then (Inl (LeaseExc StaleExecutionLeaseError
                          ''reacquiring an execution must advance its fencing token''
                          (Some (lease_execution_id p)) (Some (lease_owner_id p))
                          (Some (lease_token l))), g, s')
                  else (Inr l, guard_init cfg l, s')))"

text \<open>
  One wake-up of the heartbeat thread whose wait timed out: it ends when it was asked to stop or
  the guard is not active, renews otherwise, and records the exception of a failed renewal.
\<close>

definition heartbeat_tick ::
  "('c, 's) renew_op \<Rightarrow> lease_config \<Rightarrow> 'c \<Rightarrow> exec_guard \<Rightarrow> 's \<Rightarrow> exec_guard \<times> 's" where
  "heartbeat_tick renew cfg c g s =
     (if \<not> g_heartbeat_running g then (g, s)
      else if g_heartbeat_stop g \<or> g_state g \<noteq> GActive
      then (g\<lparr>g_heartbeat_running := False\<rparr>, s)
      else case renew_locked renew cfg c g s of
             (Inr _, g', s') \<Rightarrow> (g', s')
           | (Inl e, g', s') \<Rightarrow>
               (g'\<lparr>g_heartbeat_error := Some e, g_heartbeat_stop := True,
                   g_heartbeat_running := False\<rparr>, s'))"

subsection \<open>The runtime\<close>

text \<open>\<open>fresh\<close> is the identifier \<open>uuid.uuid4()\<close> gives when no owner is named.\<close>

definition runtime_acquire ::
  "('c, 's) acquire_op \<Rightarrow> lease_config \<Rightarrow> 'c \<Rightarrow> string \<Rightarrow> string option \<Rightarrow> string \<Rightarrow> int option \<Rightarrow> 's \<Rightarrow>
     (exec_exc, exec_guard) res \<times> 's" where
  "runtime_acquire acquire cfg c eid owner fresh expected s =
     (let oid = (case owner of Some o' \<Rightarrow> o' | None \<Rightarrow> fresh) in
      case bindr (validate_identifier eid ''execution_id'') (\<lambda>_.
           bindr (validate_identifier oid ''owner_id'') (\<lambda>_.
           validate_expected_revision expected)) of
        Inl e \<Rightarrow> (Inl e, s)
      | Inr n \<Rightarrow>
          (case acquire c eid oid (cfg_ttl_ms cfg) n s of
             (r, s') \<Rightarrow>
               (bindr (bindr r (\<lambda>l. validate_store_lease l eid oid None))
                  (\<lambda>l. Inr (guard_init cfg l)), s')))"

text \<open>
  \<open>scope\<close>: acquire, run the body, release. When the body raises, its exception is the one
  raised, whatever the release does.
\<close>

definition runtime_scope ::
  "('c, 's) acquire_op \<Rightarrow> ('c, 's) release_op \<Rightarrow> lease_config \<Rightarrow> 'c \<Rightarrow> 'c \<Rightarrow> string \<Rightarrow>
   string option \<Rightarrow> string \<Rightarrow> int option \<Rightarrow>
   (exec_guard \<Rightarrow> 's \<Rightarrow> (exec_exc, 'a) res \<times> exec_guard \<times> 's) \<Rightarrow> 's \<Rightarrow>
   (exec_exc, 'a) res \<times> exec_guard option \<times> 's" where
  "runtime_scope acquire release cfg c c' eid owner fresh expected body s =
     (case runtime_acquire acquire cfg c eid owner fresh expected s of
        (Inl e, s1) \<Rightarrow> (Inl e, None, s1)
      | (Inr g, s1) \<Rightarrow>
        (case body g s1 of
           (Inl e, g2, s2) \<Rightarrow>
             (case guard_release release c' g2 s2 of (_, g3, s3) \<Rightarrow> (Inl e, Some g3, s3))
         | (Inr v, g2, s2) \<Rightarrow>
             (case guard_release release c' g2 s2 of
                (Inl e, g3, s3) \<Rightarrow> (Inl e, Some g3, s3)
              | (Inr _, g3, s3) \<Rightarrow> (Inr v, Some g3, s3))))"

text \<open>The cancellation calls check that the store answers for the owner they asked about.\<close>

definition runtime_request_cancel ::
  "('c \<Rightarrow> string \<Rightarrow> string \<Rightarrow> string \<Rightarrow> 's \<Rightarrow> (exec_exc, execution_cancellation) res \<times> 's) \<Rightarrow>
   'c \<Rightarrow> string \<Rightarrow> string \<Rightarrow> string \<Rightarrow> 's \<Rightarrow> (exec_exc, execution_cancellation) res \<times> 's" where
  "runtime_request_cancel request c eid oid why s =
     (case bindr (validate_identifier eid ''execution_id'') (\<lambda>_.
           validate_identifier oid ''owner_id'') of
        Inl e \<Rightarrow> (Inl e, s)
      | Inr _ \<Rightarrow>
          (case request c eid oid why s of
             (r, s') \<Rightarrow>
               (bindr r (\<lambda>k.
                  raise_if (canc_execution_id k \<noteq> eid \<or> canc_owner_id k \<noteq> oid)
                    (LeaseExc ExecutionLeaseError
                       ''execution cancellation store returned a different owner''
                       (Some eid) (Some oid) (canc_token k)) (Inr k)), s')))"

definition runtime_load_cancellation ::
  "(string \<Rightarrow> string \<Rightarrow> 's \<Rightarrow> (exec_exc, execution_cancellation option) res \<times> 's) \<Rightarrow>
   string \<Rightarrow> string \<Rightarrow> 's \<Rightarrow> (exec_exc, execution_cancellation option) res \<times> 's" where
  "runtime_load_cancellation load_op eid oid s =
     (case bindr (validate_identifier eid ''execution_id'') (\<lambda>_.
           validate_identifier oid ''owner_id'') of
        Inl e \<Rightarrow> (Inl e, s)
      | Inr _ \<Rightarrow>
          (case load_op eid oid s of
             (r, s') \<Rightarrow>
               (bindr r (\<lambda>k. case k of
                  None \<Rightarrow> Inr None
                | Some k' \<Rightarrow>
                    raise_if (canc_execution_id k' \<noteq> eid \<or> canc_owner_id k' \<noteq> oid)
                      (LeaseExc ExecutionLeaseError
                         ''execution cancellation store returned a different owner''
                         (Some eid) (Some oid) (canc_token k')) (Inr (Some k'))), s')))"

subsection \<open>Borrowed guards and guarded model calls\<close>

record borrowed_guard =
  b_session_id :: string
  b_state :: guard_state

definition project_lease :: "borrowed_guard \<Rightarrow> execution_lease \<Rightarrow> (exec_exc, execution_lease) res" where
  "project_lease b l = mk_lease (b_session_id b) (lease_owner_id l) (lease_token l)
     (lease_acquired_at_ms l) (lease_expires_at_ms l)"

definition borrow_ensure_active :: "borrowed_guard \<Rightarrow> exec_guard \<Rightarrow> (exec_exc, unit) res" where
  "borrow_ensure_active b g =
     (if b_state b = GActive then Inr ()
      else Inl (LeaseExc ExecutionLeaseNotOwnedError
        (if b_state b = GWaiting then ''borrowed execution guard is released while waiting''
         else ''borrowed execution guard has been released'')
        (Some (b_session_id b)) (Some (lease_owner_id (g_lease g)))
        (Some (lease_token (g_lease g)))))"

definition borrow_lease :: "borrowed_guard \<Rightarrow> exec_guard \<Rightarrow> (exec_exc, execution_lease) res" where
  "borrow_lease b g = bindr (borrow_ensure_active b g) (\<lambda>_. project_lease b (g_lease g))"

definition borrow_fence :: "borrowed_guard \<Rightarrow> exec_guard \<Rightarrow> (exec_exc, execution_fence) res" where
  "borrow_fence b g = bindr (borrow_ensure_active b g) (\<lambda>_. guard_fence g)"

definition borrow_assert_active ::
  "('c, 's) verify_op \<Rightarrow> 'c \<Rightarrow> borrowed_guard \<Rightarrow> exec_guard \<Rightarrow> 's \<Rightarrow>
     (exec_exc, execution_lease) res \<times> exec_guard \<times> 's" where
  "borrow_assert_active verify c b g s =
     (case borrow_ensure_active b g of
        Inl e \<Rightarrow> (Inl e, g, s)
      | Inr _ \<Rightarrow> (case guard_assert_active verify c g s of
                  (r, g', s') \<Rightarrow> (bindr r (project_lease b), g', s')))"

definition borrow_renew ::
  "('c, 's) renew_op \<Rightarrow> lease_config \<Rightarrow> 'c \<Rightarrow> borrowed_guard \<Rightarrow> exec_guard \<Rightarrow> 's \<Rightarrow>
     (exec_exc, execution_lease) res \<times> exec_guard \<times> 's" where
  "borrow_renew renew cfg c b g s =
     (case borrow_ensure_active b g of
        Inl e \<Rightarrow> (Inl e, g, s)
      | Inr _ \<Rightarrow> (case guard_renew renew cfg c g s of
                  (r, g', s') \<Rightarrow> (bindr r (project_lease b), g', s')))"

definition borrow_release :: "borrowed_guard \<Rightarrow> borrowed_guard" where
  "borrow_release b = b\<lparr>b_state := GReleased\<rparr>"

definition borrow_release_for_wait ::
  "('c, 's) verify_op \<Rightarrow> 'c \<Rightarrow> borrowed_guard \<Rightarrow> exec_guard \<Rightarrow> 's \<Rightarrow>
     (exec_exc, unit) res \<times> borrowed_guard \<times> exec_guard \<times> 's" where
  "borrow_release_for_wait verify c b g s =
     (case borrow_ensure_active b g of
        Inl e \<Rightarrow> (Inl e, b, g, s)
      | Inr _ \<Rightarrow> (case guard_assert_active verify c g s of
                  (Inl e, g', s') \<Rightarrow> (Inl e, b, g', s')
                | (Inr _, g', s') \<Rightarrow> (Inr (), b\<lparr>b_state := GWaiting\<rparr>, g', s')))"

definition borrow_reacquire ::
  "('c, 's) verify_op \<Rightarrow> 'c \<Rightarrow> int option \<Rightarrow> borrowed_guard \<Rightarrow> exec_guard \<Rightarrow> 's \<Rightarrow>
     (exec_exc, execution_lease) res \<times> borrowed_guard \<times> exec_guard \<times> 's" where
  "borrow_reacquire verify c expected b g s =
     (case validate_expected_revision expected of
        Inl e \<Rightarrow> (Inl e, b, g, s)
      | Inr _ \<Rightarrow>
        if b_state b \<noteq> GWaiting
        then (Inl (LeaseExc ActiveExecutionLeaseError
                ''borrowed execution guard can only reacquire after release_for_wait''
                (Some (b_session_id b)) (Some (lease_owner_id (g_lease g)))
                (Some (lease_token (g_lease g)))), b, g, s)
        else (case guard_assert_active verify c g s of
                (Inl e, g', s') \<Rightarrow> (Inl e, b, g', s')
              | (Inr l, g', s') \<Rightarrow> (project_lease b l, b\<lparr>b_state := GActive\<rparr>, g', s')))"

definition borrow_execution_guard ::
  "('c, 's) verify_op \<Rightarrow> 'c \<Rightarrow> string \<Rightarrow> exec_guard \<Rightarrow> 's \<Rightarrow>
     (exec_exc, borrowed_guard) res \<times> exec_guard \<times> 's" where
  "borrow_execution_guard verify c sid g s =
     (case guard_fence g of
        Inl e \<Rightarrow> (Inl e, g, s)
      | Inr f \<Rightarrow>
        if \<not> (sid = fence_execution_id f \<or> startswith sid (fence_execution_id f @ '':''))
        then (Inl (ValueError
                ''borrowed execution guard must target its root session or a descendant''), g, s)
        else (case validate_identifier sid ''session_id'' of
                Inl e \<Rightarrow> (Inl e, g, s)
              | Inr _ \<Rightarrow>
                (case guard_assert_active verify c g s of
                   (Inl e, g', s') \<Rightarrow> (Inl e, g', s')
                 | (Inr _, g', s') \<Rightarrow>
                     (Inr \<lparr>b_session_id = sid, b_state = GActive\<rparr>, g', s'))))"

text \<open>
  \<open>_GuardedModelIO.fetch_turn\<close>: renew, call the wrapped model, verify. The wrapped call may
  take long, so it maps the store to whatever the other workers left behind.
\<close>

definition guarded_fetch_turn ::
  "('c, 's) verify_op \<Rightarrow> ('c, 's) renew_op \<Rightarrow> lease_config \<Rightarrow> 'c \<Rightarrow> 'c \<Rightarrow>
   ('s \<Rightarrow> (exec_exc, 'a) res \<times> 's) \<Rightarrow> exec_guard \<Rightarrow> 's \<Rightarrow> (exec_exc, 'a) res \<times> exec_guard \<times> 's" where
  "guarded_fetch_turn verify renew cfg c c' delegate g s =
     (case guard_renew renew cfg c g s of
        (Inl e, g1, s1) \<Rightarrow> (Inl e, g1, s1)
      | (Inr _, g1, s1) \<Rightarrow>
        (case delegate s1 of
           (Inl e, s2) \<Rightarrow> (Inl e, g1, s2)
         | (Inr v, s2) \<Rightarrow>
           (case guard_assert_active verify c' g1 s2 of
              (Inl e, g3, s3) \<Rightarrow> (Inl e, g3, s3)
            | (Inr _, g3, s3) \<Rightarrow> (Inr v, g3, s3))))"

section \<open>What the guard relies on\<close>

text \<open>
  The contract of \<open>ExecutionLeaseStore\<close>. \<open>held s e\<close> is the lease the store records as active
  for \<open>e\<close>, \<open>issued s e\<close> the last token it issued, \<open>others\<close> what other workers' calls may do
  to the store between two calls of this guard.
\<close>

locale lease_store =
  fixes acquire :: "('c, 's) acquire_op"
    and verify :: "('c, 's) verify_op"
    and renew :: "('c, 's) renew_op"
    and release :: "('c, 's) release_op"
    and held :: "'s \<Rightarrow> string \<Rightarrow> execution_lease option"
    and issued :: "'s \<Rightarrow> string \<Rightarrow> int"
    and wf :: "'s \<Rightarrow> bool"
    and others :: "'s \<Rightarrow> 's \<Rightarrow> bool"
  assumes held_wf: "wf s \<Longrightarrow> held s e = Some l \<Longrightarrow>
      lease_execution_id l = e \<and> lease_token l = issued s e"
    and acquire_ok: "wf s \<Longrightarrow> acquire c e o' ttl n s = (Inr l, s') \<Longrightarrow>
      lease_execution_id l = e \<and> lease_owner_id l = o' \<and> held s' e = Some l \<and>
      (held s e = Some l \<or> issued s e < lease_token l)"
    and verify_ok: "verify c e o' t s = (r, s') \<Longrightarrow>
      s' = s \<and> (\<forall>l. r = Inr l \<longrightarrow> held s e = Some l \<and> lease_owner_id l = o' \<and> lease_token l = t)"
    and renew_ok: "wf s \<Longrightarrow> renew c e o' t ttl s = (Inr l', s') \<Longrightarrow>
      \<exists>l. held s e = Some l \<and> lease_owner_id l = o' \<and> lease_token l = t \<and> evolves l l' \<and>
          held s' e = Some l'"
    and release_ok: "wf s \<Longrightarrow> release c e o' t s = (Inr u, s') \<Longrightarrow> held s' e = None \<and> t \<le> issued s' e"
    and calls_lawful: "others s (snd (acquire c e o' ttl n s))" "others s (snd (renew c e o' t ttl s))"
      "others s (snd (release c e o' t s))"
    and others_wf: "wf s \<Longrightarrow> others s s' \<Longrightarrow> wf s'"
    and others_issued: "others s s' \<Longrightarrow> issued s e \<le> issued s' e"
    and others_held: "others s s' \<Longrightarrow> held s' e = Some l' \<Longrightarrow>
      (\<exists>l. held s e = Some l \<and> evolves l l') \<or> issued s e < lease_token l'"
begin

text \<open>The guard's copy of its lease is at most a renewal behind the store's.\<close>

definition tracked :: "'s \<Rightarrow> exec_guard \<Rightarrow> bool" where
  "tracked s g \<longleftrightarrow>
     (let l = g_lease g; e = lease_execution_id l in
      lease_token l \<le> issued s e \<and>
      (\<forall>h. held s e = Some h \<longrightarrow> lease_token h = lease_token l \<longrightarrow> evolves l h))"

text \<open>The guard's token is dead: it gave its lease back.\<close>

definition parked :: "'s \<Rightarrow> exec_guard \<Rightarrow> bool" where
  "parked s g \<longleftrightarrow>
     (let l = g_lease g; e = lease_execution_id l in
      lease_token l \<le> issued s e \<and> (\<forall>h. held s e = Some h \<longrightarrow> lease_token h \<noteq> lease_token l))"

lemma evolves_trans: "evolves l l' \<Longrightarrow> evolves l' l'' \<Longrightarrow> evolves l l''"
  by (auto simp: evolves_def)

lemma tracked_others:
  assumes "tracked s g" "others s s'"
  shows "tracked s' g"
proof -
  have "evolves (g_lease g) h"
    if "held s' (lease_execution_id (g_lease g)) = Some h" "lease_token h = lease_token (g_lease g)" for h
    using others_held [OF assms(2) that(1)] that(2) assms(1)
    by (auto simp: tracked_def Let_def intro: evolves_trans) (auto simp: evolves_def)
  with assms others_issued [OF assms(2)] show ?thesis
    by (auto simp: tracked_def Let_def intro: order_trans)
qed

lemma parked_others:
  assumes "parked s g" "others s s'"
  shows "parked s' g"
proof -
  have "lease_token h \<noteq> lease_token (g_lease g)"
    if "held s' (lease_execution_id (g_lease g)) = Some h" for h
    using others_held [OF assms(2) that] assms(1)
    by (auto simp: parked_def Let_def evolves_def)
  with assms others_issued [OF assms(2)] show ?thesis
    by (auto simp: parked_def Let_def intro: order_trans)
qed

lemma tracked_acquire:
  assumes "wf s" "runtime_acquire acquire cfg c e ow fresh n s = (Inr g, s')"
  shows "tracked s' g \<and> wf s' \<and> g_state g = GActive \<and> lease_execution_id (g_lease g) = e"
proof -
  obtain o' l where a: "acquire c e o' (cfg_ttl_ms cfg) n s = (Inr l, s')" "g = guard_init cfg l"
    using assms(2)
    by (auto simp: runtime_acquire_def Let_def bindr_eq_Inr validate_store_lease_def
        validate_expected_revision_ok split: sum.splits prod.splits if_splits)
  have w: "wf s'"
    using others_wf [OF assms(1) calls_lawful(1) [of s c e o' "cfg_ttl_ms cfg" n]] a(1) by simp
  have k: "lease_execution_id l = e" "held s' e = Some l"
    using acquire_ok [OF assms(1) a(1)] by simp_all
  with held_wf [OF w k(2)] a(2) w show ?thesis
    by (simp add: tracked_def guard_init_def evolves_def)
qed

text \<open>A renewal fails only when the store itself refuses it.\<close>

lemma renew_error_is_refusal:
  assumes "wf s" "tracked s g" "renew_locked renew cfg c g s = (Inl x, g', s')"
  shows "fst (renew c (lease_execution_id (g_lease g)) (lease_owner_id (g_lease g))
           (lease_token (g_lease g)) (cfg_ttl_ms cfg) s) = Inl x"
proof -
  obtain r s1 where r: "renew c (lease_execution_id (g_lease g)) (lease_owner_id (g_lease g))
      (lease_token (g_lease g)) (cfg_ttl_ms cfg) s = (r, s1)" by force
  show ?thesis
  proof (cases r)
    case (Inl y)
    with assms(3) r show ?thesis by (simp add: renew_locked_def Let_def)
  next
    case (Inr v)
    with renew_ok [OF assms(1) r [unfolded Inr]] assms(2)
    have "evolves (g_lease g) v"
      by (auto simp: tracked_def Let_def intro: evolves_trans)
    with assms(3) r Inr show ?thesis
      by (simp add: renew_locked_def Let_def evolves_def validate_store_lease_def)
  qed
qed

lemma tracked_renew:
  assumes "wf s" "tracked s g" "guard_renew renew cfg c g s = (r, g', s')"
  shows "tracked s' g' \<and> wf s'"
proof (cases "ensure_active g")
  case (Inl e)
  with assms show ?thesis by (simp add: guard_renew_def)
next
  case (Inr u)
  let ?l = "g_lease g"
  obtain q s1 where q: "renew c (lease_execution_id ?l) (lease_owner_id ?l) (lease_token ?l)
      (cfg_ttl_ms cfg) s = (q, s1)" by force
  have o1: "others s s1"
    using calls_lawful(2) [of s c "lease_execution_id ?l" "lease_owner_id ?l" "lease_token ?l"
        "cfg_ttl_ms cfg"] q by simp
  have s1: "s' = s1"
    using assms(3) Inr q
    by (auto simp: guard_renew_def renew_locked_def Let_def split: sum.splits if_splits)
  have w: "wf s1" by (rule others_wf [OF assms(1) o1])
  consider "g' = g" | v where "q = Inr v" "g' = g\<lparr>g_lease := v\<rparr>" "lease_execution_id v = lease_execution_id ?l"
    using assms(3) Inr q
    by (auto simp: guard_renew_def renew_locked_def Let_def bindr_eq_Inr validate_store_lease_def
        split: sum.splits if_splits)
  then show ?thesis
  proof cases
    case 1
    with tracked_others [OF assms(2) o1] w s1 show ?thesis by simp
  next
    case 2
    then have k: "held s1 (lease_execution_id ?l) = Some v"
      using renew_ok [OF assms(1)] q by blast
    with held_wf [OF w k] 2 w s1 show ?thesis
      by (simp add: tracked_def evolves_def)
  qed
qed

text \<open>A model answer is returned only to the worker that still holds the lease.\<close>

lemma guarded_fetch_holds:
  assumes "guarded_fetch_turn verify renew cfg c c' delegate g s = (Inr v, g', s')"
  shows "\<exists>l. held s' (lease_execution_id (g_lease g)) = Some l \<and>
             lease_owner_id l = lease_owner_id (g_lease g) \<and> lease_token l = lease_token (g_lease g)"
proof -
  obtain l1 g1 s1 s2 l3 where
    r: "guard_renew renew cfg c g s = (Inr l1, g1, s1)" and
    a: "guard_assert_active verify c' g1 s2 = (Inr l3, g', s')"
    using assms by (auto simp: guarded_fetch_turn_def split: prod.splits sum.splits)
  from r have same: "lease_execution_id (g_lease g1) = lease_execution_id (g_lease g)"
    "lease_owner_id (g_lease g1) = lease_owner_id (g_lease g)"
    "lease_token (g_lease g1) = lease_token (g_lease g)"
    by (auto simp: guard_renew_def renew_locked_def Let_def bindr_eq_Inr validate_store_lease_def
        split: sum.splits prod.splits if_splits)
  obtain q where q: "verify c' (lease_execution_id (g_lease g1)) (lease_owner_id (g_lease g1))
      (lease_token (g_lease g1)) s2 = (q, s')" "q = Inr l3"
    using a by (auto simp: guard_assert_active_def Let_def bindr_eq_Inr validate_store_lease_def
        split: sum.splits prod.splits if_splits)
  from verify_ok [OF q(1)] q(2) same show ?thesis by auto
qed

lemma parked_release_for_wait:
  assumes "wf s" "g_state g = GActive" "guard_release_for_wait release c g s = (Inr u, g', s')"
  shows "parked s' g' \<and> wf s' \<and> g_state g' = GWaiting \<and> g_lease g' = g_lease g"
proof -
  let ?l = "g_lease g"
  obtain u' where r: "release c (lease_execution_id ?l) (lease_owner_id ?l) (lease_token ?l) s = (Inr u', s')"
    and g': "g' = (heartbeat_halted g)\<lparr>g_state := GWaiting, g_heartbeat_error := None\<rparr>"
    using assms(2,3) by (auto simp: guard_release_for_wait_def Let_def split: prod.splits sum.splits)
  have "wf s'"
    using others_wf [OF assms(1) calls_lawful(3) [of s c "lease_execution_id ?l" "lease_owner_id ?l" "lease_token ?l"]] r
    by simp
  with release_ok [OF assms(1) r] g' show ?thesis
    by (simp add: parked_def heartbeat_halted_def)
qed

text \<open>A guard that gave its lease back reacquires with a newer token whenever the store grants.\<close>

lemma reacquire_advances:
  assumes "wf s" "parked s g" "g_state g = GWaiting"
    and "acquire c (lease_execution_id (g_lease g)) (lease_owner_id (g_lease g)) (cfg_ttl_ms cfg) n s = (Inr l, s1)"
    and "\<forall>k. n = Some k \<longrightarrow> 0 \<le> k"
  shows "guard_reacquire acquire cfg c n g s = (Inr l, guard_init cfg l, s1) \<and>
         lease_token (g_lease g) < lease_token l"
proof -
  let ?p = "g_lease g"
  from acquire_ok [OF assms(1,4)] have l: "lease_execution_id l = lease_execution_id ?p"
    "lease_owner_id l = lease_owner_id ?p"
    and g: "held s (lease_execution_id ?p) = Some l \<or> issued s (lease_execution_id ?p) < lease_token l"
    by simp_all
  have "lease_token l = issued s (lease_execution_id ?p)"
    if "held s (lease_execution_id ?p) = Some l"
    using held_wf [OF assms(1) that] by simp
  with g assms(2) have t: "lease_token ?p < lease_token l"
    by (fastforce simp: parked_def Let_def)
  from assms(5) have "validate_expected_revision n = Inr n"
    by (simp add: validate_expected_revision_ok)
  with assms(3,4) l t show ?thesis
    by (simp add: guard_reacquire_def Let_def validate_store_lease_def)
qed

end

section \<open>The in-memory store fulfils the contract\<close>

text \<open>A moment is the pair of clock readings available to one call.\<close>

type_synonym moment = "int \<times> int"

definition mem_acquire :: "(moment, session_store) acquire_op" where
  "mem_acquire c e o' ttl n st = acquire_lease e o' ttl n (fst c) st"

definition mem_verify :: "(moment, session_store) verify_op" where
  "mem_verify c e o' t st = verify_lease e o' t (fst c) st"

definition mem_renew :: "(moment, session_store) renew_op" where
  "mem_renew c e o' t ttl st = renew_lease e o' t ttl (fst c) (snd c) st"

definition mem_release :: "(moment, session_store) release_op" where
  "mem_release c e o' t st = release_lease e o' t (fst c) st"

lemmas mem_defs = mem_acquire_def mem_verify_def mem_renew_def mem_release_def

lemma store_steps_trans: "store_steps s' s'' \<Longrightarrow> store_steps s s' \<Longrightarrow> store_steps s s''"
  by (induction rule: store_steps.induct) (auto intro: store_steps.intros)

lemma store_steps_call: "store_steps st (store_apply c st)"
  by (rule store_steps.call [OF store_steps.none])

lemma store_steps_evolved: "store_steps st st' \<Longrightarrow> evolved (view st) (view st') e"
  by (rule store_steps_keep [where P = "\<lambda>v. evolved (view st) v e"])
    (auto intro: evolved_refl view_step_evolved)

lemma renew_lease_Inr:
  assumes "store_inv st" "renew_lease e o' t ttl now now' st = (Inr l', st')"
  shows "\<exists>l. active_lease st e = Some l \<and> lease_owner_id l = o' \<and> lease_token l = t \<and>
             evolves l l' \<and> active_lease st' e = Some l'"
  using assms
  by (auto simp: renew_lease_def bindr_eq_Inr assert_active_ok mk_lease_Inr evolves_def
      split: sum.splits prod.splits)

lemma release_lease_Inr:
  assumes "store_inv st" "release_lease e o' t now st = (Inr u, st')"
  shows "active_lease st' e = None \<and> t \<le> last_token st' e"
proof (cases "active_lease st e")
  case None
  with assms(2) show ?thesis
    by (cases "assert_active_lease_unlocked st now e o' t")
      (auto simp: release_lease_def assert_active_ok last_token_def split: sum.splits option.splits if_splits)
next
  case (Some l)
  moreover obtain r where r: "execution_leases st e = Some r"
    using Some by (auto simp: active_lease_def split: option.splits)
  ultimately have "assert_active_lease_unlocked st now e o' t = Inr l"
    "st' = set_record e (r\<lparr>active := None\<rparr>) st"
    using assms(2) by (auto simp: release_lease_def assert_active_ok split: sum.splits)
  moreover have "last_fencing_token r = last_token st e"
    by (simp add: last_token_def r)
  ultimately show ?thesis
    using assms(1) by (auto simp: assert_active_ok store_inv_def)
qed

lemma acquire_lease_Inr:
  assumes "store_inv st" "acquire_lease e o' ttl n now st = (Inr l, st')"
  shows "lease_execution_id l = e \<and> lease_owner_id l = o' \<and> active_lease st' e = Some l \<and>
         (active_lease st e = Some l \<or> last_token st e < lease_token l)"
  using assms(2) by (cases rule: acquire_Inr_cases) (use assms(1) in \<open>auto simp: store_inv_def\<close>)

interpretation mem: lease_store mem_acquire mem_verify mem_renew mem_release
  active_lease last_token store_inv store_steps
proof (unfold_locales, goal_cases)
  case (1 s e l)
  then show ?case by (simp add: store_inv_def)
next
  case (2 s c e o' ttl n l s')
  then show ?case by (intro acquire_lease_Inr) (simp_all add: mem_acquire_def)
next
  case (3 c e o' t s r s')
  then show ?case by (auto simp: mem_verify_def verify_lease_def bindr_eq_Inr assert_active_ok)
next
  case (4 s c e o' t ttl l' s')
  then show ?case by (intro renew_lease_Inr) (simp_all add: mem_renew_def)
next
  case (5 s c e o' t u s')
  then show ?case by (intro release_lease_Inr) (simp_all add: mem_release_def)
next
  case (6 s c e o' ttl n)
  show ?case using store_steps_call [of s "Acquire e o' ttl n (fst c)"] by (simp add: mem_acquire_def)
next
  case (7 s c e o' t ttl)
  show ?case using store_steps_call [of s "Renew e o' t ttl (fst c) (snd c)"] by (simp add: mem_renew_def)
next
  case (8 s c e o' t)
  show ?case using store_steps_call [of s "Release e o' t (fst c)"] by (simp add: mem_release_def)
next
  case (9 s s')
  then show ?case by (blast intro: store_inv_steps)
next
  case (10 s s' e)
  then show ?case using store_steps_evolved [of s s' e] by (simp add: evolved_def)
next
  case (11 s s' e l')
  then show ?case using store_steps_evolved [of s s' e] by (simp add: evolved_def)
qed

lemma reachable_wf: "store_steps empty_store st \<Longrightarrow> store_inv st"
  using store_inv_steps store_inv_empty by blast

subsection \<open>Properties of guards over the in-memory store\<close>

text \<open>
  Whatever other workers do between acquisition and renewal, a guard's renewal fails only
  because the store refused it (expired, superseded, cancelled): the guard's own checks on the
  store's answer (changed token, changed acquisition time, shortened lease) never fire.
\<close>
theorem guard_renew_error_is_refusal:
  assumes "store_steps empty_store st"
    and "runtime_acquire mem_acquire cfg c e ow fresh n st = (Inr g, st1)"
    and "store_steps st1 st2"
    and "guard_renew mem_renew cfg c' g st2 = (Inl x, g', st3)"
  shows "fst (mem_renew c' e (lease_owner_id (g_lease g)) (lease_token (g_lease g)) (cfg_ttl_ms cfg) st2) = Inl x"
proof -
  have a: "mem.tracked st1 g" "store_inv st1" "g_state g = GActive" "lease_execution_id (g_lease g) = e"
    using mem.tracked_acquire [OF reachable_wf [OF assms(1)] assms(2)] by simp_all
  have "g_heartbeat_error g = None"
    using assms(2)
    by (auto simp: runtime_acquire_def Let_def bindr_eq_Inr guard_init_def split: sum.splits prod.splits)
  with a(3) have "ensure_active g = Inr ()" by (simp add: ensure_active_def)
  with assms(4) have "renew_locked mem_renew cfg c' g st2 = (Inl x, g', st3)"
    by (simp add: guard_renew_def)
  with mem.renew_error_is_refusal [OF mem.others_wf [OF a(2) assms(3)] mem.tracked_others [OF a(1) assms(3)]]
  show ?thesis by (simp add: a(4))
qed

text \<open>
  A guard that released its lease to wait comes back with a strictly newer token whenever
  the store grants the lease, however long it waited and whoever held the execution meanwhile;
  the staleness check of \<open>reacquire\<close> never rejects a grant.
\<close>
theorem guard_reacquire_advances:
  assumes "store_inv st" and "g_state g = GActive"
    and "guard_release_for_wait mem_release c g st = (Inr u, g1, st1)"
    and "store_steps st1 st2"
    and "mem_acquire c' (lease_execution_id (g_lease g)) (lease_owner_id (g_lease g)) (cfg_ttl_ms cfg) n st2 = (Inr l, st3)"
    and "\<forall>k. n = Some k \<longrightarrow> 0 \<le> k"
  shows "guard_reacquire mem_acquire cfg c' n g1 st2 = (Inr l, guard_init cfg l, st3) \<and>
         lease_token (g_lease g) < lease_token l"
proof -
  have p: "mem.parked st1 g1" "store_inv st1" "g_state g1 = GWaiting" "g_lease g1 = g_lease g"
    using mem.parked_release_for_wait [OF assms(1-3)] by simp_all
  from mem.reacquire_advances [OF mem.others_wf [OF p(2) assms(4)] mem.parked_others [OF p(1) assms(4)] p(3)]
    assms(5,6) p(4)
  show ?thesis by simp
qed

text \<open>
  A guarded model call returns its answer only if, after the model responded, the caller
  still held the execution under the same owner and token, with the lease unexpired and no
  cancellation recorded. A worker that was superseded or cancelled during the call gets an error.
\<close>
theorem guarded_fetch_returns_to_holder:
  assumes "guarded_fetch_turn mem_verify mem_renew cfg c c' delegate g st = (Inr v, g', st')"
  shows "(\<exists>l. active_lease st' (lease_execution_id (g_lease g)) = Some l \<and>
            lease_owner_id l = lease_owner_id (g_lease g) \<and> lease_token l = lease_token (g_lease g) \<and>
            fst c' < lease_expires_at_ms l) \<and>
         cancellation_of st' (lease_execution_id (g_lease g)) (lease_owner_id (g_lease g)) = None"
proof -
  obtain l1 g1 st1 st2 l3 where
    r: "guard_renew mem_renew cfg c g st = (Inr l1, g1, st1)" and
    a: "guard_assert_active mem_verify c' g1 st2 = (Inr l3, g', st')"
    using assms by (auto simp: guarded_fetch_turn_def split: prod.splits sum.splits)
  from r have "lease_execution_id (g_lease g1) = lease_execution_id (g_lease g)"
    "lease_owner_id (g_lease g1) = lease_owner_id (g_lease g)"
    "lease_token (g_lease g1) = lease_token (g_lease g)"
    by (auto simp: guard_renew_def renew_locked_def Let_def bindr_eq_Inr validate_store_lease_def
        split: sum.splits prod.splits if_splits)
  with a show ?thesis
    by (auto simp: guard_assert_active_def mem_verify_def verify_lease_def Let_def bindr_eq_Inr
        assert_active_ok split: sum.splits)
qed

lemma mem_assert_active_frame:
  "guard_assert_active mem_verify c g st = (r, g', st') \<Longrightarrow>
     st' = st \<and> g_state g' = g_state g \<and> g_heartbeat_stop g' = g_heartbeat_stop g"
  by (auto simp: guard_assert_active_def mem_verify_def verify_lease_def Let_def split: sum.splits)

lemma borrow_assert_active_frame:
  "borrow_assert_active mem_verify c b g st = (r, g', st') \<Longrightarrow>
     st' = st \<and> g_state g' = g_state g \<and> g_heartbeat_stop g' = g_heartbeat_stop g"
  by (auto simp: borrow_assert_active_def dest: mem_assert_active_frame split: sum.splits prod.splits)

lemma borrow_release_for_wait_frame:
  "borrow_release_for_wait mem_verify c b g st = (r, b', g', st') \<Longrightarrow>
     st' = st \<and> g_state g' = g_state g \<and> g_heartbeat_stop g' = g_heartbeat_stop g"
  by (auto simp: borrow_release_for_wait_def dest: mem_assert_active_frame split: sum.splits prod.splits)

lemma borrow_reacquire_frame:
  "borrow_reacquire mem_verify c n b g st = (r, b', g', st') \<Longrightarrow>
     st' = st \<and> g_state g' = g_state g \<and> g_heartbeat_stop g' = g_heartbeat_stop g"
  by (auto simp: borrow_reacquire_def dest: mem_assert_active_frame split: sum.splits prod.splits if_splits)

lemma borrow_execution_guard_target:
  assumes "borrow_execution_guard mem_verify c sid g st = (Inr b, g', st')"
  shows "st' = st \<and> g_state g' = GActive \<and>
    (sid = lease_execution_id (g_lease g) \<or> prefix (lease_execution_id (g_lease g) @ '':'') sid)"
proof -
  obtain f where f: "guard_fence g = Inr f"
    using assms by (auto simp: borrow_execution_guard_def split: sum.splits)
  then have g: "g_state g = GActive" "fence_execution_id f = lease_execution_id (g_lease g)"
    by (auto simp: guard_fence_def ensure_active_def bindr_eq_Inr lease_fence_def mk_fence_Inr
        split: if_splits option.splits)
  obtain l where "guard_assert_active mem_verify c g st = (Inr l, g', st')"
    and "sid = fence_execution_id f \<or> startswith sid (fence_execution_id f @ '':'')"
    using assms f by (auto simp: borrow_execution_guard_def split: sum.splits prod.splits if_splits)
  with g show ?thesis
    by (auto simp: startswith_prefix dest: mem_assert_active_frame)
qed

text \<open>
  Borrowing never disturbs the parent: over the in-memory store, asserting, waiting,
  reacquiring and releasing a borrowed guard leave the store and the parent's state as they
  were, and a borrowed guard is only given for the root session or one of its descendants.
\<close>
theorem borrowed_guard_leaves_parent:
  "(\<forall>r g' st'. borrow_assert_active mem_verify c b g st = (r, g', st') \<longrightarrow>
      st' = st \<and> g_state g' = g_state g \<and> g_heartbeat_stop g' = g_heartbeat_stop g) \<and>
   (\<forall>r b' g' st'. borrow_release_for_wait mem_verify c b g st = (r, b', g', st') \<longrightarrow>
      st' = st \<and> g_state g' = g_state g \<and> g_heartbeat_stop g' = g_heartbeat_stop g) \<and>
   (\<forall>r b' g' st'. borrow_reacquire mem_verify c n b g st = (r, b', g', st') \<longrightarrow>
      st' = st \<and> g_state g' = g_state g \<and> g_heartbeat_stop g' = g_heartbeat_stop g) \<and>
   (\<forall>b' g' st'. borrow_execution_guard mem_verify c sid g st = (Inr b', g', st') \<longrightarrow>
      st' = st \<and> g_state g' = GActive \<and>
      (sid = lease_execution_id (g_lease g) \<or> prefix (lease_execution_id (g_lease g) @ '':'') sid))"
  by (intro conjI allI impI)
    (blast dest: borrow_assert_active_frame borrow_release_for_wait_frame borrow_reacquire_frame
      borrow_execution_guard_target)+

subsection \<open>Concrete runs\<close>

definition demo_config :: lease_config where
  "demo_config = \<lparr>cfg_ttl_ms = 1000, cfg_heartbeat_interval_ms = 0\<rparr>"

definition demo_guard :: exec_guard where
  "demo_guard = guard_init demo_config demo_lease"

definition demo_guard_waiting :: exec_guard where
  "demo_guard_waiting = (heartbeat_halted demo_guard)\<lparr>g_state := GWaiting, g_heartbeat_error := None\<rparr>"

definition demo_lease2 :: execution_lease where
  "demo_lease2 = demo_lease\<lparr>lease_token := 2, lease_acquired_at_ms := 8, lease_expires_at_ms := 1008\<rparr>"

lemma demo_runtime_acquire:
  "runtime_acquire mem_acquire demo_config (5, 5) ''run'' (Some ''w1'') [] None empty_store =
     (Inr demo_guard, demo_store)"
proof -
  have "acquire_lease ''run'' ''w1'' 1000 None 5 empty_store = (Inr demo_lease, demo_store)"
  proof (rule prod_eqI)
    show "fst (acquire_lease ''run'' ''w1'' 1000 None 5 empty_store) = fst (Inr demo_lease, demo_store)"
      by code_simp
    show "snd (acquire_lease ''run'' ''w1'' 1000 None 5 empty_store) = snd (Inr demo_lease, demo_store)"
      by (simp add: demo_store_def)
  qed
  moreover have "validate_identifier ''run'' ''execution_id'' = Inr ''run''"
    "validate_identifier ''w1'' ''owner_id'' = Inr ''w1''" by code_simp+
  moreover have "validate_store_lease demo_lease ''run'' ''w1'' None = Inr demo_lease" by code_simp
  ultimately show ?thesis
    by (simp add: runtime_acquire_def mem_acquire_def demo_guard_def demo_config_def
        validate_expected_revision_def)
qed

theorem guard_renew_error_is_refusal_witness:
  "fst (guard_renew mem_renew demo_config (2000, 2000) demo_guard demo_store) =
     fst (mem_renew (2000, 2000) ''run'' ''w1'' 1 1000 demo_store)"
proof -
  obtain x g' st3 where r: "guard_renew mem_renew demo_config (2000, 2000) demo_guard demo_store = (Inl x, g', st3)"
  proof -
    have "\<not> is_ok (fst (guard_renew mem_renew demo_config (2000, 2000) demo_guard demo_store))" by code_simp
    then show ?thesis
      by (metis is_ok_iff obj_sumE prod.collapse that)
  qed
  have f: "lease_owner_id (g_lease demo_guard) = ''w1''" "lease_token (g_lease demo_guard) = 1"
    "cfg_ttl_ms demo_config = 1000" by code_simp+
  show ?thesis
    using guard_renew_error_is_refusal [OF store_steps.none demo_runtime_acquire store_steps.none r] r f by simp
qed

theorem guard_reacquire_advances_witness:
  "fst (guard_release_for_wait mem_release (6, 6) demo_guard demo_store) = Inr () \<and>
   lease_token (g_lease demo_guard) < lease_token demo_lease2 \<and>
   fst (guard_reacquire mem_acquire demo_config (8, 8) None demo_guard_waiting demo_released) = Inr demo_lease2"
proof -
  have r: "guard_release_for_wait mem_release (6, 6) demo_guard demo_store = (Inr (), demo_guard_waiting, demo_released)"
  proof -
    have "fst (release_lease ''run'' ''w1'' 1 6 demo_store) = Inr ()" by code_simp
    then have "release_lease ''run'' ''w1'' 1 6 demo_store = (Inr (), demo_released)"
      by (simp add: demo_released_def prod_eq_iff)
    moreover have "g_state demo_guard = GActive" "lease_execution_id (g_lease demo_guard) = ''run''"
      "lease_owner_id (g_lease demo_guard) = ''w1''" "lease_token (g_lease demo_guard) = 1" by code_simp+
    ultimately show ?thesis
      by (simp add: guard_release_for_wait_def mem_release_def demo_guard_waiting_def)
  qed
  have f: "g_state demo_guard = GActive" "lease_execution_id (g_lease demo_guard) = ''run''"
    "lease_owner_id (g_lease demo_guard) = ''w1''" "cfg_ttl_ms demo_config = 1000" by code_simp+
  have "fst (acquire_lease ''run'' ''w1'' 1000 None 8 demo_released) = Inr demo_lease2" by code_simp
  then obtain st3 where a: "mem_acquire (8, 8) (lease_execution_id (g_lease demo_guard))
      (lease_owner_id (g_lease demo_guard)) (cfg_ttl_ms demo_config) None demo_released = (Inr demo_lease2, st3)"
    by (metis f(2-4) fst_conv mem_acquire_def prod.collapse)
  from guard_reacquire_advances [OF reachable_wf [OF demo_store_steps] f(1) r store_steps.none a] r
  show ?thesis by simp
qed

theorem guarded_fetch_returns_to_holder_witness:
  "fst (guarded_fetch_turn mem_verify mem_renew demo_config (6, 6) (7, 7) (\<lambda>st. (Inr (), st)) demo_guard demo_store) = Inr () \<and>
   cancellation_of (snd (snd (guarded_fetch_turn mem_verify mem_renew demo_config (6, 6) (7, 7)
     (\<lambda>st. (Inr (), st)) demo_guard demo_store))) ''run'' ''w1'' = None"
proof -
  have r: "fst (guarded_fetch_turn mem_verify mem_renew demo_config (6, 6) (7, 7) (\<lambda>st. (Inr (), st)) demo_guard demo_store) = Inr ()"
    by code_simp
  then obtain g' st' where q: "guarded_fetch_turn mem_verify mem_renew demo_config (6, 6) (7, 7) (\<lambda>st. (Inr (), st))
      demo_guard demo_store = (Inr (), g', st')"
    by (metis prod.collapse)
  have "lease_execution_id (g_lease demo_guard) = ''run''" "lease_owner_id (g_lease demo_guard) = ''w1''" by code_simp+
  with guarded_fetch_returns_to_holder [OF q] r q show ?thesis by simp
qed

text \<open>The clauses of C12 at a guard that holds its lease and a child that waits.\<close>

theorem borrowed_guard_leaves_parent_witness:
  "is_ok (fst (borrow_release_for_wait mem_verify (6, 6) \<lparr>b_session_id = ''run:a'', b_state = GActive\<rparr> demo_guard demo_store)) \<and>
   snd (snd (snd (borrow_release_for_wait mem_verify (6, 6) \<lparr>b_session_id = ''run:a'', b_state = GActive\<rparr> demo_guard demo_store))) = demo_store"
proof -
  let ?r = "borrow_release_for_wait mem_verify (6, 6) \<lparr>b_session_id = ''run:a'', b_state = GActive\<rparr> demo_guard demo_store"
  have ok: "is_ok (fst ?r)" by code_simp
  obtain r b' g' st' where q: "?r = (r, b', g', st')" by (metis prod.collapse)
  with borrowed_guard_leaves_parent [of "(6, 6)" "\<lparr>b_session_id = ''run:a'', b_state = GActive\<rparr>" demo_guard demo_store]
  have "st' = demo_store" by blast
  with ok q show ?thesis by simp
qed

end
