(* ===== verification/SessionRevision.thy ===== *)
theory SessionRevision
  imports ExecutionGuard
begin

section \<open>Session snapshots over revisioned and legacy stores\<close>

text \<open>
  \<open>src/unchain/memory/revision.py\<close>: loading and saving a session through whatever store the
  host supplies. A store is an object that may or may not define each method, so it is a record
  of optional methods; the capability checks are those of the source. The protocols
  \<open>RevisionedSessionStore\<close> and \<open>FencedRevisionedSessionStore\<close> are locales, the second an
  extension of the first, and \<open>InMemorySessionStore\<close> interprets both.
\<close>

record session_snapshot =
  snap_state :: pyval
  snap_revision :: "int option"

definition revision_supported :: "session_snapshot \<Rightarrow> bool" where
  "revision_supported sn \<longleftrightarrow> snap_revision sn \<noteq> None"

definition consistency :: "session_snapshot \<Rightarrow> string" where
  "consistency sn = (if revision_supported sn then ''compare_and_swap'' else ''best_effort'')"

record 's session_object =
  so_load :: "(string \<Rightarrow> 's \<Rightarrow> (exec_exc, pyval) res \<times> 's) option"
  so_save :: "(string \<Rightarrow> pydict \<Rightarrow> 's \<Rightarrow> (exec_exc, unit) res \<times> 's) option"
  so_load_with_revision :: "(string \<Rightarrow> 's \<Rightarrow> (exec_exc, session_snapshot) res \<times> 's) option"
  so_save_if_revision :: "(string \<Rightarrow> pydict \<Rightarrow> int \<Rightarrow> 's \<Rightarrow> (exec_exc, int) res \<times> 's) option"
  so_save_if_revision_and_fence ::
    "(string \<Rightarrow> pydict \<Rightarrow> int \<Rightarrow> string \<Rightarrow> string \<Rightarrow> int \<Rightarrow> 's \<Rightarrow> (exec_exc, int) res \<times> 's) option"
  so_lease_methods :: "string \<Rightarrow> bool"

definition lease_methods :: "string list" where
  "lease_methods = [''acquire_lease'', ''verify_lease'', ''renew_lease'', ''release_lease'']"

text \<open>\<open>supports_execution_leases\<close> of \<open>execution.py\<close>: every lease method is callable.\<close>

definition supports_execution_leases :: "'s session_object \<Rightarrow> bool" where
  "supports_execution_leases obj = list_all (so_lease_methods obj) lease_methods"

definition validate_revision :: "int option \<Rightarrow> string \<Rightarrow> (exec_exc, int) res" where
  "validate_revision r sid =
     (case r of
        Some n \<Rightarrow>
          if n < 0 then Inl (SessionStoreCorruptionError sid ''revision must be a non-negative integer'')
          else Inr n
      | None \<Rightarrow> Inl (SessionStoreCorruptionError sid ''revision must be a non-negative integer''))"

definition validate_snapshot :: "session_snapshot \<Rightarrow> string \<Rightarrow> (exec_exc, session_snapshot) res" where
  "validate_snapshot sn sid =
     raise_if (\<not> is_dict (snap_state sn))
       (SessionStoreCorruptionError sid ''session state must be a JSON object'')
     (bindr (validate_revision (snap_revision sn) sid) (\<lambda>n.
        Inr \<lparr>snap_state = snap_state sn, snap_revision = Some n\<rparr>))"

definition has_revision_capability :: "'s session_object \<Rightarrow> (exec_exc, bool) res" where
  "has_revision_capability obj =
     raise_if ((so_load_with_revision obj \<noteq> None) \<noteq> (so_save_if_revision obj \<noteq> None))
       (TypeError ''revisioned session store capability is incomplete: load_with_revision and save_if_revision must be implemented together'')
     (Inr (so_load_with_revision obj \<noteq> None))"

fun join_with :: "string \<Rightarrow> string list \<Rightarrow> string" where
  "join_with sep [] = []"
| "join_with sep [x] = x"
| "join_with sep (x # xs) = x @ sep @ join_with sep xs"

definition fenced_methods :: "'s session_object \<Rightarrow> (string \<times> bool) list" where
  "fenced_methods obj =
     map (\<lambda>m. (m, so_lease_methods obj m)) lease_methods @
     [(''save_if_revision_and_fence'', so_save_if_revision_and_fence obj \<noteq> None)]"

definition has_fenced_revision_capability :: "'s session_object \<Rightarrow> (exec_exc, bool) res" where
  "has_fenced_revision_capability obj =
     (let supported = fenced_methods obj in
      if list_ex snd supported \<and> \<not> list_all snd supported
      then Inl (TypeError (''execution lease store capability is incomplete; these methods must be implemented together: '' @
              join_with '', '' (map fst (filter (\<lambda>p. \<not> snd p) supported))))
      else Inr (list_all snd supported))"

definition load_session_snapshot ::
  "'s session_object \<Rightarrow> string \<Rightarrow> 's \<Rightarrow> (exec_exc, session_snapshot) res \<times> 's" where
  "load_session_snapshot obj sid s =
     (case has_revision_capability obj of
        Inl e \<Rightarrow> (Inl e, s)
      | Inr revisioned \<Rightarrow>
        (case (if revisioned then so_load_with_revision obj else None) of
           Some f \<Rightarrow> (case f sid s of (r, s') \<Rightarrow> (bindr r (\<lambda>sn. validate_snapshot sn sid), s'))
         | None \<Rightarrow>
           (case so_load obj of
              None \<Rightarrow> (Inl (TypeError ''session store must define load(session_id)''), s)
            | Some f \<Rightarrow>
              (case f sid s of
                 (r, s') \<Rightarrow>
                   (bindr r (\<lambda>v. raise_if (\<not> is_dict v)
                       (SessionStoreCorruptionError sid ''session state must be a JSON object'')
                     (Inr \<lparr>snap_state = v, snap_revision = None\<rparr>)), s')))))"

definition no_fence_support :: exec_exc where
  "no_fence_support =
     TypeError ''execution_fence requires an atomic fenced revisioned session store''"

text \<open>The write a revisioned store is asked for, fenced or not.\<close>

definition revisioned_write ::
  "'s session_object \<Rightarrow> string \<Rightarrow> pydict \<Rightarrow> int \<Rightarrow> execution_fence option \<Rightarrow> 's \<Rightarrow> (exec_exc, int) res \<times> 's" where
  "revisioned_write obj sid d n fence s =
     (case fence of
        None \<Rightarrow>
          (case so_save_if_revision obj of
             None \<Rightarrow> (Inl no_fence_support, s)
           | Some f \<Rightarrow> f sid d n s)
      | Some k \<Rightarrow>
          (case has_fenced_revision_capability obj of
             Inl e \<Rightarrow> (Inl e, s)
           | Inr ok \<Rightarrow>
               (case (if ok then so_save_if_revision_and_fence obj else None) of
                  None \<Rightarrow> (Inl no_fence_support, s)
                | Some f \<Rightarrow> f sid d n (fence_execution_id k) (fence_owner_id k) (fence_token k) s)))"

definition save_session_snapshot ::
  "'s session_object \<Rightarrow> string \<Rightarrow> pydict \<Rightarrow> int option \<Rightarrow> execution_fence option \<Rightarrow> 's \<Rightarrow>
     (exec_exc, session_snapshot) res \<times> 's" where
  "save_session_snapshot obj sid d expected fence s =
     (case bindr (case fence of None \<Rightarrow> Inr () | Some k \<Rightarrow>
                    validate_execution_fence_target sid (fence_execution_id k)) (\<lambda>_.
           has_revision_capability obj) of
        Inl e \<Rightarrow> (Inl e, s)
      | Inr True \<Rightarrow>
          (case expected of
             None \<Rightarrow> (Inl (ValueError ''expected_revision is required for a revisioned session store''), s)
           | Some n0 \<Rightarrow>
             (case validate_revision (Some n0) sid of
                Inl e \<Rightarrow> (Inl e, s)
              | Inr n \<Rightarrow>
                (case revisioned_write obj sid d n fence s of
                   (r, s') \<Rightarrow>
                     (bindr r (\<lambda>n'. bindr (validate_revision (Some n') sid) (\<lambda>rev.
                        raise_if (rev \<le> n)
                          (SessionStoreCorruptionError sid
                             ''save_if_revision() did not advance the revision'')
                        (Inr \<lparr>snap_state = PyDict d, snap_revision = Some rev\<rparr>))), s'))))
      | Inr False \<Rightarrow>
          (case fence of
             Some _ \<Rightarrow> (Inl no_fence_support, s)
           | None \<Rightarrow>
             (case so_save obj of
                None \<Rightarrow> (Inl (TypeError ''session store must define save(session_id, state)''), s)
              | Some f \<Rightarrow>
                (case f sid d s of
                   (r, s') \<Rightarrow> (bindr r (\<lambda>_. Inr \<lparr>snap_state = PyDict d, snap_revision = None\<rparr>), s')))))"

subsection \<open>The protocols\<close>

locale revisioned_store =
  fixes load_rev :: "string \<Rightarrow> 's \<Rightarrow> (exec_exc, session_snapshot) res \<times> 's"
    and save_rev :: "'w \<Rightarrow> string \<Rightarrow> pydict \<Rightarrow> int \<Rightarrow> 's \<Rightarrow> (exec_exc, int) res \<times> 's"
    and rev :: "'s \<Rightarrow> string \<Rightarrow> int"
    and content :: "'s \<Rightarrow> string \<Rightarrow> pydict"
    and grows :: "'s \<Rightarrow> 's \<Rightarrow> bool"
  assumes load_rev: "load_rev sid s =
      (Inr \<lparr>snap_state = PyDict (content s sid), snap_revision = Some (rev s sid)\<rparr>, s)"
    and save_rev: "save_rev w sid d n s = (Inr n', s') \<Longrightarrow>
      rev s sid = n \<and> n' = n + 1 \<and> rev s' sid = n' \<and> content s' sid = d"
    and save_rev_error: "save_rev w sid d n s = (Inl e, s') \<Longrightarrow> s' = s"
    and grows_rev: "grows s s' \<Longrightarrow> rev s sid \<le> rev s' sid"
begin

definition revisioned_object :: "'w \<Rightarrow> 's session_object \<Rightarrow> bool" where
  "revisioned_object w obj \<longleftrightarrow>
     so_load_with_revision obj = Some load_rev \<and> so_save_if_revision obj = Some (save_rev w)"

end

locale fenced_revisioned_store = revisioned_store load_rev save_rev rev content grows
  for load_rev :: "string \<Rightarrow> 's \<Rightarrow> (exec_exc, session_snapshot) res \<times> 's"
    and save_rev :: "'w \<Rightarrow> string \<Rightarrow> pydict \<Rightarrow> int \<Rightarrow> 's \<Rightarrow> (exec_exc, int) res \<times> 's"
    and rev content grows +
  fixes save_fenced :: "'w \<Rightarrow> string \<Rightarrow> pydict \<Rightarrow> int \<Rightarrow> string \<Rightarrow> string \<Rightarrow> int \<Rightarrow> 's \<Rightarrow> (exec_exc, int) res \<times> 's"
    and authorised :: "'w \<Rightarrow> 's \<Rightarrow> string \<Rightarrow> string \<Rightarrow> int \<Rightarrow> bool"
  assumes save_fenced: "save_fenced w sid d n e o' t s = (Inr n', s') \<Longrightarrow>
      authorised w s e o' t \<and> rev s sid = n \<and> n' = n + 1 \<and> rev s' sid = n' \<and> content s' sid = d"
    and save_fenced_error: "save_fenced w sid d n e o' t s = (Inl x, s') \<Longrightarrow> s' = s"
begin

definition fenced_object :: "'w \<Rightarrow> 's session_object \<Rightarrow> bool" where
  "fenced_object w obj \<longleftrightarrow> revisioned_object w obj \<and>
     so_save_if_revision_and_fence obj = Some (save_fenced w) \<and> supports_execution_leases obj"

lemma fenced_object_capability:
  "fenced_object w obj \<Longrightarrow> has_fenced_revision_capability obj = Inr True"
  by (auto simp: fenced_object_def has_fenced_revision_capability_def fenced_methods_def
      supports_execution_leases_def list_all_iff)

text \<open>A snapshot saved under a fence was written by an authorised owner of an allowed session.\<close>

lemma fenced_save_authorised:
  assumes "fenced_object w obj"
    and "save_session_snapshot obj sid d (Some n) (Some k) s = (Inr sn, s')"
  shows "authorised w s (fence_execution_id k) (fence_owner_id k) (fence_token k) \<and>
    is_ok (validate_execution_fence_target sid (fence_execution_id k)) \<and>
    rev s sid = n \<and> snap_revision sn = Some (n + 1) \<and> rev s' sid = n + 1 \<and> content s' sid = d"
proof -
  from assms(1) have o: "so_load_with_revision obj = Some load_rev"
    "so_save_if_revision obj = Some (save_rev w)"
    "so_save_if_revision_and_fence obj = Some (save_fenced w)"
    by (simp_all add: fenced_object_def revisioned_object_def)
  obtain n' where "save_fenced w sid d n (fence_execution_id k) (fence_owner_id k) (fence_token k) s = (Inr n', s')"
    and "sn = \<lparr>snap_state = PyDict d, snap_revision = Some n'\<rparr>"
    and "is_ok (validate_execution_fence_target sid (fence_execution_id k))"
    using assms(2) o fenced_object_capability [OF assms(1)]
    by (auto simp: save_session_snapshot_def has_revision_capability_def revisioned_write_def
        validate_revision_def bindr_eq_Inr raise_if_eq_Inr is_ok_iff
        split: sum.splits prod.splits bool.splits if_splits)
  with save_fenced [of w sid d n "fence_execution_id k" "fence_owner_id k" "fence_token k" s n' s']
  show ?thesis by simp
qed

text \<open>A save that succeeds, under a fence or not, replaced the session it was told to expect.\<close>

lemma any_save:
  assumes "fenced_object w obj"
    and "save_session_snapshot obj sid d expected fence s = (Inr sn, s')"
  obtains n where "expected = Some n" "0 \<le> n" "rev s sid = n" "rev s' sid = n + 1" "content s' sid = d"
    "sn = \<lparr>snap_state = PyDict d, snap_revision = Some (n + 1)\<rparr>"
proof -
  from assms(1) have o: "so_load_with_revision obj = Some load_rev"
    "so_save_if_revision obj = Some (save_rev w)" "so_save_if_revision_and_fence obj = Some (save_fenced w)"
    by (simp_all add: fenced_object_def revisioned_object_def)
  obtain n n' where n: "expected = Some n" "0 \<le> n" and wr: "revisioned_write obj sid d n fence s = (Inr n', s')"
    and sn: "sn = \<lparr>snap_state = PyDict d, snap_revision = Some n'\<rparr>"
    using assms(2) o
    by (auto simp: save_session_snapshot_def has_revision_capability_def validate_revision_def bindr_eq_Inr raise_if_eq_Inr
        split: sum.splits prod.splits bool.splits if_splits option.splits)
  have "rev s sid = n \<and> n' = n + 1 \<and> rev s' sid = n' \<and> content s' sid = d"
  proof (cases fence)
    case None
    then show ?thesis using wr o save_rev [of w sid d n s n' s'] by (simp add: revisioned_write_def)
  next
    case (Some k)
    then show ?thesis
      using wr o fenced_object_capability [OF assms(1)]
        save_fenced [of w sid d n "fence_execution_id k" "fence_owner_id k" "fence_token k" s n' s']
      by (simp add: revisioned_write_def)
  qed
  then show thesis using that n sn by simp
qed

text \<open>Two writers that read the same revision cannot both succeed.\<close>

lemma no_lost_update:
  assumes "fenced_object w obj" "save_session_snapshot obj sid d expected fence s = (Inr sn, s1)" "grows s1 s2"
    and "fenced_object w' obj'"
  shows "\<not> is_ok (fst (save_session_snapshot obj' sid d' expected fence' s2))"
proof
  assume "is_ok (fst (save_session_snapshot obj' sid d' expected fence' s2))"
  then obtain sn2 s3 where w: "save_session_snapshot obj' sid d' expected fence' s2 = (Inr sn2, s3)"
    by (metis is_ok_iff prod.collapse)
  obtain n where "expected = Some n" "rev s1 sid = n + 1" by (rule any_save [OF assms(1,2)])
  moreover obtain m where "expected = Some m" "rev s2 sid = m" by (rule any_save [OF assms(4) w])
  ultimately show False using grows_rev [OF assms(3), of sid] by simp
qed

lemma any_save_then_load:
  assumes "fenced_object w obj" "save_session_snapshot obj sid d expected fence s = (Inr sn, s')"
  shows "load_session_snapshot obj sid s' = (Inr sn, s')"
  by (rule any_save [OF assms])
    (use assms(1) in \<open>simp add: load_session_snapshot_def fenced_object_def revisioned_object_def has_revision_capability_def
      load_rev validate_snapshot_def validate_revision_def\<close>)

end

section \<open>The in-memory store as a session object\<close>

definition mem_load_with_revision :: "string \<Rightarrow> session_store \<Rightarrow> (exec_exc, session_snapshot) res \<times> session_store" where
  "mem_load_with_revision sid st =
     (case load_with_revision sid st of
        (r, st') \<Rightarrow> (bindr r (\<lambda>(d, n). Inr \<lparr>snap_state = PyDict d, snap_revision = Some n\<rparr>), st'))"

definition mem_object :: "int \<Rightarrow> session_store session_object" where
  "mem_object now =
     \<lparr>so_load = Some (\<lambda>sid st. case load sid st of (r, st') \<Rightarrow> (bindr r (\<lambda>d. Inr (PyDict d)), st')),
      so_save = Some (\<lambda>sid d. save sid d now),
      so_load_with_revision = Some mem_load_with_revision,
      so_save_if_revision = Some (\<lambda>sid d n. save_if_revision sid d n now),
      so_save_if_revision_and_fence =
        Some (\<lambda>sid d n e o' t. save_if_revision_and_fence sid d n e o' t now),
      so_lease_methods = (\<lambda>m. m \<in> set lease_methods)\<rparr>"

lemma save_if_revision_Inr:
  "save_if_revision sid d n now st = (Inr n', st') \<Longrightarrow>
     revision_of st sid = n \<and> n' = n + 1 \<and> revision_of st' sid = n' \<and> state_of st' sid = d"
  by (auto simp: save_if_revision_def cas_state_def split: sum.splits if_splits)

lemma save_if_revision_Inl: "save_if_revision sid d n now st = (Inl e, st') \<Longrightarrow> st' = st"
  by (auto simp: save_if_revision_def cas_state_def split: sum.splits if_splits)

lemma save_fenced_Inr:
  "save_if_revision_and_fence sid d n e o' t now st = (Inr n', st') \<Longrightarrow>
     is_ok (assert_active_lease_unlocked st now e o' t) \<and>
     revision_of st sid = n \<and> n' = n + 1 \<and> revision_of st' sid = n' \<and> state_of st' sid = d"
  by (auto simp: save_if_revision_and_fence_def cas_state_def bindr_eq_Inr is_ok_iff
      split: sum.splits if_splits)

lemma save_fenced_Inl: "save_if_revision_and_fence sid d n e o' t now st = (Inl x, st') \<Longrightarrow> st' = st"
  by (auto simp: save_if_revision_and_fence_def cas_state_def split: sum.splits if_splits)

lemma store_steps_revision: "store_steps st st' \<Longrightarrow> revision_of st sid \<le> revision_of st' sid"
  using store_steps_keep [of st st' "\<lambda>v. revision_of st sid \<le> v_revision v sid"]
    view_step_revision_mono order_trans by fastforce

interpretation mem_rev: fenced_revisioned_store mem_load_with_revision
  "\<lambda>now sid d n. save_if_revision sid d n now" revision_of state_of store_steps
  "\<lambda>now sid d n e o' t. save_if_revision_and_fence sid d n e o' t now"
  "\<lambda>now st e o' t. is_ok (assert_active_lease_unlocked st now e o' t)"
  by unfold_locales
    (auto simp: mem_load_with_revision_def load_with_revision_def store_steps_revision
      dest: save_if_revision_Inr save_if_revision_Inl save_fenced_Inr save_fenced_Inl)

lemma mem_object_fenced: "mem_rev.fenced_object now (mem_object now)"
  by (simp add: mem_rev.fenced_object_def mem_rev.revisioned_object_def mem_object_def
      supports_execution_leases_def lease_methods_def)

text \<open>
  C34: A session snapshot that \<open>save_session_snapshot\<close> saved to the in-memory store, under an execution fence or
  not, loads back unchanged, under the revision the save returned, until another write happens. A save succeeds
  only for the revision the session has, and the new revision is the next one.
\<close>
theorem snapshot_round_trip:
  assumes "save_session_snapshot (mem_object now) sid d expected fence st = (Inr sn, st')"
  shows "load_session_snapshot (mem_object now') sid st' = (Inr sn, st') \<and> snap_state sn = PyDict d \<and>
    expected = Some (revision_of st sid) \<and> snap_revision sn = Some (revision_of st sid + 1)"
proof -
  obtain n where "expected = Some n" "revision_of st sid = n" "sn = \<lparr>snap_state = PyDict d, snap_revision = Some (n + 1)\<rparr>"
    by (rule mem_rev.any_save [OF mem_object_fenced assms])
  moreover have "load_session_snapshot (mem_object now') sid st' = load_session_snapshot (mem_object now) sid st'"
    by (simp add: load_session_snapshot_def has_revision_capability_def mem_object_def)
  ultimately show ?thesis using mem_rev.any_save_then_load [OF mem_object_fenced assms] by simp
qed

text \<open>
  C16: No lost updates: of two workers that loaded the same revision of a session in the in-memory store, once the
  first saved, the second cannot save, whatever calls of the store ran in between. Each of the two saves may be
  fenced or not, at any time.
\<close>
theorem snapshot_no_lost_update:
  assumes "save_session_snapshot (mem_object now) sid d expected fence st = (Inr sn, st1)"
    and "store_steps st1 st2"
  shows "\<not> is_ok (fst (save_session_snapshot (mem_object now') sid d' expected fence' st2))"
  by (rule mem_rev.no_lost_update [OF mem_object_fenced assms mem_object_fenced])

text \<open>
  A snapshot saved under an execution fence was written by the owner that, at that moment,
  held the fenced execution with an unexpired lease and no cancellation, and only to that
  execution's own session or one of its \<open>:\<close>-descendants.
\<close>
theorem fenced_snapshot_authorised:
  assumes "save_session_snapshot (mem_object now) sid d (Some n) (Some k) st = (Inr sn, st')"
  shows "(\<exists>l. active_lease st (fence_execution_id k) = Some l \<and> lease_owner_id l = fence_owner_id k \<and>
            lease_token l = fence_token k \<and> now < lease_expires_at_ms l) \<and>
         cancellation_of st (fence_execution_id k) (fence_owner_id k) = None \<and>
         (sid = fence_execution_id k \<or> prefix (fence_execution_id k @ '':'') sid) \<and>
         state_of st' sid = d \<and> revision_of st' sid = revision_of st sid + 1"
  using mem_rev.fenced_save_authorised [OF mem_object_fenced assms]
  by (auto simp: is_ok_iff assert_active_ok validate_execution_fence_target_def startswith_prefix
      split: if_splits)

subsection \<open>Concrete runs\<close>

definition demo_fence :: execution_fence where
  "demo_fence = \<lparr>fence_execution_id = ''run'', fence_owner_id = ''w1'', fence_token = 1\<rparr>"

lemma demo_snapshot_saved:
  obtains sn st' where "save_session_snapshot (mem_object 6) ''run:child'' [(''k'', PyInt 1)] (Some 0) (Some demo_fence) demo_store = (Inr sn, st')"
proof -
  have "is_ok (fst (save_session_snapshot (mem_object 6) ''run:child'' [(''k'', PyInt 1)] (Some 0) (Some demo_fence) demo_store))"
    by code_simp
  then show ?thesis by (metis is_ok_iff prod.collapse that)
qed

theorem snapshot_round_trip_witness:
  "\<exists>sn st'. save_session_snapshot (mem_object 6) ''run:child'' [(''k'', PyInt 1)] (Some 0) (Some demo_fence) demo_store = (Inr sn, st') \<and>
     load_session_snapshot (mem_object 9) ''run:child'' st' = (Inr sn, st') \<and> snap_state sn = PyDict [(''k'', PyInt 1)]"
proof -
  obtain sn st' where q: "save_session_snapshot (mem_object 6) ''run:child'' [(''k'', PyInt 1)] (Some 0) (Some demo_fence) demo_store = (Inr sn, st')"
    by (rule demo_snapshot_saved)
  from snapshot_round_trip [OF q, of 9] q show ?thesis by auto
qed

theorem snapshot_no_lost_update_witness:
  "\<exists>sn st'. save_session_snapshot (mem_object 6) ''run:child'' [(''k'', PyInt 1)] (Some 0) (Some demo_fence) demo_store = (Inr sn, st') \<and>
     \<not> is_ok (fst (save_session_snapshot (mem_object 7) ''run:child'' [] (Some 0) (Some demo_fence) st')) \<and>
     \<not> is_ok (fst (save_session_snapshot (mem_object 7) ''run:child'' [] (Some 0) None st'))"
proof -
  obtain sn st' where q: "save_session_snapshot (mem_object 6) ''run:child'' [(''k'', PyInt 1)] (Some 0) (Some demo_fence) demo_store = (Inr sn, st')"
    by (rule demo_snapshot_saved)
  from snapshot_no_lost_update [OF q store_steps.none, of 7 "[]"] q show ?thesis by auto
qed

theorem fenced_snapshot_authorised_witness:
  "is_ok (fst (save_session_snapshot (mem_object 6) ''run:child'' [] (Some 0) (Some demo_fence) demo_store)) \<and>
   cancellation_of demo_store ''run'' ''w1'' = None"
proof -
  have ok: "is_ok (fst (save_session_snapshot (mem_object 6) ''run:child'' [] (Some 0) (Some demo_fence) demo_store))"
    by code_simp
  then obtain sn st' where "save_session_snapshot (mem_object 6) ''run:child'' [] (Some 0) (Some demo_fence) demo_store = (Inr sn, st')"
    by (metis is_ok_iff prod.collapse)
  from fenced_snapshot_authorised [OF this] ok show ?thesis
    by (simp add: demo_fence_def)
qed

end
