(* ===== verification/PyText.thy ===== *)
theory PyText
  imports PyValue
begin

section \<open>Exceptions and the conversions str, repr and int\<close>

text \<open>
  The exceptions the kernel and its neighbours raise, each with its message, and the
  three conversions the source applies to loosely typed values: \<open>str(v)\<close>, \<open>repr(v)\<close>
  and \<open>int(v)\<close>. The shortest decimal text of a float is the argument \<open>fr\<close> of the two
  printers: nothing below depends on which text it is. Text is made of code points below
  256, integers have fewer digits than the interpreter's conversion limit of 4300.
\<close>

datatype py_exc =
    ValueExc string
  | TypeExc string
  | KeyExc string
  | RuntimeExc string
  | DomainExc string string

definition exc_text :: "py_exc \<Rightarrow> string" where
  "exc_text e = (case e of ValueExc s \<Rightarrow> s | TypeExc s \<Rightarrow> s | KeyExc s \<Rightarrow> s
                 | RuntimeExc s \<Rightarrow> s | DomainExc c s \<Rightarrow> s)"

subsection \<open>Decimal text\<close>

definition digit_char :: "nat \<Rightarrow> char" where
  "digit_char n = (char_of (48 + n) :: char)"

fun nat_text :: "nat \<Rightarrow> string" where
  "nat_text n = (if n < 10 then [digit_char n] else nat_text (n div 10) @ [digit_char (n mod 10)])"

declare nat_text.simps [simp del]

definition int_text :: "int \<Rightarrow> string" where
  "int_text i = (if i < 0 then CHR ''-'' # nat_text (nat (- i)) else nat_text (nat i))"

definition is_digit :: "char \<Rightarrow> bool" where
  "is_digit c = (48 \<le> (of_char c :: nat) \<and> (of_char c :: nat) \<le> 57)"

definition digit_val :: "char \<Rightarrow> nat" where
  "digit_val c = (of_char c :: nat) - 48"

text \<open>The digits of an integer literal: single underscores may separate two digits.\<close>

fun literal_digits :: "string \<Rightarrow> nat option \<Rightarrow> nat option" where
  "literal_digits [] acc = acc"
| "literal_digits (c # cs) acc =
     (if is_digit c then literal_digits cs (Some (10 * (case acc of None \<Rightarrow> 0 | Some n \<Rightarrow> n) + digit_val c))
      else if c = CHR ''_'' \<and> acc \<noteq> None \<and> cs \<noteq> [] \<and> is_digit (hd cs)
      then literal_digits cs acc
      else None)"

definition int_literal :: "string \<Rightarrow> int option" where
  "int_literal s =
     (case py_strip s of
        [] \<Rightarrow> None
      | c # cs \<Rightarrow>
          if c = CHR ''-'' then map_option (\<lambda>n. - int n) (literal_digits cs None)
          else if c = CHR ''+'' then map_option int (literal_digits cs None)
          else map_option int (literal_digits (c # cs) None))"

subsection \<open>Printing\<close>

definition hex_digit :: "nat \<Rightarrow> char" where
  "hex_digit n = (if n < 10 then char_of (48 + n) else char_of (87 + n))"

definition py_printable :: "char \<Rightarrow> bool" where
  "py_printable c = (let n = of_char c :: nat in (32 \<le> n \<and> n \<le> 126) \<or> (161 \<le> n \<and> n \<noteq> 173))"

definition repr_char :: "char \<Rightarrow> char \<Rightarrow> string" where
  "repr_char q c =
     (let n = of_char c :: nat in
      if c = q \<or> n = 92 then [char_of (92 :: nat), c]
      else if n = 10 then [char_of (92 :: nat), CHR ''n'']
      else if n = 13 then [char_of (92 :: nat), CHR ''r'']
      else if n = 9 then [char_of (92 :: nat), CHR ''t'']
      else if py_printable c then [c]
      else [char_of (92 :: nat), CHR ''x'', hex_digit (n div 16), hex_digit (n mod 16)])"

definition single_quote :: char where "single_quote = char_of (39 :: nat)"
definition double_quote :: char where "double_quote = char_of (34 :: nat)"

definition repr_str :: "string \<Rightarrow> string" where
  "repr_str s =
     (let q = (if single_quote \<in> set s \<and> double_quote \<notin> set s then double_quote else single_quote)
      in [q] @ concat (map (repr_char q) s) @ [q])"

fun join :: "string \<Rightarrow> string list \<Rightarrow> string" where
  "join sep [] = []"
| "join sep [x] = x"
| "join sep (x # y # ys) = x @ sep @ join sep (y # ys)"

fun py_repr :: "(rat \<Rightarrow> string) \<Rightarrow> pyval \<Rightarrow> string" where
  "py_repr fr PyNone = ''None''"
| "py_repr fr (PyBool b) = (if b then ''True'' else ''False'')"
| "py_repr fr (PyInt i) = int_text i"
| "py_repr fr (PyFloat q) = fr q"
| "py_repr fr (PyStr s) = repr_str s"
| "py_repr fr (PyList xs) = ''['' @ join '', '' (map (py_repr fr) xs) @ '']''"
| "py_repr fr (PyDict d) =
     ''{'' @ join '', '' (map (\<lambda>p. repr_str (fst p) @ '': '' @ py_repr fr (snd p)) d) @ ''}''"
| "py_repr fr (PyObj c d) =
     c @ ''('' @ join '', '' (map (\<lambda>p. fst p @ ''='' @ py_repr fr (snd p)) d) @ '')''"

fun py_str :: "(rat \<Rightarrow> string) \<Rightarrow> pyval \<Rightarrow> string" where
  "py_str fr (PyStr s) = s"
| "py_str fr v = py_repr fr v"

text \<open>\<open>str(v or d)\<close>, the defensive reading used throughout.\<close>

definition str_or :: "(rat \<Rightarrow> string) \<Rightarrow> pyval \<Rightarrow> string \<Rightarrow> string" where
  "str_or fr v d = (if truthy v then py_str fr v else d)"

definition type_name :: "pyval \<Rightarrow> string" where
  "type_name v = (case v of PyNone \<Rightarrow> ''NoneType'' | PyBool _ \<Rightarrow> ''bool'' | PyInt _ \<Rightarrow> ''int''
     | PyFloat _ \<Rightarrow> ''float'' | PyStr _ \<Rightarrow> ''str'' | PyList _ \<Rightarrow> ''list'' | PyDict _ \<Rightarrow> ''dict''
     | PyObj c _ \<Rightarrow> c)"

text \<open>\<open>int(v)\<close>: floats truncate towards zero.\<close>

definition py_trunc :: "rat \<Rightarrow> int" where
  "py_trunc q = (if q < 0 then \<lceil>q\<rceil> else \<lfloor>q\<rfloor>)"

fun py_int :: "pyval \<Rightarrow> (py_exc, int) res" where
  "py_int (PyInt i) = Inr i"
| "py_int (PyBool b) = Inr (if b then 1 else 0)"
| "py_int (PyFloat q) = Inr (py_trunc q)"
| "py_int (PyStr s) =
     (case int_literal s of
        Some i \<Rightarrow> Inr i
      | None \<Rightarrow> Inl (ValueExc (''invalid literal for int() with base 10: '' @ repr_str s)))"
| "py_int v = Inl (TypeExc (''int() argument must be a string, a bytes-like object or a real number, not ''
     @ repr_str (type_name v)))"

text \<open>Values that may be put into a set or used as a dictionary key.\<close>

fun hashable :: "pyval \<Rightarrow> bool" where
  "hashable (PyList _) = False"
| "hashable (PyDict _) = False"
| "hashable (PyObj _ _) = False"
| "hashable _ = True"

text \<open>\<open>str.lower\<close> on the code points below 256.\<close>

definition lower_char :: "char \<Rightarrow> char" where
  "lower_char c = (let n = of_char c :: nat in
     if (65 \<le> n \<and> n \<le> 90) \<or> (192 \<le> n \<and> n \<le> 222 \<and> n \<noteq> 215) then char_of (n + 32) else c)"

definition py_lower :: "string \<Rightarrow> string" where
  "py_lower s = map lower_char s"

text \<open>\<open>value in {...}\<close> for a set of strings: an unhashable value raises.\<close>

definition in_text_set :: "pyval \<Rightarrow> string list \<Rightarrow> (py_exc, bool) res" where
  "in_text_set v names =
     (if hashable v then Inr (v \<in> PyStr ` set names)
      else Inl (TypeExc (''unhashable type: '' @ repr_str (type_name v))))"

text \<open>\<open>json.dumps(v, default=str, ensure_ascii=False)\<close>\<close>

definition json_char :: "char \<Rightarrow> string" where
  "json_char c =
     (let n = of_char c :: nat; b = char_of (92 :: nat) in
      if n = 34 \<or> n = 92 then [b, c]
      else if n = 10 then [b, CHR ''n'']
      else if n = 13 then [b, CHR ''r'']
      else if n = 9 then [b, CHR ''t'']
      else if n = 8 then [b, CHR ''b'']
      else if n = 12 then [b, CHR ''f'']
      else if n < 32 then [b, CHR ''u'', CHR ''0'', CHR ''0'', hex_digit (n div 16), hex_digit (n mod 16)]
      else [c])"

definition json_str :: "string \<Rightarrow> string" where
  "json_str s = [double_quote] @ concat (map json_char s) @ [double_quote]"

fun json_dumps :: "(rat \<Rightarrow> string) \<Rightarrow> pyval \<Rightarrow> string" where
  "json_dumps fr PyNone = ''null''"
| "json_dumps fr (PyBool b) = (if b then ''true'' else ''false'')"
| "json_dumps fr (PyInt i) = int_text i"
| "json_dumps fr (PyFloat q) = fr q"
| "json_dumps fr (PyStr s) = json_str s"
| "json_dumps fr (PyList xs) = ''['' @ join '', '' (map (json_dumps fr) xs) @ '']''"
| "json_dumps fr (PyDict d) =
     ''{'' @ join '', '' (map (\<lambda>p. json_str (fst p) @ '': '' @ json_dumps fr (snd p)) d) @ ''}''"
| "json_dumps fr (PyObj c d) = json_str (py_repr fr (PyObj c d))"

text \<open>What \<open>json.dumps\<close> cannot serialise: the class of the first object met.\<close>

fun first_some :: "'a option list \<Rightarrow> 'a option" where
  "first_some [] = None"
| "first_some (None # xs) = first_some xs"
| "first_some (Some x # xs) = Some x"

fun json_bad :: "pyval \<Rightarrow> string option" where
  "json_bad (PyList xs) = first_some (map json_bad xs)"
| "json_bad (PyDict d) = first_some (map (\<lambda>p. json_bad (snd p)) d)"
| "json_bad (PyObj c d) = Some c"
| "json_bad _ = None"

lemma first_some_None: "first_some xs = None \<longleftrightarrow> (\<forall>x \<in> set xs. x = None)"
  by (induction xs rule: first_some.induct) auto

text \<open>A case on one constructor that raises on all others.\<close>

lemma case_PyList_Inr [res_simps]:
  "(case v of PyList xs \<Rightarrow> f xs | _ \<Rightarrow> Inl e) = Inr w \<longleftrightarrow> (\<exists>xs. v = PyList xs \<and> f xs = Inr w)"
  by (cases v) auto

lemma case_PyDict_Inr [res_simps]:
  "(case v of PyDict d \<Rightarrow> f d | _ \<Rightarrow> Inl e) = Inr w \<longleftrightarrow> (\<exists>d. v = PyDict d \<and> f d = Inr w)"
  by (cases v) auto

subsection \<open>Equality of values\<close>

lemma py_eq_simps [simp]:
  "py_eq PyNone PyNone" "py_eq (PyStr s) (PyStr t) = (s = t)"
  "py_eq (PyStr s) PyNone = False" "py_eq PyNone (PyStr s) = False"
  by (subst py_eq.simps, simp)+

lemma py_eq_PyStr: "py_eq v (PyStr s) \<longleftrightarrow> v = PyStr s" "py_eq (PyStr s) v \<longleftrightarrow> v = PyStr s"
  by (cases v; subst py_eq.simps; auto)+

lemma py_eq_PyList:
  "py_eq (PyList xs) (PyList ys) \<longleftrightarrow> length xs = length ys \<and> (\<forall>p \<in> set (zip xs ys). py_eq (fst p) (snd p))"
  by (subst py_eq.simps) simp

subsection \<open>The integer text round trip\<close>

lemma digit_roundtrip: "n < 10 \<Longrightarrow> is_digit (digit_char n) \<and> digit_val (digit_char n) = n"
  by (simp add: is_digit_def digit_val_def digit_char_def of_char_of)

lemma nat_text_digits: "\<forall>c \<in> set (nat_text n). is_digit c"
  by (induction n rule: nat_text.induct) (subst nat_text.simps, auto simp: digit_roundtrip)

lemma nat_text_nonempty: "nat_text n \<noteq> []"
  by (subst nat_text.simps) simp

lemma literal_digits_append:
  "\<forall>c \<in> set xs. is_digit c \<Longrightarrow>
   literal_digits (xs @ ys) acc = literal_digits ys (literal_digits xs acc)"
  by (induction xs arbitrary: acc) (auto split: option.splits)

lemma literal_digits_nat_text: "literal_digits (nat_text n) None = Some n"
proof (induction n rule: nat_text.induct)
  case (1 n)
  show ?case
  proof (cases "n < 10")
    case True
    then show ?thesis by (subst nat_text.simps) (simp add: digit_roundtrip)
  next
    case False
    then show ?thesis
      by (subst nat_text.simps)
        (simp add: 1 literal_digits_append nat_text_digits nat_text_nonempty digit_roundtrip)
  qed
qed

lemma digit_not_space: "is_digit c \<Longrightarrow> \<not> py_isspace c"
  by (simp add: is_digit_def py_isspace_def Let_def)

lemma py_strip_no_space: "\<forall>c \<in> set s. \<not> py_isspace c \<Longrightarrow> py_strip s = s"
proof -
  assume a: "\<forall>c \<in> set s. \<not> py_isspace c"
  have id: "dropWhile py_isspace t = t" if "\<forall>c \<in> set t. \<not> py_isspace c" for t
    using that by (cases t) auto
  show ?thesis using a by (simp add: py_strip_def py_lstrip_def py_rstrip_def id)
qed

lemma int_literal_int_text: "int_literal (int_text i) = Some i"
proof -
  have sp: "py_strip (nat_text n) = nat_text n" for n
    using nat_text_digits digit_not_space by (blast intro: py_strip_no_space)
  have neg: "py_strip (CHR ''-'' # nat_text n) = CHR ''-'' # nat_text n" for n
    using nat_text_digits digit_not_space
    by (intro py_strip_no_space) (auto simp: py_isspace_def)
  have hd: "\<exists>c cs. nat_text n = c # cs \<and> is_digit c" for n
    using nat_text_digits [of n] nat_text_nonempty [of n] by (cases "nat_text n") auto
  show ?thesis
  proof (cases "i < 0")
    case True
    then show ?thesis by (simp add: int_text_def int_literal_def neg literal_digits_nat_text)
  next
    case False
    obtain c cs where c: "nat_text (nat i) = c # cs" "is_digit c" using hd by blast
    then have "c \<noteq> CHR ''-''" "c \<noteq> CHR ''+''" by (auto simp: is_digit_def)
    then show ?thesis
      using False c literal_digits_nat_text [of "nat i"] sp [of "nat i"]
      by (simp add: int_text_def int_literal_def)
  qed
qed

lemma py_int_of_text: "py_int (PyStr (int_text i)) = Inr i"
  by (simp add: int_literal_int_text)

lemma py_int_int: "is_int v \<Longrightarrow> \<exists>i. py_int v = Inr i"
  by (cases v) auto

end
