(* ===== verification/SubagentTypes.thy ===== *)
theory SubagentTypes
  imports PyText
begin

section \<open>Subagent templates, policies and the subagent state\<close>

text \<open>
  \<open>subagents/types.py\<close>: the template and its capability normalisation, the policy, the
  subagent state with its defensive reader \<open>from_raw\<close>, its writer \<open>to_dict\<close> and
  \<open>merged\<close>, and the subagent result. The parser of child run bundles,
  \<open>run_bundle_from_dict\<close> of \<open>run_bundle_v2.py\<close>, is a component of the repository that is not modelled; it is
  the argument \<open>rb\<close> of the operations that call it, and \<open>bundle_codec\<close> is the hypothesis about it.
  The lemmas: the wire form of a well-formed state reads back as the same state, reading
  and merging keep states well formed, merging never loses a mailbox message, a board item or
  a blocked clarification, and never lowers the revision of a child bundle.
\<close>

subsection \<open>Templates and policies\<close>

record subagent_template =
  tmpl_name :: string
  description :: string
  tmpl_agent :: pyval
  allowed_modes :: "string list"
  output_mode :: string
  memory_policy :: string
  parallel_safe :: bool
  allowed_tools :: "string list option"
  tmpl_model :: "string option"
  module_capabilities :: "(string \<times> string list) list"

text \<open>
  What \<open>__post_init__\<close> distinguishes of one raw item: not a pair at all, or a key with a
  collection that is text or bytes, not iterable, or a sequence of values.
\<close>

datatype raw_values = TextValues | NotIterable string | ItemValues "pyval list"
datatype raw_capability = NotPair | CapPair pyval raw_values

fun fromkeys :: "string list \<Rightarrow> string list" where
  "fromkeys [] = []"
| "fromkeys (x # xs) = x # filter (\<lambda>y. y \<noteq> x) (fromkeys xs)"

fun str_nonblank :: "pyval \<Rightarrow> bool" where
  "str_nonblank (PyStr s) = (py_strip s \<noteq> [])"
| "str_nonblank _ = False"

fun str_of :: "pyval \<Rightarrow> string" where
  "str_of (PyStr s) = s"
| "str_of _ = []"

definition normalize_capability ::
  "string list \<Rightarrow> raw_capability \<Rightarrow> (py_exc, string \<times> string list) res" where
  "normalize_capability seen item =
     (case item of
        NotPair \<Rightarrow> Inl (TypeExc ''module_capabilities must contain (module_key, capabilities) pairs'')
      | CapPair key caps \<Rightarrow>
          if \<not> str_nonblank key then Inl (ValueExc ''module capability key must be non-empty'')
          else
            let module_key = py_strip (str_of key) in
            if module_key \<in> set seen then Inl (ValueExc ''module capability keys must be unique'')
            else
              (case caps of
                 TextValues \<Rightarrow> Inl (TypeExc ''module capabilities must be a string collection'')
               | NotIterable c \<Rightarrow> Inl (TypeExc (repr_str c @ '' object is not iterable''))
               | ItemValues values \<Rightarrow>
                   if \<exists>v \<in> set values. \<not> str_nonblank v
                   then Inl (ValueExc ''module capabilities must be non-empty strings'')
                   else Inr (module_key, fromkeys (map (\<lambda>v. py_strip (str_of v)) values))))"

fun normalize_capabilities ::
  "string list \<Rightarrow> raw_capability list \<Rightarrow> (py_exc, (string \<times> string list) list) res" where
  "normalize_capabilities seen [] = Inr []"
| "normalize_capabilities seen (item # items) =
     bindr (normalize_capability seen item)
       (\<lambda>c. bindr (normalize_capabilities (fst c # seen) items) (\<lambda>cs. Inr (c # cs)))"

definition mk_subagent_template ::
  "subagent_template \<Rightarrow> raw_capability list \<Rightarrow> (py_exc, subagent_template) res" where
  "mk_subagent_template t raw =
     bindr (normalize_capabilities [] raw) (\<lambda>cs. Inr (t\<lparr>module_capabilities := cs\<rparr>))"

definition supports_mode :: "subagent_template \<Rightarrow> string \<Rightarrow> bool" where
  "supports_mode t mode = (mode \<in> set (allowed_modes t))"

definition requested_module_capabilities :: "subagent_template \<Rightarrow> (string set) dict" where
  "requested_module_capabilities t = dict_update [] (map (\<lambda>(k, cs). (k, set cs)) (module_capabilities t))"

record subagent_policy =
  max_depth :: int
  max_children_per_parent :: int
  max_total_subagents :: int
  max_parallel_workers :: int
  worker_timeout_seconds :: rat
  allow_dynamic_workers :: bool
  allow_dynamic_delegate :: bool
  handoff_requires_template :: bool
  max_open_threads :: int
  max_mailbox_messages :: int
  max_message_chars :: int
  max_board_items :: int
  max_board_item_chars :: int
  allow_child_to_child_messages :: bool
  allow_broadcast_messages :: bool
  allow_return_handoff :: bool
  retain_completed_threads :: bool

definition default_subagent_policy :: subagent_policy where
  "default_subagent_policy =
     \<lparr>max_depth = 6, max_children_per_parent = 10, max_total_subagents = 100,
      max_parallel_workers = 4, worker_timeout_seconds = 30, allow_dynamic_workers = False,
      allow_dynamic_delegate = False, handoff_requires_template = True, max_open_threads = 10,
      max_mailbox_messages = 100, max_message_chars = 8000, max_board_items = 200,
      max_board_item_chars = 12000, allow_child_to_child_messages = False,
      allow_broadcast_messages = False, allow_return_handoff = True,
      retain_completed_threads = True\<rparr>"

subsection \<open>The subagent state\<close>

record subagent_state =
  root_agent_id :: string
  active_agent_id :: string
  active_lineage :: "string list"
  handoff_stack :: "pyval list"
  lineage_counters :: "int dict"
  running_batches :: pydict
  threads :: pydict
  mailboxes :: "(pyval list) dict"
  blackboards :: "(pyval list) dict"
  return_handoff_stack :: "pyval list"
  blocked_clarifications :: "pyval list"
  run_bundles :: pydict
  spawn_stats :: "int dict"

definition default_spawn_stats :: "int dict" where
  "default_spawn_stats = [(''delegate'', 0), (''handoff'', 0), (''worker'', 0)]"

definition empty_subagent_state :: subagent_state where
  "empty_subagent_state =
     \<lparr>root_agent_id = [], active_agent_id = [], active_lineage = [], handoff_stack = [],
      lineage_counters = [], running_batches = [], threads = [], mailboxes = [],
      blackboards = [], return_handoff_stack = [], blocked_clarifications = [],
      run_bundles = [], spawn_stats = default_spawn_stats\<rparr>"

definition str_list_value :: "string list \<Rightarrow> pyval" where
  "str_list_value xs = PyList (map PyStr xs)"

definition int_dict_value :: "int dict \<Rightarrow> pyval" where
  "int_dict_value d = PyDict (map (\<lambda>(k, v). (k, PyInt v)) d)"

definition box_dict_value :: "(pyval list) dict \<Rightarrow> pyval" where
  "box_dict_value d = PyDict (map (\<lambda>(k, v). (k, PyList v)) d)"

definition subagent_to_dict :: "subagent_state \<Rightarrow> pydict" where
  "subagent_to_dict s =
     [(''root_agent_id'', PyStr (root_agent_id s)),
      (''active_agent_id'', PyStr (active_agent_id s)),
      (''active_lineage'', str_list_value (active_lineage s)),
      (''handoff_stack'', PyList (handoff_stack s)),
      (''lineage_counters'', int_dict_value (lineage_counters s)),
      (''running_batches'', PyDict (running_batches s)),
      (''threads'', PyDict (threads s)),
      (''mailboxes'', box_dict_value (mailboxes s)),
      (''blackboards'', box_dict_value (blackboards s)),
      (''return_handoff_stack'', PyList (return_handoff_stack s)),
      (''blocked_clarifications'', PyList (blocked_clarifications s)),
      (''spawn_stats'', int_dict_value (spawn_stats s))]
     @ (if run_bundles s \<noteq> [] then [(''run_bundles'', PyDict (run_bundles s))] else [])"

subsection \<open>Reading a raw state\<close>

fun strings_of :: "pyval \<Rightarrow> string list" where
  "strings_of (PyList xs) = map str_of (filter is_str xs)"
| "strings_of _ = []"

fun dicts_of :: "pyval \<Rightarrow> pyval list" where
  "dicts_of (PyList xs) = filter is_dict xs"
| "dicts_of _ = []"

fun int_of :: "pyval \<Rightarrow> int" where
  "int_of (PyInt i) = i"
| "int_of (PyBool b) = (if b then 1 else 0)"
| "int_of _ = 0"

fun counters_of :: "pyval \<Rightarrow> int dict" where
  "counters_of (PyDict d) = map (\<lambda>(k, v). (k, int_of v)) (filter (\<lambda>p. is_int (snd p)) d)"
| "counters_of _ = []"

fun dict_of :: "pyval \<Rightarrow> pydict" where
  "dict_of (PyDict d) = d"
| "dict_of _ = []"

fun dict_values_of :: "pyval \<Rightarrow> pydict" where
  "dict_values_of (PyDict d) = filter (\<lambda>p. is_dict (snd p)) d"
| "dict_values_of _ = []"

fun boxes_of :: "pyval \<Rightarrow> (pyval list) dict" where
  "boxes_of (PyDict d) = map (\<lambda>(k, v). (k, dicts_of v)) (filter (\<lambda>p. is_list (snd p)) d)"
| "boxes_of _ = []"

definition read_spawn_mode :: "pyval \<Rightarrow> string \<Rightarrow> int dict \<Rightarrow> int dict" where
  "read_spawn_mode raw mode stats =
     (if is_dict raw \<and> is_int (vget raw mode) then dict_set mode (int_of (vget raw mode)) stats else stats)"

definition read_spawn_stats :: "pyval \<Rightarrow> int dict \<Rightarrow> int dict" where
  "read_spawn_stats raw stats =
     fold (read_spawn_mode raw) [''delegate'', ''handoff'', ''worker''] stats"

record run_identity =
  execution_id :: string
  attempt_id :: string
  root_run_id :: string
  run_id :: string
  parent_run_id :: "string option"
  relation :: string

record run_bundle =
  bundle_id :: string
  bundle_identity :: run_identity
  bundle_revision :: int
  bundle_digest :: string
  bundle_wire :: pyval

type_synonym bundle_parser = "pyval \<Rightarrow> (py_exc, run_bundle) res"

fun load_bundles :: "bundle_parser \<Rightarrow> pydict \<Rightarrow> pydict \<Rightarrow> (py_exc, pydict) res" where
  "load_bundles rb acc [] = Inr acc"
| "load_bundles rb acc ((key, value) # rest) =
     (if \<not> is_dict value then load_bundles rb acc rest
      else bindr (rb value) (\<lambda>bundle.
        if key \<noteq> bundle_id bundle
        then Inl (ValueExc ''subagent run bundle key does not match bundle_id'')
        else load_bundles rb (dict_set key (bundle_wire bundle) acc) rest))"

datatype raw_subagent = RawState subagent_state | RawValue pyval

definition from_raw :: "(rat \<Rightarrow> string) \<Rightarrow> bundle_parser \<Rightarrow> raw_subagent \<Rightarrow> (py_exc, subagent_state) res" where
  "from_raw fr rb raw =
     (case raw of
        RawState s \<Rightarrow> Inr s
      | RawValue (PyDict d) \<Rightarrow>
          bindr (load_bundles rb [] (dict_of (dget d ''run_bundles''))) (\<lambda>bundles.
            Inr \<lparr>root_agent_id = str_or fr (dget d ''root_agent_id'') [],
                 active_agent_id = str_or fr (dget d ''active_agent_id'') [],
                 active_lineage = strings_of (dget d ''active_lineage''),
                 handoff_stack = dicts_of (dget d ''handoff_stack''),
                 lineage_counters = counters_of (dget d ''lineage_counters''),
                 running_batches = dict_of (dget d ''running_batches''),
                 threads = dict_values_of (dget d ''threads''),
                 mailboxes = boxes_of (dget d ''mailboxes''),
                 blackboards = boxes_of (dget d ''blackboards''),
                 return_handoff_stack = dicts_of (dget d ''return_handoff_stack''),
                 blocked_clarifications = dicts_of (dget d ''blocked_clarifications''),
                 run_bundles = bundles,
                 spawn_stats = read_spawn_stats (dget d ''spawn_stats'') default_spawn_stats\<rparr>)
      | RawValue _ \<Rightarrow> Inr empty_subagent_state)"

subsection \<open>Merging\<close>

definition bundle_conflict :: "string \<Rightarrow> py_exc" where
  "bundle_conflict msg = DomainExc ''RunBundleProtocolError'' msg"

definition merge_bundle ::
  "bundle_parser \<Rightarrow> pydict \<Rightarrow> string \<times> pyval \<Rightarrow> (py_exc, pydict) res" where
  "merge_bundle rb current kb =
     (let prior = dget current (fst kb); bundle = snd kb in
      if prior = PyNone then Inr (dict_set (fst kb) bundle current)
      else bindr (rb prior) (\<lambda>p. bindr (rb bundle) (\<lambda>i.
        if bundle_identity p \<noteq> bundle_identity i
        then Inl (bundle_conflict ''one child bundle_id changed its immutable identity'')
        else if bundle_revision i < bundle_revision p then Inr current
        else if bundle_revision i = bundle_revision p \<and> bundle_digest i \<noteq> bundle_digest p
        then Inl (bundle_conflict ''one child bundle revision has conflicting projections'')
        else Inr (dict_set (fst kb) bundle current))))"

fun merge_bundles :: "bundle_parser \<Rightarrow> pydict \<Rightarrow> pydict \<Rightarrow> (py_exc, pydict) res" where
  "merge_bundles rb current [] = Inr current"
| "merge_bundles rb current (kb # kbs) =
     bindr (merge_bundle rb current kb) (\<lambda>cur. merge_bundles rb cur kbs)"

text \<open>\<open>boxes.setdefault(key, []).extend(value)\<close>\<close>

definition box :: "(pyval list) dict \<Rightarrow> string \<Rightarrow> pyval list" where
  "box d k = (case dict_get d k of None \<Rightarrow> [] | Some xs \<Rightarrow> xs)"

definition extend_box :: "string \<times> pyval list \<Rightarrow> (pyval list) dict \<Rightarrow> (pyval list) dict" where
  "extend_box kv d = dict_set (fst kv) (box d (fst kv) @ snd kv) d"

definition extend_boxes :: "(pyval list) dict \<Rightarrow> (pyval list) dict \<Rightarrow> (pyval list) dict" where
  "extend_boxes d u = fold extend_box u d"

definition merge_spawn_stat :: "string \<times> pyval \<Rightarrow> int dict \<Rightarrow> int dict" where
  "merge_spawn_stat kv stats =
     (if fst kv \<notin> {''delegate'', ''handoff'', ''worker''} \<or> \<not> is_int (snd kv) then stats
      else dict_set (fst kv) (int_of (snd kv)) stats)"

definition same_counts :: "int dict \<Rightarrow> int dict \<Rightarrow> bool" where
  "same_counts d e = (length d = length e \<and> (\<forall>p \<in> set d. dict_get e (fst p) = Some (snd p)))"

definition raw_spawn_stats :: "raw_subagent \<Rightarrow> pydict" where
  "raw_spawn_stats raw =
     (case raw of
        RawState s \<Rightarrow> if same_counts (spawn_stats s) default_spawn_stats then []
                      else dict_of (int_dict_value (spawn_stats s))
      | RawValue v \<Rightarrow> dict_of (vget v ''spawn_stats''))"

definition nonempty_or :: "'a list \<Rightarrow> 'a list \<Rightarrow> 'a list" where
  "nonempty_or new old = (if new \<noteq> [] then new else old)"

definition merged ::
  "(rat \<Rightarrow> string) \<Rightarrow> bundle_parser \<Rightarrow> subagent_state \<Rightarrow> raw_subagent \<Rightarrow> (py_exc, subagent_state) res" where
  "merged fr rb current raw =
     bindr (from_raw fr rb raw) (\<lambda>update.
     bindr (merge_bundles rb (run_bundles current) (run_bundles update)) (\<lambda>bundles.
       Inr \<lparr>root_agent_id = nonempty_or (root_agent_id update) (root_agent_id current),
            active_agent_id = nonempty_or (active_agent_id update) (active_agent_id current),
            active_lineage = nonempty_or (active_lineage update) (active_lineage current),
            handoff_stack = nonempty_or (handoff_stack update) (handoff_stack current),
            lineage_counters = dict_update (lineage_counters current) (lineage_counters update),
            running_batches = dict_update (running_batches current) (running_batches update),
            threads = dict_update (threads current) (threads update),
            mailboxes = extend_boxes (mailboxes current) (mailboxes update),
            blackboards = extend_boxes (blackboards current) (blackboards update),
            return_handoff_stack = return_handoff_stack current @ return_handoff_stack update,
            blocked_clarifications = blocked_clarifications current @ blocked_clarifications update,
            run_bundles = bundles,
            spawn_stats = fold merge_spawn_stat (raw_spawn_stats raw) (spawn_stats current)\<rparr>))"

subsection \<open>Results of a child\<close>

record subagent_result =
  res_mode :: string
  agent_name :: string
  template_name :: "string option"
  res_status :: string
  res_output :: string
  res_summary :: string
  res_messages :: "pyval list"
  res_lineage :: "string list"
  clarification_request :: pyval
  res_error :: string
  res_subagent_state :: pyval
  res_run_bundle :: pyval

definition mk_subagent_result :: "bundle_parser \<Rightarrow> subagent_result \<Rightarrow> (py_exc, subagent_result) res" where
  "mk_subagent_result rb r =
     (case res_run_bundle r of
        PyNone \<Rightarrow> Inr r
      | PyDict d \<Rightarrow> bindr (rb (PyDict d)) (\<lambda>b. Inr (r\<lparr>res_run_bundle := bundle_wire b\<rparr>))
      | _ \<Rightarrow> Inl (TypeExc ''run_bundle must be a run bundle object or null''))"

definition opt_str_value :: "string option \<Rightarrow> pyval" where
  "opt_str_value s = (case s of None \<Rightarrow> PyNone | Some t \<Rightarrow> PyStr t)"

fun without_bundles :: "pyval \<Rightarrow> pyval" where
  "without_bundles (PyDict d) = PyDict (dict_del ''run_bundles'' d)"
| "without_bundles v = v"

definition result_to_dict :: "subagent_result \<Rightarrow> pydict" where
  "result_to_dict r =
     [(''mode'', PyStr (res_mode r)),
      (''agent_name'', PyStr (agent_name r)),
      (''template_name'', opt_str_value (template_name r)),
      (''status'', PyStr (res_status r)),
      (''output'', PyStr (res_output r)),
      (''summary'', PyStr (res_summary r)),
      (''messages'', PyList (res_messages r)),
      (''lineage'', str_list_value (res_lineage r)),
      (''clarification_request'', clarification_request r),
      (''error'', PyStr (res_error r)),
      (''subagent_state'', without_bundles (res_subagent_state r))]"

definition to_record_dict :: "subagent_result \<Rightarrow> pydict" where
  "to_record_dict r =
     (let value = dict_set ''subagent_state'' (res_subagent_state r) (result_to_dict r) in
      if res_run_bundle r \<noteq> PyNone then dict_set ''run_bundle'' (res_run_bundle r) value else value)"

subsection \<open>Well-formed states\<close>

definition boxes_wf :: "(pyval list) dict \<Rightarrow> bool" where
  "boxes_wf d \<longleftrightarrow> (\<forall>p \<in> set d. \<forall>m \<in> set (snd p). is_dict m)"

definition bundle_entry_ok :: "bundle_parser \<Rightarrow> string \<times> pyval \<Rightarrow> bool" where
  "bundle_entry_ok rb p \<longleftrightarrow>
     is_dict (snd p) \<and>
     (case rb (snd p) of Inl _ \<Rightarrow> False | Inr b \<Rightarrow> bundle_id b = fst p \<and> bundle_wire b = snd p)"

definition subagent_wf :: "bundle_parser \<Rightarrow> subagent_state \<Rightarrow> bool" where
  "subagent_wf rb s \<longleftrightarrow>
     (\<forall>m \<in> set (handoff_stack s). is_dict m) \<and>
     (\<forall>p \<in> set (threads s). is_dict (snd p)) \<and>
     boxes_wf (mailboxes s) \<and> boxes_wf (blackboards s) \<and>
     (\<forall>m \<in> set (return_handoff_stack s). is_dict m) \<and>
     (\<forall>m \<in> set (blocked_clarifications s). is_dict m) \<and>
     dict_wf (run_bundles s) \<and> (\<forall>p \<in> set (run_bundles s). bundle_entry_ok rb p) \<and>
     dict_keys (spawn_stats s) = [''delegate'', ''handoff'', ''worker'']"

text \<open>
  What the state relies on of the bundle parser: the canonical wire of a parsed bundle is a
  dictionary and parses to the same bundle.
\<close>

definition bundle_codec :: "bundle_parser \<Rightarrow> bool" where
  "bundle_codec rb \<longleftrightarrow>
     (\<forall>v b. rb v = Inr b \<longrightarrow> is_dict (bundle_wire b) \<and> rb (bundle_wire b) = Inr b)"

lemma fromkeys_set [simp]: "set (fromkeys xs) = set xs"
  by (induction xs) auto

lemma fromkeys_distinct: "distinct (fromkeys xs)"
  by (induction xs) auto

lemma map_str_of_PyStr [simp]: "map (str_of \<circ> PyStr) xs = xs"
  by (simp add: comp_def)

lemma filter_is_str_PyStr [simp]: "filter is_str (map PyStr xs) = map PyStr xs"
  by (simp add: filter_map comp_def)

lemma strings_of_str_list [simp]: "strings_of (str_list_value xs) = xs"
  by (simp add: str_list_value_def)

lemma str_or_PyStr [simp]: "str_or fr (PyStr s) [] = s"
  by (simp add: str_or_def)

lemma counters_of_int_dict [simp]: "counters_of (int_dict_value d) = d"
  by (induction d) (auto simp: int_dict_value_def)

lemma boxes_of_box_dict [simp]: "boxes_wf d \<Longrightarrow> boxes_of (box_dict_value d) = d"
  by (induction d) (auto simp: box_dict_value_def boxes_wf_def)

lemma boxes_wf_boxes_of [simp]: "boxes_wf (boxes_of v)"
proof (cases v)
  case (PyDict d)
  have "\<forall>m \<in> set (dicts_of w). is_dict m" for w by (cases w) auto
  then show ?thesis by (auto simp: boxes_wf_def PyDict)
qed (auto simp: boxes_wf_def)

lemma is_dict_dicts_of: "m \<in> set (dicts_of v) \<Longrightarrow> is_dict m"
  by (cases v) auto

lemma is_dict_dict_values_of: "p \<in> set (dict_values_of v) \<Longrightarrow> is_dict (snd p)"
  by (cases v) auto

lemma set_dict_set_subset: "set (dict_set k v d) \<subseteq> insert (k, v) (set d)"
  by (induction d) auto

lemma dict_set_mem: "p \<in> set (dict_set k v d) \<Longrightarrow> p = (k, v) \<or> p \<in> set d"
  using set_dict_set_subset [of k v d] by auto

lemma ball_dict_set: "\<lbrakk>\<forall>p \<in> set d. P p; P (k, v)\<rbrakk> \<Longrightarrow> \<forall>p \<in> set (dict_set k v d). P p"
  using set_dict_set_subset [of k v d] by auto

lemma ball_dict_update:
  "\<lbrakk>\<forall>p \<in> set d. P p; \<forall>p \<in> set u. P p\<rbrakk> \<Longrightarrow> \<forall>p \<in> set (dict_update d u). P p"
  unfolding dict_update_def
  by (induction u arbitrary: d) (auto dest!: dict_set_mem)

lemma dict_set_keys: "k \<in> set (dict_keys d) \<Longrightarrow> dict_keys (dict_set k v d) = dict_keys d"
  by (induction d) auto

lemma load_bundles_ok:
  "\<lbrakk>\<forall>p \<in> set d. bundle_entry_ok rb p; distinct (dict_keys acc @ dict_keys d)\<rbrakk> \<Longrightarrow>
   load_bundles rb acc d = Inr (acc @ d)"
proof (induction d arbitrary: acc)
  case (Cons p d)
  obtain k v where p: "p = (k, v)" by (cases p)
  have fresh: "dict_set k w acc = acc @ [(k, w)]" for w
    using Cons.prems(2) unfolding p by (induction acc) auto
  show ?case
    using Cons.prems Cons.IH [of "acc @ [(k, v)]"]
    by (auto simp: p bundle_entry_ok_def fresh split: sum.splits)
qed simp

lemma load_bundles_wf:
  "\<lbrakk>load_bundles rb acc d = Inr bs; bundle_codec rb; dict_wf acc; \<forall>p \<in> set acc. bundle_entry_ok rb p\<rbrakk>
   \<Longrightarrow> dict_wf bs \<and> (\<forall>p \<in> set bs. bundle_entry_ok rb p)"
proof (induction d arbitrary: acc)
  case (Cons p d)
  obtain k v where p: "p = (k, v)" by (cases p)
  show ?case
  proof (cases "is_dict v")
    case True
    then obtain b where b: "rb v = Inr b" "k = bundle_id b"
      "load_bundles rb (dict_set k (bundle_wire b) acc) d = Inr bs"
      using Cons.prems(1) by (auto simp: p bindr_eq_Inr split: if_splits)
    have "bundle_entry_ok rb (k, bundle_wire b)"
      using b(1,2) Cons.prems(2) by (auto simp: bundle_codec_def bundle_entry_ok_def)
    then have "\<forall>q \<in> set (dict_set k (bundle_wire b) acc). bundle_entry_ok rb q"
      using Cons.prems(4) by (rule ball_dict_set [rotated])
    then show ?thesis using Cons.IH [OF b(3)] Cons.prems by simp
  next
    case False
    then show ?thesis using Cons by (simp add: p)
  qed
qed simp

lemma read_spawn_stats_keys:
  "dict_keys stats = [''delegate'', ''handoff'', ''worker''] \<Longrightarrow>
   dict_keys (read_spawn_stats raw stats) = [''delegate'', ''handoff'', ''worker'']"
  by (simp add: read_spawn_stats_def read_spawn_mode_def dict_set_keys)

lemma from_raw_wf:
  assumes "from_raw fr rb raw = Inr s" "bundle_codec rb" "\<And>t. raw = RawState t \<Longrightarrow> subagent_wf rb t"
  shows "subagent_wf rb s"
proof (cases raw)
  case (RawState t)
  then show ?thesis using assms by (simp add: from_raw_def)
next
  case (RawValue v)
  show ?thesis
  proof (cases "is_dict v")
    case False
    then have "s = empty_subagent_state" using assms RawValue by (cases v) (auto simp: from_raw_def)
    then show ?thesis
      by (simp add: subagent_wf_def empty_subagent_state_def boxes_wf_def dict_wf_def default_spawn_stats_def)
  next
    case True
    then obtain d where d: "v = PyDict d" by (cases v) auto
    with RawValue assms(1) obtain bs where
      bs: "load_bundles rb [] (dict_of (dget d ''run_bundles'')) = Inr bs" and s: "run_bundles s = bs"
      "handoff_stack s = dicts_of (dget d ''handoff_stack'')" "threads s = dict_values_of (dget d ''threads'')"
      "mailboxes s = boxes_of (dget d ''mailboxes'')" "blackboards s = boxes_of (dget d ''blackboards'')"
      "return_handoff_stack s = dicts_of (dget d ''return_handoff_stack'')"
      "blocked_clarifications s = dicts_of (dget d ''blocked_clarifications'')"
      "spawn_stats s = read_spawn_stats (dget d ''spawn_stats'') default_spawn_stats"
      by (auto simp: from_raw_def bindr_eq_Inr)
    moreover have "dict_wf bs \<and> (\<forall>p \<in> set bs. bundle_entry_ok rb p)"
      using load_bundles_wf [OF bs assms(2)] by (simp add: dict_wf_def)
    moreover have "dict_keys (spawn_stats s) = [''delegate'', ''handoff'', ''worker'']"
      unfolding s by (rule read_spawn_stats_keys) (simp add: default_spawn_stats_def)
    ultimately show ?thesis
      by (simp add: subagent_wf_def is_dict_dicts_of is_dict_dict_values_of)
  qed
qed

subsection \<open>What merging keeps\<close>


lemma boxes_wf_box: "\<lbrakk>boxes_wf d; m \<in> set (box d k)\<rbrakk> \<Longrightarrow> is_dict m"
  by (cases "dict_get d k") (auto simp: boxes_wf_def box_def dest!: map_of_SomeD)

lemma boxes_wf_extend: "\<lbrakk>boxes_wf d; boxes_wf u\<rbrakk> \<Longrightarrow> boxes_wf (extend_boxes d u)"
  unfolding extend_boxes_def
proof (induction u arbitrary: d)
  case (Cons p u)
  have "boxes_wf (extend_box p d)"
    unfolding boxes_wf_def extend_box_def
  proof (rule ball_dict_set)
    show "\<forall>q \<in> set d. \<forall>m \<in> set (snd q). is_dict m" using Cons.prems by (simp add: boxes_wf_def)
    show "\<forall>m \<in> set (snd (fst p, box d (fst p) @ snd p)). is_dict m"
      using Cons.prems(2) boxes_wf_box [OF Cons.prems(1), of _ "fst p"] by (auto simp: boxes_wf_def)
  qed
  moreover have "boxes_wf u" using Cons.prems(2) by (simp add: boxes_wf_def)
  ultimately show ?case using Cons.IH by simp
qed simp

lemma merge_spawn_stat_keys:
  "dict_keys stats = [''delegate'', ''handoff'', ''worker''] \<Longrightarrow>
   dict_keys (fold merge_spawn_stat kvs stats) = [''delegate'', ''handoff'', ''worker'']"
  by (induction kvs arbitrary: stats) (auto simp: merge_spawn_stat_def dict_set_keys)

lemma merge_bundle_wf:
  "\<lbrakk>merge_bundle rb cur kb = Inr cur'; dict_wf cur; \<forall>p \<in> set cur. bundle_entry_ok rb p; bundle_entry_ok rb kb\<rbrakk>
   \<Longrightarrow> dict_wf cur' \<and> (\<forall>p \<in> set cur'. bundle_entry_ok rb p)"
  by (auto simp: merge_bundle_def Let_def bindr_eq_Inr split: if_splits dest!: dict_set_mem)

lemma merge_bundles_wf:
  "\<lbrakk>merge_bundles rb cur kbs = Inr cur'; dict_wf cur; \<forall>p \<in> set cur. bundle_entry_ok rb p;
    \<forall>p \<in> set kbs. bundle_entry_ok rb p\<rbrakk>
   \<Longrightarrow> dict_wf cur' \<and> (\<forall>p \<in> set cur'. bundle_entry_ok rb p)"
proof (induction kbs arbitrary: cur)
  case (Cons kb kbs)
  then obtain mid where "merge_bundle rb cur kb = Inr mid" "merge_bundles rb mid kbs = Inr cur'"
    by (auto simp: bindr_eq_Inr)
  moreover then have "dict_wf mid \<and> (\<forall>p \<in> set mid. bundle_entry_ok rb p)"
    using Cons.prems by (intro merge_bundle_wf [of rb cur kb]) auto
  ultimately show ?case using Cons by simp
qed auto






subsection \<open>Properties\<close>

text \<open>
  Reading the wire form of a well-formed subagent state gives back that state: \<open>from_raw\<close>
  is a left inverse of \<open>to_dict\<close>, with and without child run bundles.
\<close>
theorem subagent_state_roundtrip:
  assumes "subagent_wf rb s"
  shows "from_raw fr rb (RawValue (PyDict (subagent_to_dict s))) = Inr s"
proof -
  have bundles: "load_bundles rb [] (run_bundles s) = Inr (run_bundles s)"
    using assms load_bundles_ok [of "run_bundles s" rb "[]"] by (auto simp: subagent_wf_def dict_wf_def)
  obtain a b c where st: "spawn_stats s = [(''delegate'', a), (''handoff'', b), (''worker'', c)]"
    using assms unfolding subagent_wf_def by (auto simp: map_eq_Cons_conv)
  have stats: "read_spawn_stats (int_dict_value (spawn_stats s)) default_spawn_stats = spawn_stats s"
    by (simp add: st read_spawn_stats_def read_spawn_mode_def int_dict_value_def dget_def default_spawn_stats_def)
  have filters: "filter is_dict (handoff_stack s) = handoff_stack s"
    "filter is_dict (return_handoff_stack s) = return_handoff_stack s"
    "filter is_dict (blocked_clarifications s) = blocked_clarifications s"
    "filter (\<lambda>p. is_dict (snd p)) (threads s) = threads s"
    "boxes_of (box_dict_value (mailboxes s)) = mailboxes s"
    "boxes_of (box_dict_value (blackboards s)) = blackboards s"
    using assms by (simp_all add: subagent_wf_def)
  show ?thesis
    by (cases "run_bundles s = []")
      (simp_all add: from_raw_def subagent_to_dict_def dget_def bundles stats filters)
qed

text \<open>A parser of child bundles for the witnesses: the wire is its own canonical form.\<close>

definition demo_rb :: bundle_parser where
  "demo_rb v =
     (if is_dict v then Inr \<lparr>bundle_id = str_of (vget v ''id''),
        bundle_identity = \<lparr>execution_id = ''e'', attempt_id = ''a'', root_run_id = ''r'',
          run_id = str_of (vget v ''id''), parent_run_id = Some ''r'', relation = ''child''\<rparr>,
        bundle_revision = int_of (vget v ''rev''), bundle_digest = str_of (vget v ''digest''),
        bundle_wire = v\<rparr>
      else Inl (TypeExc ''run bundle must be an object''))"

definition demo_bundle :: "int \<Rightarrow> string \<Rightarrow> pyval" where
  "demo_bundle r d = PyDict [(''id'', PyStr ''b1''), (''rev'', PyInt r), (''digest'', PyStr d)]"

definition demo_subagents :: subagent_state where
  "demo_subagents = empty_subagent_state
     \<lparr>root_agent_id := ''root'', active_lineage := [''root'', ''child''],
      threads := [(''t1'', PyDict [(''status'', PyStr ''pending'')])],
      mailboxes := [(''child'', [PyDict [(''content'', PyStr ''hello'')]])],
      run_bundles := [(''b1'', demo_bundle 1 ''x'')]\<rparr>"

lemma demo_subagents_wf: "subagent_wf demo_rb demo_subagents"
  by (simp add: demo_subagents_def demo_rb_def demo_bundle_def subagent_wf_def empty_subagent_state_def
      boxes_wf_def dict_wf_def bundle_entry_ok_def default_spawn_stats_def dget_def)

lemma demo_rb_codec: "bundle_codec demo_rb"
  by (auto simp: bundle_codec_def demo_rb_def split: if_splits)

theorem subagent_state_roundtrip_witness:
  "subagent_wf demo_rb demo_subagents \<and>
   from_raw (\<lambda>q. []) demo_rb (RawValue (PyDict (subagent_to_dict demo_subagents))) = Inr demo_subagents"
  using subagent_state_roundtrip [OF demo_subagents_wf] demo_subagents_wf by blast

text \<open>
  Reading any raw value and merging it into a well-formed state gives a well-formed state,
  when the bundle parser is canonical: every stack, thread, mailbox and board holds
  dictionaries only, every child bundle is stored under its own id in canonical form, and the
  spawn counters stay exactly the three modes.
\<close>
theorem merged_keeps_subagent_wf:
  assumes "bundle_codec rb" "subagent_wf rb s"
    "merged fr rb s (RawValue v) = Inr s'"
  shows "subagent_wf rb s'"
proof -
  obtain u bs where u: "from_raw fr rb (RawValue v) = Inr u"
    and bs: "merge_bundles rb (run_bundles s) (run_bundles u) = Inr bs"
    and s': "run_bundles s' = bs" "handoff_stack s' = nonempty_or (handoff_stack u) (handoff_stack s)"
      "threads s' = dict_update (threads s) (threads u)"
      "mailboxes s' = extend_boxes (mailboxes s) (mailboxes u)"
      "blackboards s' = extend_boxes (blackboards s) (blackboards u)"
      "return_handoff_stack s' = return_handoff_stack s @ return_handoff_stack u"
      "blocked_clarifications s' = blocked_clarifications s @ blocked_clarifications u"
      "spawn_stats s' = fold merge_spawn_stat (raw_spawn_stats (RawValue v)) (spawn_stats s)"
    using assms(3) by (auto simp: merged_def bindr_eq_Inr)
  have wfu: "subagent_wf rb u" using from_raw_wf [OF u assms(1)] by simp
  have "dict_wf bs \<and> (\<forall>p \<in> set bs. bundle_entry_ok rb p)"
    using merge_bundles_wf [OF bs] assms(2) wfu by (simp add: subagent_wf_def)
  moreover have "\<forall>p \<in> set (dict_update (threads s) (threads u)). is_dict (snd p)"
    using assms(2) wfu by (intro ball_dict_update) (simp_all add: subagent_wf_def)
  moreover have "\<forall>m \<in> set (nonempty_or (handoff_stack u) (handoff_stack s)). is_dict m"
    using assms(2) wfu by (simp add: subagent_wf_def nonempty_or_def)
  ultimately show ?thesis
    using assms(2) wfu
    unfolding subagent_wf_def s' by (simp add: boxes_wf_extend merge_spawn_stat_keys ball_Un)
qed

definition demo_child_update :: pyval where
  "demo_child_update = PyDict
     [(''mailboxes'', PyDict [(''child'', PyList [PyDict [(''content'', PyStr ''again'')], PyInt 3])]),
      (''run_bundles'', PyDict [(''b1'', demo_bundle 2 ''y'')]),
      (''spawn_stats'', PyDict [(''worker'', PyInt 4)])]"

definition demo_merged :: subagent_state where
  "demo_merged = demo_subagents
     \<lparr>mailboxes := [(''child'', [PyDict [(''content'', PyStr ''hello'')], PyDict [(''content'', PyStr ''again'')]])],
      run_bundles := [(''b1'', demo_bundle 2 ''y'')],
      spawn_stats := [(''delegate'', 0), (''handoff'', 0), (''worker'', 4)]\<rparr>"

lemma demo_merged_eq: "merged (\<lambda>q. []) demo_rb demo_subagents (RawValue demo_child_update) = Inr demo_merged"
  by code_simp

theorem merged_keeps_subagent_wf_witness:
  "bundle_codec demo_rb \<and> subagent_wf demo_rb demo_subagents \<and>
   merged (\<lambda>q. []) demo_rb demo_subagents (RawValue demo_child_update) = Inr demo_merged \<and>
   subagent_wf demo_rb demo_merged"
  using merged_keeps_subagent_wf [OF demo_rb_codec demo_subagents_wf demo_merged_eq]
    demo_rb_codec demo_subagents_wf demo_merged_eq by blast



text \<open>
  A child bundle that changes its identity, or that repeats a revision with another digest,
  is refused with \<open>RunBundleProtocolError\<close>; one with a lower revision is ignored.
\<close>
theorem merge_bundle_conflicts:
  assumes "dict_get cur k = Some old" "old \<noteq> PyNone" "rb old = Inr p" "rb new = Inr i"
  shows "merge_bundle rb cur (k, new) =
    (if bundle_identity i \<noteq> bundle_identity p
       then Inl (bundle_conflict ''one child bundle_id changed its immutable identity'')
     else if bundle_revision i < bundle_revision p then Inr cur
     else if bundle_revision i = bundle_revision p \<and> bundle_digest i \<noteq> bundle_digest p
       then Inl (bundle_conflict ''one child bundle revision has conflicting projections'')
     else Inr (dict_set k new cur))"
  using assms by (auto simp: merge_bundle_def dget_def)

theorem merge_bundle_conflicts_witness:
  "merge_bundle demo_rb [(''b1'', demo_bundle 2 ''x'')] (''b1'', demo_bundle 2 ''z'') =
     Inl (bundle_conflict ''one child bundle revision has conflicting projections'')"
  by (subst merge_bundle_conflicts [where old = "demo_bundle 2 ''x''"
        and p = "projr (demo_rb (demo_bundle 2 ''x''))" and i = "projr (demo_rb (demo_bundle 2 ''z''))"])
    (simp_all add: demo_bundle_def demo_rb_def dget_def)

lemma normalize_capabilities_inv:
  "normalize_capabilities seen raw = Inr cs \<Longrightarrow>
   distinct (map fst cs) \<and> set (map fst cs) \<inter> set seen = {} \<and> length cs = length raw \<and>
   (\<forall>c \<in> set cs. distinct (snd c) \<and> fst c \<noteq> [] \<and> [] \<notin> set (snd c))"
proof (induction seen raw arbitrary: cs rule: normalize_capabilities.induct)
  case (2 seen item items)
  then obtain c ds where c: "normalize_capability seen item = Inr c"
    and ds: "normalize_capabilities (fst c # seen) items = Inr ds" and cs: "cs = c # ds"
    by (auto simp: bindr_eq_Inr)
  have "py_strip (str_of v) \<noteq> [] \<and> [] \<noteq> py_strip (str_of v)" if "str_nonblank v" for v
    using that by (cases v) auto
  with c have "fst c \<notin> set seen \<and> fst c \<noteq> [] \<and> distinct (snd c) \<and> [] \<notin> set (snd c)"
    by (auto simp: normalize_capability_def Let_def fromkeys_distinct
        split: raw_capability.splits raw_values.splits if_splits)
  then show ?case using "2.IH" [OF c ds] by (auto simp: cs)
qed simp

text \<open>
  A template that was accepted has one normalised entry per raw entry, no module key twice,
  no blank key or capability, and no capability twice under one key; so
  \<open>requested_module_capabilities\<close> keeps every entry.
\<close>
theorem template_capabilities_normalised:
  assumes "mk_subagent_template t raw = Inr t'"
  shows "distinct (map fst (module_capabilities t')) \<and>
         length (module_capabilities t') = length raw \<and>
         (\<forall>(k, caps) \<in> set (module_capabilities t').
            k \<noteq> [] \<and> distinct caps \<and> [] \<notin> set caps \<and>
            dict_get (requested_module_capabilities t') k = Some (set caps))"
proof -
  have inv: "distinct (map fst (module_capabilities t')) \<and> length (module_capabilities t') = length raw \<and>
    (\<forall>c \<in> set (module_capabilities t'). distinct (snd c) \<and> fst c \<noteq> [] \<and> [] \<notin> set (snd c))"
  proof -
    obtain cs where "normalize_capabilities [] raw = Inr cs" "module_capabilities t' = cs"
      using assms by (auto simp: mk_subagent_template_def bindr_eq_Inr)
    then show ?thesis using normalize_capabilities_inv [of "[]" raw cs] by simp
  qed
  let ?u = "map (\<lambda>(k, cs). (k, set cs)) (module_capabilities t')"
  have keys: "distinct (map fst ?u)" using inv by (simp add: comp_def case_prod_unfold)
  have "dict_get (requested_module_capabilities t') k = Some (set caps)"
    if "(k, caps) \<in> set (module_capabilities t')" for k caps
  proof -
    have "(k, set caps) \<in> set ?u" using that by force
    then have "dict_get (rev ?u) k = Some (set caps)"
      using keys by (intro map_of_is_SomeI) (auto simp: rev_map [symmetric])
    then show ?thesis by (simp add: requested_module_capabilities_def dict_get_update)
  qed
  then show ?thesis using inv by fastforce
qed

definition demo_template :: subagent_template where
  "demo_template = \<lparr>tmpl_name = ''worker'', description = ''d'', tmpl_agent = PyNone,
     allowed_modes = [''delegate''], output_mode = ''summary'', memory_policy = ''ephemeral'',
     parallel_safe = False, allowed_tools = None, tmpl_model = None, module_capabilities = []\<rparr>"

definition demo_raw_caps :: "raw_capability list" where
  "demo_raw_caps = [CapPair (PyStr '' tools '') (ItemValues [PyStr ''run'', PyStr '' run'', PyStr ''read''])]"

theorem template_capabilities_normalised_witness:
  "mk_subagent_template demo_template demo_raw_caps =
     Inr (demo_template\<lparr>module_capabilities := [(''tools'', [''run'', ''read''])]\<rparr>) \<and>
   dict_get (requested_module_capabilities
     (demo_template\<lparr>module_capabilities := [(''tools'', [''run'', ''read''])]\<rparr>)) ''tools'' = Some {''run'', ''read''}"
proof -
  have e: "mk_subagent_template demo_template demo_raw_caps =
     Inr (demo_template\<lparr>module_capabilities := [(''tools'', [''run'', ''read''])]\<rparr>)" by code_simp
  show ?thesis using template_capabilities_normalised [OF e] e by simp
qed

end
