(* ===== verification/AgentComms.thy ===== *)
theory AgentComms
  imports SubagentTypes
begin

section \<open>Threads, mailboxes and boards between agents\<close>

text \<open>
  \<open>subagents/communication.py\<close>: the three records with their wire forms, and
  \<open>AgentCommunicationRuntime\<close>, which opens and closes threads, resolves the thread of a
  recipient, delivers messages to mailboxes and posts items on boards, each within the limits
  of the policy. Fresh identifiers (\<open>uuid4\<close>) and the time stamp are arguments. The locale
  \<open>bounded_append\<close> states what a mailbox and a board share: an append either refuses
  because the box is full or adds one entry at the end of one box; delivery in order and the
  capacity bound over any sequence of appends are proved in it once and interpreted for both.
\<close>

subsection \<open>Records\<close>

record agent_thread_record =
  thr_thread_id :: string
  thr_agent_id :: string
  thr_parent_agent_id :: string
  thr_target :: string
  thr_template_name :: "string option"
  thr_mode :: string
  thr_status :: string
  thr_session_id :: string
  thr_memory_namespace :: string
  thr_lineage :: "string list"
  thr_created_iteration :: int
  thr_last_activity_iteration :: int
  thr_context_mode :: string
  thr_instructions :: string
  thr_expected_output :: string
  thr_close_reason :: string

definition thread_to_dict :: "agent_thread_record \<Rightarrow> pydict" where
  "thread_to_dict r =
     [(''thread_id'', PyStr (thr_thread_id r)),
      (''agent_id'', PyStr (thr_agent_id r)),
      (''parent_agent_id'', PyStr (thr_parent_agent_id r)),
      (''target'', PyStr (thr_target r)),
      (''template_name'', opt_str_value (thr_template_name r)),
      (''mode'', PyStr (thr_mode r)),
      (''status'', PyStr (thr_status r)),
      (''session_id'', PyStr (thr_session_id r)),
      (''memory_namespace'', PyStr (thr_memory_namespace r)),
      (''lineage'', str_list_value (thr_lineage r)),
      (''created_iteration'', PyInt (thr_created_iteration r)),
      (''last_activity_iteration'', PyInt (thr_last_activity_iteration r)),
      (''context_mode'', PyStr (thr_context_mode r)),
      (''instructions'', PyStr (thr_instructions r)),
      (''expected_output'', PyStr (thr_expected_output r)),
      (''close_reason'', PyStr (thr_close_reason r))]"

text \<open>\<open>int(v or 0)\<close>\<close>

definition int_or_0 :: "pyval \<Rightarrow> (py_exc, int) res" where
  "int_or_0 v = (if truthy v then py_int v else Inr 0)"

definition thread_from_raw :: "(rat \<Rightarrow> string) \<Rightarrow> pyval \<Rightarrow> (py_exc, agent_thread_record) res" where
  "thread_from_raw fr raw =
     (case raw of
        PyDict d \<Rightarrow>
          bindr (int_or_0 (dget d ''created_iteration'')) (\<lambda>created.
          bindr (int_or_0 (dget d ''last_activity_iteration'')) (\<lambda>last_activity.
          Inr \<lparr>thr_thread_id = str_or fr (dget d ''thread_id'') [],
               thr_agent_id = str_or fr (dget d ''agent_id'') [],
               thr_parent_agent_id = str_or fr (dget d ''parent_agent_id'') [],
               thr_target = str_or fr (dget d ''target'') [],
               thr_template_name = (if dget d ''template_name'' = PyNone then None
                                    else Some (py_str fr (dget d ''template_name''))),
               thr_mode = str_or fr (dget d ''mode'') ''thread'',
               thr_status = str_or fr (dget d ''status'') ''pending'',
               thr_session_id = str_or fr (dget d ''session_id'') [],
               thr_memory_namespace = str_or fr (dget d ''memory_namespace'') [],
               thr_lineage = strings_of (dget d ''lineage''),
               thr_created_iteration = created,
               thr_last_activity_iteration = last_activity,
               thr_context_mode = str_or fr (dget d ''context_mode'') ''none'',
               thr_instructions = str_or fr (dget d ''instructions'') [],
               thr_expected_output = str_or fr (dget d ''expected_output'') [],
               thr_close_reason = str_or fr (dget d ''close_reason'') []\<rparr>))
      | _ \<Rightarrow> Inl (TypeExc ''agent thread record must be a dict''))"

record agent_message =
  msg_id :: string
  msg_sender :: string
  msg_recipient :: string
  msg_thread_id :: string
  msg_kind :: string
  msg_content :: string
  msg_created_iteration :: int
  msg_correlation_id :: "string option"
  msg_reply_to :: "string option"
  msg_requires_ack :: bool

definition message_to_dict :: "agent_message \<Rightarrow> pydict" where
  "message_to_dict m =
     [(''message_id'', PyStr (msg_id m)),
      (''sender_agent_id'', PyStr (msg_sender m)),
      (''recipient_agent_id'', PyStr (msg_recipient m)),
      (''thread_id'', PyStr (msg_thread_id m)),
      (''kind'', PyStr (msg_kind m)),
      (''content'', PyStr (msg_content m)),
      (''created_iteration'', PyInt (msg_created_iteration m)),
      (''correlation_id'', opt_str_value (msg_correlation_id m)),
      (''reply_to_message_id'', opt_str_value (msg_reply_to m)),
      (''requires_ack'', PyBool (msg_requires_ack m))]"

record blackboard_item =
  item_id :: string
  item_board_id :: string
  item_author :: string
  item_kind :: string
  item_title :: string
  item_content :: string
  item_tags :: "string list"
  item_confidence :: "rat option"
  item_refs :: "string list"
  item_created_iteration :: int
  item_supersedes :: "string option"
  item_created_at :: string

definition item_to_dict :: "blackboard_item \<Rightarrow> pydict" where
  "item_to_dict i =
     [(''item_id'', PyStr (item_id i)),
      (''board_id'', PyStr (item_board_id i)),
      (''author_agent_id'', PyStr (item_author i)),
      (''kind'', PyStr (item_kind i)),
      (''title'', PyStr (item_title i)),
      (''content'', PyStr (item_content i)),
      (''tags'', str_list_value (item_tags i)),
      (''confidence'', (case item_confidence i of None \<Rightarrow> PyNone | Some q \<Rightarrow> PyFloat q)),
      (''refs'', str_list_value (item_refs i)),
      (''created_iteration'', PyInt (item_created_iteration i)),
      (''supersedes_item_id'', opt_str_value (item_supersedes i)),
      (''created_at'', PyStr (item_created_at i))]"

subsection \<open>The communication runtime\<close>

definition terminal_statuses :: "string list" where
  "terminal_statuses = [''completed'', ''failed'', ''closed'']"

fun open_count :: "pydict \<Rightarrow> (py_exc, nat) res" where
  "open_count [] = Inr 0"
| "open_count ((k, item) # rest) =
     (if is_dict item
      then bindr (in_text_set (vget item ''status'') terminal_statuses) (\<lambda>closed.
           bindr (open_count rest) (\<lambda>n. Inr (if closed then n else Suc n)))
      else open_count rest)"

definition upsert_thread ::
  "subagent_policy \<Rightarrow> subagent_state \<Rightarrow> agent_thread_record \<Rightarrow> (py_exc, subagent_state) res" where
  "upsert_thread policy state r =
     bindr (open_count (threads state)) (\<lambda>n.
       let is_new = (dict_get (threads state) (thr_thread_id r) = None);
           is_open_record = (thr_status r \<notin> set terminal_statuses) in
       if is_new \<and> is_open_record \<and> int n \<ge> max_open_threads policy
       then Inl (ValueExc ''max_open_threads exceeded'')
       else Inr (state\<lparr>threads := dict_set (thr_thread_id r) (PyDict (thread_to_dict r)) (threads state)\<rparr>))"

definition close_thread :: "subagent_state \<Rightarrow> string \<Rightarrow> string \<Rightarrow> (py_exc, subagent_state) res" where
  "close_thread state tid reason =
     (case dget (threads state) tid of
        PyDict raw \<Rightarrow>
          Inr (state\<lparr>threads := dict_set tid
            (PyDict (dict_set ''close_reason'' (PyStr reason) (dict_set ''status'' (PyStr ''closed'') raw)))
            (threads state)\<rparr>)
      | _ \<Rightarrow> Inl (ValueExc (''unknown agent thread: '' @ tid)))"

definition find_agent_thread :: "pydict \<Rightarrow> string \<Rightarrow> pyval" where
  "find_agent_thread ths recipient =
     (case find (\<lambda>p. is_dict (snd p) \<and> vget (snd p) ''agent_id'' = PyStr recipient) ths of
        None \<Rightarrow> PyNone | Some p \<Rightarrow> snd p)"

definition require_thread ::
  "(rat \<Rightarrow> string) \<Rightarrow> subagent_state \<Rightarrow> string \<Rightarrow> string \<Rightarrow> (py_exc, agent_thread_record) res" where
  "require_thread fr state recipient explicit_thread_id =
     (let raw = (if explicit_thread_id \<noteq> [] then dget (threads state) explicit_thread_id
                 else if dget (threads state) recipient = PyNone
                 then find_agent_thread (threads state) recipient
                 else dget (threads state) recipient);
          wanted = (if explicit_thread_id \<noteq> [] then explicit_thread_id else recipient) in
      if \<not> is_dict raw then Inl (ValueExc (''unknown agent thread: '' @ wanted))
      else bindr (thread_from_raw fr raw) (\<lambda>r.
        if explicit_thread_id \<noteq> [] \<and> recipient \<notin> {thr_thread_id r, thr_agent_id r}
        then Inl (ValueExc (''recipient does not match agent thread: '' @ recipient))
        else if thr_status r = ''closed''
        then Inl (ValueExc (''agent thread is closed: '' @ thr_thread_id r))
        else Inr r))"

definition build_message ::
  "subagent_policy \<Rightarrow> string \<Rightarrow> string \<Rightarrow> string \<Rightarrow> string \<Rightarrow> string \<Rightarrow> string \<Rightarrow> int \<Rightarrow>
   string option \<Rightarrow> string option \<Rightarrow> bool \<Rightarrow> (py_exc, agent_message) res" where
  "build_message policy uuid sender recipient tid kind content iteration correlation reply_to ack =
     (if int (length content) > max_message_chars policy
      then Inl (ValueExc ''message exceeds max_message_chars'')
      else Inr \<lparr>msg_id = ''msg-'' @ uuid, msg_sender = sender, msg_recipient = recipient,
                msg_thread_id = tid, msg_kind = (if kind = [] then ''followup'' else kind),
                msg_content = content, msg_created_iteration = iteration,
                msg_correlation_id = correlation, msg_reply_to = reply_to, msg_requires_ack = ack\<rparr>)"

definition append_message ::
  "subagent_policy \<Rightarrow> subagent_state \<Rightarrow> agent_message \<Rightarrow> (py_exc, subagent_state) res" where
  "append_message policy state m =
     (if msg_thread_id m = [] \<or> dict_get (threads state) (msg_thread_id m) = None
      then Inl (ValueExc (''unknown agent thread: '' @ msg_thread_id m))
      else if int (length (box (mailboxes state) (msg_recipient m))) \<ge> max_mailbox_messages policy
      then Inl (ValueExc ''max_mailbox_messages exceeded'')
      else Inr (state\<lparr>mailboxes := dict_set (msg_recipient m)
             (box (mailboxes state) (msg_recipient m) @ [PyDict (message_to_dict m)]) (mailboxes state)\<rparr>))"

definition build_board_item ::
  "subagent_policy \<Rightarrow> string \<Rightarrow> string \<Rightarrow> string \<Rightarrow> string \<Rightarrow> string \<Rightarrow> string \<Rightarrow> string \<Rightarrow> string list \<Rightarrow>
   rat option \<Rightarrow> string list \<Rightarrow> int \<Rightarrow> string option \<Rightarrow> (py_exc, blackboard_item) res" where
  "build_board_item policy uuid now board author kind title content tags confidence refs iteration supersedes =
     (if int (length content) > max_board_item_chars policy
      then Inl (ValueExc ''board item exceeds max_board_item_chars'')
      else Inr \<lparr>item_id = ''item-'' @ uuid, item_board_id = (if board = [] then ''default'' else board),
                item_author = author, item_kind = kind, item_title = title, item_content = content,
                item_tags = tags, item_confidence = confidence, item_refs = refs,
                item_created_iteration = iteration, item_supersedes = supersedes,
                item_created_at = now\<rparr>)"

definition append_board_item ::
  "subagent_policy \<Rightarrow> subagent_state \<Rightarrow> blackboard_item \<Rightarrow> (py_exc, subagent_state) res" where
  "append_board_item policy state i =
     (if int (length (box (blackboards state) (item_board_id i))) \<ge> max_board_items policy
      then Inl (ValueExc ''max_board_items exceeded'')
      else Inr (state\<lparr>blackboards := dict_set (item_board_id i)
             (box (blackboards state) (item_board_id i) @ [PyDict (item_to_dict i)]) (blackboards state)\<rparr>))"

text \<open>One item of a board against the filters, in the order the loop tests them.\<close>

fun list_items :: "pyval \<Rightarrow> pyval list" where
  "list_items (PyList xs) = xs"
| "list_items _ = []"

definition board_match :: "string list \<Rightarrow> string list \<Rightarrow> string \<Rightarrow> pyval \<Rightarrow> (py_exc, bool) res" where
  "board_match kinds tags author raw =
     (if \<not> is_dict raw then Inr False
      else bindr (if kinds = [] then Inr True else in_text_set (vget raw ''kind'') kinds) (\<lambda>kind_ok.
        if \<not> kind_ok then Inr False
        else if author \<noteq> [] \<and> vget raw ''author_agent_id'' \<noteq> PyStr author then Inr False
        else (case find (\<lambda>v. \<not> hashable v) (list_items (vget raw ''tags'')) of
                Some v \<Rightarrow> Inl (TypeExc (''unhashable type: '' @ repr_str (type_name v)))
              | None \<Rightarrow> Inr (tags = [] \<or> PyStr ` set tags \<subseteq> set (list_items (vget raw ''tags''))))))"

fun board_scan :: "(pyval \<Rightarrow> (py_exc, bool) res) \<Rightarrow> pyval list \<Rightarrow> (py_exc, pyval list) res" where
  "board_scan f [] = Inr []"
| "board_scan f (raw # rest) =
     bindr (f raw) (\<lambda>keep. bindr (board_scan f rest) (\<lambda>items. Inr (if keep then raw # items else items)))"

definition last_items :: "nat \<Rightarrow> 'a list \<Rightarrow> 'a list" where
  "last_items n xs = drop (length xs - n) xs"

definition read_board_items ::
  "subagent_state \<Rightarrow> string \<Rightarrow> string list \<Rightarrow> string list \<Rightarrow> string \<Rightarrow> pyval \<Rightarrow> (py_exc, pyval list) res" where
  "read_board_items state board kinds tags author limit =
     (case limit of
        PyInt n \<Rightarrow>
          if n \<le> 0 then Inl (ValueExc ''limit must be a positive integer'')
          else bindr (board_scan (board_match kinds tags author)
                       (box (blackboards state) (if board = [] then ''default'' else board)))
                 (\<lambda>items. Inr (last_items (nat n) items))
      | _ \<Rightarrow> Inl (ValueExc ''limit must be a positive integer''))"

subsection \<open>Boxes of bounded capacity\<close>

text \<open>A sequence of calls, each on the state the one before left; the first error ends it.\<close>

fun run_all :: "('s \<Rightarrow> 'i \<Rightarrow> (py_exc, 's) res) \<Rightarrow> 's \<Rightarrow> 'i list \<Rightarrow> (py_exc, 's) res" where
  "run_all f s [] = Inr s"
| "run_all f s (i # is) = bindr (f s i) (\<lambda>s'. run_all f s' is)"

locale bounded_append =
  fixes app :: "'s \<Rightarrow> 'i \<Rightarrow> (py_exc, 's) res"
    and box_of :: "'s \<Rightarrow> string \<Rightarrow> pyval list"
    and key :: "'i \<Rightarrow> string"
    and entry :: "'i \<Rightarrow> pyval"
    and capacity :: int
  assumes app_room: "app s i = Inr s' \<Longrightarrow> int (length (box_of s (key i))) < capacity"
    and app_box: "app s i = Inr s' \<Longrightarrow>
      box_of s' k = (if k = key i then box_of s k @ [entry i] else box_of s k)"
begin

lemma in_order:
  "run_all app s is = Inr s' \<Longrightarrow> box_of s' k = box_of s k @ map entry (filter (\<lambda>i. key i = k) is)"
  by (induction "is" arbitrary: s) (auto simp: bindr_eq_Inr app_box)

lemma bounded:
  "\<lbrakk>run_all app s is = Inr s'; int (length (box_of s k)) \<le> capacity\<rbrakk> \<Longrightarrow> int (length (box_of s' k)) \<le> capacity"
proof (induction "is" arbitrary: s)
  case (Cons i "is")
  then obtain t where t: "app s i = Inr t" "run_all app t is = Inr s'" by (auto simp: bindr_eq_Inr)
  have "int (length (box_of t k)) \<le> capacity"
    using app_box [OF t(1), of k] app_room [OF t(1)] Cons.prems(2) by auto
  then show ?case using Cons.IH [OF t(2)] by simp
qed auto

end

interpretation mail: bounded_append "append_message policy" "\<lambda>s. box (mailboxes s)" msg_recipient
  "\<lambda>m. PyDict (message_to_dict m)" "max_mailbox_messages policy" for policy
  by unfold_locales (auto simp: append_message_def box_def split: if_splits)

interpretation board: bounded_append "append_board_item policy" "\<lambda>s. box (blackboards s)" item_board_id
  "\<lambda>i. PyDict (item_to_dict i)" "max_board_items policy" for policy
  by unfold_locales (auto simp: append_board_item_def box_def split: if_splits)

subsection \<open>Properties\<close>

text \<open>
  C29: a sequence of deliveries that all succeed leaves every mailbox with its old messages
  followed by the new messages for that recipient, in the order they were sent, and a mailbox
  within \<open>max_mailbox_messages\<close> stays within it.
\<close>
theorem mailbox_delivery:
  assumes "run_all (append_message policy) s ms = Inr s'"
  shows "box (mailboxes s') k =
           box (mailboxes s) k @ map (\<lambda>m. PyDict (message_to_dict m)) (filter (\<lambda>m. msg_recipient m = k) ms) \<and>
         (int (length (box (mailboxes s) k)) \<le> max_mailbox_messages policy \<longrightarrow>
          int (length (box (mailboxes s') k)) \<le> max_mailbox_messages policy)"
  using mail.in_order [OF assms] mail.bounded [OF assms] by simp

definition demo_thread :: agent_thread_record where
  "demo_thread = \<lparr>thr_thread_id = ''t1'', thr_agent_id = ''child'', thr_parent_agent_id = ''root'',
     thr_target = ''worker'', thr_template_name = Some ''worker'', thr_mode = ''thread'',
     thr_status = ''running'', thr_session_id = ''s'', thr_memory_namespace = ''ns'',
     thr_lineage = [''root'', ''child''], thr_created_iteration = 1, thr_last_activity_iteration = 1,
     thr_context_mode = ''none'', thr_instructions = [], thr_expected_output = [], thr_close_reason = []\<rparr>"

definition demo_threads :: subagent_state where
  "demo_threads = empty_subagent_state\<lparr>threads := [(''t1'', PyDict (thread_to_dict demo_thread))]\<rparr>"

definition demo_message :: "string \<Rightarrow> agent_message" where
  "demo_message c = \<lparr>msg_id = ''msg-1'', msg_sender = ''root'', msg_recipient = ''child'',
     msg_thread_id = ''t1'', msg_kind = ''followup'', msg_content = c, msg_created_iteration = 2,
     msg_correlation_id = None, msg_reply_to = None, msg_requires_ack = False\<rparr>"

definition demo_delivered :: subagent_state where
  "demo_delivered = demo_threads\<lparr>mailboxes :=
     [(''child'', [PyDict (message_to_dict (demo_message ''a'')), PyDict (message_to_dict (demo_message ''b''))])]\<rparr>"

theorem mailbox_delivery_witness:
  "run_all (append_message default_subagent_policy) demo_threads [demo_message ''a'', demo_message ''b'']
     = Inr demo_delivered \<and>
   length (box (mailboxes demo_delivered) ''child'') = 2"
proof -
  have e: "run_all (append_message default_subagent_policy) demo_threads [demo_message ''a'', demo_message ''b'']
     = Inr demo_delivered" by code_simp
  show ?thesis
    using mailbox_delivery [OF e, of "''child''"] e
    by (simp add: demo_message_def demo_threads_def empty_subagent_state_def box_def)
qed

text \<open>
  Posting on boards keeps the same contract under \<open>max_board_items\<close>: each board keeps its
  items and gets the new ones of its own id in order, and stays within the limit.
\<close>
theorem board_posting:
  assumes "run_all (append_board_item policy) s is = Inr s'"
  shows "box (blackboards s') k =
           box (blackboards s) k @ map (\<lambda>i. PyDict (item_to_dict i)) (filter (\<lambda>i. item_board_id i = k) is) \<and>
         (int (length (box (blackboards s) k)) \<le> max_board_items policy \<longrightarrow>
          int (length (box (blackboards s') k)) \<le> max_board_items policy)"
  using board.in_order [OF assms] board.bounded [OF assms] by simp

definition demo_item :: "string \<Rightarrow> blackboard_item" where
  "demo_item b = \<lparr>item_id = ''item-1'', item_board_id = b, item_author = ''child'', item_kind = ''fact'',
     item_title = ''t'', item_content = ''c'', item_tags = [''x''], item_confidence = None,
     item_refs = [], item_created_iteration = 1, item_supersedes = None, item_created_at = []\<rparr>"

theorem board_posting_witness:
  "run_all (append_board_item default_subagent_policy) demo_threads [demo_item ''default'']
     = Inr (demo_threads\<lparr>blackboards := [(''default'', [PyDict (item_to_dict (demo_item ''default''))])]\<rparr>) \<and>
   box (blackboards (demo_threads\<lparr>blackboards := [(''default'', [PyDict (item_to_dict (demo_item ''default''))])]\<rparr>))
     ''default'' = [PyDict (item_to_dict (demo_item ''default''))]"
proof -
  have e: "run_all (append_board_item default_subagent_policy) demo_threads [demo_item ''default'']
     = Inr (demo_threads\<lparr>blackboards := [(''default'', [PyDict (item_to_dict (demo_item ''default''))])]\<rparr>)"
    by code_simp
  show ?thesis
    using board_posting [OF e, of "''default''"] e
    by (simp add: demo_item_def demo_threads_def empty_subagent_state_def box_def)
qed

lemma board_scan_filter:
  "board_scan f xs = Inr ys \<Longrightarrow> ys = filter (\<lambda>x. f x = Inr True) xs"
  by (induction xs arbitrary: ys) (auto simp: bindr_eq_Inr)

text \<open>
  A board read that succeeds returns the last \<open>limit\<close> of the items that pass every filter,
  in board order: at most \<open>limit\<close> items, a suffix of the list of all matches, and each is a
  dictionary of a requested kind, author and tags.
\<close>
theorem read_board_items_last_matches:
  assumes "read_board_items s board kinds tags author (PyInt n) = Inr items"
  shows "int (length items) \<le> n \<and>
         suffix items (filter (\<lambda>x. board_match kinds tags author x = Inr True)
                         (box (blackboards s) (if board = [] then ''default'' else board))) \<and>
         (\<forall>x \<in> set items. is_dict x \<and>
            (kinds = [] \<or> vget x ''kind'' \<in> PyStr ` set kinds) \<and>
            (author = [] \<or> vget x ''author_agent_id'' = PyStr author) \<and>
            PyStr ` set tags \<subseteq> set (list_items (vget x ''tags'')))"
proof -
  let ?ms = "filter (\<lambda>x. board_match kinds tags author x = Inr True)
    (box (blackboards s) (if board = [] then ''default'' else board))"
  have n: "0 < n" and items: "items = last_items (nat n) ?ms"
    using assms by (auto simp: read_board_items_def bindr_eq_Inr dest!: board_scan_filter split: if_splits)
  have "set items \<subseteq> set ?ms" unfolding items last_items_def by (rule set_drop_subset)
  then have matched: "board_match kinds tags author x = Inr True" if "x \<in> set items" for x
    using that by auto
  have "is_dict x \<and> (kinds = [] \<or> vget x ''kind'' \<in> PyStr ` set kinds) \<and>
      (author = [] \<or> vget x ''author_agent_id'' = PyStr author) \<and>
      PyStr ` set tags \<subseteq> set (list_items (vget x ''tags''))"
    if "x \<in> set items" for x
    using matched [OF that]
    by (auto simp: board_match_def bindr_eq_Inr in_text_set_def split: if_splits option.splits)
  moreover have "int (length items) \<le> n \<and> suffix items ?ms"
    using n by (simp add: items last_items_def suffix_drop)
  ultimately show ?thesis by blast
qed

theorem read_board_items_last_matches_witness:
  "read_board_items (demo_threads\<lparr>blackboards := [(''default'',
      [PyDict (item_to_dict (demo_item ''default'')), PyDict [(''kind'', PyStr ''note'')]])]\<rparr>)
      [] [''fact''] [''x''] ''child'' (PyInt 5) = Inr [PyDict (item_to_dict (demo_item ''default''))] \<and>
   int (length [PyDict (item_to_dict (demo_item ''default''))]) \<le> 5"
proof -
  have e: "read_board_items (demo_threads\<lparr>blackboards := [(''default'',
      [PyDict (item_to_dict (demo_item ''default'')), PyDict [(''kind'', PyStr ''note'')]])]\<rparr>)
      [] [''fact''] [''x''] ''child'' (PyInt 5) = Inr [PyDict (item_to_dict (demo_item ''default''))]"
    by code_simp
  show ?thesis using read_board_items_last_matches [OF e] e by blast
qed

definition thread_ok :: "agent_thread_record \<Rightarrow> bool" where
  "thread_ok r \<longleftrightarrow> thr_mode r \<noteq> [] \<and> thr_status r \<noteq> [] \<and> thr_context_mode r \<noteq> [] \<and> thr_thread_id r \<noteq> []"

lemma str_or_nonempty: "s \<noteq> [] \<Longrightarrow> str_or fr (PyStr s) d = s"
  by (simp add: str_or_def)

lemma int_or_0_PyInt [simp]: "int_or_0 (PyInt i) = Inr i"
  by (simp add: int_or_0_def)

lemma thread_roundtrip:
  assumes "thread_ok r"
  shows "thread_from_raw fr (PyDict (thread_to_dict r)) = Inr r"
  using assms
  by (cases "thr_template_name r")
    (simp_all add: thread_from_raw_def thread_to_dict_def dget_def opt_str_value_def str_or_nonempty thread_ok_def)

text \<open>
  A thread that was stored is found again under its own id with every field intact as
  long as it is not closed, and once closed it is refused: \<open>close_thread\<close> succeeds and a
  later \<open>require_thread\<close> raises "agent thread is closed".
\<close>
theorem thread_lifecycle:
  assumes "upsert_thread policy s r = Inr s1" "thread_ok r"
  shows "(thr_status r \<noteq> ''closed'' \<longrightarrow> require_thread fr s1 (thr_thread_id r) [] = Inr r) \<and>
         (\<exists>s2. close_thread s1 (thr_thread_id r) reason = Inr s2 \<and>
            require_thread fr s2 (thr_thread_id r) [] =
              Inl (ValueExc (''agent thread is closed: '' @ thr_thread_id r)))"
proof -
  let ?t = "thr_thread_id r"
  have s1: "dget (threads s1) ?t = PyDict (thread_to_dict r)"
    using assms(1) by (auto simp: upsert_thread_def Let_def bindr_eq_Inr dget_def split: if_splits)
  have req: "require_thread fr s1 ?t [] = Inr r" if "thr_status r \<noteq> ''closed''"
    using that by (simp add: require_thread_def s1 thread_roundtrip [OF assms(2)])
  let ?c = "r\<lparr>thr_status := ''closed'', thr_close_reason := reason\<rparr>"
  let ?s2 = "s1\<lparr>threads := dict_set ?t (PyDict (thread_to_dict ?c)) (threads s1)\<rparr>"
  have c: "close_thread s1 ?t reason = Inr ?s2"
    by (simp add: close_thread_def s1) (simp add: thread_to_dict_def)
  have "thread_ok ?c" using assms(2) by (simp add: thread_ok_def)
  then have "require_thread fr ?s2 ?t [] = Inl (ValueExc (''agent thread is closed: '' @ ?t))"
    by (simp add: require_thread_def dget_def thread_roundtrip)
  with req c show ?thesis by blast
qed

theorem thread_lifecycle_witness:
  "upsert_thread default_subagent_policy empty_subagent_state demo_thread = Inr demo_threads \<and>
   thread_ok demo_thread \<and> require_thread (\<lambda>q. []) demo_threads ''t1'' [] = Inr demo_thread"
proof -
  have e: "upsert_thread default_subagent_policy empty_subagent_state demo_thread = Inr demo_threads" by code_simp
  have ok: "thread_ok demo_thread" by code_simp
  have "thr_status demo_thread \<noteq> ''closed'' \<and> thr_thread_id demo_thread = ''t1''" by (simp add: demo_thread_def)
  then show ?thesis using thread_lifecycle [OF e ok, of "\<lambda>q. []"] e ok by auto
qed

text \<open>Reading the open threads: a thread is open when its status is not terminal.\<close>

definition open_thread :: "pyval \<Rightarrow> bool" where
  "open_thread item \<longleftrightarrow> is_dict item \<and> vget item ''status'' \<notin> PyStr ` set terminal_statuses"

lemma open_count_filter:
  "open_count ths = Inr n \<Longrightarrow> n = length (filter (\<lambda>p. open_thread (snd p)) ths)"
  by (induction ths arbitrary: n rule: open_count.induct)
    (auto simp: bindr_eq_Inr open_thread_def in_text_set_def split: if_splits)

lemma filter_dict_set_length:
  "dict_wf d \<Longrightarrow> length (filter (\<lambda>p. P (snd p)) (dict_set k v d)) =
     length (filter (\<lambda>p. P (snd p)) d) + (if P v then 1 else 0)
     - (case dict_get d k of None \<Rightarrow> 0 | Some w \<Rightarrow> if P w then 1 else 0)"
proof (induction d)
  case (Cons p d)
  obtain j w where p: "p = (j, w)" by (cases p)
  have "P u \<Longrightarrow> dict_get d k = Some u \<Longrightarrow> 0 < length (filter (\<lambda>p. P (snd p)) d)" for u
    by (force dest!: map_of_SomeD simp: filter_empty_conv)
  then show ?case
    using Cons by (auto simp: p dict_wf_def split: option.splits)
qed (simp add: dict_wf_def)

text \<open>
  C36: the number of open threads never exceeds \<open>max_open_threads\<close>: an upsert that succeeds
  keeps the bound, unless it reopens a recorded thread whose status was terminal (the code
  checks the limit for new thread ids only); closing a thread never raises the number.
\<close>
theorem open_threads_bounded:
  assumes "upsert_thread policy s r = Inr s'" "dict_wf (threads s)"
    "int (length (filter (\<lambda>p. open_thread (snd p)) (threads s))) \<le> max_open_threads policy"
    "\<And>old. dict_get (threads s) (thr_thread_id r) = Some old \<Longrightarrow>
        open_thread old \<or> thr_status r \<in> set terminal_statuses"
  shows "int (length (filter (\<lambda>p. open_thread (snd p)) (threads s'))) \<le> max_open_threads policy"
proof -
  let ?o = "\<lambda>d. length (filter (\<lambda>p. open_thread (snd p)) d)"
  have th: "threads s' = dict_set (thr_thread_id r) (PyDict (thread_to_dict r)) (threads s)"
    and full: "dict_get (threads s) (thr_thread_id r) = None \<Longrightarrow> thr_status r \<notin> set terminal_statuses \<Longrightarrow>
      int (?o (threads s)) < max_open_threads policy"
    using assms(1)
    by (auto simp: upsert_thread_def Let_def bindr_eq_Inr dest!: open_count_filter split: if_splits)
  have st: "open_thread (PyDict (thread_to_dict r)) \<longleftrightarrow> thr_status r \<notin> set terminal_statuses"
    by (auto simp: open_thread_def thread_to_dict_def dget_def)
  show ?thesis
    unfolding th filter_dict_set_length [OF assms(2)] st
    using assms(3,4) full by (cases "dict_get (threads s) (thr_thread_id r)") (auto simp: st)
qed

theorem open_threads_bounded_witness:
  "upsert_thread default_subagent_policy empty_subagent_state demo_thread = Inr demo_threads \<and>
   int (length (filter (\<lambda>p. open_thread (snd p)) (threads demo_threads))) \<le> 10"
proof -
  have e: "upsert_thread default_subagent_policy empty_subagent_state demo_thread = Inr demo_threads" by code_simp
  show ?thesis
    using open_threads_bounded [OF e] e
    by (simp add: empty_subagent_state_def default_subagent_policy_def dict_wf_def)
qed

end
