(* ===== verification/MessageGraph.thy ===== *)
theory MessageGraph
  imports PyText
begin

section \<open>The message version graph and message deltas\<close>

text \<open>
  \<open>kernel/versioning.py\<close> and \<open>kernel/delta.py\<close>: the append-only graph of message
  versions and the message operations a harness may emit. The dictionary of versions is in
  insertion order; the text of a fresh \<open>uuid4\<close> is an argument. The loop of \<open>lineage\<close>
  follows parents and need not end on an arbitrary graph, so it is a partial function whose
  value None is not returning.
  The lemmas: the graph invariant (every parent was created before its child and only the
  first version has none) is kept by every operation, versions are never changed or removed,
  and on a graph with the invariant \<open>lineage\<close> returns the path from the first version.
\<close>

subsection \<open>Versions\<close>

record message_version =
  version_id :: string
  parent_version_id :: "string option"
  messages :: "pyval list"
  created_by :: "string option"
  metadata :: pydict

record message_version_graph =
  versions :: "message_version dict"
  graph_latest :: "string option"

definition empty_graph :: message_version_graph where
  "empty_graph = \<lparr>versions = [], graph_latest = None\<rparr>"

definition has_version :: "message_version_graph \<Rightarrow> string option \<Rightarrow> bool" where
  "has_version g vid = (case vid of None \<Rightarrow> False | Some v \<Rightarrow> v \<noteq> [] \<and> dict_get (versions g) v \<noteq> None)"

definition version_ids :: "message_version_graph \<Rightarrow> string list" where
  "version_ids g = dict_keys (versions g)"

definition get_version :: "message_version_graph \<Rightarrow> string \<Rightarrow> (py_exc, message_version) res" where
  "get_version g vid =
     (case dict_get (versions g) vid of
        None \<Rightarrow> Inl (KeyExc (''unknown message version: '' @ vid))
      | Some v \<Rightarrow> Inr v)"

definition get_messages :: "message_version_graph \<Rightarrow> string \<Rightarrow> (py_exc, pyval list) res" where
  "get_messages g vid = bindr (get_version g vid) (\<lambda>v. Inr (deepcopy_messages (messages v)))"

definition graph_latest_messages :: "message_version_graph \<Rightarrow> (py_exc, pyval list) res" where
  "graph_latest_messages g = (case graph_latest g of None \<Rightarrow> Inr [] | Some v \<Rightarrow> get_messages g v)"

text \<open>\<open>str(created_by).strip() or None\<close>, where \<open>str(None)\<close> is the text \<open>None\<close>.\<close>

definition normalize_created_by :: "string option \<Rightarrow> string option" where
  "normalize_created_by c =
     (let s = py_strip (case c of None \<Rightarrow> ''None'' | Some t \<Rightarrow> t) in if s = [] then None else Some s)"

fun dict_or_empty :: "pyval \<Rightarrow> pydict" where
  "dict_or_empty (PyDict d) = d"
| "dict_or_empty _ = []"

definition create_version ::
  "string \<Rightarrow> message_version_graph \<Rightarrow> pyval list \<Rightarrow> string option \<Rightarrow> string option \<Rightarrow> pyval \<Rightarrow> string option \<Rightarrow>
   (py_exc, message_version \<times> message_version_graph) res" where
  "create_version uuid g ms parent author meta vid =
     (let resolved_parent = (case parent of None \<Rightarrow> graph_latest g | Some p \<Rightarrow> Some p);
          new_id = (case vid of None \<Rightarrow> ''kv_'' @ uuid | Some v \<Rightarrow> if v = [] then ''kv_'' @ uuid else v) in
      case resolved_parent of
        Some p \<Rightarrow>
          if dict_get (versions g) p = None
          then Inl (KeyExc (''cannot create child version from unknown parent: '' @ p))
          else
            let v = \<lparr>version_id = new_id, parent_version_id = resolved_parent,
                     messages = deepcopy_messages ms, created_by = normalize_created_by author,
                     metadata = dict_or_empty meta\<rparr>
            in Inr (v, g\<lparr>versions := dict_set new_id v (versions g), graph_latest := Some new_id\<rparr>)
      | None \<Rightarrow>
          let v = \<lparr>version_id = new_id, parent_version_id = None,
                   messages = deepcopy_messages ms, created_by = normalize_created_by author,
                   metadata = dict_or_empty meta\<rparr>
          in Inr (v, g\<lparr>versions := dict_set new_id v (versions g), graph_latest := Some new_id\<rparr>))"

definition graph_init :: "string \<Rightarrow> pyval list \<Rightarrow> (py_exc, message_version_graph) res" where
  "graph_init uuid seed_messages =
     (if seed_messages = [] then Inr empty_graph
      else bindr (create_version uuid empty_graph seed_messages None (Some ''seed'') PyNone None)
             (\<lambda>(v, g). Inr g))"

definition fork_latest ::
  "string \<Rightarrow> message_version_graph \<Rightarrow> string option \<Rightarrow> pyval \<Rightarrow> (py_exc, message_version \<times> message_version_graph) res" where
  "fork_latest uuid g author meta =
     bindr (graph_latest_messages g) (\<lambda>ms. create_version uuid g ms None author meta None)"

definition activate :: "message_version_graph \<Rightarrow> string \<Rightarrow> (py_exc, message_version \<times> message_version_graph) res" where
  "activate g vid = bindr (get_version g vid) (\<lambda>v. Inr (v, g\<lparr>graph_latest := Some (version_id v)\<rparr>))"

partial_function (option) lineage_loop ::
  "message_version_graph \<Rightarrow> string option \<Rightarrow> string list \<Rightarrow> (py_exc, string list) res option" where
  "lineage_loop g current_id lineage =
     (case current_id of
        None \<Rightarrow> Some (Inr (rev lineage))
      | Some vid \<Rightarrow>
          (case get_version g vid of
             Inl e \<Rightarrow> Some (Inl e)
           | Inr v \<Rightarrow> lineage_loop g (parent_version_id v) (lineage @ [version_id v])))"

declare lineage_loop.simps [code]

definition lineage :: "message_version_graph \<Rightarrow> string option \<Rightarrow> (py_exc, string list) res option" where
  "lineage g vid =
     (case (case vid of None \<Rightarrow> graph_latest g | Some v \<Rightarrow> Some v) of
        None \<Rightarrow> Some (Inr [])
      | Some v \<Rightarrow> lineage_loop g (Some v) [])"

subsection \<open>Operations and deltas\<close>

datatype message_list_op =
    AppendMessagesOp "pyval list"
  | InsertMessagesOp int "pyval list"
  | ReplaceSpanOp int int "pyval list"
  | DeleteSpanOp int int
  | ActivateVersionOp string

record suspend_signal =
  kind :: string
  payload :: pyval

record 'u harness_delta =
  delta_created_by :: string
  base_version_id :: "string option"
  rebase_to_latest :: bool
  ops :: "message_list_op list"
  state_updates :: "'u dict"
  trace :: pydict
  suspend :: "suspend_signal option"

definition delta_append ::
  "string \<Rightarrow> pyval list \<Rightarrow> string option \<Rightarrow> bool \<Rightarrow> 'u dict \<Rightarrow> pydict \<Rightarrow> suspend_signal option \<Rightarrow> 'u harness_delta" where
  "delta_append author ms base rebase updates tr sus =
     \<lparr>delta_created_by = author, base_version_id = base, rebase_to_latest = rebase,
      ops = [AppendMessagesOp (deepcopy_messages ms)], state_updates = updates, trace = tr, suspend = sus\<rparr>"

subsection \<open>The graph invariant\<close>

text \<open>
  Ids are their own non-empty keys, every version but the first has a parent that was created before
  it, messages are dictionaries, and the latest id is a version as soon as there is one.
\<close>

definition parent_before :: "message_version dict \<Rightarrow> nat \<Rightarrow> bool" where
  "parent_before d i =
     (case parent_version_id (snd (d ! i)) of
        None \<Rightarrow> i = 0
      | Some p \<Rightarrow> p \<in> set (dict_keys (take i d)))"

definition graph_inv :: "message_version_graph \<Rightarrow> bool" where
  "graph_inv g \<longleftrightarrow>
     dict_wf (versions g) \<and>
     (\<forall>(k, v) \<in> set (versions g). version_id v = k \<and> k \<noteq> [] \<and> (\<forall>m \<in> set (messages v). is_dict m)) \<and>
     (\<forall>i < length (versions g). parent_before (versions g) i) \<and>
     (case graph_latest g of None \<Rightarrow> versions g = [] | Some l \<Rightarrow> l \<in> set (dict_keys (versions g)))"

lemma parent_before_append: "i < length d \<Longrightarrow> parent_before (d @ e) i = parent_before d i"
  by (simp add: parent_before_def nth_append less_imp_le split: option.splits)

lemma empty_graph_inv: "graph_inv empty_graph"
  by (simp add: graph_inv_def empty_graph_def dict_wf_def)

lemma dict_get_keys: "dict_get d k = None \<longleftrightarrow> k \<notin> set (dict_keys d)"
  by (simp add: map_of_eq_None_iff)

lemma dict_set_fresh: "k \<notin> set (dict_keys d) \<Longrightarrow> dict_set k v d = d @ [(k, v)]"
  by (induction d) auto

definition new_version_id :: "string \<Rightarrow> string option \<Rightarrow> string" where
  "new_version_id uuid vid = (case vid of None \<Rightarrow> ''kv_'' @ uuid | Some v \<Rightarrow> if v = [] then ''kv_'' @ uuid else v)"

lemma new_version_id_nonempty [simp]: "new_version_id uuid vid \<noteq> []"
  by (simp add: new_version_id_def split: option.split)

lemma create_version_Inr:
  "create_version uuid g ms parent author meta vid = Inr (v, g') \<longleftrightarrow>
   (let p = (case parent of None \<Rightarrow> graph_latest g | Some q \<Rightarrow> Some q); k = new_version_id uuid vid in
      (p = None \<or> dict_get (versions g) (the p) \<noteq> None) \<and>
      v = \<lparr>version_id = k, parent_version_id = p, messages = deepcopy_messages ms,
           created_by = normalize_created_by author, metadata = dict_or_empty meta\<rparr> \<and>
      g' = g\<lparr>versions := dict_set k v (versions g), graph_latest := Some k\<rparr>)"
  unfolding create_version_def new_version_id_def [symmetric]
  by (auto simp: Let_def split: option.splits)

lemma create_version_inv:
  assumes "create_version uuid g ms parent author meta vid = Inr (v, g')" "graph_inv g"
    "new_version_id uuid vid \<notin> set (version_ids g)"
  shows "graph_inv g' \<and> versions g' = versions g @ [(version_id v, v)] \<and> graph_latest g' = Some (version_id v)"
proof -
  let ?k = "new_version_id uuid vid"
  have v: "version_id v = ?k" "messages v = deepcopy_messages ms"
    and p: "parent_version_id v = (case parent of None \<Rightarrow> graph_latest g | Some q \<Rightarrow> Some q)"
    and known: "parent_version_id v = None \<or> the (parent_version_id v) \<in> set (dict_keys (versions g))"
    and g': "g' = g\<lparr>versions := dict_set ?k v (versions g), graph_latest := Some ?k\<rparr>"
    using assms(1) unfolding create_version_Inr Let_def by (auto simp: dict_get_keys)
  have new: "dict_set ?k v (versions g) = versions g @ [(?k, v)]"
    using assms(3) by (simp add: version_ids_def dict_set_fresh)
  have first: "parent_version_id v = None \<Longrightarrow> versions g = []"
    using p assms(2) by (auto simp: graph_inv_def split: option.splits)
  have parents: "parent_before (versions g @ [(?k, v)]) i"
    if "i < length (versions g @ [(?k, v)])" for i
  proof (cases "i < length (versions g)")
    case True
    then show ?thesis using assms(2) by (simp add: graph_inv_def parent_before_append)
  next
    case False
    then have "i = length (versions g)" using that by simp
    then show ?thesis
      using known first by (cases "parent_version_id v") (simp_all add: parent_before_def nth_append)
  qed
  show ?thesis
    using assms(2,3) parents v
    unfolding graph_inv_def g' new by (auto simp: dict_wf_def version_ids_def)
qed

lemma graph_inv_key: "\<lbrakk>graph_inv g; dict_get (versions g) k = Some v\<rbrakk> \<Longrightarrow> version_id v = k \<and> k \<noteq> []"
  by (auto simp: graph_inv_def dest!: map_of_SomeD)

lemma activate_inv:
  assumes "activate g vid = Inr (v, g')" "graph_inv g"
  shows "graph_inv g' \<and> versions g' = versions g \<and> graph_latest g' = Some vid"
proof -
  have v: "dict_get (versions g) vid = Some v" and g': "g' = g\<lparr>graph_latest := Some (version_id v)\<rparr>"
    using assms(1) by (auto simp: activate_def get_version_def bindr_eq_Inr split: option.splits)
  have id: "version_id v = vid" using graph_inv_key [OF assms(2) v] by simp
  have "vid \<in> set (dict_keys (versions g))" using map_of_SomeD [OF v] by force
  then show ?thesis using assms(2) by (simp add: graph_inv_def g' id)
qed

text \<open>One operation of the graph, with a fresh identifier whenever one is created.\<close>

inductive graph_step :: "message_version_graph \<Rightarrow> message_version_graph \<Rightarrow> bool" where
  created: "\<lbrakk>create_version uuid g ms parent author meta vid = Inr (v, g');
    new_version_id uuid vid \<notin> set (version_ids g)\<rbrakk> \<Longrightarrow> graph_step g g'"
| forked: "\<lbrakk>fork_latest uuid g author meta = Inr (v, g');
    new_version_id uuid None \<notin> set (version_ids g)\<rbrakk> \<Longrightarrow> graph_step g g'"
| activated: "activate g vid = Inr (v, g') \<Longrightarrow> graph_step g g'"

inductive_cases graph_stepE: "graph_step g g'"

lemma graph_step_inv:
  assumes "graph_step g g'" "graph_inv g"
  shows "graph_inv g' \<and> prefix (versions g) (versions g')"
  using assms
proof (cases rule: graph_step.cases)
  case (created uuid ms parent author meta vid v)
  then show ?thesis using create_version_inv assms(2) by fastforce
next
  case (forked uuid author meta v)
  then obtain ms where "create_version uuid g ms None author meta None = Inr (v, g')"
    by (auto simp: fork_latest_def bindr_eq_Inr)
  then show ?thesis using create_version_inv assms(2) forked(2) by fastforce
next
  case (activated vid v)
  then show ?thesis using activate_inv assms(2) by fastforce
qed

lemma graph_steps_inv:
  "\<lbrakk>graph_step\<^sup>*\<^sup>* g g'; graph_inv g\<rbrakk> \<Longrightarrow> graph_inv g' \<and> prefix (versions g) (versions g')"
proof (induction rule: rtranclp_induct)
  case (step h h')
  then show ?case using graph_step_inv [of h h'] prefix_order.trans by blast
qed simp

text \<open>
  The version graph is append-only and stays well formed: along any sequence of creations
  (with fresh ids), forks and activations, no version is ever changed, removed or reordered, every
  parent precedes its child, only the first version has no parent, and the latest id is always
  a version.
\<close>
theorem version_graph_append_only:
  assumes "graph_step\<^sup>*\<^sup>* g g'" "graph_inv g"
  shows "graph_inv g' \<and> prefix (versions g) (versions g')"
  using assms by (rule graph_steps_inv)

definition demo_graph1 :: message_version_graph where
  "demo_graph1 = snd (projr (create_version ''1'' empty_graph [PyDict []] None (Some ''seed'') PyNone None))"

definition demo_graph2 :: message_version_graph where
  "demo_graph2 = snd (projr (create_version ''2'' demo_graph1 [PyDict [], PyDict []] None (Some ''h'') PyNone None))"

definition demo_graph :: message_version_graph where
  "demo_graph = snd (projr (activate demo_graph2 ''kv_1''))"

lemma demo_graph_steps: "graph_step\<^sup>*\<^sup>* empty_graph demo_graph"
proof -
  have "graph_step empty_graph demo_graph1"
    by (rule graph_step.created [of "''1''" _ "[PyDict []]" None "Some ''seed''" PyNone None
          "fst (projr (create_version ''1'' empty_graph [PyDict []] None (Some ''seed'') PyNone None))"])
      code_simp+
  moreover have "graph_step demo_graph1 demo_graph2"
    by (rule graph_step.created [of "''2''" _ "[PyDict [], PyDict []]" None "Some ''h''" PyNone None
          "fst (projr (create_version ''2'' demo_graph1 [PyDict [], PyDict []] None (Some ''h'') PyNone None))"])
      code_simp+
  moreover have "graph_step demo_graph2 demo_graph"
    by (rule graph_step.activated [of _ "''kv_1''" "fst (projr (activate demo_graph2 ''kv_1''))"]) code_simp
  ultimately show ?thesis by (meson rtranclp.rtrancl_into_rtrancl rtranclp.rtrancl_refl)
qed

theorem version_graph_append_only_witness:
  "graph_step\<^sup>*\<^sup>* empty_graph demo_graph \<and> graph_inv demo_graph \<and> length (versions demo_graph) = 2"
proof -
  have "length (versions demo_graph) = 2" by code_simp
  then show ?thesis
    using version_graph_append_only [OF demo_graph_steps empty_graph_inv] demo_graph_steps by blast
qed

subsection \<open>Lineage\<close>

text \<open>The path from a version without parent down to a version, by the parent links.\<close>

inductive ancestry :: "message_version_graph \<Rightarrow> string \<Rightarrow> string list \<Rightarrow> bool" where
  root: "\<lbrakk>dict_get (versions g) vid = Some v; parent_version_id v = None\<rbrakk> \<Longrightarrow> ancestry g vid [vid]"
| child: "\<lbrakk>dict_get (versions g) vid = Some v; parent_version_id v = Some p; ancestry g p ids\<rbrakk>
    \<Longrightarrow> ancestry g vid (ids @ [vid])"

lemma lineage_loop_step:
  "\<lbrakk>graph_inv g; dict_get (versions g) vid = Some v\<rbrakk> \<Longrightarrow>
   lineage_loop g (Some vid) acc = lineage_loop g (parent_version_id v) (acc @ [vid])"
  by (subst lineage_loop.simps) (simp add: get_version_def graph_inv_key [THEN conjunct1])

lemma lineage_loop_None: "lineage_loop g None acc = Some (Inr (rev acc))"
  by (subst lineage_loop.simps) simp

lemma lineage_loop_total:
  assumes inv: "graph_inv g" and "i < length (versions g)"
  shows "\<exists>ids. ancestry g (fst (versions g ! i)) ids \<and> distinct ids \<and> hd ids = fst (versions g ! 0) \<and>
    set ids \<subseteq> set (dict_keys (take (Suc i) (versions g))) \<and>
    (\<forall>acc. lineage_loop g (Some (fst (versions g ! i))) acc = Some (Inr (ids @ rev acc)))"
  using assms(2)
proof (induction i rule: less_induct)
  case (less i)
  obtain k v where kv: "versions g ! i = (k, v)" by force
  have get: "dict_get (versions g) k = Some v"
    using inv less.prems kv nth_mem [OF less.prems] by (simp add: graph_inv_def dict_wf_def)
  have par: "case parent_version_id v of None \<Rightarrow> i = 0 | Some p \<Rightarrow> p \<in> set (dict_keys (take i (versions g)))"
    using inv less.prems kv by (auto simp: graph_inv_def parent_before_def)
  have here: "k \<in> set (dict_keys (take (Suc i) (versions g)))"
    using less.prems kv by (simp add: take_Suc_conv_app_nth)
  have notin: "k \<notin> set (dict_keys (take i (versions g)))"
  proof -
    have "dict_keys (versions g) = dict_keys (take i (versions g) @ (k, v) # drop (Suc i) (versions g))"
      using id_take_nth_drop [OF less.prems] kv by simp
    moreover have "distinct (dict_keys (versions g))" using inv by (simp add: graph_inv_def dict_wf_def)
    ultimately show ?thesis by (simp del: take_map)
  qed
  show ?case
  proof (cases "parent_version_id v")
    case None
    then have "i = 0" using par by simp
    moreover have "ancestry g k [k]" using get None by (rule ancestry.root)
    ultimately show ?thesis
      using kv here None lineage_loop_step [OF inv get] by (auto simp: lineage_loop_None intro!: exI [of _ "[k]"])
  next
    case (Some p)
    then obtain j where j: "j < i" "fst (versions g ! j) = p"
      using par less.prems by (auto simp: in_set_conv_nth)
    then obtain ids where ids: "ancestry g p ids" "distinct ids" "hd ids = fst (versions g ! 0)"
      "set ids \<subseteq> set (dict_keys (take (Suc j) (versions g)))"
      "\<And>acc. lineage_loop g (Some p) acc = Some (Inr (ids @ rev acc))"
      using less.IH [of j] less.prems by auto
    have sub: "set (dict_keys (take (Suc j) (versions g))) \<subseteq> set (dict_keys (take i (versions g)))"
      using j set_take_subset_set_take [of "Suc j" i "versions g"] by auto
    have "ids \<noteq> []" using ids(1) by (auto elim: ancestry.cases)
    have "ancestry g k (ids @ [k])" by (rule ancestry.child [OF get Some ids(1)])
    moreover have "set (ids @ [k]) \<subseteq> set (dict_keys (take (Suc i) (versions g)))"
    proof -
      have "set (dict_keys (take i (versions g))) \<subseteq> set (dict_keys (take (Suc i) (versions g)))"
        using set_take_subset_set_take [of i "Suc i" "versions g"] by (simp add: image_mono)
      then show ?thesis using ids(4) sub here by simp
    qed
    moreover have "distinct (ids @ [k])" using ids(2,4) sub notin by auto
    ultimately show ?thesis
      using kv Some ids(3,5) \<open>ids \<noteq> []\<close> lineage_loop_step [OF inv get] by (auto intro!: exI [of _ "ids @ [k]"])
  qed
qed

text \<open>A set of versions whose parents are all in the set again: the loop of \<open>lineage\<close> never ends there.\<close>

definition parent_closed :: "message_version_graph \<Rightarrow> string set \<Rightarrow> bool" where
  "parent_closed g S \<longleftrightarrow>
     (\<forall>x \<in> S. \<exists>v q. dict_get (versions g) x = Some v \<and> parent_version_id v = Some q \<and> q \<in> S)"

lemma lineage_loop_leaves:
  assumes "lineage_loop g cur acc = Some r" "parent_closed g S" "x \<in> S"
  shows "cur \<noteq> Some x"
proof -
  have "parent_closed g S \<longrightarrow> (\<forall>x \<in> S. cur \<noteq> Some x)"
  proof (rule lineage_loop.raw_induct [where P = "\<lambda>g cur acc r. parent_closed g S \<longrightarrow> (\<forall>x \<in> S. cur \<noteq> Some x)", OF _ assms(1)], intro impI ballI notI)
    fix loop g cur acc r x
    assume IH: "\<And>g cur acc r. loop g cur acc = Some r \<Longrightarrow> parent_closed g S \<longrightarrow> (\<forall>x \<in> S. cur \<noteq> Some x)"
      and step: "(case cur of None \<Rightarrow> Some (Inr (rev acc)) | Some vid \<Rightarrow>
          (case get_version g vid of Inl e \<Rightarrow> Some (Inl e) | Inr v \<Rightarrow> loop g (parent_version_id v) (acc @ [version_id v]))) = Some r"
      and closed: "parent_closed g S" and x: "x \<in> S" "cur = Some x"
    then obtain v q where v: "dict_get (versions g) x = Some v" "parent_version_id v = Some q" "q \<in> S"
      unfolding parent_closed_def by blast
    then have "loop g (Some q) (acc @ [version_id v]) = Some r" using step x(2) by (simp add: get_version_def)
    from IH [OF this] closed v(3) show False by blast
  qed
  then show ?thesis using assms(2,3) by blast
qed

lemma ancestry_versions: "\<lbrakk>ancestry g vid ids; a \<in> set ids\<rbrakk> \<Longrightarrow> dict_get (versions g) a \<noteq> None"
  by (induction rule: ancestry.induct) auto

text \<open>Creating a version under the id of an ancestor of its parent closes such a cycle: the old version is overwritten.\<close>

lemma reused_id_cycle:
  assumes "create_version uuid g ms (Some p) author meta (Some a) = Inr (v, g')" "a \<noteq> []"
    and "ancestry g p ids" "a \<in> set ids"
  shows "parent_closed g' {x. \<exists>xs. ancestry g x xs \<and> a \<in> set xs}"
  unfolding parent_closed_def
proof (intro ballI)
  let ?S = "{x. \<exists>xs. ancestry g x xs \<and> a \<in> set xs}"
  have g': "versions g' = dict_set a v (versions g)" "parent_version_id v = Some p"
    using assms(1,2) by (auto simp: create_version_def Let_def split: if_splits)
  fix x assume "x \<in> ?S"
  then obtain xs where xs: "ancestry g x xs" "a \<in> set xs" by blast
  show "\<exists>v q. dict_get (versions g') x = Some v \<and> parent_version_id v = Some q \<and> q \<in> ?S"
  proof (cases "x = a")
    case True
    then show ?thesis using g' assms(3,4) by auto
  next
    case False
    with xs show ?thesis by (cases rule: ancestry.cases) (auto simp: g')
  qed
qed

text \<open>
  C27: On every graph that is built by creating versions, each under an id the graph does not have yet (the generated
  ids are unique; a \<open>version_id\<close> given by the caller has to be), forking and activating, \<open>lineage\<close> terminates
  for every version and returns the path of parent links from the first version of the graph down to it,
  without repetition. The condition is needed and the code does not check it: a further version below \<open>vid\<close>
  that is created under the id of \<open>vid\<close> or of one of its ancestors overwrites that version, and from then on
  \<open>lineage\<close> of the new latest version never returns.
\<close>
theorem lineage_returns_path:
  assumes "graph_step\<^sup>*\<^sup>* empty_graph g" "vid \<in> set (version_ids g)"
  shows "\<exists>ids. lineage g (Some vid) = Some (Inr ids) \<and> ancestry g vid ids \<and> distinct ids \<and>
           hd ids = hd (version_ids g) \<and>
           (\<forall>a \<in> set ids. \<forall>uuid ms author meta. \<exists>v g'.
              create_version uuid g ms (Some vid) author meta (Some a) = Inr (v, g') \<and> lineage g' None = None)"
proof -
  have inv: "graph_inv g" using graph_steps_inv [OF assms(1) empty_graph_inv] by blast
  obtain i where i: "i < length (versions g)" "fst (versions g ! i) = vid"
    using assms(2) by (auto simp: version_ids_def in_set_conv_nth)
  have "hd (version_ids g) = fst (versions g ! 0)"
    using i(1) by (cases "versions g") (auto simp: version_ids_def)
  then obtain ids where ids: "lineage g (Some vid) = Some (Inr ids)" "ancestry g vid ids" "distinct ids" "hd ids = hd (version_ids g)"
    using lineage_loop_total [OF inv i(1)] i(2) by (auto simp: lineage_def)
  have "\<exists>v g'. create_version uuid g ms (Some vid) author meta (Some a) = Inr (v, g') \<and> lineage g' None = None"
    if a: "a \<in> set ids" for a uuid ms author meta
  proof -
    obtain av where "dict_get (versions g) a = Some av" using ancestry_versions [OF ids(2) a] by blast
    then have known: "a \<noteq> []" "dict_get (versions g) vid \<noteq> None"
      using graph_inv_key [OF inv] assms(2) by (auto simp: dict_get_keys version_ids_def)
    then obtain v g' where new: "create_version uuid g ms (Some vid) author meta (Some a) = Inr (v, g')" "graph_latest g' = Some a"
      by (auto simp: create_version_def Let_def)
    have "a \<in> {x. \<exists>xs. ancestry g x xs \<and> a \<in> set xs}"
      using ids(2) a by (induction rule: ancestry.induct) (auto intro: ancestry.intros)
    then have "lineage_loop g' (Some a) [] = None"
      using lineage_loop_leaves [OF _ reused_id_cycle [OF new(1) known(1) ids(2) a], of "Some a" "[]" _ a]
      by (cases "lineage_loop g' (Some a) []") blast+
    then show ?thesis using new by (simp add: lineage_def)
  qed
  then show ?thesis using ids by blast
qed

text \<open>On the example, the version \<open>kv_2\<close> is created again below itself.\<close>

theorem lineage_returns_path_witness:
  "''kv_2'' \<in> set (version_ids demo_graph) \<and> lineage demo_graph (Some ''kv_2'') = Some (Inr [''kv_1'', ''kv_2'']) \<and>
   ancestry demo_graph ''kv_2'' [''kv_1'', ''kv_2''] \<and>
   (\<exists>v g'. create_version ''3'' demo_graph [] (Some ''kv_2'') None PyNone (Some ''kv_2'') = Inr (v, g') \<and> lineage g' None = None)"
proof -
  have m: "''kv_2'' \<in> set (version_ids demo_graph)" by code_simp
  have l: "lineage demo_graph (Some ''kv_2'') = Some (Inr [''kv_1'', ''kv_2''])" by code_simp
  show ?thesis using lineage_returns_path [OF demo_graph_steps m] m l by auto
qed

end
