(* ===== verification/ProviderReplay.thy ===== *)
theory ProviderReplay
  imports PyText
begin

section \<open>The provider replay frame\<close>

text \<open>
  \<open>kernel/provider_replay.py\<close>: the frame that carries a provider's native response items from
  turn to turn. The frame lives in the component state under \<open>provider_replay\<close>, so the
  operations take that dictionary. The hash functions are arguments: \<open>digest\<close> is
  \<open>stable_json_digest\<close> (SHA-256 of the sorted JSON text) and \<open>sha\<close> is
  \<open>hashlib.sha256(...).hexdigest()\<close> of a text. A value is strict JSON unless it holds a
  dataclass instance (floats of the model are finite).
  The lemmas: what validation accepts, that every stored or merged frame is valid, that
  appending a response keeps the captured prefix and ends with the response, that a captured
  tool digest never changes, and that a redacted value depends on a secret text only through its
  length and 16 digits of its digest.
\<close>

definition frame_error :: "string \<Rightarrow> py_exc" where
  "frame_error msg = DomainExc ''ProviderReplayFrameError'' msg"

definition strict_json_copy :: "pyval \<Rightarrow> (py_exc, pyval) res" where
  "strict_json_copy v =
     (case json_bad v of
        None \<Rightarrow> Inr v
      | Some c \<Rightarrow> Inl (frame_error (''provider replay data must be strict JSON: Object of type '' @ c
                                    @ '' is not JSON serializable'')))"

subsection \<open>Tool schema manifests\<close>

definition schema_name :: "string \<Rightarrow> pydict \<Rightarrow> pyval" where
  "schema_name provider schema =
     (let name = (case dget schema ''function'' of PyDict f \<Rightarrow> dget f ''name'' | _ \<Rightarrow> dget schema ''name'') in
      if \<not> truthy name \<and> py_lower (py_strip provider) = ''openai''
         \<and> py_eq (dget schema ''type'') (PyStr ''computer'')
      then PyStr ''computer'' else name)"

fun tool_schema_manifest ::
  "(rat \<Rightarrow> string) \<Rightarrow> (pyval \<Rightarrow> (py_exc, string) res) \<Rightarrow> string \<Rightarrow> pydict \<Rightarrow> pyval list \<Rightarrow> (py_exc, pydict) res" where
  "tool_schema_manifest fr digest provider manifest [] = Inr manifest"
| "tool_schema_manifest fr digest provider manifest (schema # tools) =
     (case schema of
        PyDict d \<Rightarrow>
          let name = py_strip (str_or fr (schema_name provider d) []) in
          if name = [] \<or> dict_get manifest name \<noteq> None
          then Inl (frame_error ''provider tool schemas require unique non-empty names'')
          else bindr (digest schema) (\<lambda>h.
               tool_schema_manifest fr digest provider (dict_set name (PyStr h) manifest) tools)
      | _ \<Rightarrow> Inl (frame_error ''provider tool schema entries must be dictionaries''))"

text \<open>The names whose digest differs between a captured manifest and another one.\<close>

definition incompatible :: "pydict \<Rightarrow> pydict \<Rightarrow> bool" where
  "incompatible expected actual \<longleftrightarrow>
     (\<exists>p \<in> set expected. case dict_get actual (fst p) of None \<Rightarrow> False | Some d \<Rightarrow> \<not> py_eq d (snd p))"

definition ensure_replay_tool_schema_compatible ::
  "(rat \<Rightarrow> string) \<Rightarrow> (pyval \<Rightarrow> (py_exc, string) res) \<Rightarrow> pydict \<Rightarrow> pyval list \<Rightarrow> string \<Rightarrow> (py_exc, unit) res" where
  "ensure_replay_tool_schema_compatible fr digest frame tools provider =
     (case dget frame ''tool_schema_manifest'' of
        PyDict expected \<Rightarrow>
          bindr (tool_schema_manifest fr digest provider [] tools) (\<lambda>actual.
            if incompatible expected actual
            then Inl (frame_error ''provider replay tool schema does not match previously captured tools'')
            else Inr ())
      | _ \<Rightarrow>
          (case dget frame ''tool_schema_digest'' of
             PyStr expected \<Rightarrow>
               if expected = [] then Inr ()
               else bindr (digest (PyList tools)) (\<lambda>actual.
                 if actual \<noteq> expected
                 then Inl (frame_error ''provider replay tool schema does not match the current toolkit'')
                 else Inr ())
           | _ \<Rightarrow> Inr ()))"

subsection \<open>Redaction\<close>

definition is_secret :: "pyval \<Rightarrow> string \<Rightarrow> bool" where
  "is_secret block_type key \<longleftrightarrow>
     key \<in> {''encrypted_content'', ''signature'', ''thinking''} \<or>
     (py_eq block_type (PyStr ''redacted_thinking'') \<and> key = ''data'')"

definition redaction :: "(string \<Rightarrow> string) \<Rightarrow> string \<Rightarrow> string \<Rightarrow> string" where
  "redaction sha key item =
     ''[redacted '' @ key @ '' chars='' @ nat_text (length item) @ '' sha256='' @ take 16 (sha item) @ '']''"

fun redact_provider_replay_secrets :: "(string \<Rightarrow> string) \<Rightarrow> pyval \<Rightarrow> pyval" where
  "redact_provider_replay_secrets sha (PyList xs) = PyList (map (redact_provider_replay_secrets sha) xs)"
| "redact_provider_replay_secrets sha (PyDict d) =
     PyDict (map (\<lambda>p. (fst p,
       if is_secret (dget d ''type'') (fst p) \<and> is_str (snd p)
       then PyStr (redaction sha (fst p) (case snd p of PyStr s \<Rightarrow> s | _ \<Rightarrow> []))
       else redact_provider_replay_secrets sha (snd p))) d)"
| "redact_provider_replay_secrets sha v = v"

subsection \<open>Frames\<close>

fun is_bool :: "pyval \<Rightarrow> bool" where
  "is_bool (PyBool _) = True"
| "is_bool _ = False"

definition nonempty_str :: "pyval \<Rightarrow> bool" where
  "nonempty_str v = (is_str v \<and> truthy v)"

definition manifest_ok :: "pyval \<Rightarrow> bool" where
  "manifest_ok m = (case m of PyDict d \<Rightarrow> \<forall>p \<in> set d. fst p \<noteq> [] \<and> nonempty_str (snd p) | _ \<Rightarrow> False)"

definition validate_provider_replay_frame :: "pyval \<Rightarrow> (py_exc, pydict) res" where
  "validate_provider_replay_frame raw =
     (case raw of
        PyDict frame \<Rightarrow>
          bindr (strict_json_copy raw) (\<lambda>_.
          if \<not> nonempty_str (dget frame ''format'')
          then Inl (frame_error ''provider replay frame requires format'')
          else if \<not> is_bool (dget frame ''complete'')
          then Inl (frame_error ''provider replay frame.complete must be a bool'')
          else if \<not> is_list (dget frame ''items'')
          then Inl (frame_error ''provider replay frame.items must be a list'')
          else if dict_get frame ''tool_schema_digest'' \<noteq> None \<and> \<not> nonempty_str (dget frame ''tool_schema_digest'')
          then Inl (frame_error ''provider replay frame.tool_schema_digest must be a non-empty string'')
          else if dict_get frame ''tool_schema_manifest'' \<noteq> None \<and> \<not> manifest_ok (dget frame ''tool_schema_manifest'')
          then Inl (frame_error ''provider replay frame.tool_schema_manifest must map tool names to digests'')
          else Inr frame)
      | _ \<Rightarrow> Inl (frame_error ''provider replay frame must be a dict''))"

definition current_provider_replay_frame :: "pydict \<Rightarrow> (py_exc, pydict option) res" where
  "current_provider_replay_frame component_state =
     (case vget (dget component_state ''provider_replay'') ''frame'' of
        PyDict raw_frame \<Rightarrow> bindr (validate_provider_replay_frame (PyDict raw_frame)) (\<lambda>f. Inr (Some f))
      | _ \<Rightarrow> Inr None)"

definition component_bucket :: "pydict \<Rightarrow> string \<Rightarrow> pydict" where
  "component_bucket component_state name =
     (case dget component_state name of PyDict bucket \<Rightarrow> bucket | _ \<Rightarrow> [])"

definition bucket_set :: "string \<Rightarrow> string \<Rightarrow> pyval \<Rightarrow> pydict \<Rightarrow> pydict" where
  "bucket_set name key v component_state =
     dict_set name (PyDict (dict_set key v (component_bucket component_state name))) component_state"

definition set_provider_replay_frame :: "pydict \<Rightarrow> pyval \<Rightarrow> (py_exc, pydict) res" where
  "set_provider_replay_frame component_state frame =
     bindr (validate_provider_replay_frame frame) (\<lambda>validated.
       Inr (bucket_set ''provider_replay'' ''frame'' (PyDict validated) component_state))"

fun items_of :: "pyval \<Rightarrow> pyval list" where
  "items_of (PyList xs) = xs"
| "items_of _ = []"

definition frame_items :: "pydict \<Rightarrow> pyval list" where
  "frame_items frame = items_of (dget frame ''items'')"

definition append_provider_replay_items :: "pydict \<Rightarrow> pyval list \<Rightarrow> (py_exc, pydict) res" where
  "append_provider_replay_items component_state items =
     bindr (current_provider_replay_frame component_state) (\<lambda>cur.
       case cur of
         None \<Rightarrow> Inr component_state
       | Some frame \<Rightarrow>
           bindr (strict_json_copy (PyList items)) (\<lambda>_.
             set_provider_replay_frame component_state
               (PyDict (dict_set ''items'' (PyList (frame_items frame @ items)) frame))))"

subsection \<open>Merging the frame of a model turn\<close>

text \<open>\<open>xs[-len(suffix):] == suffix\<close>, for a non-empty suffix no longer than the list.\<close>

definition ends_with :: "pyval list \<Rightarrow> pyval list \<Rightarrow> bool" where
  "ends_with xs ys \<longleftrightarrow> length ys \<le> length xs \<and> py_eq (PyList (drop (length xs - length ys) xs)) (PyList ys)"

definition merge_replace :: "pydict \<Rightarrow> pydict \<Rightarrow> (py_exc, pydict) res" where
  "merge_replace component_state incoming =
     (let clean = filter (\<lambda>p. fst p \<notin> {''mode'', ''response_items''}) incoming in
      bindr (current_provider_replay_frame component_state) (\<lambda>existing.
        case existing of
          None \<Rightarrow> validate_provider_replay_frame (PyDict clean)
        | Some ex \<Rightarrow>
            if \<not> py_eq (dget ex ''format'') (dget clean ''format'')
            then validate_provider_replay_frame (PyDict clean)
            else (case dget ex ''tool_schema_manifest'' of
                    PyDict em \<Rightarrow>
                      let im = (case dget clean ''tool_schema_manifest'' of PyDict m \<Rightarrow> m | _ \<Rightarrow> []) in
                      if incompatible em im
                      then Inl (frame_error ''provider replay tool schema changed while replacing context'')
                      else validate_provider_replay_frame
                             (PyDict (dict_set ''tool_schema_manifest'' (PyDict (dict_update em im)) clean))
                  | _ \<Rightarrow> validate_provider_replay_frame (PyDict clean))))"

definition schema_changed :: "pydict \<Rightarrow> pydict \<Rightarrow> bool" where
  "schema_changed ex incoming =
     (case (dget ex ''tool_schema_manifest'', dget incoming ''tool_schema_manifest'') of
        (PyDict em, PyDict im) \<Rightarrow> incompatible em im
      | _ \<Rightarrow> (case (dget ex ''tool_schema_digest'', dget incoming ''tool_schema_digest'') of
                (PyStr a, PyStr b) \<Rightarrow> a \<noteq> b
              | _ \<Rightarrow> False))"

definition merge_schema :: "pydict \<Rightarrow> pydict \<Rightarrow> pydict \<Rightarrow> pydict" where
  "merge_schema ex incoming frame =
     (let with_manifest =
            (case (dget ex ''tool_schema_manifest'', dget incoming ''tool_schema_manifest'') of
               (PyDict em, PyDict im) \<Rightarrow> dict_set ''tool_schema_manifest'' (PyDict (dict_update em im)) frame
             | (_, PyDict im) \<Rightarrow> dict_set ''tool_schema_manifest'' (PyDict im) frame
             | _ \<Rightarrow> frame) in
      (case dget incoming ''tool_schema_digest'' of
         PyStr d \<Rightarrow> dict_set ''tool_schema_digest'' (PyStr d) with_manifest
       | _ \<Rightarrow> with_manifest))"

definition extend_frame ::
  "(rat \<Rightarrow> string) \<Rightarrow> pydict \<Rightarrow> pydict \<Rightarrow> pyval list \<Rightarrow> pyval list \<Rightarrow> (py_exc, pydict) res" where
  "extend_frame fr ex incoming request_items response_items =
     (if schema_changed ex incoming
      then Inl (frame_error ''provider replay tool schema changed during remote continuation'')
      else
        let items = frame_items ex;
            items1 = (if request_items \<noteq> [] \<and> \<not> ends_with items request_items
                      then items @ request_items else items);
            source = str_or fr (dget incoming ''source'') (str_or fr (dget ex ''source'') []);
            extended = dict_set ''source'' (PyStr source)
                         (dict_set ''items'' (PyList (items1 @ response_items)) ex)
        in validate_provider_replay_frame (PyDict (merge_schema ex incoming extended)))"

definition copy_key :: "pydict \<Rightarrow> string \<Rightarrow> pydict \<Rightarrow> pydict" where
  "copy_key incoming key d = (case dict_get incoming key of None \<Rightarrow> d | Some v \<Rightarrow> dict_set key v d)"

definition fallback_frame :: "(rat \<Rightarrow> string) \<Rightarrow> pydict \<Rightarrow> pyval list \<Rightarrow> (py_exc, pydict) res" where
  "fallback_frame fr incoming response_items =
     (let items = (if truthy (dget incoming ''items'') then dget incoming ''items'' else PyList response_items);
          frame = [(''format'', PyStr (str_or fr (dget incoming ''format'') [])),
                   (''complete'', PyBool False),
                   (''items'', items),
                   (''source'', PyStr (str_or fr (dget incoming ''source'') ''provider_response_fragment'')),
                   (''incomplete_reason'', PyStr
      ''provider response used remote continuation without a complete local replay prefix'')]
      in bindr (strict_json_copy items) (\<lambda>_.
         validate_provider_replay_frame (PyDict
           (copy_key incoming ''tool_schema_manifest'' (copy_key incoming ''tool_schema_digest'' frame)))))"

definition merge_append_response :: "(rat \<Rightarrow> string) \<Rightarrow> pydict \<Rightarrow> pydict \<Rightarrow> (py_exc, pydict) res" where
  "merge_append_response fr component_state incoming =
     bindr (strict_json_copy (dget incoming ''response_items'')) (\<lambda>response_value.
     case response_value of
       PyList response_items \<Rightarrow>
         bindr (strict_json_copy (dget incoming ''items'')) (\<lambda>items_value.
         case items_value of
           PyList incoming_items \<Rightarrow>
             if response_items \<noteq> [] \<and> \<not> ends_with incoming_items response_items
             then Inl (frame_error ''append_response provider replay items must end with response_items'')
             else
               let request_items = take (length incoming_items - length response_items) incoming_items in
               bindr (current_provider_replay_frame component_state) (\<lambda>existing.
               case existing of
                 None \<Rightarrow> fallback_frame fr incoming response_items
               | Some ex \<Rightarrow>
                   if py_eq (dget ex ''format'') (PyStr (str_or fr (dget incoming ''format'') []))
                   then extend_frame fr ex incoming request_items response_items
                   else fallback_frame fr incoming response_items)
         | _ \<Rightarrow> Inl (frame_error ''append_response provider replay frame requires items''))
     | _ \<Rightarrow> Inl (frame_error ''append_response provider replay frame requires response_items''))"

definition merge_model_turn_replay_frame ::
  "(rat \<Rightarrow> string) \<Rightarrow> pydict \<Rightarrow> pyval \<Rightarrow> (py_exc, pydict option) res" where
  "merge_model_turn_replay_frame fr component_state incoming =
     (case incoming of
        PyNone \<Rightarrow> current_provider_replay_frame component_state
      | PyDict d \<Rightarrow>
          let mode = str_or fr (dget d ''mode'') ''replace'' in
          if mode = ''replace'' then bindr (merge_replace component_state d) (\<lambda>f. Inr (Some f))
          else if mode \<noteq> ''append_response''
          then Inl (frame_error (''unsupported provider replay mode: '' @ repr_str mode))
          else bindr (merge_append_response fr component_state d) (\<lambda>f. Inr (Some f))
      | _ \<Rightarrow> Inl (frame_error ''model turn provider_replay_frame must be a dict''))"

subsection \<open>Valid frames\<close>

definition frame_ok :: "pydict \<Rightarrow> bool" where
  "frame_ok f \<longleftrightarrow>
     json_bad (PyDict f) = None \<and> nonempty_str (dget f ''format'') \<and> is_bool (dget f ''complete'') \<and>
     is_list (dget f ''items'') \<and>
     (dict_get f ''tool_schema_digest'' \<noteq> None \<longrightarrow> nonempty_str (dget f ''tool_schema_digest'')) \<and>
     (dict_get f ''tool_schema_manifest'' \<noteq> None \<longrightarrow> manifest_ok (dget f ''tool_schema_manifest''))"

lemma validate_iff: "validate_provider_replay_frame raw = Inr f \<longleftrightarrow> raw = PyDict f \<and> frame_ok f"
  by (cases raw)
    (auto simp: validate_provider_replay_frame_def frame_ok_def strict_json_copy_def bindr_eq_Inr
      split: option.splits if_splits)

lemma current_frame_ok: "current_provider_replay_frame c = Inr (Some f) \<Longrightarrow> frame_ok f"
  by (auto simp: current_provider_replay_frame_def bindr_eq_Inr validate_iff split: pyval.splits)

lemma current_after_bucket_set:
  "frame_ok f \<Longrightarrow>
   current_provider_replay_frame (bucket_set ''provider_replay'' ''frame'' (PyDict f) c) = Inr (Some f)"
  by (simp add: current_provider_replay_frame_def bucket_set_def dget_def bindr_eq_Inr validate_iff)

lemma merge_replace_cases:
  assumes "merge_replace c d = Inr f"
  obtains (plain) "f = filter (\<lambda>p. fst p \<notin> {''mode'', ''response_items''}) d" "frame_ok f"
    "\<And>ex em. \<lbrakk>current_provider_replay_frame c = Inr (Some ex); py_eq (dget ex ''format'') (dget f ''format'');
       dget ex ''tool_schema_manifest'' = PyDict em\<rbrakk> \<Longrightarrow> False"
  | (joined) ex em im clean where "current_provider_replay_frame c = Inr (Some ex)"
    "dget ex ''tool_schema_manifest'' = PyDict em" "\<not> incompatible em im"
    "clean = filter (\<lambda>p. fst p \<notin> {''mode'', ''response_items''}) d"
    "im = (case dget clean ''tool_schema_manifest'' of PyDict m \<Rightarrow> m | _ \<Rightarrow> [])"
    "f = dict_set ''tool_schema_manifest'' (PyDict (dict_update em im)) clean" "frame_ok f"
proof -
  let ?clean = "filter (\<lambda>p. fst p \<notin> {''mode'', ''response_items''}) d"
  obtain existing where e: "current_provider_replay_frame c = Inr existing"
    using assms by (auto simp: merge_replace_def Let_def bindr_eq_Inr)
  show thesis
  proof (cases "\<exists>ex em. existing = Some ex \<and> py_eq (dget ex ''format'') (dget ?clean ''format'') \<and>
      dget ex ''tool_schema_manifest'' = PyDict em")
    case True
    then obtain ex em where x: "existing = Some ex" "py_eq (dget ex ''format'') (dget ?clean ''format'')"
      "dget ex ''tool_schema_manifest'' = PyDict em" by blast
    let ?im = "case dget ?clean ''tool_schema_manifest'' of PyDict m \<Rightarrow> m | _ \<Rightarrow> []"
    have "\<not> incompatible em ?im \<and> validate_provider_replay_frame
        (PyDict (dict_set ''tool_schema_manifest'' (PyDict (dict_update em ?im)) ?clean)) = Inr f"
      using assms unfolding merge_replace_def Let_def e x(1) bindr_simps option.case
      by (simp only: x(2,3) simp_thms if_False pyval.case sum.simps split: if_split_asm)
    then show thesis using joined [OF _ x(3)] e x(1) by (auto simp: validate_iff)
  next
    case False
    then have "validate_provider_replay_frame (PyDict ?clean) = Inr f"
      using assms unfolding merge_replace_def Let_def e bindr_simps
      by (cases existing; cases "dget (the existing) ''tool_schema_manifest''") (auto split: if_splits)
    then show thesis using plain False e by (simp add: validate_iff)
  qed
qed

lemma merge_replace_ok: "merge_replace c d = Inr f \<Longrightarrow> frame_ok f"
  by (erule merge_replace_cases) simp_all

lemma extend_frame_ok: "extend_frame fr ex d req rsp = Inr f \<Longrightarrow> frame_ok f"
  by (auto simp: extend_frame_def Let_def validate_iff split: if_splits)

lemma fallback_frame_ok: "fallback_frame fr d rsp = Inr f \<Longrightarrow> frame_ok f"
  by (auto simp: fallback_frame_def Let_def bindr_eq_Inr validate_iff)

lemma merge_append_response_ok: "merge_append_response fr c d = Inr f \<Longrightarrow> frame_ok f"
  by (auto simp: merge_append_response_def Let_def bindr_eq_Inr case_PyList_Inr
      split: option.splits if_splits dest: extend_frame_ok fallback_frame_ok)

text \<open>
  Whatever a model turn reports, the frame that results from merging it is a valid replay
  frame; storing it succeeds, and the next turn reads exactly that frame back.
\<close>
theorem merged_frame_is_valid_and_stored:
  assumes "merge_model_turn_replay_frame fr c incoming = Inr (Some f)"
  shows "frame_ok f \<and>
         (\<exists>c'. set_provider_replay_frame c (PyDict f) = Inr c' \<and>
               current_provider_replay_frame c' = Inr (Some f))"
proof -
  have "frame_ok f"
    using assms
    by (auto simp: merge_model_turn_replay_frame_def Let_def bindr_eq_Inr
        split: pyval.splits if_splits dest: current_frame_ok merge_replace_ok merge_append_response_ok)
  then show ?thesis
    by (auto simp: set_provider_replay_frame_def bindr_eq_Inr validate_iff current_after_bucket_set)
qed

definition demo_frame :: "pyval list \<Rightarrow> pydict" where
  "demo_frame items = [(''format'', PyStr ''openai''), (''complete'', PyBool True), (''items'', PyList items),
     (''tool_schema_manifest'', PyDict [(''run'', PyStr ''d1'')])]"

definition demo_replay :: pydict where
  "demo_replay = [(''provider_replay'', PyDict [(''frame'', PyDict (demo_frame [PyInt 1]))])]"

definition demo_incoming :: pyval where
  "demo_incoming = PyDict [(''mode'', PyStr ''append_response''), (''format'', PyStr ''openai''),
     (''items'', PyList [PyInt 2, PyInt 3]), (''response_items'', PyList [PyInt 3]),
     (''tool_schema_manifest'', PyDict [(''read'', PyStr ''d2''), (''run'', PyStr ''d1'')])]"

definition demo_extended :: pydict where
  "demo_extended = [(''format'', PyStr ''openai''), (''complete'', PyBool True),
     (''items'', PyList [PyInt 1, PyInt 2, PyInt 3]),
     (''tool_schema_manifest'', PyDict [(''run'', PyStr ''d1''), (''read'', PyStr ''d2'')]),
     (''source'', PyStr [])]"

lemma demo_extended_eq:
  "merge_model_turn_replay_frame (\<lambda>q. []) demo_replay demo_incoming = Inr (Some demo_extended)"
  by code_simp

theorem merged_frame_is_valid_and_stored_witness:
  "merge_model_turn_replay_frame (\<lambda>q. []) demo_replay demo_incoming = Inr (Some demo_extended) \<and>
   frame_ok demo_extended"
  using merged_frame_is_valid_and_stored [OF demo_extended_eq] demo_extended_eq by blast

subsection \<open>Captured items and tool digests\<close>

lemma frame_items_set [simp]:
  "dget (dict_set k v d) k' = (if k' = k then v else dget d k')"
  by (simp add: dget_def)

lemma merge_schema_items:
  "frame_items (merge_schema ex incoming frame) = frame_items frame"
  by (auto simp: merge_schema_def frame_items_def Let_def split: pyval.splits)

lemma extend_frame_items:
  assumes "extend_frame fr ex incoming req rsp = Inr f"
  shows "\<exists>mid. frame_items f = frame_items ex @ mid @ rsp \<and> (mid = [] \<or> mid = req)"
proof -
  have f: "f = merge_schema ex incoming (dict_set ''source''
       (PyStr (str_or fr (dget incoming ''source'') (str_or fr (dget ex ''source'') [])))
       (dict_set ''items'' (PyList ((if req \<noteq> [] \<and> \<not> ends_with (frame_items ex) req
           then frame_items ex @ req else frame_items ex) @ rsp)) ex))"
    using assms by (auto simp: extend_frame_def Let_def validate_iff split: if_splits)
  show ?thesis unfolding f merge_schema_items by (auto simp: frame_items_def)
qed

text \<open>
  An \<open>append_response\<close> turn on a frame of the same format never rewrites what was captured:
  the items of the new frame are the captured items, then nothing or the request items, then
  exactly the response items.
\<close>
theorem append_response_keeps_captured_items:
  assumes "merge_append_response fr c d = Inr f"
    "current_provider_replay_frame c = Inr (Some ex)"
    "py_eq (dget ex ''format'') (PyStr (str_or fr (dget d ''format'') []))"
  shows "\<exists>mid rsp. dget d ''response_items'' = PyList rsp \<and>
           frame_items f = frame_items ex @ mid @ rsp \<and>
           (mid = [] \<or> PyList mid = PyList (take (length (items_of (dget d ''items'')) - length rsp)
                                              (items_of (dget d ''items''))))"
proof -
  obtain rsp incs where r: "dget d ''response_items'' = PyList rsp" and i: "dget d ''items'' = PyList incs"
    and e: "extend_frame fr ex d (take (length incs - length rsp) incs) rsp = Inr f"
    using assms
    by (auto simp: merge_append_response_def strict_json_copy_def Let_def bindr_eq_Inr case_PyList_Inr
        split: if_splits option.splits)
  show ?thesis using extend_frame_items [OF e] r i by auto
qed

theorem append_response_keeps_captured_items_witness:
  "merge_append_response (\<lambda>q. []) demo_replay (case demo_incoming of PyDict d \<Rightarrow> d | _ \<Rightarrow> []) = Inr demo_extended \<and>
   (\<exists>mid. frame_items demo_extended = [PyInt 1] @ mid @ [PyInt 3])"
proof -
  let ?d = "case demo_incoming of PyDict d \<Rightarrow> d | _ \<Rightarrow> []"
  have e: "merge_append_response (\<lambda>q. []) demo_replay ?d = Inr demo_extended" by code_simp
  have c: "current_provider_replay_frame demo_replay = Inr (Some (demo_frame [PyInt 1]))" by code_simp
  have f: "py_eq (dget (demo_frame [PyInt 1]) ''format'') (PyStr (str_or (\<lambda>q. []) (dget ?d ''format'') []))"
    by (simp add: demo_frame_def demo_incoming_def dget_def str_or_def)
  have "dget ?d ''response_items'' = PyList [PyInt 3]" "frame_items (demo_frame [PyInt 1]) = [PyInt 1]"
    by (simp_all add: demo_incoming_def demo_frame_def frame_items_def dget_def)
  then show ?thesis using append_response_keeps_captured_items [OF e c f] e by auto
qed

definition frame_manifest :: "pydict \<Rightarrow> pydict" where
  "frame_manifest f = (case dget f ''tool_schema_manifest'' of PyDict m \<Rightarrow> m | _ \<Rightarrow> [])"

lemma manifest_strings:
  "\<lbrakk>frame_ok f; dict_get (frame_manifest f) n = Some d\<rbrakk> \<Longrightarrow> \<exists>s. d = PyStr s"
proof -
  assume f: "frame_ok f" and d: "dict_get (frame_manifest f) n = Some d"
  then obtain m where m: "dict_get f ''tool_schema_manifest'' = Some (PyDict m)" "dict_get m n = Some d"
    by (auto simp: frame_manifest_def dget_def split: pyval.splits option.splits)
  then have "nonempty_str d"
    using f map_of_SomeD [OF m(2)] by (auto simp: frame_ok_def manifest_ok_def dget_def)
  then show ?thesis by (cases d) (auto simp: nonempty_str_def)
qed

lemma compatible_update:
  assumes "\<not> incompatible em im" "dict_wf im" "dict_get em n = Some (PyStr s)"
  shows "dict_get (dict_update em im) n = Some (PyStr s)"
proof -
  have "dict_get im n = None \<or> dict_get im n = Some (PyStr s)"
    using assms(1) map_of_SomeD [OF assms(3)]
    by (cases "dict_get im n") (fastforce simp: incompatible_def py_eq_PyStr)+
  then show ?thesis using assms(2,3) by (auto simp: dict_get_update_wf)
qed

lemma value_wf_filter: "value_wf (PyDict d) \<Longrightarrow> value_wf (PyDict (filter P d))"
  by (auto simp: dict_wf_def distinct_map_filter)

lemma value_wf_manifest: "value_wf (PyDict d) \<Longrightarrow> dict_wf (frame_manifest d)"
  using value_wf_dget [of d "''tool_schema_manifest''"]
  by (auto simp: frame_manifest_def dict_wf_def split: pyval.splits)

lemma merge_schema_manifest:
  assumes "\<not> schema_changed ex incoming" "value_wf (PyDict incoming)"
    "dget frame ''tool_schema_manifest'' = dget ex ''tool_schema_manifest''"
    "dict_get (frame_manifest ex) n = Some (PyStr s)"
  shows "dict_get (frame_manifest (merge_schema ex incoming frame)) n = Some (PyStr s)"
proof -
  obtain em where em: "dget ex ''tool_schema_manifest'' = PyDict em"
    using assms(4) by (cases "dget ex ''tool_schema_manifest''") (auto simp: frame_manifest_def)
  have "dict_get em n = Some (PyStr s)" using assms(4) by (simp add: frame_manifest_def em)
  moreover have "\<not> incompatible em im \<and> dict_wf im"
    if "dget incoming ''tool_schema_manifest'' = PyDict im" for im
    using that assms(1) value_wf_manifest [OF assms(2)] by (simp add: schema_changed_def em frame_manifest_def)
  ultimately show ?thesis
    using assms(3)
    by (cases "dget incoming ''tool_schema_manifest''"; cases "dget incoming ''tool_schema_digest''")
      (simp_all add: merge_schema_def frame_manifest_def em compatible_update)
qed

text \<open>
  A tool digest that was captured never changes. When a turn replaces or extends a frame of
  the same format, every tool of the captured manifest is in the new manifest with the same
  digest; a turn with a different digest for a captured tool is refused.
\<close>
theorem captured_tool_digests_stay:
  assumes "value_wf (PyDict d)" "current_provider_replay_frame c = Inr (Some ex)"
    "dict_get (frame_manifest ex) tool = Some digest"
    "(merge_replace c d = Inr f \<and> py_eq (dget ex ''format'') (dget d ''format'')) \<or>
     (merge_append_response fr c d = Inr f \<and>
      py_eq (dget ex ''format'') (PyStr (str_or fr (dget d ''format'') [])))"
  shows "dict_get (frame_manifest f) tool = Some digest"
proof -
  obtain s where s: "digest = PyStr s"
    using manifest_strings [OF current_frame_ok [OF assms(2)] assms(3)] by blast
  from assms(4) show ?thesis
  proof (elim disjE conjE)
    assume m: "merge_replace c d = Inr f" and "py_eq (dget ex ''format'') (dget d ''format'')"
    then have fmt: "py_eq (dget ex ''format'') (dget (filter (\<lambda>p. fst p \<notin> {''mode'', ''response_items''}) d) ''format'')"
      unfolding dget_def dict_get_filter_keys [of "\<lambda>k. k \<notin> {''mode'', ''response_items''}"] by simp
    have em: "\<exists>em. dget ex ''tool_schema_manifest'' = PyDict em"
      using assms(3) by (cases "dget ex ''tool_schema_manifest''") (auto simp: frame_manifest_def)
    from m show ?thesis
    proof (cases rule: merge_replace_cases)
      case plain
      then show ?thesis using em assms(2) fmt by metis
    next
      case (joined ex' em im clean)
      have "dict_wf im"
        using value_wf_manifest [OF value_wf_filter [OF assms(1)]] joined(4,5) by (simp add: frame_manifest_def)
      then show ?thesis
        using joined assms(2,3) s by (simp add: frame_manifest_def compatible_update)
    qed
  next
    assume "merge_append_response fr c d = Inr f"
      "py_eq (dget ex ''format'') (PyStr (str_or fr (dget d ''format'') []))"
    then obtain req rsp where "extend_frame fr ex d req rsp = Inr f"
      using assms(2)
      by (auto simp: merge_append_response_def Let_def bindr_eq_Inr case_PyList_Inr split: if_splits)
    then obtain frame where f: "\<not> schema_changed ex d" "f = merge_schema ex d frame"
      "dget frame ''tool_schema_manifest'' = dget ex ''tool_schema_manifest''"
      by (auto simp: extend_frame_def Let_def validate_iff split: if_splits)
    then show ?thesis using merge_schema_manifest [OF f(1) assms(1) f(3)] assms(3) s by simp
  qed
qed

theorem captured_tool_digests_stay_witness:
  "current_provider_replay_frame demo_replay = Inr (Some (demo_frame [PyInt 1])) \<and>
   dict_get (frame_manifest demo_extended) ''run'' = Some (PyStr ''d1'')"
proof -
  let ?d = "case demo_incoming of PyDict d \<Rightarrow> d | _ \<Rightarrow> []"
  have e: "merge_append_response (\<lambda>q. []) demo_replay ?d = Inr demo_extended" by code_simp
  have c: "current_provider_replay_frame demo_replay = Inr (Some (demo_frame [PyInt 1]))" by code_simp
  have f: "py_eq (dget (demo_frame [PyInt 1]) ''format'') (PyStr (str_or (\<lambda>q. []) (dget ?d ''format'') []))"
    by (simp add: demo_frame_def demo_incoming_def dget_def str_or_def)
  have w: "value_wf (PyDict ?d)" by (simp add: demo_incoming_def dict_wf_def)
  have t: "dict_get (frame_manifest (demo_frame [PyInt 1])) ''run'' = Some (PyStr ''d1'')"
    by (simp add: demo_frame_def frame_manifest_def dget_def)
  show ?thesis using captured_tool_digests_stay [OF w c t disjI2 [OF conjI [OF e f]]] c by blast
qed

subsection \<open>Redaction\<close>

text \<open>The keys whose texts are secrets.\<close>

definition hidden_key :: "pydict \<Rightarrow> string \<Rightarrow> bool" where
  "hidden_key d k \<longleftrightarrow> k = ''encrypted_content'' \<or> k = ''signature'' \<or> k = ''thinking'' \<or>
     k = ''data'' \<and> dget d ''type'' = PyStr ''redacted_thinking''"

text \<open>
  Two values that differ, at any depth, in secret texts only, where the texts have the same length and the same
  first 16 digits of their digest.
\<close>

inductive same_but_secrets :: "(string \<Rightarrow> string) \<Rightarrow> pyval \<Rightarrow> pyval \<Rightarrow> bool" for sha where
  same: "same_but_secrets sha v v"
| lists: "list_all2 (same_but_secrets sha) xs ys \<Longrightarrow> same_but_secrets sha (PyList xs) (PyList ys)"
| dicts: "list_all2 (\<lambda>p q. fst p = fst q \<and> (same_but_secrets sha (snd p) (snd q) \<or>
      hidden_key d (fst p) \<and> (\<exists>s t. snd p = PyStr s \<and> snd q = PyStr t \<and> length s = length t \<and> take 16 (sha s) = take 16 (sha t)))) d e
    \<Longrightarrow> same_but_secrets sha (PyDict d) (PyDict e)"

text \<open>A value in which no dictionary has a text under a secret key.\<close>

fun public :: "pyval \<Rightarrow> bool" where
  "public (PyList xs) = (\<forall>x \<in> set xs. public x)"
| "public (PyDict d) = (\<forall>p \<in> set d. public (snd p) \<and> (hidden_key d (fst p) \<longrightarrow> \<not> is_str (snd p)))"
| "public _ = True"

lemma map_of_map_pair: "map_of (map (\<lambda>p. (fst p, f p)) d) k = map_option (\<lambda>v. f (k, v)) (map_of d k)"
  by (induction d) auto

lemma map_all2: "list_all2 (\<lambda>x y. f x = f y) xs ys \<Longrightarrow> map f xs = map f ys"
  by (induction rule: list_all2_induct) simp_all

lemma is_secret_hidden: "is_secret (dget d ''type'') k \<longleftrightarrow> hidden_key d k"
  by (auto simp: is_secret_def hidden_key_def py_eq_PyStr)

lemma same_but_secrets_text: "same_but_secrets sha v w \<Longrightarrow> v = PyStr s \<longleftrightarrow> w = PyStr s"
  by (erule same_but_secrets.cases) auto

lemma redact_public: "public v \<Longrightarrow> redact_provider_replay_secrets sha v = v"
proof (induction sha v rule: redact_provider_replay_secrets.induct)
  case (1 sha xs)
  then show ?case by (simp add: map_idI)
next
  case (2 sha d)
  then show ?case by (auto simp: is_secret_hidden intro!: map_idI)
qed auto

lemma related_type:
  assumes "list_all2 (\<lambda>p q. fst p = fst q \<and> (R (snd p) (snd q) \<or> H (fst p) \<and> Q p q)) d e" "\<not> H ''type''"
    and "\<And>v w. R v w \<Longrightarrow> v = PyStr s \<longleftrightarrow> w = PyStr s"
  shows "dget d ''type'' = PyStr s \<longleftrightarrow> dget e ''type'' = PyStr s"
  using assms(1)
proof (induction rule: list_all2_induct)
  case (Cons p ps q qs)
  then show ?case using assms(2,3) by (cases p; cases q) (auto simp: dget_def)
qed (simp add: dget_def)

lemma redact_same:
  "same_but_secrets sha v w \<Longrightarrow> redact_provider_replay_secrets sha v = redact_provider_replay_secrets sha w"
proof (induction rule: same_but_secrets.induct)
  case (lists xs ys)
  then show ?case by (simp add: list_all2_conv_all_nth list_eq_iff_nth_eq)
next
  case (dicts d e)
  have "dget d ''type'' = PyStr ''redacted_thinking'' \<longleftrightarrow> dget e ''type'' = PyStr ''redacted_thinking''"
    by (rule related_type [where R = "same_but_secrets sha" and H = "hidden_key d"])
      (use dicts same_but_secrets_text in \<open>auto simp: hidden_key_def elim!: list_all2_mono\<close>)
  then have keys: "hidden_key e k = hidden_key d k" for k by (simp add: hidden_key_def)
  let ?entry = "\<lambda>p :: string \<times> pyval. (fst p, if hidden_key d (fst p) \<and> is_str (snd p)
       then PyStr (redaction sha (fst p) (case snd p of PyStr s \<Rightarrow> s | _ \<Rightarrow> []))
       else redact_provider_replay_secrets sha (snd p))"
  have "?entry p = ?entry q"
    if "fst p = fst q" "(same_but_secrets sha (snd p) (snd q) \<and> redact_provider_replay_secrets sha (snd p) = redact_provider_replay_secrets sha (snd q)) \<or>
      hidden_key d (fst p) \<and> (\<exists>s t. snd p = PyStr s \<and> snd q = PyStr t \<and> length s = length t \<and> take 16 (sha s) = take 16 (sha t))" for p q
    using that(2)
  proof (elim disjE conjE exE)
    assume "same_but_secrets sha (snd p) (snd q)" "redact_provider_replay_secrets sha (snd p) = redact_provider_replay_secrets sha (snd q)"
    then show ?thesis using that(1) same_but_secrets_text [of sha "snd p" "snd q"] by (cases "snd p"; cases "snd q") simp_all
  next
    fix s t assume "hidden_key d (fst p)" "snd p = PyStr s" "snd q = PyStr t" "length s = length t" "take 16 (sha s) = take 16 (sha t)"
    then show ?thesis using that(1) by (simp add: redaction_def)
  qed
  then have "list_all2 (\<lambda>p q. ?entry p = ?entry q) d e" using dicts by (elim list_all2_mono) blast
  then have "map ?entry d = map ?entry e" by (rule map_all2)
  then show ?case by (simp only: redact_provider_replay_secrets.simps is_secret_hidden keys)
qed simp

lemma redact_marker:
  "\<lbrakk>dict_get d k = Some (PyStr s); hidden_key d k; redact_provider_replay_secrets sha (PyDict d) = PyDict e\<rbrakk> \<Longrightarrow>
   dict_get e k = Some (PyStr (''[redacted '' @ k @ '' chars='' @ nat_text (length s) @ '' sha256='' @ take 16 (sha s) @ '']''))"
  by (auto simp: map_of_map_pair is_secret_hidden redaction_def)

text \<open>
  C32: Redaction hides the secrets and nothing else. The secrets are the texts under \<open>encrypted_content\<close>,
  \<open>signature\<close> or \<open>thinking\<close>, and under \<open>data\<close> of a \<open>redacted_thinking\<close> block, at any depth. Two values that differ only
  in secret texts of the same length and the same first 16 digits of the digest are redacted to the same value,
  so the redacted value shows nothing else of a secret; a value without secret texts is left as it is; and each secret
  text of a block is replaced by the marker with its key, its length and these 16 digits.
\<close>
theorem redaction_hides_secrets:
  assumes "same_but_secrets sha v w"
  shows "redact_provider_replay_secrets sha v = redact_provider_replay_secrets sha w \<and>
    (public v \<longrightarrow> redact_provider_replay_secrets sha v = v) \<and>
    (\<forall>d e k s. v = PyDict d \<and> hidden_key d k \<and> dict_get d k = Some (PyStr s) \<and> redact_provider_replay_secrets sha v = PyDict e \<longrightarrow>
       dict_get e k = Some (PyStr (''[redacted '' @ k @ '' chars='' @ nat_text (length s) @ '' sha256='' @ take 16 (sha s) @ '']'')))"
  using redact_same [OF assms] redact_public redact_marker by blast

definition demo_block :: "string \<Rightarrow> string \<Rightarrow> pyval" where
  "demo_block thought sig = PyList [PyDict [(''type'', PyStr ''thinking''), (''thinking'', PyStr thought), (''signature'', PyStr sig)]]"

theorem redaction_hides_secrets_witness:
  "redact_provider_replay_secrets (\<lambda>s. replicate 64 CHR ''0'') (demo_block ''abc'' ''k1'') =
   redact_provider_replay_secrets (\<lambda>s. replicate 64 CHR ''0'') (demo_block ''xyz'' ''k2'')"
proof -
  have "same_but_secrets (\<lambda>s. replicate 64 CHR ''0'') (demo_block ''abc'' ''k1'') (demo_block ''xyz'' ''k2'')"
    unfolding demo_block_def
    by (intro same_but_secrets.lists list.rel_intros same_but_secrets.dicts) (simp_all add: hidden_key_def same_but_secrets.same)
  then show ?thesis using redaction_hides_secrets by blast
qed

end
