(* ===== verification/RunState.thy ===== *)
theory RunState
  imports MessageGraph ProviderReplay SubagentTypes
begin

section \<open>The run state\<close>

text \<open>
  \<open>kernel/state.py\<close>: the mutable state of one kernel run and its two writers,
  \<open>apply_delta\<close> for the messages and \<open>_apply_state_updates\<close> for everything else.
  Objects with attributes that are set by name (\<open>ProviderState\<close>, \<open>SessionState\<close>,
  \<open>SuspendState\<close>, \<open>TokenState\<close>) are dictionaries over exactly their declared attributes.
  A value of a state update is a plain value or one of the two state objects the code tests
  for; \<open>ToolCall\<close> and \<open>ModelTurnResult\<close> instances are plain \<open>PyObj\<close> values. An exception
  leaves the mutations made before it, so the operations return the outcome and the state.
  The run ledger is not touched by these operations and is not a field here.
  The lemmas: the state's latest version and the graph's agree after every operation,
  failing ones included; a delta without activations appends one version whose messages are
  the edits of its base; the component buckets always mirror the fields they are copied from.
\<close>

subsection \<open>State\<close>

record tool_batch_state =
  result_messages :: "pyval list"
  should_observe :: bool
  awaiting_human_input :: bool
  human_input_request :: pyval
  human_input_tool_call_id :: pyval
  executed_call_ids :: "string list"

definition empty_tool_batch :: tool_batch_state where
  "empty_tool_batch = \<lparr>result_messages = [], should_observe = False, awaiting_human_input = False,
     human_input_request = PyNone, human_input_tool_call_id = PyNone, executed_call_ids = []\<rparr>"

record run_state =
  transcript :: "pyval list"
  graph :: message_version_graph
  latest_version_id :: "string option"
  iteration :: int
  provider_state :: pydict
  token_state :: "int dict"
  session_state :: pydict
  suspend_state :: pydict
  pending_tool_calls :: "pyval list"
  last_model_turn :: pyval
  tool_batch :: tool_batch_state
  run_status :: string
  last_continuation :: pyval
  next_model_input :: "pyval list option"
  remote_continuation_input :: "pyval list option"
  memory_state :: pydict
  memory_prepare_info :: pydict
  memory_commit_info :: pydict
  artifacts :: "pyval list"
  workspace_change_state :: pydict
  optimizer_state :: pydict
  subagents :: subagent_state
  component_state :: pydict
  run_metadata :: pydict

definition default_token_state :: "int dict" where
  "default_token_state =
     [(''consumed_tokens'', 0), (''input_tokens'', 0), (''output_tokens'', 0),
      (''cache_read_input_tokens'', 0), (''cache_creation_input_tokens'', 0), (''last_turn_tokens'', 0),
      (''last_turn_input_tokens'', 0), (''last_turn_output_tokens'', 0),
      (''last_turn_cache_read_input_tokens'', 0), (''last_turn_cache_creation_input_tokens'', 0)]"

definition default_provider_state :: pydict where
  "default_provider_state =
     [(''provider'', PyNone), (''model'', PyNone), (''previous_response_id'', PyNone),
      (''use_previous_response_chain'', PyBool False), (''max_context_window_tokens'', PyInt 0)]"

definition default_session_state :: pydict where
  "default_session_state = [(''session_id'', PyNone), (''memory_namespace'', PyNone)]"

definition default_suspend_state :: pydict where
  "default_suspend_state = [(''signal_kind'', PyNone), (''payload'', PyDict [])]"

text \<open>The objects the component buckets hold copies of.\<close>

definition subagent_obj :: "subagent_state \<Rightarrow> pyval" where
  "subagent_obj s = PyObj ''SubagentState''
     [(''root_agent_id'', PyStr (root_agent_id s)), (''active_agent_id'', PyStr (active_agent_id s)),
      (''active_lineage'', str_list_value (active_lineage s)), (''handoff_stack'', PyList (handoff_stack s)),
      (''lineage_counters'', int_dict_value (lineage_counters s)), (''running_batches'', PyDict (running_batches s)),
      (''threads'', PyDict (threads s)), (''mailboxes'', box_dict_value (mailboxes s)),
      (''blackboards'', box_dict_value (blackboards s)), (''return_handoff_stack'', PyList (return_handoff_stack s)),
      (''blocked_clarifications'', PyList (blocked_clarifications s)), (''run_bundles'', PyDict (run_bundles s)),
      (''spawn_stats'', int_dict_value (spawn_stats s))]"

definition tool_batch_obj :: "tool_batch_state \<Rightarrow> pyval" where
  "tool_batch_obj b = PyObj ''ToolBatchState''
     [(''result_messages'', PyList (result_messages b)), (''should_observe'', PyBool (should_observe b)),
      (''awaiting_human_input'', PyBool (awaiting_human_input b)), (''human_input_request'', human_input_request b),
      (''human_input_tool_call_id'', human_input_tool_call_id b),
      (''executed_call_ids'', str_list_value (executed_call_ids b))]"

definition sync_all_component_state :: "run_state \<Rightarrow> run_state" where
  "sync_all_component_state s =
     (let c1 = dict_set ''optimizers'' (PyDict (optimizer_state s)) (component_state s);
          c2 = bucket_set ''memory'' ''state'' (PyDict (memory_state s)) c1;
          c3 = bucket_set ''memory'' ''prepare_info'' (PyDict (memory_prepare_info s)) c2;
          c4 = bucket_set ''memory'' ''commit_info'' (PyDict (memory_commit_info s)) c3;
          c5 = bucket_set ''tools'' ''tool_batch_state'' (tool_batch_obj (tool_batch s)) c4;
          c6 = bucket_set ''workspace_changes'' ''state'' (PyDict (workspace_change_state s)) c5;
          c7 = bucket_set ''subagents'' ''state'' (subagent_obj (subagents s)) c6
      in s\<lparr>component_state := c7\<rparr>)"

definition new_run_state :: run_state where
  "new_run_state = sync_all_component_state
     \<lparr>transcript = [], graph = empty_graph, latest_version_id = None, iteration = 0,
      provider_state = default_provider_state, token_state = default_token_state,
      session_state = default_session_state, suspend_state = default_suspend_state,
      pending_tool_calls = [], last_model_turn = PyNone, tool_batch = empty_tool_batch,
      run_status = ''idle'', last_continuation = PyNone, next_model_input = None,
      remote_continuation_input = None, memory_state = [], memory_prepare_info = [],
      memory_commit_info = [], artifacts = [], workspace_change_state = [], optimizer_state = [],
      subagents = empty_subagent_state, component_state = [], run_metadata = []\<rparr>"

subsection \<open>Messages\<close>

type_synonym 'a outcome = "(py_exc, 'a) res \<times> run_state"

definition seed_messages :: "string \<Rightarrow> pyval list \<Rightarrow> string option \<Rightarrow> pyval \<Rightarrow> run_state \<Rightarrow> string outcome" where
  "seed_messages uuid ms author meta s =
     (case create_version uuid (graph s) ms None author meta None of
        Inl e \<Rightarrow> (Inl e, s)
      | Inr (v, g) \<Rightarrow> (Inr (version_id v),
          s\<lparr>graph := g, latest_version_id := Some (version_id v), transcript := deepcopy_messages ms\<rparr>))"

definition latest_messages :: "run_state \<Rightarrow> (py_exc, pyval list) res" where
  "latest_messages s = (case latest_version_id s of None \<Rightarrow> Inr [] | Some v \<Rightarrow> get_messages (graph s) v)"

definition rebuild_working_version ::
  "string \<Rightarrow> pyval list \<Rightarrow> string option \<Rightarrow> pyval \<Rightarrow> run_state \<Rightarrow> string outcome" where
  "rebuild_working_version uuid ms author meta s =
     (case create_version uuid (graph s) ms (latest_version_id s) author meta None of
        Inl e \<Rightarrow> (Inl e, s)
      | Inr (v, g) \<Rightarrow> (Inr (version_id v), s\<lparr>graph := g, latest_version_id := Some (version_id v)\<rparr>))"

definition rebuild_working_version_from_transcript ::
  "string \<Rightarrow> string option \<Rightarrow> pyval \<Rightarrow> run_state \<Rightarrow> string outcome" where
  "rebuild_working_version_from_transcript uuid author meta s =
     rebuild_working_version uuid (transcript s) author meta s"

definition nonempty_opt :: "string option \<Rightarrow> string option" where
  "nonempty_opt v = (case v of Some [] \<Rightarrow> None | _ \<Rightarrow> v)"

definition opt_or :: "string option \<Rightarrow> string option \<Rightarrow> string option" where
  "opt_or a b = (case nonempty_opt a of None \<Rightarrow> b | Some v \<Rightarrow> Some v)"

definition view_messages :: "run_state \<Rightarrow> string option \<Rightarrow> (py_exc, pyval list) res" where
  "view_messages s vid =
     (case opt_or vid (latest_version_id s) of None \<Rightarrow> Inr [] | Some v \<Rightarrow> get_messages (graph s) v)"

text \<open>\<open>max(lo, min(i, n))\<close> for a length \<open>n\<close>\<close>

definition clamp :: "int \<Rightarrow> int \<Rightarrow> nat \<Rightarrow> nat" where
  "clamp lo i n = nat (max lo (min i (int n)))"

fun edit_messages :: "message_list_op \<Rightarrow> pyval list \<Rightarrow> pyval list" where
  "edit_messages (AppendMessagesOp ms) ws = ws @ deepcopy_messages ms"
| "edit_messages (InsertMessagesOp i ms) ws =
     (let k = clamp 0 i (length ws) in take k ws @ deepcopy_messages ms @ drop k ws)"
| "edit_messages (ReplaceSpanOp a b ms) ws =
     (let start = clamp 0 a (length ws); stop = clamp (int start) b (length ws)
      in take start ws @ deepcopy_messages ms @ drop stop ws)"
| "edit_messages (DeleteSpanOp a b) ws =
     (let start = clamp 0 a (length ws); stop = clamp (int start) b (length ws)
      in take start ws @ drop stop ws)"
| "edit_messages (ActivateVersionOp v) ws = ws"

fun apply_ops :: "message_list_op list \<Rightarrow> run_state \<Rightarrow> pyval list \<Rightarrow> (pyval list) outcome" where
  "apply_ops [] s ws = (Inr ws, s)"
| "apply_ops (ActivateVersionOp v # rest) s ws =
     (case activate (graph s) v of
        Inl e \<Rightarrow> (Inl e, s)
      | Inr (_, g) \<Rightarrow>
          let s' = s\<lparr>graph := g, latest_version_id := Some v\<rparr> in
          (case view_messages s' (Some v) of
             Inl e \<Rightarrow> (Inl e, s')
           | Inr ws' \<Rightarrow> apply_ops rest s' ws'))"
| "apply_ops (op # rest) s ws = apply_ops rest s (edit_messages op ws)"

fun is_activate :: "message_list_op \<Rightarrow> bool" where
  "is_activate (ActivateVersionOp _) = True"
| "is_activate _ = False"

fun op_name :: "message_list_op \<Rightarrow> string" where
  "op_name (AppendMessagesOp _) = ''AppendMessagesOp''"
| "op_name (InsertMessagesOp _ _) = ''InsertMessagesOp''"
| "op_name (ReplaceSpanOp _ _ _) = ''ReplaceSpanOp''"
| "op_name (DeleteSpanOp _ _) = ''DeleteSpanOp''"
| "op_name (ActivateVersionOp _) = ''ActivateVersionOp''"

subsection \<open>State updates\<close>

datatype update_value = UVal pyval | USubagent subagent_state | UToolBatch tool_batch_state

fun upd_value :: "update_value \<Rightarrow> pyval" where
  "upd_value (UVal v) = v"
| "upd_value (USubagent s) = subagent_obj s"
| "upd_value (UToolBatch b) = tool_batch_obj b"

type_synonym updated = "py_exc option \<times> run_state"

definition list_messages :: "pyval \<Rightarrow> pyval list" where
  "list_messages v = (case v of PyList xs \<Rightarrow> deepcopy_messages xs | _ \<Rightarrow> [])"

definition not_iterable :: "pyval \<Rightarrow> py_exc" where
  "not_iterable v = TypeExc (repr_str (type_name v) @ '' object is not iterable'')"

text \<open>\<open>for item in (v or [])\<close>: a text gives its characters, a dictionary its keys.\<close>

definition iter_or_empty :: "pyval \<Rightarrow> (py_exc, pyval list) res" where
  "iter_or_empty v =
     (if \<not> truthy v then Inr []
      else case v of
        PyList xs \<Rightarrow> Inr xs
      | PyDict d \<Rightarrow> Inr (map (\<lambda>p. PyStr (fst p)) d)
      | PyStr s \<Rightarrow> Inr (map (\<lambda>c. PyStr [c]) s)
      | _ \<Rightarrow> Inl (not_iterable v))"

definition update_iteration :: "pyval \<Rightarrow> run_state \<Rightarrow> updated" where
  "update_iteration v s = (case py_int v of Inl e \<Rightarrow> (Some e, s) | Inr i \<Rightarrow> (None, s\<lparr>iteration := i\<rparr>))"

definition optimizer_value :: "pyval \<Rightarrow> pyval" where
  "optimizer_value v = (if is_dict v then v else PyDict [(''value'', v)])"

definition update_optimizer_state :: "pydict \<Rightarrow> run_state \<Rightarrow> run_state" where
  "update_optimizer_state d s =
     (let o' = dict_update (optimizer_state s) (map (\<lambda>p. (fst p, optimizer_value (snd p))) d)
      in s\<lparr>optimizer_state := o',
           component_state := dict_set ''optimizers'' (PyDict o') (component_state s)\<rparr>)"

definition update_subagent_state ::
  "(rat \<Rightarrow> string) \<Rightarrow> bundle_parser \<Rightarrow> update_value \<Rightarrow> run_state \<Rightarrow> updated" where
  "update_subagent_state fr rb u s =
     (case (case u of USubagent t \<Rightarrow> Inr t | _ \<Rightarrow> merged fr rb (subagents s) (RawValue (upd_value u))) of
        Inl e \<Rightarrow> (Some e, s)
      | Inr t \<Rightarrow> (None, s\<lparr>subagents := t,
          component_state := bucket_set ''subagents'' ''state'' (subagent_obj t) (component_state s)\<rparr>))"

definition update_workspace_changes :: "pyval \<Rightarrow> run_state \<Rightarrow> run_state" where
  "update_workspace_changes v s =
     s\<lparr>workspace_change_state := dict_or_empty v,
       component_state := bucket_set ''workspace_changes'' ''state'' (PyDict (dict_or_empty v)) (component_state s)\<rparr>"

definition update_memory_state :: "pydict \<Rightarrow> run_state \<Rightarrow> run_state" where
  "update_memory_state d s =
     (let m = dict_update (memory_state s) d in
      s\<lparr>memory_state := m, component_state := bucket_set ''memory'' ''state'' (PyDict m) (component_state s)\<rparr>)"

definition update_memory_prepare_info :: "pydict \<Rightarrow> run_state \<Rightarrow> run_state" where
  "update_memory_prepare_info d s =
     (let m = dict_update (memory_prepare_info s) d in
      s\<lparr>memory_prepare_info := m,
        component_state := bucket_set ''memory'' ''prepare_info'' (PyDict m) (component_state s)\<rparr>)"

definition update_memory_commit_info :: "pydict \<Rightarrow> run_state \<Rightarrow> run_state" where
  "update_memory_commit_info d s =
     (let m = dict_update (memory_commit_info s) d in
      s\<lparr>memory_commit_info := m,
        component_state := bucket_set ''memory'' ''commit_info'' (PyDict m) (component_state s)\<rparr>)"

definition read_tool_batch :: "pydict \<Rightarrow> tool_batch_state \<Rightarrow> (py_exc, tool_batch_state) res" where
  "read_tool_batch d b =
     bindr (if dict_get d ''result_messages'' = None then Inr (result_messages b)
            else bindr (iter_or_empty (dget d ''result_messages'')) (\<lambda>xs. Inr (deepcopy_messages xs))) (\<lambda>ms.
     bindr (if dict_get d ''executed_call_ids'' = None then Inr (executed_call_ids b)
            else bindr (iter_or_empty (dget d ''executed_call_ids'')) (\<lambda>xs. Inr (strings_of (PyList xs)))) (\<lambda>ids.
     Inr \<lparr>result_messages = ms,
          should_observe = (if dict_get d ''should_observe'' = None then should_observe b
                            else truthy (dget d ''should_observe'')),
          awaiting_human_input = (if dict_get d ''awaiting_human_input'' = None then awaiting_human_input b
                                  else truthy (dget d ''awaiting_human_input'')),
          human_input_request = (if dict_get d ''human_input_request'' = None then human_input_request b
                                 else dget d ''human_input_request''),
          human_input_tool_call_id = (if dict_get d ''human_input_tool_call_id'' = None
                                      then human_input_tool_call_id b else dget d ''human_input_tool_call_id''),
          executed_call_ids = ids\<rparr>))"

definition update_tool_batch_state :: "update_value \<Rightarrow> run_state \<Rightarrow> updated" where
  "update_tool_batch_state u s =
     (case (case u of
              UToolBatch b \<Rightarrow> Inr b
            | UVal (PyDict d) \<Rightarrow> read_tool_batch d (tool_batch s)
            | _ \<Rightarrow> Inr empty_tool_batch) of
        Inl e \<Rightarrow> (Some e, s)
      | Inr b \<Rightarrow> (None, s\<lparr>tool_batch := b,
          component_state := bucket_set ''tools'' ''tool_batch_state'' (tool_batch_obj b) (component_state s)\<rparr>))"

text \<open>\<open>setattr\<close> for every item whose name is an attribute of the object.\<close>

definition set_attrs :: "pydict \<Rightarrow> pydict \<Rightarrow> pydict" where
  "set_attrs d obj = fold (\<lambda>(k, v) o'. if dict_get o' k = None then o' else dict_set k v o') d obj"

fun update_token_state :: "pydict \<Rightarrow> run_state \<Rightarrow> updated" where
  "update_token_state [] s = (None, s)"
| "update_token_state ((k, v) # rest) s =
     (if dict_get (token_state s) k = None then update_token_state rest s
      else case py_int v of
        Inl e \<Rightarrow> (Some e, s)
      | Inr i \<Rightarrow> update_token_state rest (s\<lparr>token_state := dict_set k i (token_state s)\<rparr>))"

definition component_result :: "(py_exc, pydict) res \<Rightarrow> run_state \<Rightarrow> updated" where
  "component_result r s = (case r of Inl e \<Rightarrow> (Some e, s) | Inr c \<Rightarrow> (None, s\<lparr>component_state := c\<rparr>))"

definition none_if_empty :: "'a list \<Rightarrow> 'a list option" where
  "none_if_empty xs = (if xs = [] then None else Some xs)"

definition apply_state_update ::
  "(rat \<Rightarrow> string) \<Rightarrow> bundle_parser \<Rightarrow> string \<Rightarrow> update_value \<Rightarrow> run_state \<Rightarrow> updated" where
  "apply_state_update fr rb key u s =
     (let v = upd_value u; d = dict_or_empty v in
      if key = ''iteration'' then update_iteration v s
      else if key = ''transcript'' then (None, s\<lparr>transcript := list_messages v\<rparr>)
      else if key = ''transcript_append'' then (None, s\<lparr>transcript := transcript s @ list_messages v\<rparr>)
      else if key = ''artifacts'' then (None, s\<lparr>artifacts := items_of v\<rparr>)
      else if key = ''workspace_change_state'' then (None, update_workspace_changes v s)
      else if key = ''optimizer_state'' \<and> is_dict v then (None, update_optimizer_state d s)
      else if key = ''subagent_state'' then update_subagent_state fr rb u s
      else if key = ''memory_state'' \<and> is_dict v then (None, update_memory_state d s)
      else if key = ''memory_prepare_info'' \<and> is_dict v then (None, update_memory_prepare_info d s)
      else if key = ''memory_commit_info'' \<and> is_dict v then (None, update_memory_commit_info d s)
      else if key = ''pending_tool_calls'' then (None, s\<lparr>pending_tool_calls := items_of v\<rparr>)
      else if key = ''last_model_turn'' then (None, s\<lparr>last_model_turn := v\<rparr>)
      else if key = ''tool_batch_state'' then update_tool_batch_state u s
      else if key = ''run_status'' then (None, s\<lparr>run_status := str_or fr v ''idle''\<rparr>)
      else if key = ''last_continuation'' then (None, s\<lparr>last_continuation := (if is_dict v then v else PyNone)\<rparr>)
      else if key = ''next_model_input'' then (None, s\<lparr>next_model_input := none_if_empty (list_messages v)\<rparr>)
      else if key = ''remote_continuation_input''
        then (None, s\<lparr>remote_continuation_input := none_if_empty (list_messages v)\<rparr>)
      else if key = ''provider_state'' \<and> is_dict v then (None, s\<lparr>provider_state := set_attrs d (provider_state s)\<rparr>)
      else if key = ''provider_replay_frame'' \<and> is_dict v
        then component_result (set_provider_replay_frame (component_state s) v) s
      else if key = ''provider_replay_append'' \<and> is_list v
        then component_result (append_provider_replay_items (component_state s) (items_of v)) s
      else if key = ''token_state'' \<and> is_dict v then update_token_state d s
      else if key = ''session_state'' \<and> is_dict v then (None, s\<lparr>session_state := set_attrs d (session_state s)\<rparr>)
      else if key = ''suspend_state'' \<and> is_dict v then (None, s\<lparr>suspend_state := set_attrs d (suspend_state s)\<rparr>)
      else (None, s\<lparr>run_metadata := dict_set key v (run_metadata s)\<rparr>))"

fun apply_state_updates ::
  "(rat \<Rightarrow> string) \<Rightarrow> bundle_parser \<Rightarrow> update_value dict \<Rightarrow> run_state \<Rightarrow> updated" where
  "apply_state_updates fr rb [] s = (None, s)"
| "apply_state_updates fr rb ((key, u) # rest) s =
     (case apply_state_update fr rb key u s of
        (Some e, s') \<Rightarrow> (Some e, s')
      | (None, s') \<Rightarrow> apply_state_updates fr rb rest s')"

definition set_suspend :: "string \<Rightarrow> pyval \<Rightarrow> run_state \<Rightarrow> run_state" where
  "set_suspend sig pl s =
     s\<lparr>suspend_state := dict_set ''payload'' pl (dict_set ''signal_kind'' (PyStr sig) (suspend_state s))\<rparr>"

definition delta_metadata :: "string option \<Rightarrow> string option \<Rightarrow> 'u harness_delta \<Rightarrow> pyval" where
  "delta_metadata requested applied delta = PyDict
     [(''requested_base_version_id'', opt_str_value requested),
      (''applied_base_version_id'', opt_str_value applied),
      (''op_types'', str_list_value (map op_name (filter (\<lambda>op. \<not> is_activate op) (ops delta)))),
      (''trace'', PyDict (trace delta))]"

definition finish_delta ::
  "(rat \<Rightarrow> string) \<Rightarrow> bundle_parser \<Rightarrow> update_value harness_delta \<Rightarrow> string option \<Rightarrow> run_state \<Rightarrow> (string option) outcome" where
  "finish_delta fr rb delta vid s =
     (case apply_state_updates fr rb (state_updates delta) s of
        (Some e, s') \<Rightarrow> (Inl e, s')
      | (None, s') \<Rightarrow> (Inr vid,
          case suspend delta of None \<Rightarrow> s' | Some sig \<Rightarrow> set_suspend (kind sig) (payload sig) s'))"

definition apply_delta ::
  "(rat \<Rightarrow> string) \<Rightarrow> bundle_parser \<Rightarrow> string \<Rightarrow> update_value harness_delta \<Rightarrow> run_state \<Rightarrow> (string option) outcome" where
  "apply_delta fr rb uuid delta s =
     (let requested = opt_or (base_version_id delta) (latest_version_id s);
          applied = (if rebase_to_latest delta \<and> latest_version_id s \<noteq> None then latest_version_id s else requested) in
      if requested = None \<and> ops delta \<noteq> []
      then (Inl (ValueExc ''cannot apply a message delta before seeding a base version''), s)
      else case view_messages s applied of
        Inl e \<Rightarrow> (Inl e, s)
      | Inr ws \<Rightarrow>
          (case apply_ops (ops delta) s ws of
             (Inl e, s1) \<Rightarrow> (Inl e, s1)
           | (Inr ws1, s1) \<Rightarrow>
               if filter (\<lambda>op. \<not> is_activate op) (ops delta) = []
               then finish_delta fr rb delta (latest_version_id s1) s1
               else
                 (case create_version uuid (graph s1) ws1 applied (Some (delta_created_by delta))
                         (delta_metadata requested applied delta) None of
                    Inl e \<Rightarrow> (Inl e, s1)
                  | Inr (v, g) \<Rightarrow>
                      finish_delta fr rb delta (Some (version_id v))
                        (s1\<lparr>graph := g, latest_version_id := Some (version_id v)\<rparr>))))"

subsection \<open>Frame and mirror lemmas\<close>

lemma bucket_get_set [simp]:
  "vget (dget (bucket_set n k v c) n') k' =
     (if n' = n \<and> k' = k then v else vget (dget c n') k')"
  by (cases "dget c n") (auto simp: bucket_set_def component_bucket_def dget_def)

lemma dget_bucket_set_other [simp]: "n' \<noteq> n \<Longrightarrow> dget (bucket_set n k v c) n' = dget c n'"
  by (simp add: bucket_set_def dget_def)

text \<open>The component buckets hold the current value of every mirrored field.\<close>

definition mirrored :: "run_state \<Rightarrow> bool" where
  "mirrored s \<longleftrightarrow>
     dget (component_state s) ''optimizers'' = PyDict (optimizer_state s) \<and>
     vget (dget (component_state s) ''memory'') ''state'' = PyDict (memory_state s) \<and>
     vget (dget (component_state s) ''memory'') ''prepare_info'' = PyDict (memory_prepare_info s) \<and>
     vget (dget (component_state s) ''memory'') ''commit_info'' = PyDict (memory_commit_info s) \<and>
     vget (dget (component_state s) ''tools'') ''tool_batch_state'' = tool_batch_obj (tool_batch s) \<and>
     vget (dget (component_state s) ''workspace_changes'') ''state'' = PyDict (workspace_change_state s) \<and>
     vget (dget (component_state s) ''subagents'') ''state'' = subagent_obj (subagents s)"

definition same_versions :: "run_state \<Rightarrow> run_state \<Rightarrow> bool" where
  "same_versions s t \<longleftrightarrow> graph t = graph s \<and> latest_version_id t = latest_version_id s"

lemma same_versions_refl [simp]: "same_versions s s"
  by (simp add: same_versions_def)

lemma sync_mirrored: "mirrored (sync_all_component_state s)"
  by (simp add: mirrored_def sync_all_component_state_def Let_def)

lemma new_run_state_mirrored: "mirrored new_run_state"
  by (simp add: new_run_state_def sync_mirrored)

lemma replay_component_mirrored:
  "\<lbrakk>mirrored s; set_provider_replay_frame (component_state s) v = Inr c\<rbrakk> \<Longrightarrow> mirrored (s\<lparr>component_state := c\<rparr>)"
  by (auto simp: set_provider_replay_frame_def bindr_eq_Inr mirrored_def)

lemma append_component_mirrored:
  assumes "mirrored s" "append_provider_replay_items (component_state s) xs = Inr c"
  shows "mirrored (s\<lparr>component_state := c\<rparr>)"
proof -
  consider "c = component_state s" | v where "set_provider_replay_frame (component_state s) v = Inr c"
    using assms(2) by (auto simp: append_provider_replay_items_def bindr_eq_Inr split: option.splits)
  then show ?thesis using assms(1) by cases (simp_all add: replay_component_mirrored)
qed

lemma update_token_state_frame:
  "mirrored (snd (update_token_state d s)) = mirrored s \<and> same_versions s (snd (update_token_state d s))"
  by (induction d s rule: update_token_state.induct)
    (auto simp: mirrored_def same_versions_def split: sum.splits)

lemma component_result_frame:
  "\<lbrakk>mirrored s; \<And>c. r = Inr c \<Longrightarrow> mirrored (s\<lparr>component_state := c\<rparr>)\<rbrakk> \<Longrightarrow> mirrored (snd (component_result r s))"
  "same_versions s (snd (component_result r s))"
  by (auto simp: component_result_def same_versions_def split: sum.splits)

lemma update_frame:
  "same_versions s (snd (update_iteration v s))"
  "same_versions s (update_workspace_changes v s)"
  "same_versions s (update_optimizer_state d s)"
  "same_versions s (snd (update_subagent_state fr rb u s))"
  "same_versions s (update_memory_state d s)"
  "same_versions s (update_memory_prepare_info d s)"
  "same_versions s (update_memory_commit_info d s)"
  "same_versions s (snd (update_tool_batch_state u s))"
  by (auto simp: same_versions_def update_iteration_def update_workspace_changes_def
      update_optimizer_state_def update_subagent_state_def update_memory_state_def
      update_memory_prepare_info_def update_memory_commit_info_def update_tool_batch_state_def Let_def
      split: sum.splits)

lemma update_mirrored:
  assumes "mirrored s"
  shows "mirrored (snd (update_iteration v s))"
    "mirrored (update_workspace_changes v s)"
    "mirrored (update_optimizer_state d s)"
    "mirrored (snd (update_subagent_state fr rb u s))"
    "mirrored (update_memory_state d s)"
    "mirrored (update_memory_prepare_info d s)"
    "mirrored (update_memory_commit_info d s)"
    "mirrored (snd (update_tool_batch_state u s))"
  using assms
  by (auto simp: mirrored_def update_iteration_def update_workspace_changes_def
      update_optimizer_state_def update_subagent_state_def update_memory_state_def
      update_memory_prepare_info_def update_memory_commit_info_def update_tool_batch_state_def Let_def
      split: sum.splits)

lemma apply_state_update_frame: "same_versions s (snd (apply_state_update fr rb key u s))"
  unfolding apply_state_update_def Let_def
  by (simp add: update_frame component_result_frame(2) update_token_state_frame)
    (simp add: same_versions_def)

lemma field_update_mirrored [simp]:
  "mirrored (s\<lparr>transcript := t\<rparr>) = mirrored s"
  "mirrored (s\<lparr>artifacts := x\<rparr>) = mirrored s"
  "mirrored (s\<lparr>pending_tool_calls := x\<rparr>) = mirrored s"
  "mirrored (s\<lparr>last_model_turn := m\<rparr>) = mirrored s"
  "mirrored (s\<lparr>run_status := r\<rparr>) = mirrored s"
  "mirrored (s\<lparr>last_continuation := m\<rparr>) = mirrored s"
  "mirrored (s\<lparr>next_model_input := i\<rparr>) = mirrored s"
  "mirrored (s\<lparr>remote_continuation_input := i\<rparr>) = mirrored s"
  "mirrored (s\<lparr>provider_state := d\<rparr>) = mirrored s"
  "mirrored (s\<lparr>session_state := d\<rparr>) = mirrored s"
  "mirrored (s\<lparr>suspend_state := d\<rparr>) = mirrored s"
  "mirrored (s\<lparr>run_metadata := d\<rparr>) = mirrored s"
  "mirrored (s\<lparr>graph := g\<rparr>) = mirrored s"
  "mirrored (s\<lparr>latest_version_id := l\<rparr>) = mirrored s"
  by (simp_all add: mirrored_def)

lemma apply_state_update_mirrored:
  assumes "mirrored s"
  shows "mirrored (snd (apply_state_update fr rb key u s))"
  unfolding apply_state_update_def Let_def
  using assms update_mirrored [OF assms] component_result_frame(1) [OF assms]
    replay_component_mirrored [OF assms] append_component_mirrored [OF assms]
  by (simp add: update_token_state_frame)

lemma apply_state_updates_frame:
  "same_versions s (snd (apply_state_updates fr rb us s))"
proof (induction fr rb us s rule: apply_state_updates.induct)
  case (2 fr rb key u rest s)
  then show ?case
    using apply_state_update_frame [of s fr rb key u]
    by (cases "apply_state_update fr rb key u s") (auto simp: same_versions_def split: option.splits)
qed simp

lemma apply_state_updates_mirrored:
  "mirrored s \<Longrightarrow> mirrored (snd (apply_state_updates fr rb us s))"
proof (induction fr rb us s rule: apply_state_updates.induct)
  case (2 fr rb key u rest s)
  then show ?case
    using apply_state_update_mirrored [of s fr rb key u]
    by (cases "apply_state_update fr rb key u s") (auto split: option.splits)
qed simp

subsection \<open>The run invariant\<close>

definition run_inv :: "run_state \<Rightarrow> bool" where
  "run_inv s \<longleftrightarrow> graph_inv (graph s) \<and> latest_version_id s = graph_latest (graph s)"

definition fresh_uuid :: "string \<Rightarrow> run_state \<Rightarrow> bool" where
  "fresh_uuid uuid s \<longleftrightarrow> ''kv_'' @ uuid \<notin> set (version_ids (graph s))"

text \<open>What every operation keeps: the invariant, the mirrors, and all versions so far.\<close>

definition advances :: "run_state \<Rightarrow> run_state \<Rightarrow> bool" where
  "advances s t \<longleftrightarrow> run_inv t \<and> (mirrored s \<longrightarrow> mirrored t) \<and> prefix (versions (graph s)) (versions (graph t))"

lemma new_version_id_None [simp]: "new_version_id uuid None = ''kv_'' @ uuid"
  by (simp add: new_version_id_def)

lemma same_versions_advances:
  "\<lbrakk>run_inv s; same_versions s t; mirrored s \<longrightarrow> mirrored t\<rbrakk> \<Longrightarrow> advances s t"
  by (simp add: advances_def run_inv_def same_versions_def)

lemma advances_trans: "\<lbrakk>advances s t; advances t u\<rbrakk> \<Longrightarrow> advances s u"
  unfolding advances_def using prefix_order.trans by blast

lemma create_advances:
  assumes "create_version uuid (graph s) ms parent author meta None = Inr (v, g)" "run_inv s" "fresh_uuid uuid s"
  shows "advances s (s\<lparr>graph := g, latest_version_id := Some (version_id v)\<rparr>)"
  using create_version_inv [OF assms(1)] assms(2,3)
  by (simp add: advances_def run_inv_def fresh_uuid_def)

lemma apply_ops_advances:
  "\<lbrakk>apply_ops os s ws = (r, t); run_inv s\<rbrakk> \<Longrightarrow>
   run_inv t \<and> (mirrored t = mirrored s) \<and> versions (graph t) = versions (graph s)"
proof (induction os s ws arbitrary: r t rule: apply_ops.induct)
  case (2 v rest s ws)
  show ?case
  proof (cases "activate (graph s) v")
    case (Inl e)
    then show ?thesis using 2 by simp
  next
    case (Inr p)
    obtain w g where p: "p = (w, g)" by (cases p)
    let ?s = "s\<lparr>graph := g, latest_version_id := Some v\<rparr>"
    have inv: "run_inv ?s" "versions g = versions (graph s)"
      using activate_inv [of "graph s" v w g] Inr "2.prems"(2) by (simp_all add: p run_inv_def)
    show ?thesis
    proof (cases "view_messages ?s (Some v)")
      case (Inl e)
      then show ?thesis using "2.prems" Inr p inv by (auto simp: Let_def)
    next
      case ws: (Inr ws')
      then show ?thesis
        using "2.prems" "2.IH" [OF Inr p [symmetric] refl ws _ inv(1)] Inr p inv(2) by (simp add: Let_def)
    qed
  qed
qed auto

lemma finish_delta_frame:
  assumes "finish_delta fr rb delta vid s = (r, t)"
  shows "same_versions s t \<and> (r = Inr vid \<or> (\<exists>e. r = Inl e))"
  using assms apply_state_updates_frame [of s fr rb "state_updates delta"]
  by (cases "apply_state_updates fr rb (state_updates delta) s")
    (auto simp: finish_delta_def set_suspend_def same_versions_def split: option.splits)

lemma finish_delta_advances:
  assumes "finish_delta fr rb delta vid s = (r, t)" "run_inv s"
  shows "advances s t"
proof -
  obtain e u where u: "apply_state_updates fr rb (state_updates delta) s = (e, u)" by force
  have su: "same_versions s u" using apply_state_updates_frame [of s fr rb "state_updates delta"] u by simp
  have mu: "mirrored s \<longrightarrow> mirrored u"
    using apply_state_updates_mirrored [of s fr rb "state_updates delta"] u by simp
  have "same_versions u t \<and> mirrored t = mirrored u"
    using assms(1) u
    by (auto simp: finish_delta_def set_suspend_def same_versions_def split: option.splits)
  then show ?thesis
    using su mu assms(2) by (auto simp: same_versions_def intro!: same_versions_advances)
qed

lemma apply_delta_advances:
  assumes "apply_delta fr rb uuid delta s = (r, t)" "run_inv s" "fresh_uuid uuid s"
  shows "advances s t"
proof -
  let ?requested = "opt_or (base_version_id delta) (latest_version_id s)"
  let ?applied = "if rebase_to_latest delta \<and> latest_version_id s \<noteq> None then latest_version_id s else ?requested"
  have self: "advances s s" using assms(2) by (simp add: advances_def)
  show ?thesis
  proof (cases "view_messages s ?applied")
    case (Inl e)
    then show ?thesis using assms(1) self by (auto simp: apply_delta_def Let_def split: if_splits)
  next
    case (Inr ws)
    obtain r1 s1 where ops: "apply_ops (ops delta) s ws = (r1, s1)" by force
    have s1: "run_inv s1" "mirrored s1 = mirrored s" "versions (graph s1) = versions (graph s)"
      using apply_ops_advances [OF ops assms(2)] by auto
    then have a1: "advances s s1" "fresh_uuid uuid s1"
      using assms(3) by (simp_all add: advances_def fresh_uuid_def version_ids_def)
    consider "t = s" | "t = s1" | vid where "finish_delta fr rb delta vid s1 = (r, t)"
      | v g where "create_version uuid (graph s1) (projr r1) ?applied (Some (delta_created_by delta))
            (delta_metadata ?requested ?applied delta) None = Inr (v, g)"
          "finish_delta fr rb delta (Some (version_id v))
             (s1\<lparr>graph := g, latest_version_id := Some (version_id v)\<rparr>) = (r, t)"
      using assms(1) Inr ops
      unfolding apply_delta_def Let_def by (auto split: if_splits sum.splits prod.splits)
    then show ?thesis
    proof cases
      case 3
      then show ?thesis using finish_delta_advances s1(1) a1(1) advances_trans by blast
    next
      case 4
      have c: "advances s1 (s1\<lparr>graph := g, latest_version_id := Some (version_id v)\<rparr>)"
        by (rule create_advances [OF 4(1) s1(1) a1(2)])
      then show ?thesis
        using finish_delta_advances [OF 4(2)] a1(1) advances_trans unfolding advances_def by blast
    qed (use self a1 in auto)
  qed
qed

subsection \<open>Properties of a run\<close>

inductive run_step :: "(rat \<Rightarrow> string) \<Rightarrow> bundle_parser \<Rightarrow> run_state \<Rightarrow> run_state \<Rightarrow> bool"
  for fr rb where
  seeded: "\<lbrakk>seed_messages uuid ms author meta s = (r, t); fresh_uuid uuid s\<rbrakk> \<Longrightarrow> run_step fr rb s t"
| rebuilt: "\<lbrakk>rebuild_working_version uuid ms author meta s = (r, t); fresh_uuid uuid s\<rbrakk> \<Longrightarrow> run_step fr rb s t"
| delta: "\<lbrakk>apply_delta fr rb uuid d s = (r, t); fresh_uuid uuid s\<rbrakk> \<Longrightarrow> run_step fr rb s t"
| updates: "apply_state_updates fr rb us s = (e, t) \<Longrightarrow> run_step fr rb s t"

lemma run_step_advances:
  assumes "run_step fr rb s t" "run_inv s"
  shows "advances s t"
  using assms
proof (cases rule: run_step.cases)
  case (seeded uuid ms author meta r)
  show ?thesis
  proof (cases "create_version uuid (graph s) ms None author meta None")
    case (Inl e)
    then show ?thesis using seeded assms(2) by (simp add: seed_messages_def advances_def)
  next
    case (Inr p)
    then obtain v g where "create_version uuid (graph s) ms None author meta None = Inr (v, g)" by (cases p) auto
    then show ?thesis
      using create_advances [of uuid s ms None author meta v g] seeded assms(2)
      by (auto simp: seed_messages_def advances_def run_inv_def)
  qed
next
  case (rebuilt uuid ms author meta r)
  show ?thesis
  proof (cases "create_version uuid (graph s) ms (latest_version_id s) author meta None")
    case (Inl e)
    then show ?thesis using rebuilt assms(2) by (simp add: rebuild_working_version_def advances_def)
  next
    case (Inr p)
    then obtain v g where "create_version uuid (graph s) ms (latest_version_id s) author meta None = Inr (v, g)"
      by (cases p) auto
    then show ?thesis
      using create_advances [of uuid s ms _ author meta v g] rebuilt assms(2)
      by (simp add: rebuild_working_version_def)
  qed
next
  case (delta uuid d r)
  then show ?thesis using apply_delta_advances assms(2) by blast
next
  case (updates us e)
  then show ?thesis
    using apply_state_updates_frame [of s fr rb us] apply_state_updates_mirrored [of s fr rb us] assms(2)
    by (auto intro: same_versions_advances)
qed

text \<open>
  C25: through every sequence of seeds, rebuilds, deltas and state updates, failing ones
  included, the run keeps one latest version (the state's and the graph's agree and it exists as
  soon as there is any version), the version graph stays well formed and append-only, and
  every component bucket mirrors its field.
\<close>
theorem run_state_invariant:
  assumes "(run_step fr rb)\<^sup>*\<^sup>* s t" "run_inv s" "mirrored s"
  shows "run_inv t \<and> mirrored t \<and> prefix (versions (graph s)) (versions (graph t))"
proof -
  have "run_inv t \<and> advances s t"
    using assms(1)
  proof (induction rule: rtranclp_induct)
    case base
    then show ?case using assms(2) by (simp add: advances_def)
  next
    case (step u v)
    then have "advances u v" using run_step_advances by blast
    then show ?case using step.IH advances_trans unfolding advances_def by blast
  qed
  then show ?thesis using assms(3) by (simp add: advances_def)
qed

lemma new_run_state_inv: "run_inv new_run_state"
  by (simp add: run_inv_def new_run_state_def sync_all_component_state_def Let_def empty_graph_inv)
    (simp add: empty_graph_def)

definition demo_run :: run_state where
  "demo_run = snd (seed_messages ''1'' [PyDict [(''role'', PyStr ''user'')]] (Some ''seed'') PyNone new_run_state)"

lemma demo_run_step: "run_step (\<lambda>q. []) demo_rb new_run_state demo_run"
  by (rule run_step.seeded [of "''1''" "[PyDict [(''role'', PyStr ''user'')]]" "Some ''seed''" PyNone _
        "fst (seed_messages ''1'' [PyDict [(''role'', PyStr ''user'')]] (Some ''seed'') PyNone new_run_state)"])
    (simp_all add: demo_run_def fresh_uuid_def version_ids_def new_run_state_def
      sync_all_component_state_def Let_def empty_graph_def)

theorem run_state_invariant_witness:
  "(run_step (\<lambda>q. []) demo_rb)\<^sup>*\<^sup>* new_run_state demo_run \<and> run_inv demo_run \<and> mirrored demo_run \<and>
   latest_version_id demo_run = Some ''kv_1''"
proof -
  have "latest_version_id demo_run = Some ''kv_1''" by code_simp
  then show ?thesis
    using run_state_invariant [OF r_into_rtranclp [of "run_step (\<lambda>q. []) demo_rb", OF demo_run_step]
        new_run_state_inv new_run_state_mirrored] demo_run_step by auto
qed

subsection \<open>What a message delta does\<close>

lemma edit_messages_dicts:
  "\<forall>m \<in> set ws. is_dict m \<Longrightarrow> \<forall>m \<in> set (edit_messages op ws). is_dict m"
  by (cases op) (auto simp: Let_def dest: in_set_takeD in_set_dropD)

lemma fold_edit_dicts:
  "\<forall>m \<in> set ws. is_dict m \<Longrightarrow> \<forall>m \<in> set (fold edit_messages os ws). is_dict m"
proof (induction os arbitrary: ws)
  case (Cons op os)
  then show ?case using Cons.IH [OF edit_messages_dicts [OF Cons.prems]] by simp
qed simp

lemma apply_ops_edits:
  "\<forall>op \<in> set os. \<not> is_activate op \<Longrightarrow> apply_ops os s ws = (Inr (fold edit_messages os ws), s)"
proof (induction os arbitrary: ws)
  case (Cons op os)
  then show ?case by (cases op) (simp_all del: edit_messages.simps)
qed simp

lemma view_messages_known:
  assumes "run_inv s" "dict_get (versions (graph s)) b = Some bv"
  shows "view_messages s (Some b) = Inr (messages bv)"
proof -
  have "\<forall>m \<in> set (messages bv). is_dict m"
    using assms(1) map_of_SomeD [OF assms(2)] by (auto simp: run_inv_def graph_inv_def)
  moreover have "b \<noteq> []" using assms graph_inv_key by (auto simp: run_inv_def)
  then obtain c cs where "b = c # cs" by (cases b) auto
  ultimately show ?thesis
    using assms(2)
    by (simp add: view_messages_def opt_or_def nonempty_opt_def get_messages_def get_version_def deepcopy_messages_id)
qed

lemma apply_delta_edits:
  assumes "run_inv s" "fresh_uuid uuid s" "latest_version_id s \<noteq> None"
    "ops delta \<noteq> []" "\<forall>op \<in> set (ops delta). \<not> is_activate op"
    "base = (if rebase_to_latest delta then the (latest_version_id s)
             else the (opt_or (base_version_id delta) (latest_version_id s)))"
    "dict_get (versions (graph s)) base = Some bv"
  shows "\<exists>r t nv. apply_delta fr rb uuid delta s = (r, t) \<and>
    versions (graph t) = versions (graph s) @ [(''kv_'' @ uuid, nv)] \<and>
    parent_version_id nv = Some base \<and>
    messages nv = fold edit_messages (ops delta) (messages bv) \<and>
    latest_version_id t = Some (''kv_'' @ uuid) \<and>
    (r = Inr (Some (''kv_'' @ uuid)) \<or> (\<exists>e. r = Inl e))"
proof -
  let ?requested = "opt_or (base_version_id delta) (latest_version_id s)"
  let ?applied = "if rebase_to_latest delta \<and> latest_version_id s \<noteq> None then latest_version_id s else ?requested"
  have req: "?requested \<noteq> None"
    using assms(3) by (auto simp: opt_or_def split: option.splits)
  have applied: "?applied = Some base" using assms(3,6) req by auto
  have view: "view_messages s (Some base) = Inr (messages bv)"
    by (rule view_messages_known [OF assms(1,7)])
  let ?ws = "fold edit_messages (ops delta) (messages bv)"
  have dicts: "\<forall>m \<in> set ?ws. is_dict m"
    using assms(1) map_of_SomeD [OF assms(7)]
    by (intro fold_edit_dicts) (auto simp: run_inv_def graph_inv_def)
  define nv where "nv = \<lparr>version_id = ''kv_'' @ uuid, parent_version_id = Some base, messages = ?ws,
     created_by = normalize_created_by (Some (delta_created_by delta)),
     metadata = dict_or_empty (delta_metadata ?requested (Some base) delta)\<rparr>"
  let ?g = "(graph s)\<lparr>versions := dict_set (''kv_'' @ uuid) nv (versions (graph s)), graph_latest := Some (''kv_'' @ uuid)\<rparr>"
  have create: "create_version uuid (graph s) ?ws (Some base) (Some (delta_created_by delta))
      (delta_metadata ?requested (Some base) delta) None = Inr (nv, ?g)"
    unfolding create_version_Inr using assms(7) dicts
    by (simp add: nv_def Let_def deepcopy_messages_id)
  have nvid: "version_id nv = ''kv_'' @ uuid" by (simp add: nv_def)
  have edits: "filter (\<lambda>op. \<not> is_activate op) (ops delta) \<noteq> []"
    using assms(4,5) by (simp add: filter_empty_conv)
  have fin: "apply_delta fr rb uuid delta s =
     finish_delta fr rb delta (Some (''kv_'' @ uuid)) (s\<lparr>graph := ?g, latest_version_id := Some (''kv_'' @ uuid)\<rparr>)"
    unfolding apply_delta_def Let_def applied view
    using req edits by (simp only: apply_ops_edits [OF assms(5)] create nvid sum.case prod.case simp_thms if_False)
  obtain r t where rt: "finish_delta fr rb delta (Some (''kv_'' @ uuid))
      (s\<lparr>graph := ?g, latest_version_id := Some (''kv_'' @ uuid)\<rparr>) = (r, t)" by force
  have new: "dict_set (''kv_'' @ uuid) nv (versions (graph s)) = versions (graph s) @ [(''kv_'' @ uuid, nv)]"
    using assms(2) by (intro dict_set_fresh) (simp add: fresh_uuid_def version_ids_def)
  have "parent_version_id nv = Some base" "messages nv = ?ws" by (simp_all add: nv_def)
  then show ?thesis
    using finish_delta_frame [OF rt] new
    by (intro exI [of _ r] exI [of _ t] exI [of _ nv]) (simp add: fin rt [symmetric] same_versions_def)
qed

text \<open>
  C26: a delta of message edits (no activation) on a known base appends exactly one version: its
  parent is the base the delta was applied to (the latest version when it rebases, the
  requested one otherwise), its messages are the edits of the base's messages in order, and it
  becomes the latest. The call returns its id unless a state update of the delta raises.
\<close>
theorem apply_delta_appends_edited_version:
  assumes "run_inv s" "fresh_uuid uuid s" "latest_version_id s \<noteq> None"
    "ops delta \<noteq> []" "\<forall>op \<in> set (ops delta). \<not> is_activate op"
    "base = (if rebase_to_latest delta then the (latest_version_id s)
             else the (opt_or (base_version_id delta) (latest_version_id s)))"
    "dict_get (versions (graph s)) base = Some bv"
  shows "\<exists>r t nv. apply_delta fr rb uuid delta s = (r, t) \<and>
    versions (graph t) = versions (graph s) @ [(''kv_'' @ uuid, nv)] \<and>
    parent_version_id nv = Some base \<and>
    messages nv = fold edit_messages (ops delta) (messages bv) \<and>
    latest_version_id t = Some (''kv_'' @ uuid) \<and>
    (r = Inr (Some (''kv_'' @ uuid)) \<or> (\<exists>e. r = Inl e))"
  using apply_delta_edits [OF assms] .

definition demo_delta :: "update_value harness_delta" where
  "demo_delta = \<lparr>delta_created_by = ''h'', base_version_id = None, rebase_to_latest = True,
     ops = [InsertMessagesOp (- 5) [PyDict [(''role'', PyStr ''system'')]], DeleteSpanOp 1 99],
     state_updates = [(''iteration'', UVal (PyInt 3))], trace = [], suspend = None\<rparr>"

theorem apply_delta_appends_edited_version_witness:
  "\<exists>r t nv. apply_delta (\<lambda>q. []) demo_rb ''2'' demo_delta demo_run = (r, t) \<and>
    versions (graph t) = versions (graph demo_run) @ [(''kv_2'', nv)] \<and>
    messages nv = [PyDict [(''role'', PyStr ''system'')]]"
proof -
  have 1: "run_inv demo_run"
    using run_step_advances [OF demo_run_step new_run_state_inv] by (simp add: advances_def)
  have 2: "fresh_uuid ''2'' demo_run" by code_simp
  have 3: "latest_version_id demo_run = Some ''kv_1''" by code_simp
  have 4: "dict_get (versions (graph demo_run)) ''kv_1'' = Some \<lparr>version_id = ''kv_1'', parent_version_id = None,
     messages = [PyDict [(''role'', PyStr ''user'')]], created_by = Some ''seed'', metadata = []\<rparr>" by code_simp
  have 5: "fold edit_messages (ops demo_delta) [PyDict [(''role'', PyStr ''user'')]] =
     [PyDict [(''role'', PyStr ''system'')]]" by code_simp
  have 6: "latest_version_id demo_run \<noteq> None" "ops demo_delta \<noteq> []"
    "\<forall>op \<in> set (ops demo_delta). \<not> is_activate op"
    by (simp_all add: 3 demo_delta_def)
  have 7: "''kv_1'' = (if rebase_to_latest demo_delta then the (latest_version_id demo_run)
             else the (opt_or (base_version_id demo_delta) (latest_version_id demo_run)))"
    by (simp add: 3 demo_delta_def)
  show ?thesis
    using apply_delta_appends_edited_version [OF 1 2 6 7 4, of "\<lambda>q. []" demo_rb]
    unfolding message_version.simps 5 append.simps by blast
qed

end
