(* ===== verification/Application.thy ===== *)
theory Application
  imports RunState
begin

section \<open>Applying run deltas\<close>

text \<open>
  \<open>kernel/application.py\<close> with the operations of \<open>capabilities/__init__.py\<close> and
  \<open>artifacts/core.upsert_artifacts\<close>: inserting, replacing, patching and deleting messages
  of the model context or the conversation, recording artifacts, emitting events and
  requesting suspension. The two operations that set attributes of the run state by name
  (\<open>SetRuntimeStateOp\<close>, \<open>MergeRuntimeStateOp\<close>) are represented by their nested
  dictionary writers only. The event callback, when present, is recorded as the list of
  events it is called with. Version ids come from a supply indexed by the operation.
  The lemmas: which indices a selector resolves to, that deletion and patching touch exactly
  those, that run deltas keep the invariant of the run, the laws of nested writes, and what
  the artifact list keeps.
\<close>

subsection \<open>Operations\<close>

datatype context_target = CONVERSATION | MODEL_CONTEXT | RUNTIME_STATE | ARTIFACTS | EVENTS

fun target_value :: "context_target \<Rightarrow> string" where
  "target_value CONVERSATION = ''conversation''"
| "target_value MODEL_CONTEXT = ''model_context''"
| "target_value RUNTIME_STATE = ''runtime_state''"
| "target_value ARTIFACTS = ''artifacts''"
| "target_value EVENTS = ''events''"

record emit_event_op =
  event_type :: string
  event_payload :: pydict
  event_reason :: string

datatype context_op =
    CtxInsert context_target int "pyval list" string
  | CtxReplace context_target "pyval list" int "int option" string
  | CtxPatch context_target pyval pydict string
  | CtxDelete context_target pyval string
  | CtxCreateArtifact pyval string
  | CtxEmitEvent emit_event_op
  | CtxRequestSuspend string pyval

record run_delta =
  rd_created_by :: string
  rd_context_ops :: "context_op list"
  rd_state_updates :: "update_value dict"
  rd_trace :: pydict
  rd_suspend :: "suspend_signal option"

subsection \<open>Message selectors\<close>

definition index_error :: "int \<Rightarrow> py_exc" where
  "index_error i = DomainExc ''IndexError'' (''message index '' @ int_text i @ '' is out of range'')"

definition normalize_message_index :: "int \<Rightarrow> nat \<Rightarrow> (py_exc, nat) res" where
  "normalize_message_index index n =
     (let resolved = (if index < 0 then index + int n else index) in
      if resolved < 0 \<or> resolved \<ge> int n then Inl (index_error index) else Inr (nat resolved))"

fun normalize_all :: "nat \<Rightarrow> pyval list \<Rightarrow> (py_exc, nat list) res" where
  "normalize_all n [] = Inr []"
| "normalize_all n (v # vs) =
     bindr (py_int v) (\<lambda>i. bindr (normalize_message_index i n) (\<lambda>k.
     bindr (normalize_all n vs) (\<lambda>ks. Inr (k # ks))))"

fun unique_from :: "nat list \<Rightarrow> nat list \<Rightarrow> nat list" where
  "unique_from seen [] = []"
| "unique_from seen (i # is) = (if i \<in> set seen then unique_from seen is else i # unique_from (i # seen) is)"

definition unique_indices :: "nat list \<Rightarrow> nat list" where
  "unique_indices is = unique_from [] is"

text \<open>\<open>for index in v\<close>: lists, the characters of a text, the keys of a dictionary.\<close>

definition iter_value :: "pyval \<Rightarrow> (py_exc, pyval list) res" where
  "iter_value v =
     (case v of
        PyList xs \<Rightarrow> Inr xs
      | PyDict d \<Rightarrow> Inr (map (\<lambda>p. PyStr (fst p)) d)
      | PyStr s \<Rightarrow> Inr (map (\<lambda>c. PyStr [c]) s)
      | _ \<Rightarrow> Inl (not_iterable v))"

definition slice_range :: "int \<Rightarrow> int \<Rightarrow> nat \<Rightarrow> nat list" where
  "slice_range a b n =
     (let a' = (if a < 0 then a + int n else a); b' = (if b < 0 then b + int n else b);
          start = clamp 0 a' n; stop = clamp (int start) b' n in [start ..< stop])"

definition selector_matches :: "pydict \<Rightarrow> pyval \<Rightarrow> bool" where
  "selector_matches selector message = (\<forall>p \<in> set selector. py_eq (vget message (fst p)) (snd p))"

definition resolve_message_indices :: "pyval list \<Rightarrow> pyval \<Rightarrow> (py_exc, nat list) res" where
  "resolve_message_indices ms selector =
     (let n = length ms in
      if is_int selector then bindr (normalize_message_index (int_of selector) n) (\<lambda>k. Inr [k])
      else case selector of
        PyDict d \<Rightarrow>
          if dict_get d ''index'' \<noteq> None
          then bindr (py_int (dget d ''index'')) (\<lambda>i. bindr (normalize_message_index i n) (\<lambda>k. Inr [k]))
          else if dict_get d ''indices'' \<noteq> None
          then bindr (iter_value (dget d ''indices'')) (\<lambda>vs.
               bindr (normalize_all n vs) (\<lambda>ks. Inr (unique_indices ks)))
          else if dict_get d ''start'' \<noteq> None \<or> dict_get d ''end'' \<noteq> None
          then bindr (if dict_get d ''start'' = None then Inr 0 else py_int (dget d ''start'')) (\<lambda>a.
               bindr (if dict_get d ''end'' = None then Inr (int n) else py_int (dget d ''end'')) (\<lambda>b.
               Inr (slice_range a b n)))
          else Inr (filter (\<lambda>i. selector_matches d (ms ! i)) [0 ..< n])
      | PyList vs \<Rightarrow> bindr (normalize_all n vs) (\<lambda>ks. Inr (unique_indices ks))
      | _ \<Rightarrow> Inl (TypeExc (''unsupported message selector: '' @ type_name selector)))"

subsection \<open>Editing a target\<close>

definition messages_for_target :: "run_state \<Rightarrow> context_target \<Rightarrow> string \<Rightarrow> (py_exc, pyval list) res" where
  "messages_for_target s target op_type =
     (case target of
        MODEL_CONTEXT \<Rightarrow> latest_messages s
      | CONVERSATION \<Rightarrow> Inr (deepcopy_messages (transcript s))
      | _ \<Rightarrow> Inl (DomainExc ''NotImplementedError''
               (op_type @ '' target '' @ repr_str (target_value target) @ '' is not supported'')))"

definition write_target :: "context_target \<Rightarrow> pyval list \<Rightarrow> run_state \<Rightarrow> run_state" where
  "write_target target ws s =
     (let s1 = (if target = CONVERSATION then s\<lparr>transcript := deepcopy_messages ws\<rparr> else s)
      in if target = MODEL_CONTEXT then s1\<lparr>next_model_input := Some (deepcopy_messages ws)\<rparr> else s1)"

definition commit_messages_for_target ::
  "string \<Rightarrow> run_delta \<Rightarrow> context_target \<Rightarrow> pyval list \<Rightarrow> string \<Rightarrow> string \<Rightarrow> run_state \<Rightarrow> (string option) outcome" where
  "commit_messages_for_target uuid delta target ws op_type reason s =
     (let s2 = write_target target ws s in
      case create_version uuid (graph s2) ws (latest_version_id s2) (Some (rd_created_by delta))
             (PyDict [(''target'', PyStr (target_value target)), (''op_type'', PyStr op_type),
                      (''reason'', PyStr reason), (''trace'', PyDict (rd_trace delta))]) None of
        Inl e \<Rightarrow> (Inl e, s2)
      | Inr (v, g) \<Rightarrow> (Inr (Some (version_id v)),
          s2\<lparr>graph := g, latest_version_id := Some (version_id v)\<rparr>))"

definition insert_messages :: "int \<Rightarrow> pyval list \<Rightarrow> pyval list \<Rightarrow> pyval list" where
  "insert_messages i ms ws = (let k = clamp 0 i (length ws) in take k ws @ deepcopy_messages ms @ drop k ws)"

definition apply_insert_messages_op ::
  "string \<Rightarrow> run_delta \<Rightarrow> context_target \<Rightarrow> int \<Rightarrow> pyval list \<Rightarrow> string \<Rightarrow> run_state \<Rightarrow> (string option) outcome" where
  "apply_insert_messages_op uuid delta target i ms reason s =
     (case messages_for_target s target ''InsertMessagesOp'' of
        Inl e \<Rightarrow> (Inl e, s)
      | Inr ws \<Rightarrow> commit_messages_for_target uuid delta target (insert_messages i ms ws) ''InsertMessagesOp'' reason s)"

definition replace_messages :: "int \<Rightarrow> int option \<Rightarrow> pyval list \<Rightarrow> pyval list \<Rightarrow> pyval list" where
  "replace_messages a b ms ws =
     (let n = length ws;
          start = clamp 0 a n;
          b0 = (case b of None \<Rightarrow> int n | Some e \<Rightarrow> e);
          b1 = (if b0 < 0 then b0 + int n else b0);
          stop = clamp (int start) b1 n
      in take start ws @ deepcopy_messages ms @ drop stop ws)"

definition apply_replace_messages_op ::
  "string \<Rightarrow> run_delta \<Rightarrow> context_target \<Rightarrow> pyval list \<Rightarrow> int \<Rightarrow> int option \<Rightarrow> string \<Rightarrow> run_state \<Rightarrow> (string option) outcome" where
  "apply_replace_messages_op uuid delta target ms a b reason s =
     (case messages_for_target s target ''ReplaceMessagesOp'' of
        Inl e \<Rightarrow> (Inl e, s)
      | Inr ws \<Rightarrow> commit_messages_for_target uuid delta target (replace_messages a b ms ws) ''ReplaceMessagesOp'' reason s)"

fun patch_message :: "pydict \<Rightarrow> pyval \<Rightarrow> pyval" where
  "patch_message patch (PyDict m) = PyDict (dict_update m patch)"
| "patch_message patch v = v"

definition patch_messages :: "pydict \<Rightarrow> nat list \<Rightarrow> pyval list \<Rightarrow> pyval list" where
  "patch_messages patch is ws = fold (\<lambda>i xs. xs[i := patch_message patch (xs ! i)]) is ws"

definition apply_patch_message_op ::
  "string \<Rightarrow> run_delta \<Rightarrow> context_target \<Rightarrow> pyval \<Rightarrow> pydict \<Rightarrow> string \<Rightarrow> run_state \<Rightarrow> (string option) outcome" where
  "apply_patch_message_op uuid delta target selector patch reason s =
     (case messages_for_target s target ''PatchMessageOp'' of
        Inl e \<Rightarrow> (Inl e, s)
      | Inr ws \<Rightarrow>
          (case resolve_message_indices ws selector of
             Inl e \<Rightarrow> (Inl e, s)
           | Inr is \<Rightarrow>
               if is = [] then (Inr (latest_version_id s), s)
               else commit_messages_for_target uuid delta target (patch_messages patch is ws)
                      ''PatchMessageOp'' reason s))"

text \<open>\<open>del xs[i]\<close> for the indices from the highest to the lowest.\<close>

definition del_index :: "nat \<Rightarrow> 'a list \<Rightarrow> 'a list" where
  "del_index i xs = take i xs @ drop (Suc i) xs"

definition delete_messages :: "nat list \<Rightarrow> pyval list \<Rightarrow> pyval list" where
  "delete_messages is ws = fold del_index (rev (sort is)) ws"

definition apply_delete_messages_op ::
  "string \<Rightarrow> run_delta \<Rightarrow> context_target \<Rightarrow> pyval \<Rightarrow> string \<Rightarrow> run_state \<Rightarrow> (string option) outcome" where
  "apply_delete_messages_op uuid delta target selector reason s =
     (case messages_for_target s target ''DeleteMessagesOp'' of
        Inl e \<Rightarrow> (Inl e, s)
      | Inr ws \<Rightarrow>
          (case resolve_message_indices ws selector of
             Inl e \<Rightarrow> (Inl e, s)
           | Inr is \<Rightarrow>
               if is = [] then (Inr (latest_version_id s), s)
               else commit_messages_for_target uuid delta target (delete_messages is ws)
                      ''DeleteMessagesOp'' reason s))"

subsection \<open>Artifacts, events and suspension\<close>

definition artifact_key :: "pyval \<Rightarrow> string option" where
  "artifact_key a = (case vget a ''artifact_id'' of PyStr s \<Rightarrow> if s = [] then None else Some s | _ \<Rightarrow> None)"

definition upsert_artifact :: "pyval \<Rightarrow> pydict \<Rightarrow> pydict" where
  "upsert_artifact a by_id = (case artifact_key a of None \<Rightarrow> by_id | Some k \<Rightarrow> dict_set k a by_id)"

definition upsert_artifacts :: "pyval list \<Rightarrow> pyval list \<Rightarrow> pyval list" where
  "upsert_artifacts existing new_ones = map snd (fold upsert_artifact (existing @ new_ones) [])"

definition existing_artifact :: "run_state \<Rightarrow> string \<Rightarrow> bool" where
  "existing_artifact s aid = (\<exists>a \<in> set (artifacts s). is_dict a \<and> vget a ''artifact_id'' = PyStr aid)"

definition add_if_text :: "string \<Rightarrow> pyval \<Rightarrow> pydict \<Rightarrow> pydict" where
  "add_if_text key v d = (if nonempty_str v then dict_set key v d else d)"

definition artifact_event :: "run_delta \<Rightarrow> pydict \<Rightarrow> string \<Rightarrow> string \<Rightarrow> string \<Rightarrow> emit_event_op" where
  "artifact_event delta artifact aid event_name reason =
     (let tr = rd_trace delta;
          snapshot = dict_or_empty (dget artifact ''snapshot'');
          tool = (if truthy (dget tr ''tool_name'') then dget tr ''tool_name'' else dget tr ''tool_call'');
          p0 = [(''artifact_id'', PyStr aid), (''artifact'', PyDict artifact),
                (''created_by'', PyStr (rd_created_by delta))];
          p1 = (if reason \<noteq> [] then dict_set ''reason'' (PyStr reason) p0 else p0);
          p2 = add_if_text ''plan_id'' (dget snapshot ''plan_id'') p1;
          p3 = add_if_text ''tool_name'' tool p2;
          p4 = add_if_text ''call_id'' (dget tr ''call_id'') p3;
          p5 = add_if_text ''capability_created_by'' (dget tr ''capability_created_by'') p4;
          p6 = add_if_text ''applied_by'' (dget tr ''applied_by'') p5
      in \<lparr>event_type = event_name, event_payload = p6, event_reason = reason\<rparr>)"

definition apply_create_artifact_op ::
  "bool \<Rightarrow> run_delta \<Rightarrow> pyval \<Rightarrow> string \<Rightarrow> run_state \<Rightarrow> run_state \<times> emit_event_op list" where
  "apply_create_artifact_op emits delta raw reason s =
     (let artifact = dict_or_empty raw in
      case dget artifact ''artifact_id'' of
        PyStr aid \<Rightarrow>
          if aid = [] then (s\<lparr>artifacts := artifacts s @ [PyDict artifact]\<rparr>, [])
          else (s\<lparr>artifacts := upsert_artifacts (artifacts s) [PyDict artifact]\<rparr>,
                if emits then [artifact_event delta artifact aid
                  (if existing_artifact s aid then ''artifact_updated'' else ''artifact_created'') reason] else [])
      | _ \<Rightarrow> (s\<lparr>artifacts := artifacts s @ [PyDict artifact]\<rparr>, []))"

definition suspend_payload_with_context_version :: "run_state \<Rightarrow> pyval \<Rightarrow> pydict" where
  "suspend_payload_with_context_version s pl =
     (let enriched = dict_or_empty pl in
      case latest_version_id s of
        None \<Rightarrow> enriched
      | Some v \<Rightarrow> if dict_get enriched ''context_version_id'' = None
                  then dict_set ''context_version_id'' (PyStr v) enriched else enriched)"

definition request_suspend :: "string \<Rightarrow> pyval \<Rightarrow> run_state \<Rightarrow> run_state" where
  "request_suspend sig pl s = set_suspend sig (PyDict (suspend_payload_with_context_version s pl)) s"

subsection \<open>The whole delta\<close>

fun apply_context_ops ::
  "bool \<Rightarrow> (nat \<Rightarrow> string) \<Rightarrow> run_delta \<Rightarrow> nat \<Rightarrow> context_op list \<Rightarrow> string option \<Rightarrow> emit_event_op list \<Rightarrow> run_state \<Rightarrow>
   (string option) outcome \<times> emit_event_op list" where
  "apply_context_ops emits uuids delta n [] vid events s = ((Inr vid, s), events)"
| "apply_context_ops emits uuids delta n (op # rest) vid events s =
     (case op of
        CtxCreateArtifact a reason \<Rightarrow>
          (let (s', es) = apply_create_artifact_op emits delta a reason s
           in apply_context_ops emits uuids delta (Suc n) rest vid (events @ es) s')
      | CtxEmitEvent ev \<Rightarrow>
          apply_context_ops emits uuids delta (Suc n) rest vid (events @ (if emits then [ev] else [])) s
      | CtxRequestSuspend sig pl \<Rightarrow>
          apply_context_ops emits uuids delta (Suc n) rest vid events (request_suspend sig pl s)
      | _ \<Rightarrow>
          (case (case op of
                   CtxInsert t i ms reason \<Rightarrow> apply_insert_messages_op (uuids n) delta t i ms reason s
                 | CtxReplace t ms a b reason \<Rightarrow> apply_replace_messages_op (uuids n) delta t ms a b reason s
                 | CtxPatch t sel patch reason \<Rightarrow> apply_patch_message_op (uuids n) delta t sel patch reason s
                 | CtxDelete t sel reason \<Rightarrow> apply_delete_messages_op (uuids n) delta t sel reason s
                 | _ \<Rightarrow> (Inr vid, s)) of
             (Inl e, s') \<Rightarrow> ((Inl e, s'), events)
           | (Inr vid', s') \<Rightarrow> apply_context_ops emits uuids delta (Suc n) rest vid' events s'))"

definition apply_run_delta ::
  "(rat \<Rightarrow> string) \<Rightarrow> bundle_parser \<Rightarrow> bool \<Rightarrow> (nat \<Rightarrow> string) \<Rightarrow> run_delta \<Rightarrow> run_state \<Rightarrow>
   (string option) outcome \<times> emit_event_op list" where
  "apply_run_delta fr rb emits uuids delta s =
     (case apply_context_ops emits uuids delta 0 (rd_context_ops delta) (latest_version_id s) [] s of
        ((Inl e, s1), events) \<Rightarrow> ((Inl e, s1), events)
      | ((Inr vid, s1), events) \<Rightarrow>
          (case apply_state_updates fr rb (rd_state_updates delta) s1 of
             (Some e, s2) \<Rightarrow> ((Inl e, s2), events)
           | (None, s2) \<Rightarrow>
               ((Inr vid, case rd_suspend delta of
                            None \<Rightarrow> s2
                          | Some sig \<Rightarrow> request_suspend (kind sig) (payload sig) s2), events)))"

subsection \<open>Nested writes\<close>

fun set_nested_value :: "pydict \<Rightarrow> string list \<Rightarrow> pyval \<Rightarrow> (py_exc, pydict) res" where
  "set_nested_value obj [] v = Inl (ValueExc ''nested state path must not be empty'')"
| "set_nested_value obj [key] v = Inr (dict_set key v obj)"
| "set_nested_value obj (key # key' # path) v =
     bindr (set_nested_value (dict_or_empty (dget obj key)) (key' # path) v)
       (\<lambda>child. Inr (dict_set key (PyDict child) obj))"

fun merge_nested_value :: "pydict \<Rightarrow> string list \<Rightarrow> pydict \<Rightarrow> pydict" where
  "merge_nested_value obj [] v = dict_update obj v"
| "merge_nested_value obj [key] v =
     (case dget obj key of
        PyDict leaf \<Rightarrow> dict_set key (PyDict (dict_update leaf v)) obj
      | _ \<Rightarrow> dict_set key (PyDict v) obj)"
| "merge_nested_value obj (key # key' # path) v =
     dict_set key (PyDict (merge_nested_value (dict_or_empty (dget obj key)) (key' # path) v)) obj"

fun nested_get :: "pyval \<Rightarrow> string list \<Rightarrow> pyval" where
  "nested_get v [] = v"
| "nested_get v (key # path) = nested_get (vget v key) path"

subsection \<open>Selected indices\<close>

lemma unique_from_props:
  "distinct (unique_from seen is) \<and> set (unique_from seen is) = set is - set seen"
  by (induction seen "is" rule: unique_from.induct) auto

lemma normalize_message_index_bound: "normalize_message_index i n = Inr k \<Longrightarrow> k < n"
  by (auto simp: normalize_message_index_def Let_def split: if_splits)

lemma normalize_all_bound: "normalize_all n vs = Inr ks \<Longrightarrow> \<forall>k \<in> set ks. k < n"
  by (induction n vs arbitrary: ks rule: normalize_all.induct)
    (auto simp: bindr_eq_Inr dest: normalize_message_index_bound)

lemma slice_range_bound: "distinct (slice_range a b n) \<and> (\<forall>k \<in> set (slice_range a b n). k < n)"
  by (auto simp: slice_range_def clamp_def Let_def)

lemma resolve_indices_ok:
  assumes "resolve_message_indices ms selector = Inr is"
  shows "distinct is \<and> (\<forall>i \<in> set is. i < length ms)"
proof -
  have uniq: "distinct (unique_indices ks) \<and> (\<forall>k \<in> set (unique_indices ks). k < length ms)"
    if "normalize_all (length ms) vs = Inr ks" for vs ks
    using normalize_all_bound [OF that] unique_from_props [of "[]" ks] by (auto simp: unique_indices_def)
  show ?thesis
  proof (cases "is_int selector")
    case True
    then show ?thesis
      using assms by (auto simp: resolve_message_indices_def bindr_eq_Inr dest: normalize_message_index_bound)
  next
    case False
    show ?thesis
    proof (cases selector)
      case (PyDict d)
      then show ?thesis
        using assms uniq slice_range_bound
        by (auto simp: resolve_message_indices_def Let_def bindr_eq_Inr
            dest: normalize_message_index_bound split: if_splits)
    qed (use assms False uniq in \<open>auto simp: resolve_message_indices_def bindr_eq_Inr\<close>)
  qed
qed

lemma del_index_nths:
  assumes "d < length ws" "\<forall>e \<in> S. d < e"
  shows "del_index d (nths ws (- S)) = nths ws (- insert d S)"
proof -
  let ?T = "{j. j + Suc d \<in> - S}"
  have ws: "ws = take d ws @ ws ! d # drop (Suc d) ws" using assms(1) by (rule id_take_nth_drop)
  have len: "length (take d ws) = d" using assms(1) by simp
  have pre: "nths (take d ws) (- S) = take d ws" "nths (take d ws) (- insert d S) = take d ws"
    using assms by (auto intro!: nths_all)
  have here: "d \<notin> S" using assms(2) by auto
  have keep: "nths ws (- S) = take d ws @ ws ! d # nths (drop (Suc d) ws) ?T"
    by (subst ws) (simp only: nths_append len pre nths_Cons, simp add: here)
  have cut: "nths ws (- insert d S) = take d ws @ nths (drop (Suc d) ws) ?T"
    by (subst ws) (simp only: nths_append len pre nths_Cons, simp)
  show ?thesis unfolding cut del_index_def keep using len by simp
qed

lemma fold_del_index:
  "\<lbrakk>sorted_wrt (>) ds; \<forall>d \<in> set ds. d < length ws\<rbrakk> \<Longrightarrow> fold del_index ds ws = nths ws (- set ds)"
proof (induction ds rule: rev_induct)
  case (snoc d ds)
  then have "fold del_index ds ws = nths ws (- set ds)" by (simp add: sorted_wrt_append)
  moreover have "\<forall>e \<in> set ds. d < e" using snoc.prems by (simp add: sorted_wrt_append)
  ultimately show ?case using snoc.prems del_index_nths [of d ws "set ds"] by simp
qed (simp add: nths_all)

lemma delete_messages_nths:
  assumes "distinct is" "\<forall>i \<in> set is. i < length ws"
  shows "delete_messages is ws = nths ws (- set is)"
proof -
  have "sorted_wrt (<) (sort is)" using assms(1) by (simp add: strict_sorted_iff)
  then have "sorted_wrt (>) (rev (sort is))" by (simp add: sorted_wrt_rev)
  then show ?thesis using fold_del_index [of "rev (sort is)" ws] assms(2) by (simp add: delete_messages_def)
qed

lemma patch_messages_nth:
  "\<lbrakk>distinct is; \<forall>i \<in> set is. i < length ws\<rbrakk> \<Longrightarrow>
   length (patch_messages patch is ws) = length ws \<and>
   (\<forall>j < length ws. patch_messages patch is ws ! j =
      (if j \<in> set is then patch_message patch (ws ! j) else ws ! j))"
proof (induction "is" arbitrary: ws)
  case (Cons i "is")
  let ?ws = "ws[i := patch_message patch (ws ! i)]"
  have "patch_messages patch (i # is) ws = patch_messages patch is ?ws" by (simp add: patch_messages_def)
  moreover have "length (patch_messages patch is ?ws) = length ws \<and>
     (\<forall>j < length ws. patch_messages patch is ?ws ! j =
        (if j \<in> set is then patch_message patch (?ws ! j) else ?ws ! j))"
    using Cons.IH [of ?ws] Cons.prems by simp
  ultimately show ?case using Cons.prems by (auto simp: nth_list_update)
qed (simp add: patch_messages_def)

subsection \<open>Committing\<close>

lemma latest_messages_dicts: "latest_messages s = Inr ws \<Longrightarrow> \<forall>m \<in> set ws. is_dict m"
  by (auto simp: latest_messages_def get_messages_def bindr_eq_Inr split: option.splits)

lemma messages_for_target_dicts:
  "messages_for_target s t n = Inr ws \<Longrightarrow> (\<forall>m \<in> set ws. is_dict m) \<and> (t = MODEL_CONTEXT \<or> t = CONVERSATION)"
  by (cases t) (auto simp: messages_for_target_def dest: latest_messages_dicts)

lemma write_target_simps [simp]:
  "graph (write_target target ws s) = graph s"
  "latest_version_id (write_target target ws s) = latest_version_id s"
  "mirrored (write_target target ws s) = mirrored s"
  "transcript (write_target target ws s) = (if target = CONVERSATION then deepcopy_messages ws else transcript s)"
  "next_model_input (write_target target ws s) =
     (if target = MODEL_CONTEXT then Some (deepcopy_messages ws) else next_model_input s)"
  by (simp_all add: write_target_def)

lemma commit_advances:
  assumes "commit_messages_for_target uuid delta target ws op_type reason s = (r, t)" "run_inv s" "fresh_uuid uuid s"
  shows "advances s t"
proof -
  let ?s = "write_target target ws s"
  let ?meta = "PyDict [(''target'', PyStr (target_value target)), (''op_type'', PyStr op_type),
     (''reason'', PyStr reason), (''trace'', PyDict (rd_trace delta))]"
  have same: "advances s ?s" using assms(2) by (simp add: advances_def run_inv_def)
  have inv: "run_inv ?s" "fresh_uuid uuid ?s" using assms(2,3) by (simp_all add: run_inv_def fresh_uuid_def)
  show ?thesis
  proof (cases "create_version uuid (graph ?s) ws (latest_version_id ?s) (Some (rd_created_by delta)) ?meta None")
    case (Inl e)
    then show ?thesis using assms(1) same by (simp add: commit_messages_for_target_def Let_def)
  next
    case (Inr p)
    obtain v g where p: "p = (v, g)" by (cases p)
    have "t = ?s\<lparr>graph := g, latest_version_id := Some (version_id v)\<rparr>"
      using assms(1) Inr by (simp add: commit_messages_for_target_def Let_def p)
    then show ?thesis using create_advances [OF Inr [unfolded p] inv] same advances_trans by blast
  qed
qed

lemma commit_effect:
  assumes "run_inv s" "fresh_uuid uuid s" "\<forall>m \<in> set ws. is_dict m"
  shows "\<exists>t. commit_messages_for_target uuid delta target ws op_type reason s = (Inr (Some (''kv_'' @ uuid)), t) \<and>
    latest_messages t = Inr ws \<and>
    transcript t = (if target = CONVERSATION then ws else transcript s) \<and>
    next_model_input t = (if target = MODEL_CONTEXT then Some ws else next_model_input s)"
proof -
  have known: "latest_version_id s = None \<or> dict_get (versions (graph s)) (the (latest_version_id s)) \<noteq> None"
    using assms(1) by (cases "latest_version_id s") (auto simp: run_inv_def graph_inv_def dict_get_keys split: option.splits)
  have none: "latest_version_id s = None \<Longrightarrow> graph_latest (graph s) = None" using assms(1) by (simp add: run_inv_def)
  let ?meta = "PyDict [(''target'', PyStr (target_value target)), (''op_type'', PyStr op_type),
     (''reason'', PyStr reason), (''trace'', PyDict (rd_trace delta))]"
  obtain v g where c: "create_version uuid (graph s) ws (latest_version_id s) (Some (rd_created_by delta)) ?meta None = Inr (v, g)"
    and v: "version_id v = ''kv_'' @ uuid" "messages v = ws" and g: "dict_get (versions g) (''kv_'' @ uuid) = Some v"
    using known none assms(3)
    by (cases "latest_version_id s") (auto simp: create_version_Inr Let_def deepcopy_messages_id)
  show ?thesis
    using c v g assms(3)
    by (auto simp: commit_messages_for_target_def Let_def latest_messages_def get_messages_def get_version_def
        deepcopy_messages_id)
qed

lemma patch_message_dict: "is_dict m \<Longrightarrow> is_dict (patch_message patch m)"
  by (cases m) auto

lemma patch_messages_dicts:
  assumes "distinct is" "\<forall>i \<in> set is. i < length ws" "\<forall>m \<in> set ws. is_dict m"
  shows "\<forall>m \<in> set (patch_messages patch is ws). is_dict m"
proof
  fix m
  assume "m \<in> set (patch_messages patch is ws)"
  then obtain j where "j < length ws" "m = patch_messages patch is ws ! j"
    using patch_messages_nth [OF assms(1,2), of patch] by (auto simp: in_set_conv_nth)
  then show "is_dict m"
    using patch_messages_nth [OF assms(1,2), of patch] assms(3) by (simp add: patch_message_dict)
qed

text \<open>
  Patching and deleting by selector touch exactly the selected messages. When the selector
  resolves to indices of the target's messages, the new version of the target keeps every other
  message at its place; a patch overlays the patch on each selected message once, a deletion
  removes exactly the selected ones, and the result is the latest version.
\<close>
theorem selected_messages_only:
  assumes "run_inv s" "fresh_uuid uuid s" "messages_for_target s target name = Inr ws"
    "resolve_message_indices ws selector = Inr is" "is \<noteq> []"
  shows "(\<exists>t. apply_delete_messages_op uuid delta target selector reason s = (Inr (Some (''kv_'' @ uuid)), t) \<and>
            latest_messages t = Inr (nths ws (- set is))) \<and>
         (\<exists>t out. apply_patch_message_op uuid delta target selector patch reason s = (Inr (Some (''kv_'' @ uuid)), t) \<and>
            latest_messages t = Inr out \<and> length out = length ws \<and>
            (\<forall>j < length ws. out ! j = (if j \<in> set is then patch_message patch (ws ! j) else ws ! j)))"
proof -
  have ok: "distinct is" "\<forall>i \<in> set is. i < length ws"
    using resolve_indices_ok [OF assms(4)] by auto
  have dicts: "\<forall>m \<in> set ws. is_dict m" using messages_for_target_dicts [OF assms(3)] by simp
  have any: "messages_for_target s target n = Inr ws" for n
    using assms(3) by (cases target) (simp_all add: messages_for_target_def)
  have del: "delete_messages is ws = nths ws (- set is)" by (rule delete_messages_nths [OF ok])
  have "\<forall>m \<in> set (nths ws (- set is)). is_dict m" using dicts by (auto dest: in_set_nthsD)
  from commit_effect [OF assms(1,2) this]
  have "\<exists>t. apply_delete_messages_op uuid delta target selector reason s = (Inr (Some (''kv_'' @ uuid)), t) \<and>
      latest_messages t = Inr (nths ws (- set is))"
    unfolding apply_delete_messages_op_def any assms(4) sum.case del if_not_P [OF assms(5)] by blast
  moreover from commit_effect [OF assms(1,2) patch_messages_dicts [OF ok dicts]]
  have "\<exists>t. apply_patch_message_op uuid delta target selector patch reason s = (Inr (Some (''kv_'' @ uuid)), t) \<and>
      latest_messages t = Inr (patch_messages patch is ws)"
    unfolding apply_patch_message_op_def any assms(4) sum.case if_not_P [OF assms(5)] by blast
  ultimately show ?thesis using patch_messages_nth [OF ok, of patch] by blast
qed

definition demo_run_delta :: run_delta where
  "demo_run_delta = \<lparr>rd_created_by = ''cap'',
     rd_context_ops = [CtxInsert MODEL_CONTEXT 5 [PyDict [(''role'', PyStr ''tool'')]] [],
                       CtxDelete MODEL_CONTEXT (PyDict [(''role'', PyStr ''user'')]) [],
                       CtxRequestSuspend ''pause'' PyNone],
     rd_state_updates = [], rd_trace = [], rd_suspend = None\<rparr>"

lemma demo_run_inv: "run_inv demo_run"
  using run_step_advances [OF demo_run_step new_run_state_inv] by (simp add: advances_def)

theorem selected_messages_only_witness:
  "\<exists>t. apply_delete_messages_op ''2'' demo_run_delta MODEL_CONTEXT (PyInt (- 1)) [] demo_run
     = (Inr (Some ''kv_2''), t) \<and> latest_messages t = Inr []"
proof -
  have f: "fresh_uuid ''2'' demo_run" by code_simp
  have m: "messages_for_target demo_run MODEL_CONTEXT [] = Inr [PyDict [(''role'', PyStr ''user'')]]" by code_simp
  have r: "resolve_message_indices [PyDict [(''role'', PyStr ''user'')]] (PyInt (- 1)) = Inr [0]" by code_simp
  have "nths [PyDict [(''role'', PyStr ''user'')]] (- set [0]) = []" by (simp add: nths_Cons)
  then show ?thesis
    using selected_messages_only [OF demo_run_inv f m r, of demo_run_delta "[]"] by simp
qed

subsection \<open>Run deltas keep the run invariant\<close>

definition op_effect :: "string \<Rightarrow> run_state \<Rightarrow> run_state \<Rightarrow> bool" where
  "op_effect uuid s t \<longleftrightarrow> advances s t \<and>
     set (version_ids (graph t)) \<subseteq> insert (''kv_'' @ uuid) (set (version_ids (graph s)))"

lemma op_effect_same: "run_inv s \<Longrightarrow> op_effect uuid s s"
  by (auto simp: op_effect_def advances_def)

lemma commit_op_effect:
  assumes "commit_messages_for_target uuid delta target ws op_type reason s = (r, t)" "run_inv s" "fresh_uuid uuid s"
  shows "op_effect uuid s t"
proof -
  let ?meta = "PyDict [(''target'', PyStr (target_value target)), (''op_type'', PyStr op_type),
     (''reason'', PyStr reason), (''trace'', PyDict (rd_trace delta))]"
  have "set (version_ids (graph t)) \<subseteq> insert (''kv_'' @ uuid) (set (version_ids (graph s)))"
  proof (cases "create_version uuid (graph s) ws (latest_version_id s) (Some (rd_created_by delta)) ?meta None")
    case (Inl e)
    then show ?thesis using assms(1) by (auto simp: commit_messages_for_target_def Let_def)
  next
    case (Inr p)
    obtain v g where p: "p = (v, g)" by (cases p)
    have g: "versions g = versions (graph s) @ [(version_id v, v)]" "version_id v = ''kv_'' @ uuid"
      using create_version_inv [OF Inr [unfolded p]] assms(2,3) Inr
      by (auto simp: p run_inv_def fresh_uuid_def create_version_Inr Let_def)
    have "graph t = g" using assms(1) Inr by (auto simp: commit_messages_for_target_def Let_def p)
    then show ?thesis by (auto simp: version_ids_def g)
  qed
  then show ?thesis using commit_advances [OF assms] by (simp add: op_effect_def)
qed

lemma message_ops_effect:
  assumes "run_inv s" "fresh_uuid uuid s"
  shows "apply_insert_messages_op uuid delta target i ms reason s = (r, t) \<Longrightarrow> op_effect uuid s t"
    "apply_replace_messages_op uuid delta target ms a b reason s = (r, t) \<Longrightarrow> op_effect uuid s t"
    "apply_patch_message_op uuid delta target sel patch reason s = (r, t) \<Longrightarrow> op_effect uuid s t"
    "apply_delete_messages_op uuid delta target sel reason s = (r, t) \<Longrightarrow> op_effect uuid s t"
  using op_effect_same [OF assms(1), of uuid] commit_op_effect [OF _ assms]
  by (auto simp: apply_insert_messages_op_def apply_replace_messages_op_def apply_patch_message_op_def
      apply_delete_messages_op_def split: sum.splits if_splits)

lemma artifact_effect: "run_inv s \<Longrightarrow> op_effect uuid s (fst (apply_create_artifact_op emits delta a reason s))"
  by (auto simp: apply_create_artifact_op_def op_effect_def advances_def run_inv_def Let_def mirrored_def
      split: pyval.splits)

lemma suspend_effect: "run_inv s \<Longrightarrow> op_effect uuid s (request_suspend sig pl s)"
  by (auto simp: request_suspend_def set_suspend_def op_effect_def advances_def run_inv_def)

lemma op_effect_fresh:
  "\<lbrakk>op_effect ((uuids :: nat \<Rightarrow> string) n) s t; inj uuids; n < m; fresh_uuid (uuids m) s\<rbrakk> \<Longrightarrow> fresh_uuid (uuids m) t"
proof -
  assume a: "op_effect (uuids n) s t" "inj uuids" "n < m" "fresh_uuid (uuids m) s"
  then have "uuids m \<noteq> uuids n" using inj_eq [OF a(2)] by auto
  then show ?thesis using a by (auto simp: op_effect_def fresh_uuid_def)
qed

lemma apply_context_ops_advances:
  "\<lbrakk>apply_context_ops emits uuids delta n os vid events s = ((r, t), es); run_inv s; inj uuids;
    \<forall>m \<ge> n. fresh_uuid (uuids m) s\<rbrakk> \<Longrightarrow> advances s t"
proof (induction os arbitrary: n vid events s)
  case Nil
  then show ?case by (auto simp: advances_def)
next
  case (Cons op os)
  have cont: "advances s t" if "op_effect (uuids n) s s1"
    "apply_context_ops emits uuids delta (Suc n) os vid1 events1 s1 = ((r, t), es)" for s1 vid1 events1
  proof -
    have "advances s s1" "run_inv s1" using that(1) by (simp_all add: op_effect_def advances_def)
    moreover have "\<forall>m \<ge> Suc n. fresh_uuid (uuids m) s1"
      using Cons.prems(3,4) op_effect_fresh [of uuids n s s1, OF that(1)] by simp
    ultimately show ?thesis using Cons.IH [OF that(2) _ Cons.prems(3)] advances_trans by blast
  qed
  have fresh: "fresh_uuid (uuids n) s" using Cons.prems(4) by simp
  note eff = message_ops_effect [OF Cons.prems(2) fresh]
  have fin: "advances s s1" if "op_effect (uuids n) s s1" for s1 using that by (simp add: op_effect_def)
  show ?case
  proof (cases op)
    case (CtxInsert t' i ms reason)
    then show ?thesis using Cons.prems(1) by (auto split: prod.splits sum.splits dest!: eff(1) intro: cont fin)
  next
    case (CtxReplace t' ms a b reason)
    then show ?thesis using Cons.prems(1) by (auto split: prod.splits sum.splits dest!: eff(2) intro: cont fin)
  next
    case (CtxPatch t' sel patch reason)
    then show ?thesis using Cons.prems(1) by (auto split: prod.splits sum.splits dest!: eff(3) intro: cont fin)
  next
    case (CtxDelete t' sel reason)
    then show ?thesis using Cons.prems(1) by (auto split: prod.splits sum.splits dest!: eff(4) intro: cont fin)
  next
    case (CtxCreateArtifact a reason)
    then show ?thesis
      using Cons.prems(1) cont artifact_effect [OF Cons.prems(2), of "uuids n" emits delta a reason]
      by (auto split: prod.splits)
  next
    case (CtxEmitEvent ev)
    then show ?thesis using Cons.prems(1) cont [OF op_effect_same [OF Cons.prems(2)]] by simp
  next
    case (CtxRequestSuspend sig pl)
    then show ?thesis using Cons.prems(1) cont [OF suspend_effect [OF Cons.prems(2)]] by simp
  qed
qed

text \<open>
  Applying a run delta of message, artifact, event and suspension operations, whether it
  succeeds or stops at an error, leaves a run whose graph is well formed and append-only and
  whose latest version is the graph's, with the component buckets still mirroring their fields.
\<close>
theorem apply_run_delta_keeps_run_inv:
  assumes "apply_run_delta fr rb emits uuids delta s = ((r, t), events)"
    "run_inv s" "mirrored s" "inj uuids" "\<forall>m. fresh_uuid (uuids m) s"
  shows "run_inv t \<and> mirrored t \<and> prefix (versions (graph s)) (versions (graph t))"
proof -
  obtain r1 s1 es where ctx: "apply_context_ops emits uuids delta 0 (rd_context_ops delta) (latest_version_id s) [] s = ((r1, s1), es)"
    by (metis prod.exhaust)
  have a1: "advances s s1" using apply_context_ops_advances [OF ctx assms(2,4)] assms(5) by simp
  obtain e s2 where upd: "apply_state_updates fr rb (rd_state_updates delta) s1 = (e, s2)" by force
  have inv1: "run_inv s1" "mirrored s1" using a1 assms(3) by (auto simp: advances_def)
  have a2: "advances s1 s2"
    using apply_state_updates_frame [of s1 fr rb "rd_state_updates delta"]
      apply_state_updates_mirrored [of s1 fr rb "rd_state_updates delta"] upd inv1
    by (auto intro: same_versions_advances)
  have inv2: "run_inv s2" "mirrored s2" using a2 inv1(2) by (auto simp: advances_def)
  have a3: "advances s2 (request_suspend sig pl s2)" for sig pl
    using suspend_effect [OF inv2(1)] by (simp add: op_effect_def)
  have "t = s1 \<or> t = s2 \<or> (\<exists>sig pl. t = request_suspend sig pl s2)"
    using assms(1) unfolding apply_run_delta_def ctx by (auto simp: upd split: sum.splits option.splits)
  then have "advances s t" using a1 a2 a3 advances_trans by blast
  then show ?thesis using assms(3) by (simp add: advances_def)
qed

definition demo_uuids :: "nat \<Rightarrow> string" where
  "demo_uuids n = CHR ''x'' # replicate n CHR ''1''"

theorem apply_run_delta_keeps_run_inv_witness:
  "inj demo_uuids \<and> (\<forall>m. fresh_uuid (demo_uuids m) demo_run) \<and>
   run_inv (snd (fst (apply_run_delta (\<lambda>q. []) demo_rb True demo_uuids demo_run_delta demo_run)))"
proof -
  have i: "inj demo_uuids"
    by (rule injI) (metis demo_uuids_def length_replicate list.inject)
  have ids: "version_ids (graph demo_run) = [''kv_1'']" by code_simp
  have f: "\<forall>m. fresh_uuid (demo_uuids m) demo_run" by (simp add: fresh_uuid_def ids demo_uuids_def)
  have m: "mirrored demo_run"
    using run_step_advances [OF demo_run_step new_run_state_inv] new_run_state_mirrored by (simp add: advances_def)
  obtain r t es where e: "apply_run_delta (\<lambda>q. []) demo_rb True demo_uuids demo_run_delta demo_run = ((r, t), es)"
    by (metis prod.exhaust)
  show ?thesis using apply_run_delta_keeps_run_inv [OF e demo_run_inv m i f] i f e by simp
qed

subsection \<open>Artifacts\<close>

lemma fold_upsert_get:
  "dict_get (fold upsert_artifact as d) k =
     (case filter (\<lambda>a. artifact_key a = Some k) as of [] \<Rightarrow> dict_get d k | xs \<Rightarrow> Some (last xs))"
  by (induction as arbitrary: d) (auto simp: upsert_artifact_def split: option.splits list.splits)

lemma fold_upsert_last:
  "filter (\<lambda>a. artifact_key a = Some k) as \<noteq> [] \<Longrightarrow>
   dict_get (fold upsert_artifact as d) k = Some (last (filter (\<lambda>a. artifact_key a = Some k) as))"
  by (simp add: fold_upsert_get split: list.split)

lemma upsert_artifact_values:
  "snd ` set (upsert_artifact a d) \<subseteq> snd ` set d \<union> {x. x = a \<and> artifact_key x \<noteq> None}"
  using set_dict_set_subset [of "the (artifact_key a)" a d]
  by (cases "artifact_key a") (auto simp: upsert_artifact_def)

lemma fold_upsert_values:
  "snd ` set (fold upsert_artifact as d) \<subseteq> snd ` set d \<union> {x \<in> set as. artifact_key x \<noteq> None}"
proof (induction as arbitrary: d)
  case (Cons a as)
  have "snd ` set (fold upsert_artifact (a # as) d) \<subseteq>
      snd ` set (upsert_artifact a d) \<union> {x \<in> set as. artifact_key x \<noteq> None}"
    using Cons.IH [of "upsert_artifact a d"] by simp
  also have "\<dots> \<subseteq> snd ` set d \<union> {x \<in> set (a # as). artifact_key x \<noteq> None}"
    using upsert_artifact_values [of a d] by auto
  finally show ?case .
qed simp

text \<open>
  Recording an artifact with an id stores exactly that artifact under its id and keeps, for
  every other id, the last artifact recorded with it; but the rebuilt list holds identified
  artifacts only, so every artifact that was recorded earlier without an id is dropped.
\<close>
theorem create_artifact_keeps_identified_only:
  assumes "dict_get a ''artifact_id'' = Some (PyStr aid)" "aid \<noteq> []"
    "apply_create_artifact_op emits delta (PyDict a) reason s = (t, events)"
  shows "PyDict a \<in> set (artifacts t) \<and>
    (\<forall>x \<in> set (artifacts t). artifact_key x \<noteq> None \<and> (x = PyDict a \<or> x \<in> set (artifacts s))) \<and>
    (\<forall>k x. k \<noteq> aid \<longrightarrow> filter (\<lambda>y. artifact_key y = Some k) (artifacts s) \<noteq> [] \<longrightarrow>
       last (filter (\<lambda>y. artifact_key y = Some k) (artifacts s)) \<in> set (artifacts t))"
proof -
  have key: "artifact_key (PyDict a) = Some aid" using assms(1,2) by (simp add: artifact_key_def dget_def)
  have t: "artifacts t = map snd (fold upsert_artifact (artifacts s @ [PyDict a]) [])"
    using assms by (auto simp: apply_create_artifact_op_def Let_def dget_def upsert_artifacts_def)
  let ?d = "fold upsert_artifact (artifacts s @ [PyDict a]) []"
  have stored: "last (filter (\<lambda>y. artifact_key y = Some k) (artifacts s @ [PyDict a])) \<in> set (map snd ?d)"
    if "filter (\<lambda>y. artifact_key y = Some k) (artifacts s @ [PyDict a]) \<noteq> []" for k
  proof -
    have "dict_get ?d k = Some (last (filter (\<lambda>y. artifact_key y = Some k) (artifacts s @ [PyDict a])))"
      by (rule fold_upsert_last [OF that])
    then show ?thesis by (force dest: map_of_SomeD)
  qed
  have "PyDict a \<in> set (artifacts t)" using stored [of aid] key by (simp add: t)
  moreover have "artifact_key x \<noteq> None \<and> (x = PyDict a \<or> x \<in> set (artifacts s))" if "x \<in> set (artifacts t)" for x
    using fold_upsert_values [of "artifacts s @ [PyDict a]" "[]"] that unfolding t set_map by auto
  moreover have "last (filter (\<lambda>y. artifact_key y = Some k) (artifacts s)) \<in> set (artifacts t)"
    if "k \<noteq> aid" "filter (\<lambda>y. artifact_key y = Some k) (artifacts s) \<noteq> []" for k
    using stored [of k] that key by (simp add: t)
  ultimately show ?thesis by blast
qed

definition demo_anonymous :: run_state where
  "demo_anonymous = fst (apply_create_artifact_op False demo_run_delta (PyDict [(''kind'', PyStr ''log'')]) [] demo_run)"

theorem create_artifact_keeps_identified_only_witness:
  "artifacts demo_anonymous = [PyDict [(''kind'', PyStr ''log'')]] \<and>
   PyDict [(''kind'', PyStr ''log'')] \<notin> set (artifacts
     (fst (apply_create_artifact_op False demo_run_delta (PyDict [(''artifact_id'', PyStr ''a'')]) [] demo_anonymous)))"
proof -
  have l: "artifacts demo_anonymous = [PyDict [(''kind'', PyStr ''log'')]]" by code_simp
  obtain t es where e: "apply_create_artifact_op False demo_run_delta (PyDict [(''artifact_id'', PyStr ''a'')]) []
      demo_anonymous = (t, es)" by force
  have "artifact_key (PyDict [(''kind'', PyStr ''log'')]) = None" by (simp add: artifact_key_def dget_def)
  then show ?thesis
    using create_artifact_keeps_identified_only [of "[(''artifact_id'', PyStr ''a'')]" "''a''", OF _ _ e] l e by auto
qed

subsection \<open>Nested writes\<close>

lemma nested_get_PyNone: "nested_get PyNone path = PyNone"
  by (induction path) auto

lemma vget_dict_or_empty: "vget (PyDict (dict_or_empty v)) k = vget v k"
  by (cases v) (simp_all add: dget_def)

text \<open>
  A nested write stores the value at its path and disturbs no path that branches off it: after
  \<open>_set_nested_value\<close> the path reads the value, and every path that leaves it at some key
  reads what it read before. A non-empty path never raises.
\<close>
theorem nested_write_laws:
  assumes "path \<noteq> []"
  shows "\<exists>d'. set_nested_value d path v = Inr d' \<and> nested_get (PyDict d') path = v \<and>
     (\<forall>p k k' q q'. path = p @ k # q \<and> k' \<noteq> k \<longrightarrow>
        nested_get (PyDict d') (p @ k' # q') = nested_get (PyDict d) (p @ k' # q'))"
  using assms
proof (induction d path v rule: set_nested_value.induct)
  case (2 d key v)
  then show ?case by (auto simp: Cons_eq_append_conv)
next
  case (3 d key key' path v)
  let ?c = "dict_or_empty (dget d key)"
  obtain c where c: "set_nested_value ?c (key' # path) v = Inr c" "nested_get (PyDict c) (key' # path) = v"
    and other: "\<And>p k k' q q'. \<lbrakk>key' # path = p @ k # q; k' \<noteq> k\<rbrakk> \<Longrightarrow>
       nested_get (PyDict c) (p @ k' # q') = nested_get (PyDict ?c) (p @ k' # q')"
    using "3.IH" by blast
  have "nested_get (PyDict (dict_set key (PyDict c) d)) (p @ k' # q') = nested_get (PyDict d) (p @ k' # q')"
    if "key # key' # path = p @ k # q" "k' \<noteq> k" for p k k' q q'
  proof (cases p)
    case Nil
    then show ?thesis using that by simp
  next
    case (Cons a p')
    have "nested_get (PyDict c) (p' @ k' # q') = nested_get (PyDict ?c) (p' @ k' # q')"
      using other [of p' k q k' q'] that Cons by simp
    also have "\<dots> = nested_get (dget d key) (p' @ k' # q')"
      by (cases p') (simp_all only: append.simps nested_get.simps vget_dict_or_empty)
    finally show ?thesis using that Cons by simp
  qed
  then show ?case using c by auto
qed simp

theorem nested_write_laws_witness:
  "\<exists>d'. set_nested_value [(''a'', PyInt 1)] [''m'', ''x''] (PyInt 7) = Inr d' \<and>
        nested_get (PyDict d') [''m'', ''x''] = PyInt 7 \<and> nested_get (PyDict d') [''a''] = PyInt 1"
proof -
  obtain d' where d': "set_nested_value [(''a'', PyInt 1)] [''m'', ''x''] (PyInt 7) = Inr d'"
    "nested_get (PyDict d') [''m'', ''x''] = PyInt 7"
    "\<forall>p k k' q q'. [''m'', ''x''] = p @ k # q \<and> k' \<noteq> k \<longrightarrow>
       nested_get (PyDict d') (p @ k' # q') = nested_get (PyDict [(''a'', PyInt 1)]) (p @ k' # q')"
    using nested_write_laws [of "[''m'', ''x'']"] by (metis list.distinct(1))
  from d'(3) [rule_format, of "[]" "''m''" "[''x'']" "''a''" "[]"]
  have "nested_get (PyDict d') [''a''] = PyInt 1" by (simp add: dget_def)
  then show ?thesis using d' by blast
qed

end
