(* ===== verification/Optimizers.thy ===== *)
theory Optimizers
  imports RunState
begin

section \<open>Context optimizers\<close>

text \<open>
  \<open>optimizers/common.py\<close>, \<open>base.py\<close>, \<open>last_n.py\<close>, \<open>sliding_window.py\<close> and
  \<open>tool_pair_safety.py\<close>: the harnesses that shorten the model context before a model call.
  An optimizer reads the latest messages of the run and proposes a delta, which the kernel
  applies as in \<open>RunState\<close>. The text of a float is the argument \<open>fr\<close> and the rounded
  floating-point product of the window share is the argument \<open>fmul\<close>.
  The locale \<open>context_filter\<close> states what the optimizers promise about the messages (the
  system messages stay as they are), and \<open>turn_window\<close> extends it for the ones that keep a
  suffix of whole turns; both are interpreted on the optimizers' own rewriting functions.
\<close>

subsection \<open>Common helpers\<close>

definition content_block_text :: "(rat \<Rightarrow> string) \<Rightarrow> pyval \<Rightarrow> string" where
  "content_block_text fr block =
     (if \<not> is_dict block then []
      else let ty = vget block ''type'' in
        if ty \<in> {PyStr ''text'', PyStr ''input_text'', PyStr ''output_text''}
        then (let text = (if vhas block ''text'' then vget block ''text'' else PyStr [])
              in if truthy text then py_str fr text else [])
        else if ty \<in> {PyStr ''image'', PyStr ''input_image''} then ''[image]''
        else if ty \<in> {PyStr ''pdf'', PyStr ''document'', PyStr ''input_file''} then ''[pdf]''
        else json_dumps fr block)"

definition content_to_text :: "(rat \<Rightarrow> string) \<Rightarrow> pyval \<Rightarrow> string" where
  "content_to_text fr content =
     (case content of
        PyStr s \<Rightarrow> s
      | PyList blocks \<Rightarrow> concat (map (content_block_text fr) blocks)
      | PyDict d \<Rightarrow> json_dumps fr (PyDict d)
      | PyNone \<Rightarrow> []
      | v \<Rightarrow> py_str fr v)"

definition message_to_text :: "(rat \<Rightarrow> string) \<Rightarrow> pyval \<Rightarrow> string" where
  "message_to_text fr message =
     (if \<not> is_dict message then []
      else if vhas message ''content'' then content_to_text fr (vget message ''content'')
      else
        let keys = filter (vhas message) [''arguments'', ''output'', ''result'', ''text'']
        in if keys \<noteq> []
           then join '' '' (map (\<lambda>k. case vget message k of PyStr s \<Rightarrow> s | v \<Rightarrow> json_dumps fr v) keys)
           else json_dumps fr message)"

definition message_chars :: "(rat \<Rightarrow> string) \<Rightarrow> pyval \<Rightarrow> nat" where
  "message_chars fr message =
     (if \<not> is_dict message then 0
      else (case vget message ''role'' of PyStr r \<Rightarrow> length r + 1 | _ \<Rightarrow> 0) + length (message_to_text fr message))"

definition estimate_tokens :: "(rat \<Rightarrow> string) \<Rightarrow> pyval list \<Rightarrow> nat" where
  "estimate_tokens fr ms = (let total = sum_list (map (message_chars fr) ms) in (total + 3) div 4)"

definition is_system :: "pyval \<Rightarrow> bool" where
  "is_system m = (is_dict m \<and> vget m ''role'' = PyStr ''system'')"

definition split_system_and_non_system :: "pyval list \<Rightarrow> pyval list \<times> pyval list" where
  "split_system_and_non_system ms =
     (filter is_system ms, filter (\<lambda>m. is_dict m \<and> \<not> is_system m) ms)"

definition all_blocks :: "(pyval \<Rightarrow> bool) \<Rightarrow> pyval \<Rightarrow> bool" where
  "all_blocks P v = (case v of PyList bs \<Rightarrow> bs \<noteq> [] \<and> (\<forall>b \<in> set bs. is_dict b \<and> P b) | _ \<Rightarrow> False)"

definition is_tool_result_like_message :: "pyval \<Rightarrow> bool" where
  "is_tool_result_like_message m =
     (is_dict m \<and>
      (all_blocks (\<lambda>b. vget b ''type'' = PyStr ''tool_result'') (vget m ''content'') \<or>
       all_blocks (\<lambda>b. vhas b ''function_response'') (vget m ''parts'')))"

definition starts_turn :: "pyval \<Rightarrow> bool" where
  "starts_turn m = (vget m ''role'' = PyStr ''user'' \<and> \<not> is_tool_result_like_message m)"

fun split_turns_from :: "pyval list \<Rightarrow> pyval list \<Rightarrow> (pyval list) list" where
  "split_turns_from current [] = (if current = [] then [] else [current])"
| "split_turns_from current (m # ms) =
     (if starts_turn m \<and> current \<noteq> [] then current # split_turns_from [m] ms
      else split_turns_from (current @ [m]) ms)"

definition split_turns :: "pyval list \<Rightarrow> (pyval list) list" where
  "split_turns ms = split_turns_from [] ms"

fun latest_user_query_rev :: "(rat \<Rightarrow> string) \<Rightarrow> pyval list \<Rightarrow> string" where
  "latest_user_query_rev fr [] = []"
| "latest_user_query_rev fr (m # ms) =
     (let text = py_strip (message_to_text fr m) in
      if is_dict m \<and> vget m ''role'' = PyStr ''user'' \<and> text \<noteq> [] then text else latest_user_query_rev fr ms)"

definition latest_user_query :: "(rat \<Rightarrow> string) \<Rightarrow> pyval list \<Rightarrow> string" where
  "latest_user_query fr ms = latest_user_query_rev fr (rev ms)"

definition replace_non_system_span :: "pyval list \<Rightarrow> pyval list \<Rightarrow> pyval list \<Rightarrow> pyval list" where
  "replace_non_system_span ms replacement injected =
     fst (split_system_and_non_system ms) @ deepcopy_messages injected @ deepcopy_messages replacement"

subsection \<open>Deltas of an optimizer\<close>

definition optimizer_bucket :: "run_state \<Rightarrow> string \<Rightarrow> pydict" where
  "optimizer_bucket s name = dict_or_empty (dget (component_bucket (component_state s) ''optimizers'') name)"

definition build_state_updates :: "string \<Rightarrow> pydict option \<Rightarrow> update_value dict" where
  "build_state_updates name bucket =
     (case bucket of None \<Rightarrow> [] | Some b \<Rightarrow> [(''optimizer_state'', UVal (PyDict [(name, PyDict b)]))])"

definition state_only_delta :: "string \<Rightarrow> pydict option \<Rightarrow> pydict \<Rightarrow> update_value harness_delta option" where
  "state_only_delta name bucket tr =
     (if build_state_updates name bucket = [] \<and> tr = [] then None
      else Some \<lparr>delta_created_by = ''optimizer.'' @ name, base_version_id = None, rebase_to_latest = True,
                 ops = [], state_updates = build_state_updates name bucket, trace = tr, suspend = None\<rparr>)"

definition replace_messages_delta ::
  "string \<Rightarrow> run_state \<Rightarrow> pyval list \<Rightarrow> pyval list \<Rightarrow> pydict option \<Rightarrow> pydict \<Rightarrow> update_value harness_delta option" where
  "replace_messages_delta name s current ms bucket tr =
     (if py_eq (PyList current) (PyList ms) then state_only_delta name bucket tr
      else Some \<lparr>delta_created_by = ''optimizer.'' @ name, base_version_id = latest_version_id s,
                 rebase_to_latest = True, ops = [ReplaceSpanOp 0 (int (length current)) ms],
                 state_updates = build_state_updates name bucket, trace = tr, suspend = None\<rparr>)"

definition max_context_window_tokens :: "run_state \<Rightarrow> (py_exc, int) res" where
  "max_context_window_tokens s =
     (let v = dget (provider_state s) ''max_context_window_tokens'' in
      bindr (if truthy v then py_int v else Inr 0) (\<lambda>i. Inr (max 0 i)))"

subsection \<open>Last turns\<close>

definition kept_last_turns :: "int \<Rightarrow> 'a list \<Rightarrow> 'a list" where
  "kept_last_turns n turns =
     (let k = max 0 n in if k > 0 then drop (length turns - nat k) turns else [])"

definition last_n_messages :: "int \<Rightarrow> pyval list \<Rightarrow> pyval list" where
  "last_n_messages n ms =
     (let turns = split_turns (snd (split_system_and_non_system ms))
      in replace_non_system_span ms (concat (kept_last_turns n turns)) [])"

definition summary_blocks :: "run_state \<Rightarrow> bool" where
  "summary_blocks s =
     (let st = (case dict_get (optimizer_state s) ''llm_summary'' of None \<Rightarrow> PyDict [] | Some v \<Rightarrow> v)
      in is_dict st \<and> vget st ''source_preservation_required'' = PyBool True)"

definition skip_reason :: pyval where
  "skip_reason = PyStr ''upstream_summary_replacement_unavailable''"

definition last_n_delta :: "int \<Rightarrow> run_state \<Rightarrow> (py_exc, update_value harness_delta option) res" where
  "last_n_delta n s =
     bindr (latest_messages s) (\<lambda>ms.
       let turns = split_turns (snd (split_system_and_non_system ms));
           total = PyInt (int (length turns));
           b1 = dict_set ''last_n_turns'' (PyInt (max 0 n)) (optimizer_bucket s ''last_n'') in
       if summary_blocks s
       then Inr (state_only_delta ''last_n''
         (Some (dict_set ''total_turn_count'' total (dict_set ''kept_turn_count'' total
            (dict_set ''skip_reason'' skip_reason (dict_set ''skipped'' (PyBool True) b1)))))
         [(''skipped'', PyBool True), (''skip_reason'', skip_reason), (''total_turn_count'', total)])
       else
         let kept = kept_last_turns n turns;
             kept_count = PyInt (int (length kept));
             b2 = dict_set ''total_turn_count'' total (dict_set ''kept_turn_count'' kept_count
                    (dict_del ''skip_reason'' (dict_set ''skipped'' (PyBool False) b1)))
         in Inr (replace_messages_delta ''last_n'' s ms (last_n_messages n ms) (Some b2)
              [(''kept_turn_count'', kept_count), (''total_turn_count'', total)]))"

subsection \<open>Sliding window\<close>

definition compute_effective_budget :: "(int \<Rightarrow> rat \<Rightarrow> rat) \<Rightarrow> rat \<Rightarrow> int option \<Rightarrow> int \<Rightarrow> int option" where
  "compute_effective_budget fmul pct abs_budget max_ctx =
     (let pct_budget = (if max_ctx > 0 then Some (py_trunc (fmul max_ctx pct)) else None) in
      case (pct_budget, abs_budget) of
        (Some p, Some a) \<Rightarrow> Some (min p a)
      | (Some p, None) \<Rightarrow> if p \<noteq> 0 then Some p else None
      | (None, a) \<Rightarrow> a)"

text \<open>The loop over the turns from the latest: it stops at the first that does not fit.\<close>

fun window_loop :: "(rat \<Rightarrow> string) \<Rightarrow> int \<Rightarrow> (pyval list) list \<Rightarrow> nat \<Rightarrow> (pyval list) list \<Rightarrow> (pyval list) list" where
  "window_loop fr remaining [] used kept = kept"
| "window_loop fr remaining (turn # earlier) used kept =
     (if int (used + estimate_tokens fr turn) > remaining then kept
      else window_loop fr remaining earlier (used + estimate_tokens fr turn) (turn # kept))"

definition fitting_turns :: "(rat \<Rightarrow> string) \<Rightarrow> int \<Rightarrow> (pyval list) list \<Rightarrow> (pyval list) list" where
  "fitting_turns fr remaining turns = (if remaining \<le> 0 then [] else window_loop fr remaining (rev turns) 0 [])"

definition kept_window_turns :: "(rat \<Rightarrow> string) \<Rightarrow> int \<Rightarrow> (pyval list) list \<Rightarrow> (pyval list) list" where
  "kept_window_turns fr remaining turns =
     (if turns \<noteq> [] \<and> fitting_turns fr remaining turns = [] then [last turns] else fitting_turns fr remaining turns)"

definition remaining_budget :: "(rat \<Rightarrow> string) \<Rightarrow> int \<Rightarrow> pyval list \<Rightarrow> int" where
  "remaining_budget fr budget ms = budget - int (estimate_tokens fr (fst (split_system_and_non_system ms)))"

definition window_messages :: "(rat \<Rightarrow> string) \<Rightarrow> int \<Rightarrow> pyval list \<Rightarrow> pyval list" where
  "window_messages fr budget ms =
     (let turns = split_turns (snd (split_system_and_non_system ms))
      in replace_non_system_span ms (concat (kept_window_turns fr (remaining_budget fr budget ms) turns)) [])"

definition sliding_window_delta ::
  "(rat \<Rightarrow> string) \<Rightarrow> (int \<Rightarrow> rat \<Rightarrow> rat) \<Rightarrow> rat \<Rightarrow> int option \<Rightarrow> run_state \<Rightarrow>
   (py_exc, update_value harness_delta option) res" where
  "sliding_window_delta fr fmul pct abs_budget s =
     bindr (max_context_window_tokens s) (\<lambda>max_ctx. case compute_effective_budget fmul pct abs_budget max_ctx of
        None \<Rightarrow> Inr None
      | Some budget \<Rightarrow>
          if budget \<le> 0 then Inr None
          else bindr (latest_messages s) (\<lambda>ms.
            let sys_tokens = estimate_tokens fr (fst (split_system_and_non_system ms));
                turns = split_turns (snd (split_system_and_non_system ms));
                kept = kept_window_turns fr (budget - int sys_tokens) turns;
                forced = (turns \<noteq> [] \<and> fitting_turns fr (budget - int sys_tokens) turns = []);
                used = PyInt (int (estimate_tokens fr (concat kept)));
                kc = PyInt (int (length kept)); tc = PyInt (int (length turns));
                dc = PyInt (int (length turns) - int (length kept));
                bucket = dict_update (optimizer_bucket s ''sliding_window'')
                  [(''effective_budget_tokens'', PyInt budget), (''system_tokens'', PyInt (int sys_tokens)),
                   (''kept_turn_count'', kc), (''total_turn_count'', tc), (''dropped_turn_count'', dc),
                   (''tokens_used'', used), (''forced_keep_latest_turn'', PyBool forced)]
            in Inr (replace_messages_delta ''sliding_window'' s ms (window_messages fr budget ms) (Some bucket)
                 [(''kept_turn_count'', kc), (''total_turn_count'', tc), (''dropped_turn_count'', dc),
                  (''budget_tokens'', PyInt budget), (''used_tokens'', used),
                  (''forced_keep_latest_turn'', PyBool forced)])))"

subsection \<open>Tool pair safety\<close>

fun nonempty_text :: "pyval \<Rightarrow> string list" where
  "nonempty_text (PyStr s) = (if s = [] then [] else [s])"
| "nonempty_text _ = []"

definition extract_tool_use_ids :: "pyval \<Rightarrow> string list" where
  "extract_tool_use_ids m =
     concat (map (\<lambda>b. nonempty_text (vget b ''id''))
       (filter (\<lambda>b. is_dict b \<and> vget b ''type'' = PyStr ''tool_use'') (items_of (vget m ''content''))))
     @ concat (map (\<lambda>tc. nonempty_text (vget tc ''id'')) (filter is_dict (items_of (vget m ''tool_calls''))))"

definition extract_tool_result_ids :: "pyval \<Rightarrow> string list" where
  "extract_tool_result_ids m =
     concat (map (\<lambda>b. nonempty_text (vget b ''tool_use_id''))
       (filter (\<lambda>b. is_dict b \<and> vget b ''type'' = PyStr ''tool_result'') (items_of (vget m ''content''))))
     @ nonempty_text (vget m ''tool_call_id'')"

definition all_result_ids :: "pyval list \<Rightarrow> string list" where
  "all_result_ids ms = concat (map extract_tool_result_ids (filter is_dict ms))"

text \<open>Keeping the items for which a test that may raise is false.\<close>

fun drop_if :: "(pyval \<Rightarrow> (py_exc, bool) res) \<Rightarrow> pyval list \<Rightarrow> (py_exc, pyval list) res" where
  "drop_if f [] = Inr []"
| "drop_if f (x # xs) =
     bindr (f x) (\<lambda>b. bindr (drop_if f xs) (\<lambda>ys. Inr (if b then ys else x # ys)))"

definition orphan_block :: "string list \<Rightarrow> pyval \<Rightarrow> (py_exc, bool) res" where
  "orphan_block orphaned b =
     (if is_dict b \<and> vget b ''type'' = PyStr ''tool_use'' then in_text_set (vget b ''id'') orphaned else Inr False)"

definition orphan_call :: "string list \<Rightarrow> pyval \<Rightarrow> (py_exc, bool) res" where
  "orphan_call orphaned tc = (if is_dict tc then in_text_set (vget tc ''id'') orphaned else Inr False)"

definition strip_content :: "string list \<Rightarrow> pydict \<Rightarrow> (py_exc, pydict) res" where
  "strip_content orphaned m =
     (case dget m ''content'' of
        PyList blocks \<Rightarrow>
          bindr (drop_if (orphan_block orphaned) blocks) (\<lambda>bs.
            Inr (dict_set ''content'' (if bs = [] then PyStr [] else PyList bs) m))
      | _ \<Rightarrow> Inr m)"

definition strip_tool_calls :: "string list \<Rightarrow> pydict \<Rightarrow> (py_exc, pydict) res" where
  "strip_tool_calls orphaned m =
     (case dget m ''tool_calls'' of
        PyList calls \<Rightarrow>
          bindr (drop_if (orphan_call orphaned) calls) (\<lambda>cs.
            Inr (if cs = [] then dict_del ''tool_calls'' m else dict_set ''tool_calls'' (PyList cs) m))
      | _ \<Rightarrow> Inr m)"

definition clean_message :: "string list \<Rightarrow> pyval \<Rightarrow> (py_exc, pyval list) res" where
  "clean_message result_ids m =
     (case m of
        PyDict d \<Rightarrow>
          (let orphaned = filter (\<lambda>i. i \<notin> set result_ids) (extract_tool_use_ids m) in
           if dget d ''role'' \<noteq> PyStr ''assistant'' \<or> orphaned = [] then Inr [m]
           else bindr (strip_content orphaned d) (\<lambda>d1. bindr (strip_tool_calls orphaned d1) (\<lambda>d2.
             if dget d2 ''content'' \<notin> {PyStr [], PyList [], PyNone} \<or> truthy (dget d2 ''tool_calls'')
             then Inr [PyDict d2] else Inr [])))
      | _ \<Rightarrow> Inr [m])"

fun clean_messages :: "string list \<Rightarrow> pyval list \<Rightarrow> (py_exc, pyval list) res" where
  "clean_messages result_ids [] = Inr []"
| "clean_messages result_ids (m # ms) =
     bindr (clean_message result_ids m) (\<lambda>c. bindr (clean_messages result_ids ms) (\<lambda>cs. Inr (c @ cs)))"

definition remove_orphaned_tool_uses :: "pyval list \<Rightarrow> (py_exc, pyval list) res" where
  "remove_orphaned_tool_uses ms = clean_messages (all_result_ids ms) ms"

definition tool_pair_safety_delta :: "run_state \<Rightarrow> (py_exc, update_value harness_delta option) res" where
  "tool_pair_safety_delta s =
     bindr (latest_messages s) (\<lambda>ms.
     let non_system = snd (split_system_and_non_system ms) in
     bindr (remove_orphaned_tool_uses non_system) (\<lambda>cleaned.
       if length cleaned = length non_system then Inr None
       else Inr (replace_messages_delta ''tool_pair_safety'' s ms (replace_non_system_span ms cleaned [])
              (Some [(''removed_orphans'', PyInt (int (length non_system) - int (length cleaned)))]) [])))"

subsection \<open>Turns\<close>

lemma concat_split_turns_from: "concat (split_turns_from cur ms) = cur @ ms"
  by (induction cur ms rule: split_turns_from.induct) auto

lemma split_turns_from_nonempty: "[] \<notin> set (split_turns_from cur ms)"
  by (induction cur ms rule: split_turns_from.induct) auto

lemma split_turns_from_heads:
  "\<forall>turn \<in> set (tl (split_turns_from cur ms)). starts_turn (hd turn)"
  "cur \<noteq> [] \<Longrightarrow> split_turns_from cur ms \<noteq> [] \<and> hd (hd (split_turns_from cur ms)) = hd cur"
proof (induction cur ms rule: split_turns_from.induct)
  case (2 cur m ms)
  {
    case 1
    show ?case
    proof (cases "starts_turn m \<and> cur \<noteq> []")
      case True
      then obtain t ts where t: "split_turns_from [m] ms = t # ts" "hd t = m"
        using "2.IH"(2) by (cases "split_turns_from [m] ms") auto
      then show ?thesis using True "2.IH"(1) by simp
    next
      case False
      then show ?thesis using "2.IH"(3) by auto
    qed
  next
    case 2
    then show ?case using "2.IH" by (auto simp: hd_append)
  }
qed auto

text \<open>
  Splitting into turns loses nothing and cuts only where a user speaks: the turns concatenate
  to the messages, none is empty, and every turn after the first begins with a user message
  that is not a tool result.
\<close>
theorem split_turns_partition:
  "concat (split_turns ms) = ms \<and> [] \<notin> set (split_turns ms) \<and>
   (\<forall>turn \<in> set (tl (split_turns ms)). starts_turn (hd turn))"
  using concat_split_turns_from [of "[]" ms] split_turns_from_nonempty [of "[]" ms] split_turns_from_heads(1) [of "[]" ms]
  by (simp add: split_turns_def)

subsection \<open>What an optimizer promises\<close>

lemma latest_messages_view:
  assumes "run_inv s" "latest_messages s = Inr ms" "latest_version_id s = Some l"
  shows "\<exists>v. dict_get (versions (graph s)) l = Some v \<and> messages v = ms"
proof -
  obtain v where v: "dict_get (versions (graph s)) l = Some v" "ms = deepcopy_messages (messages v)"
    using assms(2,3) by (auto simp: latest_messages_def get_messages_def get_version_def bindr_eq_Inr split: option.splits)
  then have "messages v = ms"
    using assms(1) map_of_SomeD [OF v(1)] by (auto simp: run_inv_def graph_inv_def deepcopy_messages_id)
  then show ?thesis using v by blast
qed

locale context_filter =
  fixes opt :: "pyval list \<Rightarrow> pyval list"
  assumes keeps_system: "filter is_system (opt ms) = filter is_system ms"
    and keeps_dicts: "\<forall>m \<in> set ms. is_dict m \<Longrightarrow> \<forall>m \<in> set (opt ms). is_dict m"
    and from_nothing: "opt [] = []"
begin

lemma iterate_keeps_system: "filter is_system ((opt ^^ n) ms) = filter is_system ms"
  by (induction n) (simp_all add: keeps_system)

lemma installs:
  assumes "run_inv s" "fresh_uuid uuid s" "latest_messages s = Inr ms"
    "replace_messages_delta name s ms (opt ms) bucket tr = Some d"
    "apply_delta fr rb uuid d s = (r, t)"
  shows "\<exists>out. latest_messages t = Inr out \<and> (out = opt ms \<or> out = ms \<and> py_eq (PyList ms) (PyList (opt ms))) \<and>
    filter is_system out = filter is_system ms"
proof (cases "py_eq (PyList ms) (PyList (opt ms))")
  case True
  then have d: "ops d = []"
    using assms(4) by (auto simp: replace_messages_delta_def state_only_delta_def split: if_splits)
  have "same_versions s t"
    using assms(5) unfolding apply_delta_def Let_def d
    by (auto dest!: finish_delta_frame split: sum.splits)
  then have "latest_messages t = Inr ms" using assms(3)
    by (cases "latest_version_id s") (simp_all add: latest_messages_def same_versions_def)
  then show ?thesis using True by blast
next
  case False
  then have d: "ops d = [ReplaceSpanOp 0 (int (length ms)) (opt ms)]" "rebase_to_latest d"
    using assms(4) by (auto simp: replace_messages_delta_def)
  have "ms \<noteq> []" using False from_nothing by (auto simp: py_eq_PyList)
  then obtain l where l: "latest_version_id s = Some l" using assms(3) by (auto simp: latest_messages_def split: option.splits)
  obtain v where v: "dict_get (versions (graph s)) l = Some v" "messages v = ms"
    using latest_messages_view [OF assms(1,3) l] by blast
  have dicts: "\<forall>m \<in> set ms. is_dict m" using assms(3)
    by (auto simp: latest_messages_def get_messages_def bindr_eq_Inr split: option.splits)
  obtain nv where nv: "versions (graph t) = versions (graph s) @ [(''kv_'' @ uuid, nv)]"
    "messages nv = fold edit_messages (ops d) ms" "latest_version_id t = Some (''kv_'' @ uuid)"
  proof -
    have h: "latest_version_id s \<noteq> None" "ops d \<noteq> []" "\<forall>op \<in> set (ops d). \<not> is_activate op"
      "l = (if rebase_to_latest d then the (latest_version_id s)
            else the (opt_or (base_version_id d) (latest_version_id s)))"
      by (simp_all add: l d)
    show thesis
      using apply_delta_edits [OF assms(1,2) h v(1), of fr rb] that assms(5) unfolding v(2) by auto
  qed
  have out: "messages nv = opt ms"
    using keeps_dicts [OF dicts] by (simp add: nv(2) d clamp_def deepcopy_messages_id)
  have "dict_get (versions (graph t)) (''kv_'' @ uuid) = Some nv"
  proof -
    have "dict_get (versions (graph s)) (''kv_'' @ uuid) = None"
      using assms(2) unfolding fresh_uuid_def version_ids_def dict_get_keys .
    then show ?thesis by (simp add: nv(1) map_add_def)
  qed
  then have "latest_messages t = Inr (opt ms)"
    using nv(3) out keeps_dicts [OF dicts]
    by (simp add: latest_messages_def get_messages_def get_version_def deepcopy_messages_id)
  then show ?thesis using keeps_system by blast
qed

end

text \<open>An optimizer that keeps the system messages and a suffix of the whole turns.\<close>

definition turns_of :: "pyval list \<Rightarrow> (pyval list) list" where
  "turns_of ms = split_turns (snd (split_system_and_non_system ms))"

lemma concat_turns_of: "concat (turns_of ms) = filter (\<lambda>m. is_dict m \<and> \<not> is_system m) ms"
  by (simp add: turns_of_def split_turns_def concat_split_turns_from split_system_and_non_system_def)

lemma turns_of_members: "m \<in> set (concat (drop k (turns_of ms))) \<Longrightarrow> is_dict m \<and> \<not> is_system m"
proof -
  assume "m \<in> set (concat (drop k (turns_of ms)))"
  then have "m \<in> set (concat (turns_of ms))" by (auto dest: in_set_dropD)
  then show ?thesis unfolding concat_turns_of by simp
qed

locale turn_window =
  fixes opt :: "pyval list \<Rightarrow> pyval list"
  assumes window: "\<exists>k. opt ms = filter is_system ms @ concat (drop k (turns_of ms))"
begin

lemma rest_is_suffix: "\<exists>dropped. filter (\<lambda>m. is_dict m \<and> \<not> is_system m) ms =
    dropped @ filter (\<lambda>m. is_dict m \<and> \<not> is_system m) (opt ms)"
proof -
  obtain k where k: "opt ms = filter is_system ms @ concat (drop k (turns_of ms))" using window by blast
  have "filter (\<lambda>m. is_dict m \<and> \<not> is_system m) (filter is_system ms) = []" by (simp add: filter_empty_conv)
  moreover have "filter (\<lambda>m. is_dict m \<and> \<not> is_system m) (concat (drop k (turns_of ms))) = concat (drop k (turns_of ms))"
    using turns_of_members [of _ k ms] by (simp add: filter_id_conv)
  ultimately have "filter (\<lambda>m. is_dict m \<and> \<not> is_system m) (opt ms) = concat (drop k (turns_of ms))"
    using k by simp
  moreover have "filter (\<lambda>m. is_dict m \<and> \<not> is_system m) ms = concat (take k (turns_of ms)) @ concat (drop k (turns_of ms))"
    unfolding concat_turns_of [symmetric] by (metis append_take_drop_id concat_append)
  ultimately show ?thesis by metis
qed

end

sublocale turn_window \<subseteq> context_filter opt
proof
  fix ms
  obtain k where k: "opt ms = filter is_system ms @ concat (drop k (turns_of ms))" using window by blast
  have "filter is_system (concat (drop k (turns_of ms))) = []"
    using turns_of_members by (fastforce simp: filter_empty_conv)
  then show "filter is_system (opt ms) = filter is_system ms" using k by simp
  show "\<forall>m \<in> set (opt ms). is_dict m"
    unfolding k using turns_of_members [of _ k ms] by (auto simp: is_system_def)
next
  obtain k where "opt [] = filter is_system [] @ concat (drop k (turns_of []))" using window by blast
  then show "opt [] = []" by (simp add: turns_of_def split_system_and_non_system_def split_turns_def)
qed

lemma replace_with_turns:
  "replace_non_system_span ms (concat (drop k (turns_of ms))) [] = filter is_system ms @ concat (drop k (turns_of ms))"
  using turns_of_members [of _ k ms]
  by (simp add: replace_non_system_span_def split_system_and_non_system_def deepcopy_messages_id)

lemma kept_last_turns_drop: "kept_last_turns n turns = drop (length turns - nat n) turns"
  by (auto simp: kept_last_turns_def Let_def)

lemma window_loop_take:
  "window_loop fr rem ts used kept = rev (take (length (window_loop fr rem ts used kept) - length kept) ts) @ kept \<and>
   length kept \<le> length (window_loop fr rem ts used kept)"
proof (induction fr rem ts used kept rule: window_loop.induct)
  case (2 fr remaining turn earlier used kept)
  show ?case
  proof (cases "int (used + estimate_tokens fr turn) > remaining")
    case False
    let ?w = "window_loop fr remaining earlier (used + estimate_tokens fr turn) (turn # kept)"
    have step: "window_loop fr remaining (turn # earlier) used kept = ?w" using False by simp
    have ih: "?w = rev (take (length ?w - Suc (length kept)) earlier) @ turn # kept" "Suc (length kept) \<le> length ?w"
      using 2 [OF False] by simp_all
    have "length ?w - length kept = Suc (length ?w - Suc (length kept))" using ih(2) by simp
    then have "rev (take (length ?w - length kept) (turn # earlier)) @ kept =
        rev (take (length ?w - Suc (length kept)) earlier) @ turn # kept" by simp
    then have "?w = rev (take (length ?w - length kept) (turn # earlier)) @ kept"
      using ih(1) by (rule trans [OF _ sym, rotated])
    moreover have "length kept \<le> length ?w" using ih(2) by (rule Suc_leD)
    ultimately show ?thesis unfolding step by (rule conjI)
  qed simp
qed simp

lemma fitting_turns_drop: "\<exists>k. fitting_turns fr rem turns = drop k turns"
proof (cases "rem \<le> 0")
  case True
  then show ?thesis by (auto simp: fitting_turns_def intro: exI [of _ "length turns"])
next
  case False
  let ?w = "window_loop fr rem (rev turns) 0 []"
  have "?w = rev (take (length ?w) (rev turns))" using window_loop_take [of fr rem "rev turns" 0 "[]"] by simp
  then have "?w = drop (length turns - length ?w) turns" by (simp add: take_rev)
  then show ?thesis using False by (auto simp: fitting_turns_def)
qed

lemma kept_window_turns_drop: "\<exists>k. kept_window_turns fr rem turns = drop k turns"
proof (cases "turns \<noteq> [] \<and> fitting_turns fr rem turns = []")
  case True
  then have k: "kept_window_turns fr rem turns = [last turns]"
    unfolding kept_window_turns_def by (rule if_P)
  obtain ys y where "turns = ys @ [y]" using True by (cases turns rule: rev_cases) auto
  then have "[last turns] = drop (length ys) turns" by simp
  then show ?thesis unfolding k by blast
next
  case False
  then have "kept_window_turns fr rem turns = fitting_turns fr rem turns"
    unfolding kept_window_turns_def by (rule if_not_P)
  then show ?thesis using fitting_turns_drop [of fr rem turns] by simp
qed

interpretation last_n: turn_window "last_n_messages n" for n
proof
  fix ms
  show "\<exists>k. last_n_messages n ms = filter is_system ms @ concat (drop k (turns_of ms))"
    unfolding last_n_messages_def Let_def turns_of_def [symmetric] kept_last_turns_drop replace_with_turns by blast
qed

interpretation sliding: turn_window "window_messages fr budget" for fr budget
proof
  fix ms
  obtain k where k: "kept_window_turns fr (remaining_budget fr budget ms) (turns_of ms) = drop k (turns_of ms)"
    using kept_window_turns_drop by blast
  show "\<exists>k. window_messages fr budget ms = filter is_system ms @ concat (drop k (turns_of ms))"
    unfolding window_messages_def Let_def turns_of_def [symmetric] k replace_with_turns by blast
qed

subsection \<open>Properties\<close>

text \<open>
  The last-n optimizer, applied through the kernel, leaves as the latest messages all system
  messages followed by exactly the last n whole turns (or messages equal to those it had, when
  nothing changes): no system message is lost and no turn is cut.
\<close>
theorem last_n_installs_last_turns:
  assumes "run_inv s" "fresh_uuid uuid s" "latest_messages s = Inr ms" "\<not> summary_blocks s"
    "last_n_delta n s = Inr (Some d)" "apply_delta fr rb uuid d s = (r, t)"
    "target = filter is_system ms @ concat (drop (length (turns_of ms) - nat n) (turns_of ms))"
  shows "\<exists>out. latest_messages t = Inr out \<and>
    (out = target \<or> out = ms \<and> py_eq (PyList ms) (PyList target)) \<and>
    filter is_system out = filter is_system ms"
proof -
  have target: "last_n_messages n ms = target"
    unfolding last_n_messages_def Let_def turns_of_def [symmetric] kept_last_turns_drop replace_with_turns assms(7) ..
  obtain bucket tr where "replace_messages_delta ''last_n'' s ms (last_n_messages n ms) bucket tr = Some d"
    using assms(3,4,5) by (auto simp: last_n_delta_def Let_def)
  from last_n.installs [OF assms(1,2,3) this assms(6)] show ?thesis unfolding target .
qed

lemma replace_messages_delta_Some: "\<exists>d. replace_messages_delta name s current ms (Some b) tr = Some d"
  by (simp add: replace_messages_delta_def state_only_delta_def build_state_updates_def)

definition demo_messages :: "pyval list" where
  "demo_messages = [PyDict [(''role'', PyStr ''system'')], PyDict [(''role'', PyStr ''user'')],
     PyDict [(''role'', PyStr ''assistant'')], PyDict [(''role'', PyStr ''user'')]]"

definition demo_chat :: run_state where
  "demo_chat = snd (seed_messages ''1'' demo_messages (Some ''seed'') PyNone new_run_state)"

lemma demo_chat_inv: "run_inv demo_chat"
proof -
  have "run_step (\<lambda>q. []) demo_rb new_run_state demo_chat"
    by (rule run_step.seeded [of "''1''" demo_messages "Some ''seed''" PyNone _
          "fst (seed_messages ''1'' demo_messages (Some ''seed'') PyNone new_run_state)"])
      (simp_all add: demo_chat_def fresh_uuid_def version_ids_def new_run_state_def
        sync_all_component_state_def Let_def empty_graph_def)
  then show ?thesis using run_step_advances new_run_state_inv by (simp add: advances_def)
qed

theorem last_n_installs_last_turns_witness:
  "latest_messages demo_chat = Inr demo_messages \<and> \<not> summary_blocks demo_chat \<and>
   (\<exists>d r t. last_n_delta 1 demo_chat = Inr (Some d) \<and> apply_delta (\<lambda>q. []) demo_rb ''2'' d demo_chat = (r, t) \<and>
      latest_messages t = Inr [PyDict [(''role'', PyStr ''system'')], PyDict [(''role'', PyStr ''user'')]])"
proof -
  have m: "latest_messages demo_chat = Inr demo_messages" by code_simp
  have f: "fresh_uuid ''2'' demo_chat" by code_simp
  have b: "\<not> summary_blocks demo_chat" by code_simp
  have "\<exists>d. last_n_delta 1 demo_chat = Inr (Some d)"
    by (simp add: last_n_delta_def Let_def m b replace_messages_delta_Some)
  then obtain d where d: "last_n_delta 1 demo_chat = Inr (Some d)" by blast
  obtain r t where e: "apply_delta (\<lambda>q. []) demo_rb ''2'' d demo_chat = (r, t)" by force
  have tg: "filter is_system demo_messages @ concat (drop (length (turns_of demo_messages) - nat 1) (turns_of demo_messages))
      = [PyDict [(''role'', PyStr ''system'')], PyDict [(''role'', PyStr ''user'')]]" by code_simp
  have ne: "\<not> py_eq (PyList demo_messages) (PyList [PyDict [(''role'', PyStr ''system'')], PyDict [(''role'', PyStr ''user'')]])"
    by (simp add: py_eq_PyList demo_messages_def)
  have "latest_messages t = Inr [PyDict [(''role'', PyStr ''system'')], PyDict [(''role'', PyStr ''user'')]]"
    using last_n_installs_last_turns [OF demo_chat_inv f m b d e refl] unfolding tg using ne by blast
  then show ?thesis using m b d e by blast
qed

lemma window_loop_fits:
  "\<lbrakk>int used \<le> rem; used = sum_list (map (estimate_tokens fr) kept)\<rbrakk> \<Longrightarrow>
   \<exists>m \<le> length ts. window_loop fr rem ts used kept = rev (take m ts) @ kept \<and>
     int (sum_list (map (estimate_tokens fr) (rev (take m ts) @ kept))) \<le> rem \<and>
     (m < length ts \<longrightarrow> rem < int (sum_list (map (estimate_tokens fr) (ts ! m # rev (take m ts) @ kept))))"
proof (induction fr rem ts used kept rule: window_loop.induct)
  case (2 fr remaining turn earlier used kept)
  show ?case
  proof (cases "int (used + estimate_tokens fr turn) > remaining")
    case True
    then show ?thesis using "2.prems" by (intro exI [of _ 0]) simp
  next
    case False
    then obtain m where "m \<le> length earlier"
      "window_loop fr remaining (turn # earlier) used kept = rev (take m earlier) @ turn # kept"
      "int (sum_list (map (estimate_tokens fr) (rev (take m earlier) @ turn # kept))) \<le> remaining"
      "m < length earlier \<longrightarrow>
         remaining < int (sum_list (map (estimate_tokens fr) (earlier ! m # rev (take m earlier) @ turn # kept)))"
      using "2.IH" "2.prems" by (auto simp: add.commute)
    then show ?thesis by (intro exI [of _ "Suc m"]) simp
  qed
qed simp

lemma sum_drop_mono:
  fixes f :: "'a \<Rightarrow> nat"
  assumes "j \<le> k"
  shows "sum_list (map f (drop k xs)) \<le> sum_list (map f (drop j xs))"
proof -
  have "drop j xs = take (k - j) (drop j xs) @ drop k xs"
    using append_take_drop_id [of "k - j" "drop j xs"] assms by simp
  then have "sum_list (map f (drop j xs)) = sum_list (map f (take (k - j) (drop j xs))) + sum_list (map f (drop k xs))"
    by (metis map_append sum_list_append)
  then show ?thesis by simp
qed

lemma fitting_turns_fits:
  assumes "0 < rem"
  shows "\<exists>k \<le> length turns. fitting_turns fr rem turns = drop k turns \<and>
    int (sum_list (map (estimate_tokens fr) (drop k turns))) \<le> rem \<and>
    (0 < k \<longrightarrow> rem < int (sum_list (map (estimate_tokens fr) (drop (k - 1) turns))))"
proof -
  obtain m where m: "m \<le> length turns" "window_loop fr rem (rev turns) 0 [] = rev (take m (rev turns))"
    "int (sum_list (map (estimate_tokens fr) (rev (take m (rev turns))))) \<le> rem"
    "m < length turns \<longrightarrow> rem < int (sum_list (map (estimate_tokens fr) (rev turns ! m # rev (take m (rev turns)))))"
    using window_loop_fits [of 0 rem fr "[]" "rev turns"] assms by auto
  let ?k = "length turns - m"
  have k: "rev (take m (rev turns)) = drop ?k turns" by (simp add: take_rev)
  have "drop (?k - 1) turns = rev turns ! m # drop ?k turns" if "0 < ?k"
    using that m(1) by (simp add: rev_nth Cons_nth_drop_Suc [symmetric])
      (metis Cons_nth_drop_Suc Suc_diff_Suc diff_Suc_Suc diff_zero diff_less zero_less_diff)
  then show ?thesis
    using assms m unfolding k by (intro exI [of _ ?k]) (auto simp: fitting_turns_def)
qed

text \<open>
  C33: the sliding window keeps the longest suffix of whole turns that fits. The result is the
  system messages followed by the turns from some index on; those turns fit the budget left
  by the system messages, unless only the latest turn is kept; one more turn would not fit;
  and as long as there is a turn, at least the latest is kept.
\<close>
theorem sliding_window_keeps_maximal_suffix:
  "\<exists>k. window_messages fr budget ms = filter is_system ms @ concat (drop k (turns_of ms)) \<and>
     (turns_of ms \<noteq> [] \<longrightarrow> k < length (turns_of ms)) \<and>
     (int (sum_list (map (estimate_tokens fr) (drop k (turns_of ms)))) \<le> remaining_budget fr budget ms \<or>
      k = length (turns_of ms) - 1) \<and>
     (0 < k \<and> 0 < remaining_budget fr budget ms \<longrightarrow>
      remaining_budget fr budget ms < int (sum_list (map (estimate_tokens fr) (drop (k - 1) (turns_of ms)))))"
proof -
  let ?ts = "turns_of ms" and ?rem = "remaining_budget fr budget ms"
  let ?sum = "\<lambda>k. int (sum_list (map (estimate_tokens fr) (drop k ?ts)))"
  have form: "window_messages fr budget ms = filter is_system ms @ concat (drop k ?ts)"
    if "kept_window_turns fr ?rem ?ts = drop k ?ts" for k
    unfolding window_messages_def Let_def turns_of_def [symmetric] that replace_with_turns ..
  have last: "[last ?ts] = drop (length ?ts - 1) ?ts" if "?ts \<noteq> []"
    using that by (cases ?ts rule: rev_cases) auto
  show ?thesis
  proof (cases "?ts \<noteq> [] \<and> fitting_turns fr ?rem ?ts = []")
    case True
    have kept: "kept_window_turns fr ?rem ?ts = drop (length ?ts - 1) ?ts"
      unfolding kept_window_turns_def if_P [OF True] using last True by blast
    have "?rem < ?sum (length ?ts - 1 - 1)" if pos: "0 < ?rem"
    proof -
      obtain k where k: "k \<le> length ?ts" "fitting_turns fr ?rem ?ts = drop k ?ts" "0 < k \<longrightarrow> ?rem < ?sum (k - 1)"
        using fitting_turns_fits [OF pos] by blast
      then have "k = length ?ts" using True by simp
      then have "?rem < ?sum (length ?ts - 1)" using k(3) True by simp
      also have "?sum (length ?ts - 1) \<le> ?sum (length ?ts - 1 - 1)"
        by (simp add: sum_drop_mono del: drop_Suc)
      finally show ?thesis .
    qed
    then show ?thesis using form [OF kept] True by (intro exI [of _ "length ?ts - 1"]) auto
  next
    case False
    then have kept: "kept_window_turns fr ?rem ?ts = fitting_turns fr ?rem ?ts"
      unfolding kept_window_turns_def by (rule if_not_P)
    show ?thesis
    proof (cases "0 < ?rem")
      case True
      obtain k where k: "k \<le> length ?ts" "fitting_turns fr ?rem ?ts = drop k ?ts" "?sum k \<le> ?rem"
          "0 < k \<longrightarrow> ?rem < ?sum (k - 1)"
        using fitting_turns_fits [OF True] by blast
      have "?ts \<noteq> [] \<longrightarrow> k < length ?ts" using False k(1,2) by auto
      then show ?thesis using form [of k] k kept by auto
    next
      case neg: False
      then have "fitting_turns fr ?rem ?ts = []" by (simp add: fitting_turns_def)
      then have "?ts = []" using False by blast
      then show ?thesis using form [of 0] kept by (intro exI [of _ 0]) (simp add: fitting_turns_def)
    qed
  qed
qed

theorem sliding_window_keeps_maximal_suffix_witness:
  "\<exists>k < 2. window_messages (\<lambda>q. []) 100 demo_messages =
     filter is_system demo_messages @ concat (drop k (turns_of demo_messages))"
proof -
  have "length (turns_of demo_messages) = 2" by code_simp
  moreover from this have "turns_of demo_messages \<noteq> []" by auto
  ultimately show ?thesis
    using sliding_window_keeps_maximal_suffix [of "\<lambda>q. []" 100 demo_messages] by auto
qed

subsection \<open>Orphaned tool uses\<close>

lemma drop_if_keeps:
  "drop_if f xs = Inr ys \<Longrightarrow> set ys \<subseteq> {x \<in> set xs. f x = Inr False}"
proof (induction xs arbitrary: ys)
  case (Cons x xs)
  then obtain b zs where "f x = Inr b" "drop_if f xs = Inr zs" "ys = (if b then zs else x # zs)"
    by (auto simp: bindr_eq_Inr)
  then show ?case using Cons.IH [of zs] by (cases b) auto
qed auto

lemma dget_dict_del [simp]: "dget (dict_del k d) k' = (if k' = k then PyNone else dget d k')"
  by (simp add: dget_def)

lemma nonempty_text_iff: "i \<in> set (nonempty_text v) \<longleftrightarrow> v = PyStr i \<and> i \<noteq> []"
  by (cases v) auto

lemma strip_content_spec:
  assumes "strip_content orphaned d = Inr d1"
  shows "dget d1 ''tool_calls'' = dget d ''tool_calls'' \<and>
    set (items_of (dget d1 ''content'')) \<subseteq>
      {b \<in> set (items_of (dget d ''content'')). orphan_block orphaned b = Inr False}"
proof (cases "dget d ''content''")
  case (PyList blocks)
  then obtain bs where bs: "drop_if (orphan_block orphaned) blocks = Inr bs"
    and d1: "d1 = dict_set ''content'' (if bs = [] then PyStr [] else PyList bs) d"
    using assms by (auto simp: strip_content_def bindr_eq_Inr)
  show ?thesis using drop_if_keeps [OF bs] by (simp add: d1 PyList)
qed (use assms in \<open>simp_all add: strip_content_def\<close>)

lemma strip_tool_calls_spec:
  assumes "strip_tool_calls orphaned d = Inr d1"
  shows "dget d1 ''content'' = dget d ''content'' \<and>
    set (items_of (dget d1 ''tool_calls'')) \<subseteq>
      {c \<in> set (items_of (dget d ''tool_calls'')). orphan_call orphaned c = Inr False}"
proof (cases "dget d ''tool_calls''")
  case (PyList calls)
  then obtain cs where cs: "drop_if (orphan_call orphaned) calls = Inr cs"
    and d1: "d1 = (if cs = [] then dict_del ''tool_calls'' d else dict_set ''tool_calls'' (PyList cs) d)"
    using assms by (auto simp: strip_tool_calls_def bindr_eq_Inr)
  show ?thesis using drop_if_keeps [OF cs] by (simp add: d1 PyList)
qed (use assms in \<open>simp_all add: strip_tool_calls_def\<close>)

lemma stripped_uses_have_results:
  assumes "strip_content orphaned d = Inr d1" "strip_tool_calls orphaned d1 = Inr d2"
    "i \<in> set (extract_tool_use_ids (PyDict d2))"
  shows "i \<in> set (extract_tool_use_ids (PyDict d)) \<and> i \<notin> set orphaned"
proof -
  note c = strip_content_spec [OF assms(1)] and t = strip_tool_calls_spec [OF assms(2)]
  from assms(3) consider
      (block) b where "b \<in> set (items_of (dget d2 ''content''))" "is_dict b" "vget b ''type'' = PyStr ''tool_use''"
        "vget b ''id'' = PyStr i" "i \<noteq> []"
    | (call) tc where "tc \<in> set (items_of (dget d2 ''tool_calls''))" "is_dict tc" "vget tc ''id'' = PyStr i" "i \<noteq> []"
    by (auto simp: extract_tool_use_ids_def nonempty_text_iff)
  then show ?thesis
  proof cases
    case block
    then have "b \<in> set (items_of (dget d ''content''))" "orphan_block orphaned b = Inr False" using c t by auto
    moreover from this(2) have "i \<notin> set orphaned" using block by (auto simp: orphan_block_def in_text_set_def)
    ultimately show ?thesis using block by (auto simp: extract_tool_use_ids_def nonempty_text_iff)
  next
    case call
    then have "tc \<in> set (items_of (dget d ''tool_calls''))" "orphan_call orphaned tc = Inr False" using c t by auto
    moreover from this(2) have "i \<notin> set orphaned" using call by (auto simp: orphan_call_def in_text_set_def)
    ultimately show ?thesis using call by (auto simp: extract_tool_use_ids_def nonempty_text_iff)
  qed
qed

lemma clean_message_uses:
  assumes "clean_message ids m = Inr out" "x \<in> set out" "vget x ''role'' = PyStr ''assistant''"
  shows "set (extract_tool_use_ids x) \<subseteq> set ids"
proof (cases m)
  case (PyDict d)
  let ?orphaned = "filter (\<lambda>i. i \<notin> set ids) (extract_tool_use_ids m)"
  show ?thesis
  proof (cases "dget d ''role'' \<noteq> PyStr ''assistant'' \<or> ?orphaned = []")
    case True
    then have "x = m" using assms PyDict by (auto simp: clean_message_def Let_def)
    then show ?thesis using True assms(3) PyDict by (auto simp: filter_empty_conv)
  next
    case False
    then obtain d1 d2 where s: "strip_content ?orphaned d = Inr d1" "strip_tool_calls ?orphaned d1 = Inr d2" "x = PyDict d2"
      using assms PyDict by (auto simp: clean_message_def Let_def bindr_eq_Inr split: if_splits)
    show ?thesis using stripped_uses_have_results [OF s(1,2)] PyDict by (auto simp: s(3))
  qed
qed (use assms in \<open>auto simp: clean_message_def\<close>)

lemma clean_messages_uses:
  "\<lbrakk>clean_messages ids ms = Inr out; x \<in> set out; vget x ''role'' = PyStr ''assistant''\<rbrakk> \<Longrightarrow>
   set (extract_tool_use_ids x) \<subseteq> set ids"
proof (induction ms arbitrary: out)
  case (Cons m ms)
  then obtain c cs where "clean_message ids m = Inr c" "clean_messages ids ms = Inr cs" "out = c @ cs"
    by (auto simp: bindr_eq_Inr)
  then show ?case using Cons clean_message_uses [of ids m c x] by auto
qed simp

text \<open>
  After removing orphaned tool uses, every tool use or tool call left in an assistant message
  has a matching tool result among the messages.
\<close>
theorem no_orphaned_tool_use_left:
  assumes "remove_orphaned_tool_uses ms = Inr out" "x \<in> set out" "vget x ''role'' = PyStr ''assistant''"
  shows "\<forall>i \<in> set (extract_tool_use_ids x). \<exists>m \<in> set ms. is_dict m \<and> i \<in> set (extract_tool_result_ids m)"
  using clean_messages_uses [OF assms(1) [unfolded remove_orphaned_tool_uses_def] assms(2,3)]
  by (auto simp: all_result_ids_def)

definition demo_orphan :: "pyval list" where
  "demo_orphan = [PyDict [(''role'', PyStr ''assistant''),
     (''content'', PyList [PyDict [(''type'', PyStr ''text''), (''text'', PyStr ''ok'')],
                           PyDict [(''type'', PyStr ''tool_use''), (''id'', PyStr ''c1'')]])]]"

definition demo_orphan_cleaned :: "pyval list" where
  "demo_orphan_cleaned = [PyDict [(''role'', PyStr ''assistant''),
     (''content'', PyList [PyDict [(''type'', PyStr ''text''), (''text'', PyStr ''ok'')]])]]"

theorem no_orphaned_tool_use_left_witness:
  "remove_orphaned_tool_uses demo_orphan = Inr demo_orphan_cleaned \<and>
   set (extract_tool_use_ids (hd demo_orphan_cleaned)) = {}"
proof -
  have e: "remove_orphaned_tool_uses demo_orphan = Inr demo_orphan_cleaned" by code_simp
  have r: "vget (hd demo_orphan_cleaned) ''role'' = PyStr ''assistant''" "hd demo_orphan_cleaned \<in> set demo_orphan_cleaned"
    by (simp_all add: demo_orphan_cleaned_def dget_def)
  have n: "extract_tool_result_ids m = []" if "m \<in> set demo_orphan" for m
    using that by (simp add: demo_orphan_def extract_tool_result_ids_def dget_def)
  show ?thesis using no_orphaned_tool_use_left [OF e r(2,1)] e n by fastforce
qed

definition demo_orphan_run :: run_state where
  "demo_orphan_run = snd (seed_messages ''1'' demo_orphan (Some ''seed'') PyNone new_run_state)"

text \<open>
  The optimizer proposes the cleaned messages only when whole messages were dropped: here an
  orphaned tool use sits beside text in one message, the cleaned list has the same length, and
  no delta is proposed although the cleaning changed the messages.
\<close>

lemma tool_pair_safety_misses_mixed_message:
  "latest_messages demo_orphan_run = Inr demo_orphan \<and>
   remove_orphaned_tool_uses demo_orphan = Inr demo_orphan_cleaned \<and> demo_orphan_cleaned \<noteq> demo_orphan \<and>
   tool_pair_safety_delta demo_orphan_run = Inr None"
proof (intro conjI)
  show "latest_messages demo_orphan_run = Inr demo_orphan" by code_simp
  show "remove_orphaned_tool_uses demo_orphan = Inr demo_orphan_cleaned" by code_simp
  show "demo_orphan_cleaned \<noteq> demo_orphan" by (simp add: demo_orphan_cleaned_def demo_orphan_def)
  show "tool_pair_safety_delta demo_orphan_run = Inr None" by code_simp
qed

end
