(* ===== verification/Retry.thy ===== *)
theory Retry
  imports PyText
begin

section \<open>Retrying a model call\<close>

text \<open>
  \<open>retry/\<close>: the delay before a retry, the classification of errors, the retry loop and the
  wrapper that never repeats output the user has seen. The exception classes of the HTTP
  library and the provider SDKs are the constructors of \<open>error_kind\<close>; whether an error is a
  durable persistence failure (\<open>durability.is_durable_persistence_failure\<close>) is a field of
  the error. The random jitter is the argument \<open>noisy\<close>: the floating-point value of
  \<open>base + random() * jitter_ratio * base\<close>. The callbacks \<open>before_attempt\<close> (which may
  raise) and the model itself are arguments, indexed by the attempt number; what the other
  callbacks are called with is recorded in a trace.
  The lemmas: delays stay within the bounds of the configuration, the loop makes at most
  \<open>max_retries + 1\<close> attempts and each outcome says why it ended, and only the last attempt
  ever delivers visible output.
\<close>

subsection \<open>Configuration and delays\<close>

record retry_config =
  max_retries :: int
  base_delay_ms :: int
  max_delay_ms :: int
  jitter_ratio :: rat

definition default_retry_config :: retry_config where
  "default_retry_config = \<lparr>max_retries = 10, base_delay_ms = 500, max_delay_ms = 32000, jitter_ratio = 1 / 4\<rparr>"

definition backoff_base :: "nat \<Rightarrow> retry_config \<Rightarrow> int" where
  "backoff_base attempt cfg = min (base_delay_ms cfg * 2 ^ (attempt - 1)) (max_delay_ms cfg)"

definition compute_delay_ms ::
  "(int \<Rightarrow> rat) \<Rightarrow> nat \<Rightarrow> retry_config \<Rightarrow> int option \<Rightarrow> (py_exc, int) res" where
  "compute_delay_ms noisy attempt cfg retry_after =
     (if attempt < 1 then Inl (ValueExc (''attempt must be >= 1, got '' @ nat_text attempt))
      else case retry_after of
        Some ms \<Rightarrow> Inr (max 0 (min ms (max_delay_ms cfg)))
      | None \<Rightarrow> Inr (py_trunc (noisy (backoff_base attempt cfg))))"

subsection \<open>Classification\<close>

datatype error_kind =
    HttpxTransient
  | HttpxStatus int
  | SdkConnection
  | SdkStatus "int option"
  | OtherError

text \<open>What \<open>getattr(error, 'response', None)\<close> offers: no response, no headers, or the header value.\<close>

datatype retry_header = NoHeaders | RetryAfter pyval

record provider_error =
  err_kind :: error_kind
  err_durable :: bool
  err_header :: retry_header
  err_response_status :: "int option"

definition retryable_status :: "int \<Rightarrow> bool" where
  "retryable_status c = (c \<in> {408, 409, 429, 529} \<or> 500 \<le> c \<and> c < 600)"

definition is_retryable :: "provider_error \<Rightarrow> bool" where
  "is_retryable e =
     (\<not> err_durable e \<and>
      (case err_kind e of
         HttpxTransient \<Rightarrow> True
       | HttpxStatus c \<Rightarrow> retryable_status c
       | SdkConnection \<Rightarrow> True
       | SdkStatus c \<Rightarrow> (case c of None \<Rightarrow> False | Some s \<Rightarrow> retryable_status s)
       | OtherError \<Rightarrow> False))"

definition extract_retry_after_ms :: "provider_error \<Rightarrow> int option" where
  "extract_retry_after_ms e =
     (case err_header e of
        NoHeaders \<Rightarrow> None
      | RetryAfter v \<Rightarrow>
          if \<not> truthy v then None
          else (case py_int v of
                  Inl _ \<Rightarrow> None
                | Inr seconds \<Rightarrow> if seconds < 0 then None else Some (seconds * 1000)))"

definition failure_outcome :: "provider_error \<Rightarrow> string" where
  "failure_outcome e = (if err_response_status e \<noteq> None then ''failed'' else ''uncertain'')"

definition event_commits_user_visible_output :: "(rat \<Rightarrow> string) \<Rightarrow> pyval \<Rightarrow> bool" where
  "event_commits_user_visible_output fr event =
     (\<not> is_dict event \<or>
      str_or fr (vget event ''type'') [] \<notin> {''previous_response_id_fallback'', ''request_messages''})"

subsection \<open>The loop\<close>

text \<open>
  \<open>NoAttempt\<close> is the failing assertion after an empty loop, \<open>RaisedPy\<close> an exception of
  \<open>compute_delay_ms\<close>; \<open>Exhausted\<close> carries the two attributes of \<open>RetriesExhaustedError\<close>.
\<close>

datatype 'r retry_result =
    Returned 'r
  | Raised provider_error
  | RaisedPy py_exc
  | Exhausted provider_error int
  | NoAttempt

record retry_attempt =
  ra_attempt :: nat
  ra_error :: provider_error
  ra_delay_ms :: int
  ra_max_retries :: int

text \<open>What the callbacks receive: events, \<open>after_attempt\<close> facts, and \<open>on_retry\<close> records (one sleep each).\<close>

record retry_trace =
  delivered :: "(nat \<times> pyval) list"
  facts :: "(nat \<times> string \<times> string) list"
  retries :: "retry_attempt list"

definition empty_trace :: retry_trace where
  "empty_trace = \<lparr>delivered = [], facts = [], retries = []\<rparr>"

text \<open>
  One pass of the \<open>for\<close> loop per unit of the third last argument; \<open>gate\<close> tells whether the
  request has a callback, so that \<open>should_stop\<close> is the committed flag.
\<close>

fun retry_loop ::
  "(rat \<Rightarrow> string) \<Rightarrow> bool \<Rightarrow> (int \<Rightarrow> rat) \<Rightarrow> retry_config \<Rightarrow> (nat \<Rightarrow> provider_error option) \<Rightarrow>
   (nat \<Rightarrow> pyval list \<times> (provider_error + 'r)) \<Rightarrow> nat \<Rightarrow> nat \<Rightarrow> bool \<Rightarrow> retry_trace \<Rightarrow> 'r retry_result \<times> retry_trace" where
  "retry_loop fr gate noisy cfg admit fetch 0 n committed tr = (NoAttempt, tr)"
| "retry_loop fr gate noisy cfg admit fetch (Suc k) n committed tr =
     (case admit n of
        Some e \<Rightarrow> (Raised e, tr)
      | None \<Rightarrow>
          let events = fst (fetch n);
              committed1 = (committed \<or> (\<exists>ev \<in> set events. event_commits_user_visible_output fr ev));
              tr1 = (if gate then tr\<lparr>delivered := delivered tr @ map (Pair n) events\<rparr> else tr) in
          (case snd (fetch n) of
             Inr r \<Rightarrow> (Returned r, tr1\<lparr>facts := facts tr1 @ [(n, ''completed'', ''success'')]\<rparr>)
           | Inl e \<Rightarrow>
               let tr2 = tr1\<lparr>facts := facts tr1 @
                     [(n, failure_outcome e, if is_retryable e then ''retryable'' else ''terminal'')]\<rparr> in
               if \<not> is_retryable e then (Raised e, tr2)
               else if int n \<ge> max_retries cfg then (Exhausted e (max_retries cfg), tr2)
               else if gate \<and> committed1 then (Raised e, tr2)
               else (case compute_delay_ms noisy (Suc n) cfg (extract_retry_after_ms e) of
                       Inl x \<Rightarrow> (RaisedPy x, tr2)
                     | Inr d \<Rightarrow> retry_loop fr gate noisy cfg admit fetch k (Suc n) committed1
                                  (tr2\<lparr>retries := retries tr2 @
                                     [\<lparr>ra_attempt = Suc n, ra_error = e, ra_delay_ms = d,
                                       ra_max_retries = max_retries cfg\<rparr>]\<rparr>))))"

definition fetch_turn_with_retry ::
  "(rat \<Rightarrow> string) \<Rightarrow> bool \<Rightarrow> (int \<Rightarrow> rat) \<Rightarrow> retry_config \<Rightarrow> (nat \<Rightarrow> provider_error option) \<Rightarrow>
   (nat \<Rightarrow> pyval list \<times> (provider_error + 'r)) \<Rightarrow> 'r retry_result \<times> retry_trace" where
  "fetch_turn_with_retry fr has_callback noisy cfg admit fetch =
     retry_loop fr has_callback noisy cfg admit fetch (nat (max_retries cfg + 1)) 0 False empty_trace"

subsection \<open>Delays\<close>

lemma py_trunc_mono: "a \<le> b \<Longrightarrow> py_trunc a \<le> py_trunc b"
  unfolding py_trunc_def
  by (auto intro: floor_mono ceiling_mono order_trans [of _ 0])

lemma py_trunc_of_int [simp]: "py_trunc (of_int i) = i"
  by (simp add: py_trunc_def)

text \<open>
  Every delay is bounded. A server-provided delay is used but capped by \<open>max_delay_ms\<close>; the
  exponential delay lies between its base, which is capped by \<open>max_delay_ms\<close>, and that
  base plus the jitter share. With a non-negative configuration the call never raises for a
  positive attempt number.
\<close>
theorem delay_bounds:
  assumes "1 \<le> attempt" "0 \<le> base_delay_ms cfg" "0 \<le> max_delay_ms cfg" "0 \<le> jitter_ratio cfg"
    "\<And>b. 0 \<le> b \<Longrightarrow> of_int b \<le> noisy b \<and> noisy b \<le> of_int b * (1 + jitter_ratio cfg)"
  shows "\<exists>d. compute_delay_ms noisy attempt cfg retry_after = Inr d \<and> 0 \<le> d \<and>
    (case retry_after of
       Some ms \<Rightarrow> d = max 0 (min ms (max_delay_ms cfg))
     | None \<Rightarrow> backoff_base attempt cfg \<le> d \<and> of_int d \<le> of_int (max_delay_ms cfg) * (1 + jitter_ratio cfg))"
proof (cases retry_after)
  case (Some ms)
  then show ?thesis using assms by (simp add: compute_delay_ms_def)
next
  case None
  let ?b = "backoff_base attempt cfg"
  have b: "0 \<le> ?b" "?b \<le> max_delay_ms cfg" using assms(2,3) by (simp_all add: backoff_base_def)
  have lo: "?b \<le> py_trunc (noisy ?b)"
    using py_trunc_mono [of "of_int ?b" "noisy ?b"] assms(5) [OF b(1)] by simp
  have "0 \<le> noisy ?b" using assms(5) [OF b(1)] b(1) by (meson of_int_0_le_iff order_trans)
  then have "of_int (py_trunc (noisy ?b)) \<le> noisy ?b" by (simp add: py_trunc_def)
  also have "\<dots> \<le> of_int ?b * (1 + jitter_ratio cfg)" using assms(5) [OF b(1)] by simp
  also have "\<dots> \<le> of_int (max_delay_ms cfg) * (1 + jitter_ratio cfg)"
    using b(2) assms(4) by (intro mult_right_mono) simp_all
  finally show ?thesis using None assms(1) lo b(1) by (auto simp: compute_delay_ms_def)
qed

theorem delay_bounds_witness:
  "\<exists>d. compute_delay_ms of_int 3 default_retry_config None = Inr d \<and> 0 \<le> d \<and> 2000 \<le> d"
proof -
  have "of_int b \<le> (of_int b :: rat) \<and> (of_int b :: rat) \<le> of_int b * (1 + jitter_ratio default_retry_config)"
    if "0 \<le> b" for b
    using that by (simp add: default_retry_config_def)
  then have "\<exists>d. compute_delay_ms of_int 3 default_retry_config None = Inr d \<and> 0 \<le> d \<and>
      backoff_base 3 default_retry_config \<le> d"
    using delay_bounds [of 3 default_retry_config of_int None] by (auto simp: default_retry_config_def)
  moreover have "backoff_base 3 default_retry_config = 2000" by (simp add: backoff_base_def default_retry_config_def)
  ultimately show ?thesis by auto
qed

subsection \<open>Attempts and visible output\<close>

definition visible_events :: "(rat \<Rightarrow> string) \<Rightarrow> retry_trace \<Rightarrow> (nat \<times> pyval) list" where
  "visible_events fr tr = filter (\<lambda>p. event_commits_user_visible_output fr (snd p)) (delivered tr)"

lemma compute_delay_Suc: "\<exists>d. compute_delay_ms noisy (Suc n) cfg h = Inr d"
  by (simp add: compute_delay_ms_def split: option.split)

lemma visible_events_append:
  "visible_events fr (tr\<lparr>delivered := delivered tr @ map (Pair n) evs\<rparr>) =
   visible_events fr tr @ map (Pair n) (filter (event_commits_user_visible_output fr) evs)"
  by (simp add: visible_events_def filter_map comp_def)

lemma visible_events_other [simp]:
  "visible_events fr (tr\<lparr>facts := f\<rparr>) = visible_events fr tr"
  "visible_events fr (tr\<lparr>retries := d\<rparr>) = visible_events fr tr"
  by (simp_all add: visible_events_def)

lemma retry_loop_visible:
  "\<lbrakk>retry_loop fr True noisy cfg admit fetch k n committed tr = (res, tr');
    \<not> committed; visible_events fr tr = []\<rbrakk>
   \<Longrightarrow> \<exists>m. set (visible_events fr tr') \<subseteq> {m} \<times> set (fst (fetch m))"
proof (induction k arbitrary: n committed tr)
  case (Suc k)
  let ?vis = "filter (event_commits_user_visible_output fr) (fst (fetch n))"
  have here: "\<exists>m. set (map (Pair n) ?vis) \<subseteq> {m} \<times> set (fst (fetch m))" by auto
  show ?case
  proof (cases "admit n")
    case (Some e)
    then show ?thesis using Suc.prems by simp
  next
    case None
    show ?thesis
    proof (cases "snd (fetch n)")
      case (Inr r)
      then show ?thesis using Suc.prems None here by (auto simp: Let_def visible_events_append)
    next
      case (Inl e)
      obtain d where d: "compute_delay_ms noisy (Suc n) cfg (extract_retry_after_ms e) = Inr d"
        using compute_delay_Suc by blast
      show ?thesis
      proof (cases "is_retryable e \<and> \<not> int n \<ge> max_retries cfg \<and> ?vis = []")
        case True
        then have quiet: "(\<exists>ev \<in> set (fst (fetch n)). event_commits_user_visible_output fr ev) = False"
          by (simp add: filter_empty_conv)
        obtain tr1 where "retry_loop fr True noisy cfg admit fetch k (Suc n) False tr1 = (res, tr')"
          "visible_events fr tr1 = visible_events fr (tr\<lparr>delivered := delivered tr @ map (Pair n) (fst (fetch n))\<rparr>)"
          using Suc.prems None Inl d True quiet by (auto simp: Let_def)
        then show ?thesis using True Suc.prems(3) by (intro Suc.IH [of "Suc n" False tr1]) (simp_all add: visible_events_append)
      next
        case False
        then have stop: "\<not> is_retryable e \<or> int n \<ge> max_retries cfg \<or>
            (\<exists>ev \<in> set (fst (fetch n)). event_commits_user_visible_output fr ev)"
          by (auto simp: filter_empty_conv)
        then show ?thesis
          using Suc.prems None Inl here
          by (auto simp: Let_def visible_events_append split: if_splits)
      qed
    qed
  qed
qed simp

text \<open>
  C30: visible output is never duplicated: whatever the model does, all visible events that reach
  the caller through the wrapper come from one single attempt.
\<close>
theorem visible_output_from_one_attempt:
  "\<exists>m. set (visible_events fr (snd (fetch_turn_with_retry fr True noisy cfg admit fetch)))
        \<subseteq> {m} \<times> set (fst (fetch m))"
proof -
  obtain res tr where rt: "fetch_turn_with_retry fr True noisy cfg admit fetch = (res, tr)" by force
  then show ?thesis
    using retry_loop_visible [of fr noisy cfg admit fetch "nat (max_retries cfg + 1)" 0 False empty_trace res tr]
    by (simp add: fetch_turn_with_retry_def visible_events_def empty_trace_def)
qed

subsection \<open>What the loop returns\<close>

lemma retry_loop_returns:
  assumes "\<And>j. admit j = None" "int m \<le> max_retries cfg" "snd (fetch m) = Inr r"
    "\<And>j. j < m \<Longrightarrow> \<exists>e. snd (fetch j) = Inl e \<and> is_retryable e"
    "\<And>j ev. \<lbrakk>gate; j < m; ev \<in> set (fst (fetch j))\<rbrakk> \<Longrightarrow> \<not> event_commits_user_visible_output fr ev"
  shows "\<lbrakk>n \<le> m; m < n + k; gate \<Longrightarrow> \<not> committed\<rbrakk> \<Longrightarrow>
    \<exists>tr'. retry_loop fr gate noisy cfg admit fetch k n committed tr = (Returned r, tr') \<and>
      length (facts tr') = length (facts tr) + (m - n) + 1 \<and> length (retries tr') = length (retries tr) + (m - n)"
proof (induction k arbitrary: n committed tr)
  case (Suc k)
  show ?case
  proof (cases "n = m")
    case True
    then show ?thesis using assms(1,3) by (simp add: Let_def)
  next
    case False
    then have "n < m" using Suc.prems by simp
    then obtain e where e: "snd (fetch n) = Inl e" "is_retryable e" using assms(4) by blast
    obtain d where d: "compute_delay_ms noisy (Suc n) cfg (extract_retry_after_ms e) = Inr d"
      using compute_delay_Suc by blast
    let ?c = "committed \<or> (\<exists>ev \<in> set (fst (fetch n)). event_commits_user_visible_output fr ev)"
    have quiet: "gate \<Longrightarrow> \<not> ?c" using assms(5) Suc.prems(3) \<open>n < m\<close> by blast
    have "\<exists>tr1. retry_loop fr gate noisy cfg admit fetch (Suc k) n committed tr =
          retry_loop fr gate noisy cfg admit fetch k (Suc n) ?c tr1 \<and>
        length (facts tr1) = length (facts tr) + 1 \<and> length (retries tr1) = length (retries tr) + 1"
    proof (cases gate)
      case True
      then have q: "\<not> committed" "(\<exists>ev \<in> set (fst (fetch n)). event_commits_user_visible_output fr ev) = False"
        using quiet by blast+
      then show ?thesis using assms(1,2) e d \<open>n < m\<close> True
        by (simp add: Let_def del: bex_simps) (rule exI conjI refl | simp)+
    next
      case False
      then show ?thesis using assms(1,2) e d \<open>n < m\<close>
        by (simp add: Let_def) (rule exI conjI refl | simp)+
    qed
    then obtain tr1 where step: "retry_loop fr gate noisy cfg admit fetch (Suc k) n committed tr =
          retry_loop fr gate noisy cfg admit fetch k (Suc n) ?c tr1"
        "length (facts tr1) = length (facts tr) + 1" "length (retries tr1) = length (retries tr) + 1" by blast
    show ?thesis using Suc.IH [of "Suc n" ?c tr1] Suc.prems \<open>n < m\<close> quiet step by auto
  qed
qed simp

text \<open>
  C31: transient failures are hidden from the caller. If the attempts before the m-th one fail with
  retryable errors, without visible output when the caller listens, and the m-th one
  succeeds within the configured number of retries, the wrapper returns its result after
  exactly m retries, and reports m + 1 attempts.
\<close>
theorem transient_failures_are_retried:
  assumes "\<And>j. admit j = None" "int m \<le> max_retries cfg" "snd (fetch m) = Inr r"
    "\<And>j. j < m \<Longrightarrow> \<exists>e. snd (fetch j) = Inl e \<and> is_retryable e"
    "\<And>j ev. \<lbrakk>listening; j < m; ev \<in> set (fst (fetch j))\<rbrakk> \<Longrightarrow> \<not> event_commits_user_visible_output fr ev"
  shows "\<exists>tr. fetch_turn_with_retry fr listening noisy cfg admit fetch = (Returned r, tr) \<and>
    length (facts tr) = m + 1 \<and> length (retries tr) = m"
proof -
  have "\<exists>tr. retry_loop fr listening noisy cfg admit fetch (nat (max_retries cfg + 1)) 0 False empty_trace = (Returned r, tr) \<and>
      length (facts tr) = length (facts empty_trace) + (m - 0) + 1 \<and> length (retries tr) = length (retries empty_trace) + (m - 0)"
    by (rule retry_loop_returns) (use assms in auto)
  then show ?thesis by (simp add: fetch_turn_with_retry_def empty_trace_def)
qed

theorem transient_failures_are_retried_witness:
  "\<exists>tr. fetch_turn_with_retry (\<lambda>_. []) True of_int default_retry_config (\<lambda>_. None)
      (\<lambda>j. if j < 2
            then ([PyDict [(''type'', PyStr ''request_messages'')]],
                  Inl \<lparr>err_kind = HttpxStatus 429, err_durable = False, err_header = NoHeaders, err_response_status = Some 429\<rparr>)
            else ([PyStr ''token''], Inr (7::int))) = (Returned 7, tr) \<and>
    length (facts tr) = 3 \<and> length (retries tr) = 2"
  using transient_failures_are_retried [where admit = "\<lambda>_. None" and m = 2 and cfg = default_retry_config and r = "7::int"
      and listening = True and noisy = of_int and fr = "\<lambda>_. []"
      and fetch = "\<lambda>j. if j < 2
            then ([PyDict [(''type'', PyStr ''request_messages'')]],
                  Inl \<lparr>err_kind = HttpxStatus 429, err_durable = False, err_header = NoHeaders, err_response_status = Some 429\<rparr>)
            else ([PyStr ''token''], Inr (7::int))"]
  by (simp add: default_retry_config_def is_retryable_def retryable_status_def event_commits_user_visible_output_def
      str_or_def dget_def)

end
