(* ===== verification/JournalModels.thy ===== *)
theory JournalModels
  imports PyText "HOL-Library.List_Lexorder" "HOL-Library.Char_ord"
begin

section \<open>The records of the execution journal\<close>

text \<open>
  \<open>journal/models.py\<close>: the validated, immutable records the durable journal stores and
  exchanges. A dataclass is a record; its constructor (with \<open>__post_init__\<close>) is the function
  \<open>mk_...\<close>, which takes loosely typed values and raises or returns a normalised record;
  \<open>to_dict\<close> and \<open>from_dict\<close> keep their names with the class as prefix. A nested record may be
  given as a record (\<open>Inl\<close>) or as a raw object (\<open>Inr\<close>), as the constructors allow.
  Frozen payloads (\<open>MappingProxyType\<close>, tuples) and their thawed copies are the same value here:
  freezing sorts the keys and validates, thawing copies. Text has code points below 256, where
  \<open>NFC\<close> normalisation is the identity; \<open>NFKC\<close> and \<open>casefold\<close> are written out in
  \<open>normalize_key\<close>.
  The locale \<open>record_codec\<close> states what a record's encoding promises; it is interpreted for every
  record. The lemmas show the round trips, and that a frozen payload holds no plaintext secret.
\<close>

subsection \<open>Validation of scalars\<close>

definition model_error :: "string \<Rightarrow> py_exc" where
  "model_error m = DomainExc ''ModelValidationError'' m"

definition ascii_alnum :: "char \<Rightarrow> bool" where
  "ascii_alnum c = (let n = of_char c :: nat in
     (48 \<le> n \<and> n \<le> 57) \<or> (65 \<le> n \<and> n \<le> 90) \<or> (97 \<le> n \<and> n \<le> 122))"

definition is_identifier :: "string \<Rightarrow> bool" where
  "is_identifier s = (s \<noteq> [] \<and> length s \<le> 256 \<and> ascii_alnum (hd s) \<and>
     list_all (\<lambda>c. ascii_alnum c \<or> c \<in> set ''._:-'') (tl s))"

definition is_sha256 :: "string \<Rightarrow> bool" where
  "is_sha256 s = (length s = 64 \<and>
     list_all (\<lambda>c. let n = of_char c :: nat in (48 \<le> n \<and> n \<le> 57) \<or> (97 \<le> n \<and> n \<le> 102)) s)"

definition required_text :: "string \<Rightarrow> nat \<Rightarrow> bool \<Rightarrow> pyval \<Rightarrow> (py_exc, string) res" where
  "required_text name maximum ident v =
     (case v of
        PyStr s \<Rightarrow>
          let t = py_strip s in
          if t = [] \<or> length t > maximum \<or> CHR 0x00 \<in> set t
          then Inl (model_error (name @ '' is invalid''))
          else if \<exists>c \<in> set t. (of_char c :: nat) < 32
          then Inl (model_error (name @ '' contains control characters''))
          else if ident \<and> \<not> is_identifier t
          then Inl (model_error (name @ '' is not a valid identifier''))
          else Inr t
      | _ \<Rightarrow> Inl (TypeExc (name @ '' must be text'')))"

definition optional_text :: "string \<Rightarrow> nat \<Rightarrow> pyval \<Rightarrow> (py_exc, string) res" where
  "optional_text name maximum v =
     (if v = PyNone \<or> v = PyStr [] then Inr [] else required_text name maximum False v)"

definition bounded_int :: "string \<Rightarrow> int \<Rightarrow> pyval \<Rightarrow> (py_exc, int) res" where
  "bounded_int name minimum v =
     (case v of
        PyInt i \<Rightarrow> if i < minimum then Inl (model_error (name @ '' must be at least '' @ int_text minimum)) else Inr i
      | _ \<Rightarrow> Inl (TypeExc (name @ '' must be an integer'')))"

definition sha256_field :: "string \<Rightarrow> pyval \<Rightarrow> (py_exc, string) res" where
  "sha256_field name v =
     (case v of
        PyStr s \<Rightarrow> if is_sha256 s then Inr s else Inl (model_error (name @ '' must be a lowercase SHA-256 digest''))
      | _ \<Rightarrow> Inl (model_error (name @ '' must be a lowercase SHA-256 digest'')))"

definition bool_field :: "string \<Rightarrow> pyval \<Rightarrow> (py_exc, bool) res" where
  "bool_field name v = (case v of PyBool b \<Rightarrow> Inr b | _ \<Rightarrow> Inl (TypeExc (name @ '' must be a boolean'')))"

definition record_data :: "string \<Rightarrow> string list \<Rightarrow> string list \<Rightarrow> pyval \<Rightarrow> (py_exc, pydict) res" where
  "record_data schema required optional v =
     (case v of
        PyDict d \<Rightarrow>
          if dget d ''schema'' \<noteq> PyStr schema then Inl (model_error (''expected schema '' @ schema))
          else
            let missing = filter (\<lambda>k. dict_get d k = None) required;
                unknown = filter (\<lambda>k. k \<notin> set (required @ optional @ [''schema''])) (dict_keys d) in
            if missing \<noteq> [] then Inl (model_error (''missing fields: '' @ join '', '' (sort missing)))
            else if unknown \<noteq> [] then Inl (model_error (''unknown fields: '' @ join '', '' (sort unknown)))
            else Inr d
      | _ \<Rightarrow> Inl (TypeExc ''record must be an object''))"

text \<open>\<open>record_type.from_dict\<close> for a nested field that is not yet a record.\<close>

definition as_record :: "(pyval \<Rightarrow> (py_exc, 'r) res) \<Rightarrow> 'r + pyval \<Rightarrow> (py_exc, 'r) res" where
  "as_record from x = (case x of Inl r \<Rightarrow> Inr r | Inr v \<Rightarrow> from v)"

definition record_tuple :: "(pyval \<Rightarrow> (py_exc, 'r) res) \<Rightarrow> string \<Rightarrow> pyval \<Rightarrow> (py_exc, 'r list) res" where
  "record_tuple from name v =
     (case v of
        PyNone \<Rightarrow> Inr []
      | PyList xs \<Rightarrow> mapr from xs
      | _ \<Rightarrow> Inl (TypeExc (name @ '' must be an array'')))"

subsection \<open>References\<close>

fun split_on :: "char \<Rightarrow> string \<Rightarrow> string list" where
  "split_on sep [] = [[]]"
| "split_on sep (c # cs) =
     (if c = sep then [] # split_on sep cs
      else case split_on sep cs of [] \<Rightarrow> [[c]] | w # ws \<Rightarrow> (c # w) # ws)"

record resource_ref =
  rr_kind :: string
  rr_resource_id :: string
  rr_revision :: int
  rr_fragment :: string

definition mk_resource_ref :: "pyval \<Rightarrow> pyval \<Rightarrow> pyval \<Rightarrow> pyval \<Rightarrow> (py_exc, resource_ref) res" where
  "mk_resource_ref kind rid revision frag =
     bindr (required_text ''kind'' 256 True kind) (\<lambda>k.
     bindr (required_text ''resource_id'' 256 True rid) (\<lambda>i.
     bindr (bounded_int ''revision'' 1 revision) (\<lambda>r.
     bindr (optional_text ''fragment'' 512 frag) (\<lambda>f.
       if startswith f ''/'' \<or> CHR 0x5C \<in> set f \<or>
          (\<exists>w \<in> set (split_on (CHR ''/'') f). w = ''.'' \<or> w = ''..'')
       then Inl (model_error ''fragment must be reference-local'')
       else Inr \<lparr>rr_kind = k, rr_resource_id = i, rr_revision = r, rr_fragment = f\<rparr>))))"

definition resource_ref_to_dict :: "resource_ref \<Rightarrow> pyval" where
  "resource_ref_to_dict r = PyDict
     [(''schema'', PyStr ''unchain.resource_ref.v1''), (''kind'', PyStr (rr_kind r)), (''id'', PyStr (rr_resource_id r)),
      (''revision'', PyInt (rr_revision r)), (''fragment'', PyStr (rr_fragment r))]"

text \<open>\<open>raw.get(k, d)\<close>\<close>

definition dget_or :: "pydict \<Rightarrow> string \<Rightarrow> pyval \<Rightarrow> pyval" where
  "dget_or d k v = (case dict_get d k of None \<Rightarrow> v | Some w \<Rightarrow> w)"

definition resource_ref_from_dict :: "pyval \<Rightarrow> (py_exc, resource_ref) res" where
  "resource_ref_from_dict v =
     bindr (record_data ''unchain.resource_ref.v1'' [''kind'', ''id'', ''revision''] [''fragment''] v) (\<lambda>raw.
       mk_resource_ref (dget raw ''kind'') (dget raw ''id'') (dget raw ''revision'') (dget_or raw ''fragment'' (PyStr [])))"

record artifact_ref =
  ar_ref :: resource_ref
  ar_media_type :: string
  ar_byte_length :: int
  ar_sha256 :: string
  ar_preview :: string

definition mk_artifact_ref ::
  "resource_ref + pyval \<Rightarrow> pyval \<Rightarrow> pyval \<Rightarrow> pyval \<Rightarrow> pyval \<Rightarrow> (py_exc, artifact_ref) res" where
  "mk_artifact_ref ref media len sha preview =
     bindr (as_record resource_ref_from_dict ref) (\<lambda>r.
     bindr (required_text ''media_type'' 255 False media) (\<lambda>m.
       if CHR ''/'' \<notin> set m then Inl (model_error ''media_type must be a MIME type'') else
     bindr (bounded_int ''byte_length'' 0 len) (\<lambda>n.
     bindr (sha256_field ''sha256'' sha) (\<lambda>s.
     bindr (optional_text ''preview'' 4096 preview) (\<lambda>p.
       Inr \<lparr>ar_ref = r, ar_media_type = m, ar_byte_length = n, ar_sha256 = s, ar_preview = p\<rparr>)))))"

definition artifact_ref_to_dict :: "artifact_ref \<Rightarrow> pyval" where
  "artifact_ref_to_dict a = PyDict
     [(''schema'', PyStr ''unchain.artifact_ref.v1''), (''ref'', resource_ref_to_dict (ar_ref a)),
      (''media_type'', PyStr (ar_media_type a)), (''byte_length'', PyInt (ar_byte_length a)),
      (''sha256'', PyStr (ar_sha256 a)), (''preview'', PyStr (ar_preview a))]"

definition artifact_ref_from_dict :: "pyval \<Rightarrow> (py_exc, artifact_ref) res" where
  "artifact_ref_from_dict v =
     bindr (record_data ''unchain.artifact_ref.v1'' [''ref'', ''media_type'', ''byte_length'', ''sha256''] [''preview''] v) (\<lambda>raw.
     bindr (resource_ref_from_dict (dget raw ''ref'')) (\<lambda>r.
       mk_artifact_ref (Inl r) (dget raw ''media_type'') (dget raw ''byte_length'') (dget raw ''sha256'')
         (dget_or raw ''preview'' (PyStr []))))"

record event_cursor =
  ec_store_seq :: int
  ec_event_id :: string

definition mk_event_cursor :: "pyval \<Rightarrow> pyval \<Rightarrow> (py_exc, event_cursor) res" where
  "mk_event_cursor seq eid =
     bindr (bounded_int ''store_seq'' 0 seq) (\<lambda>n.
     bindr (required_text ''event_id'' 256 True eid) (\<lambda>e. Inr \<lparr>ec_store_seq = n, ec_event_id = e\<rparr>))"

definition event_cursor_to_dict :: "event_cursor \<Rightarrow> pyval" where
  "event_cursor_to_dict c = PyDict
     [(''schema'', PyStr ''unchain.event_cursor.v1''), (''store_seq'', PyInt (ec_store_seq c)),
      (''event_id'', PyStr (ec_event_id c))]"

definition event_cursor_from_dict :: "pyval \<Rightarrow> (py_exc, event_cursor) res" where
  "event_cursor_from_dict v =
     bindr (record_data ''unchain.event_cursor.v1'' [''store_seq'', ''event_id''] [] v) (\<lambda>raw.
       mk_event_cursor (dget raw ''store_seq'') (dget raw ''event_id''))"

record event_range =
  er_start :: event_cursor
  er_end :: event_cursor

definition mk_event_range :: "event_cursor + pyval \<Rightarrow> event_cursor + pyval \<Rightarrow> (py_exc, event_range) res" where
  "mk_event_range a b =
     bindr (as_record event_cursor_from_dict a) (\<lambda>x.
     bindr (as_record event_cursor_from_dict b) (\<lambda>y.
       if ec_store_seq x > ec_store_seq y then Inl (model_error ''event range start must not follow end'')
       else Inr \<lparr>er_start = x, er_end = y\<rparr>))"

definition event_range_to_dict :: "event_range \<Rightarrow> pyval" where
  "event_range_to_dict r = PyDict
     [(''schema'', PyStr ''unchain.event_range.v1''), (''start'', event_cursor_to_dict (er_start r)),
      (''end'', event_cursor_to_dict (er_end r))]"

definition event_range_from_dict :: "pyval \<Rightarrow> (py_exc, event_range) res" where
  "event_range_from_dict v =
     bindr (record_data ''unchain.event_range.v1'' [''start'', ''end''] [] v) (\<lambda>raw.
     bindr (event_cursor_from_dict (dget raw ''start'')) (\<lambda>a.
     bindr (event_cursor_from_dict (dget raw ''end'')) (\<lambda>b. mk_event_range (Inl a) (Inl b))))"

record generation_ref =
  gr_execution_id :: string
  gr_generation_id :: string

definition mk_generation_ref :: "pyval \<Rightarrow> pyval \<Rightarrow> (py_exc, generation_ref) res" where
  "mk_generation_ref e g =
     bindr (required_text ''execution_id'' 256 True e) (\<lambda>x.
     bindr (required_text ''generation_id'' 256 True g) (\<lambda>y. Inr \<lparr>gr_execution_id = x, gr_generation_id = y\<rparr>))"

definition generation_ref_to_dict :: "generation_ref \<Rightarrow> pyval" where
  "generation_ref_to_dict g = PyDict
     [(''schema'', PyStr ''unchain.generation_ref.v1''), (''execution_id'', PyStr (gr_execution_id g)),
      (''generation_id'', PyStr (gr_generation_id g))]"

definition generation_ref_from_dict :: "pyval \<Rightarrow> (py_exc, generation_ref) res" where
  "generation_ref_from_dict v =
     bindr (record_data ''unchain.generation_ref.v1'' [''execution_id'', ''generation_id''] [] v) (\<lambda>raw.
       mk_generation_ref (dget raw ''execution_id'') (dget raw ''generation_id''))"

record attempt_ref =
  at_generation :: generation_ref
  at_attempt_id :: string

definition mk_attempt_ref :: "generation_ref + pyval \<Rightarrow> pyval \<Rightarrow> (py_exc, attempt_ref) res" where
  "mk_attempt_ref g a =
     bindr (as_record generation_ref_from_dict g) (\<lambda>x.
     bindr (required_text ''attempt_id'' 256 True a) (\<lambda>y. Inr \<lparr>at_generation = x, at_attempt_id = y\<rparr>))"

definition attempt_ref_to_dict :: "attempt_ref \<Rightarrow> pyval" where
  "attempt_ref_to_dict a = PyDict
     [(''schema'', PyStr ''unchain.attempt_ref.v1''), (''generation'', generation_ref_to_dict (at_generation a)),
      (''attempt_id'', PyStr (at_attempt_id a))]"

definition attempt_ref_from_dict :: "pyval \<Rightarrow> (py_exc, attempt_ref) res" where
  "attempt_ref_from_dict v =
     bindr (record_data ''unchain.attempt_ref.v1'' [''generation'', ''attempt_id''] [] v) (\<lambda>raw.
     bindr (generation_ref_from_dict (dget raw ''generation'')) (\<lambda>g. mk_attempt_ref (Inl g) (dget raw ''attempt_id'')))"

record operation_ref =
  op_operation_id :: string
  op_payload_sha256 :: string

definition mk_operation_ref :: "pyval \<Rightarrow> pyval \<Rightarrow> (py_exc, operation_ref) res" where
  "mk_operation_ref opr sha =
     bindr (required_text ''operation_id'' 256 True opr) (\<lambda>x.
     bindr (sha256_field ''payload_sha256'' sha) (\<lambda>y. Inr \<lparr>op_operation_id = x, op_payload_sha256 = y\<rparr>))"

definition operation_ref_to_dict :: "operation_ref \<Rightarrow> pyval" where
  "operation_ref_to_dict r = PyDict
     [(''schema'', PyStr ''unchain.operation_ref.v1''), (''operation_id'', PyStr (op_operation_id r)),
      (''payload_sha256'', PyStr (op_payload_sha256 r))]"

definition operation_ref_from_dict :: "pyval \<Rightarrow> (py_exc, operation_ref) res" where
  "operation_ref_from_dict v =
     bindr (record_data ''unchain.operation_ref.v1'' [''operation_id'', ''payload_sha256''] [] v) (\<lambda>raw.
       mk_operation_ref (dget raw ''operation_id'') (dget raw ''payload_sha256''))"

subsection \<open>Credential fields\<close>

definition plaintext_secret_fields :: "string list" where
  "plaintext_secret_fields =
     [''access_token'', ''api_secret'', ''api_key'', ''apikey'', ''auth_token'', ''authorization'',
      ''aws_secret_access_key'', ''bearer_token'', ''client_secret'', ''credential'', ''credentials'', ''id_token'',
      ''passwd'', ''password'', ''private_key'', ''refresh_token'', ''secret'', ''secret_key'', ''secret_value'',
      ''session_token'', ''signing_key'', ''webhook_secret'']"

datatype metadata_kind =
    MetaInteger | MetaBoolean | MetaDigest | MetaHandle | MetaIdentifier | MetaIdentifiers
  | MetaReference | MetaReferences | MetaUsage | MetaNullableInteger | MetaPlaintext

definition credential_metadata_suffixes :: "(string \<times> metadata_kind) list" where
  "credential_metadata_suffixes =
     [(''_budget'', MetaInteger), (''_bytes'', MetaInteger), (''_configured'', MetaBoolean), (''_count'', MetaInteger),
      (''_counts'', MetaInteger), (''_digest'', MetaDigest), (''_handle'', MetaHandle), (''_hash'', MetaDigest),
      (''_id'', MetaIdentifier), (''_ids'', MetaIdentifiers), (''_length'', MetaInteger), (''_limit'', MetaInteger),
      (''_limits'', MetaInteger), (''_present'', MetaBoolean), (''_ref'', MetaReference), (''_refs'', MetaReferences),
      (''_sha256'', MetaDigest), (''_usage'', MetaUsage)]"

definition safe_token_metric_fields :: "string list" where
  "safe_token_metric_fields =
     [''attributed_tokens'', ''available_input_tokens'', ''cache_read_tokens'', ''cache_write_1h_tokens'',
      ''cache_write_5m_tokens'', ''cache_write_tokens'', ''cached_tokens'', ''completion_tokens'', ''consumed_tokens'',
      ''context_window_tokens'', ''estimated_input_tokens'', ''fixed_overhead_tokens'', ''input_tokens'', ''max_tokens'',
      ''output_reserve_tokens'', ''output_tokens'', ''pressure_threshold_tokens'', ''prompt_tokens'', ''reasoning_tokens'',
      ''residual_tokens'', ''tokens'', ''total_tokens'', ''transport_margin_tokens'', ''uncached_tokens'', ''visible_tokens'']"

text \<open>
  \<open>NFKC\<close> on the code points below 256. What it turns into a character outside that range, or into a
  space or slash with one, is written as a space: \<open>normalize_key\<close> treats all of them alike.
\<close>

definition nfkc_char :: "char \<Rightarrow> string" where
  "nfkc_char c = (let n = of_char c :: nat in
     if n = 160 \<or> n = 168 \<or> n = 175 \<or> n = 180 \<or> n = 181 \<or> n = 184 then '' ''
     else if n = 170 then ''a'' else if n = 186 then ''o''
     else if n = 178 then ''2'' else if n = 179 then ''3'' else if n = 185 then ''1''
     else if n = 188 then ''1 4'' else if n = 189 then ''1 2'' else if n = 190 then ''3 4''
     else [c])"

definition key_char :: "char \<Rightarrow> bool" where
  "key_char c = (let n = of_char c :: nat in (48 \<le> n \<and> n \<le> 57) \<or> (97 \<le> n \<and> n \<le> 122))"

definition ascii_upper :: "char \<Rightarrow> bool" where
  "ascii_upper c = (let n = of_char c :: nat in 65 \<le> n \<and> n \<le> 90)"

fun separate_words :: "string \<Rightarrow> string" where
  "separate_words (c # d # cs) =
     (if key_char c \<and> ascii_upper d then c # CHR ''_'' # separate_words (d # cs) else c # separate_words (d # cs))"
| "separate_words cs = cs"

definition casefold_char :: "char \<Rightarrow> string" where
  "casefold_char c = (if c = CHR 0xDF then ''ss'' else [lower_char c])"

lemma length_dropWhile_Suc [termination_simp]: "length (dropWhile P xs) < Suc (length xs)"
  by (simp add: less_Suc_eq_le length_dropWhile_le)

fun squeeze_separators :: "string \<Rightarrow> string" where
  "squeeze_separators [] = []"
| "squeeze_separators (c # cs) =
     (if key_char c then c # squeeze_separators cs
      else CHR ''_'' # squeeze_separators (dropWhile (\<lambda>d. \<not> key_char d) cs))"

definition strip_char :: "char \<Rightarrow> string \<Rightarrow> string" where
  "strip_char c s = rev (dropWhile (\<lambda>d. d = c) (rev (dropWhile (\<lambda>d. d = c) s)))"

definition normalize_key :: "string \<Rightarrow> string" where
  "normalize_key s =
     strip_char (CHR ''_'') (squeeze_separators (concat (map casefold_char (separate_words (concat (map nfkc_char s))))))"

text \<open>\<open>re.fullmatch\<close> of one of the words, then an optional plural and digits.\<close>

definition word_variant :: "string list \<Rightarrow> string \<Rightarrow> bool" where
  "word_variant ws s =
     (\<exists>w \<in> set ws. startswith s w \<and>
        list_all is_digit (let r = drop (length w) s in if r \<noteq> [] \<and> hd r = CHR ''s'' then tl r else r))"

definition sensitive_words :: "string list" where
  "sensitive_words =
     [''authorization'', ''bearer'', ''cookie'', ''credential'', ''passwd'', ''password'', ''secret'', ''token'']"

definition sensitive_key :: "string \<Rightarrow> bool" where
  "sensitive_key key =
     (let segments = split_on (CHR ''_'') key in
      key \<in> set plaintext_secret_fields \<or>
      (\<exists>s \<in> set segments. word_variant sensitive_words s) \<or>
      (\<exists>p \<in> set (zip segments (tl segments)).
         (fst p \<in> {''access'', ''api'', ''encryption'', ''private'', ''signing''} \<and> word_variant [''key''] (snd p)) \<or>
         (fst p = ''pass'' \<and> word_variant [''word''] (snd p))))"

definition credential_metadata_kind :: "string \<Rightarrow> metadata_kind option" where
  "credential_metadata_kind key =
     (if key \<in> set safe_token_metric_fields then Some MetaNullableInteger
      else if \<not> sensitive_key key then None
      else case filter (\<lambda>p. suffix (fst p) key) credential_metadata_suffixes of
        [] \<Rightarrow> Some MetaPlaintext
      | p # _ \<Rightarrow> Some (snd p))"

fun valid_usage :: "pyval \<Rightarrow> bool" where
  "valid_usage (PyInt i) = (i \<ge> 0)"
| "valid_usage (PyDict d) = (\<forall>p \<in> set d. valid_usage (snd p))"
| "valid_usage _ = False"

definition valid_reference :: "pyval \<Rightarrow> bool" where
  "valid_reference v = (is_dict v \<and> is_ok (resource_ref_from_dict v))"

definition nonneg_int :: "pyval \<Rightarrow> bool" where
  "nonneg_int v = (case v of PyInt i \<Rightarrow> i \<ge> 0 | _ \<Rightarrow> False)"

definition validate_credential_metadata :: "string \<Rightarrow> string \<Rightarrow> pyval \<Rightarrow> (py_exc, unit) res" where
  "validate_credential_metadata key path v =
     (let invalid = Inl (model_error (path @ '' is not valid opaque credential metadata''));
          check = (\<lambda>b. if b then Inr () else invalid) in
      case credential_metadata_kind key of
        None \<Rightarrow> Inr ()
      | Some MetaPlaintext \<Rightarrow>
          Inl (model_error (path @ '' is a plaintext secret field; use an opaque handle''))
      | Some MetaIdentifier \<Rightarrow> check (case v of PyStr s \<Rightarrow> is_identifier s | _ \<Rightarrow> False)
      | Some MetaIdentifiers \<Rightarrow>
          check (case v of PyList xs \<Rightarrow> list_all (\<lambda>x. case x of PyStr s \<Rightarrow> is_identifier s | _ \<Rightarrow> False) xs | _ \<Rightarrow> False)
      | Some MetaDigest \<Rightarrow> check (case v of PyStr s \<Rightarrow> is_sha256 s | _ \<Rightarrow> False)
      | Some MetaBoolean \<Rightarrow> check (case v of PyBool _ \<Rightarrow> True | _ \<Rightarrow> False)
      | Some MetaInteger \<Rightarrow> check (nonneg_int v)
      | Some MetaNullableInteger \<Rightarrow> check (v = PyNone \<or> nonneg_int v)
      | Some MetaUsage \<Rightarrow> check (valid_usage v)
      | Some MetaReference \<Rightarrow> check (valid_reference v)
      | Some MetaReferences \<Rightarrow> check (case v of PyList xs \<Rightarrow> list_all valid_reference xs | _ \<Rightarrow> False)
      | Some MetaHandle \<Rightarrow>
          (case v of
             PyDict d \<Rightarrow>
               if set (dict_keys d) \<noteq> {''schema'', ''handle_id'', ''label'', ''scope''} then invalid
               else if dget d ''schema'' \<noteq> PyStr ''unchain.opaque_secret_handle.v1'' then invalid
               else bindr (required_text ''handle_id'' 256 True (dget d ''handle_id'')) (\<lambda>_.
                    bindr (required_text ''label'' 128 False (dget d ''label'')) (\<lambda>_.
                    bindr (required_text ''scope'' 256 True (dget d ''scope'')) (\<lambda>_. Inr ())))
           | _ \<Rightarrow> invalid))"

lemma enumerate_elem [termination_simp]: "p \<in> set (enumerate n xs) \<Longrightarrow> size (snd p) < Suc (size_list size xs)"
  by (cases p) (auto simp: in_set_enumerate_eq intro!: size_list_elem)

fun freeze_json :: "string \<Rightarrow> pyval \<Rightarrow> (py_exc, pyval) res" where
  "freeze_json path (PyDict d) =
     (if \<exists>p \<in> set d. fst p = [] \<or> CHR 0x00 \<in> set (fst p)
      then Inl (model_error (path @ '' contains an invalid object key''))
      else bindr (mapr (\<lambda>p.
          bindr (validate_credential_metadata (normalize_key (fst p)) (path @ ''.'' @ fst p) (snd p)) (\<lambda>_.
          bindr (freeze_json (path @ ''.'' @ fst p) (snd p)) (\<lambda>v. Inr (fst p, v)))) (sort_key fst d))
        (\<lambda>e. Inr (PyDict e)))"
| "freeze_json path (PyList xs) =
     bindr (mapr (\<lambda>p. freeze_json (path @ ''['' @ nat_text (fst p) @ '']'') (snd p)) (enumerate 0 xs))
       (\<lambda>ys. Inr (PyList ys))"
| "freeze_json path (PyObj c d) = Inl (TypeExc (path @ '' contains a non-JSON value''))"
| "freeze_json path v = Inr v"

subsection \<open>Events\<close>

record append_request =
  rq_event_id :: string
  rq_event_type :: string
  rq_attempt :: attempt_ref
  rq_operation :: operation_ref
  rq_payload :: pydict
  rq_resource_refs :: "resource_ref list"

text \<open>The last argument is a tuple of records or a raw array (\<open>_record_tuple\<close>).\<close>

definition as_records :: "(pyval \<Rightarrow> (py_exc, 'r) res) \<Rightarrow> string \<Rightarrow> 'r list + pyval \<Rightarrow> (py_exc, 'r list) res" where
  "as_records from name x = (case x of Inl rs \<Rightarrow> Inr rs | Inr v \<Rightarrow> record_tuple from name v)"

definition mk_append_request ::
  "pyval \<Rightarrow> pyval \<Rightarrow> attempt_ref + pyval \<Rightarrow> operation_ref + pyval \<Rightarrow> pyval \<Rightarrow> resource_ref list + pyval \<Rightarrow>
   (py_exc, append_request) res" where
  "mk_append_request eid ty attempt opr payload refs =
     bindr (required_text ''event_id'' 256 True eid) (\<lambda>e.
     bindr (required_text ''event_type'' 256 True ty) (\<lambda>t.
     bindr (as_record attempt_ref_from_dict attempt) (\<lambda>a.
     bindr (as_record operation_ref_from_dict opr) (\<lambda>r.
     bindr (freeze_json ''payload'' payload) (\<lambda>p.
     (case p of
        PyDict d \<Rightarrow>
          bindr (as_records resource_ref_from_dict ''resource_refs'' refs) (\<lambda>rs.
            Inr \<lparr>rq_event_id = e, rq_event_type = t, rq_attempt = a, rq_operation = r, rq_payload = d,
                 rq_resource_refs = rs\<rparr>)
      | _ \<Rightarrow> Inl (TypeExc ''payload must be an object'')))))))"

definition append_request_to_dict :: "append_request \<Rightarrow> pyval" where
  "append_request_to_dict r = PyDict
     [(''schema'', PyStr ''unchain.journal_append_request.v1''), (''event_id'', PyStr (rq_event_id r)),
      (''event_type'', PyStr (rq_event_type r)), (''attempt'', attempt_ref_to_dict (rq_attempt r)),
      (''operation'', operation_ref_to_dict (rq_operation r)), (''payload'', PyDict (rq_payload r)),
      (''resource_refs'', PyList (map resource_ref_to_dict (rq_resource_refs r)))]"

definition append_request_from_dict :: "pyval \<Rightarrow> (py_exc, append_request) res" where
  "append_request_from_dict v =
     bindr (record_data ''unchain.journal_append_request.v1'' [''event_id'', ''event_type'', ''attempt'', ''operation'', ''payload'']
              [''resource_refs''] v) (\<lambda>raw.
     bindr (attempt_ref_from_dict (dget raw ''attempt'')) (\<lambda>a.
     bindr (operation_ref_from_dict (dget raw ''operation'')) (\<lambda>r.
     bindr (record_tuple resource_ref_from_dict ''resource_refs'' (dget_or raw ''resource_refs'' (PyList []))) (\<lambda>rs.
       mk_append_request (dget raw ''event_id'') (dget raw ''event_type'') (Inl a) (Inl r) (dget raw ''payload'') (Inl rs)))))"

record journal_event =
  ev_event_id :: string
  ev_event_type :: string
  ev_attempt :: attempt_ref
  ev_operation :: operation_ref
  ev_store_seq :: int
  ev_payload :: pydict
  ev_resource_refs :: "resource_ref list"

definition mk_journal_event ::
  "pyval \<Rightarrow> pyval \<Rightarrow> attempt_ref + pyval \<Rightarrow> operation_ref + pyval \<Rightarrow> pyval \<Rightarrow> pyval \<Rightarrow> resource_ref list + pyval \<Rightarrow>
   (py_exc, journal_event) res" where
  "mk_journal_event eid ty attempt opr seq payload refs =
     bindr (mk_append_request eid ty attempt opr payload refs) (\<lambda>q.
     bindr (bounded_int ''store_seq'' 1 seq) (\<lambda>n.
       Inr \<lparr>ev_event_id = rq_event_id q, ev_event_type = rq_event_type q, ev_attempt = rq_attempt q,
            ev_operation = rq_operation q, ev_store_seq = n, ev_payload = rq_payload q,
            ev_resource_refs = rq_resource_refs q\<rparr>))"

definition journal_event_to_dict :: "journal_event \<Rightarrow> pyval" where
  "journal_event_to_dict e = PyDict
     [(''schema'', PyStr ''unchain.journal_event.v1''), (''event_id'', PyStr (ev_event_id e)),
      (''event_type'', PyStr (ev_event_type e)), (''attempt'', attempt_ref_to_dict (ev_attempt e)),
      (''operation'', operation_ref_to_dict (ev_operation e)), (''store_seq'', PyInt (ev_store_seq e)),
      (''payload'', PyDict (ev_payload e)),
      (''resource_refs'', PyList (map resource_ref_to_dict (ev_resource_refs e)))]"

definition journal_event_from_dict :: "pyval \<Rightarrow> (py_exc, journal_event) res" where
  "journal_event_from_dict v =
     bindr (record_data ''unchain.journal_event.v1''
              [''event_id'', ''event_type'', ''attempt'', ''operation'', ''store_seq'', ''payload''] [''resource_refs''] v) (\<lambda>raw.
     bindr (attempt_ref_from_dict (dget raw ''attempt'')) (\<lambda>a.
     bindr (operation_ref_from_dict (dget raw ''operation'')) (\<lambda>r.
     bindr (record_tuple resource_ref_from_dict ''resource_refs'' (dget_or raw ''resource_refs'' (PyList []))) (\<lambda>rs.
       mk_journal_event (dget raw ''event_id'') (dget raw ''event_type'') (Inl a) (Inl r) (dget raw ''store_seq'')
         (dget raw ''payload'') (Inl rs)))))"

definition event_cursor_of :: "journal_event \<Rightarrow> event_cursor" where
  "event_cursor_of e = \<lparr>ec_store_seq = ev_store_seq e, ec_event_id = ev_event_id e\<rparr>"

subsection \<open>Receipt lookups, append results and pages\<close>

definition tool_execution_receipt_types :: "string list" where
  "tool_execution_receipt_types =
     [''tool_call'', ''tool.started'', ''tool.subagent_completion.sealed'', ''tool_result'', ''tool.result'']"

definition max_tool_execution_receipts :: nat where
  "max_tool_execution_receipts = 4"

record tool_receipt_lookup =
  tl_attempt :: attempt_ref
  tl_call_id :: string
  tl_events :: "journal_event list"
  tl_overflow :: bool

text \<open>
  The loop over the events, with the last sequence number and the identities seen. A repeated
  cursor repeats its event id, so the set of cursors adds nothing.
\<close>

fun check_receipts ::
  "attempt_ref \<Rightarrow> string \<Rightarrow> int \<Rightarrow> string list \<Rightarrow> string list \<Rightarrow> journal_event list \<Rightarrow> (py_exc, unit) res" where
  "check_receipts a call prev ids opids [] = Inr ()"
| "check_receipts a call prev ids opids (e # es) =
     (if ev_attempt e \<noteq> a then Inl (model_error ''tool execution receipt belongs to a foreign attempt'')
      else if ev_event_type e \<notin> set tool_execution_receipt_types
      then Inl (model_error ''tool execution receipt has an unsupported event type'')
      else if dget (ev_payload e) ''call_id'' \<noteq> PyStr call
      then Inl (model_error ''tool execution receipt call identity changed'')
      else if ev_store_seq e \<le> prev
      then Inl (model_error ''tool execution receipts must be strictly ordered'')
      else if ev_event_id e \<in> set ids \<or> op_operation_id (ev_operation e) \<in> set opids
      then Inl (model_error ''tool execution receipt identity is duplicated'')
      else check_receipts a call (ev_store_seq e) (ev_event_id e # ids) (op_operation_id (ev_operation e) # opids) es)"

definition mk_tool_receipt_lookup ::
  "attempt_ref + pyval \<Rightarrow> pyval \<Rightarrow> journal_event list + pyval \<Rightarrow> pyval \<Rightarrow> (py_exc, tool_receipt_lookup) res" where
  "mk_tool_receipt_lookup attempt call events overflow =
     bindr (as_record attempt_ref_from_dict attempt) (\<lambda>a.
     bindr (required_text ''call_id'' 256 True call) (\<lambda>c.
     bindr (as_records journal_event_from_dict ''events'' events) (\<lambda>es.
       if length es > max_tool_execution_receipts
       then Inl (model_error ''tool execution receipt lookup may contain at most four events'') else
     bindr (bool_field ''overflow'' overflow) (\<lambda>b.
     bindr (check_receipts a c 0 [] [] es) (\<lambda>_.
       Inr \<lparr>tl_attempt = a, tl_call_id = c, tl_events = es, tl_overflow = b\<rparr>)))))"

definition tool_receipt_lookup_to_dict :: "tool_receipt_lookup \<Rightarrow> pyval" where
  "tool_receipt_lookup_to_dict l = PyDict
     [(''schema'', PyStr ''unchain.tool_execution_receipt_lookup.v1''), (''attempt'', attempt_ref_to_dict (tl_attempt l)),
      (''call_id'', PyStr (tl_call_id l)), (''events'', PyList (map journal_event_to_dict (tl_events l))),
      (''overflow'', PyBool (tl_overflow l))]"

definition tool_receipt_lookup_from_dict :: "pyval \<Rightarrow> (py_exc, tool_receipt_lookup) res" where
  "tool_receipt_lookup_from_dict v =
     bindr (record_data ''unchain.tool_execution_receipt_lookup.v1'' [''attempt'', ''call_id'', ''events'', ''overflow''] [] v) (\<lambda>raw.
     bindr (attempt_ref_from_dict (dget raw ''attempt'')) (\<lambda>a.
     bindr (record_tuple journal_event_from_dict ''events'' (dget raw ''events'')) (\<lambda>es.
       mk_tool_receipt_lookup (Inl a) (dget raw ''call_id'') (Inl es) (dget raw ''overflow''))))"

record append_result =
  res_event :: journal_event
  res_cursor :: event_cursor
  res_duplicate :: bool

definition mk_append_result ::
  "journal_event + pyval \<Rightarrow> event_cursor + pyval \<Rightarrow> pyval \<Rightarrow> (py_exc, append_result) res" where
  "mk_append_result event cursor duplicate =
     bindr (as_record journal_event_from_dict event) (\<lambda>e.
     bindr (as_record event_cursor_from_dict cursor) (\<lambda>c.
       if ev_event_id e \<noteq> ec_event_id c \<or> ev_store_seq e \<noteq> ec_store_seq c
       then Inl (model_error ''append result cursor must identify its persisted event'') else
     bindr (bool_field ''duplicate'' duplicate) (\<lambda>b. Inr \<lparr>res_event = e, res_cursor = c, res_duplicate = b\<rparr>)))"

definition append_result_to_dict :: "append_result \<Rightarrow> pyval" where
  "append_result_to_dict r = PyDict
     [(''schema'', PyStr ''unchain.journal_append_result.v1''), (''event'', journal_event_to_dict (res_event r)),
      (''cursor'', event_cursor_to_dict (res_cursor r)), (''duplicate'', PyBool (res_duplicate r))]"

definition append_result_from_dict :: "pyval \<Rightarrow> (py_exc, append_result) res" where
  "append_result_from_dict v =
     bindr (record_data ''unchain.journal_append_result.v1'' [''event'', ''cursor'', ''duplicate''] [] v) (\<lambda>raw.
     bindr (journal_event_from_dict (dget raw ''event'')) (\<lambda>e.
     bindr (event_cursor_from_dict (dget raw ''cursor'')) (\<lambda>c. mk_append_result (Inl e) (Inl c) (dget raw ''duplicate''))))"

record journal_page =
  pg_events :: "journal_event list"
  pg_next_cursor :: "event_cursor option"
  pg_has_more :: bool

definition page_error :: "journal_event list \<Rightarrow> event_cursor option \<Rightarrow> bool \<Rightarrow> py_exc option" where
  "page_error es c pending =
     (if \<exists>p \<in> set (zip es (tl es)). ev_store_seq (fst p) \<ge> ev_store_seq (snd p)
      then Some (model_error ''journal page event sequences must be strictly increasing'')
      else if card (set (map ev_event_id es)) \<noteq> length es
      then Some (model_error ''journal page event ids must be unique'')
      else if card (set (map (gr_execution_id \<circ> at_generation \<circ> ev_attempt) es)) > 1
      then Some (model_error ''journal page events must belong to one execution'')
      else if es \<noteq> [] then
        (if c \<noteq> Some (event_cursor_of (last es))
         then Some (model_error ''next_cursor must identify the final event'') else None)
      else if pending then Some (model_error ''an empty journal page cannot have more events'')
      else None)"

definition mk_journal_page ::
  "journal_event list + pyval \<Rightarrow> (event_cursor + pyval) option \<Rightarrow> pyval \<Rightarrow> (py_exc, journal_page) res" where
  "mk_journal_page events cursor pending =
     bindr (as_records journal_event_from_dict ''events'' events) (\<lambda>es.
     bindr (case cursor of None \<Rightarrow> Inr None | Some c \<Rightarrow> bindr (as_record event_cursor_from_dict c) (\<lambda>c. Inr (Some c))) (\<lambda>c.
     bindr (bool_field ''has_more'' pending) (\<lambda>b.
       (case page_error es c b of
          Some e \<Rightarrow> Inl e
        | None \<Rightarrow> Inr \<lparr>pg_events = es, pg_next_cursor = c, pg_has_more = b\<rparr>))))"

definition journal_page_to_dict :: "journal_page \<Rightarrow> pyval" where
  "journal_page_to_dict p = PyDict
     [(''schema'', PyStr ''unchain.journal_page.v1''), (''events'', PyList (map journal_event_to_dict (pg_events p))),
      (''next_cursor'', case pg_next_cursor p of None \<Rightarrow> PyNone | Some c \<Rightarrow> event_cursor_to_dict c),
      (''has_more'', PyBool (pg_has_more p))]"

definition journal_page_from_dict :: "pyval \<Rightarrow> (py_exc, journal_page) res" where
  "journal_page_from_dict v =
     bindr (record_data ''unchain.journal_page.v1'' [''events'', ''next_cursor'', ''has_more''] [] v) (\<lambda>raw.
     bindr (record_tuple journal_event_from_dict ''events'' (dget raw ''events'')) (\<lambda>es.
     bindr (if dget raw ''next_cursor'' = PyNone then Inr None
            else bindr (event_cursor_from_dict (dget raw ''next_cursor'')) (\<lambda>c. Inr (Some (Inl c)))) (\<lambda>c.
       mk_journal_page (Inl es) c (dget raw ''has_more''))))"

subsection \<open>Scalars are normalised once\<close>

named_theorems codec_simps "decoding of encoded records"

lemma required_text_normal:
  "required_text n m i v = Inr t \<Longrightarrow> required_text n' m i (PyStr t) = Inr t"
  by (auto simp: required_text_def Let_def split: pyval.splits if_splits)

lemma optional_text_normal:
  "optional_text n m v = Inr t \<Longrightarrow> optional_text n' m (PyStr t) = Inr t"
  by (auto simp: optional_text_def required_text_normal split: if_splits)

lemma bounded_int_normal: "bounded_int n m v = Inr i \<Longrightarrow> bounded_int n' m (PyInt i) = Inr i"
  by (auto simp: bounded_int_def split: pyval.splits if_splits)

lemma sha256_field_normal: "sha256_field n v = Inr s \<Longrightarrow> sha256_field n' (PyStr s) = Inr s"
  by (auto simp: sha256_field_def split: pyval.splits if_splits)

lemmas normal_forms = required_text_normal optional_text_normal bounded_int_normal sha256_field_normal

lemma bool_field_simps [simp]: "bool_field n (PyBool b) = Inr b"
  by (simp add: bool_field_def)

lemma as_record_Inl [simp]: "as_record from (Inl r) = Inr r"
  by (simp add: as_record_def)

lemma as_records_Inl [simp]: "as_records from n (Inl rs) = Inr rs"
  by (simp add: as_records_def)

lemma record_data_PyDict [codec_simps]:
  "\<lbrakk>dict_get d ''schema'' = Some (PyStr schema); list_all (\<lambda>k. dict_get d k \<noteq> None) required;
    list_all (\<lambda>k. k \<in> set (required @ optional @ [''schema''])) (dict_keys d)\<rbrakk>
   \<Longrightarrow> record_data schema required optional (PyDict d) = Inr d"
  by (auto simp: record_data_def dget_def list_all_iff filter_empty_conv Let_def)

lemma record_data_Inr: "record_data schema required optional v = Inr d \<Longrightarrow> v = PyDict d"
  by (auto simp: record_data_def Let_def split: pyval.splits if_splits)

subsection \<open>The contract of an encoding\<close>

text \<open>
  A record type with its encoder, its decoder and its validity. The decoder accepts only valid
  records and reads back what the encoder wrote.
\<close>

locale record_codec =
  fixes enc :: "'r \<Rightarrow> pyval" and dec :: "pyval \<Rightarrow> (py_exc, 'r) res" and ok :: "'r \<Rightarrow> bool"
  assumes round_trip: "ok r \<Longrightarrow> dec (enc r) = Inr r"
    and decoded_ok: "dec v = Inr r \<Longrightarrow> ok r"
begin

lemma enc_inject: "\<lbrakk>ok r; ok s; enc r = enc s\<rbrakk> \<Longrightarrow> r = s"
  using round_trip by (metis sum.inject(2))

lemma reencode: "dec v = Inr r \<Longrightarrow> dec (enc r) = Inr r"
  using decoded_ok round_trip by blast

lemma tuple_round_trip: "\<forall>r \<in> set rs. ok r \<Longrightarrow> record_tuple dec n (PyList (map enc rs)) = Inr rs"
  by (simp add: record_tuple_def mapr_map mapr_id round_trip)

lemma tuple_ok: "record_tuple dec n v = Inr rs \<Longrightarrow> \<forall>r \<in> set rs. ok r"
  by (auto simp: record_tuple_def mapr_Inr list_all2_conv_all_nth in_set_conv_nth split: pyval.splits)
    (blast intro: decoded_ok)

lemma as_record_ok: "\<lbrakk>as_record dec x = Inr r; \<And>s. x = Inl s \<Longrightarrow> ok s\<rbrakk> \<Longrightarrow> ok r"
  by (cases x) (auto simp: as_record_def intro: decoded_ok)

lemma as_records_ok: "\<lbrakk>as_records dec n x = Inr rs; \<And>ss. x = Inl ss \<Longrightarrow> \<forall>s \<in> set ss. ok s\<rbrakk> \<Longrightarrow> \<forall>r \<in> set rs. ok r"
  by (cases x) (auto simp: as_records_def dest: tuple_ok)

end

definition resource_ref_ok :: "resource_ref \<Rightarrow> bool" where
  "resource_ref_ok r =
     (mk_resource_ref (PyStr (rr_kind r)) (PyStr (rr_resource_id r)) (PyInt (rr_revision r)) (PyStr (rr_fragment r)) = Inr r)"

lemma mk_resource_ref_ok: "mk_resource_ref a b c d = Inr r \<Longrightarrow> resource_ref_ok r"
  by (auto simp: resource_ref_ok_def mk_resource_ref_def bindr_eq_Inr normal_forms split: if_splits)

interpretation resource_ref: record_codec resource_ref_to_dict resource_ref_from_dict resource_ref_ok
proof
  fix r :: resource_ref
  assume "resource_ref_ok r"
  then show "resource_ref_from_dict (resource_ref_to_dict r) = Inr r"
    by (simp add: resource_ref_from_dict_def resource_ref_to_dict_def codec_simps resource_ref_ok_def dget_def dget_or_def)
next
  fix v r
  assume "resource_ref_from_dict v = Inr r"
  then show "resource_ref_ok r" by (auto simp: resource_ref_from_dict_def bindr_eq_Inr intro: mk_resource_ref_ok)
qed

definition artifact_ref_ok :: "artifact_ref \<Rightarrow> bool" where
  "artifact_ref_ok r = (resource_ref_ok (ar_ref r) \<and>
     mk_artifact_ref (Inl (ar_ref r)) (PyStr (ar_media_type r)) (PyInt (ar_byte_length r)) (PyStr (ar_sha256 r))
       (PyStr (ar_preview r)) = Inr r)"

lemma mk_artifact_ref_ok:
  "\<lbrakk>mk_artifact_ref (Inl x) b c d e = Inr r; resource_ref_ok x\<rbrakk> \<Longrightarrow> artifact_ref_ok r"
  by (auto simp: artifact_ref_ok_def mk_artifact_ref_def bindr_eq_Inr normal_forms split: if_splits)

interpretation artifact_ref: record_codec artifact_ref_to_dict artifact_ref_from_dict artifact_ref_ok
proof
  fix r :: artifact_ref
  assume "artifact_ref_ok r"
  then show "artifact_ref_from_dict (artifact_ref_to_dict r) = Inr r"
    by (simp add: artifact_ref_from_dict_def artifact_ref_to_dict_def codec_simps artifact_ref_ok_def dget_def dget_or_def
        resource_ref.round_trip)
next
  fix v r
  assume "artifact_ref_from_dict v = Inr r"
  then show "artifact_ref_ok r"
    by (auto simp: artifact_ref_from_dict_def bindr_eq_Inr intro: mk_artifact_ref_ok resource_ref.decoded_ok)
qed

definition event_cursor_ok :: "event_cursor \<Rightarrow> bool" where
  "event_cursor_ok c = (mk_event_cursor (PyInt (ec_store_seq c)) (PyStr (ec_event_id c)) = Inr c)"

interpretation event_cursor: record_codec event_cursor_to_dict event_cursor_from_dict event_cursor_ok
proof
  fix r :: event_cursor
  assume "event_cursor_ok r"
  then show "event_cursor_from_dict (event_cursor_to_dict r) = Inr r"
    by (simp add: event_cursor_from_dict_def event_cursor_to_dict_def codec_simps event_cursor_ok_def dget_def)
next
  fix v r
  assume "event_cursor_from_dict v = Inr r"
  then show "event_cursor_ok r"
    by (auto simp: event_cursor_from_dict_def event_cursor_ok_def mk_event_cursor_def bindr_eq_Inr normal_forms)
qed

definition event_range_ok :: "event_range \<Rightarrow> bool" where
  "event_range_ok r = (event_cursor_ok (er_start r) \<and> event_cursor_ok (er_end r) \<and>
     ec_store_seq (er_start r) \<le> ec_store_seq (er_end r))"

interpretation event_range: record_codec event_range_to_dict event_range_from_dict event_range_ok
proof
  fix r :: event_range
  assume "event_range_ok r"
  then show "event_range_from_dict (event_range_to_dict r) = Inr r"
    by (simp add: event_range_from_dict_def event_range_to_dict_def codec_simps event_range_ok_def dget_def
        mk_event_range_def event_cursor.round_trip)
next
  fix v r
  assume "event_range_from_dict v = Inr r"
  then show "event_range_ok r"
    by (auto simp: event_range_from_dict_def event_range_ok_def mk_event_range_def bindr_eq_Inr
        intro: event_cursor.decoded_ok split: if_splits)
qed

definition generation_ref_ok :: "generation_ref \<Rightarrow> bool" where
  "generation_ref_ok g = (mk_generation_ref (PyStr (gr_execution_id g)) (PyStr (gr_generation_id g)) = Inr g)"

interpretation generation_ref: record_codec generation_ref_to_dict generation_ref_from_dict generation_ref_ok
proof
  fix r :: generation_ref
  assume "generation_ref_ok r"
  then show "generation_ref_from_dict (generation_ref_to_dict r) = Inr r"
    by (simp add: generation_ref_from_dict_def generation_ref_to_dict_def codec_simps generation_ref_ok_def dget_def)
next
  fix v r
  assume "generation_ref_from_dict v = Inr r"
  then show "generation_ref_ok r"
    by (auto simp: generation_ref_from_dict_def generation_ref_ok_def mk_generation_ref_def bindr_eq_Inr normal_forms)
qed

definition attempt_ref_ok :: "attempt_ref \<Rightarrow> bool" where
  "attempt_ref_ok a = (generation_ref_ok (at_generation a) \<and>
     mk_attempt_ref (Inl (at_generation a)) (PyStr (at_attempt_id a)) = Inr a)"

interpretation attempt_ref: record_codec attempt_ref_to_dict attempt_ref_from_dict attempt_ref_ok
proof
  fix r :: attempt_ref
  assume "attempt_ref_ok r"
  then show "attempt_ref_from_dict (attempt_ref_to_dict r) = Inr r"
    by (simp add: attempt_ref_from_dict_def attempt_ref_to_dict_def codec_simps attempt_ref_ok_def dget_def
        generation_ref.round_trip)
next
  fix v r
  assume "attempt_ref_from_dict v = Inr r"
  then show "attempt_ref_ok r"
    by (auto simp: attempt_ref_from_dict_def attempt_ref_ok_def mk_attempt_ref_def bindr_eq_Inr normal_forms
        intro: generation_ref.decoded_ok)
qed

definition operation_ref_ok :: "operation_ref \<Rightarrow> bool" where
  "operation_ref_ok r = (mk_operation_ref (PyStr (op_operation_id r)) (PyStr (op_payload_sha256 r)) = Inr r)"

interpretation operation_ref: record_codec operation_ref_to_dict operation_ref_from_dict operation_ref_ok
proof
  fix r :: operation_ref
  assume "operation_ref_ok r"
  then show "operation_ref_from_dict (operation_ref_to_dict r) = Inr r"
    by (simp add: operation_ref_from_dict_def operation_ref_to_dict_def codec_simps operation_ref_ok_def dget_def)
next
  fix v r
  assume "operation_ref_from_dict v = Inr r"
  then show "operation_ref_ok r"
    by (auto simp: operation_ref_from_dict_def operation_ref_ok_def mk_operation_ref_def bindr_eq_Inr normal_forms)
qed

subsection \<open>Frozen payloads\<close>

lemma map_of_sort_key:
  fixes d :: "('k::linorder \<times> 'v) list"
  shows "map_of (sort_key fst d) k = map_of d k"
proof -
  have filt: "map_of xs k = (case filter (\<lambda>p. fst p = k) xs of [] \<Rightarrow> None | p # _ \<Rightarrow> Some (snd p))"
    for xs :: "('k \<times> 'v) list"
    by (induction xs) auto
  show ?thesis unfolding filt [of d] filt [of "sort_key fst d"] by (simp add: sort_key_stable)
qed

lemma map_of_list_all2:
  "list_all2 (\<lambda>p r. fst p = fst r \<and> R (snd p) (snd r)) xs ys \<Longrightarrow> rel_option R (map_of xs k) (map_of ys k)"
  by (induction rule: list_all2_induct) auto

lemma mapr_enumerate: "(\<And>i x. x \<in> set xs \<Longrightarrow> f (i, x) = Inr x) \<Longrightarrow> mapr f (enumerate n xs) = Inr xs"
  by (induction xs arbitrary: n) auto

lemma list_all2_enumerate:
  "list_all2 (\<lambda>p y. R (fst p) (snd p) y) (enumerate n xs) ys \<longleftrightarrow>
   length xs = length ys \<and> (\<forall>i < length xs. R (n + i) (xs ! i) (ys ! i))"
  by (auto simp: list_all2_conv_all_nth nth_enumerate_eq)

fun scalar :: "pyval \<Rightarrow> bool" where
  "scalar (PyList _) = False"
| "scalar (PyDict _) = False"
| "scalar (PyObj _ _) = False"
| "scalar _ = True"

lemma freeze_scalar: "scalar v \<Longrightarrow> freeze_json p v = Inr v"
  by (cases v) auto

declare freeze_json.simps(1) [simp del]

definition frozen_entry :: "string \<Rightarrow> string \<times> pyval \<Rightarrow> string \<times> pyval \<Rightarrow> bool" where
  "frozen_entry p a b \<longleftrightarrow> fst a = fst b \<and>
     validate_credential_metadata (normalize_key (fst a)) (p @ ''.'' @ fst a) (snd a) = Inr () \<and>
     freeze_json (p @ ''.'' @ fst a) (snd a) = Inr (snd b)"

lemma freeze_dictE:
  assumes "freeze_json p (PyDict d) = Inr w"
  obtains e where "w = PyDict e" "list_all2 (frozen_entry p) (sort_key fst d) e"
    "\<forall>a \<in> set d. fst a \<noteq> [] \<and> CHR 0x00 \<notin> set (fst a)"
proof -
  obtain e where e: "w = PyDict e" "mapr (\<lambda>a. bindr (validate_credential_metadata (normalize_key (fst a)) (p @ ''.'' @ fst a) (snd a)) (\<lambda>_.
          bindr (freeze_json (p @ ''.'' @ fst a) (snd a)) (\<lambda>v. Inr (fst a, v)))) (sort_key fst d) = Inr e"
    and keys: "\<forall>a \<in> set d. fst a \<noteq> [] \<and> CHR 0x00 \<notin> set (fst a)"
    using assms by (auto simp: freeze_json.simps(1) bindr_eq_Inr split: if_splits)
  have "list_all2 (frozen_entry p) (sort_key fst d) e"
    by (rule list_all2_mono [OF e(2) [unfolded mapr_Inr]]) (auto simp: frozen_entry_def bindr_eq_Inr)
  then show ?thesis using that e(1) keys by blast
qed

lemma freeze_dict_entries:
  "freeze_json p (PyDict d) = Inr (PyDict e) \<Longrightarrow> list_all2 (frozen_entry p) (sort_key fst d) e"
  by (erule freeze_dictE) simp

lemma freeze_dict_get:
  assumes "freeze_json p (PyDict d) = Inr (PyDict e)"
  shows "set (dict_keys e) = set (dict_keys d)"
    "rel_option (\<lambda>a b. \<exists>q. freeze_json q a = Inr b) (dict_get d k) (dict_get e k)"
proof -
  have "list_all2 (frozen_entry p) (sort_key fst d) e" using assms by (rule freeze_dict_entries)
  then have rel: "list_all2 (\<lambda>a b. fst a = fst b \<and> (\<exists>q. freeze_json q (snd a) = Inr (snd b))) (sort_key fst d) e"
    by (rule list_all2_mono) (auto simp: frozen_entry_def)
  then show "rel_option (\<lambda>a b. \<exists>q. freeze_json q a = Inr b) (dict_get d k) (dict_get e k)"
    using map_of_list_all2 [OF rel, of k] by (simp add: map_of_sort_key)
  have "map fst e = map fst (sort_key fst d)"
    using rel by (auto simp: list_all2_conv_all_nth intro!: nth_equalityI)
  then have "set (map fst e) = set (map fst (sort_key fst d))" by simp
  then show "set (dict_keys e) = set (dict_keys d)" by simp
qed

lemma freeze_dget:
  assumes "freeze_json p (PyDict d) = Inr (PyDict e)"
  shows "scalar (dget d k) \<Longrightarrow> dget e k = dget d k" "scalar (dget_or d k a) \<Longrightarrow> dget_or e k a = dget_or d k a"
  using freeze_dict_get(2) [OF assms, of k]
  by (cases "dict_get d k"; cases "dict_get e k"; auto simp: dget_def dget_or_def freeze_scalar)+

lemma required_text_scalar: "required_text n m i v = Inr t \<Longrightarrow> scalar v"
  by (auto simp: required_text_def split: pyval.splits)

lemma optional_text_scalar: "optional_text n m v = Inr t \<Longrightarrow> scalar v"
  by (auto simp: optional_text_def dest: required_text_scalar split: if_splits)

lemma bounded_int_scalar: "bounded_int n m v = Inr t \<Longrightarrow> scalar v"
  by (auto simp: bounded_int_def split: pyval.splits)

lemma record_data_frozen:
  assumes "freeze_json p (PyDict d) = Inr (PyDict e)" "record_data schema required optional (PyDict d) = Inr x"
  shows "record_data schema required optional (PyDict e) = Inr e"
proof -
  have "dget e ''schema'' = dget d ''schema''"
    using assms(2) by (intro freeze_dget(1) [OF assms(1)]) (auto simp: record_data_def split: if_splits)
  moreover have "dict_get e k = None \<longleftrightarrow> dict_get d k = None" for k
    using freeze_dict_get(2) [OF assms(1), of k] by (cases "dict_get d k"; cases "dict_get e k") auto
  moreover have "filter P (dict_keys e) = [] \<longleftrightarrow> filter P (dict_keys d) = []" for P
    using freeze_dict_get(1) [OF assms(1)] by (simp only: filter_empty_conv)
  ultimately show ?thesis using assms(2) by (simp add: record_data_def Let_def split: if_splits)
qed

lemma valid_reference_frozen:
  assumes "valid_reference v" "freeze_json p v = Inr w"
  shows "valid_reference w"
proof -
  obtain d where v: "v = PyDict d" using assms(1) by (cases v) (auto simp: valid_reference_def)
  then obtain e where w: "w = PyDict e" using assms(2) by (auto elim: freeze_dictE)
  note fz = assms(2) [unfolded v w]
  obtain r x where x: "record_data ''unchain.resource_ref.v1'' [''kind'', ''id'', ''revision''] [''fragment''] (PyDict d) = Inr x"
    and mkx: "mk_resource_ref (dget x ''kind'') (dget x ''id'') (dget x ''revision'') (dget_or x ''fragment'' (PyStr [])) = Inr r"
    using assms(1) v by (auto simp: valid_reference_def is_ok_iff resource_ref_from_dict_def bindr_eq_Inr)
  note rd = record_data_frozen [OF fz x]
  have mk: "mk_resource_ref (dget d ''kind'') (dget d ''id'') (dget d ''revision'') (dget_or d ''fragment'' (PyStr [])) = Inr r"
    using mkx record_data_Inr [OF x] by simp
  have "scalar (dget d ''kind'')" "scalar (dget d ''id'')" "scalar (dget d ''revision'')"
      "scalar (dget_or d ''fragment'' (PyStr []))"
    using mk by (auto simp: mk_resource_ref_def bindr_eq_Inr
        dest: required_text_scalar optional_text_scalar bounded_int_scalar)
  then have "resource_ref_from_dict (PyDict e) = Inr r"
    using rd mk by (simp add: resource_ref_from_dict_def freeze_dget [OF fz])
  then show ?thesis using w by (simp add: valid_reference_def)
qed

lemma freeze_listE:
  assumes "freeze_json p (PyList xs) = Inr w"
  obtains ys where "w = PyList ys" "length xs = length ys"
    "\<And>i. i < length xs \<Longrightarrow> freeze_json (p @ ''['' @ nat_text i @ '']'') (xs ! i) = Inr (ys ! i)"
proof -
  obtain ys where ys: "w = PyList ys"
      "list_all2 (\<lambda>a y. freeze_json (p @ ''['' @ nat_text (fst a) @ '']'') (snd a) = Inr y) (enumerate 0 xs) ys"
    using assms by (auto simp: bindr_eq_Inr mapr_Inr)
  then show ?thesis
    using that [of ys] ys(2) [unfolded list_all2_enumerate [where R = "\<lambda>i x y. freeze_json (p @ ''['' @ nat_text i @ '']'') x = Inr y"]]
    by auto
qed

lemma list_all_frozen:
  assumes "list_all P xs" "freeze_json p (PyList xs) = Inr (PyList ys)"
    "\<And>q x y. \<lbrakk>P x; freeze_json q x = Inr y\<rbrakk> \<Longrightarrow> Q y"
  shows "list_all Q ys"
  using assms(2)
proof (rule freeze_listE)
  fix zs
  assume "PyList ys = PyList zs" "length xs = length zs"
    "\<And>i. i < length xs \<Longrightarrow> freeze_json (p @ ''['' @ nat_text i @ '']'') (xs ! i) = Inr (zs ! i)"
  then show ?thesis using assms(1) by (auto simp: list_all_length intro: assms(3))
qed

lemma valid_usage_frozen: "\<lbrakk>valid_usage v; freeze_json p v = Inr w\<rbrakk> \<Longrightarrow> valid_usage w"
proof (induction v arbitrary: p w rule: valid_usage.induct)
  case (2 d)
  obtain e where e: "w = PyDict e" "list_all2 (frozen_entry p) (sort_key fst d) e"
    using 2(3) by (rule freeze_dictE)
  have "valid_usage (snd b)" if "b \<in> set e" for b
  proof -
    obtain a where a: "a \<in> set d" "frozen_entry p a b"
      using list_all2_elem [OF e(2) \<open>b \<in> set e\<close>] by auto
    then show ?thesis using 2(1) [OF a(1)] 2(2) by (auto simp: frozen_entry_def)
  qed
  then show ?case by (simp add: e(1))
qed auto

lemma handle_frozen:
  assumes "freeze_json p (PyDict d) = Inr (PyDict e)"
  shows "required_text n m i (dget d k) = Inr t \<Longrightarrow> required_text n m i (dget e k) = Inr t"
    "dget d k = PyStr s \<Longrightarrow> dget e k = PyStr s"
  using freeze_dget(1) [OF assms, of k] required_text_scalar [of n m i "dget d k"] by simp_all

lemma freeze_strings: "list_all is_str xs \<Longrightarrow> freeze_json p (PyList xs) = Inr (PyList xs)"
proof -
  assume a: "list_all is_str xs"
  have "mapr (\<lambda>q. freeze_json (p @ ''['' @ nat_text (fst q) @ '']'') (snd q)) (enumerate 0 xs) = Inr xs"
    using a by (intro mapr_enumerate) (auto simp: list_all_iff is_str.simps intro!: freeze_scalar elim!: is_str.elims)
  then show ?thesis by simp
qed

text \<open>Credential metadata stays valid when its value is frozen.\<close>

lemma validate_frozen:
  assumes "validate_credential_metadata k p v = Inr ()" "freeze_json q v = Inr w"
  shows "validate_credential_metadata k p' w = Inr ()"
proof (cases "credential_metadata_kind k")
  case (Some kind)
  note defs = validate_credential_metadata_def Let_def
  show ?thesis
  proof (cases kind)
    case MetaHandle
    then obtain d where d: "v = PyDict d" using assms(1) Some by (auto simp: defs split: pyval.splits)
    obtain e where e: "w = PyDict e" using assms(2) unfolding d by (rule freeze_dictE)
    note fz = assms(2) [unfolded d e]
    show ?thesis
      using assms(1) Some MetaHandle handle_frozen [OF fz] freeze_dict_get(1) [OF fz]
      unfolding d e by (auto simp: defs bindr_eq_Inr split: if_splits)
  next
    case MetaReferences
    then obtain xs where xs: "v = PyList xs" "list_all valid_reference xs"
      using assms(1) Some by (auto simp: defs split: pyval.splits if_splits)
    obtain ys where "w = PyList ys" using assms(2) unfolding xs by (rule freeze_listE)
    then show ?thesis
      using list_all_frozen [OF xs(2), of q ys valid_reference] assms(2) xs MetaReferences Some
      by (auto simp: defs intro: valid_reference_frozen)
  next
    case MetaIdentifiers
    then obtain xs where xs: "v = PyList xs" "list_all (\<lambda>x. case x of PyStr s \<Rightarrow> is_identifier s | _ \<Rightarrow> False) xs"
      using assms(1) Some by (auto simp: defs split: pyval.splits if_splits)
    have "list_all is_str xs" by (rule list.pred_mono_strong [OF xs(2)]) (auto split: pyval.splits)
    then have "w = v" using assms(2) freeze_strings xs(1) by simp
    then show ?thesis using assms(1) Some MetaIdentifiers xs by (simp add: defs)
  next
    case MetaUsage
    then show ?thesis using assms Some valid_usage_frozen by (auto simp: defs split: if_splits)
  next
    case MetaReference
    then show ?thesis using assms Some valid_reference_frozen by (auto simp: defs split: if_splits)
  qed (use assms Some in \<open>auto simp: defs nonneg_int_def split: pyval.splits if_splits\<close>)
qed (simp add: validate_credential_metadata_def)

lemma freeze_idem: "freeze_json p v = Inr w \<Longrightarrow> freeze_json q w = Inr w"
proof (induction p v arbitrary: q w rule: freeze_json.induct)
  case (1 p d)
  obtain e where e: "w = PyDict e" "list_all2 (frozen_entry p) (sort_key fst d) e"
      and keys: "\<forall>a \<in> set d. fst a \<noteq> [] \<and> CHR 0x00 \<notin> set (fst a)"
    using "1.prems" by (rule freeze_dictE)
  have fste: "map fst e = map fst (sort_key fst d)"
    using e(2) by (auto simp: list_all2_conv_all_nth frozen_entry_def intro!: nth_equalityI)
  have step: "bindr (validate_credential_metadata (normalize_key (fst b)) (q @ ''.'' @ fst b) (snd b)) (\<lambda>_.
          bindr (freeze_json (q @ ''.'' @ fst b) (snd b)) (\<lambda>v. Inr (fst b, v))) = Inr b" if "b \<in> set e" for b
  proof -
    obtain a where a: "a \<in> set (sort_key fst d)" "frozen_entry p a b"
      using list_all2_elem [OF e(2) \<open>b \<in> set e\<close>] by blast
    then show ?thesis
      using validate_frozen "1.IH" [OF _ a(1)] keys by (auto simp: frozen_entry_def)
  qed
  have "sorted (map fst e)" unfolding fste by simp
  then have "sort_key fst e = e" by (rule sort_key_id_if_sorted)
  moreover have "\<forall>b \<in> set e. fst b \<noteq> [] \<and> CHR 0x00 \<notin> set (fst b)"
    using keys arg_cong [OF fste, of set] by (auto simp: image_iff) (metis (no_types, opaque_lifting) fst_conv image_eqI imageE)+
  ultimately show ?case using step by (simp add: e(1) freeze_json.simps(1) mapr_id)
next
  case (2 p xs)
  show ?case using "2.prems"
  proof (rule freeze_listE)
    fix ys
    assume ys: "w = PyList ys" "length xs = length ys"
      "\<And>i. i < length xs \<Longrightarrow> freeze_json (p @ ''['' @ nat_text i @ '']'') (xs ! i) = Inr (ys ! i)"
    have "freeze_json r y = Inr y" if "y \<in> set ys" for r y
    proof -
      obtain i where i: "i < length xs" "y = ys ! i" using \<open>y \<in> set ys\<close> ys(2) by (auto simp: in_set_conv_nth)
      then have "(i, xs ! i) \<in> set (enumerate 0 xs)" by (auto simp: in_set_enumerate_eq)
      from "2.IH" [OF this] show ?thesis using ys(3) [OF i(1)] i(2) by simp
    qed
    then show ?thesis by (simp add: ys(1) mapr_enumerate)
  qed
qed auto

subsection \<open>Encodings of events\<close>

definition append_request_ok :: "append_request \<Rightarrow> bool" where
  "append_request_ok r = (attempt_ref_ok (rq_attempt r) \<and> operation_ref_ok (rq_operation r) \<and>
     (\<forall>x \<in> set (rq_resource_refs r). resource_ref_ok x) \<and>
     mk_append_request (PyStr (rq_event_id r)) (PyStr (rq_event_type r)) (Inl (rq_attempt r)) (Inl (rq_operation r))
       (PyDict (rq_payload r)) (Inl (rq_resource_refs r)) = Inr r)"

lemma mk_append_request_ok:
  assumes "mk_append_request a b c d p rs = Inr r"
    "\<And>x. c = Inl x \<Longrightarrow> attempt_ref_ok x" "\<And>x. d = Inl x \<Longrightarrow> operation_ref_ok x"
    "\<And>xs. rs = Inl xs \<Longrightarrow> \<forall>x \<in> set xs. resource_ref_ok x"
  shows "append_request_ok r"
proof -
  obtain e t x y q zs where r: "r = \<lparr>rq_event_id = e, rq_event_type = t, rq_attempt = x, rq_operation = y, rq_payload = q,
        rq_resource_refs = zs\<rparr>"
      and parts: "required_text ''event_id'' 256 True a = Inr e" "required_text ''event_type'' 256 True b = Inr t"
        "as_record attempt_ref_from_dict c = Inr x" "as_record operation_ref_from_dict d = Inr y"
        "freeze_json ''payload'' p = Inr (PyDict q)" "as_records resource_ref_from_dict ''resource_refs'' rs = Inr zs"
    using assms(1) by (auto simp: mk_append_request_def bindr_eq_Inr case_PyDict_Inr)
  show ?thesis
    using parts attempt_ref.as_record_ok [OF parts(3) assms(2)] operation_ref.as_record_ok [OF parts(4) assms(3)]
      resource_ref.as_records_ok [OF parts(6) assms(4)]
    by (simp add: append_request_ok_def r mk_append_request_def normal_forms freeze_idem)
qed

interpretation append_request: record_codec append_request_to_dict append_request_from_dict append_request_ok
proof
  fix r :: append_request
  assume "append_request_ok r"
  then show "append_request_from_dict (append_request_to_dict r) = Inr r"
    by (simp add: append_request_from_dict_def append_request_to_dict_def codec_simps append_request_ok_def dget_def
        dget_or_def attempt_ref.round_trip operation_ref.round_trip resource_ref.tuple_round_trip)
next
  fix v r
  assume "append_request_from_dict v = Inr r"
  then show "append_request_ok r"
    by (auto simp: append_request_from_dict_def bindr_eq_Inr
        intro!: mk_append_request_ok dest: attempt_ref.decoded_ok operation_ref.decoded_ok resource_ref.tuple_ok)
qed

definition journal_event_ok :: "journal_event \<Rightarrow> bool" where
  "journal_event_ok e = (ev_store_seq e \<ge> 1 \<and> append_request_ok
     \<lparr>rq_event_id = ev_event_id e, rq_event_type = ev_event_type e, rq_attempt = ev_attempt e,
      rq_operation = ev_operation e, rq_payload = ev_payload e, rq_resource_refs = ev_resource_refs e\<rparr>)"

lemma mk_journal_event_ok:
  assumes "mk_journal_event a b c d n p rs = Inr e"
    "\<And>x. c = Inl x \<Longrightarrow> attempt_ref_ok x" "\<And>x. d = Inl x \<Longrightarrow> operation_ref_ok x"
    "\<And>xs. rs = Inl xs \<Longrightarrow> \<forall>x \<in> set xs. resource_ref_ok x"
  shows "journal_event_ok e"
proof -
  obtain q where q: "mk_append_request a b c d p rs = Inr q" "bounded_int ''store_seq'' 1 n = Inr (ev_store_seq e)"
      "\<lparr>rq_event_id = ev_event_id e, rq_event_type = ev_event_type e, rq_attempt = ev_attempt e,
      rq_operation = ev_operation e, rq_payload = ev_payload e, rq_resource_refs = ev_resource_refs e\<rparr> = q"
    using assms(1) by (auto simp: mk_journal_event_def bindr_eq_Inr)
  have "1 \<le> ev_store_seq e" using q(2) by (auto simp: bounded_int_def split: pyval.splits if_splits)
  then show ?thesis using mk_append_request_ok [OF q(1) assms(2-4)] by (simp add: journal_event_ok_def q(3))
qed

lemma journal_event_rebuild:
  "journal_event_ok e \<Longrightarrow>
   mk_journal_event (PyStr (ev_event_id e)) (PyStr (ev_event_type e)) (Inl (ev_attempt e)) (Inl (ev_operation e))
     (PyInt (ev_store_seq e)) (PyDict (ev_payload e)) (Inl (ev_resource_refs e)) = Inr e"
  by (simp add: journal_event_ok_def append_request_ok_def mk_journal_event_def bounded_int_def)

lemma journal_event_ok_parts:
  "journal_event_ok e \<Longrightarrow> attempt_ref_ok (ev_attempt e) \<and> operation_ref_ok (ev_operation e) \<and>
     (\<forall>x \<in> set (ev_resource_refs e). resource_ref_ok x)"
  by (simp add: journal_event_ok_def append_request_ok_def)

interpretation journal_event: record_codec journal_event_to_dict journal_event_from_dict journal_event_ok
proof
  fix r :: journal_event
  assume ok: "journal_event_ok r"
  then show "journal_event_from_dict (journal_event_to_dict r) = Inr r"
    using journal_event_ok_parts [OF ok]
    by (simp add: journal_event_from_dict_def journal_event_to_dict_def codec_simps dget_def
        dget_or_def attempt_ref.round_trip operation_ref.round_trip resource_ref.tuple_round_trip journal_event_rebuild)
next
  fix v r
  assume "journal_event_from_dict v = Inr r"
  then show "journal_event_ok r"
    by (auto simp: journal_event_from_dict_def bindr_eq_Inr
        intro!: mk_journal_event_ok dest: attempt_ref.decoded_ok operation_ref.decoded_ok resource_ref.tuple_ok)
qed

lemma event_cursor_to_dict_not_None [simp]: "event_cursor_to_dict c \<noteq> PyNone"
  by (simp add: event_cursor_to_dict_def)

definition journal_page_ok :: "journal_page \<Rightarrow> bool" where
  "journal_page_ok p = ((\<forall>e \<in> set (pg_events p). journal_event_ok e) \<and>
     (\<forall>c. pg_next_cursor p = Some c \<longrightarrow> event_cursor_ok c) \<and>
     page_error (pg_events p) (pg_next_cursor p) (pg_has_more p) = None)"

interpretation journal_page: record_codec journal_page_to_dict journal_page_from_dict journal_page_ok
proof
  fix r :: journal_page
  assume "journal_page_ok r"
  then show "journal_page_from_dict (journal_page_to_dict r) = Inr r"
    by (cases "pg_next_cursor r")
      (auto simp: journal_page_from_dict_def journal_page_to_dict_def codec_simps dget_def journal_page_ok_def
        mk_journal_page_def journal_event.tuple_round_trip event_cursor.round_trip)
next
  fix v r
  assume "journal_page_from_dict v = Inr r"
  then show "journal_page_ok r"
    by (auto simp: journal_page_from_dict_def journal_page_ok_def mk_journal_page_def bindr_eq_Inr
        dest!: journal_event.tuple_ok split: option.splits if_splits)
      (erule event_cursor.decoded_ok)
qed

definition append_result_ok :: "append_result \<Rightarrow> bool" where
  "append_result_ok r = (journal_event_ok (res_event r) \<and> event_cursor_ok (res_cursor r) \<and>
     ec_event_id (res_cursor r) = ev_event_id (res_event r) \<and> ec_store_seq (res_cursor r) = ev_store_seq (res_event r))"

interpretation append_result: record_codec append_result_to_dict append_result_from_dict append_result_ok
proof
  fix r :: append_result
  assume "append_result_ok r"
  then show "append_result_from_dict (append_result_to_dict r) = Inr r"
    by (simp add: append_result_from_dict_def append_result_to_dict_def codec_simps dget_def mk_append_result_def
        journal_event.round_trip event_cursor.round_trip append_result_ok_def)
next
  fix v r
  assume "append_result_from_dict v = Inr r"
  then show "append_result_ok r"
    by (auto simp: append_result_from_dict_def mk_append_result_def bindr_eq_Inr append_result_ok_def
        dest: journal_event.decoded_ok event_cursor.decoded_ok split: if_splits)
qed

subsection \<open>Properties\<close>

text \<open>
  A journal event survives its encoding. Whatever loosely typed values an event was built from,
  decoding its dictionary gives the same event back, although the constructor strips text, sorts
  and validates the payload again; so does re-encoding a decoded page of events.
\<close>
theorem journal_event_round_trip:
  "(mk_journal_event eid ty (Inr att) (Inr opr) seq payload (Inr refs) = Inr e \<longrightarrow>
      journal_event_from_dict (journal_event_to_dict e) = Inr e) \<and>
   (journal_page_from_dict v = Inr p \<longrightarrow> journal_page_from_dict (journal_page_to_dict p) = Inr p)"
  using journal_page.reencode by (auto intro!: journal_event.round_trip mk_journal_event_ok)

definition demo_event_args :: "pyval list" where
  "demo_event_args = [PyStr '' ev-1 '', PyStr ''tool.started'',
     attempt_ref_to_dict \<lparr>at_generation = \<lparr>gr_execution_id = ''x'', gr_generation_id = ''g''\<rparr>, at_attempt_id = ''a''\<rparr>,
     operation_ref_to_dict \<lparr>op_operation_id = ''op'', op_payload_sha256 = replicate 64 (CHR ''0'')\<rparr>,
     PyInt 1, PyDict [(''token_count'', PyInt 3), (''call_id'', PyStr ''c'')], PyNone]"

definition demo_event :: journal_event where
  "demo_event = \<lparr>ev_event_id = ''ev-1'', ev_event_type = ''tool.started'',
     ev_attempt = \<lparr>at_generation = \<lparr>gr_execution_id = ''x'', gr_generation_id = ''g''\<rparr>, at_attempt_id = ''a''\<rparr>,
     ev_operation = \<lparr>op_operation_id = ''op'', op_payload_sha256 = replicate 64 (CHR ''0'')\<rparr>,
     ev_store_seq = 1, ev_payload = [(''call_id'', PyStr ''c''), (''token_count'', PyInt 3)], ev_resource_refs = []\<rparr>"

lemma demo_event_built:
  "mk_journal_event (demo_event_args ! 0) (demo_event_args ! 1) (Inr (demo_event_args ! 2)) (Inr (demo_event_args ! 3))
     (demo_event_args ! 4) (demo_event_args ! 5) (Inr (demo_event_args ! 6)) = Inr demo_event"
  by code_simp

theorem journal_event_round_trip_witness:
  "journal_event_from_dict (journal_event_to_dict demo_event) = Inr demo_event"
  using journal_event_round_trip demo_event_built by blast

text \<open>An entry that shows a credential: plaintext, or text that is neither an identifier nor a digest.\<close>

definition exposed_entry :: "string \<Rightarrow> pyval \<Rightarrow> bool" where
  "exposed_entry k v =
     (case credential_metadata_kind (normalize_key k) of
        None \<Rightarrow> False
      | Some kind \<Rightarrow> kind = MetaPlaintext \<or> (case v of PyStr s \<Rightarrow> \<not> is_identifier s \<and> \<not> is_sha256 s | _ \<Rightarrow> False))"

fun exposes :: "pyval \<Rightarrow> bool" where
  "exposes (PyDict d) = (\<exists>p \<in> set d. exposed_entry (fst p) (snd p) \<or> exposes (snd p))"
| "exposes (PyList xs) = (\<exists>x \<in> set xs. exposes x)"
| "exposes _ = False"

lemma validated_not_exposed:
  "validate_credential_metadata (normalize_key k) p v = Inr () \<Longrightarrow> \<not> exposed_entry k v"
  by (auto simp: validate_credential_metadata_def exposed_entry_def Let_def nonneg_int_def valid_reference_def
      split: option.splits metadata_kind.splits pyval.splits if_splits)

lemma frozen_not_exposed: "freeze_json p v = Inr w \<Longrightarrow> \<not> exposes w"
proof (induction p v arbitrary: w rule: freeze_json.induct)
  case (1 p d)
  obtain e where e: "w = PyDict e" "list_all2 (frozen_entry p) (sort_key fst d) e"
      and keys: "\<forall>a \<in> set d. fst a \<noteq> [] \<and> CHR 0x00 \<notin> set (fst a)"
    using "1.prems" by (rule freeze_dictE)
  have "\<not> exposed_entry (fst b) (snd b) \<and> \<not> exposes (snd b)" if "b \<in> set e" for b
  proof -
    obtain a where a: "a \<in> set (sort_key fst d)" "frozen_entry p a b"
      using list_all2_elem [OF e(2) \<open>b \<in> set e\<close>] by blast
    then show ?thesis
      using validate_frozen validated_not_exposed "1.IH" [OF _ a(1)] keys unfolding frozen_entry_def by metis
  qed
  then show ?case by (auto simp: e(1))
next
  case (2 p xs)
  show ?case using "2.prems"
  proof (rule freeze_listE)
    fix ys
    assume ys: "w = PyList ys" "length xs = length ys"
      "\<And>i. i < length xs \<Longrightarrow> freeze_json (p @ ''['' @ nat_text i @ '']'') (xs ! i) = Inr (ys ! i)"
    have "\<not> exposes (ys ! i)" if "i < length xs" for i
    proof -
      have "(i, xs ! i) \<in> set (enumerate 0 xs)" using that by (auto simp: in_set_enumerate_eq)
      from "2.IH" [OF this] show ?thesis using ys(3) [OF that] by simp
    qed
    then show ?thesis using ys(1,2) by (auto simp: in_set_conv_nth)
  qed
qed auto

text \<open>
  No journal event exposes a credential. At every depth of its payload, a key that names a
  credential (password, token, api key, ... in any spelling the key normalisation recognises) never
  holds plaintext: the constructor refuses it unless its suffix declares opaque metadata, and text
  there is an identifier or a digest.
\<close>
theorem journal_payload_hides_credentials:
  assumes "mk_journal_event eid ty att opr seq payload refs = Inr e"
  shows "\<not> exposes (PyDict (ev_payload e))"
proof -
  obtain d where "freeze_json ''payload'' payload = Inr (PyDict d)" "ev_payload e = d"
    using assms by (auto simp: mk_journal_event_def mk_append_request_def bindr_eq_Inr case_PyDict_Inr)
  then show ?thesis using frozen_not_exposed by blast
qed

theorem journal_payload_hides_credentials_witness:
  "\<not> exposes (PyDict (ev_payload demo_event)) \<and>
   (\<exists>m. freeze_json ''payload'' (PyDict [(''outer'', PyDict [(''apiKey'', PyStr ''k'')])]) = Inl (model_error m))"
proof
  show "\<not> exposes (PyDict (ev_payload demo_event))" by (rule journal_payload_hides_credentials [OF demo_event_built])
  have "freeze_json ''payload'' (PyDict [(''outer'', PyDict [(''apiKey'', PyStr ''k'')])]) =
     Inl (model_error ''payload.outer.apiKey is a plaintext secret field; use an opaque handle'')" by code_simp
  then show "\<exists>m. freeze_json ''payload'' (PyDict [(''outer'', PyDict [(''apiKey'', PyStr ''k'')])]) = Inl (model_error m)" ..
qed

subsection \<open>Canonical JSON\<close>

text \<open>
  \<open>json.dumps(v, sort_keys=True, separators=(',', ':'))\<close> determines a value up to the order of its
  keys, and \<open>json.loads\<close> reads it back with sorted keys: canonical text is represented by the value
  \<open>canonical v\<close>. The records of the durable store read themselves back from it.
\<close>

fun canonical :: "pyval \<Rightarrow> pyval" where
  "canonical (PyDict d) = PyDict (sort_key fst (map (\<lambda>p. (fst p, canonical (snd p))) d))"
| "canonical (PyList xs) = PyList (map canonical xs)"
| "canonical v = v"

declare canonical.simps(1) [simp del]

definition canon_dict :: "pydict \<Rightarrow> pydict" where
  "canon_dict d = sort_key fst (map (\<lambda>p. (fst p, canonical (snd p))) d)"

lemma canonical_PyDict [codec_simps]: "canonical (PyDict d) = PyDict (canon_dict d)"
  by (simp add: canonical.simps(1) canon_dict_def)

lemma dict_get_canon [codec_simps]: "dict_get (canon_dict d) k = map_option canonical (dict_get d k)"
  unfolding canon_dict_def map_of_sort_key by (induction d) auto

lemma set_canon_dict: "set (dict_keys (canon_dict d)) = set (dict_keys d)"
  by (simp add: canon_dict_def image_image)

lemma record_data_canon [codec_simps]:
  "\<lbrakk>dict_get d ''schema'' = Some (PyStr schema); list_all (\<lambda>k. dict_get d k \<noteq> None) required;
    list_all (\<lambda>k. k \<in> set (required @ optional @ [''schema''])) (dict_keys d)\<rbrakk>
   \<Longrightarrow> record_data schema required optional (PyDict (canon_dict d)) = Inr (canon_dict d)"
  by (rule record_data_PyDict) (simp_all only: list_all_iff set_canon_dict, auto simp: dict_get_canon)

locale canonical_codec = record_codec +
  assumes canonical_trip: "ok r \<Longrightarrow> dec (canonical (enc r)) = Inr r"
begin

lemma canonical_inject: "\<lbrakk>ok r; ok s; canonical (enc r) = canonical (enc s)\<rbrakk> \<Longrightarrow> r = s"
  using canonical_trip by (metis sum.inject(2))

lemma canonical_tuple: "\<forall>r \<in> set rs. ok r \<Longrightarrow> record_tuple dec n (PyList (map canonical (map enc rs))) = Inr rs"
  by (simp add: record_tuple_def mapr_map mapr_id canonical_trip)

end

interpretation resource_ref: canonical_codec resource_ref_to_dict resource_ref_from_dict resource_ref_ok
  by unfold_locales
    (simp add: resource_ref_from_dict_def resource_ref_to_dict_def codec_simps resource_ref_ok_def dget_def dget_or_def)

interpretation artifact_ref: canonical_codec artifact_ref_to_dict artifact_ref_from_dict artifact_ref_ok
  by unfold_locales
    (simp add: artifact_ref_from_dict_def artifact_ref_to_dict_def codec_simps artifact_ref_ok_def dget_def dget_or_def
      resource_ref.canonical_trip)

interpretation event_cursor: canonical_codec event_cursor_to_dict event_cursor_from_dict event_cursor_ok
  by unfold_locales
    (simp add: event_cursor_from_dict_def event_cursor_to_dict_def codec_simps event_cursor_ok_def dget_def)

interpretation generation_ref: canonical_codec generation_ref_to_dict generation_ref_from_dict generation_ref_ok
  by unfold_locales
    (simp add: generation_ref_from_dict_def generation_ref_to_dict_def codec_simps generation_ref_ok_def dget_def)

interpretation attempt_ref: canonical_codec attempt_ref_to_dict attempt_ref_from_dict attempt_ref_ok
  by unfold_locales
    (simp add: attempt_ref_from_dict_def attempt_ref_to_dict_def codec_simps attempt_ref_ok_def dget_def
      generation_ref.canonical_trip)

interpretation operation_ref: canonical_codec operation_ref_to_dict operation_ref_from_dict operation_ref_ok
  by unfold_locales
    (simp add: operation_ref_from_dict_def operation_ref_to_dict_def codec_simps operation_ref_ok_def dget_def)

lemma canonical_frozen: "freeze_json p v = Inr w \<Longrightarrow> canonical w = w"
proof (induction p v arbitrary: w rule: freeze_json.induct)
  case (1 p d)
  obtain e where e: "w = PyDict e" "list_all2 (frozen_entry p) (sort_key fst d) e"
      and keys: "\<forall>a \<in> set d. fst a \<noteq> [] \<and> CHR 0x00 \<notin> set (fst a)"
    using "1.prems" by (rule freeze_dictE)
  have "(fst b, canonical (snd b)) = b" if "b \<in> set e" for b
  proof -
    obtain a where a: "a \<in> set (sort_key fst d)" "frozen_entry p a b"
      using list_all2_elem [OF e(2) \<open>b \<in> set e\<close>] by blast
    then show ?thesis using "1.IH" [OF _ a(1)] keys by (auto simp: frozen_entry_def prod_eq_iff)
  qed
  then have "map (\<lambda>p. (fst p, canonical (snd p))) e = e" by (simp add: map_idI)
  moreover have "map fst e = map fst (sort_key fst d)"
    using e(2) by (auto simp: list_all2_conv_all_nth frozen_entry_def intro!: nth_equalityI)
  then have "sorted (map fst e)" by simp
  ultimately show ?case by (simp add: e(1) canonical.simps(1) sort_key_id_if_sorted)
next
  case (2 p xs)
  show ?case using "2.prems"
  proof (rule freeze_listE)
    fix ys
    assume ys: "w = PyList ys" "length xs = length ys"
      "\<And>i. i < length xs \<Longrightarrow> freeze_json (p @ ''['' @ nat_text i @ '']'') (xs ! i) = Inr (ys ! i)"
    have "canonical (ys ! i) = ys ! i" if "i < length xs" for i
    proof -
      have "(i, xs ! i) \<in> set (enumerate 0 xs)" using that by (auto simp: in_set_enumerate_eq)
      from "2.IH" [OF this] show ?thesis using ys(3) [OF that] by simp
    qed
    then show ?thesis using ys(1,2) by (auto intro: nth_equalityI)
  qed
qed auto

lemma journal_event_ok_payload: "journal_event_ok e \<Longrightarrow> canonical (PyDict (ev_payload e)) = PyDict (ev_payload e)"
  by (auto simp: journal_event_ok_def append_request_ok_def mk_append_request_def bindr_eq_Inr case_PyDict_Inr
      dest: canonical_frozen)

interpretation journal_event: canonical_codec journal_event_to_dict journal_event_from_dict journal_event_ok
proof unfold_locales
  fix r :: journal_event
  assume ok: "journal_event_ok r"
  show "journal_event_from_dict (canonical (journal_event_to_dict r)) = Inr r"
    using journal_event_ok_parts [OF ok] journal_event_ok_payload [OF ok] journal_event_rebuild [OF ok]
    by (simp add: journal_event_from_dict_def journal_event_to_dict_def canonical_PyDict [of "[(a, b)]" for a b]
        canonical_PyDict [of "x # y # z" for x y z] dict_get_canon record_data_canon dget_def dget_or_def
        attempt_ref.canonical_trip operation_ref.canonical_trip resource_ref.canonical_tuple [simplified])
qed

end
