(* ===== verification/RequestLease.thy ===== *)
theory RequestLease
  imports JournalModels
begin

section \<open>The provider request lease\<close>

text \<open>
  \<open>providers/request_lease.py\<close> with the two closed diagnostics it carries
  (\<open>failure_diagnostic.py\<close>, \<open>uncertainty_diagnostic.py\<close>): one durable, revisioned record per provider
  send, and the coordinator that claims, fails, completes and retries it over an atomic
  compare-and-swap port. The port is a record of two functions over an arbitrary store state; what
  the coordinator relies on is the locale \<open>lease_port\<close>, which the durable store interprets.
  \<open>canonical_sha256\<close> of a value is the argument \<open>sha\<close> applied to its canonical form. Constructors
  of the diagnostics from exceptions of the SDKs are not modelled.
\<close>

subsection \<open>Closed diagnostics\<close>

definition failure_codes :: "string list" where
  "failure_codes =
     [[], ''invalid_api_key'', ''invalid_request_error'', ''authentication_error'', ''permission_error'', ''permission_denied'',
      ''model_not_found'', ''invalid_function_parameters'', ''invalid_tool'', ''invalid_value'', ''unsupported_parameter'',
      ''unsupported_value'', ''missing_required_parameter'', ''unknown_parameter'', ''context_length_exceeded'',
      ''content_policy_violation'', ''insufficient_quota'', ''rate_limit_exceeded'', ''billing_hard_limit_reached'',
      ''INVALID_ARGUMENT'', ''NOT_FOUND'', ''PERMISSION_DENIED'', ''UNAUTHENTICATED'', ''RESOURCE_EXHAUSTED'',
      ''FAILED_PRECONDITION'', ''OUT_OF_RANGE'', ''UNAVAILABLE'', ''INTERNAL'', ''DEADLINE_EXCEEDED'', ''ABORTED'',
      ''ALREADY_EXISTS'', ''CANCELLED'']"

definition response_codes :: "string list" where
  "response_codes =
     [''SAFETY'', ''RECITATION'', ''LANGUAGE'', ''OTHER'', ''BLOCKLIST'', ''PROHIBITED_CONTENT'', ''SPII'',
      ''MALFORMED_FUNCTION_CALL'', ''IMAGE_SAFETY'', ''IMAGE_PROHIBITED_CONTENT'', ''IMAGE_OTHER'', ''NO_IMAGE'',
      ''IMAGE_RECITATION'', ''UNEXPECTED_TOOL_CALL'', ''TOO_MANY_TOOL_CALLS'', ''MISSING_THOUGHT_SIGNATURE'',
      ''MALFORMED_RESPONSE'', ''ESCALATION'', ''PUP_LIMITED_DISABLED'', ''PROMPT_BLOCKED'', ''EMPTY_RESPONSE'']"

definition parameter_parts :: "string list" where
  "parameter_parts =
     [''model'', ''input'', ''messages'', ''content'', ''type'', ''role'', ''text'', ''tools'', ''function'', ''name'', ''parameters'',
      ''properties'', ''required'', ''additionalProperties'', ''items'', ''enum'', ''strict'', ''tool_choice'', ''reasoning'',
      ''effort'', ''summary'', ''max_output_tokens'', ''max_tokens'', ''temperature'', ''top_p'', ''include'', ''store'', ''stream'',
      ''truncation'', ''previous_response_id'', ''instructions'', ''parallel_tool_calls'', ''format'', ''response_format'',
      ''service_tier'']"

definition provider_statuses :: "string list" where
  "provider_statuses =
     [''UNAVAILABLE'', ''NOT_FOUND'', ''RESOURCE_EXHAUSTED'', ''PERMISSION_DENIED'', ''INVALID_ARGUMENT'', ''UNAUTHENTICATED'',
      ''FAILED_PRECONDITION'', ''INTERNAL'', ''DEADLINE_EXCEEDED'']"

definition is_model_id :: "string \<Rightarrow> bool" where
  "is_model_id s = (s \<noteq> [] \<and> length s \<le> 61 \<and> key_char (hd s) \<and>
     list_all (\<lambda>c. key_char c \<or> c = CHR ''.'' \<or> c = CHR ''-'') (tl s))"

text \<open>One dotted part: a protocol word with an optional index of one to five digits.\<close>

definition safe_part :: "string \<Rightarrow> bool" where
  "safe_part p =
     (let word = (\<lambda>c. ascii_alnum c \<and> \<not> is_digit c \<or> c = CHR ''_'');
          w = takeWhile word p; r = dropWhile word p in
      w \<in> set parameter_parts \<and>
      (r = [] \<or> hd r = CHR ''['' \<and> length r \<ge> 3 \<and> length r \<le> 7 \<and> last r = CHR '']'' \<and>
        list_all is_digit (butlast (tl r))))"

definition safe_parameter :: "pyval \<Rightarrow> string" where
  "safe_parameter v =
     (case v of
        PyStr s \<Rightarrow> if length s > 160 \<or> \<not> list_all safe_part (split_on (CHR ''.'') s) then [] else s
      | _ \<Rightarrow> [])"

record failure_diagnostic =
  fd_http_status :: "int option"
  fd_provider_code :: string
  fd_parameter :: string
  fd_provider_status :: string
  fd_replacement_model :: string

fun str_of :: "pyval \<Rightarrow> string" where
  "str_of (PyStr s) = s"
| "str_of _ = []"

definition str_in :: "string list \<Rightarrow> pyval \<Rightarrow> bool" where
  "str_in xs v = (is_str v \<and> str_of v \<in> set xs)"

definition mk_failure_diagnostic ::
  "pyval \<Rightarrow> pyval \<Rightarrow> pyval \<Rightarrow> pyval \<Rightarrow> pyval \<Rightarrow> (py_exc, failure_diagnostic) res" where
  "mk_failure_diagnostic http code par status repl =
     (if http = PyNone then
        (if \<not> str_in response_codes code \<or> par \<noteq> PyStr [] \<or> status \<noteq> PyStr [] \<or> repl \<noteq> PyStr []
         then Inl (ValueExc ''provider response diagnostic is invalid'')
         else Inr \<lparr>fd_http_status = None, fd_provider_code = str_of code, fd_parameter = [], fd_provider_status = [],
                   fd_replacement_model = []\<rparr>)
      else case http of
        PyInt n \<Rightarrow>
          if n < 400 \<or> n > 599 then Inl (ValueExc ''provider diagnostic HTTP status is invalid'')
          else if \<not> str_in failure_codes code then Inl (ValueExc ''provider diagnostic code is invalid'')
          else if \<not> is_str par \<or> safe_parameter par \<noteq> str_of par
          then Inl (ValueExc ''provider diagnostic parameter is invalid'')
          else if \<not> is_str status \<or> status \<noteq> PyStr [] \<and> \<not> str_in provider_statuses status
          then Inl (ValueExc ''provider diagnostic status is invalid'')
          else if \<not> is_str repl \<or> repl \<noteq> PyStr [] \<and> \<not> is_model_id (str_of repl)
          then Inl (ValueExc ''provider diagnostic replacement model is invalid'')
          else Inr \<lparr>fd_http_status = Some n, fd_provider_code = str_of code, fd_parameter = str_of par,
                    fd_provider_status = str_of status, fd_replacement_model = str_of repl\<rparr>
      | _ \<Rightarrow> Inl (ValueExc ''provider diagnostic HTTP status is invalid''))"

definition opt_int :: "int option \<Rightarrow> pyval" where
  "opt_int x = (case x of None \<Rightarrow> PyNone | Some n \<Rightarrow> PyInt n)"

definition fd_schema_v1 :: string where "fd_schema_v1 = ''unchain.provider_failure_diagnostic.v1''"
definition fd_schema_v2 :: string where "fd_schema_v2 = ''unchain.provider_failure_diagnostic.v2''"

definition fd_extended :: "failure_diagnostic \<Rightarrow> bool" where
  "fd_extended f = (fd_provider_status f \<noteq> [] \<or> fd_replacement_model f \<noteq> [])"

definition failure_diagnostic_schema :: "failure_diagnostic \<Rightarrow> string" where
  "failure_diagnostic_schema f =
     (if fd_extended f \<or> fd_http_status f = None then fd_schema_v2 else fd_schema_v1)"

definition failure_diagnostic_to_dict :: "failure_diagnostic \<Rightarrow> pyval" where
  "failure_diagnostic_to_dict f = PyDict
     ([(''schema'', PyStr (failure_diagnostic_schema f)), (''http_status'', opt_int (fd_http_status f)),
       (''provider_code'', PyStr (fd_provider_code f)), (''parameter'', PyStr (fd_parameter f))] @
      (if fd_extended f
       then [(''provider_status'', PyStr (fd_provider_status f)), (''replacement_model'', PyStr (fd_replacement_model f))]
       else []))"

definition failure_diagnostic_from_dict :: "pyval \<Rightarrow> (py_exc, failure_diagnostic) res" where
  "failure_diagnostic_from_dict v =
     (case v of
        PyDict d \<Rightarrow>
          (let base = {''schema'', ''http_status'', ''provider_code'', ''parameter''} in
           if set (dict_keys d) = base then
             (if dget d ''schema'' \<noteq> PyStr (if dget d ''http_status'' = PyNone then fd_schema_v2 else fd_schema_v1)
              then Inl (ValueExc ''provider diagnostic schema is invalid'')
              else mk_failure_diagnostic (dget d ''http_status'') (dget d ''provider_code'') (dget d ''parameter'') (PyStr []) (PyStr []))
           else if dget d ''schema'' = PyStr fd_schema_v2 \<and>
                   set (dict_keys d) = base \<union> {''provider_status'', ''replacement_model''} then
             (if dget d ''http_status'' = PyNone
              then Inl (ValueExc ''extended HTTP diagnostic requires an HTTP status'')
              else bindr (mk_failure_diagnostic (dget d ''http_status'') (dget d ''provider_code'') (dget d ''parameter'')
                            (dget d ''provider_status'') (dget d ''replacement_model'')) (\<lambda>f.
                if \<not> fd_extended f then Inl (ValueExc ''provider diagnostic v2 must carry a new field'') else Inr f))
           else Inl (ValueExc ''provider diagnostic fields or schema are invalid''))
      | _ \<Rightarrow> Inl (ValueExc ''provider diagnostic fields are invalid''))"

definition uncertainty_reasons :: "string list" where
  "uncertainty_reasons =
     [''stream_incomplete'', ''connection_interrupted'', ''timeout'', ''response_parse_error'', ''malformed_tool_call'',
      ''conflicting_finish_reason'', ''unsupported_finish_reason'', ''provider_stream_error'', ''request_validation_failed'',
      ''local_processing_error'', ''execution_interrupted'', ''unrecorded_outcome'', ''invalid_result'', ''before_send_failed'']"

definition uncertainty_phases :: "string list" where
  "uncertainty_phases =
     [''request_preparation'', ''requesting'', ''reading_response'', ''processing_response'', ''before_send'',
      ''result_processing'', ''recovery'']"

record uncertainty_diagnostic =
  ud_reason :: string
  ud_phase :: string
  ud_http_status :: "int option"
  ud_provider_code :: string

definition mk_uncertainty_diagnostic ::
  "pyval \<Rightarrow> pyval \<Rightarrow> pyval \<Rightarrow> pyval \<Rightarrow> (py_exc, uncertainty_diagnostic) res" where
  "mk_uncertainty_diagnostic reason phase http code =
     (let stream = (reason = PyStr ''provider_stream_error'');
          probe = (\<lambda>h. mk_failure_diagnostic h code (PyStr []) (PyStr []) (PyStr []));
          done = (\<lambda>h. Inr \<lparr>ud_reason = str_of reason, ud_phase = str_of phase, ud_http_status = h,
                            ud_provider_code = str_of code\<rparr>) in
      if \<not> str_in uncertainty_reasons reason then Inl (ValueExc ''uncertainty reason is invalid'')
      else if \<not> str_in uncertainty_phases phase then Inl (ValueExc ''uncertainty phase is invalid'')
      else if \<not> is_str code then Inl (TypeExc ''uncertainty provider code must be exact text'')
      else if http = PyNone then
        (if code \<noteq> PyStr [] \<and> \<not> stream then Inl (ValueExc ''provider code requires an observed HTTP status'')
         else if code \<noteq> PyStr [] then bindr (probe (PyInt 500)) (\<lambda>_. done None)
         else done None)
      else if http = PyInt 200 then
        (if \<not> stream then Inl (ValueExc ''HTTP 200 metadata requires a provider stream error'')
         else bindr (probe (PyInt 500)) (\<lambda>_. done (Some 200)))
      else if \<not> stream then Inl (ValueExc ''HTTP metadata requires a provider stream error'')
      else bindr (probe http) (\<lambda>f. done (fd_http_status f)))"

definition uncertainty_diagnostic_to_dict :: "uncertainty_diagnostic \<Rightarrow> pyval" where
  "uncertainty_diagnostic_to_dict u = PyDict
     [(''schema'', PyStr ''unchain.provider_uncertainty_diagnostic.v1''), (''reason'', PyStr (ud_reason u)),
      (''phase'', PyStr (ud_phase u)), (''http_status'', opt_int (ud_http_status u)),
      (''provider_code'', PyStr (ud_provider_code u))]"

definition uncertainty_diagnostic_from_dict :: "pyval \<Rightarrow> (py_exc, uncertainty_diagnostic) res" where
  "uncertainty_diagnostic_from_dict v =
     (case v of
        PyDict d \<Rightarrow>
          if set (dict_keys d) \<noteq> {''schema'', ''reason'', ''phase'', ''http_status'', ''provider_code''}
          then Inl (ValueExc ''uncertainty diagnostic fields are invalid'')
          else if dget d ''schema'' \<noteq> PyStr ''unchain.provider_uncertainty_diagnostic.v1''
          then Inl (ValueExc ''uncertainty diagnostic schema is invalid'')
          else mk_uncertainty_diagnostic (dget d ''reason'') (dget d ''phase'') (dget d ''http_status'') (dget d ''provider_code'')
      | _ \<Rightarrow> Inl (ValueExc ''uncertainty diagnostic fields are invalid''))"

subsection \<open>The subject of a send\<close>

definition exact_int :: "string \<Rightarrow> int \<Rightarrow> pyval \<Rightarrow> (py_exc, int) res" where
  "exact_int name maximum v =
     (case v of
        PyInt i \<Rightarrow> if 0 \<le> i \<and> i \<le> maximum then Inr i
                  else Inl (model_error (name @ '' must be between 0 and '' @ int_text maximum))
      | _ \<Rightarrow> Inl (TypeExc (name @ '' must be an exact integer'')))"

definition exact_revision :: "pyval \<Rightarrow> (py_exc, int) res" where
  "exact_revision v =
     (case v of
        PyInt i \<Rightarrow> if i < 1 then Inl (model_error ''revision must be positive'') else Inr i
      | _ \<Rightarrow> Inl (TypeExc ''revision must be an exact integer''))"

definition exact_bool :: "string \<Rightarrow> pyval \<Rightarrow> (py_exc, bool) res" where
  "exact_bool name v = (case v of PyBool b \<Rightarrow> Inr b | _ \<Rightarrow> Inl (TypeExc (name @ '' must be an exact boolean'')))"

definition canonical_text :: "string \<Rightarrow> pyval \<Rightarrow> (py_exc, string) res" where
  "canonical_text name v =
     (case v of
        PyStr s \<Rightarrow> if py_strip s \<noteq> s \<or> s = [] \<or> length s > 128 \<or> (\<exists>c \<in> set s. (of_char c :: nat) < 32)
                  then Inl (model_error (name @ '' must be canonical text'')) else Inr s
      | _ \<Rightarrow> Inl (TypeExc (name @ '' must be exact text'')))"

text \<open>An exact record is encoded and decoded again; a dictionary is decoded; anything else raises.\<close>

definition exact_record ::
  "('r \<Rightarrow> pyval) \<Rightarrow> (pyval \<Rightarrow> (py_exc, 'r) res) \<Rightarrow> string \<Rightarrow> 'r + pyval \<Rightarrow> (py_exc, 'r) res" where
  "exact_record enc dec msg x =
     (case x of
        Inl r \<Rightarrow> dec (enc r)
      | Inr v \<Rightarrow> if is_dict v then dec v else Inl (TypeExc msg))"

definition max_ordinal :: int where "max_ordinal = 2 ^ 31 - 1"

record request_subject =
  su_attempt :: attempt_ref
  su_iteration :: int
  su_envelope_sha256 :: string
  su_route :: string
  su_retry_ordinal :: int

definition mk_request_subject ::
  "attempt_ref + pyval \<Rightarrow> pyval \<Rightarrow> pyval \<Rightarrow> pyval \<Rightarrow> pyval \<Rightarrow> (py_exc, request_subject) res" where
  "mk_request_subject attempt iteration envelope route retry =
     bindr (exact_record attempt_ref_to_dict attempt_ref_from_dict ''attempt must be an exact AttemptRef'' attempt) (\<lambda>a.
     bindr (exact_int ''iteration'' max_ordinal iteration) (\<lambda>i.
     bindr (sha256_field ''envelope_sha256'' envelope) (\<lambda>e.
     bindr (canonical_text ''route'' route) (\<lambda>r.
       if r \<noteq> ''primary'' \<and> r \<noteq> ''openai_previous_response_fallback''
       then Inl (model_error ''route is unsupported'') else
     bindr (exact_int ''retry_ordinal'' max_ordinal retry) (\<lambda>n.
       Inr \<lparr>su_attempt = a, su_iteration = i, su_envelope_sha256 = e, su_route = r, su_retry_ordinal = n\<rparr>)))))"

definition request_subject_to_dict :: "request_subject \<Rightarrow> pyval" where
  "request_subject_to_dict s = PyDict
     [(''schema'', PyStr ''unchain.provider_request_subject.v1''), (''attempt'', attempt_ref_to_dict (su_attempt s)),
      (''iteration'', PyInt (su_iteration s)), (''envelope_sha256'', PyStr (su_envelope_sha256 s)),
      (''route'', PyStr (su_route s)), (''retry_ordinal'', PyInt (su_retry_ordinal s))]"

definition request_subject_from_dict :: "pyval \<Rightarrow> (py_exc, request_subject) res" where
  "request_subject_from_dict v =
     (if \<not> is_dict v then Inl (TypeExc ''provider request subject must be an exact dict'') else
      bindr (record_data ''unchain.provider_request_subject.v1''
               [''attempt'', ''iteration'', ''envelope_sha256'', ''route'', ''retry_ordinal''] [] v) (\<lambda>raw.
      bindr (attempt_ref_from_dict (dget raw ''attempt'')) (\<lambda>a.
        mk_request_subject (Inl a) (dget raw ''iteration'') (dget raw ''envelope_sha256'') (dget raw ''route'')
          (dget raw ''retry_ordinal''))))"

subsection \<open>The result binding\<close>

record result_binding =
  rb_route_sha256 :: string
  rb_result_sha256 :: string
  rb_artifact :: artifact_ref
  rb_cursor :: event_cursor

definition mk_result_binding ::
  "pyval \<Rightarrow> pyval \<Rightarrow> artifact_ref + pyval \<Rightarrow> event_cursor + pyval \<Rightarrow> (py_exc, result_binding) res" where
  "mk_result_binding route result art cur =
     bindr (sha256_field ''route_sha256'' route) (\<lambda>r.
     bindr (sha256_field ''result_sha256'' result) (\<lambda>s.
     bindr (exact_record artifact_ref_to_dict artifact_ref_from_dict ''artifact must be an exact ArtifactRef'' art) (\<lambda>a.
       if rr_kind (ar_ref a) \<noteq> ''artifact'' \<or> rr_fragment (ar_ref a) \<noteq> [] \<or> ar_media_type a \<noteq> ''application/json'' \<or>
          ar_preview a \<noteq> []
       then Inl (model_error ''provider result binding requires one unpreviewed JSON artifact'') else
     bindr (exact_record event_cursor_to_dict event_cursor_from_dict ''cursor must be an exact EventCursor'' cur) (\<lambda>c.
       Inr \<lparr>rb_route_sha256 = r, rb_result_sha256 = s, rb_artifact = a, rb_cursor = c\<rparr>))))"

definition result_binding_to_dict :: "result_binding \<Rightarrow> pyval" where
  "result_binding_to_dict b = PyDict
     [(''schema'', PyStr ''unchain.provider_turn_result_binding.v1''), (''route_sha256'', PyStr (rb_route_sha256 b)),
      (''result_sha256'', PyStr (rb_result_sha256 b)), (''artifact'', artifact_ref_to_dict (rb_artifact b)),
      (''cursor'', event_cursor_to_dict (rb_cursor b))]"

definition result_binding_from_dict :: "pyval \<Rightarrow> (py_exc, result_binding) res" where
  "result_binding_from_dict v =
     (if \<not> is_dict v then Inl (TypeExc ''provider result binding must be an exact dict'') else
      bindr (record_data ''unchain.provider_turn_result_binding.v1'' [''route_sha256'', ''result_sha256'', ''artifact'', ''cursor''] [] v) (\<lambda>raw.
      bindr (artifact_ref_from_dict (dget raw ''artifact'')) (\<lambda>a.
      bindr (event_cursor_from_dict (dget raw ''cursor'')) (\<lambda>c.
        mk_result_binding (dget raw ''route_sha256'') (dget raw ''result_sha256'') (Inl a) (Inl c)))))"

subsection \<open>The lease record\<close>

datatype request_status = Started | Failed | Completed

fun status_value :: "request_status \<Rightarrow> string" where
  "status_value Started = ''started''"
| "status_value Failed = ''failed''"
| "status_value Completed = ''completed''"

definition parse_status :: "pyval \<Rightarrow> (py_exc, request_status) res" where
  "parse_status v =
     (if v = PyStr ''started'' then Inr Started
      else if v = PyStr ''failed'' then Inr Failed
      else if v = PyStr ''completed'' then Inr Completed
      else Inl (model_error ''status is unsupported''))"

record request_lease =
  ls_subject :: request_subject
  ls_route_sha256 :: string
  ls_status :: request_status
  ls_revision :: int
  ls_visible_output :: bool
  ls_retryable :: bool
  ls_classification :: string
  ls_operation :: operation_ref
  ls_result_binding :: "result_binding option"
  ls_predecessor :: "string option"
  ls_failure :: "failure_diagnostic option"
  ls_uncertainty :: "uncertainty_diagnostic option"

definition failure_classifications :: "string list" where
  "failure_classifications = [''bad_request'', ''non_retryable'', ''previous_response_fallback'', ''transient'']"

text \<open>An optional nested record: absent, exact, or a dictionary to decode.\<close>

definition optional_record ::
  "(pyval \<Rightarrow> (py_exc, 'r) res) \<Rightarrow> string \<Rightarrow> ('r + pyval) option \<Rightarrow> (py_exc, 'r option) res" where
  "optional_record dec msg x =
     (case x of
        None \<Rightarrow> Inr None
      | Some (Inl r) \<Rightarrow> Inr (Some r)
      | Some (Inr v) \<Rightarrow>
          if v = PyNone then Inr None
          else if is_dict v then bindr (dec v) (\<lambda>r. Inr (Some r))
          else Inl (TypeExc msg))"

definition classification_field :: "pyval \<Rightarrow> (py_exc, string) res" where
  "classification_field v =
     (if truthy v then
        bindr (canonical_text ''classification'' v) (\<lambda>c.
          if c \<notin> set failure_classifications then Inl (model_error ''classification is unsupported'') else Inr c)
      else if v = PyStr [] then Inr []
      else Inl (TypeExc ''classification must be exact text''))"

text \<open>The final checks of \<open>__post_init__\<close>, one branch per status.\<close>

definition lease_shape_error :: "request_lease \<Rightarrow> string option" where
  "lease_shape_error l =
     (case ls_status l of
        Started \<Rightarrow>
          if ls_result_binding l \<noteq> None then Some ''started request lease cannot contain a result binding''
          else if ls_visible_output l \<or> ls_retryable l \<or> ls_classification l \<noteq> []
          then Some ''started request lease cannot contain terminal fields''
          else if ls_predecessor l \<noteq> None then Some ''started request lease cannot contain a predecessor digest''
          else None
      | Failed \<Rightarrow>
          if ls_result_binding l \<noteq> None then Some ''failed request lease cannot contain a result binding''
          else if ls_predecessor l \<noteq> None then Some ''failed request lease cannot contain a predecessor digest''
          else if ls_classification l = [] then Some ''failed request lease requires a classification''
          else if ls_classification l = ''previous_response_fallback'' \<and> \<not> ls_retryable l
          then Some ''previous_response_fallback must be retryable''
          else None
      | Completed \<Rightarrow>
          if ls_retryable l \<or> ls_classification l \<noteq> []
          then Some ''completed request lease cannot contain failure fields''
          else (case ls_result_binding l of
                  None \<Rightarrow> Some ''completed request lease requires a durable result binding''
                | Some b \<Rightarrow>
                    if rb_route_sha256 b \<noteq> ls_route_sha256 l then Some ''completed request result binding route changed''
                    else if ls_predecessor l = None then Some ''completed request lease requires a predecessor digest''
                    else None))"

definition mk_request_lease ::
  "request_subject + pyval \<Rightarrow> pyval \<Rightarrow> pyval \<Rightarrow> pyval \<Rightarrow> pyval \<Rightarrow> pyval \<Rightarrow> pyval \<Rightarrow> operation_ref + pyval \<Rightarrow>
   (result_binding + pyval) option \<Rightarrow> pyval \<Rightarrow> (failure_diagnostic + pyval) option \<Rightarrow>
   (uncertainty_diagnostic + pyval) option \<Rightarrow> (py_exc, request_lease) res" where
  "mk_request_lease subject route status revision visible retry classification opr binding predecessor failure uncertainty =
     bindr (optional_record failure_diagnostic_from_dict ''failure diagnostic must be exact or null'' failure) (\<lambda>f.
     bindr (optional_record uncertainty_diagnostic_from_dict ''uncertainty diagnostic must be exact or null'' uncertainty) (\<lambda>u.
     bindr (exact_record request_subject_to_dict request_subject_from_dict
              ''subject must be an exact ProviderRequestSubject'' subject) (\<lambda>s.
     bindr (sha256_field ''route_sha256'' route) (\<lambda>r.
     bindr (parse_status status) (\<lambda>st.
       if f \<noteq> None \<and> st \<noteq> Failed then Inl (model_error ''only failed leases can contain failure diagnostics'')
       else if u \<noteq> None \<and> st \<noteq> Started
       then Inl (model_error ''only started leases can contain uncertainty diagnostics'') else
     bindr (exact_revision revision) (\<lambda>n.
     bindr (exact_bool ''visible_output'' visible) (\<lambda>vis.
     bindr (exact_bool ''retryable'' retry) (\<lambda>ret.
     bindr (classification_field classification) (\<lambda>c.
     bindr (exact_record operation_ref_to_dict operation_ref_from_dict ''operation must be an exact OperationRef'' opr) (\<lambda>p.
     bindr (bindr (optional_record result_binding_from_dict
               ''result_binding must be an exact ProviderTurnResultBinding or null'' binding) (\<lambda>b.
             case b of None \<Rightarrow> Inr None
             | Some x \<Rightarrow> bindr (result_binding_from_dict (result_binding_to_dict x)) (\<lambda>y. Inr (Some y)))) (\<lambda>b.
     bindr (if predecessor = PyNone then Inr None
            else bindr (sha256_field ''predecessor_sha256'' predecessor) (\<lambda>d. Inr (Some d))) (\<lambda>d.
       let l = \<lparr>ls_subject = s, ls_route_sha256 = r, ls_status = st, ls_revision = n, ls_visible_output = vis,
                ls_retryable = ret, ls_classification = c, ls_operation = p, ls_result_binding = b, ls_predecessor = d,
                ls_failure = f, ls_uncertainty = u\<rparr> in
       (case lease_shape_error l of Some m \<Rightarrow> Inl (model_error m) | None \<Rightarrow> Inr l)))))))))))))"

definition lease_schema_v2 :: string where "lease_schema_v2 = ''unchain.provider_request_lease.v2''"
definition lease_schema_v3 :: string where "lease_schema_v3 = ''unchain.provider_request_lease.v3''"
definition lease_schema_v4 :: string where "lease_schema_v4 = ''unchain.provider_request_lease.v4''"

definition diagnostic_lease_schema :: "failure_diagnostic \<Rightarrow> string" where
  "diagnostic_lease_schema f =
     (if fd_http_status f \<noteq> None \<and> failure_diagnostic_schema f = fd_schema_v2 then lease_schema_v4 else lease_schema_v3)"

definition opt_dict :: "('r \<Rightarrow> pyval) \<Rightarrow> 'r option \<Rightarrow> pyval" where
  "opt_dict enc x = (case x of None \<Rightarrow> PyNone | Some r \<Rightarrow> enc r)"

definition opt_text :: "string option \<Rightarrow> pyval" where
  "opt_text x = (case x of None \<Rightarrow> PyNone | Some s \<Rightarrow> PyStr s)"

definition lease_schema :: "request_lease \<Rightarrow> string" where
  "lease_schema l =
     (if ls_uncertainty l \<noteq> None then lease_schema_v4
      else case ls_failure l of Some f \<Rightarrow> diagnostic_lease_schema f | None \<Rightarrow> lease_schema_v2)"

definition request_lease_to_dict :: "request_lease \<Rightarrow> pyval" where
  "request_lease_to_dict l = PyDict
     ([(''schema'', PyStr (lease_schema l)), (''subject'', request_subject_to_dict (ls_subject l)),
       (''route_sha256'', PyStr (ls_route_sha256 l)), (''status'', PyStr (status_value (ls_status l))),
       (''revision'', PyInt (ls_revision l)), (''visible_output'', PyBool (ls_visible_output l)),
       (''retryable'', PyBool (ls_retryable l)), (''classification'', PyStr (ls_classification l)),
       (''operation'', operation_ref_to_dict (ls_operation l)),
       (''result_binding'', opt_dict result_binding_to_dict (ls_result_binding l)),
       (''predecessor_sha256'', opt_text (ls_predecessor l))] @
      (case ls_failure l of None \<Rightarrow> [] | Some f \<Rightarrow> [(''failure_diagnostic'', failure_diagnostic_to_dict f)]) @
      (case ls_uncertainty l of None \<Rightarrow> [] | Some u \<Rightarrow> [(''uncertainty_diagnostic'', uncertainty_diagnostic_to_dict u)]))"

definition lease_fields :: "string list" where
  "lease_fields = [''subject'', ''route_sha256'', ''status'', ''revision'', ''visible_output'', ''retryable'', ''classification'',
     ''operation'', ''result_binding'', ''predecessor_sha256'']"

definition request_lease_from_dict :: "pyval \<Rightarrow> (py_exc, request_lease) res" where
  "request_lease_from_dict v =
     (if \<not> is_dict v then Inl (TypeExc ''provider request lease must be an exact dict'') else
      let build = (\<lambda>raw. mk_request_lease (Inr (dget raw ''subject'')) (dget raw ''route_sha256'') (dget raw ''status'')
            (dget raw ''revision'') (dget raw ''visible_output'') (dget raw ''retryable'') (dget raw ''classification'')
            (Inr (dget raw ''operation'')) (Some (Inr (dget raw ''result_binding''))) (dget raw ''predecessor_sha256'')
            (Some (Inr (dget raw ''failure_diagnostic''))) (Some (Inr (dget raw ''uncertainty_diagnostic'')))) in
      if vget v ''schema'' = PyStr lease_schema_v4 \<and> vhas v ''uncertainty_diagnostic'' then
        (if \<not> is_dict (vget v ''uncertainty_diagnostic'')
         then Inl (model_error ''v4 started lease requires an uncertainty diagnostic'')
         else if vget v ''status'' \<noteq> PyStr ''started'' then Inl (model_error ''uncertainty lease must remain started'')
         else bindr (record_data lease_schema_v4 (lease_fields @ [''uncertainty_diagnostic'']) [] v) build)
      else if vget v ''schema'' = PyStr lease_schema_v3 \<or> vget v ''schema'' = PyStr lease_schema_v4 then
        (if \<not> is_dict (vget v ''failure_diagnostic'') then Inl (model_error ''failure lease requires a diagnostic'')
         else bindr (failure_diagnostic_from_dict (vget v ''failure_diagnostic'')) (\<lambda>f.
           if vget v ''schema'' \<noteq> PyStr (if fd_http_status f \<noteq> None \<and> vget (vget v ''failure_diagnostic'') ''schema'' = PyStr fd_schema_v2
                                      then lease_schema_v4 else lease_schema_v3)
           then Inl (model_error ''failure lease schema does not match its diagnostic shape'')
           else if vget v ''status'' \<noteq> PyStr ''failed'' then Inl (model_error ''failure diagnostic lease must be failed'')
           else bindr (record_data (str_of (vget v ''schema'')) (lease_fields @ [''failure_diagnostic'']) [] v) build))
      else bindr (record_data lease_schema_v2 lease_fields [] v) build)"

definition lease_conflict :: "string \<Rightarrow> py_exc" where
  "lease_conflict m = DomainExc ''ProviderRequestLeaseConflict'' m"

definition lease_integrity :: "string \<Rightarrow> py_exc" where
  "lease_integrity m = DomainExc ''ProviderRequestLeaseIntegrityError'' m"

definition lease_transition :: "string \<Rightarrow> py_exc" where
  "lease_transition m = DomainExc ''ProviderRequestTransitionError'' m"

definition request_lease_from_durable_dict :: "pyval \<Rightarrow> (py_exc, request_lease) res" where
  "request_lease_from_durable_dict v =
     (if \<not> is_dict v then Inl (TypeExc ''provider request lease must be an exact dict'')
      else if vget v ''schema'' \<in> {PyStr lease_schema_v2, PyStr lease_schema_v3, PyStr lease_schema_v4}
      then request_lease_from_dict v
      else bindr (record_data ''unchain.provider_request_lease.v1''
              [''subject'', ''route_sha256'', ''status'', ''revision'', ''visible_output'', ''retryable'', ''classification'', ''operation''] [] v) (\<lambda>raw.
           bindr (parse_status (dget raw ''status'')) (\<lambda>st.
             if st = Completed
             then Inl (lease_integrity ''legacy completed request lease has no durable result binding'')
             else mk_request_lease (Inr (dget raw ''subject'')) (dget raw ''route_sha256'') (dget raw ''status'')
               (dget raw ''revision'') (dget raw ''visible_output'') (dget raw ''retryable'') (dget raw ''classification'')
               (Inr (dget raw ''operation'')) None PyNone None None)))"

subsection \<open>The coordinator\<close>

record 'st lease_port =
  port_load :: "request_subject \<Rightarrow> 'st \<Rightarrow> (py_exc, request_lease option) res"
  port_cas :: "request_subject \<Rightarrow> int \<Rightarrow> request_lease \<Rightarrow> 'st \<Rightarrow> (py_exc, request_lease) res \<times> 'st"

type_synonym 'st lease_op = "'st \<Rightarrow> (py_exc, request_lease) res \<times> 'st"

definition co_load :: "'st lease_port \<Rightarrow> request_subject \<Rightarrow> 'st \<Rightarrow> (py_exc, request_lease option) res" where
  "co_load port s st =
     bindr (port_load port s st) (\<lambda>r.
       case r of
         None \<Rightarrow> Inr None
       | Some l \<Rightarrow> if ls_subject l \<noteq> s then Inl (lease_integrity ''durable request lease subject changed'') else Inr (Some l))"

definition co_current :: "'st lease_port \<Rightarrow> request_lease \<Rightarrow> 'st \<Rightarrow> (py_exc, request_lease) res" where
  "co_current port l st =
     bindr (co_load port (ls_subject l) st) (\<lambda>r.
       if r \<noteq> Some l then Inl (lease_integrity ''current durable request lease changed'') else Inr l)"

definition co_cas :: "'st lease_port \<Rightarrow> int \<Rightarrow> request_lease \<Rightarrow> 'st lease_op" where
  "co_cas port expected repl st =
     (case port_cas port (ls_subject repl) expected repl st of
        (Inl e, st') \<Rightarrow> (Inl e, st')
      | (Inr x, st') \<Rightarrow>
          if x \<noteq> repl then (Inl (lease_integrity ''request lease CAS returned changed status, revision, or subject''), st')
          else (Inr x, st'))"

text \<open>A pure computation followed by a state change; an exception leaves the state.\<close>

definition then_do :: "(py_exc, 'a) res \<Rightarrow> ('a \<Rightarrow> 'st lease_op) \<Rightarrow> 'st lease_op" where
  "then_do r k st = (case r of Inl e \<Rightarrow> (Inl e, st) | Inr x \<Rightarrow> k x st)"

definition mk_started_lease :: "request_subject \<Rightarrow> string \<Rightarrow> operation_ref \<Rightarrow> (py_exc, request_lease) res" where
  "mk_started_lease s route opr =
     mk_request_lease (Inl s) (PyStr route) (PyStr ''started'') (PyInt 1) (PyBool False) (PyBool False) (PyStr [])
       (Inl opr) None PyNone None None"

definition co_claim :: "'st lease_port \<Rightarrow> request_subject \<Rightarrow> string \<Rightarrow> operation_ref \<Rightarrow> 'st lease_op" where
  "co_claim port s route opr st =
     then_do (co_load port s st) (\<lambda>r.
       if r \<noteq> None then (\<lambda>st. (Inl (lease_conflict ''provider request subject is already claimed''), st))
       else then_do (mk_started_lease s route opr) (co_cas port 0)) st"

definition claim_initial ::
  "'st lease_port \<Rightarrow> attempt_ref \<Rightarrow> int \<Rightarrow> string \<Rightarrow> string \<Rightarrow> string \<Rightarrow> operation_ref \<Rightarrow> 'st lease_op" where
  "claim_initial port attempt iteration envelope route route_sha opr st =
     (if route \<noteq> ''primary''
      then (Inl (lease_transition ''initial provider request must use the primary route''), st)
      else then_do (mk_request_subject (Inl attempt) (PyInt iteration) (PyStr envelope) (PyStr route) (PyInt 0))
             (\<lambda>s. co_claim port s route_sha opr) st)"

definition record_failure ::
  "'st lease_port \<Rightarrow> request_lease \<Rightarrow> string \<Rightarrow> bool \<Rightarrow> bool \<Rightarrow> operation_ref \<Rightarrow> failure_diagnostic option \<Rightarrow> 'st lease_op" where
  "record_failure port lease classification retryable visible opr diagnostic st =
     then_do (co_current port lease st) (\<lambda>cur.
       if ls_status cur \<noteq> Started
       then (\<lambda>st. (Inl (lease_transition ''only a started request can record a terminal failure''), st))
       else if classification = ''previous_response_fallback'' \<and>
               (su_route (ls_subject cur) \<noteq> ''primary'' \<or> su_retry_ordinal (ls_subject cur) \<noteq> 0)
       then (\<lambda>st. (Inl (lease_transition ''previous_response_fallback requires primary ordinal zero''), st))
       else then_do (mk_request_lease (Inl (ls_subject cur)) (PyStr (ls_route_sha256 cur)) (PyStr ''failed'')
                 (PyInt (ls_revision cur + 1)) (PyBool visible) (PyBool retryable) (PyStr classification) (Inl opr)
                 None PyNone (map_option Inl diagnostic) None)
              (co_cas port (ls_revision cur))) st"

definition record_uncertainty ::
  "'st lease_port \<Rightarrow> request_lease \<Rightarrow> uncertainty_diagnostic \<Rightarrow> operation_ref \<Rightarrow> 'st lease_op" where
  "record_uncertainty port lease diagnostic opr st =
     then_do (co_current port lease st) (\<lambda>cur.
       if ls_status cur \<noteq> Started
       then (\<lambda>st. (Inl (lease_transition ''only a started request can record uncertainty''), st))
       else if ls_uncertainty cur \<noteq> None
       then (\<lambda>st. (Inl (lease_transition ''uncertainty is already recorded''), st))
       else then_do (mk_request_lease (Inl (ls_subject cur)) (PyStr (ls_route_sha256 cur)) (PyStr ''started'')
                 (PyInt (ls_revision cur + 1)) (PyBool False) (PyBool False) (PyStr []) (Inl opr)
                 None PyNone None (Some (Inl diagnostic)))
              (co_cas port (ls_revision cur))) st"

definition record_completed :: "request_lease \<Rightarrow> bool \<Rightarrow> operation_ref \<Rightarrow> 'st lease_op" where
  "record_completed lease visible opr st =
     (Inl (lease_transition ''completed provider request requires a durable result binding''), st)"

definition record_completed_result ::
  "(pyval \<Rightarrow> string) \<Rightarrow> 'st lease_port \<Rightarrow> request_lease \<Rightarrow> result_binding \<Rightarrow> bool \<Rightarrow> operation_ref \<Rightarrow> 'st lease_op" where
  "record_completed_result sha port lease binding visible opr st =
     (if rb_route_sha256 binding \<noteq> ls_route_sha256 lease
      then (Inl (lease_integrity ''provider result binding route changed''), st)
      else then_do (co_load port (ls_subject lease) st) (\<lambda>r. case r of
        None \<Rightarrow> (\<lambda>st. (Inl (lease_integrity ''current durable request lease is missing''), st))
      | Some cur \<Rightarrow>
          then_do (mk_request_lease (Inl (ls_subject lease)) (PyStr (ls_route_sha256 lease)) (PyStr ''completed'')
              (PyInt (ls_revision lease + 1)) (PyBool visible) (PyBool False) (PyStr []) (Inl opr)
              (Some (Inl binding)) (PyStr (sha (canonical (request_lease_to_dict lease)))) None None) (\<lambda>repl.
            if cur = repl then (\<lambda>st. (Inr cur, st))
            else if cur \<noteq> lease
            then (\<lambda>st. (Inl (lease_integrity ''current completed durable request lease changed''), st))
            else if ls_status cur \<noteq> Started
            then (\<lambda>st. (Inl (lease_transition ''only a started request can record completed status''), st))
            else co_cas port (ls_revision cur) repl)) st)"

definition claim_retry :: "'st lease_port \<Rightarrow> request_lease \<Rightarrow> operation_ref \<Rightarrow> 'st lease_op" where
  "claim_retry port previous opr st =
     then_do (co_current port previous st) (\<lambda>cur.
       let refuse = (\<lambda>m st. (Inl (lease_transition m), st)) in
       if ls_status cur = Completed then refuse ''completed provider request cannot retry''
       else if ls_status cur \<noteq> Failed then refuse ''retry requires a durable terminal failure''
       else if ls_visible_output cur then refuse ''request with visible output cannot retry''
       else if \<not> ls_retryable cur then refuse ''retry requires a durable retryable failure''
       else if ls_classification cur \<noteq> ''transient''
       then refuse ''only transient failure may retry; route transition is separate''
       else if su_retry_ordinal (ls_subject cur) \<ge> max_ordinal then refuse ''retry ordinal is exhausted''
       else then_do (mk_request_subject (Inl (su_attempt (ls_subject cur))) (PyInt (su_iteration (ls_subject cur)))
                (PyStr (su_envelope_sha256 (ls_subject cur))) (PyStr (su_route (ls_subject cur)))
                (PyInt (su_retry_ordinal (ls_subject cur) + 1)))
              (\<lambda>s. co_claim port s (ls_route_sha256 cur) opr)) st"

definition claim_openai_fallback :: "'st lease_port \<Rightarrow> request_lease \<Rightarrow> string \<Rightarrow> operation_ref \<Rightarrow> 'st lease_op" where
  "claim_openai_fallback port prim route_sha opr st =
     then_do (co_current port prim st) (\<lambda>cur.
       if su_route (ls_subject cur) \<noteq> ''primary'' \<or> su_retry_ordinal (ls_subject cur) \<noteq> 0 \<or> ls_status cur \<noteq> Failed \<or>
          \<not> ls_retryable cur \<or> ls_visible_output cur \<or> ls_classification cur \<noteq> ''previous_response_fallback''
       then (\<lambda>st. (Inl (lease_transition ''OpenAI fallback route requires durable primary fallback classification''), st))
       else then_do (mk_request_subject (Inl (su_attempt (ls_subject cur))) (PyInt (su_iteration (ls_subject cur)))
                (PyStr (su_envelope_sha256 (ls_subject cur))) (PyStr ''openai_previous_response_fallback'') (PyInt 0))
              (\<lambda>s. co_claim port s route_sha opr)) st"

datatype request_disposition = NotStarted | Uncertain | RetryableFailure | Terminal

definition disposition :: "request_lease option \<Rightarrow> request_disposition" where
  "disposition r =
     (case r of
        None \<Rightarrow> NotStarted
      | Some l \<Rightarrow>
          if ls_status l = Started then Uncertain
          else if ls_status l = Failed \<and> ls_retryable l \<and> \<not> ls_visible_output l then RetryableFailure
          else Terminal)"

definition recover :: "'st lease_port \<Rightarrow> request_subject \<Rightarrow> 'st \<Rightarrow> (py_exc, request_disposition \<times> request_lease option) res" where
  "recover port s st = bindr (co_load port s st) (\<lambda>r. Inr (disposition r, r))"

definition auto_resend_allowed :: "request_disposition \<Rightarrow> bool" where
  "auto_resend_allowed d = (d = NotStarted)"

subsection \<open>Encodings\<close>

lemma exact_int_normal: "exact_int n m v = Inr i \<Longrightarrow> exact_int n' m (PyInt i) = Inr i"
  by (auto simp: exact_int_def split: pyval.splits if_splits)

lemma exact_revision_normal: "exact_revision v = Inr i \<Longrightarrow> exact_revision (PyInt i) = Inr i"
  by (auto simp: exact_revision_def split: pyval.splits if_splits)

lemma canonical_text_normal: "canonical_text n v = Inr s \<Longrightarrow> canonical_text n' (PyStr s) = Inr s"
  by (auto simp: canonical_text_def split: pyval.splits if_splits)

lemma exact_bool_simps [simp]: "exact_bool n (PyBool b) = Inr b"
  by (simp add: exact_bool_def)

lemma parse_status_simps [simp]: "parse_status (PyStr (status_value s)) = Inr s"
  by (cases s) (simp_all add: parse_status_def)

lemma parse_status_literals [simp]:
  "parse_status (PyStr ''started'') = Inr Started" "parse_status (PyStr ''failed'') = Inr Failed"
  "parse_status (PyStr ''completed'') = Inr Completed"
  by (simp_all add: parse_status_def)

lemma classification_normal: "classification_field v = Inr c \<Longrightarrow> classification_field (PyStr c) = Inr c"
  by (auto simp: classification_field_def bindr_eq_Inr canonical_text_normal split: if_splits
      dest: canonical_text_normal)

lemma exact_record_Inl: "dec (enc r) = Inr r \<Longrightarrow> exact_record enc dec m (Inl r) = Inr r"
  by (simp add: exact_record_def)

definition request_subject_ok :: "request_subject \<Rightarrow> bool" where
  "request_subject_ok s = (attempt_ref_ok (su_attempt s) \<and>
     mk_request_subject (Inl (su_attempt s)) (PyInt (su_iteration s)) (PyStr (su_envelope_sha256 s)) (PyStr (su_route s))
       (PyInt (su_retry_ordinal s)) = Inr s)"

lemma exact_attempt_ok:
  "exact_record attempt_ref_to_dict attempt_ref_from_dict m x = Inr a \<Longrightarrow> attempt_ref_ok a"
  by (auto simp: exact_record_def split: sum.splits if_splits dest: attempt_ref.decoded_ok)

lemma mk_request_subject_ok: "mk_request_subject a b c d e = Inr s \<Longrightarrow> request_subject_ok s"
  by (auto simp: request_subject_ok_def mk_request_subject_def bindr_eq_Inr normal_forms exact_int_normal canonical_text_normal
      exact_record_Inl attempt_ref.round_trip exact_attempt_ok split: if_splits dest: exact_attempt_ok)

lemma is_dict_request_subject [simp]: "is_dict (request_subject_to_dict s)" "is_dict (canonical (request_subject_to_dict s))"
  by (simp_all add: request_subject_to_dict_def canonical_PyDict)

interpretation request_subject: canonical_codec request_subject_to_dict request_subject_from_dict request_subject_ok
proof
  fix r :: request_subject
  assume "request_subject_ok r"
  then show "request_subject_from_dict (request_subject_to_dict r) = Inr r"
    by (simp add: request_subject_from_dict_def request_subject_to_dict_def codec_simps request_subject_ok_def dget_def
        attempt_ref.round_trip)
next
  fix r :: request_subject
  assume "request_subject_ok r"
  then show "request_subject_from_dict (canonical (request_subject_to_dict r)) = Inr r"
    by (simp add: request_subject_from_dict_def request_subject_to_dict_def codec_simps request_subject_ok_def dget_def
        attempt_ref.canonical_trip)
next
  fix v r
  assume "request_subject_from_dict v = Inr r"
  then show "request_subject_ok r"
    by (auto simp: request_subject_from_dict_def bindr_eq_Inr intro: mk_request_subject_ok split: if_splits)
qed

definition result_binding_ok :: "result_binding \<Rightarrow> bool" where
  "result_binding_ok b = (artifact_ref_ok (rb_artifact b) \<and> event_cursor_ok (rb_cursor b) \<and>
     mk_result_binding (PyStr (rb_route_sha256 b)) (PyStr (rb_result_sha256 b)) (Inl (rb_artifact b)) (Inl (rb_cursor b)) = Inr b)"

lemma exact_artifact_ok:
  "exact_record artifact_ref_to_dict artifact_ref_from_dict m x = Inr a \<Longrightarrow> artifact_ref_ok a"
  by (auto simp: exact_record_def split: sum.splits if_splits dest: artifact_ref.decoded_ok)

lemma exact_cursor_ok:
  "exact_record event_cursor_to_dict event_cursor_from_dict m x = Inr a \<Longrightarrow> event_cursor_ok a"
  by (auto simp: exact_record_def split: sum.splits if_splits dest: event_cursor.decoded_ok)

lemma mk_result_binding_ok:
  assumes "mk_result_binding a b c d = Inr r"
  shows "result_binding_ok r"
proof -
  obtain u v x y where r: "r = \<lparr>rb_route_sha256 = u, rb_result_sha256 = v, rb_artifact = x, rb_cursor = y\<rparr>"
    and parts: "sha256_field ''route_sha256'' a = Inr u" "sha256_field ''result_sha256'' b = Inr v"
      "exact_record artifact_ref_to_dict artifact_ref_from_dict ''artifact must be an exact ArtifactRef'' c = Inr x"
      "exact_record event_cursor_to_dict event_cursor_from_dict ''cursor must be an exact EventCursor'' d = Inr y"
    and shape: "rr_kind (ar_ref x) = ''artifact''" "rr_fragment (ar_ref x) = []" "ar_media_type x = ''application/json''"
      "ar_preview x = []"
    using assms by (auto simp: mk_result_binding_def bindr_eq_Inr split: if_splits)
  have "artifact_ref_ok x" "event_cursor_ok y" using exact_artifact_ok [OF parts(3)] exact_cursor_ok [OF parts(4)] .
  then show ?thesis
    using parts(1,2) shape
    by (simp add: result_binding_ok_def r mk_result_binding_def normal_forms
        exact_record_Inl artifact_ref.round_trip event_cursor.round_trip)
qed

lemma is_dict_result_binding [simp]: "is_dict (result_binding_to_dict s)" "is_dict (canonical (result_binding_to_dict s))"
  by (simp_all add: result_binding_to_dict_def canonical_PyDict)

interpretation result_binding: canonical_codec result_binding_to_dict result_binding_from_dict result_binding_ok
proof
  fix r :: result_binding
  assume "result_binding_ok r"
  then show "result_binding_from_dict (result_binding_to_dict r) = Inr r"
    by (simp add: result_binding_from_dict_def result_binding_to_dict_def codec_simps result_binding_ok_def dget_def
        artifact_ref.round_trip event_cursor.round_trip)
next
  fix r :: result_binding
  assume "result_binding_ok r"
  then show "result_binding_from_dict (canonical (result_binding_to_dict r)) = Inr r"
    by (simp add: result_binding_from_dict_def result_binding_to_dict_def codec_simps result_binding_ok_def dget_def
        artifact_ref.canonical_trip event_cursor.canonical_trip)
next
  fix v r
  assume "result_binding_from_dict v = Inr r"
  then show "result_binding_ok r"
    by (auto simp: result_binding_from_dict_def bindr_eq_Inr intro: mk_result_binding_ok split: if_splits)
qed

definition failure_diagnostic_ok :: "failure_diagnostic \<Rightarrow> bool" where
  "failure_diagnostic_ok f =
     (mk_failure_diagnostic (opt_int (fd_http_status f)) (PyStr (fd_provider_code f)) (PyStr (fd_parameter f))
        (PyStr (fd_provider_status f)) (PyStr (fd_replacement_model f)) = Inr f)"

lemma str_in_PyStr [simp]: "str_in xs (PyStr s) \<longleftrightarrow> s \<in> set xs"
  by (simp add: str_in_def)

lemma is_strE: "is_str v \<Longrightarrow> \<exists>s. v = PyStr s"
  by (cases v) auto

lemma mk_failure_diagnostic_ok:
  assumes "mk_failure_diagnostic a b c d e = Inr f"
  shows "failure_diagnostic_ok f"
proof (cases a)
  case PyNone
  then obtain s where "b = PyStr s" "s \<in> set response_codes" "c = PyStr []" "d = PyStr []" "e = PyStr []"
    using assms by (auto simp: mk_failure_diagnostic_def str_in_def split: if_splits dest!: is_strE)
  then show ?thesis using assms PyNone by (auto simp: mk_failure_diagnostic_def failure_diagnostic_ok_def opt_int_def)
next
  case (PyInt n)
  then obtain s t u v where "b = PyStr s" "c = PyStr t" "d = PyStr u" "e = PyStr v"
    using assms by (auto simp: mk_failure_diagnostic_def str_in_def split: if_splits dest!: is_strE)
  then show ?thesis using assms PyInt
    by (auto simp: mk_failure_diagnostic_def failure_diagnostic_ok_def opt_int_def split: if_splits)
qed (use assms in \<open>simp_all add: mk_failure_diagnostic_def\<close>)

lemma opt_int_eq [simp]: "opt_int x = PyNone \<longleftrightarrow> x = None" "canonical (opt_int x) = opt_int x"
  by (simp_all add: opt_int_def split: option.split)

lemma failure_diagnostic_shape:
  "failure_diagnostic_ok f \<Longrightarrow> fd_http_status f = None \<Longrightarrow> \<not> fd_extended f"
  by (auto simp: failure_diagnostic_ok_def mk_failure_diagnostic_def fd_extended_def opt_int_def split: if_splits)

lemma fd_schemas [simp]: "fd_schema_v1 \<noteq> fd_schema_v2" "fd_schema_v2 \<noteq> fd_schema_v1"
  by (simp_all add: fd_schema_v1_def fd_schema_v2_def)

lemma failure_extended_keys:
  "{''schema'', ''http_status'', ''provider_code'', ''parameter'', ''provider_status'', ''replacement_model''} \<noteq>
   {''schema'', ''http_status'', ''provider_code'', ''parameter''}"
proof
  assume "{''schema'', ''http_status'', ''provider_code'', ''parameter'', ''provider_status'', ''replacement_model''} =
    {''schema'', ''http_status'', ''provider_code'', ''parameter''}"
  from equalityD1 [OF this] show False by simp
qed

lemma failure_branches:
  "(if p then if q then Inl x else A
    else if r then if t then Inl y else bindr B (\<lambda>f. if u f then Inl z else Inr f) else Inl w) = Inr v \<Longrightarrow> A = Inr v \<or> B = Inr v"
  by (auto simp: bindr_eq_Inr split: if_splits)

lemma failure_decode:
  assumes "failure_diagnostic_ok f" "set (dict_keys d) = set (dict_keys (case failure_diagnostic_to_dict f of PyDict e \<Rightarrow> e))"
    "\<And>k. dget d k = dget (case failure_diagnostic_to_dict f of PyDict e \<Rightarrow> e) k"
  shows "failure_diagnostic_from_dict (PyDict d) = Inr f"
proof (cases "fd_extended f")
  case True
  then have k: "set (dict_keys d) = {''schema'', ''http_status'', ''provider_code'', ''parameter'', ''provider_status'', ''replacement_model''}"
    and h: "fd_http_status f \<noteq> None"
    using assms(2) failure_diagnostic_shape [OF assms(1)] by (auto simp: failure_diagnostic_to_dict_def)
  have e: "{''schema'', ''http_status'', ''provider_code'', ''parameter''} \<union> {''provider_status'', ''replacement_model''} =
      {''schema'', ''http_status'', ''provider_code'', ''parameter'', ''provider_status'', ''replacement_model''}"
    by (simp only: Un_insert_left sup_bot_left)
  show ?thesis
    unfolding failure_diagnostic_from_dict_def pyval.case Let_def k assms(3) e if_not_P [OF failure_extended_keys]
    using True h assms(1)
    by (simp add: failure_diagnostic_to_dict_def dget_def failure_diagnostic_schema_def failure_diagnostic_ok_def)
next
  case False
  then have k: "set (dict_keys d) = {''schema'', ''http_status'', ''provider_code'', ''parameter''}"
    using assms(2) by (simp add: failure_diagnostic_to_dict_def)
  have "fd_provider_status f = []" "fd_replacement_model f = []" using False by (simp_all add: fd_extended_def)
  then show ?thesis
    unfolding failure_diagnostic_from_dict_def pyval.case Let_def k assms(3)
    using False assms(1)
    by (simp add: failure_diagnostic_to_dict_def dget_def failure_diagnostic_schema_def failure_diagnostic_ok_def)
qed

interpretation failure_diagnostic: canonical_codec failure_diagnostic_to_dict failure_diagnostic_from_dict failure_diagnostic_ok
proof
  fix r :: failure_diagnostic
  assume ok: "failure_diagnostic_ok r"
  obtain d where d: "failure_diagnostic_to_dict r = PyDict d" by (simp add: failure_diagnostic_to_dict_def)
  show "failure_diagnostic_from_dict (failure_diagnostic_to_dict r) = Inr r"
    unfolding d by (rule failure_decode [OF ok]) (simp_all add: d)
  have "dget (canon_dict d) k = dget d k" for k
  proof -
    have "canonical v = v" if "(k, v) \<in> set d" for v
      using that d by (auto simp: failure_diagnostic_to_dict_def split: if_splits)
    then show ?thesis by (auto simp: dget_def dict_get_canon split: option.split dest: map_of_SomeD)
  qed
  then show "failure_diagnostic_from_dict (canonical (failure_diagnostic_to_dict r)) = Inr r"
    unfolding d canonical_PyDict by (intro failure_decode [OF ok]) (simp_all only: d pyval.case set_canon_dict)
next
  fix v r
  assume a: "failure_diagnostic_from_dict v = Inr r"
  then obtain d where "v = PyDict d" by (cases v) (simp_all add: failure_diagnostic_from_dict_def)
  from failure_branches [OF a [unfolded this failure_diagnostic_from_dict_def pyval.case Let_def]]
  show "failure_diagnostic_ok r" by (blast intro: mk_failure_diagnostic_ok)
qed

definition uncertainty_diagnostic_ok :: "uncertainty_diagnostic \<Rightarrow> bool" where
  "uncertainty_diagnostic_ok u =
     (mk_uncertainty_diagnostic (PyStr (ud_reason u)) (PyStr (ud_phase u)) (opt_int (ud_http_status u))
        (PyStr (ud_provider_code u)) = Inr u)"

lemma mk_failure_diagnostic_http: "mk_failure_diagnostic h c p s m = Inr f \<Longrightarrow> opt_int (fd_http_status f) = h"
  by (auto simp: mk_failure_diagnostic_def opt_int_def split: if_splits pyval.splits)

lemma mk_uncertainty_diagnostic_ok:
  assumes "mk_uncertainty_diagnostic a b c d = Inr u"
  shows "uncertainty_diagnostic_ok u"
proof -
  obtain x y z where xyz: "a = PyStr x" "b = PyStr y" "d = PyStr z"
    using assms by (auto simp: mk_uncertainty_diagnostic_def str_in_def Let_def split: if_splits dest!: is_strE)
  have u: "ud_reason u = x" "ud_phase u = y" "ud_provider_code u = z" "opt_int (ud_http_status u) = c"
    using assms unfolding xyz
    by (auto simp: mk_uncertainty_diagnostic_def Let_def bindr_eq_Inr opt_int_def mk_failure_diagnostic_http [unfolded opt_int_def]
        split: if_splits)
  show ?thesis using assms by (simp add: uncertainty_diagnostic_ok_def u xyz)
qed

interpretation uncertainty_diagnostic:
  canonical_codec uncertainty_diagnostic_to_dict uncertainty_diagnostic_from_dict uncertainty_diagnostic_ok
proof
  fix r :: uncertainty_diagnostic
  assume ok: "uncertainty_diagnostic_ok r"
  then show "uncertainty_diagnostic_from_dict (uncertainty_diagnostic_to_dict r) = Inr r"
    by (auto simp: uncertainty_diagnostic_from_dict_def uncertainty_diagnostic_to_dict_def uncertainty_diagnostic_ok_def dget_def)
  show "uncertainty_diagnostic_from_dict (canonical (uncertainty_diagnostic_to_dict r)) = Inr r"
    using ok by (auto simp: uncertainty_diagnostic_from_dict_def uncertainty_diagnostic_to_dict_def uncertainty_diagnostic_ok_def
        dget_def codec_simps set_canon_dict [unfolded set_map])
next
  fix v r
  assume "uncertainty_diagnostic_from_dict v = Inr r"
  then show "uncertainty_diagnostic_ok r"
    by (auto simp: uncertainty_diagnostic_from_dict_def intro: mk_uncertainty_diagnostic_ok split: if_splits pyval.splits)
qed

definition option_ok :: "('a \<Rightarrow> bool) \<Rightarrow> 'a option \<Rightarrow> bool" where
  "option_ok P x = (case x of None \<Rightarrow> True | Some a \<Rightarrow> P a)"

lemma option_ok_simps [simp]: "option_ok P None" "option_ok P (Some a) = P a"
  by (simp_all add: option_ok_def)

definition request_lease_ok :: "request_lease \<Rightarrow> bool" where
  "request_lease_ok l = (request_subject_ok (ls_subject l) \<and> operation_ref_ok (ls_operation l) \<and>
     option_ok result_binding_ok (ls_result_binding l) \<and> option_ok failure_diagnostic_ok (ls_failure l) \<and>
     option_ok uncertainty_diagnostic_ok (ls_uncertainty l) \<and>
     is_sha256 (ls_route_sha256 l) \<and> 1 \<le> ls_revision l \<and> option_ok is_sha256 (ls_predecessor l) \<and>
     classification_field (PyStr (ls_classification l)) = Inr (ls_classification l) \<and>
     (ls_failure l \<noteq> None \<longrightarrow> ls_status l = Failed) \<and> (ls_uncertainty l \<noteq> None \<longrightarrow> ls_status l = Started) \<and>
     lease_shape_error l = None)"

lemma sha256_field_Inr: "sha256_field n v = Inr s \<Longrightarrow> is_sha256 s \<and> v = PyStr s"
  by (auto simp: sha256_field_def split: pyval.splits if_splits)

lemma sha256_field_ok [simp]: "is_sha256 s \<Longrightarrow> sha256_field n (PyStr s) = Inr s"
  by (simp add: sha256_field_def)

lemma exact_revision_Inr: "exact_revision v = Inr n \<Longrightarrow> 1 \<le> n \<and> v = PyInt n"
  by (auto simp: exact_revision_def split: pyval.splits if_splits)

lemma exact_record_ok:
  assumes "record_codec enc dec ok" "exact_record enc dec m x = Inr r"
  shows "ok r"
  using assms(2) record_codec.decoded_ok [OF assms(1)] by (auto simp: exact_record_def split: sum.splits if_splits)

lemma optional_record_ok:
  assumes "record_codec enc dec ok" "optional_record dec m x = Inr y" "\<And>r. x = Some (Inl r) \<Longrightarrow> ok r"
  shows "option_ok ok y"
proof (cases x)
  case (Some z)
  show ?thesis
  proof (cases z)
    case (Inr v)
    then show ?thesis
      using assms(2) Some record_codec.decoded_ok [OF assms(1)]
      by (auto simp: optional_record_def bindr_eq_Inr split: if_splits)
  qed (use assms(2,3) Some in \<open>auto simp: optional_record_def\<close>)
qed (use assms(2) in \<open>simp add: optional_record_def\<close>)

text \<open>What the constructor returns, and that it accepts exactly the fields of a valid lease.\<close>

lemma mk_request_lease_ok:
  assumes "mk_request_lease s r st n vis ret c p b d f u = Inr l"
    "\<And>x. f = Some (Inl x) \<Longrightarrow> failure_diagnostic_ok x" "\<And>x. u = Some (Inl x) \<Longrightarrow> uncertainty_diagnostic_ok x"
  shows "request_lease_ok l"
proof -
  let ?rb = "bindr (optional_record result_binding_from_dict
               ''result_binding must be an exact ProviderTurnResultBinding or null'' b) (\<lambda>b.
             case b of None \<Rightarrow> Inr None
             | Some x \<Rightarrow> bindr (result_binding_from_dict (result_binding_to_dict x)) (\<lambda>y. Inr (Some y)))"
  let ?pd = "if d = PyNone then Inr None else bindr (sha256_field ''predecessor_sha256'' d) (\<lambda>d. Inr (Some d))"
  obtain f' u' s' r' st' n' vis' ret' c' p' b' d' where parts:
      "optional_record failure_diagnostic_from_dict ''failure diagnostic must be exact or null'' f = Inr f'"
      "optional_record uncertainty_diagnostic_from_dict ''uncertainty diagnostic must be exact or null'' u = Inr u'"
      "exact_record request_subject_to_dict request_subject_from_dict ''subject must be an exact ProviderRequestSubject'' s = Inr s'"
      "sha256_field ''route_sha256'' r = Inr r'" "exact_revision n = Inr n'"
      "classification_field c = Inr c'"
      "exact_record operation_ref_to_dict operation_ref_from_dict ''operation must be an exact OperationRef'' p = Inr p'"
      "?rb = Inr b'" "?pd = Inr d'"
    and l: "l = \<lparr>ls_subject = s', ls_route_sha256 = r', ls_status = st', ls_revision = n', ls_visible_output = vis',
                ls_retryable = ret', ls_classification = c', ls_operation = p', ls_result_binding = b', ls_predecessor = d',
                ls_failure = f', ls_uncertainty = u'\<rparr>"
    and side: "f' \<noteq> None \<longrightarrow> st' = Failed" "u' \<noteq> None \<longrightarrow> st' = Started" "lease_shape_error l = None"
    using assms(1) unfolding mk_request_lease_def bindr_eq_Inr Let_def
    by (elim exE conjE) (auto simp: bindr_eq_Inr split: if_splits option.splits)
  have "option_ok result_binding_ok b'"
    using parts(8) by (auto simp: bindr_eq_Inr split: option.splits) (erule result_binding.decoded_ok)
  moreover have "option_ok is_sha256 d'"
    using parts(9) by (auto simp: bindr_eq_Inr split: if_splits dest: sha256_field_Inr)
  ultimately show ?thesis
    using optional_record_ok [OF failure_diagnostic.record_codec_axioms parts(1) assms(2)]
      optional_record_ok [OF uncertainty_diagnostic.record_codec_axioms parts(2) assms(3)]
      exact_record_ok [OF request_subject.record_codec_axioms parts(3)] exact_record_ok [OF operation_ref.record_codec_axioms parts(7)]
      sha256_field_Inr [OF parts(4)] exact_revision_Inr [OF parts(5)] classification_normal [OF parts(6)] side
    unfolding request_lease_ok_def by (simp add: l)
qed

lemma lease_eta:
  "\<lparr>ls_subject = ls_subject l, ls_route_sha256 = ls_route_sha256 l, ls_status = ls_status l, ls_revision = ls_revision l,
    ls_visible_output = ls_visible_output l, ls_retryable = ls_retryable l, ls_classification = ls_classification l,
    ls_operation = ls_operation l, ls_result_binding = ls_result_binding l, ls_predecessor = ls_predecessor l,
    ls_failure = ls_failure l, ls_uncertainty = ls_uncertainty l\<rparr> = l"
  by simp

lemma mk_request_lease_fields:
  assumes "request_lease_ok l"
    "s = Inl (ls_subject l) \<or> (\<exists>v. s = Inr v \<and> is_dict v \<and> request_subject_from_dict v = Inr (ls_subject l))"
    "p = Inl (ls_operation l) \<or> (\<exists>v. p = Inr v \<and> is_dict v \<and> operation_ref_from_dict v = Inr (ls_operation l))"
    "optional_record failure_diagnostic_from_dict ''failure diagnostic must be exact or null'' f = Inr (ls_failure l)"
    "optional_record uncertainty_diagnostic_from_dict ''uncertainty diagnostic must be exact or null'' u = Inr (ls_uncertainty l)"
    "optional_record result_binding_from_dict ''result_binding must be an exact ProviderTurnResultBinding or null'' b = Inr (ls_result_binding l)"
  shows "mk_request_lease s (PyStr (ls_route_sha256 l)) (PyStr (status_value (ls_status l))) (PyInt (ls_revision l))
      (PyBool (ls_visible_output l)) (PyBool (ls_retryable l)) (PyStr (ls_classification l)) p b
      (opt_text (ls_predecessor l)) f u = Inr l"
proof -
  have "exact_record request_subject_to_dict request_subject_from_dict ''subject must be an exact ProviderRequestSubject'' s = Inr (ls_subject l)"
    using assms(1,2) by (auto simp: exact_record_def request_lease_ok_def request_subject.round_trip)
  moreover have "exact_record operation_ref_to_dict operation_ref_from_dict ''operation must be an exact OperationRef'' p = Inr (ls_operation l)"
    using assms(1,3) by (auto simp: exact_record_def request_lease_ok_def operation_ref.round_trip)
  moreover have "bindr (optional_record result_binding_from_dict
               ''result_binding must be an exact ProviderTurnResultBinding or null'' b) (\<lambda>b.
             case b of None \<Rightarrow> Inr None
             | Some x \<Rightarrow> bindr (result_binding_from_dict (result_binding_to_dict x)) (\<lambda>y. Inr (Some y))) = Inr (ls_result_binding l)"
    using assms(1,6) by (cases "ls_result_binding l") (simp_all add: request_lease_ok_def result_binding.round_trip)
  moreover have "(if opt_text (ls_predecessor l) = PyNone then Inr None
      else bindr (sha256_field ''predecessor_sha256'' (opt_text (ls_predecessor l))) (\<lambda>d. Inr (Some d))) = Inr (ls_predecessor l)"
    using assms(1) by (cases "ls_predecessor l") (simp_all add: opt_text_def request_lease_ok_def)
  moreover have "sha256_field ''route_sha256'' (PyStr (ls_route_sha256 l)) = Inr (ls_route_sha256 l)"
      "exact_revision (PyInt (ls_revision l)) = Inr (ls_revision l)"
      "classification_field (PyStr (ls_classification l)) = Inr (ls_classification l)"
      "\<not> (ls_failure l \<noteq> None \<and> ls_status l \<noteq> Failed)" "\<not> (ls_uncertainty l \<noteq> None \<and> ls_status l \<noteq> Started)"
      "lease_shape_error l = None"
    using assms(1) unfolding request_lease_ok_def by (auto simp: exact_revision_def)
  ultimately show ?thesis
    unfolding mk_request_lease_def assms(4,5) bindr_simps parse_status_simps exact_bool_simps Let_def
    by (simp add: lease_eta)
qed

lemma lease_schemas [simp]:
  "lease_schema_v2 \<noteq> lease_schema_v3" "lease_schema_v2 \<noteq> lease_schema_v4" "lease_schema_v3 \<noteq> lease_schema_v4"
  "lease_schema_v3 \<noteq> lease_schema_v2" "lease_schema_v4 \<noteq> lease_schema_v2" "lease_schema_v4 \<noteq> lease_schema_v3"
  by (simp_all add: lease_schema_v2_def lease_schema_v3_def lease_schema_v4_def)

lemma is_dict_encodings [simp]:
  "is_dict (operation_ref_to_dict r)" "is_dict (canonical (operation_ref_to_dict r))"
  "is_dict (failure_diagnostic_to_dict f)" "is_dict (canonical (failure_diagnostic_to_dict f))"
  "is_dict (uncertainty_diagnostic_to_dict u)" "is_dict (canonical (uncertainty_diagnostic_to_dict u))"
  by (simp_all add: operation_ref_to_dict_def failure_diagnostic_to_dict_def uncertainty_diagnostic_to_dict_def canonical_PyDict)

lemma not_None_encodings [simp]:
  "failure_diagnostic_to_dict f \<noteq> PyNone" "canonical (failure_diagnostic_to_dict f) \<noteq> PyNone"
  "uncertainty_diagnostic_to_dict u \<noteq> PyNone" "canonical (uncertainty_diagnostic_to_dict u) \<noteq> PyNone"
  "result_binding_to_dict b \<noteq> PyNone" "canonical (result_binding_to_dict b) \<noteq> PyNone"
  by (simp_all add: result_binding_to_dict_def failure_diagnostic_to_dict_def uncertainty_diagnostic_to_dict_def canonical_PyDict)

lemma optional_record_PyNone [simp]: "optional_record dec m (Some (Inr PyNone)) = Inr None" "optional_record dec m None = Inr None"
  by (simp_all add: optional_record_def)

lemma optional_record_enc:
  assumes "canonical_codec enc dec ok" "option_ok ok x" "\<And>r. is_dict (enc r) \<and> is_dict (canonical (enc r)) \<and> enc r \<noteq> PyNone \<and> canonical (enc r) \<noteq> PyNone"
  shows "optional_record dec m (Some (Inr (opt_dict enc x))) = Inr x"
    "optional_record dec m (Some (Inr (canonical (opt_dict enc x)))) = Inr x"
    "optional_record dec m (map_option Inl x) = Inr x"
proof -
  have codec: "record_codec enc dec ok" using assms(1) by (simp add: canonical_codec_def)
  show "optional_record dec m (Some (Inr (opt_dict enc x))) = Inr x"
    using assms(2,3) record_codec.round_trip [OF codec] by (cases x) (simp_all add: opt_dict_def optional_record_def)
  show "optional_record dec m (Some (Inr (canonical (opt_dict enc x)))) = Inr x"
    using assms(2,3) canonical_codec.canonical_trip [OF assms(1)] by (cases x) (simp_all add: opt_dict_def optional_record_def)
  show "optional_record dec m (map_option Inl x) = Inr x"
    by (cases x) (simp_all add: optional_record_def)
qed

text \<open>Reading a lease back depends only on what its dictionary maps each key to.\<close>

lemma request_lease_decode:
  assumes ok: "request_lease_ok l"
    and cod: "cod = id \<or> cod = canonical"
    and keys: "set (dict_keys d) = set (dict_keys (case request_lease_to_dict l of PyDict e \<Rightarrow> e))"
    and get: "\<And>k. dict_get d k = map_option cod (dict_get (case request_lease_to_dict l of PyDict e \<Rightarrow> e) k)"
  shows "request_lease_from_dict (PyDict d) = Inr l"
proof -
  let ?e = "case request_lease_to_dict l of PyDict e \<Rightarrow> e"
  have cods [simp]: "cod (PyStr s) = PyStr s" "cod (PyInt i) = PyInt i" "cod (PyBool b) = PyBool b" "cod PyNone = PyNone"
      "cod (opt_text x) = opt_text x" for s i b x
    using cod by (auto simp: opt_text_def split: option.split)
  have enc: "dec (cod (enc r)) = Inr r" if "canonical_codec enc dec ok" "ok r" for enc :: "'x \<Rightarrow> pyval" and dec ok r
    using cod record_codec.round_trip [of enc dec ok r] canonical_codec.canonical_trip [OF that] that
    by (auto simp: canonical_codec_def)
  have opt: "optional_record dec m (Some (Inr (cod (opt_dict enc x)))) = Inr x"
    if "canonical_codec enc dec ok" "option_ok ok x"
      "\<And>r. is_dict (enc r) \<and> is_dict (canonical (enc r)) \<and> enc r \<noteq> PyNone \<and> canonical (enc r) \<noteq> PyNone"
    for enc :: "'y \<Rightarrow> pyval" and dec ok m x
    using cod optional_record_enc [OF that] by auto
  note E = dget_def get request_lease_to_dict_def
  have g: "dget d ''schema'' = PyStr (lease_schema l)" "dget d ''subject'' = cod (request_subject_to_dict (ls_subject l))"
      "dget d ''route_sha256'' = PyStr (ls_route_sha256 l)" "dget d ''status'' = PyStr (status_value (ls_status l))"
      "dget d ''revision'' = PyInt (ls_revision l)" "dget d ''visible_output'' = PyBool (ls_visible_output l)"
      "dget d ''retryable'' = PyBool (ls_retryable l)" "dget d ''classification'' = PyStr (ls_classification l)"
      "dget d ''operation'' = cod (operation_ref_to_dict (ls_operation l))"
      "dget d ''result_binding'' = cod (opt_dict result_binding_to_dict (ls_result_binding l))"
      "dget d ''predecessor_sha256'' = opt_text (ls_predecessor l)"
    by (simp_all add: E)
  have gf: "dget d ''failure_diagnostic'' = cod (opt_dict failure_diagnostic_to_dict (ls_failure l))"
    by (cases "ls_failure l"; cases "ls_uncertainty l") (simp_all add: E opt_dict_def)
  have gu: "dget d ''uncertainty_diagnostic'' = cod (opt_dict uncertainty_diagnostic_to_dict (ls_uncertainty l))"
    by (cases "ls_failure l"; cases "ls_uncertainty l") (simp_all add: E opt_dict_def)
  have isd: "is_dict (cod (request_subject_to_dict s))" "is_dict (cod (operation_ref_to_dict r))"
      "is_dict (cod (failure_diagnostic_to_dict f))" "is_dict (cod (uncertainty_diagnostic_to_dict u))" for s r f u
    using cod by auto
  have parts: "request_subject_ok (ls_subject l)" "operation_ref_ok (ls_operation l)"
      "option_ok result_binding_ok (ls_result_binding l)" "option_ok failure_diagnostic_ok (ls_failure l)"
      "option_ok uncertainty_diagnostic_ok (ls_uncertainty l)" "ls_failure l \<noteq> None \<longrightarrow> ls_status l = Failed"
      "ls_uncertainty l \<noteq> None \<longrightarrow> ls_status l = Started"
    using ok unfolding request_lease_ok_def by simp_all
  have build: "mk_request_lease (Inr (dget d ''subject'')) (dget d ''route_sha256'') (dget d ''status'')
      (dget d ''revision'') (dget d ''visible_output'') (dget d ''retryable'') (dget d ''classification'')
      (Inr (dget d ''operation'')) (Some (Inr (dget d ''result_binding''))) (dget d ''predecessor_sha256'')
      (Some (Inr (dget d ''failure_diagnostic''))) (Some (Inr (dget d ''uncertainty_diagnostic''))) = Inr l"
    unfolding g gf gu
    by (rule mk_request_lease_fields [OF ok])
      (use parts isd in \<open>simp_all add: enc [OF request_subject.canonical_codec_axioms] enc [OF operation_ref.canonical_codec_axioms]
        opt [OF failure_diagnostic.canonical_codec_axioms] opt [OF uncertainty_diagnostic.canonical_codec_axioms]
        opt [OF result_binding.canonical_codec_axioms]\<close>)
  have rd: "record_data (lease_schema l) (lease_fields @ extra) [] (PyDict d) = Inr d"
    if "extra = map fst (drop 11 ?e)" for extra
    unfolding that
  proof (rule record_data_PyDict)
    show "dict_get d ''schema'' = Some (PyStr (lease_schema l))" by (simp add: get request_lease_to_dict_def)
    show "list_all (\<lambda>k. dict_get d k \<noteq> None) (lease_fields @ map fst (drop 11 ?e))"
      by (cases "ls_failure l"; cases "ls_uncertainty l") (simp_all add: get request_lease_to_dict_def lease_fields_def)
    show "list_all (\<lambda>k. k \<in> set ((lease_fields @ map fst (drop 11 ?e)) @ [] @ [''schema''])) (dict_keys d)"
      unfolding list_all_iff keys
      by (cases "ls_failure l"; cases "ls_uncertainty l") (simp_all add: request_lease_to_dict_def lease_fields_def)
  qed
  show ?thesis
  proof (cases "ls_uncertainty l")
    case (Some u)
    then have "ls_failure l = None" using parts(6,7) by auto
    then show ?thesis
      using Some g(1,4) gu build rd [of "[''uncertainty_diagnostic'']"] parts(7) isd(4) [of u] get [of "''uncertainty_diagnostic''"]
      by (simp add: request_lease_from_dict_def lease_schema_def opt_dict_def request_lease_to_dict_def)
  next
    case None
    show ?thesis
    proof (cases "ls_failure l")
      case (Some f)
      have "vget (cod (failure_diagnostic_to_dict f)) ''schema'' = PyStr (failure_diagnostic_schema f)"
        using cod by (auto simp: failure_diagnostic_to_dict_def canonical_PyDict dget_def dict_get_canon)
      then show ?thesis
        using Some None g(1,4) gf build rd [of "[''failure_diagnostic'']"] parts(4,6) isd(3) [of f] get [of "''uncertainty_diagnostic''"]
          enc [OF failure_diagnostic.canonical_codec_axioms, of f]
        by (cases "fd_http_status f \<noteq> None \<and> failure_diagnostic_schema f = fd_schema_v2")
          (auto simp: request_lease_from_dict_def lease_schema_def opt_dict_def request_lease_to_dict_def diagnostic_lease_schema_def)
    next
      case none: None
      show ?thesis
        using None none g(1) build rd [of "[]"]
        by (simp add: request_lease_from_dict_def lease_schema_def request_lease_to_dict_def)
    qed
  qed
qed

interpretation request_lease: canonical_codec request_lease_to_dict request_lease_from_dict request_lease_ok
proof
  fix l :: request_lease
  assume ok: "request_lease_ok l"
  obtain d where d: "request_lease_to_dict l = PyDict d" by (simp add: request_lease_to_dict_def)
  show "request_lease_from_dict (request_lease_to_dict l) = Inr l"
    unfolding d by (rule request_lease_decode [OF ok, of id]) (simp_all add: d option.map_id)
  show "request_lease_from_dict (canonical (request_lease_to_dict l)) = Inr l"
    unfolding d canonical_PyDict
    by (rule request_lease_decode [OF ok, of canonical]) (simp_all only: d pyval.case set_canon_dict dict_get_canon simp_thms)
next
  fix v l
  assume "request_lease_from_dict v = Inr l"
  then show "request_lease_ok l"
    by (auto simp: request_lease_from_dict_def bindr_eq_Inr Let_def split: if_splits intro!: mk_request_lease_ok)
qed

end
