(* ===== verification/LeaseProtocol.thy ===== *)
theory LeaseProtocol
  imports RequestLease
begin

section \<open>Request leases under racing coordinators\<close>

text \<open>
  Every operation of the coordinator of \<open>providers/request_lease.py\<close> reads durable leases and then
  issues at most one compare-and-swap. Several coordinators may share a store, so the store can
  change between a read and the swap it decides. \<open>plan_call\<close> is the read phase alone, over the
  answers a coordinator got; \<open>race_step\<close> interleaves read phases, whose answers may come from any
  earlier state of the store, with the swaps. The locale \<open>lease_store\<close> states what the port has to
  promise; its lemmas show that a subject is sent at most once, that terminal leases stay as they
  are, and that every lease has a durable justification.
\<close>

subsection \<open>The operations as data\<close>

datatype lease_call =
    ClaimInitial attempt_ref int string string string operation_ref
  | RecordFailure request_lease string bool bool operation_ref "failure_diagnostic option"
  | RecordUncertainty request_lease uncertainty_diagnostic operation_ref
  | RecordCompleted request_lease bool operation_ref
  | RecordCompletedResult request_lease result_binding bool operation_ref
  | ClaimRetry request_lease operation_ref
  | ClaimFallback request_lease string operation_ref

fun coordinate :: "(pyval \<Rightarrow> string) \<Rightarrow> 'st lease_port \<Rightarrow> lease_call \<Rightarrow> 'st lease_op" where
  "coordinate sha port (ClaimInitial a i env route rsha opr) = claim_initial port a i env route rsha opr"
| "coordinate sha port (RecordFailure l c ret vis opr d) = record_failure port l c ret vis opr d"
| "coordinate sha port (RecordUncertainty l d opr) = record_uncertainty port l d opr"
| "coordinate sha port (RecordCompleted l vis opr) = record_completed l vis opr"
| "coordinate sha port (RecordCompletedResult l b vis opr) = record_completed_result sha port l b vis opr"
| "coordinate sha port (ClaimRetry l opr) = claim_retry port l opr"
| "coordinate sha port (ClaimFallback l rsha opr) = claim_openai_fallback port l rsha opr"

text \<open>The diagnostics a caller passes are instances, which their constructors have validated.\<close>

fun call_ok :: "lease_call \<Rightarrow> bool" where
  "call_ok (RecordFailure l c ret vis opr d) = option_ok failure_diagnostic_ok d"
| "call_ok (RecordUncertainty l d opr) = uncertainty_diagnostic_ok d"
| "call_ok _ = True"

subsection \<open>The read phase\<close>

datatype lease_plan = Reply request_lease | Swap int request_lease

type_synonym lease_reader = "request_subject \<Rightarrow> (py_exc, request_lease option) res"

definition plan_current :: "lease_reader \<Rightarrow> request_lease \<Rightarrow> (py_exc, request_lease) res" where
  "plan_current ld l = bindr (ld (ls_subject l)) (\<lambda>r.
     if r \<noteq> Some l then Inl (lease_integrity ''current durable request lease changed'') else Inr l)"

definition swap_next :: "int \<Rightarrow> (py_exc, request_lease) res \<Rightarrow> (py_exc, lease_plan) res" where
  "swap_next e r = bindr r (\<lambda>l. Inr (Swap e l))"

definition plan_claim :: "lease_reader \<Rightarrow> request_subject \<Rightarrow> string \<Rightarrow> operation_ref \<Rightarrow> (py_exc, lease_plan) res" where
  "plan_claim ld s rsha opr = bindr (ld s) (\<lambda>r.
     if r \<noteq> None then Inl (lease_conflict ''provider request subject is already claimed'')
     else swap_next 0 (mk_started_lease s rsha opr))"

fun plan_call :: "(pyval \<Rightarrow> string) \<Rightarrow> lease_reader \<Rightarrow> lease_call \<Rightarrow> (py_exc, lease_plan) res" where
  "plan_call sha ld (ClaimInitial a i env route rsha opr) =
     (if route \<noteq> ''primary'' then Inl (lease_transition ''initial provider request must use the primary route'')
      else bindr (mk_request_subject (Inl a) (PyInt i) (PyStr env) (PyStr route) (PyInt 0)) (\<lambda>s. plan_claim ld s rsha opr))"
| "plan_call sha ld (RecordFailure l c ret vis opr d) =
     bindr (plan_current ld l) (\<lambda>cur.
       if ls_status cur \<noteq> Started then Inl (lease_transition ''only a started request can record a terminal failure'')
       else if c = ''previous_response_fallback'' \<and>
               (su_route (ls_subject cur) \<noteq> ''primary'' \<or> su_retry_ordinal (ls_subject cur) \<noteq> 0)
       then Inl (lease_transition ''previous_response_fallback requires primary ordinal zero'')
       else swap_next (ls_revision cur)
         (mk_request_lease (Inl (ls_subject cur)) (PyStr (ls_route_sha256 cur)) (PyStr ''failed'')
            (PyInt (ls_revision cur + 1)) (PyBool vis) (PyBool ret) (PyStr c) (Inl opr) None PyNone (map_option Inl d) None))"
| "plan_call sha ld (RecordUncertainty l d opr) =
     bindr (plan_current ld l) (\<lambda>cur.
       if ls_status cur \<noteq> Started then Inl (lease_transition ''only a started request can record uncertainty'')
       else if ls_uncertainty cur \<noteq> None then Inl (lease_transition ''uncertainty is already recorded'')
       else swap_next (ls_revision cur)
         (mk_request_lease (Inl (ls_subject cur)) (PyStr (ls_route_sha256 cur)) (PyStr ''started'')
            (PyInt (ls_revision cur + 1)) (PyBool False) (PyBool False) (PyStr []) (Inl opr) None PyNone None (Some (Inl d))))"
| "plan_call sha ld (RecordCompleted l vis opr) =
     Inl (lease_transition ''completed provider request requires a durable result binding'')"
| "plan_call sha ld (RecordCompletedResult l b vis opr) =
     (if rb_route_sha256 b \<noteq> ls_route_sha256 l then Inl (lease_integrity ''provider result binding route changed'')
      else bindr (ld (ls_subject l)) (\<lambda>r. case r of
        None \<Rightarrow> Inl (lease_integrity ''current durable request lease is missing'')
      | Some cur \<Rightarrow>
          bindr (mk_request_lease (Inl (ls_subject l)) (PyStr (ls_route_sha256 l)) (PyStr ''completed'')
              (PyInt (ls_revision l + 1)) (PyBool vis) (PyBool False) (PyStr []) (Inl opr)
              (Some (Inl b)) (PyStr (sha (canonical (request_lease_to_dict l)))) None None) (\<lambda>repl.
            if cur = repl then Inr (Reply cur)
            else if cur \<noteq> l then Inl (lease_integrity ''current completed durable request lease changed'')
            else if ls_status cur \<noteq> Started
            then Inl (lease_transition ''only a started request can record completed status'')
            else Inr (Swap (ls_revision cur) repl))))"
| "plan_call sha ld (ClaimRetry l opr) =
     bindr (plan_current ld l) (\<lambda>cur.
       let refuse = (\<lambda>m. Inl (lease_transition m)) in
       if ls_status cur = Completed then refuse ''completed provider request cannot retry''
       else if ls_status cur \<noteq> Failed then refuse ''retry requires a durable terminal failure''
       else if ls_visible_output cur then refuse ''request with visible output cannot retry''
       else if \<not> ls_retryable cur then refuse ''retry requires a durable retryable failure''
       else if ls_classification cur \<noteq> ''transient''
       then refuse ''only transient failure may retry; route transition is separate''
       else if su_retry_ordinal (ls_subject cur) \<ge> max_ordinal then refuse ''retry ordinal is exhausted''
       else bindr (mk_request_subject (Inl (su_attempt (ls_subject cur))) (PyInt (su_iteration (ls_subject cur)))
                (PyStr (su_envelope_sha256 (ls_subject cur))) (PyStr (su_route (ls_subject cur)))
                (PyInt (su_retry_ordinal (ls_subject cur) + 1)))
              (\<lambda>s. plan_claim ld s (ls_route_sha256 cur) opr))"
| "plan_call sha ld (ClaimFallback l rsha opr) =
     bindr (plan_current ld l) (\<lambda>cur.
       if su_route (ls_subject cur) \<noteq> ''primary'' \<or> su_retry_ordinal (ls_subject cur) \<noteq> 0 \<or> ls_status cur \<noteq> Failed \<or>
          \<not> ls_retryable cur \<or> ls_visible_output cur \<or> ls_classification cur \<noteq> ''previous_response_fallback''
       then Inl (lease_transition ''OpenAI fallback route requires durable primary fallback classification'')
       else bindr (mk_request_subject (Inl (su_attempt (ls_subject cur))) (PyInt (su_iteration (ls_subject cur)))
                (PyStr (su_envelope_sha256 (ls_subject cur))) (PyStr ''openai_previous_response_fallback'') (PyInt 0))
              (\<lambda>s. plan_claim ld s rsha opr))"

definition commit_plan :: "'st lease_port \<Rightarrow> (py_exc, lease_plan) res \<Rightarrow> 'st lease_op" where
  "commit_plan port p st =
     (case p of
        Inl e \<Rightarrow> (Inl e, st)
      | Inr (Reply l) \<Rightarrow> (Inr l, st)
      | Inr (Swap e r) \<Rightarrow> co_cas port e r st)"

text \<open>An operation run without interference is its read phase followed by its swap.\<close>

lemma commit_plan_simps [simp]:
  "commit_plan port (Inl x) st = (Inl x, st)" "commit_plan port (Inr (Reply l)) st = (Inr l, st)"
  "commit_plan port (Inr (Swap e r)) st = co_cas port e r st"
  by (simp_all add: commit_plan_def)

lemma commit_bindr: "commit_plan port (bindr m f) st = then_do m (\<lambda>x. commit_plan port (f x)) st"
  by (cases m) (simp_all add: then_do_def)

lemma commit_swap_next: "commit_plan port (swap_next e m) = then_do m (co_cas port e)"
  by (rule ext, cases m) (simp_all add: swap_next_def then_do_def)

lemma then_do_cong: "(\<And>x. m = Inr x \<Longrightarrow> f x st = g x st) \<Longrightarrow> then_do m f st = then_do m g st"
  by (cases m) (simp_all add: then_do_def)

lemma plan_current_co: "plan_current (\<lambda>s. co_load port s st) l = co_current port l st"
  by (simp add: plan_current_def co_current_def)

lemma commit_plan_claim: "commit_plan port (plan_claim (\<lambda>s. co_load port s st) s rsha opr) st = co_claim port s rsha opr st"
  by (auto simp: plan_claim_def co_claim_def commit_bindr commit_swap_next intro!: then_do_cong)

lemma coordinate_phases:
  "coordinate sha port c st = commit_plan port (plan_call sha (\<lambda>s. co_load port s st) c) st"
proof (cases c)
  case (ClaimInitial a i env route rsha opr)
  then show ?thesis by (auto simp: claim_initial_def commit_bindr commit_plan_claim intro!: then_do_cong)
next
  case (RecordCompletedResult l b vis opr)
  then show ?thesis
    by (auto simp: record_completed_result_def commit_bindr intro!: then_do_cong split: option.splits)
next
  case (ClaimRetry l opr)
  then show ?thesis
    by (auto simp: claim_retry_def commit_bindr plan_current_co commit_plan_claim Let_def intro!: then_do_cong)
next
  case (ClaimFallback l rsha opr)
  then show ?thesis
    by (auto simp: claim_openai_fallback_def commit_bindr plan_current_co commit_plan_claim intro!: then_do_cong)
qed (auto simp: record_failure_def record_uncertainty_def record_completed_def commit_bindr plan_current_co commit_swap_next
    intro!: then_do_cong)

subsection \<open>What a plan may swap\<close>

definition revision_of :: "request_lease option \<Rightarrow> int" where
  "revision_of r = (case r of None \<Rightarrow> 0 | Some l \<Rightarrow> ls_revision l)"

text \<open>
  A subject may be claimed because it is the first send of an iteration, because the send before
  it failed transiently and nothing was shown to the user, or because the primary send failed with
  the fallback classification.
\<close>

definition retryable_failure :: "string \<Rightarrow> request_lease \<Rightarrow> bool" where
  "retryable_failure c p \<longleftrightarrow> ls_status p = Failed \<and> ls_retryable p \<and> \<not> ls_visible_output p \<and> ls_classification p = c"

definition justified :: "(request_subject \<Rightarrow> request_lease option) \<Rightarrow> request_lease \<Rightarrow> bool" where
  "justified v l \<longleftrightarrow>
     (let s = ls_subject l in
      su_route s = ''primary'' \<and> su_retry_ordinal s = 0 \<or>
      (\<exists>p. v (s\<lparr>su_retry_ordinal := su_retry_ordinal s - 1\<rparr>) = Some p \<and> su_retry_ordinal s > 0 \<and>
           retryable_failure ''transient'' p \<and> ls_route_sha256 p = ls_route_sha256 l) \<or>
      (\<exists>p. v (s\<lparr>su_route := ''primary''\<rparr>) = Some p \<and> su_route s = ''openai_previous_response_fallback'' \<and>
           su_retry_ordinal s = 0 \<and> retryable_failure ''previous_response_fallback'' p))"

definition opens :: "(request_subject \<Rightarrow> request_lease option) \<Rightarrow> int \<Rightarrow> request_lease \<Rightarrow> bool" where
  "opens v e r \<longleftrightarrow> e = 0 \<and> ls_revision r = 1 \<and> justified v r"

definition advances :: "(request_subject \<Rightarrow> request_lease option) \<Rightarrow> int \<Rightarrow> request_lease \<Rightarrow> bool" where
  "advances v e r \<longleftrightarrow> (\<exists>l. v (ls_subject r) = Some l \<and> ls_status l = Started \<and> ls_revision l = e \<and>
     ls_route_sha256 l = ls_route_sha256 r)"

lemma mk_request_lease_copies:
  assumes "mk_request_lease (Inl s) (PyStr rsha) st (PyInt n) vis ret c p b d f u = Inr l" "request_subject_ok s"
  shows "ls_subject l = s \<and> ls_route_sha256 l = rsha \<and> ls_revision l = n"
  using assms unfolding mk_request_lease_def bindr_eq_Inr Let_def
  by (elim exE conjE)
    (auto simp: bindr_eq_Inr exact_record_def request_subject.round_trip split: if_splits option.splits
      dest: sha256_field_Inr exact_revision_Inr)

lemma mk_request_subject_copies:
  assumes "mk_request_subject (Inl a) (PyInt i) (PyStr env) (PyStr route) (PyInt n) = Inr s" "attempt_ref_ok a"
  shows "s = \<lparr>su_attempt = a, su_iteration = i, su_envelope_sha256 = env, su_route = route, su_retry_ordinal = n\<rparr>"
  using assms
  by (auto simp: mk_request_subject_def bindr_eq_Inr exact_record_def attempt_ref.round_trip exact_int_def canonical_text_def
      split: if_splits dest: sha256_field_Inr)

lemma request_subject_attempt: "request_subject_ok s \<Longrightarrow> attempt_ref_ok (su_attempt s)"
  by (simp add: request_subject_ok_def)

lemma plan_currentD: "plan_current ld l = Inr cur \<Longrightarrow> cur = l \<and> ld (ls_subject l) = Inr (Some l)"
  by (auto simp: plan_current_def bindr_eq_Inr split: if_splits)

lemma swap_next_Inr: "swap_next e m = Inr p \<longleftrightarrow> (\<exists>l. m = Inr l \<and> p = Swap e l)"
  by (auto simp: swap_next_def bindr_eq_Inr)

lemma plan_claimD:
  assumes "plan_claim ld s rsha opr = Inr (Swap e r)" "request_subject_ok s"
  shows "e = 0 \<and> ls_subject r = s \<and> ls_route_sha256 r = rsha \<and> ls_revision r = 1 \<and> request_lease_ok r"
  using assms
  by (auto simp: plan_claim_def bindr_eq_Inr swap_next_Inr mk_started_lease_def split: if_splits
      dest: mk_request_lease_copies intro: mk_request_lease_ok)

lemma plan_claim_Swap: "plan_claim ld s rsha opr = Inr p \<Longrightarrow> \<exists>r. p = Swap 0 r"
  by (auto simp: plan_claim_def bindr_eq_Inr swap_next_Inr split: if_splits)

definition answers :: "lease_reader \<Rightarrow> request_subject \<Rightarrow> request_lease option" where
  "answers ld s = (case ld s of Inl e \<Rightarrow> None | Inr r \<Rightarrow> r)"

definition reader_ok :: "lease_reader \<Rightarrow> bool" where
  "reader_ok ld \<longleftrightarrow> (\<forall>s l. ld s = Inr (Some l) \<longrightarrow> request_lease_ok l \<and> ls_subject l = s)"

lemma answers_Inr: "ld s = Inr r \<Longrightarrow> answers ld s = r"
  by (simp add: answers_def)

lemma request_lease_subject: "request_lease_ok l \<Longrightarrow> request_subject_ok (ls_subject l)"
  by (simp add: request_lease_ok_def)

lemma plan_currentE:
  assumes "plan_current ld l = Inr cur" "reader_ok ld"
  shows "cur = l \<and> answers ld (ls_subject l) = Some l \<and> request_lease_ok l \<and> request_subject_ok (ls_subject l)"
  using plan_currentD [OF assms(1)] assms(2) by (auto simp: reader_ok_def answers_Inr intro: request_lease_subject)

text \<open>One lemma for the three operations that move a started lease forward.\<close>

lemma advancing_swap:
  assumes "mk_request_lease (Inl (ls_subject l)) (PyStr (ls_route_sha256 l)) st (PyInt (ls_revision l + 1)) vis ret c p b d f u = Inr r"
    "\<And>x. f = Some (Inl x) \<Longrightarrow> failure_diagnostic_ok x" "\<And>x. u = Some (Inl x) \<Longrightarrow> uncertainty_diagnostic_ok x"
    "answers ld (ls_subject l) = Some l" "request_lease_ok l" "ls_status l = Started"
  shows "request_lease_ok r \<and> ls_revision r = ls_revision l + 1 \<and> advances (answers ld) (ls_revision l) r"
  using mk_request_lease_ok [OF assms(1-3)] mk_request_lease_copies [OF assms(1) request_lease_subject [OF assms(5)]] assms(4,6)
  by (auto simp: advances_def)

lemma claiming_swap:
  assumes subj: "mk_request_subject a i env route n = Inr s"
    and claim: "plan_claim ld s rsha opr = Inr (Swap e r)"
    and just: "\<And>l. \<lbrakk>ls_route_sha256 l = rsha; ls_subject l = s\<rbrakk> \<Longrightarrow> justified v l"
  shows "request_lease_ok r \<and> ls_revision r = e + 1 \<and> opens v e r"
  using plan_claimD [OF claim mk_request_subject_ok [OF subj]] just [of r] by (simp add: opens_def)

lemma plan_call_safe:
  assumes plan: "plan_call sha ld c = Inr (Swap e r)" and ok: "call_ok c" "reader_ok ld"
  shows "request_lease_ok r \<and> ls_revision r = e + 1 \<and> (opens (answers ld) e r \<or> advances (answers ld) e r)"
proof (cases c)
  case (ClaimInitial a i env route rsha opr)
  then obtain s where s: "mk_request_subject (Inl a) (PyInt i) (PyStr env) (PyStr ''primary'') (PyInt 0) = Inr s"
      "plan_claim ld s rsha opr = Inr (Swap e r)"
    using plan by (auto simp: bindr_eq_Inr split: if_splits)
  have "su_route s = ''primary'' \<and> su_retry_ordinal s = 0"
    using s(1) by (auto simp: mk_request_subject_def bindr_eq_Inr exact_int_def canonical_text_def split: if_splits)
  then show ?thesis using claiming_swap [OF s, of "answers ld"] by (auto simp: justified_def)
next
  case (RecordFailure l cl ret vis opr d)
  then obtain cur where cur: "plan_current ld l = Inr cur" "ls_status cur = Started" "e = ls_revision cur"
      and mk: "mk_request_lease (Inl (ls_subject cur)) (PyStr (ls_route_sha256 cur)) (PyStr ''failed'')
            (PyInt (ls_revision cur + 1)) (PyBool vis) (PyBool ret) (PyStr cl) (Inl opr) None PyNone (map_option Inl d) None = Inr r"
    using plan by (auto simp: bindr_eq_Inr swap_next_Inr split: if_splits)
  have l: "cur = l" "answers ld (ls_subject l) = Some l" "request_lease_ok l" using plan_currentE [OF cur(1) ok(2)] by auto
  show ?thesis using advancing_swap [OF mk _ _ _ _ cur(2), of ld] l cur(3) ok(1) RecordFailure by (cases d) auto
next
  case (RecordUncertainty l d opr)
  then obtain cur where cur: "plan_current ld l = Inr cur" "ls_status cur = Started" "e = ls_revision cur"
      and mk: "mk_request_lease (Inl (ls_subject cur)) (PyStr (ls_route_sha256 cur)) (PyStr ''started'')
            (PyInt (ls_revision cur + 1)) (PyBool False) (PyBool False) (PyStr []) (Inl opr) None PyNone None (Some (Inl d)) = Inr r"
    using plan by (auto simp: bindr_eq_Inr swap_next_Inr split: if_splits)
  have l: "cur = l" "answers ld (ls_subject l) = Some l" "request_lease_ok l" using plan_currentE [OF cur(1) ok(2)] by auto
  show ?thesis using advancing_swap [OF mk _ _ _ _ cur(2), of ld] l cur(3) ok(1) RecordUncertainty by auto
next
  case (RecordCompleted l vis opr)
  then show ?thesis using plan by simp
next
  case (RecordCompletedResult l b vis opr)
  then have cur: "ld (ls_subject l) = Inr (Some l)" "ls_status l = Started" "e = ls_revision l"
    and mk: "mk_request_lease (Inl (ls_subject l)) (PyStr (ls_route_sha256 l)) (PyStr ''completed'')
              (PyInt (ls_revision l + 1)) (PyBool vis) (PyBool False) (PyStr []) (Inl opr)
              (Some (Inl b)) (PyStr (sha (canonical (request_lease_to_dict l)))) None None = Inr r"
    using plan by (auto simp: bindr_eq_Inr split: if_splits option.splits)
  have "request_lease_ok l" using ok(2) cur(1) by (auto simp: reader_ok_def)
  then show ?thesis using advancing_swap [OF mk _ _ _ _ cur(2), of ld] cur by (auto simp: answers_Inr)
next
  case (ClaimRetry l opr)
  then obtain cur s where cur: "plan_current ld l = Inr cur" "retryable_failure ''transient'' cur"
      and s: "mk_request_subject (Inl (su_attempt (ls_subject cur))) (PyInt (su_iteration (ls_subject cur)))
                (PyStr (su_envelope_sha256 (ls_subject cur))) (PyStr (su_route (ls_subject cur)))
                (PyInt (su_retry_ordinal (ls_subject cur) + 1)) = Inr s" "plan_claim ld s (ls_route_sha256 cur) opr = Inr (Swap e r)"
    using plan by (auto simp: bindr_eq_Inr Let_def retryable_failure_def split: if_splits)
  have l: "cur = l" "answers ld (ls_subject l) = Some l" "request_subject_ok (ls_subject l)"
    using plan_currentE [OF cur(1) ok(2)] by auto
  have "su_retry_ordinal (ls_subject l) \<ge> 0"
    using l(3) by (auto simp: request_subject_ok_def mk_request_subject_def bindr_eq_Inr exact_int_def split: if_splits)
  moreover have eq: "s = (ls_subject l)\<lparr>su_retry_ordinal := su_retry_ordinal (ls_subject l) + 1\<rparr>"
    using mk_request_subject_copies [OF s(1)] request_subject_attempt [OF l(3)] l(1) by simp
  ultimately have "justified (answers ld) k" if "ls_route_sha256 k = ls_route_sha256 cur" "ls_subject k = s" for k
    using that cur(2) l(1,2) by (auto simp: justified_def Let_def)
  then show ?thesis using claiming_swap [OF s, of "answers ld"] by simp
next
  case (ClaimFallback l rsha opr)
  then obtain cur s where cur: "plan_current ld l = Inr cur" "retryable_failure ''previous_response_fallback'' cur"
      "su_route (ls_subject cur) = ''primary''" "su_retry_ordinal (ls_subject cur) = 0"
      and s: "mk_request_subject (Inl (su_attempt (ls_subject cur))) (PyInt (su_iteration (ls_subject cur)))
                (PyStr (su_envelope_sha256 (ls_subject cur))) (PyStr ''openai_previous_response_fallback'') (PyInt 0) = Inr s"
        "plan_claim ld s rsha opr = Inr (Swap e r)"
    using plan by (auto simp: bindr_eq_Inr retryable_failure_def split: if_splits)
  have l: "cur = l" "answers ld (ls_subject l) = Some l" "request_subject_ok (ls_subject l)"
    using plan_currentE [OF cur(1) ok(2)] by auto
  have eq: "s = (ls_subject l)\<lparr>su_route := ''openai_previous_response_fallback''\<rparr>"
    using mk_request_subject_copies [OF s(1)] request_subject_attempt [OF l(3)] l(1) cur(4) by simp
  moreover have "(ls_subject l)\<lparr>su_route := ''primary''\<rparr> = ls_subject l" using cur(3) l(1) by (simp add: request_subject.equality)
  ultimately have "justified (answers ld) k" if "ls_subject k = s" for k
    using that cur(2,4) l(1,2) by (auto simp: justified_def Let_def)
  then show ?thesis using claiming_swap [OF s, of "answers ld"] by simp
qed

subsection \<open>Racing coordinators\<close>

record 'st race =
  rc_now :: 'st
  rc_past :: "'st list"
  rc_pending :: "(int \<times> request_lease) list"
  rc_won :: "request_lease list"

definition race_start :: "'st \<Rightarrow> 'st race" where
  "race_start st = \<lparr>rc_now = st, rc_past = [st], rc_pending = [], rc_won = []\<rparr>"

text \<open>
  A coordinator reads, each lease in whatever state the store was in when it looked, and decides on
  a swap; some decided swap reaches the store and wins; or it reaches the store and is refused. A
  swap stays pending after it was tried, so a coordinator that lost its answer may repeat it. In
  between, the store may change by the steps \<open>env\<close> of its other clients.
\<close>

inductive race_step :: "(pyval \<Rightarrow> string) \<Rightarrow> 'st lease_port \<Rightarrow> ('st \<Rightarrow> 'st \<Rightarrow> bool) \<Rightarrow> 'st race \<Rightarrow> 'st race \<Rightarrow> bool"
  for sha :: "pyval \<Rightarrow> string" and port :: "'st lease_port" and env :: "'st \<Rightarrow> 'st \<Rightarrow> bool" where
  read_phase: "\<lbrakk>call_ok c; \<And>s. \<exists>st \<in> set (rc_past w). ld s = co_load port s st; plan_call sha ld c = Inr (Swap e r)\<rbrakk>
    \<Longrightarrow> race_step sha port env w (w\<lparr>rc_pending := (e, r) # rc_pending w\<rparr>)"
| swap_wins: "\<lbrakk>(e, r) \<in> set (rc_pending w); co_cas port e r (rc_now w) = (Inr x, st)\<rbrakk>
    \<Longrightarrow> race_step sha port env w (w\<lparr>rc_now := st, rc_past := st # rc_past w, rc_won := x # rc_won w\<rparr>)"
| swap_refused: "\<lbrakk>(e, r) \<in> set (rc_pending w); co_cas port e r (rc_now w) = (Inl x, st)\<rbrakk>
    \<Longrightarrow> race_step sha port env w (w\<lparr>rc_now := st, rc_past := st # rc_past w\<rparr>)"
| elsewhere: "env (rc_now w) st \<Longrightarrow> race_step sha port env w (w\<lparr>rc_now := st, rc_past := st # rc_past w\<rparr>)"

definition race_run :: "(pyval \<Rightarrow> string) \<Rightarrow> 'st lease_port \<Rightarrow> ('st \<Rightarrow> 'st \<Rightarrow> bool) \<Rightarrow> 'st race \<Rightarrow> 'st race \<Rightarrow> bool" where
  "race_run sha port env = (race_step sha port env)\<^sup>*\<^sup>*"

lemma race_run_refl: "race_run sha port env w w"
  by (simp add: race_run_def)

lemma race_run_step: "\<lbrakk>race_run sha port env w w'; race_step sha port env w' w''\<rbrakk> \<Longrightarrow> race_run sha port env w w''"
  unfolding race_run_def by (rule rtranclp.rtrancl_into_rtrancl)

text \<open>How a lease may change: not at all, or forward from a started one.\<close>

definition lease_le :: "request_lease \<Rightarrow> request_lease \<Rightarrow> bool" where
  "lease_le l l' \<longleftrightarrow> l' = l \<or> ls_status l = Started \<and> ls_revision l < ls_revision l'"

definition view_le :: "(request_subject \<Rightarrow> request_lease option) \<Rightarrow> (request_subject \<Rightarrow> request_lease option) \<Rightarrow> bool" where
  "view_le v v' \<longleftrightarrow> (\<forall>s l. v s = Some l \<longrightarrow> (\<exists>l'. v' s = Some l' \<and> lease_le l l'))"

lemma lease_le_refl [simp]: "lease_le l l"
  by (simp add: lease_le_def)

lemma lease_le_trans: "\<lbrakk>lease_le a b; lease_le b c\<rbrakk> \<Longrightarrow> lease_le a c"
  by (auto simp: lease_le_def)

lemma lease_le_terminal: "\<lbrakk>lease_le l l'; ls_status l \<noteq> Started\<rbrakk> \<Longrightarrow> l' = l"
  by (simp add: lease_le_def)

lemma view_le_refl [simp]: "view_le v v"
  by (simp add: view_le_def)

lemma view_le_trans: "\<lbrakk>view_le u v; view_le v w\<rbrakk> \<Longrightarrow> view_le u w"
  unfolding view_le_def by (meson lease_le_trans)

lemma view_leD: "\<lbrakk>view_le v v'; v s = Some l\<rbrakk> \<Longrightarrow> \<exists>l'. v' s = Some l' \<and> lease_le l l'"
  by (simp add: view_le_def)

lemma view_le_failure: "\<lbrakk>view_le v v'; v s = Some p; retryable_failure c p\<rbrakk> \<Longrightarrow> v' s = Some p"
  using view_leD [of v v' s p] by (auto simp: retryable_failure_def dest: lease_le_terminal)

lemma justified_mono: "\<lbrakk>view_le v v'; justified v l\<rbrakk> \<Longrightarrow> justified v' l"
  unfolding justified_def Let_def by (blast dest: view_le_failure)

lemma justified_same: "\<lbrakk>justified v l; ls_subject l' = ls_subject l; ls_route_sha256 l' = ls_route_sha256 l\<rbrakk> \<Longrightarrow> justified v l'"
  by (simp add: justified_def)

text \<open>What is known of a decided swap once the store has moved on to the view \<open>v\<close>.\<close>

definition swap_known :: "(request_subject \<Rightarrow> request_lease option) \<Rightarrow> int \<Rightarrow> request_lease \<Rightarrow> bool" where
  "swap_known v e r \<longleftrightarrow> request_lease_ok r \<and> ls_revision r = e + 1 \<and>
     (opens v e r \<or>
      (\<exists>l l'. ls_status l = Started \<and> ls_revision l = e \<and> ls_route_sha256 l = ls_route_sha256 r \<and> e > 0 \<and>
              v (ls_subject r) = Some l' \<and> lease_le l l'))"

lemma swap_known_mono:
  assumes "view_le v v'" "swap_known v e r"
  shows "swap_known v' e r"
proof (cases "opens v e r")
  case True
  then show ?thesis using assms justified_mono by (auto simp: swap_known_def opens_def)
next
  case False
  then obtain l l' where l: "ls_status l = Started" "ls_revision l = e" "ls_route_sha256 l = ls_route_sha256 r" "e > 0"
      "v (ls_subject r) = Some l'" "lease_le l l'"
    using assms(2) by (auto simp: swap_known_def)
  obtain l'' where "v' (ls_subject r) = Some l''" "lease_le l l''"
    using view_leD [OF assms(1) l(5)] lease_le_trans [OF l(6)] by blast
  then show ?thesis using assms(2) l(1-4) unfolding swap_known_def by blast
qed

definition race_ok :: "('st \<Rightarrow> request_subject \<Rightarrow> request_lease option) \<Rightarrow> ('st \<Rightarrow> bool) \<Rightarrow> 'st race \<Rightarrow> bool" where
  "race_ok view good w \<longleftrightarrow>
     good (rc_now w) \<and> rc_now w \<in> set (rc_past w) \<and>
     (\<forall>st \<in> set (rc_past w). good st \<and> view_le (view st) (view (rc_now w))) \<and>
     (\<forall>s l. view (rc_now w) s = Some l \<longrightarrow> justified (view (rc_now w)) l) \<and>
     (\<forall>(e, r) \<in> set (rc_pending w). swap_known (view (rc_now w)) e r) \<and>
     distinct (map (\<lambda>l. (ls_subject l, ls_revision l)) (rc_won w)) \<and>
     (\<forall>l \<in> set (rc_won w). \<exists>l'. view (rc_now w) (ls_subject l) = Some l' \<and> lease_le l l')"

text \<open>
  The contract of \<open>ProviderRequestLeasePort\<close>: in a sound store a load answers the durable view or
  raises, a granted swap stores exactly its replacement as the next revision, and a refused one
  changes nothing; and the other clients of the store leave its leases alone.
\<close>

locale lease_store =
  fixes port :: "'st lease_port" and view :: "'st \<Rightarrow> request_subject \<Rightarrow> request_lease option" and good :: "'st \<Rightarrow> bool"
    and env :: "'st \<Rightarrow> 'st \<Rightarrow> bool"
  assumes load_view: "\<lbrakk>good st; port_load port s st = Inr answer\<rbrakk> \<Longrightarrow> answer = view st s"
    and cas_granted: "\<lbrakk>good st; request_lease_ok r; port_cas port (ls_subject r) e r st = (Inr x, st')\<rbrakk> \<Longrightarrow>
      x = r \<and> good st' \<and> view st' = (view st)(ls_subject r \<mapsto> r) \<and> e = revision_of (view st (ls_subject r)) \<and>
      ls_revision r = e + 1"
    and cas_refused: "\<lbrakk>good st; port_cas port s e r st = (Inl exc, st')\<rbrakk> \<Longrightarrow> st' = st"
    and env_keeps: "\<lbrakk>good st; env st st'\<rbrakk> \<Longrightarrow> good st' \<and> view st' = view st"
    and view_ok: "\<lbrakk>good st; view st s = Some l\<rbrakk> \<Longrightarrow> request_lease_ok l \<and> ls_subject l = s"
begin

lemma co_load_view: "\<lbrakk>good st; co_load port s st = Inr r\<rbrakk> \<Longrightarrow> r = view st s"
  using load_view [of st s] by (cases "view st s") (auto simp: co_load_def bindr_eq_Inr split: option.splits if_splits)

lemma co_cas_granted:
  "\<lbrakk>good st; request_lease_ok r; co_cas port e r st = (Inr x, st')\<rbrakk> \<Longrightarrow>
   x = r \<and> good st' \<and> view st' = (view st)(ls_subject r \<mapsto> r) \<and> e = revision_of (view st (ls_subject r)) \<and> ls_revision r = e + 1"
  by (auto simp: co_cas_def split: prod.splits sum.splits if_splits dest: cas_granted)

lemma co_cas_refused:
  assumes "good st" "request_lease_ok r" "co_cas port e r st = (Inl x, st')"
  shows "st' = st"
proof (cases "port_cas port (ls_subject r) e r st")
  case (Pair y st'')
  then show ?thesis
    using assms cas_refused [of st "ls_subject r" e r] cas_granted [of st r e]
    by (cases y) (auto simp: co_cas_def split: if_splits)
qed

lemma reader_sound:
  assumes "race_ok view good w" "\<And>s. \<exists>st \<in> set (rc_past w). ld s = co_load port s st"
  shows "reader_ok ld" and "view_le (answers ld) (view (rc_now w))"
proof -
  have ans: "\<exists>st \<in> set (rc_past w). good st \<and> view_le (view st) (view (rc_now w)) \<and> view st s = Some l"
    if "ld s = Inr (Some l)" for s l
    using assms(1) assms(2) [of s] that by (auto simp: race_ok_def dest: co_load_view) (metis co_load_view)
  show "reader_ok ld" using ans view_ok by (fastforce simp: reader_ok_def)
  show "view_le (answers ld) (view (rc_now w))"
    unfolding view_le_def answers_def
  proof (intro allI impI)
    fix s l
    assume "(case ld s of Inl e \<Rightarrow> None | Inr r \<Rightarrow> r) = Some l"
    then have "ld s = Inr (Some l)" by (auto split: sum.splits)
    then show "\<exists>l'. view (rc_now w) s = Some l' \<and> lease_le l l'" using ans view_leD by blast
  qed
qed

lemma planned_swap_known:
  assumes "race_ok view good w" "call_ok c" "\<And>s. \<exists>st \<in> set (rc_past w). ld s = co_load port s st"
    "plan_call sha ld c = Inr (Swap e r)"
  shows "swap_known (view (rc_now w)) e r"
proof -
  have rd: "reader_ok ld" and le: "view_le (answers ld) (view (rc_now w))" using reader_sound [OF assms(1,3)] .
  have plan: "request_lease_ok r" "ls_revision r = e + 1" "opens (answers ld) e r \<or> advances (answers ld) e r"
    using plan_call_safe [OF assms(4,2) rd] by simp_all
  from plan(3) show ?thesis
  proof
    assume "opens (answers ld) e r"
    then show ?thesis using plan justified_mono [OF le] by (simp add: swap_known_def opens_def)
  next
    assume "advances (answers ld) e r"
    then obtain l where l: "answers ld (ls_subject r) = Some l" "ls_status l = Started" "ls_revision l = e"
        "ls_route_sha256 l = ls_route_sha256 r" by (auto simp: advances_def)
    have "request_lease_ok l" using rd l(1) by (auto simp: reader_ok_def answers_def split: sum.splits)
    then have "e > 0" using l(3) by (simp add: request_lease_ok_def)
    then show ?thesis using plan l view_leD [OF le l(1)] by (auto simp: swap_known_def)
  qed
qed

text \<open>A winning swap moves the view forward and keeps every lease justified.\<close>

lemma swap_forward:
  assumes "good st" "swap_known (view st) e r" "e = revision_of (view st (ls_subject r))"
  shows "view_le (view st) ((view st)(ls_subject r \<mapsto> r))"
    and "opens (view st) e r \<or> (\<exists>l. view st (ls_subject r) = Some l \<and> ls_route_sha256 l = ls_route_sha256 r)"
proof -
  have cur: "ls_status l = Started \<and> ls_revision l < ls_revision r \<and> ls_route_sha256 l = ls_route_sha256 r"
    if l: "view st (ls_subject r) = Some l" for l
  proof -
    have "ls_revision l = e" "1 \<le> ls_revision l"
      using assms(3) l view_ok [OF assms(1) l] by (simp_all add: revision_of_def request_lease_ok_def)
    then show ?thesis using assms(2) l by (auto simp: swap_known_def opens_def lease_le_def)
  qed
  then show "view_le (view st) ((view st)(ls_subject r \<mapsto> r))" by (auto simp: view_le_def lease_le_def)
  show "opens (view st) e r \<or> (\<exists>l. view st (ls_subject r) = Some l \<and> ls_route_sha256 l = ls_route_sha256 r)"
    using assms(2) cur by (fastforce simp: swap_known_def)
qed

lemma race_step_ok:
  assumes "race_step sha port env w w'" "race_ok view good w"
  shows "race_ok view good w' \<and> view_le (view (rc_now w)) (view (rc_now w'))"
  using assms(1)
proof (cases rule: race_step.cases)
  case (read_phase c ld e r)
  then show ?thesis using assms(2) planned_swap_known [OF assms(2) read_phase(2-4)] by (auto simp: race_ok_def)
next
  case (swap_wins e r x st)
  let ?v = "view (rc_now w)"
  have known: "swap_known ?v e r" and good: "good (rc_now w)" using assms(2) swap_wins(2) by (auto simp: race_ok_def)
  then have cas: "x = r" "good st" "view st = ?v(ls_subject r \<mapsto> r)" "e = revision_of (?v (ls_subject r))" "ls_revision r = e + 1"
    using co_cas_granted [OF good _ swap_wins(3)] by (auto simp: swap_known_def)
  have le: "view_le ?v (view st)" and src: "opens ?v e r \<or> (\<exists>l. ?v (ls_subject r) = Some l \<and> ls_route_sha256 l = ls_route_sha256 r)"
    using swap_forward [OF good known cas(4)] cas(3) by simp_all
  have "justified ?v l" if "?v s = Some l" for s l using that assms(2) by (auto simp: race_ok_def)
  then have "justified ?v r"
    using src view_ok [OF good, of "ls_subject r"] justified_same [of ?v _ r] unfolding opens_def by metis
  then have just: "justified (view st) l" if "view st s = Some l" for s l
    using that assms(2) le cas(3) by (auto simp: race_ok_def intro: justified_mono split: if_splits)
  have won: "\<exists>l'. view st (ls_subject l) = Some l' \<and> lease_le l l'" if "l \<in> set (rc_won w)" for l
    using that assms(2) view_leD [OF le] lease_le_trans unfolding race_ok_def by meson
  have fresh: "(ls_subject r, ls_revision r) \<noteq> (ls_subject l, ls_revision l)" if "l \<in> set (rc_won w)" for l
    using that assms(2) cas(4,5) by (fastforce simp: race_ok_def revision_of_def lease_le_def)
  show ?thesis
    using assms(2) swap_wins cas le just won fresh swap_known_mono [OF le]
    by (auto simp: race_ok_def intro: view_le_trans)
next
  case (swap_refused e r x st)
  have "request_lease_ok r" "good (rc_now w)" using assms(2) swap_refused(2) by (auto simp: race_ok_def swap_known_def)
  then have "st = rc_now w" using co_cas_refused swap_refused(3) by blast
  then show ?thesis using assms(2) swap_refused(1) by (auto simp: race_ok_def)
next
  case (elsewhere st)
  then have "good st" "view st = view (rc_now w)" using assms(2) env_keeps by (auto simp: race_ok_def)
  then show ?thesis using assms(2) elsewhere(1) by (auto simp: race_ok_def)
qed

lemma race_run_ok:
  assumes "race_run sha port env w w'" "race_ok view good w"
  shows "race_ok view good w' \<and> view_le (view (rc_now w)) (view (rc_now w'))"
  using assms unfolding race_run_def
  by (induction rule: rtranclp_induct) (auto dest: race_step_ok intro: view_le_trans)

lemma race_start_ok: "\<lbrakk>good st; \<And>s. view st s = None\<rbrakk> \<Longrightarrow> race_ok view good (race_start st)"
  by (simp add: race_start_def race_ok_def)

lemma terminal_stays:
  "\<lbrakk>race_ok view good w; race_run sha port env w w'; view (rc_now w) s = Some l; ls_status l \<noteq> Started\<rbrakk>
   \<Longrightarrow> view (rc_now w') s = Some l"
  using race_run_ok view_leD lease_le_terminal by metis

lemma sent_once:
  assumes "race_ok view good w"
  shows "length (filter (\<lambda>l. ls_subject l = s \<and> ls_revision l = 1) (rc_won w)) \<le> 1"
proof -
  let ?k = "\<lambda>l. (ls_subject l, ls_revision l)" and ?p = "\<lambda>l. ls_subject l = s \<and> ls_revision l = 1"
  have "distinct (map ?k (filter ?p (rc_won w)))" using assms by (simp add: race_ok_def distinct_map_filter)
  then have "length (filter ?p (rc_won w)) = card (?k ` {l \<in> set (rc_won w). ?p l})"
    using distinct_card by fastforce
  also have "\<dots> \<le> card {(s, 1 :: int)}" by (rule card_mono) auto
  finally show ?thesis by simp
qed

lemma never_resent:
  assumes "race_ok view good w" "l \<in> set (rc_won w)" "recover port (ls_subject l) (rc_now w) = Inr (d, r)"
  shows "\<not> auto_resend_allowed d"
proof -
  have "r = view (rc_now w) (ls_subject l)" "d = disposition r"
    using assms(1,3) co_load_view by (auto simp: recover_def bindr_eq_Inr race_ok_def)
  moreover obtain l' where "view (rc_now w) (ls_subject l) = Some l'" using assms(1,2) by (auto simp: race_ok_def)
  ultimately show ?thesis by (simp add: auto_resend_allowed_def disposition_def)
qed

lemma all_justified: "\<lbrakk>race_ok view good w; view (rc_now w) s = Some l\<rbrakk> \<Longrightarrow> justified (view (rc_now w)) l"
  by (auto simp: race_ok_def)

end

end
