(* ===== verification/SqlStore.thy ===== *)
theory SqlStore
  imports JournalModels
begin

section \<open>The durable journal\<close>

text \<open>
  The journal of \<open>persistence/sqlite_v2.py\<close>: one SQLite database shared by all executions, and
  the repository that \<open>bind_execution\<close> hands out for one of them. A table is the list of its rows;
  \<open>INSERT\<close> checks the keys, foreign keys and \<open>CHECK\<close>s of the table's declaration and raises
  \<open>sqlite3.IntegrityError\<close> when one fails; \<open>fetchone\<close> takes the first row selected. A transaction
  either commits the database its body ends with or, on any exception, leaves the database as it
  was. An integer bound to a statement must fit in 64 bits. Failures of the disk are not modelled,
  and neither is the \<open>integrity_revision\<close> that only foreign writes to the tables change.

  A \<open>BLOB\<close> is a \<open>blob\<close>: the canonical JSON text of a value, another text that parses to a value, or
  anything else. The SHA-256 digest is the argument \<open>sha\<close>.

  The lemmas show that the tables always hold the encoding of one append-only log per execution,
  that \<open>append\<close> implements appending to that log, replays included, that pages read it back, and
  that executions do not see each other.
\<close>

subsection \<open>Tables\<close>

datatype blob = Canon pyval | Loose pyval | Octets string

definition canonical_json_bytes :: "pyval \<Rightarrow> blob" where
  "canonical_json_bytes v = Canon (canonical v)"

fun json_loads :: "blob \<Rightarrow> pyval option" where
  "json_loads (Canon v) = Some v"
| "json_loads (Loose v) = Some v"
| "json_loads (Octets s) = None"

record operation_row =
  ow_execution_id :: string
  ow_operation_id :: string
  ow_payload_sha256 :: string
  ow_target_kind :: string
  ow_target_key :: string

record event_row =
  ew_execution_id :: string
  ew_store_seq :: int
  ew_event_id :: string
  ew_generation_id :: string
  ew_attempt_id :: string
  ew_event_type :: string
  ew_operation_id :: string
  ew_event_json :: blob
  ew_event_sha256 :: string

record receipt_row =
  rw_execution_id :: string
  rw_store_seq :: int
  rw_receipt_kind :: string
  rw_generation_id :: string
  rw_attempt_id :: string
  rw_call_id :: "string option"
  rw_iteration :: "int option"

text \<open>
  \<open>_subject_key\<close>: the columns execution, generation, attempt, iteration, envelope digest, route and
  retry ordinal that the three tables of provider requests share.
\<close>

type_synonym subject_key = "string \<times> string \<times> string \<times> int \<times> string \<times> string \<times> int"

record lease_row =
  lw_key :: subject_key
  lw_revision :: int
  lw_operation_id :: string
  lw_lease_json :: blob
  lw_lease_sha256 :: string

record artifact_row =
  aw_execution_id :: string
  aw_artifact_id :: string
  aw_revision :: int
  aw_logical_kind :: string
  aw_logical_key :: string
  aw_object_sha256 :: string
  aw_media_type :: string
  aw_byte_length :: int
  aw_preview :: string
  aw_operation_id :: string
  aw_artifact_json :: blob
  aw_record_sha256 :: string

record store_db =
  db_executions :: "(string \<times> int) list"
  db_operations :: "operation_row list"
  db_events :: "event_row list"
  db_receipts :: "receipt_row list"
  db_objects :: "(string \<times> int) list"
  db_artifacts :: "artifact_row list"
  db_lease_revisions :: "lease_row list"
  db_lease_heads :: "(subject_key \<times> int) list"
  db_result_receipts :: "(subject_key \<times> int) list"

definition empty_db :: store_db where
  "empty_db = \<lparr>db_executions = [], db_operations = [], db_events = [], db_receipts = [], db_objects = [], db_artifacts = [],
     db_lease_revisions = [], db_lease_heads = [], db_result_receipts = []\<rparr>"

subsection \<open>Statements and transactions\<close>

type_synonym 'a tx = "store_db \<Rightarrow> (py_exc, 'a \<times> store_db) res"

definition bindt :: "'a tx \<Rightarrow> ('a \<Rightarrow> 'b tx) \<Rightarrow> 'b tx" where
  "bindt m f db = bindr (m db) (\<lambda>(x, db'). f x db')"

definition ret :: "'a \<Rightarrow> 'a tx" where
  "ret x db = Inr (x, db)"

definition raise :: "py_exc \<Rightarrow> 'a tx" where
  "raise e db = Inl e"

definition lift_res :: "(py_exc, 'a) res \<Rightarrow> 'a tx" where
  "lift_res r db = bindr r (\<lambda>x. Inr (x, db))"

definition select :: "(store_db \<Rightarrow> 'a) \<Rightarrow> 'a tx" where
  "select q db = Inr (q db, db)"

definition sqlite_integrity :: "string \<Rightarrow> py_exc" where
  "sqlite_integrity m = DomainExc ''sqlite3.IntegrityError'' m"

definition store_integrity :: "string \<Rightarrow> py_exc" where
  "store_integrity m = DomainExc ''SQLiteContextV2StoreIntegrityError'' m"

definition journal_conflict :: "string \<Rightarrow> py_exc" where
  "journal_conflict m = DomainExc ''JournalConflictError'' m"

definition journal_scope :: "string \<Rightarrow> py_exc" where
  "journal_scope m = DomainExc ''JournalScopeError'' m"

definition journal_repository :: "string \<Rightarrow> py_exc" where
  "journal_repository m = DomainExc ''JournalRepositoryError'' m"

text \<open>\<open>except sqlite3.IntegrityError\<close> around a transaction.\<close>

definition catch_integrity :: "py_exc \<Rightarrow> py_exc \<Rightarrow> py_exc" where
  "catch_integrity e x = (case x of DomainExc c m \<Rightarrow> if c = ''sqlite3.IntegrityError'' then e else x | _ \<Rightarrow> x)"

definition transaction :: "(py_exc \<Rightarrow> py_exc) \<Rightarrow> 'a tx \<Rightarrow> store_db \<Rightarrow> (py_exc, 'a) res \<times> store_db" where
  "transaction handler body db =
     (case body db of Inl e \<Rightarrow> (Inl (handler e), db) | Inr (x, db') \<Rightarrow> (Inr x, db'))"

definition max_sql_int :: int where "max_sql_int = 2 ^ 63 - 1"

definition bind_int :: "int \<Rightarrow> unit tx" where
  "bind_int n = (if - max_sql_int - 1 \<le> n \<and> n \<le> max_sql_int then ret ()
     else raise (DomainExc ''OverflowError'' ''Python int too large to convert to SQLite INTEGER''))"

text \<open>A failing constraint of an \<open>INSERT\<close>.\<close>

definition require :: "bool \<Rightarrow> string \<Rightarrow> unit tx" where
  "require b m = (if b then ret () else raise (sqlite_integrity m))"

definition update_db :: "(store_db \<Rightarrow> store_db) \<Rightarrow> unit tx" where
  "update_db f db = Inr ((), f db)"

definition has_execution :: "store_db \<Rightarrow> string \<Rightarrow> bool" where
  "has_execution db ex = (map_of (db_executions db) ex \<noteq> None)"

definition operation_row :: "string \<Rightarrow> string \<Rightarrow> store_db \<Rightarrow> operation_row option" where
  "operation_row ex opid db = find (\<lambda>r. ow_execution_id r = ex \<and> ow_operation_id r = opid) (db_operations db)"

definition insert_operation :: "operation_row \<Rightarrow> unit tx" where
  "insert_operation r =
     bindt (select (\<lambda>db. operation_row (ow_execution_id r) (ow_operation_id r) db = None)) (\<lambda>fresh.
     bindt (require fresh ''UNIQUE constraint failed: operations.execution_id, operations.operation_id'') (\<lambda>_.
     bindt (select (\<lambda>db. has_execution db (ow_execution_id r))) (\<lambda>known.
     bindt (require known ''FOREIGN KEY constraint failed'') (\<lambda>_.
       update_db (\<lambda>db. db\<lparr>db_operations := db_operations db @ [r]\<rparr>)))))"

definition event_clash :: "event_row \<Rightarrow> event_row \<Rightarrow> bool" where
  "event_clash r q = (ew_execution_id r = ew_execution_id q \<and>
     (ew_store_seq r = ew_store_seq q \<or> ew_event_id r = ew_event_id q \<or> ew_operation_id r = ew_operation_id q))"

definition insert_event :: "event_row \<Rightarrow> unit tx" where
  "insert_event r =
     bindt (bind_int (ew_store_seq r)) (\<lambda>_.
     bindt (require (ew_store_seq r \<ge> 1) ''CHECK constraint failed: store_seq >= 1'') (\<lambda>_.
     bindt (select (\<lambda>db. \<exists>q \<in> set (db_events db). event_clash r q)) (\<lambda>clash.
     bindt (require (\<not> clash) ''UNIQUE constraint failed: events'') (\<lambda>_.
     bindt (select (\<lambda>db. operation_row (ew_execution_id r) (ew_operation_id r) db \<noteq> None)) (\<lambda>known.
     bindt (require known ''FOREIGN KEY constraint failed'') (\<lambda>_.
       update_db (\<lambda>db. db\<lparr>db_events := db_events db @ [r]\<rparr>)))))))"

definition receipt_shape :: "receipt_row \<Rightarrow> bool" where
  "receipt_shape r =
     (rw_receipt_kind r = ''tool_execution'' \<and> rw_call_id r \<noteq> None \<and> rw_iteration r = None \<or>
      rw_receipt_kind r \<in> {''tool_catalog'', ''provider_wire''} \<and> rw_call_id r = None \<and> rw_iteration r \<noteq> None)"

definition insert_receipt :: "receipt_row \<Rightarrow> unit tx" where
  "insert_receipt r =
     bindt (bind_int (case rw_iteration r of None \<Rightarrow> 0 | Some n \<Rightarrow> n)) (\<lambda>_.
     bindt (require (receipt_shape r) ''CHECK constraint failed: event_receipts'') (\<lambda>_.
     bindt (select (\<lambda>db. \<exists>q \<in> set (db_receipts db). rw_execution_id q = rw_execution_id r \<and>
         rw_store_seq q = rw_store_seq r \<and> rw_receipt_kind q = rw_receipt_kind r)) (\<lambda>clash.
     bindt (require (\<not> clash) ''UNIQUE constraint failed: event_receipts'') (\<lambda>_.
     bindt (select (\<lambda>db. \<exists>q \<in> set (db_events db). ew_execution_id q = rw_execution_id r \<and> ew_store_seq q = rw_store_seq r))
       (\<lambda>known.
     bindt (require known ''FOREIGN KEY constraint failed'') (\<lambda>_.
       update_db (\<lambda>db. db\<lparr>db_receipts := db_receipts db @ [r]\<rparr>)))))))"

text \<open>\<open>INSERT OR IGNORE INTO executions(execution_id)\<close>, with the default head 1.\<close>

definition ensure_execution :: "string \<Rightarrow> unit tx" where
  "ensure_execution ex =
     update_db (\<lambda>db. if has_execution db ex then db else db\<lparr>db_executions := db_executions db @ [(ex, 1)]\<rparr>)"

text \<open>The conditional \<open>UPDATE executions\<close>, with the number of rows it changed.\<close>

definition advance_head :: "string \<Rightarrow> int \<Rightarrow> nat tx" where
  "advance_head ex seq =
     bindt (bind_int (seq + 1)) (\<lambda>_ db.
       let hit = (\<lambda>p. fst p = ex \<and> snd p = seq) in
       Inr (length (filter hit (db_executions db)),
            db\<lparr>db_executions := map (\<lambda>p. if hit p then (ex, seq + 1) else p) (db_executions db)\<rparr>))"

definition bind_execution :: "pyval \<Rightarrow> store_db \<Rightarrow> (py_exc, string) res \<times> store_db" where
  "bind_execution v db =
     (case required_text ''execution_id'' 256 True v of
        Inl e \<Rightarrow> (Inl e, db)
      | Inr ex \<Rightarrow> transaction id (bindt (ensure_execution ex) (\<lambda>_. ret ex)) db)"

subsection \<open>Operations and events\<close>

definition claim_operation ::
  "string \<Rightarrow> operation_ref \<Rightarrow> string \<Rightarrow> string \<Rightarrow> (string \<Rightarrow> py_exc) \<Rightarrow> bool tx" where
  "claim_operation ex opr kind key conflict =
     bindt (select (operation_row ex (op_operation_id opr))) (\<lambda>previous.
       case previous of
         Some r \<Rightarrow>
           if ow_payload_sha256 r = op_payload_sha256 opr \<and> ow_target_kind r = kind \<and> ow_target_key r = key then ret False
           else raise (conflict ''operation payload or durable target changed'')
       | None \<Rightarrow>
           bindt (insert_operation \<lparr>ow_execution_id = ex, ow_operation_id = op_operation_id opr,
               ow_payload_sha256 = op_payload_sha256 opr, ow_target_kind = kind, ow_target_key = key\<rparr>) (\<lambda>_. ret True))"

definition request_matches_event :: "append_request \<Rightarrow> journal_event \<Rightarrow> bool" where
  "request_matches_event q e =
     (rq_event_id q = ev_event_id e \<and> rq_event_type q = ev_event_type e \<and> rq_attempt q = ev_attempt e \<and>
      rq_operation q = ev_operation e \<and> py_eq (PyDict (rq_payload q)) (PyDict (ev_payload e)) \<and>
      rq_resource_refs q = ev_resource_refs e)"

definition scope_attempt :: "string \<Rightarrow> attempt_ref \<Rightarrow> (string \<Rightarrow> py_exc) \<Rightarrow> (py_exc, unit) res" where
  "scope_attempt ex a err =
     (if gr_execution_id (at_generation a) \<noteq> ex then Inl (err ''attempt belongs to a foreign execution scope'') else Inr ())"

definition event_from_row :: "(blob \<Rightarrow> string) \<Rightarrow> string \<Rightarrow> event_row \<Rightarrow> store_db \<Rightarrow> (py_exc, journal_event) res" where
  "event_from_row sha ex r db =
     (if sha (ew_event_json r) \<noteq> ew_event_sha256 r then Inl (store_integrity ''journal event digest changed on disk'')
      else case json_loads (ew_event_json r) of
        None \<Rightarrow> Inl (store_integrity ''journal event record is malformed'')
      | Some decoded \<Rightarrow>
          (case journal_event_from_dict decoded of
             Inl _ \<Rightarrow> Inl (store_integrity ''journal event record is malformed'')
           | Inr e \<Rightarrow>
               if canonical_json_bytes (journal_event_to_dict e) \<noteq> ew_event_json r
               then Inl (store_integrity ''journal event is not canonical'')
               else if gr_execution_id (at_generation (ev_attempt e)) \<noteq> ex \<or> ev_store_seq e \<noteq> ew_store_seq r \<or>
                       ev_event_id e \<noteq> ew_event_id r \<or>
                       gr_generation_id (at_generation (ev_attempt e)) \<noteq> ew_generation_id r \<or>
                       at_attempt_id (ev_attempt e) \<noteq> ew_attempt_id r \<or> ev_event_type e \<noteq> ew_event_type r \<or>
                       op_operation_id (ev_operation e) \<noteq> ew_operation_id r
               then Inl (store_integrity ''journal event indexed fields changed'')
               else (case operation_row ex (op_operation_id (ev_operation e)) db of
                       None \<Rightarrow> Inl (store_integrity ''journal operation payload or target changed'')
                     | Some p \<Rightarrow>
                         if ow_payload_sha256 p \<noteq> op_payload_sha256 (ev_operation e) \<or> ow_target_kind p \<noteq> ''journal_event'' \<or>
                            ow_target_key p \<noteq> ev_event_id e
                         then Inl (store_integrity ''journal operation payload or target changed'') else Inr e)))"

definition receipt_subject :: "journal_event \<Rightarrow> (py_exc, (string \<times> string option \<times> int option) option) res" where
  "receipt_subject e =
     (let iteration = dget (ev_payload e) ''iteration'';
          iterated = (\<lambda>kind m. case iteration of
             PyInt n \<Rightarrow> if n < 0 then Inl (journal_repository m) else Inr (Some (kind, None, Some n))
           | _ \<Rightarrow> Inl (journal_repository m)) in
      if ev_event_type e \<in> set tool_execution_receipt_types then
        bindr (required_text ''call_id'' 256 True (dget (ev_payload e) ''call_id'')) (\<lambda>c.
          Inr (Some (''tool_execution'', Some c, None)))
      else if ev_event_type e = ''tool.catalog_snapshot''
      then iterated ''tool_catalog'' ''tool catalog receipt iteration is invalid''
      else if ev_event_type e = ''provider.wire_snapshot''
      then iterated ''provider_wire'' ''provider wire receipt iteration is invalid''
      else Inr None)"

definition append_result_for :: "journal_event \<Rightarrow> bool \<Rightarrow> (py_exc, append_result) res" where
  "append_result_for e dup =
     bindr (mk_event_cursor (PyInt (ev_store_seq e)) (PyStr (ev_event_id e))) (\<lambda>c.
       mk_append_result (Inl e) (Inl c) (PyBool dup))"

definition replayed_append :: "(blob \<Rightarrow> string) \<Rightarrow> string \<Rightarrow> append_request \<Rightarrow> append_result option tx" where
  "replayed_append sha ex q =
     bindt (select (operation_row ex (op_operation_id (rq_operation q)))) (\<lambda>previous.
       case previous of
         None \<Rightarrow> ret None
       | Some p \<Rightarrow>
           if ow_payload_sha256 p \<noteq> op_payload_sha256 (rq_operation q) \<or> ow_target_kind p \<noteq> ''journal_event'' \<or>
              ow_target_key p \<noteq> rq_event_id q
           then raise (journal_conflict ''operation payload or event target changed'')
           else bindt (select (\<lambda>db. find (\<lambda>r. ew_execution_id r = ex \<and> ew_operation_id r = op_operation_id (rq_operation q))
                        (db_events db))) (\<lambda>found.
             case found of
               None \<Rightarrow> raise (store_integrity ''journal operation has no event'')
             | Some r \<Rightarrow>
                 bindt (bindt (select (event_from_row sha ex r)) lift_res) (\<lambda>e.
                   if \<not> request_matches_event q e
                   then raise (journal_conflict ''operation replay changed the event payload'')
                   else bindt (lift_res (append_result_for e True)) (\<lambda>x. ret (Some x)))))"

definition event_row_of :: "(blob \<Rightarrow> string) \<Rightarrow> string \<Rightarrow> journal_event \<Rightarrow> event_row" where
  "event_row_of sha ex e =
     (let json = canonical_json_bytes (journal_event_to_dict e) in
      \<lparr>ew_execution_id = ex, ew_store_seq = ev_store_seq e, ew_event_id = ev_event_id e,
       ew_generation_id = gr_generation_id (at_generation (ev_attempt e)), ew_attempt_id = at_attempt_id (ev_attempt e),
       ew_event_type = ev_event_type e, ew_operation_id = op_operation_id (ev_operation e),
       ew_event_json = json, ew_event_sha256 = sha json\<rparr>)"

definition receipt_row_of :: "string \<Rightarrow> journal_event \<Rightarrow> string \<times> string option \<times> int option \<Rightarrow> receipt_row" where
  "receipt_row_of ex e r =
     (case r of (kind, call, iteration) \<Rightarrow>
      \<lparr>rw_execution_id = ex, rw_store_seq = ev_store_seq e, rw_receipt_kind = kind,
       rw_generation_id = gr_generation_id (at_generation (ev_attempt e)), rw_attempt_id = at_attempt_id (ev_attempt e),
       rw_call_id = call, rw_iteration = iteration\<rparr>)"

definition append_with_connection :: "(blob \<Rightarrow> string) \<Rightarrow> string \<Rightarrow> append_request \<Rightarrow> append_result tx" where
  "append_with_connection sha ex q =
     bindt (select (\<lambda>db. \<exists>r \<in> set (db_events db). ew_execution_id r = ex \<and> ew_event_id r = rq_event_id q)) (\<lambda>taken.
       if taken then raise (journal_conflict ''event id belongs to another operation'') else
     bindt (select (\<lambda>db. map_of (db_executions db) ex)) (\<lambda>head.
       case head of
         None \<Rightarrow> raise (store_integrity ''execution journal head is missing'')
       | Some seq \<Rightarrow>
     bindt (lift_res (mk_journal_event (PyStr (rq_event_id q)) (PyStr (rq_event_type q)) (Inl (rq_attempt q))
         (Inl (rq_operation q)) (PyInt seq) (PyDict (rq_payload q)) (Inl (rq_resource_refs q)))) (\<lambda>e.
     bindt (lift_res (receipt_subject e)) (\<lambda>receipt.
     bindt (claim_operation ex (rq_operation q) ''journal_event'' (rq_event_id q) journal_conflict) (\<lambda>_.
     bindt (insert_event (event_row_of sha ex e)) (\<lambda>_.
     bindt (case receipt of None \<Rightarrow> ret () | Some r \<Rightarrow> insert_receipt (receipt_row_of ex e r)) (\<lambda>_.
     bindt (advance_head ex seq) (\<lambda>updated.
       if updated \<noteq> 1 then raise (journal_conflict ''journal sequence allocation conflicted'')
       else lift_res (append_result_for e False)))))))))"

definition append_event ::
  "(blob \<Rightarrow> string) \<Rightarrow> string \<Rightarrow> append_request \<Rightarrow> store_db \<Rightarrow> (py_exc, append_result) res \<times> store_db" where
  "append_event sha ex q db =
     (case scope_attempt ex (rq_attempt q) journal_scope of
        Inl e \<Rightarrow> (Inl e, db)
      | Inr _ \<Rightarrow>
          transaction (catch_integrity (journal_conflict ''journal operation or event conflicted''))
            (bindt (ensure_execution ex) (\<lambda>_.
             bindt (replayed_append sha ex q) (\<lambda>replayed.
               case replayed of Some x \<Rightarrow> ret x | None \<Rightarrow> append_with_connection sha ex q))) db)"

subsection \<open>Reading\<close>

definition event_rows_after :: "string \<Rightarrow> int \<Rightarrow> int \<Rightarrow> event_row list tx" where
  "event_rows_after ex seq limit =
     bindt (bind_int seq) (\<lambda>_. bindt (bind_int limit) (\<lambda>_.
       select (\<lambda>db. take (nat limit)
         (sort_key ew_store_seq (filter (\<lambda>r. ew_execution_id r = ex \<and> ew_store_seq r > seq) (db_events db))))))"

definition positive_int :: "string \<Rightarrow> int \<Rightarrow> (py_exc, int) res" where
  "positive_int name n = (if n \<le> 0 then Inl (ValueExc (name @ '' must be a positive integer'')) else Inr n)"

definition nonnegative_int :: "string \<Rightarrow> int \<Rightarrow> (py_exc, int) res" where
  "nonnegative_int name n = (if n < 0 then Inl (ValueExc (name @ '' must be a non-negative integer'')) else Inr n)"

definition decode_rows :: "(blob \<Rightarrow> string) \<Rightarrow> string \<Rightarrow> event_row list \<Rightarrow> journal_event list tx" where
  "decode_rows sha ex rows = bindt (select (\<lambda>db. mapr (\<lambda>r. event_from_row sha ex r db) rows)) lift_res"

text \<open>The sequence number a page starts after: the cursor has to name an event of this execution.\<close>

definition read_start :: "string \<Rightarrow> event_cursor option \<Rightarrow> int tx" where
  "read_start ex after =
     (case after of
        None \<Rightarrow> ret 0
      | Some c \<Rightarrow>
          bindt (bind_int (ec_store_seq c)) (\<lambda>_.
          bindt (select (\<lambda>db. find (\<lambda>r. ew_execution_id r = ex \<and> ew_store_seq r = ec_store_seq c) (db_events db))) (\<lambda>r.
            if map_option ew_event_id r \<noteq> Some (ec_event_id c)
            then raise (journal_scope ''cursor does not belong to this execution scope'')
            else ret (ec_store_seq c))))"

definition read_page :: "(blob \<Rightarrow> string) \<Rightarrow> string \<Rightarrow> event_cursor option \<Rightarrow> int \<Rightarrow> int \<Rightarrow> journal_page tx" where
  "read_page sha ex after start n =
     bindt (event_rows_after ex start (n + 1)) (\<lambda>rows.
     bindt (decode_rows sha ex (take (nat n) rows)) (\<lambda>events.
     bindt (if events = [] then ret after
            else bindt (lift_res (mk_event_cursor (PyInt (ev_store_seq (last events))) (PyStr (ev_event_id (last events)))))
              (\<lambda>c. ret (Some c))) (\<lambda>cursor.
       lift_res (mk_journal_page (Inl events) (map_option Inl cursor) (PyBool (int (length rows) > n))))))"

definition read_events ::
  "(blob \<Rightarrow> string) \<Rightarrow> string \<Rightarrow> event_cursor option \<Rightarrow> int \<Rightarrow> store_db \<Rightarrow> (py_exc, journal_page) res" where
  "read_events sha ex after limit db =
     bindr (positive_int ''limit'' limit) (\<lambda>n.
       fst (transaction id (bindt (read_start ex after) (\<lambda>start. read_page sha ex after start n)) db))"

definition lookup_receipt_events ::
  "(blob \<Rightarrow> string) \<Rightarrow> string \<Rightarrow> attempt_ref \<Rightarrow> string \<Rightarrow> string option \<Rightarrow> int option \<Rightarrow> nat \<Rightarrow> store_db \<Rightarrow>
   (py_exc, journal_event list \<times> bool) res" where
  "lookup_receipt_events sha ex a kind call iteration maximum db =
     bindr (scope_attempt ex a journal_scope) (\<lambda>_.
       fst (transaction id
         (bindt (bind_int (case iteration of None \<Rightarrow> 0 | Some n \<Rightarrow> n)) (\<lambda>_.
          bindt (select (\<lambda>db. take (maximum + 1)
            (concat (map (\<lambda>r. filter (\<lambda>e. ew_execution_id e = rw_execution_id r \<and> ew_store_seq e = rw_store_seq r) (db_events db))
              (sort_key rw_store_seq (filter (\<lambda>r. rw_execution_id r = ex \<and>
                 rw_generation_id r = gr_generation_id (at_generation a) \<and> rw_attempt_id r = at_attempt_id a \<and>
                 rw_receipt_kind r = kind \<and> rw_call_id r = call \<and> rw_iteration r = iteration) (db_receipts db))))))) (\<lambda>rows.
          bindt (decode_rows sha ex (take maximum rows)) (\<lambda>events.
            ret (events, length rows > maximum))))) db))"

definition lookup_tool_execution_receipts ::
  "(blob \<Rightarrow> string) \<Rightarrow> string \<Rightarrow> attempt_ref \<Rightarrow> pyval \<Rightarrow> store_db \<Rightarrow> (py_exc, tool_receipt_lookup) res" where
  "lookup_tool_execution_receipts sha ex a call db =
     bindr (required_text ''call_id'' 256 True call) (\<lambda>c.
     bindr (lookup_receipt_events sha ex a ''tool_execution'' (Some c) None max_tool_execution_receipts db) (\<lambda>(events, overflow).
       mk_tool_receipt_lookup (Inl a) (PyStr c) (Inl events) (PyBool overflow)))"

subsection \<open>Running a transaction\<close>

named_theorems tx_simps "evaluation of transaction bodies"

definition sql_range :: "int \<Rightarrow> bool" where
  "sql_range n = (- max_sql_int - 1 \<le> n \<and> n \<le> max_sql_int)"

definition overflow_error :: py_exc where
  "overflow_error = DomainExc ''OverflowError'' ''Python int too large to convert to SQLite INTEGER''"

lemma tx_bind [tx_simps]:
  "bindt (select q) f db = f (q db) db"
  "bindt (ret x) f db = f x db"
  "bindt (raise e) f db = Inl e"
  "bindt (lift_res r) f db = bindr r (\<lambda>x. f x db)"
  "bindt (\<lambda>db. Inr (h db)) f db = f (fst (h db)) (snd (h db))"
  by (simp_all add: bindt_def select_def ret_def raise_def lift_res_def bindr_def split: sum.split prod.split)

lemma tx_bind_unit [tx_simps]:
  "bindt (update_db g) f db = f () (g db)"
  "bindt (require b msg) f db = (if b then f () db else Inl (sqlite_integrity msg))"
  "bindt (bind_int n) f db = (if sql_range n then f () db else Inl overflow_error)"
  by (simp_all add: bindt_def update_db_def require_def bind_int_def sql_range_def overflow_error_def ret_def raise_def)

lemma tx_bind_assoc [tx_simps]: "bindt (bindt m g) f db = bindt m (\<lambda>x. bindt (g x) f) db"
  by (auto simp: bindt_def bindr_def split: sum.split)

lemma tx_bind_cases [tx_simps]:
  "bindt (if b then m else n) f db = (if b then bindt m f db else bindt n f db)"
  "bindt (case x of None \<Rightarrow> m | Some y \<Rightarrow> k y) f db = (case x of None \<Rightarrow> bindt m f db | Some y \<Rightarrow> bindt (k y) f db)"
  by (simp_all split: option.split)

lemma tx_end [tx_simps]:
  "ret x db = Inr (x, db)" "raise e db = Inl e" "lift_res r db = bindr r (\<lambda>x. Inr (x, db))" "select q db = Inr (q db, db)"
  by (simp_all add: ret_def raise_def lift_res_def select_def)

lemma tx_update [tx_simps]: "update_db g db = Inr ((), g db)"
  by (simp add: update_db_def)

text \<open>Any body: what holds of the database of every successful run.\<close>

lemma bindt_Inr: "bindt m f db = Inr (y, db'') \<longleftrightarrow> (\<exists>x db'. m db = Inr (x, db') \<and> f x db' = Inr (y, db''))"
  by (auto simp: bindt_def bindr_eq_Inr split: prod.splits)

definition tx_keeps :: "(store_db \<Rightarrow> store_db \<Rightarrow> bool) \<Rightarrow> 'a tx \<Rightarrow> bool" where
  "tx_keeps R m \<longleftrightarrow> (\<forall>db x db'. m db = Inr (x, db') \<longrightarrow> R db db')"

lemma transaction_keeps:
  assumes "tx_keeps R m" "\<And>db. R db db"
  shows "R db (snd (transaction h m db))"
proof (cases "m db")
  case (Inr p)
  then show ?thesis using assms by (cases p) (auto simp: transaction_def tx_keeps_def)
qed (simp add: transaction_def assms)

named_theorems keeps "relations that transaction bodies respect"

lemma keeps_bindt [keeps]:
  assumes "transp R" "tx_keeps R m" "\<And>x. tx_keeps R (f x)"
  shows "tx_keeps R (bindt m f)"
  using assms transpD [OF assms(1)] by (fastforce simp: tx_keeps_def bindt_Inr)

lemma keeps_pure [keeps]:
  assumes "reflp R"
  shows "tx_keeps R (ret x)" "tx_keeps R (raise e)" "tx_keeps R (lift_res r)" "tx_keeps R (select q)"
    "tx_keeps R (require b msg)" "tx_keeps R (bind_int n)"
  using reflpD [OF assms]
  by (auto simp: tx_keeps_def ret_def raise_def lift_res_def select_def require_def bind_int_def bindr_eq_Inr)

lemma keeps_update: "(\<And>db. R db (g db)) \<Longrightarrow> tx_keeps R (update_db g)"
  by (auto simp: tx_keeps_def update_db_def)

subsection \<open>Executions do not see each other\<close>

text \<open>The rows of one execution; the shared objects belong to none.\<close>

definition execution_view :: "string \<Rightarrow> store_db \<Rightarrow> store_db" where
  "execution_view ex db =
     db\<lparr>db_executions := filter (\<lambda>p. fst p = ex) (db_executions db),
        db_operations := filter (\<lambda>r. ow_execution_id r = ex) (db_operations db),
        db_events := filter (\<lambda>r. ew_execution_id r = ex) (db_events db),
        db_receipts := filter (\<lambda>r. rw_execution_id r = ex) (db_receipts db),
        db_objects := [],
        db_artifacts := filter (\<lambda>r. aw_execution_id r = ex) (db_artifacts db),
        db_lease_revisions := filter (\<lambda>r. fst (lw_key r) = ex) (db_lease_revisions db),
        db_lease_heads := filter (\<lambda>r. fst (fst r) = ex) (db_lease_heads db),
        db_result_receipts := filter (\<lambda>r. fst (fst r) = ex) (db_result_receipts db)\<rparr>"

definition same_view :: "string \<Rightarrow> store_db \<Rightarrow> store_db \<Rightarrow> bool" where
  "same_view ex db db' \<longleftrightarrow> execution_view ex db' = execution_view ex db"

lemma same_view_order: "reflp (same_view ex)" "transp (same_view ex)"
  by (simp_all add: same_view_def reflp_def transp_def)

lemmas view_keeps = keeps_bindt [OF same_view_order(2)] keeps_pure [OF same_view_order(1)]

lemma keeps_if: "\<lbrakk>b \<Longrightarrow> tx_keeps R m; \<not> b \<Longrightarrow> tx_keeps R n\<rbrakk> \<Longrightarrow> tx_keeps R (if b then m else n)"
  by simp

lemma keeps_option:
  "\<lbrakk>tx_keeps R m; \<And>y. tx_keeps R (k y)\<rbrakk> \<Longrightarrow> tx_keeps R (case x of None \<Rightarrow> m | Some y \<Rightarrow> k y)"
  by (simp split: option.split)

lemma insert_operation_view: "ow_execution_id r \<noteq> ex \<Longrightarrow> tx_keeps (same_view ex) (insert_operation r)"
  unfolding insert_operation_def by (intro view_keeps keeps_update) (simp add: same_view_def execution_view_def)

lemma insert_event_view: "ew_execution_id r \<noteq> ex \<Longrightarrow> tx_keeps (same_view ex) (insert_event r)"
  unfolding insert_event_def by (intro view_keeps keeps_update) (simp add: same_view_def execution_view_def)

lemma insert_receipt_view: "rw_execution_id r \<noteq> ex \<Longrightarrow> tx_keeps (same_view ex) (insert_receipt r)"
  unfolding insert_receipt_def by (intro view_keeps keeps_update) (simp add: same_view_def execution_view_def)

lemma ensure_execution_view: "ex' \<noteq> ex \<Longrightarrow> tx_keeps (same_view ex) (ensure_execution ex')"
  unfolding ensure_execution_def by (intro keeps_update) (simp add: same_view_def execution_view_def)

lemma filter_other_head:
  "ex' \<noteq> ex \<Longrightarrow> filter (\<lambda>p. fst p = ex) (map (\<lambda>p. if fst p = ex' \<and> snd p = seq then (ex', n) else p) xs) =
     filter (\<lambda>p. fst p = ex) xs"
  by (induction xs) auto

lemma advance_head_view: "ex' \<noteq> ex \<Longrightarrow> tx_keeps (same_view ex) (advance_head ex' seq)"
  unfolding advance_head_def
  by (intro view_keeps) (auto simp: tx_keeps_def same_view_def execution_view_def Let_def filter_other_head)

lemma claim_operation_view: "ex' \<noteq> ex \<Longrightarrow> tx_keeps (same_view ex) (claim_operation ex' opr kind key conflict)"
  unfolding claim_operation_def by (intro view_keeps keeps_option keeps_if insert_operation_view) simp

lemma append_with_connection_view: "ex' \<noteq> ex \<Longrightarrow> tx_keeps (same_view ex) (append_with_connection sha ex' q)"
  unfolding append_with_connection_def
  by (intro view_keeps keeps_option keeps_if claim_operation_view insert_event_view insert_receipt_view advance_head_view)
    (simp_all add: event_row_of_def receipt_row_of_def Let_def split: prod.split)

lemma replayed_append_view: "tx_keeps (same_view ex) (replayed_append sha ex' q)"
  unfolding replayed_append_def by (intro view_keeps keeps_option keeps_if)

lemma append_event_view:
  assumes "ex' \<noteq> ex"
  shows "execution_view ex (snd (append_event sha ex' q db)) = execution_view ex db"
proof -
  have "tx_keeps (same_view ex) (bindt (ensure_execution ex') (\<lambda>_. bindt (replayed_append sha ex' q) (\<lambda>replayed.
      case replayed of Some x \<Rightarrow> ret x | None \<Rightarrow> append_with_connection sha ex' q)))"
    by (intro view_keeps keeps_option ensure_execution_view append_with_connection_view replayed_append_view assms)
  from transaction_keeps [OF this] show ?thesis by (simp add: append_event_def same_view_def split: sum.split)
qed

subsection \<open>The log the tables hold\<close>

definition operation_row_of :: "string \<Rightarrow> operation_ref \<Rightarrow> string \<Rightarrow> string \<Rightarrow> operation_row" where
  "operation_row_of ex opr kind key = \<lparr>ow_execution_id = ex, ow_operation_id = op_operation_id opr,
     ow_payload_sha256 = op_payload_sha256 opr, ow_target_kind = kind, ow_target_key = key\<rparr>"

definition receipts_of :: "string \<Rightarrow> journal_event \<Rightarrow> receipt_row list" where
  "receipts_of ex e = (case receipt_subject e of Inr (Some r) \<Rightarrow> [receipt_row_of ex e r] | _ \<Rightarrow> [])"

abbreviation event_op :: "journal_event \<Rightarrow> string" where
  "event_op e \<equiv> op_operation_id (ev_operation e)"

text \<open>The log is well formed: valid events of the execution, numbered from one without a gap.\<close>

definition log_ok :: "string \<Rightarrow> journal_event list \<Rightarrow> bool" where
  "log_ok ex es \<longleftrightarrow>
     (\<forall>e \<in> set es. journal_event_ok e \<and> gr_execution_id (at_generation (ev_attempt e)) = ex) \<and>
     map ev_store_seq es = map int [1..<length es + 1] \<and>
     distinct (map ev_event_id es) \<and> distinct (map event_op es)"

definition journal_row :: "string \<Rightarrow> journal_event \<Rightarrow> operation_row" where
  "journal_row ex e = operation_row_of ex (ev_operation e) ''journal_event'' (ev_event_id e)"

definition holds_log :: "(blob \<Rightarrow> string) \<Rightarrow> string \<Rightarrow> store_db \<Rightarrow> journal_event list \<Rightarrow> bool" where
  "holds_log sha ex db es \<longleftrightarrow>
     log_ok ex es \<and>
     filter (\<lambda>p. fst p = ex) (db_executions db) \<in> (if es = [] then {[], [(ex, 1)]} else {[(ex, int (length es) + 1)]}) \<and>
     filter (\<lambda>r. ew_execution_id r = ex) (db_events db) = map (event_row_of sha ex) es \<and>
     filter (\<lambda>r. rw_execution_id r = ex) (db_receipts db) = concat (map (receipts_of ex) es) \<and>
     (\<forall>e \<in> set es. operation_row ex (event_op e) db = Some (journal_row ex e)) \<and>
     (\<forall>i p. operation_row ex i db = Some p \<and> ow_target_kind p = ''journal_event'' \<longrightarrow> i \<in> event_op ` set es)"

text \<open>The operations an execution has used for something other than its journal.\<close>

definition other_operations :: "string \<Rightarrow> store_db \<Rightarrow> string set" where
  "other_operations ex db =
     {i. \<exists>p. operation_row ex i db = Some p \<and> ow_target_kind p \<noteq> ''journal_event''}"

subsection \<open>The abstract journal\<close>

datatype append_outcome = Appended journal_event | Replayed journal_event | Conflict | Rejected py_exc

definition event_of :: "append_request \<Rightarrow> int \<Rightarrow> journal_event" where
  "event_of q n = \<lparr>ev_event_id = rq_event_id q, ev_event_type = rq_event_type q, ev_attempt = rq_attempt q,
     ev_operation = rq_operation q, ev_store_seq = n, ev_payload = rq_payload q, ev_resource_refs = rq_resource_refs q\<rparr>"

definition receipt_range :: "(string \<times> string option \<times> int option) option \<Rightarrow> bool" where
  "receipt_range r = (case r of Some (k, c, Some n) \<Rightarrow> sql_range n | _ \<Rightarrow> True)"

text \<open>
  Appending to a log: a known operation is answered from the log or conflicts, a used identity
  conflicts, everything else goes to the end with the next number.
\<close>

definition log_append :: "append_request \<Rightarrow> string set \<Rightarrow> journal_event list \<Rightarrow> append_outcome \<times> journal_event list" where
  "log_append q used es =
     (case find (\<lambda>e. event_op e = op_operation_id (rq_operation q)) es of
        Some e \<Rightarrow> (if request_matches_event q e then Replayed e else Conflict, es)
      | None \<Rightarrow>
          if op_operation_id (rq_operation q) \<in> used \<or> rq_event_id q \<in> ev_event_id ` set es then (Conflict, es)
          else let e = event_of q (int (length es) + 1) in
            (case receipt_subject e of
               Inl x \<Rightarrow> (Rejected x, es)
             | Inr r \<Rightarrow> if sql_range (int (length es) + 2) \<and> receipt_range r then (Appended e, es @ [e])
                       else (Rejected overflow_error, es)))"

fun outcome_of :: "(py_exc, append_result) res \<Rightarrow> append_outcome" where
  "outcome_of (Inr x) = (if res_duplicate x then Replayed (res_event x) else Appended (res_event x))"
| "outcome_of (Inl (DomainExc c m)) = (if c = ''JournalConflictError'' then Conflict else Rejected (DomainExc c m))"
| "outcome_of (Inl e) = Rejected e"

subsection \<open>Lookups in the tables of an execution\<close>

lemma find_filter: "(\<And>x. P x \<Longrightarrow> Q x) \<Longrightarrow> find P (filter Q xs) = find P xs"
  by (induction xs) auto

lemma find_map: "find P (map f xs) = map_option f (find (P \<circ> f) xs)"
  by (induction xs) auto

lemma find_append: "find P (xs @ ys) = (case find P xs of None \<Rightarrow> find P ys | Some x \<Rightarrow> Some x)"
  by (induction xs) auto

lemma find_distinct: "\<lbrakk>distinct (map f xs); x \<in> set xs\<rbrakk> \<Longrightarrow> find (\<lambda>y. f y = f x) xs = Some x"
  by (induction xs) auto

lemma map_of_filter_fst: "map_of xs k = map_of (filter (\<lambda>p. fst p = k) xs) k"
  by (induction xs) auto

lemma ex_filter: "(\<exists>x \<in> set xs. P x \<and> Q x) \<longleftrightarrow> (\<exists>x \<in> set (filter P xs). Q x)"
  by auto

lemma log_seq:
  assumes "log_ok ex es" "i < length es"
  shows "ev_store_seq (es ! i) = int i + 1"
proof -
  have "map ev_store_seq es ! i = map int [1..<length es + 1] ! i" using assms(1) by (simp only: log_ok_def)
  then show ?thesis using assms(2) by (simp del: upt_Suc)
qed

lemma log_seq_range: "\<lbrakk>log_ok ex es; e \<in> set es\<rbrakk> \<Longrightarrow> 1 \<le> ev_store_seq e \<and> ev_store_seq e \<le> int (length es)"
  using log_seq by (fastforce simp: in_set_conv_nth)

lemma holds_head:
  "holds_log sha ex db es \<Longrightarrow> map_of (db_executions db) ex = Some n \<Longrightarrow> n = int (length es) + 1"
  unfolding holds_log_def map_of_filter_fst [of "db_executions db"] by (auto split: if_splits)

lemma holds_event_rows:
  "holds_log sha ex db es \<Longrightarrow> (\<exists>r \<in> set (db_events db). ew_execution_id r = ex \<and> Q r) \<longleftrightarrow> (\<exists>e \<in> set es. Q (event_row_of sha ex e))"
  unfolding ex_filter holds_log_def by simp

lemma holds_find_event:
  "holds_log sha ex db es \<Longrightarrow>
   find (\<lambda>r. ew_execution_id r = ex \<and> Q r) (db_events db) = map_option (event_row_of sha ex) (find (\<lambda>e. Q (event_row_of sha ex e)) es)"
  using find_filter [of "\<lambda>r. ew_execution_id r = ex \<and> Q r" "\<lambda>r. ew_execution_id r = ex" "db_events db"]
  by (simp add: holds_log_def find_map comp_def event_row_of_def Let_def)

lemma event_from_row_of:
  assumes "holds_log sha ex db es" "e \<in> set es"
  shows "event_from_row sha ex (event_row_of sha ex e) db = Inr e"
proof -
  have "journal_event_ok e" "gr_execution_id (at_generation (ev_attempt e)) = ex" "operation_row ex (event_op e) db = Some (journal_row ex e)"
    using assms by (auto simp: holds_log_def log_ok_def)
  then show ?thesis
    by (simp add: event_from_row_def event_row_of_def Let_def canonical_json_bytes_def journal_event.canonical_trip journal_row_def
        operation_row_of_def)
qed

subsection \<open>Appending is appending to the log\<close>

definition ensured :: "string \<Rightarrow> store_db \<Rightarrow> store_db" where
  "ensured ex db = (if has_execution db ex then db else db\<lparr>db_executions := db_executions db @ [(ex, 1)]\<rparr>)"

lemma operation_row_executions [simp]: "operation_row ex i (db\<lparr>db_executions := xs\<rparr>) = operation_row ex i db"
  by (simp add: operation_row_def)

lemma operation_row_ensured [simp]: "operation_row ex i (ensured ex' db) = operation_row ex i db"
  by (simp add: ensured_def)

lemma has_execution_filter: "has_execution db ex \<longleftrightarrow> filter (\<lambda>p. fst p = ex) (db_executions db) \<noteq> []"
  by (auto simp: has_execution_def map_of_eq_None_iff filter_empty_conv)

lemma holds_ensured:
  assumes "holds_log sha ex db es"
  shows "holds_log sha ex (ensured ex db) es"
    and "filter (\<lambda>p. fst p = ex) (db_executions (ensured ex db)) = [(ex, int (length es) + 1)]"
  using assms by (auto simp: holds_log_def ensured_def has_execution_filter split: if_splits)

lemma single_head:
  "filter (\<lambda>p. fst p = ex) (db_executions db) = [(ex, n)] \<Longrightarrow> map_of (db_executions db) ex = Some n \<and> has_execution db ex"
  by (simp add: has_execution_def map_of_filter_fst [of "db_executions db"])

lemma journal_event_id: "journal_event_ok e \<Longrightarrow> required_text ''event_id'' 256 True (PyStr (ev_event_id e)) = Inr (ev_event_id e)"
  by (auto simp: journal_event_ok_def append_request_ok_def mk_append_request_def bindr_eq_Inr case_PyDict_Inr)

lemma event_cursor_built:
  "journal_event_ok e \<Longrightarrow> mk_event_cursor (PyInt (ev_store_seq e)) (PyStr (ev_event_id e)) = Inr (event_cursor_of e)"
  using journal_event_id by (simp add: mk_event_cursor_def bounded_int_def event_cursor_of_def journal_event_ok_def)

lemma event_result:
  "journal_event_ok e \<Longrightarrow> append_result_for e dup = Inr \<lparr>res_event = e, res_cursor = event_cursor_of e, res_duplicate = dup\<rparr>"
  by (simp add: append_result_for_def event_cursor_built mk_append_result_def, simp add: event_cursor_of_def)

lemma replayed_append_spec:
  assumes holds: "holds_log sha ex db es"
  shows "replayed_append sha ex q db =
    (case find (\<lambda>e. event_op e = op_operation_id (rq_operation q)) es of
       Some e \<Rightarrow>
         if request_matches_event q e
         then Inr (Some \<lparr>res_event = e, res_cursor = event_cursor_of e, res_duplicate = True\<rparr>, db)
         else Inl (journal_conflict (if rq_operation q = ev_operation e \<and> rq_event_id q = ev_event_id e
           then ''operation replay changed the event payload'' else ''operation payload or event target changed''))
     | None \<Rightarrow>
         if op_operation_id (rq_operation q) \<in> other_operations ex db
         then Inl (journal_conflict ''operation payload or event target changed'')
         else Inr (None, db))"
proof (cases "find (\<lambda>e. event_op e = op_operation_id (rq_operation q)) es")
  case (Some e)
  then have e: "e \<in> set es" "event_op e = op_operation_id (rq_operation q)" by (auto simp: find_Some_iff)
  have row: "operation_row ex (event_op e) db = Some (journal_row ex e)" and ok: "journal_event_ok e"
    using holds e(1) by (auto simp: holds_log_def log_ok_def)
  have found: "find (\<lambda>r. ew_execution_id r = ex \<and> ew_operation_id r = event_op e) (db_events db) = Some (event_row_of sha ex e)"
    using holds_find_event [OF holds, of "\<lambda>r. ew_operation_id r = event_op e"] Some e(2)
    by (simp add: event_row_of_def Let_def)
  have same: "rq_operation q = ev_operation e \<longleftrightarrow> op_payload_sha256 (ev_operation e) = op_payload_sha256 (rq_operation q)"
    using e(2) by (auto simp: operation_ref.equality)
  show ?thesis
    using row found same Some e(2) event_from_row_of [OF holds e(1)] event_result [OF ok]
    by (auto simp: replayed_append_def tx_simps journal_row_def operation_row_of_def request_matches_event_def)
next
  case None
  show ?thesis
  proof (cases "operation_row ex (op_operation_id (rq_operation q)) db")
    case (Some p)
    have "op_operation_id (rq_operation q) \<notin> event_op ` set es" using None by (auto simp: find_None_iff)
    then have "ow_target_kind p \<noteq> ''journal_event''" using holds Some by (auto simp: holds_log_def)
    then show ?thesis using None Some by (auto simp: replayed_append_def tx_simps other_operations_def)
  qed (use None in \<open>simp add: replayed_append_def tx_simps other_operations_def\<close>)
qed

text \<open>A free operation and a free event id: every constraint of the inserts holds.\<close>

definition appended_db :: "(blob \<Rightarrow> string) \<Rightarrow> string \<Rightarrow> journal_event \<Rightarrow> store_db \<Rightarrow> store_db" where
  "appended_db sha ex e db = db\<lparr>
     db_executions := map (\<lambda>p. if fst p = ex \<and> snd p = ev_store_seq e then (ex, ev_store_seq e + 1) else p) (db_executions db),
     db_operations := db_operations db @ [journal_row ex e],
     db_events := db_events db @ [event_row_of sha ex e],
     db_receipts := db_receipts db @ receipts_of ex e\<rparr>"

lemma receipt_branches:
  "(if p then bindr R (\<lambda>c. Inr (Some (K, Some c, None))) else if q then A else if r then B else Inr None) = Inr (Some (k, c, i))
   \<Longrightarrow> k = K \<and> c \<noteq> None \<and> i = None \<or> A = Inr (Some (k, c, i)) \<or> B = Inr (Some (k, c, i))"
  by (auto simp: bindr_eq_Inr split: if_splits)

lemma iterated_receipt:
  "(case v of PyInt n \<Rightarrow> if n < 0 then Inl x else Inr (Some (K, None, Some n)) | _ \<Rightarrow> Inl x) = Inr (Some (k, c, i))
   \<Longrightarrow> k = K \<and> c = None \<and> (\<exists>n \<ge> 0. i = Some n)"
  by (cases v) (auto split: if_splits)

lemma receipt_subject_shape:
  assumes "receipt_subject e = Inr (Some (k, c, i))"
  shows "k = ''tool_execution'' \<and> c \<noteq> None \<and> i = None \<or>
    (k = ''tool_catalog'' \<or> k = ''provider_wire'') \<and> c = None \<and> (\<exists>n \<ge> 0. i = Some n)"
  using receipt_branches [OF assms [unfolded receipt_subject_def Let_def]]
  by (elim disjE) (simp, (drule iterated_receipt, simp)+)

lemma receipt_row_shape: "receipt_subject e = Inr (Some (k, c, i)) \<Longrightarrow> receipt_shape (receipt_row_of ex e (k, c, i))"
  by (drule receipt_subject_shape) (elim disjE, simp_all add: receipt_shape_def receipt_row_of_def, auto)

lemma mk_event_of: "\<lbrakk>append_request_ok q; n \<ge> 1\<rbrakk> \<Longrightarrow>
   mk_journal_event (PyStr (rq_event_id q)) (PyStr (rq_event_type q)) (Inl (rq_attempt q)) (Inl (rq_operation q))
     (PyInt n) (PyDict (rq_payload q)) (Inl (rq_resource_refs q)) = Inr (event_of q n)"
  by (simp add: append_request_ok_def mk_journal_event_def bounded_int_def event_of_def)

lemma event_of_ok: "\<lbrakk>append_request_ok q; n \<ge> 1\<rbrakk> \<Longrightarrow> journal_event_ok (event_of q n)"
  by (cases q) (simp add: journal_event_ok_def event_of_def)

lemma sql_range_down: "\<lbrakk>sql_range (n + 1); 0 \<le> n\<rbrakk> \<Longrightarrow> sql_range n"
  by (simp add: sql_range_def max_sql_int_def)

lemma receipt_range_None [simp]: "receipt_range None"
  by (simp add: receipt_range_def)

lemma holds_receipt_seq:
  assumes "holds_log sha ex db es" "r \<in> set (db_receipts db)" "rw_execution_id r = ex"
  shows "rw_store_seq r \<le> int (length es)"
proof -
  have "r \<in> set (filter (\<lambda>r. rw_execution_id r = ex) (db_receipts db))" using assms(2,3) by simp
  then have "r \<in> set (concat (map (receipts_of ex) es))" using assms(1) by (simp only: holds_log_def)
  then obtain e where "e \<in> set es" "rw_store_seq r = ev_store_seq e"
    by (auto simp: receipts_of_def receipt_row_of_def split: sum.splits option.splits)
  then show ?thesis using log_seq_range assms(1) by (auto simp: holds_log_def)
qed

lemma event_row_of_sel [simp]:
  "ew_execution_id (event_row_of sha ex e) = ex" "ew_store_seq (event_row_of sha ex e) = ev_store_seq e"
  "ew_event_id (event_row_of sha ex e) = ev_event_id e" "ew_operation_id (event_row_of sha ex e) = event_op e"
  by (simp_all add: event_row_of_def Let_def)

lemma event_of_sel [simp]:
  "ev_event_id (event_of q n) = rq_event_id q" "ev_operation (event_of q n) = rq_operation q"
  "ev_store_seq (event_of q n) = n" "ev_attempt (event_of q n) = rq_attempt q" "ev_event_type (event_of q n) = rq_event_type q"
  "ev_payload (event_of q n) = rq_payload q" "ev_resource_refs (event_of q n) = rq_resource_refs q"
  by (simp_all add: event_of_def)

lemma claim_fresh_operation:
  assumes "operation_row ex (op_operation_id opr) db = None" "has_execution db ex"
  shows "bindt (claim_operation ex opr kind key conflict) f db =
    f True (db\<lparr>db_operations := db_operations db @ [operation_row_of ex opr kind key]\<rparr>)"
  using assms by (simp add: claim_operation_def insert_operation_def tx_simps operation_row_of_def)

lemma operation_row_append:
  "operation_row ex i (db\<lparr>db_operations := db_operations db @ [r]\<rparr>) =
     (case operation_row ex i db of
        None \<Rightarrow> if ow_execution_id r = ex \<and> ow_operation_id r = i then Some r else None
      | Some p \<Rightarrow> Some p)"
  by (simp add: operation_row_def find_append split: option.split)

lemma advance_one_head:
  assumes "filter (\<lambda>p. fst p = ex) (db_executions db) = [(ex, seq)]"
  shows "bindt (advance_head ex seq) f db =
    (if sql_range (seq + 1)
     then f 1 (db\<lparr>db_executions := map (\<lambda>p. if fst p = ex \<and> snd p = seq then (ex, seq + 1) else p) (db_executions db)\<rparr>)
     else Inl overflow_error)"
proof -
  have "filter (\<lambda>p. fst p = ex \<and> snd p = seq) (db_executions db) =
      filter (\<lambda>p. snd p = seq) (filter (\<lambda>p. fst p = ex) (db_executions db))" by (simp add: conj_commute)
  then show ?thesis using assms by (simp add: advance_head_def tx_simps Let_def del: filter_filter)
qed

lemma insert_fresh_event:
  assumes "holds_log sha ex db es" "rq_event_id q \<notin> ev_event_id ` set es" "op_operation_id (rq_operation q) \<notin> event_op ` set es"
    and e: "e = event_of q (int (length es) + 1)"
    and db: "db' = db\<lparr>db_operations := db_operations db @ [journal_row ex e]\<rparr>"
    and op: "operation_row ex (op_operation_id (rq_operation q)) db = None"
  shows "bindt (insert_event (event_row_of sha ex e)) f db' =
    (if sql_range (int (length es) + 1) then f () (db'\<lparr>db_events := db_events db' @ [event_row_of sha ex e]\<rparr>)
     else Inl overflow_error)"
proof -
  have "\<not> (\<exists>r \<in> set (db_events db). event_clash (event_row_of sha ex e) r)"
  proof
    assume "\<exists>r \<in> set (db_events db). event_clash (event_row_of sha ex e) r"
    then have "\<exists>r \<in> set (db_events db). ew_execution_id r = ex \<and> event_clash (event_row_of sha ex e) r"
      by (auto simp: event_clash_def)
    then obtain d where "d \<in> set es" "event_clash (event_row_of sha ex e) (event_row_of sha ex d)"
      unfolding holds_event_rows [OF assms(1)] by auto
    then show False
      using assms(1-3) log_seq_range [of ex es d] e
      by (auto simp: event_clash_def holds_log_def)
  qed
  moreover have "operation_row ex (event_op e) db' = Some (journal_row ex e)"
    using op e by (simp add: db operation_row_append journal_row_def operation_row_of_def)
  ultimately show ?thesis using e by (simp add: insert_event_def tx_simps db)
qed

lemma insert_fresh_receipt:
  assumes "holds_log sha ex db es" and e: "ev_store_seq e = int (length es) + 1"
    and r: "receipt_subject e = Inr (Some r)"
    and db: "db_receipts db' = db_receipts db" "event_row_of sha ex e \<in> set (db_events db')"
  shows "bindt (insert_receipt (receipt_row_of ex e r)) f db' =
    (if receipt_range (Some r) then f () (db'\<lparr>db_receipts := db_receipts db' @ receipts_of ex e\<rparr>) else Inl overflow_error)"
proof -
  obtain k c i where kci: "r = (k, c, i)" by (cases r)
  have shape: "receipt_shape (receipt_row_of ex e r)" using r receipt_row_shape by (simp add: kci)
  have range: "sql_range (case i of None \<Rightarrow> 0 | Some n \<Rightarrow> n) = receipt_range (Some r)"
    by (simp add: kci receipt_range_def sql_range_def max_sql_int_def split: option.split)
  have "\<not> (\<exists>q \<in> set (db_receipts db). rw_execution_id q = ex \<and> rw_store_seq q = ev_store_seq e \<and> rw_receipt_kind q = k)"
    using holds_receipt_seq [OF assms(1)] e by force
  moreover have "\<exists>q \<in> set (db_events db'). ew_execution_id q = ex \<and> ew_store_seq q = ev_store_seq e"
    using db(2) by (intro bexI [of _ "event_row_of sha ex e"]) simp_all
  ultimately show ?thesis
    using shape range r kci
    by (simp add: insert_receipt_def tx_simps db(1) receipts_of_def) (auto simp: receipt_row_of_def)
qed

lemma append_with_connection_spec:
  assumes holds: "holds_log sha ex db es" and q: "append_request_ok q"
    and head: "filter (\<lambda>p. fst p = ex) (db_executions db) = [(ex, int (length es) + 1)]"
    and op: "operation_row ex (op_operation_id (rq_operation q)) db = None"
    and e: "e = event_of q (int (length es) + 1)"
  shows "append_with_connection sha ex q db =
    (if rq_event_id q \<in> ev_event_id ` set es then Inl (journal_conflict ''event id belongs to another operation'')
     else case receipt_subject e of
       Inl x \<Rightarrow> Inl x
     | Inr r \<Rightarrow>
         if sql_range (int (length es) + 2) \<and> receipt_range r
         then Inr (\<lparr>res_event = e, res_cursor = event_cursor_of e, res_duplicate = False\<rparr>, appended_db sha ex e db)
         else Inl overflow_error)"
proof -
  have taken: "(\<exists>r \<in> set (db_events db). ew_execution_id r = ex \<and> ew_event_id r = rq_event_id q) \<longleftrightarrow> rq_event_id q \<in> ev_event_id ` set es"
    unfolding holds_event_rows [OF holds] by force
  have fresh: "op_operation_id (rq_operation q) \<notin> event_op ` set es" using holds op by (auto simp: holds_log_def)
  note mk = mk_event_of [OF q, of "int (length es) + 1"]
  have ok: "journal_event_ok e" and seq: "ev_store_seq e = int (length es) + 1" and ids: "ev_event_id e = rq_event_id q" "ev_operation e = rq_operation q"
    using event_of_ok [OF q] e by (simp_all add: event_of_def)
  let ?db1 = "db\<lparr>db_operations := db_operations db @ [journal_row ex e]\<rparr>"
  have row: "operation_row_of ex (rq_operation q) ''journal_event'' (rq_event_id q) = journal_row ex e"
    using ids by (simp add: journal_row_def)
  have start: "append_with_connection sha ex q db =
    (if rq_event_id q \<in> ev_event_id ` set es then Inl (journal_conflict ''event id belongs to another operation'')
     else bindr (receipt_subject e) (\<lambda>receipt.
       bindt (insert_event (event_row_of sha ex e)) (\<lambda>_.
       bindt (case receipt of None \<Rightarrow> ret () | Some r \<Rightarrow> insert_receipt (receipt_row_of ex e r)) (\<lambda>_.
       bindt (advance_head ex (int (length es) + 1)) (\<lambda>updated.
         if updated \<noteq> 1 then raise (journal_conflict ''journal sequence allocation conflicted'')
         else lift_res (append_result_for e False)))) ?db1))"
    using single_head [OF head] mk taken
    by (simp add: append_with_connection_def tx_simps claim_fresh_operation [OF op] row flip: e)
  show ?thesis
  proof (cases "rq_event_id q \<in> ev_event_id ` set es")
    case False
    have down: "sql_range (int (length es) + 2) \<Longrightarrow> sql_range (int (length es) + 1)"
      using sql_range_down [of "int (length es) + 1"] by (simp add: add.assoc)
    show ?thesis
    proof (cases "receipt_subject e")
      case (Inr receipt)
      show ?thesis
      proof (cases receipt)
        case None
        then show ?thesis
          using start False Inr down head
          by (simp add: insert_fresh_event [OF holds False fresh e refl op] tx_simps advance_one_head event_result [OF ok] appended_db_def
              receipts_of_def seq add.commute [of 2])
      next
        case (Some r)
        then show ?thesis
          using start False Inr down head
          by (simp add: insert_fresh_event [OF holds False fresh e refl op] tx_simps insert_fresh_receipt [OF holds seq]
              advance_one_head event_result [OF ok] appended_db_def seq add.commute [of 2])
      qed
    qed (use start False in simp)
  qed (use start in simp)
qed

lemma head_advanced:
  "filter (\<lambda>p. fst p = ex) xs = [(ex, n)] \<Longrightarrow>
   filter (\<lambda>p. fst p = ex) (map (\<lambda>p. if fst p = ex \<and> snd p = n then (ex, m) else p) xs) = [(ex, m)]"
proof (induction xs)
  case (Cons p xs)
  have "filter (\<lambda>p. fst p = ex) (map (\<lambda>p. if fst p = ex \<and> snd p = n then (ex, m) else p) ys) = []"
    if "filter (\<lambda>p. fst p = ex) ys = []" for ys
    using that by (induction ys) (auto split: if_splits)
  then show ?case using Cons by (auto split: if_splits)
qed simp

lemma log_ok_append:
  assumes "log_ok ex es" "journal_event_ok e" "gr_execution_id (at_generation (ev_attempt e)) = ex"
    "ev_store_seq e = int (length es) + 1" "ev_event_id e \<notin> ev_event_id ` set es" "event_op e \<notin> event_op ` set es"
  shows "log_ok ex (es @ [e])"
  using assms by (auto simp: log_ok_def)

lemma appended_operation_row:
  "operation_row ex i (appended_db sha ex e db) =
     (case operation_row ex i db of None \<Rightarrow> if event_op e = i then Some (journal_row ex e) else None | Some p \<Rightarrow> Some p)"
  by (simp add: appended_db_def operation_row_def find_append journal_row_def operation_row_of_def split: option.split)

lemma appended_holds:
  assumes holds: "holds_log sha ex db es" and e: "journal_event_ok e" "gr_execution_id (at_generation (ev_attempt e)) = ex"
      "ev_store_seq e = int (length es) + 1" "ev_event_id e \<notin> ev_event_id ` set es"
    and head: "filter (\<lambda>p. fst p = ex) (db_executions db) = [(ex, int (length es) + 1)]"
    and op: "operation_row ex (event_op e) db = None"
  shows "holds_log sha ex (appended_db sha ex e db) (es @ [e])"
proof -
  have fresh: "event_op e \<notin> event_op ` set es" using holds op by (auto simp: holds_log_def)
  have "log_ok ex (es @ [e])" using holds log_ok_append [OF _ e fresh] by (simp add: holds_log_def)
  moreover have "filter (\<lambda>p. fst p = ex) (db_executions (appended_db sha ex e db)) = [(ex, int (length (es @ [e])) + 1)]"
    using head_advanced [OF head] e(3) by (simp add: appended_db_def)
  moreover have "filter (\<lambda>r. ew_execution_id r = ex) (db_events (appended_db sha ex e db)) = map (event_row_of sha ex) (es @ [e])"
    using holds by (simp add: appended_db_def holds_log_def)
  moreover have "filter (\<lambda>r. rw_execution_id r = ex) (receipts_of ex e) = receipts_of ex e"
    by (simp add: receipts_of_def receipt_row_of_def split: sum.split option.split prod.split)
  then have "filter (\<lambda>r. rw_execution_id r = ex) (db_receipts (appended_db sha ex e db)) = concat (map (receipts_of ex) (es @ [e]))"
    using holds by (simp add: appended_db_def holds_log_def)
  moreover have "\<forall>d \<in> set (es @ [e]). operation_row ex (event_op d) (appended_db sha ex e db) = Some (journal_row ex d)"
    using holds op by (auto simp: holds_log_def appended_operation_row)
  moreover have "i \<in> event_op ` set (es @ [e])"
    if "operation_row ex i (appended_db sha ex e db) = Some p" "ow_target_kind p = ''journal_event''" for i p
  proof (cases "operation_row ex i db")
    case None
    then show ?thesis using that(1) by (auto simp: appended_operation_row split: if_splits)
  next
    case (Some p')
    then show ?thesis using that holds by (auto simp: appended_operation_row holds_log_def)
  qed
  ultimately show ?thesis unfolding holds_log_def by auto
qed

lemma other_operations_appended:
  "other_operations ex (appended_db sha ex e db) = other_operations ex db"
  by (auto simp: other_operations_def appended_operation_row journal_row_def operation_row_of_def split: option.splits if_splits)

lemma other_operations_ensured [simp]: "other_operations ex (ensured ex db) = other_operations ex db"
  by (simp add: other_operations_def)

text \<open>What a validation of the payload raises is passed on.\<close>

definition plain_error :: "py_exc \<Rightarrow> bool" where
  "plain_error x = (case x of DomainExc c m \<Rightarrow> c \<noteq> ''sqlite3.IntegrityError'' \<and> c \<noteq> ''JournalConflictError'' | _ \<Rightarrow> True)"

lemma plain_error_outcome: "plain_error x \<Longrightarrow> outcome_of (Inl (catch_integrity e x)) = Rejected x"
  by (cases x) (auto simp: plain_error_def catch_integrity_def)

lemma plain_errors [simp]: "plain_error (model_error m)" "plain_error (TypeExc m)" "plain_error (journal_repository m)" "plain_error overflow_error"
  by (simp_all add: plain_error_def model_error_def journal_repository_def overflow_error_def)

lemma conflict_outcome [simp]: "outcome_of (Inl (catch_integrity e (journal_conflict m))) = Conflict"
  by (simp add: catch_integrity_def journal_conflict_def)

lemma required_text_plain: "required_text n m i v = Inl x \<Longrightarrow> plain_error x"
  by (cases v) (auto simp: required_text_def Let_def split: if_splits)

lemma receipt_error_branches:
  "(if p then bindr R K else if q then A else if r then B else Inr None) = Inl x \<Longrightarrow>
   (R = Inl x \<or> (\<exists>v. R = Inr v \<and> K v = Inl x)) \<or> A = Inl x \<or> B = Inl x"
  by (auto simp: bindr_eq_Inl split: if_splits)

lemma iterated_error: "(case v of PyInt n \<Rightarrow> if n < 0 then Inl y else Inr (k n) | _ \<Rightarrow> Inl y) = Inl x \<Longrightarrow> x = y"
  by (cases v) (auto split: if_splits)

lemma receipt_subject_plain:
  assumes "receipt_subject e = Inl x"
  shows "plain_error x"
  using receipt_error_branches [OF assms [unfolded receipt_subject_def Let_def]]
  by (elim disjE exE conjE) (erule required_text_plain, simp, (drule iterated_error, simp)+)

lemma append_event_spec:
  assumes holds: "holds_log sha ex db es" and q: "append_request_ok q" and scope: "gr_execution_id (at_generation (rq_attempt q)) = ex"
    and run: "append_event sha ex q db = (r, db')" "log_append q (other_operations ex db) es = (out, es')"
  shows "outcome_of r = out \<and> holds_log sha ex db' es' \<and> other_operations ex db' = other_operations ex db"
proof -
  let ?db = "ensured ex db" and ?e = "event_of q (int (length es) + 1)"
  note h = holds_ensured [OF holds]
  have body: "append_event sha ex q db =
      transaction (catch_integrity (journal_conflict ''journal operation or event conflicted''))
        (\<lambda>_. bindt (replayed_append sha ex q) (\<lambda>replayed.
               case replayed of Some x \<Rightarrow> ret x | None \<Rightarrow> append_with_connection sha ex q) ?db) db"
    using scope by (simp add: append_event_def scope_attempt_def transaction_def ensure_execution_def tx_simps flip: ensured_def)
  note parts = body transaction_def bindt_def replayed_append_spec [OF h(1)] log_append_def
  show ?thesis
  proof (cases "find (\<lambda>e. event_op e = op_operation_id (rq_operation q)) es")
    case (Some e)
    then show ?thesis using run holds h(1) by (auto simp: parts ret_def split: if_splits)
  next
    case None
    show ?thesis
    proof (cases "op_operation_id (rq_operation q) \<in> other_operations ex db")
      case True
      then show ?thesis using run None holds by (auto simp: parts)
    next
      case False
      have "op_operation_id (rq_operation q) \<notin> event_op ` set es" using None by (auto simp: find_None_iff)
      then have op: "operation_row ex (op_operation_id (rq_operation q)) ?db = None"
        using False holds by (cases "operation_row ex (op_operation_id (rq_operation q)) db") (auto simp: other_operations_def holds_log_def)
      have new: "holds_log sha ex (appended_db sha ex ?e ?db) (es @ [?e])" if "rq_event_id q \<notin> ev_event_id ` set es"
        using that by (intro appended_holds [OF h(1)]) (use op in \<open>simp_all add: event_of_ok [OF q] scope h(2)\<close>)
      show ?thesis
        using run None False holds new receipt_subject_plain [of ?e]
        by (auto simp: parts append_with_connection_spec [OF h(1) q h(2) op refl] Let_def other_operations_appended
            plain_error_outcome split: sum.splits if_splits)
    qed
  qed
qed

lemma append_event_foreign:
  "gr_execution_id (at_generation (rq_attempt q)) \<noteq> ex \<Longrightarrow>
   append_event sha ex q db = (Inl (journal_scope ''attempt belongs to a foreign execution scope''), db)"
  by (simp add: append_event_def scope_attempt_def)

lemma empty_db_holds: "holds_log sha ex empty_db []"
  by (simp add: holds_log_def empty_db_def log_ok_def operation_row_def)

subsection \<open>Pages of the log\<close>

lemma log_filter_after:
  assumes "log_ok ex es"
  shows "filter (\<lambda>e. ev_store_seq e > int k) es = drop k es"
proof -
  have es: "es = take k es @ drop k es" by simp
  have "\<forall>e \<in> set (take k es). \<not> ev_store_seq e > int k"
    using log_seq [OF assms] by (auto simp: in_set_conv_nth)
  moreover have "\<forall>e \<in> set (drop k es). ev_store_seq e > int k"
    using log_seq [OF assms] by (auto simp: in_set_conv_nth)
  ultimately show ?thesis
    by (subst (1) es) (simp only: filter_append filter_False filter_True append_Nil)
qed

lemma log_sorted: "log_ok ex es \<Longrightarrow> sorted (map ev_store_seq es)"
  by (simp add: log_ok_def sorted_map sorted_wrt_map del: upt_Suc)

lemma log_distinct_seq: "log_ok ex es \<Longrightarrow> distinct (map ev_store_seq es)"
  by (simp add: log_ok_def distinct_map del: upt_Suc)

lemma log_rows_after:
  assumes "holds_log sha ex db es"
  shows "sort_key ew_store_seq (filter (\<lambda>r. ew_execution_id r = ex \<and> ew_store_seq r > int k) (db_events db)) =
    map (event_row_of sha ex) (drop k es)"
proof -
  have log: "log_ok ex es" and rows: "filter (\<lambda>r. ew_execution_id r = ex) (db_events db) = map (event_row_of sha ex) es"
    using assms by (simp_all add: holds_log_def)
  have "filter (\<lambda>r. ew_execution_id r = ex \<and> ew_store_seq r > int k) (db_events db) =
      filter (\<lambda>r. ew_store_seq r > int k) (filter (\<lambda>r. ew_execution_id r = ex) (db_events db))" by (simp add: conj_commute)
  also have "\<dots> = map (event_row_of sha ex) (drop k es)" unfolding rows by (simp add: filter_map comp_def log_filter_after [OF log])
  finally have "filter (\<lambda>r. ew_execution_id r = ex \<and> ew_store_seq r > int k) (db_events db) = map (event_row_of sha ex) (drop k es)" .
  moreover have "sorted (map ew_store_seq (map (event_row_of sha ex) (drop k es)))"
    using sorted_wrt_drop [OF log_sorted [OF log], of k] by (simp add: comp_def drop_map)
  ultimately show ?thesis by (simp add: sorted_sort_id sort_key_id_if_sorted)
qed

lemma slice_nth: "j < length (take n (drop k xs)) \<Longrightarrow> take n (drop k xs) ! j = xs ! (k + j) \<and> k + j < length xs"
  by (simp add: less_diff_conv add.commute)

lemma log_slice:
  assumes "log_ok ex es" "xs = take n (drop k es)"
  shows "\<not> (\<exists>p \<in> set (zip xs (tl xs)). ev_store_seq (fst p) \<ge> ev_store_seq (snd p))"
    and "card (set (map ev_event_id xs)) = length xs"
    and "card (set (map (gr_execution_id \<circ> at_generation \<circ> ev_attempt) xs)) \<le> 1"
proof -
  show "\<not> (\<exists>p \<in> set (zip xs (tl xs)). ev_store_seq (fst p) \<ge> ev_store_seq (snd p))"
  proof
    assume "\<exists>p \<in> set (zip xs (tl xs)). ev_store_seq (fst p) \<ge> ev_store_seq (snd p)"
    then obtain i where "i < length (tl xs)" "ev_store_seq (xs ! i) \<ge> ev_store_seq (tl xs ! i)"
      by (auto simp: set_zip)
    then have i: "Suc i < length xs" "ev_store_seq (xs ! i) \<ge> ev_store_seq (xs ! Suc i)" by (simp_all add: nth_tl)
    have "ev_store_seq (xs ! j) = int (k + j) + 1" if "j < length xs" for j
      using log_seq [OF assms(1), of "k + j"] slice_nth [of j n k es] that by (simp add: assms(2))
    from this [of i] this [of "Suc i"] i show False by simp
  qed
  have "distinct (drop k (map ev_event_id es))" using assms(1) by (simp add: log_ok_def del: upt_Suc)
  from distinct_take [OF this, of n] have "distinct (map ev_event_id xs)" by (simp add: assms(2) take_map drop_map)
  then show "card (set (map ev_event_id xs)) = length xs" using distinct_card by fastforce
  have "set (map (gr_execution_id \<circ> at_generation \<circ> ev_attempt) xs) \<subseteq> {ex}"
    using assms by (auto simp: log_ok_def dest!: in_set_takeD in_set_dropD)
  then show "card (set (map (gr_execution_id \<circ> at_generation \<circ> ev_attempt) xs)) \<le> 1"
    using card_mono [of "{ex}"] by fastforce
qed

text \<open>The cursor of the first \<open>k\<close> events: absent for the start of the log.\<close>

definition cursor_at :: "journal_event list \<Rightarrow> nat \<Rightarrow> event_cursor option" where
  "cursor_at es k = (if k = 0 then None else Some (event_cursor_of (es ! (k - 1))))"

lemma read_start_at:
  assumes holds: "holds_log sha ex db es" and k: "k \<le> length es" "sql_range (int (length es))"
  shows "bindt (read_start ex (cursor_at es k)) f db = f (int k) db"
proof (cases "k = 0")
  case False
  have log: "log_ok ex es" using holds by (simp add: holds_log_def)
  have range: "sql_range (int k)" using k by (simp add: sql_range_def max_sql_int_def)
  have e: "es ! (k - 1) \<in> set es" "ev_store_seq (es ! (k - 1)) = int k" using False k log_seq [OF log, of "k - 1"] by auto
  have "find (\<lambda>r. ew_execution_id r = ex \<and> ew_store_seq r = int k) (db_events db) = Some (event_row_of sha ex (es ! (k - 1)))"
    using holds_find_event [OF holds, of "\<lambda>r. ew_store_seq r = int k"] find_distinct [OF log_distinct_seq [OF log] e(1)] e(2) by simp
  then show ?thesis using False range e(2) by (simp add: read_start_def cursor_at_def tx_simps event_cursor_of_def)
qed (simp add: read_start_def cursor_at_def tx_simps)

lemma slice_last:
  assumes "take n (drop k es) \<noteq> []"
  shows "last (take n (drop k es)) = es ! (min (k + n) (length es) - 1)"
proof -
  let ?xs = "take n (drop k es)"
  have pos: "0 < length ?xs" using assms by blast
  have "last ?xs = ?xs ! (length ?xs - 1)" by (rule last_conv_nth [OF assms])
  also have "\<dots> = es ! (k + (length ?xs - 1))" by (rule slice_nth [THEN conjunct1]) (rule diff_less [OF zero_less_one pos])
  also have "k + (length ?xs - 1) = min (k + n) (length es) - 1" using pos by simp arith
  finally show ?thesis .
qed

lemma read_page_at:
  assumes holds: "holds_log sha ex db es" and k: "k \<le> length es" and n: "0 < n" "sql_range (n + 1)" "sql_range (int (length es))"
  shows "read_page sha ex (cursor_at es k) (int k) n db =
    Inr (\<lparr>pg_events = take (nat n) (drop k es), pg_next_cursor = cursor_at es (min (k + nat n) (length es)),
         pg_has_more = (k + nat n < length es)\<rparr>, db)"
proof -
  have log: "log_ok ex es" using holds by (simp add: holds_log_def)
  let ?xs = "take (nat n) (drop k es)"
  have range: "sql_range (int k)" using k n(3) by (simp add: sql_range_def max_sql_int_def)
  have rows: "event_from_row sha ex (event_row_of sha ex e) db = Inr e" if "e \<in> set ?xs" for e
    using event_from_row_of [OF holds] that by (meson in_set_dropD in_set_takeD)
  have decode: "mapr (\<lambda>r. event_from_row sha ex r db) (take (nat n) (take (nat (n + 1)) (map (event_row_of sha ex) (drop k es)))) = Inr ?xs"
  proof -
    have "take (nat n) (take (nat (n + 1)) (map (event_row_of sha ex) (drop k es))) = map (event_row_of sha ex) ?xs"
      using n(1) by (simp add: take_map min_def)
    then show ?thesis by (simp only: mapr_map) (rule mapr_id, rule rows)
  qed
  have more: "(int (length (take (nat (n + 1)) (map (event_row_of sha ex) (drop k es)))) > n) = (k + nat n < length es)"
    using n(1) k by (simp add: min_def) linarith
  have start: "read_page sha ex (cursor_at es k) (int k) n db =
      bindr (if ?xs = [] then Inr (cursor_at es k)
             else bindr (mk_event_cursor (PyInt (ev_store_seq (last ?xs))) (PyStr (ev_event_id (last ?xs)))) (\<lambda>c. Inr (Some c))) (\<lambda>c.
      bindr (mk_journal_page (Inl ?xs) (map_option Inl c) (PyBool (k + nat n < length es))) (\<lambda>p. Inr (p, db)))"
    unfolding read_page_def event_rows_after_def decode_rows_def tx_simps log_rows_after [OF holds] decode bindr_simps more
    using range n(2) by (simp add: tx_simps bindr_def split: sum.split)
  show ?thesis
  proof (cases "?xs = []")
    case True
    then have "k = length es" using n(1) k by auto
    then show ?thesis unfolding start if_P [OF True] bindr_simps True
      by (simp add: mk_journal_page_def page_error_def cursor_at_def)
  next
    case False
    let ?c = "event_cursor_of (last ?xs)"
    have "journal_event_ok (last ?xs)" using last_in_set [OF False] log by (auto simp: log_ok_def dest!: in_set_takeD in_set_dropD)
    moreover have "page_error ?xs (Some ?c) (k + nat n < length es) = None"
      using log_slice [OF log refl, of "nat n" k] False by (simp add: page_error_def)
    moreover have "cursor_at es (min (k + nat n) (length es)) = Some ?c"
      using slice_last [OF False] False by (auto simp: cursor_at_def)
    ultimately show ?thesis unfolding start if_not_P [OF False] by (simp add: event_cursor_built mk_journal_page_def)
  qed
qed

lemma read_events_spec:
  assumes "holds_log sha ex db es" "k \<le> length es" "0 < n" "sql_range (n + 1)" "sql_range (int (length es))"
  shows "read_events sha ex (cursor_at es k) n db =
    Inr \<lparr>pg_events = take (nat n) (drop k es), pg_next_cursor = cursor_at es (min (k + nat n) (length es)),
         pg_has_more = (k + nat n < length es)\<rparr>"
  using assms
  by (simp add: read_events_def positive_int_def transaction_def read_start_at [OF assms(1,2,5)] read_page_at [OF assms])

subsection \<open>Receipts\<close>

definition has_receipt :: "attempt_ref \<Rightarrow> string \<times> string option \<times> int option \<Rightarrow> journal_event \<Rightarrow> bool" where
  "has_receipt a k e \<longleftrightarrow> receipt_subject e = Inr (Some k) \<and>
     gr_generation_id (at_generation (ev_attempt e)) = gr_generation_id (at_generation a) \<and> at_attempt_id (ev_attempt e) = at_attempt_id a"

lemma filter_receipts:
  "filter (\<lambda>r. rw_generation_id r = gr_generation_id (at_generation a) \<and> rw_attempt_id r = at_attempt_id a \<and>
      rw_receipt_kind r = kind \<and> rw_call_id r = call \<and> rw_iteration r = it) (receipts_of ex e) =
   (if has_receipt a (kind, call, it) e then [receipt_row_of ex e (kind, call, it)] else [])"
  by (auto simp: has_receipt_def receipts_of_def receipt_row_of_def split: sum.split option.split)

lemma filter_log_receipts:
  "filter (\<lambda>r. rw_generation_id r = gr_generation_id (at_generation a) \<and> rw_attempt_id r = at_attempt_id a \<and>
      rw_receipt_kind r = kind \<and> rw_call_id r = call \<and> rw_iteration r = it) (concat (map (receipts_of ex) es)) =
   map (\<lambda>e. receipt_row_of ex e (kind, call, it)) (filter (has_receipt a (kind, call, it)) es)"
  by (induction es) (simp_all add: filter_receipts)

lemma holds_event_at:
  assumes "holds_log sha ex db es" "e \<in> set es"
  shows "filter (\<lambda>r. ew_execution_id r = ex \<and> ew_store_seq r = ev_store_seq e) (db_events db) = [event_row_of sha ex e]"
proof -
  have log: "log_ok ex es" and rows: "filter (\<lambda>r. ew_execution_id r = ex) (db_events db) = map (event_row_of sha ex) es"
    using assms(1) by (simp_all add: holds_log_def)
  have "filter (\<lambda>d. ev_store_seq d = ev_store_seq e) xs = [e]" if "distinct (map ev_store_seq xs)" "e \<in> set xs" for xs
    using that
  proof (induction xs)
    case (Cons d xs)
    then have "filter (\<lambda>x. ev_store_seq x = ev_store_seq d) xs = []" by (auto simp: filter_empty_conv image_iff)
    then show ?case using Cons by auto
  qed simp
  then have "filter (\<lambda>d. ev_store_seq d = ev_store_seq e) es = [e]" using log_distinct_seq [OF log] assms(2) .
  moreover have "filter (\<lambda>r. ew_execution_id r = ex \<and> ew_store_seq r = ev_store_seq e) (db_events db) =
      filter (\<lambda>r. ew_store_seq r = ev_store_seq e) (filter (\<lambda>r. ew_execution_id r = ex) (db_events db))" by (simp add: conj_commute)
  ultimately show ?thesis unfolding rows by (simp add: filter_map comp_def)
qed

lemma receipt_join:
  assumes holds: "holds_log sha ex db es"
  shows "concat (map (\<lambda>r. filter (\<lambda>e. ew_execution_id e = rw_execution_id r \<and> ew_store_seq e = rw_store_seq r) (db_events db))
      (sort_key rw_store_seq (filter (\<lambda>r. rw_execution_id r = ex \<and>
         rw_generation_id r = gr_generation_id (at_generation a) \<and> rw_attempt_id r = at_attempt_id a \<and>
         rw_receipt_kind r = kind \<and> rw_call_id r = call \<and> rw_iteration r = it) (db_receipts db)))) =
    map (event_row_of sha ex) (filter (has_receipt a (kind, call, it)) es)"
proof -
  let ?P = "\<lambda>r. rw_generation_id r = gr_generation_id (at_generation a) \<and> rw_attempt_id r = at_attempt_id a \<and>
         rw_receipt_kind r = kind \<and> rw_call_id r = call \<and> rw_iteration r = it"
  let ?hits = "filter (has_receipt a (kind, call, it)) es"
  have "filter (\<lambda>r. rw_execution_id r = ex \<and> ?P r) (db_receipts db) = filter ?P (filter (\<lambda>r. rw_execution_id r = ex) (db_receipts db))"
    by (simp add: conj_commute)
  also have "\<dots> = map (\<lambda>e. receipt_row_of ex e (kind, call, it)) ?hits"
    using holds filter_log_receipts [of a kind call it ex es] by (simp add: holds_log_def)
  finally have sel: "filter (\<lambda>r. rw_execution_id r = ex \<and> ?P r) (db_receipts db) = map (\<lambda>e. receipt_row_of ex e (kind, call, it)) ?hits" .
  have "log_ok ex es" using holds by (simp add: holds_log_def)
  then have "sorted (map ev_store_seq ?hits)" by (rule sorted_filter [OF log_sorted])
  then have "sort_key rw_store_seq (map (\<lambda>e. receipt_row_of ex e (kind, call, it)) ?hits) = map (\<lambda>e. receipt_row_of ex e (kind, call, it)) ?hits"
    by (intro sort_key_id_if_sorted) (simp add: comp_def receipt_row_of_def)
  moreover have "concat (map (\<lambda>e. filter (\<lambda>r. ew_execution_id r = ex \<and> ew_store_seq r = ev_store_seq e) (db_events db)) xs) =
      map (event_row_of sha ex) xs" if "set xs \<subseteq> set es" for xs
    using that holds_event_at [OF holds] by (induction xs) auto
  ultimately show ?thesis unfolding sel by (simp add: comp_def receipt_row_of_def)
qed

lemma lookup_receipt_events_spec:
  assumes holds: "holds_log sha ex db es" and "gr_execution_id (at_generation a) = ex" "sql_range (case it of None \<Rightarrow> 0 | Some n \<Rightarrow> n)"
  shows "lookup_receipt_events sha ex a kind call it m db =
    Inr (take m (filter (has_receipt a (kind, call, it)) es), length (filter (has_receipt a (kind, call, it)) es) > m)"
proof -
  let ?hits = "filter (has_receipt a (kind, call, it)) es"
  have "event_from_row sha ex (event_row_of sha ex e) db = Inr e" if "e \<in> set (take m ?hits)" for e
    using event_from_row_of [OF holds] in_set_takeD [OF that] by simp
  then have "mapr (\<lambda>r. event_from_row sha ex r db) (take m (take (m + 1) (map (event_row_of sha ex) ?hits))) = Inr (take m ?hits)"
    by (simp add: take_map mapr_map min_def) (rule mapr_id, simp)
  moreover have "(length (take (m + 1) (map (event_row_of sha ex) ?hits)) > m) = (length ?hits > m)" by auto
  ultimately show ?thesis
    using assms(2,3)
    by (simp add: lookup_receipt_events_def scope_attempt_def transaction_def decode_rows_def tx_simps receipt_join [OF holds] del: take_map)
qed

lemma tool_receipt_type:
  assumes "receipt_subject e = Inr (Some (''tool_execution'', c, i))"
  shows "ev_event_type e \<in> set tool_execution_receipt_types"
proof (rule ccontr)
  assume no: "ev_event_type e \<notin> set tool_execution_receipt_types"
  have branch: "(if q then A else if r then B else Inr None) = Inr (Some x) \<Longrightarrow> A = Inr (Some x) \<or> B = Inr (Some x)"
    for q r A B and x :: "string \<times> string option \<times> int option"
    by (auto split: if_splits)
  from assms [unfolded receipt_subject_def Let_def if_not_P [OF no]] show False
    by (elim branch [THEN disjE]) (drule iterated_receipt, simp)+
qed

lemma check_receipts_sorted:
  assumes "sorted_wrt (<) (map ev_store_seq es)" "\<forall>e \<in> set es. prev < ev_store_seq e"
    "distinct (map ev_event_id es)" "distinct (map event_op es)"
    "set ids \<inter> ev_event_id ` set es = {}" "set opids \<inter> event_op ` set es = {}"
    "\<forall>e \<in> set es. ev_attempt e = a \<and> ev_event_type e \<in> set tool_execution_receipt_types \<and> dget (ev_payload e) ''call_id'' = PyStr c"
  shows "check_receipts a c prev ids opids es = Inr ()"
  using assms by (induction es arbitrary: prev ids opids) auto

lemma log_strict: "log_ok ex es \<Longrightarrow> sorted_wrt (<) (map ev_store_seq es)"
  by (simp add: log_ok_def sorted_wrt_map strict_sorted_iff del: upt_Suc)

lemma receipt_hits:
  fixes es :: "journal_event list" and a :: attempt_ref and m :: nat and c :: "string option"
  defines "xs \<equiv> take m (filter (has_receipt a (''tool_execution'', c, None)) es)"
  assumes log: "log_ok ex es" and a: "gr_execution_id (at_generation a) = ex"
  shows "sorted_wrt (<) (map ev_store_seq xs)" "\<forall>e \<in> set xs. 0 < ev_store_seq e"
    "distinct (map ev_event_id xs)" "distinct (map event_op xs)"
    "\<forall>e \<in> set xs. ev_attempt e = a \<and> ev_event_type e \<in> set tool_execution_receipt_types"
proof -
  have sub: "set xs \<subseteq> set es" by (auto simp: xs_def dest: in_set_takeD)
  have "ev_attempt e = a" if "has_receipt a k e" "e \<in> set es" for e k
  proof -
    have "gr_execution_id (at_generation (ev_attempt e)) = ex" using log that(2) by (auto simp: log_ok_def)
    then show ?thesis using that(1) a by (auto simp: has_receipt_def intro!: attempt_ref.equality generation_ref.equality)
  qed
  then show "\<forall>e \<in> set xs. ev_attempt e = a \<and> ev_event_type e \<in> set tool_execution_receipt_types"
    by (auto simp: xs_def has_receipt_def dest!: in_set_takeD intro: tool_receipt_type)
  show "sorted_wrt (<) (map ev_store_seq xs)"
    using log_strict [OF log] by (simp add: xs_def sorted_wrt_map sorted_wrt_filter sorted_wrt_take)
  show "\<forall>e \<in> set xs. 0 < ev_store_seq e" using log_seq_range [OF log] sub by force
  show "distinct (map ev_event_id xs)" "distinct (map event_op xs)"
    using log by (auto simp: xs_def log_ok_def take_map [symmetric] distinct_map_filter intro: distinct_take)
qed

lemma lookup_tool_spec:
  assumes holds: "holds_log sha ex db es" and a: "gr_execution_id (at_generation a) = ex" "attempt_ref_ok a"
    and c: "required_text ''call_id'' 256 True (PyStr c) = Inr c"
    and exact: "\<forall>e \<in> set es. has_receipt a (''tool_execution'', Some c, None) e \<longrightarrow> dget (ev_payload e) ''call_id'' = PyStr c"
  shows "lookup_tool_execution_receipts sha ex a (PyStr c) db =
    Inr \<lparr>tl_attempt = a, tl_call_id = c,
         tl_events = take max_tool_execution_receipts (filter (has_receipt a (''tool_execution'', Some c, None)) es),
         tl_overflow = (length (filter (has_receipt a (''tool_execution'', Some c, None)) es) > max_tool_execution_receipts)\<rparr>"
proof -
  let ?hits = "filter (has_receipt a (''tool_execution'', Some c, None)) es"
  let ?xs = "take max_tool_execution_receipts ?hits"
  have log: "log_ok ex es" using holds by (simp add: holds_log_def)
  note hits = receipt_hits [OF log a(1), of max_tool_execution_receipts "Some c"]
  have "check_receipts a c 0 [] [] ?xs = Inr ()"
    by (intro check_receipts_sorted) (use hits exact in \<open>auto dest!: in_set_takeD\<close>)
  then show ?thesis
    using c lookup_receipt_events_spec [OF holds a(1), of None "''tool_execution''" "Some c" max_tool_execution_receipts]
    by (simp add: lookup_tool_execution_receipts_def mk_tool_receipt_lookup_def sql_range_def max_sql_int_def)
qed

subsection \<open>Properties of the journal\<close>

lemma py_eq_refl: "value_wf v \<Longrightarrow> py_eq v v"
proof (induction v rule: value_wf.induct)
  case (1 xs)
  then show ?case by (auto simp: py_eq_PyList zip_same_conv_map)
next
  case (2 d)
  then have "dict_get d (fst p) = Some (snd p)" if "p \<in> set d" for p using that by (cases p) (simp add: dict_wf_def)
  then have "case dict_get d (fst p) of None \<Rightarrow> False | Some v \<Rightarrow> py_eq (snd p) v" if "p \<in> set d" for p
    using that 2 by simp
  then show ?case by (subst py_eq.simps) simp
next
  case (3 c d)
  then have "dict_get d (fst p) = Some (snd p)" if "p \<in> set d" for p using that by (cases p) (simp add: dict_wf_def)
  then have "case dict_get d (fst p) of None \<Rightarrow> False | Some v \<Rightarrow> py_eq (snd p) v" if "p \<in> set d" for p
    using that 3 by simp
  then show ?case by (subst py_eq.simps) simp
qed (subst py_eq.simps, simp)+

text \<open>
  C2: Refinement: on a store that holds the log \<open>es\<close> for the execution, \<open>append\<close> answers what
  appending to the log answers (a new event with the next number, the stored event of a repeated
  operation, a conflict, or the validation error of the payload) and afterwards the store holds
  the resulting log. The operations other components have claimed stay as they are.
\<close>
theorem journal_append_refines_log:
  assumes "holds_log sha ex db es" "append_request_ok q" "gr_execution_id (at_generation (rq_attempt q)) = ex"
    and "append_event sha ex q db = (r, db')" "log_append q (other_operations ex db) es = (out, es')"
  shows "outcome_of r = out \<and> holds_log sha ex db' es' \<and> other_operations ex db' = other_operations ex db"
  using assms by (rule append_event_spec)

definition zero_digest :: "blob \<Rightarrow> string" where
  "zero_digest b = replicate 64 (CHR ''0'')"

lemma zero_digest_sha256: "is_sha256 (zero_digest b)"
  by (simp add: zero_digest_def is_sha256_def list_all_iff)

definition demo_attempt :: attempt_ref where
  "demo_attempt = \<lparr>at_generation = \<lparr>gr_execution_id = ''exec-1'', gr_generation_id = ''gen-1''\<rparr>, at_attempt_id = ''attempt-1''\<rparr>"

definition demo_operation :: "string \<Rightarrow> operation_ref" where
  "demo_operation i = \<lparr>op_operation_id = i, op_payload_sha256 = replicate 64 (CHR ''0'')\<rparr>"

definition demo_request :: "string \<Rightarrow> append_request" where
  "demo_request call = \<lparr>rq_event_id = ''event-1'', rq_event_type = ''tool.started'', rq_attempt = demo_attempt,
     rq_operation = demo_operation ''op-1'', rq_payload = [(''call_id'', PyStr call)], rq_resource_refs = []\<rparr>"

definition no_digest :: "blob \<Rightarrow> string" where
  "no_digest b = []"

lemma demo_request_ok: "append_request_ok (demo_request ''call-1'')" "append_request_ok (demo_request '' call-1'')"
  by code_simp+

lemma demo_log_append:
  "log_append (demo_request ''call-1'') {} [] = (Appended (event_of (demo_request ''call-1'') 1), [event_of (demo_request ''call-1'') 1])"
  by code_simp

lemma demo_other: "other_operations ex empty_db = {}"
  by (simp add: other_operations_def operation_row_def empty_db_def)

theorem journal_append_refines_log_witness:
  "outcome_of (fst (append_event no_digest ''exec-1'' (demo_request ''call-1'') empty_db)) = Appended (event_of (demo_request ''call-1'') 1) \<and>
   holds_log no_digest ''exec-1'' (snd (append_event no_digest ''exec-1'' (demo_request ''call-1'') empty_db)) [event_of (demo_request ''call-1'') 1]"
proof -
  have "gr_execution_id (at_generation (rq_attempt (demo_request ''call-1''))) = ''exec-1''"
    by (simp add: demo_request_def demo_attempt_def)
  from journal_append_refines_log [OF empty_db_holds demo_request_ok(1) this prod.collapse [symmetric]
      demo_log_append [folded demo_other [of "''exec-1''"]]]
  show ?thesis by blast
qed

text \<open>
  An append whose answer was lost can be repeated at any later time: while the log holds the event
  the request made, the repeated request is answered with that event, marked as a duplicate, and
  the log does not change.
\<close>
theorem repeated_append_is_answered:
  assumes "holds_log sha ex db es" "append_request_ok q" "gr_execution_id (at_generation (rq_attempt q)) = ex"
    and "event_of q n \<in> set es" "value_wf (PyDict (rq_payload q))"
  shows "fst (append_event sha ex q db) =
      Inr \<lparr>res_event = event_of q n, res_cursor = event_cursor_of (event_of q n), res_duplicate = True\<rparr> \<and>
    holds_log sha ex (snd (append_event sha ex q db)) es"
proof -
  have "distinct (map event_op es)" using assms(1) by (simp add: holds_log_def log_ok_def)
  from find_distinct [OF this assms(4)]
  have f: "find (\<lambda>e. event_op e = op_operation_id (rq_operation q)) es = Some (event_of q n)" by simp
  have m: "request_matches_event q (event_of q n)"
    using py_eq_refl [OF assms(5)] by (simp add: request_matches_event_def)
  note h = holds_ensured(1) [OF assms(1)]
  have "append_event sha ex q db =
      (Inr \<lparr>res_event = event_of q n, res_cursor = event_cursor_of (event_of q n), res_duplicate = True\<rparr>, ensured ex db)"
    using assms(3) f m
    by (simp add: append_event_def scope_attempt_def transaction_def ensure_execution_def tx_simps ensured_def [symmetric])
      (simp add: bindt_def replayed_append_spec [OF h] ret_def)
  then show ?thesis using h by simp
qed

theorem repeated_append_is_answered_witness:
  "fst (append_event no_digest ''exec-1'' (demo_request ''call-1'') (snd (append_event no_digest ''exec-1'' (demo_request ''call-1'') empty_db))) =
     Inr \<lparr>res_event = event_of (demo_request ''call-1'') 1, res_cursor = event_cursor_of (event_of (demo_request ''call-1'') 1), res_duplicate = True\<rparr>"
proof -
  have s: "gr_execution_id (at_generation (rq_attempt (demo_request ''call-1''))) = ''exec-1''"
    by (simp add: demo_request_def demo_attempt_def)
  have h: "holds_log no_digest ''exec-1'' (snd (append_event no_digest ''exec-1'' (demo_request ''call-1'') empty_db)) [event_of (demo_request ''call-1'') 1]"
    using append_event_spec [OF empty_db_holds demo_request_ok(1) s prod.collapse [symmetric] demo_log_append [folded demo_other [of "''exec-1''"]]]
    by blast
  have "value_wf (PyDict (rq_payload (demo_request ''call-1'')))" by (simp add: demo_request_def dict_wf_def)
  from repeated_append_is_answered [OF h demo_request_ok(1) s _ this, of 1] show ?thesis by simp
qed

text \<open>
  Reading: the page after the first \<open>k\<close> events of the log holds exactly the next \<open>n\<close> of them, its
  cursor names the last event it holds (or stays where it was), and it announces more events
  exactly when there are some. So following the cursors reads the whole log, once and in order.
\<close>
theorem journal_pages_cover_log:
  assumes "holds_log sha ex db es" "k \<le> length es" "0 < n" "sql_range (n + 1)" "sql_range (int (length es))"
  shows "read_events sha ex (cursor_at es k) n db =
    Inr \<lparr>pg_events = take (nat n) (drop k es), pg_next_cursor = cursor_at es (min (k + nat n) (length es)),
         pg_has_more = (k + nat n < length es)\<rparr>"
  using assms by (rule read_events_spec)

theorem journal_pages_cover_log_witness:
  "read_events no_digest ''exec-1'' None 10 empty_db = Inr \<lparr>pg_events = [], pg_next_cursor = None, pg_has_more = False\<rparr>"
  using journal_pages_cover_log [OF empty_db_holds [of no_digest "''exec-1''"], of 0 10]
  by (simp add: cursor_at_def sql_range_def max_sql_int_def)

lemma check_receipts_padded:
  assumes "sorted_wrt (<) (map ev_store_seq es)" "\<forall>e \<in> set es. prev < ev_store_seq e"
    "distinct (map ev_event_id es)" "distinct (map event_op es)"
    "set ids \<inter> ev_event_id ` set es = {}" "set opids \<inter> event_op ` set es = {}"
    "\<forall>e \<in> set es. ev_attempt e = a \<and> ev_event_type e \<in> set tool_execution_receipt_types"
    "\<exists>e \<in> set es. dget (ev_payload e) ''call_id'' \<noteq> PyStr c"
  shows "check_receipts a c prev ids opids es = Inl (model_error ''tool execution receipt call identity changed'')"
  using assms by (induction es arbitrary: prev ids opids) auto

lemma required_text_again: "required_text n m i v = Inr t \<Longrightarrow> required_text n m i (PyStr t) = Inr t"
  by (auto simp: required_text_def Let_def split: pyval.splits if_splits)

text \<open>
  C35: Error behaviour of the receipt index: an event is indexed under its trimmed call id, but the lookup compares
  the call id in its payload untrimmed. So in every store, whatever its log: if one of the first four receipts of
  a call within an attempt has the call id with spaces around it, then the index finds that receipt, and every
  lookup of the call raises, whatever was appended before and after.
\<close>
theorem padded_call_id_blocks_lookup:
  assumes "holds_log sha ex db (pre @ e # post)"
    and "ev_event_type e \<in> set tool_execution_receipt_types" "dget (ev_payload e) ''call_id'' = PyStr p"
    and "required_text ''call_id'' 256 True (PyStr p) = Inr c" "p \<noteq> c"
    and "length (filter (has_receipt (ev_attempt e) (''tool_execution'', Some c, None)) pre) < max_tool_execution_receipts"
    and "required_text ''call_id'' 256 True call = Inr c"
  shows "(\<exists>es b. lookup_receipt_events sha ex (ev_attempt e) ''tool_execution'' (Some c) None max_tool_execution_receipts db = Inr (es, b) \<and> e \<in> set es) \<and>
    lookup_tool_execution_receipts sha ex (ev_attempt e) call db =
      Inl (model_error ''tool execution receipt call identity changed'')"
proof -
  let ?es = "pre @ e # post" and ?a = "ev_attempt e" and ?k = "(''tool_execution'', Some c, None :: int option)"
  let ?hits = "filter (has_receipt ?a ?k) ?es"
  let ?xs = "take max_tool_execution_receipts ?hits"
  have log: "log_ok ex ?es" using assms(1) by (simp add: holds_log_def)
  then have a: "gr_execution_id (at_generation ?a) = ex" by (simp add: log_ok_def)
  have "has_receipt ?a ?k e" using assms(2-4) by (simp add: has_receipt_def receipt_subject_def)
  then have hit: "e \<in> set ?xs" using assms(6) by (cases "max_tool_execution_receipts - length (filter (has_receipt ?a ?k) pre)") auto
  note hits = receipt_hits [OF log a, of max_tool_execution_receipts "Some c"]
  have "\<exists>d \<in> set ?xs. dget (ev_payload d) ''call_id'' \<noteq> PyStr c" by (rule bexI [OF _ hit]) (simp add: assms(3,5))
  then have bad: "check_receipts ?a c 0 [] [] ?xs = Inl (model_error ''tool execution receipt call identity changed'')"
    by (intro check_receipts_padded hits) simp_all
  have found: "lookup_receipt_events sha ex ?a ''tool_execution'' (Some c) None max_tool_execution_receipts db =
      Inr (?xs, length ?hits > max_tool_execution_receipts)"
    using lookup_receipt_events_spec [OF assms(1) a, of None "''tool_execution''" "Some c" max_tool_execution_receipts]
    by (simp add: sql_range_def max_sql_int_def)
  moreover have "lookup_tool_execution_receipts sha ex ?a call db = Inl (model_error ''tool execution receipt call identity changed'')"
    using bad found assms(7) required_text_again [OF assms(7)] log
    by (simp add: lookup_tool_execution_receipts_def mk_tool_receipt_lookup_def del: filter_append filter.simps)
  ultimately show ?thesis using hit by blast
qed

theorem padded_call_id_blocks_lookup_witness:
  "is_ok (fst (append_event no_digest ''exec-1'' (demo_request '' call-1'') empty_db)) \<and>
   lookup_tool_execution_receipts no_digest ''exec-1'' demo_attempt (PyStr ''call-1'') (snd (append_event no_digest ''exec-1'' (demo_request '' call-1'') empty_db)) =
     Inl (model_error ''tool execution receipt call identity changed'')"
proof -
  let ?e = "event_of (demo_request '' call-1'') 1"
  have s: "gr_execution_id (at_generation (rq_attempt (demo_request '' call-1''))) = ''exec-1''"
    by (simp add: demo_request_def demo_attempt_def)
  have l: "log_append (demo_request '' call-1'') {} [] = (Appended ?e, [] @ ?e # [])" by code_simp
  have h: "holds_log no_digest ''exec-1'' (snd (append_event no_digest ''exec-1'' (demo_request '' call-1'') empty_db)) ([] @ ?e # [])"
    using append_event_spec [OF empty_db_holds demo_request_ok(2) s prod.collapse [symmetric] l [folded demo_other [of "''exec-1''"]]]
    by blast
  have e: "ev_event_type ?e \<in> set tool_execution_receipt_types" "dget (ev_payload ?e) ''call_id'' = PyStr '' call-1''"
    "required_text ''call_id'' 256 True (PyStr '' call-1'') = Inr ''call-1''" "'' call-1'' \<noteq> ''call-1''" "ev_attempt ?e = demo_attempt"
    "length (filter (has_receipt (ev_attempt ?e) (''tool_execution'', Some ''call-1'', None)) []) < max_tool_execution_receipts"
    "required_text ''call_id'' 256 True (PyStr ''call-1'') = Inr ''call-1''"
    "is_ok (fst (append_event no_digest ''exec-1'' (demo_request '' call-1'') empty_db))"
    by code_simp+
  from padded_call_id_blocks_lookup [OF h e(1-4,6,7)] e(5,8) show ?thesis by simp
qed

end
