(* ===== verification/SqlLeases.thy ===== *)
theory SqlLeases
  imports LeaseProtocol SqlStore
begin

section \<open>Request leases in the durable store\<close>

text \<open>
  The lease half of \<open>persistence/sqlite_v2.py\<close>: every revision of a lease is a row, a head row per
  subject names the latest one, and \<open>compare_and_swap\<close> adds a revision inside one transaction. The
  theory shows that the tables hold one history of leases per execution, that the store meets the
  contract \<open>lease_store\<close> of the coordinator, with the journal and the other executions as its
  environment, and draws the consequences for the whole: a provider request is sent at most once.
\<close>

subsection \<open>Keys and digests\<close>

definition subject_key :: "request_subject \<Rightarrow> subject_key" where
  "subject_key s = (gr_execution_id (at_generation (su_attempt s)), gr_generation_id (at_generation (su_attempt s)),
     at_attempt_id (su_attempt s), su_iteration s, su_envelope_sha256 s, su_route s, su_retry_ordinal s)"

definition subject_target :: "(blob \<Rightarrow> string) \<Rightarrow> request_subject \<Rightarrow> int \<Rightarrow> string" where
  "subject_target sha s revision =
     sha (canonical_json_bytes (PyDict [(''subject'', request_subject_to_dict s), (''revision'', PyInt revision)]))"

definition subject_sha256 :: "(blob \<Rightarrow> string) \<Rightarrow> request_subject \<Rightarrow> string" where
  "subject_sha256 sha s = sha (canonical_json_bytes (request_subject_to_dict s))"

definition lease_target_kind :: string where "lease_target_kind = ''provider_request_lease''"

subsection \<open>Reading a lease\<close>

definition lease_from_row :: "(blob \<Rightarrow> string) \<Rightarrow> lease_row \<Rightarrow> (py_exc, request_lease) res" where
  "lease_from_row sha r =
     (if sha (lw_lease_json r) \<noteq> lw_lease_sha256 r then Inl (store_integrity ''provider request lease digest changed'')
      else case json_loads (lw_lease_json r) of
        None \<Rightarrow> Inl (store_integrity ''provider request lease record is malformed'')
      | Some decoded \<Rightarrow>
          (case request_lease_from_dict decoded of
             Inl _ \<Rightarrow> Inl (store_integrity ''provider request lease record is malformed'')
           | Inr l \<Rightarrow>
               if canonical_json_bytes (request_lease_to_dict l) \<noteq> lw_lease_json r
               then Inl (store_integrity ''provider request lease record is not canonical'')
               else if subject_key (ls_subject l) \<noteq> lw_key r \<or> ls_revision l \<noteq> lw_revision r \<or>
                       op_operation_id (ls_operation l) \<noteq> lw_operation_id r
               then Inl (store_integrity ''provider request lease indexed fields changed'')
               else Inr l))"

text \<open>\<open>SELECT MAX(revision)\<close>: NULL when there is no row.\<close>

definition latest_revision :: "subject_key \<Rightarrow> store_db \<Rightarrow> int option" where
  "latest_revision k db =
     (case map lw_revision (filter (\<lambda>r. lw_key r = k) (db_lease_revisions db)) of
        [] \<Rightarrow> None
      | n # ns \<Rightarrow> Some (fold max ns n))"

text \<open>Evidence that a request was sent although its lease rows are gone.\<close>

definition send_evidence :: "(blob \<Rightarrow> string) \<Rightarrow> string \<Rightarrow> request_subject \<Rightarrow> store_db \<Rightarrow> bool" where
  "send_evidence sha ex s db =
     ((\<exists>p \<in> set (db_operations db). ow_execution_id p = ex \<and> ow_target_kind p = lease_target_kind \<and>
          ow_target_key p = subject_target sha s 1) \<or>
      map_of (db_result_receipts db) (subject_key s) \<noteq> None \<or>
      (\<exists>a \<in> set (db_artifacts db). aw_execution_id a = ex \<and> aw_logical_kind a = ''provider_turn_result_artifact'' \<and>
          aw_logical_key a = subject_sha256 sha s))"

definition load_lease_in_transaction ::
  "(blob \<Rightarrow> string) \<Rightarrow> string \<Rightarrow> request_subject \<Rightarrow> store_db \<Rightarrow> (py_exc, request_lease option) res" where
  "load_lease_in_transaction sha ex s db =
     (let k = subject_key s in
      case map_of (db_lease_heads db) k of
        None \<Rightarrow>
          if \<exists>r \<in> set (db_lease_revisions db). lw_key r = k
          then Inl (lease_integrity ''provider request lease revision has no durable head'')
          else if send_evidence sha ex s db
          then Inl (lease_integrity ''provider request lease rows are missing despite durable send evidence'')
          else Inr None
      | Some current \<Rightarrow>
          if latest_revision k db \<noteq> Some current
          then Inl (lease_integrity ''provider request lease head does not name its latest revision'')
          else (case find (\<lambda>r. lw_key r = k \<and> lw_revision r = current) (db_lease_revisions db) of
                  None \<Rightarrow> Inl (lease_integrity ''provider request lease head points to a missing revision'')
                | Some r \<Rightarrow> bindr (lease_from_row sha r) (\<lambda>l. Inr (Some l))))"

definition load_lease :: "(blob \<Rightarrow> string) \<Rightarrow> string \<Rightarrow> request_subject \<Rightarrow> store_db \<Rightarrow> (py_exc, request_lease option) res" where
  "load_lease sha ex s db =
     bindr (scope_attempt ex (su_attempt s) lease_integrity) (\<lambda>_.
       fst (transaction id (bindt (select (load_lease_in_transaction sha ex s)) lift_res) db))"

subsection \<open>Compare and swap\<close>

definition insert_lease_revision :: "lease_row \<Rightarrow> unit tx" where
  "insert_lease_revision r =
     bindt (bind_int (lw_revision r)) (\<lambda>_.
     bindt (require (lw_revision r \<ge> 1) ''CHECK constraint failed: revision >= 1'') (\<lambda>_.
     bindt (select (\<lambda>db. \<exists>q \<in> set (db_lease_revisions db). lw_key q = lw_key r \<and> lw_revision q = lw_revision r \<or>
         fst (lw_key q) = fst (lw_key r) \<and> lw_operation_id q = lw_operation_id r)) (\<lambda>clash.
     bindt (require (\<not> clash) ''UNIQUE constraint failed: provider_request_lease_revisions'') (\<lambda>_.
     bindt (select (\<lambda>db. operation_row (fst (lw_key r)) (lw_operation_id r) db \<noteq> None)) (\<lambda>known.
     bindt (require known ''FOREIGN KEY constraint failed'') (\<lambda>_.
       update_db (\<lambda>db. db\<lparr>db_lease_revisions := db_lease_revisions db @ [r]\<rparr>)))))))"

definition insert_lease_head :: "subject_key \<Rightarrow> int \<Rightarrow> unit tx" where
  "insert_lease_head k n =
     bindt (bind_int n) (\<lambda>_.
     bindt (require (n \<ge> 1) ''CHECK constraint failed: current_revision >= 1'') (\<lambda>_.
     bindt (select (\<lambda>db. map_of (db_lease_heads db) k = None)) (\<lambda>fresh.
     bindt (require fresh ''UNIQUE constraint failed: provider_request_lease_heads'') (\<lambda>_.
     bindt (select (\<lambda>db. has_execution db (fst k))) (\<lambda>known.
     bindt (require known ''FOREIGN KEY constraint failed'') (\<lambda>_.
       update_db (\<lambda>db. db\<lparr>db_lease_heads := db_lease_heads db @ [(k, n)]\<rparr>)))))))"

definition update_lease_head :: "subject_key \<Rightarrow> int \<Rightarrow> int \<Rightarrow> nat tx" where
  "update_lease_head k expected n =
     bindt (bind_int n) (\<lambda>_. bindt (bind_int expected) (\<lambda>_ db.
       let hit = (\<lambda>p. fst p = k \<and> snd p = expected) in
       Inr (length (filter hit (db_lease_heads db)),
            db\<lparr>db_lease_heads := map (\<lambda>p. if hit p then (k, n) else p) (db_lease_heads db)\<rparr>)))"

definition lease_row_of :: "(blob \<Rightarrow> string) \<Rightarrow> request_lease \<Rightarrow> lease_row" where
  "lease_row_of sha l =
     (let json = canonical_json_bytes (request_lease_to_dict l) in
      \<lparr>lw_key = subject_key (ls_subject l), lw_revision = ls_revision l, lw_operation_id = op_operation_id (ls_operation l),
       lw_lease_json = json, lw_lease_sha256 = sha json\<rparr>)"

definition move_lease_head :: "request_lease option \<Rightarrow> int \<Rightarrow> request_lease \<Rightarrow> request_lease tx" where
  "move_lease_head current expected repl =
     (if current = None
      then bindt (insert_lease_head (subject_key (ls_subject repl)) (ls_revision repl)) (\<lambda>_. ret repl)
      else bindt (update_lease_head (subject_key (ls_subject repl)) expected (ls_revision repl)) (\<lambda>updated.
        if updated \<noteq> 1 then raise (lease_conflict ''provider request lease head CAS conflict'')
        else ret repl))"

definition swap_in_transaction :: "(blob \<Rightarrow> string) \<Rightarrow> string \<Rightarrow> int \<Rightarrow> request_lease \<Rightarrow> request_lease tx" where
  "swap_in_transaction sha ex expected repl =
     bindt (bindt (select (load_lease_in_transaction sha ex (ls_subject repl))) lift_res) (\<lambda>current.
       if revision_of current \<noteq> expected then raise (lease_conflict ''provider request lease CAS conflict'')
       else if ls_revision repl \<noteq> expected + 1
       then raise (lease_conflict ''provider request lease revision is not the next revision'') else
     bindt (claim_operation ex (ls_operation repl) lease_target_kind (subject_target sha (ls_subject repl) (ls_revision repl))
         lease_conflict) (\<lambda>_.
     bindt (insert_lease_revision (lease_row_of sha repl)) (\<lambda>_.
       move_lease_head current expected repl)))"

definition compare_and_swap ::
  "(blob \<Rightarrow> string) \<Rightarrow> string \<Rightarrow> request_subject \<Rightarrow> int \<Rightarrow> request_lease \<Rightarrow> store_db \<Rightarrow>
   (py_exc, request_lease) res \<times> store_db" where
  "compare_and_swap sha ex s expected repl db =
     (if ls_subject repl \<noteq> s then (Inl (lease_integrity ''replacement subject changed''), db)
      else case bindr (scope_attempt ex (su_attempt s) lease_integrity) (\<lambda>_. nonnegative_int ''expected_revision'' expected) of
        Inl e \<Rightarrow> (Inl e, db)
      | Inr _ \<Rightarrow>
          transaction (catch_integrity (lease_conflict ''provider request lease operation or subject conflicted''))
            (bindt (ensure_execution ex) (\<lambda>_. swap_in_transaction sha ex expected repl)) db)"

definition sql_port :: "(blob \<Rightarrow> string) \<Rightarrow> string \<Rightarrow> store_db lease_port" where
  "sql_port sha ex = \<lparr>port_load = load_lease sha ex, port_cas = compare_and_swap sha ex\<rparr>"

subsection \<open>The history the tables hold\<close>

lemma subject_key_eq [simp]: "subject_key s = subject_key t \<longleftrightarrow> s = t"
  by (auto simp: subject_key_def intro!: request_subject.equality attempt_ref.equality generation_ref.equality)

abbreviation subject_execution :: "request_subject \<Rightarrow> string" where
  "subject_execution s \<equiv> gr_execution_id (at_generation (su_attempt s))"

lemma fst_subject_key [simp]: "fst (subject_key s) = subject_execution s"
  by (simp add: subject_key_def)

definition revisions :: "request_lease list \<Rightarrow> request_subject \<Rightarrow> request_lease list" where
  "revisions ls s = filter (\<lambda>l. ls_subject l = s) ls"

definition current :: "request_lease list \<Rightarrow> request_subject \<Rightarrow> request_lease option" where
  "current ls s = (if revisions ls s = [] then None else Some (last (revisions ls s)))"

definition head_of :: "request_lease list \<Rightarrow> request_subject \<Rightarrow> (subject_key \<times> int) list" where
  "head_of ls s = (case current ls s of None \<Rightarrow> [] | Some l \<Rightarrow> [(subject_key s, ls_revision l)])"

definition holds_leases :: "(blob \<Rightarrow> string) \<Rightarrow> string \<Rightarrow> store_db \<Rightarrow> request_lease list \<Rightarrow> bool" where
  "holds_leases sha ex db ls \<longleftrightarrow>
     (\<forall>l \<in> set ls. request_lease_ok l \<and> subject_execution (ls_subject l) = ex) \<and>
     filter (\<lambda>r. fst (lw_key r) = ex) (db_lease_revisions db) = map (lease_row_of sha) ls \<and>
     (\<forall>s. map ls_revision (revisions ls s) = map int [1..<length (revisions ls s) + 1]) \<and>
     (\<forall>s. subject_execution s = ex \<longrightarrow> filter (\<lambda>p. fst p = subject_key s) (db_lease_heads db) = head_of ls s) \<and>
     (\<forall>l \<in> set ls. operation_row ex (op_operation_id (ls_operation l)) db \<noteq> None)"

text \<open>The history as a function of the database: the leases the revision rows decode to.\<close>

definition row_lease :: "lease_row \<Rightarrow> request_lease option" where
  "row_lease r = (case json_loads (lw_lease_json r) of
     None \<Rightarrow> None
   | Some v \<Rightarrow> (case request_lease_from_dict v of Inl _ \<Rightarrow> None | Inr l \<Rightarrow> Some l))"

definition lease_log :: "string \<Rightarrow> store_db \<Rightarrow> request_lease list" where
  "lease_log ex db = List.map_filter row_lease (filter (\<lambda>r. fst (lw_key r) = ex) (db_lease_revisions db))"

definition lease_view :: "string \<Rightarrow> store_db \<Rightarrow> request_subject \<Rightarrow> request_lease option" where
  "lease_view ex db = current (lease_log ex db)"

definition leases_ok :: "(blob \<Rightarrow> string) \<Rightarrow> string \<Rightarrow> store_db \<Rightarrow> bool" where
  "leases_ok sha ex db = holds_leases sha ex db (lease_log ex db)"

lemma lease_row_of_sel [simp]:
  "lw_key (lease_row_of sha l) = subject_key (ls_subject l)" "lw_revision (lease_row_of sha l) = ls_revision l"
  "lw_operation_id (lease_row_of sha l) = op_operation_id (ls_operation l)"
  by (simp_all add: lease_row_of_def Let_def)

lemma row_lease_of: "request_lease_ok l \<Longrightarrow> row_lease (lease_row_of sha l) = Some l"
  by (simp add: row_lease_def lease_row_of_def Let_def canonical_json_bytes_def request_lease.canonical_trip)

lemma lease_from_row_of: "request_lease_ok l \<Longrightarrow> lease_from_row sha (lease_row_of sha l) = Inr l"
  by (simp add: lease_from_row_def) (simp add: lease_row_of_def Let_def canonical_json_bytes_def request_lease.canonical_trip)

lemma map_filter_row_lease: "\<forall>l \<in> set ls. request_lease_ok l \<Longrightarrow> List.map_filter row_lease (map (lease_row_of sha) ls) = ls"
  by (induction ls) (simp_all add: row_lease_of)

lemma lease_log_holds: "holds_leases sha ex db ls \<Longrightarrow> lease_log ex db = ls"
  by (simp add: lease_log_def holds_leases_def map_filter_row_lease)

lemma leases_ok_iff: "leases_ok sha ex db \<longleftrightarrow> (\<exists>ls. holds_leases sha ex db ls)"
  by (metis leases_ok_def lease_log_holds)

lemma lease_view_holds: "holds_leases sha ex db ls \<Longrightarrow> lease_view ex db = current ls"
  by (simp add: lease_view_def lease_log_holds)

lemma current_Some: "current ls s = Some l \<Longrightarrow> l \<in> set ls \<and> ls_subject l = s"
  by (auto simp: current_def revisions_def split: if_splits dest: last_in_set)

lemma holds_revisions:
  assumes "holds_leases sha ex db ls" "subject_execution s = ex"
  shows "filter (\<lambda>r. lw_key r = subject_key s) (db_lease_revisions db) = map (lease_row_of sha) (revisions ls s)"
proof -
  have "filter (\<lambda>r. lw_key r = subject_key s) (db_lease_revisions db) =
      filter (\<lambda>r. lw_key r = subject_key s) (filter (\<lambda>r. fst (lw_key r) = ex) (db_lease_revisions db))"
    using assms(2) by (auto intro: filter_cong)
  also have "filter (\<lambda>r. fst (lw_key r) = ex) (db_lease_revisions db) = map (lease_row_of sha) ls"
    using assms(1) by (simp add: holds_leases_def)
  finally show ?thesis by (simp add: filter_map comp_def revisions_def)
qed

lemma holds_lease_row:
  assumes "holds_leases sha ex db ls" "q \<in> set (db_lease_revisions db)" "fst (lw_key q) = ex"
  shows "\<exists>l \<in> set ls. q = lease_row_of sha l"
proof -
  have "q \<in> set (filter (\<lambda>r. fst (lw_key r) = ex) (db_lease_revisions db))" using assms(2,3) by simp
  also have "filter (\<lambda>r. fst (lw_key r) = ex) (db_lease_revisions db) = map (lease_row_of sha) ls" using assms(1) by (simp add: holds_leases_def)
  finally show ?thesis by auto
qed

lemma holds_revision_numbers:
  "holds_leases sha ex db ls \<Longrightarrow> map ls_revision (revisions ls s) = map int [1..<length (revisions ls s) + 1]"
  by (simp add: holds_leases_def del: upt_Suc)

lemma current_revision:
  assumes "holds_leases sha ex db ls"
  shows "revision_of (current ls s) = int (length (revisions ls s))"
proof (cases "revisions ls s = []")
  case False
  then have "revision_of (current ls s) = last (map ls_revision (revisions ls s))" by (simp add: current_def revision_of_def last_map)
  also have "\<dots> = int (length (revisions ls s))"
    unfolding holds_revision_numbers [OF assms] using False by (simp add: last_map Suc_le_eq)
  finally show ?thesis .
qed (simp add: current_def revision_of_def)

lemma revision_bound:
  assumes "holds_leases sha ex db ls" "l \<in> set ls"
  shows "ls_revision l \<le> revision_of (current ls (ls_subject l))"
proof -
  have "ls_revision l \<in> set (map ls_revision (revisions ls (ls_subject l)))" using assms(2) by (simp add: revisions_def)
  then show ?thesis unfolding holds_revision_numbers [OF assms(1)] current_revision [OF assms(1)] by auto
qed

lemma fold_max_upto: "fold max (map int [2..<Suc n]) 1 = (if n = 0 then 1 else int n)"
proof (induction n)
  case (Suc n)
  then show ?case by (cases "n = 0") (auto simp: max_def)
qed simp

lemma holds_latest:
  assumes "holds_leases sha ex db ls" "subject_execution s = ex"
  shows "latest_revision (subject_key s) db = map_option ls_revision (current ls s)"
proof -
  let ?n = "length (revisions ls s)"
  note revs = holds_revision_numbers [OF assms(1), of s]
  have eq: "map lw_revision (filter (\<lambda>r. lw_key r = subject_key s) (db_lease_revisions db)) = map int [1..<?n + 1]"
    using holds_revisions [OF assms] revs by (simp add: comp_def del: upt_Suc)
  show ?thesis
  proof (cases "revisions ls s = []")
    case True
    then show ?thesis using eq by (simp add: latest_revision_def current_def)
  next
    case False
    then have upt: "[1..<?n + 1] = 1 # [2..<Suc ?n]" by (simp add: upt_rec numeral_2_eq_2 del: upt_Suc)
    have "ls_revision (last (revisions ls s)) = int ?n"
      using current_revision [OF assms(1), of s] False by (simp add: current_def revision_of_def)
    then show ?thesis
      using eq False fold_max_upto [of ?n] unfolding latest_revision_def upt by (simp add: current_def del: upt_Suc)
  qed
qed

lemma holds_head_lookup:
  assumes "holds_leases sha ex db ls" "subject_execution s = ex"
  shows "map_of (db_lease_heads db) (subject_key s) = map_option ls_revision (current ls s)"
  using assms map_of_filter_fst [of "db_lease_heads db" "subject_key s"]
  by (simp add: holds_leases_def head_of_def split: option.split)

lemma load_lease_spec:
  assumes holds: "holds_leases sha ex db ls" and s: "subject_execution s = ex"
  shows "load_lease_in_transaction sha ex s db =
    (case current ls s of
       None \<Rightarrow> if send_evidence sha ex s db
         then Inl (lease_integrity ''provider request lease rows are missing despite durable send evidence'') else Inr None
     | Some l \<Rightarrow> Inr (Some l))"
proof (cases "current ls s")
  case None
  then have "revisions ls s = []" by (simp add: current_def split: if_splits)
  then have "\<not> (\<exists>r \<in> set (db_lease_revisions db). lw_key r = subject_key s)"
    using holds_revisions [OF assms] by (auto simp: filter_empty_conv)
  then show ?thesis using None holds_head_lookup [OF assms] by (simp add: load_lease_in_transaction_def Let_def)
next
  case (Some l)
  have l: "l \<in> set (revisions ls s)" using Some by (auto simp: current_def split: if_splits)
  have "distinct (map ls_revision (revisions ls s))" using holds by (simp add: holds_leases_def distinct_map del: upt_Suc)
  then have "find (\<lambda>x. ls_revision x = ls_revision l) (revisions ls s) = Some l" using l by (rule find_distinct)
  then have "find (\<lambda>r. lw_key r = subject_key s \<and> lw_revision r = ls_revision l) (db_lease_revisions db) = Some (lease_row_of sha l)"
    using find_filter [of "\<lambda>r. lw_key r = subject_key s \<and> lw_revision r = ls_revision l" "\<lambda>r. lw_key r = subject_key s" "db_lease_revisions db"]
      find_cong [OF refl, of "revisions ls s" "\<lambda>x. ls_subject x = s \<and> ls_revision x = ls_revision l" "\<lambda>x. ls_revision x = ls_revision l"]
    by (auto simp: holds_revisions [OF assms] find_map comp_def) (auto simp: revisions_def)
  moreover have "request_lease_ok l" using l holds by (auto simp: revisions_def holds_leases_def)
  ultimately show ?thesis
    using Some holds_head_lookup [OF assms] holds_latest [OF assms] by (simp add: load_lease_in_transaction_def Let_def lease_from_row_of)
qed

subsection \<open>A granted swap adds one revision\<close>

lemma claim_operation_cases:
  "claim_operation ex opr kind key conflict db = Inr (b, db') \<Longrightarrow>
   db' = db \<or> operation_row ex (op_operation_id opr) db = None \<and>
     db' = db\<lparr>db_operations := db_operations db @ [operation_row_of ex opr kind key]\<rparr>"
  by (auto simp: claim_operation_def insert_operation_def tx_simps operation_row_of_def split: option.splits if_splits)

lemma insert_lease_revision_Inr:
  "insert_lease_revision r db = Inr (u, db') \<longleftrightarrow>
   sql_range (lw_revision r) \<and> lw_revision r \<ge> 1 \<and>
   \<not> (\<exists>q \<in> set (db_lease_revisions db). lw_key q = lw_key r \<and> lw_revision q = lw_revision r \<or>
         fst (lw_key q) = fst (lw_key r) \<and> lw_operation_id q = lw_operation_id r) \<and>
   operation_row (fst (lw_key r)) (lw_operation_id r) db \<noteq> None \<and>
   db' = db\<lparr>db_lease_revisions := db_lease_revisions db @ [r]\<rparr>"
  by (auto simp: insert_lease_revision_def tx_simps)

lemma insert_lease_head_Inr:
  "insert_lease_head k n db = Inr (u, db') \<longleftrightarrow>
   sql_range n \<and> n \<ge> 1 \<and> map_of (db_lease_heads db) k = None \<and> has_execution db (fst k) \<and>
   db' = db\<lparr>db_lease_heads := db_lease_heads db @ [(k, n)]\<rparr>"
  by (auto simp: insert_lease_head_def tx_simps)

lemma update_lease_head_Inr:
  "update_lease_head k e n db = Inr (c, db') \<longleftrightarrow>
   sql_range n \<and> sql_range e \<and> c = length (filter (\<lambda>p. fst p = k \<and> snd p = e) (db_lease_heads db)) \<and>
   db' = db\<lparr>db_lease_heads := map (\<lambda>p. if fst p = k \<and> snd p = e then (k, n) else p) (db_lease_heads db)\<rparr>"
  by (auto simp: update_lease_head_def tx_simps Let_def)

text \<open>The database after a granted swap, from the database its transaction claimed the operation in.\<close>

definition swapped_db :: "(blob \<Rightarrow> string) \<Rightarrow> request_lease option \<Rightarrow> int \<Rightarrow> request_lease \<Rightarrow> store_db \<Rightarrow> store_db" where
  "swapped_db sha cur e r db = db\<lparr>
     db_lease_revisions := db_lease_revisions db @ [lease_row_of sha r],
     db_lease_heads := (if cur = None then db_lease_heads db @ [(subject_key (ls_subject r), ls_revision r)]
       else map (\<lambda>p. if fst p = subject_key (ls_subject r) \<and> snd p = e then (subject_key (ls_subject r), ls_revision r) else p)
              (db_lease_heads db))\<rparr>"

lemma compare_and_swap_granted:
  assumes "compare_and_swap sha ex s e r db = (Inr x, db')"
  obtains cur db2 where "x = r" "ls_subject r = s" "subject_execution s = ex" "e \<ge> 0"
    "load_lease_in_transaction sha ex s (ensured ex db) = Inr cur" "revision_of cur = e" "ls_revision r = e + 1"
    "db2 = ensured ex db \<or> operation_row ex (op_operation_id (ls_operation r)) db = None \<and>
       db2 = (ensured ex db)\<lparr>db_operations := db_operations (ensured ex db) @
         [operation_row_of ex (ls_operation r) lease_target_kind (subject_target sha s (ls_revision r))]\<rparr>"
    "operation_row ex (op_operation_id (ls_operation r)) db2 \<noteq> None" "db' = swapped_db sha cur e r db2"
proof -
  let ?db = "ensured ex db"
  have s: "ls_subject r = s" "subject_execution s = ex" "e \<ge> 0"
    using assms by (auto simp: compare_and_swap_def scope_attempt_def nonnegative_int_def split: if_splits)
  have body: "swap_in_transaction sha ex e r ?db = Inr (x, db')"
    using assms s
    by (auto simp: compare_and_swap_def scope_attempt_def nonnegative_int_def transaction_def ensure_execution_def tx_simps
        ensured_def [symmetric] split: sum.splits)
  obtain cur b db2 where cur: "load_lease_in_transaction sha ex s ?db = Inr cur" "revision_of cur = e" "ls_revision r = e + 1"
      and claim: "claim_operation ex (ls_operation r) lease_target_kind (subject_target sha s (ls_revision r)) lease_conflict ?db = Inr (b, db2)"
      and rest: "bindt (insert_lease_revision (lease_row_of sha r)) (\<lambda>_. move_lease_head cur e r) db2 = Inr (x, db')"
    using body s(1) by (auto simp: swap_in_transaction_def tx_simps bindr_eq_Inr bindt_Inr split: if_splits)
  have "x = r \<and> db' = swapped_db sha cur e r db2 \<and> operation_row ex (op_operation_id (ls_operation r)) db2 \<noteq> None"
    using rest s(1,2)
    by (cases "cur = None")
      (auto simp: move_lease_head_def bindt_Inr insert_lease_revision_Inr insert_lease_head_Inr update_lease_head_Inr ret_def raise_def swapped_db_def
        split: if_splits)
  then show thesis
    using that [of cur db2] s cur claim_operation_cases [OF claim] by auto
qed

lemma revisions_append: "revisions (ls @ [r]) s = (if ls_subject r = s then revisions ls s @ [r] else revisions ls s)"
  by (simp add: revisions_def)

lemma current_append: "current (ls @ [r]) s = (if ls_subject r = s then Some r else current ls s)"
  by (simp add: current_def revisions_append)

lemma holds_leases_cong:
  assumes "filter (\<lambda>r. fst (lw_key r) = ex) (db_lease_revisions db') = filter (\<lambda>r. fst (lw_key r) = ex) (db_lease_revisions db)"
    "filter (\<lambda>p. fst (fst p) = ex) (db_lease_heads db') = filter (\<lambda>p. fst (fst p) = ex) (db_lease_heads db)"
    "\<And>i. operation_row ex i db \<noteq> None \<Longrightarrow> operation_row ex i db' \<noteq> None"
    and holds: "holds_leases sha ex db ls"
  shows "holds_leases sha ex db' ls"
proof -
  have "filter (\<lambda>p. fst p = subject_key s) (db_lease_heads db') = filter (\<lambda>p. fst p = subject_key s) (db_lease_heads db)"
    if "subject_execution s = ex" for s
  proof -
    have "filter (\<lambda>p. fst p = subject_key s) xs = filter (\<lambda>p. fst p = subject_key s) (filter (\<lambda>p. fst (fst p) = ex) xs)"
      for xs :: "(subject_key \<times> int) list" using that by (auto intro: filter_cong)
    then show ?thesis using assms(2) by metis
  qed
  then show ?thesis using assms(1,3) holds unfolding holds_leases_def by simp
qed

lemma filter_map_other:
  "\<lbrakk>\<And>p. H p \<Longrightarrow> \<not> P p; \<not> P y\<rbrakk> \<Longrightarrow> filter P (map (\<lambda>p. if H p then y else p) xs) = filter P xs"
  by (induction xs) auto

lemma swapped_holds:
  assumes holds: "holds_leases sha ex db ls" and r: "request_lease_ok r" "subject_execution (ls_subject r) = ex"
    and cur: "cur = current ls (ls_subject r)" "revision_of cur = e" "ls_revision r = e + 1"
    and op: "operation_row ex (op_operation_id (ls_operation r)) db \<noteq> None"
  shows "holds_leases sha ex (swapped_db sha cur e r db) (ls @ [r])"
proof -
  let ?db = "swapped_db sha cur e r db" and ?s = "ls_subject r"
  note revs = holds_revision_numbers [OF holds]
  have e: "e = int (length (revisions ls ?s))" using current_revision [OF holds] cur(1,2) by simp
  have "map ls_revision (revisions (ls @ [r]) s) = map int [1..<length (revisions (ls @ [r]) s) + 1]" for s
    using revs [of s] e cur(3) by (auto simp: revisions_append)
  moreover have "filter (\<lambda>x. fst (lw_key x) = ex) (db_lease_revisions ?db) = map (lease_row_of sha) (ls @ [r])"
    using holds r(2) by (simp add: holds_leases_def swapped_db_def)
  moreover have "filter (\<lambda>p. fst p = subject_key s) (db_lease_heads ?db) = head_of (ls @ [r]) s" if s: "subject_execution s = ex" for s
  proof (cases "s = ?s")
    case True
    have old: "filter (\<lambda>p. fst p = subject_key s) (db_lease_heads db) = head_of ls s" using holds s by (simp add: holds_leases_def)
    show ?thesis
    proof (cases cur)
      case None
      then show ?thesis using True old cur(1) by (simp add: swapped_db_def head_of_def current_append)
    next
      case (Some l)
      then have "filter (\<lambda>p. fst p = subject_key ?s) (db_lease_heads db) = [(subject_key ?s, e)]"
        using True old cur(1,2) by (simp add: head_of_def revision_of_def)
      from head_advanced [OF this, of "ls_revision r"] show ?thesis
        unfolding True using Some by (simp add: swapped_db_def head_of_def current_append)
    qed
  next
    case False
    then have "filter (\<lambda>p. fst p = subject_key s) (db_lease_heads ?db) = filter (\<lambda>p. fst p = subject_key s) (db_lease_heads db)"
      by (auto simp: swapped_db_def intro!: filter_map_other)
    then show ?thesis using holds s False by (simp add: holds_leases_def head_of_def current_append)
  qed
  moreover have "operation_row ex i ?db = operation_row ex i db" for i by (simp add: swapped_db_def operation_row_def)
  ultimately show ?thesis using holds r op by (auto simp: holds_leases_def)
qed

lemma ensured_lease_tables [simp]:
  "db_lease_revisions (ensured ex db) = db_lease_revisions db" "db_lease_heads (ensured ex db) = db_lease_heads db"
  by (simp_all add: ensured_def)

lemma compare_and_swap_holds:
  assumes holds: "holds_leases sha ex db ls" and r: "request_lease_ok r"
    and run: "compare_and_swap sha ex s e r db = (Inr x, db')"
  shows "x = r \<and> ls_subject r = s \<and> subject_execution s = ex \<and> holds_leases sha ex db' (ls @ [r]) \<and>
    e = revision_of (current ls s) \<and> ls_revision r = e + 1"
  using run
proof (rule compare_and_swap_granted)
  fix cur db2
  assume parts: "x = r" "ls_subject r = s" "subject_execution s = ex" "e \<ge> 0"
    "load_lease_in_transaction sha ex s (ensured ex db) = Inr cur" "revision_of cur = e" "ls_revision r = e + 1"
    and db2: "db2 = ensured ex db \<or> operation_row ex (op_operation_id (ls_operation r)) db = None \<and>
       db2 = (ensured ex db)\<lparr>db_operations := db_operations (ensured ex db) @
         [operation_row_of ex (ls_operation r) lease_target_kind (subject_target sha s (ls_revision r))]\<rparr>"
    and op: "operation_row ex (op_operation_id (ls_operation r)) db2 \<noteq> None" and db': "db' = swapped_db sha cur e r db2"
  have "operation_row ex i db2 \<noteq> None" if "operation_row ex i db \<noteq> None" for i
    using that db2 by (auto simp: operation_row_append)
  then have e: "holds_leases sha ex (ensured ex db) ls" and h2: "holds_leases sha ex db2 ls"
    using db2 by (auto intro!: holds_leases_cong [OF _ _ _ holds])
  have cur: "cur = current ls s"
    using parts(5) unfolding load_lease_spec [OF e parts(3)] by (auto split: option.splits if_splits)
  have "holds_leases sha ex db' (ls @ [r])"
    unfolding db' using parts(2,3,6,7) cur by (intro swapped_holds [OF h2 r _ _ _ _ op]) auto
  then show ?thesis using parts cur by simp
qed

lemma compare_and_swap_refused: "compare_and_swap sha ex s e r db = (Inl x, db') \<Longrightarrow> db' = db"
  by (auto simp: compare_and_swap_def transaction_def split: if_splits sum.splits prod.splits)

lemma load_lease_view:
  assumes "leases_ok sha ex db" "load_lease sha ex s db = Inr r"
  shows "r = lease_view ex db s"
proof -
  have "subject_execution s = ex" "load_lease_in_transaction sha ex s db = Inr r"
    using assms(2)
    by (auto simp: load_lease_def scope_attempt_def transaction_def tx_simps bindr_def split: if_splits sum.splits)
  then show ?thesis
    using assms(1) load_lease_spec [of sha ex db "lease_log ex db" s] by (auto simp: leases_ok_def lease_view_def split: option.splits if_splits)
qed

subsection \<open>The other clients of the database\<close>

lemma operation_row_own:
  "operation_row ex i db = find (\<lambda>r. ow_execution_id r = ex \<and> ow_operation_id r = i) (filter (\<lambda>r. ow_execution_id r = ex) (db_operations db))"
  unfolding operation_row_def by (rule find_filter [symmetric]) simp

lemma holds_leases_view:
  assumes "execution_view ex db' = execution_view ex db"
  shows "holds_leases sha ex db' = holds_leases sha ex db" "lease_log ex db' = lease_log ex db"
proof -
  have "db_lease_revisions (execution_view ex db') = db_lease_revisions (execution_view ex db)"
      "db_lease_heads (execution_view ex db') = db_lease_heads (execution_view ex db)"
      "db_operations (execution_view ex db') = db_operations (execution_view ex db)" using assms by simp_all
  then have eqs: "filter (\<lambda>r. fst (lw_key r) = ex) (db_lease_revisions db') = filter (\<lambda>r. fst (lw_key r) = ex) (db_lease_revisions db)"
      "filter (\<lambda>p. fst (fst p) = ex) (db_lease_heads db') = filter (\<lambda>p. fst (fst p) = ex) (db_lease_heads db)"
      "filter (\<lambda>r. ow_execution_id r = ex) (db_operations db') = filter (\<lambda>r. ow_execution_id r = ex) (db_operations db)"
    by (simp_all add: execution_view_def)
  have "operation_row ex i db' = operation_row ex i db" for i
    unfolding operation_row_own [of _ _ db'] operation_row_own [of _ _ db] eqs(3) ..
  then show "holds_leases sha ex db' = holds_leases sha ex db"
    using holds_leases_cong [OF eqs(1,2)] holds_leases_cong [OF eqs(1,2) [symmetric]] by (intro ext iffI) simp_all
  show "lease_log ex db' = lease_log ex db" using eqs(1) by (simp add: lease_log_def)
qed

lemma compare_and_swap_view:
  assumes "ex' \<noteq> ex"
  shows "execution_view ex (snd (compare_and_swap sha ex' s e r db)) = execution_view ex db"
proof (cases "fst (compare_and_swap sha ex' s e r db)")
  case (Inl x)
  then show ?thesis using compare_and_swap_refused by (metis prod.collapse)
next
  case (Inr x)
  then have "compare_and_swap sha ex' s e r db = (Inr x, snd (compare_and_swap sha ex' s e r db))" by (metis prod.collapse)
  then show ?thesis
  proof (rule compare_and_swap_granted)
    fix cur db2
    assume parts: "ls_subject r = s" "subject_execution s = ex'"
      and db2: "db2 = ensured ex' db \<or> operation_row ex' (op_operation_id (ls_operation r)) db = None \<and>
         db2 = (ensured ex' db)\<lparr>db_operations := db_operations (ensured ex' db) @
           [operation_row_of ex' (ls_operation r) lease_target_kind (subject_target sha s (ls_revision r))]\<rparr>"
      and db': "snd (compare_and_swap sha ex' s e r db) = swapped_db sha cur e r db2"
    have "execution_view ex (ensured ex' db) = execution_view ex db"
      using assms by (simp add: ensured_def execution_view_def)
    then have "execution_view ex db2 = execution_view ex db"
      using db2 assms by (auto simp: execution_view_def operation_row_of_def)
    moreover have "filter (\<lambda>p. fst (fst p) = ex) (map (\<lambda>p. if fst p = subject_key (ls_subject r) \<and> snd p = e
          then (subject_key (ls_subject r), ls_revision r) else p) xs) = filter (\<lambda>p. fst (fst p) = ex) xs" for xs
      using assms parts by (intro filter_map_other) auto
    then have "execution_view ex (swapped_db sha cur e r db2) = execution_view ex db2"
      using assms parts by (simp add: swapped_db_def execution_view_def)
    ultimately show ?thesis using db' by simp
  qed
qed

text \<open>Appending to a journal, of this execution or another, touches no lease.\<close>

definition same_leases :: "store_db \<Rightarrow> store_db \<Rightarrow> bool" where
  "same_leases db db' \<longleftrightarrow> db_lease_revisions db' = db_lease_revisions db \<and> db_lease_heads db' = db_lease_heads db \<and>
     (\<forall>ex i. operation_row ex i db \<noteq> None \<longrightarrow> operation_row ex i db' \<noteq> None)"

lemma same_leases_order: "reflp same_leases" "transp same_leases"
  by (simp_all add: same_leases_def reflp_def transp_def)

lemmas lease_keeps = keeps_bindt [OF same_leases_order(2)] keeps_pure [OF same_leases_order(1)]

lemma update_same_leases: "(\<And>db. same_leases db (g db)) \<Longrightarrow> tx_keeps same_leases (update_db g)"
  by (rule keeps_update)

lemma append_with_connection_same_leases: "tx_keeps same_leases (append_with_connection sha ex q)"
  unfolding append_with_connection_def claim_operation_def insert_operation_def insert_event_def insert_receipt_def advance_head_def
  by (intro lease_keeps keeps_option keeps_if update_same_leases)
    (auto simp: same_leases_def tx_keeps_def Let_def operation_row_append, auto simp: operation_row_def)

lemma append_event_same_leases: "same_leases db (snd (append_event sha ex q db))"
proof -
  have "tx_keeps same_leases (replayed_append sha ex q)"
    unfolding replayed_append_def by (intro lease_keeps keeps_option keeps_if)
  moreover have "tx_keeps same_leases (ensure_execution ex)"
    unfolding ensure_execution_def by (rule update_same_leases) (simp add: same_leases_def)
  ultimately have "tx_keeps same_leases (bindt (ensure_execution ex) (\<lambda>_. bindt (replayed_append sha ex q) (\<lambda>replayed.
      case replayed of Some x \<Rightarrow> ret x | None \<Rightarrow> append_with_connection sha ex q)))"
    by (intro lease_keeps keeps_option append_with_connection_same_leases)
  from transaction_keeps [OF this] show ?thesis by (simp add: append_event_def same_leases_def split: sum.split)
qed

lemma bind_execution_view:
  assumes "fst (bind_execution v db) \<noteq> Inr ex"
  shows "execution_view ex (snd (bind_execution v db)) = execution_view ex db"
proof (cases "required_text ''execution_id'' 256 True v")
  case (Inr ex')
  then have "ex' \<noteq> ex" "snd (bind_execution v db) = ensured ex' db"
    using assms by (auto simp: bind_execution_def transaction_def ensure_execution_def tx_simps ensured_def)
  then show ?thesis by (simp add: ensured_def execution_view_def)
qed (simp add: bind_execution_def)

lemma bind_execution_ensures: "snd (bind_execution v db) = db \<or> (\<exists>ex. snd (bind_execution v db) = ensured ex db)"
  by (auto simp: bind_execution_def transaction_def ensure_execution_def tx_simps ensured_def split: sum.split)

text \<open>
  What else happens to the database of an execution: journals are appended to, repositories are
  bound, and other executions swap their own leases.
\<close>

inductive store_env :: "(blob \<Rightarrow> string) \<Rightarrow> string \<Rightarrow> store_db \<Rightarrow> store_db \<Rightarrow> bool" for sha ex where
  env_append: "append_request_ok q \<Longrightarrow> store_env sha ex db (snd (append_event sha ex' q db))"
| env_bind: "store_env sha ex db (snd (bind_execution v db))"
| env_swap: "\<lbrakk>ex' \<noteq> ex; request_lease_ok r\<rbrakk> \<Longrightarrow> store_env sha ex db (snd (compare_and_swap sha ex' s e r db))"

lemma same_leases_ok: "\<lbrakk>leases_ok sha ex db; same_leases db db'\<rbrakk> \<Longrightarrow> leases_ok sha ex db' \<and> lease_log ex db' = lease_log ex db"
  using holds_leases_cong [of ex db' db sha "lease_log ex db"] lease_log_holds [of sha ex db' "lease_log ex db"]
  by (auto simp: leases_ok_def same_leases_def)

lemma same_leases_ensured: "same_leases db (ensured ex db)"
  by (simp add: same_leases_def)

lemma store_env_leases:
  assumes "leases_ok sha ex db" "store_env sha ex db db'"
  shows "leases_ok sha ex db' \<and> lease_view ex db' = lease_view ex db"
  using assms(2)
proof cases
  case (env_append q ex')
  then show ?thesis using same_leases_ok [OF assms(1) append_event_same_leases] by (simp add: lease_view_def)
next
  case (env_bind v)
  then show ?thesis
    using assms(1) bind_execution_ensures [of v db] same_leases_ok [OF assms(1) same_leases_ensured] by (auto simp: lease_view_def)
next
  case (env_swap ex' r s e)
  then show ?thesis
    using holds_leases_view [OF compare_and_swap_view [of ex' ex sha s e r db]] assms(1) by (simp add: leases_ok_def lease_view_def)
qed

interpretation sql: lease_store "sql_port sha ex" "lease_view ex" "leases_ok sha ex" "store_env sha ex" for sha ex
proof
  fix st s r
  assume "leases_ok sha ex st" "port_load (sql_port sha ex) s st = Inr r"
  then show "r = lease_view ex st s" using load_lease_view by (simp add: sql_port_def)
next
  fix st r e x st'
  assume a: "leases_ok sha ex st" "request_lease_ok r" "port_cas (sql_port sha ex) (ls_subject r) e r st = (Inr x, st')"
  then have h: "holds_leases sha ex st (lease_log ex st)" "compare_and_swap sha ex (ls_subject r) e r st = (Inr x, st')"
    by (simp_all add: leases_ok_def sql_port_def)
  note g = compare_and_swap_holds [OF h(1) a(2) h(2)]
  then have "lease_log ex st' = lease_log ex st @ [r]" by (blast intro: lease_log_holds)
  then show "x = r \<and> leases_ok sha ex st' \<and> lease_view ex st' = (lease_view ex st)(ls_subject r \<mapsto> r) \<and>
      e = revision_of (lease_view ex st (ls_subject r)) \<and> ls_revision r = e + 1"
    using g by (auto simp: leases_ok_def lease_view_def current_append)
next
  fix st s e r x st'
  assume "leases_ok sha ex st" "port_cas (sql_port sha ex) s e r st = (Inl x, st')"
  then show "st' = st" using compare_and_swap_refused by (simp add: sql_port_def)
next
  fix st st'
  assume "leases_ok sha ex st" "store_env sha ex st st'"
  then show "leases_ok sha ex st' \<and> lease_view ex st' = lease_view ex st" by (rule store_env_leases)
next
  fix st s l
  assume "leases_ok sha ex st" "lease_view ex st s = Some l"
  then show "request_lease_ok l \<and> ls_subject l = s"
    using current_Some [of "lease_log ex st" s l] by (auto simp: leases_ok_def lease_view_def holds_leases_def)
qed

lemma empty_db_leases: "holds_leases sha ex empty_db []"
  by (simp add: holds_leases_def empty_db_def revisions_def head_of_def current_def)

lemma empty_start: "race_ok (lease_view ex) (leases_ok sha ex) (race_start empty_db)"
proof (rule sql.race_start_ok)
  show "leases_ok sha ex empty_db" using empty_db_leases leases_ok_iff by blast
  show "lease_view ex empty_db s = None" for s
    by (simp add: lease_view_holds [OF empty_db_leases] current_def revisions_def)
qed

lemma run_from_empty:
  "race_run d (sql_port sha ex) (store_env sha ex) (race_start empty_db) w \<Longrightarrow> race_ok (lease_view ex) (leases_ok sha ex) w"
  using sql.race_run_ok empty_start by blast

subsection \<open>Journal and leases together\<close>

lemma holds_log_cong:
  assumes "filter (\<lambda>p. fst p = ex) (db_executions db') = filter (\<lambda>p. fst p = ex) (db_executions db) \<or>
      filter (\<lambda>p. fst p = ex) (db_executions db) = [] \<and> filter (\<lambda>p. fst p = ex) (db_executions db') = [(ex, 1)]"
    "filter (\<lambda>r. ew_execution_id r = ex) (db_events db') = filter (\<lambda>r. ew_execution_id r = ex) (db_events db)"
    "filter (\<lambda>r. rw_execution_id r = ex) (db_receipts db') = filter (\<lambda>r. rw_execution_id r = ex) (db_receipts db)"
    "\<And>i p. operation_row ex i db = Some p \<Longrightarrow> operation_row ex i db' = Some p"
    "\<And>i p. \<lbrakk>operation_row ex i db' = Some p; ow_target_kind p = ''journal_event''\<rbrakk> \<Longrightarrow> operation_row ex i db = Some p"
    and holds: "holds_log sha ex db es"
  shows "holds_log sha ex db' es"
proof -
  have "filter (\<lambda>p. fst p = ex) (db_executions db') \<in> (if es = [] then {[], [(ex, 1)]} else {[(ex, int (length es) + 1)]})"
    using assms(1) holds unfolding holds_log_def by (cases "es = []") auto
  moreover have "i \<in> event_op ` set es" if "operation_row ex i db' = Some p" "ow_target_kind p = ''journal_event''" for i p
    using assms(5) [OF that] that(2) holds unfolding holds_log_def by blast
  moreover have "\<forall>e \<in> set es. operation_row ex (event_op e) db' = Some (journal_row ex e)"
    using assms(4) holds unfolding holds_log_def by blast
  ultimately show ?thesis using holds unfolding holds_log_def assms(2,3) by blast
qed

lemma holds_log_view:
  assumes "execution_view ex db' = execution_view ex db" "holds_log sha ex db es"
  shows "holds_log sha ex db' es"
proof -
  have tables: "db_executions (execution_view ex db') = db_executions (execution_view ex db)"
      "db_operations (execution_view ex db') = db_operations (execution_view ex db)"
      "db_events (execution_view ex db') = db_events (execution_view ex db)"
      "db_receipts (execution_view ex db') = db_receipts (execution_view ex db)" using assms(1) by simp_all
  have ops: "operation_row ex i db' = operation_row ex i db" for i
    unfolding operation_row_own [of _ _ db'] operation_row_own [of _ _ db] using tables(2) by (simp add: execution_view_def)
  show ?thesis
    using tables by (intro holds_log_cong [OF _ _ _ _ _ assms(2)]) (simp_all add: execution_view_def ops)
qed

lemma ensured_executions:
  "filter (\<lambda>p. fst p = ex) (db_executions (ensured ex db)) = filter (\<lambda>p. fst p = ex) (db_executions db) \<or>
   filter (\<lambda>p. fst p = ex) (db_executions db) = [] \<and> filter (\<lambda>p. fst p = ex) (db_executions (ensured ex db)) = [(ex, 1)]"
  by (auto simp: ensured_def has_execution_filter)

lemma ensured_journal_tables [simp]:
  "db_events (ensured ex db) = db_events db" "db_receipts (ensured ex db) = db_receipts db"
  by (simp_all add: ensured_def)

lemma compare_and_swap_log:
  assumes "holds_log sha ex db es"
  shows "holds_log sha ex (snd (compare_and_swap sha ex' s e r db)) es"
proof (cases "ex' = ex \<and> (\<exists>x. fst (compare_and_swap sha ex' s e r db) = Inr x)")
  case True
  then obtain x where "compare_and_swap sha ex s e r db = (Inr x, snd (compare_and_swap sha ex s e r db))" by (metis prod.collapse)
  then show ?thesis
  proof (rule compare_and_swap_granted)
    fix cur db2
    assume db2: "db2 = ensured ex db \<or> operation_row ex (op_operation_id (ls_operation r)) db = None \<and>
         db2 = (ensured ex db)\<lparr>db_operations := db_operations (ensured ex db) @
           [operation_row_of ex (ls_operation r) lease_target_kind (subject_target sha s (ls_revision r))]\<rparr>"
      and db': "snd (compare_and_swap sha ex s e r db) = swapped_db sha cur e r db2"
    have row: "operation_row ex i db2 = operation_row ex i db \<or>
        operation_row ex i db = None \<and> operation_row ex i db2 = Some (operation_row_of ex (ls_operation r) lease_target_kind (subject_target sha s (ls_revision r)))"
      for i using db2 by (auto simp: operation_row_append operation_row_of_def split: option.splits if_splits)
    have swap: "operation_row ex i (swapped_db sha cur e r db2) = operation_row ex i db2" for i
      by (simp add: swapped_db_def operation_row_def)
    have "holds_log sha ex (swapped_db sha cur e r db2) es"
    proof (rule holds_log_cong [OF _ _ _ _ _ assms])
      show "operation_row ex i (swapped_db sha cur e r db2) = Some p" if "operation_row ex i db = Some p" for i p
        using that row [of i] swap by auto
      show "operation_row ex i db = Some p" if "operation_row ex i (swapped_db sha cur e r db2) = Some p" "ow_target_kind p = ''journal_event''" for i p
        using that row [of i] swap by (auto simp: operation_row_of_def lease_target_kind_def)
    qed (use db2 ensured_executions [of ex db] in \<open>auto simp: swapped_db_def\<close>)
    then show ?thesis using True db' by simp
  qed
next
  case False
  show ?thesis
  proof (cases "ex' = ex")
    case True
    then obtain x where "fst (compare_and_swap sha ex' s e r db) = Inl x"
      using False by (cases "fst (compare_and_swap sha ex' s e r db)") auto
    then show ?thesis using assms compare_and_swap_refused by (metis prod.collapse)
  next
    case ne: False
    show ?thesis by (rule holds_log_view [OF compare_and_swap_view [OF ne] assms])
  qed
qed

text \<open>
  What appends, execution bindings and lease swaps of any executions do to the tables, succeeding or failing. (Artifacts
  come with \<open>world_step\<close>.)
\<close>

inductive store_step :: "(blob \<Rightarrow> string) \<Rightarrow> store_db \<Rightarrow> store_db \<Rightarrow> bool" for sha where
  step_append: "append_request_ok q \<Longrightarrow> store_step sha db (snd (append_event sha ex q db))"
| step_bind: "store_step sha db (snd (bind_execution v db))"
| step_swap: "request_lease_ok r \<Longrightarrow> store_step sha db (snd (compare_and_swap sha ex s e r db))"

definition store_reachable :: "(blob \<Rightarrow> string) \<Rightarrow> store_db \<Rightarrow> bool" where
  "store_reachable sha = (store_step sha)\<^sup>*\<^sup>* empty_db"

lemma append_event_log:
  assumes "holds_log sha ex db es" "append_request_ok q"
  shows "\<exists>es'. holds_log sha ex (snd (append_event sha ex' q db)) (es @ es')"
proof (cases "ex' = ex")
  case True
  show ?thesis
  proof (cases "gr_execution_id (at_generation (rq_attempt q)) = ex")
    case scope: True
    obtain out es' where out: "log_append q (other_operations ex db) es = (out, es')" by fastforce
    then have "\<exists>xs. es' = es @ xs" by (auto simp: log_append_def Let_def split: option.splits if_splits sum.splits)
    then show ?thesis
      using append_event_spec [OF assms scope prod.collapse [symmetric] out] True by auto
  next
    case False
    then show ?thesis using append_event_foreign [OF False] assms(1) True by (intro exI [of _ "[]"]) simp
  qed
next
  case False
  then show ?thesis using holds_log_view [OF append_event_view [OF False] assms(1)] by (intro exI [of _ "[]"]) simp
qed

lemma bind_execution_log: "holds_log sha ex db es \<Longrightarrow> holds_log sha ex (snd (bind_execution v db)) es"
proof (cases "fst (bind_execution v db) = Inr ex")
  case True
  assume "holds_log sha ex db es"
  moreover have "snd (bind_execution v db) = ensured ex db"
    using True by (auto simp: bind_execution_def transaction_def ensure_execution_def tx_simps ensured_def split: sum.splits)
  ultimately show ?thesis using holds_ensured(1) by simp
next
  case False
  assume "holds_log sha ex db es"
  then show ?thesis by (rule holds_log_view [OF bind_execution_view [OF False]])
qed

lemma store_step_leases:
  assumes "store_step sha db db'" "leases_ok sha ex db"
  shows "leases_ok sha ex db' \<and> (\<exists>ls. lease_log ex db' = lease_log ex db @ ls)"
  using assms(1)
proof cases
  case (step_append q ex')
  then show ?thesis using same_leases_ok [OF assms(2) append_event_same_leases] by simp
next
  case (step_bind v)
  then show ?thesis using store_env_leases [OF assms(2) env_bind [of sha ex db v]] same_leases_ok [OF assms(2) same_leases_ensured]
      bind_execution_ensures [of v db] assms(2) by auto
next
  case (step_swap r ex' s e)
  show ?thesis
  proof (cases "ex' = ex \<and> (\<exists>x. fst (compare_and_swap sha ex' s e r db) = Inr x)")
    case True
    then obtain x where x: "compare_and_swap sha ex s e r db = (Inr x, db')" using step_swap(1) by (metis prod.collapse)
    have "holds_leases sha ex db' (lease_log ex db @ [r])"
      using compare_and_swap_holds [OF _ step_swap(2) x] assms(2) by (simp add: leases_ok_def)
    then show ?thesis by (metis leases_ok_def lease_log_holds)
  next
    case False
    show ?thesis
    proof (cases "ex' = ex")
      case True
      then obtain x where "fst (compare_and_swap sha ex' s e r db) = Inl x"
        using False by (cases "fst (compare_and_swap sha ex' s e r db)") auto
      then have "db' = db" using step_swap(1) compare_and_swap_refused by (metis prod.collapse)
      then show ?thesis using assms(2) by simp
    next
      case ne: False
      then show ?thesis using holds_leases_view [OF compare_and_swap_view [OF ne]] assms(2) step_swap(1) by (simp add: leases_ok_def)
    qed
  qed
qed

lemma store_reachable_ok:
  assumes "store_reachable sha db"
  shows "(\<exists>es. holds_log sha ex db es) \<and> leases_ok sha ex db"
  using assms unfolding store_reachable_def
proof (induction rule: rtranclp_induct)
  case base
  show ?case using empty_db_holds empty_db_leases leases_ok_iff by blast
next
  case (step db db')
  then obtain es where es: "holds_log sha ex db es" by blast
  from step(2) have "\<exists>es. holds_log sha ex db' es"
  proof cases
    case (step_append q ex')
    then show ?thesis using append_event_log [OF es] by blast
  next
    case (step_bind v)
    then show ?thesis using bind_execution_log [OF es] by blast
  next
    case (step_swap r ex' s e)
    then show ?thesis using compare_and_swap_log [OF es] by blast
  qed
  then show ?case using store_step_leases [OF step(2)] step(3) by blast
qed

subsection \<open>When a swap is granted\<close>

lemma compare_and_swap_enabled:
  assumes ok: "leases_ok sha ex db" and s: "subject_execution (ls_subject r) = ex"
    and rev: "ls_revision r = revision_of (lease_view ex db (ls_subject r)) + 1" "sql_range (ls_revision r)"
    and op: "operation_row ex (op_operation_id (ls_operation r)) db = None"
    and ev: "lease_view ex db (ls_subject r) = None \<Longrightarrow> \<not> send_evidence sha ex (ls_subject r) db"
  shows "\<exists>db'. compare_and_swap sha ex (ls_subject r) (revision_of (lease_view ex db (ls_subject r))) r db = (Inr r, db')"
proof -
  let ?ls = "lease_log ex db" and ?s = "ls_subject r" and ?db = "ensured ex db"
  let ?e = "revision_of (current ?ls ?s)"
  let ?db2 = "?db\<lparr>db_operations := db_operations ?db @ [operation_row_of ex (ls_operation r) lease_target_kind (subject_target sha ?s (ls_revision r))]\<rparr>"
  have holds: "holds_leases sha ex db ?ls" using ok by (simp add: leases_ok_def)
  have h: "holds_leases sha ex ?db ?ls" by (rule holds_leases_cong [OF _ _ _ holds]) simp_all
  have e: "0 \<le> ?e" "ls_revision r = ?e + 1"
    using rev(1) current_revision [OF holds] by (simp_all add: lease_view_def)
  have "send_evidence sha ex ?s ?db = send_evidence sha ex ?s db" by (simp add: send_evidence_def ensured_def)
  then have load: "load_lease_in_transaction sha ex ?s ?db = Inr (current ?ls ?s)"
    using ev unfolding load_lease_spec [OF h s] by (auto simp: lease_view_def split: option.split)
  have exec: "has_execution ?db ex" by (simp add: ensured_def has_execution_filter)
  have fresh: "\<not> (\<exists>q \<in> set (db_lease_revisions db). lw_key q = subject_key ?s \<and> lw_revision q = ls_revision r \<or>
         fst (lw_key q) = ex \<and> lw_operation_id q = op_operation_id (ls_operation r))"
  proof
    assume "\<exists>q \<in> set (db_lease_revisions db). lw_key q = subject_key ?s \<and> lw_revision q = ls_revision r \<or>
         fst (lw_key q) = ex \<and> lw_operation_id q = op_operation_id (ls_operation r)"
    then obtain q where q: "q \<in> set (db_lease_revisions db)" "lw_key q = subject_key ?s \<and> lw_revision q = ls_revision r \<or>
         fst (lw_key q) = ex \<and> lw_operation_id q = op_operation_id (ls_operation r)" by blast
    have "fst (lw_key q) = ex" using q(2) s fst_subject_key by metis
    from holds_lease_row [OF holds q(1) this] q(2) obtain l where l: "l \<in> set ?ls" "ls_subject l = ?s \<and> ls_revision l = ls_revision r \<or>
        op_operation_id (ls_operation l) = op_operation_id (ls_operation r)" by auto
    then show False
      using revision_bound [OF holds l(1)] e(2) l op holds by (auto simp: holds_leases_def)
  qed
  have op2: "operation_row ex (op_operation_id (ls_operation r)) ?db2 \<noteq> None"
    using op by (simp add: operation_row_append operation_row_of_def)
  let ?db3 = "?db2\<lparr>db_lease_revisions := db_lease_revisions ?db2 @ [lease_row_of sha r]\<rparr>"
  have ins: "insert_lease_revision (lease_row_of sha r) ?db2 = Inr ((), ?db3)"
    using fresh op2 rev(2) e s by (simp add: insert_lease_revision_Inr)
  have range: "sql_range ?e" using rev(2) e sql_range_down by simp
  have heads: "filter (\<lambda>p. fst p = subject_key ?s) (db_lease_heads db) = head_of ?ls ?s" using holds s by (simp add: holds_leases_def)
  have finish: "\<exists>db'. move_lease_head (current ?ls ?s) ?e r ?db3 = Inr (r, db')"
  proof (cases "current ?ls ?s")
    case None
    then have "map_of (db_lease_heads db) (subject_key ?s) = None" using holds_head_lookup [OF holds s] by simp
    moreover have "has_execution ?db3 ex" using exec by (simp add: has_execution_def)
    ultimately show ?thesis
      using None rev(2) e s by (auto simp: move_lease_head_def bindt_Inr insert_lease_head_Inr ret_def)
  next
    case (Some l)
    then have "filter (\<lambda>p. snd p = ?e) (filter (\<lambda>p. fst p = subject_key ?s) (db_lease_heads db)) = [(subject_key ?s, ?e)]"
      using heads by (simp add: head_of_def revision_of_def del: filter_filter)
    then have "length (filter (\<lambda>p. fst p = subject_key ?s \<and> snd p = ?e) (db_lease_heads db)) = 1" by (simp add: conj_commute)
    then show ?thesis using Some rev(2) range by (auto simp: move_lease_head_def bindt_Inr update_lease_head_Inr ret_def)
  qed
  then obtain db' where db': "move_lease_head (current ?ls ?s) ?e r ?db3 = Inr (r, db')" by blast
  have op': "operation_row ex (op_operation_id (ls_operation r)) ?db = None" using op by simp
  have "bindt (insert_lease_revision (lease_row_of sha r)) (\<lambda>_. move_lease_head (current ?ls ?s) ?e r) ?db2 = Inr (r, db')"
    using ins db' by (simp add: bindt_def)
  then have "swap_in_transaction sha ex ?e r ?db = Inr (r, db')"
    unfolding swap_in_transaction_def tx_simps load bindr_simps using e(2) by (simp add: claim_fresh_operation [OF op' exec])
  then have "compare_and_swap sha ex ?s ?e r db = (Inr r, db')"
    using s e(1)
    by (simp add: compare_and_swap_def scope_attempt_def nonnegative_int_def transaction_def ensure_execution_def tx_simps
        ensured_def [symmetric])
  then show ?thesis by (auto simp: lease_view_def)
qed

end
