(* ===== verification/DurableRuns.thy ===== *)
theory DurableRuns
  imports SqlLeases
begin

section \<open>Durable runs\<close>

text \<open>
  What the journal, the request leases and the coordinator promise together. The theorems are the
  lemmas of the locale \<open>lease_store\<close> at the SQLite port, with the journals and the leases of all
  other executions as the environment, and the consistency of every database state that the
  repositories can bring about.
\<close>

subsection \<open>Provider requests\<close>

definition json_sha :: "(blob \<Rightarrow> string) \<Rightarrow> pyval \<Rightarrow> string" where
  "json_sha sha v = sha (Canon v)"

text \<open>
  C1: However many coordinators race on one database, reading stale leases, repeating swaps and being
  interleaved with journal appends and other executions: the swap that starts the send of a
  subject wins at most once, and once it has won, recovery never allows the subject to be sent
  again automatically.
\<close>
theorem provider_request_sent_at_most_once:
  assumes "race_run (json_sha sha) (sql_port sha ex) (store_env sha ex) (race_start empty_db) w"
  shows "length (filter (\<lambda>l. ls_subject l = s \<and> ls_revision l = 1) (rc_won w)) \<le> 1 \<and>
    (l \<in> set (rc_won w) \<and> recover (sql_port sha ex) (ls_subject l) (rc_now w) = Inr (d, r) \<longrightarrow> \<not> auto_resend_allowed d)"
  using sql.sent_once [OF run_from_empty [OF assms]] sql.never_resent [OF run_from_empty [OF assms]] by blast

definition demo_digest :: string where "demo_digest = replicate 64 (CHR ''0'')"

definition demo_subject :: request_subject where
  "demo_subject = \<lparr>su_attempt = demo_attempt, su_iteration = 0, su_envelope_sha256 = demo_digest, su_route = ''primary'',
     su_retry_ordinal = 0\<rparr>"

definition demo_lease :: "string \<Rightarrow> request_lease" where
  "demo_lease i = \<lparr>ls_subject = demo_subject, ls_route_sha256 = demo_digest, ls_status = Started, ls_revision = 1,
     ls_visible_output = False, ls_retryable = False, ls_classification = [], ls_operation = demo_operation i,
     ls_result_binding = None, ls_predecessor = None, ls_failure = None, ls_uncertainty = None\<rparr>"

definition demo_call :: "string \<Rightarrow> lease_call" where
  "demo_call i = ClaimInitial demo_attempt 0 demo_digest ''primary'' demo_digest (demo_operation i)"

definition demo_reader :: lease_reader where
  "demo_reader s = co_load (sql_port no_digest ''exec-1'') s empty_db"

lemma demo_plans:
  "plan_call (json_sha no_digest) demo_reader (demo_call ''op-1'') = Inr (Swap 0 (demo_lease ''op-1''))"
  "plan_call (json_sha no_digest) demo_reader (demo_call ''op-2'') = Inr (Swap 0 (demo_lease ''op-2''))"
  by code_simp+

definition demo_db :: store_db where
  "demo_db = snd (compare_and_swap no_digest ''exec-1'' demo_subject 0 (demo_lease ''op-2'') empty_db)"

lemma demo_swaps:
  "co_cas (sql_port no_digest ''exec-1'') 0 (demo_lease ''op-2'') empty_db = (Inr (demo_lease ''op-2''), demo_db)"
  "co_cas (sql_port no_digest ''exec-1'') 0 (demo_lease ''op-1'') demo_db =
     (Inl (lease_conflict ''provider request lease CAS conflict''), demo_db)"
  by code_simp+

text \<open>Two coordinators read before either writes; the second one to reach the store is refused.\<close>

definition demo_race :: "store_db race" where
  "demo_race = \<lparr>rc_now = demo_db, rc_past = [demo_db, demo_db, empty_db],
     rc_pending = [(0, demo_lease ''op-2''), (0, demo_lease ''op-1'')], rc_won = [demo_lease ''op-2'']\<rparr>"

lemma demo_run:
  "race_run (json_sha no_digest) (sql_port no_digest ''exec-1'') (store_env no_digest ''exec-1'') (race_start empty_db) demo_race"
proof -
  let ?step = "race_step (json_sha no_digest) (sql_port no_digest ''exec-1'') (store_env no_digest ''exec-1'')"
  let ?w0 = "race_start empty_db"
  let ?w1 = "?w0\<lparr>rc_pending := (0, demo_lease ''op-1'') # rc_pending ?w0\<rparr>"
  let ?w2 = "?w1\<lparr>rc_pending := (0, demo_lease ''op-2'') # rc_pending ?w1\<rparr>"
  let ?w3 = "?w2\<lparr>rc_now := demo_db, rc_past := demo_db # rc_past ?w2, rc_won := demo_lease ''op-2'' # rc_won ?w2\<rparr>"
  let ?w4 = "?w3\<lparr>rc_now := demo_db, rc_past := demo_db # rc_past ?w3\<rparr>"
  have a: "?step ?w0 ?w1"
    by (rule race_step.read_phase [OF _ _ demo_plans(1)]) (simp_all add: demo_call_def race_start_def demo_reader_def)
  have b: "?step ?w1 ?w2"
    by (rule race_step.read_phase [OF _ _ demo_plans(2)]) (simp_all add: demo_call_def race_start_def demo_reader_def)
  have c: "?step ?w2 ?w3"
    by (rule race_step.swap_wins [where e = 0 and r = "demo_lease ''op-2''"]) (simp_all add: race_start_def demo_swaps)
  have d: "?step ?w3 ?w4"
    by (rule race_step.swap_refused [where e = 0 and r = "demo_lease ''op-1''"]) (simp_all add: race_start_def demo_swaps)
  have "race_run (json_sha no_digest) (sql_port no_digest ''exec-1'') (store_env no_digest ''exec-1'') ?w0 ?w4"
    by (rule race_run_step [OF race_run_step [OF race_run_step [OF race_run_step [OF race_run_refl a] b] c] d])
  moreover have "?w4 = demo_race" by (simp add: race_start_def demo_race_def)
  ultimately show ?thesis by (simp only:)
qed

lemma demo_recover:
  "recover (sql_port no_digest ''exec-1'') (ls_subject (demo_lease ''op-2'')) demo_db = Inr (Uncertain, Some (demo_lease ''op-2''))"
  by code_simp

theorem provider_request_sent_at_most_once_witness:
  "length (filter (\<lambda>l. ls_subject l = demo_subject \<and> ls_revision l = 1) (rc_won demo_race)) \<le> 1 \<and> \<not> auto_resend_allowed Uncertain"
  using provider_request_sent_at_most_once [OF demo_run, of demo_subject "demo_lease ''op-2''" Uncertain "Some (demo_lease ''op-2'')"]
    demo_recover by (simp add: demo_race_def)

text \<open>
  C17: A failed or completed lease is final: no later run of any number of coordinators of the execution changes it,
  with journal appends, execution bindings and lease swaps of other executions by other clients of the database at
  any time in between. (Chat deletion, which removes the leases of an execution, and the persisting of provider turn
  results are not among these operations.)
\<close>
theorem terminal_lease_is_final:
  assumes "race_run (json_sha sha) (sql_port sha ex) (store_env sha ex) (race_start empty_db) w"
    and "race_run (json_sha sha) (sql_port sha ex) (store_env sha ex) w w'"
    and "lease_view ex (rc_now w) s = Some l" "ls_status l \<noteq> Started"
  shows "lease_view ex (rc_now w') s = Some l"
  using sql.terminal_stays [OF run_from_empty [OF assms(1)] assms(2-4)] .

definition demo_failed :: request_lease where
  "demo_failed = (demo_lease ''op-3'')\<lparr>ls_status := Failed, ls_revision := 2, ls_retryable := True, ls_classification := ''transient''\<rparr>"

definition failed_db :: store_db where
  "failed_db = snd (compare_and_swap no_digest ''exec-1'' demo_subject 1 demo_failed demo_db)"

lemma demo_failure:
  "plan_call (json_sha no_digest) (\<lambda>s. co_load (sql_port no_digest ''exec-1'') s demo_db)
     (RecordFailure (demo_lease ''op-2'') ''transient'' True False (demo_operation ''op-3'') None) = Inr (Swap 1 demo_failed)"
  by code_simp

lemma demo_failure_swap:
  "co_cas (sql_port no_digest ''exec-1'') 1 demo_failed demo_db = (Inr demo_failed, failed_db)"
  by code_simp

lemma demo_failure_view: "lease_view ''exec-1'' failed_db demo_subject = Some demo_failed"
  by code_simp

lemma failed_run:
  "\<exists>w. race_run (json_sha no_digest) (sql_port no_digest ''exec-1'') (store_env no_digest ''exec-1'') (race_start empty_db) w \<and> rc_now w = failed_db"
proof -
  let ?step = "race_step (json_sha no_digest) (sql_port no_digest ''exec-1'') (store_env no_digest ''exec-1'')"
  let ?w1 = "demo_race\<lparr>rc_pending := (1, demo_failed) # rc_pending demo_race\<rparr>"
  let ?w2 = "?w1\<lparr>rc_now := failed_db, rc_past := failed_db # rc_past ?w1, rc_won := demo_failed # rc_won ?w1\<rparr>"
  have a: "?step demo_race ?w1"
    by (rule race_step.read_phase [OF _ _ demo_failure]) (simp_all add: demo_race_def)
  have b: "?step ?w1 ?w2"
    by (rule race_step.swap_wins [where e = 1 and r = demo_failed]) (simp_all add: demo_race_def demo_failure_swap)
  have "race_run (json_sha no_digest) (sql_port no_digest ''exec-1'') (store_env no_digest ''exec-1'') (race_start empty_db) ?w2"
    by (rule race_run_step [OF race_run_step [OF demo_run a] b])
  moreover have "rc_now ?w2 = failed_db" by simp
  ultimately show ?thesis by blast
qed

theorem terminal_lease_is_final_witness:
  "\<exists>w. race_run (json_sha no_digest) (sql_port no_digest ''exec-1'') (store_env no_digest ''exec-1'') (race_start empty_db) w \<and>
     rc_now w = failed_db \<and>
     (\<forall>w'. race_run (json_sha no_digest) (sql_port no_digest ''exec-1'') (store_env no_digest ''exec-1'') w w' \<longrightarrow>
        lease_view ''exec-1'' (rc_now w') demo_subject = Some demo_failed)"
proof -
  obtain w where w: "race_run (json_sha no_digest) (sql_port no_digest ''exec-1'') (store_env no_digest ''exec-1'') (race_start empty_db) w"
      "rc_now w = failed_db" using failed_run by blast
  have "lease_view ''exec-1'' (rc_now w) demo_subject = Some demo_failed" "ls_status demo_failed \<noteq> Started"
    using demo_failure_view w(2) by (simp_all add: demo_failed_def)
  then show ?thesis using terminal_lease_is_final [OF w(1)] w by blast
qed

text \<open>
  C9: Why a request was sent can be read off the database: a lease of the primary route with retry
  ordinal zero is the first send of its iteration; a lease with a higher ordinal follows a durable
  transient, retryable failure without visible output of the ordinal before it, on the same route
  body; and a fallback lease follows a durable failure of the primary request that was classified
  for the fallback.
\<close>
theorem every_send_is_justified:
  assumes "race_run (json_sha sha) (sql_port sha ex) (store_env sha ex) (race_start empty_db) w"
    and "lease_view ex (rc_now w) s = Some l"
  shows "justified (lease_view ex (rc_now w)) l"
  using sql.all_justified [OF run_from_empty [OF assms(1)] assms(2)] .

theorem every_send_is_justified_witness:
  "\<exists>w :: store_db race. rc_now w = failed_db \<and> justified (lease_view ''exec-1'' (rc_now w)) demo_failed"
proof -
  obtain w where w: "race_run (json_sha no_digest) (sql_port no_digest ''exec-1'') (store_env no_digest ''exec-1'') (race_start empty_db) w"
      "rc_now w = failed_db" using failed_run by blast
  have "lease_view ''exec-1'' (rc_now w) demo_subject = Some demo_failed" using demo_failure_view w(2) by simp
  from every_send_is_justified [OF w(1) this] w(2) show ?thesis by blast
qed

text \<open>
  A first claim succeeds: in a consistent store, a subject that was never claimed, with no trace of
  an earlier send and an unused operation, is claimed, and the claim is then durable as a started
  lease with revision one.
\<close>
theorem fresh_claim_succeeds:
  assumes "leases_ok sha ex db" "subject_execution s = ex" "su_route s = ''primary''" "su_retry_ordinal s = 0"
    and "request_subject_ok s" "is_sha256 rsha" "operation_ref_ok opr"
    and "lease_view ex db s = None" "\<not> send_evidence sha ex s db" "operation_row ex (op_operation_id opr) db = None"
  shows "\<exists>l db'. claim_initial (sql_port sha ex) (su_attempt s) (su_iteration s) (su_envelope_sha256 s) ''primary'' rsha opr db = (Inr l, db') \<and>
    ls_subject l = s \<and> ls_status l = Started \<and> ls_revision l = 1 \<and> lease_view ex db' s = Some l"
proof -
  let ?l = "\<lparr>ls_subject = s, ls_route_sha256 = rsha, ls_status = Started, ls_revision = 1, ls_visible_output = False,
    ls_retryable = False, ls_classification = [], ls_operation = opr, ls_result_binding = None, ls_predecessor = None,
    ls_failure = None, ls_uncertainty = None\<rparr>"
  have ok: "request_lease_ok ?l"
    using assms(5-7) by (simp add: request_lease_ok_def lease_shape_error_def classification_field_def)
  have mk: "mk_started_lease s rsha opr = Inr ?l"
    using mk_request_lease_fields [OF ok, of "Inl s" "Inl opr" None None None]
    by (simp add: mk_started_lease_def opt_text_def)
  have subj: "mk_request_subject (Inl (su_attempt s)) (PyInt (su_iteration s)) (PyStr (su_envelope_sha256 s)) (PyStr ''primary'') (PyInt 0) = Inr s"
    using assms(3-5) by (simp add: request_subject_ok_def)
  have load: "load_lease sha ex s db = Inr None"
    using assms(1,2,8,9) load_lease_spec [of sha ex db "lease_log ex db" s]
    by (simp add: load_lease_def scope_attempt_def transaction_def tx_simps leases_ok_def lease_view_def)
  have "sql_range 1" by (simp add: sql_range_def max_sql_int_def)
  then obtain db' where cas: "compare_and_swap sha ex s 0 ?l db = (Inr ?l, db')"
    using compare_and_swap_enabled [OF assms(1), of ?l] assms(2,8-10) by (auto simp: revision_of_def)
  have "claim_initial (sql_port sha ex) (su_attempt s) (su_iteration s) (su_envelope_sha256 s) ''primary'' rsha opr db = (Inr ?l, db')"
    using subj load mk cas by (simp add: claim_initial_def co_claim_def co_load_def co_cas_def then_do_def sql_port_def)
  moreover have "lease_view ex db' s = Some ?l"
    using sql.cas_granted [OF assms(1) ok, of 0 ?l db'] cas by (simp add: sql_port_def)
  ultimately show ?thesis by (intro exI [of _ ?l] exI [of _ db']) simp
qed

lemma demo_subject_ok: "request_subject_ok demo_subject" "is_sha256 demo_digest" "operation_ref_ok (demo_operation ''op-1'')"
  by code_simp+

theorem fresh_claim_succeeds_witness:
  "\<exists>l db'. claim_initial (sql_port no_digest ''exec-1'') demo_attempt 0 demo_digest ''primary'' demo_digest (demo_operation ''op-1'') empty_db = (Inr l, db') \<and>
    lease_view ''exec-1'' db' demo_subject = Some l"
proof -
  have "leases_ok no_digest ''exec-1'' empty_db" using empty_db_leases leases_ok_iff by blast
  moreover have "lease_view ''exec-1'' empty_db demo_subject = None"
    by (simp add: lease_view_holds [OF empty_db_leases] current_def revisions_def)
  moreover have "\<not> send_evidence no_digest ''exec-1'' demo_subject empty_db" by (simp add: send_evidence_def empty_db_def)
  moreover have "operation_row ''exec-1'' (op_operation_id (demo_operation ''op-1'')) empty_db = None" by (simp add: operation_row_def empty_db_def)
  moreover have "subject_execution demo_subject = ''exec-1''" "su_route demo_subject = ''primary''" "su_retry_ordinal demo_subject = 0"
    by (simp_all add: demo_subject_def demo_attempt_def)
  ultimately show ?thesis
    using fresh_claim_succeeds [of no_digest "''exec-1''" empty_db demo_subject demo_digest "demo_operation ''op-1''"] demo_subject_ok
    by (auto simp: demo_subject_def)
qed

text \<open>
  Running a coordinator operation with nothing in between is the same as running its read phase
  and then the one swap it decided on: the two-phase form that the races interleave is the
  operation itself.
\<close>
theorem coordinator_is_read_then_swap:
  "coordinate d port c st = commit_plan port (plan_call d (\<lambda>s. co_load port s st) c) st"
  by (rule coordinate_phases)

subsection \<open>Lease records\<close>

text \<open>
  A lease read back from its canonical JSON is the lease that was written, and every lease that can
  be decoded at all is written back to something that decodes to it.
\<close>
theorem request_lease_round_trip:
  "(mk_request_lease (Inr s) r st n vis retry c (Inr p) (Some (Inr b)) d (Some (Inr f)) (Some (Inr u)) = Inr l \<longrightarrow>
      request_lease_from_dict (canonical (request_lease_to_dict l)) = Inr l) \<and>
   (request_lease_from_dict v = Inr l \<longrightarrow> request_lease_from_dict (request_lease_to_dict l) = Inr l)"
proof -
  have "request_lease_ok l" if "mk_request_lease (Inr s) r st n vis retry c (Inr p) (Some (Inr b)) d (Some (Inr f)) (Some (Inr u)) = Inr l"
    using that by (rule mk_request_lease_ok) simp_all
  then show ?thesis using request_lease.canonical_trip request_lease.reencode by blast
qed

theorem request_lease_round_trip_witness:
  "request_lease_from_dict (request_lease_to_dict demo_failed) = Inr demo_failed"
proof -
  have "request_lease_from_dict (canonical (request_lease_to_dict demo_failed)) = Inr demo_failed" by code_simp
  then show ?thesis using request_lease_round_trip by blast
qed

text \<open>
  C24: The shape of a lease follows its status: a started lease carries no outcome, a failed one a
  classification and no result, a completed one a result binding for the same route together with
  the digest of the lease it replaced; failure and uncertainty diagnostics occur only with their
  own status. Revisions are positive.
\<close>
theorem lease_shape_by_status:
  assumes "request_lease_from_durable_dict v = Inr l"
  shows "1 \<le> ls_revision l \<and> (ls_failure l \<noteq> None \<longrightarrow> ls_status l = Failed) \<and> (ls_uncertainty l \<noteq> None \<longrightarrow> ls_status l = Started) \<and>
    (case ls_status l of
       Started \<Rightarrow> ls_result_binding l = None \<and> ls_predecessor l = None \<and> \<not> ls_visible_output l \<and> \<not> ls_retryable l \<and> ls_classification l = []
     | Failed \<Rightarrow> ls_result_binding l = None \<and> ls_predecessor l = None \<and> ls_classification l \<in> set failure_classifications
     | Completed \<Rightarrow> ls_predecessor l \<noteq> None \<and> ls_classification l = [] \<and>
         (\<exists>b. ls_result_binding l = Some b \<and> rb_route_sha256 b = ls_route_sha256 l))"
proof -
  have "request_lease_from_dict v = Inr l \<or>
      (\<exists>s r st n vis retry c p. mk_request_lease s r st n vis retry c p None PyNone None None = Inr l)"
    using assms unfolding request_lease_from_durable_dict_def by (simp add: bindr_eq_Inr split: if_splits) blast+
  then have "request_lease_ok l" by (auto dest: request_lease.decoded_ok mk_request_lease_ok)
  then show ?thesis
    by (cases "ls_status l") (auto simp: request_lease_ok_def lease_shape_error_def classification_field_def bindr_eq_Inr
        split: if_splits option.splits)
qed

theorem lease_shape_by_status_witness:
  "request_lease_from_durable_dict (request_lease_to_dict demo_failed) = Inr demo_failed \<and> ls_classification demo_failed \<in> set failure_classifications"
proof -
  have d: "request_lease_from_durable_dict (request_lease_to_dict demo_failed) = Inr demo_failed" by code_simp
  from lease_shape_by_status [OF d] d show ?thesis by (simp add: demo_failed_def)
qed

subsection \<open>The database\<close>

text \<open>
  Whatever appends, bindings and swaps the repositories of all executions perform on a new
  database, in any order and with any outcome: for every execution the tables hold a gapless log
  of valid events and a history of leases whose heads name their latest revisions. So reading never
  meets a damaged row: a page of the journal is always returned.
\<close>
theorem store_always_consistent:
  assumes "store_reachable sha db"
  shows "(\<exists>es. holds_log sha ex db es) \<and> leases_ok sha ex db"
  using assms by (rule store_reachable_ok)

theorem store_always_consistent_witness:
  "leases_ok no_digest ''exec-1'' (snd (append_event no_digest ''exec-1'' (demo_request ''call-1'') empty_db))"
proof -
  have "store_reachable no_digest (snd (append_event no_digest ''exec-1'' (demo_request ''call-1'') empty_db))"
    unfolding store_reachable_def by (rule r_into_rtranclp) (rule store_step.step_append [OF demo_request_ok(1)])
  from store_always_consistent [OF this] show ?thesis by blast
qed

text \<open>
  Isolation: nothing that the repository of one execution does changes a row of another execution
  in any table of the database, whatever state the database is in.
\<close>
theorem executions_are_isolated:
  assumes "ex' \<noteq> ex"
  shows "execution_view ex (snd (append_event sha ex' q db)) = execution_view ex db \<and>
    execution_view ex (snd (compare_and_swap sha ex' s e r db)) = execution_view ex db"
  using append_event_view [OF assms] compare_and_swap_view [OF assms] by blast

theorem executions_are_isolated_witness:
  "execution_view ''exec-2'' (snd (append_event no_digest ''exec-1'' (demo_request ''call-1'') empty_db)) = execution_view ''exec-2'' empty_db"
  using executions_are_isolated [of "''exec-1''" "''exec-2''"] by simp

end
