(* ===== verification/ResourceLimits.thy ===== *)
theory ResourceLimits
  imports JournalModels
begin

section \<open>Resource limits of JSON values\<close>

text \<open>
  \<open>journal/resource_limits.py\<close>: one pass over a value counts its nodes and the bytes of its compact
  JSON text and stops at the first limit it exceeds. The pass applies a record adapter to every item
  before it looks at it; it ends because it never goes below the depth limit. The theorem of the
  last part shows that the pass accepts exactly the values whose JSON text, nodes and depth are
  within the limits, without ever building the text.

  A Python object is what the pass sees of it, a \<open>node\<close>: a text as its code points, surrogates and
  code points above 255 included; a float as its value or, when it is not finite, none; the keys of a
  mapping as texts or as keys of another type; the identity of a container, for the test for circular
  values; anything else as no JSON value. The argument \<open>view\<close> gives the node of an object after the
  record adapter. An integer of more than 4300 digits has no decimal text, as in the interpreter's
  default setting. The JSON text of a finite float is the argument \<open>fr\<close>.

  \<open>validate_json_resource\<close> is the pass over the values of the other theories, which are trees and
  whose texts have code points below 256; \<open>walk_view\<close> relates it to the pass over all JSON trees.
\<close>

subsection \<open>Limits\<close>

record resource_limits =
  max_items :: int
  max_bytes :: int
  max_depth :: int
  max_nodes :: int

definition limit_field :: "string \<Rightarrow> pyval \<Rightarrow> (py_exc, int) res" where
  "limit_field name v =
     (case v of
        PyInt n \<Rightarrow> if n \<le> 0 then Inl (ValueExc (name @ '' must be a positive integer'')) else Inr n
      | _ \<Rightarrow> Inl (ValueExc (name @ '' must be a positive integer'')))"

definition mk_resource_limits :: "pyval \<Rightarrow> pyval \<Rightarrow> pyval \<Rightarrow> pyval \<Rightarrow> (py_exc, resource_limits) res" where
  "mk_resource_limits items bytes depth nodes =
     bindr (limit_field ''max_items'' items) (\<lambda>i.
     bindr (limit_field ''max_bytes'' bytes) (\<lambda>b.
     bindr (limit_field ''max_depth'' depth) (\<lambda>d.
     bindr (limit_field ''max_nodes'' nodes) (\<lambda>n.
       Inr \<lparr>max_items = i, max_bytes = b, max_depth = d, max_nodes = n\<rparr>))))"

definition limit_error :: "string \<Rightarrow> string \<Rightarrow> int \<Rightarrow> int \<Rightarrow> py_exc" where
  "limit_error boundary dimension limit observed =
     DomainExc ''BoundaryResourceLimitError''
       (boundary @ '' exceeds '' @ dimension @ '' limit: observed '' @ int_text observed @ '', limit '' @ int_text limit)"

definition enforce_item_limit :: "string \<Rightarrow> resource_limits \<Rightarrow> 'a list \<Rightarrow> (py_exc, unit) res" where
  "enforce_item_limit boundary limits xs =
     (if int (length xs) > max_items limits then Inl (limit_error boundary ''items'' (max_items limits) (int (length xs)))
      else Inr ())"

subsection \<open>The pass\<close>

text \<open>The number of nodes and of bytes so far.\<close>

type_synonym counts = "int \<times> int"

definition add_bytes :: "string \<Rightarrow> resource_limits \<Rightarrow> int \<Rightarrow> counts \<Rightarrow> (py_exc, counts) res" where
  "add_bytes boundary limits amount c =
     (let b = snd c + amount in
      if b > max_bytes limits then Inl (limit_error boundary ''bytes'' (max_bytes limits) b) else Inr (fst c, b))"

text \<open>The UTF-8 encoding of a code point; a surrogate has none.\<close>

definition utf8 :: "nat \<Rightarrow> nat list option" where
  "utf8 n =
     (if n < 128 then Some [n]
      else if n < 2048 then Some [192 + n div 64, 128 + n mod 64]
      else if 55296 \<le> n \<and> n < 57344 \<or> 1114112 \<le> n then None
      else if n < 65536 then Some [224 + n div 4096, 128 + n div 64 mod 64, 128 + n mod 64]
      else Some [240 + n div 262144, 128 + n div 4096 mod 64, 128 + n div 64 mod 64, 128 + n mod 64])"

definition character_bytes :: "string \<Rightarrow> nat \<Rightarrow> (py_exc, int) res" where
  "character_bytes boundary n =
     (if n = 34 \<or> n = 92 \<or> n \<in> {8, 9, 10, 12, 13} then Inr 2
      else if n < 32 then Inr 6
      else case utf8 n of
          Some bs \<Rightarrow> Inr (int (length bs))
        | None \<Rightarrow> Inl (ValueExc (boundary @ '' contains invalid Unicode'')))"

fun string_loop :: "string \<Rightarrow> resource_limits \<Rightarrow> int \<Rightarrow> int \<Rightarrow> nat list \<Rightarrow> (py_exc, int) res" where
  "string_loop boundary limits used sz [] = Inr sz"
| "string_loop boundary limits used sz (n # ns) =
     bindr (character_bytes boundary n) (\<lambda>k.
       if used + (sz + k) > max_bytes limits then Inr (max_bytes limits + 1)
       else string_loop boundary limits used (sz + k) ns)"

definition string_bytes :: "string \<Rightarrow> resource_limits \<Rightarrow> counts \<Rightarrow> nat list \<Rightarrow> (py_exc, int) res" where
  "string_bytes boundary limits c s = string_loop boundary limits (snd c) 2 s"

definition printable_int :: "int \<Rightarrow> bool" where
  "printable_int i = (length (nat_text (nat \<bar>i\<bar>)) \<le> 4300)"

text \<open>The \<open>except ValueError\<close> around the count of an integer also catches a limit error.\<close>

definition int_bytes :: "string \<Rightarrow> resource_limits \<Rightarrow> int \<Rightarrow> counts \<Rightarrow> (py_exc, counts) res" where
  "int_bytes boundary limits i c =
     (let invalid = Inl (ValueExc (boundary @ '' contains an invalid integer'')) in
      if \<not> printable_int i then invalid
      else case add_bytes boundary limits (int (length (int_text i))) c of Inl _ \<Rightarrow> invalid | Inr c' \<Rightarrow> Inr c')"

text \<open>The code points of a text, and the bytes of its UTF-8 encoding.\<close>

definition codes :: "string \<Rightarrow> nat list" where
  "codes s = map of_char s"

definition utf8_size :: "nat \<Rightarrow> int" where
  "utf8_size n = (case utf8 n of Some bs \<Rightarrow> int (length bs) | None \<Rightarrow> 0)"

definition code_bytes :: "nat list \<Rightarrow> int" where
  "code_bytes t = (\<Sum>n \<leftarrow> t. utf8_size n)"

definition text_bytes :: "string \<Rightarrow> int" where
  "text_bytes s = code_bytes (codes s)"

definition enter_node :: "string \<Rightarrow> resource_limits \<Rightarrow> int \<Rightarrow> counts \<Rightarrow> (py_exc, counts) res" where
  "enter_node boundary limits depth c =
     (if depth > max_depth limits then Inl (limit_error boundary ''depth'' (max_depth limits) depth)
      else if fst c + 1 > max_nodes limits then Inl (limit_error boundary ''nodes'' (max_nodes limits) (fst c + 1))
      else Inr (fst c + 1, snd c))"

definition container_bytes :: "'a list \<Rightarrow> int" where
  "container_bytes xs = 2 + max 0 (int (length xs) - 1)"

text \<open>What the pass sees of an object.\<close>

datatype 'v node =
    NNone
  | NBool bool
  | NText "nat list"
  | NInt int
  | NFloat "rat option"
  | NMapping "nat option" "(nat list option \<times> 'v) list"
  | NSequence "nat option" "'v list"
  | NOther

text \<open>A container that is being visited; a tree has no container inside itself, and its nodes carry no identity.\<close>

definition mark_active :: "string \<Rightarrow> nat option \<Rightarrow> nat list \<Rightarrow> (py_exc, nat list) res" where
  "mark_active boundary identity active =
     (case identity of
        None \<Rightarrow> Inr active
      | Some k \<Rightarrow> if k \<in> set active then Inl (ValueExc (boundary @ '' contains a circular JSON value'')) else Inr (k # active))"

text \<open>Every call of a container's items is one level deeper, and the levels are bounded.\<close>

definition levels_left :: "resource_limits \<Rightarrow> int \<Rightarrow> nat" where
  "levels_left limits depth = nat (max_depth limits + 1 - depth)"

function walk ::
    "(rat \<Rightarrow> string) \<Rightarrow> ('v \<Rightarrow> 'v node) \<Rightarrow> string \<Rightarrow> resource_limits \<Rightarrow> nat list \<Rightarrow> int \<Rightarrow> 'v \<Rightarrow> counts \<Rightarrow> (py_exc, counts) res"
  and walk_items ::
    "(rat \<Rightarrow> string) \<Rightarrow> ('v \<Rightarrow> 'v node) \<Rightarrow> string \<Rightarrow> resource_limits \<Rightarrow> nat list \<Rightarrow> int \<Rightarrow> 'v list \<Rightarrow> counts \<Rightarrow>
       (py_exc, counts) res"
  and walk_entries ::
    "(rat \<Rightarrow> string) \<Rightarrow> ('v \<Rightarrow> 'v node) \<Rightarrow> string \<Rightarrow> resource_limits \<Rightarrow> nat list \<Rightarrow> int \<Rightarrow> (nat list option \<times> 'v) list \<Rightarrow> counts \<Rightarrow>
       (py_exc, counts) res"
where
  "walk fr view boundary limits active depth item c =
     bindr (enter_node boundary limits depth c) (\<lambda>c.
        case view item of
          NNone \<Rightarrow> add_bytes boundary limits 4 c
        | NBool b \<Rightarrow> add_bytes boundary limits (if b then 4 else 5) c
        | NText s \<Rightarrow> bindr (string_bytes boundary limits c s) (\<lambda>k. add_bytes boundary limits k c)
        | NInt i \<Rightarrow> int_bytes boundary limits i c
        | NFloat None \<Rightarrow> Inl (ValueExc (boundary @ '' contains a non-finite number''))
        | NFloat (Some q) \<Rightarrow> add_bytes boundary limits (text_bytes (fr q)) c
        | NMapping identity d \<Rightarrow>
            bindr (mark_active boundary identity active) (\<lambda>active.
            bindr (add_bytes boundary limits (container_bytes d) c) (walk_entries fr view boundary limits active (depth + 1) d))
        | NSequence identity xs \<Rightarrow>
            bindr (mark_active boundary identity active) (\<lambda>active.
            bindr (add_bytes boundary limits (container_bytes xs) c) (walk_items fr view boundary limits active (depth + 1) xs))
        | NOther \<Rightarrow> Inl (TypeExc (boundary @ '' contains a non-JSON value'')))"
| "walk_items fr view boundary limits active depth [] c = Inr c"
| "walk_items fr view boundary limits active depth (x # xs) c =
     bindr (walk fr view boundary limits active depth x c) (walk_items fr view boundary limits active depth xs)"
| "walk_entries fr view boundary limits active depth [] c = Inr c"
| "walk_entries fr view boundary limits active depth (p # ps) c =
     (case fst p of
        None \<Rightarrow> Inl (TypeExc (boundary @ '' contains a non-text object key''))
      | Some key \<Rightarrow>
          bindr (string_bytes boundary limits c key) (\<lambda>k.
          bindr (add_bytes boundary limits (k + 1) c) (\<lambda>c.
          bindr (walk fr view boundary limits active depth (snd p) c) (walk_entries fr view boundary limits active depth ps))))"
  by pat_completeness auto

termination
  by (relation "measures [\<lambda>s. case s of Inl (_, _, _, limits, _, d, _) \<Rightarrow> levels_left limits d
        | Inr (Inl (_, _, _, limits, _, d, _)) \<Rightarrow> levels_left limits d | Inr (Inr (_, _, _, limits, _, d, _)) \<Rightarrow> levels_left limits d,
      \<lambda>s. case s of Inl _ \<Rightarrow> 0 | Inr (Inl (_, _, _, _, _, _, xs, _)) \<Rightarrow> Suc (length xs)
        | Inr (Inr (_, _, _, _, _, _, ps, _)) \<Rightarrow> Suc (length ps)]")
    (auto simp: levels_left_def enter_node_def split: if_splits)

declare walk.simps [simp del]

definition validate_resource ::
  "(rat \<Rightarrow> string) \<Rightarrow> ('v \<Rightarrow> 'v node) \<Rightarrow> string \<Rightarrow> resource_limits \<Rightarrow> 'v \<Rightarrow> (py_exc, unit) res" where
  "validate_resource fr view boundary limits v =
     bindr (walk fr view boundary limits [] 0 v (0, 0)) (\<lambda>_. Inr ())"

text \<open>The values of the other theories, with the record adapter applied to every item.\<close>

definition py_node :: "pyval \<Rightarrow> pyval node" where
  "py_node v =
     (case v of
        PyNone \<Rightarrow> NNone
      | PyBool b \<Rightarrow> NBool b
      | PyStr s \<Rightarrow> NText (codes s)
      | PyInt i \<Rightarrow> NInt i
      | PyFloat q \<Rightarrow> NFloat (Some q)
      | PyDict d \<Rightarrow> NMapping None (map (\<lambda>p. (Some (codes (fst p)), snd p)) d)
      | PyList xs \<Rightarrow> NSequence None xs
      | PyObj k d \<Rightarrow> NOther)"

definition validate_json_resource ::
  "(rat \<Rightarrow> string) \<Rightarrow> (pyval \<Rightarrow> pyval) \<Rightarrow> string \<Rightarrow> resource_limits \<Rightarrow> pyval \<Rightarrow> (py_exc, unit) res" where
  "validate_json_resource fr adapter boundary limits v =
     validate_resource fr (\<lambda>x. py_node (adapter x)) boundary limits v"

text \<open>A reference as the instance it is, by its fields.\<close>

definition resource_ref_obj :: "resource_ref \<Rightarrow> pyval" where
  "resource_ref_obj r = PyObj ''ResourceRef''
     [(''kind'', PyStr (rr_kind r)), (''resource_id'', PyStr (rr_resource_id r)), (''revision'', PyInt (rr_revision r)),
      (''fragment'', PyStr (rr_fragment r))]"

text \<open>Its \<open>to_dict\<close>, from the fields.\<close>

definition ref_fields_to_dict :: "pydict \<Rightarrow> pyval" where
  "ref_fields_to_dict d = PyDict
     [(''schema'', PyStr ''unchain.resource_ref.v1''), (''kind'', dget d ''kind''), (''id'', dget d ''resource_id''),
      (''revision'', dget d ''revision''), (''fragment'', dget d ''fragment'')]"

subsection \<open>What the pass measures\<close>

text \<open>All JSON trees, with the values that are close to JSON but have no JSON text.\<close>

datatype jval =
    JNull
  | JBool bool
  | JText "nat list"
  | JInt int
  | JFloat "rat option"
  | JObject "(nat list option \<times> jval) list"
  | JArray "jval list"
  | JOther

definition jnode :: "jval \<Rightarrow> jval node" where
  "jnode v =
     (case v of
        JNull \<Rightarrow> NNone
      | JBool b \<Rightarrow> NBool b
      | JText s \<Rightarrow> NText s
      | JInt i \<Rightarrow> NInt i
      | JFloat q \<Rightarrow> NFloat q
      | JObject d \<Rightarrow> NMapping None d
      | JArray xs \<Rightarrow> NSequence None xs
      | JOther \<Rightarrow> NOther)"

text \<open>\<open>json.dumps(v, ensure_ascii=False, separators=(',', ':'))\<close>, as code points, and its encoding.\<close>

definition escaped :: "nat \<Rightarrow> nat list" where
  "escaped n = (if n < 256 then codes (json_char (char_of n)) else [n])"

definition quoted :: "nat list \<Rightarrow> nat list" where
  "quoted s = [34] @ concat (map escaped s) @ [34]"

fun commas :: "nat list list \<Rightarrow> nat list" where
  "commas [] = []"
| "commas [t] = t"
| "commas (t # u # ts) = t @ [44] @ commas (u # ts)"

definition key_text :: "nat list option \<Rightarrow> nat list" where
  "key_text k = (case k of Some s \<Rightarrow> s | None \<Rightarrow> [])"

fun json_text :: "(rat \<Rightarrow> string) \<Rightarrow> jval \<Rightarrow> nat list" where
  "json_text fr (JArray xs) = [91] @ commas (map (json_text fr) xs) @ [93]"
| "json_text fr (JObject d) =
     [123] @ commas (map (\<lambda>p. quoted (key_text (fst p)) @ [58] @ json_text fr (snd p)) d) @ [125]"
| "json_text fr (JText s) = quoted s"
| "json_text fr (JInt i) = codes (int_text i)"
| "json_text fr (JFloat q) = (case q of Some q \<Rightarrow> codes (fr q) | None \<Rightarrow> [])"
| "json_text fr (JBool b) = (if b then codes ''true'' else codes ''false'')"
| "json_text fr JNull = codes ''null''"
| "json_text fr JOther = []"

fun utf8_encode :: "nat list \<Rightarrow> nat list option" where
  "utf8_encode [] = Some []"
| "utf8_encode (n # ns) =
     (case (utf8 n, utf8_encode ns) of (Some bs, Some rest) \<Rightarrow> Some (bs @ rest) | _ \<Rightarrow> None)"

text \<open>A JSON value: integers with a decimal text, finite floats and text keys, and nothing else.\<close>

fun jvalue :: "jval \<Rightarrow> bool" where
  "jvalue (JArray xs) = (\<forall>x \<in> set xs. jvalue x)"
| "jvalue (JObject d) = (\<forall>p \<in> set d. fst p \<noteq> None \<and> jvalue (snd p))"
| "jvalue (JInt i) = printable_int i"
| "jvalue (JFloat q) = (q \<noteq> None)"
| "jvalue JOther = False"
| "jvalue v = True"

fun jnodes :: "jval \<Rightarrow> int" where
  "jnodes (JArray xs) = 1 + (\<Sum>x \<leftarrow> xs. jnodes x)"
| "jnodes (JObject d) = 1 + (\<Sum>p \<leftarrow> d. jnodes (snd p))"
| "jnodes v = 1"

fun jdepth_within :: "int \<Rightarrow> jval \<Rightarrow> bool" where
  "jdepth_within n (JArray xs) = (0 \<le> n \<and> (\<forall>x \<in> set xs. jdepth_within (n - 1) x))"
| "jdepth_within n (JObject d) = (0 \<le> n \<and> (\<forall>p \<in> set d. jdepth_within (n - 1) (snd p)))"
| "jdepth_within n v = (0 \<le> n)"

text \<open>Texts that have an encoding, and how long it is.\<close>

definition unicode :: "nat list \<Rightarrow> bool" where
  "unicode t \<longleftrightarrow> (\<forall>n \<in> set t. utf8 n \<noteq> None)"

lemma unicode_simps [simp]:
  "unicode []" "unicode (n # t) \<longleftrightarrow> utf8 n \<noteq> None \<and> unicode t" "unicode (t @ u) \<longleftrightarrow> unicode t \<and> unicode u"
  by (auto simp: unicode_def)

lemma code_bytes_simps [simp]:
  "code_bytes [] = 0" "code_bytes (n # t) = utf8_size n + code_bytes t" "code_bytes (t @ u) = code_bytes t + code_bytes u"
  by (simp_all add: code_bytes_def)

lemma codes_simps [simp]:
  "codes [] = []" "codes (c # s) = of_char c # codes s" "codes (s @ t) = codes s @ codes t"
  by (simp_all add: codes_def)

lemma text_bytes_simps [simp]:
  "text_bytes [] = 0" "text_bytes (c # s) = utf8_size (of_char c) + text_bytes s" "text_bytes (s @ t) = text_bytes s + text_bytes t"
  by (simp_all add: text_bytes_def)

lemma utf8_size_nonneg [simp]: "0 \<le> utf8_size n"
  by (simp add: utf8_size_def split: option.split)

lemma code_bytes_nonneg [simp]: "0 \<le> code_bytes t"
  by (induction t) simp_all

lemma text_bytes_nonneg [simp]: "0 \<le> text_bytes s"
  by (simp add: text_bytes_def)

lemma utf8_ascii: "n < 128 \<Longrightarrow> utf8 n = Some [n]"
  by (simp add: utf8_def)

lemma utf8_size_ascii: "n < 128 \<Longrightarrow> utf8_size n = 1"
  by (simp add: utf8_size_def utf8_ascii)

lemma utf8_byte: "n < 256 \<Longrightarrow> utf8 n = (if n < 128 then Some [n] else Some [192 + n div 64, 128 + n mod 64])"
  by (simp add: utf8_def)

lemma utf8_size_char: "utf8_size (of_char c) = (if (of_char c :: nat) < 128 then 1 else 2)"
  by (simp add: utf8_size_def utf8_byte)

lemma unicode_codes [simp]: "unicode (codes s)"
proof -
  have "utf8 (of_char c) \<noteq> None" for c by (simp add: utf8_byte)
  then show ?thesis by (auto simp: unicode_def codes_def)
qed

lemma utf8_encode_Some: "(\<exists>bs. utf8_encode t = Some bs \<and> int (length bs) \<le> m) \<longleftrightarrow> unicode t \<and> code_bytes t \<le> m"
proof -
  have "utf8_encode t \<noteq> None \<longleftrightarrow> unicode t" by (induction t) (auto split: option.split)
  moreover have "int (length bs) = code_bytes t" if "utf8_encode t = Some bs" for bs
    using that by (induction t arbitrary: bs) (auto simp: utf8_size_def split: option.splits)
  ultimately show ?thesis by (cases "utf8_encode t") auto
qed

lemma text_bytes_ascii: "\<forall>c \<in> set s. (of_char c :: nat) < 128 \<Longrightarrow> text_bytes s = int (length s)"
  by (induction s) (simp_all add: utf8_size_ascii)

lemma hex_digit_ascii: "n < 16 \<Longrightarrow> (of_char (hex_digit n) :: nat) < 128"
  by (auto simp: hex_digit_def)

text \<open>What the loop over a text adds for one character is the size of its escaped form.\<close>

lemma character_bytes_Inr:
  "character_bytes b n = Inr k \<longleftrightarrow> unicode (escaped n) \<and> k = code_bytes (escaped n)"
proof (cases "n < 256")
  case True
  then have n: "(of_char (char_of n :: char) :: nat) = n" by simp
  have "n < 32 \<Longrightarrow> n div 16 < 16" by linarith
  moreover have "utf8 n \<noteq> None" using True by (simp add: utf8_def)
  ultimately show ?thesis using True
    by (auto simp: character_bytes_def escaped_def json_char_def Let_def n utf8_size_ascii utf8_ascii utf8_size_def hex_digit_ascii
        split: option.split)
next
  case False
  then show ?thesis by (auto simp: character_bytes_def escaped_def utf8_size_def split: option.split)
qed

text \<open>The early exit of the loop gives a number that is too large as well.\<close>

lemma string_loop_Inr:
  assumes "0 \<le> used"
  shows "string_loop b limits used sz s = Inr k \<and> used + k \<le> max_bytes limits \<longleftrightarrow>
    unicode (concat (map escaped s)) \<and> k = sz + code_bytes (concat (map escaped s)) \<and> used + k \<le> max_bytes limits"
proof (induction s arbitrary: sz)
  case (Cons n s)
  have "used + (sz + code_bytes (escaped n)) > max_bytes limits \<Longrightarrow> k = sz + code_bytes (concat (map escaped (n # s))) \<Longrightarrow>
      \<not> used + k \<le> max_bytes limits" using code_bytes_nonneg [of "concat (map escaped s)"] by (simp del: code_bytes_nonneg)
  with Cons [of "sz + code_bytes (escaped n)"] assms show ?case
    by (auto simp: bindr_eq_Inr character_bytes_Inr add.assoc split: if_splits)
qed auto

lemma character_bytes_total: "utf8 n \<noteq> None \<Longrightarrow> \<exists>k. character_bytes b n = Inr k"
  by (auto simp: character_bytes_def)

lemma string_loop_total: "unicode s \<Longrightarrow> \<exists>k. string_loop b limits used sz s = Inr k"
proof (induction s arbitrary: sz)
  case (Cons n s)
  then obtain k where "character_bytes b n = Inr k" using character_bytes_total [of n b] by auto
  with Cons show ?case by simp
qed simp

lemma add_bytes_Inr:
  "add_bytes boundary limits n c = Inr c' \<longleftrightarrow> c' = (fst c, snd c + n) \<and> snd c + n \<le> max_bytes limits"
  by (auto simp: add_bytes_def Let_def)

lemma add_string_Inr:
  assumes "0 \<le> snd c" "0 \<le> e"
  shows "bindr (string_bytes b limits c s) (\<lambda>k. add_bytes b limits (k + e) c) = Inr c' \<longleftrightarrow>
    unicode (quoted s) \<and> c' = (fst c, snd c + code_bytes (quoted s) + e) \<and> snd c + code_bytes (quoted s) + e \<le> max_bytes limits"
proof -
  have "bindr (string_bytes b limits c s) (\<lambda>k. add_bytes b limits (k + e) c) = Inr c' \<longleftrightarrow>
      (\<exists>k. (string_loop b limits (snd c) 2 s = Inr k \<and> snd c + k \<le> max_bytes limits) \<and>
        c' = (fst c, snd c + (k + e)) \<and> snd c + (k + e) \<le> max_bytes limits)"
    using assms(2) by (auto simp: bindr_eq_Inr add_bytes_Inr string_bytes_def)
  also have "\<dots> \<longleftrightarrow> unicode (quoted s) \<and> c' = (fst c, snd c + code_bytes (quoted s) + e) \<and>
      snd c + code_bytes (quoted s) + e \<le> max_bytes limits"
    unfolding string_loop_Inr [OF assms(1)] using assms(2)
    by (auto simp: quoted_def utf8_size_ascii utf8_ascii algebra_simps)
  finally show ?thesis .
qed

lemma int_text_bytes: "text_bytes (int_text i) = int (length (int_text i))"
proof (rule text_bytes_ascii)
  have "(of_char c :: nat) < 128" if "is_digit c" for c using that by (simp add: is_digit_def)
  then show "\<forall>c \<in> set (int_text i). (of_char c :: nat) < 128" using nat_text_digits by (auto simp: int_text_def)
qed

lemma int_bytes_Inr:
  "printable_int i \<Longrightarrow> int_bytes boundary limits i c = Inr c' \<longleftrightarrow>
     c' = (fst c, snd c + text_bytes (int_text i)) \<and> snd c + text_bytes (int_text i) \<le> max_bytes limits"
  by (auto simp: int_bytes_def int_text_bytes add_bytes_def Let_def)

lemma int_bytes_unprintable: "\<not> printable_int i \<Longrightarrow> int_bytes b limits i c \<noteq> Inr c'"
  by (simp add: int_bytes_def)

lemma enter_node_Inr:
  "enter_node boundary limits depth c = Inr c' \<longleftrightarrow>
     c' = (fst c + 1, snd c) \<and> depth \<le> max_depth limits \<and> fst c + 1 \<le> max_nodes limits"
  by (auto simp: enter_node_def)

definition fits :: "resource_limits \<Rightarrow> counts \<Rightarrow> bool" where
  "fits limits c \<longleftrightarrow> fst c \<le> max_nodes limits \<and> snd c \<le> max_bytes limits"

lemma sum_map_nonneg: "(\<And>x. x \<in> set xs \<Longrightarrow> (0 :: int) \<le> f x) \<Longrightarrow> 0 \<le> (\<Sum>x \<leftarrow> xs. f x)"
  by (rule sum_list_nonneg) auto

lemma jnodes_pos: "0 < jnodes v"
proof (induction v rule: jnodes.induct)
  case (1 xs)
  then show ?case using sum_map_nonneg [of xs jnodes] by fastforce
next
  case (2 d)
  then show ?case using sum_map_nonneg [of d "\<lambda>p. jnodes (snd p)"] by fastforce
qed simp_all

lemma jnodes_sum_nonneg: "0 \<le> (\<Sum>x \<leftarrow> xs. jnodes (g x))"
  by (rule sum_map_nonneg) (simp add: jnodes_pos order_less_imp_le)

text \<open>One step of the pass over a tree, from any counts.\<close>

definition counted :: "(rat \<Rightarrow> string) \<Rightarrow> resource_limits \<Rightarrow> int \<Rightarrow> jval \<Rightarrow> counts \<Rightarrow> counts \<Rightarrow> bool" where
  "counted fr limits depth v c c' \<longleftrightarrow>
     c' = (fst c + jnodes v, snd c + code_bytes (json_text fr v)) \<and>
     (jvalue v \<and> unicode (json_text fr v) \<and> jdepth_within (max_depth limits - depth) v) \<and> fits limits c'"

text \<open>A loop of counting steps adds up the counts of its elements.\<close>

lemma loop_counted:
  fixes loop :: "'a list \<Rightarrow> counts \<Rightarrow> (py_exc, counts) res"
  assumes loop: "\<And>c. loop [] c = Inr c" "\<And>x xs c. loop (x # xs) c = bindr (f x c) (loop xs)"
    and step: "\<And>x c c'. \<lbrakk>x \<in> set xs; 0 \<le> snd c\<rbrakk> \<Longrightarrow>
      f x c = Inr c' \<longleftrightarrow> c' = (fst c + n x, snd c + m x) \<and> ok x \<and> fits limits c'"
    and pos: "\<And>x. x \<in> set xs \<Longrightarrow> 0 \<le> n x" "\<And>x. x \<in> set xs \<Longrightarrow> 0 \<le> m x"
    and "0 \<le> snd c" "fits limits c"
  shows "loop xs c = Inr c' \<longleftrightarrow>
    c' = (fst c + (\<Sum>x \<leftarrow> xs. n x), snd c + (\<Sum>x \<leftarrow> xs. m x)) \<and> (\<forall>x \<in> set xs. ok x) \<and> fits limits c'"
  using step pos assms(6,7)
proof (induction xs arbitrary: c)
  case Nil
  then show ?case by (auto simp: loop)
next
  case (Cons x xs)
  let ?c = "(fst c + n x, snd c + m x)"
  have nn: "0 \<le> (\<Sum>x \<leftarrow> xs. n x)" "0 \<le> (\<Sum>x \<leftarrow> xs. m x)" using Cons.prems(2,3) by (auto intro!: sum_map_nonneg)
  have pos: "0 \<le> snd ?c" using Cons.prems(3) [of x] Cons.prems(4) by simp
  have step: "f x c = Inr v \<longleftrightarrow> v = ?c \<and> ok x \<and> fits limits v" for v
    by (rule Cons.prems(1)) (simp_all add: Cons.prems(4))
  have tail: "loop xs ?c = Inr c' \<longleftrightarrow> c' = (fst ?c + (\<Sum>x \<leftarrow> xs. n x), snd ?c + (\<Sum>x \<leftarrow> xs. m x)) \<and>
      (\<forall>x \<in> set xs. ok x) \<and> fits limits c'" if "fits limits ?c"
    by (rule Cons.IH [OF Cons.prems(1-3) pos that]) simp_all
  show ?case
  proof (cases "fits limits ?c")
    case True
    with tail show ?thesis by (auto simp: loop bindr_eq_Inr step add.assoc)
  next
    case False
    with nn show ?thesis by (auto simp: loop bindr_eq_Inr step fits_def)
  qed
qed

lemma commas_bytes: "code_bytes (commas ts) = (\<Sum>t \<leftarrow> ts. code_bytes t) + max 0 (int (length ts) - 1)"
  by (induction ts rule: commas.induct) (simp_all add: utf8_size_ascii)

lemma commas_unicode: "unicode (commas ts) \<longleftrightarrow> (\<forall>t \<in> set ts. unicode t)"
  by (induction ts rule: commas.induct) (simp_all add: utf8_ascii)

lemma container_json_text:
  "code_bytes (json_text fr (JArray xs)) = container_bytes xs + (\<Sum>x \<leftarrow> xs. code_bytes (json_text fr x))"
  "code_bytes (json_text fr (JObject d)) =
     container_bytes d + (\<Sum>p \<leftarrow> d. code_bytes (quoted (key_text (fst p))) + 1 + code_bytes (json_text fr (snd p)))"
  "unicode (json_text fr (JArray xs)) \<longleftrightarrow> (\<forall>x \<in> set xs. unicode (json_text fr x))"
  "unicode (json_text fr (JObject d)) \<longleftrightarrow> (\<forall>p \<in> set d. unicode (quoted (key_text (fst p))) \<and> unicode (json_text fr (snd p)))"
  by (simp_all add: commas_bytes commas_unicode container_bytes_def comp_def utf8_size_ascii utf8_ascii add.assoc)

text \<open>What a container adds before its items, and that its items cannot make up for a count that is too high.\<close>

lemma container_counted:
  assumes items: "fits limits (fst c + 1, snd c + k) \<Longrightarrow> loop (fst c + 1, snd c + k) = Inr c' \<longleftrightarrow>
      c' = (fst c + 1 + n, snd c + k + m) \<and> ok \<and> fits limits c'"
    and "0 \<le> n" "0 \<le> m"
  shows "bindr (enter_node b limits depth c) (\<lambda>c. bindr (add_bytes b limits k c) loop) = Inr c' \<longleftrightarrow>
    c' = (fst c + (1 + n), snd c + (k + m)) \<and> depth \<le> max_depth limits \<and> ok \<and> fits limits c'"
proof (cases "fits limits (fst c + 1, snd c + k)")
  case True
  with items show ?thesis by (auto simp: bindr_eq_Inr enter_node_Inr add_bytes_Inr fits_def add.assoc)
next
  case False
  with assms(2,3) show ?thesis by (auto simp: bindr_eq_Inr enter_node_Inr add_bytes_Inr fits_def)
qed

lemma walk_array:
  assumes "\<And>x c c'. \<lbrakk>x \<in> set xs; 0 \<le> snd c\<rbrakk> \<Longrightarrow>
      walk fr jnode b limits active (depth + 1) x c = Inr c' \<longleftrightarrow> counted fr limits (depth + 1) x c c'"
    and "0 \<le> snd c"
  shows "walk fr jnode b limits active depth (JArray xs) c = Inr c' \<longleftrightarrow> counted fr limits depth (JArray xs) c c'"
proof -
  let ?ok = "\<lambda>x. jvalue x \<and> unicode (json_text fr x) \<and> jdepth_within (max_depth limits - (depth + 1)) x"
  have "walk_items fr jnode b limits active (depth + 1) xs (fst c + 1, snd c + container_bytes xs) = Inr c' \<longleftrightarrow>
      c' = (fst c + 1 + (\<Sum>x \<leftarrow> xs. jnodes x), snd c + container_bytes xs + (\<Sum>x \<leftarrow> xs. code_bytes (json_text fr x))) \<and>
      (\<forall>x \<in> set xs. ?ok x) \<and> fits limits c'" if "fits limits (fst c + 1, snd c + container_bytes xs)"
    using that assms loop_counted [where f = "walk fr jnode b limits active (depth + 1)" and n = jnodes
        and m = "\<lambda>x. code_bytes (json_text fr x)" and ok = ?ok and xs = xs
        and loop = "walk_items fr jnode b limits active (depth + 1)" and c = "(fst c + 1, snd c + container_bytes xs)"]
    by (simp add: counted_def jnodes_pos order_less_imp_le container_bytes_def)
  from container_counted [where loop = "walk_items fr jnode b limits active (depth + 1) xs", OF this] show ?thesis
    by (auto simp: walk.simps jnode_def mark_active_def counted_def container_json_text jnodes_sum_nonneg [of "\<lambda>x. x"] sum_map_nonneg algebra_simps
        simp del: json_text.simps)
qed

lemma walk_object:
  assumes "\<And>p c c'. \<lbrakk>p \<in> set d; 0 \<le> snd c\<rbrakk> \<Longrightarrow>
      walk fr jnode b limits active (depth + 1) (snd p) c = Inr c' \<longleftrightarrow> counted fr limits (depth + 1) (snd p) c c'"
    and "0 \<le> snd c"
  shows "walk fr jnode b limits active depth (JObject d) c = Inr c' \<longleftrightarrow> counted fr limits depth (JObject d) c c'"
proof -
  let ?step = "\<lambda>p c. case fst p of None \<Rightarrow> Inl (TypeExc (b @ '' contains a non-text object key''))
      | Some key \<Rightarrow> bindr (bindr (string_bytes b limits c key) (\<lambda>k. add_bytes b limits (k + 1) c))
          (walk fr jnode b limits active (depth + 1) (snd p))"
  let ?m = "\<lambda>p. code_bytes (quoted (key_text (fst p))) + 1 + code_bytes (json_text fr (snd p))"
  let ?ok = "\<lambda>p. fst p \<noteq> None \<and> unicode (quoted (key_text (fst p))) \<and> jvalue (snd p) \<and> unicode (json_text fr (snd p)) \<and>
      jdepth_within (max_depth limits - (depth + 1)) (snd p)"
  have step: "?step p c = Inr c' \<longleftrightarrow> c' = (fst c + jnodes (snd p), snd c + ?m p) \<and> ?ok p \<and> fits limits c'"
    if "p \<in> set d" "0 \<le> snd c" for p c c'
  proof -
    have "walk fr jnode b limits active (depth + 1) (snd p) c' = Inr c'' \<longleftrightarrow> counted fr limits (depth + 1) (snd p) c' c''"
      if "0 \<le> snd c'" for c' c'' using assms(1) \<open>p \<in> set d\<close> that by simp
    with that(2) show ?thesis
      by (cases "fst p") (auto simp: bindr_eq_Inr [of "bindr r f" for r f] add_string_Inr counted_def fits_def key_text_def add.assoc,
        use code_bytes_nonneg [of "json_text fr (snd p)"] in linarith)
  qed
  have loop: "walk_entries fr jnode b limits active (depth + 1) (p # ps) c =
      bindr (?step p c) (walk_entries fr jnode b limits active (depth + 1) ps)" for p ps c
    by (simp add: bindr_assoc split: option.split)
  have "walk_entries fr jnode b limits active (depth + 1) d (fst c + 1, snd c + container_bytes d) = Inr c' \<longleftrightarrow>
      c' = (fst c + 1 + (\<Sum>p \<leftarrow> d. jnodes (snd p)), snd c + container_bytes d + (\<Sum>p \<leftarrow> d. ?m p)) \<and>
      (\<forall>p \<in> set d. ?ok p) \<and> fits limits c'" if "fits limits (fst c + 1, snd c + container_bytes d)"
    by (rule loop_counted [where f = ?step and n = "\<lambda>p. jnodes (snd p)" and m = ?m and ok = ?ok and xs = d
        and loop = "walk_entries fr jnode b limits active (depth + 1)" and c = "(fst c + 1, snd c + container_bytes d)", simplified fst_conv snd_conv])
      (use that assms(2) step loop in \<open>simp_all add: jnodes_pos order_less_imp_le container_bytes_def\<close>)
  from container_counted [where loop = "walk_entries fr jnode b limits active (depth + 1) d", OF this] show ?thesis
    by (auto simp: walk.simps jnode_def mark_active_def counted_def container_json_text jnodes_sum_nonneg sum_map_nonneg algebra_simps
        simp del: json_text.simps)
qed

lemma walk_text:
  "0 \<le> snd c \<Longrightarrow> walk fr jnode b limits active depth (JText s) c = Inr c' \<longleftrightarrow> counted fr limits depth (JText s) c c'"
  using add_string_Inr [of "(fst c + 1, snd c)" 0 b limits s]
  by (auto simp: walk.simps jnode_def bindr_eq_Inr [of "enter_node b limits depth c"] enter_node_Inr counted_def fits_def)

lemma walk_counted:
  "0 \<le> snd c \<Longrightarrow> walk fr jnode b limits active depth v c = Inr c' \<longleftrightarrow> counted fr limits depth v c c'"
proof (induction v arbitrary: depth c c' rule: jvalue.induct)
  case (1 xs)
  then show ?case by (intro walk_array)
next
  case (2 d)
  then show ?case by (intro walk_object) auto
next
  case (3 i)
  then show ?case
    by (cases "printable_int i")
      (auto simp: walk.simps jnode_def bindr_eq_Inr enter_node_Inr int_bytes_Inr counted_def fits_def text_bytes_def int_bytes_unprintable)
next
  case (4 q)
  then show ?case
    by (cases q) (auto simp: walk.simps jnode_def bindr_eq_Inr enter_node_Inr add_bytes_Inr counted_def fits_def text_bytes_def)
qed ((rule walk_text, assumption) |
    (auto simp: walk.simps jnode_def bindr_eq_Inr enter_node_Inr add_bytes_Inr counted_def fits_def utf8_size_ascii utf8_ascii)[1])+

lemma validate_tree:
  "validate_resource fr jnode boundary limits v = Inr () \<longleftrightarrow>
     jvalue v \<and> jnodes v \<le> max_nodes limits \<and> jdepth_within (max_depth limits) v \<and>
     unicode (json_text fr v) \<and> code_bytes (json_text fr v) \<le> max_bytes limits"
  by (auto simp: validate_resource_def bindr_eq_Inr walk_counted counted_def fits_def)

subsection \<open>Views of the same tree\<close>

text \<open>A function that respects the views does not change what the pass does.\<close>

lemma walk_view:
  "(\<And>v. view' (h v) = map_node h (view v)) \<Longrightarrow>
     walk fr view b limits active depth v c = walk fr view' b limits active depth (h v) c"
  "(\<And>v. view' (h v) = map_node h (view v)) \<Longrightarrow>
     walk_items fr view b limits active depth xs c = walk_items fr view' b limits active depth (map h xs) c"
  "(\<And>v. view' (h v) = map_node h (view v)) \<Longrightarrow>
     walk_entries fr view b limits active depth ps c = walk_entries fr view' b limits active depth (map (map_prod id h) ps) c"
proof (induction fr view b limits active depth v c and fr view b limits active depth xs c and fr view b limits active depth ps c
    rule: walk_walk_items_walk_entries.induct)
  case (1 fr view b limits active depth v c)
  show ?case
    by (subst (1 2) walk.simps, rule bindr_cong [OF refl], subst 1(3))
      (auto intro!: bindr_cong 1(1,2) 1(3) simp: container_bytes_def split: node.split option.split)
next
  case (3 fr view b limits active depth x xs c)
  then show ?case by (auto intro!: bindr_cong)
next
  case (5 fr view b limits active depth p ps c)
  then show ?case by (auto intro!: bindr_cong split: option.split)
qed simp_all

lemma validate_view:
  "(\<And>v. view' (h v) = map_node h (view v)) \<Longrightarrow>
     validate_resource fr view b limits v = validate_resource fr view' b limits (h v)"
  by (simp add: validate_resource_def walk_view(1) [of view' h view])

text \<open>A value of the other theories as a JSON tree.\<close>

fun tree :: "pyval \<Rightarrow> jval" where
  "tree (PyList xs) = JArray (map tree xs)"
| "tree (PyDict d) = JObject (map (\<lambda>p. (Some (codes (fst p)), tree (snd p))) d)"
| "tree PyNone = JNull"
| "tree (PyBool b) = JBool b"
| "tree (PyInt i) = JInt i"
| "tree (PyFloat q) = JFloat (Some q)"
| "tree (PyStr s) = JText (codes s)"
| "tree (PyObj k d) = JOther"

text \<open>\<open>json.dumps(v, ensure_ascii=False, separators=(',', ':'))\<close>\<close>

fun compact_json :: "(rat \<Rightarrow> string) \<Rightarrow> pyval \<Rightarrow> string" where
  "compact_json fr (PyList xs) = ''['' @ join '','' (map (compact_json fr) xs) @ '']''"
| "compact_json fr (PyDict d) = ''{'' @ join '','' (map (\<lambda>p. json_str (fst p) @ '':'' @ compact_json fr (snd p)) d) @ ''}''"
| "compact_json fr v = json_dumps fr v"

fun node_count :: "pyval \<Rightarrow> int" where
  "node_count (PyList xs) = 1 + (\<Sum>x \<leftarrow> xs. node_count x)"
| "node_count (PyDict d) = 1 + (\<Sum>p \<leftarrow> d. node_count (snd p))"
| "node_count v = 1"

fun within_depth :: "int \<Rightarrow> pyval \<Rightarrow> bool" where
  "within_depth n (PyList xs) = (0 \<le> n \<and> (\<forall>x \<in> set xs. within_depth (n - 1) x))"
| "within_depth n (PyDict d) = (0 \<le> n \<and> (\<forall>p \<in> set d. within_depth (n - 1) (snd p)))"
| "within_depth n v = (0 \<le> n)"

fun json_value :: "pyval \<Rightarrow> bool" where
  "json_value (PyList xs) = (\<forall>x \<in> set xs. json_value x)"
| "json_value (PyDict d) = (\<forall>p \<in> set d. json_value (snd p))"
| "json_value (PyInt i) = printable_int i"
| "json_value (PyObj c d) = False"
| "json_value v = True"

definition char_bytes :: "char \<Rightarrow> int" where
  "char_bytes c = text_bytes (json_char c)"

lemma char_bytes_code:
  "char_bytes c = (let n = of_char c :: nat in
     if n = 34 \<or> n = 92 \<or> n \<in> {8, 9, 10, 12, 13} then 2 else if n < 32 then 6 else if n < 128 then 1 else 2)"
proof -
  have "(of_char c :: nat) < 32 \<Longrightarrow> (of_char c :: nat) div 16 < 16" by linarith
  then show ?thesis
    by (simp add: char_bytes_def json_char_def Let_def utf8_size_ascii utf8_size_char hex_digit_ascii)
qed

lemma text_bytes_json_str: "text_bytes (json_str s) = 2 + (\<Sum>c \<leftarrow> s. char_bytes c)"
proof -
  have "text_bytes (concat (map json_char s)) = (\<Sum>c \<leftarrow> s. char_bytes c)" by (induction s) (simp_all add: char_bytes_def)
  then show ?thesis by (simp add: json_str_def double_quote_def utf8_size_ascii)
qed

lemma char_bytes_pos: "0 < char_bytes c"
  by (simp add: char_bytes_code Let_def)

lemma quoted_codes: "quoted (codes s) = codes (json_str s)"
proof -
  have "concat (map escaped (codes s)) = codes (concat (map json_char s))" by (induction s) (simp_all add: escaped_def)
  then show ?thesis by (simp add: quoted_def json_str_def double_quote_def)
qed

lemma commas_codes: "commas (map codes ss) = codes (join '','' ss)"
  by (induction "'',''" ss rule: join.induct) simp_all

lemma tree_text: "json_value v \<Longrightarrow> json_text fr (tree v) = codes (compact_json fr v)"
proof (induction v rule: json_value.induct)
  case (1 xs)
  then have "map (json_text fr) (map tree xs) = map codes (map (compact_json fr) xs)" by simp
  then show ?case by (simp only: tree.simps json_text.simps compact_json.simps commas_codes) simp
next
  case (2 d)
  then have "map (\<lambda>p. quoted (key_text (fst p)) @ [58] @ json_text fr (snd p)) (map (\<lambda>p. (Some (codes (fst p)), tree (snd p))) d) =
      map codes (map (\<lambda>p. json_str (fst p) @ '':'' @ compact_json fr (snd p)) d)"
    by (simp add: key_text_def quoted_codes)
  then show ?case by (simp only: tree.simps json_text.simps compact_json.simps commas_codes) simp
qed (simp_all add: quoted_codes)

lemma tree_counts: "jvalue (tree v) = json_value v" "jnodes (tree v) = node_count v" "jdepth_within n (tree v) = within_depth n v"
proof -
  show "jvalue (tree v) = json_value v" by (induction v rule: tree.induct) auto
  show "jnodes (tree v) = node_count v" by (induction v rule: tree.induct) (simp_all add: comp_def cong: map_cong)
  show "jdepth_within n (tree v) = within_depth n v" by (induction v arbitrary: n rule: tree.induct) auto
qed

definition resource_fits :: "(rat \<Rightarrow> string) \<Rightarrow> resource_limits \<Rightarrow> pyval \<Rightarrow> bool" where
  "resource_fits fr limits v \<longleftrightarrow>
     json_value v \<and> node_count v \<le> max_nodes limits \<and> within_depth (max_depth limits) v \<and>
     text_bytes (compact_json fr v) \<le> max_bytes limits"

lemma validate_fits: "validate_json_resource fr (\<lambda>x. x) boundary limits v = Inr () \<longleftrightarrow> resource_fits fr limits v"
proof -
  have "jnode (tree v) = map_node tree (py_node v)" for v
    by (cases v) (simp_all add: jnode_def py_node_def)
  then have "validate_json_resource fr (\<lambda>x. x) boundary limits v = validate_resource fr jnode boundary limits (tree v)"
    unfolding validate_json_resource_def by (rule validate_view)
  then show ?thesis by (auto simp: validate_tree resource_fits_def tree_counts tree_text text_bytes_def)
qed

lemma text_bytes_join_comma:
  "text_bytes (join '','' ss) = (\<Sum>s \<leftarrow> ss. text_bytes s) + max 0 (int (length ss) - 1)"
  by (induction "'',''" ss rule: join.induct) (simp_all add: utf8_size_ascii)

lemma container_text_bytes:
  "text_bytes (compact_json fr (PyList xs)) = container_bytes xs + (\<Sum>x \<leftarrow> xs. text_bytes (compact_json fr x))"
  "text_bytes (compact_json fr (PyDict d)) =
     container_bytes d + (\<Sum>p \<leftarrow> d. text_bytes (json_str (fst p)) + 1 + text_bytes (compact_json fr (snd p)))"
  by (simp_all add: text_bytes_join_comma container_bytes_def comp_def utf8_size_ascii add.assoc)

subsection \<open>Adapters\<close>

text \<open>The pass with an adapter is the pass over the value that the adapter produces at every level.\<close>

definition adapts :: "(pyval \<Rightarrow> pyval) \<Rightarrow> (pyval \<Rightarrow> pyval) \<Rightarrow> bool" where
  "adapts adapter f \<longleftrightarrow> (\<forall>v. f v = (case adapter v of
     PyList xs \<Rightarrow> PyList (map f xs) | PyDict d \<Rightarrow> PyDict (map (\<lambda>p. (fst p, f (snd p))) d) | w \<Rightarrow> w))"

lemma validate_adapted:
  assumes "adapts adapter f"
  shows "validate_json_resource fr adapter b limits v = validate_json_resource fr (\<lambda>x. x) b limits (f v)"
proof -
  have "py_node (f v) = map_node f (py_node (adapter v))" for v
  proof -
    have "f v = (case adapter v of PyList xs \<Rightarrow> PyList (map f xs) | PyDict d \<Rightarrow> PyDict (map (\<lambda>p. (fst p, f (snd p))) d) | w \<Rightarrow> w)"
      using assms by (simp add: adapts_def)
    then show ?thesis by (cases "adapter v") (simp_all add: py_node_def)
  qed
  then show ?thesis unfolding validate_json_resource_def by (rule validate_view)
qed

subsection \<open>Properties\<close>

text \<open>
  C37: The pass accepts exactly the trees that are JSON values, have no more nodes and levels than
  allowed, and whose compact JSON text has a UTF-8 encoding within the byte limit, although the pass
  never builds the text and stops inside a string as soon as it is too long. Texts and keys are any
  code points: a character counts its one to four bytes or its escape, and a lone surrogate anywhere
  makes the value unacceptable, as do a float that is not finite and a key that is no text. Circular
  objects are outside the statement, since they have no JSON text.
\<close>
theorem resource_check_is_exact:
  "validate_resource fr jnode boundary limits v = Inr () \<longleftrightarrow>
     jvalue v \<and> jnodes v \<le> max_nodes limits \<and> jdepth_within (max_depth limits) v \<and>
     (\<exists>bs. utf8_encode (json_text fr v) = Some bs \<and> int (length bs) \<le> max_bytes limits)"
  by (simp add: validate_tree utf8_encode_Some)

lemma add_bytes_exceeded:
  "snd c + k > max_bytes limits \<Longrightarrow> add_bytes boundary limits k c = Inl (limit_error boundary ''bytes'' (max_bytes limits) (snd c + k))"
  by (simp add: add_bytes_def)

lemma string_bytes_exceeded:
  assumes "0 \<le> snd c" "snd c + text_bytes s > max_bytes limits"
  shows "\<exists>k. string_bytes boundary limits c (codes s) = Inr k \<and> snd c + k > max_bytes limits"
proof -
  obtain k where k: "string_bytes boundary limits c (codes s) = Inr k"
    using string_loop_total [of "codes s" boundary limits "snd c" 2] by (auto simp: string_bytes_def)
  have "text_bytes s \<le> code_bytes (concat (map escaped (codes s)))"
  proof (induction s)
    case (Cons a s)
    have "utf8_size (of_char a) \<le> char_bytes a" by (simp add: char_bytes_code utf8_size_char Let_def)
    with Cons show ?case by (simp add: escaped_def char_bytes_def text_bytes_def)
  qed simp
  then have "\<not> snd c + k \<le> max_bytes limits"
    using string_loop_Inr [OF assms(1), of boundary limits 2 "codes s" k] k assms(2) by (auto simp: string_bytes_def)
  with k show ?thesis by auto
qed

text \<open>
  C38: Wherever the pass reaches an integer whose decimal text does not fit into the bytes that are
  left, it does not raise the limit error: it reports an invalid integer, because the handler for
  integers without a decimal text catches the limit error too, which is a \<open>ValueError\<close>. The same digits
  as a text, at the same place, raise the limit error. Reaching an item means that its level is
  allowed and that one more node is.
\<close>
theorem oversized_integer_is_misreported:
  assumes "view item = NInt i" "view digits = NText (codes (int_text i))"
    and "depth \<le> max_depth limits" "fst c < max_nodes limits" "0 \<le> snd c"
    and "snd c + int (length (int_text i)) > max_bytes limits"
  shows "walk fr view boundary limits active depth item c = Inl (ValueExc (boundary @ '' contains an invalid integer'')) \<and>
    (\<exists>observed > max_bytes limits.
       walk fr view boundary limits active depth digits c = Inl (limit_error boundary ''bytes'' (max_bytes limits) observed))"
proof -
  have enter: "enter_node boundary limits depth c = Inr (fst c + 1, snd c)" using assms(3,4) by (simp add: enter_node_def)
  have "snd (fst c + 1, snd c) + text_bytes (int_text i) > max_bytes limits" using assms(6) by (simp add: int_text_bytes)
  from string_bytes_exceeded [OF _ this] assms(5) obtain k
    where k: "string_bytes boundary limits (fst c + 1, snd c) (codes (int_text i)) = Inr k" "snd c + k > max_bytes limits" by auto
  then show ?thesis
    using assms(6) by (auto simp: walk.simps enter assms(1,2) int_bytes_def Let_def add_bytes_exceeded)
qed

theorem oversized_integer_is_misreported_witness:
  "let limits = \<lparr>max_items = 1, max_bytes = 4, max_depth = 1, max_nodes = 1\<rparr> in
   walk (\<lambda>q. []) jnode ''payload'' limits [] 0 (JInt 12345) (0, 0) = Inl (ValueExc ''payload contains an invalid integer'') \<and>
   (\<exists>observed > 4. walk (\<lambda>q. []) jnode ''payload'' limits [] 0 (JText (codes ''12345'')) (0, 0) =
      Inl (limit_error ''payload'' ''bytes'' 4 observed))"
proof -
  have "map digit_char [1, 2, 3, 4, 5] = ''12345''" by code_simp
  then have "int_text 12345 = ''12345''" by (simp add: int_text_def nat_text.simps)
  then show ?thesis
    using oversized_integer_is_misreported [of jnode "JInt 12345" 12345 "JText (codes ''12345'')" 0
        "\<lparr>max_items = 1, max_bytes = 4, max_depth = 1, max_nodes = 1\<rparr>" "(0, 0)" "\<lambda>q. []" "''payload''" "[]"]
    by (simp add: jnode_def del: codes_simps)
qed

end
