(* ===== verification/EventSink.thy ===== *)
theory EventSink
  imports SqlStore ResourceLimits
begin

section \<open>The event sink and recovery of tool calls\<close>

text \<open>
  \<open>journal/runtime.py\<close>: the sink that projects runtime events into semantic events and appends them
  to the journal of its attempt, the replay of an attempt page by page, and the decision what to do
  with a tool call after a restart, from the receipts the journal has of it.

  The journal is a port, as in the source; the projector is an argument that the host supplies. The
  locale \<open>event_journal\<close> states what the sink relies on, and the SQLite journal meets it. The lemmas
  show that replay returns the events of the attempt for every page size, that an event delivered
  twice is stored once, and that the state recovered for a tool call only moves forward: a call with
  a durable start is never executed again automatically.
\<close>

subsection \<open>Drafts\<close>

definition durable_scope :: "string \<Rightarrow> py_exc" where
  "durable_scope m = DomainExc ''DurableJournalScopeError'' m"

definition durable_integrity :: "string \<Rightarrow> py_exc" where
  "durable_integrity m = DomainExc ''DurableJournalIntegrityError'' m"

definition build_operation_ref :: "(blob \<Rightarrow> string) \<Rightarrow> pyval \<Rightarrow> string \<Rightarrow> pyval \<Rightarrow> (py_exc, operation_ref) res" where
  "build_operation_ref sha opid domain payload =
     bindr (required_text ''operation_id'' 256 True opid) (\<lambda>i.
     bindr (required_text ''domain'' 256 True (PyStr domain)) (\<lambda>d.
     bindr (freeze_json ''operation'' (PyDict [(''domain'', PyStr d), (''payload'', payload)])) (\<lambda>frozen.
       if \<not> is_dict frozen then Inl (TypeExc ''operation payload must be an object'')
       else mk_operation_ref (PyStr i) (PyStr (sha (canonical_json_bytes frozen))))))"

record event_draft =
  sd_event_id :: string
  sd_event_type :: string
  sd_attempt :: attempt_ref
  sd_operation_id :: string
  sd_payload :: pydict
  sd_resource_refs :: "resource_ref list"

definition mk_event_draft ::
  "pyval \<Rightarrow> pyval \<Rightarrow> attempt_ref + pyval \<Rightarrow> pyval \<Rightarrow> pyval \<Rightarrow> resource_ref list + pyval \<Rightarrow> (py_exc, event_draft) res" where
  "mk_event_draft eid ty attempt opid payload refs =
     bindr (required_text ''event_id'' 256 True eid) (\<lambda>e.
     bindr (required_text ''event_type'' 256 True ty) (\<lambda>t.
     bindr (as_record attempt_ref_from_dict attempt) (\<lambda>a.
     bindr (required_text ''operation_id'' 256 True opid) (\<lambda>i.
     bindr (freeze_json ''payload'' payload) (\<lambda>p.
     (case p of
        PyDict d \<Rightarrow>
          bindr (as_records resource_ref_from_dict ''resource_refs'' refs) (\<lambda>rs.
            Inr \<lparr>sd_event_id = e, sd_event_type = t, sd_attempt = a, sd_operation_id = i, sd_payload = d,
                 sd_resource_refs = rs\<rparr>)
      | _ \<Rightarrow> Inl (TypeExc ''payload must be an object'')))))))"

definition draft_value :: "event_draft \<Rightarrow> pyval" where
  "draft_value d = PyDict
     [(''event_id'', PyStr (sd_event_id d)), (''event_type'', PyStr (sd_event_type d)),
      (''attempt'', attempt_ref_to_dict (sd_attempt d)), (''payload'', PyDict (sd_payload d)),
      (''resource_refs'', PyList (map resource_ref_to_dict (sd_resource_refs d)))]"

definition draft_operation :: "(blob \<Rightarrow> string) \<Rightarrow> event_draft \<Rightarrow> (py_exc, operation_ref) res" where
  "draft_operation sha d = build_operation_ref sha (PyStr (sd_operation_id d)) ''journal.semantic_event'' (draft_value d)"

definition to_append_request :: "(blob \<Rightarrow> string) \<Rightarrow> event_draft \<Rightarrow> (py_exc, append_request) res" where
  "to_append_request sha d =
     bindr (draft_operation sha d) (\<lambda>opr.
       mk_append_request (PyStr (sd_event_id d)) (PyStr (sd_event_type d)) (Inl (sd_attempt d)) (Inl opr) (PyDict (sd_payload d))
         (Inl (sd_resource_refs d)))"

text \<open>\<open>PreparedSemanticEvent\<close>: the class checks only the types of its two fields.\<close>

record 'a prepared_event =
  pe_draft :: event_draft
  pe_artifacts :: "'a list"

subsection \<open>Ephemeral events\<close>

definition normalized_type :: "string \<Rightarrow> string" where
  "normalized_type s = strip_char (CHR ''_'') (squeeze_separators (concat (map casefold_char s)))"

definition contains_text :: "string \<Rightarrow> string \<Rightarrow> bool" where
  "contains_text s t = sublist t s"

definition runtime_event_is_ephemeral :: "pydict \<Rightarrow> bool" where
  "runtime_event_is_ephemeral event =
     (case dget event ''type'' of
        PyStr raw \<Rightarrow>
          (if raw = ''provider_retry'' then True
           else let t = normalized_type raw in
             if t = [] then False
             else if list_ex (contains_text t) [''reasoning'', ''thinking'', ''chain_of_thought'', ''hidden_cot''] then True
             else suffix ''delta'' t \<and>
               list_ex (contains_text t) [''analysis'', ''content'', ''message'', ''response'', ''stream'', ''token''])
      | _ \<Rightarrow> False)"

definition same_persisted_event :: "append_request \<Rightarrow> journal_event \<Rightarrow> bool" where
  "same_persisted_event q e =
     (ev_event_id e = rq_event_id q \<and> ev_event_type e = rq_event_type q \<and> ev_attempt e = rq_attempt q \<and>
      ev_operation e = rq_operation q \<and> py_eq (PyDict (ev_payload e)) (PyDict (rq_payload q)) \<and>
      ev_resource_refs e = rq_resource_refs q)"

subsection \<open>Projection of a stored event\<close>

definition semantic_event_projection_limits :: resource_limits where
  "semantic_event_projection_limits =
     \<lparr>max_items = 10000, max_bytes = 32 * 1024 * 1024, max_depth = 64, max_nodes = 1000000\<rparr>"

fun semantic_projection_resource_adapter :: "pyval \<Rightarrow> pyval" where
  "semantic_projection_resource_adapter (PyObj c d) =
     (if c = ''ResourceRef'' then ref_fields_to_dict d else PyObj c d)"
| "semantic_projection_resource_adapter v = v"

definition identity_fields :: "journal_event \<Rightarrow> pydict" where
  "identity_fields e =
     [(''type'', PyStr (ev_event_type e)), (''event_id'', PyStr (ev_event_id e)), (''store_seq'', PyInt (ev_store_seq e)),
      (''execution_id'', PyStr (gr_execution_id (at_generation (ev_attempt e)))),
      (''generation_id'', PyStr (gr_generation_id (at_generation (ev_attempt e)))),
      (''attempt_id'', PyStr (at_attempt_id (ev_attempt e)))]"

definition journal_event_to_semantic_event :: "(rat \<Rightarrow> string) \<Rightarrow> journal_event \<Rightarrow> (py_exc, pydict) res" where
  "journal_event_to_semantic_event fr e =
     bindr (validate_json_resource fr semantic_projection_resource_adapter ''semantic_event_projection''
         semantic_event_projection_limits
         (PyDict (identity_fields e @ [(''payload'', PyDict (ev_payload e)),
            (''resource_refs'', PyList (map resource_ref_obj (ev_resource_refs e)))]))) (\<lambda>_.
       Inr (dict_update (ev_payload e)
         (identity_fields e @ [(''resource_refs'', PyList (map resource_ref_to_dict (ev_resource_refs e)))])))"

subsection \<open>The journal as a port, and the sink\<close>

text \<open>
  \<open>BoundExecutionJournal\<close>. The last two fields are the optional halves of the interface: an atomic
  append with artifacts and a precondition, and the receipt index.
\<close>

record ('st, 'a, 'p) journal_port =
  jp_execution_id :: string
  jp_append :: "append_request \<Rightarrow> 'st \<Rightarrow> (py_exc, append_result) res \<times> 'st"
  jp_read :: "event_cursor option \<Rightarrow> int \<Rightarrow> 'st \<Rightarrow> (py_exc, journal_page) res"
  jp_append_with_artifacts :: "append_request \<Rightarrow> 'a list \<Rightarrow> 'p option \<Rightarrow> 'st \<Rightarrow> (py_exc, append_result) res \<times> 'st"
  jp_lookup :: "(attempt_ref \<Rightarrow> pyval \<Rightarrow> 'st \<Rightarrow> (py_exc, tool_receipt_lookup) res) option"

record ('st, 'a, 'p) event_sink =
  sk_journal :: "('st, 'a, 'p) journal_port"
  sk_attempt :: attempt_ref
  sk_projector :: "pydict \<Rightarrow> (py_exc, event_draft option) res"

definition mk_event_sink ::
  "('st, 'a, 'p) journal_port \<Rightarrow> attempt_ref + pyval \<Rightarrow> (pydict \<Rightarrow> (py_exc, event_draft option) res) \<Rightarrow>
   (py_exc, ('st, 'a, 'p) event_sink) res" where
  "mk_event_sink journal attempt projector =
     bindr (as_record attempt_ref_from_dict attempt) (\<lambda>a.
       if jp_execution_id journal \<noteq> gr_execution_id (at_generation a)
       then Inl (durable_scope ''journal execution does not match the bound attempt execution'')
       else Inr \<lparr>sk_journal = journal, sk_attempt = a, sk_projector = projector\<rparr>)"

definition draft_error :: "('st, 'a, 'p) event_sink \<Rightarrow> event_draft \<Rightarrow> py_exc option" where
  "draft_error k d =
     (if runtime_event_is_ephemeral [(''type'', PyStr (sd_event_type d))]
      then Some (durable_integrity ''ephemeral events cannot be appended as projected drafts'')
      else if sd_attempt d \<noteq> sk_attempt k
      then Some (durable_scope ''projected event attempt does not match the bound attempt'')
      else None)"

definition check_persisted :: "append_request \<Rightarrow> (py_exc, append_result) res \<Rightarrow> (py_exc, append_result) res" where
  "check_persisted q r =
     bindr r (\<lambda>x.
       if \<not> same_persisted_event q (res_event x)
       then Inl (durable_integrity ''persisted event does not match the exact append request'') else Inr x)"

definition append_projected ::
  "(blob \<Rightarrow> string) \<Rightarrow> ('st, 'a, 'p) event_sink \<Rightarrow> event_draft \<Rightarrow> 'st \<Rightarrow> (py_exc, append_result) res \<times> 'st" where
  "append_projected sha k d st =
     (case draft_error k d of
        Some e \<Rightarrow> (Inl e, st)
      | None \<Rightarrow>
          (case to_append_request sha d of
             Inl e \<Rightarrow> (Inl e, st)
           | Inr q \<Rightarrow> (case jp_append (sk_journal k) q st of (r, st') \<Rightarrow> (check_persisted q r, st'))))"

definition append_prepared ::
  "(blob \<Rightarrow> string) \<Rightarrow> ('st, 'a, 'p) event_sink \<Rightarrow> 'a prepared_event \<Rightarrow> 'p option \<Rightarrow> 'st \<Rightarrow> (py_exc, append_result) res \<times> 'st" where
  "append_prepared sha k p precondition st =
     (let d = pe_draft p in
      case draft_error k d of
        Some e \<Rightarrow> (Inl e, st)
      | None \<Rightarrow>
          (case to_append_request sha d of
             Inl e \<Rightarrow> (Inl e, st)
           | Inr q \<Rightarrow>
               (case jp_append_with_artifacts (sk_journal k) q (pe_artifacts p) precondition st of
                  (r, st') \<Rightarrow> (check_persisted q r, st'))))"

definition sink_event ::
  "(blob \<Rightarrow> string) \<Rightarrow> ('st, 'a, 'p) event_sink \<Rightarrow> pyval \<Rightarrow> 'st \<Rightarrow> (py_exc, append_result option) res \<times> 'st" where
  "sink_event sha k event st =
     (case event of
        PyDict ev \<Rightarrow>
          if runtime_event_is_ephemeral ev then (Inr None, st)
          else (case sk_projector k ev of
             Inl e \<Rightarrow> (Inl e, st)
           | Inr None \<Rightarrow> (Inr None, st)
           | Inr (Some d) \<Rightarrow>
               if runtime_event_is_ephemeral [(''type'', PyStr (sd_event_type d))] then (Inr None, st)
               else (case append_projected sha k d st of (r, st') \<Rightarrow> (bindr r (\<lambda>x. Inr (Some x)), st')))
      | _ \<Rightarrow> (Inl (TypeExc ''durable event must be an object''), st))"

subsection \<open>Replay\<close>

definition max_replay_page_size :: int where "max_replay_page_size = 1000"
definition max_replay_pages :: nat where "max_replay_pages = 100000"

definition check_page_size :: "pyval \<Rightarrow> (py_exc, int) res" where
  "check_page_size v =
     (let bad = Inl (ValueExc ''page_size must be between 1 and 1000'') in
      case v of PyInt n \<Rightarrow> if 1 \<le> n \<and> n \<le> max_replay_page_size then Inr n else bad | _ \<Rightarrow> bad)"

record replay_state =
  rp_selected :: "journal_event list"
  rp_event_ids :: "string list"
  rp_operation_ids :: "string list"
  rp_previous :: int

fun replay_events :: "attempt_ref \<Rightarrow> journal_event list \<Rightarrow> replay_state \<Rightarrow> (py_exc, replay_state) res" where
  "replay_events a [] s = Inr s"
| "replay_events a (e # es) s =
     (let g = at_generation (ev_attempt e) in
      if gr_execution_id g \<noteq> gr_execution_id (at_generation a)
      then Inl (durable_scope ''replayed event belongs to a foreign execution'')
      else if gr_generation_id g \<noteq> gr_generation_id (at_generation a)
      then Inl (durable_scope ''replayed event belongs to a foreign generation'')
      else if ev_store_seq e \<le> rp_previous s then Inl (durable_integrity ''journal replay cursor did not advance'')
      else if ev_event_id e \<in> set (rp_event_ids s) then Inl (durable_integrity ''journal replay repeated an event identity'')
      else let s = s\<lparr>rp_previous := ev_store_seq e, rp_event_ids := ev_event_id e # rp_event_ids s\<rparr> in
        if at_attempt_id (ev_attempt e) = at_attempt_id a then
          (if event_op e \<in> set (rp_operation_ids s) then Inl (durable_integrity ''journal replay repeated an operation identity'')
           else replay_events a es (s\<lparr>rp_operation_ids := event_op e # rp_operation_ids s, rp_selected := rp_selected s @ [e]\<rparr>))
        else replay_events a es s)"

definition replay_advances :: "event_cursor option \<Rightarrow> event_cursor option \<Rightarrow> bool" where
  "replay_advances after nxt =
     (case nxt of None \<Rightarrow> False
      | Some c \<Rightarrow> (case after of None \<Rightarrow> True | Some b \<Rightarrow> ec_store_seq c > ec_store_seq b))"

fun replay_loop ::
  "('st, 'a, 'p) event_sink \<Rightarrow> int \<Rightarrow> 'st \<Rightarrow> nat \<Rightarrow> event_cursor option \<Rightarrow> replay_state \<Rightarrow> (py_exc, journal_event list) res" where
  "replay_loop k n st 0 after s = Inl (durable_integrity ''journal replay exceeded the page limit'')"
| "replay_loop k n st (Suc pages) after s =
     bindr (jp_read (sk_journal k) after n st) (\<lambda>page.
       if int (length (pg_events page)) > n then Inl (durable_integrity ''journal replay exceeded the requested page size'') else
     bindr (replay_events (sk_attempt k) (pg_events page) s) (\<lambda>s.
       if \<not> pg_has_more page then Inr (rp_selected s)
       else if \<not> replay_advances after (pg_next_cursor page)
       then Inl (durable_integrity ''journal replay pagination did not advance'')
       else replay_loop k n st pages (pg_next_cursor page) s))"

definition replay_start :: replay_state where
  "replay_start = \<lparr>rp_selected = [], rp_event_ids = [], rp_operation_ids = [], rp_previous = 0\<rparr>"

definition replay :: "('st, 'a, 'p) event_sink \<Rightarrow> pyval \<Rightarrow> 'st \<Rightarrow> (py_exc, journal_event list) res" where
  "replay k page_size st =
     bindr (check_page_size page_size) (\<lambda>n. replay_loop k n st max_replay_pages None replay_start)"

subsection \<open>Recovery of a tool call\<close>

datatype recovery_state = ToolNotStarted | UncertainAfterStart | SealedFinalizable | TerminalReusable | Corrupt

record tool_recovery =
  tr_state :: recovery_state
  tr_call_id :: string
  tr_started :: "journal_event option"
  tr_sealed :: "journal_event option"
  tr_result :: "journal_event option"
  tr_artifact :: "artifact_ref option"
  tr_reason :: string
  tr_intent :: "journal_event option"

definition mk_tool_recovery ::
  "recovery_state \<Rightarrow> pyval \<Rightarrow> journal_event option \<Rightarrow> journal_event option \<Rightarrow> journal_event option \<Rightarrow> artifact_ref option \<Rightarrow>
   string \<Rightarrow> journal_event option \<Rightarrow> (py_exc, tool_recovery) res" where
  "mk_tool_recovery state call started sealed result artifact reason intent =
     bindr (required_text ''call_id'' 256 True call) (\<lambda>c.
       Inr \<lparr>tr_state = state, tr_call_id = c, tr_started = started, tr_sealed = sealed, tr_result = result,
            tr_artifact = artifact, tr_reason = take 512 (py_strip reason), tr_intent = intent\<rparr>)"

definition auto_execute_allowed :: "tool_recovery \<Rightarrow> bool" where
  "auto_execute_allowed r = (tr_state r = ToolNotStarted)"

definition recovered_result_ref :: "tool_recovery \<Rightarrow> resource_ref option" where
  "recovered_result_ref r = map_option ar_ref (tr_artifact r)"

definition reusable_result_ref :: "(rat \<Rightarrow> string) \<Rightarrow> journal_event \<Rightarrow> artifact_ref option" where
  "reusable_result_ref fr e =
     (case resource_ref_from_dict (dget (ev_payload e) ''full_output_ref'') of
        Inl _ \<Rightarrow> None
      | Inr ref \<Rightarrow>
          (case (dget (ev_payload e) ''result_bytes'', dget (ev_payload e) ''result_sha256'') of
             (PyInt n, PyStr digest) \<Rightarrow>
               if rr_kind ref \<noteq> ''artifact'' \<or> ref \<notin> set (ev_resource_refs e) \<or> n < 0 \<or> \<not> is_sha256 digest then None
               else (case mk_artifact_ref (Inl ref) (PyStr ''application/json'') (PyInt n) (PyStr digest)
                       (PyStr (str_or fr (dget (ev_payload e) ''preview'') [])) of
                       Inl _ \<Rightarrow> None | Inr a \<Rightarrow> Some a)
           | _ \<Rightarrow> None))"

definition tool_name :: "journal_event \<Rightarrow> string option" where
  "tool_name e =
     (case dget (ev_payload e) ''tool_name'' of
        PyStr s \<Rightarrow> if s \<noteq> py_strip s \<or> s = [] then None else Some s
      | _ \<Rightarrow> None)"

definition tool_names :: "journal_event list \<Rightarrow> string dict" where
  "tool_names es = fold (\<lambda>e d. case tool_name e of None \<Rightarrow> d | Some s \<Rightarrow> dict_set (ev_event_id e) s d) es []"

definition is_intent :: "journal_event \<Rightarrow> bool" where
  "is_intent e = (ev_event_type e = ''tool_call'')"

definition is_start :: "journal_event \<Rightarrow> bool" where
  "is_start e = (ev_event_type e = ''tool.started'')"

definition is_seal :: "journal_event \<Rightarrow> bool" where
  "is_seal e = (ev_event_type e = ''tool.subagent_completion.sealed'')"

definition is_result :: "journal_event \<Rightarrow> bool" where
  "is_result e = (\<not> is_intent e \<and> \<not> is_start e \<and> \<not> is_seal e)"

definition first_of :: "(journal_event \<Rightarrow> bool) \<Rightarrow> journal_event list \<Rightarrow> journal_event option" where
  "first_of P es = (case filter P es of [] \<Rightarrow> None | e # _ \<Rightarrow> Some e)"

definition single_of :: "(journal_event \<Rightarrow> bool) \<Rightarrow> journal_event list \<Rightarrow> journal_event option" where
  "single_of P es = (case filter P es of [e] \<Rightarrow> Some e | _ \<Rightarrow> None)"

definition follows :: "journal_event option \<Rightarrow> journal_event option \<Rightarrow> bool" where
  "follows later earlier =
     (case (later, earlier) of (Some b, Some a) \<Rightarrow> ev_store_seq b > ev_store_seq a | _ \<Rightarrow> True)"

text \<open>The decision over the receipts of a call, in the order of the source.\<close>

definition decide_recovery :: "(rat \<Rightarrow> string) \<Rightarrow> string \<Rightarrow> journal_event list \<Rightarrow> (py_exc, tool_recovery) res" where
  "decide_recovery fr call es =
     (let c = PyStr call; many = (\<lambda>P. length (filter P es) > 1);
          intent = first_of is_intent es; start = first_of is_start es;
          seal = first_of is_seal es; result = first_of is_result es;
          corrupt = (\<lambda>reason. mk_tool_recovery Corrupt c start seal result None reason intent) in
      if \<exists>e \<in> set es. tool_name e = None
      then mk_tool_recovery Corrupt c None None None None ''tool boundary is missing a stable tool identity'' None
      else if many is_intent \<or> many is_start \<or> many is_seal \<or> many is_result
      then mk_tool_recovery Corrupt c (single_of is_start es) (single_of is_seal es) (single_of is_result es) None
             ''tool boundary cardinality is invalid'' (single_of is_intent es)
      else if intent = None then corrupt ''tool boundary is missing its durable call intent''
      else if \<not> follows start intent then corrupt ''tool start does not follow tool call intent''
      else if start = None \<and> (seal \<noteq> None \<or> result \<noteq> None)
      then corrupt ''tool completion exists without a durable tool start''
      else if start = None then mk_tool_recovery ToolNotStarted c None None None None [] intent
      else if \<not> follows seal start then corrupt ''sealed completion does not follow tool start''
      else if \<not> follows result seal then corrupt ''tool result does not follow sealed completion''
      else if result = None then
        (if seal \<noteq> None then mk_tool_recovery SealedFinalizable c start seal None None [] intent
         else mk_tool_recovery UncertainAfterStart c start seal None None
                ''tool start is durable but no terminal result is durable'' intent)
      else if card (set (map (\<lambda>e. dict_get (tool_names es) (ev_event_id e)) es)) \<noteq> 1
      then corrupt ''tool boundary has a mismatched stable tool identity''
      else if \<not> follows result start then corrupt ''tool result does not follow tool start''
      else (case Option.bind result (reusable_result_ref fr) of
              None \<Rightarrow> corrupt ''tool result lacks a complete durable artifact descriptor''
            | Some a \<Rightarrow> mk_tool_recovery TerminalReusable c start seal result (Some a) [] intent))"

definition recover_tool_side_effect ::
  "(rat \<Rightarrow> string) \<Rightarrow> ('st, 'a, 'p) event_sink \<Rightarrow> pyval \<Rightarrow> pyval \<Rightarrow> 'st \<Rightarrow> (py_exc, tool_recovery) res" where
  "recover_tool_side_effect fr k call page_size st =
     bindr (required_text ''call_id'' 256 True call) (\<lambda>c.
     bindr (check_page_size page_size) (\<lambda>_.
       (case jp_lookup (sk_journal k) of
          None \<Rightarrow> Inl (durable_integrity ''durable tool recovery requires a receipt index'')
        | Some lookup \<Rightarrow>
     bindr (lookup (sk_attempt k) (PyStr c) st) (\<lambda>l.
       if tl_attempt l \<noteq> sk_attempt k \<or> tl_call_id l \<noteq> c
       then Inl (durable_integrity ''tool receipt index crossed its requested subject'')
       else if tl_overflow l
       then mk_tool_recovery Corrupt (PyStr c) None None None None ''tool boundary cardinality exceeds the indexed limit'' None
       else decide_recovery fr c (tl_events l)))))"

subsection \<open>Recovered states over a growing list of receipts\<close>

fun rank :: "recovery_state \<Rightarrow> nat" where
  "rank ToolNotStarted = 0"
| "rank UncertainAfterStart = 1"
| "rank SealedFinalizable = 2"
| "rank TerminalReusable = 3"
| "rank Corrupt = 4"

definition many :: "(journal_event \<Rightarrow> bool) \<Rightarrow> journal_event list \<Rightarrow> bool" where
  "many P es \<longleftrightarrow> length (filter P es) > 1"

definition mixed_names :: "journal_event list \<Rightarrow> bool" where
  "mixed_names es \<longleftrightarrow> card (set (map tool_name es)) \<noteq> 1"

text \<open>The state that \<open>decide_recovery\<close> reports, by the receipts alone.\<close>

definition stage :: "(rat \<Rightarrow> string) \<Rightarrow> journal_event list \<Rightarrow> recovery_state" where
  "stage fr es =
     (let intent = first_of is_intent es; start = first_of is_start es; seal = first_of is_seal es; result = first_of is_result es in
      if (\<exists>e \<in> set es. tool_name e = None) \<or>
         (many is_intent es \<or> many is_start es \<or> many is_seal es \<or> many is_result es) \<or>
         intent = None \<or> \<not> follows start intent \<or> start = None \<and> (seal \<noteq> None \<or> result \<noteq> None) \<or>
         start \<noteq> None \<and> (\<not> follows seal start \<or> \<not> follows result seal) \<or>
         result \<noteq> None \<and> (mixed_names es \<or> \<not> follows result start \<or> Option.bind result (reusable_result_ref fr) = None)
      then Corrupt
      else if start = None then ToolNotStarted
      else if result = None then (if seal \<noteq> None then SealedFinalizable else UncertainAfterStart)
      else TerminalReusable)"

lemma tool_names_get:
  assumes "distinct (map ev_event_id es)" "\<forall>e \<in> set es. tool_name e \<noteq> None" "e \<in> set es"
  shows "dict_get (tool_names es) (ev_event_id e) = tool_name e"
proof -
  have "dict_get (fold (\<lambda>e d. case tool_name e of None \<Rightarrow> d | Some s \<Rightarrow> dict_set (ev_event_id e) s d) es d) i =
      (if i \<in> ev_event_id ` set es then tool_name (the_inv_into (set es) ev_event_id i) else dict_get d i)" for d i
    using assms(1,2)
  proof (induction es arbitrary: d)
    case (Cons x xs)
    have inj: "inj_on ev_event_id (set (x # xs))" using Cons.prems(1) by (auto simp: distinct_map)
    have "the_inv_into (set xs) ev_event_id i = the_inv_into (set (x # xs)) ev_event_id i" if "i \<in> ev_event_id ` set xs"
    proof -
      from that obtain y where y: "y \<in> set xs" "i = ev_event_id y" by blast
      have "inj_on ev_event_id (set xs)" using inj by (rule inj_on_subset) auto
      then show ?thesis using y the_inv_into_f_f [OF inj, of y] by (simp add: the_inv_into_f_f)
    qed
    moreover have "the_inv_into (set (x # xs)) ev_event_id (ev_event_id x) = x" by (rule the_inv_into_f_f [OF inj]) simp
    ultimately show ?case using Cons by (auto split: option.split)
  qed simp
  moreover have "the_inv_into (set es) ev_event_id (ev_event_id e) = e"
    by (rule the_inv_into_f_f) (use assms in \<open>simp_all add: distinct_map\<close>)
  ultimately show ?thesis using assms(3) by (simp add: tool_names_def)
qed

text \<open>The chain of the source, flattened.\<close>

lemma chain_flat:
  "(if b then K else if c then K else if i then K else if \<not> f then K else if n \<and> (s \<or> \<not> d) then K else if n then N
    else if \<not> g then K else if \<not> h then K else if d then (if s then S else U) else if m then K else if \<not> l then K
    else (case x of None \<Rightarrow> K | Some a \<Rightarrow> T)) =
   (if b \<or> c \<or> i \<or> \<not> f \<or> n \<and> (s \<or> \<not> d) \<or> \<not> n \<and> (\<not> g \<or> \<not> h) \<or> \<not> d \<and> (m \<or> \<not> l \<or> x = None) then K
    else if n then N else if d then (if s then S else U) else T)"
  by (cases x; cases n; cases d; simp)

lemma if_state:
  "\<lbrakk>(if b then A else B) = Inr r; A = Inr r \<Longrightarrow> tr_state r = s; B = Inr r \<Longrightarrow> tr_state r = t\<rbrakk> \<Longrightarrow>
   tr_state r = (if b then s else t)"
  by (cases b) simp_all

lemma case_state:
  "\<lbrakk>(case x of None \<Rightarrow> A | Some a \<Rightarrow> F a) = Inr r; A = Inr r \<Longrightarrow> tr_state r = s; \<And>a. F a = Inr r \<Longrightarrow> tr_state r = t\<rbrakk> \<Longrightarrow>
   tr_state r = (case x of None \<Rightarrow> s | Some a \<Rightarrow> t)"
  by (cases x) simp_all

lemma mk_tool_recovery_state: "mk_tool_recovery s v a b d f m i = Inr r \<Longrightarrow> tr_state r = s"
  by (auto simp: mk_tool_recovery_def bindr_eq_Inr)

lemma decide_state:
  assumes "decide_recovery fr c es = Inr r" "distinct (map ev_event_id es)"
  shows "tr_state r = stage fr es"
proof (cases "\<exists>e \<in> set es. tool_name e = None")
  case True
  then show ?thesis using assms(1) by (auto simp: decide_recovery_def mk_tool_recovery_def bindr_eq_Inr stage_def)
next
  case False
  then have "map (\<lambda>e. dict_get (tool_names es) (ev_event_id e)) es = map tool_name es"
    using tool_names_get [OF assms(2)] by (intro map_cong) auto
  then have names: "(card (set (map (\<lambda>e. dict_get (tool_names es) (ev_event_id e)) es)) \<noteq> 1) = mixed_names es"
    by (simp only: mixed_names_def)
  show ?thesis
    unfolding stage_def Let_def chain_flat [symmetric]
    by (rule assms(1) [unfolded decide_recovery_def Let_def names many_def [symmetric], THEN if_state] if_state case_state mk_tool_recovery_state
      | assumption | erule mk_tool_recovery_state if_state case_state)+
qed

lemma first_of_append:
  "first_of P (es @ [e]) = (case first_of P es of Some x \<Rightarrow> Some x | None \<Rightarrow> if P e then Some e else None)"
  by (simp add: first_of_def split: list.split)

lemma first_of_SomeD: "first_of P es = Some x \<Longrightarrow> x \<in> set es \<and> P x"
  by (auto simp: first_of_def split: list.splits dest: filter_eq_ConsD)

lemma many_append: "many P es \<Longrightarrow> many P (es @ fs)"
  by (simp add: many_def)

lemma mixed_names_append: "\<lbrakk>mixed_names es; es \<noteq> []\<rbrakk> \<Longrightarrow> mixed_names (es @ fs)"
proof -
  assume a: "mixed_names es" "es \<noteq> []"
  have "card (set (map tool_name es)) \<noteq> 0" using a(2) by simp
  then have "card (set (map tool_name es)) > 1" using a(1) unfolding mixed_names_def by linarith
  moreover have "card (set (map tool_name es)) \<le> card (set (map tool_name (es @ fs)))" by (rule card_mono) auto
  ultimately show ?thesis unfolding mixed_names_def by linarith
qed

lemma kinds: "is_intent e \<or> is_start e \<or> is_seal e \<or> is_result e"
  by (auto simp: is_result_def)

lemma kinds_disjoint:
  "is_intent e \<Longrightarrow> \<not> is_start e \<and> \<not> is_seal e \<and> \<not> is_result e" "is_start e \<Longrightarrow> \<not> is_seal e \<and> \<not> is_result e"
  "is_seal e \<Longrightarrow> \<not> is_result e"
  by (simp_all add: is_intent_def is_start_def is_seal_def is_result_def)

lemma first_of_new: "\<lbrakk>first_of P (es @ [e]) = Some x; first_of P es \<noteq> Some x\<rbrakk> \<Longrightarrow> x = e \<and> P e \<and> first_of P es = None"
  by (auto simp: first_of_append split: option.splits if_splits)

lemma first_of_keep: "first_of P es = Some x \<Longrightarrow> first_of P (es @ fs) = Some x"
  by (auto simp: first_of_def split: list.splits)

lemma corrupt_branch:
  "(if b then Corrupt else if n then ToolNotStarted else if d then (if s then SealedFinalizable else UncertainAfterStart)
    else TerminalReusable) = Corrupt \<longleftrightarrow> b"
  by simp

lemma stage_Corrupt:
  "stage fr es = Corrupt \<longleftrightarrow>
     (let intent = first_of is_intent es; start = first_of is_start es; seal = first_of is_seal es; result = first_of is_result es in
      (\<exists>e \<in> set es. tool_name e = None) \<or>
      (many is_intent es \<or> many is_start es \<or> many is_seal es \<or> many is_result es) \<or>
      intent = None \<or> \<not> follows start intent \<or> start = None \<and> (seal \<noteq> None \<or> result \<noteq> None) \<or>
      start \<noteq> None \<and> (\<not> follows seal start \<or> \<not> follows result seal) \<or>
      result \<noteq> None \<and> (mixed_names es \<or> \<not> follows result start \<or> Option.bind result (reusable_result_ref fr) = None))"
  unfolding stage_def Let_def by (rule corrupt_branch)

text \<open>A broken boundary stays broken, whatever receipts follow.\<close>

lemma corrupt_stays:
  assumes "stage fr es = Corrupt" "es \<noteq> []" "\<forall>x \<in> set es. ev_store_seq x < ev_store_seq e"
  shows "stage fr (es @ [e]) = Corrupt"
proof -
  have before: "first_of P es = Some x \<Longrightarrow> ev_store_seq x < ev_store_seq e" for P x
    using assms(3) first_of_SomeD by blast
  obtain x where "x \<in> set es" using assms(2) by (cases es) auto
  then have some: "first_of is_intent es \<noteq> None \<or> first_of is_start es \<noteq> None \<or> first_of is_seal es \<noteq> None \<or> first_of is_result es \<noteq> None"
    using kinds [of x] by (auto simp: first_of_def filter_empty_conv split: list.split)
  show ?thesis
    using assms(1) some kinds [of e] kinds_disjoint [of e] many_append [of _ es "[e]"] mixed_names_append [OF _ assms(2), of "[e]"]
    unfolding stage_Corrupt Let_def first_of_append
    by (cases "first_of is_intent es"; cases "first_of is_start es"; cases "first_of is_seal es"; cases "first_of is_result es")
      (auto simp: follows_def dest: before)
qed

lemma clean_branch:
  "(if b then Corrupt else t) \<noteq> Corrupt \<Longrightarrow> (if b then Corrupt else t) = t"
  by (cases b) simp_all

lemma stage_clean:
  "stage fr es \<noteq> Corrupt \<Longrightarrow> stage fr es =
     (if first_of is_start es = None then ToolNotStarted
      else if first_of is_result es = None then (if first_of is_seal es \<noteq> None then SealedFinalizable else UncertainAfterStart)
      else TerminalReusable)"
  unfolding stage_def Let_def by (rule clean_branch)

lemma stage_forward:
  assumes "es \<noteq> []" "\<forall>x \<in> set es. ev_store_seq x < ev_store_seq e"
  shows "rank (stage fr es) \<le> rank (stage fr (es @ [e]))"
proof (cases "stage fr (es @ [e]) = Corrupt")
  case True
  then show ?thesis by (cases "stage fr es") simp_all
next
  case False
  then have "stage fr es \<noteq> Corrupt" using corrupt_stays [OF _ assms] by blast
  with False show ?thesis by (auto simp: stage_clean first_of_append split: option.splits)
qed

lemma stage_monotone:
  assumes "es \<noteq> []" "sorted_wrt (<) (map ev_store_seq (es @ fs))"
  shows "rank (stage fr es) \<le> rank (stage fr (es @ fs))"
  using assms
proof (induction fs rule: rev_induct)
  case (snoc f fs)
  have "rank (stage fr es) \<le> rank (stage fr (es @ fs))"
    using snoc by (auto simp: sorted_wrt_append)
  also have "\<dots> \<le> rank (stage fr ((es @ fs) @ [f]))"
    using snoc.prems by (intro stage_forward) (auto simp: sorted_wrt_append)
  finally show ?case by simp
qed simp

lemma stage_not_started:
  assumes "stage fr es = ToolNotStarted"
  shows "\<forall>e \<in> set es. is_intent e"
proof -
  have clean: "stage fr es \<noteq> Corrupt" using assms by simp
  have "first_of is_start es = None" using assms stage_clean [OF clean] by (simp split: if_splits)
  moreover from this have "first_of is_seal es = None" "first_of is_result es = None"
    using clean by (simp_all add: stage_Corrupt Let_def)
  ultimately show ?thesis using kinds by (auto simp: first_of_def filter_empty_conv split: list.splits)
qed

text \<open>What a reusable result was read from.\<close>

lemma decide_terminal:
  assumes "decide_recovery fr c es = Inr r" "tr_state r = TerminalReusable" "distinct (map ev_event_id es)"
  obtains i s x a where "tr_intent r = Some i" "tr_started r = Some s" "tr_result r = Some x" "tr_artifact r = Some a"
    "{i, s, x} \<subseteq> set es" "is_intent i" "is_start s" "filter is_result es = [x]" "reusable_result_ref fr x = Some a"
    "ev_store_seq i < ev_store_seq s" "ev_store_seq s < ev_store_seq x" "\<forall>e \<in> set es. tool_name e = tool_name x \<and> tool_name e \<noteq> None"
proof -
  have clean: "stage fr es = TerminalReusable" using decide_state [OF assms(1,3)] assms(2) by simp
  then have nc: "stage fr es \<noteq> Corrupt" by simp
  obtain s x where s: "first_of is_start es = Some s" and x: "first_of is_result es = Some x"
    using clean stage_clean [OF nc] by (auto split: if_splits)
  obtain i where i: "first_of is_intent es = Some i" using nc by (auto simp: stage_Corrupt Let_def)
  obtain a where a: "reusable_result_ref fr x = Some a" using nc x by (auto simp: stage_Corrupt Let_def)
  have conds: "\<forall>e \<in> set es. tool_name e \<noteq> None" "\<not> many is_intent es" "\<not> many is_start es" "\<not> many is_seal es" "\<not> many is_result es"
      "ev_store_seq i < ev_store_seq s" "ev_store_seq s < ev_store_seq x" "\<not> mixed_names es"
    "follows (first_of is_seal es) (Some s)" "follows (Some x) (first_of is_seal es)"
    using nc s x i unfolding stage_Corrupt Let_def by (auto simp: follows_def)
  note mem = first_of_SomeD [OF i] first_of_SomeD [OF s] first_of_SomeD [OF x]
  have same: "tool_name e = tool_name x" if "e \<in> set es" for e
  proof -
    have "card (set (map tool_name es)) = 1" using conds(8) by (simp add: mixed_names_def)
    then obtain n where "set (map tool_name es) = {n}" by (auto simp: card_1_singleton_iff)
    then show ?thesis using that mem(3) by (metis imageI image_set singletonD)
  qed
  have names: "card (set (map (\<lambda>e. dict_get (tool_names es) (ev_event_id e)) es)) = 1"
  proof -
    have "map (\<lambda>e. dict_get (tool_names es) (ev_event_id e)) es = map tool_name es"
      using tool_names_get [OF assms(3)] conds(1) by (intro map_cong) auto
    then show ?thesis using conds(8) by (simp only: mixed_names_def not_not)
  qed
  have r: "mk_tool_recovery TerminalReusable (PyStr c) (Some s) (first_of is_seal es) (Some x) (Some a) [] (Some i) = Inr r"
    using assms(1) conds names a
    by (simp add: decide_recovery_def Let_def many_def i s x follows_def split: option.splits if_splits)
  have "filter is_result es = [x]"
    using x conds(5) by (auto simp: first_of_def many_def split: list.splits)
  moreover have "tr_intent r = Some i" "tr_started r = Some s" "tr_result r = Some x" "tr_artifact r = Some a"
    using r by (auto simp: mk_tool_recovery_def bindr_eq_Inr)
  ultimately show thesis using that mem conds(1,6,7) same a by blast
qed

lemma reusable_result_fields:
  assumes "reusable_result_ref fr e = Some a"
  shows "ar_ref a \<in> set (ev_resource_refs e) \<and> dget (ev_payload e) ''result_bytes'' = PyInt (ar_byte_length a) \<and>
    dget (ev_payload e) ''result_sha256'' = PyStr (ar_sha256 a) \<and>
    resource_ref_from_dict (dget (ev_payload e) ''full_output_ref'') = Inr (ar_ref a)"
  using assms
  by (auto simp: reusable_result_ref_def mk_artifact_ref_def bindr_eq_Inr bounded_int_def sha256_field_def
      split: sum.splits pyval.splits if_splits)

subsection \<open>What the sink relies on\<close>

text \<open>The receipts of a call that a log holds for an attempt.\<close>

definition receipts_for :: "attempt_ref \<Rightarrow> string \<Rightarrow> journal_event list \<Rightarrow> journal_event list" where
  "receipts_for a c es = filter (has_receipt a (''tool_execution'', Some c, None)) es"

definition own_event :: "attempt_ref \<Rightarrow> journal_event \<Rightarrow> bool" where
  "own_event a e \<longleftrightarrow> at_attempt_id (ev_attempt e) = at_attempt_id a"

definition foreign_event :: "attempt_ref \<Rightarrow> journal_event \<Rightarrow> bool" where
  "foreign_event a e \<longleftrightarrow> gr_generation_id (at_generation (ev_attempt e)) \<noteq> gr_generation_id (at_generation a)"

text \<open>The state of the replay after the first \<open>i\<close> events of the log.\<close>

definition replayed :: "attempt_ref \<Rightarrow> journal_event list \<Rightarrow> nat \<Rightarrow> replay_state" where
  "replayed a es i = \<lparr>rp_selected = filter (own_event a) (take i es), rp_event_ids = rev (map ev_event_id (take i es)),
     rp_operation_ids = rev (map event_op (filter (own_event a) (take i es))), rp_previous = int i\<rparr>"

locale event_journal =
  fixes port :: "('st, 'a, 'p) journal_port"
    and holds :: "'st \<Rightarrow> journal_event list \<Rightarrow> bool"
  assumes log: "holds st es \<Longrightarrow> log_ok (jp_execution_id port) es"
    and read: "\<lbrakk>holds st es; i \<le> length es; 1 \<le> n; n \<le> max_replay_page_size\<rbrakk> \<Longrightarrow>
      jp_read port (cursor_at es i) n st =
        Inr \<lparr>pg_events = take (nat n) (drop i es), pg_next_cursor = cursor_at es (min (i + nat n) (length es)),
             pg_has_more = (i + nat n < length es)\<rparr>"
    and append_new: "\<lbrakk>holds st es; append_request_ok q; gr_execution_id (at_generation (rq_attempt q)) = jp_execution_id port;
      jp_append port q st = (Inr x, st'); \<not> res_duplicate x\<rbrakk> \<Longrightarrow>
      res_event x = event_of q (int (length es) + 1) \<and> holds st' (es @ [res_event x])"
    and append_known: "\<lbrakk>holds st es; append_request_ok q; gr_execution_id (at_generation (rq_attempt q)) = jp_execution_id port;
      jp_append port q st = (Inr x, st'); res_duplicate x\<rbrakk> \<Longrightarrow>
      res_event x \<in> set es \<and> request_matches_event q (res_event x) \<and> holds st' es"
    and append_again: "\<lbrakk>holds st es; append_request_ok q; gr_execution_id (at_generation (rq_attempt q)) = jp_execution_id port;
      e \<in> set es; request_matches_event q e\<rbrakk> \<Longrightarrow>
      \<exists>x st'. jp_append port q st = (Inr x, st') \<and> res_event x = e \<and> res_duplicate x \<and> holds st' es"
    and append_error: "\<lbrakk>holds st es; append_request_ok q; gr_execution_id (at_generation (rq_attempt q)) = jp_execution_id port;
      jp_append port q st = (Inl err, st')\<rbrakk> \<Longrightarrow> holds st' es"
    and lookup: "\<lbrakk>holds st es; gr_execution_id (at_generation a) = jp_execution_id port; jp_lookup port = Some f;
      required_text ''call_id'' 256 True (PyStr c) = Inr c; f a (PyStr c) st = Inr l\<rbrakk> \<Longrightarrow>
      tl_events l = take max_tool_execution_receipts (receipts_for a c es) \<and>
      tl_overflow l = (length (receipts_for a c es) > max_tool_execution_receipts)"
begin

lemma replay_one:
  assumes "holds st es" "gr_execution_id (at_generation a) = jp_execution_id port" "i < length es"
  shows "replay_events a (es ! i # xs) (replayed a es i) =
    (if foreign_event a (es ! i) then Inl (durable_scope ''replayed event belongs to a foreign generation'')
     else replay_events a xs (replayed a es (Suc i)))"
proof -
  note l = log [OF assms(1)]
  have e: "es ! i \<in> set es" "ev_store_seq (es ! i) = 1 + int i" using assms(3) log_seq [OF l] by simp_all
  have run: "gr_execution_id (at_generation (ev_attempt (es ! i))) = gr_execution_id (at_generation a)"
    using l e(1) assms(2) by (simp add: log_ok_def)
  have fresh: "f (es ! i) \<notin> f ` set (take i es)" if "distinct (map f es)" for f :: "journal_event \<Rightarrow> string"
    using that assms(3) by (auto simp: distinct_conv_nth in_set_conv_nth)
  have "ev_event_id (es ! i) \<notin> ev_event_id ` set (take i es)" "event_op (es ! i) \<notin> event_op ` set (take i es)"
    using l fresh by (auto simp: log_ok_def)
  then show ?thesis
    using run e(2) assms(3)
    by (auto simp: replayed_def foreign_event_def own_event_def take_Suc_conv_app_nth Let_def)
qed

lemma replay_slice:
  assumes "holds st es" "gr_execution_id (at_generation a) = jp_execution_id port"
  shows "i + m \<le> length es \<Longrightarrow> replay_events a (take m (drop i es)) (replayed a es i) =
    (if list_ex (foreign_event a) (take m (drop i es)) then Inl (durable_scope ''replayed event belongs to a foreign generation'')
     else Inr (replayed a es (i + m)))"
proof (induction m arbitrary: i)
  case (Suc m)
  then have i: "i < length es" by simp
  then have "take (Suc m) (drop i es) = es ! i # take m (drop (Suc i) es)" by (simp add: Cons_nth_drop_Suc [symmetric])
  then show ?case using Suc.IH [of "Suc i"] Suc.prems replay_one [OF assms i] by simp
qed simp

lemma replay_loop_log:
  assumes "holds st es" "sk_journal k = port" "gr_execution_id (at_generation (sk_attempt k)) = jp_execution_id port"
    "1 \<le> n" "n \<le> max_replay_page_size"
  shows "\<lbrakk>i \<le> length es; length es - i \<le> pages * nat n; 0 < pages\<rbrakk> \<Longrightarrow>
    replay_loop k n st pages (cursor_at es i) (replayed (sk_attempt k) es i) =
    (if list_ex (foreign_event (sk_attempt k)) (drop i es) then Inl (durable_scope ''replayed event belongs to a foreign generation'')
     else Inr (filter (own_event (sk_attempt k)) es))"
proof (induction pages arbitrary: i)
  case (Suc pages)
  let ?a = "sk_attempt k" and ?m = "min (nat n) (length es - i)"
  have slice: "take (nat n) (drop i es) = take ?m (drop i es)" by (simp add: min_def)
  have m: "i + ?m \<le> length es" "min (i + nat n) (length es) = i + ?m" using Suc.prems by auto
  note page = read [OF assms(1) Suc.prems(1) assms(4,5)]
  note events = replay_slice [OF assms(1,3) m(1), folded slice]
  have size: "\<not> int (length (take (nat n) (drop i es))) > n" using assms(4) by auto
  show ?case
  proof (cases "list_ex (foreign_event ?a) (take (nat n) (drop i es))")
    case True
    then have "list_ex (foreign_event ?a) (drop i es)" by (auto simp: list_ex_iff dest: in_set_takeD)
    with True show ?thesis using size by (simp add: assms(2) page events)
  next
    case clean: False
    show ?thesis
    proof (cases "i + nat n < length es")
      case True
      then have "i + ?m = i + nat n" by simp
      then have nxt: "cursor_at es (min (i + nat n) (length es)) = cursor_at es (i + nat n)" "replayed ?a es (i + ?m) = replayed ?a es (i + nat n)"
        using m(2) by simp_all
      have advance: "replay_advances (cursor_at es i) (cursor_at es (i + nat n))"
        using True assms(4) log_seq [OF log [OF assms(1)]]
        by (auto simp: replay_advances_def cursor_at_def event_cursor_of_def)
      have more: "0 < pages" "length es - (i + nat n) \<le> pages * nat n" using Suc.prems(2) True by (cases pages; simp)+
      have "list_ex (foreign_event ?a) (drop i es) = list_ex (foreign_event ?a) (drop (i + nat n) es)"
        using clean append_take_drop_id [of "nat n" "drop i es"] by (metis drop_drop list_ex_append add.commute)
      then show ?thesis
        using clean size True advance Suc.IH [OF _ more(2,1)] by (simp add: assms(2) page events nxt del: replay_loop.simps(1))
    next
      case False
      then have all: "take (nat n) (drop i es) = drop i es" "i + ?m = length es" using Suc.prems(1) by simp_all
      with clean events have "replay_events ?a (drop i es) (replayed ?a es i) = Inr (replayed ?a es (length es))" by simp
      moreover have "rp_selected (replayed ?a es (length es)) = filter (own_event ?a) es" by (simp add: replayed_def)
      ultimately show ?thesis using clean size False all(1) by (simp add: assms(2) page)
    qed
  qed
qed simp

text \<open>Replay in pages is one pass over the log, for every page size.\<close>

lemma replay_log:
  assumes "holds st es" "sk_journal k = port" "gr_execution_id (at_generation (sk_attempt k)) = jp_execution_id port"
    "1 \<le> n" "n \<le> max_replay_page_size" "length es \<le> max_replay_pages * nat n"
  shows "replay k (PyInt n) st =
    (if list_ex (foreign_event (sk_attempt k)) es then Inl (durable_scope ''replayed event belongs to a foreign generation'')
     else Inr (filter (own_event (sk_attempt k)) es))"
  using replay_loop_log [OF assms(1-5), of 0 max_replay_pages] assms(4-6)
  by (simp add: replay_def check_page_size_def cursor_at_def replayed_def replay_start_def max_replay_pages_def)

end

subsection \<open>Delivery and recovery over a journal\<close>

text \<open>A draft is an instance, which its constructor has validated.\<close>

definition draft_ok :: "event_draft \<Rightarrow> bool" where
  "draft_ok d \<longleftrightarrow> attempt_ref_ok (sd_attempt d) \<and> (\<forall>r \<in> set (sd_resource_refs d). resource_ref_ok r)"

definition projector_ok :: "('st, 'a, 'p) event_sink \<Rightarrow> bool" where
  "projector_ok k \<longleftrightarrow> (\<forall>ev d. sk_projector k ev = Inr (Some d) \<longrightarrow> draft_ok d)"

lemma mk_operation_ref_ok: "mk_operation_ref a b = Inr r \<Longrightarrow> operation_ref_ok r"
  by (auto simp: mk_operation_ref_def operation_ref_ok_def bindr_eq_Inr normal_forms)

lemma to_append_request_ok:
  assumes "to_append_request sha d = Inr q" "draft_ok d"
  shows "append_request_ok q" "rq_attempt q = sd_attempt d"
proof -
  obtain opr where opr: "draft_operation sha d = Inr opr"
    and q: "mk_append_request (PyStr (sd_event_id d)) (PyStr (sd_event_type d)) (Inl (sd_attempt d)) (Inl opr) (PyDict (sd_payload d))
         (Inl (sd_resource_refs d)) = Inr q"
    using assms(1) by (auto simp: to_append_request_def bindr_eq_Inr)
  have "operation_ref_ok opr"
    using opr by (auto simp: draft_operation_def build_operation_ref_def bindr_eq_Inr split: if_splits intro: mk_operation_ref_ok)
  with q assms(2) show "append_request_ok q" by (auto simp: draft_ok_def intro: mk_append_request_ok)
  show "rq_attempt q = sd_attempt d"
    using q by (auto simp: mk_append_request_def bindr_eq_Inr case_PyDict_Inr)
qed

context event_journal
begin

lemma draft_scope: "\<lbrakk>draft_error k d = None; gr_execution_id (at_generation (sk_attempt k)) = jp_execution_id port\<rbrakk> \<Longrightarrow>
  gr_execution_id (at_generation (sd_attempt d)) = jp_execution_id port"
  by (simp add: draft_error_def split: if_splits)

lemma append_projected_cases:
  assumes "append_projected sha k d st = (Inr x, st')" "sk_journal k = port"
  obtains q where "draft_error k d = None" "to_append_request sha d = Inr q" "jp_append port q st = (Inr x, st')"
    "same_persisted_event q (res_event x)"
  using assms
  by (auto simp: append_projected_def check_persisted_def bindr_eq_Inr split: option.splits sum.splits prod.splits if_splits)

text \<open>A delivered event is in the log, at its end unless it was there before.\<close>

lemma delivered:
  assumes "holds st es" "sk_journal k = port" "gr_execution_id (at_generation (sk_attempt k)) = jp_execution_id port" "draft_ok d"
    and run: "append_projected sha k d st = (Inr x, st')"
  shows "if res_duplicate x then res_event x \<in> set es \<and> holds st' es else holds st' (es @ [res_event x])"
proof -
  obtain q where q: "draft_error k d = None" "to_append_request sha d = Inr q" "jp_append port q st = (Inr x, st')"
    using append_projected_cases [OF run assms(2)] by blast
  note ok = to_append_request_ok [OF q(2) assms(4)]
  have scope: "gr_execution_id (at_generation (rq_attempt q)) = jp_execution_id port" using draft_scope [OF q(1) assms(3)] ok(2) by simp
  show ?thesis using append_new [OF assms(1) ok(1) scope q(3)] append_known [OF assms(1) ok(1) scope q(3)]
    unfolding if_bool_eq_conj by blast
qed

lemma redelivered:
  assumes "holds st es" "sk_journal k = port" "gr_execution_id (at_generation (sk_attempt k)) = jp_execution_id port" "draft_ok d"
    and run: "append_projected sha k d st = (Inr x, st')"
    and later: "holds st2 es2" "res_event x \<in> set es2"
  shows "\<exists>y st2'. append_projected sha k d st2 = (Inr y, st2') \<and> res_event y = res_event x \<and> res_duplicate y \<and> holds st2' es2"
proof -
  obtain q where q: "draft_error k d = None" "to_append_request sha d = Inr q" "jp_append port q st = (Inr x, st')"
    "same_persisted_event q (res_event x)"
    using append_projected_cases [OF run assms(2)] by blast
  note ok = to_append_request_ok [OF q(2) assms(4)]
  have scope: "gr_execution_id (at_generation (rq_attempt q)) = jp_execution_id port" using draft_scope [OF q(1) assms(3)] ok(2) by simp
  have "request_matches_event q (res_event x)"
  proof (cases "res_duplicate x")
    case True
    then show ?thesis using append_known [OF assms(1) ok(1) scope q(3)] by blast
  next
    case False
    then have "res_event x = event_of q (int (length es) + 1)" using append_new [OF assms(1) ok(1) scope q(3)] by blast
    with q(4) show ?thesis by (simp add: request_matches_event_def same_persisted_event_def)
  qed
  from append_again [OF later(1) ok(1) scope later(2) this] obtain y st2' where
    "jp_append port q st2 = (Inr y, st2')" "res_event y = res_event x" "res_duplicate y" "holds st2' es2" by blast
  then show ?thesis using q by (auto simp: append_projected_def assms(2) check_persisted_def)
qed

text \<open>The whole sink: an event that is delivered again finds its first delivery.\<close>

lemma sink_event_cases:
  assumes "sink_event sha k ev st = (Inr (Some x), st')"
  obtains e d where "ev = PyDict e" "\<not> runtime_event_is_ephemeral e" "sk_projector k e = Inr (Some d)"
    "\<not> runtime_event_is_ephemeral [(''type'', PyStr (sd_event_type d))]" "append_projected sha k d st = (Inr x, st')"
  using assms by (auto simp: sink_event_def bindr_eq_Inr split: pyval.splits sum.splits option.splits prod.splits if_splits)

lemma sink_redelivered:
  assumes "holds st es" "sk_journal k = port" "gr_execution_id (at_generation (sk_attempt k)) = jp_execution_id port" "projector_ok k"
    and "sink_event sha k ev st = (Inr (Some x), st')" "holds st2 es2" "res_event x \<in> set es2"
  shows "\<exists>y st2'. sink_event sha k ev st2 = (Inr (Some y), st2') \<and> res_event y = res_event x \<and> res_duplicate y \<and> holds st2' es2"
proof -
  obtain e d where e: "ev = PyDict e" "\<not> runtime_event_is_ephemeral e" "sk_projector k e = Inr (Some d)"
    "\<not> runtime_event_is_ephemeral [(''type'', PyStr (sd_event_type d))]" "append_projected sha k d st = (Inr x, st')"
    using sink_event_cases [OF assms(5)] by blast
  have "draft_ok d" using assms(4) e(3) by (simp add: projector_ok_def)
  from redelivered [OF assms(1-3) this e(5) assms(6,7)] show ?thesis
    using e by (auto simp: sink_event_def)
qed

lemma sink_delivered:
  assumes "holds st es" "sk_journal k = port" "gr_execution_id (at_generation (sk_attempt k)) = jp_execution_id port" "projector_ok k"
    and "sink_event sha k ev st = (Inr (Some x), st')"
  shows "if res_duplicate x then res_event x \<in> set es \<and> holds st' es else holds st' (es @ [res_event x])"
proof -
  obtain e d where e: "sk_projector k e = Inr (Some d)" "append_projected sha k d st = (Inr x, st')"
    using sink_event_cases [OF assms(5)] by blast
  have "draft_ok d" using assms(4) e(1) by (simp add: projector_ok_def)
  from delivered [OF assms(1-3) this e(2)] show ?thesis .
qed

subsubsection \<open>Recovery\<close>

lemma receipts_distinct: "holds st es \<Longrightarrow> distinct (map ev_event_id (receipts_for a c es))"
  using log [of st es] by (simp add: receipts_for_def log_ok_def distinct_map_filter)

lemma recover_decides:
  assumes "holds st es" "sk_journal k = port" "gr_execution_id (at_generation (sk_attempt k)) = jp_execution_id port"
    and "recover_tool_side_effect fr k call n st = Inr r" "required_text ''call_id'' 256 True call = Inr c"
  shows "if length (receipts_for (sk_attempt k) c es) > max_tool_execution_receipts then tr_state r = Corrupt
    else decide_recovery fr c (receipts_for (sk_attempt k) c es) = Inr r"
proof -
  obtain f l where f: "jp_lookup port = Some f" and l: "f (sk_attempt k) (PyStr c) st = Inr l"
    and r: "(if tl_overflow l then mk_tool_recovery Corrupt (PyStr c) None None None None ''tool boundary cardinality exceeds the indexed limit'' None
       else decide_recovery fr c (tl_events l)) = Inr r"
    using assms(2,4,5) by (auto simp: recover_tool_side_effect_def bindr_eq_Inr split: option.splits if_splits)
  from lookup [OF assms(1,3) f required_text_normal [OF assms(5)] l] r show ?thesis
    by (auto dest: mk_tool_recovery_state)
qed

lemma recover_state:
  assumes "holds st es" "sk_journal k = port" "gr_execution_id (at_generation (sk_attempt k)) = jp_execution_id port"
    and "recover_tool_side_effect fr k call n st = Inr r" "required_text ''call_id'' 256 True call = Inr c"
  shows "tr_state r = (let hits = receipts_for (sk_attempt k) c es in
    if length hits > max_tool_execution_receipts then Corrupt else stage fr hits)"
  using recover_decides [OF assms] decide_state [OF _ receipts_distinct [OF assms(1)]] by (simp add: Let_def split: if_splits)

lemma recover_forward:
  assumes "holds st es" "holds st2 (es @ fs)" "sk_journal k = port" "gr_execution_id (at_generation (sk_attempt k)) = jp_execution_id port"
    and "recover_tool_side_effect fr k call n st = Inr r" "recover_tool_side_effect fr k call n2 st2 = Inr r2"
    and "required_text ''call_id'' 256 True call = Inr c" "receipts_for (sk_attempt k) c es \<noteq> []"
  shows "rank (tr_state r) \<le> rank (tr_state r2)"
proof -
  let ?h = "receipts_for (sk_attempt k) c es" and ?g = "receipts_for (sk_attempt k) c fs"
  have all: "receipts_for (sk_attempt k) c (es @ fs) = ?h @ ?g" by (simp add: receipts_for_def)
  have "sorted_wrt (<) (map ev_store_seq (?h @ ?g))"
    using log_strict [OF log [OF assms(2)]] unfolding all [symmetric]
    unfolding receipts_for_def sorted_wrt_map by (rule sorted_wrt_filter)
  from stage_monotone [OF assms(8) this] have "rank (stage fr ?h) \<le> rank (stage fr (?h @ ?g))" .
  moreover have "rank s \<le> 4" for s by (cases s) simp_all
  ultimately show ?thesis
    using recover_state [OF assms(1,3,4,5,7)] recover_state [OF assms(2,3,4,6,7)] unfolding all by (simp add: Let_def)
qed

lemma recover_started:
  assumes "holds st es" "sk_journal k = port" "gr_execution_id (at_generation (sk_attempt k)) = jp_execution_id port"
    and "recover_tool_side_effect fr k call n st = Inr r" "required_text ''call_id'' 256 True call = Inr c"
    and "e \<in> set (receipts_for (sk_attempt k) c es)" "\<not> is_intent e"
  shows "\<not> auto_execute_allowed r"
  using recover_state [OF assms(1-5)] stage_not_started assms(6,7) by (auto simp: auto_execute_allowed_def Let_def split: if_splits)

lemma recover_terminal:
  assumes "holds st es" "sk_journal k = port" "gr_execution_id (at_generation (sk_attempt k)) = jp_execution_id port"
    and "recover_tool_side_effect fr k call n st = Inr r" "required_text ''call_id'' 256 True call = Inr c" "tr_state r = TerminalReusable"
  shows "\<exists>i s x a. tr_intent r = Some i \<and> tr_started r = Some s \<and> tr_result r = Some x \<and> tr_artifact r = Some a \<and>
    {i, s, x} \<subseteq> set es \<and> is_intent i \<and> is_start s \<and> filter is_result (receipts_for (sk_attempt k) c es) = [x] \<and>
    ev_store_seq i < ev_store_seq s \<and> ev_store_seq s < ev_store_seq x \<and> tool_name i = tool_name x \<and> tool_name s = tool_name x \<and>
    reusable_result_ref fr x = Some a"
proof -
  let ?hits = "receipts_for (sk_attempt k) c es"
  have d: "decide_recovery fr c ?hits = Inr r" using recover_decides [OF assms(1-5)] assms(6) by (simp split: if_splits)
  have sub: "set ?hits \<subseteq> set es" by (auto simp: receipts_for_def)
  from decide_terminal [OF d assms(6) receipts_distinct [OF assms(1)]] obtain i s x a where
    f: "tr_intent r = Some i" "tr_started r = Some s" "tr_result r = Some x" "tr_artifact r = Some a" "{i, s, x} \<subseteq> set ?hits"
      "is_intent i" "is_start s" "filter is_result ?hits = [x]" "reusable_result_ref fr x = Some a"
      "ev_store_seq i < ev_store_seq s" "ev_store_seq s < ev_store_seq x"
    and names: "\<forall>e \<in> set ?hits. tool_name e = tool_name x \<and> tool_name e \<noteq> None" .
  have "tool_name i = tool_name x" "tool_name s = tool_name x" using names f(5) by blast+
  then show ?thesis using f subset_trans [OF f(5) sub] by (intro exI conjI) assumption+
qed

end

subsection \<open>The SQLite journal\<close>

definition sql_journal ::
  "(blob \<Rightarrow> string) \<Rightarrow> string \<Rightarrow> (append_request \<Rightarrow> 'a list \<Rightarrow> 'p option \<Rightarrow> store_db \<Rightarrow> (py_exc, append_result) res \<times> store_db) \<Rightarrow>
   (store_db, 'a, 'p) journal_port" where
  "sql_journal sha ex with_artifacts =
     \<lparr>jp_execution_id = ex, jp_append = append_event sha ex, jp_read = read_events sha ex,
      jp_append_with_artifacts = with_artifacts, jp_lookup = Some (lookup_tool_execution_receipts sha ex)\<rparr>"

definition sql_holds :: "(blob \<Rightarrow> string) \<Rightarrow> string \<Rightarrow> store_db \<Rightarrow> journal_event list \<Rightarrow> bool" where
  "sql_holds sha ex db es \<longleftrightarrow> holds_log sha ex db es \<and> sql_range (int (length es) + 1)"

lemma outcome_Inr: "outcome_of r = Replayed e \<Longrightarrow> \<exists>x. r = Inr x \<and> res_duplicate x \<and> res_event x = e"
  "outcome_of r = Appended e \<Longrightarrow> \<exists>x. r = Inr x \<and> \<not> res_duplicate x \<and> res_event x = e"
  by (cases r rule: outcome_of.cases; auto split: if_splits)+

lemma log_append_result:
  assumes "log_append q used es = (out, es')"
  shows "case out of
      Appended e \<Rightarrow> e = event_of q (int (length es) + 1) \<and> es' = es @ [e] \<and> sql_range (int (length es) + 2)
    | Replayed e \<Rightarrow> e \<in> set es \<and> request_matches_event q e \<and> es' = es
    | _ \<Rightarrow> es' = es"
  using assms by (auto simp: log_append_def Let_def find_Some_iff split: option.splits if_splits sum.splits)

lemma append_event_result:
  assumes "sql_holds sha ex db es" "append_request_ok q" "gr_execution_id (at_generation (rq_attempt q)) = ex"
    and "append_event sha ex q db = (r, db')"
  shows "case r of
      Inr x \<Rightarrow> if res_duplicate x then res_event x \<in> set es \<and> request_matches_event q (res_event x) \<and> sql_holds sha ex db' es
                else res_event x = event_of q (int (length es) + 1) \<and> sql_holds sha ex db' (es @ [res_event x])
    | Inl _ \<Rightarrow> sql_holds sha ex db' es"
proof -
  obtain out es' where out: "log_append q (other_operations ex db) es = (out, es')" by (cases "log_append q (other_operations ex db) es")
  have h: "holds_log sha ex db es" "sql_range (int (length es) + 1)" using assms(1) by (simp_all add: sql_holds_def)
  note spec = append_event_spec [OF h(1) assms(2-4) out]
  have two: "sql_range (2 + int (length es)) = sql_range (int (length es) + 2)" by (simp add: add.commute)
  show ?thesis
  proof (cases r)
    case (Inl e)
    then have "\<nexists>e. out = Appended e \<or> out = Replayed e" using spec by (auto dest: outcome_Inr)
    then have "es' = es" using log_append_result [OF out] by (cases out) auto
    then show ?thesis using Inl spec h(2) by (simp add: sql_holds_def)
  next
    case (Inr x)
    then have "out = (if res_duplicate x then Replayed (res_event x) else Appended (res_event x))" using spec by simp
    then show ?thesis using Inr spec h(2) log_append_result [OF out] by (auto simp: sql_holds_def two split: if_splits)
  qed
qed

interpretation journal: event_journal "sql_journal sha ex with_artifacts" "sql_holds sha ex" for sha ex with_artifacts
proof
  fix st es
  assume "sql_holds sha ex st es"
  then show "log_ok (jp_execution_id (sql_journal sha ex with_artifacts)) es" by (simp add: sql_holds_def holds_log_def sql_journal_def)
next
  fix st es i n
  assume a: "sql_holds sha ex st es" "i \<le> length es" "1 \<le> n" "n \<le> max_replay_page_size"
  have "sql_range (n + 1)" "sql_range (int (length es))"
    using a by (simp_all add: sql_holds_def sql_range_def max_sql_int_def max_replay_page_size_def)
  then show "jp_read (sql_journal sha ex with_artifacts) (cursor_at es i) n st =
      Inr \<lparr>pg_events = take (nat n) (drop i es), pg_next_cursor = cursor_at es (min (i + nat n) (length es)),
           pg_has_more = (i + nat n < length es)\<rparr>"
    using a read_events_spec [of sha ex st es i n] by (simp add: sql_journal_def sql_holds_def)
next
  fix st es q x st'
  assume "sql_holds sha ex st es" "append_request_ok q"
    "gr_execution_id (at_generation (rq_attempt q)) = jp_execution_id (sql_journal sha ex with_artifacts)"
    "jp_append (sql_journal sha ex with_artifacts) q st = (Inr x, st')" "\<not> res_duplicate x"
  then show "res_event x = event_of q (int (length es) + 1) \<and> sql_holds sha ex st' (es @ [res_event x])"
    using append_event_result [of sha ex st es q "Inr x" st'] by (auto simp: sql_journal_def)
next
  fix st es q x st'
  assume "sql_holds sha ex st es" "append_request_ok q"
    "gr_execution_id (at_generation (rq_attempt q)) = jp_execution_id (sql_journal sha ex with_artifacts)"
    "jp_append (sql_journal sha ex with_artifacts) q st = (Inr x, st')" "res_duplicate x"
  then show "res_event x \<in> set es \<and> request_matches_event q (res_event x) \<and> sql_holds sha ex st' es"
    using append_event_result [of sha ex st es q "Inr x" st'] by (auto simp: sql_journal_def)
next
  fix st es q e
  assume a: "sql_holds sha ex st es" "append_request_ok q"
    "gr_execution_id (at_generation (rq_attempt q)) = jp_execution_id (sql_journal sha ex with_artifacts)"
    "e \<in> set es" "request_matches_event q e"
  have h: "holds_log sha ex st es" and d: "distinct (map event_op es)" using a(1) by (simp_all add: sql_holds_def holds_log_def log_ok_def)
  obtain r st' where run: "append_event sha ex q st = (r, st')" by (cases "append_event sha ex q st")
  have "event_op e = op_operation_id (rq_operation q)" using a(5) by (simp add: request_matches_event_def)
  then have out: "log_append q (other_operations ex st) es = (Replayed e, es)"
    using find_distinct [OF d a(4)] a(5) by (simp add: log_append_def)
  have s: "gr_execution_id (at_generation (rq_attempt q)) = ex" using a(3) by (simp add: sql_journal_def)
  note spec = append_event_spec [OF h a(2) s run out]
  then show "\<exists>x st'. jp_append (sql_journal sha ex with_artifacts) q st = (Inr x, st') \<and> res_event x = e \<and> res_duplicate x \<and>
      sql_holds sha ex st' es"
    using run a(1) outcome_Inr(1) [of r e] by (auto simp: sql_journal_def sql_holds_def)
next
  fix st es q err st'
  assume "sql_holds sha ex st es" "append_request_ok q"
    "gr_execution_id (at_generation (rq_attempt q)) = jp_execution_id (sql_journal sha ex with_artifacts)"
    "jp_append (sql_journal sha ex with_artifacts) q st = (Inl err, st')"
  then show "sql_holds sha ex st' es"
    using append_event_result [of sha ex st es q "Inl err" st'] by (simp add: sql_journal_def)
next
  fix st es a f c l
  assume a: "sql_holds sha ex st es" "gr_execution_id (at_generation a) = jp_execution_id (sql_journal sha ex with_artifacts)"
    "jp_lookup (sql_journal sha ex with_artifacts) = Some f" "required_text ''call_id'' 256 True (PyStr c) = Inr c" "f a (PyStr c) st = Inr l"
  have h: "holds_log sha ex st es" "gr_execution_id (at_generation a) = ex" using a(1,2) by (simp_all add: sql_holds_def sql_journal_def)
  have "sql_range (case None of None \<Rightarrow> 0 | Some n \<Rightarrow> n)" by (simp add: sql_range_def max_sql_int_def)
  from lookup_receipt_events_spec [OF h this, of "''tool_execution''" "Some c" max_tool_execution_receipts]
  show "tl_events l = take max_tool_execution_receipts (receipts_for a c es) \<and>
      tl_overflow l = (length (receipts_for a c es) > max_tool_execution_receipts)"
    using a(3-5)
    by (auto simp: sql_journal_def lookup_tool_execution_receipts_def mk_tool_receipt_lookup_def receipts_for_def bindr_eq_Inr split: if_splits)
qed

end
