(* ===== verification/ToolRecovery.thy ===== *)
theory ToolRecovery
  imports EventSink SqlLeases
begin

section \<open>Delivery, replay and tool recovery on the durable store\<close>

text \<open>
  The lemmas of the locale \<open>event_journal\<close> at the SQLite journal, with appends, execution bindings and lease
  swaps of any executions in between. A sink is one that its constructor accepted, so its attempt belongs to
  the execution of its journal.
\<close>

subsection \<open>Runs of the store keep the log\<close>

lemma store_step_bounded_log:
  assumes "store_step sha db db'" "sql_holds sha ex db es"
  shows "\<exists>fs. sql_holds sha ex db' (es @ fs)"
  using assms(1)
proof cases
  case (step_append q ex')
  show ?thesis
  proof (cases "ex' = ex \<and> gr_execution_id (at_generation (rq_attempt q)) = ex")
    case True
    with step_append append_event_result [OF assms(2) step_append(2) _ prod.collapse [symmetric]]
    have "sql_holds sha ex db' es \<or> (\<exists>e. sql_holds sha ex db' (es @ [e]))" by (auto split: sum.splits if_splits)
    then show ?thesis by (metis append_Nil2)
  next
    case False
    have "holds_log sha ex db' es"
    proof (cases "ex' = ex")
      case True
      with False step_append append_event_foreign assms(2) show ?thesis by (simp add: sql_holds_def)
    next
      case ne: False
      then show ?thesis using holds_log_view [OF append_event_view [OF ne]] assms(2) step_append(1) by (simp add: sql_holds_def)
    qed
    then show ?thesis using assms(2) by (intro exI [of _ "[]"]) (simp add: sql_holds_def)
  qed
next
  case (step_bind v)
  then show ?thesis using assms(2) bind_execution_log by (intro exI [of _ "[]"]) (simp add: sql_holds_def)
next
  case (step_swap r ex' s e)
  then show ?thesis using assms(2) compare_and_swap_log by (intro exI [of _ "[]"]) (simp add: sql_holds_def)
qed

lemma store_run_log:
  assumes "(store_step sha)\<^sup>*\<^sup>* db db'" "sql_holds sha ex db es"
  shows "\<exists>fs. sql_holds sha ex db' (es @ fs)"
  using assms
proof (induction rule: rtranclp_induct)
  case base
  then show ?case by (intro exI [of _ "[]"]) simp
next
  case (step db1 db2)
  then show ?case using store_step_bounded_log by (metis append.assoc)
qed

lemma sink_of:
  assumes "mk_event_sink journal (Inl a) projector = Inr k"
  shows "sk_journal k = journal" "sk_attempt k = a" "gr_execution_id (at_generation a) = jp_execution_id journal" "sk_projector k = projector"
  using assms by (auto simp: mk_event_sink_def split: if_splits)

subsection \<open>A small run\<close>

text \<open>A call with its intent, its start and its result, stored in this order.\<close>

definition demo_ref :: resource_ref where
  "demo_ref = \<lparr>rr_kind = ''artifact'', rr_resource_id = ''out-1'', rr_revision = 1, rr_fragment = []\<rparr>"

definition demo_payload :: pydict where
  "demo_payload = [(''call_id'', PyStr ''call-1''), (''full_output_ref'', canonical (resource_ref_to_dict demo_ref)),
     (''result_bytes'', PyInt 2), (''result_sha256'', PyStr (replicate 64 (CHR ''0''))), (''tool_name'', PyStr ''shell'')]"

definition demo_tool_request :: "string \<Rightarrow> string \<Rightarrow> append_request" where
  "demo_tool_request ty i =
     \<lparr>rq_event_id = ''event-'' @ i, rq_event_type = ty, rq_attempt = demo_attempt, rq_operation = demo_operation (''op-'' @ i),
      rq_payload = demo_payload, rq_resource_refs = [demo_ref]\<rparr>"

lemma demo_frozen: "freeze_json ''payload'' (PyDict demo_payload) = Inr (PyDict demo_payload)"
  by code_simp

lemma demo_tool_ok:
  assumes "required_text ''event_id'' 256 True (PyStr (''event-'' @ i)) = Inr (''event-'' @ i)"
    "required_text ''event_type'' 256 True (PyStr ty) = Inr ty" "operation_ref_ok (demo_operation (''op-'' @ i))"
  shows "append_request_ok (demo_tool_request ty i)"
proof -
  have "attempt_ref_ok demo_attempt" "resource_ref_ok demo_ref" by code_simp+
  then show ?thesis using assms by (simp add: append_request_ok_def mk_append_request_def demo_tool_request_def demo_frozen)
qed

definition demo_requests :: "append_request list" where
  "demo_requests = [demo_tool_request ''tool_call'' ''1'', demo_tool_request ''tool.started'' ''2'', demo_tool_request ''tool_result'' ''3'']"

definition demo_log :: "append_request list \<Rightarrow> journal_event list" where
  "demo_log qs = map (\<lambda>p. event_of (snd p) (int (fst p))) (enumerate 1 qs)"

definition demo_store :: "append_request list \<Rightarrow> store_db" where
  "demo_store qs = fold (\<lambda>q db. snd (append_event zero_digest ''exec-1'' q db)) qs empty_db"

lemma demo_step:
  assumes "holds_log sha ex db es" "other_operations ex db = {}" "append_request_ok q" "gr_execution_id (at_generation (rq_attempt q)) = ex"
    "log_append q {} es = (Appended e, es @ [e])"
  shows "holds_log sha ex (snd (append_event sha ex q db)) (es @ [e])" "other_operations ex (snd (append_event sha ex q db)) = {}"
  using append_event_spec [OF assms(1,3,4) prod.collapse [symmetric] assms(5) [folded assms(2)]] assms(2) by blast+

lemma demo_holds:
  "holds_log zero_digest ''exec-1'' (demo_store (take 2 demo_requests)) (demo_log (take 2 demo_requests))"
  "holds_log zero_digest ''exec-1'' (demo_store demo_requests) (demo_log demo_requests)"
proof -
  let ?q = "\<lambda>i. demo_requests ! i" and ?e = "\<lambda>i. event_of (demo_requests ! i) (int i + 1)"
  have ok: "append_request_ok (?q 0)" "append_request_ok (?q 1)" "append_request_ok (?q 2)"
    unfolding demo_requests_def nth_Cons_0 nth_Cons_numeral nth_Cons_Suc One_nat_def numeral_2_eq_2 by (rule demo_tool_ok; code_simp)+
  have scope: "gr_execution_id (at_generation (rq_attempt (?q 0))) = ''exec-1''" "gr_execution_id (at_generation (rq_attempt (?q 1))) = ''exec-1''"
    "gr_execution_id (at_generation (rq_attempt (?q 2))) = ''exec-1''" by code_simp+
  have out: "log_append (?q 0) {} [] = (Appended (?e 0), [] @ [?e 0])"
    "log_append (?q 1) {} ([] @ [?e 0]) = (Appended (?e 1), ([] @ [?e 0]) @ [?e 1])"
    "log_append (?q 2) {} (([] @ [?e 0]) @ [?e 1]) = (Appended (?e 2), (([] @ [?e 0]) @ [?e 1]) @ [?e 2])" by code_simp+
  note one = demo_step [OF empty_db_holds demo_other ok(1) scope(1) out(1)]
  note two = demo_step [OF one ok(2) scope(2) out(2)]
  note three = demo_step [OF two ok(3) scope(3) out(3)]
  show "holds_log zero_digest ''exec-1'' (demo_store (take 2 demo_requests)) (demo_log (take 2 demo_requests))"
    using two(1) [where sha = zero_digest] by (simp add: demo_store_def demo_log_def demo_requests_def)
  show "holds_log zero_digest ''exec-1'' (demo_store demo_requests) (demo_log demo_requests)"
    using three(1) [where sha = zero_digest] by (simp add: demo_store_def demo_log_def demo_requests_def)
qed

lemma demo_range: "sql_range (int (length (demo_log qs)) + 1) \<longleftrightarrow> int (length qs) < max_sql_int"
  by (auto simp: demo_log_def sql_range_def max_sql_int_def)

definition demo_draft :: event_draft where
  "demo_draft = \<lparr>sd_event_id = ''event-9'', sd_event_type = ''message.completed'', sd_attempt = demo_attempt, sd_operation_id = ''op-9'',
     sd_payload = [], sd_resource_refs = []\<rparr>"

definition demo_sink :: "(store_db, unit, unit) event_sink" where
  "demo_sink = \<lparr>sk_journal = sql_journal zero_digest ''exec-1'' (\<lambda>q as p db. (Inl (store_integrity ''no artifacts''), db)),
     sk_attempt = demo_attempt, sk_projector = (\<lambda>ev. Inr (Some demo_draft))\<rparr>"

lemma demo_sink_made:
  "mk_event_sink (sql_journal zero_digest ''exec-1'' (\<lambda>q as p db. (Inl (store_integrity ''no artifacts''), db))) (Inl demo_attempt)
     (\<lambda>ev. Inr (Some demo_draft)) = Inr demo_sink"
  by (simp add: mk_event_sink_def demo_sink_def sql_journal_def demo_attempt_def)

text \<open>Recovery at the small run, by the specification of the receipt index.\<close>

lemma demo_recovery:
  assumes "holds_log zero_digest ''exec-1'' db es" "filter (has_receipt demo_attempt (''tool_execution'', Some ''call-1'', None)) es = es"
    "length es \<le> max_tool_execution_receipts" "\<forall>e \<in> set es. dget (ev_payload e) ''call_id'' = PyStr ''call-1''"
  shows "recover_tool_side_effect (\<lambda>q. []) demo_sink (PyStr ''call-1'') (PyInt 100) db = decide_recovery (\<lambda>q. []) ''call-1'' es"
proof -
  have t: "required_text ''call_id'' 256 True (PyStr ''call-1'') = Inr ''call-1''" and a: "attempt_ref_ok demo_attempt"
    and x: "gr_execution_id (at_generation demo_attempt) = ''exec-1''" by code_simp+
  have "lookup_tool_execution_receipts zero_digest ''exec-1'' demo_attempt (PyStr ''call-1'') db =
      Inr \<lparr>tl_attempt = demo_attempt, tl_call_id = ''call-1'', tl_events = es, tl_overflow = False\<rparr>"
    using lookup_tool_spec [OF assms(1) x a t] assms(2-4) by simp
  then show ?thesis
    by (simp add: recover_tool_side_effect_def t check_page_size_def max_replay_page_size_def demo_sink_def sql_journal_def)
qed

lemma demo_recoveries:
  "recover_tool_side_effect (\<lambda>q. []) demo_sink (PyStr ''call-1'') (PyInt 100) (demo_store (take 2 demo_requests)) =
     decide_recovery (\<lambda>q. []) ''call-1'' (demo_log (take 2 demo_requests))"
  "recover_tool_side_effect (\<lambda>q. []) demo_sink (PyStr ''call-1'') (PyInt 100) (demo_store demo_requests) =
     decide_recovery (\<lambda>q. []) ''call-1'' (demo_log demo_requests)"
  by (rule demo_recovery, rule demo_holds, code_simp, code_simp, code_simp)+

subsection \<open>Replay\<close>

text \<open>
  Replaying an attempt reads the log in pages but returns, for every page size, what one pass over
  the log selects: the events of the attempt in the order in which they were stored. An event of
  another generation makes it fail, and up to a hundred thousand full pages are enough.
\<close>
theorem replay_is_one_pass:
  assumes "holds_log sha ex db es" "sql_range (int (length es) + 1)"
    and "mk_event_sink (sql_journal sha ex with_artifacts) (Inl a) projector = Inr k"
    and "1 \<le> n" "n \<le> 1000" "int (length es) \<le> 100000 * n"
  shows "replay k (PyInt n) db =
    (if \<exists>e \<in> set es. gr_generation_id (at_generation (ev_attempt e)) \<noteq> gr_generation_id (at_generation a)
     then Inl (durable_scope ''replayed event belongs to a foreign generation'')
     else Inr (filter (\<lambda>e. at_attempt_id (ev_attempt e) = at_attempt_id a) es))"
proof -
  have h: "sql_holds sha ex db es" using assms(1,2) by (simp add: sql_holds_def)
  note k = sink_of [OF assms(3)]
  have "length es \<le> max_replay_pages * nat n" using assms(4,6) by (simp add: max_replay_pages_def nat_mult_distrib [symmetric] nat_le_iff)
  from journal.replay_log [OF h k(1) _ assms(4) _ this] show ?thesis
    using k assms(5) by (simp add: max_replay_page_size_def list_ex_iff foreign_event_def own_event_def [abs_def])
qed

theorem replay_is_one_pass_witness:
  "replay demo_sink (PyInt 2) (demo_store demo_requests) = Inr (demo_log demo_requests)"
proof -
  have own: "\<forall>e \<in> set (demo_log demo_requests). ev_attempt e = demo_attempt" "length (demo_log demo_requests) = 3" by code_simp+
  then have "filter (\<lambda>e. at_attempt_id (ev_attempt e) = at_attempt_id demo_attempt) (demo_log demo_requests) = demo_log demo_requests" by simp
  moreover have "sql_range (int (length (demo_log demo_requests)) + 1)" by code_simp
  ultimately show ?thesis
    using replay_is_one_pass [OF demo_holds(2) _ demo_sink_made, of 2] own by simp
qed

subsection \<open>Delivery\<close>

text \<open>
  An event that the sink stored may be delivered again at any later time, by this or another sink
  of the attempt with the same projector: after any appends, bindings and lease swaps in between, the second
  delivery is answered with the stored event and the log does not change.
\<close>
theorem event_delivered_twice_is_stored_once:
  assumes "holds_log sha ex db es" "sql_range (int (length es) + 1)"
    and "mk_event_sink (sql_journal sha ex with_artifacts) (Inl a) projector = Inr k"
    and "\<And>ev d. projector ev = Inr (Some d) \<Longrightarrow> draft_ok d"
    and "sink_event sha k ev db = (Inr (Some x), db1)" "(store_step sha)\<^sup>*\<^sup>* db1 db2"
  shows "\<exists>y db3 es2. sink_event sha k ev db2 = (Inr (Some y), db3) \<and> res_event y = res_event x \<and> res_duplicate y \<and>
    res_event x \<in> set es2 \<and> holds_log sha ex db2 es2 \<and> holds_log sha ex db3 es2"
proof -
  have h: "sql_holds sha ex db es" using assms(1,2) by (simp add: sql_holds_def)
  note k = sink_of [OF assms(3)]
  have scope: "gr_execution_id (at_generation (sk_attempt k)) = jp_execution_id (sql_journal sha ex with_artifacts)" using k by simp
  have p: "projector_ok k" using assms(4) k(4) by (simp add: projector_ok_def)
  have "\<exists>es1. sql_holds sha ex db1 es1 \<and> res_event x \<in> set es1"
    using journal.sink_delivered [OF h k(1) scope p assms(5)] by (auto split: if_splits)
  then obtain es2 where later: "sql_holds sha ex db2 es2" "res_event x \<in> set es2" using store_run_log [OF assms(6)] by fastforce
  from journal.sink_redelivered [OF h k(1) scope p assms(5) later] later show ?thesis by (fastforce simp: sql_holds_def)
qed

lemma demo_delivery:
  "\<exists>x db. sink_event zero_digest demo_sink (PyDict [(''type'', PyStr ''message.completed'')]) empty_db = (Inr (Some x), db) \<and>
     ev_event_id (res_event x) = ''event-9''"
proof -
  have "case sink_event zero_digest demo_sink (PyDict [(''type'', PyStr ''message.completed'')]) empty_db of
      (Inr (Some x), db) \<Rightarrow> ev_event_id (res_event x) = ''event-9'' | _ \<Rightarrow> False" by code_simp
  then show ?thesis by (auto split: prod.splits sum.splits option.splits)
qed

theorem event_delivered_twice_is_stored_once_witness:
  "\<exists>x db1 y db2 es. sink_event zero_digest demo_sink (PyDict [(''type'', PyStr ''message.completed'')]) empty_db = (Inr (Some x), db1) \<and>
     sink_event zero_digest demo_sink (PyDict [(''type'', PyStr ''message.completed'')]) db1 = (Inr (Some y), db2) \<and>
     res_event y = res_event x \<and> res_duplicate y \<and> holds_log zero_digest ''exec-1'' db1 es \<and> holds_log zero_digest ''exec-1'' db2 es"
proof -
  obtain x db1 where first: "sink_event zero_digest demo_sink (PyDict [(''type'', PyStr ''message.completed'')]) empty_db = (Inr (Some x), db1)"
    using demo_delivery by blast
  have d: "draft_ok demo_draft" by code_simp
  have range: "sql_range (int (length []) + 1)" by code_simp
  show ?thesis
    using event_delivered_twice_is_stored_once [OF empty_db_holds range demo_sink_made _ first rtranclp.rtrancl_refl] d first by auto
qed

subsection \<open>Recovery of tool calls\<close>

text \<open>
  A result that recovery offers for reuse is the only result in the log of that call; it follows the
  start, which follows the intent, all three name the same tool, and the artifact offered has the
  size, digest and reference that the result event recorded.
\<close>
theorem recovered_result_is_the_recorded_one:
  assumes "holds_log sha ex db es" "sql_range (int (length es) + 1)"
    and "mk_event_sink (sql_journal sha ex with_artifacts) (Inl a) projector = Inr k"
    and "recover_tool_side_effect fr k call n db = Inr r" "required_text ''call_id'' 256 True call = Inr c"
    and "tr_state r = TerminalReusable"
  shows "\<exists>i s x art. tr_intent r = Some i \<and> tr_started r = Some s \<and> tr_result r = Some x \<and> tr_artifact r = Some art \<and>
    {i, s, x} \<subseteq> set es \<and> ev_event_type i = ''tool_call'' \<and> ev_event_type s = ''tool.started'' \<and>
    filter is_result (filter (has_receipt a (''tool_execution'', Some c, None)) es) = [x] \<and>
    ev_store_seq i < ev_store_seq s \<and> ev_store_seq s < ev_store_seq x \<and> tool_name i = tool_name x \<and> tool_name s = tool_name x \<and>
    ar_ref art \<in> set (ev_resource_refs x) \<and> dget (ev_payload x) ''result_bytes'' = PyInt (ar_byte_length art) \<and>
    dget (ev_payload x) ''result_sha256'' = PyStr (ar_sha256 art)"
proof -
  have h: "sql_holds sha ex db es" using assms(1,2) by (simp add: sql_holds_def)
  note k = sink_of [OF assms(3)]
  have scope: "gr_execution_id (at_generation (sk_attempt k)) = jp_execution_id (sql_journal sha ex with_artifacts)" using k by simp
  from journal.recover_terminal [OF h k(1) scope assms(4,5,6)] obtain i s x art where
    f: "tr_intent r = Some i" "tr_started r = Some s" "tr_result r = Some x" "tr_artifact r = Some art" "{i, s, x} \<subseteq> set es"
      "is_intent i" "is_start s" "filter is_result (receipts_for (sk_attempt k) c es) = [x]"
      "ev_store_seq i < ev_store_seq s" "ev_store_seq s < ev_store_seq x" "tool_name i = tool_name x" "tool_name s = tool_name x"
      "reusable_result_ref fr x = Some art" by blast
  show ?thesis
    using f(1-5,9-12) f(6-8) [unfolded is_intent_def is_start_def receipts_for_def k(2)] reusable_result_fields [OF f(13)]
    by (intro exI conjI) (assumption | elim conjE)+
qed

theorem recovered_result_is_the_recorded_one_witness:
  "\<exists>r x art. recover_tool_side_effect (\<lambda>q. []) demo_sink (PyStr ''call-1'') (PyInt 100) (demo_store demo_requests) = Inr r \<and>
     tr_result r = Some x \<and> tr_artifact r = Some art \<and> x \<in> set (demo_log demo_requests) \<and>
     dget (ev_payload x) ''result_sha256'' = PyStr (ar_sha256 art)"
proof -
  have "case decide_recovery (\<lambda>q. []) ''call-1'' (demo_log demo_requests) of Inr r \<Rightarrow> tr_state r = TerminalReusable | _ \<Rightarrow> False" by code_simp
  then obtain r where r: "recover_tool_side_effect (\<lambda>q. []) demo_sink (PyStr ''call-1'') (PyInt 100) (demo_store demo_requests) = Inr r"
    "tr_state r = TerminalReusable" unfolding demo_recoveries by (auto split: sum.splits)
  have e: "required_text ''call_id'' 256 True (PyStr ''call-1'') = Inr ''call-1''" "sql_range (int (length (demo_log demo_requests)) + 1)" by code_simp+
  from recovered_result_is_the_recorded_one [OF demo_holds(2) e(2) demo_sink_made r(1) e(1) r(2)] r(1) show ?thesis by blast
qed

end
