(* ===== verification/Snapshot.thy ===== *)
theory Snapshot
  imports SqlStore ResourceLimits
begin

section \<open>Journal snapshots\<close>

text \<open>
  \<open>journal/snapshot.py\<close> and the capture of \<open>persistence/sqlite_v2.py\<close>: a snapshot is the whole log of an
  execution with a digest over its events. Its constructor and its decoder check that it is complete
  and unaltered, after a bound on its size.

  The size check sees the records through an adapter that turns each into its dictionary. The theory
  shows that this is the check of the encoded snapshot, that capturing returns exactly the log when it
  is within the limits, that snapshots round-trip, and that the digest determines the snapshot.
\<close>

subsection \<open>Records\<close>

definition journal_snapshot_limits :: resource_limits where
  "journal_snapshot_limits = \<lparr>max_items = 10000, max_bytes = 32 * 1024 * 1024, max_depth = 64, max_nodes = 1000000\<rparr>"

definition snapshot_error :: "string \<Rightarrow> py_exc" where
  "snapshot_error m = DomainExc ''JournalSnapshotError'' m"

definition journal_event_sha256 :: "(blob \<Rightarrow> string) \<Rightarrow> journal_event \<Rightarrow> string" where
  "journal_event_sha256 sha e = sha (canonical_json_bytes (journal_event_to_dict e))"

definition cursor_value :: "event_cursor option \<Rightarrow> pyval" where
  "cursor_value c = (case c of None \<Rightarrow> PyNone | Some c \<Rightarrow> event_cursor_to_dict c)"

definition snapshot_digest :: "(blob \<Rightarrow> string) \<Rightarrow> string \<Rightarrow> event_cursor option \<Rightarrow> string list \<Rightarrow> string" where
  "snapshot_digest sha ex hw digests =
     sha (canonical_json_bytes (PyDict
       [(''domain'', PyStr ''unchain.journal_snapshot.v1''), (''execution_id'', PyStr ex), (''high_water'', cursor_value hw),
        (''event_sha256s'', PyList (map PyStr digests))]))"

text \<open>The instances that a size check meets, by their class and fields.\<close>

definition cursor_obj :: "event_cursor \<Rightarrow> pyval" where
  "cursor_obj c = PyObj ''EventCursor'' [(''store_seq'', PyInt (ec_store_seq c)), (''event_id'', PyStr (ec_event_id c))]"

definition event_obj :: "journal_event \<Rightarrow> pyval" where
  "event_obj e = PyObj ''JournalEvent''
     [(''event_id'', PyStr (ev_event_id e)), (''event_type'', PyStr (ev_event_type e)), (''attempt'', attempt_ref_to_dict (ev_attempt e)),
      (''operation'', operation_ref_to_dict (ev_operation e)), (''store_seq'', PyInt (ev_store_seq e)),
      (''payload'', PyDict (ev_payload e)), (''resource_refs'', PyList (map resource_ref_obj (ev_resource_refs e)))]"

fun snapshot_resource_adapter :: "pyval \<Rightarrow> pyval" where
  "snapshot_resource_adapter (PyObj c d) =
     (if c = ''EventCursor'' then PyDict ((''schema'', PyStr ''unchain.event_cursor.v1'') # d)
      else if c = ''ResourceRef'' then ref_fields_to_dict d
      else if c = ''JournalEvent'' then PyDict ((''schema'', PyStr ''unchain.journal_event.v1'') # d)
      else PyObj c d)"
| "snapshot_resource_adapter v = v"

definition validate_snapshot_resource ::
  "(rat \<Rightarrow> string) \<Rightarrow> pyval \<Rightarrow> pyval \<Rightarrow> pyval list \<Rightarrow> pyval \<Rightarrow> (py_exc, unit) res" where
  "validate_snapshot_resource fr ex hw events digest =
     bindr (enforce_item_limit ''journal_snapshot.events'' journal_snapshot_limits events) (\<lambda>_.
       validate_json_resource fr snapshot_resource_adapter ''journal_snapshot'' journal_snapshot_limits
         (PyDict [(''schema'', PyStr ''unchain.journal_snapshot.v1''), (''execution_id'', ex), (''high_water'', hw),
            (''events'', PyList events), (''snapshot_sha256'', digest), (''event_count'', PyInt (int (length events)))]))"

record journal_snapshot =
  js_execution_id :: string
  js_high_water :: "event_cursor option"
  js_events :: "journal_event list"
  js_sha256 :: string

definition high_water_of :: "journal_event list \<Rightarrow> event_cursor option" where
  "high_water_of es = (if es = [] then None else Some (event_cursor_of (last es)))"

definition prefix_error :: "string \<Rightarrow> journal_event list \<Rightarrow> py_exc option" where
  "prefix_error ex es =
     (if \<exists>p \<in> set (zip es (tl es)). ev_store_seq (fst p) \<ge> ev_store_seq (snd p)
      then Some (snapshot_error ''journal snapshot event sequences must be strictly increasing'')
      else if map ev_store_seq es \<noteq> map int [1..<length es + 1]
      then Some (snapshot_error ''journal snapshot must be a complete contiguous prefix'')
      else if card (set (map ev_event_id es)) \<noteq> length es \<or> card (set (map ev_store_seq es)) \<noteq> length es
      then Some (snapshot_error ''journal snapshot event cursors must be unique'')
      else if \<exists>e \<in> set es. gr_execution_id (at_generation (ev_attempt e)) \<noteq> ex
      then Some (snapshot_error ''journal snapshot contains a foreign execution'')
      else None)"

text \<open>A field of the constructor is an instance or a raw value.\<close>

definition cursor_field :: "(event_cursor + pyval) option \<Rightarrow> pyval" where
  "cursor_field hw = (case hw of None \<Rightarrow> PyNone | Some (Inl c) \<Rightarrow> cursor_obj c | Some (Inr v) \<Rightarrow> v)"

definition events_field :: "journal_event list + pyval \<Rightarrow> pyval list option" where
  "events_field es = (case es of Inl es \<Rightarrow> Some (map event_obj es) | Inr (PyList xs) \<Rightarrow> Some xs | Inr _ \<Rightarrow> None)"

definition mk_journal_snapshot ::
  "(blob \<Rightarrow> string) \<Rightarrow> (rat \<Rightarrow> string) \<Rightarrow> pyval \<Rightarrow> (event_cursor + pyval) option \<Rightarrow> journal_event list + pyval \<Rightarrow> pyval \<Rightarrow>
   (py_exc, journal_snapshot) res" where
  "mk_journal_snapshot sha fr execution hw events digest =
     (case events_field events of
        None \<Rightarrow> Inl (TypeExc ''journal snapshot events must be an array'')
      | Some xs \<Rightarrow>
     bindr (validate_snapshot_resource fr execution (cursor_field hw) xs digest) (\<lambda>_.
     bindr (required_text ''execution_id'' 256 True execution) (\<lambda>ex.
     bindr (case hw of None \<Rightarrow> Inr None | Some c \<Rightarrow> bindr (as_record event_cursor_from_dict c) (\<lambda>c. Inr (Some c))) (\<lambda>w.
     bindr (case events of Inl es \<Rightarrow> Inr es | Inr _ \<Rightarrow> mapr journal_event_from_dict xs) (\<lambda>es.
       (case prefix_error ex es of
          Some e \<Rightarrow> Inl e
        | None \<Rightarrow>
            if w \<noteq> high_water_of es then Inl (snapshot_error ''journal snapshot high water is inconsistent'')
            else (case digest of
               PyStr s \<Rightarrow>
                 if \<not> is_sha256 s then Inl (snapshot_error ''journal snapshot digest is invalid'')
                 else if s \<noteq> snapshot_digest sha ex (high_water_of es) (map (journal_event_sha256 sha) es)
                 then Inl (snapshot_error ''journal snapshot digest is inconsistent'')
                 else Inr \<lparr>js_execution_id = ex, js_high_water = w, js_events = es, js_sha256 = s\<rparr>
             | _ \<Rightarrow> Inl (snapshot_error ''journal snapshot digest is invalid''))))))))"

definition journal_snapshot_to_dict :: "journal_snapshot \<Rightarrow> pyval" where
  "journal_snapshot_to_dict s = PyDict
     [(''schema'', PyStr ''unchain.journal_snapshot.v1''), (''execution_id'', PyStr (js_execution_id s)),
      (''high_water'', cursor_value (js_high_water s)), (''events'', PyList (map journal_event_to_dict (js_events s))),
      (''snapshot_sha256'', PyStr (js_sha256 s)), (''event_count'', PyInt (int (length (js_events s))))]"

definition high_water_from :: "pyval \<Rightarrow> (py_exc, (event_cursor + pyval) option) res" where
  "high_water_from v = (if v = PyNone then Inr None else bindr (event_cursor_from_dict v) (\<lambda>c. Inr (Some (Inl c))))"

definition journal_snapshot_from_dict :: "(blob \<Rightarrow> string) \<Rightarrow> (rat \<Rightarrow> string) \<Rightarrow> pyval \<Rightarrow> (py_exc, journal_snapshot) res" where
  "journal_snapshot_from_dict sha fr v =
     (case v of
        PyDict d \<Rightarrow>
          if set (dict_keys d) \<noteq> {''schema'', ''execution_id'', ''high_water'', ''events'', ''snapshot_sha256'', ''event_count''}
          then Inl (snapshot_error ''journal snapshot record is invalid'')
          else if \<not> py_eq (dget d ''schema'') (PyStr ''unchain.journal_snapshot.v1'')
          then Inl (snapshot_error ''journal snapshot schema is invalid'')
          else (case dget d ''events'' of
             PyList xs \<Rightarrow>
               bindr (validate_snapshot_resource fr (dget d ''execution_id'') (dget d ''high_water'') xs (dget d ''snapshot_sha256'')) (\<lambda>_.
               bindr (mapr journal_event_from_dict xs) (\<lambda>es.
                 if \<not> py_eq (dget d ''event_count'') (PyInt (int (length es)))
                 then Inl (snapshot_error ''journal snapshot event count is invalid'') else
               bindr (high_water_from (dget d ''high_water'')) (\<lambda>hw.
                 mk_journal_snapshot sha fr (dget d ''execution_id'') hw (Inl es) (dget d ''snapshot_sha256''))))
           | _ \<Rightarrow> Inl (snapshot_error ''journal snapshot events are invalid''))
      | _ \<Rightarrow> Inl (snapshot_error ''journal snapshot record is invalid''))"

definition capture_journal_snapshot ::
  "(blob \<Rightarrow> string) \<Rightarrow> (rat \<Rightarrow> string) \<Rightarrow> pyval \<Rightarrow> journal_event list \<Rightarrow> (py_exc, journal_snapshot) res" where
  "capture_journal_snapshot sha fr execution es =
     bindr (required_text ''execution_id'' 256 True execution) (\<lambda>ex.
     bindr (enforce_item_limit ''journal_snapshot.events'' journal_snapshot_limits es) (\<lambda>_.
     bindr (if es = [] then Inr None
            else bindr (mk_event_cursor (PyInt (ev_store_seq (last es))) (PyStr (ev_event_id (last es)))) (\<lambda>c. Inr (Some c))) (\<lambda>hw.
     bindr (validate_snapshot_resource fr (PyStr ex) (cursor_field (map_option Inl hw)) (map event_obj es)
         (PyStr (replicate 64 (CHR ''0'')))) (\<lambda>_.
       mk_journal_snapshot sha fr (PyStr ex) (map_option Inl hw) (Inl es)
         (PyStr (snapshot_digest sha ex hw (map (journal_event_sha256 sha) es)))))))"

subsection \<open>Capture from the store\<close>

definition snapshot_with_connection ::
  "(blob \<Rightarrow> string) \<Rightarrow> (rat \<Rightarrow> string) \<Rightarrow> string \<Rightarrow> int \<Rightarrow> int \<Rightarrow> journal_snapshot tx" where
  "snapshot_with_connection sha fr ex max_events bytes_limit =
     bindt (lift_res (nonnegative_int ''max_events'' max_events)) (\<lambda>n.
     bindt (lift_res (nonnegative_int ''max_bytes'' bytes_limit)) (\<lambda>b.
     bindt (bind_int (n + 1)) (\<lambda>_.
     bindt (select (\<lambda>db. take (nat (n + 1)) (sort_key ew_store_seq (filter (\<lambda>r. ew_execution_id r = ex) (db_events db))))) (\<lambda>rows.
       if int (length rows) > n then raise (journal_repository ''journal snapshot event limit exceeded'') else
     bindt (decode_rows sha ex rows) (\<lambda>es.
       if text_bytes (compact_json fr (canonical (PyList (map journal_event_to_dict es)))) > b
       then raise (journal_repository ''journal snapshot byte limit exceeded'')
       else lift_res (capture_journal_snapshot sha fr (PyStr ex) es))))))"

definition capture_snapshot ::
  "(blob \<Rightarrow> string) \<Rightarrow> (rat \<Rightarrow> string) \<Rightarrow> string \<Rightarrow> int \<Rightarrow> int \<Rightarrow> store_db \<Rightarrow> (py_exc, journal_snapshot) res" where
  "capture_snapshot sha fr ex max_events bytes_limit db =
     fst (transaction id (snapshot_with_connection sha fr ex max_events bytes_limit) db)"

subsection \<open>What the size check measures\<close>

text \<open>The value with every instance in it replaced by its dictionary.\<close>

fun adapt :: "pyval \<Rightarrow> pyval" where
  "adapt (PyList xs) = PyList (map adapt xs)"
| "adapt (PyDict d) = PyDict (map (\<lambda>p. (fst p, adapt (snd p))) d)"
| "adapt (PyObj c d) =
     (let e = map (\<lambda>p. (fst p, adapt (snd p))) d in
      if c = ''EventCursor'' then PyDict ((''schema'', PyStr ''unchain.event_cursor.v1'') # e)
      else if c = ''ResourceRef'' then ref_fields_to_dict e
      else if c = ''JournalEvent'' then PyDict ((''schema'', PyStr ''unchain.journal_event.v1'') # e)
      else PyObj c d)"
| "adapt v = v"

lemma dget_adapted: "dget (map (\<lambda>p. (fst p, adapt (snd p))) d) k = adapt (dget d k)"
  by (induction d) (auto simp: dget_def)

lemma adapts_adapt: "adapts snapshot_resource_adapter adapt"
  unfolding adapts_def
proof
  fix v :: pyval
  show "adapt v = (case snapshot_resource_adapter v of PyList xs \<Rightarrow> PyList (map adapt xs)
      | PyDict d \<Rightarrow> PyDict (map (\<lambda>p. (fst p, adapt (snd p))) d) | w \<Rightarrow> w)"
    by (cases v) (simp_all add: Let_def ref_fields_to_dict_def dget_adapted)
qed

lemma adapt_frozen: "freeze_json p v = Inr w \<Longrightarrow> adapt w = w"
proof (induction p v arbitrary: w rule: freeze_json.induct)
  case (1 p d)
  obtain e where e: "w = PyDict e" "list_all2 (frozen_entry p) (sort_key fst d) e"
      and keys: "\<forall>a \<in> set d. fst a \<noteq> [] \<and> CHR 0x00 \<notin> set (fst a)"
    using "1.prems" by (rule freeze_dictE)
  have "(fst b, adapt (snd b)) = b" if "b \<in> set e" for b
  proof -
    obtain a where a: "a \<in> set (sort_key fst d)" "frozen_entry p a b"
      using list_all2_elem [OF e(2) \<open>b \<in> set e\<close>] by blast
    then show ?thesis using "1.IH" [OF _ a(1)] keys by (auto simp: frozen_entry_def prod_eq_iff)
  qed
  then show ?case by (simp add: e(1) map_idI)
next
  case (2 p xs)
  show ?case using "2.prems"
  proof (rule freeze_listE)
    fix ys
    assume ys: "w = PyList ys" "length xs = length ys"
      "\<And>i. i < length xs \<Longrightarrow> freeze_json (p @ ''['' @ nat_text i @ '']'') (xs ! i) = Inr (ys ! i)"
    have "adapt (ys ! i) = ys ! i" if "i < length xs" for i
    proof -
      have "(i, xs ! i) \<in> set (enumerate 0 xs)" using that by (auto simp: in_set_enumerate_eq)
      from "2.IH" [OF this] show ?thesis using ys(3) [OF that] by simp
    qed
    then show ?thesis using ys(1,2) by (auto intro: nth_equalityI)
  qed
qed auto

lemma adapt_payload: "journal_event_ok e \<Longrightarrow> map (\<lambda>p. (fst p, adapt (snd p))) (ev_payload e) = ev_payload e"
  by (auto simp: journal_event_ok_def append_request_ok_def mk_append_request_def bindr_eq_Inr case_PyDict_Inr
      dest: adapt_frozen)

lemma adapt_records [simp]:
  "adapt (attempt_ref_to_dict a) = attempt_ref_to_dict a" "adapt (operation_ref_to_dict p) = operation_ref_to_dict p"
  "adapt (resource_ref_to_dict r) = resource_ref_to_dict r" "adapt (resource_ref_obj r) = resource_ref_to_dict r"
  "adapt (cursor_value w) = cursor_value w" "adapt (cursor_field (map_option Inl w)) = cursor_value w"
  by (simp_all add: attempt_ref_to_dict_def generation_ref_to_dict_def operation_ref_to_dict_def resource_ref_to_dict_def
      resource_ref_obj_def ref_fields_to_dict_def dget_def cursor_value_def cursor_field_def cursor_obj_def event_cursor_to_dict_def
      split: option.split)

lemma adapt_event:
  "journal_event_ok e \<Longrightarrow> adapt (event_obj e) = journal_event_to_dict e"
  "journal_event_ok e \<Longrightarrow> adapt (journal_event_to_dict e) = journal_event_to_dict e"
  by (simp_all add: event_obj_def journal_event_to_dict_def adapt_payload)

definition snapshot_fits :: "(rat \<Rightarrow> string) \<Rightarrow> journal_snapshot \<Rightarrow> bool" where
  "snapshot_fits fr s \<longleftrightarrow> length (js_events s) \<le> 10000 \<and> resource_fits fr journal_snapshot_limits (journal_snapshot_to_dict s)"

abbreviation events_ok :: "journal_event list \<Rightarrow> bool" where
  "events_ok es \<equiv> (\<forall>e \<in> set es. journal_event_ok e)"

lemma validate_snapshot:
  assumes "map adapt xs = map journal_event_to_dict es" "adapt w = cursor_value hw"
  shows "validate_snapshot_resource fr (PyStr ex) w xs (PyStr d) = Inr () \<longleftrightarrow>
    snapshot_fits fr \<lparr>js_execution_id = ex, js_high_water = hw, js_events = es, js_sha256 = d\<rparr>"
proof -
  have "length xs = length es" using arg_cong [OF assms(1), of length] by simp
  then show ?thesis
    by (auto simp: validate_snapshot_resource_def bindr_eq_Inr enforce_item_limit_def validate_adapted [OF adapts_adapt] validate_fits
        assms snapshot_fits_def journal_snapshot_to_dict_def journal_snapshot_limits_def)
qed

lemma validate_instances:
  "events_ok es \<Longrightarrow> validate_snapshot_resource fr (PyStr ex) (cursor_field (map_option Inl hw)) (map event_obj es) (PyStr d) = Inr () \<longleftrightarrow>
    snapshot_fits fr \<lparr>js_execution_id = ex, js_high_water = hw, js_events = es, js_sha256 = d\<rparr>"
  by (rule validate_snapshot) (simp_all add: adapt_event)

lemma validate_encoded:
  "events_ok es \<Longrightarrow> validate_snapshot_resource fr (PyStr ex) (cursor_value hw) (map journal_event_to_dict es) (PyStr d) = Inr () \<longleftrightarrow>
    snapshot_fits fr \<lparr>js_execution_id = ex, js_high_water = hw, js_events = es, js_sha256 = d\<rparr>"
  by (rule validate_snapshot) (simp_all add: adapt_event)

text \<open>The check sees every digest as 66 bytes, and a shorter identifier fits as well.\<close>

lemma digest_bytes:
  assumes "is_sha256 d"
  shows "text_bytes (json_str d) = 66"
proof -
  have "list_all (\<lambda>c. char_bytes c = 1) d \<and> length d = 64"
    using assms by (auto simp: is_sha256_def list_all_iff char_bytes_code Let_def)
  moreover have "list_all (\<lambda>c. char_bytes c = 1) d \<Longrightarrow> (\<Sum>c \<leftarrow> d. char_bytes c) = int (length d)" by (induction d) auto
  ultimately show ?thesis by (simp add: text_bytes_json_str)
qed

lemma char_bytes_drop: "(\<Sum>c \<leftarrow> dropWhile P s. char_bytes c) \<le> (\<Sum>c \<leftarrow> s. char_bytes c)"
  by (induction s) (use char_bytes_pos in \<open>auto intro: order_trans simp: add_increasing order_less_imp_le\<close>)

lemma strip_bytes: "text_bytes (json_str (py_strip s)) \<le> text_bytes (json_str s)"
proof -
  have sum: "(\<Sum>c \<leftarrow> rev u. char_bytes c) = (\<Sum>c \<leftarrow> u. char_bytes c)" for u by (simp add: rev_map [symmetric] sum_list_rev)
  show ?thesis
    using char_bytes_drop [of py_isspace s] char_bytes_drop [of py_isspace "rev (dropWhile py_isspace s)"]
    by (simp add: text_bytes_json_str py_strip_def py_lstrip_def py_rstrip_def sum)
qed

lemma compact_json_str: "compact_json fr (PyStr s) = json_str s"
  by simp

lemma fits_smaller:
  assumes "text_bytes (json_str e) \<le> text_bytes (json_str x)" "text_bytes (json_str d) \<le> text_bytes (json_str f)"
    and "snapshot_fits fr \<lparr>js_execution_id = x, js_high_water = w, js_events = es, js_sha256 = f\<rparr>"
  shows "snapshot_fits fr \<lparr>js_execution_id = e, js_high_water = w, js_events = es, js_sha256 = d\<rparr>"
  using assms
  by (simp add: snapshot_fits_def resource_fits_def journal_snapshot_to_dict_def container_text_bytes container_bytes_def compact_json_str
      del: compact_json.simps)

subsection \<open>Valid snapshots\<close>

lemma if_Inl_Inr: "(if b then Inl e else m) = Inr x \<longleftrightarrow> \<not> b \<and> m = Inr x"
  by simp

lemma prefix_error_None:
  "prefix_error ex es = None \<longleftrightarrow> map ev_store_seq es = map int [1..<length es + 1] \<and> distinct (map ev_event_id es) \<and>
     (\<forall>e \<in> set es. gr_execution_id (at_generation (ev_attempt e)) = ex)"
proof -
  have card: "card (set (map f es)) = length es \<longleftrightarrow> distinct (map f es)" for f :: "journal_event \<Rightarrow> 'a"
    using card_distinct [of "map f es"] distinct_card [of "map f es"] by auto
  have increasing: "\<not> (\<exists>p \<in> set (zip es (tl es)). ev_store_seq (fst p) \<ge> ev_store_seq (snd p))" and dist: "distinct (map ev_store_seq es)"
    if seqs: "map ev_store_seq es = map int [1..<length es + 1]"
  proof -
    have nth: "ev_store_seq (es ! i) = int i + 1" if "i < length es" for i
      using arg_cong [OF seqs, of "\<lambda>xs. xs ! i"] that by (simp del: upt_Suc)
    then show "\<not> (\<exists>p \<in> set (zip es (tl es)). ev_store_seq (fst p) \<ge> ev_store_seq (snd p))" by (auto simp: set_zip nth_tl)
    show "distinct (map ev_store_seq es)" unfolding seqs by (simp add: distinct_map inj_on_def del: upt_Suc)
  qed
  have chain: "(if a then Some x else if b then Some y else if c then Some z else if d then Some w else None) = None \<longleftrightarrow>
      \<not> a \<and> \<not> b \<and> \<not> c \<and> \<not> d" for a b c d and x y z w :: 'a by simp
  show ?thesis unfolding prefix_error_def card chain using increasing dist by blast
qed

definition snapshot_ok :: "(blob \<Rightarrow> string) \<Rightarrow> (rat \<Rightarrow> string) \<Rightarrow> journal_snapshot \<Rightarrow> bool" where
  "snapshot_ok sha fr s \<longleftrightarrow>
     snapshot_fits fr s \<and> required_text ''execution_id'' 256 True (PyStr (js_execution_id s)) = Inr (js_execution_id s) \<and>
     events_ok (js_events s) \<and> prefix_error (js_execution_id s) (js_events s) = None \<and>
     js_high_water s = high_water_of (js_events s) \<and> is_sha256 (js_sha256 s) \<and>
     js_sha256 s = snapshot_digest sha (js_execution_id s) (js_high_water s) (map (journal_event_sha256 sha) (js_events s))"

lemma cursor_given:
  "(case map_option Inl w of None \<Rightarrow> Inr None | Some c \<Rightarrow> bindr (as_record f c) (\<lambda>c. Inr (Some c))) = Inr w"
  by (cases w) (simp_all add: as_record_def)

lemma case_None_Inr: "(case x of None \<Rightarrow> m | Some e \<Rightarrow> Inl e) = Inr w \<longleftrightarrow> x = None \<and> m = Inr w"
  by (cases x) simp_all

lemma case_PyStr_Inr: "(case v of PyStr s \<Rightarrow> f s | _ \<Rightarrow> Inl e) = Inr w \<longleftrightarrow> (\<exists>s. v = PyStr s \<and> f s = Inr w)"
  by (cases v) auto

lemma mk_instances:
  "mk_journal_snapshot sha fr v (map_option Inl hw) (Inl es) d = Inr s \<longleftrightarrow>
     validate_snapshot_resource fr v (cursor_field (map_option Inl hw)) (map event_obj es) d = Inr () \<and>
     (\<exists>ex t. required_text ''execution_id'' 256 True v = Inr ex \<and> prefix_error ex es = None \<and> hw = high_water_of es \<and>
        d = PyStr t \<and> is_sha256 t \<and> t = snapshot_digest sha ex (high_water_of es) (map (journal_event_sha256 sha) es) \<and>
        s = \<lparr>js_execution_id = ex, js_high_water = hw, js_events = es, js_sha256 = t\<rparr>)"
  unfolding mk_journal_snapshot_def events_field_def sum.case option.case cursor_given bindr_eq_Inr case_None_Inr case_PyStr_Inr
    if_Inl_Inr
  by auto

lemma mk_snapshot_iff:
  assumes "events_ok es" "required_text ''execution_id'' 256 True (PyStr ex) = Inr ex"
  shows "mk_journal_snapshot sha fr (PyStr ex) (map_option Inl hw) (Inl es) (PyStr d) = Inr s \<longleftrightarrow>
    snapshot_ok sha fr s \<and> s = \<lparr>js_execution_id = ex, js_high_water = hw, js_events = es, js_sha256 = d\<rparr>"
  unfolding mk_instances validate_instances [OF assms(1)] using assms by (auto simp: snapshot_ok_def)

lemma required_text_strip: "required_text n m i v = Inr t \<Longrightarrow> \<exists>s. v = PyStr s \<and> t = py_strip s"
  by (auto simp: required_text_def Let_def split: pyval.splits if_splits)

lemma mk_snapshot_ok:
  assumes "mk_journal_snapshot sha fr v (map_option Inl hw) (Inl es) d = Inr s" "events_ok es"
  shows "snapshot_ok sha fr s"
proof -
  from assms(1) [unfolded mk_instances] obtain ex t where ex: "required_text ''execution_id'' 256 True v = Inr ex"
      and s: "d = PyStr t" "s = \<lparr>js_execution_id = ex, js_high_water = hw, js_events = es, js_sha256 = t\<rparr>"
      and checks: "prefix_error ex es = None" "hw = high_water_of es" "is_sha256 t"
        "t = snapshot_digest sha ex (high_water_of es) (map (journal_event_sha256 sha) es)"
      and fits: "validate_snapshot_resource fr v (cursor_field (map_option Inl hw)) (map event_obj es) d = Inr ()" by blast
  obtain r where r: "v = PyStr r" "ex = py_strip r" using required_text_strip [OF ex] by blast
  have "snapshot_fits fr s"
    using fits unfolding r(1) s(1) validate_instances [OF assms(2)] unfolding s(2) r(2) by (rule fits_smaller [OF strip_bytes order_refl])
  moreover have "required_text ''execution_id'' 256 True (PyStr ex) = Inr ex" using ex by (rule required_text_normal)
  ultimately show ?thesis using checks(1,3,4) assms(2) unfolding snapshot_ok_def s(2) checks(2) by simp
qed

lemma event_cursor_of_ok:
  assumes "journal_event_ok e"
  shows "event_cursor_ok (event_cursor_of e)"
proof -
  obtain v where "required_text ''event_id'' 256 True v = Inr (ev_event_id e)" "1 \<le> ev_store_seq e"
    using assms by (auto simp: journal_event_ok_def append_request_ok_def mk_append_request_def bindr_eq_Inr case_PyDict_Inr)
  then show ?thesis
    using required_text_normal by (simp add: event_cursor_ok_def event_cursor_of_def mk_event_cursor_def bounded_int_def)
qed

lemma high_water_ok: "\<lbrakk>events_ok es; es \<noteq> []\<rbrakk> \<Longrightarrow> event_cursor_ok (event_cursor_of (last es))"
  by (simp add: event_cursor_of_ok)

interpretation journal_snapshot: record_codec journal_snapshot_to_dict "journal_snapshot_from_dict sha fr" "snapshot_ok sha fr"
  for sha :: "blob \<Rightarrow> string" and fr
proof
  fix s :: journal_snapshot
  assume ok: "snapshot_ok sha fr s"
  let ?es = "js_events s"
  have es: "events_ok ?es" and ex: "required_text ''execution_id'' 256 True (PyStr (js_execution_id s)) = Inr (js_execution_id s)"
    and hw: "js_high_water s = high_water_of ?es"
    using ok by (simp_all add: snapshot_ok_def)
  have fits: "validate_snapshot_resource fr (PyStr (js_execution_id s)) (cursor_value (js_high_water s))
      (map journal_event_to_dict ?es) (PyStr (js_sha256 s)) = Inr ()"
    unfolding validate_encoded [OF es] using conjunct1 [OF ok [unfolded snapshot_ok_def]] by (cases s) simp
  have dec: "mapr journal_event_from_dict (map journal_event_to_dict ?es) = Inr ?es"
    using es by (simp add: mapr_map mapr_id journal_event.round_trip)
  have cur: "high_water_from (cursor_value (js_high_water s)) = Inr (map_option Inl (js_high_water s))"
    using high_water_ok [OF es] event_cursor.round_trip [of "event_cursor_of (last ?es)"]
    by (auto simp: high_water_from_def hw high_water_of_def cursor_value_def)
  have mk: "mk_journal_snapshot sha fr (PyStr (js_execution_id s)) (map_option Inl (js_high_water s)) (Inl ?es) (PyStr (js_sha256 s)) = Inr s"
    unfolding mk_snapshot_iff [OF es ex] using ok by simp
  show "journal_snapshot_from_dict sha fr (journal_snapshot_to_dict s) = Inr s"
    using fits dec cur mk by (simp add: journal_snapshot_from_dict_def journal_snapshot_to_dict_def dget_def py_eq_refl)
next
  fix v s
  assume "journal_snapshot_from_dict sha fr v = Inr s"
  then obtain xs es ex w hw dg where es: "mapr journal_event_from_dict xs = Inr es"
      and w: "high_water_from w = Inr hw"
      and mk: "mk_journal_snapshot sha fr ex hw (Inl es) dg = Inr s"
    unfolding journal_snapshot_from_dict_def case_PyDict_Inr case_PyList_Inr if_Inl_Inr bindr_eq_Inr by (elim exE conjE)
  have "hw = map_option Inl (map_option projl hw)" using w by (auto simp: high_water_from_def bindr_eq_Inr split: if_splits)
  have "events_ok es" using es by (auto simp: mapr_Inr list_all2_conv_all_nth in_set_conv_nth) (blast intro: journal_event.decoded_ok)
  then show "snapshot_ok sha fr s" using mk mk_snapshot_ok [of sha fr ex "map_option projl hw"] \<open>hw = _\<close> by metis
qed

subsection \<open>Capturing a log\<close>

definition snapshot_of :: "(blob \<Rightarrow> string) \<Rightarrow> string \<Rightarrow> journal_event list \<Rightarrow> journal_snapshot" where
  "snapshot_of sha ex es = \<lparr>js_execution_id = ex, js_high_water = high_water_of es, js_events = es,
     js_sha256 = snapshot_digest sha ex (high_water_of es) (map (journal_event_sha256 sha) es)\<rparr>"

lemma capture_journal_snapshot_iff:
  assumes es: "events_ok es" and ex: "required_text ''execution_id'' 256 True (PyStr ex) = Inr ex"
    and sha: "\<And>b. is_sha256 (sha b)" and prefix: "prefix_error ex es = None"
  shows "capture_journal_snapshot sha fr (PyStr ex) es = Inr s \<longleftrightarrow> s = snapshot_of sha ex es \<and> snapshot_fits fr s"
proof -
  let ?d = "snapshot_digest sha ex (high_water_of es) (map (journal_event_sha256 sha) es)"
  have hw: "(if es = [] then Inr None
      else bindr (mk_event_cursor (PyInt (ev_store_seq (last es))) (PyStr (ev_event_id (last es)))) (\<lambda>c. Inr (Some c))) = Inr (high_water_of es)"
    using high_water_ok [OF es] by (auto simp: high_water_of_def event_cursor_ok_def event_cursor_of_def)
  have d: "is_sha256 ?d" by (simp add: snapshot_digest_def sha)
  have "is_sha256 (replicate 64 (CHR ''0''))" by (simp add: is_sha256_def list_all_iff)
  then have same: "text_bytes (json_str (replicate 64 (CHR ''0''))) = text_bytes (json_str ?d)" using d by (simp only: digest_bytes)
  have zero: "snapshot_fits fr \<lparr>js_execution_id = ex, js_high_water = high_water_of es, js_events = es, js_sha256 = replicate 64 (CHR ''0'')\<rparr>
      \<longleftrightarrow> snapshot_fits fr (snapshot_of sha ex es)"
    unfolding snapshot_of_def by (rule iffI; erule fits_smaller [OF order_refl, rotated]) (simp_all only: same)
  have ok: "snapshot_ok sha fr (snapshot_of sha ex es) \<longleftrightarrow> snapshot_fits fr (snapshot_of sha ex es)"
    using es ex prefix d by (simp add: snapshot_ok_def snapshot_of_def)
  have "snapshot_fits fr (snapshot_of sha ex es) \<Longrightarrow> int (length es) \<le> max_items journal_snapshot_limits"
    by (simp add: snapshot_fits_def snapshot_of_def journal_snapshot_limits_def)
  then show ?thesis
    unfolding capture_journal_snapshot_def ex hw bindr_simps bindr_eq_Inr validate_instances [OF es] mk_snapshot_iff [OF es ex]
      snapshot_of_def [symmetric] zero
    using ok zero by (auto simp: enforce_item_limit_def validate_instances [OF es])
qed

lemma log_prefix: "log_ok ex es \<Longrightarrow> events_ok es \<and> prefix_error ex es = None"
  by (simp add: log_ok_def prefix_error_None)

lemma decode_rows_log:
  assumes "holds_log sha ex db es"
  shows "bindt (decode_rows sha ex (map (event_row_of sha ex) es)) f db = f es db"
  using event_from_row_of [OF assms] by (simp add: decode_rows_def tx_simps mapr_map mapr_id)

lemma holds_sorted:
  assumes "holds_log sha ex db es"
  shows "sort_key ew_store_seq (filter (\<lambda>r. ew_execution_id r = ex) (db_events db)) = map (event_row_of sha ex) es"
  using log_sorted [of ex es] assms by (simp add: holds_log_def sort_key_id_if_sorted comp_def)

definition log_bytes :: "(rat \<Rightarrow> string) \<Rightarrow> journal_event list \<Rightarrow> int" where
  "log_bytes fr es = text_bytes (compact_json fr (canonical (PyList (map journal_event_to_dict es))))"

text \<open>
  The snapshot of an execution: within the limits, exactly the log with its high-water mark and its
  digest, and otherwise nothing.
\<close>
theorem snapshot_captures_the_whole_log:
  assumes "holds_log sha ex db es" "required_text ''execution_id'' 256 True (PyStr ex) = Inr ex" "\<forall>b. is_sha256 (sha b)"
  shows "capture_snapshot sha fr ex n m db = Inr s \<longleftrightarrow>
    s = snapshot_of sha ex es \<and> snapshot_fits fr s \<and> int (length es) \<le> n \<and> sql_range (n + 1) \<and> log_bytes fr es \<le> m"
proof -
  have log: "log_ok ex es" using assms(1) by (simp add: holds_log_def)
  have cap: "capture_journal_snapshot sha fr (PyStr ex) es = Inr s \<longleftrightarrow> s = snapshot_of sha ex es \<and> snapshot_fits fr s"
    using capture_journal_snapshot_iff [of es ex sha fr s] log_prefix [OF log] assms(2,3) by simp
  have pos: "0 \<le> log_bytes fr es" unfolding log_bytes_def by (rule text_bytes_nonneg)
  have body: "snapshot_with_connection sha fr ex n m db =
      (if log_bytes fr es > m then Inl (journal_repository ''journal snapshot byte limit exceeded'')
       else bindr (capture_journal_snapshot sha fr (PyStr ex) es) (\<lambda>s. Inr (s, db)))"
    if "0 \<le> m" "sql_range (n + 1)" "int (length es) \<le> n"
    unfolding snapshot_with_connection_def nonnegative_int_def tx_simps holds_sorted [OF assms(1)] log_bytes_def
    using that by (simp add: decode_rows_log [OF assms(1)] tx_simps del: canonical.simps compact_json.simps)
  have "\<not> is_ok (snapshot_with_connection sha fr ex n m db)" if "m < 0 \<or> \<not> sql_range (n + 1) \<or> n < int (length es)"
    unfolding snapshot_with_connection_def nonnegative_int_def tx_simps holds_sorted [OF assms(1)]
    using that by (auto simp: tx_simps split: if_splits)
  with body show ?thesis
    using cap pos by (cases "0 \<le> m \<and> sql_range (n + 1) \<and> int (length es) \<le> n")
      (auto simp: capture_snapshot_def transaction_def is_ok_iff bindr_def split: sum.splits prod.splits)
qed

subsection \<open>What the digest identifies\<close>

definition event_blob :: "journal_event \<Rightarrow> blob" where
  "event_blob e = canonical_json_bytes (journal_event_to_dict e)"

definition snapshot_blob :: "(blob \<Rightarrow> string) \<Rightarrow> journal_snapshot \<Rightarrow> blob" where
  "snapshot_blob sha s = canonical_json_bytes (PyDict
     [(''domain'', PyStr ''unchain.journal_snapshot.v1''), (''execution_id'', PyStr (js_execution_id s)),
      (''high_water'', cursor_value (js_high_water s)),
      (''event_sha256s'', PyList (map (\<lambda>e. PyStr (sha (event_blob e))) (js_events s)))])"

text \<open>Everything that is hashed for a snapshot.\<close>

definition hashed :: "(blob \<Rightarrow> string) \<Rightarrow> journal_snapshot \<Rightarrow> blob set" where
  "hashed sha s = insert (snapshot_blob sha s) (event_blob ` set (js_events s))"

lemma snapshot_sha: "snapshot_ok sha fr s \<Longrightarrow> js_sha256 s = sha (snapshot_blob sha s)"
  by (simp add: snapshot_ok_def snapshot_digest_def snapshot_blob_def journal_event_sha256_def event_blob_def comp_def)

lemma snapshot_blob_inject:
  assumes "snapshot_blob sha s = snapshot_blob sha t"
  shows "js_execution_id s = js_execution_id t"
    and "map (\<lambda>e. sha (event_blob e)) (js_events s) = map (\<lambda>e. sha (event_blob e)) (js_events t)"
proof -
  have get: "dict_get (canon_dict d) k = dict_get (canon_dict e) k" if "canonical_json_bytes (PyDict d) = canonical_json_bytes (PyDict e)" for d e k
    using that by (simp add: canonical_json_bytes_def canonical_PyDict)
  note eq = get [OF assms [unfolded snapshot_blob_def], unfolded dict_get_canon]
  show "js_execution_id s = js_execution_id t" using eq [of "''execution_id''"] by simp
  have "map PyStr (map (\<lambda>e. sha (event_blob e)) (js_events s)) = map PyStr (map (\<lambda>e. sha (event_blob e)) (js_events t))"
    using eq [of "''event_sha256s''"] by (simp add: comp_def)
  then show "map (\<lambda>e. sha (event_blob e)) (js_events s) = map (\<lambda>e. sha (event_blob e)) (js_events t)"
    by (rule map_injective) (simp add: inj_def)
qed

text \<open>
  Two different valid snapshots with the same digest contain a collision of the hash function among the
  texts that were hashed for them.
\<close>
theorem equal_digests_equal_snapshots:
  assumes "snapshot_ok sha fr s" "snapshot_ok sha fr t" "js_sha256 s = js_sha256 t" "s \<noteq> t"
  shows "\<exists>a \<in> hashed sha s. \<exists>b \<in> hashed sha t. a \<noteq> b \<and> sha a = sha b"
proof (rule ccontr)
  assume none: "\<not> ?thesis"
  then have inj: "\<lbrakk>a \<in> hashed sha s; b \<in> hashed sha t; sha a = sha b\<rbrakk> \<Longrightarrow> a = b" for a b by blast
  have blob: "snapshot_blob sha s = snapshot_blob sha t"
    by (rule inj) (use assms(1-3) snapshot_sha in \<open>auto simp: hashed_def\<close>)
  have es: "events_ok (js_events s)" "events_ok (js_events t)" using assms(1,2) by (auto simp: snapshot_ok_def)
  have len: "length (js_events s) = length (js_events t)"
    using arg_cong [OF snapshot_blob_inject(2) [OF blob], of length] by simp
  have "js_events s = js_events t"
  proof (rule nth_equalityI [OF len])
    fix i
    assume i: "i < length (js_events s)"
    have "sha (event_blob (js_events s ! i)) = sha (event_blob (js_events t ! i))"
      using arg_cong [OF snapshot_blob_inject(2) [OF blob], of "\<lambda>xs. xs ! i"] i len by simp
    then have "event_blob (js_events s ! i) = event_blob (js_events t ! i)" using i len by (intro inj) (auto simp: hashed_def)
    then show "js_events s ! i = js_events t ! i"
      using journal_event.canonical_inject [of "js_events s ! i" "js_events t ! i"] es i len
      by (simp add: event_blob_def canonical_json_bytes_def)
  qed
  then have "s = t" using snapshot_blob_inject(1) [OF blob] assms(1-3) by (cases s, cases t) (simp add: snapshot_ok_def)
  with assms(4) show False by blast
qed

text \<open>A bound that is easier to evaluate.\<close>

fun rough_bytes :: "(rat \<Rightarrow> string) \<Rightarrow> pyval \<Rightarrow> int" where
  "rough_bytes fr (PyList xs) = 2 + (\<Sum>x \<leftarrow> xs. 1 + rough_bytes fr x)"
| "rough_bytes fr (PyDict d) = 2 + (\<Sum>p \<leftarrow> d. 4 + 6 * int (length (fst p)) + rough_bytes fr (snd p))"
| "rough_bytes fr (PyStr s) = 2 + 6 * int (length s)"
| "rough_bytes fr v = text_bytes (compact_json fr v)"

lemma json_str_rough: "text_bytes (json_str s) \<le> 2 + 6 * int (length s)"
proof -
  have "char_bytes c \<le> 6" for c by (simp add: char_bytes_code Let_def)
  then have "(\<Sum>c \<leftarrow> s. char_bytes c) \<le> 6 * int (length s)" by (induction s) (simp_all add: add_mono)
  then show ?thesis by (simp add: text_bytes_json_str)
qed

lemma compact_json_rough: "text_bytes (compact_json fr v) \<le> rough_bytes fr v"
proof (induction v rule: rough_bytes.induct)
  case (1 fr xs)
  have "container_bytes xs + (\<Sum>x \<leftarrow> xs. text_bytes (compact_json fr x)) \<le> 2 + (\<Sum>x \<leftarrow> xs. 1 + text_bytes (compact_json fr x))"
    by (simp add: container_bytes_def sum_list_addf sum_list_triv)
  also have "\<dots> \<le> 2 + (\<Sum>x \<leftarrow> xs. 1 + rough_bytes fr x)" using 1 by (simp add: sum_list_mono)
  finally show ?case by (simp add: container_text_bytes del: compact_json.simps)
next
  case (2 fr d)
  have "container_bytes d + (\<Sum>p \<leftarrow> d. text_bytes (json_str (fst p)) + 1 + text_bytes (compact_json fr (snd p))) \<le>
      2 + (\<Sum>p \<leftarrow> d. 1 + (text_bytes (json_str (fst p)) + 1 + text_bytes (compact_json fr (snd p))))"
    by (simp add: container_bytes_def sum_list_addf sum_list_triv)
  also have "(\<Sum>p \<leftarrow> d. 1 + (text_bytes (json_str (fst p)) + 1 + text_bytes (compact_json fr (snd p)))) \<le>
      (\<Sum>p \<leftarrow> d. 4 + 6 * int (length (fst p)) + rough_bytes fr (snd p))"
  proof (rule sum_list_mono)
    fix p
    assume "p \<in> set d"
    then show "1 + (text_bytes (json_str (fst p)) + 1 + text_bytes (compact_json fr (snd p))) \<le>
        4 + 6 * int (length (fst p)) + rough_bytes fr (snd p)"
      using 2 [of p] json_str_rough [of "fst p"] by linarith
  qed
  finally show ?case by (simp add: container_text_bytes del: compact_json.simps)
qed (simp_all add: json_str_rough)

lemma sum_sort_key: "(\<Sum>x \<leftarrow> sort_key k xs. f x) = ((\<Sum>x \<leftarrow> xs. f x) :: int)"
proof (induction xs)
  case (Cons x xs)
  have "(\<Sum>y \<leftarrow> insort_key k x ys. f y) = f x + (\<Sum>y \<leftarrow> ys. f y)" for ys by (induction ys) simp_all
  then show ?case using Cons by simp
qed simp

lemma rough_canonical: "rough_bytes fr (canonical v) = rough_bytes fr v"
proof (induction v rule: canonical.induct)
  case (1 d)
  then show ?case
    by (simp add: canonical.simps(1) sum_sort_key comp_def) (auto intro!: arg_cong [where f = sum_list])
next
  case (2 xs)
  then show ?case by (simp add: comp_def) (auto intro!: arg_cong [where f = sum_list])
qed simp_all

definition roughly_fits :: "(rat \<Rightarrow> string) \<Rightarrow> journal_snapshot \<Rightarrow> bool" where
  "roughly_fits fr s \<longleftrightarrow> length (js_events s) \<le> 10000 \<and> json_value (journal_snapshot_to_dict s) \<and>
     node_count (journal_snapshot_to_dict s) \<le> 1000000 \<and> within_depth 64 (journal_snapshot_to_dict s) \<and>
     rough_bytes fr (journal_snapshot_to_dict s) \<le> 33554432"

lemma roughly_fits: "roughly_fits fr s \<Longrightarrow> snapshot_fits fr s"
  using compact_json_rough [of fr "journal_snapshot_to_dict s"]
  by (auto simp: roughly_fits_def snapshot_fits_def resource_fits_def journal_snapshot_limits_def)

lemma log_bytes_rough: "log_bytes fr es \<le> rough_bytes fr (PyList (map journal_event_to_dict es))"
  unfolding log_bytes_def using compact_json_rough [of fr "canonical (PyList (map journal_event_to_dict es))"]
  by (simp only: rough_canonical)

lemma empty_snapshot_ok:
  assumes "ex \<in> {''exec-1'', ''exec-2''}"
  shows "snapshot_ok zero_digest (\<lambda>q. []) (snapshot_of zero_digest ex [])"
proof -
  have "required_text ''execution_id'' 256 True (PyStr ex) = Inr ex" using assms by (auto simp: required_text_def, code_simp+)
  moreover have "snapshot_fits (\<lambda>q. []) (snapshot_of zero_digest ex [])"
    by (rule roughly_fits) (use assms in auto, code_simp+)
  ultimately show ?thesis by (simp add: snapshot_ok_def snapshot_of_def prefix_error_None snapshot_digest_def zero_digest_sha256)
qed

theorem equal_digests_equal_snapshots_witness:
  "\<exists>a \<in> hashed zero_digest (snapshot_of zero_digest ''exec-1'' []). \<exists>b \<in> hashed zero_digest (snapshot_of zero_digest ''exec-2'' []).
     a \<noteq> b \<and> zero_digest a = zero_digest b"
  by (rule equal_digests_equal_snapshots [of _ "\<lambda>q. []"])
    (simp_all add: empty_snapshot_ok, simp_all add: snapshot_of_def snapshot_digest_def zero_digest_def)

theorem snapshot_captures_the_whole_log_witness:
  "capture_snapshot zero_digest (\<lambda>q. []) ''exec-1'' 10 10000 (snd (append_event zero_digest ''exec-1'' (demo_request ''call-1'') empty_db)) =
     Inr (snapshot_of zero_digest ''exec-1'' [event_of (demo_request ''call-1'') 1])"
proof -
  have s: "gr_execution_id (at_generation (rq_attempt (demo_request ''call-1''))) = ''exec-1''"
    by (simp add: demo_request_def demo_attempt_def)
  have h: "holds_log zero_digest ''exec-1'' (snd (append_event zero_digest ''exec-1'' (demo_request ''call-1'') empty_db)) [event_of (demo_request ''call-1'') 1]"
    using append_event_spec [OF empty_db_holds demo_request_ok(1) s prod.collapse [symmetric] demo_log_append [folded demo_other [of "''exec-1''"]]]
    by simp
  have "required_text ''execution_id'' 256 True (PyStr ''exec-1'') = Inr ''exec-1''" by code_simp
  moreover have "snapshot_fits (\<lambda>q. []) (snapshot_of zero_digest ''exec-1'' [event_of (demo_request ''call-1'') 1])"
    by (rule roughly_fits) code_simp
  moreover have "log_bytes (\<lambda>q. []) [event_of (demo_request ''call-1'') 1] \<le> 10000" by (rule order_trans [OF log_bytes_rough]) code_simp
  moreover have "sql_range (10 + 1)" by code_simp
  ultimately show ?thesis using snapshot_captures_the_whole_log [OF h, of "\<lambda>q. []" 10 10000] zero_digest_sha256 by simp
qed

end
