(* ===== verification/SqlArtifacts.thy ===== *)
theory SqlArtifacts
  imports Snapshot SqlLeases
begin

section \<open>Artifacts of the durable store\<close>

text \<open>
  The artifacts of \<open>persistence/sqlite_v2.py\<close>: a descriptor row per artifact, a row per object and
  one file per object, named by the SHA-256 of its content. Files are written during a transaction
  but do not take part in it: a transaction that fails leaves the files it installed behind.

  Bytes are strings, a directory of objects is a map from digests to contents. A file is linked into
  place in one step, or found there when another writer was first; failures of the disk are not
  modelled. Content that is not \<open>bytes\<close> is excluded by typing.

  The theory shows that an artifact once stored is readable, with the recorded digest and length, in
  every later state of the store, that an event and its artifacts are stored together or not at
  all, that repeating a write changes nothing, and that journal and leases are not disturbed.
\<close>

subsection \<open>Objects\<close>

type_synonym files = "string \<rightharpoonup> string"

definition object_path :: "string \<Rightarrow> (py_exc, string) res" where
  "object_path digest = (if is_sha256 digest then Inr digest else Inl (store_integrity ''object digest is not canonical''))"

definition read_object :: "(blob \<Rightarrow> string) \<Rightarrow> string \<Rightarrow> int \<Rightarrow> files \<Rightarrow> (py_exc, string) res" where
  "read_object sha digest n fs =
     bindr (object_path digest) (\<lambda>path.
       case fs path of
         None \<Rightarrow> Inl (store_integrity ''artifact object is missing or unreadable'')
       | Some content \<Rightarrow>
           if int (length content) \<noteq> n \<or> sha (Octets content) \<noteq> digest
           then Inl (store_integrity ''artifact object length or digest changed'') else Inr content)"

text \<open>\<open>os.link\<close> keeps a file that is already there.\<close>

definition link_object :: "string \<Rightarrow> string \<Rightarrow> files \<Rightarrow> files" where
  "link_object path content fs = (if fs path = None then fs(path \<mapsto> content) else fs)"

definition install_object :: "(blob \<Rightarrow> string) \<Rightarrow> string \<Rightarrow> files \<Rightarrow> (py_exc, string \<times> int) res \<times> files" where
  "install_object sha content fs =
     (let digest = sha (Octets content); n = int (length content) in
      case object_path digest of
        Inl e \<Rightarrow> (Inl e, fs)
      | Inr path \<Rightarrow>
          (let fs' = (if fs path \<noteq> None then fs else link_object path content fs) in
           (bindr (read_object sha digest n fs') (\<lambda>_. Inr (digest, n)), fs')))"

subsection \<open>Transactions that install files\<close>

type_synonym 'a ftx = "store_db \<Rightarrow> files \<Rightarrow> (py_exc, 'a \<times> store_db) res \<times> files"

definition bindf :: "'a ftx \<Rightarrow> ('a \<Rightarrow> 'b ftx) \<Rightarrow> 'b ftx" where
  "bindf m f db fs = (case m db fs of (Inl e, fs') \<Rightarrow> (Inl e, fs') | (Inr (x, db'), fs') \<Rightarrow> f x db' fs')"

definition liftf :: "'a tx \<Rightarrow> 'a ftx" where
  "liftf m db fs = (m db, fs)"

definition on_files :: "(files \<Rightarrow> (py_exc, 'a) res \<times> files) \<Rightarrow> 'a ftx" where
  "on_files g db fs = (case g fs of (r, fs') \<Rightarrow> (bindr r (\<lambda>x. Inr (x, db)), fs'))"

definition ftransaction :: "(py_exc \<Rightarrow> py_exc) \<Rightarrow> 'a ftx \<Rightarrow> store_db \<Rightarrow> files \<Rightarrow> (py_exc, 'a) res \<times> store_db \<times> files" where
  "ftransaction handler body db fs =
     (case body db fs of (Inl e, fs') \<Rightarrow> (Inl (handler e), db, fs') | (Inr (x, db'), fs') \<Rightarrow> (Inr x, db', fs'))"

subsection \<open>Descriptors\<close>

definition artifact_id :: "(blob \<Rightarrow> string) \<Rightarrow> string \<Rightarrow> string \<Rightarrow> string \<Rightarrow> string" where
  "artifact_id sha ex kind key =
     ''artifact-'' @ sha (canonical_json_bytes (PyDict
       [(''execution_id'', PyStr ex), (''logical_kind'', PyStr kind), (''logical_key'', PyStr key)]))"

definition artifact_id_for :: "(blob \<Rightarrow> string) \<Rightarrow> string \<Rightarrow> pyval \<Rightarrow> pyval \<Rightarrow> (py_exc, string) res" where
  "artifact_id_for sha ex kind key =
     bindr (required_text ''logical_kind'' 256 False kind) (\<lambda>k.
     bindr (required_text ''logical_key'' 256 False key) (\<lambda>l. Inr (artifact_id sha ex k l)))"

definition artifact_from_row :: "(blob \<Rightarrow> string) \<Rightarrow> artifact_row \<Rightarrow> (py_exc, artifact_ref) res" where
  "artifact_from_row sha r =
     (if sha (aw_artifact_json r) \<noteq> aw_record_sha256 r then Inl (store_integrity ''artifact descriptor digest changed'')
      else case json_loads (aw_artifact_json r) of
        None \<Rightarrow> Inl (store_integrity ''artifact descriptor is malformed'')
      | Some decoded \<Rightarrow>
          (case artifact_ref_from_dict decoded of
             Inl _ \<Rightarrow> Inl (store_integrity ''artifact descriptor is malformed'')
           | Inr a \<Rightarrow>
               if canonical_json_bytes (artifact_ref_to_dict a) \<noteq> aw_artifact_json r
               then Inl (store_integrity ''artifact descriptor is not canonical'')
               else if rr_resource_id (ar_ref a) \<noteq> aw_artifact_id r \<or> rr_revision (ar_ref a) \<noteq> aw_revision r \<or>
                       ar_sha256 a \<noteq> aw_object_sha256 r \<or> ar_media_type a \<noteq> aw_media_type r \<or>
                       ar_byte_length a \<noteq> aw_byte_length r \<or> ar_preview a \<noteq> aw_preview r
               then Inl (store_integrity ''artifact indexed metadata changed'') else Inr a))"

definition artifact_by_operation :: "(blob \<Rightarrow> string) \<Rightarrow> string \<Rightarrow> string \<Rightarrow> artifact_ref tx" where
  "artifact_by_operation sha ex opid =
     bindt (select (\<lambda>db. find (\<lambda>r. aw_execution_id r = ex \<and> aw_operation_id r = opid) (db_artifacts db))) (\<lambda>found.
       case found of
         None \<Rightarrow> raise (store_integrity ''artifact operation has no descriptor'')
       | Some r \<Rightarrow> lift_res (artifact_from_row sha r))"

subsection \<open>Writing\<close>

definition insert_object :: "string \<Rightarrow> int \<Rightarrow> unit tx" where
  "insert_object digest n =
     bindt (bind_int n) (\<lambda>_.
       update_db (\<lambda>db. if map_of (db_objects db) digest = None \<and> n \<ge> 0
                       then db\<lparr>db_objects := db_objects db @ [(digest, n)]\<rparr> else db))"

definition artifact_clash :: "artifact_row \<Rightarrow> artifact_row \<Rightarrow> bool" where
  "artifact_clash r q = (aw_execution_id r = aw_execution_id q \<and>
     (aw_artifact_id r = aw_artifact_id q \<and> aw_revision r = aw_revision q \<or>
      aw_logical_kind r = aw_logical_kind q \<and> aw_logical_key r = aw_logical_key q \<and> aw_revision r = aw_revision q \<or>
      aw_operation_id r = aw_operation_id q))"

definition insert_artifact :: "artifact_row \<Rightarrow> unit tx" where
  "insert_artifact r =
     bindt (bind_int (aw_byte_length r)) (\<lambda>_.
     bindt (require (aw_revision r \<ge> 1 \<and> aw_byte_length r \<ge> 0) ''CHECK constraint failed: artifacts'') (\<lambda>_.
     bindt (select (\<lambda>db. \<exists>q \<in> set (db_artifacts db). artifact_clash r q)) (\<lambda>clash.
     bindt (require (\<not> clash) ''UNIQUE constraint failed: artifacts'') (\<lambda>_.
     bindt (select (\<lambda>db. has_execution db (aw_execution_id r) \<and> map_of (db_objects db) (aw_object_sha256 r) \<noteq> None \<and>
         operation_row (aw_execution_id r) (aw_operation_id r) db \<noteq> None)) (\<lambda>known.
     bindt (require known ''FOREIGN KEY constraint failed'') (\<lambda>_.
       update_db (\<lambda>db. db\<lparr>db_artifacts := db_artifacts db @ [r]\<rparr>)))))))"

definition artifact_row_of ::
  "(blob \<Rightarrow> string) \<Rightarrow> string \<Rightarrow> string \<Rightarrow> string \<Rightarrow> string \<Rightarrow> artifact_ref \<Rightarrow> artifact_row" where
  "artifact_row_of sha ex kind key opid a =
     (let json = canonical_json_bytes (artifact_ref_to_dict a) in
      \<lparr>aw_execution_id = ex, aw_artifact_id = rr_resource_id (ar_ref a), aw_revision = rr_revision (ar_ref a),
       aw_logical_kind = kind, aw_logical_key = key, aw_object_sha256 = ar_sha256 a, aw_media_type = ar_media_type a,
       aw_byte_length = ar_byte_length a, aw_preview = ar_preview a, aw_operation_id = opid,
       aw_artifact_json = json, aw_record_sha256 = sha json\<rparr>)"

text \<open>The statements of a new artifact, after its object is installed.\<close>

definition store_artifact ::
  "(blob \<Rightarrow> string) \<Rightarrow> string \<Rightarrow> operation_ref \<Rightarrow> string \<Rightarrow> string \<Rightarrow> string \<Rightarrow> string \<Rightarrow> string \<times> int \<Rightarrow> (string \<Rightarrow> py_exc) \<Rightarrow>
   artifact_ref tx" where
  "store_artifact sha ex opr kind key media preview obj conflict =
     (let aid = artifact_id sha ex kind key in
     bindt (lift_res (bindr (mk_resource_ref (PyStr ''artifact'') (PyStr aid) (PyInt 1) (PyStr [])) (\<lambda>ref.
         mk_artifact_ref (Inl ref) (PyStr media) (PyInt (snd obj)) (PyStr (fst obj)) (PyStr preview)))) (\<lambda>a.
     bindt (claim_operation ex opr kind (aid @ ''@1'') conflict) (\<lambda>_.
     bindt (select (\<lambda>db. map_of (db_objects db) (fst obj))) (\<lambda>known.
       if known \<noteq> None \<and> known \<noteq> Some (snd obj) then raise (store_integrity ''object metadata byte length changed'') else
     bindt (insert_object (fst obj) (snd obj)) (\<lambda>_.
     bindt (insert_artifact (artifact_row_of sha ex kind key (op_operation_id opr) a)) (\<lambda>_. ret a))))))"

definition replayed_artifact ::
  "(blob \<Rightarrow> string) \<Rightarrow> string \<Rightarrow> operation_ref \<Rightarrow> operation_row \<Rightarrow> string \<Rightarrow> string \<Rightarrow> string \<Rightarrow> string \<Rightarrow> string \<times> int \<Rightarrow>
   (string \<Rightarrow> py_exc) \<Rightarrow> artifact_ref tx" where
  "replayed_artifact sha ex opr p kind key media preview obj conflict =
     (if ow_payload_sha256 p \<noteq> op_payload_sha256 opr \<or> ow_target_kind p \<noteq> kind \<or>
         ow_target_key p \<noteq> artifact_id sha ex kind key @ ''@1''
      then raise (conflict ''artifact operation payload or target changed'')
      else bindt (artifact_by_operation sha ex (op_operation_id opr)) (\<lambda>a.
        if ar_media_type a \<noteq> media \<or> ar_byte_length a \<noteq> snd obj \<or> ar_sha256 a \<noteq> fst obj \<or> ar_preview a \<noteq> preview
        then raise (conflict ''artifact operation replay changed content'') else ret a))"

text \<open>What the transaction does once the object is installed.\<close>

definition claim_artifact ::
  "(blob \<Rightarrow> string) \<Rightarrow> string \<Rightarrow> operation_ref \<Rightarrow> string \<Rightarrow> string \<Rightarrow> int \<Rightarrow> string \<Rightarrow> string \<Rightarrow> string \<times> int \<Rightarrow> (string \<Rightarrow> py_exc) \<Rightarrow>
   artifact_ref tx" where
  "claim_artifact sha ex opr kind key expected media preview obj conflict =
     bindt (ensure_execution ex) (\<lambda>_.
     bindt (select (operation_row ex (op_operation_id opr))) (\<lambda>previous.
       case previous of
         Some p \<Rightarrow> replayed_artifact sha ex opr p kind key media preview obj conflict
       | None \<Rightarrow>
           if expected \<noteq> 0 then raise (conflict ''artifact CAS expected revision does not exist'') else
           bindt (select (\<lambda>db. \<exists>r \<in> set (db_artifacts db). aw_execution_id r = ex \<and> aw_logical_kind r = kind \<and>
               aw_logical_key r = key \<and> aw_revision r = 1)) (\<lambda>existing.
             if existing then raise (conflict ''artifact logical claim already exists'')
             else store_artifact sha ex opr kind key media preview obj conflict)))"

definition put_artifact_with_connection ::
  "(blob \<Rightarrow> string) \<Rightarrow> string \<Rightarrow> string \<Rightarrow> string \<Rightarrow> operation_ref \<Rightarrow> string \<Rightarrow> string \<Rightarrow> string \<Rightarrow> int \<Rightarrow> (string \<Rightarrow> py_exc) \<Rightarrow>
   artifact_ref ftx" where
  "put_artifact_with_connection sha ex content media opr preview kind key expected conflict =
     bindf (liftf (lift_res (nonnegative_int ''expected_revision'' expected))) (\<lambda>n.
     bindf (liftf (lift_res (required_text ''media_type'' 255 False (PyStr media)))) (\<lambda>m.
     bindf (liftf (lift_res (if preview = [] then Inr [] else required_text ''preview'' 4096 False (PyStr preview)))) (\<lambda>v.
     bindf (on_files (install_object sha content)) (\<lambda>obj.
       liftf (claim_artifact sha ex opr kind key n m v obj conflict)))))"

definition context_conflict :: "string \<Rightarrow> py_exc" where
  "context_conflict m = DomainExc ''ContextConflictError'' m"

definition put_artifact ::
  "(blob \<Rightarrow> string) \<Rightarrow> string \<Rightarrow> string \<Rightarrow> string \<Rightarrow> operation_ref \<Rightarrow> string \<Rightarrow> string \<Rightarrow> string \<Rightarrow> int \<Rightarrow> (string \<Rightarrow> py_exc) \<Rightarrow>
   store_db \<Rightarrow> files \<Rightarrow> (py_exc, artifact_ref) res \<times> store_db \<times> files" where
  "put_artifact sha ex content media opr preview kind key expected conflict =
     ftransaction (catch_integrity (conflict ''artifact operation or claim conflicted''))
       (put_artifact_with_connection sha ex content media opr preview kind key expected conflict)"

definition put ::
  "(blob \<Rightarrow> string) \<Rightarrow> string \<Rightarrow> string \<Rightarrow> string \<Rightarrow> operation_ref \<Rightarrow> string \<Rightarrow> store_db \<Rightarrow> files \<Rightarrow>
   (py_exc, artifact_ref) res \<times> store_db \<times> files" where
  "put sha ex content media opr preview =
     put_artifact sha ex content media opr preview ''artifact'' (op_operation_id opr) 0 context_conflict"

subsection \<open>Reading\<close>

definition context_scope :: "string \<Rightarrow> py_exc" where
  "context_scope m = DomainExc ''ContextScopeError'' m"

definition load_exact_artifact :: "(blob \<Rightarrow> string) \<Rightarrow> string \<Rightarrow> artifact_ref \<Rightarrow> store_db \<Rightarrow> (py_exc, artifact_ref) res" where
  "load_exact_artifact sha ex a db =
     (if rr_kind (ar_ref a) \<noteq> ''artifact'' \<or> rr_fragment (ar_ref a) \<noteq> []
      then Inl (context_scope ''artifact ref is outside this repository'')
      else fst (transaction id
        (bindt (bind_int (rr_revision (ar_ref a))) (\<lambda>_.
         bindt (select (\<lambda>db. find (\<lambda>r. aw_execution_id r = ex \<and> aw_artifact_id r = rr_resource_id (ar_ref a) \<and>
             aw_revision r = rr_revision (ar_ref a)) (db_artifacts db))) (\<lambda>found.
           case found of
             None \<Rightarrow> raise (context_scope ''artifact does not belong to the bound execution'')
           | Some r \<Rightarrow>
               bindt (lift_res (artifact_from_row sha r)) (\<lambda>stored.
                 if stored \<noteq> a then raise (store_integrity ''artifact descriptor disagrees with durable metadata'') else
               bindt (select (\<lambda>db. map_of (db_objects db) (ar_sha256 stored))) (\<lambda>known.
                 if known \<noteq> Some (ar_byte_length stored)
                 then raise (store_integrity ''artifact object metadata is missing or changed'')
                 else ret stored))))) db))"

definition read_full_verified :: "(blob \<Rightarrow> string) \<Rightarrow> string \<Rightarrow> artifact_ref \<Rightarrow> store_db \<Rightarrow> files \<Rightarrow> (py_exc, string) res" where
  "read_full_verified sha ex a db fs =
     bindr (load_exact_artifact sha ex a db) (\<lambda>stored. read_object sha (ar_sha256 stored) (ar_byte_length stored) fs)"

definition read_verified ::
  "(blob \<Rightarrow> string) \<Rightarrow> string \<Rightarrow> artifact_ref \<Rightarrow> int \<Rightarrow> int \<Rightarrow> store_db \<Rightarrow> files \<Rightarrow> (py_exc, string) res" where
  "read_verified sha ex a offset limit db fs =
     bindr (nonnegative_int ''offset'' offset) (\<lambda>i.
     bindr (nonnegative_int ''limit'' limit) (\<lambda>n.
     bindr (read_full_verified sha ex a db fs) (\<lambda>content. Inr (take (nat n) (drop (nat i) content)))))"

subsection \<open>Events with artifacts\<close>

record pending_artifact =
  pa_content :: string
  pa_media_type :: string
  pa_operation :: operation_ref
  pa_preview :: string

definition mk_pending_artifact ::
  "string \<Rightarrow> pyval \<Rightarrow> operation_ref + pyval \<Rightarrow> pyval \<Rightarrow> (py_exc, pending_artifact) res" where
  "mk_pending_artifact content media opr preview =
     bindr (required_text ''media_type'' 255 False media) (\<lambda>m.
     bindr (as_record operation_ref_from_dict opr) (\<lambda>r.
       case preview of
         PyStr v \<Rightarrow> Inr \<lparr>pa_content = content, pa_media_type = m, pa_operation = r, pa_preview = v\<rparr>
       | _ \<Rightarrow> Inl (TypeExc ''artifact preview must be text'')))"

definition verify_pending_artifact_replay :: "string \<Rightarrow> pending_artifact \<Rightarrow> unit tx" where
  "verify_pending_artifact_replay ex p =
     bindt (select (operation_row ex (op_operation_id (pa_operation p)))) (\<lambda>previous.
       case previous of
         None \<Rightarrow> raise (store_integrity ''replayed event is missing its atomically claimed artifact'')
       | Some r \<Rightarrow>
           if ow_payload_sha256 r \<noteq> op_payload_sha256 (pa_operation p)
           then raise (store_integrity ''replayed event is missing its atomically claimed artifact'') else ret ())"

fun verify_all :: "string \<Rightarrow> pending_artifact list \<Rightarrow> unit tx" where
  "verify_all ex [] = ret ()"
| "verify_all ex (p # ps) = bindt (verify_pending_artifact_replay ex p) (\<lambda>_. verify_all ex ps)"

fun put_all :: "(blob \<Rightarrow> string) \<Rightarrow> string \<Rightarrow> pending_artifact list \<Rightarrow> unit ftx" where
  "put_all sha ex [] = liftf (ret ())"
| "put_all sha ex (p # ps) =
     bindf (put_artifact_with_connection sha ex (pa_content p) (pa_media_type p) (pa_operation p) (pa_preview p) ''artifact''
         (op_operation_id (pa_operation p)) 0 context_conflict) (\<lambda>_. put_all sha ex ps)"

text \<open>The precondition sees a snapshot of the journal and may raise.\<close>

definition append_with_artifacts ::
  "(blob \<Rightarrow> string) \<Rightarrow> (rat \<Rightarrow> string) \<Rightarrow> string \<Rightarrow> append_request \<Rightarrow> pending_artifact list \<Rightarrow>
   (journal_snapshot \<Rightarrow> (py_exc, unit) res) option \<Rightarrow> store_db \<Rightarrow> files \<Rightarrow> (py_exc, append_result) res \<times> store_db \<times> files" where
  "append_with_artifacts sha fr ex q artifacts precondition db fs =
     (case scope_attempt ex (rq_attempt q) journal_scope of
        Inl e \<Rightarrow> (Inl e, db, fs)
      | Inr _ \<Rightarrow>
          ftransaction (catch_integrity (journal_conflict ''journal operation or event conflicted''))
            (bindf (liftf (ensure_execution ex)) (\<lambda>_.
             bindf (liftf (replayed_append sha ex q)) (\<lambda>replayed.
               case replayed of
                 Some x \<Rightarrow> bindf (liftf (verify_all ex artifacts)) (\<lambda>_. liftf (ret x))
               | None \<Rightarrow>
                   bindf (case precondition of
                            None \<Rightarrow> liftf (ret ())
                          | Some check \<Rightarrow> liftf (bindt (snapshot_with_connection sha fr ex 10000 (32 * 1024 * 1024)) (\<lambda>s. lift_res (check s)))) (\<lambda>_.
                   bindf (put_all sha ex artifacts) (\<lambda>_.
                     liftf (append_with_connection sha ex q)))))) db fs)"

subsection \<open>What a body may do\<close>

lemma bindf_Inr:
  "bindf m f db fs = (Inr (y, db''), fs'') \<longleftrightarrow>
     (\<exists>x db' fs'. m db fs = (Inr (x, db'), fs') \<and> f x db' fs' = (Inr (y, db''), fs''))"
  by (auto simp: bindf_def split: prod.splits sum.splits)

lemma liftf_Inr: "liftf m db fs = (Inr (y, db'), fs') \<longleftrightarrow> m db = Inr (y, db') \<and> fs' = fs"
  by (auto simp: liftf_def)

lemma on_files_Inr: "on_files g db fs = (Inr (y, db'), fs') \<longleftrightarrow> g fs = (Inr y, fs') \<and> db' = db"
  by (auto simp: on_files_def bindr_eq_Inr split: prod.splits)

lemmas ftx_simps = bindf_Inr liftf_Inr on_files_Inr

text \<open>A body keeps to a relation on the database when it succeeds, and only adds files in any case.\<close>

definition ftx_keeps :: "(store_db \<Rightarrow> store_db \<Rightarrow> bool) \<Rightarrow> 'a ftx \<Rightarrow> bool" where
  "ftx_keeps R m \<longleftrightarrow> (\<forall>db fs. fs \<subseteq>\<^sub>m snd (m db fs) \<and> (\<forall>x db'. fst (m db fs) = Inr (x, db') \<longrightarrow> R db db'))"

lemma ftx_keeps_bindf:
  assumes "transp R" "ftx_keeps R m" "\<And>x. ftx_keeps R (f x)"
  shows "ftx_keeps R (bindf m f)"
  unfolding ftx_keeps_def
proof (intro allI conjI impI)
  fix db fs
  obtain r fs' where m: "m db fs = (r, fs')" by fastforce
  have le: "fs \<subseteq>\<^sub>m fs'" and R: "\<And>x db'. r = Inr (x, db') \<Longrightarrow> R db db'"
    using assms(2) [unfolded ftx_keeps_def, rule_format, of fs db] m by auto
  show "fs \<subseteq>\<^sub>m snd (bindf m f db fs)"
  proof (cases r)
    case (Inr p)
    then show ?thesis using m le assms(3) [unfolded ftx_keeps_def] by (cases p) (auto simp: bindf_def intro: map_le_trans)
  qed (use m le in \<open>simp add: bindf_def\<close>)
  fix y db''
  assume "fst (bindf m f db fs) = Inr (y, db'')"
  then obtain x db' where "r = Inr (x, db')" "fst (f x db' fs') = Inr (y, db'')" using m by (auto simp: bindf_def split: sum.splits)
  then show "R db db''" using R assms(3) [unfolded ftx_keeps_def] transpD [OF assms(1)] by blast
qed

lemma ftx_keeps_liftf: "tx_keeps R m \<Longrightarrow> ftx_keeps R (liftf m)"
  by (auto simp: ftx_keeps_def liftf_def tx_keeps_def)

lemma ftx_keeps_option:
  "\<lbrakk>ftx_keeps R m; \<And>y. ftx_keeps R (k y)\<rbrakk> \<Longrightarrow> ftx_keeps R (case x of None \<Rightarrow> m | Some y \<Rightarrow> k y)"
  by (simp split: option.split)

lemma install_object_adds: "fs \<subseteq>\<^sub>m snd (install_object sha content fs)"
  by (auto simp: install_object_def Let_def link_object_def map_le_def split: sum.split)

lemma ftx_keeps_install: "reflp R \<Longrightarrow> ftx_keeps R (on_files (install_object sha content))"
  using install_object_adds [of _ sha content] by (auto simp: ftx_keeps_def on_files_def bindr_eq_Inr reflpD split: prod.split)
     (metis snd_conv)

lemma ftransaction_keeps:
  assumes "ftx_keeps R m" "reflp R" "ftransaction h m db fs = (r, db', fs')"
  shows "R db db' \<and> fs \<subseteq>\<^sub>m fs'"
  using assms(1) [unfolded ftx_keeps_def, rule_format, of fs db] assms(2,3)
  by (auto simp: ftransaction_def reflpD split: prod.splits sum.splits)

text \<open>Writing artifacts adds descriptors, objects and operations of its own kind, and nothing else.\<close>

definition adds_artifacts :: "store_db \<Rightarrow> store_db \<Rightarrow> bool" where
  "adds_artifacts db db' \<longleftrightarrow>
     db_events db' = db_events db \<and> db_receipts db' = db_receipts db \<and> db_lease_revisions db' = db_lease_revisions db \<and>
     db_lease_heads db' = db_lease_heads db \<and> db_result_receipts db' = db_result_receipts db \<and>
     (\<forall>ex. filter (\<lambda>p. fst p = ex) (db_executions db') = filter (\<lambda>p. fst p = ex) (db_executions db) \<or>
        filter (\<lambda>p. fst p = ex) (db_executions db) = [] \<and> filter (\<lambda>p. fst p = ex) (db_executions db') = [(ex, 1)]) \<and>
     (\<exists>ops. db_operations db' = db_operations db @ ops \<and> (\<forall>p \<in> set ops. ow_target_kind p \<noteq> ''journal_event'')) \<and>
     (\<exists>rows. db_artifacts db' = db_artifacts db @ rows) \<and> (\<exists>objs. db_objects db' = db_objects db @ objs)"

lemma adds_artifacts_refl: "reflp adds_artifacts"
  by (auto simp: adds_artifacts_def reflp_def)

lemma adds_artifacts_trans: "transp adds_artifacts"
proof (rule transpI)
  fix a b c
  assume ab: "adds_artifacts a b" and bc: "adds_artifacts b c"
  have "filter (\<lambda>p. fst p = ex) (db_executions c) = filter (\<lambda>p. fst p = ex) (db_executions a) \<or>
        filter (\<lambda>p. fst p = ex) (db_executions a) = [] \<and> filter (\<lambda>p. fst p = ex) (db_executions c) = [(ex, 1)]" for ex
    using ab bc unfolding adds_artifacts_def by (metis list.distinct(1))
  then show "adds_artifacts a c" using ab bc unfolding adds_artifacts_def by auto
qed

lemmas artifact_keeps = keeps_bindt [OF adds_artifacts_trans] keeps_pure [OF adds_artifacts_refl]

lemmas artifact_keeps_files = ftx_keeps_bindf [OF adds_artifacts_trans] ftx_keeps_install [OF adds_artifacts_refl]

lemma ensure_execution_adds: "tx_keeps adds_artifacts (ensure_execution ex)"
  unfolding ensure_execution_def by (rule keeps_update) (auto simp: adds_artifacts_def has_execution_filter)

lemma store_artifact_adds:
  assumes "kind \<noteq> ''journal_event''"
  shows "tx_keeps adds_artifacts (store_artifact sha ex opr kind key media preview obj conflict)"
  unfolding store_artifact_def Let_def claim_operation_def insert_operation_def insert_object_def insert_artifact_def
  by (intro artifact_keeps keeps_option keeps_if keeps_update) (use assms in \<open>auto simp: adds_artifacts_def\<close>)

lemma claim_artifact_adds:
  assumes "kind \<noteq> ''journal_event''"
  shows "tx_keeps adds_artifacts (claim_artifact sha ex opr kind key expected media preview obj conflict)"
  unfolding claim_artifact_def replayed_artifact_def artifact_by_operation_def
  by (intro artifact_keeps keeps_option keeps_if store_artifact_adds assms ensure_execution_adds)

lemma put_adds:
  assumes "kind \<noteq> ''journal_event''"
  shows "ftx_keeps adds_artifacts (put_artifact_with_connection sha ex content media opr preview kind key expected conflict)"
  unfolding put_artifact_with_connection_def
  by (intro artifact_keeps_files ftx_keeps_liftf artifact_keeps claim_artifact_adds assms)

lemma put_all_adds: "ftx_keeps adds_artifacts (put_all sha ex ps)"
  by (induction ps) (auto intro!: artifact_keeps_files put_adds ftx_keeps_liftf artifact_keeps)

subsection \<open>Stored artifacts\<close>

lemma lift_res_Inr: "lift_res r db = Inr (x, db') \<longleftrightarrow> r = Inr x \<and> db' = db"
  by (auto simp: lift_res_def bindr_eq_Inr)

lemma select_Inr: "select q db = Inr (x, db') \<longleftrightarrow> x = q db \<and> db' = db"
  by (auto simp: select_def)

lemma ret_Inr: "ret y db = Inr (x, db') \<longleftrightarrow> x = y \<and> db' = db"
  by (auto simp: ret_def)

lemma if_raise_Inr: "(if b then raise e else m) db = Inr p \<longleftrightarrow> \<not> b \<and> m db = Inr p"
  by (simp add: raise_def)

lemma ensure_execution_Inr: "ensure_execution ex db = Inr (u, db') \<longleftrightarrow> db' = ensured ex db"
  by (auto simp: ensure_execution_def update_db_def ensured_def)

lemmas body_Inr = bindt_Inr lift_res_Inr select_Inr ret_Inr if_raise_Inr ensure_execution_Inr

definition artifact_key :: "artifact_row \<Rightarrow> string \<times> string \<times> int" where
  "artifact_key r = (aw_execution_id r, aw_artifact_id r, aw_revision r)"

text \<open>A descriptor is sound when it decodes and the object it names is recorded and on disk.\<close>

definition row_sound :: "(blob \<Rightarrow> string) \<Rightarrow> store_db \<Rightarrow> files \<Rightarrow> artifact_row \<Rightarrow> bool" where
  "row_sound sha db fs r \<longleftrightarrow>
     (\<exists>a. artifact_from_row sha r = Inr a \<and> rr_kind (ar_ref a) = ''artifact'' \<and> rr_fragment (ar_ref a) = [] \<and>
        rr_revision (ar_ref a) = 1) \<and>
     map_of (db_objects db) (aw_object_sha256 r) = Some (aw_byte_length r) \<and> is_sha256 (aw_object_sha256 r) \<and>
     (\<exists>c. fs (aw_object_sha256 r) = Some c \<and> int (length c) = aw_byte_length r \<and> sha (Octets c) = aw_object_sha256 r)"

definition artifacts_ok :: "(blob \<Rightarrow> string) \<Rightarrow> store_db \<Rightarrow> files \<Rightarrow> bool" where
  "artifacts_ok sha db fs \<longleftrightarrow> distinct (map artifact_key (db_artifacts db)) \<and> (\<forall>r \<in> set (db_artifacts db). row_sound sha db fs r)"

text \<open>A row describes the artifact that a request for content of this digest gets.\<close>

definition describes :: "(blob \<Rightarrow> string) \<Rightarrow> string \<Rightarrow> operation_ref \<Rightarrow> string \<Rightarrow> artifact_ref \<Rightarrow> artifact_row \<Rightarrow> bool" where
  "describes sha ex opr content a r \<longleftrightarrow>
     aw_execution_id r = ex \<and> aw_operation_id r = op_operation_id opr \<and> artifact_from_row sha r = Inr a \<and>
     ar_sha256 a = sha (Octets content) \<and> ar_byte_length a = int (length content)"

lemma install_object_Inr:
  assumes "install_object sha content fs = (Inr obj, fs')"
  shows "obj = (sha (Octets content), int (length content))" "is_sha256 (fst obj)"
    "\<exists>c. fs' (fst obj) = Some c \<and> int (length c) = snd obj \<and> sha (Octets c) = fst obj"
  using assms
  by (auto simp: install_object_def Let_def object_path_def read_object_def link_object_def bindr_eq_Inr split: if_splits option.splits)

lemma artifact_from_row_of: "artifact_ref_ok a \<Longrightarrow> artifact_from_row sha (artifact_row_of sha ex kind key i a) = Inr a"
  by (simp add: artifact_from_row_def artifact_row_of_def Let_def canonical_json_bytes_def artifact_ref.canonical_trip)

lemma map_of_append_Some: "map_of xs k = Some v \<Longrightarrow> map_of (xs @ ys) k = Some v"
  by (simp add: map_add_Some_iff)

lemma row_sound_mono:
  assumes "row_sound sha db fs r" "db_objects db' = db_objects db @ objs" "fs \<subseteq>\<^sub>m fs'"
  shows "row_sound sha db' fs' r"
proof -
  have "fs' k = Some v" if "fs k = Some v" for k v using assms(3) that by (metis domI map_le_def)
  then show ?thesis using assms(1) unfolding row_sound_def assms(2) by (blast intro: map_of_append_Some)
qed

lemma artifacts_ok_mono:
  assumes "artifacts_ok sha db fs" "db_artifacts db' = db_artifacts db" "db_objects db' = db_objects db" "fs \<subseteq>\<^sub>m fs'"
  shows "artifacts_ok sha db' fs'"
  using assms row_sound_mono [of sha db fs _ db' "[]" fs'] by (auto simp: artifacts_ok_def)

lemma new_artifact:
  assumes "bindr (mk_resource_ref (PyStr ''artifact'') (PyStr aid) (PyInt 1) (PyStr [])) (\<lambda>ref.
      mk_artifact_ref (Inl ref) (PyStr media) (PyInt n) (PyStr digest) (PyStr preview)) = Inr a"
  shows "artifact_ref_ok a" "rr_kind (ar_ref a) = ''artifact''" "rr_fragment (ar_ref a) = []" "rr_revision (ar_ref a) = 1"
    "ar_sha256 a = digest" "ar_byte_length a = n" "0 \<le> n"
proof -
  obtain ref where ref: "mk_resource_ref (PyStr ''artifact'') (PyStr aid) (PyInt 1) (PyStr []) = Inr ref"
      and a: "mk_artifact_ref (Inl ref) (PyStr media) (PyInt n) (PyStr digest) (PyStr preview) = Inr a"
    using assms by (auto simp: bindr_eq_Inr)
  show "artifact_ref_ok a" using mk_artifact_ref_ok [OF a mk_resource_ref_ok [OF ref]] .
  have "required_text ''kind'' 256 True (PyStr ''artifact'') = Inr ''artifact''" by code_simp
  then show "rr_kind (ar_ref a) = ''artifact''" "rr_fragment (ar_ref a) = []" "rr_revision (ar_ref a) = 1"
      "ar_sha256 a = digest" "ar_byte_length a = n" "0 \<le> n"
    using ref a by (auto simp: mk_resource_ref_def mk_artifact_ref_def bindr_eq_Inr as_record_def optional_text_def bounded_int_def
        sha256_field_def split: if_splits)
qed

lemma store_artifact_ok:
  assumes run: "store_artifact sha ex opr kind key media preview obj conflict db = Inr (a, db')"
    and ok: "artifacts_ok sha db fs" and obj: "obj = (sha (Octets content), int (length content))" "is_sha256 (fst obj)"
    "\<exists>c. fs (fst obj) = Some c \<and> int (length c) = snd obj \<and> sha (Octets c) = fst obj"
  shows "artifacts_ok sha db' fs \<and> (\<exists>r \<in> set (db_artifacts db'). describes sha ex opr content a r)"
proof -
  let ?r = "artifact_row_of sha ex kind key (op_operation_id opr) a"
  from run obtain db1 db2 where mk: "bindr (mk_resource_ref (PyStr ''artifact'') (PyStr (artifact_id sha ex kind key)) (PyInt 1) (PyStr [])) (\<lambda>ref.
      mk_artifact_ref (Inl ref) (PyStr media) (PyInt (snd obj)) (PyStr (fst obj)) (PyStr preview)) = Inr a"
      and claim: "\<exists>b. claim_operation ex opr kind (artifact_id sha ex kind key @ ''@1'') conflict db = Inr (b, db1)"
      and known: "map_of (db_objects db1) (fst obj) \<in> {None, Some (snd obj)}"
      and obj2: "insert_object (fst obj) (snd obj) db1 = Inr ((), db2)" and ins: "insert_artifact ?r db2 = Inr ((), db')"
    unfolding store_artifact_def Let_def body_Inr by auto
  note a = new_artifact [OF mk]
  have db1: "db_artifacts db1 = db_artifacts db" "db_objects db1 = db_objects db"
    using claim by (auto simp: claim_operation_def insert_operation_def tx_simps require_def bindt_Inr split: option.splits if_splits)
  have db2: "db_artifacts db2 = db_artifacts db" "\<exists>objs. db_objects db2 = db_objects db @ objs" "map_of (db_objects db2) (fst obj) = Some (snd obj)"
    using obj2 known db1 a(7) by (auto simp: insert_object_def tx_simps map_add_def split: if_splits)
  have db': "db_artifacts db' = db_artifacts db @ [?r]" "db_objects db' = db_objects db2" "\<forall>q \<in> set (db_artifacts db). \<not> artifact_clash ?r q"
    using ins db2(1) by (auto simp: insert_artifact_def tx_simps split: if_splits)
  have "row_sound sha db' fs ?r"
    using a obj(2,3) db2(3) artifact_from_row_of [OF a(1)] unfolding row_sound_def db'(2)
    by (auto simp: artifact_row_of_def Let_def)
  moreover have "artifact_key ?r \<notin> artifact_key ` set (db_artifacts db)"
    using db'(3) by (auto simp: artifact_clash_def artifact_key_def)
  moreover have "row_sound sha db' fs r" if "r \<in> set (db_artifacts db)" for r
    using that ok db2(2) row_sound_mono [of sha db fs r db' _ fs] db'(2) by (auto simp: artifacts_ok_def)
  moreover have "describes sha ex opr content a ?r"
    using artifact_from_row_of [OF a(1)] a(5,6) obj(1) by (simp add: describes_def) (simp add: artifact_row_of_def Let_def)
  ultimately show ?thesis using ok by (auto simp: artifacts_ok_def db'(1))
qed

lemma claim_artifact_ok:
  assumes run: "claim_artifact sha ex opr kind key n m v obj conflict db = Inr (a, db')"
    and ok: "artifacts_ok sha db fs" and obj: "obj = (sha (Octets content), int (length content))" "is_sha256 (fst obj)"
    "\<exists>c. fs (fst obj) = Some c \<and> int (length c) = snd obj \<and> sha (Octets c) = fst obj"
  shows "artifacts_ok sha db' fs \<and> (\<exists>r \<in> set (db_artifacts db'). describes sha ex opr content a r)"
proof -
  have tables: "db_artifacts (ensured ex db) = db_artifacts db" "db_objects (ensured ex db) = db_objects db" by (simp_all add: ensured_def)
  have ok1: "artifacts_ok sha (ensured ex db) fs" using artifacts_ok_mono [OF ok tables] by simp
  show ?thesis
  proof (cases "operation_row ex (op_operation_id opr) db")
    case None
    then have "store_artifact sha ex opr kind key m v obj conflict (ensured ex db) = Inr (a, db')"
      using run by (simp add: claim_artifact_def body_Inr)
    from store_artifact_ok [OF this ok1 obj] show ?thesis .
  next
    case (Some p)
    with run obtain r where r: "find (\<lambda>r. aw_execution_id r = ex \<and> aw_operation_id r = op_operation_id opr) (db_artifacts db) = Some r"
        "artifact_from_row sha r = Inr a" "ar_byte_length a = snd obj" "ar_sha256 a = fst obj" "db' = ensured ex db"
      by (auto simp: claim_artifact_def replayed_artifact_def artifact_by_operation_def body_Inr tables raise_def split: option.splits if_splits)
    then show ?thesis using ok1 obj(1) by (auto simp: describes_def find_Some_iff tables)
  qed
qed

lemma put_ok:
  assumes run: "put_artifact_with_connection sha ex content media opr preview kind key expected conflict db fs = (Inr (a, db'), fs')"
    and ok: "artifacts_ok sha db fs"
  shows "artifacts_ok sha db' fs' \<and> (\<exists>r \<in> set (db_artifacts db'). describes sha ex opr content a r)"
proof -
  obtain n m v obj where obj: "install_object sha content fs = (Inr obj, fs')"
      and body: "claim_artifact sha ex opr kind key n m v obj conflict db = Inr (a, db')"
    using run by (auto simp: put_artifact_with_connection_def ftx_simps body_Inr)
  have "artifacts_ok sha db fs'" using artifacts_ok_mono [OF ok refl refl] install_object_adds [of fs sha content] obj by simp
  from claim_artifact_ok [OF body this install_object_Inr [OF obj]] show ?thesis .
qed

lemma put_all_ok:
  "\<lbrakk>put_all sha ex ps db fs = (Inr (u, db'), fs'); artifacts_ok sha db fs\<rbrakk> \<Longrightarrow>
   artifacts_ok sha db' fs' \<and> (\<forall>p \<in> set ps. \<exists>a. \<exists>r \<in> set (db_artifacts db'). describes sha ex (pa_operation p) (pa_content p) a r)"
proof (induction ps arbitrary: db fs)
  case (Cons p ps)
  then obtain a db1 fs1 where step: "put_artifact_with_connection sha ex (pa_content p) (pa_media_type p) (pa_operation p) (pa_preview p) ''artifact''
         (op_operation_id (pa_operation p)) 0 context_conflict db fs = (Inr (a, db1), fs1)"
      and rest: "put_all sha ex ps db1 fs1 = (Inr (u, db'), fs')" by (auto simp: bindf_Inr)
  have "\<exists>rows. db_artifacts db' = db_artifacts db1 @ rows"
    using put_all_adds [of sha ex ps, unfolded ftx_keeps_def, rule_format, of fs1 db1] rest by (auto simp: adds_artifacts_def)
  then show ?case using put_ok [OF step Cons.prems(2)] Cons.IH [OF rest] by fastforce
qed (simp add: liftf_Inr ret_Inr)

text \<open>Every described artifact is readable, with verified length and digest.\<close>

lemma row_readable:
  assumes "artifacts_ok sha db fs" "r \<in> set (db_artifacts db)" "artifact_from_row sha r = Inr a"
  shows "\<exists>c. read_full_verified sha (aw_execution_id r) a db fs = Inr c \<and> int (length c) = ar_byte_length a \<and> sha (Octets c) = ar_sha256 a"
proof -
  have keys: "distinct (map artifact_key (db_artifacts db))" and sound: "row_sound sha db fs r" using assms(1,2) by (simp_all add: artifacts_ok_def)
  have fields: "rr_resource_id (ar_ref a) = aw_artifact_id r" "rr_revision (ar_ref a) = aw_revision r" "ar_sha256 a = aw_object_sha256 r"
      "ar_byte_length a = aw_byte_length r"
    using assms(3) by (auto simp: artifact_from_row_def split: if_splits option.splits sum.splits)
  have "find (\<lambda>q. aw_execution_id q = aw_execution_id r \<and> aw_artifact_id q = aw_artifact_id r \<and> aw_revision q = aw_revision r) (db_artifacts db) = Some r"
    using find_distinct [OF keys assms(2)] by (simp add: artifact_key_def)
  moreover have "sql_range 1" by (simp add: sql_range_def max_sql_int_def)
  ultimately have "load_exact_artifact sha (aw_execution_id r) a db = Inr a"
    using sound assms(3) fields by (auto simp: load_exact_artifact_def transaction_def tx_simps row_sound_def)
  then show ?thesis
    using sound fields by (auto simp: read_full_verified_def read_object_def object_path_def row_sound_def)
qed

subsection \<open>Everything that happens to the store\<close>

definition same_artifacts :: "store_db \<Rightarrow> store_db \<Rightarrow> bool" where
  "same_artifacts db db' \<longleftrightarrow> db_artifacts db' = db_artifacts db \<and> db_objects db' = db_objects db"

lemma same_artifacts_order: "reflp same_artifacts" "transp same_artifacts"
  by (simp_all add: same_artifacts_def reflp_def transp_def)

lemmas same_artifacts_keeps = keeps_bindt [OF same_artifacts_order(2)] keeps_pure [OF same_artifacts_order(1)]

lemma append_with_connection_artifacts: "tx_keeps same_artifacts (append_with_connection sha ex q)"
  unfolding append_with_connection_def claim_operation_def insert_operation_def insert_event_def insert_receipt_def advance_head_def
  by (intro same_artifacts_keeps keeps_option keeps_if keeps_update) (auto simp: same_artifacts_def tx_keeps_def Let_def)

lemma replayed_append_artifacts: "tx_keeps same_artifacts (replayed_append sha ex q)"
  unfolding replayed_append_def by (intro same_artifacts_keeps keeps_option keeps_if)

lemma ensure_execution_artifacts: "tx_keeps same_artifacts (ensure_execution ex)"
  unfolding ensure_execution_def by (rule keeps_update) (simp add: same_artifacts_def)

lemma append_event_artifacts: "same_artifacts db (snd (append_event sha ex q db))"
proof -
  have "tx_keeps same_artifacts (bindt (ensure_execution ex) (\<lambda>_. bindt (replayed_append sha ex q) (\<lambda>replayed.
      case replayed of Some x \<Rightarrow> ret x | None \<Rightarrow> append_with_connection sha ex q)))"
    by (intro same_artifacts_keeps keeps_option ensure_execution_artifacts append_with_connection_artifacts replayed_append_artifacts)
  from transaction_keeps [OF this] show ?thesis by (simp add: append_event_def same_artifacts_def split: sum.split)
qed

lemma bind_execution_artifacts: "same_artifacts db (snd (bind_execution v db))"
  using bind_execution_ensures [of v db] by (auto simp: same_artifacts_def ensured_def)

lemma compare_and_swap_artifacts: "same_artifacts db (snd (compare_and_swap sha ex s e r db))"
proof -
  have "tx_keeps same_artifacts (swap_in_transaction sha ex e r)"
    unfolding swap_in_transaction_def claim_operation_def insert_operation_def insert_lease_revision_def move_lease_head_def
      insert_lease_head_def update_lease_head_def
    by (intro same_artifacts_keeps keeps_option keeps_if keeps_update) (auto simp: same_artifacts_def tx_keeps_def Let_def)
  then have "tx_keeps same_artifacts (bindt (ensure_execution ex) (\<lambda>_. swap_in_transaction sha ex e r))"
    by (intro same_artifacts_keeps ensure_execution_artifacts)
  from transaction_keeps [OF this] show ?thesis by (simp add: compare_and_swap_def same_artifacts_def split: sum.split)
qed

lemma store_step_artifacts: "store_step sha db db' \<Longrightarrow> same_artifacts db db'"
  by (induction rule: store_step.induct) (rule append_event_artifacts bind_execution_artifacts compare_and_swap_artifacts)+

type_synonym world = "store_db \<times> files"

definition artifact_kinds :: "string set" where
  "artifact_kinds = {''artifact'', ''provider_wire_artifact''}"

text \<open>
  The steps of the tables and the object files: appends, bindings and lease swaps (\<open>store_step\<close>), puts of
  artifacts, and appends with artifacts. Chat deletion, the run-bundle writes and the persisting of provider turn
  results are not steps.
\<close>

inductive world_step :: "(blob \<Rightarrow> string) \<Rightarrow> (rat \<Rightarrow> string) \<Rightarrow> world \<Rightarrow> world \<Rightarrow> bool" for sha fr where
  world_store: "store_step sha db db' \<Longrightarrow> world_step sha fr (db, fs) (db', fs)"
| world_put: "kind \<in> artifact_kinds \<Longrightarrow>
    world_step sha fr (db, fs) (snd (put_artifact sha ex content media opr preview kind key expected conflict db fs))"
| world_append: "append_request_ok q \<Longrightarrow> world_step sha fr (db, fs) (snd (append_with_artifacts sha fr ex q ps pre db fs))"

definition world_ok :: "(blob \<Rightarrow> string) \<Rightarrow> world \<Rightarrow> bool" where
  "world_ok sha w \<longleftrightarrow> artifacts_ok sha (fst w) (snd w) \<and> (\<forall>ex. (\<exists>es. holds_log sha ex (fst w) es) \<and> leases_ok sha ex (fst w))"

text \<open>Artifacts, files and events are only ever added.\<close>

definition extends :: "world \<Rightarrow> world \<Rightarrow> bool" where
  "extends w w' \<longleftrightarrow> (\<exists>rows. db_artifacts (fst w') = db_artifacts (fst w) @ rows) \<and> snd w \<subseteq>\<^sub>m snd w'"

lemma extends_refl: "extends w w"
  by (simp add: extends_def)

lemma extends_trans: "\<lbrakk>extends u v; extends v w\<rbrakk> \<Longrightarrow> extends u w"
  by (auto simp: extends_def intro: map_le_trans)

lemma adds_artifacts_operation:
  assumes "adds_artifacts db db'" "operation_row ex i db' = Some p"
  shows "operation_row ex i db = Some p \<or> operation_row ex i db = None \<and> ow_target_kind p \<noteq> ''journal_event''"
proof -
  obtain ops where ops: "db_operations db' = db_operations db @ ops" "\<forall>p \<in> set ops. ow_target_kind p \<noteq> ''journal_event''"
    using assms(1) by (auto simp: adds_artifacts_def)
  have "p \<in> set ops" if "find (\<lambda>r. ow_execution_id r = ex \<and> ow_operation_id r = i) ops = Some p" using that by (auto simp: find_Some_iff)
  then show ?thesis using assms(2) ops by (auto simp: operation_row_def find_append split: option.splits)
qed

lemma adds_artifacts_log:
  assumes "adds_artifacts db db'" "holds_log sha ex db es"
  shows "holds_log sha ex db' es"
proof (rule holds_log_cong [OF _ _ _ _ _ assms(2)])
  show "operation_row ex i db = Some p" if "operation_row ex i db' = Some p" "ow_target_kind p = ''journal_event''" for i p
    using adds_artifacts_operation [OF assms(1) that(1)] that(2) by blast
  show "operation_row ex i db' = Some p" if "operation_row ex i db = Some p" for i p
    using assms(1) that by (auto simp: adds_artifacts_def operation_row_def find_append)
qed (use assms(1) in \<open>auto simp: adds_artifacts_def\<close>)

lemma adds_artifacts_same_leases: "adds_artifacts db db' \<Longrightarrow> same_leases db db'"
  by (auto simp: adds_artifacts_def same_leases_def operation_row_def find_append split: option.splits)

lemma adds_artifacts_leases: "\<lbrakk>adds_artifacts db db'; leases_ok sha ex db\<rbrakk> \<Longrightarrow> leases_ok sha ex db'"
  using same_leases_ok adds_artifacts_same_leases by blast

lemma store_step_log:
  assumes "store_step sha db db'" "holds_log sha ex db es"
  shows "\<exists>es'. holds_log sha ex db' (es @ es')"
  using assms(1)
proof cases
  case (step_append q ex')
  then show ?thesis using append_event_log [OF assms(2)] by blast
next
  case (step_bind v)
  then show ?thesis using bind_execution_log [OF assms(2)] by (metis append_Nil2)
next
  case (step_swap r ex' s e)
  then show ?thesis using compare_and_swap_log [OF assms(2)] by (metis append_Nil2)
qed

text \<open>The two ways in which an append with artifacts succeeds.\<close>

lemma snapshot_keeps: "tx_keeps (=) (snapshot_with_connection sha fr ex n m)"
  unfolding snapshot_with_connection_def decode_rows_def
  by (intro keeps_bindt keeps_pure keeps_if) (auto simp: reflp_def transp_def)

lemma verify_all_keeps: "tx_keeps (=) (verify_all ex ps)"
  by (induction ps) (auto simp: verify_pending_artifact_replay_def reflp_def transp_def intro!: keeps_bindt keeps_pure keeps_option keeps_if)

lemma ftransaction_Inr: "ftransaction h m db fs = (Inr x, db', fs') \<longleftrightarrow> m db fs = (Inr (x, db'), fs')"
  by (auto simp: ftransaction_def split: prod.splits sum.splits)

lemma append_with_artifacts_Inr:
  assumes run: "append_with_artifacts sha fr ex q ps pre db fs = (Inr x, db', fs')"
    and holds: "holds_log sha ex db es" and q: "append_request_ok q"
  shows "gr_execution_id (at_generation (rq_attempt q)) = ex \<and>
    (res_duplicate x \<and> res_event x \<in> set es \<and> db' = ensured ex db \<and> fs' = fs \<and> verify_all ex ps db' = Inr ((), db') \<or>
     \<not> res_duplicate x \<and> (\<exists>db1. put_all sha ex ps (ensured ex db) fs = (Inr ((), db1), fs') \<and>
        append_with_connection sha ex q db1 = Inr (x, db') \<and> operation_row ex (op_operation_id (rq_operation q)) (ensured ex db) = None))"
proof -
  let ?db = "ensured ex db"
  note h = holds_ensured(1) [OF holds]
  from run have scope: "gr_execution_id (at_generation (rq_attempt q)) = ex"
    by (auto simp: append_with_artifacts_def scope_attempt_def split: if_splits)
  from run scope obtain rep db1 where rep: "replayed_append sha ex q ?db = Inr (rep, db1)"
      and rest: "(case rep of
          Some x \<Rightarrow> bindf (liftf (verify_all ex ps)) (\<lambda>_. liftf (ret x))
        | None \<Rightarrow>
            bindf (case pre of
                     None \<Rightarrow> liftf (ret ())
                   | Some check \<Rightarrow> liftf (bindt (snapshot_with_connection sha fr ex 10000 (32 * 1024 * 1024)) (\<lambda>s. lift_res (check s)))) (\<lambda>_.
            bindf (put_all sha ex ps) (\<lambda>_. liftf (append_with_connection sha ex q)))) db1 fs = (Inr (x, db'), fs')"
    by (auto simp: append_with_artifacts_def scope_attempt_def ftransaction_Inr bindf_Inr [of "liftf m" for m] liftf_Inr ensure_execution_Inr)
  have db1: "db1 = ?db" using rep unfolding replayed_append_spec [OF h] by (auto split: option.splits if_splits)
  show ?thesis
  proof (cases rep)
    case (Some y)
    then obtain u db2 where v: "verify_all ex ps ?db = Inr (u, db2)" "x = y" "db' = db2" "fs' = fs"
      using rest db1 by (auto simp: ftx_simps body_Inr)
    have "db2 = ?db" using verify_all_keeps [of ex ps] v(1) by (auto simp: tx_keeps_def)
    moreover have "res_duplicate y \<and> res_event y \<in> set es"
      using rep Some unfolding replayed_append_spec [OF h] by (auto simp: find_Some_iff split: option.splits if_splits)
    ultimately show ?thesis using v scope by auto
  next
    case None
    then obtain u db2 w db3 fs3 where p: "(case pre of None \<Rightarrow> liftf (ret ())
          | Some check \<Rightarrow> liftf (bindt (snapshot_with_connection sha fr ex 10000 (32 * 1024 * 1024)) (\<lambda>s. lift_res (check s)))) ?db fs = (Inr (u, db2), fs3)"
        and put: "put_all sha ex ps db2 fs3 = (Inr (w, db3), fs')" "append_with_connection sha ex q db3 = Inr (x, db')"
      using rest db1 by (auto simp: bindf_Inr liftf_Inr)
    have "db2 = ?db \<and> fs3 = fs"
      using p snapshot_keeps [of sha fr ex 10000 "32 * 1024 * 1024"] by (auto simp: liftf_Inr body_Inr tx_keeps_def split: option.splits)
    moreover have "operation_row ex (op_operation_id (rq_operation q)) ?db = None"
      using rep None unfolding replayed_append_def body_Inr by (auto simp: body_Inr raise_def split: option.splits if_splits)
    moreover have "\<not> res_duplicate x"
      using put(2) by (auto simp: append_with_connection_def body_Inr raise_def append_result_for_def mk_append_result_def bindr_eq_Inr split: option.splits if_splits)
    ultimately show ?thesis using put scope by auto
  qed
qed

lemma append_fresh:
  assumes run: "append_with_connection sha ex q db = Inr (x, db')" and holds: "holds_log sha ex db es" and q: "append_request_ok q"
    and scope: "gr_execution_id (at_generation (rq_attempt q)) = ex"
    and head: "filter (\<lambda>p. fst p = ex) (db_executions db) = [(ex, int (length es) + 1)]"
    and op: "\<And>p. operation_row ex (op_operation_id (rq_operation q)) db = Some p \<Longrightarrow> ow_target_kind p \<noteq> ''journal_event''"
  shows "holds_log sha ex db' (es @ [res_event x]) \<and> \<not> res_duplicate x \<and> res_event x = event_of q (int (length es) + 1) \<and>
    sql_range (int (length es) + 2)"
proof (cases "operation_row ex (op_operation_id (rq_operation q)) db")
  case None
  let ?e = "event_of q (int (length es) + 1)"
  from append_with_connection_spec [OF holds q head None refl] run
  have x: "rq_event_id q \<notin> ev_event_id ` set es" "x = \<lparr>res_event = ?e, res_cursor = event_cursor_of ?e, res_duplicate = False\<rparr>" "db' = appended_db sha ex ?e db"
      "sql_range (int (length es) + 2)"
    by (auto split: if_splits sum.splits)
  have "holds_log sha ex (appended_db sha ex ?e db) (es @ [?e])"
    by (rule appended_holds [OF holds]) (use x(1) None scope head event_of_ok [OF q] in \<open>simp_all add: event_of_def\<close>)
  with x show ?thesis by simp
next
  case (Some p)
  then have "claim_operation ex (rq_operation q) ''journal_event'' (rq_event_id q) journal_conflict db = Inl (journal_conflict ''operation payload or durable target changed'')"
    using op [OF Some] by (simp add: claim_operation_def tx_simps)
  then show ?thesis using run by (auto simp: append_with_connection_def body_Inr raise_def split: option.splits)
qed

lemma readable_described:
  assumes "artifacts_ok sha db fs" "r \<in> set (db_artifacts db)" "describes sha ex opr content a r"
  shows "\<exists>c. read_full_verified sha ex a db fs = Inr c \<and> length c = length content \<and> sha (Octets c) = sha (Octets content)"
  using row_readable [OF assms(1,2)] assms(3) by (fastforce simp: describes_def)

lemma ensured_adds: "adds_artifacts db (ensured ex db)"
  using ensure_execution_adds [of ex] by (simp add: tx_keeps_def ensure_execution_Inr)

lemma ensured_artifacts [simp]: "db_artifacts (ensured ex db) = db_artifacts db" "db_objects (ensured ex db) = db_objects db"
  by (simp_all add: ensured_def)

lemma append_with_artifacts_holds:
  assumes ok: "artifacts_ok sha db fs" and holds: "holds_log sha ex db es" and q: "append_request_ok q"
    and run: "append_with_artifacts sha fr ex q ps pre db fs = (Inr x, db', fs')" "\<not> res_duplicate x"
  shows "holds_log sha ex db' (es @ [res_event x]) \<and> artifacts_ok sha db' fs' \<and> sql_range (int (length es) + 2) \<and>
    (\<forall>p \<in> set ps. \<exists>a. \<exists>r \<in> set (db_artifacts db'). describes sha ex (pa_operation p) (pa_content p) a r)"
proof -
  from append_with_artifacts_Inr [OF run(1) holds q] run(2) obtain db1 where scope: "gr_execution_id (at_generation (rq_attempt q)) = ex"
      and put: "put_all sha ex ps (ensured ex db) fs = (Inr ((), db1), fs')" and app: "append_with_connection sha ex q db1 = Inr (x, db')"
      and op: "operation_row ex (op_operation_id (rq_operation q)) (ensured ex db) = None" by auto
  have ok1: "artifacts_ok sha (ensured ex db) fs" by (rule artifacts_ok_mono [OF ok]) simp_all
  have adds: "adds_artifacts (ensured ex db) db1"
    using put_all_adds [of sha ex ps, unfolded ftx_keeps_def, rule_format, of fs "ensured ex db"] put by simp
  have "holds_log sha ex db1 es" by (rule adds_artifacts_log [OF adds holds_ensured(1) [OF holds]])
  moreover have "filter (\<lambda>p. fst p = ex) (db_executions db1) = [(ex, int (length es) + 1)]"
    using adds holds_ensured(2) [OF holds] unfolding adds_artifacts_def by (metis list.distinct(1))
  moreover have "ow_target_kind p \<noteq> ''journal_event''" if "operation_row ex (op_operation_id (rq_operation q)) db1 = Some p" for p
    using adds_artifacts_operation [OF adds that] op by simp
  ultimately have "holds_log sha ex db' (es @ [res_event x]) \<and> sql_range (int (length es) + 2)" using append_fresh [OF app _ q scope] by blast
  moreover have "same_artifacts db1 db'" using append_with_connection_artifacts [of sha ex q] app by (auto simp: tx_keeps_def)
  ultimately show ?thesis
    using put_all_ok [OF put ok1] artifacts_ok_mono [of sha db1 fs' db' fs'] by (auto simp: same_artifacts_def)
qed

text \<open>Failing or repeating leaves the rows of everyone alone, apart from the row of the execution.\<close>

lemma append_with_artifacts_rest:
  assumes holds: "holds_log sha ex db es" and q: "append_request_ok q"
    and run: "append_with_artifacts sha fr ex q ps pre db fs = (r, db', fs')" "\<And>x. r = Inr x \<Longrightarrow> res_duplicate x"
  shows "adds_artifacts db db' \<and> db_artifacts db' = db_artifacts db \<and> db_objects db' = db_objects db"
proof (cases r)
  case (Inl e)
  then have "db' = db" using run(1) by (auto simp: append_with_artifacts_def ftransaction_def split: sum.splits prod.splits)
  then show ?thesis using adds_artifacts_refl by (simp add: reflp_def)
next
  case (Inr x)
  then have "db' = ensured ex db" using append_with_artifacts_Inr [OF _ holds q] run by blast
  then show ?thesis using ensured_adds by simp
qed

lemma verified_operations:
  "verify_all ex ps db = Inr (u, db') \<Longrightarrow> list_all (\<lambda>p. \<exists>row. operation_row ex (op_operation_id (pa_operation p)) db = Some row \<and>
     ow_payload_sha256 row = op_payload_sha256 (pa_operation p)) ps"
proof (induction ps arbitrary: u db')
  case (Cons p ps)
  then show ?case
    by (auto simp: body_Inr verify_pending_artifact_replay_def raise_def split: option.splits if_splits)
qed simp

subsection \<open>Other executions\<close>

lemma put_view:
  assumes "ex' \<noteq> ex"
  shows "ftx_keeps (same_view ex) (put_artifact_with_connection sha ex' content media opr preview kind key expected conflict)"
proof -
  have "tx_keeps (same_view ex) (insert_object digest n)" for digest n
    unfolding insert_object_def by (intro view_keeps keeps_update) (simp add: same_view_def execution_view_def)
  moreover have "tx_keeps (same_view ex) (insert_artifact r)" if "aw_execution_id r = ex'" for r
    unfolding insert_artifact_def
    by (intro view_keeps keeps_update) (use that assms in \<open>simp add: same_view_def execution_view_def\<close>)
  ultimately have "tx_keeps (same_view ex) (store_artifact sha ex' opr kind key m v obj conflict)" for m v obj
    unfolding store_artifact_def Let_def claim_operation_def
    by (intro view_keeps keeps_option keeps_if insert_operation_view) (auto simp: artifact_row_of_def Let_def assms)
  then have "tx_keeps (same_view ex) (claim_artifact sha ex' opr kind key n m v obj conflict)" for n m v obj
    unfolding claim_artifact_def replayed_artifact_def artifact_by_operation_def
    by (intro view_keeps keeps_option keeps_if ensure_execution_view assms)
  then show ?thesis
    unfolding put_artifact_with_connection_def
    by (intro ftx_keeps_bindf [OF same_view_order(2)] ftx_keeps_install [OF same_view_order(1)] ftx_keeps_liftf view_keeps)
qed

lemma ftx_keeps_mono: "\<lbrakk>ftx_keeps R m; \<And>db db'. R db db' \<Longrightarrow> S db db'\<rbrakk> \<Longrightarrow> ftx_keeps S m"
  by (auto simp: ftx_keeps_def)

lemma tx_keeps_eq: "\<lbrakk>tx_keeps (=) m; reflp R\<rbrakk> \<Longrightarrow> tx_keeps R m"
  using reflpD [of R] by (fastforce simp: tx_keeps_def)

lemma append_with_artifacts_keeps:
  assumes R: "reflp R" "transp R" and steps: "tx_keeps R (ensure_execution ex)" "ftx_keeps R (put_all sha ex ps)"
      "tx_keeps R (append_with_connection sha ex q)"
    and run: "append_with_artifacts sha fr ex q ps pre db fs = (r, db', fs')"
  shows "R db db' \<and> fs \<subseteq>\<^sub>m fs'"
proof -
  have "tx_keeps R (replayed_append sha ex q)"
    unfolding replayed_append_def by (intro keeps_bindt keeps_pure keeps_option keeps_if R)
  then have "ftx_keeps R (bindf (liftf (ensure_execution ex)) (\<lambda>_.
      bindf (liftf (replayed_append sha ex q)) (\<lambda>replayed.
        case replayed of
          Some x \<Rightarrow> bindf (liftf (verify_all ex ps)) (\<lambda>_. liftf (ret x))
        | None \<Rightarrow>
            bindf (case pre of None \<Rightarrow> liftf (ret ())
              | Some check \<Rightarrow> liftf (bindt (snapshot_with_connection sha fr ex 10000 (32 * 1024 * 1024)) (\<lambda>s. lift_res (check s)))) (\<lambda>_.
            bindf (put_all sha ex ps) (\<lambda>_. liftf (append_with_connection sha ex q))))))"
    by (intro ftx_keeps_bindf ftx_keeps_option ftx_keeps_liftf keeps_bindt keeps_pure R steps tx_keeps_eq [OF verify_all_keeps]
        tx_keeps_eq [OF snapshot_keeps])
  from ftransaction_keeps [OF this R(1)] run show ?thesis
    using reflpD [OF R(1)] by (auto simp: append_with_artifacts_def split: sum.splits)
qed

lemma append_with_artifacts_view:
  assumes "ex' \<noteq> ex" "append_with_artifacts sha fr ex' q ps pre db fs = (r, db', fs')"
  shows "execution_view ex db' = execution_view ex db"
proof -
  have "ftx_keeps (same_view ex) (put_all sha ex' ps)"
    by (induction ps) (auto intro!: ftx_keeps_bindf [OF same_view_order(2)] ftx_keeps_liftf view_keeps put_view assms(1))
  from append_with_artifacts_keeps [OF same_view_order ensure_execution_view [OF assms(1)] this append_with_connection_view [OF assms(1)] assms(2)]
  show ?thesis by (simp add: same_view_def)
qed

definition more_rows :: "store_db \<Rightarrow> store_db \<Rightarrow> bool" where
  "more_rows db db' \<longleftrightarrow> (\<exists>rows. db_artifacts db' = db_artifacts db @ rows) \<and> same_leases db db'"

lemma append_with_artifacts_rows:
  assumes "append_with_artifacts sha fr ex q ps pre db fs = (r, db', fs')"
  shows "more_rows db db' \<and> fs \<subseteq>\<^sub>m fs'"
proof (rule append_with_artifacts_keeps [OF _ _ _ _ _ assms])
  show "reflp more_rows" "transp more_rows"
    using same_leases_order by (auto simp: more_rows_def reflp_def transp_def)
  have adds: "adds_artifacts a b \<Longrightarrow> more_rows a b" for a b using adds_artifacts_same_leases by (auto simp: more_rows_def adds_artifacts_def)
  show "tx_keeps more_rows (ensure_execution ex)" using ensure_execution_adds adds by (auto simp: tx_keeps_def)
  show "ftx_keeps more_rows (put_all sha ex ps)" by (rule ftx_keeps_mono [OF put_all_adds adds])
  show "tx_keeps more_rows (append_with_connection sha ex q)"
    using append_with_connection_artifacts [of sha ex q] append_with_connection_same_leases [of sha ex q]
    by (auto simp: tx_keeps_def more_rows_def same_artifacts_def)
qed

subsection \<open>The store stays sound\<close>

lemma world_step_extends:
  assumes "world_step sha fr w w'" "world_ok sha w"
  shows "extends w w' \<and> artifacts_ok sha (fst w') (snd w')"
  using assms(1)
proof cases
  case (world_store db db' fs)
  then show ?thesis
    using store_step_artifacts [OF world_store(3)] assms(2) artifacts_ok_mono [of sha db fs db' fs]
    by (auto simp: extends_def same_artifacts_def world_ok_def)
next
  case (world_put kind db fs ex content media opr preview key expected conflict)
  obtain r db' fs' where run: "put_artifact sha ex content media opr preview kind key expected conflict db fs = (r, db', fs')" by (metis prod.collapse)
  have kind: "kind \<noteq> ''journal_event''" using world_put(3) by (auto simp: artifact_kinds_def)
  have adds: "adds_artifacts db db' \<and> fs \<subseteq>\<^sub>m fs'"
    using ftransaction_keeps [OF put_adds [OF kind] adds_artifacts_refl run [unfolded put_artifact_def]] .
  have "artifacts_ok sha db' fs'"
  proof (cases r)
    case (Inl e)
    then have "db' = db" using run by (auto simp: put_artifact_def ftransaction_def split: sum.splits prod.splits)
    then show ?thesis using adds assms(2) artifacts_ok_mono [of sha db fs db fs'] world_put(1) by (simp add: world_ok_def)
  next
    case (Inr a)
    then show ?thesis using run put_ok [of sha ex content media opr preview kind key expected conflict db fs a db' fs'] assms(2) world_put(1)
      by (simp add: put_artifact_def ftransaction_Inr world_ok_def)
  qed
  then show ?thesis using adds world_put(1,2) run by (auto simp: extends_def adds_artifacts_def)
next
  case (world_append q db fs ex ps pre)
  obtain r db' fs' where run: "append_with_artifacts sha fr ex q ps pre db fs = (r, db', fs')" by (metis prod.collapse)
  obtain es where es: "holds_log sha ex db es" using assms(2) world_append(1) by (auto simp: world_ok_def)
  have ok: "artifacts_ok sha db fs" using assms(2) world_append(1) by (simp add: world_ok_def)
  have "artifacts_ok sha db' fs'"
  proof (cases "\<exists>x. r = Inr x \<and> \<not> res_duplicate x")
    case True
    then show ?thesis using append_with_artifacts_holds [OF ok es world_append(3)] run by blast
  next
    case False
    then show ?thesis
      using append_with_artifacts_rest [OF es world_append(3) run] append_with_artifacts_rows [OF run] artifacts_ok_mono [OF ok, of db' fs'] by blast
  qed
  then show ?thesis using append_with_artifacts_rows [OF run] world_append(1,2) run by (simp add: extends_def more_rows_def)
qed

lemma world_step_log:
  assumes "world_step sha fr w w'" "world_ok sha w" "holds_log sha ex (fst w) es"
  shows "(\<exists>es'. holds_log sha ex (fst w') (es @ es')) \<and> leases_ok sha ex (fst w')"
proof -
  have leases: "leases_ok sha ex (fst w)" using assms(2) by (simp add: world_ok_def)
  from assms(1) show ?thesis
  proof cases
    case (world_store db db' fs)
    then show ?thesis using store_step_log assms(3) store_step_leases leases by fastforce
  next
    case (world_put kind db fs ex' content media opr preview key expected conflict)
    obtain r db' fs' where run: "put_artifact sha ex' content media opr preview kind key expected conflict db fs = (r, db', fs')" by (metis prod.collapse)
    have "kind \<noteq> ''journal_event''" using world_put(3) by (auto simp: artifact_kinds_def)
    then have "adds_artifacts db db'" using ftransaction_keeps [OF put_adds adds_artifacts_refl run [unfolded put_artifact_def]] by blast
    then show ?thesis
      using adds_artifacts_log [of db db' sha ex es] adds_artifacts_leases [of db db' sha ex] assms(3) leases world_put(1,2) run by (auto intro: exI [of _ "[]"])
  next
    case (world_append q db fs ex' ps pre)
    obtain r db' fs' where run: "append_with_artifacts sha fr ex' q ps pre db fs = (r, db', fs')" by (metis prod.collapse)
    have l: "leases_ok sha ex db'"
      using append_with_artifacts_rows [OF run] same_leases_ok [of sha ex db db'] leases world_append(1) by (simp add: more_rows_def)
    have ok: "artifacts_ok sha db fs" using assms(2) world_append(1) by (simp add: world_ok_def)
    have "\<exists>es'. holds_log sha ex db' (es @ es')"
    proof (cases "ex' = ex")
      case True
      then have es: "holds_log sha ex' db es" using assms(3) world_append(1) by simp
      show ?thesis
      proof (cases "\<exists>x. r = Inr x \<and> \<not> res_duplicate x")
        case dup: True
        then show ?thesis using append_with_artifacts_holds [OF ok es world_append(3)] run True by blast
      next
        case False
        then have "adds_artifacts db db'" using append_with_artifacts_rest [OF es world_append(3) run] by blast
        then show ?thesis using adds_artifacts_log es True by (metis append_Nil2)
      qed
    next
      case False
      then show ?thesis using holds_log_view [OF append_with_artifacts_view [OF False run]] assms(3) world_append(1) by (metis append_Nil2 fst_conv)
    qed
    with l show ?thesis using world_append(2) run by simp
  qed
qed

lemma world_step_ok: "\<lbrakk>world_step sha fr w w'; world_ok sha w\<rbrakk> \<Longrightarrow> world_ok sha w'"
  using world_step_extends [of sha fr w w'] world_step_log [of sha fr w w'] unfolding world_ok_def by blast

lemma world_run_ok:
  assumes "(world_step sha fr)\<^sup>*\<^sup>* w w'" "world_ok sha w"
  shows "world_ok sha w' \<and> extends w w' \<and> (\<forall>ex es. holds_log sha ex (fst w) es \<longrightarrow> (\<exists>es'. holds_log sha ex (fst w') (es @ es')))"
  using assms(1)
proof (induction rule: rtranclp_induct)
  case base
  then show ?case using assms(2) extends_refl by (auto intro: exI [of _ "[]"])
next
  case (step v u)
  then have ok: "world_ok sha v" and ext: "extends w v"
    and log: "\<And>ex es. holds_log sha ex (fst w) es \<Longrightarrow> \<exists>es'. holds_log sha ex (fst v) (es @ es')" by blast+
  have "\<exists>es'. holds_log sha ex (fst u) (es @ es')" if es: "holds_log sha ex (fst w) es" for ex es
  proof -
    obtain es1 where "holds_log sha ex (fst v) (es @ es1)" using log [OF es] by blast
    then obtain es2 where "holds_log sha ex (fst u) ((es @ es1) @ es2)" using world_step_log [OF step(2) ok] by blast
    then show ?thesis by (intro exI [of _ "es1 @ es2"]) simp
  qed
  moreover have "extends w u" using world_step_extends [OF step(2) ok] extends_trans [OF ext] by blast
  ultimately show ?case using world_step_ok [OF step(2) ok] by blast
qed

lemma world_start: "world_ok sha (empty_db, Map.empty)"
  using store_reachable_ok [of sha empty_db] by (simp add: world_ok_def artifacts_ok_def store_reachable_def) (simp add: empty_db_def)

subsection \<open>Repeating a write\<close>

lemma claim_operation_row:
  assumes "claim_operation ex opr kind key conflict db = Inr (b, db')"
  shows "operation_row ex (op_operation_id opr) db' = Some (operation_row_of ex opr kind key)"
    "db_artifacts db' = db_artifacts db" "db_objects db' = db_objects db" "db_executions db' = db_executions db"
proof -
  show row: "operation_row ex (op_operation_id opr) db' = Some (operation_row_of ex opr kind key)"
  proof (cases "operation_row ex (op_operation_id opr) db")
    case None
    then show ?thesis
      using assms by (auto simp: claim_operation_def insert_operation_def tx_simps operation_row_append operation_row_of_def split: if_splits)
  next
    case (Some r)
    then have "ow_execution_id r = ex" "ow_operation_id r = op_operation_id opr" by (auto simp: operation_row_def find_Some_iff)
    then show ?thesis using assms Some
      by (auto simp: claim_operation_def tx_simps operation_row_of_def split: if_splits intro: operation_row.equality)
  qed
  show "db_artifacts db' = db_artifacts db" "db_objects db' = db_objects db" "db_executions db' = db_executions db"
    using assms by (auto simp: claim_operation_def insert_operation_def tx_simps split: option.splits if_splits)
qed

lemma store_artifact_rows:
  assumes run: "store_artifact sha ex opr kind key media preview obj conflict db = Inr (a, db')"
  shows "db_artifacts db' = db_artifacts db @ [artifact_row_of sha ex kind key (op_operation_id opr) a]"
    "\<forall>q \<in> set (db_artifacts db). \<not> artifact_clash (artifact_row_of sha ex kind key (op_operation_id opr) a) q"
    "operation_row ex (op_operation_id opr) db' = Some (operation_row_of ex opr kind (artifact_id sha ex kind key @ ''@1''))"
    "db_executions db' = db_executions db"
    "bindr (mk_resource_ref (PyStr ''artifact'') (PyStr (artifact_id sha ex kind key)) (PyInt 1) (PyStr [])) (\<lambda>ref.
      mk_artifact_ref (Inl ref) (PyStr media) (PyInt (snd obj)) (PyStr (fst obj)) (PyStr preview)) = Inr a"
proof -
  let ?r = "artifact_row_of sha ex kind key (op_operation_id opr) a"
  from run obtain b db1 db2 where mk: "bindr (mk_resource_ref (PyStr ''artifact'') (PyStr (artifact_id sha ex kind key)) (PyInt 1) (PyStr [])) (\<lambda>ref.
      mk_artifact_ref (Inl ref) (PyStr media) (PyInt (snd obj)) (PyStr (fst obj)) (PyStr preview)) = Inr a"
      and claim: "claim_operation ex opr kind (artifact_id sha ex kind key @ ''@1'') conflict db = Inr (b, db1)"
      and obj: "insert_object (fst obj) (snd obj) db1 = Inr ((), db2)" and ins: "insert_artifact ?r db2 = Inr ((), db')"
    unfolding store_artifact_def Let_def body_Inr by auto
  have db2: "db_artifacts db2 = db_artifacts db1" "db_operations db2 = db_operations db1" "db_executions db2 = db_executions db1"
    using obj by (auto simp: insert_object_def tx_simps split: if_splits)
  have db': "db_artifacts db' = db_artifacts db2 @ [?r]" "db_operations db' = db_operations db2" "db_executions db' = db_executions db2"
      "\<forall>q \<in> set (db_artifacts db2). \<not> artifact_clash ?r q"
    using ins by (auto simp: insert_artifact_def tx_simps split: if_splits)
  note rows = claim_operation_row [OF claim]
  show "db_artifacts db' = db_artifacts db @ [?r]" "\<forall>q \<in> set (db_artifacts db). \<not> artifact_clash ?r q" "db_executions db' = db_executions db"
    using db2 db' rows by simp_all
  show "operation_row ex (op_operation_id opr) db' = Some (operation_row_of ex opr kind (artifact_id sha ex kind key @ ''@1''))"
    using rows(1) db2(2) db'(2) by (simp add: operation_row_def)
  show "bindr (mk_resource_ref (PyStr ''artifact'') (PyStr (artifact_id sha ex kind key)) (PyInt 1) (PyStr [])) (\<lambda>ref.
      mk_artifact_ref (Inl ref) (PyStr media) (PyInt (snd obj)) (PyStr (fst obj)) (PyStr preview)) = Inr a" by (rule mk)
qed

lemma claim_artifact_again:
  assumes run: "claim_artifact sha ex opr kind key n m v obj conflict db = Inr (a, db')"
    and m: "required_text ''media_type'' 255 False (PyStr m) = Inr m" and v: "optional_text ''preview'' 4096 (PyStr v) = Inr v"
  shows "claim_artifact sha ex opr kind key n m v obj conflict db' = Inr (a, db')"
proof (cases "operation_row ex (op_operation_id opr) db")
  case (Some p)
  then have db': "db' = ensured ex db" and replay: "replayed_artifact sha ex opr p kind key m v obj conflict db' = Inr (a, db')"
    using run by (auto simp: claim_artifact_def replayed_artifact_def artifact_by_operation_def body_Inr raise_def split: option.splits if_splits)
  have "ensured ex db' = db'" by (simp add: db' ensured_def has_execution_def)
  with Some db' replay show ?thesis by (simp add: claim_artifact_def body_Inr)
next
  case None
  let ?r = "artifact_row_of sha ex kind key (op_operation_id opr) a"
  from None have st: "store_artifact sha ex opr kind key m v obj conflict (ensured ex db) = Inr (a, db')"
    using run by (simp add: claim_artifact_def body_Inr)
  note rows = store_artifact_rows [OF st]
  note a = new_artifact [OF rows(5)]
  have "ar_media_type a = m" "ar_preview a = v"
    using rows(5) m v by (auto simp: mk_artifact_ref_def bindr_eq_Inr split: if_splits)
  moreover have "has_execution db' ex" using rows(4) by (simp add: has_execution_def ensured_def map_add_def)
  moreover have "find (\<lambda>r. aw_execution_id r = ex \<and> aw_operation_id r = op_operation_id opr) (db_artifacts db') = Some ?r"
  proof -
    have "find (\<lambda>r. aw_execution_id r = ex \<and> aw_operation_id r = op_operation_id opr) (db_artifacts (ensured ex db)) = None"
      using rows(2) by (auto simp: find_None_iff artifact_clash_def artifact_row_of_def Let_def)
    then show ?thesis unfolding rows(1) by (simp add: find_append) (simp add: artifact_row_of_def Let_def)
  qed
  ultimately show ?thesis
    using rows(3) a artifact_from_row_of [OF a(1), of sha ex kind key "op_operation_id opr"]
    by (simp add: claim_artifact_def replayed_artifact_def artifact_by_operation_def body_Inr tx_simps ensured_def operation_row_of_def)
qed

lemma install_again: "install_object sha content fs = (Inr obj, fs') \<Longrightarrow> install_object sha content fs' = (Inr obj, fs')"
  by (auto simp: install_object_def Let_def object_path_def read_object_def link_object_def bindr_eq_Inr split: if_splits option.splits)

lemma put_again:
  assumes "put_artifact sha ex content media opr preview kind key expected conflict db fs = (Inr a, db', fs')"
  shows "put_artifact sha ex content media opr preview kind key expected conflict db' fs' = (Inr a, db', fs')"
proof -
  obtain n m v obj where n: "nonnegative_int ''expected_revision'' expected = Inr n" and m: "required_text ''media_type'' 255 False (PyStr media) = Inr m"
      and v: "(if preview = [] then Inr [] else required_text ''preview'' 4096 False (PyStr preview)) = Inr v"
      and obj: "install_object sha content fs = (Inr obj, fs')" and body: "claim_artifact sha ex opr kind key n m v obj conflict db = Inr (a, db')"
    using assms by (auto simp: put_artifact_def ftransaction_Inr put_artifact_with_connection_def ftx_simps body_Inr)
  have "required_text ''media_type'' 255 False (PyStr m) = Inr m" using m by (rule required_text_normal)
  moreover have "optional_text ''preview'' 4096 (PyStr v) = Inr v"
    using v required_text_normal by (auto simp: optional_text_def split: if_splits)
  ultimately have "claim_artifact sha ex opr kind key n m v obj conflict db' = Inr (a, db')" using claim_artifact_again [OF body] by blast
  with n m v install_again [OF obj] show ?thesis
    by (simp add: put_artifact_def ftransaction_def put_artifact_with_connection_def bindf_def liftf_def on_files_def lift_res_def)
qed

subsection \<open>Properties\<close>

definition world_reachable :: "(blob \<Rightarrow> string) \<Rightarrow> (rat \<Rightarrow> string) \<Rightarrow> world \<Rightarrow> bool" where
  "world_reachable sha fr = (world_step sha fr)\<^sup>*\<^sup>* (empty_db, Map.empty)"

lemma world_reachable_ok: "world_reachable sha fr w \<Longrightarrow> world_ok sha w"
  using world_run_ok world_start unfolding world_reachable_def by blast

text \<open>
  C11: An artifact that \<open>put\<close> stored stays readable, with the length and the digest of the content it was stored for,
  through any later sequence of these operations of the repositories of any executions: journal appends, appends
  with artifacts, artifact puts, execution bindings and lease swaps, each succeeding or failing. (Chat deletion, which
  removes artifacts on purpose, and the writes of run bundles and of provider turn results are not among them.)
\<close>
theorem stored_artifact_stays_readable:
  assumes "world_reachable sha fr (db, fs)" "put sha ex content media opr preview db fs = (Inr a, w)" "(world_step sha fr)\<^sup>*\<^sup>* w w'"
  shows "\<exists>c. read_full_verified sha ex a (fst w') (snd w') = Inr c \<and> length c = length content \<and> sha (Octets c) = sha (Octets content)"
proof -
  obtain db1 fs1 where w: "w = (db1, fs1)" by fastforce
  have run: "put_artifact sha ex content media opr preview ''artifact'' (op_operation_id opr) 0 context_conflict db fs = (Inr a, db1, fs1)"
    using assms(2) by (simp add: put_def w)
  have ok: "world_ok sha (db, fs)" by (rule world_reachable_ok [OF assms(1)])
  obtain r where r: "r \<in> set (db_artifacts db1)" "describes sha ex opr content a r"
    using put_ok [of sha ex content media opr preview "''artifact''" "op_operation_id opr" 0 context_conflict db fs a db1 fs1] run ok
    by (auto simp: put_artifact_def ftransaction_Inr world_ok_def)
  have "world_step sha fr (db, fs) (db1, fs1)"
    using world_step.world_put [of "''artifact''" sha fr db fs ex content media opr preview "op_operation_id opr" 0 context_conflict] run
    by (simp add: artifact_kinds_def)
  then have "world_ok sha w" using world_step_ok ok w by blast
  from world_run_ok [OF assms(3) this] have "world_ok sha w'" "r \<in> set (db_artifacts (fst w'))" using r(1) w by (auto simp: extends_def)
  then show ?thesis using readable_described [OF _ _ r(2)] by (simp add: world_ok_def)
qed

text \<open>
  C10: An event and its artifacts are stored together: when the append fails no row has changed, when it
  succeeds the event is at the end of the log and every artifact is readable, and when it repeats an
  earlier append the log is as it was and every artifact's operation is on record.
\<close>
theorem event_and_artifacts_are_atomic:
  assumes "world_reachable sha fr (db, fs)" "holds_log sha ex db es" "append_request_ok q"
    "append_with_artifacts sha fr ex q ps pre db fs = (r, db', fs')"
  shows "case r of
     Inl e \<Rightarrow> db' = db
   | Inr x \<Rightarrow>
       if res_duplicate x then res_event x \<in> set es \<and> holds_log sha ex db' es \<and>
         list_all (\<lambda>p. \<exists>row. operation_row ex (op_operation_id (pa_operation p)) db' = Some row \<and>
           ow_payload_sha256 row = op_payload_sha256 (pa_operation p)) ps
       else holds_log sha ex db' (es @ [res_event x]) \<and>
         list_all (\<lambda>p. \<exists>a c. ar_sha256 a = sha (Octets (pa_content p)) \<and> read_full_verified sha ex a db' fs' = Inr c \<and>
           length c = length (pa_content p) \<and> sha (Octets c) = sha (Octets (pa_content p))) ps"
proof (cases r)
  case (Inl e)
  then show ?thesis using assms(4) by (auto simp: append_with_artifacts_def ftransaction_def split: sum.splits prod.splits)
next
  case (Inr x)
  have ok: "artifacts_ok sha db fs" using world_reachable_ok [OF assms(1)] by (simp add: world_ok_def)
  note cases = append_with_artifacts_Inr [OF assms(4) [unfolded Inr] assms(2,3)]
  show ?thesis
  proof (cases "res_duplicate x")
    case True
    with cases have dup: "res_event x \<in> set es" "db' = ensured ex db" "verify_all ex ps db' = Inr ((), db')" by auto
    then show ?thesis using Inr True holds_ensured(1) [OF assms(2)] verified_operations [OF dup(3)] by simp
  next
    case False
    note h = append_with_artifacts_holds [OF ok assms(2,3) assms(4) [unfolded Inr] False]
    have "\<exists>a c. ar_sha256 a = sha (Octets (pa_content p)) \<and> read_full_verified sha ex a db' fs' = Inr c \<and>
        length c = length (pa_content p) \<and> sha (Octets c) = sha (Octets (pa_content p))" if p: "p \<in> set ps" for p
    proof -
      obtain a r where d: "r \<in> set (db_artifacts db')" "describes sha ex (pa_operation p) (pa_content p) a r"
        using bspec [OF conjunct2 [OF conjunct2 [OF conjunct2 [OF h]]] p] by (elim exE bexE)
      moreover have "artifacts_ok sha db' fs'" "ar_sha256 a = sha (Octets (pa_content p))" using conjunct1 [OF conjunct2 [OF h]] d(2) by (simp_all add: describes_def)
      ultimately show ?thesis using readable_described by blast
    qed
    then show ?thesis using Inr False h by (simp add: list_all_iff)
  qed
qed

text \<open>Repeating a successful write of an artifact returns the same artifact and changes neither rows nor files.\<close>
theorem repeated_put_is_answered:
  "put sha ex content media opr preview db fs = (Inr a, db', fs') \<Longrightarrow>
   put sha ex content media opr preview db' fs' = (Inr a, db', fs')"
  unfolding put_def by (rule put_again)

text \<open>
  C12: After any sequence, from the empty store, of journal appends, appends with artifacts, artifact puts, execution
  bindings and lease swaps of any executions, each succeeding or failing, every journal is a gapless log, every lease
  history is consistent and every artifact on record is readable under its own execution. (Chat deletion and the
  writes of run bundles and of provider turn results are not among these operations.)
\<close>
theorem durable_world_consistent:
  assumes "world_reachable sha fr w"
  shows "(\<exists>es. holds_log sha ex (fst w) es) \<and> leases_ok sha ex (fst w) \<and>
    list_all (\<lambda>r. \<exists>a c. artifact_from_row sha r = Inr a \<and> read_full_verified sha (aw_execution_id r) a (fst w) (snd w) = Inr c \<and>
      sha (Octets c) = aw_object_sha256 r) (db_artifacts (fst w))"
proof -
  have ok: "world_ok sha w" by (rule world_reachable_ok [OF assms])
  have "\<exists>a c. artifact_from_row sha r = Inr a \<and> read_full_verified sha (aw_execution_id r) a (fst w) (snd w) = Inr c \<and>
      sha (Octets c) = aw_object_sha256 r" if r: "r \<in> set (db_artifacts (fst w))" for r
  proof -
    obtain a where a: "artifact_from_row sha r = Inr a" using ok r by (auto simp: world_ok_def artifacts_ok_def row_sound_def)
    then have "ar_sha256 a = aw_object_sha256 r" by (auto simp: artifact_from_row_def split: if_splits option.splits sum.splits)
    then show ?thesis using row_readable [OF _ r a] ok a by (auto simp: world_ok_def)
  qed
  then show ?thesis using ok by (auto simp: world_ok_def list_all_iff)
qed

subsection \<open>A first artifact\<close>

definition demo_digest_0 :: string where
  "demo_digest_0 = replicate 64 (CHR ''0'')"

definition demo_artifact :: artifact_ref where
  "demo_artifact = \<lparr>ar_ref = \<lparr>rr_kind = ''artifact'', rr_resource_id = ''artifact-'' @ demo_digest_0, rr_revision = 1, rr_fragment = []\<rparr>,
     ar_media_type = ''text/plain'', ar_byte_length = 5, ar_sha256 = demo_digest_0, ar_preview = []\<rparr>"

definition demo_pending :: pending_artifact where
  "demo_pending = \<lparr>pa_content = ''hello'', pa_media_type = ''text/plain'', pa_operation = demo_operation ''op-2'', pa_preview = []\<rparr>"

abbreviation demo_put :: "(py_exc, artifact_ref) res \<times> world" where
  "demo_put \<equiv> put zero_digest ''exec-1'' ''hello'' ''text/plain'' (demo_operation ''op-2'') [] empty_db Map.empty"

abbreviation demo_append :: "(py_exc, append_result) res \<times> world" where
  "demo_append \<equiv> append_with_artifacts zero_digest (\<lambda>q. []) ''exec-1'' (demo_request ''call-1'') [demo_pending] None empty_db Map.empty"

lemma demo_put_result: "fst demo_put = Inr demo_artifact"
  by code_simp

lemma demo_reachable: "world_reachable sha fr (empty_db, Map.empty)"
  by (simp add: world_reachable_def)

lemma demo_pending_content: "pa_content demo_pending = ''hello''"
  by (simp add: demo_pending_def)

lemma demo_append_result:
  "fst demo_append = Inr \<lparr>res_event = event_of (demo_request ''call-1'') 1, res_cursor = event_cursor_of (event_of (demo_request ''call-1'') 1),
     res_duplicate = False\<rparr>"
  by code_simp

theorem stored_artifact_stays_readable_witness:
  "\<exists>c. read_full_verified zero_digest ''exec-1'' demo_artifact (fst (snd demo_put)) (snd (snd demo_put)) = Inr c \<and>
     length c = length ''hello'' \<and> zero_digest (Octets c) = zero_digest (Octets ''hello'')"
proof -
  have "demo_put = (Inr demo_artifact, snd demo_put)" using demo_put_result by (metis prod.collapse)
  from stored_artifact_stays_readable [OF demo_reachable this rtranclp.rtrancl_refl] show ?thesis .
qed

theorem event_and_artifacts_are_atomic_witness:
  "holds_log zero_digest ''exec-1'' (fst (snd demo_append)) [event_of (demo_request ''call-1'') 1] \<and>
   (\<exists>a c. read_full_verified zero_digest ''exec-1'' a (fst (snd demo_append)) (snd (snd demo_append)) = Inr c \<and> length c = length ''hello'')"
proof -
  have "demo_append = (Inr \<lparr>res_event = event_of (demo_request ''call-1'') 1,
      res_cursor = event_cursor_of (event_of (demo_request ''call-1'') 1), res_duplicate = False\<rparr>, fst (snd demo_append), snd (snd demo_append))"
    using demo_append_result by (metis prod.collapse)
  from event_and_artifacts_are_atomic [OF demo_reachable empty_db_holds demo_request_ok(1) this] show ?thesis
    by (simp add: demo_pending_content) blast
qed

theorem repeated_put_is_answered_witness:
  "put zero_digest ''exec-1'' ''hello'' ''text/plain'' (demo_operation ''op-2'') [] (fst (snd demo_put)) (snd (snd demo_put)) =
     (Inr demo_artifact, snd demo_put)"
proof -
  have "demo_put = (Inr demo_artifact, fst (snd demo_put), snd (snd demo_put))" using demo_put_result by (metis prod.collapse)
  from repeated_put_is_answered [OF this] show ?thesis by simp
qed

theorem durable_world_consistent_witness:
  "(\<exists>es. holds_log zero_digest ''exec-1'' (fst (snd demo_put)) es) \<and> leases_ok zero_digest ''exec-1'' (fst (snd demo_put))"
proof -
  have "world_step zero_digest (\<lambda>q. []) (empty_db, Map.empty) (snd demo_put)"
    unfolding put_def by (rule world_step.world_put) (simp add: artifact_kinds_def)
  then have "world_reachable zero_digest (\<lambda>q. []) (snd demo_put)" by (simp add: world_reachable_def)
  from durable_world_consistent [OF this] show ?thesis by blast
qed

end
