(* ===== verification/DurableWorld.thy ===== *)
theory DurableWorld
  imports ToolRecovery SqlArtifacts
begin

section \<open>The sink on the durable store\<close>

text \<open>
  The event sink of \<open>journal/runtime.py\<close> on the store of \<open>persistence/sqlite_v2.py\<close> with its object files: the
  tables and the directory together are a journal in the sense of the sink's interface, so that
  replay and recovery are available on them, and a prepared event is stored with its artifacts.
\<close>

definition world_journal ::
  "(blob \<Rightarrow> string) \<Rightarrow> (rat \<Rightarrow> string) \<Rightarrow> string \<Rightarrow>
   (world, pending_artifact, journal_snapshot \<Rightarrow> (py_exc, unit) res) journal_port" where
  "world_journal sha fr ex =
     \<lparr>jp_execution_id = ex,
      jp_append = (\<lambda>q w. case append_event sha ex q (fst w) of (r, db) \<Rightarrow> (r, (db, snd w))),
      jp_read = (\<lambda>after limit w. read_events sha ex after limit (fst w)),
      jp_append_with_artifacts = (\<lambda>q ps pre w. append_with_artifacts sha fr ex q ps pre (fst w) (snd w)),
      jp_lookup = Some (\<lambda>a call w. lookup_tool_execution_receipts sha ex a call (fst w))\<rparr>"

definition world_holds :: "(blob \<Rightarrow> string) \<Rightarrow> string \<Rightarrow> world \<Rightarrow> journal_event list \<Rightarrow> bool" where
  "world_holds sha ex w es = sql_holds sha ex (fst w) es"

text \<open>The tables alone, with an append with artifacts that is never used.\<close>

abbreviation tables :: "(blob \<Rightarrow> string) \<Rightarrow> string \<Rightarrow> (store_db, pending_artifact, unit) journal_port" where
  "tables sha ex \<equiv> sql_journal sha ex (\<lambda>q ps pre db. (Inl (TypeExc []), db))"

lemma world_append_tables:
  "jp_append (world_journal sha fr ex) q w = (r, w') \<Longrightarrow> jp_append (tables sha ex) q (fst w) = (r, fst w')"
  by (auto simp: world_journal_def sql_journal_def split: prod.splits)

interpretation durable: event_journal "world_journal sha fr ex" "world_holds sha ex" for sha fr ex
proof
  fix st es
  assume "world_holds sha ex st es"
  then show "log_ok (jp_execution_id (world_journal sha fr ex)) es"
    using journal.log [of sha ex "fst st" es] by (simp add: world_holds_def world_journal_def sql_journal_def)
next
  fix st es i n
  assume "world_holds sha ex st es" "i \<le> length es" "1 \<le> n" "n \<le> max_replay_page_size"
  then show "jp_read (world_journal sha fr ex) (cursor_at es i) n st =
      Inr \<lparr>pg_events = take (nat n) (drop i es), pg_next_cursor = cursor_at es (min (i + nat n) (length es)),
           pg_has_more = (i + nat n < length es)\<rparr>"
    using journal.read [of sha ex "fst st" es i n] by (simp add: world_holds_def world_journal_def sql_journal_def)
next
  fix st es q x st'
  assume a: "world_holds sha ex st es" "append_request_ok q"
    "gr_execution_id (at_generation (rq_attempt q)) = jp_execution_id (world_journal sha fr ex)"
    "jp_append (world_journal sha fr ex) q st = (Inr x, st')" "\<not> res_duplicate x"
  then show "res_event x = event_of q (int (length es) + 1) \<and> world_holds sha ex st' (es @ [res_event x])"
    using journal.append_new [OF a(1) [unfolded world_holds_def] a(2) _ world_append_tables [OF a(4)] a(5)] by (auto simp: world_holds_def world_journal_def sql_journal_def)
next
  fix st es q x st'
  assume a: "world_holds sha ex st es" "append_request_ok q"
    "gr_execution_id (at_generation (rq_attempt q)) = jp_execution_id (world_journal sha fr ex)"
    "jp_append (world_journal sha fr ex) q st = (Inr x, st')" "res_duplicate x"
  then show "res_event x \<in> set es \<and> request_matches_event q (res_event x) \<and> world_holds sha ex st' es"
    using journal.append_known [OF a(1) [unfolded world_holds_def] a(2) _ world_append_tables [OF a(4)] a(5)] by (simp add: world_holds_def world_journal_def sql_journal_def)
next
  fix st es q e
  assume a: "world_holds sha ex st es" "append_request_ok q"
    "gr_execution_id (at_generation (rq_attempt q)) = jp_execution_id (world_journal sha fr ex)"
    "e \<in> set es" "request_matches_event q e"
  from journal.append_again [OF _ a(2) _ a(4,5), of sha ex "fst st" "\<lambda>q ps pre db. (Inl (TypeExc []), db)"] a(1,3)
  obtain x db where "append_event sha ex q (fst st) = (Inr x, db)" "res_event x = e" "res_duplicate x" "sql_holds sha ex db es"
    by (auto simp: world_holds_def world_journal_def sql_journal_def)
  then show "\<exists>x st'. jp_append (world_journal sha fr ex) q st = (Inr x, st') \<and> res_event x = e \<and> res_duplicate x \<and> world_holds sha ex st' es"
    by (auto simp: world_holds_def world_journal_def)
next
  fix st es q err st'
  assume a: "world_holds sha ex st es" "append_request_ok q"
    "gr_execution_id (at_generation (rq_attempt q)) = jp_execution_id (world_journal sha fr ex)"
    "jp_append (world_journal sha fr ex) q st = (Inl err, st')"
  then show "world_holds sha ex st' es"
    using journal.append_error [OF a(1) [unfolded world_holds_def] a(2) _ world_append_tables [OF a(4)]] by (simp add: world_holds_def world_journal_def sql_journal_def)
next
  fix st es a f c l
  assume h: "world_holds sha ex st es" "gr_execution_id (at_generation a) = jp_execution_id (world_journal sha fr ex)"
    "jp_lookup (world_journal sha fr ex) = Some f" "required_text ''call_id'' 256 True (PyStr c) = Inr c" "f a (PyStr c) st = Inr l"
  then have "lookup_tool_execution_receipts sha ex a (PyStr c) (fst st) = Inr l" by (auto simp: world_journal_def)
  then show "tl_events l = take max_tool_execution_receipts (receipts_for a c es) \<and>
      tl_overflow l = (length (receipts_for a c es) > max_tool_execution_receipts)"
    using journal.lookup [of sha ex "fst st" es a "\<lambda>q ps pre db. (Inl (TypeExc []), db)" "lookup_tool_execution_receipts sha ex" c l] h
    by (simp add: world_holds_def world_journal_def sql_journal_def)
qed

text \<open>
  A prepared event that the sink of an execution stores is at the end of its log, is exactly the event
  that was requested, and every artifact prepared with it is readable in every later state.
\<close>
theorem prepared_event_is_stored_with_its_artifacts:
  assumes "world_reachable sha fr w" "holds_log sha ex (fst w) es" "sk_journal k = world_journal sha fr ex" "draft_ok (pe_draft p)"
    "append_prepared sha k p pre w = (Inr x, w')" "\<not> res_duplicate x" "(world_step sha fr)\<^sup>*\<^sup>* w' w''" "y \<in> set (pe_artifacts p)"
  shows "holds_log sha ex (fst w') (es @ [res_event x]) \<and>
    (\<exists>q. to_append_request sha (pe_draft p) = Inr q \<and> same_persisted_event q (res_event x)) \<and>
    (\<exists>a c. read_full_verified sha ex a (fst w'') (snd w'') = Inr c \<and> length c = length (pa_content y) \<and>
       sha (Octets c) = sha (Octets (pa_content y)))"
proof -
  obtain q where q: "to_append_request sha (pe_draft p) = Inr q" "same_persisted_event q (res_event x)"
      and run: "append_with_artifacts sha fr ex q (pe_artifacts p) pre (fst w) (snd w) = (Inr x, fst w', snd w')"
    using assms(3,5)
    by (auto simp: append_prepared_def world_journal_def check_persisted_def bindr_eq_Inr Let_def split: option.splits sum.splits prod.splits if_splits)
  have ok: "world_ok sha w" "append_request_ok q" using world_reachable_ok [OF assms(1)] to_append_request_ok [OF q(1) assms(4)] by simp_all
  note h = append_with_artifacts_holds [OF _ assms(2) ok(2) run assms(6)]
  have art: "artifacts_ok sha (fst w) (snd w)" using ok(1) by (simp add: world_ok_def)
  obtain a r where r: "r \<in> set (db_artifacts (fst w'))" "describes sha ex (pa_operation y) (pa_content y) a r"
    using bspec [OF conjunct2 [OF conjunct2 [OF conjunct2 [OF h [OF art]]]] assms(8)] by (elim exE bexE)
  have "world_step sha fr w w'"
    using world_step.world_append [OF ok(2), of sha fr "fst w" "snd w" ex "pe_artifacts p" pre] run by simp
  then have "world_ok sha w'" using world_step_ok ok(1) by blast
  from world_run_ok [OF assms(7) this] have "world_ok sha w''" "r \<in> set (db_artifacts (fst w''))" using r(1) by (auto simp: extends_def)
  then have "\<exists>c. read_full_verified sha ex a (fst w'') (snd w'') = Inr c \<and> length c = length (pa_content y) \<and> sha (Octets c) = sha (Octets (pa_content y))"
    using readable_described [OF _ _ r(2)] by (simp add: world_ok_def)
  then show ?thesis using h [OF art] q by blast
qed

definition demo_prepared :: "pending_artifact prepared_event" where
  "demo_prepared = \<lparr>pe_draft = demo_draft, pe_artifacts = [demo_pending]\<rparr>"

definition demo_world_sink :: "(world, pending_artifact, journal_snapshot \<Rightarrow> (py_exc, unit) res) event_sink" where
  "demo_world_sink = \<lparr>sk_journal = world_journal zero_digest (\<lambda>q. []) ''exec-1'', sk_attempt = demo_attempt,
     sk_projector = (\<lambda>ev. Inr (Some demo_draft))\<rparr>"

abbreviation demo_stored :: "(py_exc, append_result) res \<times> world" where
  "demo_stored \<equiv> append_prepared zero_digest demo_world_sink demo_prepared None (empty_db, Map.empty)"

lemma demo_stored_result: "(case fst demo_stored of Inr x \<Rightarrow> \<not> res_duplicate x | Inl _ \<Rightarrow> False)"
  by code_simp

theorem prepared_event_is_stored_with_its_artifacts_witness:
  "(\<exists>e. holds_log zero_digest ''exec-1'' (fst (snd demo_stored)) [e]) \<and>
   (\<exists>a c. read_full_verified zero_digest ''exec-1'' a (fst (snd demo_stored)) (snd (snd demo_stored)) = Inr c \<and> length c = length ''hello'')"
proof -
  obtain x where x: "demo_stored = (Inr x, snd demo_stored)" "\<not> res_duplicate x"
    using demo_stored_result by (cases "fst demo_stored") (simp_all, metis prod.collapse)
  have sink: "sk_journal demo_world_sink = world_journal zero_digest (\<lambda>q. []) ''exec-1''" by (simp add: demo_world_sink_def)
  have ok: "draft_ok (pe_draft demo_prepared)" by code_simp
  have h: "holds_log zero_digest ''exec-1'' (fst (empty_db, Map.empty :: files)) []" using empty_db_holds by simp
  have y: "demo_pending \<in> set (pe_artifacts demo_prepared)" by (simp add: demo_prepared_def)
  from prepared_event_is_stored_with_its_artifacts [OF demo_reachable h sink ok x rtranclp.rtrancl_refl y]
  show ?thesis by (simp add: demo_pending_content) blast
qed


subsection \<open>Recovery of tool calls\<close>

text \<open>Every step of the store and its files extends the log of every execution.\<close>

lemma world_step_bounded_log:
  assumes "world_step sha fr w w'" "world_ok sha w" "world_holds sha ex w es"
  shows "\<exists>fs. world_holds sha ex w' (es @ fs)"
proof -
  have h: "holds_log sha ex (fst w) es" "sql_range (int (length es) + 1)" using assms(3) by (simp_all add: world_holds_def sql_holds_def)
  from assms(1) show ?thesis
  proof cases
    case (world_store db db' files)
    then show ?thesis using store_step_bounded_log assms(3) by (simp add: world_holds_def)
  next
    case (world_put kind db files ex' content media opr preview key expected conflict)
    obtain r db' files' where run: "put_artifact sha ex' content media opr preview kind key expected conflict db files = (r, db', files')" by (metis prod.collapse)
    have "kind \<noteq> ''journal_event''" using world_put(3) by (auto simp: artifact_kinds_def)
    then have "adds_artifacts db db'" using ftransaction_keeps [OF put_adds adds_artifacts_refl run [unfolded put_artifact_def]] by blast
    then have "holds_log sha ex db' es" using adds_artifacts_log h(1) world_put(1) by simp
    then show ?thesis using h(2) world_put(2) run by (intro exI [of _ "[]"]) (simp add: world_holds_def sql_holds_def)
  next
    case (world_append q db files ex' ps pre)
    obtain r db' files' where run: "append_with_artifacts sha fr ex' q ps pre db files = (r, db', files')" by (metis prod.collapse)
    have ok: "artifacts_ok sha db files" using assms(2) world_append(1) by (simp add: world_ok_def)
    have w': "w' = (db', files')" using world_append(2) run by simp
    show ?thesis
    proof (cases "ex' = ex \<and> (\<exists>x. r = Inr x \<and> \<not> res_duplicate x)")
      case True
      then obtain x where x: "r = Inr x" "\<not> res_duplicate x" and ex': "ex' = ex" by blast
      from append_with_artifacts_holds [OF ok _ world_append(3) run [unfolded x(1) ex'] x(2), of es] h(1) world_append(1)
      have "holds_log sha ex db' (es @ [res_event x])" "sql_range (int (length es) + 2)" by simp_all
      then have "sql_holds sha ex db' (es @ [res_event x])" by (simp add: sql_holds_def add.commute)
      then show ?thesis unfolding w' world_holds_def fst_conv by blast
    next
      case False
      have "holds_log sha ex db' es"
      proof (cases "ex' = ex")
        case True
        then show ?thesis
          using append_with_artifacts_rest [OF _ world_append(3) run, of es] adds_artifacts_log h(1) False world_append(1) by auto
      next
        case ne: False
        then show ?thesis using holds_log_view [OF append_with_artifacts_view [OF ne run]] h(1) world_append(1) by simp
      qed
      then show ?thesis using h(2) by (intro exI [of _ "[]"]) (simp add: w' world_holds_def sql_holds_def)
    qed
  qed
qed

lemma world_run_log:
  assumes "(world_step sha fr)\<^sup>*\<^sup>* w w'" "world_ok sha w" "world_holds sha ex w es"
  shows "\<exists>fs. world_holds sha ex w' (es @ fs)"
proof -
  have "world_ok sha w' \<and> (\<exists>fs. world_holds sha ex w' (es @ fs))"
    using assms(1)
  proof (induction rule: rtranclp_induct)
    case base
    then show ?case using assms(2,3) by (auto intro: exI [of _ "[]"])
  next
    case (step u v)
    then obtain fs where ok: "world_ok sha u" and "world_holds sha ex u (es @ fs)" by blast
    then obtain gs where "world_holds sha ex v ((es @ fs) @ gs)" using world_step_bounded_log [OF step(2)] by blast
    then show ?case using world_step_ok [OF step(2) ok] by auto
  qed
  then show ?thesis ..
qed

text \<open>
  C13: Once the journal holds, for a call of an attempt, a receipt that is not its intent (a start, a sealed completion
  or a result), recovery never allows the call to be executed automatically again, after any further sequence of
  these operations of any executions: journal appends, appends with artifacts, artifact puts, execution bindings and
  lease swaps, each succeeding or failing. (Chat deletion, which removes events, and the writes of run bundles
  and of provider turn results are not among them.)
\<close>
theorem started_tool_is_never_auto_executed:
  assumes "world_reachable sha fr w" "holds_log sha ex (fst w) es" "sql_range (int (length es) + 1)"
    and "mk_event_sink (world_journal sha fr ex) (Inl a) projector = Inr k"
    and "e \<in> set es" "has_receipt a (''tool_execution'', Some c, None) e" "ev_event_type e \<noteq> ''tool_call''"
    and "(world_step sha fr)\<^sup>*\<^sup>* w w2" "required_text ''call_id'' 256 True call = Inr c"
    and "recover_tool_side_effect fr k call n w2 = Inr r"
  shows "\<not> auto_execute_allowed r"
proof -
  have "world_holds sha ex w es" using assms(2,3) by (simp add: world_holds_def sql_holds_def)
  then obtain fs where h: "world_holds sha ex w2 (es @ fs)" using world_run_log [OF assms(8) world_reachable_ok [OF assms(1)]] by blast
  note k = sink_of [OF assms(4)]
  have "e \<in> set (receipts_for (sk_attempt k) c (es @ fs))" "\<not> is_intent e"
    using assms(5-7) k(2) by (simp_all add: receipts_for_def is_intent_def)
  from durable.recover_started [OF h k(1) _ assms(10,9) this] k show ?thesis by simp
qed

text \<open>
  C14: The state recovered for a call of which the journal holds a receipt only moves forward: not started, started,
  sealed, reusable result, corrupt. If a recovery finds at least one receipt of the call (its intent, say), then no
  later recovery reports an earlier state, after any sequence of these operations of any executions in between:
  journal appends, appends with artifacts, artifact puts, execution bindings and lease swaps, each succeeding or failing.
  (Without any receipt recovery reports a corrupt journal, and a later intent makes that not started. Chat deletion and
  the writes of run bundles and of provider turn results are not among the operations.)
\<close>
theorem tool_recovery_moves_forward:
  assumes "world_reachable sha fr w" "holds_log sha ex (fst w) es" "sql_range (int (length es) + 1)"
    and "mk_event_sink (world_journal sha fr ex) (Inl a) projector = Inr k"
    and "\<exists>e \<in> set es. has_receipt a (''tool_execution'', Some c, None) e" "required_text ''call_id'' 256 True call = Inr c"
    and "recover_tool_side_effect fr k call n w = Inr r"
    and "(world_step sha fr)\<^sup>*\<^sup>* w w2" "recover_tool_side_effect fr k call n2 w2 = Inr r2"
  shows "rank (tr_state r) \<le> rank (tr_state r2)"
proof -
  have h: "world_holds sha ex w es" using assms(2,3) by (simp add: world_holds_def sql_holds_def)
  then obtain fs where h2: "world_holds sha ex w2 (es @ fs)" using world_run_log [OF assms(8) world_reachable_ok [OF assms(1)]] by blast
  note k = sink_of [OF assms(4)]
  have "receipts_for (sk_attempt k) c es \<noteq> []" using assms(5) k(2) by (auto simp: receipts_for_def filter_empty_conv)
  from durable.recover_forward [OF h h2 k(1) _ assms(7,9,6) this] k show ?thesis by simp
qed

text \<open>The small run of \<open>ToolRecovery\<close> on the store with its files.\<close>

definition demo_recoverer :: "(world, pending_artifact, journal_snapshot \<Rightarrow> (py_exc, unit) res) event_sink" where
  "demo_recoverer = \<lparr>sk_journal = world_journal zero_digest (\<lambda>q. []) ''exec-1'', sk_attempt = demo_attempt,
     sk_projector = (\<lambda>ev. Inr (Some demo_draft))\<rparr>"

lemma demo_recoverer_made:
  "mk_event_sink (world_journal zero_digest (\<lambda>q. []) ''exec-1'') (Inl demo_attempt) (\<lambda>ev. Inr (Some demo_draft)) = Inr demo_recoverer"
  by (simp add: mk_event_sink_def demo_recoverer_def world_journal_def demo_attempt_def)

lemma demo_world_recovery:
  "recover_tool_side_effect (\<lambda>q. []) demo_recoverer (PyStr ''call-1'') (PyInt 100) w =
   recover_tool_side_effect (\<lambda>q. []) demo_sink (PyStr ''call-1'') (PyInt 100) (fst w)"
proof -
  have t: "required_text ''call_id'' 256 True (PyStr ''call-1'') = Inr ''call-1''" by code_simp
  show ?thesis
    by (simp add: recover_tool_side_effect_def t check_page_size_def max_replay_page_size_def demo_sink_def demo_recoverer_def
        sql_journal_def world_journal_def)
qed

lemma demo_requests_ok: "q \<in> set demo_requests \<Longrightarrow> append_request_ok q"
  unfolding demo_requests_def by (auto; rule demo_tool_ok; code_simp)

lemma demo_appends:
  assumes "set qs \<subseteq> set demo_requests"
  shows "(world_step zero_digest fr)\<^sup>*\<^sup>* (db, files) (fold (\<lambda>q db. snd (append_event zero_digest ''exec-1'' q db)) qs db, files)"
  using assms
proof (induction qs arbitrary: db)
  case (Cons q qs)
  then have "world_step zero_digest fr (db, files) (snd (append_event zero_digest ''exec-1'' q db), files)"
    using demo_requests_ok by (intro world_step.world_store store_step.step_append) simp
  then show ?case using Cons.IH [of "snd (append_event zero_digest ''exec-1'' q db)"] Cons.prems by (simp add: converse_rtranclp_into_rtranclp)
qed simp

lemma demo_two_reachable: "world_reachable zero_digest fr (demo_store (take 2 demo_requests), Map.empty)"
  unfolding world_reachable_def demo_store_def by (rule demo_appends) (auto dest: in_set_takeD)

lemma demo_three_later:
  "(world_step zero_digest fr)\<^sup>*\<^sup>* (demo_store (take 2 demo_requests), files) (demo_store demo_requests, files)"
proof -
  have "demo_store demo_requests = fold (\<lambda>q db. snd (append_event zero_digest ''exec-1'' q db)) (drop 2 demo_requests) (demo_store (take 2 demo_requests))"
    unfolding demo_store_def by (metis append_take_drop_id fold_append comp_apply)
  then show ?thesis using demo_appends [of "drop 2 demo_requests" fr "demo_store (take 2 demo_requests)" files] by (auto dest: in_set_dropD)
qed

lemma demo_world_recoveries:
  "\<exists>r. recover_tool_side_effect (\<lambda>q. []) demo_recoverer (PyStr ''call-1'') (PyInt 100) (demo_store (take 2 demo_requests), files) = Inr r \<and>
     tr_state r = UncertainAfterStart"
  "\<exists>r. recover_tool_side_effect (\<lambda>q. []) demo_recoverer (PyStr ''call-1'') (PyInt 100) (demo_store demo_requests, files) = Inr r \<and>
     tr_state r = TerminalReusable"
proof -
  have "case decide_recovery (\<lambda>q. []) ''call-1'' (demo_log (take 2 demo_requests)) of Inr r \<Rightarrow> tr_state r = UncertainAfterStart | _ \<Rightarrow> False"
    "case decide_recovery (\<lambda>q. []) ''call-1'' (demo_log demo_requests) of Inr r \<Rightarrow> tr_state r = TerminalReusable | _ \<Rightarrow> False" by code_simp+
  then show "\<exists>r. recover_tool_side_effect (\<lambda>q. []) demo_recoverer (PyStr ''call-1'') (PyInt 100) (demo_store (take 2 demo_requests), files) = Inr r \<and>
     tr_state r = UncertainAfterStart"
    "\<exists>r. recover_tool_side_effect (\<lambda>q. []) demo_recoverer (PyStr ''call-1'') (PyInt 100) (demo_store demo_requests, files) = Inr r \<and>
     tr_state r = TerminalReusable"
    unfolding demo_world_recovery fst_conv demo_recoveries by (auto split: sum.splits)
qed

lemma demo_two_facts:
  "demo_log (take 2 demo_requests) ! 1 \<in> set (demo_log (take 2 demo_requests))"
  "has_receipt demo_attempt (''tool_execution'', Some ''call-1'', None) (demo_log (take 2 demo_requests) ! 1)"
  "ev_event_type (demo_log (take 2 demo_requests) ! 1) \<noteq> ''tool_call''"
  "required_text ''call_id'' 256 True (PyStr ''call-1'') = Inr ''call-1''"
  "sql_range (int (length (demo_log (take 2 demo_requests))) + 1)"
  by code_simp+

lemma demo_two_holds: "holds_log zero_digest ''exec-1'' (fst (demo_store (take 2 demo_requests), files)) (demo_log (take 2 demo_requests))"
  unfolding fst_conv by (rule demo_holds(1))

theorem started_tool_is_never_auto_executed_witness:
  "\<exists>r. (world_step zero_digest (\<lambda>q. []))\<^sup>*\<^sup>* (demo_store (take 2 demo_requests), Map.empty) (demo_store demo_requests, Map.empty) \<and>
     recover_tool_side_effect (\<lambda>q. []) demo_recoverer (PyStr ''call-1'') (PyInt 100) (demo_store demo_requests, Map.empty) = Inr r \<and>
     tr_state r = TerminalReusable \<and> \<not> auto_execute_allowed r"
proof -
  obtain r where r: "recover_tool_side_effect (\<lambda>q. []) demo_recoverer (PyStr ''call-1'') (PyInt 100) (demo_store demo_requests, Map.empty) = Inr r"
    "tr_state r = TerminalReusable" using demo_world_recoveries(2) by blast
  have "\<not> auto_execute_allowed r"
    by (rule started_tool_is_never_auto_executed [OF demo_two_reachable demo_two_holds demo_two_facts(5) demo_recoverer_made
        demo_two_facts(1-3) demo_three_later demo_two_facts(4) r(1)])
  with r demo_three_later show ?thesis by blast
qed

theorem tool_recovery_moves_forward_witness:
  "\<exists>r r2. recover_tool_side_effect (\<lambda>q. []) demo_recoverer (PyStr ''call-1'') (PyInt 100) (demo_store (take 2 demo_requests), Map.empty) = Inr r \<and>
     recover_tool_side_effect (\<lambda>q. []) demo_recoverer (PyStr ''call-1'') (PyInt 100) (demo_store demo_requests, Map.empty) = Inr r2 \<and>
     tr_state r = UncertainAfterStart \<and> tr_state r2 = TerminalReusable \<and> rank (tr_state r) \<le> rank (tr_state r2)"
proof -
  obtain r r2 where r: "recover_tool_side_effect (\<lambda>q. []) demo_recoverer (PyStr ''call-1'') (PyInt 100) (demo_store (take 2 demo_requests), Map.empty) = Inr r"
    "tr_state r = UncertainAfterStart"
    and r2: "recover_tool_side_effect (\<lambda>q. []) demo_recoverer (PyStr ''call-1'') (PyInt 100) (demo_store demo_requests, Map.empty) = Inr r2"
    "tr_state r2 = TerminalReusable" using demo_world_recoveries by blast
  have "\<exists>e \<in> set (demo_log (take 2 demo_requests)). has_receipt demo_attempt (''tool_execution'', Some ''call-1'', None) e"
    using demo_two_facts(1,2) by blast
  from tool_recovery_moves_forward [OF demo_two_reachable demo_two_holds demo_two_facts(5) demo_recoverer_made this demo_two_facts(4)
      r(1) demo_three_later r2(1)] r r2 show ?thesis by blast
qed

end
