(* ===== verification/Interactions.thy ===== *)
theory Interactions
  imports SqlStore
begin

section \<open>Durable interactions\<close>

text \<open>
  \<open>interaction/durable.py\<close>: a run that needs a person (an answer, an approval, more budget) files an
  \<open>InteractionRequest\<close> in a journal kept inside its session, the answer is recorded as an
  \<open>InteractionReceipt\<close>, and the run that consumes the answer marks it applied. All of it is data: the
  journal is a JSON object, and every operation takes a stored journal and returns a new one.

  A dataclass is a record, its constructor with \<open>__post_init__\<close> is \<open>mk_...\<close>, which takes the keyword
  arguments as a dictionary. The constructor replaces some fields by their stripped text and keeps the
  others as given; so does the model. A validated journal is a dictionary of fixed shape, here the record
  \<open>interaction_journal\<close>; \<open>journal_dict\<close> is the JSON object that is stored. The SHA-256 digest of a text is
  the argument \<open>sha\<close>, the text of a float in a message the argument \<open>fr\<close>.

  The lemmas show that validation reads back exactly what the operations store, that at most one
  interaction is pending, that an answer is never replaced and applied once, that repeated calls are
  answered, and that a request which was built can be registered, answered and applied. A request whose
  stored digest has blanks around it passes every check and can never be answered.
\<close>

subsection \<open>Errors and scalars\<close>

definition integrity_error :: "string \<Rightarrow> py_exc" where
  "integrity_error m = DomainExc ''InteractionIntegrityError'' m"

definition not_pending_error :: "string \<Rightarrow> py_exc" where
  "not_pending_error m = DomainExc ''InteractionNotPendingError'' m"

definition receipt_conflict_error :: "string \<Rightarrow> py_exc" where
  "receipt_conflict_error m = DomainExc ''InteractionReceiptConflictError'' m"

definition already_applied_error :: "string \<Rightarrow> py_exc" where
  "already_applied_error m = DomainExc ''InteractionAlreadyAppliedError'' m"

lemma size_zip_snd [termination_simp]:
  "p \<in> set (zip ns xs) \<Longrightarrow> size (snd p) < Suc (size_list size xs)"
  by (cases p) (auto dest: set_zip_rightD intro: size_list_elem)

text \<open>
  \<open>_strict_json_copy\<close>: text is valid Unicode, floats are finite and keys are text by the choice of
  \<open>pyval\<close>; what remains to be refused is an object that is not JSON.
\<close>

fun strict_json_copy :: "string \<Rightarrow> pyval \<Rightarrow> (py_exc, pyval) res" where
  "strict_json_copy path (PyList xs) =
     bindr (mapr (\<lambda>p. strict_json_copy (path @ ''['' @ nat_text (fst p) @ '']'') (snd p)) (zip [0..<length xs] xs))
       (\<lambda>ys. Inr (PyList ys))"
| "strict_json_copy path (PyDict d) =
     bindr (mapr (\<lambda>p. bindr (strict_json_copy (path @ ''.'' @ fst p) (snd p)) (\<lambda>v. Inr (fst p, v))) d)
       (\<lambda>e. Inr (PyDict e))"
| "strict_json_copy path (PyObj c d) = Inl (integrity_error (path @ '' contains a non-JSON value of type '' @ c))"
| "strict_json_copy path v = Inr v"

definition strict_json_digest :: "(blob \<Rightarrow> string) \<Rightarrow> pyval \<Rightarrow> (py_exc, string) res" where
  "strict_json_digest sha v = bindr (strict_json_copy ''$'' v) (\<lambda>w. Inr (sha (canonical_json_bytes w)))"

definition ix_required_text :: "string \<Rightarrow> pyval \<Rightarrow> (py_exc, string) res" where
  "ix_required_text name v =
     (case v of
        PyStr s \<Rightarrow> if py_strip s = [] then Inl (integrity_error (name @ '' must be a non-empty string'')) else Inr (py_strip s)
      | _ \<Rightarrow> Inl (integrity_error (name @ '' must be a non-empty string'')))"

definition non_negative_int :: "string \<Rightarrow> pyval \<Rightarrow> (py_exc, int) res" where
  "non_negative_int name v =
     (case v of
        PyInt i \<Rightarrow> if i < 0 then Inl (integrity_error (name @ '' must be a non-negative integer'')) else Inr i
      | _ \<Rightarrow> Inl (integrity_error (name @ '' must be a non-negative integer'')))"

definition require_exact_fields :: "string list \<Rightarrow> string \<Rightarrow> pydict \<Rightarrow> (py_exc, unit) res" where
  "require_exact_fields expected label raw =
     (if set (dict_keys raw) \<noteq> set expected
      then
        let missing = sort (filter (\<lambda>k. k \<notin> set (dict_keys raw)) expected);
            unknown = sort (filter (\<lambda>k. k \<notin> set expected) (dict_keys raw));
            listed = (\<lambda>ks. ''['' @ join '', '' (map repr_str ks) @ '']'');
            detail = (if missing \<noteq> [] then [''missing='' @ listed missing] else [])
              @ (if unknown \<noteq> [] then [''unknown='' @ listed unknown] else []) in
        Inl (integrity_error (label @ '' fields do not match schema: '' @ join '', '' detail))
      else Inr ())"

definition is_version_one :: "pyval \<Rightarrow> bool" where
  "is_version_one v = (py_eq v (PyInt 1) \<and> (case v of PyBool _ \<Rightarrow> False | _ \<Rightarrow> True))"

definition validate_schema_version :: "(rat \<Rightarrow> string) \<Rightarrow> string \<Rightarrow> pyval \<Rightarrow> (py_exc, unit) res" where
  "validate_schema_version fr label v =
     (if is_version_one v then Inr ()
      else Inl (integrity_error (''unsupported '' @ label @ '' schema_version: '' @ py_repr fr v)))"

text \<open>\<open>DurableInteractionSettlementPending\<close>, the signal a host raises while an answer is still being settled.\<close>

record settlement_pending =
  sp_execution_id :: string
  sp_attempt_id :: string
  sp_interaction_id :: string

definition mk_settlement_pending :: "pyval \<Rightarrow> pyval \<Rightarrow> pyval \<Rightarrow> (py_exc, settlement_pending) res" where
  "mk_settlement_pending ex att iid =
     bindr (ix_required_text ''execution_id'' ex) (\<lambda>e.
     bindr (ix_required_text ''attempt_id'' att) (\<lambda>a.
     bindr (ix_required_text ''interaction_id'' iid) (\<lambda>i.
       Inr \<lparr>sp_execution_id = e, sp_attempt_id = a, sp_interaction_id = i\<rparr>)))"

subsection \<open>Requests\<close>

definition interaction_kinds :: "string list" where
  "interaction_kinds = [''human_input'', ''tool_approval'', ''max_budget'']"

text \<open>\<open>schema_version\<close> is kept as given (\<open>1\<close> or \<open>1.0\<close>), and so are the two digests.\<close>

record interaction_request =
  iq_schema_version :: pyval
  iq_interaction_id :: string
  iq_session_id :: string
  iq_kind :: string
  iq_source_run_id :: string
  iq_occurrence :: string
  iq_payload :: pyval
  iq_response_contract :: pyval
  iq_schema_digest :: string
  iq_request_digest :: string
  iq_created_revision :: int
  iq_subject :: pyval

definition request_core ::
  "string \<Rightarrow> string \<Rightarrow> string \<Rightarrow> string \<Rightarrow> pyval \<Rightarrow> pyval \<Rightarrow> string \<Rightarrow> int \<Rightarrow> pyval \<Rightarrow> (py_exc, pydict) res" where
  "request_core session kind run occurrence payload contract schema_digest revision subject =
     bindr (strict_json_copy ''$.payload'' payload) (\<lambda>p.
     bindr (strict_json_copy ''$.response_contract'' contract) (\<lambda>c.
     bindr (strict_json_copy ''$.subject'' subject) (\<lambda>s.
       Inr [(''schema_version'', PyInt 1), (''session_id'', PyStr session), (''kind'', PyStr kind),
            (''source_run_id'', PyStr run), (''occurrence'', PyStr occurrence), (''payload'', p),
            (''response_contract'', c), (''schema_digest'', PyStr schema_digest),
            (''created_revision'', PyInt revision), (''subject'', s)])))"

definition validate_kind :: "(rat \<Rightarrow> string) \<Rightarrow> pyval \<Rightarrow> (py_exc, string) res" where
  "validate_kind fr v =
     bindr (in_text_set v interaction_kinds) (\<lambda>known.
       case v of
         PyStr k \<Rightarrow> if known then Inr k else Inl (integrity_error (''unsupported interaction kind: '' @ py_repr fr v))
       | _ \<Rightarrow> Inl (integrity_error (''unsupported interaction kind: '' @ py_repr fr v)))"

text \<open>The text a field holds; used for the fields whose stored value is the one given.\<close>

fun text_of :: "pyval \<Rightarrow> string" where
  "text_of (PyStr s) = s"
| "text_of _ = []"

definition mk_interaction_request ::
  "(blob \<Rightarrow> string) \<Rightarrow> (rat \<Rightarrow> string) \<Rightarrow> pydict \<Rightarrow> (py_exc, interaction_request) res" where
  "mk_interaction_request sha fr raw =
     bindr (validate_schema_version fr ''interaction request'' (dget raw ''schema_version'')) (\<lambda>_.
     bindr (ix_required_text ''session_id'' (dget raw ''session_id'')) (\<lambda>session.
     bindr (ix_required_text ''source_run_id'' (dget raw ''source_run_id'')) (\<lambda>run.
     bindr (ix_required_text ''occurrence'' (dget raw ''occurrence'')) (\<lambda>occurrence.
     bindr (ix_required_text ''interaction_id'' (dget raw ''interaction_id'')) (\<lambda>iid.
     bindr (validate_kind fr (dget raw ''kind'')) (\<lambda>kind.
     bindr (non_negative_int ''created_revision'' (dget raw ''created_revision'')) (\<lambda>revision.
     bindr (strict_json_copy ''$.payload'' (dget raw ''payload'')) (\<lambda>payload.
     bindr (strict_json_copy ''$.response_contract'' (dget raw ''response_contract'')) (\<lambda>contract.
     bindr (strict_json_copy ''$.subject'' (dget raw ''subject'')) (\<lambda>subject.
     bindr (ix_required_text ''schema_digest'' (dget raw ''schema_digest'')) (\<lambda>schema_digest.
     bindr (ix_required_text ''request_digest'' (dget raw ''request_digest'')) (\<lambda>request_digest.
     bindr (strict_json_digest sha contract) (\<lambda>expected_schema.
       if schema_digest \<noteq> expected_schema
       then Inl (integrity_error ''interaction request response schema digest mismatch'') else
     bindr (request_core session kind run occurrence payload contract schema_digest revision subject) (\<lambda>core.
     bindr (strict_json_digest sha (PyDict core)) (\<lambda>expected.
       if request_digest \<noteq> expected then Inl (integrity_error ''interaction request digest mismatch'')
       else if iid \<noteq> ''interaction_'' @ take 32 expected
       then Inl (integrity_error ''interaction_id does not match request digest'')
       else Inr \<lparr>iq_schema_version = dget raw ''schema_version'', iq_interaction_id = iid, iq_session_id = session,
         iq_kind = kind, iq_source_run_id = run, iq_occurrence = occurrence, iq_payload = payload,
         iq_response_contract = contract, iq_schema_digest = text_of (dget raw ''schema_digest''),
         iq_request_digest = text_of (dget raw ''request_digest''), iq_created_revision = revision,
         iq_subject = subject\<rparr>)))))))))))))))"

definition request_dict :: "interaction_request \<Rightarrow> pydict" where
  "request_dict r =
     [(''schema_version'', iq_schema_version r), (''interaction_id'', PyStr (iq_interaction_id r)),
      (''session_id'', PyStr (iq_session_id r)), (''kind'', PyStr (iq_kind r)),
      (''source_run_id'', PyStr (iq_source_run_id r)), (''occurrence'', PyStr (iq_occurrence r)),
      (''payload'', iq_payload r), (''response_contract'', iq_response_contract r),
      (''schema_digest'', PyStr (iq_schema_digest r)), (''request_digest'', PyStr (iq_request_digest r)),
      (''created_revision'', PyInt (iq_created_revision r)), (''subject'', iq_subject r)]"

definition interaction_request_to_dict :: "interaction_request \<Rightarrow> pyval" where
  "interaction_request_to_dict r = PyDict (request_dict r)"

definition request_fields :: "string list" where
  "request_fields =
     [''schema_version'', ''interaction_id'', ''session_id'', ''kind'', ''source_run_id'', ''occurrence'',
      ''payload'', ''response_contract'', ''schema_digest'', ''request_digest'', ''created_revision'', ''subject'']"

text \<open>The two branches of \<open>from_dict\<close>: a raw value, and an instance, which is constructed again.\<close>

definition interaction_request_from_raw ::
  "(blob \<Rightarrow> string) \<Rightarrow> (rat \<Rightarrow> string) \<Rightarrow> pyval \<Rightarrow> (py_exc, interaction_request) res" where
  "interaction_request_from_raw sha fr v =
     (case v of
        PyDict d \<Rightarrow>
          bindr (strict_json_copy ''$'' v) (\<lambda>w.
          case w of
            PyDict copied \<Rightarrow>
              bindr (require_exact_fields request_fields ''interaction request'' copied) (\<lambda>_.
                mk_interaction_request sha fr copied)
          | _ \<Rightarrow> Inl (integrity_error ''interaction request must be an object''))
      | _ \<Rightarrow> Inl (integrity_error ''interaction request must be an object''))"

definition interaction_request_from_dict ::
  "(blob \<Rightarrow> string) \<Rightarrow> (rat \<Rightarrow> string) \<Rightarrow> interaction_request + pyval \<Rightarrow> (py_exc, interaction_request) res" where
  "interaction_request_from_dict sha fr x =
     (case x of
        Inl r \<Rightarrow> mk_interaction_request sha fr (request_dict r)
      | Inr v \<Rightarrow> interaction_request_from_raw sha fr v)"

definition build_interaction_request ::
  "(blob \<Rightarrow> string) \<Rightarrow> (rat \<Rightarrow> string) \<Rightarrow> pyval \<Rightarrow> pyval \<Rightarrow> pyval \<Rightarrow> pyval \<Rightarrow> pyval \<Rightarrow> pyval \<Rightarrow> pyval \<Rightarrow> pyval
   \<Rightarrow> (py_exc, interaction_request) res" where
  "build_interaction_request sha fr session_id kind source_run_id occ payload response_contract created_revision subj =
     bindr (ix_required_text ''session_id'' session_id) (\<lambda>session.
     bindr (ix_required_text ''source_run_id'' source_run_id) (\<lambda>run.
     bindr (ix_required_text ''occurrence'' occ) (\<lambda>occurrence.
     bindr (validate_kind fr kind) (\<lambda>k.
     bindr (non_negative_int ''created_revision'' created_revision) (\<lambda>revision.
     bindr (strict_json_copy ''$.payload'' payload) (\<lambda>p.
     bindr (strict_json_copy ''$.response_contract'' response_contract) (\<lambda>c.
     bindr (strict_json_copy ''$.subject'' subj) (\<lambda>s.
     bindr (strict_json_digest sha c) (\<lambda>schema_digest.
     bindr (request_core session k run occurrence p c schema_digest revision s) (\<lambda>core.
     bindr (strict_json_digest sha (PyDict core)) (\<lambda>digest.
       mk_interaction_request sha fr
         (core @ [(''interaction_id'', PyStr (''interaction_'' @ take 32 digest)),
                  (''request_digest'', PyStr digest)]))))))))))))"

subsection \<open>Receipts\<close>

text \<open>\<open>schema_version\<close>, \<open>receipt_id\<close>, \<open>response_digest\<close> and \<open>receipt_digest\<close> are kept as given.\<close>

record interaction_receipt =
  ic_schema_version :: pyval
  ic_receipt_id :: string
  ic_interaction_id :: string
  ic_request_digest :: string
  ic_response :: pyval
  ic_response_digest :: string
  ic_submitted_by :: string
  ic_receipt_digest :: string
  ic_submitted_at_ms :: int

definition receipt_core :: "string \<Rightarrow> string \<Rightarrow> pyval \<Rightarrow> string \<Rightarrow> string \<Rightarrow> (py_exc, pydict) res" where
  "receipt_core iid request_digest response response_digest submitted_by =
     bindr (strict_json_copy ''$.response'' response) (\<lambda>v.
       Inr [(''schema_version'', PyInt 1), (''interaction_id'', PyStr iid), (''request_digest'', PyStr request_digest),
            (''response'', v), (''response_digest'', PyStr response_digest), (''submitted_by'', PyStr submitted_by)])"

definition mk_interaction_receipt ::
  "(blob \<Rightarrow> string) \<Rightarrow> (rat \<Rightarrow> string) \<Rightarrow> pydict \<Rightarrow> (py_exc, interaction_receipt) res" where
  "mk_interaction_receipt sha fr raw =
     bindr (validate_schema_version fr ''interaction receipt'' (dget raw ''schema_version'')) (\<lambda>_.
     bindr (ix_required_text ''interaction_id'' (dget raw ''interaction_id'')) (\<lambda>iid.
     bindr (ix_required_text ''request_digest'' (dget raw ''request_digest'')) (\<lambda>request_digest.
     bindr (strict_json_copy ''$.response'' (dget raw ''response'')) (\<lambda>response.
     bindr (ix_required_text ''response_digest'' (dget raw ''response_digest'')) (\<lambda>response_digest.
     bindr (ix_required_text ''submitted_by'' (dget raw ''submitted_by'')) (\<lambda>submitter.
     bindr (ix_required_text ''receipt_digest'' (dget raw ''receipt_digest'')) (\<lambda>receipt_digest.
     bindr (ix_required_text ''receipt_id'' (dget raw ''receipt_id'')) (\<lambda>rid.
     bindr (non_negative_int ''submitted_at_ms'' (dget raw ''submitted_at_ms'')) (\<lambda>at_ms.
     bindr (strict_json_digest sha response) (\<lambda>expected_response.
       if response_digest \<noteq> expected_response then Inl (integrity_error ''interaction response digest mismatch'') else
     bindr (receipt_core iid request_digest response response_digest submitter) (\<lambda>core.
     bindr (strict_json_digest sha (PyDict core)) (\<lambda>expected.
       if receipt_digest \<noteq> expected then Inl (integrity_error ''interaction receipt digest mismatch'')
       else if rid \<noteq> ''receipt_'' @ take 32 expected
       then Inl (integrity_error ''receipt_id does not match receipt digest'')
       else Inr \<lparr>ic_schema_version = dget raw ''schema_version'', ic_receipt_id = text_of (dget raw ''receipt_id''),
         ic_interaction_id = iid, ic_request_digest = request_digest, ic_response = response,
         ic_response_digest = text_of (dget raw ''response_digest''), ic_submitted_by = submitter,
         ic_receipt_digest = text_of (dget raw ''receipt_digest''), ic_submitted_at_ms = at_ms\<rparr>))))))))))))"

definition receipt_dict :: "interaction_receipt \<Rightarrow> pydict" where
  "receipt_dict r =
     [(''schema_version'', ic_schema_version r), (''receipt_id'', PyStr (ic_receipt_id r)),
      (''interaction_id'', PyStr (ic_interaction_id r)), (''request_digest'', PyStr (ic_request_digest r)),
      (''response'', ic_response r), (''response_digest'', PyStr (ic_response_digest r)),
      (''submitted_by'', PyStr (ic_submitted_by r)), (''receipt_digest'', PyStr (ic_receipt_digest r)),
      (''submitted_at_ms'', PyInt (ic_submitted_at_ms r))]"

definition interaction_receipt_to_dict :: "interaction_receipt \<Rightarrow> pyval" where
  "interaction_receipt_to_dict r = PyDict (receipt_dict r)"

definition receipt_fields :: "string list" where
  "receipt_fields =
     [''schema_version'', ''receipt_id'', ''interaction_id'', ''request_digest'', ''response'', ''response_digest'',
      ''submitted_by'', ''receipt_digest'', ''submitted_at_ms'']"

definition interaction_receipt_from_raw ::
  "(blob \<Rightarrow> string) \<Rightarrow> (rat \<Rightarrow> string) \<Rightarrow> pyval \<Rightarrow> (py_exc, interaction_receipt) res" where
  "interaction_receipt_from_raw sha fr v =
     (case v of
        PyDict d \<Rightarrow>
          bindr (strict_json_copy ''$'' v) (\<lambda>w.
          case w of
            PyDict copied \<Rightarrow>
              bindr (require_exact_fields receipt_fields ''interaction receipt'' copied) (\<lambda>_.
                mk_interaction_receipt sha fr copied)
          | _ \<Rightarrow> Inl (integrity_error ''interaction receipt must be an object''))
      | _ \<Rightarrow> Inl (integrity_error ''interaction receipt must be an object''))"

text \<open>The end of \<open>from_dict\<close>: the receipt must name the request it is bound to.\<close>

definition bound_to ::
  "(blob \<Rightarrow> string) \<Rightarrow> (rat \<Rightarrow> string) \<Rightarrow> (interaction_request + pyval) option \<Rightarrow> interaction_receipt
   \<Rightarrow> (py_exc, interaction_receipt) res" where
  "bound_to sha fr request receipt =
     (case request of
        None \<Rightarrow> Inr receipt
      | Some x \<Rightarrow>
          bindr (interaction_request_from_dict sha fr x) (\<lambda>bound.
            if ic_interaction_id receipt \<noteq> iq_interaction_id bound \<or> ic_request_digest receipt \<noteq> iq_request_digest bound
            then Inl (integrity_error ''interaction receipt does not belong to the request'')
            else Inr receipt))"

definition interaction_receipt_from_dict ::
  "(blob \<Rightarrow> string) \<Rightarrow> (rat \<Rightarrow> string) \<Rightarrow> interaction_receipt + pyval \<Rightarrow> (interaction_request + pyval) option
   \<Rightarrow> (py_exc, interaction_receipt) res" where
  "interaction_receipt_from_dict sha fr x request =
     bindr (case x of
              Inl r \<Rightarrow> mk_interaction_receipt sha fr (receipt_dict r)
            | Inr v \<Rightarrow> interaction_receipt_from_raw sha fr v) (bound_to sha fr request)"

definition build_interaction_receipt ::
  "(blob \<Rightarrow> string) \<Rightarrow> (rat \<Rightarrow> string) \<Rightarrow> interaction_request + pyval \<Rightarrow> pyval \<Rightarrow> pyval \<Rightarrow> pyval
   \<Rightarrow> (py_exc, interaction_receipt) res" where
  "build_interaction_receipt sha fr request response submitted_by submitted_at_ms =
     bindr (interaction_request_from_dict sha fr request) (\<lambda>bound.
     bindr (strict_json_copy ''$.response'' response) (\<lambda>v.
     bindr (non_negative_int ''submitted_at_ms'' submitted_at_ms) (\<lambda>at_ms.
     bindr (ix_required_text ''submitted_by'' submitted_by) (\<lambda>submitter.
     bindr (strict_json_digest sha v) (\<lambda>response_digest.
     bindr (receipt_core (iq_interaction_id bound) (iq_request_digest bound) v response_digest submitter) (\<lambda>core.
     bindr (strict_json_digest sha (PyDict core)) (\<lambda>digest.
       mk_interaction_receipt sha fr
         (core @ [(''receipt_id'', PyStr (''receipt_'' @ take 32 digest)), (''receipt_digest'', PyStr digest),
                  (''submitted_at_ms'', PyInt at_ms)]))))))))"

subsection \<open>The journal\<close>

text \<open>
  A validated application is \<open>{schema_version: 1, receipt_id, applied_checkpoint_id}\<close>, a validated entry
  \<open>{request, checkpoint_id, receipt, application}\<close>, a validated journal
  \<open>{schema_version: 1, active_id, entries, order}\<close>.
\<close>

record ix_application =
  ia_receipt_id :: string
  ia_applied_checkpoint_id :: string

record ix_entry =
  ie_request :: interaction_request
  ie_checkpoint_id :: string
  ie_receipt :: "interaction_receipt option"
  ie_application :: "ix_application option"

record interaction_journal =
  ij_active_id :: "string option"
  ij_entries :: "ix_entry dict"
  ij_order :: "string list"

definition opt_value :: "('a \<Rightarrow> pyval) \<Rightarrow> 'a option \<Rightarrow> pyval" where
  "opt_value f x = (case x of None \<Rightarrow> PyNone | Some a \<Rightarrow> f a)"

definition application_dict :: "ix_application \<Rightarrow> pyval" where
  "application_dict a = PyDict
     [(''schema_version'', PyInt 1), (''receipt_id'', PyStr (ia_receipt_id a)),
      (''applied_checkpoint_id'', PyStr (ia_applied_checkpoint_id a))]"

definition entry_dict :: "ix_entry \<Rightarrow> pyval" where
  "entry_dict e = PyDict
     [(''request'', interaction_request_to_dict (ie_request e)), (''checkpoint_id'', PyStr (ie_checkpoint_id e)),
      (''receipt'', opt_value interaction_receipt_to_dict (ie_receipt e)),
      (''application'', opt_value application_dict (ie_application e))]"

definition journal_dict :: "interaction_journal \<Rightarrow> pyval" where
  "journal_dict j = PyDict
     [(''schema_version'', PyInt 1), (''active_id'', opt_value PyStr (ij_active_id j)),
      (''entries'', PyDict (map (\<lambda>p. (fst p, entry_dict (snd p))) (ij_entries j))),
      (''order'', PyList (map PyStr (ij_order j)))]"

definition new_interaction_journal :: interaction_journal where
  "new_interaction_journal = \<lparr>ij_active_id = None, ij_entries = [], ij_order = []\<rparr>"

definition validate_application ::
  "(rat \<Rightarrow> string) \<Rightarrow> interaction_receipt \<Rightarrow> pyval \<Rightarrow> (py_exc, ix_application option) res" where
  "validate_application fr receipt raw =
     (case raw of
        PyNone \<Rightarrow> Inr None
      | PyDict _ \<Rightarrow>
          bindr (strict_json_copy ''$'' raw) (\<lambda>w.
          case w of
            PyDict app \<Rightarrow>
              bindr (require_exact_fields [''schema_version'', ''receipt_id'', ''applied_checkpoint_id'']
                       ''interaction application'' app) (\<lambda>_.
              bindr (validate_schema_version fr ''interaction application'' (dget app ''schema_version'')) (\<lambda>_.
              bindr (ix_required_text ''application.receipt_id'' (dget app ''receipt_id'')) (\<lambda>rid.
                if rid \<noteq> ic_receipt_id receipt
                then Inl (integrity_error ''interaction application does not match its receipt'') else
              bindr (ix_required_text ''application.applied_checkpoint_id'' (dget app ''applied_checkpoint_id'')) (\<lambda>cid.
                Inr (Some \<lparr>ia_receipt_id = rid, ia_applied_checkpoint_id = cid\<rparr>)))))
          | _ \<Rightarrow> Inl (integrity_error ''interaction application must be an object''))
      | _ \<Rightarrow> Inl (integrity_error ''interaction application must be an object''))"

text \<open>The body of the loop over the entries.\<close>

definition validate_entry ::
  "(blob \<Rightarrow> string) \<Rightarrow> (rat \<Rightarrow> string) \<Rightarrow> string \<times> pyval \<Rightarrow> (py_exc, string \<times> ix_entry) res" where
  "validate_entry sha fr p =
     (case p of (iid, raw_entry) \<Rightarrow>
        if iid = [] then Inl (integrity_error ''interaction journal entry ids must be non-empty strings'') else
        case raw_entry of
          PyDict _ \<Rightarrow>
            bindr (strict_json_copy ''$'' raw_entry) (\<lambda>w.
            case w of
              PyDict entry \<Rightarrow>
                bindr (require_exact_fields [''request'', ''checkpoint_id'', ''receipt'', ''application'']
                         ''interaction journal entry'' entry) (\<lambda>_.
                bindr (interaction_request_from_dict sha fr (Inr (dget entry ''request''))) (\<lambda>request.
                  if iq_interaction_id request \<noteq> iid
                  then Inl (integrity_error ''interaction journal entry id does not match its request'') else
                bindr (ix_required_text ''checkpoint_id'' (dget entry ''checkpoint_id'')) (\<lambda>cid.
                bindr (if dget entry ''receipt'' \<noteq> PyNone
                       then map_sum id Some
                         (interaction_receipt_from_dict sha fr (Inr (dget entry ''receipt'')) (Some (Inl request)))
                       else Inr None) (\<lambda>receipt.
                  if dget entry ''application'' \<noteq> PyNone \<and> receipt = None
                  then Inl (integrity_error ''interaction application requires a receipt'') else
                bindr (case receipt of
                         None \<Rightarrow> Inr None
                       | Some r \<Rightarrow> validate_application fr r (dget entry ''application'')) (\<lambda>application.
                  Inr (iid, \<lparr>ie_request = request, ie_checkpoint_id = cid, ie_receipt = receipt,
                             ie_application = application\<rparr>))))))
            | _ \<Rightarrow> Inl (integrity_error ''interaction journal entry must be an object''))
        | _ \<Rightarrow> Inl (integrity_error ''interaction journal entry must be an object''))"

definition pending_ids :: "ix_entry dict \<Rightarrow> string list" where
  "pending_ids entries = map fst (filter (\<lambda>p. ie_application (snd p) = None) entries)"

definition nonempty_text :: "pyval \<Rightarrow> bool" where
  "nonempty_text v = (case v of PyStr s \<Rightarrow> s \<noteq> [] | _ \<Rightarrow> False)"

definition validate_interaction_journal ::
  "(blob \<Rightarrow> string) \<Rightarrow> (rat \<Rightarrow> string) \<Rightarrow> pyval \<Rightarrow> (py_exc, interaction_journal) res" where
  "validate_interaction_journal sha fr raw =
     (case raw of
        PyNone \<Rightarrow> Inr new_interaction_journal
      | PyDict _ \<Rightarrow>
          bindr (strict_json_copy ''$'' raw) (\<lambda>w.
          case w of
            PyDict journal \<Rightarrow>
              bindr (require_exact_fields [''schema_version'', ''active_id'', ''entries'', ''order'']
                       ''interaction journal'' journal) (\<lambda>_.
                if \<not> is_version_one (dget journal ''schema_version'')
                then Inl (integrity_error (''unsupported interaction journal schema_version: ''
                            @ py_repr fr (dget journal ''schema_version''))) else
                case dget journal ''entries'' of
                  PyDict entries_raw \<Rightarrow>
                    (case dget journal ''order'' of
                       PyList order_raw \<Rightarrow>
                         if \<not> list_all nonempty_text order_raw
                         then Inl (integrity_error ''interaction journal order must contain non-empty interaction ids'')
                         else
                           let order = map text_of order_raw; active = dget journal ''active_id'' in
                           if \<not> distinct order
                           then Inl (integrity_error ''interaction journal order contains duplicates'')
                           else if active \<noteq> PyNone \<and> \<not> nonempty_text active
                           then Inl (integrity_error ''interaction journal active_id must be a non-empty string or null'')
                           else
                             bindr (mapr (validate_entry sha fr) entries_raw) (\<lambda>entries.
                               let active_id = (if active = PyNone then None else Some (text_of active)) in
                               if set order \<noteq> set (dict_keys entries)
                               then Inl (integrity_error ''interaction journal order must list every entry exactly once'')
                               else if active_id \<noteq> None \<and> the active_id \<notin> set (dict_keys entries)
                               then Inl (integrity_error ''interaction journal active_id does not identify an entry'')
                               else if pending_ids entries \<noteq> (case active_id of None \<Rightarrow> [] | Some i \<Rightarrow> [i])
                               then Inl (integrity_error ''interaction journal active_id does not match pending entries'')
                               else Inr \<lparr>ij_active_id = active_id, ij_entries = entries, ij_order = order\<rparr>)
                     | _ \<Rightarrow> Inl (integrity_error ''interaction journal order must contain non-empty interaction ids''))
                | _ \<Rightarrow> Inl (integrity_error ''interaction journal entries must be an object''))
          | _ \<Rightarrow> Inl (integrity_error ''interaction journal must be an object''))
      | _ \<Rightarrow> Inl (integrity_error ''interaction journal must be an object''))"

subsection \<open>The operations\<close>

definition register_interaction_request ::
  "(blob \<Rightarrow> string) \<Rightarrow> (rat \<Rightarrow> string) \<Rightarrow> interaction_request + pyval \<Rightarrow> pyval \<Rightarrow> pyval
   \<Rightarrow> (py_exc, interaction_journal) res" where
  "register_interaction_request sha fr request checkpoint_id journal =
     bindr (validate_interaction_journal sha fr journal) (\<lambda>validated.
     bindr (interaction_request_from_dict sha fr request) (\<lambda>bound.
     bindr (ix_required_text ''checkpoint_id'' checkpoint_id) (\<lambda>cid.
       let iid = iq_interaction_id bound in
       case dict_get (ij_entries validated) iid of
         Some existing \<Rightarrow>
           if py_eq (interaction_request_to_dict (ie_request existing)) (interaction_request_to_dict bound)
              \<and> ie_checkpoint_id existing = cid
           then Inr validated
           else Inl (integrity_error ''interaction_id is already registered with different request data'')
       | None \<Rightarrow>
           if ij_active_id validated \<noteq> None \<and> ij_active_id validated \<noteq> Some iid
           then Inl (not_pending_error (''another interaction is already pending: '' @ repr_str (the (ij_active_id validated))))
           else validate_interaction_journal sha fr (journal_dict (validated\<lparr>
             ij_entries := dict_set iid \<lparr>ie_request = bound, ie_checkpoint_id = cid, ie_receipt = None,
                                          ie_application = None\<rparr> (ij_entries validated),
             ij_active_id := Some iid, ij_order := ij_order validated @ [iid]\<rparr>)))))"

definition get_active_interaction ::
  "(blob \<Rightarrow> string) \<Rightarrow> (rat \<Rightarrow> string) \<Rightarrow> pyval \<Rightarrow> (py_exc, ix_entry option) res" where
  "get_active_interaction sha fr journal =
     bindr (validate_interaction_journal sha fr journal) (\<lambda>validated.
       case ij_active_id validated of
         None \<Rightarrow> Inr None
       | Some i \<Rightarrow>
           (case dict_get (ij_entries validated) i of
              Some e \<Rightarrow> Inr (Some e)
            | None \<Rightarrow> Inl (KeyExc i)))"

definition record_interaction_receipt ::
  "(blob \<Rightarrow> string) \<Rightarrow> (rat \<Rightarrow> string) \<Rightarrow> interaction_receipt + pyval \<Rightarrow> pyval
   \<Rightarrow> (py_exc, interaction_journal) res" where
  "record_interaction_receipt sha fr receipt journal =
     bindr (validate_interaction_journal sha fr journal) (\<lambda>validated.
     bindr (interaction_receipt_from_dict sha fr receipt None) (\<lambda>bound.
       let iid = ic_interaction_id bound in
       case dict_get (ij_entries validated) iid of
         None \<Rightarrow> Inl (not_pending_error (''interaction is not pending: '' @ repr_str iid))
       | Some entry \<Rightarrow>
           bindr (interaction_request_from_dict sha fr (Inr (interaction_request_to_dict (ie_request entry)))) (\<lambda>request.
           bindr (interaction_receipt_from_dict sha fr (Inl bound) (Some (Inl request))) (\<lambda>_.
             case ie_receipt entry of
               Some existing_raw \<Rightarrow>
                 bindr (interaction_receipt_from_dict sha fr (Inr (interaction_receipt_to_dict existing_raw)) (Some (Inl request)))
                   (\<lambda>existing.
                     if ic_receipt_digest existing = ic_receipt_digest bound then Inr validated
                     else if ie_application entry \<noteq> None
                     then Inl (already_applied_error (''interaction receipt is already applied: '' @ repr_str iid))
                     else Inl (receipt_conflict_error (''interaction already has a different receipt: '' @ repr_str iid)))
             | None \<Rightarrow>
                 if ie_application entry \<noteq> None
                 then Inl (integrity_error ''interaction application exists without a receipt'')
                 else if ij_active_id validated \<noteq> Some iid
                 then Inl (not_pending_error (''interaction is no longer pending: '' @ repr_str iid))
                 else validate_interaction_journal sha fr (journal_dict (validated\<lparr>
                   ij_entries := dict_set iid (entry\<lparr>ie_receipt := Some bound\<rparr>) (ij_entries validated)\<rparr>))))))"

definition mark_interaction_applied ::
  "(blob \<Rightarrow> string) \<Rightarrow> (rat \<Rightarrow> string) \<Rightarrow> pyval \<Rightarrow> pyval \<Rightarrow> pyval \<Rightarrow> pyval
   \<Rightarrow> (py_exc, interaction_journal) res" where
  "mark_interaction_applied sha fr interaction_id receipt_id applied_checkpoint_id journal =
     bindr (validate_interaction_journal sha fr journal) (\<lambda>validated.
     bindr (ix_required_text ''interaction_id'' interaction_id) (\<lambda>iid.
     bindr (ix_required_text ''receipt_id'' receipt_id) (\<lambda>rid.
     bindr (ix_required_text ''applied_checkpoint_id'' applied_checkpoint_id) (\<lambda>cid.
       case dict_get (ij_entries validated) iid of
         None \<Rightarrow> Inl (not_pending_error (''interaction is not pending: '' @ repr_str iid))
       | Some entry \<Rightarrow>
           let application = \<lparr>ia_receipt_id = rid, ia_applied_checkpoint_id = cid\<rparr> in
           case ie_application entry of
             Some existing \<Rightarrow>
               if existing = application then Inr validated
               else Inl (already_applied_error (''interaction is already applied: '' @ repr_str iid))
           | None \<Rightarrow>
               if ij_active_id validated \<noteq> Some iid
               then Inl (not_pending_error (''interaction is no longer pending: '' @ repr_str iid)) else
               case ie_receipt entry of
                 None \<Rightarrow> Inl (not_pending_error ''interaction cannot be applied before a receipt is recorded'')
               | Some raw_receipt \<Rightarrow>
                   bindr (interaction_receipt_from_dict sha fr (Inr (interaction_receipt_to_dict raw_receipt))
                            (Some (Inr (interaction_request_to_dict (ie_request entry))))) (\<lambda>receipt.
                     if ic_receipt_id receipt \<noteq> rid
                     then Inl (integrity_error ''applied receipt_id does not match the recorded receipt'')
                     else validate_interaction_journal sha fr (journal_dict (validated\<lparr>
                       ij_entries := dict_set iid (entry\<lparr>ie_application := Some application\<rparr>) (ij_entries validated),
                       ij_active_id := None\<rparr>)))))))"

subsection \<open>What the validators accept\<close>

fun json_value :: "pyval \<Rightarrow> bool" where
  "json_value (PyList xs) = (\<forall>x \<in> set xs. json_value x)"
| "json_value (PyDict d) = (\<forall>p \<in> set d. json_value (snd p))"
| "json_value (PyObj c d) = False"
| "json_value v = True"

lemma json_value_PyDict: "json_value (PyDict d) \<longleftrightarrow> list_all (\<lambda>p. json_value (snd p)) d"
  by (simp add: list_all_iff)

lemma json_value_scalar: "json_value (PyStr s)" "json_value (PyInt i)" "json_value PyNone"
  by simp_all

lemma mapr_pairs:
  assumes "\<And>p w. p \<in> set d \<Longrightarrow> f p = Inr w \<longleftrightarrow> Q (snd p) \<and> w = snd p"
  shows "mapr (\<lambda>p. bindr (f p) (\<lambda>v. Inr (fst p, v))) d = Inr e \<longleftrightarrow> (\<forall>p \<in> set d. Q (snd p)) \<and> e = d"
  using assms by (induction d arbitrary: e) (auto simp: bindr_eq_Inr)

lemma mapr_zip_snd:
  assumes "\<And>p w. p \<in> set (zip ns xs) \<Longrightarrow> f p = Inr w \<longleftrightarrow> Q (snd p) \<and> w = snd p" "length ns = length xs"
  shows "mapr f (zip ns xs) = Inr ys \<longleftrightarrow> (\<forall>x \<in> set xs. Q x) \<and> ys = xs"
  using assms(2,1) by (induction ns xs arbitrary: ys rule: list_induct2) (auto simp: bindr_eq_Inr)

lemma strict_json_copy_Inr: "strict_json_copy p v = Inr w \<longleftrightarrow> json_value v \<and> w = v"
proof (induction p v arbitrary: w rule: strict_json_copy.induct)
  case (1 path xs)
  have "mapr (\<lambda>p. strict_json_copy (path @ ''['' @ nat_text (fst p) @ '']'') (snd p)) (zip [0..<length xs] xs) = Inr ys
    \<longleftrightarrow> (\<forall>x \<in> set xs. json_value x) \<and> ys = xs" for ys
    by (rule mapr_zip_snd) (simp_all only: "1.IH" length_upt diff_zero)
  then show ?case by (auto simp: bindr_eq_Inr)
next
  case (2 path d)
  have "mapr (\<lambda>p. bindr (strict_json_copy (path @ ''.'' @ fst p) (snd p)) (\<lambda>v. Inr (fst p, v))) d = Inr e
    \<longleftrightarrow> (\<forall>p \<in> set d. json_value (snd p)) \<and> e = d" for e
    by (rule mapr_pairs) (simp only: "2.IH")
  then show ?case by (auto simp: bindr_eq_Inr)
qed auto

lemma strict_json_copy_id: "json_value v \<Longrightarrow> strict_json_copy p v = Inr v"
  by (simp add: strict_json_copy_Inr)

definition sha_value :: "(blob \<Rightarrow> string) \<Rightarrow> pyval \<Rightarrow> string" where
  "sha_value sha v = sha (canonical_json_bytes v)"

lemma strict_json_digest_Inr: "strict_json_digest sha v = Inr s \<longleftrightarrow> json_value v \<and> s = sha_value sha v"
  by (auto simp: strict_json_digest_def bindr_eq_Inr strict_json_copy_Inr sha_value_def)

definition stripped :: "string \<Rightarrow> bool" where
  "stripped s \<longleftrightarrow> py_strip s = s \<and> s \<noteq> []"

lemma stripped_strip [simp]: "stripped (py_strip s) \<longleftrightarrow> py_strip s \<noteq> []"
  by (simp add: stripped_def)

text \<open>What each field must be, and the value it stands for.\<close>

definition text_ok :: "pyval \<Rightarrow> bool" where
  "text_ok v \<longleftrightarrow> is_str v \<and> py_strip (text_of v) \<noteq> []"

fun int_of :: "pyval \<Rightarrow> int" where
  "int_of (PyInt i) = i"
| "int_of _ = -1"

lemma text_ok_PyStr [simp]: "text_ok (PyStr s) \<longleftrightarrow> py_strip s \<noteq> []"
  by (simp add: text_ok_def)

lemma PyStr_text_of: "is_str v \<Longrightarrow> PyStr (text_of v) = v"
  by (cases v) auto

lemma ix_required_text_Inr: "ix_required_text n v = Inr t \<longleftrightarrow> text_ok v \<and> t = py_strip (text_of v)"
  by (auto simp: ix_required_text_def text_ok_def split: pyval.splits if_splits)

lemma ix_required_text_id: "ix_required_text n (PyStr s) = Inr s \<longleftrightarrow> stripped s"
  by (auto simp: ix_required_text_def stripped_def)

lemma non_negative_int_Inr: "non_negative_int n v = Inr i \<longleftrightarrow> 0 \<le> int_of v \<and> i = int_of v"
  by (auto simp: non_negative_int_def split: pyval.splits if_splits)

lemma validate_kind_Inr:
  "validate_kind fr v = Inr k \<longleftrightarrow> (is_str v \<and> text_of v \<in> set interaction_kinds) \<and> k = text_of v"
  by (auto simp: validate_kind_def in_text_set_def bindr_eq_Inr split: pyval.splits if_splits)

lemma validate_schema_version_Inr: "validate_schema_version fr l v = Inr u \<longleftrightarrow> is_version_one v"
  by (simp add: validate_schema_version_def)

lemma is_version_one_1 [simp]: "is_version_one (PyInt 1)"
  by (simp add: is_version_one_def py_eq.simps)

lemma is_version_one_json: "is_version_one v \<Longrightarrow> json_value v"
  by (cases v) (auto simp: is_version_one_def py_eq.simps)

lemma require_exact_fields_Inr: "require_exact_fields ks l d = Inr u \<longleftrightarrow> set (dict_keys d) = set ks"
  by (simp add: require_exact_fields_def Let_def)

lemma if_eq_Inr: "(if b then Inl e else k) = Inr v \<longleftrightarrow> \<not> b \<and> k = Inr v"
  by simp

text \<open>Sequencing after a check: the check holds and the rest runs on the checked value.\<close>

lemma bindr_on: "(\<And>t. m = Inr t \<longleftrightarrow> c \<and> t = x) \<Longrightarrow> bindr m f = Inr w \<longleftrightarrow> c \<and> f x = Inr w"
  by (auto simp: bindr_eq_Inr)

lemmas accepts = bindr_on [OF strict_json_copy_Inr] bindr_on [OF strict_json_digest_Inr]
  bindr_on [OF ix_required_text_Inr] bindr_on [OF non_negative_int_Inr] bindr_on [OF validate_kind_Inr]

lemma accepts_unit:
  "bindr (validate_schema_version fr l v) g = Inr w \<longleftrightarrow> is_version_one v \<and> g () = Inr w"
  "bindr (require_exact_fields ks l d) g = Inr w \<longleftrightarrow> set (dict_keys d) = set ks \<and> g () = Inr w"
  by (auto simp: bindr_eq_Inr validate_schema_version_Inr require_exact_fields_Inr)

subsection \<open>Valid requests and receipts\<close>

definition core_of_request :: "interaction_request \<Rightarrow> pydict" where
  "core_of_request r =
     [(''schema_version'', PyInt 1), (''session_id'', PyStr (iq_session_id r)), (''kind'', PyStr (iq_kind r)),
      (''source_run_id'', PyStr (iq_source_run_id r)), (''occurrence'', PyStr (iq_occurrence r)),
      (''payload'', iq_payload r), (''response_contract'', iq_response_contract r),
      (''schema_digest'', PyStr (py_strip (iq_schema_digest r))), (''created_revision'', PyInt (iq_created_revision r)),
      (''subject'', iq_subject r)]"

definition request_ok :: "(blob \<Rightarrow> string) \<Rightarrow> interaction_request \<Rightarrow> bool" where
  "request_ok sha r \<longleftrightarrow>
     is_version_one (iq_schema_version r) \<and> stripped (iq_session_id r) \<and> stripped (iq_source_run_id r) \<and>
     stripped (iq_occurrence r) \<and> stripped (iq_interaction_id r) \<and> iq_kind r \<in> set interaction_kinds \<and>
     0 \<le> iq_created_revision r \<and> json_value (iq_payload r) \<and> json_value (iq_response_contract r) \<and>
     json_value (iq_subject r) \<and> py_strip (iq_schema_digest r) \<noteq> [] \<and> py_strip (iq_request_digest r) \<noteq> [] \<and>
     py_strip (iq_schema_digest r) = sha_value sha (iq_response_contract r) \<and>
     py_strip (iq_request_digest r) = sha_value sha (PyDict (core_of_request r)) \<and>
     iq_interaction_id r = ''interaction_'' @ take 32 (sha_value sha (PyDict (core_of_request r)))"

lemma request_core_Inr:
  "request_core ses k run oc p c sd n su = Inr core \<longleftrightarrow>
     json_value p \<and> json_value c \<and> json_value su \<and>
     core = [(''schema_version'', PyInt 1), (''session_id'', PyStr ses), (''kind'', PyStr k),
            (''source_run_id'', PyStr run), (''occurrence'', PyStr oc), (''payload'', p),
            (''response_contract'', c), (''schema_digest'', PyStr sd), (''created_revision'', PyInt n), (''subject'', su)]"
  unfolding request_core_def by (simp only: accepts sum.inject) blast

definition request_of :: "pydict \<Rightarrow> interaction_request" where
  "request_of raw = \<lparr>iq_schema_version = dget raw ''schema_version'',
     iq_interaction_id = py_strip (text_of (dget raw ''interaction_id'')),
     iq_session_id = py_strip (text_of (dget raw ''session_id'')), iq_kind = text_of (dget raw ''kind''),
     iq_source_run_id = py_strip (text_of (dget raw ''source_run_id'')),
     iq_occurrence = py_strip (text_of (dget raw ''occurrence'')), iq_payload = dget raw ''payload'',
     iq_response_contract = dget raw ''response_contract'', iq_schema_digest = text_of (dget raw ''schema_digest''),
     iq_request_digest = text_of (dget raw ''request_digest''), iq_created_revision = int_of (dget raw ''created_revision''),
     iq_subject = dget raw ''subject''\<rparr>"

definition request_typed :: "pydict \<Rightarrow> bool" where
  "request_typed raw \<longleftrightarrow> list_all (\<lambda>k. is_str (dget raw k))
     [''session_id'', ''source_run_id'', ''occurrence'', ''interaction_id'', ''kind'', ''schema_digest'', ''request_digest'']"

lemma mk_interaction_request_Inr:
  "mk_interaction_request sha fr raw = Inr r \<longleftrightarrow> request_typed raw \<and> request_ok sha (request_of raw) \<and> request_of raw = r"
  unfolding mk_interaction_request_def accepts accepts_unit bindr_on [OF request_core_Inr [unfolded conj_assoc [symmetric]]]
    if_eq_Inr sum.inject request_of_def request_ok_def core_of_request_def interaction_request.simps stripped_strip text_ok_def
    request_typed_def list.pred_inject(2) not_not json_value_PyDict snd_conv
  by (intro iffI; elim conjE; intro conjI; (assumption | rule json_value_scalar list.pred_inject(1)))

lemma request_ok_json: "request_ok sha r \<Longrightarrow> json_value (interaction_request_to_dict r)"
  by (simp add: interaction_request_to_dict_def json_value_PyDict request_dict_def request_ok_def is_version_one_json)

lemma request_ok_text:
  "request_ok sha r \<Longrightarrow> py_strip (iq_session_id r) = iq_session_id r \<and> py_strip (iq_source_run_id r) = iq_source_run_id r
     \<and> py_strip (iq_occurrence r) = iq_occurrence r \<and> py_strip (iq_interaction_id r) = iq_interaction_id r"
  unfolding request_ok_def stripped_def by (elim conjE) (intro conjI)

lemma request_of_dict: "request_ok sha r \<Longrightarrow> request_of (request_dict r) = r"
  using request_ok_text [of sha r] by (simp add: request_of_def request_dict_def dget_def)

lemma mk_request_dict: "mk_interaction_request sha fr (request_dict r) = Inr r \<longleftrightarrow> request_ok sha r"
  by (auto simp: mk_interaction_request_Inr request_of_dict) (simp_all add: request_typed_def request_dict_def dget_def)

lemma case_PyDict_object: "(case v of PyDict d \<Rightarrow> f d | _ \<Rightarrow> Inl e) = Inr r \<longleftrightarrow> (\<exists>d. v = PyDict d \<and> f d = Inr r)"
  by (cases v) auto

lemma request_from_raw_Inr:
  "interaction_request_from_raw sha fr v = Inr r \<longleftrightarrow>
     (\<exists>d. v = PyDict d \<and> json_value v \<and> set (dict_keys d) = set request_fields \<and> mk_interaction_request sha fr d = Inr r)"
  unfolding interaction_request_from_raw_def case_PyDict_object accepts accepts_unit by auto

lemma request_dict_keys [simp]: "dict_keys (request_dict r) = request_fields"
  by (simp add: request_dict_def request_fields_def)

interpretation interaction_request: record_codec interaction_request_to_dict "interaction_request_from_raw sha fr" "request_ok sha"
  for sha fr
proof
  fix r assume "request_ok sha r"
  then show "interaction_request_from_raw sha fr (interaction_request_to_dict r) = Inr r"
    using request_ok_json [of sha r]
    by (simp add: request_from_raw_Inr interaction_request_to_dict_def mk_request_dict del: json_value.simps set_map)
next
  fix v r assume "interaction_request_from_raw sha fr v = Inr r"
  then show "request_ok sha r" by (auto simp: request_from_raw_Inr mk_interaction_request_Inr)
qed

lemma request_from_dict_record: "request_ok sha r \<Longrightarrow> interaction_request_from_dict sha fr (Inl r) = Inr r"
  by (simp add: interaction_request_from_dict_def mk_request_dict)

lemma request_from_dict_raw: "interaction_request_from_dict sha fr (Inr v) = interaction_request_from_raw sha fr v"
  by (simp add: interaction_request_from_dict_def)

lemma request_from_dict_ok: "interaction_request_from_dict sha fr x = Inr r \<Longrightarrow> request_ok sha r"
  by (cases x) (auto simp: interaction_request_from_dict_def mk_interaction_request_Inr intro: interaction_request.decoded_ok)

definition core_of_receipt :: "interaction_receipt \<Rightarrow> pydict" where
  "core_of_receipt r =
     [(''schema_version'', PyInt 1), (''interaction_id'', PyStr (ic_interaction_id r)),
      (''request_digest'', PyStr (ic_request_digest r)), (''response'', ic_response r),
      (''response_digest'', PyStr (py_strip (ic_response_digest r))), (''submitted_by'', PyStr (ic_submitted_by r))]"

definition receipt_ok :: "(blob \<Rightarrow> string) \<Rightarrow> interaction_receipt \<Rightarrow> bool" where
  "receipt_ok sha r \<longleftrightarrow>
     is_version_one (ic_schema_version r) \<and> stripped (ic_interaction_id r) \<and> stripped (ic_request_digest r) \<and>
     json_value (ic_response r) \<and> py_strip (ic_response_digest r) \<noteq> [] \<and> stripped (ic_submitted_by r) \<and>
     py_strip (ic_receipt_digest r) \<noteq> [] \<and> py_strip (ic_receipt_id r) \<noteq> [] \<and> 0 \<le> ic_submitted_at_ms r \<and>
     py_strip (ic_response_digest r) = sha_value sha (ic_response r) \<and>
     py_strip (ic_receipt_digest r) = sha_value sha (PyDict (core_of_receipt r)) \<and>
     py_strip (ic_receipt_id r) = ''receipt_'' @ take 32 (sha_value sha (PyDict (core_of_receipt r)))"

lemma receipt_core_Inr:
  "receipt_core iid rd v d by_whom = Inr core \<longleftrightarrow>
     json_value v \<and>
     core = [(''schema_version'', PyInt 1), (''interaction_id'', PyStr iid), (''request_digest'', PyStr rd),
            (''response'', v), (''response_digest'', PyStr d), (''submitted_by'', PyStr by_whom)]"
  unfolding receipt_core_def by (simp only: accepts sum.inject) blast

definition receipt_of :: "pydict \<Rightarrow> interaction_receipt" where
  "receipt_of raw = \<lparr>ic_schema_version = dget raw ''schema_version'', ic_receipt_id = text_of (dget raw ''receipt_id''),
     ic_interaction_id = py_strip (text_of (dget raw ''interaction_id'')),
     ic_request_digest = py_strip (text_of (dget raw ''request_digest'')), ic_response = dget raw ''response'',
     ic_response_digest = text_of (dget raw ''response_digest''),
     ic_submitted_by = py_strip (text_of (dget raw ''submitted_by'')),
     ic_receipt_digest = text_of (dget raw ''receipt_digest''),
     ic_submitted_at_ms = int_of (dget raw ''submitted_at_ms'')\<rparr>"

definition receipt_typed :: "pydict \<Rightarrow> bool" where
  "receipt_typed raw \<longleftrightarrow> list_all (\<lambda>k. is_str (dget raw k))
     [''interaction_id'', ''request_digest'', ''response_digest'', ''submitted_by'', ''receipt_digest'', ''receipt_id'']"

lemma mk_interaction_receipt_Inr:
  "mk_interaction_receipt sha fr raw = Inr r \<longleftrightarrow> receipt_typed raw \<and> receipt_ok sha (receipt_of raw) \<and> receipt_of raw = r"
  unfolding mk_interaction_receipt_def accepts accepts_unit bindr_on [OF receipt_core_Inr]
    if_eq_Inr sum.inject receipt_of_def receipt_ok_def core_of_receipt_def interaction_receipt.simps stripped_strip text_ok_def
    receipt_typed_def list.pred_inject(2) not_not json_value_PyDict snd_conv
  by (intro iffI; elim conjE; intro conjI; (assumption | rule json_value_scalar list.pred_inject(1)))

lemma receipt_ok_json: "receipt_ok sha r \<Longrightarrow> json_value (interaction_receipt_to_dict r)"
  by (simp add: interaction_receipt_to_dict_def json_value_PyDict receipt_dict_def receipt_ok_def is_version_one_json)

lemma receipt_ok_text:
  "receipt_ok sha r \<Longrightarrow> py_strip (ic_interaction_id r) = ic_interaction_id r
     \<and> py_strip (ic_request_digest r) = ic_request_digest r \<and> py_strip (ic_submitted_by r) = ic_submitted_by r"
  unfolding receipt_ok_def stripped_def by (elim conjE) (intro conjI)

lemma receipt_of_dict: "receipt_ok sha r \<Longrightarrow> receipt_of (receipt_dict r) = r"
  using receipt_ok_text [of sha r] by (simp add: receipt_of_def receipt_dict_def dget_def)

lemma mk_receipt_dict: "mk_interaction_receipt sha fr (receipt_dict r) = Inr r \<longleftrightarrow> receipt_ok sha r"
  by (auto simp: mk_interaction_receipt_Inr receipt_of_dict) (simp_all add: receipt_typed_def receipt_dict_def dget_def)

lemma receipt_from_raw_Inr:
  "interaction_receipt_from_raw sha fr v = Inr r \<longleftrightarrow>
     (\<exists>d. v = PyDict d \<and> json_value v \<and> set (dict_keys d) = set receipt_fields \<and> mk_interaction_receipt sha fr d = Inr r)"
  unfolding interaction_receipt_from_raw_def case_PyDict_object accepts accepts_unit by auto

lemma receipt_dict_keys [simp]: "dict_keys (receipt_dict r) = receipt_fields"
  by (simp add: receipt_dict_def receipt_fields_def)

interpretation interaction_receipt: record_codec interaction_receipt_to_dict "interaction_receipt_from_raw sha fr" "receipt_ok sha"
  for sha fr
proof
  fix r assume "receipt_ok sha r"
  then show "interaction_receipt_from_raw sha fr (interaction_receipt_to_dict r) = Inr r"
    using receipt_ok_json [of sha r]
    by (simp add: receipt_from_raw_Inr interaction_receipt_to_dict_def mk_receipt_dict del: json_value.simps set_map)
next
  fix v r assume "interaction_receipt_from_raw sha fr v = Inr r"
  then show "receipt_ok sha r" by (auto simp: receipt_from_raw_Inr mk_interaction_receipt_Inr)
qed

text \<open>The receipt names the request, by its identifier and by its digest as stored.\<close>

definition answers :: "interaction_receipt \<Rightarrow> interaction_request \<Rightarrow> bool" where
  "answers c q \<longleftrightarrow> ic_interaction_id c = iq_interaction_id q \<and> ic_request_digest c = iq_request_digest q"

lemma bound_to_Some:
  "request_ok sha q \<Longrightarrow> bound_to sha fr (Some (Inl q)) c = Inr c' \<longleftrightarrow> answers c q \<and> c' = c"
  "request_ok sha q \<Longrightarrow> bound_to sha fr (Some (Inr (interaction_request_to_dict q))) c = Inr c' \<longleftrightarrow> answers c q \<and> c' = c"
  by (auto simp: bound_to_def request_from_dict_record request_from_dict_raw interaction_request.round_trip answers_def)

lemma bound_to_None [simp]: "bound_to sha fr None c = Inr c"
  by (simp add: bound_to_def)

lemma receipt_from_dict_ok: "interaction_receipt_from_dict sha fr x q = Inr c \<Longrightarrow> receipt_ok sha c"
  by (cases x) (auto simp: interaction_receipt_from_dict_def bindr_eq_Inr bound_to_def mk_interaction_receipt_Inr
    split: option.splits if_splits intro: interaction_receipt.decoded_ok)

lemma receipt_from_dict_simps:
  "receipt_ok sha c \<Longrightarrow> interaction_receipt_from_dict sha fr (Inl c) q = bound_to sha fr q c"
  "receipt_ok sha c \<Longrightarrow> interaction_receipt_from_dict sha fr (Inr (interaction_receipt_to_dict c)) q = bound_to sha fr q c"
  "interaction_receipt_from_dict sha fr (Inr v) q = bindr (interaction_receipt_from_raw sha fr v) (bound_to sha fr q)"
  by (simp_all add: interaction_receipt_from_dict_def mk_receipt_dict [THEN iffD2] interaction_receipt.round_trip)

subsection \<open>Valid journals\<close>

definition application_ok :: "interaction_receipt \<Rightarrow> ix_application \<Rightarrow> bool" where
  "application_ok c a \<longleftrightarrow> ia_receipt_id a = ic_receipt_id c \<and> stripped (ia_receipt_id a) \<and> stripped (ia_applied_checkpoint_id a)"

definition entry_ok :: "(blob \<Rightarrow> string) \<Rightarrow> string \<Rightarrow> ix_entry \<Rightarrow> bool" where
  "entry_ok sha iid e \<longleftrightarrow>
     iid \<noteq> [] \<and> request_ok sha (ie_request e) \<and> iq_interaction_id (ie_request e) = iid \<and> stripped (ie_checkpoint_id e) \<and>
     (case ie_receipt e of
        None \<Rightarrow> ie_application e = None
      | Some c \<Rightarrow> receipt_ok sha c \<and> answers c (ie_request e) \<and> pred_option (application_ok c) (ie_application e))"

definition journal_ok :: "(blob \<Rightarrow> string) \<Rightarrow> interaction_journal \<Rightarrow> bool" where
  "journal_ok sha j \<longleftrightarrow>
     list_all (\<lambda>p. entry_ok sha (fst p) (snd p)) (ij_entries j) \<and> distinct (ij_order j) \<and>
     set (ij_order j) = set (dict_keys (ij_entries j)) \<and>
     pending_ids (ij_entries j) = (case ij_active_id j of None \<Rightarrow> [] | Some i \<Rightarrow> [i])"

lemma application_trip: "application_ok c a \<Longrightarrow> validate_application fr c (application_dict a) = Inr (Some a)"
  by (cases a) (simp add: validate_application_def application_dict_def application_ok_def accepts accepts_unit
      dget_def stripped_def del: strict_json_copy.simps)

lemma validate_application_None: "validate_application fr c PyNone = Inr None"
  by (simp add: validate_application_def)

lemma validate_application_PyDict:
  "validate_application fr c (PyDict d) = Inr x \<longleftrightarrow>
     json_value (PyDict d) \<and> set (dict_keys d) = set [''schema_version'', ''receipt_id'', ''applied_checkpoint_id''] \<and>
     is_version_one (dget d ''schema_version'') \<and> text_ok (dget d ''receipt_id'') \<and>
     \<not> py_strip (text_of (dget d ''receipt_id'')) \<noteq> ic_receipt_id c \<and> text_ok (dget d ''applied_checkpoint_id'') \<and>
     Some \<lparr>ia_receipt_id = py_strip (text_of (dget d ''receipt_id'')),
       ia_applied_checkpoint_id = py_strip (text_of (dget d ''applied_checkpoint_id''))\<rparr> = x"
  unfolding validate_application_def pyval.case accepts accepts_unit if_eq_Inr sum.inject by (rule refl)

lemma application_okI:
  "\<lbrakk>text_ok r; py_strip (text_of r) = ic_receipt_id c; text_ok k;
    Some \<lparr>ia_receipt_id = py_strip (text_of r), ia_applied_checkpoint_id = py_strip (text_of k)\<rparr> = x\<rbrakk>
   \<Longrightarrow> pred_option (application_ok c) x"
  by (auto simp: application_ok_def text_ok_def stripped_def) (metis py_strip_idem)

lemma application_decoded:
  assumes "validate_application fr c v = Inr x"
  shows "pred_option (application_ok c) x"
proof (cases "v = PyNone")
  case False
  then obtain d where "v = PyDict d" using assms by (cases v) (auto simp: validate_application_def)
  then show ?thesis
    using assms [unfolded \<open>v = PyDict d\<close> validate_application_PyDict not_not]
    by - (elim conjE, rule application_okI)
qed (use assms in \<open>simp add: validate_application_def\<close>)

lemma opt_value_simps [simp]: "opt_value f None = PyNone" "opt_value f (Some a) = f a"
  by (simp_all add: opt_value_def)

lemma application_json: "json_value (application_dict a)"
  by (simp add: application_dict_def)

lemma entry_json: "entry_ok sha i e \<Longrightarrow> json_value (entry_dict e)"
  by (auto simp: entry_ok_def entry_dict_def opt_value_def application_json request_ok_json receipt_ok_json
      json_value_PyDict split: option.splits simp del: json_value.simps(2))

lemma dict_not_None [simp]: "interaction_receipt_to_dict c \<noteq> PyNone" "application_dict a \<noteq> PyNone"
  by (simp_all add: interaction_receipt_to_dict_def application_dict_def)

lemma receipt_trip:
  assumes "entry_ok sha i e"
  shows "(if opt_value interaction_receipt_to_dict (ie_receipt e) \<noteq> PyNone
     then map_sum id Some (interaction_receipt_from_dict sha fr (Inr (opt_value interaction_receipt_to_dict (ie_receipt e)))
            (Some (Inl (ie_request e)))) else Inr None) = Inr (ie_receipt e)"
proof (cases "ie_receipt e")
  case (Some c)
  then have "bound_to sha fr (Some (Inl (ie_request e))) c = Inr c" using assms by (simp add: entry_ok_def bound_to_Some)
  then show ?thesis using Some assms by (simp add: entry_ok_def receipt_from_dict_simps(2))
qed simp

lemma entry_trip:
  assumes "entry_ok sha i e"
  shows "validate_entry sha fr (i, entry_dict e) = Inr (i, e)"
proof -
  let ?d = "[(''request'', interaction_request_to_dict (ie_request e)), (''checkpoint_id'', PyStr (ie_checkpoint_id e)),
      (''receipt'', opt_value interaction_receipt_to_dict (ie_receipt e)),
      (''application'', opt_value application_dict (ie_application e))]"
  have copy: "strict_json_copy ''$'' (PyDict ?d) = Inr (PyDict ?d)"
    using entry_json [OF assms] by (simp only: strict_json_copy_id entry_dict_def)
  have req: "interaction_request_from_dict sha fr (Inr (interaction_request_to_dict (ie_request e))) = Inr (ie_request e)"
    using assms by (simp add: request_from_dict_raw interaction_request.round_trip entry_ok_def)
  have app: "(case ie_receipt e of None \<Rightarrow> Inr None
      | Some r \<Rightarrow> validate_application fr r (opt_value application_dict (ie_application e))) = Inr (ie_application e)"
    using assms by (cases "ie_application e"; cases "ie_receipt e")
      (simp_all add: entry_ok_def application_trip validate_application_None)
  have none: "\<not> (opt_value application_dict (ie_application e) \<noteq> PyNone \<and> ie_receipt e = None)"
    using assms by (auto simp: entry_ok_def)
  have cid: "ix_required_text ''checkpoint_id'' (PyStr (ie_checkpoint_id e)) = Inr (ie_checkpoint_id e)"
    using assms by (simp add: ix_required_text_id entry_ok_def)
  have keys: "require_exact_fields [''request'', ''checkpoint_id'', ''receipt'', ''application'']
       ''interaction journal entry'' ?d = Inr ()"
    by (simp add: require_exact_fields_Inr)
  have get: "dget ?d ''request'' = interaction_request_to_dict (ie_request e)" "dget ?d ''checkpoint_id'' = PyStr (ie_checkpoint_id e)"
      "dget ?d ''receipt'' = opt_value interaction_receipt_to_dict (ie_receipt e)"
      "dget ?d ''application'' = opt_value application_dict (ie_application e)"
    by (simp_all add: dget_def)
  have i: "i \<noteq> []" "iq_interaction_id (ie_request e) = i" using assms by (simp_all add: entry_ok_def)
  show ?thesis
    unfolding validate_entry_def entry_dict_def prod.case pyval.case copy bindr_simps keys get req cid receipt_trip [OF assms] app
    using i none by simp
qed

lemma map_sum_Some_Inr: "map_sum id Some m = Inr x \<longleftrightarrow> (\<exists>c. m = Inr c \<and> x = Some c)"
  by (cases m) auto

lemma receipt_bound:
  "\<lbrakk>interaction_receipt_from_dict sha fr x (Some (Inl q)) = Inr c; request_ok sha q\<rbrakk> \<Longrightarrow> receipt_ok sha c \<and> answers c q"
  by (frule receipt_from_dict_ok) (auto simp: interaction_receipt_from_dict_def bindr_eq_Inr bound_to_Some)

lemma validate_entry_PyDict:
  "validate_entry sha fr (i, PyDict d) = Inr p \<longleftrightarrow>
     i \<noteq> [] \<and> json_value (PyDict d) \<and>
       set (dict_keys d) = set [''request'', ''checkpoint_id'', ''receipt'', ''application''] \<and>
       (\<exists>q. interaction_request_from_dict sha fr (Inr (dget d ''request'')) = Inr q \<and> iq_interaction_id q = i \<and>
       text_ok (dget d ''checkpoint_id'') \<and>
       (\<exists>c. (if dget d ''receipt'' \<noteq> PyNone
             then map_sum id Some (interaction_receipt_from_dict sha fr (Inr (dget d ''receipt'')) (Some (Inl q)))
             else Inr None) = Inr c \<and>
       \<not> (dget d ''application'' \<noteq> PyNone \<and> c = None) \<and>
       (\<exists>a. (case c of None \<Rightarrow> Inr None | Some r \<Rightarrow> validate_application fr r (dget d ''application'')) = Inr a \<and>
       (i, \<lparr>ie_request = q, ie_checkpoint_id = py_strip (text_of (dget d ''checkpoint_id'')), ie_receipt = c,
            ie_application = a\<rparr>) = p)))"
  unfolding validate_entry_def prod.case if_eq_Inr pyval.case accepts accepts_unit not_not sum.inject
    bindr_eq_Inr [of "interaction_request_from_dict s f x" for s f x] bindr_eq_Inr [of "if b then x else y" for b x y]
    bindr_eq_Inr [of "case_option x y z" for x y z]
  by (rule refl)

lemma entry_decoded:
  assumes "validate_entry sha fr (i, v) = Inr p"
  shows "fst p = i \<and> entry_ok sha i (snd p)"
proof -
  obtain d where v: "v = PyDict d"
    using assms by (cases v) (auto simp: validate_entry_def split: if_splits)
  obtain q c a where i: "i \<noteq> []"
      and q: "interaction_request_from_dict sha fr (Inr (dget d ''request'')) = Inr q" "iq_interaction_id q = i"
      and cid: "text_ok (dget d ''checkpoint_id'')"
      and c: "(if dget d ''receipt'' \<noteq> PyNone
             then map_sum id Some (interaction_receipt_from_dict sha fr (Inr (dget d ''receipt'')) (Some (Inl q)))
             else Inr None) = Inr c"
      and a: "(case c of None \<Rightarrow> Inr None | Some r \<Rightarrow> validate_application fr r (dget d ''application'')) = Inr a"
      and p: "(i, \<lparr>ie_request = q, ie_checkpoint_id = py_strip (text_of (dget d ''checkpoint_id'')), ie_receipt = c,
            ie_application = a\<rparr>) = p"
    using assms unfolding v validate_entry_PyDict by - (elim conjE exE, rule that; assumption)
  have ok: "request_ok sha q" using q(1) by (rule request_from_dict_ok)
  have "receipt_ok sha c' \<and> answers c' q \<and> pred_option (application_ok c') a" if "c = Some c'" for c'
    using c a that ok by (auto simp: map_sum_Some_Inr split: if_splits dest: receipt_bound application_decoded)
  moreover have "a = None" if "c = None" using a that by simp
  ultimately show ?thesis
    using i q(2) ok cid by (cases c) (auto simp: entry_ok_def text_ok_def p [symmetric])
qed

lemma nonempty_text_PyStr: "nonempty_text v \<longleftrightarrow> is_str v \<and> text_of v \<noteq> []"
  by (cases v) (auto simp: nonempty_text_def)

definition journal_fields :: "interaction_journal \<Rightarrow> pydict" where
  "journal_fields j = [(''schema_version'', PyInt 1), (''active_id'', opt_value PyStr (ij_active_id j)),
      (''entries'', PyDict (map (\<lambda>p. (fst p, entry_dict (snd p))) (ij_entries j))),
      (''order'', PyList (map PyStr (ij_order j)))]"

lemma journal_ids:
  assumes "journal_ok sha j"
  shows "\<And>i. i \<in> set (ij_order j) \<Longrightarrow> i \<noteq> []"
    and "\<And>i. ij_active_id j = Some i \<Longrightarrow> i \<in> set (dict_keys (ij_entries j)) \<and> i \<noteq> []"
proof -
  have ne: "i \<noteq> []" if "i \<in> set (dict_keys (ij_entries j))" for i
    using that assms by (auto simp: journal_ok_def list_all_iff entry_ok_def)
  then show "i \<noteq> []" if "i \<in> set (ij_order j)" for i using that assms by (auto simp: journal_ok_def)
  show "i \<in> set (dict_keys (ij_entries j)) \<and> i \<noteq> []" if "ij_active_id j = Some i" for i
  proof -
    have "i \<in> set (pending_ids (ij_entries j))" using that assms by (simp add: journal_ok_def)
    then have "i \<in> set (dict_keys (ij_entries j))" by (auto simp: pending_ids_def)
    then show ?thesis using ne by blast
  qed
qed

lemma journal_trip:
  assumes "journal_ok sha j"
  shows "validate_interaction_journal sha fr (journal_dict j) = Inr j"
proof -
  have entries: "mapr (validate_entry sha fr) (map (\<lambda>p. (fst p, entry_dict (snd p))) (ij_entries j)) = Inr (ij_entries j)"
    unfolding mapr_map using assms by (intro mapr_id) (auto simp: journal_ok_def list_all_iff entry_trip)
  have "json_value (PyDict (journal_fields j))"
    using assms by (auto simp: journal_fields_def journal_ok_def list_all_iff opt_value_def intro: entry_json split: option.splits)
  then have copy: "strict_json_copy ''$'' (PyDict (journal_fields j)) = Inr (PyDict (journal_fields j))"
    by (rule strict_json_copy_id)
  have keys: "require_exact_fields [''schema_version'', ''active_id'', ''entries'', ''order''] ''interaction journal''
      (journal_fields j) = Inr ()"
    by (simp add: require_exact_fields_Inr journal_fields_def)
  have get: "dget (journal_fields j) ''schema_version'' = PyInt 1"
      "dget (journal_fields j) ''active_id'' = opt_value PyStr (ij_active_id j)"
      "dget (journal_fields j) ''entries'' = PyDict (map (\<lambda>p. (fst p, entry_dict (snd p))) (ij_entries j))"
      "dget (journal_fields j) ''order'' = PyList (map PyStr (ij_order j))"
    by (simp_all add: dget_def journal_fields_def)
  have order: "list_all nonempty_text (map PyStr (ij_order j))" "map text_of (map PyStr (ij_order j)) = ij_order j"
    using journal_ids(1) [OF assms] by (auto simp: list_all_iff nonempty_text_PyStr intro: map_idI)
  have active: "\<not> (opt_value PyStr (ij_active_id j) \<noteq> PyNone \<and> \<not> nonempty_text (opt_value PyStr (ij_active_id j)))"
      "(if opt_value PyStr (ij_active_id j) = PyNone then None else Some (text_of (opt_value PyStr (ij_active_id j)))) = ij_active_id j"
      "\<not> (ij_active_id j \<noteq> None \<and> the (ij_active_id j) \<notin> set (dict_keys (ij_entries j)))"
    using journal_ids(2) [OF assms] by (cases "ij_active_id j"; simp add: nonempty_text_PyStr)+
  show ?thesis
    unfolding validate_interaction_journal_def journal_dict_def journal_fields_def [symmetric] pyval.case copy bindr_simps keys get
      entries order Let_def active
    using assms order active by (simp add: journal_ok_def)
qed

lemma case_PyList_object: "(case v of PyList d \<Rightarrow> f d | _ \<Rightarrow> Inl e) = Inr r \<longleftrightarrow> (\<exists>d. v = PyList d \<and> f d = Inr r)"
  by (cases v) auto

lemma validate_journal_PyDict:
  "validate_interaction_journal sha fr (PyDict d) = Inr j \<longleftrightarrow>
     json_value (PyDict d) \<and> set (dict_keys d) = set [''schema_version'', ''active_id'', ''entries'', ''order''] \<and>
     is_version_one (dget d ''schema_version'') \<and>
     (\<exists>es. dget d ''entries'' = PyDict es \<and>
     (\<exists>ks. dget d ''order'' = PyList ks \<and> list_all nonempty_text ks \<and> distinct (map text_of ks) \<and>
     \<not> (dget d ''active_id'' \<noteq> PyNone \<and> \<not> nonempty_text (dget d ''active_id'')) \<and>
     (\<exists>entries. mapr (validate_entry sha fr) es = Inr entries \<and>
     set (map text_of ks) = set (dict_keys entries) \<and>
     \<not> ((if dget d ''active_id'' = PyNone then None else Some (text_of (dget d ''active_id''))) \<noteq> None \<and>
        the (if dget d ''active_id'' = PyNone then None else Some (text_of (dget d ''active_id''))) \<notin> set (dict_keys entries)) \<and>
     pending_ids entries = (case if dget d ''active_id'' = PyNone then None else Some (text_of (dget d ''active_id'')) of
        None \<Rightarrow> [] | Some i \<Rightarrow> [i]) \<and>
     \<lparr>ij_active_id = if dget d ''active_id'' = PyNone then None else Some (text_of (dget d ''active_id'')),
       ij_entries = entries, ij_order = map text_of ks\<rparr> = j)))"
  unfolding validate_interaction_journal_def pyval.case accepts accepts_unit if_eq_Inr not_not sum.inject Let_def
    case_PyDict_object case_PyList_object bindr_eq_Inr [of "mapr f x" for f x]
  by (rule refl)

lemma journal_decoded:
  assumes "validate_interaction_journal sha fr v = Inr j"
  shows "journal_ok sha j"
proof (cases "v = PyNone")
  case True
  then have "j = new_interaction_journal" using assms by (simp add: validate_interaction_journal_def)
  then show ?thesis by (simp add: journal_ok_def new_interaction_journal_def pending_ids_def)
next
  case False
  then obtain d where v: "v = PyDict d"
    using assms by (cases v) (auto simp: validate_interaction_journal_def)
  let ?active = "if dget d ''active_id'' = PyNone then None else Some (text_of (dget d ''active_id''))"
  obtain es ks entries where ks: "distinct (map text_of ks)"
      and es: "mapr (validate_entry sha fr) es = Inr entries"
      and keys: "set (map text_of ks) = set (dict_keys entries)"
      and pending: "pending_ids entries = (case ?active of None \<Rightarrow> [] | Some i \<Rightarrow> [i])"
      and j: "\<lparr>ij_active_id = ?active, ij_entries = entries, ij_order = map text_of ks\<rparr> = j"
    using assms unfolding v validate_journal_PyDict by - (elim conjE exE, rule that; assumption)
  have fields: "ij_entries j = entries" "ij_order j = map text_of ks" "ij_active_id j = ?active"
    unfolding j [symmetric] by (simp_all only: interaction_journal.simps)
  have all2: "list_all2 (\<lambda>x y. validate_entry sha fr x = Inr y) es entries" using es by (simp add: mapr_Inr)
  have entry: "entry_ok sha (fst p) (snd p)" if p: "p \<in> set entries" for p
  proof -
    obtain x where "validate_entry sha fr (fst x, snd x) = Inr p" using list_all2_elem [OF all2 p] by auto
    from entry_decoded [OF this] show ?thesis by simp
  qed
  show ?thesis unfolding journal_ok_def fields list_all_iff using entry ks keys pending by blast
qed

interpretation interaction_journal: record_codec journal_dict "validate_interaction_journal sha fr" "journal_ok sha"
  for sha fr
  by unfold_locales (simp_all add: journal_trip journal_decoded)

subsection \<open>What each operation does to a valid journal\<close>

definition journal_inv :: "(blob \<Rightarrow> string) \<Rightarrow> interaction_journal \<Rightarrow> bool" where
  "journal_inv sha j \<longleftrightarrow> journal_ok sha j \<and> dict_wf (ij_entries j)"

definition fresh_entry :: "interaction_request \<Rightarrow> string \<Rightarrow> ix_entry" where
  "fresh_entry q cid = \<lparr>ie_request = q, ie_checkpoint_id = cid, ie_receipt = None, ie_application = None\<rparr>"

definition registered :: "interaction_request \<Rightarrow> string \<Rightarrow> interaction_journal \<Rightarrow> interaction_journal" where
  "registered q cid j = \<lparr>ij_active_id = Some (iq_interaction_id q),
     ij_entries = dict_set (iq_interaction_id q) (fresh_entry q cid) (ij_entries j),
     ij_order = ij_order j @ [iq_interaction_id q]\<rparr>"

definition answered :: "interaction_receipt \<Rightarrow> ix_entry \<Rightarrow> interaction_journal \<Rightarrow> interaction_journal" where
  "answered c e j = j\<lparr>ij_entries := dict_set (ic_interaction_id c) (e\<lparr>ie_receipt := Some c\<rparr>) (ij_entries j)\<rparr>"

definition applied :: "string \<Rightarrow> ix_application \<Rightarrow> ix_entry \<Rightarrow> interaction_journal \<Rightarrow> interaction_journal" where
  "applied i a e j = j\<lparr>ij_entries := dict_set i (e\<lparr>ie_application := Some a\<rparr>) (ij_entries j), ij_active_id := None\<rparr>"

lemma dict_set_new: "dict_get d k = None \<Longrightarrow> dict_set k v d = d @ [(k, v)]"
  by (induction d) auto

lemma dict_wf_head: "\<lbrakk>dict_wf (p # d); q \<in> set d\<rbrakk> \<Longrightarrow> fst q \<noteq> fst p"
  by (auto simp: dict_wf_def image_iff)

lemma dict_set_in_place:
  "\<lbrakk>dict_wf d; dict_get d k \<noteq> None\<rbrakk> \<Longrightarrow> dict_set k v d = map (\<lambda>p. if fst p = k then (k, v) else p) d"
proof (induction d)
  case (Cons p d)
  obtain a b where p: "p = (a, b)" by fastforce
  have "map (\<lambda>q. if fst q = a then (a, v) else q) d = d"
    using dict_wf_head [OF Cons.prems(1)] p by (intro map_idI) auto
  moreover have "dict_wf d" "a \<noteq> k \<Longrightarrow> dict_get d k \<noteq> None" using Cons.prems p by (auto simp: dict_wf_def split: if_splits)
  ultimately show ?case using Cons.IH p by (cases "a = k") auto
qed simp

lemma dict_keys_in_place [simp]: "map (fst \<circ> (\<lambda>p. if fst p = k then (k, v) else p)) d = dict_keys d"
  by (induction d) auto

lemma pending_ids_in_place:
  "\<lbrakk>dict_wf d; dict_get d k = Some e\<rbrakk> \<Longrightarrow> pending_ids (dict_set k e' d) =
     (if ie_application e' = None \<longleftrightarrow> ie_application e = None then pending_ids d
      else if ie_application e' = None then pending_ids (dict_set k e' d) else filter (\<lambda>i. i \<noteq> k) (pending_ids d))"
proof (induction d)
  case (Cons p d)
  have later: "filter (\<lambda>i. i \<noteq> k) (pending_ids d) = pending_ids d" if "k = fst p"
    using dict_wf_head [OF Cons.prems(1)] that by (auto simp: pending_ids_def filter_id_conv)
  have "pending_ids (q # ds) = (if ie_application (snd q) = None then fst q # pending_ids ds else pending_ids ds)" for q ds
    by (simp add: pending_ids_def)
  then show ?case
    using Cons later by (cases p) (auto simp: dict_wf_def split: if_splits)
qed simp

lemma entry_ok_get: "\<lbrakk>journal_ok sha j; dict_get (ij_entries j) i = Some e\<rbrakk> \<Longrightarrow> entry_ok sha i e"
  by (auto simp: journal_ok_def list_all_iff dest!: map_of_SomeD)

lemma registered_inv:
  assumes "journal_inv sha j" "request_ok sha q" "stripped cid" "dict_get (ij_entries j) (iq_interaction_id q) = None"
    and "ij_active_id j = None"
  shows "journal_inv sha (registered q cid j)"
proof -
  have "entry_ok sha (iq_interaction_id q) (fresh_entry q cid)"
    using assms(2,3) by (auto simp: entry_ok_def fresh_entry_def request_ok_def stripped_def)
  moreover have "iq_interaction_id q \<notin> set (ij_order j)"
    using assms(1,4) by (auto simp: journal_inv_def journal_ok_def map_of_eq_None_iff)
  ultimately show ?thesis
    using assms
    by (auto simp: journal_inv_def journal_ok_def registered_def dict_set_new pending_ids_def fresh_entry_def dict_wf_def
        map_of_eq_None_iff)
qed

lemma update_entry_ok:
  assumes "journal_inv sha j" "dict_get (ij_entries j) i = Some e" "entry_ok sha i e'"
  shows "list_all (\<lambda>p. entry_ok sha (fst p) (snd p)) (dict_set i e' (ij_entries j))"
    and "set (dict_keys (dict_set i e' (ij_entries j))) = set (dict_keys (ij_entries j))"
proof -
  have "dict_set i e' (ij_entries j) = map (\<lambda>p. if fst p = i then (i, e') else p) (ij_entries j)"
    using assms by (intro dict_set_in_place) (auto simp: journal_inv_def)
  then show "list_all (\<lambda>p. entry_ok sha (fst p) (snd p)) (dict_set i e' (ij_entries j))"
      "set (dict_keys (dict_set i e' (ij_entries j))) = set (dict_keys (ij_entries j))"
    using assms by (auto simp: journal_inv_def journal_ok_def list_all_iff image_iff split: if_splits)
qed

lemma answered_inv:
  assumes "journal_inv sha j" "dict_get (ij_entries j) (ic_interaction_id c) = Some e" "receipt_ok sha c"
    and "answers c (ie_request e)" "ie_application e = None"
  shows "journal_inv sha (answered c e j)"
proof -
  have e: "entry_ok sha (ic_interaction_id c) (e\<lparr>ie_receipt := Some c\<rparr>)"
    using assms entry_ok_get [of sha j "ic_interaction_id c" e] by (simp add: entry_ok_def journal_inv_def)
  show ?thesis
    using assms update_entry_ok [OF assms(1,2) e]
    by (simp add: journal_inv_def journal_ok_def answered_def pending_ids_in_place)
qed

lemma applied_inv:
  assumes "journal_inv sha j" "dict_get (ij_entries j) i = Some e" "ie_application e = None" "ij_active_id j = Some i"
    and "ie_receipt e = Some c" "application_ok c a"
  shows "journal_inv sha (applied i a e j)"
proof -
  have e: "entry_ok sha i (e\<lparr>ie_application := Some a\<rparr>)"
    using assms entry_ok_get [of sha j i e] by (simp add: entry_ok_def journal_inv_def)
  show ?thesis
    using assms update_entry_ok [OF assms(1,2) e]
    by (simp add: journal_inv_def journal_ok_def applied_def pending_ids_in_place)
qed

lemma registered_alt:
  "j\<lparr>ij_entries := dict_set (iq_interaction_id q) \<lparr>ie_request = q, ie_checkpoint_id = cid, ie_receipt = None,
       ie_application = None\<rparr> (ij_entries j), ij_active_id := Some (iq_interaction_id q),
     ij_order := ij_order j @ [iq_interaction_id q]\<rparr> = registered q cid j"
  by (simp add: registered_def fresh_entry_def)

lemma active_registered:
  "\<lbrakk>journal_ok sha j; dict_get (ij_entries j) i = None\<rbrakk> \<Longrightarrow> ij_active_id j \<noteq> Some i"
  using journal_ids(2) [of sha j i] by (auto simp: map_of_eq_None_iff)

lemma register_effect:
  assumes "journal_inv sha j"
  shows "register_interaction_request sha fr x cid (journal_dict j) = Inr k \<longleftrightarrow>
     (\<exists>q t. interaction_request_from_dict sha fr x = Inr q \<and> ix_required_text ''checkpoint_id'' cid = Inr t \<and>
       ((\<exists>e. dict_get (ij_entries j) (iq_interaction_id q) = Some e \<and>
             py_eq (interaction_request_to_dict (ie_request e)) (interaction_request_to_dict q) \<and>
             ie_checkpoint_id e = t \<and> k = j) \<or>
        (dict_get (ij_entries j) (iq_interaction_id q) = None \<and> ij_active_id j = None \<and> k = registered q t j)))"
    (is "_ \<longleftrightarrow> ?spec")
proof -
  have ok: "journal_ok sha j" using assms by (simp add: journal_inv_def)
  have new: "validate_interaction_journal sha fr (journal_dict (registered q t j)) = Inr (registered q t j)"
    if "interaction_request_from_dict sha fr x = Inr q" "ix_required_text n cid = Inr t"
      "dict_get (ij_entries j) (iq_interaction_id q) = None" "ij_active_id j = None" for q t n
    using registered_inv [OF assms request_from_dict_ok [OF that(1)] _ that(3,4)] that(2)
    by (intro journal_trip) (auto simp: journal_inv_def ix_required_text_Inr text_ok_def)
  have "?spec \<longleftrightarrow> (\<exists>q. interaction_request_from_dict sha fr x = Inr q \<and> (\<exists>t. ix_required_text ''checkpoint_id'' cid = Inr t \<and>
      (case dict_get (ij_entries j) (iq_interaction_id q) of
         Some e \<Rightarrow> py_eq (interaction_request_to_dict (ie_request e)) (interaction_request_to_dict q) \<and> ie_checkpoint_id e = t \<and> k = j
       | None \<Rightarrow> ij_active_id j = None \<and> k = registered q t j)))"
    by (auto split: option.splits)
  also have "\<dots> \<longleftrightarrow> register_interaction_request sha fr x cid (journal_dict j) = Inr k"
    unfolding register_interaction_request_def journal_trip [OF ok] bindr_simps bindr_eq_Inr Let_def registered_alt
    using active_registered [OF ok] new by (intro arg_cong [where f = Ex] ext conj_cong refl) (auto split: option.splits)
  finally show ?thesis by simp
qed

lemma record_effect:
  assumes "journal_inv sha j"
  shows "record_interaction_receipt sha fr x (journal_dict j) = Inr k \<longleftrightarrow>
     (\<exists>c e. interaction_receipt_from_dict sha fr x None = Inr c \<and> dict_get (ij_entries j) (ic_interaction_id c) = Some e \<and>
       answers c (ie_request e) \<and>
       ((\<exists>c'. ie_receipt e = Some c' \<and> ic_receipt_digest c' = ic_receipt_digest c \<and> k = j) \<or>
        (ie_receipt e = None \<and> ij_active_id j = Some (ic_interaction_id c) \<and> k = answered c e j)))"
    (is "_ \<longleftrightarrow> ?spec")
proof -
  have ok: "journal_ok sha j" using assms by (simp add: journal_inv_def)
  let ?body = "\<lambda>c e. bindr (interaction_request_from_dict sha fr (Inr (interaction_request_to_dict (ie_request e)))) (\<lambda>request.
           bindr (interaction_receipt_from_dict sha fr (Inl c) (Some (Inl request))) (\<lambda>_.
             case ie_receipt e of
               Some existing_raw \<Rightarrow>
                 bindr (interaction_receipt_from_dict sha fr (Inr (interaction_receipt_to_dict existing_raw)) (Some (Inl request)))
                   (\<lambda>existing.
                     if ic_receipt_digest existing = ic_receipt_digest c then Inr j
                     else if ie_application e \<noteq> None
                     then Inl (already_applied_error (''interaction receipt is already applied: '' @ repr_str (ic_interaction_id c)))
                     else Inl (receipt_conflict_error (''interaction already has a different receipt: '' @ repr_str (ic_interaction_id c))))
             | None \<Rightarrow>
                 if ie_application e \<noteq> None
                 then Inl (integrity_error ''interaction application exists without a receipt'')
                 else if ij_active_id j \<noteq> Some (ic_interaction_id c)
                 then Inl (not_pending_error (''interaction is no longer pending: '' @ repr_str (ic_interaction_id c)))
                 else validate_interaction_journal sha fr (journal_dict (answered c e j))))"
  have body: "?body c e = Inr k \<longleftrightarrow> answers c (ie_request e) \<and>
       ((\<exists>c'. ie_receipt e = Some c' \<and> ic_receipt_digest c' = ic_receipt_digest c \<and> k = j) \<or>
        (ie_receipt e = None \<and> ij_active_id j = Some (ic_interaction_id c) \<and> k = answered c e j))"
    if c: "interaction_receipt_from_dict sha fr x None = Inr c" and e: "dict_get (ij_entries j) (ic_interaction_id c) = Some e" for c e
  proof -
    have eok: "entry_ok sha (ic_interaction_id c) e" using ok e by (rule entry_ok_get)
    then have q: "request_ok sha (ie_request e)" by (simp add: entry_ok_def)
    have cok: "receipt_ok sha c" using c by (rule receipt_from_dict_ok)
    have new: "validate_interaction_journal sha fr (journal_dict (answered c e j)) = Inr (answered c e j)"
      if "answers c (ie_request e)" "ie_receipt e = None"
      using answered_inv [OF assms e cok that(1)] eok that(2)
      by (intro journal_trip) (simp add: journal_inv_def entry_ok_def)
    show ?thesis
      using q cok eok new
      by (cases "ie_receipt e"; cases "answers c (ie_request e)")
        (auto simp: entry_ok_def request_from_dict_raw interaction_request.round_trip receipt_from_dict_simps(1,2)
          bindr_eq_Inr bound_to_Some)
  qed
  have "record_interaction_receipt sha fr x (journal_dict j) = Inr k \<longleftrightarrow>
      (\<exists>c. interaction_receipt_from_dict sha fr x None = Inr c \<and>
        (\<exists>e. dict_get (ij_entries j) (ic_interaction_id c) = Some e \<and> ?body c e = Inr k))"
    unfolding record_interaction_receipt_def journal_trip [OF ok] bindr_simps bindr_eq_Inr [of "interaction_receipt_from_dict sha fr x None"]
      Let_def answered_def
    by (intro arg_cong [where f = Ex] ext conj_cong refl) (auto split: option.splits)
  then show ?thesis using body by blast
qed

lemma mark_effect:
  assumes "journal_inv sha j"
  shows "mark_interaction_applied sha fr iid rid cid (journal_dict j) = Inr k \<longleftrightarrow>
     (\<exists>i r t e. ix_required_text ''interaction_id'' iid = Inr i \<and> ix_required_text ''receipt_id'' rid = Inr r \<and>
       ix_required_text ''applied_checkpoint_id'' cid = Inr t \<and> dict_get (ij_entries j) i = Some e \<and>
       ((ie_application e = Some \<lparr>ia_receipt_id = r, ia_applied_checkpoint_id = t\<rparr> \<and> k = j) \<or>
        (ie_application e = None \<and> ij_active_id j = Some i \<and> (\<exists>c. ie_receipt e = Some c \<and> ic_receipt_id c = r) \<and>
         k = applied i \<lparr>ia_receipt_id = r, ia_applied_checkpoint_id = t\<rparr> e j)))"
proof -
  have ok: "journal_ok sha j" using assms by (simp add: journal_inv_def)
  let ?app = "\<lambda>r t. \<lparr>ia_receipt_id = r, ia_applied_checkpoint_id = t\<rparr>"
  let ?body = "\<lambda>i r t e. case ie_application e of
             Some existing \<Rightarrow>
               if existing = ?app r t then Inr j
               else Inl (already_applied_error (''interaction is already applied: '' @ repr_str i))
           | None \<Rightarrow>
               if ij_active_id j \<noteq> Some i
               then Inl (not_pending_error (''interaction is no longer pending: '' @ repr_str i)) else
               case ie_receipt e of
                 None \<Rightarrow> Inl (not_pending_error ''interaction cannot be applied before a receipt is recorded'')
               | Some raw_receipt \<Rightarrow>
                   bindr (interaction_receipt_from_dict sha fr (Inr (interaction_receipt_to_dict raw_receipt))
                            (Some (Inr (interaction_request_to_dict (ie_request e))))) (\<lambda>receipt.
                     if ic_receipt_id receipt \<noteq> r
                     then Inl (integrity_error ''applied receipt_id does not match the recorded receipt'')
                     else validate_interaction_journal sha fr (journal_dict (applied i (?app r t) e j)))"
  have body: "?body i r t e = Inr k \<longleftrightarrow>
       (ie_application e = Some (?app r t) \<and> k = j) \<or>
        (ie_application e = None \<and> ij_active_id j = Some i \<and> (\<exists>c. ie_receipt e = Some c \<and> ic_receipt_id c = r) \<and>
         k = applied i (?app r t) e j)"
    if rt: "stripped r" "stripped t" and e: "dict_get (ij_entries j) i = Some e" for i r t e
  proof -
    have eok: "entry_ok sha i e" using ok e by (rule entry_ok_get)
    have new: "validate_interaction_journal sha fr (journal_dict (applied i (?app r t) e j)) = Inr (applied i (?app r t) e j)"
      if "ie_application e = None" "ij_active_id j = Some i" "ie_receipt e = Some c" "ic_receipt_id c = r" for c
      using applied_inv [OF assms e that(1-3)] rt that(4)
      by (intro journal_trip) (simp add: journal_inv_def application_ok_def)
    show ?thesis
      using eok new
      by (cases "ie_application e"; cases "ie_receipt e")
        (auto simp: entry_ok_def receipt_from_dict_simps(2) bindr_eq_Inr bound_to_Some)
  qed
  have "mark_interaction_applied sha fr iid rid cid (journal_dict j) = Inr k \<longleftrightarrow>
      (\<exists>i. ix_required_text ''interaction_id'' iid = Inr i \<and> (\<exists>r. ix_required_text ''receipt_id'' rid = Inr r \<and>
       (\<exists>t. ix_required_text ''applied_checkpoint_id'' cid = Inr t \<and>
       (\<exists>e. dict_get (ij_entries j) i = Some e \<and> ?body i r t e = Inr k))))"
    unfolding mark_interaction_applied_def journal_trip [OF ok] bindr_simps bindr_eq_Inr [of "ix_required_text n v" for n v]
      Let_def applied_def
    by (intro arg_cong [where f = Ex] ext conj_cong refl) (auto split: option.splits)
  also have "\<dots> \<longleftrightarrow> (\<exists>i. ix_required_text ''interaction_id'' iid = Inr i \<and> (\<exists>r. ix_required_text ''receipt_id'' rid = Inr r \<and>
       (\<exists>t. ix_required_text ''applied_checkpoint_id'' cid = Inr t \<and>
       (\<exists>e. dict_get (ij_entries j) i = Some e \<and>
       ((ie_application e = Some (?app r t) \<and> k = j) \<or>
        (ie_application e = None \<and> ij_active_id j = Some i \<and> (\<exists>c. ie_receipt e = Some c \<and> ic_receipt_id c = r) \<and>
         k = applied i (?app r t) e j))))))"
    using ix_required_text_Inr by (intro arg_cong [where f = Ex] ext conj_cong refl body) (auto simp: text_ok_def)
  finally show ?thesis by blast
qed

lemma get_active_effect:
  "journal_inv sha j \<Longrightarrow> get_active_interaction sha fr (journal_dict j) =
     Inr (Option.bind (ij_active_id j) (dict_get (ij_entries j)))"
  using journal_ids(2) [of sha j]
  by (cases "ij_active_id j") (auto simp: get_active_interaction_def journal_inv_def journal_trip map_of_eq_None_iff
    split: option.splits)

subsection \<open>Histories of a journal\<close>

text \<open>
  What a session does with its journal: any of the three operations, on the object that was stored last.
  A call that raises stores nothing.
\<close>

datatype journal_call =
    Register "interaction_request + pyval" pyval
  | Answer "interaction_receipt + pyval"
  | Apply pyval pyval pyval

fun ix_call :: "(blob \<Rightarrow> string) \<Rightarrow> (rat \<Rightarrow> string) \<Rightarrow> journal_call \<Rightarrow> pyval \<Rightarrow> (py_exc, interaction_journal) res" where
  "ix_call sha fr (Register q cid) v = register_interaction_request sha fr q cid v"
| "ix_call sha fr (Answer c) v = record_interaction_receipt sha fr c v"
| "ix_call sha fr (Apply i r cid) v = mark_interaction_applied sha fr i r cid v"

inductive ix_reach ::
  "(blob \<Rightarrow> string) \<Rightarrow> (rat \<Rightarrow> string) \<Rightarrow> interaction_journal \<Rightarrow> interaction_journal \<Rightarrow> bool" for sha fr j where
  ix_start: "ix_reach sha fr j j"
| ix_step: "\<lbrakk>ix_reach sha fr j k; ix_call sha fr c (journal_dict k) = Inr l\<rbrakk> \<Longrightarrow> ix_reach sha fr j l"

text \<open>The four ways a successful call may change a valid journal, the first being not at all.\<close>

inductive ix_change :: "(blob \<Rightarrow> string) \<Rightarrow> interaction_journal \<Rightarrow> interaction_journal \<Rightarrow> bool" for sha j where
  unchanged: "ix_change sha j j"
| registers: "\<lbrakk>request_ok sha q; stripped t; dict_get (ij_entries j) (iq_interaction_id q) = None; ij_active_id j = None\<rbrakk>
    \<Longrightarrow> ix_change sha j (registered q t j)"
| answers_it: "\<lbrakk>receipt_ok sha c; dict_get (ij_entries j) (ic_interaction_id c) = Some e; answers c (ie_request e);
    ie_receipt e = None; ie_application e = None; ij_active_id j = Some (ic_interaction_id c)\<rbrakk>
    \<Longrightarrow> ix_change sha j (answered c e j)"
| applies: "\<lbrakk>dict_get (ij_entries j) i = Some e; ie_receipt e = Some c; ie_application e = None; ij_active_id j = Some i;
    application_ok c a\<rbrakk> \<Longrightarrow> ix_change sha j (applied i a e j)"

lemma call_is_change:
  assumes "journal_inv sha j" "ix_call sha fr c (journal_dict j) = Inr k"
  shows "ix_change sha j k"
proof (cases c)
  case (Register x cid)
  obtain q t where q: "interaction_request_from_dict sha fr x = Inr q" "ix_required_text ''checkpoint_id'' cid = Inr t"
      and k: "k = j \<or> dict_get (ij_entries j) (iq_interaction_id q) = None \<and> ij_active_id j = None \<and> k = registered q t j"
    using assms(2) unfolding Register ix_call.simps register_effect [OF assms(1)] by blast
  from q have "request_ok sha q" "stripped t" by (auto dest: request_from_dict_ok simp: ix_required_text_Inr text_ok_def)
  then show ?thesis using k by (elim disjE) (simp_all add: ix_change.intros)
next
  case (Answer x)
  then obtain c' e where c': "interaction_receipt_from_dict sha fr x None = Inr c'"
      "dict_get (ij_entries j) (ic_interaction_id c') = Some e" "answers c' (ie_request e)"
      "k = j \<or> ie_receipt e = None \<and> ij_active_id j = Some (ic_interaction_id c') \<and> k = answered c' e j"
    using assms(2) unfolding Answer ix_call.simps record_effect [OF assms(1)] by blast
  moreover have "ie_receipt e = None \<Longrightarrow> ie_application e = None"
    using entry_ok_get [OF _ c'(2)] assms(1) by (auto simp: journal_inv_def entry_ok_def)
  moreover have "receipt_ok sha c'" using c'(1) by (rule receipt_from_dict_ok)
  ultimately show ?thesis by (elim disjE) (simp_all add: ix_change.intros)
next
  case (Apply i r t)
  obtain i' r' t' e where rt: "ix_required_text ''receipt_id'' r = Inr r'" "ix_required_text ''applied_checkpoint_id'' t = Inr t'"
      and e: "dict_get (ij_entries j) i' = Some e"
      and k: "k = j \<or> ie_application e = None \<and> ij_active_id j = Some i' \<and> (\<exists>c. ie_receipt e = Some c \<and> ic_receipt_id c = r') \<and>
         k = applied i' \<lparr>ia_receipt_id = r', ia_applied_checkpoint_id = t'\<rparr> e j"
    using assms(2) unfolding Apply ix_call.simps mark_effect [OF assms(1)] by blast
  from rt have "stripped r'" "stripped t'" by (auto simp: ix_required_text_Inr text_ok_def)
  then have app: "application_ok c \<lparr>ia_receipt_id = r', ia_applied_checkpoint_id = t'\<rparr>" if "ic_receipt_id c = r'" for c
    using that by (simp add: application_ok_def)
  from k show ?thesis by (elim disjE conjE exE) (simp_all add: ix_change.unchanged ix_change.applies [OF e _ _ _ app])
qed

lemma change_keeps_inv: "\<lbrakk>ix_change sha j k; journal_inv sha j\<rbrakk> \<Longrightarrow> journal_inv sha k"
  by (induction rule: ix_change.induct) (auto intro: registered_inv answered_inv applied_inv)

lemma reach_inv: "\<lbrakk>ix_reach sha fr j k; journal_inv sha j\<rbrakk> \<Longrightarrow> journal_inv sha k"
  by (induction rule: ix_reach.induct) (auto intro: change_keeps_inv call_is_change)

lemma new_journal_inv: "journal_inv sha new_interaction_journal"
  by (simp add: journal_inv_def journal_ok_def new_interaction_journal_def pending_ids_def dict_wf_def)

text \<open>What later states keep of an entry.\<close>

definition entry_grows :: "ix_entry \<Rightarrow> ix_entry \<Rightarrow> bool" where
  "entry_grows e e' \<longleftrightarrow> ie_request e' = ie_request e \<and> ie_checkpoint_id e' = ie_checkpoint_id e \<and>
     ie_receipt e' \<in> (case ie_receipt e of None \<Rightarrow> UNIV | Some c \<Rightarrow> {Some c}) \<and>
     ie_application e' \<in> (case ie_application e of None \<Rightarrow> UNIV | Some a \<Rightarrow> {Some a})"

lemma entry_grows_refl [simp]: "entry_grows e e"
  by (simp add: entry_grows_def split: option.splits)

lemma entry_grows_trans: "\<lbrakk>entry_grows e f; entry_grows f g\<rbrakk> \<Longrightarrow> entry_grows e g"
  by (auto simp: entry_grows_def split: option.splits)

lemma change_keeps_entries:
  assumes "ix_change sha j k" "dict_get (ij_entries j) i = Some e"
  shows "\<exists>e'. dict_get (ij_entries k) i = Some e' \<and> entry_grows e e'"
  using assms(1)
proof cases
  case (registers q t)
  then show ?thesis using assms(2) by (auto simp: registered_def)
next
  case (answers_it c e0)
  then have "i = ic_interaction_id c \<Longrightarrow> entry_grows e (e0\<lparr>ie_receipt := Some c\<rparr>)"
    using assms(2) by (simp add: entry_grows_def)
  then show ?thesis using answers_it(1) assms(2) by (simp add: answered_def)
next
  case (applies i' e0 c a)
  then have "i = i' \<Longrightarrow> entry_grows e (e0\<lparr>ie_application := Some a\<rparr>)"
    using assms(2) by (simp add: entry_grows_def)
  then show ?thesis using applies(1) assms(2) by (simp add: applied_def)
qed (use assms(2) in simp)

lemma reach_keeps_entries:
  assumes "ix_reach sha fr j k" "journal_inv sha j" "dict_get (ij_entries j) i = Some e"
  shows "\<exists>e'. dict_get (ij_entries k) i = Some e' \<and> entry_grows e e'"
  using assms
proof (induction rule: ix_reach.induct)
  case (ix_step k c l)
  then obtain e' where e': "dict_get (ij_entries k) i = Some e'" "entry_grows e e'" by blast
  have "ix_change sha k l"
    using call_is_change [OF reach_inv [OF ix_step.hyps(1) ix_step.prems(1)] ix_step.hyps(2)] .
  from change_keeps_entries [OF this e'(1)] show ?case using e'(2) entry_grows_trans by blast
qed auto

subsection \<open>Digests, and requests that were built\<close>

lemma hex_not_space:
  "(48 \<le> (of_char c :: nat) \<and> (of_char c :: nat) \<le> 57) \<or> (97 \<le> (of_char c :: nat) \<and> (of_char c :: nat) \<le> 102) \<Longrightarrow> \<not> py_isspace c"
  by (auto simp: py_isspace_def)

lemma sha256_no_space: "is_sha256 s \<Longrightarrow> c \<in> set s \<Longrightarrow> \<not> py_isspace c"
  by (rule hex_not_space) (auto simp: is_sha256_def list_all_iff Let_def)

lemma sha256_stripped: "is_sha256 s \<Longrightarrow> stripped s"
  using sha256_no_space [of s] by (auto simp: stripped_def is_sha256_def intro!: py_strip_no_space)

lemma tagged_stripped:
  assumes "is_sha256 s" "\<forall>c \<in> set tag. \<not> py_isspace c" "tag \<noteq> []"
  shows "stripped (tag @ take n s)"
proof -
  have "\<forall>c \<in> set (tag @ take n s). \<not> py_isspace c"
    using assms sha256_no_space [OF assms(1)] by (auto dest: in_set_takeD)
  then show ?thesis using assms(3) by (simp add: stripped_def py_strip_no_space)
qed

lemma interaction_tag: "\<forall>c \<in> set ''interaction_''. \<not> py_isspace c" "\<forall>c \<in> set ''receipt_''. \<not> py_isspace c"
  by (simp_all add: py_isspace_def)

text \<open>The request the builder returns for well-formed arguments.\<close>

definition built_core :: "(blob \<Rightarrow> string) \<Rightarrow> string \<Rightarrow> string \<Rightarrow> string \<Rightarrow> string \<Rightarrow> pyval \<Rightarrow> pyval \<Rightarrow> int \<Rightarrow> pyval \<Rightarrow> pydict" where
  "built_core sha ses kind run oc p c n su =
     [(''schema_version'', PyInt 1), (''session_id'', PyStr ses), (''kind'', PyStr kind),
      (''source_run_id'', PyStr run), (''occurrence'', PyStr oc), (''payload'', p), (''response_contract'', c),
      (''schema_digest'', PyStr (sha_value sha c)), (''created_revision'', PyInt n), (''subject'', su)]"

definition built_request ::
  "(blob \<Rightarrow> string) \<Rightarrow> string \<Rightarrow> string \<Rightarrow> string \<Rightarrow> string \<Rightarrow> pyval \<Rightarrow> pyval \<Rightarrow> int \<Rightarrow> pyval \<Rightarrow> interaction_request" where
  "built_request sha ses kind run oc p c n su =
     (let d = sha_value sha (PyDict (built_core sha ses kind run oc p c n su)) in
      \<lparr>iq_schema_version = PyInt 1, iq_interaction_id = ''interaction_'' @ take 32 d, iq_session_id = ses, iq_kind = kind,
       iq_source_run_id = run, iq_occurrence = oc, iq_payload = p, iq_response_contract = c,
       iq_schema_digest = sha_value sha c, iq_request_digest = d, iq_created_revision = n, iq_subject = su\<rparr>)"

definition plain_args :: "string \<Rightarrow> string \<Rightarrow> string \<Rightarrow> string \<Rightarrow> pyval \<Rightarrow> pyval \<Rightarrow> int \<Rightarrow> pyval \<Rightarrow> bool" where
  "plain_args ses kind run oc p c n su \<longleftrightarrow> stripped ses \<and> stripped run \<and> stripped oc \<and> kind \<in> set interaction_kinds \<and>
     0 \<le> n \<and> json_value p \<and> json_value c \<and> json_value su"

lemma built_request_ok:
  assumes sha: "\<And>b. is_sha256 (sha b)" and args: "plain_args ses kind run oc p c n su"
  shows "request_ok sha (built_request sha ses kind run oc p c n su)"
proof -
  let ?core = "PyDict (built_core sha ses kind run oc p c n su)"
  have hex: "py_strip (sha_value sha v) = sha_value sha v \<and> sha_value sha v \<noteq> []" for v
    using sha256_stripped [OF sha] by (simp add: sha_value_def stripped_def)
  have "stripped (''interaction_'' @ take 32 (sha_value sha ?core))"
    by (rule tagged_stripped) (use sha interaction_tag in \<open>simp_all add: sha_value_def\<close>)
  moreover have "core_of_request (built_request sha ses kind run oc p c n su) = built_core sha ses kind run oc p c n su"
    by (simp add: core_of_request_def built_request_def Let_def built_core_def hex)
  ultimately show ?thesis
    using args hex unfolding request_ok_def plain_args_def by (simp add: built_request_def Let_def)
qed

lemma build_request_spec:
  assumes sha: "\<And>b. is_sha256 (sha b)" and args: "plain_args ses kind run oc p c n su"
  shows "build_interaction_request sha fr (PyStr ses) (PyStr kind) (PyStr run) (PyStr oc) p c (PyInt n) su =
    Inr (built_request sha ses kind run oc p c n su)"
proof -
  let ?q = "built_request sha ses kind run oc p c n su" and ?core = "built_core sha ses kind run oc p c n su"
  let ?d = "sha_value sha (PyDict ?core)"
  let ?raw = "?core @ [(''interaction_id'', PyStr (''interaction_'' @ take 32 ?d)), (''request_digest'', PyStr ?d)]"
  have ok: "request_ok sha ?q" using sha args by (rule built_request_ok)
  have strip: "py_strip ses = ses" "py_strip run = run" "py_strip oc = oc" "py_strip (''interaction_'' @ take 32 ?d) = ''interaction_'' @ take 32 ?d"
    using args request_ok_text [OF ok] by (simp_all add: plain_args_def stripped_def built_request_def Let_def)
  have "request_of ?raw = ?q"
    using strip by (simp add: request_of_def built_core_def dget_def built_request_def Let_def)
  moreover have "request_typed ?raw" by (simp add: request_typed_def built_core_def dget_def)
  ultimately have mk: "mk_interaction_request sha fr ?raw = Inr ?q" using ok by (simp add: mk_interaction_request_Inr)
  have core: "request_core ses kind run oc p c (sha_value sha c) n su = Inr ?core"
    using args by (simp add: request_core_Inr built_core_def plain_args_def)
  have "json_value (PyDict ?core)" using args by (simp add: built_core_def plain_args_def)
  then have dig: "strict_json_digest sha (PyDict ?core) = Inr ?d" by (simp add: strict_json_digest_Inr)
  show ?thesis
    using args mk unfolding build_interaction_request_def plain_args_def accepts
    by (simp add: strip core dig del: append_Cons append.simps)
       (simp add: stripped_def)
qed

definition built_receipt :: "(blob \<Rightarrow> string) \<Rightarrow> interaction_request \<Rightarrow> pyval \<Rightarrow> string \<Rightarrow> int \<Rightarrow> interaction_receipt" where
  "built_receipt sha q v who at_ms =
     (let c = \<lparr>ic_schema_version = PyInt 1, ic_receipt_id = [], ic_interaction_id = iq_interaction_id q,
                ic_request_digest = iq_request_digest q, ic_response = v, ic_response_digest = sha_value sha v,
                ic_submitted_by = who, ic_receipt_digest = [], ic_submitted_at_ms = at_ms\<rparr>;
          d = sha_value sha (PyDict
             [(''schema_version'', PyInt 1), (''interaction_id'', PyStr (iq_interaction_id q)),
              (''request_digest'', PyStr (iq_request_digest q)), (''response'', v),
              (''response_digest'', PyStr (sha_value sha v)), (''submitted_by'', PyStr who)])
      in c\<lparr>ic_receipt_id := ''receipt_'' @ take 32 d, ic_receipt_digest := d\<rparr>)"

lemma built_receipt_ok:
  assumes sha: "\<And>b. is_sha256 (sha b)" and q: "request_ok sha q" "py_strip (iq_request_digest q) = iq_request_digest q"
    and v: "json_value v" "stripped who" "0 \<le> at_ms"
  shows "receipt_ok sha (built_receipt sha q v who at_ms)" (is "receipt_ok sha ?c")
proof -
  have hex: "py_strip (sha_value sha w) = sha_value sha w \<and> sha_value sha w \<noteq> []" for w
    using sha256_stripped [OF sha] by (simp add: sha_value_def stripped_def)
  have tag: "py_strip (''receipt_'' @ take 32 (sha_value sha w)) = ''receipt_'' @ take 32 (sha_value sha w)" for w
  proof -
    have "stripped (''receipt_'' @ take 32 (sha_value sha w))"
      by (rule tagged_stripped) (use sha interaction_tag in \<open>simp_all add: sha_value_def\<close>)
    then show ?thesis by (simp add: stripped_def)
  qed
  have ids: "stripped (iq_interaction_id q)" "stripped (iq_request_digest q)"
    using q by (auto simp: request_ok_def stripped_def)
  have core: "core_of_receipt ?c = [(''schema_version'', PyInt 1), (''interaction_id'', PyStr (iq_interaction_id q)),
              (''request_digest'', PyStr (iq_request_digest q)), (''response'', v),
              (''response_digest'', PyStr (sha_value sha v)), (''submitted_by'', PyStr who)]"
    by (simp add: core_of_receipt_def built_receipt_def Let_def hex)
  show ?thesis
    unfolding receipt_ok_def core using ids v hex tag by (simp add: built_receipt_def Let_def)
qed

lemma build_receipt_spec:
  assumes sha: "\<And>b. is_sha256 (sha b)" and q: "request_ok sha q" "py_strip (iq_request_digest q) = iq_request_digest q"
    and v: "json_value v" "stripped who" "0 \<le> at_ms"
  shows "build_interaction_receipt sha fr (Inl q) v (PyStr who) (PyInt at_ms) = Inr (built_receipt sha q v who at_ms)"
proof -
  let ?c = "built_receipt sha q v who at_ms"
  let ?core = "[(''schema_version'', PyInt 1), (''interaction_id'', PyStr (iq_interaction_id q)),
              (''request_digest'', PyStr (iq_request_digest q)), (''response'', v),
              (''response_digest'', PyStr (sha_value sha v)), (''submitted_by'', PyStr who)]"
  let ?d = "sha_value sha (PyDict ?core)"
  let ?raw = "?core @ [(''receipt_id'', PyStr (''receipt_'' @ take 32 ?d)), (''receipt_digest'', PyStr ?d), (''submitted_at_ms'', PyInt at_ms)]"
  have ok: "receipt_ok sha ?c" using assms by (rule built_receipt_ok)
  have strip: "py_strip (iq_interaction_id q) = iq_interaction_id q" "py_strip who = who"
    using request_ok_text [OF q(1)] v(2) by (simp_all add: stripped_def)
  have "receipt_of ?raw = ?c"
    using strip q(2) by (simp add: receipt_of_def dget_def built_receipt_def Let_def)
  moreover have "receipt_typed ?raw" by (simp add: receipt_typed_def dget_def)
  ultimately have mk: "mk_interaction_receipt sha fr ?raw = Inr ?c" using ok by (simp add: mk_interaction_receipt_Inr)
  have core: "receipt_core (iq_interaction_id q) (iq_request_digest q) v (sha_value sha v) who = Inr ?core"
    using v by (simp add: receipt_core_Inr)
  have "json_value (PyDict ?core)" using v by simp
  then have dig: "strict_json_digest sha (PyDict ?core) = Inr ?d" by (simp add: strict_json_digest_Inr)
  show ?thesis
    using v mk unfolding build_interaction_receipt_def request_from_dict_record [OF q(1)] bindr_simps accepts
    by (simp add: strip core dig del: append_Cons append.simps) (simp add: stripped_def)
qed

lemma built_receipt_answers: "answers (built_receipt sha q v who at_ms) q"
  by (simp add: answers_def built_receipt_def Let_def)

subsection \<open>Properties of the interaction journal\<close>

lemma validated_inv:
  assumes "validate_interaction_journal sha fr v = Inr j" "value_wf v"
  shows "journal_inv sha j"
proof (cases "v = PyNone")
  case True
  then show ?thesis using assms(1) new_journal_inv by (simp add: validate_interaction_journal_def)
next
  case False
  then obtain d where v: "v = PyDict d"
    using assms by (cases v) (auto simp: validate_interaction_journal_def)
  obtain es entries where es: "dget d ''entries'' = PyDict es" "mapr (validate_entry sha fr) es = Inr entries"
      and j: "ij_entries j = entries"
    using assms(1) unfolding v validate_journal_PyDict
    by - (elim conjE exE, rule that, assumption, assumption, rule sym, drule arg_cong [where f = ij_entries],
        unfold interaction_journal.simps, assumption)
  have "list_all2 (\<lambda>x y. validate_entry sha fr x = Inr y) es entries" using es by (simp add: mapr_Inr)
  then have "dict_keys entries = dict_keys es"
  proof (induction rule: list_all2_induct)
    case (Cons x xs y ys)
    then show ?case using entry_decoded [of sha fr "fst x" "snd x" y] by simp
  qed simp
  moreover have "dict_wf es" using value_wf_dget [of d "''entries''"] assms(2) v es(1) by simp
  ultimately show ?thesis using journal_decoded [OF assms(1)] j by (simp add: journal_inv_def dict_wf_def)
qed

text \<open>
  After any sequence of calls on a new journal, the stored object is accepted and read back unchanged;
  its order lists every entry exactly once, at most one interaction is pending, and it is the active one.
\<close>
theorem interaction_journal_invariant:
  assumes "ix_reach sha fr new_interaction_journal k"
  shows "validate_interaction_journal sha fr (journal_dict k) = Inr k \<and> distinct (ij_order k) \<and>
    set (ij_order k) = set (dict_keys (ij_entries k)) \<and>
    pending_ids (ij_entries k) = (case ij_active_id k of None \<Rightarrow> [] | Some i \<Rightarrow> [i])"
  using reach_inv [OF assms new_journal_inv] by (simp add: journal_inv_def journal_trip) (simp add: journal_ok_def)

text \<open>
  C18: Once a journal that is accepted has an entry, every later state of it has that entry with the same
  request and checkpoint, with the same answer once there is one, and with the same application once there
  is one; the answer is a valid receipt for that very request, and an application names it.
\<close>
theorem interaction_answer_is_final:
  assumes "validate_interaction_journal sha fr v = Inr j" "value_wf v" "ix_reach sha fr j k"
    and "dict_get (ij_entries j) i = Some e"
  shows "\<exists>e'. dict_get (ij_entries k) i = Some e' \<and> ie_request e' = ie_request e \<and> ie_checkpoint_id e' = ie_checkpoint_id e \<and>
    (\<forall>c. ie_receipt e = Some c \<longrightarrow> ie_receipt e' = Some c) \<and>
    (\<forall>a. ie_application e = Some a \<longrightarrow> ie_application e' = Some a) \<and>
    (\<forall>c. ie_receipt e' = Some c \<longrightarrow> receipt_ok sha c \<and> answers c (ie_request e)) \<and>
    (\<forall>a. ie_application e' = Some a \<longrightarrow> (\<exists>c. ie_receipt e' = Some c \<and> ia_receipt_id a = ic_receipt_id c))"
proof -
  have inv: "journal_inv sha j" using assms(1,2) by (rule validated_inv)
  obtain e' where e': "dict_get (ij_entries k) i = Some e'" "entry_grows e e'"
    using reach_keeps_entries [OF assms(3) inv assms(4)] by blast
  moreover have "entry_ok sha i e'"
    using reach_inv [OF assms(3) inv] e'(1) by (auto simp: journal_inv_def intro: entry_ok_get)
  ultimately show ?thesis
    by (intro exI [of _ e']) (auto simp: entry_grows_def entry_ok_def application_ok_def split: option.splits)
qed

lemma register_new:
  assumes "journal_inv sha j" "request_ok sha q" "stripped cid" "dict_get (ij_entries j) (iq_interaction_id q) = None"
    and "ij_active_id j = None"
  shows "register_interaction_request sha fr (Inl q) (PyStr cid) (journal_dict j) = Inr (registered q cid j)"
    and "get_active_interaction sha fr (journal_dict (registered q cid j)) = Inr (Some (fresh_entry q cid))"
proof -
  show "register_interaction_request sha fr (Inl q) (PyStr cid) (journal_dict j) = Inr (registered q cid j)"
    unfolding register_effect [OF assms(1)]
    using request_from_dict_record [OF assms(2)] ix_required_text_id assms(3-5) by blast
  show "get_active_interaction sha fr (journal_dict (registered q cid j)) = Inr (Some (fresh_entry q cid))"
    using get_active_effect [OF registered_inv [OF assms]] by (simp add: registered_def)
qed

lemma answer_new:
  assumes "journal_inv sha j" "receipt_ok sha c" "dict_get (ij_entries j) (ic_interaction_id c) = Some e"
    and "answers c (ie_request e)" "ie_receipt e = None" "ij_active_id j = Some (ic_interaction_id c)"
  shows "record_interaction_receipt sha fr (Inl c) (journal_dict j) = Inr (answered c e j)"
  unfolding record_effect [OF assms(1)] receipt_from_dict_simps(1) [OF assms(2)] bound_to_None
  using assms(3-6) by blast

lemma apply_answered:
  assumes "journal_inv sha j" "dict_get (ij_entries j) i = Some e" "ie_application e = None" "ij_active_id j = Some i"
    and "ie_receipt e = Some c" "stripped i" "stripped (ic_receipt_id c)" "stripped cid"
  defines "k \<equiv> applied i \<lparr>ia_receipt_id = ic_receipt_id c, ia_applied_checkpoint_id = cid\<rparr> e j"
  shows "mark_interaction_applied sha fr (PyStr i) (PyStr (ic_receipt_id c)) (PyStr cid) (journal_dict j) = Inr k"
    and "get_active_interaction sha fr (journal_dict k) = Inr None"
proof -
  show "mark_interaction_applied sha fr (PyStr i) (PyStr (ic_receipt_id c)) (PyStr cid) (journal_dict j) = Inr k"
    unfolding mark_effect [OF assms(1)] k_def using assms(2-8) ix_required_text_id by blast
  have "journal_inv sha k"
    unfolding k_def by (rule applied_inv [OF assms(1-5)]) (simp add: application_ok_def assms(7,8))
  then show "get_active_interaction sha fr (journal_dict k) = Inr None"
    by (simp add: get_active_effect) (simp add: k_def applied_def)
qed

text \<open>
  C22: With SHA-256 digests, a request built from well-formed arguments can be settled: on a valid journal
  with nothing pending and no entry of the request's interaction id yet, it registers, a receipt for any JSON answer can be built and recorded, the answer
  can be applied, and nothing is pending afterwards.
\<close>
theorem built_interaction_can_be_settled:
  assumes sha: "\<And>b. is_sha256 (sha b)" and args: "plain_args ses kind run oc p c n su"
    and j: "journal_inv sha j" "ij_active_id j = None"
    and new: "dict_get (ij_entries j) (iq_interaction_id (built_request sha ses kind run oc p c n su)) = None"
    and answer: "json_value v" "stripped who" "0 \<le> at_ms" and cids: "stripped cid" "stripped done_cid"
  shows "\<exists>q rc j1 j2 j3.
    build_interaction_request sha fr (PyStr ses) (PyStr kind) (PyStr run) (PyStr oc) p c (PyInt n) su = Inr q \<and>
    register_interaction_request sha fr (Inl q) (PyStr cid) (journal_dict j) = Inr j1 \<and>
    get_active_interaction sha fr (journal_dict j1) = Inr (Some (fresh_entry q cid)) \<and>
    build_interaction_receipt sha fr (Inl q) v (PyStr who) (PyInt at_ms) = Inr rc \<and>
    record_interaction_receipt sha fr (Inl rc) (journal_dict j1) = Inr j2 \<and>
    mark_interaction_applied sha fr (PyStr (iq_interaction_id q)) (PyStr (ic_receipt_id rc)) (PyStr done_cid) (journal_dict j2) = Inr j3 \<and>
    get_active_interaction sha fr (journal_dict j3) = Inr None"
proof -
  let ?q = "built_request sha ses kind run oc p c n su"
  let ?i = "iq_interaction_id ?q" and ?e = "fresh_entry ?q cid" and ?rc = "built_receipt sha ?q v who at_ms"
  let ?e2 = "?e\<lparr>ie_receipt := Some ?rc\<rparr>" and ?j1 = "registered ?q cid j" and ?j2 = "answered ?rc ?e (registered ?q cid j)"
  have q: "request_ok sha ?q" using sha args by (rule built_request_ok)
  then have istrip: "stripped ?i" unfolding request_ok_def by (elim conjE)
  have dig: "py_strip (iq_request_digest ?q) = iq_request_digest ?q"
    using sha256_stripped [OF sha] by (simp add: built_request_def Let_def sha_value_def stripped_def)
  have rc: "receipt_ok sha ?rc" using sha q dig answer by (rule built_receipt_ok)
  have rid: "ic_interaction_id ?rc = ?i" by (simp add: built_receipt_def Let_def)
  have rstrip: "stripped (ic_receipt_id ?rc)"
    unfolding built_receipt_def Let_def interaction_receipt.simps interaction_receipt.update_convs
    by (rule tagged_stripped) (use sha interaction_tag in \<open>simp_all add: sha_value_def\<close>)
  have inv1: "journal_inv sha ?j1" using j(1) q cids(1) new j(2) by (rule registered_inv)
  have get1: "dict_get (ij_entries ?j1) (ic_interaction_id ?rc) = Some ?e" "ij_active_id ?j1 = Some (ic_interaction_id ?rc)"
    by (simp_all add: registered_def rid)
  have e1: "answers ?rc (ie_request ?e)" "ie_receipt ?e = None" "ie_application ?e = None"
    by (simp_all add: fresh_entry_def built_receipt_answers)
  have inv2: "journal_inv sha ?j2" by (rule answered_inv [OF inv1 get1(1) rc e1(1,3)])
  have get2: "dict_get (ij_entries ?j2) ?i = Some ?e2" "ij_active_id ?j2 = Some ?i"
    by (simp_all add: answered_def rid registered_def)
  have e2: "ie_application ?e2 = None" "ie_receipt ?e2 = Some ?rc" by (simp_all add: fresh_entry_def)
  show ?thesis
    using build_request_spec [where fr = fr and sha = sha, OF sha args] register_new [OF j(1) q cids(1) new j(2), of fr]
      build_receipt_spec [where fr = fr and sha = sha, OF sha q dig answer] answer_new [OF inv1 rc get1(1) e1(1,2) get1(2), of fr]
      apply_answered [OF inv2 get2(1) e2(1) get2(2) e2(2) istrip rstrip cids(2), of fr]
    by blast
qed

text \<open>A session that answers nothing: all the calls it accepts leave the journal as it is.\<close>

lemma stuck_journal:
  assumes "journal_inv sha j" "ij_active_id j = Some i" "dict_get (ij_entries j) i = Some e"
    and "py_strip (iq_request_digest (ie_request e)) \<noteq> iq_request_digest (ie_request e)" "ix_change sha j k"
  shows "k = j"
  using assms(5)
proof cases
  case (answers_it c e')
  then have "ie_request e' = ie_request e" using assms(2,3) by simp
  then show ?thesis using answers_it receipt_ok_text [of sha c] assms(4) by (simp add: answers_def)
next
  case (applies i' e' c a)
  then have "receipt_ok sha c" "answers c (ie_request e)"
    using assms(1-3) entry_ok_get [of sha j i e] by (auto simp: journal_inv_def entry_ok_def)
  then show ?thesis using receipt_ok_text [of sha c] assms(4) by (simp add: answers_def)
qed (use assms(2) in simp_all)

text \<open>
  C39: A request whose stored digest has blanks around it passes validation and is registered, but every
  receipt for it is refused; it stays pending, and since only one interaction may be pending no call
  changes the journal any more.
\<close>
theorem padded_request_blocks_the_journal:
  assumes "journal_inv sha j" "ij_active_id j = None" "request_ok sha q" "stripped cid"
    and "py_strip (iq_request_digest q) \<noteq> iq_request_digest q" "dict_get (ij_entries j) (iq_interaction_id q) = None"
  shows "\<exists>k. register_interaction_request sha fr (Inl q) (PyStr cid) (journal_dict j) = Inr k \<and>
    get_active_interaction sha fr (journal_dict k) = Inr (Some (fresh_entry q cid)) \<and>
    (\<forall>l. ix_reach sha fr k l \<longrightarrow> l = k)"
proof -
  let ?k = "registered q cid j"
  have inv: "journal_inv sha ?k" using assms(1,3,4,6,2) by (rule registered_inv)
  have get: "ij_active_id ?k = Some (iq_interaction_id q)" "dict_get (ij_entries ?k) (iq_interaction_id q) = Some (fresh_entry q cid)"
    by (simp_all add: registered_def)
  have pad: "py_strip (iq_request_digest (ie_request (fresh_entry q cid))) \<noteq> iq_request_digest (ie_request (fresh_entry q cid))"
    using assms(5) by (simp add: fresh_entry_def)
  have "l = ?k" if "ix_reach sha fr ?k l" for l
    using that by (induction rule: ix_reach.induct) (use stuck_journal [OF inv get pad] call_is_change [OF inv] in blast)+
  then show ?thesis using register_new [OF assms(1,3,4,6,2), of fr] by blast
qed

fun call_wf :: "journal_call \<Rightarrow> bool" where
  "call_wf (Register (Inl q) _) = value_wf (interaction_request_to_dict q)"
| "call_wf (Register (Inr v) _) = value_wf v"
| "call_wf _ = True"

lemma value_wf_request:
  assumes "interaction_request_from_dict sha fr x = Inr q"
    and "case x of Inl r \<Rightarrow> value_wf (interaction_request_to_dict r) | Inr v \<Rightarrow> value_wf v"
  shows "value_wf (interaction_request_to_dict q)"
proof -
  obtain d where d: "mk_interaction_request sha fr d = Inr q" "value_wf (PyDict d)"
    using assms by (cases x) (auto simp: interaction_request_from_dict_def interaction_request_to_dict_def request_from_raw_Inr)
  then have "iq_payload q = dget d ''payload''" "iq_response_contract q = dget d ''response_contract''" "iq_subject q = dget d ''subject''"
      "is_version_one (iq_schema_version q)"
    by (auto simp: mk_interaction_request_Inr request_of_def request_ok_def)
  moreover have "is_version_one v \<Longrightarrow> value_wf v" for v by (cases v) (auto simp: is_version_one_def py_eq.simps)
  ultimately show ?thesis
    using value_wf_dget [OF d(2)]
    by (simp add: interaction_request_to_dict_def request_dict_def dict_wf_def)
qed

text \<open>
  Repeating a call that succeeded, on the journal it stored, succeeds again and changes nothing: a
  request is registered, answered and applied once however often the caller retries.
\<close>
theorem interaction_calls_are_idempotent:
  assumes "journal_inv sha j" "ix_call sha fr c (journal_dict j) = Inr k" "call_wf c"
  shows "ix_call sha fr c (journal_dict k) = Inr k"
proof -
  have k: "journal_inv sha k" using call_is_change [OF assms(1,2)] assms(1) by (rule change_keeps_inv)
  show ?thesis
  proof (cases c)
    case (Register x cid)
    obtain q t where q: "interaction_request_from_dict sha fr x = Inr q" "ix_required_text ''checkpoint_id'' cid = Inr t"
        and new: "k = j \<or> k = registered q t j"
      using assms(2) unfolding Register ix_call.simps register_effect [OF assms(1)] by blast
    have "value_wf (interaction_request_to_dict q)"
      using assms(3) Register by (intro value_wf_request [OF q(1)]) (cases x, auto)
    then have eq: "py_eq (interaction_request_to_dict q) (interaction_request_to_dict q)" by (rule py_eq_refl)
    have "register_interaction_request sha fr x cid (journal_dict k) = Inr k" if "k = registered q t j"
      unfolding register_effect [OF k]
      by (intro exI [of _ q] exI [of _ t] conjI q disjI1 exI [of _ "fresh_entry q t"])
        (simp_all add: that registered_def fresh_entry_def eq)
    then show ?thesis using new assms(2) Register by auto
  next
    case (Answer x)
    obtain c' e where c': "interaction_receipt_from_dict sha fr x None = Inr c'" "answers c' (ie_request e)"
        and new: "k = j \<or> k = answered c' e j"
      using assms(2) unfolding Answer ix_call.simps record_effect [OF assms(1)] by blast
    have "record_interaction_receipt sha fr x (journal_dict k) = Inr k" if "k = answered c' e j"
      unfolding record_effect [OF k]
      by (intro exI [of _ c'] exI [of _ "e\<lparr>ie_receipt := Some c'\<rparr>"] conjI c'(1) disjI1 exI [of _ c'])
        (simp_all add: that answered_def c'(2))
    then show ?thesis using new assms(2) Answer by auto
  next
    case (Apply i r t)
    obtain i' r' t' e where rt: "ix_required_text ''interaction_id'' i = Inr i'" "ix_required_text ''receipt_id'' r = Inr r'"
        "ix_required_text ''applied_checkpoint_id'' t = Inr t'"
        and new: "k = j \<or> k = applied i' \<lparr>ia_receipt_id = r', ia_applied_checkpoint_id = t'\<rparr> e j"
      using assms(2) unfolding Apply ix_call.simps mark_effect [OF assms(1)] by blast
    have "mark_interaction_applied sha fr i r t (journal_dict k) = Inr k"
      if "k = applied i' \<lparr>ia_receipt_id = r', ia_applied_checkpoint_id = t'\<rparr> e j"
      unfolding mark_effect [OF k]
      by (intro exI [of _ i'] exI [of _ r'] exI [of _ t'] conjI rt disjI1
          exI [of _ "e\<lparr>ie_application := Some \<lparr>ia_receipt_id = r', ia_applied_checkpoint_id = t'\<rparr>\<rparr>"])
        (simp_all add: that applied_def)
    then show ?thesis using new assms(2) Apply by auto
  qed
qed

text \<open>
  The digest binds a request: two valid requests with the same digest, blanks aside, agree in every
  field the digest covers, up to the order of keys, or exhibit a collision of the digest function.
\<close>
theorem request_digest_binds_request:
  assumes "request_ok sha q" "request_ok sha r" "py_strip (iq_request_digest q) = py_strip (iq_request_digest r)"
  shows "(iq_interaction_id q = iq_interaction_id r \<and> iq_session_id q = iq_session_id r \<and> iq_kind q = iq_kind r \<and>
      iq_source_run_id q = iq_source_run_id r \<and> iq_occurrence q = iq_occurrence r \<and>
      canonical (iq_payload q) = canonical (iq_payload r) \<and>
      canonical (iq_response_contract q) = canonical (iq_response_contract r) \<and>
      iq_created_revision q = iq_created_revision r \<and> canonical (iq_subject q) = canonical (iq_subject r)) \<or>
    (\<exists>a b. a \<noteq> b \<and> sha a = sha b)"
proof (cases "canonical_json_bytes (PyDict (core_of_request q)) = canonical_json_bytes (PyDict (core_of_request r))")
  case True
  then have core: "canon_dict (core_of_request q) = canon_dict (core_of_request r)"
    by (simp add: canonical_json_bytes_def canonical_PyDict)
  have "map_option canonical (dict_get (core_of_request q) x) = map_option canonical (dict_get (core_of_request r) x)" for x
    using core by (metis dict_get_canon)
  from this [of "''session_id''"] this [of "''kind''"] this [of "''source_run_id''"] this [of "''occurrence''"]
    this [of "''payload''"] this [of "''response_contract''"] this [of "''created_revision''"] this [of "''subject''"]
  have "iq_session_id q = iq_session_id r \<and> iq_kind q = iq_kind r \<and>
      iq_source_run_id q = iq_source_run_id r \<and> iq_occurrence q = iq_occurrence r \<and>
      canonical (iq_payload q) = canonical (iq_payload r) \<and>
      canonical (iq_response_contract q) = canonical (iq_response_contract r) \<and>
      iq_created_revision q = iq_created_revision r \<and> canonical (iq_subject q) = canonical (iq_subject r)"
    by (simp add: core_of_request_def)
  moreover have "iq_interaction_id q = iq_interaction_id r"
    using assms True by (simp add: request_ok_def sha_value_def)
  ultimately show ?thesis by blast
next
  case False
  moreover have "sha (canonical_json_bytes (PyDict (core_of_request q))) = sha (canonical_json_bytes (PyDict (core_of_request r)))"
    using assms by (simp add: request_ok_def sha_value_def)
  ultimately show ?thesis by blast
qed

subsection \<open>A worked example\<close>

text \<open>A digest function that maps every text to one SHA-256 shaped text: the weakest the properties allow.\<close>

definition flat_sha :: "blob \<Rightarrow> string" where
  "flat_sha b = replicate 64 (CHR ''a'')"

definition ask_request :: interaction_request where
  "ask_request = built_request flat_sha ''s'' ''human_input'' ''run'' ''1'' (PyStr ''pick'') PyNone 0 PyNone"

definition ask_padded :: interaction_request where
  "ask_padded = ask_request\<lparr>iq_request_digest := replicate 64 (CHR ''a'') @ '' ''\<rparr>"

lemma flat_sha_hex: "is_sha256 (flat_sha b)"
proof -
  have "is_sha256 (replicate 64 (CHR ''a''))" by code_simp
  then show ?thesis by (simp add: flat_sha_def)
qed

lemma ask_args: "plain_args ''s'' ''human_input'' ''run'' ''1'' (PyStr ''pick'') PyNone 0 PyNone"
  by code_simp

lemma ask_request_ok: "request_ok flat_sha ask_request"
  unfolding ask_request_def using flat_sha_hex ask_args by (rule built_request_ok)

lemma ask_padded_ok: "request_ok flat_sha ask_padded"
  by code_simp

lemma ask_new: "dict_get (ij_entries new_interaction_journal) i = None" "ij_active_id new_interaction_journal = None"
  by (simp_all add: new_interaction_journal_def)

lemma ask_cid: "stripped ''c''" "stripped ''user''" "stripped ''d''"
  by code_simp+

lemma ask_registered:
  "ix_call flat_sha fr (Register (Inl ask_request) (PyStr ''c'')) (journal_dict new_interaction_journal) =
     Inr (registered ask_request ''c'' new_interaction_journal)"
  using register_new(1) [OF new_journal_inv ask_request_ok ask_cid(1) ask_new] by simp

definition ask_journal :: interaction_journal where
  "ask_journal = registered ask_request ''c'' new_interaction_journal"

definition ask_receipt :: interaction_receipt where
  "ask_receipt = built_receipt flat_sha ask_request (PyBool True) ''user'' 5"

lemma ask_receipt_ok: "receipt_ok flat_sha ask_receipt" "ic_interaction_id ask_receipt = iq_interaction_id ask_request"
  "answers ask_receipt ask_request"
proof -
  have "py_strip (iq_request_digest ask_request) = iq_request_digest ask_request" by code_simp
  then show "receipt_ok flat_sha ask_receipt"
    unfolding ask_receipt_def using ask_request_ok ask_cid(2) flat_sha_hex by (intro built_receipt_ok) simp_all
qed (simp_all add: ask_receipt_def built_receipt_answers, simp add: built_receipt_def Let_def)

lemma ask_journal_inv: "journal_inv flat_sha ask_journal"
  unfolding ask_journal_def by (rule registered_inv [OF new_journal_inv ask_request_ok ask_cid(1) ask_new])

lemma ask_entry: "dict_get (ij_entries ask_journal) (iq_interaction_id ask_request) = Some (fresh_entry ask_request ''c'')"
  "ij_active_id ask_journal = Some (iq_interaction_id ask_request)"
  by (simp_all add: ask_journal_def registered_def)

lemma ask_answered:
  "ix_call flat_sha fr (Answer (Inl ask_receipt)) (journal_dict ask_journal) =
     Inr (answered ask_receipt (fresh_entry ask_request ''c'') ask_journal)"
  using answer_new [OF ask_journal_inv ask_receipt_ok(1), of "fresh_entry ask_request ''c''"] ask_receipt_ok(2,3) ask_entry
  by (simp add: fresh_entry_def)

lemma ask_reach:
  "ix_reach flat_sha fr new_interaction_journal ask_journal"
  "ix_reach flat_sha fr ask_journal (answered ask_receipt (fresh_entry ask_request ''c'') ask_journal)"
  using ix_step [OF ix_start ask_registered] ix_step [OF ix_start ask_answered] by (simp_all only: ask_journal_def)

theorem interaction_journal_invariant_witness:
  "validate_interaction_journal flat_sha (\<lambda>_. []) (journal_dict ask_journal) = Inr ask_journal"
  using interaction_journal_invariant [OF ask_reach(1)] by (rule conjunct1)

theorem interaction_answer_is_final_witness:
  "\<exists>e'. dict_get (ij_entries (answered ask_receipt (fresh_entry ask_request ''c'') ask_journal)) (iq_interaction_id ask_request)
     = Some e' \<and> ie_request e' = ask_request"
proof -
  have v: "validate_interaction_journal flat_sha (\<lambda>_. []) (journal_dict ask_journal) = Inr ask_journal"
    using ask_journal_inv by (simp add: journal_trip journal_inv_def)
  have "value_wf (journal_dict ask_journal)" by code_simp
  from interaction_answer_is_final [OF v this ask_reach(2) ask_entry(1)]
  show ?thesis by (auto simp: fresh_entry_def)
qed

theorem built_interaction_can_be_settled_witness:
  "\<exists>rc j1 j2 j3. register_interaction_request flat_sha (\<lambda>_. []) (Inl ask_request) (PyStr ''c'') (journal_dict new_interaction_journal) = Inr j1 \<and>
    record_interaction_receipt flat_sha (\<lambda>_. []) (Inl rc) (journal_dict j1) = Inr j2 \<and>
    mark_interaction_applied flat_sha (\<lambda>_. []) (PyStr (iq_interaction_id ask_request)) (PyStr (ic_receipt_id rc)) (PyStr ''d'')
      (journal_dict j2) = Inr j3 \<and> get_active_interaction flat_sha (\<lambda>_. []) (journal_dict j3) = Inr None"
proof -
  have build: "build_interaction_request flat_sha (\<lambda>_. []) (PyStr ''s'') (PyStr ''human_input'') (PyStr ''run'') (PyStr ''1'')
      (PyStr ''pick'') PyNone (PyInt 0) PyNone = Inr ask_request"
    unfolding ask_request_def by (rule build_request_spec [where sha = flat_sha, OF flat_sha_hex ask_args])
  show ?thesis
    using built_interaction_can_be_settled [where sha = flat_sha and fr = "\<lambda>_. []" and v = "PyBool True" and at_ms = 5,
        OF flat_sha_hex ask_args new_journal_inv ask_new(2) ask_new(1) _ ask_cid(2) _ ask_cid(1,3)]
    unfolding build by auto
qed

theorem padded_request_blocks_the_journal_witness:
  "\<exists>k. register_interaction_request flat_sha (\<lambda>_. []) (Inl ask_padded) (PyStr ''c'') (journal_dict new_interaction_journal) = Inr k \<and>
    (\<forall>l. ix_reach flat_sha (\<lambda>_. []) k l \<longrightarrow> l = k)"
proof -
  have "py_strip (iq_request_digest ask_padded) \<noteq> iq_request_digest ask_padded" by code_simp
  from padded_request_blocks_the_journal [OF new_journal_inv ask_new(2) ask_padded_ok ask_cid(1) this ask_new(1)]
  show ?thesis by blast
qed

theorem interaction_calls_are_idempotent_witness:
  "ix_call flat_sha (\<lambda>_. []) (Answer (Inl ask_receipt)) (journal_dict (answered ask_receipt (fresh_entry ask_request ''c'') ask_journal)) =
     Inr (answered ask_receipt (fresh_entry ask_request ''c'') ask_journal)"
  using interaction_calls_are_idempotent [OF ask_journal_inv ask_answered] by simp

theorem request_digest_binds_request_witness:
  "iq_interaction_id ask_request = iq_interaction_id ask_padded \<or> (\<exists>a b. a \<noteq> b \<and> flat_sha a = flat_sha b)"
proof -
  have "py_strip (iq_request_digest ask_request) = py_strip (iq_request_digest ask_padded)" by code_simp
  from request_digest_binds_request [OF ask_request_ok ask_padded_ok this] show ?thesis by blast
qed

end
