(* ===== verification/HumanInput.thy ===== *)
theory HumanInput
  imports Interactions
begin

section \<open>Questions to the user and their answers\<close>

text \<open>
  \<open>input/human_input.py\<close>: the selector question a run may put to the user and the validation of the
  answer; and the part of \<open>interaction/runtime.py\<close> that turns an answer of any of the three kinds into
  the canonical response a receipt stores. Tool arguments arrive as an object (the branch that parses
  JSON text first is not modelled). A dataclass is a record; \<open>isinstance\<close> branches on the classes of
  the module are the constructors of \<open>raw_response\<close>.

  The lemmas show that a question survives its encoding, that an accepted answer respects the question,
  and that canonical responses are canonical: normalising one again returns it.
\<close>

subsection \<open>The question\<close>

definition other_value :: string where
  "other_value = ''__other__''"

definition repr_names :: "string list \<Rightarrow> string" where
  "repr_names ks = ''['' @ join '', '' (map repr_str ks) @ '']''"

definition clean_required_text :: "string \<Rightarrow> pyval \<Rightarrow> (py_exc, string) res" where
  "clean_required_text name v =
     (case v of
        PyStr s \<Rightarrow> if py_strip s = [] then Inl (ValueExc (name @ '' must be a non-empty string'')) else Inr (py_strip s)
      | _ \<Rightarrow> Inl (ValueExc (name @ '' must be a non-empty string'')))"

definition clean_optional_text :: "pyval \<Rightarrow> (py_exc, string) res" where
  "clean_optional_text v =
     (case v of
        PyNone \<Rightarrow> Inr []
      | PyStr s \<Rightarrow> Inr s
      | _ \<Rightarrow> Inl (ValueExc ''optional text fields must be strings when provided''))"

definition clean_optional_int :: "string \<Rightarrow> pyval \<Rightarrow> (py_exc, int option) res" where
  "clean_optional_int name v =
     (case v of
        PyNone \<Rightarrow> Inr None
      | PyInt i \<Rightarrow> Inr (Some i)
      | _ \<Rightarrow> Inl (ValueExc (name @ '' must be an integer when provided'')))"

record human_option =
  ho_label :: string
  ho_value :: string
  ho_description :: string

definition unknown_fields :: "string list \<Rightarrow> pydict \<Rightarrow> string list" where
  "unknown_fields known d = sort (filter (\<lambda>k. k \<notin> set known) (dict_keys d))"

definition human_option_from_raw :: "pyval \<Rightarrow> (py_exc, human_option) res" where
  "human_option_from_raw v =
     (case v of
        PyDict d \<Rightarrow>
          if unknown_fields [''label'', ''value'', ''description''] d \<noteq> []
          then Inl (ValueExc (''unknown option field(s): ''
                 @ repr_names (unknown_fields [''label'', ''value'', ''description''] d))) else
          bindr (clean_required_text ''option.label'' (dget d ''label'')) (\<lambda>label.
          bindr (clean_required_text ''option.value'' (dget d ''value'')) (\<lambda>v.
          bindr (clean_optional_text (dget_or d ''description'' (PyStr []))) (\<lambda>description.
            if v = other_value
            then Inl (ValueExc (''option.value cannot use reserved value '' @ [single_quote] @ other_value @ [single_quote]))
            else Inr \<lparr>ho_label = label, ho_value = v, ho_description = description\<rparr>)))
      | _ \<Rightarrow> Inl (ValueExc ''each selector option must be an object''))"

definition human_option_to_dict :: "human_option \<Rightarrow> pyval" where
  "human_option_to_dict p = PyDict
     [(''label'', PyStr (ho_label p)), (''value'', PyStr (ho_value p)), (''description'', PyStr (ho_description p))]"

fun first_repeat :: "string list \<Rightarrow> string list \<Rightarrow> string option" where
  "first_repeat seen [] = None"
| "first_repeat seen (x # xs) = (if x \<in> set seen then Some x else first_repeat (x # seen) xs)"

record human_request =
  hr_request_id :: string
  hr_title :: string
  hr_question :: string
  hr_selection_mode :: string
  hr_options :: "human_option list"
  hr_allow_other :: bool
  hr_other_label :: string
  hr_other_placeholder :: string
  hr_min_selected :: "int option"
  hr_max_selected :: "int option"

definition argument_keys :: "string list" where
  "argument_keys =
     [''title'', ''question'', ''selection_mode'', ''options'', ''allow_other'', ''other_label'', ''other_placeholder'',
      ''min_selected'', ''max_selected'']"

text \<open>The bounds on the number of selections, defaults filled in.\<close>

definition selection_bounds :: "string \<Rightarrow> int \<Rightarrow> int option \<Rightarrow> int option \<Rightarrow> (py_exc, int \<times> int) res" where
  "selection_bounds mode allowed_total min_selected max_selected =
     (let lo = (case min_selected of None \<Rightarrow> 1 | Some n \<Rightarrow> n);
          hi = (case max_selected of None \<Rightarrow> (if mode = ''single'' then 1 else allowed_total) | Some n \<Rightarrow> n) in
      if mode = ''single'' \<and> lo \<noteq> 0 \<and> lo \<noteq> 1
      then Inl (ValueExc ''single selection mode only supports min_selected of 0 or 1'')
      else if mode = ''single'' \<and> hi \<noteq> 1
      then Inl (ValueExc ''single selection mode requires max_selected to be 1'')
      else if lo < 0 then Inl (ValueExc ''min_selected must be >= 0'')
      else if hi < 1 then Inl (ValueExc ''max_selected must be >= 1'')
      else if lo > hi then Inl (ValueExc ''min_selected cannot be greater than max_selected'')
      else if hi > allowed_total
      then Inl (ValueExc ''max_selected cannot exceed the total number of available selections'')
      else Inr (lo, hi))"

definition human_request_from_arguments :: "string \<Rightarrow> pydict \<Rightarrow> (py_exc, human_request) res" where
  "human_request_from_arguments request_id raw =
     (if unknown_fields argument_keys raw \<noteq> []
      then Inl (ValueExc (''unknown argument field(s): '' @ repr_names (unknown_fields argument_keys raw))) else
      bindr (clean_required_text ''title'' (dget raw ''title'')) (\<lambda>title.
      bindr (clean_required_text ''question'' (dget raw ''question'')) (\<lambda>question.
      bindr (case dget raw ''selection_mode'' of
               PyStr m \<Rightarrow> if m = ''single'' \<or> m = ''multiple'' then Inr m
                 else Inl (ValueExc (''selection_mode must be '' @ repr_str ''single'' @ '' or '' @ repr_str ''multiple''))
             | _ \<Rightarrow> Inl (ValueExc (''selection_mode must be '' @ repr_str ''single'' @ '' or '' @ repr_str ''multiple''))) (\<lambda>mode.
      bindr (case dget_or raw ''allow_other'' (PyBool False) of
               PyBool b \<Rightarrow> Inr b | _ \<Rightarrow> Inl (ValueExc ''allow_other must be a boolean'')) (\<lambda>allow_other.
      bindr (case dget raw ''options'' of
               PyList xs \<Rightarrow> Inr xs | _ \<Rightarrow> Inl (ValueExc ''options must be an array'')) (\<lambda>raw_options.
        if raw_options = [] \<and> \<not> allow_other
        then Inl (ValueExc ''options must be a non-empty array unless allow_other is true'') else
      bindr (mapr human_option_from_raw raw_options) (\<lambda>options.
        case first_repeat [] (map ho_value options) of
          Some v \<Rightarrow> Inl (ValueExc (''duplicate option value: '' @ v))
        | None \<Rightarrow>
      bindr (clean_optional_text (dget_or raw ''other_label'' (PyStr ''Other''))) (\<lambda>label.
      bindr (clean_optional_text (dget_or raw ''other_placeholder'' (PyStr []))) (\<lambda>placeholder.
      bindr (clean_optional_int ''min_selected'' (dget raw ''min_selected'')) (\<lambda>min_selected.
      bindr (clean_optional_int ''max_selected'' (dget raw ''max_selected'')) (\<lambda>max_selected.
      bindr (selection_bounds mode (int (length options) + (if allow_other then 1 else 0)) min_selected max_selected) (\<lambda>bounds.
        Inr \<lparr>hr_request_id = request_id, hr_title = title, hr_question = question, hr_selection_mode = mode,
          hr_options = options, hr_allow_other = allow_other, hr_other_label = (if label = [] then ''Other'' else label),
          hr_other_placeholder = placeholder, hr_min_selected = Some (fst bounds), hr_max_selected = Some (snd bounds)\<rparr>))))))))))))"

definition human_request_from_dict :: "pyval \<Rightarrow> (py_exc, human_request) res" where
  "human_request_from_dict v =
     (case v of
        PyDict raw \<Rightarrow>
          bindr (clean_required_text ''request_id'' (dget raw ''request_id'')) (\<lambda>request_id.
            if dget raw ''kind'' \<noteq> PyStr ''selector''
            then Inl (ValueExc (''human input request kind must be '' @ repr_str ''selector''))
            else human_request_from_arguments request_id
              [(''title'', dget raw ''title''), (''question'', dget raw ''question''),
               (''selection_mode'', dget raw ''selection_mode''), (''options'', dget raw ''options''),
               (''allow_other'', dget_or raw ''allow_other'' (PyBool False)),
               (''other_label'', dget_or raw ''other_label'' (PyStr ''Other'')),
               (''other_placeholder'', dget_or raw ''other_placeholder'' (PyStr [])),
               (''min_selected'', dget raw ''min_selected''), (''max_selected'', dget raw ''max_selected'')])
      | _ \<Rightarrow> Inl (ValueExc ''human input request must be an object''))"

definition human_request_to_dict :: "human_request \<Rightarrow> pyval" where
  "human_request_to_dict r = PyDict
     [(''request_id'', PyStr (hr_request_id r)), (''kind'', PyStr ''selector''), (''title'', PyStr (hr_title r)),
      (''question'', PyStr (hr_question r)), (''selection_mode'', PyStr (hr_selection_mode r)),
      (''options'', PyList (map human_option_to_dict (hr_options r))), (''allow_other'', PyBool (hr_allow_other r)),
      (''other_label'', PyStr (hr_other_label r)), (''other_placeholder'', PyStr (hr_other_placeholder r)),
      (''min_selected'', opt_value PyInt (hr_min_selected r)), (''max_selected'', opt_value PyInt (hr_max_selected r))]"

definition allowed_values :: "human_request \<Rightarrow> string list" where
  "allowed_values r = map ho_value (hr_options r) @ (if hr_allow_other r then [other_value] else [])"

subsection \<open>The answer\<close>

record human_response =
  hs_request_id :: string
  hs_selected_values :: "string list"
  hs_other_text :: "string option"

definition human_response_to_dict :: "human_response \<Rightarrow> pyval" where
  "human_response_to_dict r = PyDict
     [(''request_id'', PyStr (hs_request_id r)), (''selected_values'', PyList (map PyStr (hs_selected_values r))),
      (''other_text'', opt_value PyStr (hs_other_text r))]"

definition human_response_to_tool_result :: "human_response \<Rightarrow> pyval" where
  "human_response_to_tool_result r = PyDict
     [(''submitted'', PyBool True), (''selected_values'', PyList (map PyStr (hs_selected_values r))),
      (''other_text'', opt_value PyStr (hs_other_text r))]"

text \<open>The loop over the selected values: stripped, non-empty and not repeated.\<close>

fun selected_texts :: "string list \<Rightarrow> pyval list \<Rightarrow> (py_exc, string list) res" where
  "selected_texts seen [] = Inr []"
| "selected_texts seen (v # vs) =
     (case v of
        PyStr s \<Rightarrow>
          if py_strip s = [] then Inl (ValueExc ''selected_values must contain non-empty strings'')
          else if py_strip s \<in> set seen then Inl (ValueExc (''duplicate selected value: '' @ py_strip s))
          else bindr (selected_texts (py_strip s # seen) vs) (\<lambda>ws. Inr (py_strip s # ws))
      | _ \<Rightarrow> Inl (ValueExc ''selected_values must contain non-empty strings''))"

definition or_zero :: "int option \<Rightarrow> int" where
  "or_zero n = (case n of None \<Rightarrow> 0 | Some i \<Rightarrow> i)"

definition human_response_from_value :: "human_request \<Rightarrow> pyval \<Rightarrow> (py_exc, human_response) res" where
  "human_response_from_value request v =
     (case v of
        PyDict raw \<Rightarrow>
          bindr (clean_required_text ''request_id'' (dget raw ''request_id'')) (\<lambda>request_id.
            if request_id \<noteq> hr_request_id request
            then Inl (ValueExc ''human input response request_id does not match the pending request'') else
          bindr (case dget raw ''selected_values'' of
                   PyList xs \<Rightarrow> Inr xs | _ \<Rightarrow> Inl (ValueExc ''selected_values must be an array'')) (\<lambda>raw_values.
          bindr (selected_texts [] raw_values) (\<lambda>chosen.
            let count = int (length chosen); lo = or_zero (hr_min_selected request); hi = or_zero (hr_max_selected request);
                invalid = filter (\<lambda>x. x \<notin> set (allowed_values request)) chosen in
            if count < lo
            then Inl (ValueExc (''selected_values must contain at least '' @ int_text lo @ '' item(s)''))
            else if hi \<noteq> 0 \<and> count > hi
            then Inl (ValueExc (''selected_values cannot contain more than '' @ int_text hi @ '' item(s)''))
            else if invalid \<noteq> []
            then Inl (ValueExc (''selected_values contains unsupported option(s): '' @ repr_names invalid)) else
          bindr (case dget raw ''other_text'' of
                   PyNone \<Rightarrow> Inr []
                 | PyStr s \<Rightarrow> Inr (py_strip s)
                 | _ \<Rightarrow> Inl (ValueExc ''other_text must be a string when provided'')) (\<lambda>other.
            if other_value \<in> set chosen \<and> \<not> hr_allow_other request
            then Inl (ValueExc ''other selection is not allowed for this request'')
            else if other_value \<in> set chosen \<and> other = []
            then Inl (ValueExc (''other_text is required when '' @ repr_str other_value @ '' is selected''))
            else if other_value \<notin> set chosen \<and> other \<noteq> []
            then Inl (ValueExc (''other_text can only be provided when '' @ repr_str other_value @ '' is selected''))
            else Inr \<lparr>hs_request_id = request_id, hs_selected_values = chosen,
                       hs_other_text = (if other = [] then None else Some other)\<rparr>))))
      | _ \<Rightarrow> Inl (ValueExc ''human input response must be an object''))"

subsection \<open>Canonical responses\<close>

record tool_confirmation_response =
  tc_approved :: pyval
  tc_modified_arguments :: pyval
  tc_reason :: pyval

datatype raw_response =
    RawValue pyval
  | HumanObject human_response
  | ToolObject tool_confirmation_response

definition human_response_from_raw :: "human_request \<Rightarrow> raw_response \<Rightarrow> (py_exc, human_response) res" where
  "human_response_from_raw request raw =
     (case raw of
        HumanObject r \<Rightarrow> human_response_from_value request (human_response_to_dict r)
      | RawValue v \<Rightarrow> human_response_from_value request v
      | ToolObject _ \<Rightarrow> Inl (ValueExc ''human input response must be an object''))"

definition tool_confirmation_from_raw :: "raw_response \<Rightarrow> (py_exc, tool_confirmation_response) res" where
  "tool_confirmation_from_raw raw =
     (case raw of
        ToolObject r \<Rightarrow> Inr r
      | RawValue (PyBool b) \<Rightarrow> Inr \<lparr>tc_approved = PyBool b, tc_modified_arguments = PyNone, tc_reason = PyStr []\<rparr>
      | RawValue (PyDict d) \<Rightarrow>
          Inr \<lparr>tc_approved = dget_or d ''approved'' (PyBool True), tc_modified_arguments = dget d ''modified_arguments'',
                tc_reason = dget_or d ''reason'' (PyStr [])\<rparr>
      | _ \<Rightarrow> Inl (ValueExc ''tool approval response must be a bool or object''))"

fun is_bool :: "pyval \<Rightarrow> bool" where
  "is_bool (PyBool _) = True"
| "is_bool _ = False"

definition normalize_tool_approval_response :: "raw_response \<Rightarrow> (py_exc, pyval) res" where
  "normalize_tool_approval_response raw =
     bindr (tool_confirmation_from_raw raw) (\<lambda>parsed.
       if \<not> is_bool (tc_approved parsed)
       then Inl (ValueExc ''tool approval response approved must be a boolean'')
       else if tc_modified_arguments parsed \<noteq> PyNone \<and> \<not> is_dict (tc_modified_arguments parsed)
       then Inl (ValueExc ''tool approval response modified_arguments must be an object or null'')
       else if \<not> is_str (tc_reason parsed)
       then Inl (ValueExc ''tool approval response reason must be a string'')
       else Inr (PyDict [(''approved'', tc_approved parsed), (''modified_arguments'', tc_modified_arguments parsed),
                         (''reason'', tc_reason parsed)]))"

definition normalize_max_budget_response :: "interaction_request \<Rightarrow> raw_response \<Rightarrow> (py_exc, pyval) res" where
  "normalize_max_budget_response request raw =
     bindr (case raw of
              RawValue (PyBool b) \<Rightarrow> Inr (PyBool b, PyNone)
            | RawValue (PyDict d) \<Rightarrow> Inr (dget_or d ''approved'' (PyBool False), dget d ''extra_iterations'')
            | _ \<Rightarrow> Inl (ValueExc ''max budget response must be a bool or object'')) (\<lambda>(approved, raw_extra).
       case approved of
         PyBool b \<Rightarrow>
           if \<not> b then Inr (PyDict [(''approved'', PyBool False), (''extra_iterations'', PyInt 0)])
           else
             let payload = (case iq_payload request of PyDict p \<Rightarrow> p | _ \<Rightarrow> []);
                 extra = (if raw_extra = PyNone then dget_or payload ''suggested_extra_iterations'' (PyInt 1) else raw_extra) in
             (case extra of
                PyInt n \<Rightarrow>
                  if n < 1
                  then Inl (ValueExc ''approved max budget response extra_iterations must be a positive integer'')
                  else Inr (PyDict [(''approved'', PyBool True), (''extra_iterations'', PyInt n)])
              | _ \<Rightarrow> Inl (ValueExc ''approved max budget response extra_iterations must be a positive integer''))
       | _ \<Rightarrow> Inl (ValueExc ''max budget response approved must be a boolean''))"

definition schema_type :: "string \<Rightarrow> pyval" where
  "schema_type t = PyDict [(''type'', PyStr t)]"

definition human_input_contract :: pyval where
  "human_input_contract = PyDict
     [(''type'', PyStr ''object''),
      (''properties'', PyDict
         [(''request_id'', schema_type ''string''),
          (''selected_values'', PyDict [(''type'', PyStr ''array''), (''items'', schema_type ''string'')]),
          (''other_text'', PyDict [(''type'', PyList [PyStr ''string'', PyStr ''null''])])]),
      (''required'', PyList [PyStr ''request_id'', PyStr ''selected_values'', PyStr ''other_text'']),
      (''additionalProperties'', PyBool False)]"

definition tool_approval_contract :: pyval where
  "tool_approval_contract = PyDict
     [(''type'', PyStr ''object''),
      (''properties'', PyDict
         [(''approved'', schema_type ''boolean''),
          (''modified_arguments'', PyDict [(''type'', PyList [PyStr ''object'', PyStr ''null''])]),
          (''reason'', schema_type ''string'')]),
      (''required'', PyList [PyStr ''approved'', PyStr ''modified_arguments'', PyStr ''reason'']),
      (''additionalProperties'', PyBool False)]"

definition max_budget_contract :: pyval where
  "max_budget_contract = PyDict
     [(''type'', PyStr ''object''),
      (''properties'', PyDict
         [(''approved'', schema_type ''boolean''),
          (''extra_iterations'', PyDict [(''type'', PyStr ''integer''), (''minimum'', PyInt 0)])]),
      (''required'', PyList [PyStr ''approved'', PyStr ''extra_iterations'']),
      (''additionalProperties'', PyBool False)]"

definition response_contract_for_kind :: "string \<Rightarrow> (py_exc, pyval) res" where
  "response_contract_for_kind kind =
     (if kind = ''human_input'' then Inr human_input_contract
      else if kind = ''tool_approval'' then Inr tool_approval_contract
      else if kind = ''max_budget'' then Inr max_budget_contract
      else Inl (integrity_error (''unsupported interaction kind: '' @ repr_str kind)))"

definition normalize_interaction_response ::
  "(blob \<Rightarrow> string) \<Rightarrow> (rat \<Rightarrow> string) \<Rightarrow> interaction_request + pyval \<Rightarrow> raw_response \<Rightarrow> (py_exc, pyval) res" where
  "normalize_interaction_response sha fr request response =
     bindr (interaction_request_from_dict sha fr request) (\<lambda>bound.
     bindr (response_contract_for_kind (iq_kind bound)) (\<lambda>contract.
     bindr (strict_json_digest sha contract) (\<lambda>digest.
       if iq_schema_digest bound \<noteq> digest
       then Inl (integrity_error ''pending interaction response schema no longer matches this runtime'')
       else if iq_kind bound = ''human_input''
       then bindr (human_request_from_dict (iq_payload bound)) (\<lambda>question.
              bindr (human_response_from_raw question response) (\<lambda>r. Inr (human_response_to_dict r)))
       else if iq_kind bound = ''tool_approval'' then normalize_tool_approval_response response
       else if iq_kind bound = ''max_budget'' then normalize_max_budget_response bound response
       else Inl (integrity_error (''unsupported interaction kind: '' @ repr_str (iq_kind bound))))))"

subsection \<open>What is accepted\<close>

lemma clean_required_text_Inr: "clean_required_text n v = Inr t \<longleftrightarrow> text_ok v \<and> t = py_strip (text_of v)"
  by (auto simp: clean_required_text_def text_ok_def split: pyval.splits if_splits)

lemma clean_optional_text_Inr: "clean_optional_text v = Inr t \<longleftrightarrow> (v = PyNone \<and> t = []) \<or> v = PyStr t"
  by (auto simp: clean_optional_text_def split: pyval.splits)

lemma clean_optional_int_Inr: "clean_optional_int n v = Inr x \<longleftrightarrow> v = opt_value PyInt x"
  by (cases x) (auto simp: clean_optional_int_def split: pyval.splits)

lemma first_repeat_None: "first_repeat seen xs = None \<longleftrightarrow> distinct xs \<and> set xs \<inter> set seen = {}"
  by (induction xs arbitrary: seen) auto

definition option_ok :: "human_option \<Rightarrow> bool" where
  "option_ok p \<longleftrightarrow> stripped (ho_label p) \<and> stripped (ho_value p) \<and> ho_value p \<noteq> other_value"

definition bounds_ok :: "human_request \<Rightarrow> bool" where
  "bounds_ok r \<longleftrightarrow> (\<exists>lo hi. hr_min_selected r = Some lo \<and> hr_max_selected r = Some hi \<and> 0 \<le> lo \<and> 1 \<le> hi \<and> lo \<le> hi \<and>
     hi \<le> int (length (allowed_values r)) \<and> (hr_selection_mode r = ''single'' \<longrightarrow> hi = 1))"

definition question_ok :: "human_request \<Rightarrow> bool" where
  "question_ok r \<longleftrightarrow> stripped (hr_request_id r) \<and> stripped (hr_title r) \<and> stripped (hr_question r) \<and>
     hr_selection_mode r \<in> {''single'', ''multiple''} \<and> (hr_options r \<noteq> [] \<or> hr_allow_other r) \<and>
     list_all option_ok (hr_options r) \<and> distinct (map ho_value (hr_options r)) \<and> hr_other_label r \<noteq> [] \<and> bounds_ok r"

lemma option_trip: "option_ok p \<Longrightarrow> human_option_from_raw (human_option_to_dict p) = Inr p"
  by (cases p)
    (simp add: human_option_from_raw_def human_option_to_dict_def unknown_fields_def option_ok_def dget_def dget_or_def
      clean_required_text_def clean_optional_text_def stripped_def)

lemma option_decoded:
  assumes "human_option_from_raw v = Inr p"
  shows "option_ok p"
proof -
  obtain d where v: "v = PyDict d" using assms by (cases v) (auto simp: human_option_from_raw_def)
  show ?thesis
    using assms unfolding v human_option_from_raw_def pyval.case if_eq_Inr bindr_on [OF clean_required_text_Inr]
      bindr_eq_Inr [of "clean_optional_text x" for x]
    by (auto simp: option_ok_def text_ok_def)
qed

interpretation human_option: record_codec human_option_to_dict human_option_from_raw option_ok
  by unfold_locales (simp_all add: option_trip option_decoded)

lemma selection_bounds_Inr:
  "selection_bounds mode tot mn mx = Inr (lo, hi) \<longleftrightarrow>
     lo = (case mn of None \<Rightarrow> 1 | Some n \<Rightarrow> n) \<and>
     hi = (case mx of None \<Rightarrow> (if mode = ''single'' then 1 else tot) | Some n \<Rightarrow> n) \<and>
     0 \<le> lo \<and> 1 \<le> hi \<and> lo \<le> hi \<and> hi \<le> tot \<and> (mode = ''single'' \<longrightarrow> hi = 1)"
  unfolding selection_bounds_def Let_def if_eq_Inr sum.inject prod.inject by auto

lemma case_list_Inr: "(case v of PyList xs \<Rightarrow> Inr xs | _ \<Rightarrow> Inl e) = Inr ys \<longleftrightarrow> v = PyList ys"
  by (cases v) auto

lemma case_bool_Inr: "(case v of PyBool b \<Rightarrow> Inr b | _ \<Rightarrow> Inl e) = Inr c \<longleftrightarrow> v = PyBool c"
  by (cases v) auto

lemma case_mode_Inr:
  "(case v of PyStr m \<Rightarrow> if P m then Inr m else Inl e | _ \<Rightarrow> Inl e') = Inr k \<longleftrightarrow> v = PyStr k \<and> P k"
  by (cases v) auto

lemma case_repeat_Inr: "(case x of None \<Rightarrow> k | Some v \<Rightarrow> Inl (f v)) = Inr r \<longleftrightarrow> x = None \<and> k = Inr r"
  by (cases x) auto

lemma from_arguments_Inr:
  "human_request_from_arguments rid raw = Inr r \<longleftrightarrow>
     unknown_fields argument_keys raw = [] \<and>
     (\<exists>title. clean_required_text ''title'' (dget raw ''title'') = Inr title \<and>
     (\<exists>question. clean_required_text ''question'' (dget raw ''question'') = Inr question \<and>
     (\<exists>mode. (dget raw ''selection_mode'' = PyStr mode \<and> (mode = ''single'' \<or> mode = ''multiple'')) \<and>
     (\<exists>other. dget_or raw ''allow_other'' (PyBool False) = PyBool other \<and>
     (\<exists>xs. dget raw ''options'' = PyList xs \<and> \<not> (xs = [] \<and> \<not> other) \<and>
     (\<exists>options. mapr human_option_from_raw xs = Inr options \<and> first_repeat [] (map ho_value options) = None \<and>
     (\<exists>label. clean_optional_text (dget_or raw ''other_label'' (PyStr ''Other'')) = Inr label \<and>
     (\<exists>placeholder. clean_optional_text (dget_or raw ''other_placeholder'' (PyStr [])) = Inr placeholder \<and>
     (\<exists>mn. clean_optional_int ''min_selected'' (dget raw ''min_selected'') = Inr mn \<and>
     (\<exists>mx. clean_optional_int ''max_selected'' (dget raw ''max_selected'') = Inr mx \<and>
     (\<exists>b. selection_bounds mode (int (length options) + (if other then 1 else 0)) mn mx = Inr b \<and>
       \<lparr>hr_request_id = rid, hr_title = title, hr_question = question, hr_selection_mode = mode,
         hr_options = options, hr_allow_other = other, hr_other_label = (if label = [] then ''Other'' else label),
         hr_other_placeholder = placeholder, hr_min_selected = Some (fst b), hr_max_selected = Some (snd b)\<rparr> = r)))))))))))"
  unfolding human_request_from_arguments_def if_eq_Inr bindr_eq_Inr case_list_Inr case_bool_Inr
    case_mode_Inr case_repeat_Inr not_not sum.inject
  by (rule refl)

lemma mapr_options_ok: "mapr human_option_from_raw xs = Inr ps \<Longrightarrow> list_all option_ok ps \<and> length ps = length xs"
  by (auto simp: mapr_Inr list_all2_conv_all_nth list_all_length option_decoded)

lemma from_arguments_ok:
  assumes "human_request_from_arguments rid raw = Inr r" "stripped rid"
  shows "question_ok r \<and> hr_request_id r = rid"
  using assms(1) unfolding from_arguments_Inr
proof (elim conjE exE)
  fix title question mode other xs options label placeholder mn mx b
  assume a: "clean_required_text ''title'' (dget raw ''title'') = Inr title"
      "clean_required_text ''question'' (dget raw ''question'') = Inr question" "mode = ''single'' \<or> mode = ''multiple''"
      "\<not> (xs = [] \<and> \<not> other)" "mapr human_option_from_raw xs = Inr options" "first_repeat [] (map ho_value options) = None"
      "selection_bounds mode (int (length options) + (if other then 1 else 0)) mn mx = Inr b"
      and r: "\<lparr>hr_request_id = rid, hr_title = title, hr_question = question, hr_selection_mode = mode,
         hr_options = options, hr_allow_other = other, hr_other_label = (if label = [] then ''Other'' else label),
         hr_other_placeholder = placeholder, hr_min_selected = Some (fst b), hr_max_selected = Some (snd b)\<rparr> = r"
  obtain lo hi where b: "b = (lo, hi)" by fastforce
  have "0 \<le> lo \<and> 1 \<le> hi \<and> lo \<le> hi \<and> hi \<le> int (length options) + (if other then 1 else 0) \<and> (mode = ''single'' \<longrightarrow> hi = 1)"
    using a(7) unfolding b selection_bounds_Inr by - (elim conjE, intro conjI)
  then have "bounds_ok r" unfolding r [symmetric] bounds_ok_def by (cases other) (simp_all add: allowed_values_def b)
  then show ?thesis
    using a(1-6) assms(2) mapr_options_ok [OF a(5)] unfolding r [symmetric] question_ok_def
    by (auto simp: text_ok_def first_repeat_None clean_required_text_Inr)
qed

lemma question_trip:
  assumes "question_ok r"
  shows "human_request_from_dict (human_request_to_dict r) = Inr r"
proof -
  obtain lo hi where b: "hr_min_selected r = Some lo" "hr_max_selected r = Some hi" "0 \<le> lo" "1 \<le> hi" "lo \<le> hi"
      "hi \<le> int (length (allowed_values r))" "hr_selection_mode r = ''single'' \<longrightarrow> hi = 1"
    using assms by (auto simp: question_ok_def bounds_ok_def)
  have bounds: "selection_bounds (hr_selection_mode r) (int (length (hr_options r)) + (if hr_allow_other r then 1 else 0)) (Some lo) (Some hi)
      = Inr (lo, hi)"
    using b by (simp add: selection_bounds_Inr allowed_values_def split: if_splits)
  have opts: "mapr human_option_from_raw (map human_option_to_dict (hr_options r)) = Inr (hr_options r)"
    using assms unfolding mapr_map by (intro mapr_id) (simp add: question_ok_def list_all_iff option_trip)
  have ok: "stripped (hr_request_id r)" "stripped (hr_title r)" "stripped (hr_question r)"
      "hr_selection_mode r = ''single'' \<or> hr_selection_mode r = ''multiple''" "hr_options r \<noteq> [] \<or> hr_allow_other r"
      "first_repeat [] (map ho_value (hr_options r)) = None" "hr_other_label r \<noteq> []"
    using assms by (auto simp: question_ok_def first_repeat_None)
  let ?raw = "[(''title'', PyStr (hr_title r)), (''question'', PyStr (hr_question r)), (''selection_mode'', PyStr (hr_selection_mode r)),
      (''options'', PyList (map human_option_to_dict (hr_options r))), (''allow_other'', PyBool (hr_allow_other r)),
      (''other_label'', PyStr (hr_other_label r)), (''other_placeholder'', PyStr (hr_other_placeholder r)),
      (''min_selected'', PyInt lo), (''max_selected'', PyInt hi)]"
  have raw: "unknown_fields argument_keys ?raw = []" "dget ?raw ''title'' = PyStr (hr_title r)"
      "dget ?raw ''question'' = PyStr (hr_question r)" "dget ?raw ''selection_mode'' = PyStr (hr_selection_mode r)"
      "dget ?raw ''options'' = PyList (map human_option_to_dict (hr_options r))"
      "dget_or ?raw ''allow_other'' (PyBool False) = PyBool (hr_allow_other r)"
      "dget_or ?raw ''other_label'' (PyStr ''Other'') = PyStr (hr_other_label r)"
      "dget_or ?raw ''other_placeholder'' (PyStr []) = PyStr (hr_other_placeholder r)"
      "dget ?raw ''min_selected'' = PyInt lo" "dget ?raw ''max_selected'' = PyInt hi"
    by (simp_all add: dget_def dget_or_def unknown_fields_def argument_keys_def)
  have "human_request_from_arguments (hr_request_id r) ?raw = Inr r"
    unfolding human_request_from_arguments_def raw pyval.case bindr_simps opts
    using ok bounds b(1,2)
    by (cases r) (auto simp: clean_required_text_def clean_optional_text_def clean_optional_int_def stripped_def)
  then show ?thesis
    using ok(1) b(1,2)
    by (simp add: human_request_from_dict_def human_request_to_dict_def dget_def dget_or_def clean_required_text_def stripped_def)
qed

lemma question_decoded:
  assumes "human_request_from_dict v = Inr r"
  shows "question_ok r"
proof -
  obtain d where v: "v = PyDict d" using assms by (cases v) (auto simp: human_request_from_dict_def)
  show ?thesis
    using assms unfolding v human_request_from_dict_def pyval.case bindr_on [OF clean_required_text_Inr] if_eq_Inr
    by (auto simp: text_ok_def dest: from_arguments_ok)
qed

interpretation human_question: record_codec human_request_to_dict human_request_from_dict question_ok
  by unfold_locales (simp_all add: question_trip question_decoded)

subsection \<open>Accepted answers\<close>

lemma selected_texts_Inr:
  "selected_texts seen vs = Inr ws \<longleftrightarrow>
     ws = map (\<lambda>v. py_strip (text_of v)) vs \<and> (\<forall>v \<in> set vs. text_ok v) \<and> distinct ws \<and> (\<forall>w \<in> set ws. w \<notin> set seen)"
proof (induction vs arbitrary: seen ws)
  case (Cons v vs)
  show ?case
  proof (cases v)
    case (PyStr s)
    then show ?thesis by (auto simp: bindr_eq_Inr Cons.IH image_iff) (metis, metis)
  qed (auto simp: text_ok_def)
qed auto

definition answer_ok :: "human_request \<Rightarrow> human_response \<Rightarrow> bool" where
  "answer_ok q r \<longleftrightarrow> hs_request_id r = hr_request_id q \<and> distinct (hs_selected_values r) \<and>
     (\<forall>x \<in> set (hs_selected_values r). stripped x \<and> x \<in> set (allowed_values q)) \<and>
     or_zero (hr_min_selected q) \<le> int (length (hs_selected_values r)) \<and>
     (or_zero (hr_max_selected q) = 0 \<or> int (length (hs_selected_values r)) \<le> or_zero (hr_max_selected q)) \<and>
     (other_value \<in> set (hs_selected_values r) \<longrightarrow> hr_allow_other q) \<and>
     (hs_other_text r \<noteq> None \<longleftrightarrow> other_value \<in> set (hs_selected_values r)) \<and> pred_option stripped (hs_other_text r)"

lemma filter_empty_iff: "filter (\<lambda>x. x \<notin> A) xs \<noteq> [] \<longleftrightarrow> \<not> set xs \<subseteq> A"
  by (auto simp: filter_empty_conv)

lemma answer_trip:
  assumes "answer_ok q r" "stripped (hr_request_id q)"
  shows "human_response_from_value q (human_response_to_dict r) = Inr r"
proof -
  have sel: "selected_texts [] (map PyStr (hs_selected_values r)) = Inr (hs_selected_values r)"
    using assms(1) map_idI [of "hs_selected_values r" py_strip]
    by (simp add: selected_texts_Inr answer_ok_def stripped_def text_ok_def comp_def)
  have "\<not> (filter (\<lambda>x. x \<notin> set (allowed_values q)) (hs_selected_values r) \<noteq> [])"
    using assms(1) by (auto simp: answer_ok_def)
  then show ?thesis
    using assms sel
    by (cases "hs_other_text r")
      (auto simp: human_response_from_value_def human_response_to_dict_def dget_def clean_required_text_def stripped_def
        answer_ok_def Let_def)
qed

lemma case_text_Inr:
  "(case v of PyNone \<Rightarrow> Inr [] | PyStr s \<Rightarrow> Inr (py_strip s) | _ \<Rightarrow> Inl e) = Inr t \<longleftrightarrow>
     (v = PyNone \<or> is_str v) \<and> t = py_strip (text_of v)"
  by (cases v) auto

lemma answer_decoded:
  assumes "human_response_from_value q v = Inr r"
  shows "answer_ok q r"
proof -
  obtain d where v: "v = PyDict d" using assms by (cases v) (auto simp: human_response_from_value_def)
  obtain chosen vs other where c: "selected_texts [] vs = Inr chosen" "\<not> py_strip (text_of (dget d ''request_id'')) \<noteq> hr_request_id q"
      "\<not> int (length chosen) < or_zero (hr_min_selected q)"
      "\<not> (or_zero (hr_max_selected q) \<noteq> 0 \<and> int (length chosen) > or_zero (hr_max_selected q))"
      "\<not> filter (\<lambda>x. x \<notin> set (allowed_values q)) chosen \<noteq> []"
      "\<not> (other_value \<in> set chosen \<and> \<not> hr_allow_other q)" "\<not> (other_value \<in> set chosen \<and> other = [])"
      "\<not> (other_value \<notin> set chosen \<and> other \<noteq> [])"
      and t: "(case dget d ''other_text'' of PyNone \<Rightarrow> Inr [] | PyStr s \<Rightarrow> Inr (py_strip s)
         | _ \<Rightarrow> Inl (ValueExc ''other_text must be a string when provided'')) = Inr other"
      and r: "\<lparr>hs_request_id = py_strip (text_of (dget d ''request_id'')), hs_selected_values = chosen,
          hs_other_text = (if other = [] then None else Some other)\<rparr> = r"
    using assms
    unfolding v human_response_from_value_def pyval.case bindr_on [OF clean_required_text_Inr]
      if_eq_Inr Let_def bindr_eq_Inr [of "selected_texts s x" for s x] bindr_eq_Inr [of "case_pyval a b c d e f g h x" for a b c d e f g h x]
      case_list_Inr sum.inject
    by - (elim conjE exE, rule that; assumption)
  have "\<forall>x \<in> set chosen. stripped x" "distinct chosen" "other \<noteq> [] \<Longrightarrow> stripped other"
    using c(1) t by (auto simp: selected_texts_Inr text_ok_def case_text_Inr)
  then show ?thesis
    using c(2-) unfolding r [symmetric] by (auto simp: answer_ok_def filter_empty_conv)
qed

text \<open>
  C40: An answer that is accepted fits its question: it names the question, selects between the
  minimum and the maximum number of distinct values, all of them offered, and gives a free text exactly
  when the free choice is selected and offered.
\<close>
theorem accepted_answer_fits_question:
  assumes "human_request_from_dict w = Inr q" "human_response_from_raw q x = Inr r"
  shows "hs_request_id r = hr_request_id q \<and> distinct (hs_selected_values r) \<and>
    set (hs_selected_values r) \<subseteq> set (allowed_values q) \<and>
    (\<exists>lo hi. hr_min_selected q = Some lo \<and> hr_max_selected q = Some hi \<and> 0 \<le> lo \<and> hi \<le> int (length (allowed_values q)) \<and>
       int (length (hs_selected_values r)) \<in> {lo..hi}) \<and>
    (other_value \<in> set (hs_selected_values r) \<longleftrightarrow> hs_other_text r \<noteq> None) \<and>
    (hs_other_text r \<noteq> None \<longrightarrow> hr_allow_other q)"
proof -
  obtain v where "human_response_from_value q v = Inr r"
    using assms(2) by (auto simp: human_response_from_raw_def split: raw_response.splits)
  then have "answer_ok q r" by (rule answer_decoded)
  then show ?thesis
    using question_decoded [OF assms(1)] by (auto simp: answer_ok_def question_ok_def bounds_ok_def or_zero_def)
qed

lemma human_response_canonical:
  assumes "human_request_from_dict w = Inr q" "human_response_from_raw q x = Inr r"
  shows "human_response_from_raw q (RawValue (human_response_to_dict r)) = Inr r"
proof -
  obtain v where "human_response_from_value q v = Inr r"
    using assms(2) by (auto simp: human_response_from_raw_def split: raw_response.splits)
  then have "answer_ok q r" by (rule answer_decoded)
  then show ?thesis
    using question_decoded [OF assms(1)] by (simp add: human_response_from_raw_def answer_trip question_ok_def)
qed

lemma tool_approval_canonical:
  assumes "normalize_tool_approval_response x = Inr d"
  shows "normalize_tool_approval_response (RawValue d) = Inr d"
proof -
  obtain p :: tool_confirmation_response where p: "\<not> \<not> is_bool (tc_approved p)" "\<not> (tc_modified_arguments p \<noteq> PyNone \<and> \<not> is_dict (tc_modified_arguments p))"
      "\<not> \<not> is_str (tc_reason p)"
      and d: "PyDict [(''approved'', tc_approved p), (''modified_arguments'', tc_modified_arguments p), (''reason'', tc_reason p)] = d"
    using assms unfolding normalize_tool_approval_response_def bindr_eq_Inr if_eq_Inr sum.inject by blast
  have "tool_confirmation_from_raw (RawValue d) = Inr p"
    unfolding d [symmetric] by (cases p) (simp add: tool_confirmation_from_raw_def dget_def dget_or_def)
  then show ?thesis unfolding normalize_tool_approval_response_def using p d by simp
qed

lemma case_PyBool_object: "(case a of PyBool b \<Rightarrow> f b | _ \<Rightarrow> Inl e) = Inr d \<longleftrightarrow> (\<exists>b. a = PyBool b \<and> f b = Inr d)"
  by (cases a) auto

lemma case_PyInt_object: "(case a of PyInt b \<Rightarrow> f b | _ \<Rightarrow> Inl e) = Inr d \<longleftrightarrow> (\<exists>b. a = PyInt b \<and> f b = Inr d)"
  by (cases a) auto

lemma max_budget_canonical:
  assumes "normalize_max_budget_response q x = Inr d"
  shows "normalize_max_budget_response q (RawValue d) = Inr d"
proof -
  have "d = PyDict [(''approved'', PyBool False), (''extra_iterations'', PyInt 0)] \<or>
    (\<exists>n. 1 \<le> n \<and> d = PyDict [(''approved'', PyBool True), (''extra_iterations'', PyInt n)])"
    using assms unfolding normalize_max_budget_response_def bindr_eq_Inr split_beta Let_def case_PyBool_object
      if_distrib [of "\<lambda>r. r = Inr d"] case_PyInt_object if_eq_Inr sum.inject
    by (auto split: if_splits)
  then show ?thesis
    by (elim disjE exE conjE) (simp_all add: normalize_max_budget_response_def dget_def dget_or_def)
qed

text \<open>
  Canonical responses are canonical: normalising the response that was recorded for a request
  returns it unchanged, so a recorded answer is never refused as foreign to the runtime that recorded it.
\<close>
theorem normalized_response_is_canonical:
  assumes "normalize_interaction_response sha fr x response = Inr d"
  shows "normalize_interaction_response sha fr x (RawValue d) = Inr d"
proof -
  obtain q contract digest where q: "interaction_request_from_dict sha fr x = Inr q"
      "response_contract_for_kind (iq_kind q) = Inr contract" "strict_json_digest sha contract = Inr digest"
      "iq_schema_digest q = digest"
    using assms by (auto simp: normalize_interaction_response_def bindr_eq_Inr split: if_splits)
  show ?thesis
    using assms unfolding normalize_interaction_response_def q(1-3) bindr_simps
    using q(4) human_response_canonical tool_approval_canonical max_budget_canonical
    by (auto simp: bindr_eq_Inr split: if_splits)
qed

definition demo_question :: pyval where
  "demo_question = PyDict [(''request_id'', PyStr ''q1''), (''kind'', PyStr ''selector''), (''title'', PyStr ''Auth''),
     (''question'', PyStr ''Which?''), (''selection_mode'', PyStr ''single''),
     (''options'', PyList [PyDict [(''label'', PyStr ''JWT''), (''value'', PyStr ''jwt'')]]), (''allow_other'', PyBool True)]"

definition demo_answer :: pyval where
  "demo_answer = PyDict [(''request_id'', PyStr ''q1''), (''selected_values'', PyList [PyStr '' jwt''])]"

theorem accepted_answer_fits_question_witness:
  "\<exists>q r. human_request_from_dict demo_question = Inr q \<and> human_response_from_raw q (RawValue demo_answer) = Inr r \<and>
     set (hs_selected_values r) \<subseteq> set (allowed_values q)"
proof -
  have "case human_request_from_dict demo_question of Inl _ \<Rightarrow> False
    | Inr q \<Rightarrow> is_ok (human_response_from_raw q (RawValue demo_answer))" by code_simp
  then obtain q r where "human_request_from_dict demo_question = Inr q" "human_response_from_raw q (RawValue demo_answer) = Inr r"
    by (auto simp: is_ok_iff split: sum.splits)
  with accepted_answer_fits_question [OF this] show ?thesis by blast
qed

definition demo_approval :: interaction_request where
  "demo_approval = built_request flat_sha ''s'' ''tool_approval'' ''run'' ''1'' PyNone tool_approval_contract 0 PyNone"

theorem normalized_response_is_canonical_witness:
  "\<exists>d. normalize_interaction_response flat_sha (\<lambda>_. []) (Inl demo_approval) (RawValue (PyBool True)) = Inr d \<and>
     normalize_interaction_response flat_sha (\<lambda>_. []) (Inl demo_approval) (RawValue d) = Inr d"
proof -
  have "is_ok (normalize_interaction_response flat_sha (\<lambda>_. []) (Inl demo_approval) (RawValue (PyBool True)))" by code_simp
  then obtain d where "normalize_interaction_response flat_sha (\<lambda>_. []) (Inl demo_approval) (RawValue (PyBool True)) = Inr d"
    by (auto simp: is_ok_iff)
  with normalized_response_is_canonical [OF this] show ?thesis by blast
qed

end
