(* ===== verification/Checkpoints.thy ===== *)
theory Checkpoints
  imports RunState HumanInput
begin

section \<open>Execution checkpoints\<close>

text \<open>
  \<open>memory/checkpoint_state.py\<close> and \<open>memory/ownership.py\<close>: a run that stops early (out of iterations, or
  waiting for a person) leaves a checkpoint in its session: what it needs to continue, a digest over it,
  and a reference to the interaction it waits for, whose request goes into the interaction journal of the
  same session. A checkpoint is a JSON object, a session state a dictionary; the functions that mutate a
  session state return the new one. Messages are dictionaries.

  The lemmas show that a checkpoint built from a run state is accepted on loading, that a changed
  checkpoint is refused unless the digest function collides, that filing a new checkpoint never drops an
  unanswered interaction, and that restored transcripts are neither replayed nor shortened.
\<close>

subsection \<open>Who owns the history\<close>

fun any_r :: "('a \<Rightarrow> ('e, bool) res) \<Rightarrow> 'a list \<Rightarrow> ('e, bool) res" where
  "any_r f [] = Inr False"
| "any_r f (x # xs) = bindr (f x) (\<lambda>b. if b then Inr True else any_r f xs)"

definition non_system_messages :: "pyval list \<Rightarrow> pyval list" where
  "non_system_messages ms = filter (\<lambda>m. is_dict m \<and> vget m ''role'' \<noteq> PyStr ''system'') ms"

definition is_runtime_generated_message :: "pyval \<Rightarrow> (py_exc, bool) res" where
  "is_runtime_generated_message m =
     bindr (in_text_set (vget m ''role'') [''assistant'', ''tool'']) (\<lambda>by_role.
       if by_role then Inr True else
     bindr (in_text_set (vget m ''type'') [''function_call'', ''function_call_output'', ''tool_call'', ''tool_result'']) (\<lambda>by_type.
       if by_type then Inr True else
       case vget m ''content'' of
         PyList blocks \<Rightarrow>
           any_r (\<lambda>b. if is_dict b then in_text_set (vget b ''type'') [''tool_use'', ''tool_result''] else Inr False) blocks
       | _ \<Rightarrow> Inr False))"

text \<open>The loop that remembers one past the last runtime-generated message.\<close>

fun runtime_end :: "nat \<Rightarrow> nat \<Rightarrow> bool list \<Rightarrow> nat" where
  "runtime_end i e [] = e"
| "runtime_end i e (b # bs) = runtime_end (Suc i) (if b then Suc i else e) bs"

definition stable_persisted_dialog_prefix :: "pyval list \<Rightarrow> (py_exc, pyval list) res" where
  "stable_persisted_dialog_prefix history =
     (let dialog = non_system_messages history in
      bindr (mapr is_runtime_generated_message dialog) (\<lambda>flags. Inr (take (runtime_end 0 0 flags) dialog)))"

definition ownership_error :: "string \<Rightarrow> py_exc" where
  "ownership_error m = DomainExc ''SessionHistoryOwnershipError'' m"

definition history_ownership_text :: string where
  "history_ownership_text = ''session history ownership conflict: session memory already owns persisted conversation history; pass only new messages for this turn instead of replaying the stored transcript''"

definition provider_ownership_text :: string where
  "provider_ownership_text = ''session history ownership conflict: previous_response_id cannot be combined with session-backed memory on a fresh OpenAI run''"

definition ensure_session_delta_input :: "pyval list \<Rightarrow> pyval list \<Rightarrow> (py_exc, unit) res" where
  "ensure_session_delta_input history incoming =
     bindr (stable_persisted_dialog_prefix history) (\<lambda>persisted.
       let fresh = non_system_messages incoming in
       if persisted = [] \<or> length fresh < length persisted then Inr ()
       else if py_eq (PyList (take (length persisted) fresh)) (PyList persisted)
       then Inl (ownership_error history_ownership_text)
       else Inr ())"

definition ensure_no_external_provider_history :: "(rat \<Rightarrow> string) \<Rightarrow> pyval \<Rightarrow> pyval \<Rightarrow> (py_exc, unit) res" where
  "ensure_no_external_provider_history fr provider previous_response_id =
     (if py_lower (py_strip (str_or fr provider [])) = ''openai'' \<and> py_strip (str_or fr previous_response_id []) \<noteq> []
      then Inl (ownership_error provider_ownership_text)
      else Inr ())"

subsection \<open>Building a checkpoint\<close>

definition checkpoint_error :: "string \<Rightarrow> py_exc" where
  "checkpoint_error m = DomainExc ''ExecutionCheckpointError'' m"

definition ck_integrity_error :: "string \<Rightarrow> py_exc" where
  "ck_integrity_error m = DomainExc ''ExecutionCheckpointIntegrityError'' m"

definition ck_compatibility_error :: "string \<Rightarrow> py_exc" where
  "ck_compatibility_error m = DomainExc ''ExecutionCheckpointCompatibilityError'' m"

definition resume_required_error :: "string \<Rightarrow> py_exc" where
  "resume_required_error m = DomainExc ''ExecutionCheckpointResumeRequiredError'' m"

definition replay_unavailable_error :: "string \<Rightarrow> py_exc" where
  "replay_unavailable_error m = DomainExc ''ExecutionCheckpointReplayUnavailableError'' m"

text \<open>\<open>except InteractionError as exc: raise ...(f"...{exc}")\<close>\<close>

definition is_interaction_error :: "py_exc \<Rightarrow> bool" where
  "is_interaction_error e =
     (case e of
        DomainExc c _ \<Rightarrow> c \<in> {''InteractionIntegrityError'', ''InteractionNotPendingError'',
                               ''InteractionReceiptConflictError'', ''InteractionAlreadyAppliedError''}
      | _ \<Rightarrow> False)"

definition wrap_interaction :: "(string \<Rightarrow> py_exc) \<Rightarrow> string \<Rightarrow> (py_exc, 'a) res \<Rightarrow> (py_exc, 'a) res" where
  "wrap_interaction mk lead r =
     (case r of
        Inr v \<Rightarrow> Inr v
      | Inl e \<Rightarrow> if is_interaction_error e then Inl (mk (lead @ exc_text e)) else Inl e)"

text \<open>\<open>json.loads(json.dumps(value, default=str))\<close>: objects become their text.\<close>

fun json_safe :: "(rat \<Rightarrow> string) \<Rightarrow> pyval \<Rightarrow> pyval" where
  "json_safe fr (PyList xs) = PyList (map (json_safe fr) xs)"
| "json_safe fr (PyDict d) = PyDict (map (\<lambda>p. (fst p, json_safe fr (snd p))) d)"
| "json_safe fr (PyObj c d) = PyStr (py_repr fr (PyObj c d))"
| "json_safe fr v = v"

definition stable_payload_digest :: "(blob \<Rightarrow> string) \<Rightarrow> (rat \<Rightarrow> string) \<Rightarrow> pyval \<Rightarrow> string" where
  "stable_payload_digest sha fr v = sha (canonical_json_bytes (json_safe fr v))"

definition transcript_digest :: "(blob \<Rightarrow> string) \<Rightarrow> (rat \<Rightarrow> string) \<Rightarrow> pyval list \<Rightarrow> string" where
  "transcript_digest sha fr ms = stable_payload_digest sha fr (PyList ms)"

definition provider_replay_format :: "string \<Rightarrow> string" where
  "provider_replay_format provider =
     (if provider = ''openai'' then ''openai.responses.v1''
      else if provider = ''anthropic'' \<or> provider = ''hyperspace'' then ''anthropic.messages.v1''
      else if provider = ''gemini'' then ''gemini.contents.v1''
      else if provider = ''ollama'' then ''ollama.chat.v1''
      else (if provider = [] then ''unknown'' else provider) @ ''.messages.v1'')"

text \<open>An attribute of an object, None where there is no object.\<close>

definition attribute :: "pyval \<Rightarrow> string \<Rightarrow> pyval" where
  "attribute v k = (case v of PyObj c d \<Rightarrow> dget d k | _ \<Rightarrow> PyNone)"

definition fallback_replay_frame :: "(rat \<Rightarrow> string) \<Rightarrow> run_state \<Rightarrow> pydict" where
  "fallback_replay_frame fr s =
     (let provider = str_or fr (dget (provider_state s) ''provider'') [];
          finished = \<not> truthy (attribute (last_model_turn s) ''reasoning_items'') in
      [(''format'', PyStr (provider_replay_format provider)), (''complete'', PyBool finished),
       (''items'', PyList (transcript s)), (''source'', PyStr ''kernel_transcript'')]
      @ (if finished then []
         else [(''incomplete_reason'', PyStr ((if provider = [] then ''provider'' else provider)
                 @ '' reasoning output was not captured as an ordered, provider-ready replay frame''))]))"

definition set_default :: "string \<Rightarrow> pyval \<Rightarrow> pydict \<Rightarrow> pydict" where
  "set_default k v d = (if dict_get d k = None then d @ [(k, v)] else d)"

definition replay_frame_from_state :: "(rat \<Rightarrow> string) \<Rightarrow> run_state \<Rightarrow> pyval" where
  "replay_frame_from_state fr s =
     (case vget (dget (component_state s) ''provider_replay'') ''frame'' of
        PyDict frame \<Rightarrow>
          json_safe fr (PyDict
            (set_default ''items'' (PyList [])
              (set_default ''complete'' (PyBool False)
                (set_default ''format'' (PyStr (provider_replay_format (str_or fr (dget (provider_state s) ''provider'') []))) frame))))
      | _ \<Rightarrow> json_safe fr (PyDict (fallback_replay_frame fr s)))"

text \<open>\<open>HumanInputRequest.to_dict\<close> on the object a tool batch holds: its fields and those of its options.\<close>

fun dict_of_object :: "pyval \<Rightarrow> pyval" where
  "dict_of_object (PyObj c d) = PyDict (map (\<lambda>p. (fst p, dict_of_object (snd p))) d)"
| "dict_of_object (PyList xs) = PyList (map dict_of_object xs)"
| "dict_of_object v = v"

definition human_input_request_value :: "(rat \<Rightarrow> string) \<Rightarrow> run_state \<Rightarrow> pyval" where
  "human_input_request_value fr s =
     (case human_input_request (tool_batch s) of
        PyNone \<Rightarrow> PyNone
      | PyObj c d \<Rightarrow> json_safe fr (if c = ''HumanInputRequest'' then dict_of_object (PyObj c d) else PyObj c d)
      | v \<Rightarrow> json_safe fr v)"

definition checkpoint_interaction_request ::
  "(blob \<Rightarrow> string) \<Rightarrow> (rat \<Rightarrow> string) \<Rightarrow> run_state \<Rightarrow> string \<Rightarrow> string \<Rightarrow> string \<Rightarrow> int option
   \<Rightarrow> (py_exc, interaction_request option) res" where
  "checkpoint_interaction_request sha fr s status the_run session_id base =
     (let raw = vget (dget (suspend_state s) ''payload'') ''interaction_request'' in
      if raw = PyNone then
        (if status = ''awaiting_interaction''
         then Inl (checkpoint_error ''awaiting_interaction checkpoint requires an interaction_request'')
         else Inr None)
      else
        bindr (wrap_interaction ck_integrity_error ''invalid checkpoint interaction_request: ''
                 (interaction_request_from_dict sha fr (Inr raw))) (\<lambda>request.
          if iq_session_id request \<noteq> session_id
          then Inl (ck_compatibility_error ''interaction_request session_id does not match the checkpoint session'')
          else if iq_source_run_id request \<noteq> (if the_run = [] then ''kernel'' else the_run)
          then Inl (ck_compatibility_error ''interaction_request source_run_id does not match the checkpoint run'')
          else if base \<noteq> None \<and> base \<noteq> Some (iq_created_revision request)
          then Inl (ck_compatibility_error ''interaction_request created_revision does not match the checkpoint base revision'')
          else
            let expected_kind = (if status = ''awaiting_human_input'' then Some ''human_input''
                                 else if status = ''max_iterations'' then Some ''max_budget'' else None) in
            if expected_kind \<noteq> None \<and> expected_kind \<noteq> Some (iq_kind request)
            then Inl (ck_compatibility_error (status @ '' checkpoint requires an '' @ the expected_kind @ '' interaction_request''))
            else Inr (Some request)))"

definition checkpoint_statuses :: "string list" where
  "checkpoint_statuses = [''max_iterations'', ''awaiting_human_input'', ''awaiting_interaction'']"

definition token_keys :: "string list" where
  "token_keys =
     [''consumed_tokens'', ''input_tokens'', ''output_tokens'', ''cache_read_input_tokens'', ''cache_creation_input_tokens'',
      ''last_turn_tokens'', ''last_turn_input_tokens'', ''last_turn_output_tokens'', ''last_turn_cache_read_input_tokens'',
      ''last_turn_cache_creation_input_tokens'']"

definition token_value :: "run_state \<Rightarrow> string \<Rightarrow> int" where
  "token_value s k = (case dict_get (token_state s) k of None \<Rightarrow> 0 | Some n \<Rightarrow> n)"

definition optional_list :: "pyval list option \<Rightarrow> pyval" where
  "optional_list x = (case x of None \<Rightarrow> PyNone | Some xs \<Rightarrow> PyList xs)"

text \<open>The payload a checkpoint digests; \<open>window\<close> is \<open>int(max_context_window_tokens or 0)\<close>.\<close>

definition checkpoint_payload ::
  "(rat \<Rightarrow> string) \<Rightarrow> run_state \<Rightarrow> string \<Rightarrow> string \<Rightarrow> string \<Rightarrow> int option \<Rightarrow> int \<Rightarrow> interaction_request option \<Rightarrow> pydict" where
  "checkpoint_payload fr s status the_run session_id base window request =
     [(''schema_version'', PyInt 1), (''status'', PyStr status), (''session_id'', PyStr session_id),
      (''source_run_id'', PyStr (if the_run = [] then ''kernel'' else the_run)),
      (''provider'', PyStr (str_or fr (dget (provider_state s) ''provider'') [])),
      (''model'', PyStr (str_or fr (dget (provider_state s) ''model'') [])),
      (''iteration'', PyInt (iteration s)), (''base_session_revision'', opt_value PyInt base),
      (''transcript'', PyList (transcript s)), (''pending_model_context'', optional_list (next_model_input s)),
      (''replay_frame'', replay_frame_from_state fr s), (''continuation'', last_continuation s),
      (''human_input_request'', human_input_request_value fr s),
      (''previous_response_id'', dget (provider_state s) ''previous_response_id''),
      (''use_previous_response_chain'', PyBool (truthy (dget (provider_state s) ''use_previous_response_chain''))),
      (''max_context_window_tokens'', PyInt window),
      (''token_state'', PyDict (map (\<lambda>k. (k, PyInt (token_value s k))) token_keys)),
      (''workspace_change_state'', PyDict (workspace_change_state s))]
     @ (case request of
          None \<Rightarrow> []
        | Some q \<Rightarrow> [(''interaction_ref'', PyDict [(''interaction_id'', PyStr (iq_interaction_id q)),
                                                    (''request_digest'', PyStr (iq_request_digest q))])])"

definition or_value :: "pyval \<Rightarrow> pyval \<Rightarrow> pyval" where
  "or_value v w = (if truthy v then v else w)"

definition build_execution_checkpoint ::
  "(blob \<Rightarrow> string) \<Rightarrow> (rat \<Rightarrow> string) \<Rightarrow> run_state \<Rightarrow> string \<Rightarrow> string \<Rightarrow> (py_exc, pydict) res" where
  "build_execution_checkpoint sha fr s status the_run =
     (if status \<notin> set checkpoint_statuses
      then Inl (checkpoint_error (''cannot create an execution checkpoint for status '' @ repr_str status)) else
      let session_id = str_or fr (dget (session_state s) ''session_id'') [] in
      if session_id = [] then Inl (checkpoint_error ''execution checkpoint requires a non-empty session_id'') else
      let base = (case dget (memory_state s) ''session_revision'' of PyInt n \<Rightarrow> Some n | _ \<Rightarrow> None) in
      bindr (checkpoint_interaction_request sha fr s status the_run session_id base) (\<lambda>request.
      bindr (py_int (or_value (dget (provider_state s) ''max_context_window_tokens'') (PyInt 0))) (\<lambda>window.
        let payload = json_safe fr (PyDict (checkpoint_payload fr s status the_run session_id base window request));
            digest = stable_payload_digest sha fr payload in
        Inr ((case payload of PyDict p \<Rightarrow> p | _ \<Rightarrow> []) @
          [(''checkpoint_id'', PyStr (''checkpoint_'' @ take 32 digest)),
           (''integrity'', PyDict [(''algorithm'', PyStr ''sha256''), (''payload_sha256'', PyStr digest)])]))))"

subsection \<open>Validation\<close>

definition nat_value :: "pyval \<Rightarrow> bool" where
  "nat_value v = (case v of PyInt i \<Rightarrow> 0 \<le> i | _ \<Rightarrow> False)"

fun first_bad :: "(string \<Rightarrow> bool) \<Rightarrow> string list \<Rightarrow> string option" where
  "first_bad P [] = None"
| "first_bad P (k # ks) = (if P k then first_bad P ks else Some k)"

definition check_all :: "(string \<Rightarrow> bool) \<Rightarrow> (string \<Rightarrow> py_exc) \<Rightarrow> string list \<Rightarrow> (py_exc, 'a) res \<Rightarrow> (py_exc, 'a) res" where
  "check_all P err ks k = (case first_bad P ks of None \<Rightarrow> k | Some x \<Rightarrow> Inl (err x))"

definition check_shape :: "(rat \<Rightarrow> string) \<Rightarrow> pydict \<Rightarrow> (py_exc, unit) res" where
  "check_shape fr c =
     (if \<not> py_eq (dget c ''schema_version'') (PyInt 1)
      then Inl (ck_integrity_error (''unsupported execution checkpoint schema_version: '' @ py_repr fr (dget c ''schema_version''))) else
      bindr (in_text_set (dget c ''status'') checkpoint_statuses) (\<lambda>known.
        if \<not> known
        then Inl (ck_integrity_error (''invalid execution checkpoint status: '' @ py_repr fr (dget c ''status''))) else
        check_all (\<lambda>k. nonempty_text (dget c k)) (\<lambda>k. ck_integrity_error (''execution checkpoint requires non-empty '' @ k))
          [''session_id'', ''provider'', ''checkpoint_id'']
        (if \<not> is_list (dget c ''transcript'')
         then Inl (ck_integrity_error ''execution checkpoint transcript must be a list'')
         else if \<not> nat_value (dget c ''iteration'')
         then Inl (ck_integrity_error ''execution checkpoint iteration must be a non-negative integer'')
         else if \<not> nat_value (dget_or c ''max_context_window_tokens'' (PyInt 0))
         then Inl (ck_integrity_error ''execution checkpoint max_context_window_tokens must be a non-negative integer'')
         else if \<not> is_dict (dget c ''token_state'')
         then Inl (ck_integrity_error ''execution checkpoint token_state must be a dict'') else
         check_all (\<lambda>k. nat_value (vget (dget c ''token_state'') k))
           (\<lambda>k. ck_integrity_error (''execution checkpoint token_state.'' @ k @ '' must be a non-negative integer'')) token_keys
         (if \<not> is_dict (dget c ''workspace_change_state'')
          then Inl (ck_integrity_error ''execution checkpoint workspace_change_state must be a dict'')
          else if dget c ''pending_model_context'' \<noteq> PyNone \<and>
                  (case dget c ''pending_model_context'' of PyList ms \<Rightarrow> \<not> list_all is_dict ms | _ \<Rightarrow> True)
          then Inl (ck_integrity_error ''execution checkpoint pending_model_context must be a message list or null'')
          else if \<not> is_dict (dget c ''replay_frame'')
          then Inl (ck_integrity_error ''execution checkpoint replay_frame must be a dict'')
          else if \<not> is_bool (vget (dget c ''replay_frame'') ''complete'')
          then Inl (ck_integrity_error ''execution checkpoint replay_frame.complete must be a bool'')
          else if \<not> is_list (vget (dget c ''replay_frame'') ''items'')
          then Inl (ck_integrity_error ''execution checkpoint replay_frame.items must be a list'')
          else Inr ()))))"

definition check_waiting :: "pydict \<Rightarrow> (py_exc, unit) res" where
  "check_waiting c =
     (let ref = dget c ''interaction_ref'' in
      if dget c ''status'' = PyStr ''awaiting_human_input'' \<and> \<not> is_dict (dget c ''continuation'')
      then Inl (ck_integrity_error ''awaiting_human_input checkpoint requires continuation'')
      else if dget c ''status'' = PyStr ''awaiting_human_input'' \<and> \<not> is_dict (dget c ''human_input_request'')
      then Inl (ck_integrity_error ''awaiting_human_input checkpoint requires human_input_request'')
      else if ref \<noteq> PyNone \<and>
              (case ref of PyDict d \<Rightarrow> set (dict_keys d) \<noteq> {''interaction_id'', ''request_digest''} | _ \<Rightarrow> True)
      then Inl (ck_integrity_error ''execution checkpoint interaction_ref must contain only interaction_id and request_digest'')
      else check_all (\<lambda>k. ref = PyNone \<or> nonempty_text (vget ref k))
        (\<lambda>k. ck_integrity_error (''execution checkpoint interaction_ref.'' @ k @ '' must be a non-empty string''))
        [''interaction_id'', ''request_digest'']
      (if dget c ''status'' = PyStr ''awaiting_interaction'' \<and> ref = PyNone
       then Inl (ck_integrity_error ''awaiting_interaction checkpoint requires interaction_ref'')
       else if dget c ''status'' = PyStr ''awaiting_interaction'' \<and> \<not> is_dict (dget c ''continuation'')
       then Inl (ck_integrity_error ''awaiting_interaction checkpoint requires continuation'')
       else if dget c ''base_session_revision'' \<noteq> PyNone \<and> \<not> nat_value (dget c ''base_session_revision'')
       then Inl (ck_integrity_error ''execution checkpoint base_session_revision must be a non-negative integer or null'')
       else Inr ()))"

definition unsigned_payload :: "pydict \<Rightarrow> pydict" where
  "unsigned_payload c = filter (\<lambda>p. fst p \<notin> {''checkpoint_id'', ''integrity''}) c"

definition validate_execution_checkpoint ::
  "(blob \<Rightarrow> string) \<Rightarrow> (rat \<Rightarrow> string) \<Rightarrow> pyval \<Rightarrow> (py_exc, pydict) res" where
  "validate_execution_checkpoint sha fr raw =
     (case json_safe fr raw of
        PyDict c \<Rightarrow>
          if \<not> is_dict raw then Inl (ck_integrity_error ''execution checkpoint must be a dict'') else
          bindr (check_shape fr c) (\<lambda>_.
          bindr (check_waiting c) (\<lambda>_.
            if vget (dget c ''integrity'') ''algorithm'' \<noteq> PyStr ''sha256''
            then Inl (ck_integrity_error ''execution checkpoint integrity.algorithm must be sha256'')
            else
              let actual = stable_payload_digest sha fr (PyDict (unsigned_payload c)) in
              if vget (dget c ''integrity'') ''payload_sha256'' \<noteq> PyStr actual
              then Inl (ck_integrity_error ''execution checkpoint payload hash mismatch'')
              else if dget c ''checkpoint_id'' \<noteq> PyStr (''checkpoint_'' @ take 32 actual)
              then Inl (ck_integrity_error ''execution checkpoint id does not match its payload'')
              else Inr c))
      | _ \<Rightarrow> Inl (ck_integrity_error ''execution checkpoint must be a dict''))"

subsection \<open>The interaction a checkpoint waits for\<close>

definition journal_key :: string where "journal_key = ''interaction_journal''"

definition checkpoint_key :: string where "checkpoint_key = ''execution_checkpoint''"

definition validate_checkpoint_request_binding :: "pydict \<Rightarrow> interaction_request \<Rightarrow> (py_exc, unit) res" where
  "validate_checkpoint_request_binding c q =
     (let ref = dget c ''interaction_ref'' in
      if \<not> is_dict ref
      then Inl (ck_compatibility_error ''interaction_request was supplied for a checkpoint without interaction_ref'')
      else if vget ref ''interaction_id'' \<noteq> PyStr (iq_interaction_id q) \<or> vget ref ''request_digest'' \<noteq> PyStr (iq_request_digest q)
      then Inl (ck_compatibility_error ''interaction_request does not match the checkpoint interaction_ref'')
      else if dget c ''session_id'' \<noteq> PyStr (iq_session_id q)
      then Inl (ck_compatibility_error ''interaction_request belongs to a different session'')
      else if dget c ''source_run_id'' \<noteq> PyStr (iq_source_run_id q)
      then Inl (ck_compatibility_error ''interaction_request belongs to a different source run'')
      else if dget c ''base_session_revision'' \<noteq> PyNone \<and>
              \<not> py_eq (PyInt (iq_created_revision q)) (dget c ''base_session_revision'')
      then Inl (ck_compatibility_error ''interaction_request created_revision does not match the checkpoint'')
      else Inr ())"

text \<open>
  The part of \<open>register_checkpoint_interaction_request\<close> that settles another interaction which is still
  active: it must belong to the checkpoint in the session and have its answer.
\<close>

definition settle_prior_interaction ::
  "(blob \<Rightarrow> string) \<Rightarrow> (rat \<Rightarrow> string) \<Rightarrow> pydict \<Rightarrow> pydict \<Rightarrow> string \<Rightarrow> interaction_journal \<Rightarrow> (py_exc, interaction_journal) res" where
  "settle_prior_interaction sha fr session c active j =
     bindr (case dget session checkpoint_key of
              PyDict d \<Rightarrow> map_sum id Some (validate_execution_checkpoint sha fr (PyDict d))
            | _ \<Rightarrow> Inr None) (\<lambda>stored.
       case (stored, dict_get (ij_entries j) active) of
         (Some now, Some entry) \<Rightarrow>
           if \<not> is_dict (dget now ''interaction_ref'') \<or>
              vget (dget now ''interaction_ref'') ''interaction_id'' \<noteq> PyStr active \<or>
              dget now ''checkpoint_id'' \<noteq> PyStr (ie_checkpoint_id entry)
           then Inl (ck_compatibility_error ''active interaction is not bound to the current execution checkpoint'')
           else
             (case ie_receipt entry of
                None \<Rightarrow> Inl (resume_required_error ''cannot replace an unanswered durable interaction'')
              | Some receipt \<Rightarrow>
                  wrap_interaction ck_integrity_error ''failed to apply the prior durable interaction: ''
                    (mark_interaction_applied sha fr (PyStr active) (PyStr (ic_receipt_id receipt))
                       (PyStr (str_or fr (dget c ''checkpoint_id'') [])) (journal_dict j)))
       | _ \<Rightarrow> Inl (ck_compatibility_error ''active interaction is not bound to the current execution checkpoint''))"

definition register_checkpoint_interaction_request ::
  "(blob \<Rightarrow> string) \<Rightarrow> (rat \<Rightarrow> string) \<Rightarrow> pydict \<Rightarrow> interaction_request + pyval \<Rightarrow> pydict \<Rightarrow> (py_exc, pydict) res" where
  "register_checkpoint_interaction_request sha fr c request session =
     bindr (wrap_interaction ck_integrity_error ''invalid durable interaction state: ''
              (bindr (interaction_request_from_dict sha fr request) (\<lambda>q.
               bindr (validate_checkpoint_request_binding c q) (\<lambda>_.
               bindr (validate_interaction_journal sha fr (dget session journal_key)) (\<lambda>j. Inr (q, j)))))) (\<lambda>(q, j).
     bindr (case ij_active_id j of
              None \<Rightarrow> Inr j
            | Some active \<Rightarrow>
                if active = iq_interaction_id q then Inr j else settle_prior_interaction sha fr session c active j) (\<lambda>j'.
       if (\<exists>e \<in> set_option (dict_get (ij_entries j') (iq_interaction_id q)). ie_application e \<noteq> None)
       then Inl (ck_compatibility_error ''cannot reactivate an already-applied durable interaction'') else
     bindr (wrap_interaction ck_compatibility_error ''failed to register checkpoint interaction: ''
              (register_interaction_request sha fr (Inl q) (PyStr (str_or fr (dget c ''checkpoint_id'') [])) (journal_dict j')))
       (\<lambda>k. Inr (dict_set journal_key (journal_dict k) session))))"

text \<open>The session with the receipt marked applied, and whether there was one to apply.\<close>

definition apply_checkpoint_interaction_receipt ::
  "(blob \<Rightarrow> string) \<Rightarrow> (rat \<Rightarrow> string) \<Rightarrow> pydict \<Rightarrow> string \<Rightarrow> pydict \<Rightarrow> (py_exc, pydict \<times> bool) res" where
  "apply_checkpoint_interaction_receipt sha fr c applied_id session =
     (let ref = dget c ''interaction_ref'' in
      if ref = PyNone then Inr (session, False) else
      bindr (wrap_interaction ck_integrity_error ''invalid durable interaction journal: ''
               (validate_interaction_journal sha fr (dget session journal_key))) (\<lambda>j.
        if \<not> is_dict ref
        then Inl (DomainExc ''AttributeError'' (repr_str (type_name ref) @ '' object has no attribute '' @ repr_str ''get'')) else
        let iid = str_or fr (vget ref ''interaction_id'') [] in
        case dict_get (ij_entries j) iid of
          None \<Rightarrow> Inl (ck_integrity_error ''checkpoint interaction_ref is missing from the interaction journal'')
        | Some entry \<Rightarrow>
            if vget ref ''request_digest'' \<noteq> PyStr (iq_request_digest (ie_request entry)) \<or>
               dget c ''session_id'' \<noteq> PyStr (iq_session_id (ie_request entry)) \<or>
               dget c ''checkpoint_id'' \<noteq> PyStr (ie_checkpoint_id entry)
            then Inl (ck_integrity_error ''checkpoint interaction_ref does not match its journal entry'') else
            case ie_receipt entry of
              None \<Rightarrow> Inl (resume_required_error ''cannot clear an interaction checkpoint before its receipt is recorded'')
            | Some receipt \<Rightarrow>
                bindr (wrap_interaction ck_integrity_error ''failed to apply checkpoint interaction receipt: ''
                         (mark_interaction_applied sha fr (PyStr iid) (PyStr (ic_receipt_id receipt)) (PyStr applied_id)
                            (journal_dict j)))
                  (\<lambda>k. Inr (dict_set journal_key (journal_dict k) session, True))))"

subsection \<open>Restoring the transcript\<close>

definition ensure_checkpoint_compatible ::
  "(rat \<Rightarrow> string) \<Rightarrow> pydict \<Rightarrow> string \<Rightarrow> pyval \<Rightarrow> pyval \<Rightarrow> (py_exc, unit) res" where
  "ensure_checkpoint_compatible fr c session_id provider model =
     (let expected_provider = str_or fr (dget c ''provider'') []; actual_provider = str_or fr provider [];
          expected_model = str_or fr (dget c ''model'') []; actual_model = str_or fr model [] in
      if dget c ''session_id'' \<noteq> PyStr session_id
      then Inl (ck_compatibility_error ''execution checkpoint belongs to a different session'')
      else if expected_provider \<noteq> [] \<and> actual_provider \<noteq> [] \<and> expected_provider \<noteq> actual_provider
      then Inl (ck_compatibility_error (''execution checkpoint provider mismatch: expected '' @ repr_str expected_provider
                  @ '', got '' @ repr_str actual_provider))
      else if expected_model \<noteq> [] \<and> actual_model \<noteq> [] \<and> expected_model \<noteq> actual_model
      then Inl (ck_compatibility_error (''execution checkpoint model mismatch: expected '' @ repr_str expected_model
                  @ '', got '' @ repr_str actual_model))
      else Inr ())"

definition ensure_checkpoint_replayable :: "(rat \<Rightarrow> string) \<Rightarrow> pydict \<Rightarrow> (py_exc, unit) res" where
  "ensure_checkpoint_replayable fr c =
     (if vget (dget c ''replay_frame'') ''complete'' = PyBool True then Inr ()
      else
        let reason = str_or fr (vget (dget c ''replay_frame'') ''incomplete_reason'') [] in
        Inl (replay_unavailable_error (''execution checkpoint does not contain a complete provider replay frame''
               @ (if reason = [] then [] else '': '' @ reason))))"

text \<open>Iterating \<open>checkpoint.get("transcript") or []\<close>; the keys of an object and the characters of a text are no messages.\<close>

definition iterated_messages :: "pyval \<Rightarrow> (py_exc, pyval list) res" where
  "iterated_messages v =
     (case v of
        PyList ms \<Rightarrow> Inr ms
      | PyDict d \<Rightarrow> Inr (map (\<lambda>p. PyStr (fst p)) d)
      | PyStr s \<Rightarrow> Inr (map (\<lambda>c. PyStr [c]) s)
      | _ \<Rightarrow> Inl (TypeExc (repr_str (type_name v) @ '' object is not iterable'')))"

definition checkpoint_transcript :: "pydict \<Rightarrow> pyval" where
  "checkpoint_transcript c = or_value (dget c ''transcript'') (PyList [])"

definition restore_fresh_checkpoint_messages ::
  "(rat \<Rightarrow> string) \<Rightarrow> pydict \<Rightarrow> pyval list \<Rightarrow> (py_exc, pyval) res" where
  "restore_fresh_checkpoint_messages fr c incoming =
     bindr (in_text_set (dget c ''status'') [''awaiting_human_input'', ''awaiting_interaction'']) (\<lambda>waiting.
       if waiting \<or> is_dict (dget c ''interaction_ref'')
       then Inl (resume_required_error ''session is awaiting a durable interaction; resume the persisted continuation instead of starting a fresh run'')
       else
     bindr (ensure_checkpoint_replayable fr c) (\<lambda>_.
     bindr (iterated_messages (checkpoint_transcript c)) (\<lambda>history.
     bindr (ensure_session_delta_input history incoming) (\<lambda>_. Inr (checkpoint_transcript c)))))"

definition is_prompt_message :: "pyval \<Rightarrow> (py_exc, bool) res" where
  "is_prompt_message m =
     (if is_dict m then in_text_set (vget m ''role'') [''system'', ''developer'']
      else Inl (DomainExc ''AttributeError'' (repr_str (type_name m) @ '' object has no attribute '' @ repr_str ''get'')))"

fun split_prompt :: "pyval list \<Rightarrow> (py_exc, pyval list \<times> pyval list) res" where
  "split_prompt [] = Inr ([], [])"
| "split_prompt (m # ms) =
     bindr (is_prompt_message m) (\<lambda>b.
     bindr (split_prompt ms) (\<lambda>(systems, conversation).
       Inr (if b then (m # systems, conversation) else (systems, m # conversation))))"

definition prompt_projection :: "pyval list \<Rightarrow> pyval list" where
  "prompt_projection ms = map (\<lambda>m. PyDict [(''role'', vget m ''role''), (''content'', vget m ''content'')]) ms"

definition merge_checkpoint_transcript_with_incoming :: "pyval list \<Rightarrow> pyval list \<Rightarrow> (py_exc, pyval list) res" where
  "merge_checkpoint_transcript_with_incoming stored incoming =
     bindr (split_prompt stored) (\<lambda>(stored_systems, stored_conversation).
     bindr (split_prompt incoming) (\<lambda>(incoming_systems, incoming_conversation).
       let expected = prompt_projection stored_systems; actual = prompt_projection incoming_systems in
       if incoming_systems \<noteq> [] \<and> \<not> py_eq (PyList actual) (PyList expected) \<and>
          \<not> (length actual = 1 \<and> expected \<noteq> [] \<and> py_eq (hd actual) (hd expected))
       then Inl (ck_compatibility_error ''incoming system/developer instructions do not match the persisted execution checkpoint'')
       else Inr (stored_systems @ stored_conversation @ incoming_conversation)))"

definition restore_resume_checkpoint_messages ::
  "(rat \<Rightarrow> string) \<Rightarrow> pydict \<Rightarrow> pyval list \<Rightarrow> pyval \<Rightarrow> (py_exc, pyval) res" where
  "restore_resume_checkpoint_messages fr c conversation continuation =
     bindr (if is_dict (dget c ''interaction_ref'') then in_text_set (dget c ''status'') checkpoint_statuses else Inr False) (\<lambda>resumable.
       if dget c ''status'' \<noteq> PyStr ''awaiting_human_input'' \<and> \<not> resumable
       then Inl (ck_compatibility_error ''interaction resume requires a durable interaction checkpoint'')
       else
     bindr (ensure_checkpoint_replayable fr c) (\<lambda>_.
       if \<not> py_eq (json_safe fr (PyList conversation)) (json_safe fr (checkpoint_transcript c))
       then Inl (ck_compatibility_error ''resume conversation does not match the persisted execution checkpoint'')
       else if \<not> is_dict continuation \<or> \<not> py_eq (json_safe fr continuation) (json_safe fr (dget c ''continuation''))
       then Inl (ck_compatibility_error ''resume continuation does not match the persisted execution checkpoint'')
       else Inr (checkpoint_transcript c)))"

subsection \<open>Lemmas: JSON copies and the fields of a checkpoint\<close>

abbreviation safe_dict :: "(rat \<Rightarrow> string) \<Rightarrow> pydict \<Rightarrow> pydict" where
  "safe_dict fr d \<equiv> map (\<lambda>p. (fst p, json_safe fr (snd p))) d"

lemma json_safe_idem [simp]: "json_safe fr (json_safe fr v) = json_safe fr v"
  by (induction fr v rule: json_safe.induct) (simp_all add: map_idI)

lemma json_safe_json: "json_value (json_safe fr v)"
  by (induction fr v rule: json_safe.induct) (auto simp: json_value_PyDict list_all_iff)

lemma json_safe_kind [simp]:
  "is_dict (json_safe fr v) = is_dict v" "is_list (json_safe fr v) = is_list v" "is_bool (json_safe fr v) = is_bool v"
  "json_safe fr v = PyNone \<longleftrightarrow> v = PyNone"
  by (cases v; simp)+

lemma dget_safe_dict [simp]: "dget (safe_dict fr d) k = json_safe fr (dget d k)"
  by (induction d) (auto simp: dget_def)

lemma vget_json_safe [simp]: "vget (json_safe fr v) k = json_safe fr (vget v k)"
  by (cases v) simp_all

lemma dget_append: "dget (d @ e) k = (if k \<in> set (dict_keys d) then dget d k else dget e k)"
  by (induction d) (auto simp: dget_def)

lemma dget_absent: "k \<notin> set (dict_keys d) \<Longrightarrow> dget d k = PyNone"
  by (simp add: dget_def map_of_eq_None_iff [THEN iffD2])

text \<open>The checkpoint over a payload.\<close>

definition sealed :: "(blob \<Rightarrow> string) \<Rightarrow> (rat \<Rightarrow> string) \<Rightarrow> pydict \<Rightarrow> pydict" where
  "sealed sha fr p = p @
     [(''checkpoint_id'', PyStr (''checkpoint_'' @ take 32 (stable_payload_digest sha fr (PyDict p)))),
      (''integrity'', PyDict [(''algorithm'', PyStr ''sha256''), (''payload_sha256'', PyStr (stable_payload_digest sha fr (PyDict p)))])]"

definition seal_keys :: "string set" where "seal_keys = {''checkpoint_id'', ''integrity''}"

definition base_revision :: "run_state \<Rightarrow> int option" where
  "base_revision s = (case dget (memory_state s) ''session_revision'' of PyInt n \<Rightarrow> Some n | _ \<Rightarrow> None)"

lemma build_checkpoint_Inr:
  "build_execution_checkpoint sha fr s status rid = Inr c \<longleftrightarrow>
    (\<exists>request window. status \<in> set checkpoint_statuses \<and> str_or fr (dget (session_state s) ''session_id'') [] \<noteq> [] \<and>
      checkpoint_interaction_request sha fr s status rid (str_or fr (dget (session_state s) ''session_id'') []) (base_revision s) = Inr request \<and>
      py_int (or_value (dget (provider_state s) ''max_context_window_tokens'') (PyInt 0)) = Inr window \<and>
      c = sealed sha fr (safe_dict fr (checkpoint_payload fr s status rid (str_or fr (dget (session_state s) ''session_id'') [])
                                         (base_revision s) window request)))"
  unfolding build_execution_checkpoint_def Let_def if_eq_Inr bindr_eq_Inr base_revision_def [symmetric] sealed_def
    json_safe.simps pyval.case sum.inject by blast

lemma payload_keys:
  "dict_keys (checkpoint_payload fr s status rid sid base window request) =
     [''schema_version'', ''status'', ''session_id'', ''source_run_id'', ''provider'', ''model'', ''iteration'',
      ''base_session_revision'', ''transcript'', ''pending_model_context'', ''replay_frame'', ''continuation'',
      ''human_input_request'', ''previous_response_id'', ''use_previous_response_chain'', ''max_context_window_tokens'',
      ''token_state'', ''workspace_change_state''] @ (if request = None then [] else [''interaction_ref''])"
  by (simp add: checkpoint_payload_def split: option.splits)

lemma unsigned_sealed:
  assumes "set (dict_keys p) \<inter> seal_keys = {}"
  shows "unsigned_payload (sealed sha fr p) = p"
proof -
  have "\<forall>q \<in> set p. fst q \<notin> seal_keys" using assms by (auto simp: disjoint_iff)
  then have "filter (\<lambda>q. fst q \<notin> seal_keys) p = p" by (simp add: filter_id_conv)
  then show ?thesis by (simp add: unsigned_payload_def sealed_def seal_keys_def)
qed

lemma payload_unsealed: "set (dict_keys (safe_dict fr (checkpoint_payload fr s status rid sid base window request))) \<inter> seal_keys = {}"
  unfolding map_map comp_def fst_conv payload_keys seal_keys_def by simp

lemma dget_sealed:
  assumes "set (dict_keys p) \<inter> seal_keys = {}"
  shows "k \<notin> seal_keys \<Longrightarrow> dget (sealed sha fr p) k = dget p k"
    and "dget (sealed sha fr p) ''checkpoint_id'' = PyStr (''checkpoint_'' @ take 32 (stable_payload_digest sha fr (PyDict p)))"
    and "dget (sealed sha fr p) ''integrity'' = PyDict [(''algorithm'', PyStr ''sha256''), (''payload_sha256'', PyStr (stable_payload_digest sha fr (PyDict p)))]"
proof -
  have "''checkpoint_id'' \<notin> set (dict_keys p)" "''integrity'' \<notin> set (dict_keys p)"
    using assms by (auto simp: seal_keys_def)
  then show "dget (sealed sha fr p) ''checkpoint_id'' = PyStr (''checkpoint_'' @ take 32 (stable_payload_digest sha fr (PyDict p)))"
    "dget (sealed sha fr p) ''integrity'' = PyDict [(''algorithm'', PyStr ''sha256''), (''payload_sha256'', PyStr (stable_payload_digest sha fr (PyDict p)))]"
    unfolding sealed_def dget_append by (simp_all add: dget_def)
  show "k \<notin> seal_keys \<Longrightarrow> dget (sealed sha fr p) k = dget p k"
    using dget_absent [of k p] by (simp add: sealed_def seal_keys_def dget_append) (simp add: dget_def)
qed

lemma json_safe_sealed: "json_safe fr (PyDict (sealed sha fr (safe_dict fr p))) = PyDict (sealed sha fr (safe_dict fr p))"
  by (simp add: sealed_def)

lemma seal_fields:
  "dget [(''algorithm'', a), (''payload_sha256'', b)] ''algorithm'' = a"
  "dget [(''algorithm'', a), (''payload_sha256'', b)] ''payload_sha256'' = b"
  by (simp_all add: dget_def)

text \<open>What validation asks beyond the seal.\<close>

definition shape_ok :: "(rat \<Rightarrow> string) \<Rightarrow> pydict \<Rightarrow> bool" where
  "shape_ok fr c \<longleftrightarrow> check_shape fr c = Inr () \<and> check_waiting c = Inr ()"

lemma validate_sealed:
  assumes "set (dict_keys p) \<inter> seal_keys = {}" "safe_dict fr p = p"
  shows "validate_execution_checkpoint sha fr (PyDict (sealed sha fr p)) = Inr d \<longleftrightarrow>
    shape_ok fr (sealed sha fr p) \<and> d = sealed sha fr p"
proof -
  have "json_safe fr (PyDict (sealed sha fr p)) = PyDict (sealed sha fr p)"
    using json_safe_sealed [of fr sha p] assms(2) by simp
  then have "validate_execution_checkpoint sha fr (PyDict (sealed sha fr p)) =
      bindr (check_shape fr (sealed sha fr p)) (\<lambda>_. bindr (check_waiting (sealed sha fr p)) (\<lambda>_. Inr (sealed sha fr p)))"
    unfolding validate_execution_checkpoint_def
    by (simp add: unsigned_sealed [OF assms(1)] dget_sealed(2,3) [OF assms(1)] seal_fields Let_def del: json_safe.simps)
  then show ?thesis unfolding shape_ok_def by (auto simp: bindr_eq_Inr)
qed

lemma first_bad_None: "first_bad P ks = None \<longleftrightarrow> (\<forall>k \<in> set ks. P k)"
  by (induction ks) auto

lemma check_all_Inr: "check_all P err ks k = Inr v \<longleftrightarrow> (\<forall>x \<in> set ks. P x) \<and> k = Inr v"
  using first_bad_None [of P ks] by (cases "first_bad P ks") (simp_all add: check_all_def)

lemma in_text_set_bind:
  "bindr (in_text_set v ns) (\<lambda>b. if \<not> b then Inl e else k) = Inr u \<longleftrightarrow> v \<in> PyStr ` set ns \<and> k = Inr u"
  by (cases v) (auto simp: in_text_set_def bindr_eq_Inr)

lemma check_shape_Inr:
  "check_shape fr c = Inr () \<longleftrightarrow>
     py_eq (dget c ''schema_version'') (PyInt 1) \<and> dget c ''status'' \<in> PyStr ` set checkpoint_statuses \<and>
     (\<forall>k \<in> set [''session_id'', ''provider'', ''checkpoint_id'']. nonempty_text (dget c k)) \<and>
     is_list (dget c ''transcript'') \<and> nat_value (dget c ''iteration'') \<and>
     nat_value (dget_or c ''max_context_window_tokens'' (PyInt 0)) \<and> is_dict (dget c ''token_state'') \<and>
     (\<forall>k \<in> set token_keys. nat_value (vget (dget c ''token_state'') k)) \<and> is_dict (dget c ''workspace_change_state'') \<and>
     \<not> (dget c ''pending_model_context'' \<noteq> PyNone \<and>
        (case dget c ''pending_model_context'' of PyList ms \<Rightarrow> \<not> list_all is_dict ms | _ \<Rightarrow> True)) \<and>
     is_dict (dget c ''replay_frame'') \<and> is_bool (vget (dget c ''replay_frame'') ''complete'') \<and>
     is_list (vget (dget c ''replay_frame'') ''items'')"
  unfolding check_shape_def in_text_set_bind check_all_Inr if_eq_Inr not_not by (rule arg_cong2 [where f = conj] refl)+ simp

lemma check_waiting_Inr:
  "check_waiting c = Inr () \<longleftrightarrow>
     \<not> (dget c ''status'' = PyStr ''awaiting_human_input'' \<and> \<not> is_dict (dget c ''continuation'')) \<and>
     \<not> (dget c ''status'' = PyStr ''awaiting_human_input'' \<and> \<not> is_dict (dget c ''human_input_request'')) \<and>
     \<not> (dget c ''interaction_ref'' \<noteq> PyNone \<and>
        (case dget c ''interaction_ref'' of PyDict d \<Rightarrow> set (dict_keys d) \<noteq> {''interaction_id'', ''request_digest''} | _ \<Rightarrow> True)) \<and>
     (\<forall>k \<in> set [''interaction_id'', ''request_digest''].
        dget c ''interaction_ref'' = PyNone \<or> nonempty_text (vget (dget c ''interaction_ref'') k)) \<and>
     \<not> (dget c ''status'' = PyStr ''awaiting_interaction'' \<and> dget c ''interaction_ref'' = PyNone) \<and>
     \<not> (dget c ''status'' = PyStr ''awaiting_interaction'' \<and> \<not> is_dict (dget c ''continuation'')) \<and>
     \<not> (dget c ''base_session_revision'' \<noteq> PyNone \<and> \<not> nat_value (dget c ''base_session_revision''))"
  unfolding check_waiting_def Let_def check_all_Inr if_eq_Inr by (simp only: simp_thms)

definition ref_of :: "interaction_request option \<Rightarrow> pyval" where
  "ref_of = opt_value (\<lambda>q. PyDict [(''interaction_id'', PyStr (iq_interaction_id q)), (''request_digest'', PyStr (iq_request_digest q))])"

lemma payload_fields:
  fixes fr s status rid sid base window request
  defines "p \<equiv> checkpoint_payload fr s status rid sid base window request"
  shows "dget p ''schema_version'' = PyInt 1" "dget p ''status'' = PyStr status" "dget p ''session_id'' = PyStr sid"
    "dget p ''source_run_id'' = PyStr (if rid = [] then ''kernel'' else rid)"
    "dget p ''provider'' = PyStr (str_or fr (dget (provider_state s) ''provider'') [])"
    "dget p ''model'' = PyStr (str_or fr (dget (provider_state s) ''model'') [])"
    "dget p ''iteration'' = PyInt (iteration s)" "dget p ''base_session_revision'' = opt_value PyInt base"
    "dget p ''transcript'' = PyList (transcript s)"
    "dget p ''pending_model_context'' = optional_list (next_model_input s)"
    "dget p ''replay_frame'' = replay_frame_from_state fr s" "dget p ''continuation'' = last_continuation s"
    "dget p ''human_input_request'' = human_input_request_value fr s"
    "dict_get p ''max_context_window_tokens'' = Some (PyInt window)"
    "dget p ''token_state'' = PyDict (map (\<lambda>k. (k, PyInt (token_value s k))) token_keys)"
    "dget p ''workspace_change_state'' = PyDict (workspace_change_state s)"
    "dget p ''interaction_ref'' = ref_of request"
  unfolding p_def by (cases request; simp add: checkpoint_payload_def dget_def ref_of_def)+

text \<open>When the checkpoint of a run state can be loaded again.\<close>

definition restorable :: "(rat \<Rightarrow> string) \<Rightarrow> run_state \<Rightarrow> string \<Rightarrow> bool" where
  "restorable fr s status \<longleftrightarrow>
     str_or fr (dget (provider_state s) ''provider'') [] \<noteq> [] \<and> 0 \<le> iteration s \<and>
     (case py_int (or_value (dget (provider_state s) ''max_context_window_tokens'') (PyInt 0)) of
        Inr w \<Rightarrow> 0 \<le> w | Inl e \<Rightarrow> False) \<and>
     list_all (\<lambda>k. 0 \<le> token_value s k) token_keys \<and>
     (case next_model_input s of None \<Rightarrow> True | Some ms \<Rightarrow> list_all is_dict ms) \<and>
     is_bool (vget (replay_frame_from_state fr s) ''complete'') \<and> is_list (vget (replay_frame_from_state fr s) ''items'') \<and>
     (status \<in> {''awaiting_human_input'', ''awaiting_interaction''} \<longrightarrow> is_dict (last_continuation s)) \<and>
     (status = ''awaiting_human_input'' \<longrightarrow> is_dict (human_input_request_value fr s)) \<and>
     (case base_revision s of None \<Rightarrow> True | Some n \<Rightarrow> 0 \<le> n)"

lemma frame_is_dict: "is_dict (replay_frame_from_state fr s)"
  by (simp add: replay_frame_from_state_def split: pyval.splits)

lemma token_value_lookup:
  "k \<in> set ks \<Longrightarrow> vget (PyDict (map (\<lambda>k. (k, PyInt (f k))) ks)) k = PyInt (f k)"
  by (induction ks) (auto simp: dget_def)

lemma wrap_interaction_Inr: "wrap_interaction mk m r = Inr v \<longleftrightarrow> r = Inr v"
  by (auto simp: wrap_interaction_def split: sum.splits)

lemma request_of_checkpoint:
  assumes "checkpoint_interaction_request sha fr s status rid sid base = Inr request"
  shows "\<And>q. request = Some q \<Longrightarrow> request_ok sha q \<and> iq_session_id q = sid \<and>
      iq_source_run_id q = (if rid = [] then ''kernel'' else rid) \<and> (base = None \<or> base = Some (iq_created_revision q))"
    and "status = ''awaiting_interaction'' \<Longrightarrow> request \<noteq> None"
proof -
  let ?raw = "vget (dget (suspend_state s) ''payload'') ''interaction_request''"
  consider (none) "status \<noteq> ''awaiting_interaction''" "request = None"
    | (some) q where "interaction_request_from_dict sha fr (Inr ?raw) = Inr q" "request = Some q" "iq_session_id q = sid"
        "iq_source_run_id q = (if rid = [] then ''kernel'' else rid)" "\<not> (base \<noteq> None \<and> base \<noteq> Some (iq_created_revision q))"
  proof (cases "?raw = PyNone")
    case True
    then show ?thesis
      using assms none unfolding checkpoint_interaction_request_def Let_def by (simp split: if_splits)
  next
    case False
    then show ?thesis
      using assms unfolding checkpoint_interaction_request_def Let_def if_not_P [OF False] bindr_eq_Inr wrap_interaction_Inr
        if_eq_Inr sum.inject not_not
      by - (elim exE conjE, rule some; (assumption | erule sym))
  qed
  note split = this
  show "\<And>q. request = Some q \<Longrightarrow> request_ok sha q \<and> iq_session_id q = sid \<and>
      iq_source_run_id q = (if rid = [] then ''kernel'' else rid) \<and> (base = None \<or> base = Some (iq_created_revision q))"
    by (cases rule: split) (auto dest: request_from_dict_ok)
  show "status = ''awaiting_interaction'' \<Longrightarrow> request \<noteq> None"
    by (cases rule: split) simp_all
qed

lemma status_cases: "status \<in> set checkpoint_statuses \<longleftrightarrow>
    status = ''max_iterations'' \<or> status = ''awaiting_human_input'' \<or> status = ''awaiting_interaction''"
  by (simp add: checkpoint_statuses_def)

lemma nat_value_PyInt [simp]: "nat_value (PyInt i) \<longleftrightarrow> 0 \<le> i"
  by (simp add: nat_value_def)

lemma ref_ok:
  assumes "\<And>q. request = Some q \<Longrightarrow> request_ok sha q"
  shows "\<not> (ref_of request \<noteq> PyNone \<and>
        (case ref_of request of PyDict d \<Rightarrow> set (dict_keys d) \<noteq> {''interaction_id'', ''request_digest''} | _ \<Rightarrow> True))"
    and "\<forall>k \<in> set [''interaction_id'', ''request_digest'']. ref_of request = PyNone \<or> nonempty_text (vget (ref_of request) k)"
    and "ref_of request = PyNone \<longleftrightarrow> request = None" "json_safe fr (ref_of request) = ref_of request"
proof (atomize (full), cases request)
  case (Some q)
  then have "iq_interaction_id q \<noteq> [] \<and> iq_request_digest q \<noteq> []"
    using assms [OF Some] unfolding request_ok_def stripped_def by fastforce
  then show "(\<not> (ref_of request \<noteq> PyNone \<and>
        (case ref_of request of PyDict d \<Rightarrow> set (dict_keys d) \<noteq> {''interaction_id'', ''request_digest''} | _ \<Rightarrow> True))) \<and>
    (\<forall>k \<in> set [''interaction_id'', ''request_digest'']. ref_of request = PyNone \<or> nonempty_text (vget (ref_of request) k)) \<and>
    (ref_of request = PyNone \<longleftrightarrow> request = None) \<and> json_safe fr (ref_of request) = ref_of request"
    by (simp add: Some ref_of_def dget_def nonempty_text_def)
qed (simp add: ref_of_def)

lemma safe_lookup: "dict_get (safe_dict fr d) k = map_option (json_safe fr) (dict_get d k)"
  by (induction d) auto

lemma shape_restorable:
  fixes fr s status rid sid base window request
  defines "p \<equiv> safe_dict fr (checkpoint_payload fr s status rid sid base window request)"
  assumes "status \<in> set checkpoint_statuses" "sid \<noteq> []"
    "\<And>q. request = Some q \<Longrightarrow> request_ok sha q" "status = ''awaiting_interaction'' \<Longrightarrow> request \<noteq> None"
    "py_int (or_value (dget (provider_state s) ''max_context_window_tokens'') (PyInt 0)) = Inr window" "base = base_revision s"
  shows "shape_ok fr (sealed sha fr p) \<longleftrightarrow> restorable fr s status"
proof -
  note free = payload_unsealed [of fr s status rid sid base window request, folded p_def]
  have field: "dget (sealed sha fr p) k = json_safe fr (dget (checkpoint_payload fr s status rid sid base window request) k)"
    if "k \<notin> seal_keys" for k
    using dget_sealed(1) [OF free that] by (simp add: p_def)
  have window: "dget_or (sealed sha fr p) ''max_context_window_tokens'' (PyInt 0) = PyInt window"
    using payload_fields(14) [of fr s status rid sid base window request]
    by (simp add: dget_or_def sealed_def p_def safe_lookup map_add_def)
  note ref = ref_ok(1-3) [where request = request and sha = sha, OF assms(4)]
    ref_ok(4) [where request = request and sha = sha and fr = fr, OF assms(4)]
  note f = payload_fields [of fr s status rid sid base window request]
  have fields: "dget (sealed sha fr p) ''schema_version'' = PyInt 1" "dget (sealed sha fr p) ''status'' = PyStr status"
    "dget (sealed sha fr p) ''session_id'' = PyStr sid" "dget (sealed sha fr p) ''transcript'' = json_safe fr (PyList (transcript s))"
    "dget (sealed sha fr p) ''provider'' = PyStr (str_or fr (dget (provider_state s) ''provider'') [])"
    "dget (sealed sha fr p) ''iteration'' = PyInt (iteration s)"
    "dget (sealed sha fr p) ''base_session_revision'' = json_safe fr (opt_value PyInt base)"
    "dget (sealed sha fr p) ''pending_model_context'' = json_safe fr (optional_list (next_model_input s))"
    "dget (sealed sha fr p) ''replay_frame'' = json_safe fr (replay_frame_from_state fr s)"
    "dget (sealed sha fr p) ''continuation'' = json_safe fr (last_continuation s)"
    "dget (sealed sha fr p) ''human_input_request'' = json_safe fr (human_input_request_value fr s)"
    "dget (sealed sha fr p) ''token_state'' = json_safe fr (PyDict (map (\<lambda>k. (k, PyInt (token_value s k))) token_keys))"
    "dget (sealed sha fr p) ''workspace_change_state'' = json_safe fr (PyDict (workspace_change_state s))"
    "dget (sealed sha fr p) ''interaction_ref'' = ref_of request"
    using ref(4) by (simp_all add: field f seal_keys_def)
  have tokens: "(\<forall>k \<in> set token_keys. nat_value (vget (json_safe fr (PyDict (map (\<lambda>k. (k, PyInt (token_value s k))) token_keys))) k))
      \<longleftrightarrow> list_all (\<lambda>k. 0 \<le> token_value s k) token_keys"
    unfolding vget_json_safe list_all_iff by (intro ball_cong refl) (simp only: token_value_lookup json_safe.simps nat_value_PyInt)
  have pending: "\<not> (json_safe fr (optional_list ms) \<noteq> PyNone \<and>
        (case json_safe fr (optional_list ms) of PyList ms \<Rightarrow> \<not> list_all is_dict ms | _ \<Rightarrow> True)) \<longleftrightarrow>
      (case ms of None \<Rightarrow> True | Some ms \<Rightarrow> list_all is_dict ms)" for ms
    by (cases ms) (simp_all add: optional_list_def list_all_iff)
  have base: "\<not> (json_safe fr (opt_value PyInt b) \<noteq> PyNone \<and> \<not> nat_value (json_safe fr (opt_value PyInt b))) \<longleftrightarrow>
      (case b of None \<Rightarrow> True | Some n \<Rightarrow> 0 \<le> n)" for b
    by (cases b) simp_all
  have one: "py_eq (PyInt 1) (PyInt 1)" by (subst py_eq.simps) simp
  have idok: "dget (sealed sha fr p) ''checkpoint_id'' = PyStr (CHR ''c'' # tl (''checkpoint_'' @ take 32 (stable_payload_digest sha fr (PyDict p))))"
    by (simp add: dget_sealed(2) [OF free])
  show ?thesis
    unfolding shape_ok_def check_shape_Inr check_waiting_Inr list.set ball_simps idok fields window tokens pending base
    using assms(2,3,5,6,7) ref frame_is_dict [of fr s]
    by (elim disjE [OF status_cases [THEN iffD1]] disjE; simp add: restorable_def nonempty_text_def one status_cases)
qed
lemma built_checkpoint_valid:
  assumes "build_execution_checkpoint sha fr s status rid = Inr c"
  shows "validate_execution_checkpoint sha fr (PyDict c) = Inr c \<longleftrightarrow> restorable fr s status"
proof -
  obtain request window where st: "status \<in> set checkpoint_statuses" "str_or fr (dget (session_state s) ''session_id'') [] \<noteq> []"
    and q: "checkpoint_interaction_request sha fr s status rid (str_or fr (dget (session_state s) ''session_id'') []) (base_revision s)
              = Inr (request :: interaction_request option)"
    and w: "py_int (or_value (dget (provider_state s) ''max_context_window_tokens'') (PyInt 0)) = Inr window"
    and c: "c = sealed sha fr (safe_dict fr (checkpoint_payload fr s status rid (str_or fr (dget (session_state s) ''session_id'') [])
                                         (base_revision s) window request))"
    using assms unfolding build_checkpoint_Inr by blast
  have "shape_ok fr c \<longleftrightarrow> restorable fr s status"
    unfolding c by (rule shape_restorable [OF st _ _ w refl]) (use request_of_checkpoint [OF q] in blast)+
  moreover have "validate_execution_checkpoint sha fr (PyDict c) = Inr c \<longleftrightarrow> shape_ok fr c"
    unfolding c by (subst validate_sealed [OF payload_unsealed]) simp_all
  ultimately show ?thesis by simp
qed

text \<open>
  C20: A checkpoint built from a run state is accepted on loading, as it is, exactly when the run state names
  a provider, its counters and its base revision are not negative, its pending context consists of messages,
  its replay frame has a flag and a list, and a waiting run has its continuation and its question.
\<close>
theorem built_checkpoint_is_accepted:
  assumes "build_execution_checkpoint sha fr s status rid = Inr c"
  shows "validate_execution_checkpoint sha fr (PyDict c) = Inr c \<longleftrightarrow> restorable fr s status"
  using assms by (rule built_checkpoint_valid)

lemma validated_seal:
  assumes "validate_execution_checkpoint sha fr (PyDict raw) = Inr c"
  shows "c = safe_dict fr raw" "dget c ''integrity'' = PyDict i \<Longrightarrow> dget i ''payload_sha256'' = PyStr (stable_payload_digest sha fr (PyDict (unsigned_payload c)))"
    "dget c ''checkpoint_id'' = PyStr (''checkpoint_'' @ take 32 (stable_payload_digest sha fr (PyDict (unsigned_payload c))))"
    "shape_ok fr c" "is_dict (dget c ''integrity'')"
proof -
  let ?digest = "stable_payload_digest sha fr (PyDict (unsigned_payload c))"
  have all: "check_shape fr c = Inr () \<and> check_waiting c = Inr () \<and>
      vget (dget c ''integrity'') ''algorithm'' = PyStr ''sha256'' \<and>
      vget (dget c ''integrity'') ''payload_sha256'' = PyStr ?digest \<and>
      dget c ''checkpoint_id'' = PyStr (''checkpoint_'' @ take 32 ?digest) \<and> c = safe_dict fr raw"
    using assms
    unfolding validate_execution_checkpoint_def json_safe.simps pyval.case is_dict.simps not_True_eq_False if_False Let_def
      bindr_eq_Inr if_eq_Inr sum.inject not_not
    by (elim exE conjE) (intro conjI; (assumption | erule sym | simp))
  then show "c = safe_dict fr raw" "dget c ''checkpoint_id'' = PyStr (''checkpoint_'' @ take 32 ?digest)" "shape_ok fr c"
    unfolding shape_ok_def by - (elim conjE, assumption, elim conjE, assumption, elim conjE, intro conjI, assumption+)
  from all have sum: "vget (dget c ''integrity'') ''payload_sha256'' = PyStr ?digest" by (elim conjE)
  then show "dget c ''integrity'' = PyDict i \<Longrightarrow> dget i ''payload_sha256'' = PyStr ?digest" by simp
  show "is_dict (dget c ''integrity'')" using sum by (cases "dget c ''integrity''") simp_all
qed

lemma unsigned_field: "k \<notin> seal_keys \<Longrightarrow> dict_get (unsigned_payload c) k = dict_get c k"
  by (induction c) (auto simp: unsigned_payload_def seal_keys_def)

lemma unsigned_safe: "safe_dict fr (unsigned_payload (safe_dict fr d)) = unsigned_payload (safe_dict fr d)"
  by (induction d) (auto simp: unsigned_payload_def)

text \<open>The bytes whose digest seals a checkpoint.\<close>

definition sealed_payload :: "(rat \<Rightarrow> string) \<Rightarrow> pydict \<Rightarrow> blob" where
  "sealed_payload fr c = canonical_json_bytes (json_safe fr (PyDict (unsigned_payload c)))"

lemma same_payload_fields:
  assumes "canonical_json_bytes (PyDict (unsigned_payload c)) = canonical_json_bytes (PyDict (unsigned_payload d))" "k \<notin> seal_keys"
  shows "canonical (dget c k) = canonical (dget d k)"
proof -
  have "canon_dict (unsigned_payload c) = canon_dict (unsigned_payload d)"
    using assms(1) by (simp add: canonical_json_bytes_def canonical_PyDict)
  then have "map_option canonical (dict_get c k) = map_option canonical (dict_get d k)"
    using unsigned_field [OF assms(2)] by (metis dict_get_canon)
  then show ?thesis by (cases "dict_get c k"; cases "dict_get d k") (fastforce simp: dget_def)+
qed

text \<open>
  C19: A checkpoint cannot be altered under its seal: if an object carries the integrity record of a checkpoint that
  loads, but differs from it in any other field (by more than the order of keys inside it), then it is refused,
  provided the digest function tells the sealed bytes of these two objects apart when they differ.
\<close>
theorem altered_checkpoint_is_refused:
  assumes "validate_execution_checkpoint sha fr (PyDict a) = Inr c"
    and "dget b ''integrity'' = dget a ''integrity''"
    and "k \<noteq> ''integrity''" "canonical (dget (safe_dict fr b) k) \<noteq> canonical (dget c k)"
    and "sealed_payload fr (safe_dict fr b) \<noteq> sealed_payload fr c \<Longrightarrow>
      sha (sealed_payload fr (safe_dict fr b)) \<noteq> sha (sealed_payload fr c)"
  shows "\<exists>e. validate_execution_checkpoint sha fr (PyDict b) = Inl e"
proof (rule ccontr)
  assume "\<not> ?thesis"
  then obtain d where loads: "validate_execution_checkpoint sha fr (PyDict b) = Inr d"
    by (cases "validate_execution_checkpoint sha fr (PyDict b)") auto
  note c = validated_seal [OF assms(1)] and d = validated_seal [OF loads]
  have same: "dget c ''integrity'' = dget d ''integrity''"
    using assms(2) by (simp add: c(1) d(1))
  obtain i where i: "dget c ''integrity'' = PyDict i" using c(5) by (cases "dget c ''integrity''") simp_all
  then have digests: "stable_payload_digest sha fr (PyDict (unsigned_payload c)) = stable_payload_digest sha fr (PyDict (unsigned_payload d))"
    using c(2) [OF i] d(2) [of i] same by simp
  then have "sealed_payload fr d = sealed_payload fr c"
    using assms(5) by (auto simp: stable_payload_digest_def sealed_payload_def d(1))
  then have "canonical_json_bytes (PyDict (unsigned_payload d)) = canonical_json_bytes (PyDict (unsigned_payload c))"
    by (simp add: sealed_payload_def c(1) d(1) unsigned_safe)
  from same_payload_fields [OF this, of k] have "k \<in> seal_keys" using assms(4) d(1) by auto
  then have "k = ''checkpoint_id''" using assms(3) by (auto simp: seal_keys_def)
  moreover have "dget c ''checkpoint_id'' = dget d ''checkpoint_id''" by (simp only: c(3) d(3) digests)
  ultimately show False using assms(4) d(1) by simp
qed

subsection \<open>Filing and settling interactions\<close>

lemma pending_is_active:
  assumes "journal_ok sha j" "dict_get (ij_entries j) i = Some e" "ie_application e = None"
  shows "ij_active_id j = Some i"
proof -
  have "i \<in> set (pending_ids (ij_entries j))"
    using assms(2,3) by (force simp: pending_ids_def dest: map_of_SomeD)
  then show ?thesis using assms(1) by (auto simp: journal_ok_def split: option.splits)
qed

lemma active_is_pending:
  assumes "journal_inv sha j" "ij_active_id j = Some i"
  obtains e where "dict_get (ij_entries j) i = Some e" "ie_application e = None"
proof -
  have "i \<in> set (pending_ids (ij_entries j))" using assms by (simp add: journal_inv_def journal_ok_def)
  then obtain e where "(i, e) \<in> set (ij_entries j)" "ie_application e = None" by (auto simp: pending_ids_def)
  then show thesis using that assms(1) by (auto simp: journal_inv_def dict_wf_def)
qed

text \<open>The entry of an interaction after its receipt was applied at a checkpoint.\<close>

definition settled_entry :: "interaction_receipt \<Rightarrow> string \<Rightarrow> ix_entry \<Rightarrow> ix_entry" where
  "settled_entry rc cid e = e\<lparr>ie_application := Some \<lparr>ia_receipt_id = ic_receipt_id rc, ia_applied_checkpoint_id = py_strip cid\<rparr>\<rparr>"

lemma mark_own_receipt:
  assumes inv: "journal_inv sha j"
    and "mark_interaction_applied sha fr (PyStr i) (PyStr (ic_receipt_id rc)) (PyStr cid) (journal_dict j) = Inr k"
    and e: "dict_get (ij_entries j) i = Some e" "ie_receipt e = Some rc" and i: "py_strip i = i"
  shows "ix_reach sha fr j k" "dict_get (ij_entries k) i = Some (settled_entry rc cid e)"
    "ie_application e = None \<Longrightarrow> ij_active_id k = None" "\<And>i'. i' \<noteq> i \<Longrightarrow> dict_get (ij_entries k) i' = dict_get (ij_entries j) i'"
proof -
  have call: "ix_call sha fr (Apply (PyStr i) (PyStr (ic_receipt_id rc)) (PyStr cid)) (journal_dict j) = Inr k"
    using assms(2) by simp
  show "ix_reach sha fr j k" using ix_step [OF ix_start call] .
  have strips: "ix_required_text n (PyStr s) = Inr t \<Longrightarrow> t = py_strip s" for n s t
    by (simp add: ix_required_text_Inr)
  have "ie_application e = Some \<lparr>ia_receipt_id = r, ia_applied_checkpoint_id = t\<rparr> \<Longrightarrow> r = ic_receipt_id rc" for r t
    using entry_ok_get [of sha j i e] inv e by (auto simp: journal_inv_def entry_ok_def application_ok_def)
  moreover have "(\<exists>r t. r = py_strip (ic_receipt_id rc) \<and> t = py_strip cid \<and>
      ((ie_application e = Some \<lparr>ia_receipt_id = r, ia_applied_checkpoint_id = t\<rparr> \<and> k = j) \<or>
        (ie_application e = None \<and> ic_receipt_id rc = r \<and> k = applied i \<lparr>ia_receipt_id = r, ia_applied_checkpoint_id = t\<rparr> e j)))"
    using assms(2) unfolding mark_effect [OF inv]
  proof (elim exE conjE)
    fix a r t e'
    assume a: "ix_required_text ''interaction_id'' (PyStr i) = Inr a" "ix_required_text ''receipt_id'' (PyStr (ic_receipt_id rc)) = Inr r"
      "ix_required_text ''applied_checkpoint_id'' (PyStr cid) = Inr t" "dict_get (ij_entries j) a = Some e'"
      and how: "ie_application e' = Some \<lparr>ia_receipt_id = r, ia_applied_checkpoint_id = t\<rparr> \<and> k = j \<or>
        ie_application e' = None \<and> ij_active_id j = Some a \<and> (\<exists>c. ie_receipt e' = Some c \<and> ic_receipt_id c = r) \<and>
        k = applied a \<lparr>ia_receipt_id = r, ia_applied_checkpoint_id = t\<rparr> e' j"
    have "a = i" using strips [OF a(1)] i by simp
    then have "e' = e" using a(4) e(1) by simp
    then show ?thesis using how e(2) \<open>a = i\<close> strips [OF a(2)] strips [OF a(3)] by auto
  qed
  ultimately show "dict_get (ij_entries k) i = Some (settled_entry rc cid e)"
    "ie_application e = None \<Longrightarrow> ij_active_id k = None" "\<And>i'. i' \<noteq> i \<Longrightarrow> dict_get (ij_entries k) i' = dict_get (ij_entries j) i'"
    using e(1) by (auto simp: settled_entry_def applied_def)
qed

lemma entry_id_stripped: "\<lbrakk>journal_inv sha j; dict_get (ij_entries j) i = Some e\<rbrakk> \<Longrightarrow> py_strip i = i"
  using entry_ok_get [of sha j i e] by (auto simp: journal_inv_def entry_ok_def dest: request_ok_text)

lemma settle_prior_effect:
  assumes "journal_inv sha j" "ij_active_id j = Some a" "settle_prior_interaction sha fr session c a j = Inr k"
  obtains e rc where "dict_get (ij_entries j) a = Some e" "ie_receipt e = Some rc" "ix_reach sha fr j k"
    "dict_get (ij_entries k) a = Some (settled_entry rc (str_or fr (dget c ''checkpoint_id'') []) e)" "ij_active_id k = None"
    "\<And>i. i \<noteq> a \<Longrightarrow> dict_get (ij_entries k) i = dict_get (ij_entries j) i"
proof -
  obtain e where e: "dict_get (ij_entries j) a = Some e" "ie_application e = None"
    using assms(1,2) by (rule active_is_pending)
  obtain rc where rc: "ie_receipt e = Some rc"
    and mark: "mark_interaction_applied sha fr (PyStr a) (PyStr (ic_receipt_id rc))
        (PyStr (str_or fr (dget c ''checkpoint_id'') [])) (journal_dict j) = Inr k"
    using assms(3) unfolding settle_prior_interaction_def bindr_eq_Inr e(1)
    by (auto simp: wrap_interaction_Inr split: option.splits if_splits)
  note marked = mark_own_receipt [OF assms(1) mark e(1) rc entry_id_stripped [OF assms(1) e(1)]]
  show thesis by (rule that [OF e(1) rc marked(1,2) marked(3) [OF e(2)] marked(4)])
qed

text \<open>What registering at a checkpoint does to the journal of the session.\<close>

lemma register_checkpoint_effect:
  assumes j: "validate_interaction_journal sha fr (dget session journal_key) = Inr j" "journal_inv sha j"
    and reg: "register_checkpoint_interaction_request sha fr c x session = Inr session'"
  obtains q k e where "interaction_request_from_dict sha fr x = Inr q" "validate_checkpoint_request_binding c q = Inr ()"
    "session' = dict_set journal_key (journal_dict k) session" "ix_reach sha fr j k"
    "ij_active_id k = Some (iq_interaction_id q)" "dict_get (ij_entries k) (iq_interaction_id q) = Some e"
    "ie_checkpoint_id e = py_strip (str_or fr (dget c ''checkpoint_id'') [])" "ie_application e = None"
    "ie_request e = q \<or> py_eq (interaction_request_to_dict (ie_request e)) (interaction_request_to_dict q)"
    "\<And>a. \<lbrakk>ij_active_id j = Some a; a \<noteq> iq_interaction_id q\<rbrakk> \<Longrightarrow> \<exists>old rc. dict_get (ij_entries j) a = Some old \<and>
        ie_receipt old = Some rc \<and>
        dict_get (ij_entries k) a = Some (settled_entry rc (str_or fr (dget c ''checkpoint_id'') []) old)"
proof -
  let ?cid = "str_or fr (dget c ''checkpoint_id'') []"
  obtain q j' k where q: "interaction_request_from_dict sha fr x = Inr q" "validate_checkpoint_request_binding c q = Inr ()"
    and prior: "(case ij_active_id j of None \<Rightarrow> Inr j
            | Some a \<Rightarrow> if a = iq_interaction_id q then Inr j else settle_prior_interaction sha fr session c a j) = Inr j'"
    and fresh: "\<not> (\<exists>e \<in> set_option (dict_get (ij_entries j') (iq_interaction_id q)). ie_application e \<noteq> None)"
    and call: "register_interaction_request sha fr (Inl q) (PyStr ?cid) (journal_dict j') = Inr k"
    and new: "session' = dict_set journal_key (journal_dict k) session"
    using reg unfolding register_checkpoint_interaction_request_def bindr_eq_Inr [of "wrap_interaction a b c" for a b c]
      bindr_eq_Inr wrap_interaction_Inr if_eq_Inr j(1) sum.inject
    by (auto simp: bindr_eq_Inr if_eq_Inr wrap_interaction_Inr simp del: not_None_eq)
  have j': "ix_reach sha fr j j'" "\<And>a. \<lbrakk>ij_active_id j = Some a; a \<noteq> iq_interaction_id q\<rbrakk> \<Longrightarrow> ij_active_id j' = None \<and>
      (\<exists>old rc. dict_get (ij_entries j) a = Some old \<and> ie_receipt old = Some rc \<and>
        dict_get (ij_entries j') a = Some (settled_entry rc ?cid old))"
    "ij_active_id j = None \<or> ij_active_id j = Some (iq_interaction_id q) \<Longrightarrow> j' = j"
    using prior by (auto simp: ix_start split: option.splits if_splits elim!: settle_prior_effect [OF j(2)])
  have inv': "journal_inv sha j'" using reach_inv [OF j'(1) j(2)] .
  have reach: "ix_reach sha fr j k"
    using ix_step [OF j'(1), of "Register (Inl q) (PyStr ?cid)" k] call by simp
  have same: "q' = q" if "interaction_request_from_dict sha fr (Inl q) = Inr q'" for q'
    using that request_from_dict_record [OF request_from_dict_ok [OF q(1)], of fr] by simp
  have effect: "(\<exists>e. dict_get (ij_entries j') (iq_interaction_id q) = Some e \<and> ie_checkpoint_id e = py_strip ?cid \<and>
        py_eq (interaction_request_to_dict (ie_request e)) (interaction_request_to_dict q) \<and> k = j') \<or>
      (dict_get (ij_entries j') (iq_interaction_id q) = None \<and> k = registered q (py_strip ?cid) j')"
    using call unfolding register_effect [OF inv'] by (auto simp: ix_required_text_Inr dest!: same)
  then obtain e where e: "dict_get (ij_entries k) (iq_interaction_id q) = Some e" "ie_checkpoint_id e = py_strip ?cid"
      "ie_application e = None" "ie_request e = q \<or> py_eq (interaction_request_to_dict (ie_request e)) (interaction_request_to_dict q)"
    using fresh by (auto simp: registered_def fresh_entry_def)
  have kinv: "journal_inv sha k" using reach_inv [OF reach j(2)] .
  have active: "ij_active_id k = Some (iq_interaction_id q)"
    using pending_is_active [OF _ e(1,3), of sha] kinv by (simp add: journal_inv_def)
  have others: "dict_get (ij_entries k) a = dict_get (ij_entries j') a" if "a \<noteq> iq_interaction_id q" for a
    using effect that by (auto simp: registered_def)
  show thesis
    by (rule that [OF q new reach active e]) (use j'(2) others in auto)
qed

lemma apply_checkpoint_effect:
  assumes j: "validate_interaction_journal sha fr (dget session journal_key) = Inr j" "journal_inv sha j"
    and app: "apply_checkpoint_interaction_receipt sha fr c cid session = Inr (session', b)"
  obtains (absent) "dget c ''interaction_ref'' = PyNone" "session' = session" "\<not> b"
    | (done_now) d e rc k where "dget c ''interaction_ref'' = PyDict d" b
      "dict_get (ij_entries j) (str_or fr (dget d ''interaction_id'') []) = Some e" "ie_receipt e = Some rc"
      "dget c ''checkpoint_id'' = PyStr (ie_checkpoint_id e)" "session' = dict_set journal_key (journal_dict k) session"
      "ix_reach sha fr j k" "dict_get (ij_entries k) (str_or fr (dget d ''interaction_id'') []) = Some (settled_entry rc cid e)"
      "ie_application e = None \<Longrightarrow> ij_active_id k = None"
proof (cases "dget c ''interaction_ref'' = PyNone")
  case True
  then show thesis using app absent by (simp add: apply_checkpoint_interaction_receipt_def)
next
  case False
  let ?i = "str_or fr (vget (dget c ''interaction_ref'') ''interaction_id'') []"
  have "is_dict (dget c ''interaction_ref'')"
    using app False unfolding apply_checkpoint_interaction_receipt_def Let_def if_not_P [OF False] j(1)
    by (simp add: wrap_interaction_def split: if_splits)
  then obtain d where d: "dget c ''interaction_ref'' = PyDict d" by (cases "dget c ''interaction_ref''") simp_all
  obtain e rc k where e: "dict_get (ij_entries j) ?i = Some e" "ie_receipt e = Some rc"
    and ids: "dget c ''checkpoint_id'' = PyStr (ie_checkpoint_id e)"
    and mark: "mark_interaction_applied sha fr (PyStr ?i) (PyStr (ic_receipt_id rc)) (PyStr cid) (journal_dict j) = Inr k"
    and new: "session' = dict_set journal_key (journal_dict k) session" b
    using app unfolding apply_checkpoint_interaction_receipt_def Let_def if_not_P [OF False] j(1) d is_dict.simps vget.simps
      bindr_eq_Inr wrap_interaction_Inr if_eq_Inr sum.inject not_True_eq_False
    by (auto simp: bindr_eq_Inr if_eq_Inr wrap_interaction_Inr split: option.splits)
  note marked = mark_own_receipt [OF j(2) mark e entry_id_stripped [OF j(2) e(1)]]
  show thesis by (rule done_now [OF d new(2) _ e(2) ids new(1) marked(1)]) (use e(1) marked(2,3) d in simp_all)
qed

text \<open>
  C23: Filing a checkpoint that waits for an interaction never drops one that is unanswered: after it the
  journal of the session is accepted, the filed request is the active one and bound to the checkpoint, and
  every other interaction the journal had was answered, is still there with its request and answer, and has
  its answer applied.
\<close>
theorem filing_keeps_unanswered_interactions:
  assumes "validate_interaction_journal sha fr (dget session journal_key) = Inr j" "value_wf (dget session journal_key)"
    and "register_checkpoint_interaction_request sha fr c x session = Inr session'"
  shows "\<exists>q k e. interaction_request_from_dict sha fr x = Inr q \<and>
    validate_interaction_journal sha fr (dget session' journal_key) = Inr k \<and> ij_active_id k = Some (iq_interaction_id q) \<and>
    dict_get (ij_entries k) (iq_interaction_id q) = Some e \<and> ie_application e = None \<and>
    ie_checkpoint_id e = py_strip (str_or fr (dget c ''checkpoint_id'') []) \<and>
    (\<forall>i old. dict_get (ij_entries j) i = Some old \<and> i \<noteq> iq_interaction_id q \<longrightarrow>
      ie_receipt old \<noteq> None \<and> (\<exists>now. dict_get (ij_entries k) i = Some now \<and> entry_grows old now \<and> ie_application now \<noteq> None))"
proof -
  have inv: "journal_inv sha j" using assms(1,2) by (rule validated_inv)
  obtain q k e where q: "interaction_request_from_dict sha fr x = Inr q"
    and new: "session' = dict_set journal_key (journal_dict k) session" and reach: "ix_reach sha fr j k"
    and active: "ij_active_id k = Some (iq_interaction_id q)" "dict_get (ij_entries k) (iq_interaction_id q) = Some e"
      "ie_checkpoint_id e = py_strip (str_or fr (dget c ''checkpoint_id'') [])" "ie_application e = None"
    and prior: "\<And>a. \<lbrakk>ij_active_id j = Some a; a \<noteq> iq_interaction_id q\<rbrakk> \<Longrightarrow> \<exists>old rc. dict_get (ij_entries j) a = Some old \<and>
        ie_receipt old = Some rc \<and>
        dict_get (ij_entries k) a = Some (settled_entry rc (str_or fr (dget c ''checkpoint_id'') []) old)"
    using register_checkpoint_effect [OF assms(1) inv assms(3)] by metis
  have kinv: "journal_inv sha k" using reach inv by (rule reach_inv)
  have "ie_receipt old \<noteq> None \<and> (\<exists>now. dict_get (ij_entries k) i = Some now \<and> entry_grows old now \<and> ie_application now \<noteq> None)"
    if old: "dict_get (ij_entries j) i = Some old" and other: "i \<noteq> iq_interaction_id q" for i old
  proof -
    obtain now where now: "dict_get (ij_entries k) i = Some now" "entry_grows old now"
      using reach_keeps_entries [OF reach inv old] by blast
    moreover have "ie_application now \<noteq> None"
      using pending_is_active [of sha k i now] kinv now(1) active(1) other by (auto simp: journal_inv_def)
    moreover have "ie_receipt old \<noteq> None"
    proof (cases "ie_application old")
      case None
      then have "ij_active_id j = Some i" using pending_is_active [OF _ old, of sha] inv by (simp add: journal_inv_def)
      from prior [OF this other] old show ?thesis by auto
    next
      case (Some a)
      then show ?thesis using entry_ok_get [of sha j i old] inv old
        by (auto simp: journal_inv_def entry_ok_def split: option.splits)
    qed
    ultimately show ?thesis by blast
  qed
  moreover have "validate_interaction_journal sha fr (dget session' journal_key) = Inr k"
    using kinv by (simp add: new dget_def journal_trip journal_inv_def)
  ultimately show ?thesis using q active by blast
qed

subsection \<open>Merging transcripts\<close>

definition prompt_ok :: "pyval \<Rightarrow> bool" where
  "prompt_ok m \<longleftrightarrow> is_dict m \<and> hashable (vget m ''role'')"

definition is_prompt :: "pyval \<Rightarrow> bool" where
  "is_prompt m \<longleftrightarrow> vget m ''role'' \<in> {PyStr ''system'', PyStr ''developer''}"

lemma is_prompt_message_Inr: "is_prompt_message m = Inr b \<longleftrightarrow> prompt_ok m \<and> b = is_prompt m"
  by (auto simp: is_prompt_message_def in_text_set_def prompt_ok_def is_prompt_def)

lemma split_prompt_Inr:
  "split_prompt ms = Inr (xs, ys) \<longleftrightarrow> list_all prompt_ok ms \<and> xs = filter is_prompt ms \<and> ys = filter (\<lambda>m. \<not> is_prompt m) ms"
proof (induction ms arbitrary: xs ys)
  case (Cons m ms)
  show ?case
    by (auto simp: bindr_eq_Inr is_prompt_message_Inr Cons.IH split: if_splits)
qed auto

text \<open>
  Continuing from a checkpoint keeps all of it: the merged conversation is the instructions of the
  checkpoint, its other messages in their order, then the new messages in theirs; new instructions are
  accepted only when they repeat those of the checkpoint, or its first one, and are not added again.
\<close>
theorem merged_transcript_keeps_both:
  "merge_checkpoint_transcript_with_incoming stored incoming = Inr ms \<longleftrightarrow>
    list_all prompt_ok (stored @ incoming) \<and>
    (filter is_prompt incoming = [] \<or>
     py_eq (PyList (prompt_projection (filter is_prompt incoming))) (PyList (prompt_projection (filter is_prompt stored))) \<or>
     (\<exists>m s. filter is_prompt incoming = [m] \<and> s \<in> set (take 1 (filter is_prompt stored)) \<and>
        py_eq (hd (prompt_projection [m])) (hd (prompt_projection [s])))) \<and>
    ms = filter is_prompt stored @ filter (\<lambda>m. \<not> is_prompt m) stored @ filter (\<lambda>m. \<not> is_prompt m) incoming"
proof -
  have lead: "(length (prompt_projection xs) = 1 \<and> prompt_projection ys \<noteq> [] \<and> py_eq (hd (prompt_projection xs)) (hd (prompt_projection ys))) \<longleftrightarrow>
      (\<exists>m s. xs = [m] \<and> s \<in> set (take 1 ys) \<and> py_eq (hd (prompt_projection [m])) (hd (prompt_projection [s])))" for xs ys
    by (cases xs; cases ys) (auto simp: prompt_projection_def)
  have "merge_checkpoint_transcript_with_incoming stored incoming = Inr ms \<longleftrightarrow>
    list_all prompt_ok stored \<and> list_all prompt_ok incoming \<and>
    \<not> (filter is_prompt incoming \<noteq> [] \<and>
       \<not> py_eq (PyList (prompt_projection (filter is_prompt incoming))) (PyList (prompt_projection (filter is_prompt stored))) \<and>
       \<not> (length (prompt_projection (filter is_prompt incoming)) = 1 \<and> prompt_projection (filter is_prompt stored) \<noteq> [] \<and>
          py_eq (hd (prompt_projection (filter is_prompt incoming))) (hd (prompt_projection (filter is_prompt stored))))) \<and>
    filter is_prompt stored @ filter (\<lambda>m. \<not> is_prompt m) stored @ filter (\<lambda>m. \<not> is_prompt m) incoming = ms"
    unfolding merge_checkpoint_transcript_with_incoming_def bindr_eq_Inr split_paired_Ex split_prompt_Inr prod.case Let_def
      if_eq_Inr sum.inject
    by (simp only: simp_thms ex_simps conj_assoc)
  then show ?thesis unfolding lead list_all_append by blast
qed

subsection \<open>A worked example\<close>

definition ck_run :: run_state where
  "ck_run = new_run_state\<lparr>provider_state := [(''provider'', PyStr ''openai'')], session_state := [(''session_id'', PyStr ''s'')],
     transcript := [PyDict [(''role'', PyStr ''user''), (''content'', PyStr ''hi'')]]\<rparr>"

lemma ck_run_built:
  "\<exists>c. build_execution_checkpoint flat_sha (\<lambda>_. []) ck_run ''max_iterations'' ''run'' = Inr c"
proof -
  have "''max_iterations'' \<in> set checkpoint_statuses" "str_or (\<lambda>_. []) (dget (session_state ck_run) ''session_id'') [] \<noteq> []" by code_simp+
  moreover have "checkpoint_interaction_request flat_sha (\<lambda>_. []) ck_run ''max_iterations'' ''run''
      (str_or (\<lambda>_. []) (dget (session_state ck_run) ''session_id'') []) (base_revision ck_run) = Inr None" by code_simp
  moreover have "py_int (or_value (dget (provider_state ck_run) ''max_context_window_tokens'') (PyInt 0)) = Inr 0" by code_simp
  ultimately show ?thesis unfolding build_checkpoint_Inr by blast
qed

lemma ck_run_restorable: "restorable (\<lambda>_. []) ck_run ''max_iterations''"
  by code_simp

theorem built_checkpoint_is_accepted_witness:
  "\<exists>c. build_execution_checkpoint flat_sha (\<lambda>_. []) ck_run ''max_iterations'' ''run'' = Inr c \<and>
    validate_execution_checkpoint flat_sha (\<lambda>_. []) (PyDict c) = Inr c"
  using ck_run_built built_checkpoint_is_accepted [of flat_sha "\<lambda>_. []" ck_run "''max_iterations''" "''run''"] ck_run_restorable by blast

lemma ck_run_valid: "\<exists>c. validate_execution_checkpoint flat_sha (\<lambda>_. []) (PyDict c) = Inr c"
  using ck_run_built built_checkpoint_valid [of flat_sha "\<lambda>_. []" ck_run "''max_iterations''" "''run''"] ck_run_restorable by blast

text \<open>A checkpoint whose transcript was emptied under its seal, and a digest that tells the two apart.\<close>

definition transcript_sha :: "blob \<Rightarrow> string" where
  "transcript_sha b = (case b of
       Canon (PyDict d) \<Rightarrow> (case dget d ''transcript'' of PyList [] \<Rightarrow> replicate 64 CHR ''0'' | _ \<Rightarrow> replicate 64 CHR ''1'')
     | _ \<Rightarrow> replicate 64 CHR ''0'')"

definition ck_of_run :: pydict where
  "ck_of_run = (case build_execution_checkpoint transcript_sha (\<lambda>_. []) ck_run ''max_iterations'' ''run'' of Inr c \<Rightarrow> c | Inl _ \<Rightarrow> [])"

definition ck_emptied :: pydict where
  "ck_emptied = dict_set ''transcript'' (PyList []) ck_of_run"

lemma ck_emptied_differs:
  "validate_execution_checkpoint transcript_sha (\<lambda>_. []) (PyDict ck_of_run) = Inr ck_of_run"
  "dget ck_emptied ''integrity'' = dget ck_of_run ''integrity''"
  "''transcript'' \<noteq> ''integrity''"
  "canonical (dget (safe_dict (\<lambda>_. []) ck_emptied) ''transcript'') \<noteq> canonical (dget ck_of_run ''transcript'')"
  "transcript_sha (sealed_payload (\<lambda>_. []) (safe_dict (\<lambda>_. []) ck_emptied)) \<noteq> transcript_sha (sealed_payload (\<lambda>_. []) ck_of_run)"
  by code_simp+

theorem altered_checkpoint_is_refused_witness:
  "validate_execution_checkpoint transcript_sha (\<lambda>_. []) (PyDict ck_of_run) = Inr ck_of_run \<and>
   (\<exists>e. validate_execution_checkpoint transcript_sha (\<lambda>_. []) (PyDict ck_emptied) = Inl e)"
  using altered_checkpoint_is_refused [OF ck_emptied_differs(1-4)] ck_emptied_differs by blast

definition ask_checkpoint :: pydict where
  "ask_checkpoint = [(''checkpoint_id'', PyStr ''c''), (''session_id'', PyStr ''s''), (''source_run_id'', PyStr ''run''),
     (''interaction_ref'', PyDict [(''interaction_id'', PyStr (iq_interaction_id ask_request)),
        (''request_digest'', PyStr (iq_request_digest ask_request))])]"

lemma ask_filed:
  "register_checkpoint_interaction_request flat_sha (\<lambda>_. []) ask_checkpoint (Inl ask_request) [] = Inr [(journal_key, journal_dict ask_journal)]"
proof -
  have "validate_checkpoint_request_binding ask_checkpoint ask_request = Inr ()" by code_simp
  moreover have "str_or (\<lambda>_. []) (dget ask_checkpoint ''checkpoint_id'') [] = ''c''" by code_simp
  moreover have "validate_interaction_journal flat_sha (\<lambda>_. []) (dget [] journal_key) = Inr new_interaction_journal"
    by (simp add: validate_interaction_journal_def dget_def)
  ultimately show ?thesis
    using register_new(1) [OF new_journal_inv ask_request_ok ask_cid(1) ask_new, of "\<lambda>_. []"]
      request_from_dict_record [OF ask_request_ok, of "\<lambda>_. []"]
    by (simp add: register_checkpoint_interaction_request_def wrap_interaction_def ask_new ask_journal_def)
qed

theorem filing_keeps_unanswered_interactions_witness:
  "\<exists>k. validate_interaction_journal flat_sha (\<lambda>_. []) (dget [(journal_key, journal_dict ask_journal)] journal_key) = Inr k \<and>
    ij_active_id k = Some (iq_interaction_id ask_request)"
proof -
  have "validate_interaction_journal flat_sha (\<lambda>_. []) (dget [] journal_key) = Inr new_interaction_journal" "value_wf (dget [] journal_key)"
    by (simp_all add: validate_interaction_journal_def dget_def)
  from filing_keeps_unanswered_interactions [OF this ask_filed] request_from_dict_record [OF ask_request_ok, of "\<lambda>_. []"]
  show ?thesis by auto
qed

end
