(* ===== verification/CheckpointRuntime.thy ===== *)
theory CheckpointRuntime
  imports Checkpoints SessionRevision
begin

section \<open>Checkpoints in a shared session store\<close>

text \<open>
  The checkpoint operations of \<open>KernelMemoryRuntime\<close> (\<open>memory/runtime.py\<close>). An operation makes several
  calls to a store that other workers use at the same time: it loads the session, computes a new state from
  what it loaded, and writes it back if the revision is still the one it loaded. A store is a record of
  optional methods, as in the capability checks of the source; the methods seen by the \<open>n\<close>-th call of an
  operation (with what they read from the clock) are \<open>store_at env n\<close>, and \<open>others env n\<close> is what other
  workers did to the store just before it. An operation maps the number of the next call and the store to a
  result, the number and the store it leaves behind.

  This theory has the operations; \<open>RuntimeSafety\<close> has their triples under interference, and \<open>SessionWorld\<close>
  the theorems for the in-memory store.
\<close>

subsection \<open>Calls to the store\<close>

datatype mem_exc = FromStore exec_exc | Raised py_exc

type_synonym ('s, 'a) rt = "nat \<times> 's \<Rightarrow> (mem_exc, 'a) res \<times> (nat \<times> 's)"

definition rt_ret :: "'a \<Rightarrow> ('s, 'a) rt" where
  "rt_ret v w = (Inr v, w)"

definition rt_raise :: "mem_exc \<Rightarrow> ('s, 'a) rt" where
  "rt_raise e w = (Inl e, w)"

definition rt_bind :: "('s, 'a) rt \<Rightarrow> ('a \<Rightarrow> ('s, 'b) rt) \<Rightarrow> ('s, 'b) rt" where
  "rt_bind m f w = (case m w of (Inl e, w') \<Rightarrow> (Inl e, w') | (Inr v, w') \<Rightarrow> f v w')"

text \<open>\<open>try ... except\<close>: the handler sees the exception and the store as the failed call left it.\<close>

definition rt_catch :: "('s, 'a) rt \<Rightarrow> (mem_exc \<Rightarrow> ('s, 'a) rt) \<Rightarrow> ('s, 'a) rt" where
  "rt_catch m h w = (case m w of (Inl e, w') \<Rightarrow> h e w' | (Inr v, w') \<Rightarrow> (Inr v, w'))"

text \<open>A computation that does not touch the store.\<close>

definition rt_res :: "(mem_exc, 'a) res \<Rightarrow> ('s, 'a) rt" where
  "rt_res r w = (r, w)"

definition from_py :: "(py_exc, 'a) res \<Rightarrow> (mem_exc, 'a) res" where
  "from_py r = map_sum Raised id r"

definition rt_pure :: "(py_exc, 'a) res \<Rightarrow> ('s, 'a) rt" where
  "rt_pure r = rt_res (from_py r)"

record 's runtime_store =
  rs_sessions :: "'s session_object"
  rs_verify_lease :: "(string \<Rightarrow> string \<Rightarrow> int \<Rightarrow> 's \<Rightarrow> (exec_exc, execution_lease) res \<times> 's) option"
  rs_load_cancellation :: "(string \<Rightarrow> string \<Rightarrow> 's \<Rightarrow> (exec_exc, execution_cancellation option) res \<times> 's) option"
  rs_save_not_cancelled ::
    "(string \<Rightarrow> pydict \<Rightarrow> int \<Rightarrow> string \<Rightarrow> string \<Rightarrow> 's \<Rightarrow> (exec_exc, int) res \<times> 's) option"
  rs_save_cancelled ::
    "(string \<Rightarrow> pydict \<Rightarrow> int \<Rightarrow> string \<Rightarrow> string \<Rightarrow> 's \<Rightarrow> (exec_exc, int) res \<times> 's) option"

record 's world_env =
  store_at :: "nat \<Rightarrow> 's runtime_store"
  others :: "nat \<Rightarrow> 's \<Rightarrow> 's"

definition rt_store :: "'s world_env \<Rightarrow> ('s runtime_store \<Rightarrow> ('s, 'a) rt) \<Rightarrow> ('s, 'a) rt" where
  "rt_store env f w = f (store_at env (fst w)) w"

definition rt_call :: "'s world_env \<Rightarrow> ('s \<Rightarrow> (exec_exc, 'a) res \<times> 's) \<Rightarrow> ('s, 'a) rt" where
  "rt_call env f w =
     (case f (others env (fst w) (snd w)) of (r, s) \<Rightarrow> (map_sum FromStore id r, (Suc (fst w), s)))"

text \<open>\<open>str(exc)\<close>\<close>

definition exec_text :: "exec_exc \<Rightarrow> string" where
  "exec_text e =
     (case e of
        ValueError m \<Rightarrow> m
      | TypeError m \<Rightarrow> m
      | LeaseExc _ m _ _ _ \<Rightarrow> m
      | SessionRevisionConflictError sid expected actual \<Rightarrow>
          ''session state revision conflict: session_id='' @ repr_str sid @ '', expected='' @ int_text expected
          @ '', actual='' @ int_text actual
      | SessionStoreCorruptionError sid detail \<Rightarrow>
          ''session state is corrupted: session_id='' @ repr_str sid @ '', '' @ detail)"

definition mem_text :: "mem_exc \<Rightarrow> string" where
  "mem_text e = (case e of FromStore x \<Rightarrow> exec_text x | Raised x \<Rightarrow> exc_text x)"

definition persistence_error :: "string \<Rightarrow> mem_exc" where
  "persistence_error m = Raised (DomainExc ''ExecutionCheckpointPersistenceError'' m)"

definition is_conflict :: "mem_exc \<Rightarrow> bool" where
  "is_conflict e = (case e of FromStore (SessionRevisionConflictError _ _ _) \<Rightarrow> True | _ \<Rightarrow> False)"

definition is_lease_error :: "mem_exc \<Rightarrow> bool" where
  "is_lease_error e = (case e of FromStore (LeaseExc _ _ _ _ _) \<Rightarrow> True | _ \<Rightarrow> False)"

definition is_cancelled_error :: "mem_exc \<Rightarrow> bool" where
  "is_cancelled_error e = (case e of FromStore (LeaseExc ExecutionCancelledError _ _ _ _) \<Rightarrow> True | _ \<Rightarrow> False)"

subsection \<open>Loading and saving\<close>

definition empty_snapshot :: session_snapshot where
  "empty_snapshot = \<lparr>snap_state = PyDict [], snap_revision = None\<rparr>"

definition snap_dict :: "session_snapshot \<Rightarrow> pydict" where
  "snap_dict sn = (case snap_state sn of PyDict d \<Rightarrow> d | _ \<Rightarrow> [])"

definition kernel_load_snapshot :: "'s world_env \<Rightarrow> string \<Rightarrow> ('s, session_snapshot) rt" where
  "kernel_load_snapshot env sid =
     (if sid = [] then rt_ret empty_snapshot
      else rt_store env (\<lambda>st. rt_call env (load_session_snapshot (rs_sessions st) sid)))"

definition ensure_expected_revision :: "session_snapshot \<Rightarrow> string \<Rightarrow> int option \<Rightarrow> (mem_exc, unit) res" where
  "ensure_expected_revision sn sid expected =
     (case (expected, snap_revision sn) of
        (Some n, Some r) \<Rightarrow> if r \<noteq> n then Inl (FromStore (SessionRevisionConflictError sid n r)) else Inr ()
      | _ \<Rightarrow> Inr ())"

definition verify_execution_fence :: "'s world_env \<Rightarrow> execution_fence option \<Rightarrow> ('s, unit) rt" where
  "verify_execution_fence env fence =
     (case fence of
        None \<Rightarrow> rt_ret ()
      | Some k \<Rightarrow>
          rt_store env (\<lambda>st.
            case rs_verify_lease st of
              None \<Rightarrow> rt_raise (FromStore (TypeError ''execution fence requires a lease-aware session store''))
            | Some f \<Rightarrow> rt_bind (rt_call env (f (fence_execution_id k) (fence_owner_id k) (fence_token k))) (\<lambda>_. rt_ret ())))"

definition or_revision :: "int option \<Rightarrow> session_snapshot \<Rightarrow> int option" where
  "or_revision expected sn = (if expected \<noteq> None then expected else snap_revision sn)"

definition write_session ::
  "'s world_env \<Rightarrow> string \<Rightarrow> pydict \<Rightarrow> int option \<Rightarrow> execution_fence option \<Rightarrow> ('s, session_snapshot) rt" where
  "write_session env sid d expected fence =
     rt_store env (\<lambda>st. rt_call env (save_session_snapshot (rs_sessions st) sid d expected fence))"

definition save_session_state ::
  "'s world_env \<Rightarrow> string \<Rightarrow> pydict \<Rightarrow> int option \<Rightarrow> execution_fence option \<Rightarrow> ('s, session_snapshot) rt" where
  "save_session_state env sid d expected fence =
     (if sid = [] then rt_ret empty_snapshot else
      rt_bind (kernel_load_snapshot env sid) (\<lambda>now.
      rt_bind (rt_res (ensure_expected_revision now sid expected)) (\<lambda>_.
        write_session env sid d (or_revision expected now) fence)))"

subsection \<open>The owner of a checkpoint\<close>

definition domain_key :: string where "domain_key = ''execution_checkpoint_domain''"

record checkpoint_domain =
  cd_checkpoint_id :: string
  cd_execution_id :: string
  cd_owner_id :: string
  cd_token :: int

definition domain_from_fence :: "(rat \<Rightarrow> string) \<Rightarrow> pydict \<Rightarrow> execution_fence \<Rightarrow> checkpoint_domain" where
  "domain_from_fence fr c k =
     \<lparr>cd_checkpoint_id = str_or fr (dget c ''checkpoint_id'') [], cd_execution_id = fence_execution_id k,
      cd_owner_id = fence_owner_id k, cd_token = fence_token k\<rparr>"

definition domain_fields :: "string list" where
  "domain_fields = [''schema_version'', ''checkpoint_id'', ''execution_id'', ''owner_id'', ''fencing_token'']"

definition domain_from_state :: "pydict \<Rightarrow> pydict \<Rightarrow> string \<Rightarrow> (py_exc, checkpoint_domain option) res" where
  "domain_from_state state c sid =
     (case dget state domain_key of
        PyNone \<Rightarrow> Inr None
      | PyDict raw \<Rightarrow>
          if set (dict_keys raw) \<noteq> set domain_fields
          then Inl (ck_integrity_error ''execution checkpoint domain has an invalid shape'')
          else if \<not> py_eq (dget raw ''schema_version'') (PyInt 1)
          then Inl (ck_integrity_error ''unsupported execution checkpoint domain schema_version'')
          else if \<not> nonempty_text (dget raw ''checkpoint_id'') \<or> dget raw ''checkpoint_id'' \<noteq> dget c ''checkpoint_id''
          then Inl (ck_integrity_error ''execution checkpoint domain is bound to a different checkpoint'')
          else if \<not> nonempty_text (dget raw ''execution_id'')
          then Inl (ck_integrity_error ''execution checkpoint domain requires execution_id'')
          else if \<not> nonempty_text (dget raw ''owner_id'')
          then Inl (ck_integrity_error ''execution checkpoint domain requires owner_id'')
          else
            (case dget raw ''fencing_token'' of
               PyInt tok \<Rightarrow>
                 if tok \<le> 0
                 then Inl (ck_integrity_error ''execution checkpoint domain requires a positive fencing_token'')
                 else if \<not> (sid = text_of (dget raw ''execution_id'') \<or> startswith sid (text_of (dget raw ''execution_id'') @ '':''))
                 then Inl (ck_integrity_error ''execution checkpoint domain cannot own the target session'')
                 else Inr (Some \<lparr>cd_checkpoint_id = text_of (dget raw ''checkpoint_id''),
                                  cd_execution_id = text_of (dget raw ''execution_id''),
                                  cd_owner_id = text_of (dget raw ''owner_id''), cd_token = tok\<rparr>)
             | _ \<Rightarrow> Inl (ck_integrity_error ''execution checkpoint domain requires a positive fencing_token''))
      | _ \<Rightarrow> Inl (ck_integrity_error ''execution checkpoint domain has an invalid shape''))"

definition domain_to_dict :: "checkpoint_domain \<Rightarrow> pyval" where
  "domain_to_dict m = PyDict
     [(''schema_version'', PyInt 1), (''checkpoint_id'', PyStr (cd_checkpoint_id m)),
      (''execution_id'', PyStr (cd_execution_id m)), (''owner_id'', PyStr (cd_owner_id m)),
      (''fencing_token'', PyInt (cd_token m))]"

definition bound_checkpoint ::
  "(blob \<Rightarrow> string) \<Rightarrow> (rat \<Rightarrow> string) \<Rightarrow> string \<Rightarrow> session_snapshot \<Rightarrow> (py_exc, (pydict \<times> checkpoint_domain) option) res" where
  "bound_checkpoint sha fr sid sn =
     (case dget (snap_dict sn) checkpoint_key of
        PyDict raw \<Rightarrow>
          bindr (validate_execution_checkpoint sha fr (PyDict raw)) (\<lambda>c.
          bindr (domain_from_state (snap_dict sn) c sid) (\<lambda>found. Inr (map_option (\<lambda>m. (c, m)) found)))
      | _ \<Rightarrow> Inr None)"

subsection \<open>Cleaning up after a cancellation\<close>

text \<open>
  The new session state of one round of \<open>reconcile_cancelled_execution_checkpoint\<close>: a pending interaction
  is answered with the cancellation, its answer applied, and the checkpoint and its owner removed.
\<close>

definition cancel_response :: "string \<Rightarrow> pyval" where
  "cancel_response why = PyDict [(''cancelled'', PyBool True), (''reason'', PyStr (if why = [] then ''execution_cancelled'' else why))]"

definition cancelled_id :: "(rat \<Rightarrow> string) \<Rightarrow> pyval \<Rightarrow> string" where
  "cancelled_id fr cid = ''cancelled:'' @ py_str fr cid"

definition without_checkpoint :: "pydict \<Rightarrow> pydict" where
  "without_checkpoint d = dict_del domain_key (dict_del checkpoint_key d)"

definition answer_cancelled ::
  "(blob \<Rightarrow> string) \<Rightarrow> (rat \<Rightarrow> string) \<Rightarrow> string \<Rightarrow> string \<Rightarrow> int \<Rightarrow> ix_entry \<Rightarrow> interaction_journal \<Rightarrow> pydict \<Rightarrow> (py_exc, pydict) res" where
  "answer_cancelled sha fr who why at_ms entry j state =
     (if ie_receipt entry \<noteq> None then Inr state else
      bindr (interaction_request_from_dict sha fr (Inr (interaction_request_to_dict (ie_request entry)))) (\<lambda>request.
      bindr (build_interaction_receipt sha fr (Inl request) (cancel_response why) (PyStr who) (PyInt at_ms)) (\<lambda>rc.
      bindr (record_interaction_receipt sha fr (Inl rc) (journal_dict j)) (\<lambda>k.
        Inr (dict_set journal_key (journal_dict k) state)))))"

definition cancelled_state ::
  "(blob \<Rightarrow> string) \<Rightarrow> (rat \<Rightarrow> string) \<Rightarrow> string \<Rightarrow> execution_cancellation \<Rightarrow> pydict \<Rightarrow> pydict \<Rightarrow> (py_exc, pydict) res" where
  "cancelled_state sha fr who canc c state =
     bindr
       (if \<not> is_dict (dget c ''interaction_ref'') then Inr state else
        bindr (validate_interaction_journal sha fr (dget state journal_key)) (\<lambda>j.
          case dict_get (ij_entries j) (str_or fr (vget (dget c ''interaction_ref'') ''interaction_id'') []) of
            None \<Rightarrow> Inl (ck_integrity_error ''cancelled checkpoint is missing its interaction'')
          | Some entry \<Rightarrow>
              if dget c ''checkpoint_id'' \<noteq> PyStr (ie_checkpoint_id entry)
              then Inl (ck_integrity_error ''cancelled checkpoint is missing its interaction'') else
              bindr (answer_cancelled sha fr who (canc_reason canc) (canc_requested_at_ms canc) entry j state) (\<lambda>state1.
              bindr (apply_checkpoint_interaction_receipt sha fr c (cancelled_id fr (dget c ''checkpoint_id'')) state1)
                (\<lambda>(state2, _). Inr state2))))
       (\<lambda>state'. Inr (without_checkpoint state'))"

definition wrong_cancellation :: "checkpoint_domain \<Rightarrow> mem_exc" where
  "wrong_cancellation m = FromStore (LeaseExc ExecutionLeaseError ''execution cancellation store returned a different owner''
     (Some (cd_execution_id m)) (Some (cd_owner_id m)) (Some (cd_token m)))"

definition cancellation_unsupported :: mem_exc where
  "cancellation_unsupported =
     FromStore (TypeError ''execution checkpoint cancellation requires atomic cancellation-aware session storage'')"

text \<open>The end of a round: the write that succeeds only while the owner is cancelled.\<close>

definition commit_cancelled ::
  "'s world_env \<Rightarrow> string \<Rightarrow> checkpoint_domain \<Rightarrow> execution_cancellation \<Rightarrow> pydict \<Rightarrow> int
   \<Rightarrow> ('s, session_snapshot \<times> execution_cancellation option) rt" where
  "commit_cancelled env sid m canc state n =
     rt_store env (\<lambda>st.
       case rs_save_cancelled st of
         None \<Rightarrow> rt_raise cancellation_unsupported
       | Some save_c \<Rightarrow>
           rt_bind (rt_call env (save_c sid state n (cd_execution_id m) (cd_owner_id m))) (\<lambda>r.
             if r \<le> n then rt_raise (persistence_error ''cancellation-aware checkpoint CAS returned an invalid revision'')
             else rt_ret (\<lparr>snap_state = PyDict state, snap_revision = Some r\<rparr>, Some canc)))"

text \<open>A round that found the tombstone of the owner, and the search for it; \<open>again\<close> is the next round.\<close>

definition cancel_round ::
  "(blob \<Rightarrow> string) \<Rightarrow> (rat \<Rightarrow> string) \<Rightarrow> 's world_env \<Rightarrow> string \<Rightarrow> string \<Rightarrow> session_snapshot \<Rightarrow> pydict \<Rightarrow> checkpoint_domain
   \<Rightarrow> (mem_exc \<Rightarrow> ('s, session_snapshot \<times> execution_cancellation option) rt) \<Rightarrow> execution_cancellation
   \<Rightarrow> ('s, session_snapshot \<times> execution_cancellation option) rt" where
  "cancel_round sha fr env who sid sn c m again canc =
     (if canc_execution_id canc \<noteq> cd_execution_id m \<or> canc_owner_id canc \<noteq> cd_owner_id m
      then rt_raise (wrong_cancellation m) else
      rt_bind (rt_pure (cancelled_state sha fr who canc c (snap_dict sn))) (\<lambda>state.
        case snap_revision sn of
          None \<Rightarrow> rt_raise (FromStore (TypeError ''execution checkpoint cancellation requires revisioned storage''))
        | Some n \<Rightarrow>
            rt_catch (commit_cancelled env sid m canc state n)
              (\<lambda>e. if is_conflict e then again e else rt_raise e)))"

definition reconcile_bound ::
  "(blob \<Rightarrow> string) \<Rightarrow> (rat \<Rightarrow> string) \<Rightarrow> 's world_env \<Rightarrow> string \<Rightarrow> string \<Rightarrow> session_snapshot \<Rightarrow> pydict \<Rightarrow> checkpoint_domain
   \<Rightarrow> (mem_exc \<Rightarrow> ('s, session_snapshot \<times> execution_cancellation option) rt)
   \<Rightarrow> ('s, session_snapshot \<times> execution_cancellation option) rt" where
  "reconcile_bound sha fr env who sid sn c m again =
     rt_store env (\<lambda>st.
       case (rs_load_cancellation st, rs_save_cancelled st) of
         (Some load_c, Some _) \<Rightarrow>
           rt_bind (rt_call env (load_c (cd_execution_id m) (cd_owner_id m))) (\<lambda>found.
             case found of
               None \<Rightarrow> rt_ret (sn, None)
             | Some canc \<Rightarrow> cancel_round sha fr env who sid sn c m again canc)
       | _ \<Rightarrow> rt_raise cancellation_unsupported)"

fun reconcile_rounds ::
  "(blob \<Rightarrow> string) \<Rightarrow> (rat \<Rightarrow> string) \<Rightarrow> 's world_env \<Rightarrow> string \<Rightarrow> string \<Rightarrow> nat \<Rightarrow> mem_exc option
   \<Rightarrow> ('s, session_snapshot \<times> execution_cancellation option) rt" where
  "reconcile_rounds sha fr env who sid 0 last_conflict =
     (case last_conflict of
        Some e \<Rightarrow> rt_raise e
      | None \<Rightarrow> rt_raise (persistence_error ''cancelled checkpoint reconciliation did not converge''))"
| "reconcile_rounds sha fr env who sid (Suc m) last_conflict =
     rt_bind (kernel_load_snapshot env sid) (\<lambda>sn.
     rt_bind (rt_pure (bound_checkpoint sha fr sid sn)) (\<lambda>bound.
       case bound of
         None \<Rightarrow> rt_ret (sn, None)
       | Some (c, m_own) \<Rightarrow>
           reconcile_bound sha fr env who sid sn c m_own (\<lambda>e. reconcile_rounds sha fr env who sid m (Some e))))"

definition reconcile_cancelled_execution_checkpoint ::
  "(blob \<Rightarrow> string) \<Rightarrow> (rat \<Rightarrow> string) \<Rightarrow> 's world_env \<Rightarrow> string \<Rightarrow> string
   \<Rightarrow> ('s, session_snapshot \<times> execution_cancellation option) rt" where
  "reconcile_cancelled_execution_checkpoint sha fr env who sid =
     (if sid = [] then rt_ret (empty_snapshot, None) else reconcile_rounds sha fr env who sid 16 None)"

definition tree_canceller :: string where "tree_canceller = ''runtime:cancelled_execution_tree''"

subsection \<open>Receipts\<close>

definition resolve_interaction_execution_fence ::
  "(blob \<Rightarrow> string) \<Rightarrow> (rat \<Rightarrow> string) \<Rightarrow> string \<Rightarrow> string \<Rightarrow> session_snapshot \<Rightarrow> execution_fence option
   \<Rightarrow> (py_exc, execution_fence option) res" where
  "resolve_interaction_execution_fence sha fr sid cid sn fence =
     bindr (bound_checkpoint sha fr sid sn) (\<lambda>bound.
       case bound of
         None \<Rightarrow> Inr fence
       | Some (c, m) \<Rightarrow>
           if dget c ''checkpoint_id'' \<noteq> PyStr cid
           then Inl (ck_compatibility_error ''interaction receipt belongs to a different checkpoint'')
           else if cd_execution_id m = sid then Inr fence
           else
             (case fence of
                None \<Rightarrow> Inr None
              | Some k \<Rightarrow>
                  if fence_execution_id k \<noteq> cd_execution_id m \<or> fence_owner_id k \<noteq> cd_owner_id m
                  then Inl (ck_compatibility_error ''interaction receipt execution fence does not match its checkpoint'')
                  else Inr (Some k)))"

definition save_unless_cancelled ::
  "'s world_env \<Rightarrow> string \<Rightarrow> pydict \<Rightarrow> checkpoint_domain \<Rightarrow> int option \<Rightarrow> ('s, session_snapshot) rt" where
  "save_unless_cancelled env sid state m revision =
     rt_store env (\<lambda>st.
       case rs_save_not_cancelled st of
         None \<Rightarrow> rt_raise (FromStore (TypeError ''descendant interaction receipt requires atomic cancellation-aware session storage''))
       | Some save_n \<Rightarrow>
           (case revision of
              None \<Rightarrow> rt_raise (FromStore (TypeError ''descendant interaction receipt requires revisioned session storage''))
            | Some n \<Rightarrow>
                rt_bind (rt_call env (save_n sid state n (cd_execution_id m) (cd_owner_id m))) (\<lambda>r.
                  if r \<le> n then rt_raise (persistence_error ''cancellation-aware receipt CAS returned an invalid revision'')
                  else rt_ret \<lparr>snap_state = PyDict state, snap_revision = Some r\<rparr>)))"

definition save_interaction_session_state ::
  "(blob \<Rightarrow> string) \<Rightarrow> (rat \<Rightarrow> string) \<Rightarrow> 's world_env \<Rightarrow> string \<Rightarrow> pydict \<Rightarrow> string \<Rightarrow> session_snapshot \<Rightarrow> int option
   \<Rightarrow> execution_fence option \<Rightarrow> ('s, session_snapshot) rt" where
  "save_interaction_session_state sha fr env sid state cid sn expected fence =
     rt_bind (rt_pure (resolve_interaction_execution_fence sha fr sid cid sn fence)) (\<lambda>effective.
     rt_bind (rt_pure (bound_checkpoint sha fr sid sn)) (\<lambda>bound.
       case (bound, effective) of
         (Some (c, m), None) \<Rightarrow> save_unless_cancelled env sid state m (or_revision expected sn)
       | _ \<Rightarrow> save_session_state env sid state expected effective))"

definition load_execution_checkpoint ::
  "(blob \<Rightarrow> string) \<Rightarrow> (rat \<Rightarrow> string) \<Rightarrow> 's world_env \<Rightarrow> string \<Rightarrow> ('s, pydict option) rt" where
  "load_execution_checkpoint sha fr env sid =
     (if sid = [] then rt_ret None else
      rt_bind (reconcile_cancelled_execution_checkpoint sha fr env tree_canceller sid) (\<lambda>(sn, cancelled).
        if cancelled \<noteq> None \<or> dict_get (snap_dict sn) checkpoint_key = None then rt_ret None
        else rt_bind (rt_pure (validate_execution_checkpoint sha fr (dget (snap_dict sn) checkpoint_key))) (\<lambda>c. rt_ret (Some c))))"
subsection \<open>Saving a checkpoint\<close>

text \<open>A retry: the session already holds this checkpoint, at the expected revision or the one after it.\<close>

definition is_retry :: "pydict \<Rightarrow> session_snapshot \<Rightarrow> pydict option \<Rightarrow> int option \<Rightarrow> bool" where
  "is_retry validated sn stored expected =
     (case (stored, expected) of
        (Some c, Some n) \<Rightarrow>
          dget c ''checkpoint_id'' = dget validated ''checkpoint_id'' \<and>
          (snap_revision sn = Some n \<or>
           (snap_revision sn = Some (n + 1) \<and> py_eq (dget c ''base_session_revision'') (PyInt n)))
      | _ \<Rightarrow> False)"

definition cancellation_aware :: "'s runtime_store \<Rightarrow> bool" where
  "cancellation_aware st \<longleftrightarrow>
     rs_load_cancellation st \<noteq> None \<and> rs_save_not_cancelled st \<noteq> None \<and> rs_save_cancelled st \<noteq> None"

text \<open>The owner stored beside the checkpoint; \<open>old\<close> is the session as it was loaded.\<close>

definition with_domain ::
  "(rat \<Rightarrow> string) \<Rightarrow> bool \<Rightarrow> string \<Rightarrow> pydict \<Rightarrow> execution_fence option \<Rightarrow> bool \<Rightarrow> pydict option \<Rightarrow> pydict \<Rightarrow> pydict
   \<Rightarrow> (mem_exc, pydict) res" where
  "with_domain fr aware sid validated fence retry stored old state =
     (case fence of
        None \<Rightarrow> Inr (dict_del domain_key state)
      | Some k \<Rightarrow>
          if sid \<noteq> fence_execution_id k \<and> \<not> aware
          then Inl (FromStore (TypeError ''descendant execution checkpoint requires atomic cancellation-aware session storage''))
          else if \<not> aware then Inr (dict_del domain_key state)
          else
            let fresh = domain_from_fence fr validated k in
            bindr (case stored of
                     Some c \<Rightarrow> if retry then from_py (domain_from_state old c sid) else Inr None
                   | None \<Rightarrow> Inr None) (\<lambda>existing.
              if (\<exists>m \<in> set_option existing. cd_execution_id m = cd_execution_id fresh \<and> cd_owner_id m = cd_owner_id fresh)
              then Inr (dict_set domain_key (domain_to_dict (the existing)) state)
              else if retry \<and> dict_get old domain_key = None then Inr (dict_del domain_key state)
              else Inr (dict_set domain_key (domain_to_dict fresh) state)))"

text \<open>
  The interaction journal of the new state. Here and below a request is given exactly when the checkpoint
  has an \<open>interaction_ref\<close>: the operation refuses the other two cases first.
\<close>

definition with_interaction ::
  "(blob \<Rightarrow> string) \<Rightarrow> (rat \<Rightarrow> string) \<Rightarrow> pydict \<Rightarrow> (interaction_request + pyval) option \<Rightarrow> pydict option \<Rightarrow> pydict \<Rightarrow> (py_exc, pydict) res" where
  "with_interaction sha fr validated request stored d =
     (case request of
        Some q \<Rightarrow> register_checkpoint_interaction_request sha fr validated q d
      | None \<Rightarrow>
          (case stored of
             None \<Rightarrow> Inr d
           | Some c \<Rightarrow>
               if is_dict (dget c ''interaction_ref'')
               then bindr (apply_checkpoint_interaction_receipt sha fr c (str_or fr (dget validated ''checkpoint_id'') []) d)
                      (\<lambda>(d', _). Inr d')
               else Inr d))"

definition stored_checkpoint :: "(blob \<Rightarrow> string) \<Rightarrow> (rat \<Rightarrow> string) \<Rightarrow> pydict \<Rightarrow> (mem_exc, pydict option) res" where
  "stored_checkpoint sha fr d =
     (case dget d checkpoint_key of
        PyDict raw \<Rightarrow> from_py (map_sum id Some (validate_execution_checkpoint sha fr (PyDict raw)))
      | _ \<Rightarrow> Inr None)"

text \<open>The stored checkpoint, whether this is a retry, and the new session state.\<close>

definition plan_checkpoint ::
  "(blob \<Rightarrow> string) \<Rightarrow> (rat \<Rightarrow> string) \<Rightarrow> bool \<Rightarrow> string \<Rightarrow> pydict \<Rightarrow> (interaction_request + pyval) option \<Rightarrow> int option
   \<Rightarrow> execution_fence option \<Rightarrow> session_snapshot \<Rightarrow> (mem_exc, pydict option \<times> bool \<times> pydict) res" where
  "plan_checkpoint sha fr aware sid validated request expected fence sn =
     bindr (stored_checkpoint sha fr (snap_dict sn)) (\<lambda>stored.
       let retry = is_retry validated sn stored expected in
     bindr (if retry then Inr () else ensure_expected_revision sn sid expected) (\<lambda>_.
     bindr (from_py (with_interaction sha fr validated request stored (snap_dict sn))) (\<lambda>state.
     bindr (with_domain fr aware sid validated fence retry stored (snap_dict sn)
              (dict_set checkpoint_key (PyDict validated) state)) (\<lambda>state'.
       Inr (stored, retry, state')))))"

definition keep_store_errors :: "string \<Rightarrow> ('s, 'a) rt \<Rightarrow> ('s, 'a) rt" where
  "keep_store_errors lead m =
     rt_catch m (\<lambda>e. if is_conflict e \<or> is_lease_error e then rt_raise e else rt_raise (persistence_error (lead @ mem_text e)))"

definition wrap_errors :: "string \<Rightarrow> (mem_exc, 'a) res \<Rightarrow> (mem_exc, 'a) res" where
  "wrap_errors lead r = (case r of Inl e \<Rightarrow> Inl (persistence_error (lead @ mem_text e)) | Inr v \<Rightarrow> Inr v)"

definition unverified :: "string \<Rightarrow> string \<Rightarrow> session_snapshot \<Rightarrow> session_snapshot \<Rightarrow> mem_exc" where
  "unverified m sid written seen =
     (case (snap_revision written, snap_revision seen) of
        (Some a, Some b) \<Rightarrow> if b \<noteq> a then FromStore (SessionRevisionConflictError sid a b) else persistence_error m
      | _ \<Rightarrow> persistence_error m)"

definition journal_persisted ::
  "(blob \<Rightarrow> string) \<Rightarrow> (rat \<Rightarrow> string) \<Rightarrow> pydict \<Rightarrow> interaction_request + pyval \<Rightarrow> pydict \<Rightarrow> (mem_exc, bool) res" where
  "journal_persisted sha fr validated request d =
     wrap_errors ''persisted interaction journal could not be verified: '' (from_py
       (bindr (interaction_request_from_dict sha fr request) (\<lambda>q.
        bindr (validate_interaction_journal sha fr (dget d journal_key)) (\<lambda>j.
          Inr (ij_active_id j = Some (iq_interaction_id q) \<and>
               (case dict_get (ij_entries j) (iq_interaction_id q) of
                  None \<Rightarrow> False
                | Some e \<Rightarrow>
                    py_eq (interaction_request_to_dict (ie_request e)) (interaction_request_to_dict q) \<and>
                    dget validated ''checkpoint_id'' = PyStr (ie_checkpoint_id e) \<and> ie_application e = None))))))"

definition verify_persisted ::
  "(blob \<Rightarrow> string) \<Rightarrow> (rat \<Rightarrow> string) \<Rightarrow> string \<Rightarrow> pydict \<Rightarrow> (interaction_request + pyval) option \<Rightarrow> session_snapshot
   \<Rightarrow> session_snapshot \<times> pydict option \<Rightarrow> (mem_exc, pydict) res" where
  "verify_persisted sha fr sid validated request written seen =
     (case seen of
        (sn, Some c) \<Rightarrow>
          if dget c ''checkpoint_id'' \<noteq> dget validated ''checkpoint_id''
          then Inl (unverified ''execution checkpoint write verification failed'' sid written sn)
          else
            (case request of
               None \<Rightarrow> Inr c
             | Some q \<Rightarrow>
                 bindr (journal_persisted sha fr validated q (snap_dict sn)) (\<lambda>ok.
                   if ok then Inr c else Inl (persistence_error ''interaction journal write verification failed'')))
      | (sn, None) \<Rightarrow> Inl (unverified ''execution checkpoint write verification failed'' sid written sn))"

definition reload_checkpoint ::
  "(blob \<Rightarrow> string) \<Rightarrow> (rat \<Rightarrow> string) \<Rightarrow> 's world_env \<Rightarrow> string \<Rightarrow> ('s, session_snapshot \<times> pydict option) rt" where
  "reload_checkpoint sha fr env sid =
     rt_catch (rt_bind (kernel_load_snapshot env sid) (\<lambda>sn.
               rt_bind (rt_res (stored_checkpoint sha fr (snap_dict sn))) (\<lambda>c. rt_ret (sn, c))))
       (\<lambda>e. rt_raise (persistence_error (''persisted execution checkpoint could not be verified: '' @ mem_text e)))"

definition write_checkpoint ::
  "(blob \<Rightarrow> string) \<Rightarrow> (rat \<Rightarrow> string) \<Rightarrow> 's world_env \<Rightarrow> string \<Rightarrow> pydict \<Rightarrow> (interaction_request + pyval) option
   \<Rightarrow> pydict \<Rightarrow> int option \<Rightarrow> execution_fence option \<Rightarrow> ('s, pydict \<times> session_snapshot) rt" where
  "write_checkpoint sha fr env sid validated request state revision fence =
     rt_bind (keep_store_errors ''failed to persist execution checkpoint: '' (write_session env sid state revision fence)) (\<lambda>written.
     rt_bind (reload_checkpoint sha fr env sid) (\<lambda>seen.
     rt_bind (rt_res (verify_persisted sha fr sid validated request written seen)) (\<lambda>c. rt_ret (c, written))))"

definition commit_plan ::
  "(blob \<Rightarrow> string) \<Rightarrow> (rat \<Rightarrow> string) \<Rightarrow> 's world_env \<Rightarrow> string \<Rightarrow> pydict \<Rightarrow> (interaction_request + pyval) option
   \<Rightarrow> int option \<Rightarrow> execution_fence option \<Rightarrow> session_snapshot \<Rightarrow> pydict option \<times> bool \<times> pydict \<Rightarrow> ('s, pydict \<times> session_snapshot) rt" where
  "commit_plan sha fr env sid validated request expected fence sn plan =
     (case plan of (stored, retry, state) \<Rightarrow>
        if retry then
          (if \<not> py_eq (PyDict state) (snap_state sn)
           then rt_raise (Raised (ck_integrity_error ''checkpoint retry found a non-atomic interaction journal state''))
           else rt_bind (verify_execution_fence env fence) (\<lambda>_. rt_ret (the stored, sn)))
        else write_checkpoint sha fr env sid validated request state (or_revision expected sn) fence)"

definition save_execution_checkpoint_snapshot ::
  "(blob \<Rightarrow> string) \<Rightarrow> (rat \<Rightarrow> string) \<Rightarrow> 's world_env \<Rightarrow> string \<Rightarrow> pyval \<Rightarrow> (interaction_request + pyval) option
   \<Rightarrow> int option \<Rightarrow> execution_fence option \<Rightarrow> ('s, pydict \<times> session_snapshot) rt" where
  "save_execution_checkpoint_snapshot sha fr env sid checkpoint request expected fence =
     (if sid = [] then rt_raise (persistence_error ''execution checkpoint persistence requires a non-empty session_id'') else
      rt_bind (rt_pure (validate_execution_checkpoint sha fr checkpoint)) (\<lambda>validated.
        if dget validated ''session_id'' \<noteq> PyStr sid
        then rt_raise (Raised (ck_compatibility_error ''execution checkpoint session_id does not match the target session''))
        else if is_dict (dget validated ''interaction_ref'') \<and> request = None
        then rt_raise (Raised (ck_compatibility_error ''checkpoint interaction_ref requires its full interaction_request''))
        else if \<not> is_dict (dget validated ''interaction_ref'') \<and> request \<noteq> None
        then rt_raise (Raised (ck_compatibility_error ''interaction_request requires a checkpoint interaction_ref''))
        else
      rt_bind (kernel_load_snapshot env sid) (\<lambda>sn.
      rt_store env (\<lambda>st.
      rt_bind (rt_res (plan_checkpoint sha fr (cancellation_aware st) sid validated request expected fence sn))
        (commit_plan sha fr env sid validated request expected fence sn)))))"

definition save_execution_checkpoint ::
  "(blob \<Rightarrow> string) \<Rightarrow> (rat \<Rightarrow> string) \<Rightarrow> 's world_env \<Rightarrow> string \<Rightarrow> pyval \<Rightarrow> (interaction_request + pyval) option
   \<Rightarrow> execution_fence option \<Rightarrow> ('s, pydict) rt" where
  "save_execution_checkpoint sha fr env sid checkpoint request fence =
     rt_bind (save_execution_checkpoint_snapshot sha fr env sid checkpoint request None fence) (\<lambda>(c, _). rt_ret c)"

subsection \<open>Clearing a checkpoint\<close>

definition check_cleared ::
  "(blob \<Rightarrow> string) \<Rightarrow> (rat \<Rightarrow> string) \<Rightarrow> string \<Rightarrow> bool \<Rightarrow> string \<Rightarrow> session_snapshot \<Rightarrow> session_snapshot \<Rightarrow> (mem_exc, unit) res" where
  "check_cleared sha fr sid was_applied iid written seen =
     (if dict_get (snap_dict seen) checkpoint_key \<noteq> None
      then Inl (unverified ''execution checkpoint clear verification failed'' sid written seen)
      else if \<not> was_applied then Inr ()
      else
        bindr (wrap_errors ''cleared interaction journal could not be verified: ''
                 (from_py (validate_interaction_journal sha fr (dget (snap_dict seen) journal_key)))) (\<lambda>j.
          if ij_active_id j \<noteq> None \<or> \<not> (\<exists>e \<in> set_option (dict_get (ij_entries j) iid). ie_application e \<noteq> None)
          then Inl (persistence_error ''interaction receipt application verification failed'')
          else Inr ()))"

text \<open>The session without its checkpoint, whether an answer was applied, and the interaction it was for.\<close>

definition plan_clear ::
  "(blob \<Rightarrow> string) \<Rightarrow> (rat \<Rightarrow> string) \<Rightarrow> string option \<Rightarrow> pydict \<Rightarrow> (py_exc, pydict \<times> bool \<times> string) res" where
  "plan_clear sha fr expected_id d =
     bindr (validate_execution_checkpoint sha fr (dget d checkpoint_key)) (\<lambda>c.
       if (\<exists>i \<in> set_option expected_id. i \<noteq> [] \<and> dget c ''checkpoint_id'' \<noteq> PyStr i)
       then Inl (ck_compatibility_error ''refusing to clear a different execution checkpoint'') else
     bindr (apply_checkpoint_interaction_receipt sha fr c (str_or fr (dget c ''checkpoint_id'') []) d) (\<lambda>(d', was_applied).
       Inr (without_checkpoint d', was_applied, str_or fr (vget (dget c ''interaction_ref'') ''interaction_id'') [])))"

definition write_cleared ::
  "(blob \<Rightarrow> string) \<Rightarrow> (rat \<Rightarrow> string) \<Rightarrow> 's world_env \<Rightarrow> string \<Rightarrow> int option \<Rightarrow> execution_fence option
   \<Rightarrow> pydict \<times> bool \<times> string \<Rightarrow> ('s, bool \<times> session_snapshot) rt" where
  "write_cleared sha fr env sid revision fence plan =
     (case plan of (state, was_applied, iid) \<Rightarrow>
      rt_bind (keep_store_errors ''failed to clear execution checkpoint: '' (write_session env sid state revision fence)) (\<lambda>written.
      rt_bind (kernel_load_snapshot env sid) (\<lambda>seen.
      rt_bind (rt_res (check_cleared sha fr sid was_applied iid written seen)) (\<lambda>_. rt_ret (True, written)))))"

definition clear_execution_checkpoint_snapshot ::
  "(blob \<Rightarrow> string) \<Rightarrow> (rat \<Rightarrow> string) \<Rightarrow> 's world_env \<Rightarrow> string \<Rightarrow> string option \<Rightarrow> int option \<Rightarrow> execution_fence option
   \<Rightarrow> ('s, bool \<times> session_snapshot) rt" where
  "clear_execution_checkpoint_snapshot sha fr env sid expected_id expected fence =
     (if sid = [] then rt_ret (False, empty_snapshot) else
      rt_bind (kernel_load_snapshot env sid) (\<lambda>sn.
      rt_bind (rt_res (ensure_expected_revision sn sid expected)) (\<lambda>_.
        if dict_get (snap_dict sn) checkpoint_key = None
        then rt_bind (verify_execution_fence env fence) (\<lambda>_. rt_ret (False, sn))
        else
      rt_bind (rt_pure (plan_clear sha fr expected_id (snap_dict sn)))
        (write_cleared sha fr env sid (or_revision expected sn) fence))))"

definition clear_execution_checkpoint ::
  "(blob \<Rightarrow> string) \<Rightarrow> (rat \<Rightarrow> string) \<Rightarrow> 's world_env \<Rightarrow> string \<Rightarrow> string option \<Rightarrow> execution_fence option \<Rightarrow> ('s, bool) rt" where
  "clear_execution_checkpoint sha fr env sid expected_id fence =
     rt_bind (clear_execution_checkpoint_snapshot sha fr env sid expected_id None fence) (\<lambda>(cleared, _). rt_ret cleared)"
subsection \<open>Starting from a session\<close>

definition is_system :: "pyval \<Rightarrow> bool" where
  "is_system m \<longleftrightarrow> vget m ''role'' = PyStr ''system''"

definition split_system_and_non_system :: "pyval list \<Rightarrow> pyval list \<times> pyval list" where
  "split_system_and_non_system ms =
     (filter (\<lambda>m. is_dict m \<and> is_system m) ms, filter (\<lambda>m. is_dict m \<and> \<not> is_system m) ms)"

fun add_systems :: "pyval list \<Rightarrow> pyval list \<Rightarrow> pyval list" where
  "add_systems systems [] = systems"
| "add_systems systems (m # ms) = add_systems (if list_ex (py_eq m) systems then systems else systems @ [m]) ms"

definition merge_history_and_incoming :: "pyval list \<Rightarrow> pyval list \<Rightarrow> pyval list" where
  "merge_history_and_incoming history incoming =
     (let clean_history = deepcopy_messages history; clean_incoming = deepcopy_messages incoming in
      if clean_history = [] then clean_incoming
      else if clean_incoming = [] then clean_history
      else
        let (incoming_systems, incoming_rest) = split_system_and_non_system clean_incoming;
            (history_systems, history_rest) = split_system_and_non_system clean_history in
        add_systems history_systems incoming_systems @ history_rest @ incoming_rest)"

definition resolve_memory_namespace :: "string \<Rightarrow> string option \<Rightarrow> string" where
  "resolve_memory_namespace sid namespace =
     (case namespace of
        Some n \<Rightarrow> if py_strip n \<noteq> [] then py_strip n else py_strip sid
      | None \<Rightarrow> py_strip sid)"

definition ensure_checkpoint_extends_semantic_history :: "pyval list \<Rightarrow> pydict \<Rightarrow> (py_exc, unit) res" where
  "ensure_checkpoint_extends_semantic_history history c =
     (if history = [] then Inr ()
      else if (case dget c ''transcript'' of
                 PyList ms \<Rightarrow> \<not> py_eq (PyList (take (length history) ms)) (PyList history)
               | _ \<Rightarrow> True)
      then Inl (ck_compatibility_error ''stored semantic history diverges from the execution checkpoint; refusing to restore a stale checkpoint'')
      else Inr ())"

definition session_history :: "pydict \<Rightarrow> pyval list" where
  "session_history d = (case dget d ''messages'' of PyList ms \<Rightarrow> ms | _ \<Rightarrow> [])"

record bootstrap_request =
  bo_namespace :: "string option"
  bo_incoming :: "pyval list"
  bo_resume :: bool
  bo_provider :: pyval
  bo_model :: pyval
  bo_continuation :: pyval

text \<open>The conversation a run starts with, given the loaded session and its checkpoint.\<close>

definition bootstrap_messages ::
  "(rat \<Rightarrow> string) \<Rightarrow> string \<Rightarrow> bootstrap_request \<Rightarrow> pydict option \<Rightarrow> pydict \<Rightarrow> (py_exc, pyval list) res" where
  "bootstrap_messages fr sid b checkpoint state =
     (case checkpoint of
        Some c \<Rightarrow>
          bindr (ensure_checkpoint_extends_semantic_history (session_history state) c) (\<lambda>_.
          bindr (ensure_checkpoint_compatible fr c sid (bo_provider b) (bo_model b)) (\<lambda>_.
            if bo_resume b
            then bindr (restore_resume_checkpoint_messages fr c (bo_incoming b) (bo_continuation b)) (\<lambda>v.
                 bindr (iterated_messages v) (\<lambda>ms. Inr (deepcopy_messages ms)))
            else bindr (restore_fresh_checkpoint_messages fr c (bo_incoming b)) (\<lambda>v.
                 bindr (iterated_messages v) (\<lambda>ms. merge_checkpoint_transcript_with_incoming ms (bo_incoming b)))))
      | None \<Rightarrow>
          if bo_resume b then Inr (deepcopy_messages (bo_incoming b))
          else bindr (ensure_session_delta_input (session_history state) (bo_incoming b)) (\<lambda>_.
                 Inr (merge_history_and_incoming (session_history state) (bo_incoming b))))"

definition counter_of :: "pydict \<Rightarrow> string \<Rightarrow> (py_exc, pyval) res" where
  "counter_of d k = map_sum id PyInt (py_int (or_value (dget d k) (PyInt 0)))"

definition prepare_info ::
  "(rat \<Rightarrow> string) \<Rightarrow> string \<Rightarrow> bootstrap_request \<Rightarrow> pydict option \<Rightarrow> session_snapshot \<Rightarrow> pyval list \<Rightarrow> string \<Rightarrow> (py_exc, pydict) res" where
  "prepare_info fr sid b checkpoint sn out summary =
     bindr (counter_of (snap_dict sn) ''vector_indexed_until'') (\<lambda>vectors.
     bindr (counter_of (snap_dict sn) ''long_term_indexed_until'') (\<lambda>long_term.
     bindr (counter_of (snap_dict sn) ''long_term_pending_turn_count'') (\<lambda>pending.
       Inr [(''applied'', PyBool True), (''session_id'', PyStr sid),
            (''memory_namespace'', PyStr (resolve_memory_namespace sid (bo_namespace b))),
            (''resume_mode'', PyBool (bo_resume b)),
            (''loaded_message_count'', PyInt (int (length (session_history (snap_dict sn))))),
            (''merged_message_count'', PyInt (int (length out))), (''summary_present'', PyBool (summary \<noteq> [])),
            (''vector_indexed_until'', vectors), (''long_term_indexed_until'', long_term),
            (''long_term_pending_turn_count'', pending),
            (''execution_checkpoint_restored'', PyBool (checkpoint \<noteq> None)),
            (''execution_checkpoint_status'', PyStr (case checkpoint of None \<Rightarrow> [] | Some c \<Rightarrow> str_or fr (dget c ''status'') [])),
            (''execution_checkpoint_id'', PyStr (case checkpoint of None \<Rightarrow> [] | Some c \<Rightarrow> str_or fr (dget c ''checkpoint_id'') [])),
            (''session_revision'', opt_value PyInt (snap_revision sn)),
            (''session_revision_supported'', PyBool (revision_supported sn)),
            (''session_consistency'', PyStr (consistency sn))])))"

text \<open>\<open>long_term\<close> is the outcome of \<open>ensure_long_term_components\<close>, which raises lease errors only.\<close>

definition bootstrap_session ::
  "(blob \<Rightarrow> string) \<Rightarrow> (rat \<Rightarrow> string) \<Rightarrow> 's world_env \<Rightarrow> (mem_exc, unit) res \<Rightarrow> string \<Rightarrow> bootstrap_request
   \<Rightarrow> ('s, pyval list \<times> pydict \<times> pydict \<times> string) rt" where
  "bootstrap_session sha fr env long_term sid b =
     (if sid = []
      then rt_ret (deepcopy_messages (bo_incoming b), [],
             [(''applied'', PyBool False), (''session_id'', PyStr []),
              (''memory_namespace'', PyStr (resolve_memory_namespace sid (bo_namespace b))),
              (''resume_mode'', PyBool (bo_resume b)), (''skip_reason'', PyStr ''missing_session_id'')], [])
      else
        rt_bind (reconcile_cancelled_execution_checkpoint sha fr env tree_canceller sid) (\<lambda>(sn, _).
        let summary = py_strip (str_or fr (dget_or (snap_dict sn) ''summary'' (PyStr [])) []) in
        rt_bind (rt_pure (if dict_get (snap_dict sn) checkpoint_key = None then Inr None
                          else map_sum id Some (validate_execution_checkpoint sha fr (dget (snap_dict sn) checkpoint_key)))) (\<lambda>checkpoint.
        rt_bind (rt_pure (bootstrap_messages fr sid b checkpoint (snap_dict sn))) (\<lambda>out.
        rt_bind (rt_res long_term) (\<lambda>_.
        rt_bind (rt_pure (prepare_info fr sid b checkpoint sn out summary)) (\<lambda>info.
          rt_ret (out, snap_dict sn, info, summary)))))))"

end
