(* ===== verification/InteractionRuntime.thy ===== *)
theory InteractionRuntime
  imports CheckpointRuntime
begin

section \<open>Durable interactions over a shared session\<close>

text \<open>
  \<open>DurableInteractionRuntime\<close> of \<open>interaction/runtime.py\<close>: loading the interaction a session waits for,
  recording an answer, abandoning a wait and asking for a recorded answer, on top of the checkpoint
  operations. The clock is the argument \<open>at_ms\<close>.
\<close>

record interaction_snapshot =
  is_request :: interaction_request
  is_checkpoint_id :: string
  is_receipt :: "interaction_receipt option"
  is_application :: "ix_application option"
  is_session :: session_snapshot

definition snapshot_response :: "interaction_snapshot \<Rightarrow> pyval option" where
  "snapshot_response x = map_option ic_response (is_receipt x)"

definition require_unapplied_callback_receipt :: "interaction_snapshot \<Rightarrow> (py_exc, interaction_snapshot) res" where
  "require_unapplied_callback_receipt x =
     (if is_receipt x = None then Inl (not_pending_error ''callback response did not produce a durable receipt'')
      else if is_application x \<noteq> None
      then Inl (not_pending_error ''interaction receipt was already applied by another worker'')
      else Inr x)"

text \<open>The part of \<open>_load\<close> after the session was loaded.\<close>

definition snapshot_of_session ::
  "(blob \<Rightarrow> string) \<Rightarrow> (rat \<Rightarrow> string) \<Rightarrow> string \<Rightarrow> string option \<Rightarrow> bool \<Rightarrow> session_snapshot \<Rightarrow> (py_exc, interaction_snapshot) res" where
  "snapshot_of_session sha fr sid iid require_active sn =
     bindr (validate_interaction_journal sha fr (dget (snap_dict sn) journal_key)) (\<lambda>j.
       case (case iid of Some i \<Rightarrow> if i = [] then ij_active_id j else Some i | None \<Rightarrow> ij_active_id j) of
         None \<Rightarrow> Inl (not_pending_error (''session has no pending interaction: '' @ repr_str sid))
       | Some i \<Rightarrow>
           if i = [] then Inl (not_pending_error (''session has no pending interaction: '' @ repr_str sid))
           else if require_active \<and> ij_active_id j \<noteq> Some i
           then Inl (not_pending_error (''interaction is no longer pending: '' @ repr_str i))
           else
             (case dict_get (ij_entries j) i of
                None \<Rightarrow> Inl (not_pending_error (''interaction does not exist: '' @ repr_str i))
              | Some e \<Rightarrow>
                  bindr (interaction_request_from_dict sha fr (Inr (interaction_request_to_dict (ie_request e)))) (\<lambda>q.
                  bindr (case ie_receipt e of
                           None \<Rightarrow> Inr None
                         | Some rc \<Rightarrow> map_sum id Some
                             (interaction_receipt_from_dict sha fr (Inr (interaction_receipt_to_dict rc)) (Some (Inl q)))) (\<lambda>rc.
                    Inr \<lparr>is_request = q, is_checkpoint_id = ie_checkpoint_id e, is_receipt = rc,
                         is_application = ie_application e, is_session = sn\<rparr>))))"

definition cancelled_failure :: "execution_cancellation \<Rightarrow> mem_exc" where
  "cancelled_failure c = FromStore (LeaseExc ExecutionCancelledError
     (if canc_reason c = [] then ''execution was cancelled'' else canc_reason c)
     (Some (canc_execution_id c)) (Some (canc_owner_id c)) (canc_token c))"

definition load_interaction ::
  "(blob \<Rightarrow> string) \<Rightarrow> (rat \<Rightarrow> string) \<Rightarrow> 's world_env \<Rightarrow> string \<Rightarrow> string option \<Rightarrow> bool \<Rightarrow> bool \<Rightarrow> ('s, interaction_snapshot) rt" where
  "load_interaction sha fr env sid iid require_active reconcile =
     (if py_strip sid = []
      then rt_raise (Raised (not_pending_error ''durable interaction requires a non-empty session_id'')) else
      rt_bind (if reconcile
               then rt_bind (reconcile_cancelled_execution_checkpoint sha fr env tree_canceller sid) (\<lambda>(sn, canc).
                      case canc of None \<Rightarrow> rt_ret sn | Some c \<Rightarrow> rt_raise (cancelled_failure c))
               else kernel_load_snapshot env sid) (\<lambda>sn.
        rt_pure (snapshot_of_session sha fr sid iid require_active sn)))"

definition interaction_load ::
  "(blob \<Rightarrow> string) \<Rightarrow> (rat \<Rightarrow> string) \<Rightarrow> 's world_env \<Rightarrow> string \<Rightarrow> string option \<Rightarrow> bool \<Rightarrow> ('s, interaction_snapshot) rt" where
  "interaction_load sha fr env sid iid require_active = load_interaction sha fr env sid iid require_active True"

definition load_active :: "(blob \<Rightarrow> string) \<Rightarrow> (rat \<Rightarrow> string) \<Rightarrow> 's world_env \<Rightarrow> string \<Rightarrow> ('s, interaction_snapshot) rt" where
  "load_active sha fr env sid = interaction_load sha fr env sid None True"

text \<open>\<open>except ExecutionCancelledError: reconcile; raise\<close>\<close>

definition cleanup_if_cancelled ::
  "(blob \<Rightarrow> string) \<Rightarrow> (rat \<Rightarrow> string) \<Rightarrow> 's world_env \<Rightarrow> string \<Rightarrow> mem_exc \<Rightarrow> ('s, 'a) rt" where
  "cleanup_if_cancelled sha fr env sid e =
     rt_bind (reconcile_cancelled_execution_checkpoint sha fr env tree_canceller sid) (\<lambda>_. rt_raise e)"

definition verify_or_cleanup ::
  "(blob \<Rightarrow> string) \<Rightarrow> (rat \<Rightarrow> string) \<Rightarrow> 's world_env \<Rightarrow> string \<Rightarrow> execution_fence option \<Rightarrow> ('s, unit) rt" where
  "verify_or_cleanup sha fr env sid fence =
     rt_catch (verify_execution_fence env fence)
       (\<lambda>e. if is_cancelled_error e then cleanup_if_cancelled sha fr env sid e else rt_raise e)"

definition answered_with :: "pyval \<Rightarrow> interaction_snapshot \<Rightarrow> bool" where
  "answered_with v x \<longleftrightarrow> (\<exists>rc \<in> set_option (is_receipt x). py_eq (ic_response rc) v)"

text \<open>The write of a new receipt failed: the owner was cancelled, or another worker was first.\<close>

definition receipt_not_written ::
  "(blob \<Rightarrow> string) \<Rightarrow> (rat \<Rightarrow> string) \<Rightarrow> 's world_env \<Rightarrow> string \<Rightarrow> string \<Rightarrow> pyval \<Rightarrow> execution_fence option \<Rightarrow> mem_exc
   \<Rightarrow> ('s, interaction_snapshot) rt" where
  "receipt_not_written sha fr env sid iid response effective e =
     (if is_cancelled_error e then cleanup_if_cancelled sha fr env sid e
      else if is_conflict e
      then rt_bind (interaction_load sha fr env sid (Some iid) False) (\<lambda>winner.
             if answered_with response winner
             then rt_bind (verify_or_cleanup sha fr env sid effective) (\<lambda>_. rt_ret winner)
             else rt_raise e)
      else rt_raise e)"

text \<open>The write succeeded: the receipt must be there when the interaction is loaded again.\<close>

definition receipt_written ::
  "(blob \<Rightarrow> string) \<Rightarrow> (rat \<Rightarrow> string) \<Rightarrow> 's world_env \<Rightarrow> string \<Rightarrow> string \<Rightarrow> interaction_receipt \<Rightarrow> session_snapshot
   \<Rightarrow> ('s, interaction_snapshot) rt" where
  "receipt_written sha fr env sid iid rc written =
     rt_bind (interaction_load sha fr env sid (Some iid) False) (\<lambda>seen.
       if (\<exists>r \<in> set_option (is_receipt seen). ic_receipt_id r = ic_receipt_id rc) then rt_ret seen
       else
         (case (snap_revision written, snap_revision (is_session seen)) of
            (Some a, Some b) \<Rightarrow>
              if a \<noteq> b then rt_raise (FromStore (SessionRevisionConflictError sid a b))
              else rt_raise (Raised (integrity_error ''interaction receipt write verification failed''))
          | _ \<Rightarrow> rt_raise (Raised (integrity_error ''interaction receipt write verification failed''))))"

definition store_receipt ::
  "(blob \<Rightarrow> string) \<Rightarrow> (rat \<Rightarrow> string) \<Rightarrow> 's world_env \<Rightarrow> string \<Rightarrow> string \<Rightarrow> interaction_snapshot \<Rightarrow> pyval \<Rightarrow> interaction_receipt
   \<Rightarrow> pydict \<Rightarrow> int option \<Rightarrow> execution_fence option \<Rightarrow> execution_fence option \<Rightarrow> ('s, interaction_snapshot) rt" where
  "store_receipt sha fr env sid iid now response rc state expected fence effective =
     rt_bind (rt_catch
         (rt_bind (save_interaction_session_state sha fr env sid state (is_checkpoint_id now) (is_session now)
                     (or_revision expected (is_session now)) fence) (\<lambda>written. rt_ret (Inl written)))
         (\<lambda>e. rt_bind (receipt_not_written sha fr env sid iid response effective e) (\<lambda>winner. rt_ret (Inr winner))))
       (\<lambda>outcome. case outcome of
          Inr winner \<Rightarrow> rt_ret winner
        | Inl written \<Rightarrow> receipt_written sha fr env sid iid rc written)"

text \<open>The same answer was already recorded: what the journal holds.\<close>

definition repeated_receipt ::
  "(blob \<Rightarrow> string) \<Rightarrow> (rat \<Rightarrow> string) \<Rightarrow> string \<Rightarrow> interaction_snapshot \<Rightarrow> interaction_journal \<Rightarrow> (py_exc, interaction_snapshot) res" where
  "repeated_receipt sha fr iid now j =
     (case dict_get (ij_entries j) iid of
        Some e \<Rightarrow>
          bindr (interaction_receipt_from_dict sha fr (Inr (opt_value interaction_receipt_to_dict (ie_receipt e)))
                   (Some (Inl (is_request now)))) (\<lambda>old.
            Inr (now\<lparr>is_receipt := Some old, is_application := ie_application e\<rparr>))
      | None \<Rightarrow> Inl (KeyExc iid))"

definition file_receipt ::
  "(blob \<Rightarrow> string) \<Rightarrow> (rat \<Rightarrow> string) \<Rightarrow> 's world_env \<Rightarrow> string \<Rightarrow> string \<Rightarrow> int option \<Rightarrow> execution_fence option \<Rightarrow> execution_fence option
   \<Rightarrow> interaction_snapshot \<Rightarrow> pyval \<Rightarrow> interaction_receipt \<Rightarrow> ('s, interaction_snapshot) rt" where
  "file_receipt sha fr env sid iid expected fence effective now normal rc =
     rt_bind (rt_pure (validate_interaction_journal sha fr (dget (snap_dict (is_session now)) journal_key))) (\<lambda>j.
     rt_bind (rt_pure (record_interaction_receipt sha fr (Inl rc) (journal_dict j))) (\<lambda>k.
       if py_eq (journal_dict k) (journal_dict j)
       then rt_bind (verify_or_cleanup sha fr env sid effective) (\<lambda>_. rt_pure (repeated_receipt sha fr iid now j))
       else
     rt_bind (rt_res (ensure_expected_revision (is_session now) sid expected)) (\<lambda>_.
       store_receipt sha fr env sid iid now normal rc (dict_set journal_key (journal_dict k) (snap_dict (is_session now)))
         expected fence effective)))"

definition record_receipt ::
  "(blob \<Rightarrow> string) \<Rightarrow> (rat \<Rightarrow> string) \<Rightarrow> 's world_env \<Rightarrow> int \<Rightarrow> string \<Rightarrow> string \<Rightarrow> raw_response \<Rightarrow> string \<Rightarrow> int option
   \<Rightarrow> execution_fence option \<Rightarrow> ('s, interaction_snapshot) rt" where
  "record_receipt sha fr env at_ms sid iid response who expected fence =
     rt_bind (interaction_load sha fr env sid (Some iid) False) (\<lambda>now.
     rt_bind (rt_pure (resolve_interaction_execution_fence sha fr sid (is_checkpoint_id now) (is_session now) fence)) (\<lambda>effective.
     rt_bind (rt_pure (normalize_interaction_response sha fr (Inl (is_request now)) response)) (\<lambda>normal.
       if answered_with normal now
       then rt_bind (verify_or_cleanup sha fr env sid effective) (\<lambda>_. rt_ret now)
       else
     rt_bind (rt_pure (build_interaction_receipt sha fr (Inl (is_request now)) normal (PyStr who) (PyInt at_ms)))
       (file_receipt sha fr env sid iid expected fence effective now normal))))"

subsection \<open>Abandoning a wait\<close>

definition cancel_arguments :: "(rat \<Rightarrow> string) \<Rightarrow> pyval \<Rightarrow> pyval \<Rightarrow> pyval \<Rightarrow> (py_exc, string \<times> string option \<times> string) res" where
  "cancel_arguments fr source_run expected_iid why =
     (let run = py_strip (str_or fr source_run []) in
      if run = [] then Inl (ValueExc ''source_run_id must be a non-empty string'') else
      bindr (case expected_iid of
               PyNone \<Rightarrow> Inr None
             | PyStr i \<Rightarrow>
                 if py_strip i = [] then Inl (ValueExc ''expected_interaction_id must be a non-empty string'')
                 else Inr (Some (py_strip i))
             | _ \<Rightarrow> Inl (ValueExc ''expected_interaction_id must be a string'')) (\<lambda>iid.
        case why of
          PyStr w \<Rightarrow> Inr (run, iid, w)
        | _ \<Rightarrow> Inl (ValueExc ''reason must be a string'')))"

text \<open>The new session state: the pending interaction answered with the cancellation, applied, and the checkpoint gone.\<close>

definition abandoned_state ::
  "(blob \<Rightarrow> string) \<Rightarrow> (rat \<Rightarrow> string) \<Rightarrow> int \<Rightarrow> string \<Rightarrow> string option \<Rightarrow> string \<Rightarrow> string \<Rightarrow> interaction_snapshot \<Rightarrow> (py_exc, pydict) res" where
  "abandoned_state sha fr at_ms run iid why who now =
     (let d = snap_dict (is_session now) in
      if iq_source_run_id (is_request now) \<noteq> run
      then Inl (not_pending_error ''active interaction belongs to a different source run'')
      else if iid \<noteq> None \<and> iid \<noteq> Some (iq_interaction_id (is_request now))
      then Inl (not_pending_error ''active interaction is a different interaction'')
      else if \<not> is_dict (dget d checkpoint_key)
      then Inl (integrity_error ''active interaction has no execution checkpoint'') else
      bindr (validate_execution_checkpoint sha fr (dget d checkpoint_key)) (\<lambda>c.
        if dget c ''source_run_id'' \<noteq> PyStr run \<or> dget c ''checkpoint_id'' \<noteq> PyStr (is_checkpoint_id now)
        then Inl (integrity_error ''active interaction checkpoint belongs to a different source run'') else
      bindr (validate_interaction_journal sha fr (dget d journal_key)) (\<lambda>j.
        case dict_get (ij_entries j) (iq_interaction_id (is_request now)) of
          None \<Rightarrow> Inl (integrity_error ''active interaction is missing from its journal'')
        | Some e \<Rightarrow>
            bindr (if ie_receipt e \<noteq> None then Inr d else
                   bindr (build_interaction_receipt sha fr (Inl (is_request now)) (cancel_response why) (PyStr who) (PyInt at_ms)) (\<lambda>rc.
                   bindr (record_interaction_receipt sha fr (Inl rc) (journal_dict j)) (\<lambda>k.
                     Inr (dict_set journal_key (journal_dict k) d)))) (\<lambda>d1.
            bindr (apply_checkpoint_interaction_receipt sha fr c (''cancelled:'' @ is_checkpoint_id now) d1) (\<lambda>(d2, _).
              Inr (without_checkpoint d2))))))"

definition cancelled_at :: "interaction_snapshot \<Rightarrow> interaction_snapshot \<Rightarrow> bool" where
  "cancelled_at now x \<longleftrightarrow>
     (\<exists>a \<in> set_option (is_application x). ia_applied_checkpoint_id a = ''cancelled:'' @ is_checkpoint_id now)"

text \<open>Another worker changed the session first: its cancellation counts, its application of the answer does not.\<close>

definition cancel_lost ::
  "interaction_snapshot \<Rightarrow> mem_exc \<Rightarrow> interaction_snapshot \<Rightarrow> (mem_exc, interaction_snapshot) res" where
  "cancel_lost now e winner =
     (if is_application winner = None then Inl e
      else if cancelled_at now winner then Inr winner
      else Inl (Raised (not_pending_error ''interaction was already applied without cancellation'')))"

definition cancel_written :: "interaction_snapshot \<Rightarrow> interaction_snapshot \<Rightarrow> (mem_exc, interaction_snapshot) res" where
  "cancel_written now seen =
     (if is_application seen = None
      then Inl (Raised (integrity_error ''cancelled interaction was not terminalized''))
      else if \<not> cancelled_at now seen
      then Inl (Raised (integrity_error ''cancelled interaction has a foreign application''))
      else Inr seen)"

definition cancel_pending ::
  "(blob \<Rightarrow> string) \<Rightarrow> (rat \<Rightarrow> string) \<Rightarrow> 's world_env \<Rightarrow> int \<Rightarrow> string \<Rightarrow> pyval \<Rightarrow> pyval \<Rightarrow> pyval \<Rightarrow> string \<Rightarrow> ('s, interaction_snapshot) rt" where
  "cancel_pending sha fr env at_ms sid source_run expected_iid why who =
     rt_bind (rt_pure (cancel_arguments fr source_run expected_iid why)) (\<lambda>(run, iid, reason).
     rt_bind (load_interaction sha fr env sid None True False) (\<lambda>now.
     rt_bind (rt_pure (abandoned_state sha fr at_ms run iid reason who now)) (\<lambda>state.
       let again = load_interaction sha fr env sid (Some (iq_interaction_id (is_request now))) False False in
     rt_bind (rt_catch
         (rt_bind (save_interaction_session_state sha fr env sid state (is_checkpoint_id now) (is_session now)
                     (snap_revision (is_session now)) None) (\<lambda>_. rt_ret None))
         (\<lambda>e. if is_conflict e
              then rt_bind again (\<lambda>winner. rt_bind (rt_res (cancel_lost now e winner)) (\<lambda>x. rt_ret (Some x)))
              else rt_raise e)) (\<lambda>outcome.
       case outcome of
         Some winner \<Rightarrow> rt_ret winner
       | None \<Rightarrow> rt_bind again (\<lambda>seen. rt_res (cancel_written now seen))))))"

definition require_receipt ::
  "(blob \<Rightarrow> string) \<Rightarrow> (rat \<Rightarrow> string) \<Rightarrow> 's world_env \<Rightarrow> string \<Rightarrow> string option \<Rightarrow> ('s, interaction_snapshot) rt" where
  "require_receipt sha fr env sid iid =
     rt_bind (interaction_load sha fr env sid iid True) (\<lambda>now.
       case is_receipt now of
         None \<Rightarrow> rt_raise (Raised (not_pending_error (''interaction has no recorded receipt: '' @ repr_str (iq_interaction_id (is_request now)))))
       | Some rc \<Rightarrow>
           rt_bind (rt_pure (normalize_interaction_response sha fr (Inl (is_request now)) (RawValue (ic_response rc)))) (\<lambda>normal.
             if \<not> py_eq normal (ic_response rc)
             then rt_raise (Raised (integrity_error ''recorded interaction receipt is not canonical for this runtime''))
             else rt_ret now))"

end
