(* ===== verification/RuntimeSafety.thy ===== *)
theory RuntimeSafety
  imports InteractionRuntime
begin

section \<open>Checkpoints and interactions under interference\<close>

text \<open>
  What the operations of \<open>CheckpointRuntime\<close> and \<open>InteractionRuntime\<close> do to a session while other workers
  use the same store. A triple \<open>hoare P m Q E\<close> says that from a store with \<open>P\<close> the operation \<open>m\<close> ends in
  \<open>Q\<close> when it returns and in \<open>E\<close> when it raises. The locale \<open>shared_sessions\<close> states what the operations
  rely on: loads read the session, writes compare and swap its revision, the two guarded writes look at the
  tombstone of the owner, and other workers never lower a revision nor change a session without raising it.
\<close>

subsection \<open>Triples\<close>

definition hoare :: "('s \<Rightarrow> bool) \<Rightarrow> ('s, 'a) rt \<Rightarrow> ('a \<Rightarrow> 's \<Rightarrow> bool) \<Rightarrow> (mem_exc \<Rightarrow> 's \<Rightarrow> bool) \<Rightarrow> bool" where
  "hoare P m Q E \<longleftrightarrow>
     (\<forall>w. P (snd w) \<longrightarrow> (\<forall>v w'. m w = (Inr v, w') \<longrightarrow> Q v (snd w')) \<and> (\<forall>e w'. m w = (Inl e, w') \<longrightarrow> E e (snd w')))"

lemma hoareD_Inr: "\<lbrakk>hoare P m Q E; m w = (Inr v, w'); P (snd w)\<rbrakk> \<Longrightarrow> Q v (snd w')"
  unfolding hoare_def by blast

lemma hoareD_Inl: "\<lbrakk>hoare P m Q E; m w = (Inl e, w'); P (snd w)\<rbrakk> \<Longrightarrow> E e (snd w')"
  unfolding hoare_def by blast

lemma rt_bind_Inr: "rt_bind m f w = (Inr v, w') \<longleftrightarrow> (\<exists>a w1. m w = (Inr a, w1) \<and> f a w1 = (Inr v, w'))"
  by (auto simp: rt_bind_def split: prod.splits sum.splits)

lemma rt_bind_Inl:
  "rt_bind m f w = (Inl e, w') \<longleftrightarrow> m w = (Inl e, w') \<or> (\<exists>a w1. m w = (Inr a, w1) \<and> f a w1 = (Inl e, w'))"
  by (auto simp: rt_bind_def split: prod.splits sum.splits)

lemma rt_catch_Inr:
  "rt_catch m h w = (Inr v, w') \<longleftrightarrow> m w = (Inr v, w') \<or> (\<exists>e w1. m w = (Inl e, w1) \<and> h e w1 = (Inr v, w'))"
  by (auto simp: rt_catch_def split: prod.splits sum.splits)

lemma rt_catch_Inl: "rt_catch m h w = (Inl x, w') \<longleftrightarrow> (\<exists>e w1. m w = (Inl e, w1) \<and> h e w1 = (Inl x, w'))"
  by (auto simp: rt_catch_def split: prod.splits sum.splits)

lemma hoare_ret: "(\<And>s. P s \<Longrightarrow> Q v s) \<Longrightarrow> hoare P (rt_ret v) Q E"
  by (simp add: hoare_def rt_ret_def)

lemma hoare_raise: "(\<And>s. P s \<Longrightarrow> E e s) \<Longrightarrow> hoare P (rt_raise e) Q E"
  by (simp add: hoare_def rt_raise_def)

lemma hoare_res: "\<lbrakk>\<And>s v. \<lbrakk>r = Inr v; P s\<rbrakk> \<Longrightarrow> Q v s; \<And>s e. \<lbrakk>r = Inl e; P s\<rbrakk> \<Longrightarrow> E e s\<rbrakk> \<Longrightarrow> hoare P (rt_res r) Q E"
  by (cases r) (simp_all add: hoare_def rt_res_def)

lemma hoare_pure:
  "\<lbrakk>\<And>s v. \<lbrakk>r = Inr v; P s\<rbrakk> \<Longrightarrow> Q v s; \<And>s e. \<lbrakk>r = Inl e; P s\<rbrakk> \<Longrightarrow> E (Raised e) s\<rbrakk> \<Longrightarrow> hoare P (rt_pure r) Q E"
  by (cases r) (simp_all add: hoare_def rt_pure_def rt_res_def from_py_def)

lemma hoare_bind: "\<lbrakk>hoare P m R E; \<And>v. hoare (R v) (f v) Q E\<rbrakk> \<Longrightarrow> hoare P (rt_bind m f) Q E"
  unfolding hoare_def rt_bind_Inr rt_bind_Inl by blast

lemma hoare_pure_bind:
  "\<lbrakk>\<And>v. r = Inr v \<Longrightarrow> hoare P (f v) Q E; \<And>e s. \<lbrakk>r = Inl e; P s\<rbrakk> \<Longrightarrow> E (Raised e) s\<rbrakk> \<Longrightarrow> hoare P (rt_bind (rt_pure r) f) Q E"
  unfolding hoare_def rt_bind_Inr rt_bind_Inl by (cases r) (simp_all add: rt_pure_def rt_res_def from_py_def)

lemma hoare_res_bind:
  "\<lbrakk>\<And>v. r = Inr v \<Longrightarrow> hoare P (f v) Q E; \<And>e s. \<lbrakk>r = Inl e; P s\<rbrakk> \<Longrightarrow> E e s\<rbrakk> \<Longrightarrow> hoare P (rt_bind (rt_res r) f) Q E"
  unfolding hoare_def rt_bind_Inr rt_bind_Inl by (cases r) (simp_all add: rt_res_def)

lemma hoare_catch: "\<lbrakk>hoare P m Q F; \<And>e. hoare (F e) (h e) Q E\<rbrakk> \<Longrightarrow> hoare P (rt_catch m h) Q E"
  unfolding hoare_def rt_catch_Inr rt_catch_Inl by blast

lemma hoare_store: "(\<And>n. hoare P (f (store_at env n)) Q E) \<Longrightarrow> hoare P (rt_store env f) Q E"
  by (simp add: hoare_def rt_store_def)

lemma rt_call_Inr: "rt_call env f w = (Inr v, w') \<longleftrightarrow> f (others env (fst w) (snd w)) = (Inr v, snd w') \<and> fst w' = Suc (fst w)"
  by (cases w') (auto simp: rt_call_def split: prod.splits sum.splits simp: map_sum_def)

lemma rt_call_Inl:
  "rt_call env f w = (Inl e, w') \<longleftrightarrow> (\<exists>x. e = FromStore x \<and> f (others env (fst w) (snd w)) = (Inl x, snd w')) \<and> fst w' = Suc (fst w)"
  by (cases w') (auto simp: rt_call_def split: prod.splits sum.splits simp: map_sum_def)

lemma hoare_call:
  assumes "\<And>n s r s'. \<lbrakk>P s; f (others env n s) = (Inr r, s')\<rbrakk> \<Longrightarrow> Q r s'"
    "\<And>n s x s'. \<lbrakk>P s; f (others env n s) = (Inl x, s')\<rbrakk> \<Longrightarrow> E (FromStore x) s'"
  shows "hoare P (rt_call env f) Q E"
  unfolding hoare_def rt_call_Inr rt_call_Inl using assms by blast

lemma hoare_weaken:
  assumes "hoare P m Q E" "\<And>s. P' s \<Longrightarrow> P s" "\<And>v s. Q v s \<Longrightarrow> Q' v s" "\<And>e s. E e s \<Longrightarrow> E' e s"
  shows "hoare P' m Q' E'"
  using assms unfolding hoare_def by blast

lemma hoare_if: "\<lbrakk>b \<Longrightarrow> hoare P m Q E; \<not> b \<Longrightarrow> hoare P m' Q E\<rbrakk> \<Longrightarrow> hoare P (if b then m else m') Q E"
  by simp

text \<open>An assumption that does not depend on the store may be taken out.\<close>

lemma hoare_assume: "(p \<Longrightarrow> hoare P m Q E) \<Longrightarrow> hoare (\<lambda>s. p \<and> P s) m Q E"
  by (auto simp: hoare_def)

lemma from_py_Inr [simp]: "from_py r = Inr v \<longleftrightarrow> r = Inr v"
  by (cases r) (simp_all add: from_py_def)

lemma plan_checkpoint_Inr:
  "plan_checkpoint sha fr aware sid validated request expected fence sn = Inr (stored, again, d) \<longleftrightarrow>
     stored_checkpoint sha fr (snap_dict sn) = Inr stored \<and> again = is_retry validated sn stored expected \<and>
     (again \<or> ensure_expected_revision sn sid expected = Inr ()) \<and>
     (\<exists>st. with_interaction sha fr validated request stored (snap_dict sn) = Inr st \<and>
       with_domain fr aware sid validated fence again stored (snap_dict sn) (dict_set checkpoint_key (PyDict validated) st) = Inr d)"
  unfolding plan_checkpoint_def Let_def bindr_eq_Inr sum.inject prod.inject from_py_Inr by auto

text \<open>Which entry of the journal a loaded interaction shows.\<close>

definition picks :: "string option \<Rightarrow> bool \<Rightarrow> interaction_journal \<Rightarrow> string \<Rightarrow> bool" where
  "picks iid req j i \<longleftrightarrow> i \<noteq> [] \<and> (iid = Some i \<or> (iid = None \<or> iid = Some []) \<and> ij_active_id j = Some i) \<and>
     (req \<longrightarrow> ij_active_id j = Some i)"

lemma snapshot_of_session_Inr:
  assumes "snapshot_of_session sha fr sid iid req sn = Inr x"
  obtains j i e q rc where "validate_interaction_journal sha fr (dget (snap_dict sn) journal_key) = Inr j" "picks iid req j i"
    "dict_get (ij_entries j) i = Some e"
    "interaction_request_from_dict sha fr (Inr (interaction_request_to_dict (ie_request e))) = Inr q"
    "(case ie_receipt e of None \<Rightarrow> Inr None
      | Some rc \<Rightarrow> map_sum id Some (interaction_receipt_from_dict sha fr (Inr (interaction_receipt_to_dict rc)) (Some (Inl q)))) = Inr rc"
    "x = \<lparr>is_request = q, is_checkpoint_id = ie_checkpoint_id e, is_receipt = rc, is_application = ie_application e, is_session = sn\<rparr>"
proof -
  obtain j where j: "validate_interaction_journal sha fr (dget (snap_dict sn) journal_key) = Inr j"
    using assms unfolding snapshot_of_session_def bindr_eq_Inr by blast
  note body = assms [unfolded snapshot_of_session_def j bindr_simps]
  define i where "i = (case iid of Some i \<Rightarrow> if i = [] then ij_active_id j else Some i | None \<Rightarrow> ij_active_id j)"
  obtain i' where i': "i = Some i'" using body unfolding i_def [symmetric] by (cases i) simp_all
  note rest = body [unfolded i_def [symmetric] i' option.case if_eq_Inr]
  obtain e where e: "dict_get (ij_entries j) i' = Some e" using rest by (cases "dict_get (ij_entries j) i'") simp_all
  have pick: "picks iid req j i'"
    using rest i' by (auto simp: i_def picks_def split: option.splits if_splits)
  show thesis
    using rest [unfolded e option.case bindr_eq_Inr sum.inject] by (elim conjE exE) (rule that [OF j pick e], assumption+, erule sym)
qed

lemma snapshot_session: "snapshot_of_session sha fr sid iid req sn = Inr x \<Longrightarrow> is_session x = sn"
  by (erule snapshot_of_session_Inr) simp

text \<open>An interaction as the session it was loaded from has it.\<close>

definition reports :: "(blob \<Rightarrow> string) \<Rightarrow> (rat \<Rightarrow> string) \<Rightarrow> interaction_snapshot \<Rightarrow> bool" where
  "reports sha fr x \<longleftrightarrow> (\<exists>j e. validate_interaction_journal sha fr (dget (snap_dict (is_session x)) journal_key) = Inr j \<and>
     dict_get (ij_entries j) (iq_interaction_id (is_request x)) = Some e \<and> ie_request e = is_request x \<and>
     ie_checkpoint_id e = is_checkpoint_id x \<and> ie_receipt e = is_receipt x \<and> ie_application e = is_application x)"

lemma snapshot_reports_at:
  assumes "snapshot_of_session sha fr sid iid req sn = Inr x"
  shows "\<exists>j e i. validate_interaction_journal sha fr (dget (snap_dict sn) journal_key) = Inr j \<and> picks iid req j i \<and>
     i = iq_interaction_id (is_request x) \<and> dict_get (ij_entries j) i = Some e \<and> ie_request e = is_request x \<and>
     ie_checkpoint_id e = is_checkpoint_id x \<and> ie_receipt e = is_receipt x \<and> ie_application e = is_application x"
  using assms
proof (rule snapshot_of_session_Inr)
  fix j i e q rc
  assume j: "validate_interaction_journal sha fr (dget (snap_dict sn) journal_key) = Inr j" and pick: "picks iid req j i"
    and e: "dict_get (ij_entries j) i = Some e"
    and q: "interaction_request_from_dict sha fr (Inr (interaction_request_to_dict (ie_request e))) = Inr q"
    and rc: "(case ie_receipt e of None \<Rightarrow> Inr None
      | Some rc \<Rightarrow> map_sum id Some (interaction_receipt_from_dict sha fr (Inr (interaction_receipt_to_dict rc)) (Some (Inl q)))) = Inr rc"
    and x: "x = \<lparr>is_request = q, is_checkpoint_id = ie_checkpoint_id e, is_receipt = rc, is_application = ie_application e, is_session = sn\<rparr>"
  have ok: "entry_ok sha i e" using entry_ok_get [OF journal_decoded [OF j] e] .
  then have same: "q = ie_request e"
    using q by (simp add: entry_ok_def request_from_dict_raw interaction_request.round_trip)
  moreover have "rc = ie_receipt e"
    using rc ok unfolding same
    by (auto simp: entry_ok_def receipt_from_dict_simps(2) map_sum_Some_Inr bound_to_Some split: option.splits)
  moreover have "i = iq_interaction_id (ie_request e)" using ok by (simp add: entry_ok_def)
  ultimately show ?thesis using j pick e x by auto
qed

lemma snapshot_reports: "snapshot_of_session sha fr sid iid req (is_session x) = Inr x \<Longrightarrow> reports sha fr x"
  using snapshot_reports_at [of sha fr sid iid req "is_session x" x] by (auto simp: reports_def)

lemma repeated_parts: "repeated_receipt sha fr iid now j = Inr x \<Longrightarrow> is_session x = is_session now \<and> is_receipt x \<noteq> None"
  by (auto simp: repeated_receipt_def bindr_eq_Inr split: option.splits)

lemma repeated_reports:
  assumes now: "snapshot_of_session sha fr sid (Some iid) req (is_session now) = Inr now"
    and j: "validate_interaction_journal sha fr (dget (snap_dict (is_session now)) journal_key) = Inr j"
    and x: "repeated_receipt sha fr iid now j = Inr x"
  shows "reports sha fr x"
proof -
  obtain e old where e: "dict_get (ij_entries j) iid = Some e"
    and old: "interaction_receipt_from_dict sha fr (Inr (opt_value interaction_receipt_to_dict (ie_receipt e))) (Some (Inl (is_request now))) = Inr old"
    and x: "x = now\<lparr>is_receipt := Some old, is_application := ie_application e\<rparr>"
    using x by (auto simp: repeated_receipt_def bindr_eq_Inr split: option.splits)
  have ok: "entry_ok sha iid e" using entry_ok_get [OF journal_decoded [OF j] e] .
  obtain e' where "picks (Some iid) req j (iq_interaction_id (is_request now))"
    "dict_get (ij_entries j) (iq_interaction_id (is_request now)) = Some e'" "ie_request e' = is_request now" "ie_checkpoint_id e' = is_checkpoint_id now"
    using snapshot_reports_at [OF now] j by auto
  moreover have "iid \<noteq> []" using ok by (auto simp: entry_ok_def request_ok_def stripped_def)
  ultimately have same: "iid = iq_interaction_id (is_request now)" "e' = e" using e by (auto simp: picks_def)
  have rq: "request_ok sha (is_request now)" using ok same by (simp add: entry_ok_def \<open>ie_request e' = is_request now\<close> [unfolded same])
  have "ie_receipt e = Some old"
  proof (cases "ie_receipt e")
    case None
    then show ?thesis using old by (simp add: receipt_from_dict_simps(3) interaction_receipt_from_raw_def)
  next
    case (Some r)
    then have "receipt_ok sha r" using ok by (simp add: entry_ok_def)
    then show ?thesis using old Some by (simp add: receipt_from_dict_simps(2) bound_to_Some [OF rq])
  qed
  then show ?thesis
    unfolding reports_def x using j e same \<open>ie_request e' = is_request now\<close> \<open>ie_checkpoint_id e' = is_checkpoint_id now\<close> by simp
qed

subsection \<open>What the operations rely on\<close>

text \<open>A write that compares the revision, asks for \<open>ok\<close>, changes the store exactly as \<open>commits\<close> says, and changes nothing when it fails.\<close>

definition cas_method ::
  "(string \<Rightarrow> pydict \<Rightarrow> 's \<Rightarrow> 's \<Rightarrow> bool) \<Rightarrow> ('s \<Rightarrow> string \<Rightarrow> int) \<Rightarrow> ('s \<Rightarrow> bool) \<Rightarrow> string \<Rightarrow> (pydict \<Rightarrow> int \<Rightarrow> 's \<Rightarrow> (exec_exc, int) res \<times> 's) \<Rightarrow> bool" where
  "cas_method commits rv ok sid g \<longleftrightarrow> (\<forall>d r s.
     (\<forall>r' s'. g d r s = (Inr r', s') \<longrightarrow> ok s \<and> rv s sid = r \<and> r' = r + 1 \<and> commits sid d s s') \<and>
     (\<forall>e s'. g d r s = (Inl e, s') \<longrightarrow> s' = s))"

lemma cas_Inr: "\<lbrakk>cas_method commits rv ok sid g; g d r s = (Inr r', s')\<rbrakk> \<Longrightarrow>
    ok s \<and> rv s sid = r \<and> r' = r + 1 \<and> commits sid d s s'"
  by (simp add: cas_method_def)

lemma cas_Inl: "\<lbrakk>cas_method commits rv ok sid g; g d r s = (Inl e, s')\<rbrakk> \<Longrightarrow> s' = s"
  by (simp add: cas_method_def)

locale shared_sessions =
  fixes env :: "'s world_env"
    and content :: "'s \<Rightarrow> string \<Rightarrow> pydict"
    and rv :: "'s \<Rightarrow> string \<Rightarrow> int"
    and tombstone :: "'s \<Rightarrow> string \<Rightarrow> string \<Rightarrow> execution_cancellation option"
    and holds :: "nat \<Rightarrow> 's \<Rightarrow> string \<Rightarrow> string \<Rightarrow> int \<Rightarrow> bool"
    and evolve :: "pydict \<Rightarrow> pydict \<Rightarrow> bool"
    and commits :: "string \<Rightarrow> pydict \<Rightarrow> 's \<Rightarrow> 's \<Rightarrow> bool"
  assumes commits_session: "commits sid d s s' \<Longrightarrow> content s' sid = d \<and> rv s' sid = rv s sid + 1"
    and loads: "so_load_with_revision (rs_sessions (store_at env n)) =
      Some (\<lambda>sid s. (Inr \<lparr>snap_state = PyDict (content s sid), snap_revision = Some (rv s sid)\<rparr>, s))"
    and saves: "\<exists>f. so_save_if_revision (rs_sessions (store_at env n)) = Some f \<and> (\<forall>sid. cas_method commits rv (\<lambda>s. True) sid (f sid))"
    and saves_fenced: "so_save_if_revision_and_fence (rs_sessions (store_at env n)) = Some g \<Longrightarrow>
      cas_method commits rv (\<lambda>s. holds n s e o' t) sid (\<lambda>d r. g sid d r e o' t)"
    and saves_cancelled: "rs_save_cancelled (store_at env n) = Some h \<Longrightarrow>
      cas_method commits rv (\<lambda>s. tombstone s e o' \<noteq> None) sid (\<lambda>d r. h sid d r e o')"
    and saves_not_cancelled: "rs_save_not_cancelled (store_at env n) = Some h \<Longrightarrow>
      cas_method commits rv (\<lambda>s. tombstone s e o' = None) sid (\<lambda>d r. h sid d r e o')"
    and loads_cancellation: "\<lbrakk>rs_load_cancellation (store_at env n) = Some l; l e o' s = (r, s')\<rbrakk> \<Longrightarrow>
      s' = s \<and> (\<forall>c. r = Inr c \<longrightarrow> c = tombstone s e o')"
    and verifies: "\<lbrakk>rs_verify_lease (store_at env n) = Some v; v e o' t s = (r', s')\<rbrakk> \<Longrightarrow> s' = s"
    and others_grow: "rv s x \<le> rv (others env n s) x"
    and others_commit: "rv (others env n s) x = rv s x \<Longrightarrow> content (others env n s) x = content s x"
    and others_tombstones: "tombstone s e o' = Some canc \<Longrightarrow> tombstone (others env n s) e o' = Some canc"
    and others_evolve: "evolve (content s x) (content (others env n s) x)"
    and evolve_refl: "evolve d d"
    and evolve_trans: "\<lbrakk>evolve c d; evolve d d'\<rbrakk> \<Longrightarrow> evolve c d'"
begin

definition cancelled :: "'s \<Rightarrow> string \<Rightarrow> string \<Rightarrow> bool" where
  "cancelled s e o' \<longleftrightarrow> tombstone s e o' \<noteq> None"

lemma not_cancelled: "\<not> cancelled s e o' \<longleftrightarrow> tombstone s e o' = None"
  by (simp add: cancelled_def)

lemmas save_when_cancelled = saves_cancelled [folded cancelled_def]
lemmas save_unless = saves_not_cancelled [folded not_cancelled]

definition stable :: "('s \<Rightarrow> bool) \<Rightarrow> bool" where
  "stable J \<longleftrightarrow> (\<forall>n s. J s \<longrightarrow> J (others env n s))"

text \<open>
  A snapshot that was the content of the session: it still is if the revision is the same, and other workers
  changed it only as they may.
\<close>

definition saw :: "string \<Rightarrow> session_snapshot \<Rightarrow> 's \<Rightarrow> bool" where
  "saw sid sn s \<longleftrightarrow> (\<exists>d r. sn = \<lparr>snap_state = PyDict d, snap_revision = Some r\<rparr> \<and> 0 \<le> r \<and> r \<le> rv s sid \<and>
     (rv s sid = r \<longrightarrow> content s sid = d) \<and> evolve d (content s sid))"

definition now_in :: "string \<Rightarrow> 's \<Rightarrow> session_snapshot" where
  "now_in sid s = \<lparr>snap_state = PyDict (content s sid), snap_revision = Some (rv s sid)\<rparr>"

lemma stable_others: "\<lbrakk>stable J; J s\<rbrakk> \<Longrightarrow> J (others env n s)"
  by (simp add: stable_def)

lemma stable_conj: "\<lbrakk>stable J; stable K\<rbrakk> \<Longrightarrow> stable (\<lambda>s. J s \<and> K s)"
  by (simp add: stable_def)

lemma stable_saw: "stable (saw sid sn)"
  unfolding stable_def saw_def
proof (intro allI impI, elim exE conjE)
  fix n s d r
  assume sn: "sn = \<lparr>snap_state = PyDict d, snap_revision = Some r\<rparr>" "0 \<le> r"
    and r: "r \<le> rv s sid" "rv s sid = r \<longrightarrow> content s sid = d" "evolve d (content s sid)"
  have "evolve d (content (others env n s) sid)" using evolve_trans [OF r(3) others_evolve] .
  then show "\<exists>d r. sn = \<lparr>snap_state = PyDict d, snap_revision = Some r\<rparr> \<and> 0 \<le> r \<and> r \<le> rv (others env n s) sid \<and>
      (rv (others env n s) sid = r \<longrightarrow> content (others env n s) sid = d) \<and> evolve d (content (others env n s) sid)"
    using sn r others_grow [of s sid n] others_commit [of n s sid] by (intro exI [of _ d] exI [of _ r]) auto
qed

lemma saw_now: "\<lbrakk>saw sid sn s; snap_revision sn = Some (rv s sid)\<rbrakk> \<Longrightarrow> sn = now_in sid s"
  by (auto simp: saw_def now_in_def)

lemma load_in_store:
  "load_session_snapshot (rs_sessions (store_at env n)) sid s =
     (if rv s sid < 0 then (Inl (SessionStoreCorruptionError sid ''revision must be a non-negative integer''), s)
      else (Inr (now_in sid s), s))"
proof -
  obtain f where "so_save_if_revision (rs_sessions (store_at env n)) = Some f" using saves by blast
  then show ?thesis
    by (simp add: load_session_snapshot_def has_revision_capability_def loads validate_snapshot_def validate_revision_def now_in_def)
qed

lemma load_now_triple:
  assumes "stable J" "sid \<noteq> []"
  shows "hoare J (kernel_load_snapshot env sid) (\<lambda>sn s. J s \<and> sn = now_in sid s \<and> 0 \<le> rv s sid) (\<lambda>_. J)"
  unfolding kernel_load_snapshot_def if_not_P [OF assms(2)]
  by (rule hoare_store, rule hoare_call)
    (auto simp: load_in_store stable_others [OF assms(1)] split: if_splits)

lemma now_saw: "\<lbrakk>sn = now_in sid s; 0 \<le> rv s sid\<rbrakk> \<Longrightarrow> saw sid sn s"
  by (simp add: saw_def now_in_def evolve_refl)

lemma load_triple:
  assumes "stable J" "sid \<noteq> []"
  shows "hoare J (kernel_load_snapshot env sid) (\<lambda>sn s. J s \<and> saw sid sn s) (\<lambda>_. J)"
  by (rule hoare_weaken [OF load_now_triple [OF assms]]) (auto intro: now_saw)

lemma fence_triple:
  assumes "stable J"
  shows "hoare J (verify_execution_fence env fence) (\<lambda>_. J) (\<lambda>_. J)"
proof (cases fence)
  case None
  then show ?thesis by (simp add: verify_execution_fence_def hoare_ret)
next
  case (Some k)
  have "hoare J (case rs_verify_lease (store_at env n) of
              None \<Rightarrow> rt_raise (FromStore (TypeError ''execution fence requires a lease-aware session store''))
            | Some f \<Rightarrow> rt_bind (rt_call env (f (fence_execution_id k) (fence_owner_id k) (fence_token k))) (\<lambda>_. rt_ret ()))
         (\<lambda>_. J) (\<lambda>_. J)" for n
    using verifies [of n] stable_others [OF assms]
    by (cases "rs_verify_lease (store_at env n)")
      (fastforce intro!: hoare_raise hoare_bind [where R = "\<lambda>_. J"] hoare_call hoare_ret)+
  then show ?thesis unfolding verify_execution_fence_def Some option.case by (rule hoare_store)
qed

text \<open>A write under a fence has an active lease; an unfenced one needs nothing.\<close>

definition fence_held :: "execution_fence option \<Rightarrow> 's \<Rightarrow> bool" where
  "fence_held fence s \<longleftrightarrow>
     (\<forall>k. fence = Some k \<longrightarrow> (\<exists>n. holds n s (fence_execution_id k) (fence_owner_id k) (fence_token k)))"

lemma write_in_store:
  assumes "save_session_snapshot (rs_sessions (store_at env n)) sid d expected fence s = (r, s')"
  shows "(\<exists>sn. r = Inr sn \<and> expected = Some (rv s sid) \<and> sn = now_in sid s' \<and> fence_held fence s \<and> commits sid d s s') \<or>
    (\<exists>e. r = Inl e \<and> s' = s)"
proof -
  obtain f where f: "so_save_if_revision (rs_sessions (store_at env n)) = Some f" "cas_method commits rv (\<lambda>s. True) sid (f sid)"
    using saves by blast
  have caps: "has_revision_capability (rs_sessions (store_at env n)) = Inr True"
    using f(1) by (simp add: has_revision_capability_def loads)
  have wr: "(\<exists>m. x = Inr m \<and> rv s sid = e0 \<and> m = e0 + 1 \<and> fence_held fence s \<and> commits sid d s s1) \<or> (\<exists>z. x = Inl z \<and> s1 = s)"
    if "revisioned_write (rs_sessions (store_at env n)) sid d e0 fence s = (x, s1)" for x s1 e0
  proof (cases fence)
    case None
    then show ?thesis
      using that f(1) cas_Inr [OF f(2)] cas_Inl [OF f(2)] by (cases x) (fastforce simp: revisioned_write_def fence_held_def)+
  next
    case (Some k)
    show ?thesis
    proof (cases "has_fenced_revision_capability (rs_sessions (store_at env n)) = Inr True \<and>
        so_save_if_revision_and_fence (rs_sessions (store_at env n)) \<noteq> None")
      case True
      then obtain g where g: "so_save_if_revision_and_fence (rs_sessions (store_at env n)) = Some g" by blast
      note cas = saves_fenced [OF g, of "fence_execution_id k" "fence_owner_id k" "fence_token k" sid]
      have "g sid d e0 (fence_execution_id k) (fence_owner_id k) (fence_token k) s = (x, s1)"
        using that True g Some by (simp add: revisioned_write_def)
      then show ?thesis using cas_Inr [OF cas] cas_Inl [OF cas] by (cases x) (fastforce simp: fence_held_def Some)+
    next
      case False
      then show ?thesis
        using that Some by (auto simp: revisioned_write_def split: sum.splits option.splits if_splits)
    qed
  qed
  consider (fail) e where "r = Inl e" "s' = s"
    | (tried) e0 x where "expected = Some e0" "0 \<le> e0" "revisioned_write (rs_sessions (store_at env n)) sid d e0 fence s = (x, s')"
        "r = bindr x (\<lambda>n'. bindr (validate_revision (Some n') sid) (\<lambda>rev.
            raise_if (rev \<le> e0) (SessionStoreCorruptionError sid ''save_if_revision() did not advance the revision'')
              (Inr \<lparr>snap_state = PyDict d, snap_revision = Some rev\<rparr>)))"
    using assms unfolding save_session_snapshot_def caps
    by (cases "case fence of None \<Rightarrow> Inr () | Some k \<Rightarrow> validate_execution_fence_target sid (fence_execution_id k)"; cases expected)
      (auto simp: validate_revision_def split: if_splits prod.splits)
  then show ?thesis
  proof cases
    case tried
    from wr [OF tried(3)] show ?thesis
    proof
      assume "\<exists>m. x = Inr m \<and> rv s sid = e0 \<and> m = e0 + 1 \<and> fence_held fence s \<and> commits sid d s s'"
      then show ?thesis using tried(1,2,4) by (auto simp: validate_revision_def now_in_def dest: commits_session)
    next
      assume "\<exists>z. x = Inl z \<and> s' = s"
      then show ?thesis using tried(4) by auto
    qed
  qed simp
qed

text \<open>
  A write of a state computed from a snapshot: it replaces exactly that snapshot, or it leaves the store
  as other workers made it.
\<close>

lemma write_triple:
  assumes "stable J"
    and step: "\<And>s s'. \<lbrakk>J s; sn = now_in sid s; fence_held fence s; commits sid d s s'\<rbrakk> \<Longrightarrow> K s'"
  shows "hoare (\<lambda>s. J s \<and> saw sid sn s) (write_session env sid d (snap_revision sn) fence)
    (\<lambda>sn' s. K s) (\<lambda>_ s. J s \<and> saw sid sn s)"
  unfolding write_session_def
proof (rule hoare_store, rule hoare_call)
  fix n m s sn' s'
  assume pre: "J s \<and> saw sid sn s"
    and run: "save_session_snapshot (rs_sessions (store_at env n)) sid d (snap_revision sn) fence (others env m s) = (Inr sn', s')"
  then have "snap_revision sn = Some (rv (others env m s) sid)" "fence_held fence (others env m s)"
      "commits sid d (others env m s) s'"
    using write_in_store [OF run] by auto
  then show "K s'"
    using step saw_now stable_others [OF assms(1)] stable_others [OF stable_saw] pre by blast
next
  fix n m s x s'
  assume pre: "J s \<and> saw sid sn s"
    and run: "save_session_snapshot (rs_sessions (store_at env n)) sid d (snap_revision sn) fence (others env m s) = (Inl x, s')"
  then show "J s' \<and> saw sid sn s'"
    using write_in_store [OF run] stable_others [OF assms(1)] stable_others [OF stable_saw] by auto
qed

lemma expected_revision: "\<lbrakk>ensure_expected_revision sn sid expected = Inr (); saw sid' sn s\<rbrakk> \<Longrightarrow> or_revision expected sn = snap_revision sn"
  by (auto simp: ensure_expected_revision_def or_revision_def saw_def split: option.splits if_splits)

lemma keep_errors_triple: "hoare P m Q (\<lambda>_. F) \<Longrightarrow> hoare P (keep_store_errors lead m) Q (\<lambda>_. F)"
  unfolding keep_store_errors_def by (rule hoare_catch, assumption) (simp add: hoare_raise)

text \<open>
  \<open>save_session_state\<close> with the revision of an earlier snapshot behaves as a write over that snapshot.
\<close>

lemma save_state_triple:
  assumes "stable J" "sid \<noteq> []"
    and step: "\<And>s s'. \<lbrakk>J s; sn = now_in sid s; fence_held fence s; commits sid d s s'\<rbrakk> \<Longrightarrow> K s'"
  shows "hoare (\<lambda>s. J s \<and> saw sid sn s) (save_session_state env sid d (snap_revision sn) fence)
    (\<lambda>_. K) (\<lambda>_ s. J s \<and> saw sid sn s)"
  unfolding save_session_state_def if_not_P [OF assms(2)]
proof (rule hoare_bind, rule load_triple [OF stable_conj [OF assms(1) stable_saw] assms(2)], rule hoare_res_bind)
  fix now :: session_snapshot and u :: unit
  have same: "or_revision (snap_revision sn) now = snap_revision sn" if "saw sid sn s" for s
    using that by (auto simp: saw_def or_revision_def)
  show "hoare (\<lambda>s. (J s \<and> saw sid sn s) \<and> saw sid now s)
      (write_session env sid d (or_revision (snap_revision sn) now) fence) (\<lambda>_. K) (\<lambda>_ s. J s \<and> saw sid sn s)"
  proof (cases "\<exists>s. saw sid sn s")
    case True
    then have "or_revision (snap_revision sn) now = snap_revision sn" using same by blast
    then show ?thesis by (simp only:) (rule hoare_weaken [OF write_triple [OF assms(1) step]], auto)
  qed (simp add: hoare_def)
qed auto

lemma call_cas_triple:
  assumes "stable J" and cas: "cas_method commits rv ok sid g"
    and step: "\<And>s s'. \<lbrakk>J s; sn = now_in sid s; ok s; commits sid d s s'\<rbrakk> \<Longrightarrow> K s'" and n: "snap_revision sn = Some n"
  shows "hoare (\<lambda>s. J s \<and> saw sid sn s) (rt_call env (g d n)) (\<lambda>r s. r = n + 1 \<and> K s) (\<lambda>_ s. J s \<and> saw sid sn s)"
proof (rule hoare_call)
  fix m s r s' assume pre: "J s \<and> saw sid sn s" and run: "g d n (others env m s) = (Inr r, s')"
  from cas_Inr [OF cas run] n have "snap_revision sn = Some (rv (others env m s) sid)" "ok (others env m s)" "r = n + 1"
      "commits sid d (others env m s) s'" by auto
  then show "r = n + 1 \<and> K s'"
    using step saw_now stable_others [OF assms(1)] stable_others [OF stable_saw] pre by blast
next
  fix m s x s' assume pre: "J s \<and> saw sid sn s" and run: "g d n (others env m s) = (Inl x, s')"
  then show "J s' \<and> saw sid sn s'"
    using cas_Inl [OF cas run] stable_others [OF assms(1)] stable_others [OF stable_saw] by auto
qed

subsection \<open>The checkpoint operations\<close>

lemma snap_dict_now [simp]: "snap_dict (now_in sid s) = content s sid"
  by (simp add: snap_dict_def now_in_def)

lemma snap_revision_now [simp]: "snap_revision (now_in sid s) = Some (rv s sid)"
  by (simp add: now_in_def)

lemma saw_revision: "saw sid sn s \<Longrightarrow> snap_revision sn \<noteq> None"
  by (auto simp: saw_def)

lemma commit_cancelled_triple:
  assumes "stable J"
    and step: "\<And>s s'. \<lbrakk>J s; sn = now_in sid s; cancelled s (cd_execution_id m) (cd_owner_id m); commits sid d s s'\<rbrakk> \<Longrightarrow> K s'"
    and n: "snap_revision sn = Some r"
  shows "hoare (\<lambda>s. J s \<and> saw sid sn s) (commit_cancelled env sid m canc d r)
    (\<lambda>v s. snd v = Some canc \<and> K s) (\<lambda>_ s. J s \<and> saw sid sn s)"
  unfolding commit_cancelled_def
proof (rule hoare_store)
  fix k
  show "hoare (\<lambda>s. J s \<and> saw sid sn s)
      (case rs_save_cancelled (store_at env k) of None \<Rightarrow> rt_raise cancellation_unsupported
       | Some save_c \<Rightarrow> rt_bind (rt_call env (save_c sid d r (cd_execution_id m) (cd_owner_id m))) (\<lambda>x.
             if x \<le> r then rt_raise (persistence_error ''cancellation-aware checkpoint CAS returned an invalid revision'')
             else rt_ret (\<lparr>snap_state = PyDict d, snap_revision = Some x\<rparr>, Some canc)))
      (\<lambda>v s. snd v = Some canc \<and> K s) (\<lambda>_ s. J s \<and> saw sid sn s)"
  proof (cases "rs_save_cancelled (store_at env k)")
    case (Some h)
    note cas = save_when_cancelled [OF Some, of "cd_execution_id m" "cd_owner_id m" sid]
    show ?thesis
      unfolding Some option.case
      by (rule hoare_bind [OF call_cas_triple [OF assms(1) cas step n]]) (auto intro!: hoare_ret hoare_raise)
  qed (simp add: hoare_raise)
qed

lemma stable_tombstone: "stable (\<lambda>s. tombstone s e o' = Some canc)"
  by (simp add: stable_def others_tombstones)

lemma cancel_round_triple:
  assumes J: "stable J"
    and step: "\<And>s s' d'. \<lbrakk>J s; sn = now_in sid s; canc_execution_id canc = cd_execution_id m; canc_owner_id canc = cd_owner_id m;
        tombstone s (cd_execution_id m) (cd_owner_id m) = Some canc; cancelled_state sha fr who canc c (snap_dict sn) = Inr d';
        commits sid d' s s'\<rbrakk> \<Longrightarrow> K canc s'"
    and again: "\<And>e. hoare J (again e) Q (\<lambda>_. J)" and Q: "\<And>v s canc. \<lbrakk>snd v = Some canc; K canc s\<rbrakk> \<Longrightarrow> Q v s"
  shows "hoare (\<lambda>s. (J s \<and> tombstone s (cd_execution_id m) (cd_owner_id m) = Some canc) \<and> saw sid sn s)
    (cancel_round sha fr env who sid sn c m again canc) Q (\<lambda>_. J)"
proof (cases "canc_execution_id canc = cd_execution_id m \<and> canc_owner_id canc = cd_owner_id m")
  case True
  let ?J = "\<lambda>s. J s \<and> tombstone s (cd_execution_id m) (cd_owner_id m) = Some canc"
  have "hoare (\<lambda>s. ?J s \<and> saw sid sn s) (case snap_revision sn of
          None \<Rightarrow> rt_raise (FromStore (TypeError ''execution checkpoint cancellation requires revisioned storage''))
        | Some n \<Rightarrow> rt_catch (commit_cancelled env sid m canc d n) (\<lambda>e. if is_conflict e then again e else rt_raise e)) Q (\<lambda>_. J)"
    if d: "cancelled_state sha fr who canc c (snap_dict sn) = Inr d" for d
  proof (cases "snap_revision sn")
    case (Some r)
    have "hoare (\<lambda>s. ?J s \<and> saw sid sn s) (commit_cancelled env sid m canc d r) Q (\<lambda>_ s. ?J s \<and> saw sid sn s)"
      by (rule hoare_weaken [OF commit_cancelled_triple [where K = "K canc", OF stable_conj [OF J stable_tombstone] _ Some]])
        (use step True d Q in auto)
    then show ?thesis
      unfolding Some option.case by (rule hoare_catch) (auto intro: hoare_weaken [OF again] hoare_raise)
  qed (auto intro: hoare_raise)
  then have "hoare (\<lambda>s. ?J s \<and> saw sid sn s) (rt_bind (rt_pure (cancelled_state sha fr who canc c (snap_dict sn))) (\<lambda>state.
        case snap_revision sn of
          None \<Rightarrow> rt_raise (FromStore (TypeError ''execution checkpoint cancellation requires revisioned storage''))
        | Some n \<Rightarrow> rt_catch (commit_cancelled env sid m canc state n) (\<lambda>e. if is_conflict e then again e else rt_raise e)))
      Q (\<lambda>_. J)"
    by (rule hoare_pure_bind) auto
  then show ?thesis using True by (simp add: cancel_round_def)
qed (auto simp: cancel_round_def intro: hoare_raise)

lemma reconcile_bound_triple:
  assumes J: "stable J" and none: "\<And>s. \<lbrakk>J s; saw sid sn s\<rbrakk> \<Longrightarrow> Q (sn, None) s"
    and round: "\<And>canc. hoare (\<lambda>s. (J s \<and> tombstone s (cd_execution_id m) (cd_owner_id m) = Some canc) \<and> saw sid sn s)
        (cancel_round sha fr env who sid sn c m again canc) Q (\<lambda>_. J)"
  shows "hoare (\<lambda>s. J s \<and> saw sid sn s) (reconcile_bound sha fr env who sid sn c m again) Q (\<lambda>_. J)"
  unfolding reconcile_bound_def
proof (rule hoare_store)
  fix k
  let ?P = "\<lambda>s. J s \<and> saw sid sn s"
  let ?T = "\<lambda>found s. ?P s \<and> found = tombstone s (cd_execution_id m) (cd_owner_id m)"
  have body: "hoare (?T found) (case found of None \<Rightarrow> rt_ret (sn, None)
      | Some canc \<Rightarrow> cancel_round sha fr env who sid sn c m again canc) Q (\<lambda>_. J)" for found
    using none by (cases found) (auto intro: hoare_ret hoare_weaken [OF round])
  have call: "hoare ?P (rt_call env (l (cd_execution_id m) (cd_owner_id m))) ?T (\<lambda>_. J)"
    if l: "rs_load_cancellation (store_at env k) = Some l" for l
    by (rule hoare_call) (use loads_cancellation [OF l] stable_others [OF J] stable_others [OF stable_saw] in blast)+
  show "hoare ?P
      (case (rs_load_cancellation (store_at env k), rs_save_cancelled (store_at env k)) of
         (Some load_c, Some _) \<Rightarrow> rt_bind (rt_call env (load_c (cd_execution_id m) (cd_owner_id m))) (\<lambda>found.
             case found of None \<Rightarrow> rt_ret (sn, None) | Some canc \<Rightarrow> cancel_round sha fr env who sid sn c m again canc)
       | _ \<Rightarrow> rt_raise cancellation_unsupported) Q (\<lambda>_. J)"
    by (cases "rs_load_cancellation (store_at env k)"; cases "rs_save_cancelled (store_at env k)")
      (auto intro: hoare_raise hoare_bind [OF call body])
qed

lemma reconcile_triple:
  assumes J: "stable J" and sid: "sid \<noteq> []"
    and step: "\<And>s s' c m canc d'. \<lbrakk>J s; bound_checkpoint sha fr sid (now_in sid s) = Inr (Some (c, m));
        canc_execution_id canc = cd_execution_id m; canc_owner_id canc = cd_owner_id m;
        tombstone s (cd_execution_id m) (cd_owner_id m) = Some canc; cancelled_state sha fr who canc c (content s sid) = Inr d';
        commits sid d' s s'\<rbrakk> \<Longrightarrow> K canc s'"
  shows "hoare J (reconcile_cancelled_execution_checkpoint sha fr env who sid)
    (\<lambda>v s. case snd v of None \<Rightarrow> J s \<and> saw sid (fst v) s | Some canc \<Rightarrow> K canc s) (\<lambda>_. J)"
proof -
  let ?Q = "\<lambda>(v :: session_snapshot \<times> execution_cancellation option) s.
    case snd v of None \<Rightarrow> J s \<and> saw sid (fst v) s | Some canc \<Rightarrow> K canc s"
  have rounds: "hoare J (reconcile_rounds sha fr env who sid k l) ?Q (\<lambda>_. J)" for k l
  proof (induction k arbitrary: l)
    case 0
    show ?case by (cases l) (simp_all add: hoare_raise)
  next
    case (Suc k)
    have one: "hoare (\<lambda>s. J s \<and> saw sid sn s) (case bound of None \<Rightarrow> rt_ret (sn, None)
       | Some (c, m) \<Rightarrow> reconcile_bound sha fr env who sid sn c m (\<lambda>e. reconcile_rounds sha fr env who sid k (Some e))) ?Q (\<lambda>_. J)"
      if bound: "bound_checkpoint sha fr sid sn = Inr bound" for sn bound
    proof (cases bound)
      case None
      then show ?thesis by (auto intro: hoare_ret)
    next
      case (Some p)
      obtain c m where p: "p = (c, m)" by (cases p)
      have "hoare (\<lambda>s. (J s \<and> tombstone s (cd_execution_id m) (cd_owner_id m) = Some canc) \<and> saw sid sn s)
          (cancel_round sha fr env who sid sn c m (\<lambda>e. reconcile_rounds sha fr env who sid k (Some e)) canc) ?Q (\<lambda>_. J)" for canc
        by (rule cancel_round_triple [where K = K, OF J _ Suc.IH]) (use step bound Some p in auto)
      then show ?thesis unfolding Some p option.case prod.case by (intro reconcile_bound_triple J) auto
    qed
    show ?case
      unfolding reconcile_rounds.simps
      by (rule hoare_bind [OF load_triple [OF J sid]], rule hoare_pure_bind, erule one, simp)
  qed
  then show ?thesis by (simp add: reconcile_cancelled_execution_checkpoint_def sid)
qed

lemma reload_triple:
  assumes "stable K" "sid \<noteq> []"
  shows "hoare K (reload_checkpoint sha fr env sid) (\<lambda>_. K) (\<lambda>_. K)"
  unfolding reload_checkpoint_def
  by (rule hoare_catch [where F = "\<lambda>_. K"], rule hoare_bind, rule load_triple [OF assms], rule hoare_res_bind)
    (auto intro: hoare_ret hoare_raise)

lemma verified_id: "verify_persisted sha fr sid validated request written seen = Inr c \<Longrightarrow> dget c ''checkpoint_id'' = dget validated ''checkpoint_id''"
  by (auto simp: verify_persisted_def bindr_eq_Inr split: prod.splits option.splits if_splits)

lemma write_checkpoint_triple:
  assumes J: "stable J" and K: "stable K" and sid: "sid \<noteq> []"
    and step: "\<And>s s'. \<lbrakk>J s; sn = now_in sid s; fence_held fence s; commits sid d s s'\<rbrakk> \<Longrightarrow> K s'"
  shows "hoare (\<lambda>s. J s \<and> saw sid sn s) (write_checkpoint sha fr env sid validated request d (snap_revision sn) fence)
    (\<lambda>v s. dget (fst v) ''checkpoint_id'' = dget validated ''checkpoint_id'' \<and> K s) (\<lambda>_ s. J s \<or> K s)"
proof -
  have after: "hoare K (rt_bind (reload_checkpoint sha fr env sid) (\<lambda>seen.
      rt_bind (rt_res (verify_persisted sha fr sid validated request written seen)) (\<lambda>c. rt_ret (c, written))))
      (\<lambda>v s. dget (fst v) ''checkpoint_id'' = dget validated ''checkpoint_id'' \<and> K s) (\<lambda>_ s. J s \<or> K s)" for written
    by (rule hoare_weaken, rule hoare_bind [OF reload_triple [OF K sid]], rule hoare_res_bind)
      (auto intro!: hoare_ret dest: verified_id)
  show ?thesis
    unfolding write_checkpoint_def
    by (rule hoare_bind [where R = "\<lambda>_. K"], rule hoare_weaken [OF keep_errors_triple [OF write_triple [where K = K, OF J step]]])
      (assumption | rule after | simp)+
qed

lemma commit_plan_triple:
  assumes J: "stable J" and K: "stable K" and sid: "sid \<noteq> []"
    and plan: "plan_checkpoint sha fr aware sid validated request expected fence sn = Inr (stored, again, d)"
    and step: "\<And>s s'. \<lbrakk>\<not> again; J s; sn = now_in sid s; fence_held fence s; commits sid d s s'\<rbrakk> \<Longrightarrow> K s'"
    and retry: "\<And>s. \<lbrakk>again; J s; sn = now_in sid s; py_eq (PyDict d) (PyDict (content s sid))\<rbrakk> \<Longrightarrow> K s"
  shows "hoare (\<lambda>s. J s \<and> sn = now_in sid s \<and> 0 \<le> rv s sid)
    (commit_plan sha fr env sid validated request expected fence sn (stored, again, d))
    (\<lambda>v s. dget (fst v) ''checkpoint_id'' = dget validated ''checkpoint_id'' \<and> K s) (\<lambda>_ s. J s \<or> K s)"
proof (cases "\<exists>s. sn = now_in sid s")
  case True
  then have state: "snap_state sn = PyDict (snap_dict sn)" by (auto simp: now_in_def snap_dict_def)
  show ?thesis
  proof (cases again)
    case True
    then have id: "dget (the stored) ''checkpoint_id'' = dget validated ''checkpoint_id''"
      using plan by (auto simp: plan_checkpoint_Inr is_retry_def split: option.splits)
    have "hoare (\<lambda>s. J s \<and> sn = now_in sid s \<and> 0 \<le> rv s sid) (rt_bind (verify_execution_fence env fence) (\<lambda>_. rt_ret (the stored, sn)))
        (\<lambda>v s. dget (fst v) ''checkpoint_id'' = dget validated ''checkpoint_id'' \<and> K s) (\<lambda>_ s. J s \<or> K s)"
      if "py_eq (PyDict d) (snap_state sn)"
      by (rule hoare_bind [where R = "\<lambda>_. K"], rule hoare_weaken [OF fence_triple [OF K]])
        (use retry [OF True] that state id in \<open>auto intro!: hoare_ret\<close>)
    then show ?thesis using True by (auto simp: commit_plan_def intro: hoare_raise)
  next
    case again: False
    have rev: "or_revision expected sn = snap_revision sn"
      using True plan again by (auto simp: plan_checkpoint_Inr ensure_expected_revision_def or_revision_def split: option.splits if_splits)
    show ?thesis
      unfolding commit_plan_def prod.case if_not_P [OF again] rev
      by (rule hoare_weaken [OF write_checkpoint_triple [where sn = sn and J = J and K = K, OF J K sid step [OF again]]])
        (auto intro: now_saw)
  qed
qed (simp add: hoare_def)

lemma save_checkpoint_triple:
  assumes J: "stable J" and K: "stable K"
    and step: "\<And>s s' aware stored d' n. \<lbrakk>J s; aware = cancellation_aware (store_at env n); plan_checkpoint sha fr aware sid validated request expected fence (now_in sid s) = Inr (stored, False, d');
        fence_held fence s; commits sid d' s s'\<rbrakk> \<Longrightarrow> K s'"
    and retry: "\<And>s aware stored d'. \<lbrakk>J s; plan_checkpoint sha fr aware sid validated request expected fence (now_in sid s) = Inr (stored, True, d');
        py_eq (PyDict d') (PyDict (content s sid))\<rbrakk> \<Longrightarrow> K s"
    and valid: "validate_execution_checkpoint sha fr checkpoint = Inr validated"
  shows "hoare J (save_execution_checkpoint_snapshot sha fr env sid checkpoint request expected fence)
    (\<lambda>v s. dget (fst v) ''checkpoint_id'' = dget validated ''checkpoint_id'' \<and> K s) (\<lambda>_ s. J s \<or> K s)"
proof (cases "sid = []")
  case True
  then show ?thesis by (auto simp: save_execution_checkpoint_snapshot_def intro: hoare_raise)
next
  case sid: False
  let ?Q = "\<lambda>(v :: pydict \<times> session_snapshot) s. dget (fst v) ''checkpoint_id'' = dget validated ''checkpoint_id'' \<and> K s"
  have planned: "hoare (\<lambda>s. J s \<and> sn = now_in sid s \<and> 0 \<le> rv s sid)
      (commit_plan sha fr env sid validated request expected fence sn plan) ?Q (\<lambda>_ s. J s \<or> K s)"
    if "plan_checkpoint sha fr aware sid validated request expected fence sn = Inr plan"
      "aware = cancellation_aware (store_at env n)" for sn aware plan n
  proof -
    obtain stored again d where plan: "plan = (stored, again, d)" by (cases plan)
    show ?thesis
      unfolding plan
    proof (rule commit_plan_triple [OF J K sid that(1) [unfolded plan]])
      fix s s' assume "\<not> again" "J s" "sn = now_in sid s" "fence_held fence s" "commits sid d s s'"
      then show "K s'" using step [of s aware n stored d s'] that plan by simp
    next
      fix s assume "again" "J s" "sn = now_in sid s" "py_eq (PyDict d) (PyDict (content s sid))"
      then show "K s" using retry [of s aware stored d] that plan by simp
    qed
  qed
  have "hoare J (rt_bind (kernel_load_snapshot env sid) (\<lambda>sn. rt_store env (\<lambda>st.
      rt_bind (rt_res (plan_checkpoint sha fr (cancellation_aware st) sid validated request expected fence sn))
        (commit_plan sha fr env sid validated request expected fence sn)))) ?Q (\<lambda>_ s. J s \<or> K s)"
    by (rule hoare_bind, rule hoare_weaken [OF load_now_triple [OF J sid]], assumption, assumption, simp, rule hoare_store,
        rule hoare_res_bind, erule planned, rule refl, simp)
  then show ?thesis
    unfolding save_execution_checkpoint_snapshot_def if_not_P [OF sid]
    by (intro hoare_pure_bind) (auto simp: valid intro: hoare_raise)
qed

lemma clear_checkpoint_triple:
  assumes J: "stable J" and K: "stable K"
    and step: "\<And>s s' d' b i. \<lbrakk>J s; plan_clear sha fr expected_id (content s sid) = Inr (d', b, i); fence_held fence s;
        commits sid d' s s'\<rbrakk> \<Longrightarrow> K s'"
  shows "hoare J (clear_execution_checkpoint_snapshot sha fr env sid expected_id expected fence)
    (\<lambda>v s. if fst v then K s else J s) (\<lambda>_ s. J s \<or> K s)"
proof (cases "sid = []")
  case True
  then show ?thesis by (auto simp: clear_execution_checkpoint_snapshot_def intro: hoare_ret)
next
  case sid: False
  let ?Q = "\<lambda>(v :: bool \<times> session_snapshot) s. if fst v then K s else J s"
  have after: "hoare K (rt_bind (kernel_load_snapshot env sid) (\<lambda>seen.
      rt_bind (rt_res (check_cleared sha fr sid b i written seen)) (\<lambda>_. rt_ret (True, written)))) ?Q (\<lambda>_ s. J s \<or> K s)" for b i written
    by (rule hoare_weaken, rule hoare_bind [OF load_triple [OF K sid]], rule hoare_res_bind) (auto intro!: hoare_ret)
  have wr: "hoare (\<lambda>s. J s \<and> saw sid sn s) (write_cleared sha fr env sid (snap_revision sn) fence p) ?Q (\<lambda>_ s. J s \<or> K s)"
    if "plan_clear sha fr expected_id (snap_dict sn) = Inr p" for sn p
  proof -
    obtain d b i where p: "p = (d, b, i)" by (cases p)
    show ?thesis
      unfolding write_cleared_def p prod.case
      by (rule hoare_bind [where R = "\<lambda>_. K"], rule hoare_weaken [OF keep_errors_triple [OF write_triple [where K = K, OF J]]])
        (use step that p after in auto)
  qed
  have rest: "hoare (\<lambda>s. J s \<and> saw sid sn s)
      (if dict_get (snap_dict sn) checkpoint_key = None
        then rt_bind (verify_execution_fence env fence) (\<lambda>_. rt_ret (False, sn))
        else rt_bind (rt_pure (plan_clear sha fr expected_id (snap_dict sn)))
               (write_cleared sha fr env sid (or_revision expected sn) fence)) ?Q (\<lambda>_ s. J s \<or> K s)"
    if exp: "ensure_expected_revision sn sid expected = Inr ()" for sn
  proof (cases "\<exists>s. saw sid sn s")
    case True
    then have rev: "or_revision expected sn = snap_revision sn" using expected_revision [OF exp] by blast
    have fence: "hoare (\<lambda>s. J s \<and> saw sid sn s) (rt_bind (verify_execution_fence env fence) (\<lambda>_. rt_ret (False, sn)))
        (\<lambda>v s. if fst v then K s else J s) (\<lambda>_ s. J s \<or> K s)"
      by (rule hoare_bind [where R = "\<lambda>_. J"], rule hoare_weaken [OF fence_triple [OF J]]) (auto intro!: hoare_ret)
    show ?thesis
      unfolding rev by (rule hoare_if, rule fence, rule hoare_pure_bind, erule wr) auto
  qed (simp add: hoare_def)
  show ?thesis
    unfolding clear_execution_checkpoint_snapshot_def if_not_P [OF sid]
    by (rule hoare_bind, rule hoare_weaken [OF load_triple [OF J sid]], assumption, assumption, simp, rule hoare_res_bind,
        rule rest, simp, auto)
qed

subsection \<open>The interaction operations\<close>

text \<open>A predicate that the cleanup of a cancelled checkpoint keeps.\<close>

definition cleanup_keeps :: "(blob \<Rightarrow> string) \<Rightarrow> (rat \<Rightarrow> string) \<Rightarrow> string \<Rightarrow> ('s \<Rightarrow> bool) \<Rightarrow> bool" where
  "cleanup_keeps sha fr sid J \<longleftrightarrow> stable J \<and>
     (\<forall>s s' c m canc d'. J s \<and> bound_checkpoint sha fr sid (now_in sid s) = Inr (Some (c, m)) \<and>
        cancelled s (cd_execution_id m) (cd_owner_id m) \<and> cancelled_state sha fr tree_canceller canc c (content s sid) = Inr d' \<and>
        commits sid d' s s' \<longrightarrow> J s')"

lemma cleanup_stable: "cleanup_keeps sha fr sid J \<Longrightarrow> stable J"
  by (simp add: cleanup_keeps_def)

lemma cleanup_step:
  "\<lbrakk>cleanup_keeps sha fr sid J; J s; bound_checkpoint sha fr sid (now_in sid s) = Inr (Some (c, m));
    cancelled s (cd_execution_id m) (cd_owner_id m); cancelled_state sha fr tree_canceller canc c (content s sid) = Inr d';
    commits sid d' s s'\<rbrakk> \<Longrightarrow> J s'"
  unfolding cleanup_keeps_def by blast

lemma cleanup_triple:
  assumes "cleanup_keeps sha fr sid J" "sid \<noteq> []"
  shows "hoare J (reconcile_cancelled_execution_checkpoint sha fr env tree_canceller sid)
    (\<lambda>v s. J s \<and> (snd v = None \<longrightarrow> saw sid (fst v) s)) (\<lambda>_. J)"
  by (rule hoare_weaken [OF reconcile_triple [where K = "\<lambda>_. J", OF cleanup_stable [OF assms(1)] assms(2)]])
    (erule cleanup_step [OF assms(1)], assumption, simp add: cancelled_def, assumption+, auto split: option.splits)

text \<open>What a loaded interaction is: the session was seen, and it reports what is in it.\<close>

definition loaded :: "(blob \<Rightarrow> string) \<Rightarrow> (rat \<Rightarrow> string) \<Rightarrow> string \<Rightarrow> string option \<Rightarrow> bool \<Rightarrow> ('s \<Rightarrow> bool) \<Rightarrow> interaction_snapshot \<Rightarrow> 's \<Rightarrow> bool" where
  "loaded sha fr sid iid req J x s \<longleftrightarrow> J s \<and> saw sid (is_session x) s \<and> snapshot_of_session sha fr sid iid req (is_session x) = Inr x"

lemma stable_loaded: "stable J \<Longrightarrow> stable (loaded sha fr sid iid req J x)"
  using stable_saw by (simp add: loaded_def stable_def)

lemma load_interaction_triple:
  assumes "cleanup_keeps sha fr sid J"
  shows "hoare J (load_interaction sha fr env sid iid req clean) (loaded sha fr sid iid req J) (\<lambda>_. J)"
proof (cases "py_strip sid = []")
  case True
  then show ?thesis by (auto simp: load_interaction_def intro: hoare_raise)
next
  case False
  then have sid: "sid \<noteq> []" by auto
  have read: "hoare (\<lambda>s. J s \<and> saw sid sn s) (rt_pure (snapshot_of_session sha fr sid iid req sn)) (loaded sha fr sid iid req J) (\<lambda>_. J)" for sn
    by (rule hoare_pure) (auto simp: loaded_def dest: snapshot_session)
  have clean: "hoare J (rt_bind (reconcile_cancelled_execution_checkpoint sha fr env tree_canceller sid) (\<lambda>(sn, canc).
      case canc of None \<Rightarrow> rt_ret sn | Some c \<Rightarrow> rt_raise (cancelled_failure c))) (\<lambda>sn s. J s \<and> saw sid sn s) (\<lambda>_. J)"
    by (rule hoare_bind [OF cleanup_triple [OF assms sid]]) (auto intro: hoare_ret hoare_raise split: option.splits)
  show ?thesis
    unfolding load_interaction_def if_not_P [OF False]
    by (rule hoare_bind [OF _ read]) (simp add: clean load_triple [OF cleanup_stable [OF assms] sid])
qed

lemma cleanup_if_cancelled_triple:
  assumes "cleanup_keeps sha fr sid J" "sid \<noteq> []"
  shows "hoare J (cleanup_if_cancelled sha fr env sid e) Q (\<lambda>_. J)"
  unfolding cleanup_if_cancelled_def by (rule hoare_bind [OF cleanup_triple [OF assms]]) (auto intro: hoare_raise)

lemma verify_or_cleanup_triple:
  assumes "cleanup_keeps sha fr sid J" "sid \<noteq> []" "stable P" "\<And>s. P s \<Longrightarrow> J s"
  shows "hoare P (verify_or_cleanup sha fr env sid fence) (\<lambda>_. P) (\<lambda>_. J)"
  unfolding verify_or_cleanup_def
  by (rule hoare_catch [OF fence_triple [OF assms(3)]])
    (auto intro: hoare_raise assms(4) hoare_weaken [OF cleanup_if_cancelled_triple [OF assms(1,2)]])

text \<open>An answer is written over the snapshot it was computed from, and never after the owner of the checkpoint was cancelled.\<close>

definition may_write :: "(blob \<Rightarrow> string) \<Rightarrow> (rat \<Rightarrow> string) \<Rightarrow> string \<Rightarrow> string \<Rightarrow> execution_fence option \<Rightarrow> 's \<Rightarrow> bool" where
  "may_write sha fr sid cid fence s \<longleftrightarrow>
     (\<exists>k. resolve_interaction_execution_fence sha fr sid cid (now_in sid s) fence = Inr k \<and>
       (k = None \<longrightarrow> (\<forall>c m. bound_checkpoint sha fr sid (now_in sid s) = Inr (Some (c, m)) \<longrightarrow>
          \<not> cancelled s (cd_execution_id m) (cd_owner_id m))) \<and> (fence_held k s))"

lemma save_unless_cancelled_triple:
  assumes J: "stable J"
    and step: "\<And>s s'. \<lbrakk>J s; sn = now_in sid s; \<not> cancelled s (cd_execution_id m) (cd_owner_id m); commits sid d s s'\<rbrakk> \<Longrightarrow> K s'"
  shows "hoare (\<lambda>s. J s \<and> saw sid sn s) (save_unless_cancelled env sid d m (snap_revision sn)) (\<lambda>_. K) (\<lambda>_. J)"
  unfolding save_unless_cancelled_def
proof (rule hoare_store)
  fix n
  let ?invalid = "persistence_error ''cancellation-aware receipt CAS returned an invalid revision''"
  show "hoare (\<lambda>s. J s \<and> saw sid sn s) (case rs_save_not_cancelled (store_at env n) of
         None \<Rightarrow> rt_raise (FromStore (TypeError ''descendant interaction receipt requires atomic cancellation-aware session storage''))
       | Some save_n \<Rightarrow>
           (case snap_revision sn of
              None \<Rightarrow> rt_raise (FromStore (TypeError ''descendant interaction receipt requires revisioned session storage''))
            | Some n \<Rightarrow>
                rt_bind (rt_call env (save_n sid d n (cd_execution_id m) (cd_owner_id m))) (\<lambda>r.
                  if r \<le> n then rt_raise ?invalid
                  else rt_ret \<lparr>snap_state = PyDict d, snap_revision = Some r\<rparr>))) (\<lambda>_. K) (\<lambda>_. J)"
  proof (cases "rs_save_not_cancelled (store_at env n)"; cases "snap_revision sn")
    fix h r assume h: "rs_save_not_cancelled (store_at env n) = Some h" and r: "snap_revision sn = Some r"
    note cas = save_unless [OF h, of "cd_execution_id m" "cd_owner_id m" sid]
    have call: "hoare (\<lambda>s. J s \<and> saw sid sn s) (rt_call env (h sid d r (cd_execution_id m) (cd_owner_id m))) (\<lambda>x s. x = r + 1 \<and> K s) (\<lambda>_. J)"
      by (rule hoare_weaken [OF call_cas_triple [where K = K, OF J cas step r]]) auto
    show ?thesis
      unfolding h r option.case by (rule hoare_bind [OF call]) (auto intro!: hoare_ret hoare_raise)
  qed (auto intro: hoare_raise)
qed

lemma save_interaction_triple:
  assumes J: "stable J" and sid: "sid \<noteq> []"
    and step: "\<And>s s'. \<lbrakk>J s; sn = now_in sid s; may_write sha fr sid cid fence s; commits sid d s s'\<rbrakk> \<Longrightarrow> K s'"
  shows "hoare (\<lambda>s. J s \<and> saw sid sn s) (save_interaction_session_state sha fr env sid d cid sn (snap_revision sn) fence)
    (\<lambda>_. K) (\<lambda>_. J)"
  unfolding save_interaction_session_state_def
proof (intro hoare_pure_bind)
  fix k bound
  assume k: "resolve_interaction_execution_fence sha fr sid cid sn fence = Inr k" and bound: "bound_checkpoint sha fr sid sn = Inr bound"
  have rev: "or_revision (snap_revision sn) sn = snap_revision sn" by (simp add: or_revision_def)
  have may: "may_write sha fr sid cid fence s" if "sn = now_in sid s" "fence_held k s"
      "\<And>c m. \<lbrakk>k = None; bound = Some (c, m)\<rbrakk> \<Longrightarrow> \<not> cancelled s (cd_execution_id m) (cd_owner_id m)" for s
    unfolding may_write_def using k bound that by (intro exI [of _ k]) simp
  show "hoare (\<lambda>s. J s \<and> saw sid sn s) (case (bound, k) of
         (Some (c, m), None) \<Rightarrow> save_unless_cancelled env sid d m (or_revision (snap_revision sn) sn)
       | _ \<Rightarrow> save_session_state env sid d (snap_revision sn) k) (\<lambda>_. K) (\<lambda>_. J)"
  proof (cases "k = None \<and> bound \<noteq> None")
    case True
    then obtain c m where b: "bound = Some (c, m)" by (cases bound) auto
    have "hoare (\<lambda>s. J s \<and> saw sid sn s) (save_unless_cancelled env sid d m (snap_revision sn)) (\<lambda>_. K) (\<lambda>_. J)"
      by (rule save_unless_cancelled_triple [OF J]) (use step may b True in \<open>auto simp: fence_held_def\<close>)
    then show ?thesis using True b by (simp add: rev)
  next
    case False
    have "hoare (\<lambda>s. J s \<and> saw sid sn s) (save_session_state env sid d (snap_revision sn) k) (\<lambda>_. K) (\<lambda>_. J)"
      by (rule hoare_weaken [OF save_state_triple [where K = K, OF J sid]]) (use step may False in auto)
    then show ?thesis using False by (cases bound; cases k) auto
  qed
qed auto

text \<open>What an operation returns about an interaction: it was in the session, which other workers may have moved on since.\<close>

definition shown :: "(blob \<Rightarrow> string) \<Rightarrow> (rat \<Rightarrow> string) \<Rightarrow> string \<Rightarrow> ('s \<Rightarrow> bool) \<Rightarrow> interaction_snapshot \<Rightarrow> 's \<Rightarrow> bool" where
  "shown sha fr sid J x s \<longleftrightarrow> J s \<and> saw sid (is_session x) s \<and> reports sha fr x"

lemma loaded_shown: "loaded sha fr sid iid req J x s \<Longrightarrow> shown sha fr sid J x s"
  by (auto simp: loaded_def shown_def intro: snapshot_reports)

lemma stable_shown: "stable J \<Longrightarrow> stable (shown sha fr sid J x)"
  using stable_saw by (simp add: shown_def stable_def)

lemma not_written_triple:
  assumes J: "cleanup_keeps sha fr sid J" and sid: "sid \<noteq> []"
  shows "hoare J (receipt_not_written sha fr env sid iid v k e) (\<lambda>x s. is_receipt x \<noteq> None \<and> shown sha fr sid J x s) (\<lambda>_. J)"
proof -
  have found: "hoare (loaded sha fr sid (Some iid) False J x)
      (if answered_with v x then rt_bind (verify_or_cleanup sha fr env sid k) (\<lambda>_. rt_ret x) else rt_raise e)
      (\<lambda>x s. is_receipt x \<noteq> None \<and> shown sha fr sid J x s) (\<lambda>_. J)" for x
  proof (rule hoare_if)
    assume "answered_with v x"
    then obtain y where rc: "is_receipt x = Some y" by (auto simp: answered_with_def)
    show "hoare (loaded sha fr sid (Some iid) False J x) (rt_bind (verify_or_cleanup sha fr env sid k) (\<lambda>_. rt_ret x))
        (\<lambda>x s. is_receipt x \<noteq> None \<and> shown sha fr sid J x s) (\<lambda>_. J)"
      by (rule hoare_bind [OF verify_or_cleanup_triple [OF J sid stable_loaded [OF cleanup_stable [OF J]]]])
        (auto simp: rc intro!: hoare_ret loaded_shown, simp add: loaded_def)
  qed (auto intro: hoare_raise simp: loaded_def)
  show ?thesis
    unfolding receipt_not_written_def interaction_load_def
    by (intro hoare_if cleanup_if_cancelled_triple [OF J sid] hoare_bind [OF load_interaction_triple [OF J] found] hoare_raise)
qed

lemma written_triple:
  assumes J: "cleanup_keeps sha fr sid J"
  shows "hoare J (receipt_written sha fr env sid iid rc written) (\<lambda>x s. is_receipt x \<noteq> None \<and> shown sha fr sid J x s) (\<lambda>_. J)"
  unfolding receipt_written_def interaction_load_def
  by (rule hoare_bind [OF load_interaction_triple [OF J]])
    (auto intro!: hoare_ret hoare_raise loaded_shown simp: loaded_def split: option.splits)

lemma store_receipt_triple:
  assumes J: "cleanup_keeps sha fr sid J" and sid: "sid \<noteq> []" and rev: "or_revision expected (is_session now) = snap_revision (is_session now)"
    and step: "\<And>s s'. \<lbrakk>J s; is_session now = now_in sid s; may_write sha fr sid (is_checkpoint_id now) fence s; commits sid d s s'\<rbrakk> \<Longrightarrow> J s'"
  shows "hoare (\<lambda>s. J s \<and> saw sid (is_session now) s) (store_receipt sha fr env sid iid now v rc d expected fence k)
    (\<lambda>x s. is_receipt x \<noteq> None \<and> shown sha fr sid J x s) (\<lambda>_. J)"
  unfolding store_receipt_def rev
proof (rule hoare_bind [where R = "\<lambda>o' s. case o' of Inl w \<Rightarrow> J s | Inr x \<Rightarrow> is_receipt x \<noteq> None \<and> shown sha fr sid J x s"], rule hoare_catch)
  show "hoare (\<lambda>s. J s \<and> saw sid (is_session now) s)
      (rt_bind (save_interaction_session_state sha fr env sid d (is_checkpoint_id now) (is_session now) (snap_revision (is_session now)) fence)
        (\<lambda>written. rt_ret (Inl written)))
      (\<lambda>o' s. case o' of Inl w \<Rightarrow> J s | Inr x \<Rightarrow> is_receipt x \<noteq> None \<and> shown sha fr sid J x s) (\<lambda>_. J)"
    by (rule hoare_bind [OF save_interaction_triple [where K = J, OF cleanup_stable [OF J] sid step]]) (auto intro: hoare_ret)
  show "hoare J (rt_bind (receipt_not_written sha fr env sid iid v k e) (\<lambda>winner. rt_ret (Inr winner)))
      (\<lambda>o' s. case o' of Inl w \<Rightarrow> J s | Inr x \<Rightarrow> is_receipt x \<noteq> None \<and> shown sha fr sid J x s) (\<lambda>_. J)" for e
    by (rule hoare_bind [OF not_written_triple [OF J sid]]) (auto intro: hoare_ret)
  show "hoare (\<lambda>s. case o' of Inl w \<Rightarrow> J s | Inr x \<Rightarrow> is_receipt x \<noteq> None \<and> shown sha fr sid J x s)
      (case o' of Inr winner \<Rightarrow> rt_ret winner | Inl written \<Rightarrow> receipt_written sha fr env sid iid rc written)
      (\<lambda>x s. is_receipt x \<noteq> None \<and> shown sha fr sid J x s) (\<lambda>_. J)" for o'
  proof (cases o')
    case (Inl w)
    then show ?thesis by (simp only: sum.case) (rule written_triple [OF J])
  next
    case (Inr x)
    then show ?thesis by (simp only: sum.case) (rule hoare_ret)
  qed
qed

lemma file_receipt_triple:
  assumes J: "cleanup_keeps sha fr sid J" and sid: "sid \<noteq> []"
    and step: "\<And>s s' j k. \<lbrakk>J s; validate_interaction_journal sha fr (dget (content s sid) journal_key) = Inr j;
        record_interaction_receipt sha fr (Inl rc) (journal_dict j) = Inr k; may_write sha fr sid (is_checkpoint_id now) fence s;
        commits sid (dict_set journal_key (journal_dict k) (content s sid)) s s'\<rbrakk> \<Longrightarrow> J s'"
  shows "hoare (loaded sha fr sid (Some iid) False J now) (file_receipt sha fr env sid iid expected fence eff now v rc)
    (\<lambda>x s. is_receipt x \<noteq> None \<and> shown sha fr sid J x s) (\<lambda>_. J)"
  unfolding file_receipt_def
proof (intro hoare_pure_bind hoare_if)
  fix j k
  assume j: "validate_interaction_journal sha fr (dget (snap_dict (is_session now)) journal_key) = Inr j"
    and k: "record_interaction_receipt sha fr (Inl rc) (journal_dict j) = Inr k"
  show "hoare (loaded sha fr sid (Some iid) False J now)
      (rt_bind (verify_or_cleanup sha fr env sid eff) (\<lambda>_. rt_pure (repeated_receipt sha fr iid now j)))
      (\<lambda>x s. is_receipt x \<noteq> None \<and> shown sha fr sid J x s) (\<lambda>_. J)"
  proof (rule hoare_bind [OF verify_or_cleanup_triple [OF J sid stable_loaded [OF cleanup_stable [OF J]]]])
    show "loaded sha fr sid (Some iid) False J now s \<Longrightarrow> J s" for s by (simp add: loaded_def)
    show "hoare (loaded sha fr sid (Some iid) False J now) (rt_pure (repeated_receipt sha fr iid now j))
        (\<lambda>x s. is_receipt x \<noteq> None \<and> shown sha fr sid J x s) (\<lambda>_. J)" for v :: unit
      by (rule hoare_pure)
        (auto simp: loaded_def shown_def intro: repeated_reports [OF _ j] dest: repeated_parts)
  qed
  show "hoare (loaded sha fr sid (Some iid) False J now)
      (rt_bind (rt_res (ensure_expected_revision (is_session now) sid expected)) (\<lambda>_.
        store_receipt sha fr env sid iid now v rc (dict_set journal_key (journal_dict k) (snap_dict (is_session now))) expected fence eff))
      (\<lambda>x s. is_receipt x \<noteq> None \<and> shown sha fr sid J x s) (\<lambda>_. J)"
  proof (rule hoare_res_bind)
    fix u assume exp: "ensure_expected_revision (is_session now) sid expected = Inr u"
    show "hoare (loaded sha fr sid (Some iid) False J now)
        (store_receipt sha fr env sid iid now v rc (dict_set journal_key (journal_dict k) (snap_dict (is_session now))) expected fence eff)
        (\<lambda>x s. is_receipt x \<noteq> None \<and> shown sha fr sid J x s) (\<lambda>_. J)"
    proof (cases "\<exists>s. saw sid (is_session now) s")
      case True
      then have rev: "or_revision expected (is_session now) = snap_revision (is_session now)"
        using expected_revision exp by auto
      show ?thesis
        by (rule hoare_weaken [OF store_receipt_triple [OF J sid rev]]) (use step j k in \<open>auto simp: loaded_def\<close>)
    qed (simp add: hoare_def loaded_def)
  qed (simp add: loaded_def)
qed (simp_all add: loaded_def)

lemma record_receipt_triple:
  assumes J: "cleanup_keeps sha fr sid J"
    and step: "\<And>s s' j k rc cid. \<lbrakk>J s; validate_interaction_journal sha fr (dget (content s sid) journal_key) = Inr j;
        record_interaction_receipt sha fr (Inl rc) (journal_dict j) = Inr k; may_write sha fr sid cid fence s;
        commits sid (dict_set journal_key (journal_dict k) (content s sid)) s s'\<rbrakk> \<Longrightarrow> J s'"
  shows "hoare J (record_receipt sha fr env at_ms sid iid response who expected fence)
    (\<lambda>x s. is_receipt x \<noteq> None \<and> shown sha fr sid J x s) (\<lambda>_. J)"
proof (cases "sid = []")
  case True
  then show ?thesis
    by (auto simp: record_receipt_def interaction_load_def load_interaction_def intro!: hoare_bind hoare_raise simp: hoare_def rt_bind_def rt_raise_def)
next
  case sid: False
  have rest: "hoare (loaded sha fr sid (Some iid) False J now)
      (if answered_with v now then rt_bind (verify_or_cleanup sha fr env sid eff) (\<lambda>_. rt_ret now)
       else rt_bind (rt_pure (build_interaction_receipt sha fr (Inl (is_request now)) v (PyStr who) (PyInt at_ms)))
         (file_receipt sha fr env sid iid expected fence eff now v)) (\<lambda>x s. is_receipt x \<noteq> None \<and> shown sha fr sid J x s) (\<lambda>_. J)" for now eff v
  proof (intro hoare_if)
    assume "answered_with v now"
    then obtain y where rc: "is_receipt now = Some y" by (auto simp: answered_with_def)
    show "hoare (loaded sha fr sid (Some iid) False J now) (rt_bind (verify_or_cleanup sha fr env sid eff) (\<lambda>_. rt_ret now))
        (\<lambda>x s. is_receipt x \<noteq> None \<and> shown sha fr sid J x s) (\<lambda>_. J)"
      by (rule hoare_bind [OF verify_or_cleanup_triple [OF J sid stable_loaded [OF cleanup_stable [OF J]]]])
        (auto simp: rc intro!: hoare_ret loaded_shown, simp add: loaded_def)
  next
    show "hoare (loaded sha fr sid (Some iid) False J now)
        (rt_bind (rt_pure (build_interaction_receipt sha fr (Inl (is_request now)) v (PyStr who) (PyInt at_ms)))
          (file_receipt sha fr env sid iid expected fence eff now v)) (\<lambda>x s. is_receipt x \<noteq> None \<and> shown sha fr sid J x s) (\<lambda>_. J)"
      by (rule hoare_pure_bind, rule file_receipt_triple [OF J sid]) (use step in \<open>auto simp: loaded_def\<close>)
  qed
  show ?thesis
    unfolding record_receipt_def interaction_load_def
    by (rule hoare_bind [OF load_interaction_triple [OF J]], intro hoare_pure_bind rest) (auto simp: loaded_def)
qed

lemma cancel_pending_triple:
  assumes J: "cleanup_keeps sha fr sid J" and sid: "sid \<noteq> []"
    and step: "\<And>s s' run iid reason now d. \<lbrakk>J s; is_session now = now_in sid s;
        abandoned_state sha fr at_ms run iid reason who now = Inr d; may_write sha fr sid (is_checkpoint_id now) None s;
        commits sid d s s'\<rbrakk> \<Longrightarrow> J s'"
  shows "hoare J (cancel_pending sha fr env at_ms sid source_run expected_iid why who)
    (\<lambda>x s. is_application x \<noteq> None \<and> shown sha fr sid J x s) (\<lambda>_. J)"
proof -
  let ?Q = "\<lambda>x s. is_application x \<noteq> None \<and> shown sha fr sid J x s"
  have lost: "hoare (loaded sha fr sid iid req J x) (rt_bind (rt_res (cancel_lost now e x)) (\<lambda>x. rt_ret (Some x)))
      (\<lambda>o' s. case o' of None \<Rightarrow> J s | Some x \<Rightarrow> ?Q x s) (\<lambda>_. J)" for x now e iid req
    by (rule hoare_res_bind) (auto simp: cancel_lost_def loaded_def split: if_splits intro!: hoare_ret loaded_shown [unfolded loaded_def])
  have seen: "hoare (loaded sha fr sid iid req J x) (rt_res (cancel_written now x)) ?Q (\<lambda>_. J)" for x now iid req
    by (rule hoare_res) (auto simp: cancel_written_def split: if_splits intro: loaded_shown, auto simp: loaded_def)
  have saved: "hoare (\<lambda>s. J s \<and> saw sid (is_session now) s)
      (rt_bind (save_interaction_session_state sha fr env sid d (is_checkpoint_id now) (is_session now) (snap_revision (is_session now)) None)
        (\<lambda>_. rt_ret None)) (\<lambda>o' s. case o' of None \<Rightarrow> J s | Some x \<Rightarrow> ?Q x s) (\<lambda>_. J)"
    if "abandoned_state sha fr at_ms run iid reason who now = Inr d" for now d run iid reason
    by (rule hoare_bind [OF save_interaction_triple [where K = J, OF cleanup_stable [OF J] sid]])
      (use step that in \<open>auto intro: hoare_ret\<close>)
  have body: "hoare (loaded sha fr sid None True J now)
      (rt_bind (rt_catch
         (rt_bind (save_interaction_session_state sha fr env sid d (is_checkpoint_id now) (is_session now) (snap_revision (is_session now)) None)
           (\<lambda>_. rt_ret None))
         (\<lambda>e. if is_conflict e
              then rt_bind (load_interaction sha fr env sid (Some (iq_interaction_id (is_request now))) False False)
                     (\<lambda>winner. rt_bind (rt_res (cancel_lost now e winner)) (\<lambda>x. rt_ret (Some x)))
              else rt_raise e)) (\<lambda>outcome. case outcome of Some winner \<Rightarrow> rt_ret winner
       | None \<Rightarrow> rt_bind (load_interaction sha fr env sid (Some (iq_interaction_id (is_request now))) False False)
                   (\<lambda>seen. rt_res (cancel_written now seen)))) ?Q (\<lambda>_. J)"
    if "abandoned_state sha fr at_ms run iid reason who now = Inr d" for now d run iid reason
  proof (rule hoare_bind [where R = "\<lambda>o' s. case o' of None \<Rightarrow> J s | Some x \<Rightarrow> ?Q x s"], rule hoare_catch [where F = "\<lambda>_. J"], rule hoare_weaken [OF saved [OF that]])
    show "hoare J (if is_conflict e then rt_bind (load_interaction sha fr env sid (Some (iq_interaction_id (is_request now))) False False)
           (\<lambda>winner. rt_bind (rt_res (cancel_lost now e winner)) (\<lambda>x. rt_ret (Some x))) else rt_raise e)
        (\<lambda>o' s. case o' of None \<Rightarrow> J s | Some x \<Rightarrow> ?Q x s) (\<lambda>_. J)" for e
      by (intro hoare_if hoare_bind [OF load_interaction_triple [OF J] lost] hoare_raise)
    show "hoare (\<lambda>s. case o' of None \<Rightarrow> J s | Some x \<Rightarrow> ?Q x s) (case o' of Some winner \<Rightarrow> rt_ret winner
       | None \<Rightarrow> rt_bind (load_interaction sha fr env sid (Some (iq_interaction_id (is_request now))) False False)
                   (\<lambda>seen. rt_res (cancel_written now seen))) ?Q (\<lambda>_. J)" for o'
    proof (cases o')
      case None
      then show ?thesis by (simp only: option.case) (rule hoare_bind [OF load_interaction_triple [OF J] seen])
    next
      case (Some x)
      then show ?thesis by (simp only: option.case) (rule hoare_ret)
    qed
  qed (auto simp: loaded_def)
  show ?thesis
    unfolding cancel_pending_def Let_def
    by (rule hoare_pure_bind, simp only: split_paired_all prod.case, rule hoare_bind [OF load_interaction_triple [OF J]],
        rule hoare_pure_bind, erule body) (auto simp: loaded_def)
qed

lemma require_receipt_triple:
  assumes J: "cleanup_keeps sha fr sid J"
  shows "hoare J (require_receipt sha fr env sid iid) (\<lambda>x s. is_receipt x \<noteq> None \<and> shown sha fr sid J x s) (\<lambda>_. J)"
proof -
  have "hoare (loaded sha fr sid iid True J x)
      (case is_receipt x of
         None \<Rightarrow> rt_raise (Raised (not_pending_error (''interaction has no recorded receipt: '' @ repr_str (iq_interaction_id (is_request x)))))
       | Some rc \<Rightarrow>
           rt_bind (rt_pure (normalize_interaction_response sha fr (Inl (is_request x)) (RawValue (ic_response rc)))) (\<lambda>normal.
             if \<not> py_eq normal (ic_response rc)
             then rt_raise (Raised (integrity_error ''recorded interaction receipt is not canonical for this runtime''))
             else rt_ret x)) (\<lambda>x s. is_receipt x \<noteq> None \<and> shown sha fr sid J x s) (\<lambda>_. J)" for x
    by (cases "is_receipt x") (auto intro!: hoare_raise hoare_pure_bind hoare_ret loaded_shown, auto simp: loaded_def)
  then show ?thesis
    unfolding require_receipt_def interaction_load_def by (rule hoare_bind [OF load_interaction_triple [OF J]])
qed

end

end
