(* ===== verification/SessionWorld.thy ===== *)
theory SessionWorld
  imports RuntimeSafety
begin

section \<open>Runtimes over the in-memory store\<close>

text \<open>
  The in-memory session store as the shared store of \<open>RuntimeSafety\<close>: \<open>mem_env clock sched\<close> is the world in
  which the \<open>n\<close>-th call of an operation reads the clock \<open>clock n\<close>, after other workers made the calls
  \<open>sched n s\<close>, where \<open>s\<close> is the store they find. As their calls may depend on that store, a schedule can
  hold any interleaving, compare-and-swap writes to the same session included. Each theorem says which
  schedules it is about: a saved checkpoint and the cleanup of a cancelled run are one exact write under every
  schedule; the journal of a session grows under every schedule whose own writes extend the journals
  (\<open>other_workers_keep\<close>); an answer that comes after the cancellation is refused under every schedule that leaves
  the session itself alone (\<open>leave_alone\<close>).
\<close>

definition mem_runtime :: "int \<Rightarrow> session_store runtime_store" where
  "mem_runtime now =
     \<lparr>rs_sessions = mem_object now,
      rs_verify_lease = Some (\<lambda>e o' t. verify_lease e o' t now),
      rs_load_cancellation = Some load_execution_cancellation,
      rs_save_not_cancelled = Some save_if_revision_and_execution_not_cancelled,
      rs_save_cancelled = Some save_if_revision_and_execution_cancelled\<rparr>"

type_synonym schedule = "nat \<Rightarrow> session_store \<Rightarrow> store_call list"

definition mem_env :: "(nat \<Rightarrow> int) \<Rightarrow> schedule \<Rightarrow> session_store world_env" where
  "mem_env clock sched = \<lparr>store_at = (\<lambda>n. mem_runtime (clock n)), others = (\<lambda>n s. fold store_apply (sched n s) s)\<rparr>"

lemma mem_env_simps [simp]:
  "store_at (mem_env clock sched) n = mem_runtime (clock n)" "others (mem_env clock sched) n s = fold store_apply (sched n s) s"
  by (simp_all add: mem_env_def)

text \<open>The states the store goes through when only the other workers call it.\<close>

inductive others_only :: "schedule \<Rightarrow> session_store \<Rightarrow> session_store \<Rightarrow> bool" for sched st where
  nobody: "others_only sched st st"
| scheduled: "others_only sched st s \<Longrightarrow> others_only sched st (fold store_apply (sched n s) s)"

lemma others_only_nobody: "others_only (\<lambda>_ _. []) st s \<longleftrightarrow> s = st"
  by (auto elim: others_only.induct intro: others_only.nobody)

subsection \<open>The store keeps the contract\<close>

lemma cas_state_cases:
  "cas_state sid d r s = (Inr r', s') \<Longrightarrow> revision_of s sid = r \<and> r' = r + 1 \<and> s' = commit_state sid d s"
  "cas_state sid d r s = (Inl e, s') \<Longrightarrow> s' = s"
  by (auto simp: cas_state_def split: if_splits)

lemma mem_cas_plain: "cas_method (\<lambda>sid d s s'. s' = commit_state sid d s) revision_of (\<lambda>s. True) sid (\<lambda>d n. save_if_revision sid d n now)"
  unfolding cas_method_def
  by (auto simp: save_if_revision_def split: if_splits sum.splits dest: cas_state_cases)

lemma mem_cas_fenced:
  "cas_method (\<lambda>sid d s s'. s' = commit_state sid d s) revision_of (\<lambda>s. is_ok (assert_active_lease_unlocked s now e o' t)) sid
     (\<lambda>d n. save_if_revision_and_fence sid d n e o' t now)"
  unfolding cas_method_def
  by (auto simp: save_if_revision_and_fence_def bindr_eq_Inr is_ok_iff split: if_splits sum.splits dest: cas_state_cases)

lemma mem_cas_cancelled:
  "cas_method (\<lambda>sid d s s'. s' = commit_state sid d s) revision_of (\<lambda>s. cancellation_of s e o' \<noteq> None) sid
     (\<lambda>d n. save_if_revision_and_execution_cancelled sid d n e o')"
  unfolding cas_method_def
  by (auto simp: save_if_revision_and_execution_cancelled_def split: if_splits sum.splits option.splits dest: cas_state_cases)

lemma mem_cas_not_cancelled:
  "cas_method (\<lambda>sid d s s'. s' = commit_state sid d s) revision_of (\<lambda>s. cancellation_of s e o' = None) sid
     (\<lambda>d n. save_if_revision_and_execution_not_cancelled sid d n e o')"
  unfolding cas_method_def
  by (auto simp: save_if_revision_and_execution_not_cancelled_def split: if_splits sum.splits option.splits dest: cas_state_cases)

lemma store_steps_fold: "store_steps st s \<Longrightarrow> store_steps st (fold store_apply cs s)"
  by (induction cs arbitrary: s) (auto intro: store_steps.call)

lemma others_steps: "others_only sched st s \<Longrightarrow> store_steps st s"
  by (induction rule: others_only.induct) (auto intro: store_steps.none store_steps_fold)

lemma steps_keep_tombstone: "\<lbrakk>store_steps st st'; cancellation_of st e o' = Some c\<rbrakk> \<Longrightarrow> cancellation_of st' e o' = Some c"
proof (induction rule: store_steps.induct)
  case (call st st' c')
  then show ?case using view_step_tombstone_stays [OF store_apply_step [of st' c'], of e o' c] by simp
qed simp

lemma view_step_same_revision:
  "\<lbrakk>view_step v v'; v_revision v' x = v_revision v x\<rbrakk> \<Longrightarrow> v_state v' x = v_state v x"
  by (erule view_step_cases) (auto split: if_splits)

lemma steps_same_revision:
  "\<lbrakk>store_steps st st'; revision_of st' x = revision_of st x\<rbrakk> \<Longrightarrow> state_of st' x = state_of st x"
proof (induction rule: store_steps.induct)
  case (call st st' c)
  have le: "revision_of st x \<le> revision_of st' x" using store_steps_revision [OF call.hyps(1)] .
  have "revision_of st' x \<le> revision_of (store_apply c st') x"
    using view_step_revision_mono [OF store_apply_step, of st' x c] by simp
  then have "revision_of st' x = revision_of st x" "revision_of (store_apply c st') x = revision_of st' x"
    using le call.prems by linarith+
  then show ?case
    using call.IH view_step_same_revision [OF store_apply_step [of st' c], of x] by simp
qed simp

lemma mem_loads:
  "so_load_with_revision (rs_sessions (mem_runtime now)) =
     Some (\<lambda>sid s. (Inr \<lparr>snap_state = PyDict (state_of s sid), snap_revision = Some (revision_of s sid)\<rparr>, s))"
proof -
  have "mem_load_with_revision = (\<lambda>sid s. (Inr \<lparr>snap_state = PyDict (state_of s sid), snap_revision = Some (revision_of s sid)\<rparr>, s))"
    by (intro ext) (simp add: mem_load_with_revision_def load_with_revision_def)
  then show ?thesis by (simp add: mem_runtime_def mem_object_def)
qed

lemma mem_shared:
  assumes "\<And>n s x. evolve (state_of s x) (state_of (fold store_apply (sched n s) s) x)" "\<And>d. evolve d d"
    and "\<And>c d d'. \<lbrakk>evolve c d; evolve d d'\<rbrakk> \<Longrightarrow> evolve c d'"
  shows "shared_sessions (mem_env clock sched) state_of revision_of cancellation_of
    (\<lambda>n s e o' t. is_ok (assert_active_lease_unlocked s (clock n) e o' t)) evolve (\<lambda>sid d s s'. s' = commit_state sid d s)"
proof (unfold_locales, unfold mem_env_simps)
  show "so_load_with_revision (rs_sessions (mem_runtime (clock n))) =
      Some (\<lambda>sid s. (Inr \<lparr>snap_state = PyDict (state_of s sid), snap_revision = Some (revision_of s sid)\<rparr>, s))" for n
    by (rule mem_loads)
  show "\<exists>f. so_save_if_revision (rs_sessions (mem_runtime (clock n))) = Some f \<and> (\<forall>sid. cas_method (\<lambda>sid d s s'. s' = commit_state sid d s) revision_of (\<lambda>s. True) sid (f sid))" for n
    using mem_cas_plain by (simp add: mem_runtime_def mem_object_def)
  show "cancellation_of s e o' = Some canc \<Longrightarrow> cancellation_of (fold store_apply (sched n s) s) e o' = Some canc" for s e o' canc n
    by (rule steps_keep_tombstone) (rule store_steps_fold [OF store_steps.none])
  show "revision_of s x \<le> revision_of (fold store_apply (sched n s) s) x" for s x n
    by (rule store_steps_revision) (rule store_steps_fold [OF store_steps.none])
  show "revision_of (fold store_apply (sched n s) s) x = revision_of s x \<Longrightarrow> state_of (fold store_apply (sched n s) s) x = state_of s x" for s x n
    by (rule steps_same_revision) (rule store_steps_fold [OF store_steps.none])
qed (use assms mem_cas_fenced mem_cas_cancelled mem_cas_not_cancelled in
  \<open>auto simp: mem_runtime_def mem_object_def load_execution_cancellation_def verify_lease_def split: sum.splits\<close>)

interpretation mem_world: shared_sessions "mem_env clock sched" state_of revision_of
  cancellation_of "\<lambda>n s e o' t. is_ok (assert_active_lease_unlocked s (clock n) e o' t)" "\<lambda>_ _. True" "\<lambda>sid d s s'. s' = commit_state sid d s"
  by (rule mem_shared) simp_all


subsection \<open>The journal of a session only grows\<close>

definition session_journal :: "(blob \<Rightarrow> string) \<Rightarrow> (rat \<Rightarrow> string) \<Rightarrow> pydict \<Rightarrow> interaction_journal \<Rightarrow> bool" where
  "session_journal sha fr d j \<longleftrightarrow> validate_interaction_journal sha fr (dget d journal_key) = Inr j \<and> journal_inv sha j"

definition journal_grows :: "(blob \<Rightarrow> string) \<Rightarrow> (rat \<Rightarrow> string) \<Rightarrow> pydict \<Rightarrow> pydict \<Rightarrow> bool" where
  "journal_grows sha fr d d' \<longleftrightarrow> (\<forall>j. session_journal sha fr d j \<longrightarrow> (\<exists>k. session_journal sha fr d' k \<and> ix_reach sha fr j k))"

lemma ix_reach_trans: "\<lbrakk>ix_reach sha fr k l; ix_reach sha fr j k\<rbrakk> \<Longrightarrow> ix_reach sha fr j l"
  by (induction rule: ix_reach.induct) (auto intro: ix_reach.intros)

lemma journal_grows_refl: "journal_grows sha fr d d"
  by (auto simp: journal_grows_def intro: ix_start)

lemma journal_grows_trans: "\<lbrakk>journal_grows sha fr c d; journal_grows sha fr d d'\<rbrakk> \<Longrightarrow> journal_grows sha fr c d'"
  unfolding journal_grows_def by (meson ix_reach_trans)

lemma state_keys [simp]:
  "journal_key \<noteq> checkpoint_key" "journal_key \<noteq> domain_key" "checkpoint_key \<noteq> domain_key"
  "checkpoint_key \<noteq> journal_key" "domain_key \<noteq> journal_key" "domain_key \<noteq> checkpoint_key"
  by (simp_all add: journal_key_def checkpoint_key_def domain_key_def)

lemma dget_after:
  "dget (dict_set k v d) k' = (if k' = k then v else dget d k')" "dget (dict_del k d) k' = (if k' = k then PyNone else dget d k')"
  by (simp_all add: dget_def)

lemma same_journal:
  "dget d' journal_key = dget d journal_key \<Longrightarrow> session_journal sha fr d' j \<longleftrightarrow> session_journal sha fr d j"
  by (simp add: session_journal_def)

lemma grows_to_same: "\<lbrakk>journal_grows sha fr d d1; dget d' journal_key = dget d1 journal_key\<rbrakk> \<Longrightarrow> journal_grows sha fr d d'"
  by (simp add: journal_grows_def session_journal_def)

lemma journal_stored:
  "\<lbrakk>session_journal sha fr d j; ix_reach sha fr j k\<rbrakk> \<Longrightarrow> session_journal sha fr (dict_set journal_key (journal_dict k) d') k"
  using reach_inv [of sha fr j k] journal_trip [of sha k fr] by (simp add: session_journal_def dget_after journal_inv_def)

lemma register_grows: "register_checkpoint_interaction_request sha fr c x d = Inr d' \<Longrightarrow> journal_grows sha fr d d'"
  unfolding journal_grows_def
proof (intro allI impI)
  fix j assume reg: "register_checkpoint_interaction_request sha fr c x d = Inr d'" and j: "session_journal sha fr d j"
  from j have parts: "validate_interaction_journal sha fr (dget d journal_key) = Inr j" "journal_inv sha j"
    by (simp_all add: session_journal_def)
  show "\<exists>k. session_journal sha fr d' k \<and> ix_reach sha fr j k"
    by (rule register_checkpoint_effect [OF parts reg]) (use journal_stored [OF j] in blast)
qed

lemma apply_grows: "apply_checkpoint_interaction_receipt sha fr c cid d = Inr (d', b) \<Longrightarrow> journal_grows sha fr d d'"
  unfolding journal_grows_def
proof (intro allI impI)
  fix j assume app: "apply_checkpoint_interaction_receipt sha fr c cid d = Inr (d', b)" and j: "session_journal sha fr d j"
  from j have parts: "validate_interaction_journal sha fr (dget d journal_key) = Inr j" "journal_inv sha j"
    by (simp_all add: session_journal_def)
  show "\<exists>k. session_journal sha fr d' k \<and> ix_reach sha fr j k"
    by (rule apply_checkpoint_effect [OF parts app]) (use j journal_stored [OF j] ix_start in blast)+
qed

lemma record_grows:
  assumes "validate_interaction_journal sha fr (dget d journal_key) = Inr j"
    and "record_interaction_receipt sha fr x (journal_dict j) = Inr k"
  shows "journal_grows sha fr d (dict_set journal_key (journal_dict k) d)"
proof -
  have "ix_reach sha fr j k" using assms(2) by (intro ix_step [OF ix_start, of _ _ "Answer x"]) simp
  then show ?thesis using assms(1) journal_stored [of sha fr d] by (auto simp: journal_grows_def session_journal_def)
qed

lemma without_checkpoint_journal: "dget (without_checkpoint d) journal_key = dget d journal_key"
  by (simp add: without_checkpoint_def dget_after)

lemma apply_then_clear_grows:
  "\<lbrakk>journal_grows sha fr d d1; apply_checkpoint_interaction_receipt sha fr c cid d1 = Inr (d2, b)\<rbrakk>
   \<Longrightarrow> journal_grows sha fr d (without_checkpoint d2)"
  by (rule grows_to_same [OF journal_grows_trans [OF _ apply_grows] without_checkpoint_journal])

lemma answer_cancelled_grows:
  assumes "validate_interaction_journal sha fr (dget d journal_key) = Inr j" "answer_cancelled sha fr who why at_ms e j d = Inr d'"
  shows "journal_grows sha fr d d'"
  using assms by (auto simp: answer_cancelled_def bindr_eq_Inr intro: journal_grows_refl record_grows split: if_splits)

lemma cancelled_state_grows: "cancelled_state sha fr who canc c d = Inr d' \<Longrightarrow> journal_grows sha fr d d'"
  by (auto simp: cancelled_state_def bindr_eq_Inr intro: journal_grows_refl grows_to_same [OF _ without_checkpoint_journal]
      apply_then_clear_grows [OF answer_cancelled_grows] split: if_splits option.splits)

lemma abandoned_state_grows:
  "abandoned_state sha fr at_ms run iid why who now = Inr d' \<Longrightarrow> journal_grows sha fr (snap_dict (is_session now)) d'"
  by (auto simp: abandoned_state_def Let_def bindr_eq_Inr if_eq_Inr intro: apply_then_clear_grows [OF journal_grows_refl]
      apply_then_clear_grows [OF record_grows] split: if_splits option.splits)

lemma with_interaction_grows: "with_interaction sha fr validated request stored d = Inr d' \<Longrightarrow> journal_grows sha fr d d'"
  by (auto simp: with_interaction_def bindr_eq_Inr intro: journal_grows_refl register_grows apply_grows split: option.splits if_splits)

lemma with_domain_effect:
  "with_domain fr aware sid validated fence again stored old d = Inr d' \<Longrightarrow> k \<noteq> domain_key \<Longrightarrow> dget d' k = dget d k"
  by (auto simp: with_domain_def Let_def bindr_eq_Inr dget_after split: option.splits if_splits)

lemma plan_checkpoint_grows:
  "plan_checkpoint sha fr aware sid validated request expected fence sn = Inr (stored, again, d) \<Longrightarrow> journal_grows sha fr (snap_dict sn) d"
  by (auto simp: plan_checkpoint_Inr dget_after dest!: with_domain_effect [of _ _ _ _ _ _ _ _ _ _ journal_key] with_interaction_grows
      intro: grows_to_same)

lemma plan_clear_grows: "plan_clear sha fr expected_id d = Inr (d', b, i) \<Longrightarrow> journal_grows sha fr d d'"
  by (auto simp: plan_clear_def bindr_eq_Inr if_eq_Inr intro: apply_then_clear_grows [OF journal_grows_refl] split: if_splits)


subsection \<open>Every operation keeps the answers\<close>

datatype runtime_call =
    SaveCheckpoint pyval "(interaction_request + pyval) option" "int option" "execution_fence option"
  | ClearCheckpoint "string option" "int option" "execution_fence option"
  | LoadCheckpoint
  | Reconcile
  | LoadInteraction "string option" bool
  | RecordReceipt int string raw_response string "int option" "execution_fence option"
  | CancelPending int pyval pyval pyval string
  | RequireReceipt "string option"

text \<open>The store after a call, whatever it returned or raised.\<close>

fun runtime_apply ::
  "(blob \<Rightarrow> string) \<Rightarrow> (rat \<Rightarrow> string) \<Rightarrow> 's world_env \<Rightarrow> string \<Rightarrow> runtime_call \<Rightarrow> nat \<times> 's \<Rightarrow> nat \<times> 's" where
  "runtime_apply sha fr env sid (SaveCheckpoint c q n k) w = snd (save_execution_checkpoint_snapshot sha fr env sid c q n k w)"
| "runtime_apply sha fr env sid (ClearCheckpoint i n k) w = snd (clear_execution_checkpoint_snapshot sha fr env sid i n k w)"
| "runtime_apply sha fr env sid LoadCheckpoint w = snd (load_execution_checkpoint sha fr env sid w)"
| "runtime_apply sha fr env sid Reconcile w = snd (reconcile_cancelled_execution_checkpoint sha fr env tree_canceller sid w)"
| "runtime_apply sha fr env sid (LoadInteraction i act) w = snd (interaction_load sha fr env sid i act w)"
| "runtime_apply sha fr env sid (RecordReceipt t i r who n k) w = snd (record_receipt sha fr env t sid i r who n k w)"
| "runtime_apply sha fr env sid (CancelPending t run i why who) w = snd (cancel_pending sha fr env t sid run i why who w)"
| "runtime_apply sha fr env sid (RequireReceipt i) w = snd (require_receipt sha fr env sid i w)"

lemma hoare_keeps: "\<lbrakk>hoare J m (\<lambda>_. J) (\<lambda>_. J); J (snd w)\<rbrakk> \<Longrightarrow> J (snd (snd (m w)))"
  by (cases "fst (m w)"; cases "m w") (auto dest: hoareD_Inl hoareD_Inr)

context shared_sessions
begin

text \<open>A predicate of the session that every new state computed by the operations keeps.\<close>

definition plans_keep :: "(blob \<Rightarrow> string) \<Rightarrow> (rat \<Rightarrow> string) \<Rightarrow> string \<Rightarrow> (pydict \<Rightarrow> bool) \<Rightarrow> bool" where
  "plans_keep sha fr sid p \<longleftrightarrow> stable (\<lambda>s. p (content s sid)) \<and> (\<forall>d d'. p d \<and> journal_grows sha fr d d' \<longrightarrow> p d')"

lemma plan_step: "\<lbrakk>plans_keep sha fr sid p; p (content s sid); journal_grows sha fr (content s sid) d'; commits sid d' s s'\<rbrakk> \<Longrightarrow> p (content s' sid)"
  using commits_session unfolding plans_keep_def by blast

lemma plans_cleanup: "plans_keep sha fr sid p \<Longrightarrow> cleanup_keeps sha fr sid (\<lambda>s. p (content s sid))"
  unfolding cleanup_keeps_def by (auto simp: plans_keep_def [of sha fr sid p] dest!: commits_session intro: cancelled_state_grows)

lemma plans_stable: "plans_keep sha fr sid p \<Longrightarrow> stable (\<lambda>s. p (content s sid))"
  by (simp add: plans_keep_def)

lemma now_plan_grows:
  "plan_checkpoint sha fr aware sid v q n k (now_in sid s) = Inr (stored, again, d) \<Longrightarrow> journal_grows sha fr (content s sid) d"
  using plan_checkpoint_grows [of sha fr aware sid v q n k "now_in sid s" stored again d] by simp

lemma save_checkpoint_keeps:
  assumes "plans_keep sha fr sid p"
  shows "hoare (\<lambda>s. p (content s sid)) (save_execution_checkpoint_snapshot sha fr env sid c q n k)
    (\<lambda>_ s. p (content s sid)) (\<lambda>_ s. p (content s sid))"
proof (cases "validate_execution_checkpoint sha fr c")
  case (Inl e)
  then show ?thesis
    by (auto simp: save_execution_checkpoint_snapshot_def intro!: hoare_raise hoare_pure_bind)
next
  case (Inr v)
  show ?thesis
    by (rule hoare_weaken [OF save_checkpoint_triple [where K = "\<lambda>s. p (content s sid)", OF plans_stable [OF assms] plans_stable [OF assms] _ _ Inr]])
      (auto intro: plan_step [OF assms _ now_plan_grows])
qed

lemma clear_checkpoint_keeps:
  assumes "plans_keep sha fr sid p"
  shows "hoare (\<lambda>s. p (content s sid)) (clear_execution_checkpoint_snapshot sha fr env sid i n k)
    (\<lambda>_ s. p (content s sid)) (\<lambda>_ s. p (content s sid))"
  by (rule hoare_weaken [OF clear_checkpoint_triple [where K = "\<lambda>s. p (content s sid)", OF plans_stable [OF assms] plans_stable [OF assms]]])
    (auto intro: plan_step [OF assms] dest: plan_clear_grows)

lemma reconcile_keeps:
  assumes "plans_keep sha fr sid p"
  shows "hoare (\<lambda>s. p (content s sid)) (reconcile_cancelled_execution_checkpoint sha fr env tree_canceller sid)
    (\<lambda>_ s. p (content s sid)) (\<lambda>_ s. p (content s sid))"
proof (cases "sid = []")
  case True
  then show ?thesis by (simp add: reconcile_cancelled_execution_checkpoint_def hoare_ret)
next
  case False
  show ?thesis by (rule hoare_weaken [OF cleanup_triple [OF plans_cleanup [OF assms] False]]) auto
qed

lemma load_checkpoint_keeps:
  assumes "plans_keep sha fr sid p"
  shows "hoare (\<lambda>s. p (content s sid)) (load_execution_checkpoint sha fr env sid) (\<lambda>_ s. p (content s sid)) (\<lambda>_ s. p (content s sid))"
  unfolding load_execution_checkpoint_def
  by (intro hoare_if hoare_ret, assumption, rule hoare_bind [OF reconcile_keeps [OF assms]])
    (auto intro!: hoare_ret hoare_pure_bind)

lemma record_receipt_keeps:
  assumes "plans_keep sha fr sid p"
  shows "hoare (\<lambda>s. p (content s sid)) (record_receipt sha fr env t sid i r who n k)
    (\<lambda>x s. is_receipt x \<noteq> None \<and> shown sha fr sid (\<lambda>s. p (content s sid)) x s) (\<lambda>_ s. p (content s sid))"
  by (rule record_receipt_triple [OF plans_cleanup [OF assms]]) (blast intro: plan_step [OF assms] record_grows)

lemma cancel_pending_keeps:
  assumes "plans_keep sha fr sid p"
  shows "hoare (\<lambda>s. p (content s sid)) (cancel_pending sha fr env t sid run i why who)
    (\<lambda>x s. is_application x \<noteq> None \<and> shown sha fr sid (\<lambda>s. p (content s sid)) x s) (\<lambda>_ s. p (content s sid))"
proof (cases "sid = []")
  case True
  then show ?thesis
    by (auto simp: cancel_pending_def Let_def load_interaction_def intro!: hoare_pure_bind) (auto simp: hoare_def rt_bind_def rt_raise_def)
next
  case False
  show ?thesis
    by (rule cancel_pending_triple [OF plans_cleanup [OF assms] False])
      (drule abandoned_state_grows, simp, erule (2) plan_step [OF assms])
qed

lemma runtime_keeps:
  assumes "plans_keep sha fr sid p" "p (content (snd w) sid)"
  shows "p (content (snd (runtime_apply sha fr env sid c w)) sid)"
proof -
  have shown: "hoare (\<lambda>s. p (content s sid)) m (\<lambda>_ s. p (content s sid)) (\<lambda>_ s. p (content s sid))"
    if "hoare (\<lambda>s. p (content s sid)) m (\<lambda>x s. b x \<and> shown sha fr sid (\<lambda>s. p (content s sid)) x s) (\<lambda>_ s. p (content s sid))" for m b
    by (rule hoare_weaken [OF that]) (auto simp: shown_def)
  note keep = hoare_keeps [where J = "\<lambda>s. p (content s sid)" and w = w, OF _ assms(2)]
  show ?thesis
  proof (cases c)
    case (LoadInteraction i act)
    have "hoare (\<lambda>s. p (content s sid)) (interaction_load sha fr env sid i act) (\<lambda>_ s. p (content s sid)) (\<lambda>_ s. p (content s sid))"
      unfolding interaction_load_def
      by (rule hoare_weaken [OF load_interaction_triple [OF plans_cleanup [OF assms(1)]]]) (auto simp: loaded_def)
    then show ?thesis using keep LoadInteraction by simp
  qed (simp_all add: keep save_checkpoint_keeps [OF assms(1)] clear_checkpoint_keeps [OF assms(1)] load_checkpoint_keeps [OF assms(1)]
      reconcile_keeps [OF assms(1)] shown [OF record_receipt_keeps [OF assms(1)]] shown [OF cancel_pending_keeps [OF assms(1)]]
      shown [OF require_receipt_triple [OF plans_cleanup [OF assms(1)]]])
qed

lemma runtime_run_keeps:
  "\<lbrakk>plans_keep sha fr sid p; p (content (snd w) sid)\<rbrakk> \<Longrightarrow> p (content (snd (fold (runtime_apply sha fr env sid) cs w)) sid)"
  by (induction cs arbitrary: w) (simp_all add: runtime_keeps)

end


subsection \<open>Answers survive\<close>

definition journal_step :: "(blob \<Rightarrow> string) \<Rightarrow> (rat \<Rightarrow> string) \<Rightarrow> pydict \<Rightarrow> pydict \<Rightarrow> bool" where
  "journal_step sha fr d d' \<longleftrightarrow> journal_grows sha fr d d' \<and>
     ((\<exists>k. session_journal sha fr d' k) \<longrightarrow> (\<exists>j. session_journal sha fr d j))"

lemma journal_step_refl: "journal_step sha fr d d"
  by (simp add: journal_step_def journal_grows_refl)

lemma journal_step_trans: "\<lbrakk>journal_step sha fr c d; journal_step sha fr d d'\<rbrakk> \<Longrightarrow> journal_step sha fr c d'"
  unfolding journal_step_def using journal_grows_trans by blast

text \<open>
  The contract for the other workers: whatever store they find, the calls they then make extend the journals
  as the operations of the journal do. A worker that reads a session, computes a new state with these
  operations and writes it with the revision it read keeps the contract, whether the write succeeds or not.
\<close>

definition other_workers_keep :: "(blob \<Rightarrow> string) \<Rightarrow> (rat \<Rightarrow> string) \<Rightarrow> schedule \<Rightarrow> bool" where
  "other_workers_keep sha fr sched \<longleftrightarrow>
     (\<forall>n s x. journal_step sha fr (state_of s x) (state_of (fold store_apply (sched n s) s) x))"

lemma kept_world:
  assumes "other_workers_keep sha fr sched"
  shows "shared_sessions (mem_env clock sched) state_of revision_of cancellation_of
    (\<lambda>n s e o' t. is_ok (assert_active_lease_unlocked s (clock n) e o' t)) (journal_step sha fr) (\<lambda>sid d s s'. s' = commit_state sid d s)"
  by (rule mem_shared) (use assms in \<open>simp add: other_workers_keep_def\<close>, rule journal_step_refl, erule (1) journal_step_trans)

lemma kept_plans:
  assumes "other_workers_keep sha fr sched"
  shows "shared_sessions.plans_keep (mem_env clock sched) state_of sha fr sid (journal_grows sha fr d)"
  unfolding shared_sessions.plans_keep_def [OF kept_world [OF assms]] shared_sessions.stable_def [OF kept_world [OF assms]]
  using assms by (auto simp: other_workers_keep_def journal_step_def intro: journal_grows_trans)

lemma kept_run:
  assumes "other_workers_keep sha fr sched" "journal_grows sha fr d (state_of (snd w) sid)"
  shows "journal_grows sha fr d (state_of (snd (fold (runtime_apply sha fr (mem_env clock sched) sid) cs w)) sid)"
  using shared_sessions.runtime_run_keeps [OF kept_world [OF assms(1)] kept_plans [OF assms(1)] assms(2)] .

lemma grown_entry:
  assumes "journal_grows sha fr d d'" "session_journal sha fr d j" "dict_get (ij_entries j) i = Some e"
  shows "\<exists>k e'. session_journal sha fr d' k \<and> dict_get (ij_entries k) i = Some e' \<and> entry_grows e e'"
proof -
  obtain k where k: "session_journal sha fr d' k" "ix_reach sha fr j k" using assms(1,2) by (auto simp: journal_grows_def)
  from reach_keeps_entries [OF k(2) _ assms(3)] assms(2) k(1) show ?thesis by (auto simp: session_journal_def)
qed

text \<open>
  C6: Let the other workers keep the contract that whatever store they find, their calls extend the interaction
  journals as the operations of the journal do (\<open>other_workers_keep\<close>; their calls may depend on the store they
  find, so they may commit such writes to the same session). Then whatever a runtime does to a session with a
  well-formed journal - save and clear checkpoints, clean up after a cancellation, load, answer and abandon
  interactions, each call returning or failing, with the other workers' calls before each of its accesses to
  the store - every interaction of the session stays in its journal with the request and the checkpoint it was
  filed with, and an answer or an application that was recorded is never changed.
\<close>
theorem session_answers_survive:
  assumes "other_workers_keep sha fr sched"
    and "session_journal sha fr (state_of st sid) j" "dict_get (ij_entries j) i = Some e"
    and "fold (runtime_apply sha fr (mem_env clock sched) sid) calls (n, st) = (n', st')"
  shows "\<exists>k e'. session_journal sha fr (state_of st' sid) k \<and> dict_get (ij_entries k) i = Some e' \<and> entry_grows e e'"
  using grown_entry [OF kept_run [OF assms(1), of "state_of st sid" "(n, st)" sid clock calls] assms(2,3)] assms(4)
  by (simp add: journal_grows_refl)

text \<open>
  C7: Under the same contract for the other workers, an answer that \<open>record_receipt\<close> reports as recorded for a
  session with a well-formed journal is in the journal of the session when it returns, and stays there through
  any later calls, also when other workers answered the question, cancelled the run or committed other writes to
  the session between its accesses to the store.
\<close>
theorem recorded_answer_is_durable:
  assumes others: "other_workers_keep sha fr sched" and j: "session_journal sha fr (state_of st sid) j"
    and run: "record_receipt sha fr (mem_env clock sched) at_ms sid iid response who expected fence (n, st) = (Inr x, w)"
    and later: "fold (runtime_apply sha fr (mem_env clock sched) sid) calls w = (n', st')"
  shows "\<exists>rc k e. is_receipt x = Some rc \<and> session_journal sha fr (state_of st' sid) k \<and>
    dict_get (ij_entries k) (iq_interaction_id (is_request x)) = Some e \<and> ie_request e = is_request x \<and> ie_receipt e = Some rc"
proof -
  note world = kept_world [OF others, of clock]
  let ?J = "\<lambda>s. journal_grows sha fr (state_of st sid) (state_of s sid)"
  have "is_receipt x \<noteq> None \<and> shared_sessions.shown state_of revision_of (journal_step sha fr) sha fr sid ?J x (snd w)"
    using hoareD_Inr [OF shared_sessions.record_receipt_keeps [OF world kept_plans [where d = "state_of st sid", OF others]] run]
    by (simp add: journal_grows_refl)
  then obtain rc where rc: "is_receipt x = Some rc" and now: "?J (snd w)" and rep: "reports sha fr x"
    and saw: "journal_step sha fr (snap_dict (is_session x)) (state_of (snd w) sid)"
    by (auto simp: shared_sessions.shown_def [OF world] shared_sessions.saw_def [OF world] snap_dict_def)
  obtain k0 e0 where k0: "validate_interaction_journal sha fr (dget (snap_dict (is_session x)) journal_key) = Inr k0"
    and e0: "dict_get (ij_entries k0) (iq_interaction_id (is_request x)) = Some e0" "ie_request e0 = is_request x" "ie_receipt e0 = Some rc"
    using rep rc by (auto simp: reports_def)
  have "\<exists>k. session_journal sha fr (snap_dict (is_session x)) k"
    using now j saw by (auto simp: journal_step_def journal_grows_def)
  then have sj: "session_journal sha fr (snap_dict (is_session x)) k0" using k0 by (auto simp: session_journal_def)
  have "journal_grows sha fr (snap_dict (is_session x)) (state_of st' sid)"
    using kept_run [OF others, of _ w sid clock calls] saw later by (simp add: journal_step_def)
  from grown_entry [OF this sj e0(1)] show ?thesis using rc e0(2,3) by (auto simp: entry_grows_def)
qed



subsection \<open>A save is one atomic update\<close>

lemma register_frame:
  "\<lbrakk>register_checkpoint_interaction_request sha fr c x d = Inr d'; k \<noteq> journal_key\<rbrakk> \<Longrightarrow> dict_get d' k = dict_get d k"
  by (auto simp: register_checkpoint_interaction_request_def bindr_eq_Inr split: if_splits)

lemma apply_frame:
  "\<lbrakk>apply_checkpoint_interaction_receipt sha fr c cid d = Inr (d', b); k \<noteq> journal_key\<rbrakk> \<Longrightarrow> dict_get d' k = dict_get d k"
  by (auto simp: apply_checkpoint_interaction_receipt_def Let_def bindr_eq_Inr split: option.splits if_splits)

lemma with_interaction_frame:
  "\<lbrakk>with_interaction sha fr validated request stored d = Inr d'; k \<noteq> journal_key\<rbrakk> \<Longrightarrow> dict_get d' k = dict_get d k"
  by (auto simp: with_interaction_def bindr_eq_Inr split: option.splits if_splits dest: register_frame apply_frame)

lemma with_domain_frame:
  "with_domain fr aware sid validated fence again stored old d = Inr d' \<Longrightarrow> k \<noteq> domain_key \<Longrightarrow> dict_get d' k = dict_get d k"
  by (auto simp: with_domain_def Let_def bindr_eq_Inr split: option.splits if_splits)

lemma plan_checkpoint_frame:
  assumes "plan_checkpoint sha fr aware sid validated request expected fence sn = Inr (stored, again, d)"
  shows "dict_get d checkpoint_key = Some (PyDict validated)"
    "k \<notin> {checkpoint_key, journal_key, domain_key} \<Longrightarrow> dict_get d k = dict_get (snap_dict sn) k"
  using assms by (auto simp: plan_checkpoint_Inr with_domain_frame with_interaction_frame)


text \<open>
  What a save does to the journal of the session. With a request, the question is filed with the checkpoint as
  the one active interaction; without, an interaction the previous checkpoint waited for is marked as applied, or
  the journal stays as it is.
\<close>

definition question_filed ::
  "(blob \<Rightarrow> string) \<Rightarrow> (rat \<Rightarrow> string) \<Rightarrow> pydict \<Rightarrow> interaction_request + pyval \<Rightarrow> interaction_journal \<Rightarrow> bool" where
  "question_filed sha fr c x k \<longleftrightarrow> (\<exists>q e.
     interaction_request_from_dict sha fr x = Inr q \<and> validate_checkpoint_request_binding c q = Inr () \<and>
     ij_active_id k = Some (iq_interaction_id q) \<and> dict_get (ij_entries k) (iq_interaction_id q) = Some e \<and>
     (ie_request e = q \<or> py_eq (interaction_request_to_dict (ie_request e)) (interaction_request_to_dict q)) \<and>
     ie_checkpoint_id e = py_strip (str_or fr (dget c ''checkpoint_id'') []) \<and> ie_application e = None)"

definition wait_over :: "(rat \<Rightarrow> string) \<Rightarrow> pydict \<Rightarrow> pydict \<Rightarrow> interaction_journal \<Rightarrow> interaction_journal \<Rightarrow> bool" where
  "wait_over fr c old j k \<longleftrightarrow> (\<exists>ref e rc.
     dget old ''interaction_ref'' = PyDict ref \<and> dict_get (ij_entries j) (str_or fr (dget ref ''interaction_id'') []) = Some e \<and>
     ie_receipt e = Some rc \<and> dict_get (ij_entries k) (str_or fr (dget ref ''interaction_id'') []) =
       Some (settled_entry rc (str_or fr (dget c ''checkpoint_id'') []) e))"

definition journal_filed ::
  "(blob \<Rightarrow> string) \<Rightarrow> (rat \<Rightarrow> string) \<Rightarrow> pydict \<Rightarrow> (interaction_request + pyval) option \<Rightarrow> pydict \<Rightarrow> pydict \<Rightarrow> bool" where
  "journal_filed sha fr c request d0 d \<longleftrightarrow> (\<forall>j. session_journal sha fr d0 j \<longrightarrow>
     (\<exists>k. session_journal sha fr d k \<and> ix_reach sha fr j k \<and>
       (case request of
          Some x \<Rightarrow> question_filed sha fr c x k
        | None \<Rightarrow> (case stored_checkpoint sha fr d0 of
             Inr (Some old) \<Rightarrow> if is_dict (dget old ''interaction_ref'') then wait_over fr c old j k else k = j
           | _ \<Rightarrow> k = j))))"

text \<open>The state \<open>d\<close> that a save computes from the session \<open>d0\<close>, apart from the owner.\<close>

definition checkpoint_filed ::
  "(blob \<Rightarrow> string) \<Rightarrow> (rat \<Rightarrow> string) \<Rightarrow> pydict \<Rightarrow> (interaction_request + pyval) option \<Rightarrow> pydict \<Rightarrow> pydict \<Rightarrow> bool" where
  "checkpoint_filed sha fr c request d0 d \<longleftrightarrow>
     dict_get d checkpoint_key = Some (PyDict c) \<and> journal_filed sha fr c request d0 d \<and>
     (\<forall>k. k \<notin> {checkpoint_key, journal_key, domain_key} \<longrightarrow> dict_get d k = dict_get d0 k)"

text \<open>
  The one write of a save: the store \<open>st1\<close> changes only in this session, which becomes the state \<open>d\<close> with the
  checkpoint, its question and its owner; under a fence the lease is active at that moment, and if the caller
  expected a revision, it is the revision of the session at that moment.
\<close>

definition saves_at ::
  "(blob \<Rightarrow> string) \<Rightarrow> (rat \<Rightarrow> string) \<Rightarrow> (nat \<Rightarrow> int) \<Rightarrow> string \<Rightarrow> pydict \<Rightarrow> (interaction_request + pyval) option \<Rightarrow> int option
   \<Rightarrow> execution_fence option \<Rightarrow> session_store \<Rightarrow> session_store \<Rightarrow> bool" where
  "saves_at sha fr clock sid c request expected fence st1 st2 \<longleftrightarrow> (\<exists>d.
     st2 = commit_state sid d st1 \<and> checkpoint_filed sha fr c request (state_of st1 sid) d \<and>
     dict_get d domain_key = map_option (\<lambda>k. domain_to_dict
       \<lparr>cd_checkpoint_id = str_or fr (dget c ''checkpoint_id'') [], cd_execution_id = fence_execution_id k,
        cd_owner_id = fence_owner_id k, cd_token = fence_token k\<rparr>) fence \<and>
     (\<forall>k. fence = Some k \<longrightarrow> (\<exists>n. is_ok (assert_active_lease_unlocked st1 (clock n) (fence_execution_id k) (fence_owner_id k) (fence_token k)))) \<and>
     (\<forall>n. expected = Some n \<longrightarrow> revision_of st1 sid = n))"

text \<open>A repeated save finds the session as it would write it and writes nothing.\<close>

definition saved_before ::
  "(blob \<Rightarrow> string) \<Rightarrow> (rat \<Rightarrow> string) \<Rightarrow> string \<Rightarrow> pydict \<Rightarrow> (interaction_request + pyval) option \<Rightarrow> session_store \<Rightarrow> bool" where
  "saved_before sha fr sid c request st1 \<longleftrightarrow>
     (\<exists>d. checkpoint_filed sha fr c request (state_of st1 sid) d \<and> py_eq (PyDict d) (PyDict (state_of st1 sid)))"

lemma register_filed:
  assumes "session_journal sha fr d0 j" "register_checkpoint_interaction_request sha fr c x d0 = Inr s0"
  shows "\<exists>k. session_journal sha fr s0 k \<and> ix_reach sha fr j k \<and> question_filed sha fr c x k"
proof -
  from assms(1) have j: "validate_interaction_journal sha fr (dget d0 journal_key) = Inr j" "journal_inv sha j"
    by (simp_all add: session_journal_def)
  obtain q k e where "interaction_request_from_dict sha fr x = Inr q" "validate_checkpoint_request_binding c q = Inr ()"
    "s0 = dict_set journal_key (journal_dict k) d0" "ix_reach sha fr j k"
    "ij_active_id k = Some (iq_interaction_id q)" "dict_get (ij_entries k) (iq_interaction_id q) = Some e"
    "ie_checkpoint_id e = py_strip (str_or fr (dget c ''checkpoint_id'') [])" "ie_application e = None"
    "ie_request e = q \<or> py_eq (interaction_request_to_dict (ie_request e)) (interaction_request_to_dict q)"
    by (rule register_checkpoint_effect [OF j assms(2)])
  then show ?thesis using journal_stored [OF assms(1)] unfolding question_filed_def by blast
qed

lemma apply_filed:
  assumes "session_journal sha fr d0 j" "is_dict (dget old ''interaction_ref'')"
    "apply_checkpoint_interaction_receipt sha fr old (str_or fr (dget c ''checkpoint_id'') []) d0 = Inr (s0, b)"
  shows "\<exists>k. session_journal sha fr s0 k \<and> ix_reach sha fr j k \<and> wait_over fr c old j k"
proof -
  from assms(1) have j: "validate_interaction_journal sha fr (dget d0 journal_key) = Inr j" "journal_inv sha j"
    by (simp_all add: session_journal_def)
  show ?thesis
  proof (rule apply_checkpoint_effect [OF j assms(3)])
    assume "dget old ''interaction_ref'' = PyNone"
    then show ?thesis using assms(2) by simp
  next
    fix ref e rc k
    assume "dget old ''interaction_ref'' = PyDict ref" "ix_reach sha fr j k" "s0 = dict_set journal_key (journal_dict k) d0"
      "dict_get (ij_entries j) (str_or fr (dget ref ''interaction_id'') []) = Some e" "ie_receipt e = Some rc"
      "dict_get (ij_entries k) (str_or fr (dget ref ''interaction_id'') []) = Some (settled_entry rc (str_or fr (dget c ''checkpoint_id'') []) e)"
    then show ?thesis using journal_stored [OF assms(1)] unfolding wait_over_def by blast
  qed
qed

lemma with_interaction_filed:
  assumes "with_interaction sha fr c request stored d0 = Inr s0" "stored_checkpoint sha fr d0 = Inr stored"
    "dget d journal_key = dget s0 journal_key"
  shows "journal_filed sha fr c request d0 d"
  unfolding journal_filed_def
proof (intro allI impI)
  fix j assume j: "session_journal sha fr d0 j"
  note same = same_journal [OF assms(3)]
  show "\<exists>k. session_journal sha fr d k \<and> ix_reach sha fr j k \<and> (case request of Some x \<Rightarrow> question_filed sha fr c x k
        | None \<Rightarrow> (case stored_checkpoint sha fr d0 of
             Inr (Some old) \<Rightarrow> if is_dict (dget old ''interaction_ref'') then wait_over fr c old j k else k = j | _ \<Rightarrow> k = j))"
    unfolding assms(2) same using assms(1) register_filed [OF j] apply_filed [OF j] j ix_start [of sha fr j]
    by (cases request; cases stored) (auto simp: with_interaction_def bindr_eq_Inr split: if_splits)
qed

lemma plan_checkpoint_filed:
  assumes "plan_checkpoint sha fr aware sid c request expected fence sn = Inr (stored, again, d)"
  shows "checkpoint_filed sha fr c request (snap_dict sn) d"
proof -
  from assms obtain s0 where "stored_checkpoint sha fr (snap_dict sn) = Inr stored"
    "with_interaction sha fr c request stored (snap_dict sn) = Inr s0"
    "with_domain fr aware sid c fence again stored (snap_dict sn) (dict_set checkpoint_key (PyDict c) s0) = Inr d"
    unfolding plan_checkpoint_Inr by blast
  moreover from this(3) have "dget d journal_key = dget s0 journal_key"
    by (drule_tac with_domain_effect [where k = journal_key]) (simp_all add: dget_after)
  ultimately show ?thesis
    unfolding checkpoint_filed_def using plan_checkpoint_frame [OF assms] with_interaction_filed by blast
qed

lemma plan_checkpoint_owner:
  assumes "plan_checkpoint sha fr True sid c request expected fence sn = Inr (stored, False, d)"
  shows "dict_get d domain_key = map_option (\<lambda>k. domain_to_dict (domain_from_fence fr c k)) fence"
    "\<lbrakk>snap_revision sn = Some r; expected = Some n\<rbrakk> \<Longrightarrow> r = n"
  using assms unfolding plan_checkpoint_Inr
  by (cases fence; cases stored; auto simp: with_domain_def Let_def ensure_expected_revision_def split: option.splits if_splits)+

text \<open>
  C5: Saving a valid checkpoint is atomic under interference, whatever calls the other workers make between its
  accesses to the store. A save that returns made exactly one write, and before and after it only the other
  workers' calls changed the store. That write replaced this session alone, as it was at that moment: it stores the
  checkpoint, registers its question as the active interaction filed with this checkpoint (or, without a
  question, marks the interaction the previous checkpoint waited for as applied), stores the owner of the fence
  (or removes the stored owner if there is no fence), keeps every other key, and happened while the lease of the
  fence was active and at the expected revision. Or, as a retry, the save found the session as it would write it and
  wrote nothing. A save that raises made that write too or nothing: then only the other workers' calls changed
  the store.
\<close>
theorem saved_checkpoint_is_atomic:
  assumes "save_execution_checkpoint_snapshot sha fr (mem_env clock sched) sid checkpoint request expected fence (n, st) = (r, (n', st'))"
    and "validate_execution_checkpoint sha fr checkpoint = Inr c"
  shows "(\<exists>st1 st2. others_only sched st st1 \<and> others_only sched st2 st' \<and>
      (saves_at sha fr clock sid c request expected fence st1 st2 \<or> saved_before sha fr sid c request st1 \<and> st2 = st1)) \<or>
    (\<exists>e. r = Inl e) \<and> others_only sched st st'"
proof -
  let ?J = "others_only sched st"
  let ?one = "\<lambda>st1 st2. saves_at sha fr clock sid c request expected fence st1 st2 \<or> saved_before sha fr sid c request st1 \<and> st2 = st1"
  let ?K = "\<lambda>s. \<exists>st1 st2. others_only sched st st1 \<and> others_only sched st2 s \<and> ?one st1 st2"
  have J: "mem_world.stable clock sched ?J" by (simp add: mem_world.stable_def others_only.scheduled)
  have K: "mem_world.stable clock sched ?K" unfolding mem_world.stable_def mem_env_simps using others_only.scheduled by blast
  have start: "?K s'" if "?J s" "?one s s'" for s s' using that others_only.nobody by blast
  have step: "?K s'" if "?J s" "aware = cancellation_aware (store_at (mem_env clock sched) m)"
      "plan_checkpoint sha fr aware sid c request expected fence (mem_world.now_in sid s) = Inr (stored, False, d)"
      "mem_world.fence_held clock fence s" "s' = commit_state sid d s" for s s' aware stored d m
  proof -
    have "aware" using that(2) by (simp add: cancellation_aware_def mem_runtime_def)
    then have plan: "plan_checkpoint sha fr True sid c request expected fence (mem_world.now_in sid s) = Inr (stored, False, d)"
      using that(3) by simp
    have "saves_at sha fr clock sid c request expected fence s s'"
      unfolding saves_at_def
      using that(4,5) plan_checkpoint_filed [OF plan] plan_checkpoint_owner [OF plan]
      by (auto simp: mem_world.fence_held_def domain_from_fence_def)
    then show ?thesis using start [OF that(1)] by blast
  qed
  have retry: "?K s" if "?J s" "plan_checkpoint sha fr aware sid c request expected fence (mem_world.now_in sid s) = Inr (stored, True, d)"
      "py_eq (PyDict d) (PyDict (state_of s sid))" for s aware stored d
    using start [OF that(1)] plan_checkpoint_filed [OF that(2)] that(3) unfolding saved_before_def by auto
  have triple: "hoare ?J (save_execution_checkpoint_snapshot sha fr (mem_env clock sched) sid checkpoint request expected fence)
      (\<lambda>v s. dget (fst v) ''checkpoint_id'' = dget c ''checkpoint_id'' \<and> ?K s) (\<lambda>_ s. ?J s \<or> ?K s)"
    by (rule mem_world.save_checkpoint_triple [OF J K _ _ assms(2)]) (rule step, assumption+, rule retry)
  show ?thesis
  proof (cases r)
    case (Inl e)
    have "?J st' \<or> ?K st'"
      using hoareD_Inl [OF triple assms(1) [unfolded Inl]] by (simp add: others_only.nobody)
    then show ?thesis using Inl by (elim disjE) simp_all
  next
    case (Inr v)
    then show ?thesis using hoareD_Inr [OF triple assms(1) [unfolded Inr]] by (simp add: others_only.nobody)
  qed
qed



subsection \<open>Cancellation\<close>

definition session_now :: "string \<Rightarrow> session_store \<Rightarrow> session_snapshot" where
  "session_now sid st = \<lparr>snap_state = PyDict (state_of st sid), snap_revision = Some (revision_of st sid)\<rparr>"

lemma session_now_eq: "mem_world.now_in sid st = session_now sid st"
  by (simp add: mem_world.now_in_def session_now_def)

lemma session_now_parts: "snap_dict (session_now sid st) = state_of st sid" "snap_revision (session_now sid st) = Some (revision_of st sid)"
  by (simp_all add: session_now_def snap_dict_def)


lemma without_checkpoint_gone:
  "dict_get (without_checkpoint d) checkpoint_key = None" "dict_get (without_checkpoint d) domain_key = None"
  by (simp_all add: without_checkpoint_def)

lemma cancelled_state_gone:
  assumes "cancelled_state sha fr who canc c d = Inr d'"
  shows "dict_get d' checkpoint_key = None" "dict_get d' domain_key = None"
  using assms by (auto simp: cancelled_state_def bindr_eq_Inr without_checkpoint_gone)


lemma bound_owner:
  assumes "bound_checkpoint sha fr sid sn = Inr (Some (c, m))"
  shows "sid = cd_execution_id m \<or> startswith sid (cd_execution_id m @ '':'')"
proof -
  obtain c' where "domain_from_state (snap_dict sn) c' sid = Inr (Some m)"
    using assms by (auto simp: bound_checkpoint_def bindr_eq_Inr split: pyval.splits)
  then show ?thesis by (auto simp: domain_from_state_def split: pyval.splits if_splits)
qed

text \<open>A tombstone has the ids it was asked for, and they are not blank.\<close>

lemma cas_tombstones: "cancellation_of (snd (cas_state sid d r st)) e o' = cancellation_of st e o'"
  by (simp add: cas_state_def)

lemma revoke_tombstones: "cancellation_of (snd (revoke_owner e o' r st)) = cancellation_of st"
  by (auto simp: revoke_owner_def fun_eq_iff)

lemma set_tombstones: "cancellation_of (set_cancellations e m st) = (cancellation_of st)(e := m)"
  by (auto simp: set_cancellations_def cancellation_of_def fun_eq_iff)

lemma cancel_tombstones:
  "cancellation_of (snd (request_execution_cancel x y why now st)) e o' = cancellation_of st e o' \<or> nonblank e \<and> nonblank o'"
proof (cases "nonblank x \<and> nonblank y")
  case True
  have "(case execution_cancellations st x of None \<Rightarrow> Map.empty | Some m \<Rightarrow> m) = cancellation_of st x"
    by (auto simp: cancellation_of_def fun_eq_iff split: option.splits)
  then show ?thesis
    using True by (auto simp: request_execution_cancel_def Let_def set_tombstones revoke_tombstones split_beta fun_eq_iff
        split: sum.splits option.splits)
next
  case False
  then have "\<exists>z. validate_lease_request x y None None = Inl z"
    by (cases "validate_lease_request x y None None") (auto simp: validate_lease_request_ok)
  then show ?thesis by (auto simp: request_execution_cancel_def)
qed

lemma call_tombstones:
  "cancellation_of (store_apply c st) e o' = cancellation_of st e o' \<or> nonblank e \<and> nonblank o'"
proof (cases "\<exists>x y why now. c = RequestCancel x y why now")
  case True
  then obtain x y why now where "c = RequestCancel x y why now" by blast
  then show ?thesis using cancel_tombstones [of x y why now st e o'] by simp
next
  case False
  then have "cancellation_of (store_apply c st) e o' = cancellation_of st e o'"
    by (cases c) (auto simp: load_def load_with_revision_def save_def save_if_revision_def save_if_revision_and_execution_not_cancelled_def
        save_if_revision_and_execution_cancelled_def save_if_revision_and_fence_def load_execution_cancellation_def verify_lease_def
        acquire_lease_def renew_lease_def release_lease_def grant_lease_def Let_def split_beta cas_tombstones split: sum.splits option.splits)
  then show ?thesis ..
qed

lemma steps_tombstones:
  "\<lbrakk>store_steps st0 st; cancellation_of st0 e o' = None; cancellation_of st e o' = Some canc\<rbrakk> \<Longrightarrow> nonblank e \<and> nonblank o'"
proof (induction arbitrary: canc rule: store_steps.induct)
  case (call st0 st c)
  then show ?case using call_tombstones [of c st e o'] by metis
qed simp

lemma tombstone_named:
  assumes "store_steps empty_store st" "cancellation_of st e o' = Some canc"
  shows "canc_execution_id canc = e" "canc_owner_id canc = o'" "nonblank e" "nonblank o'"
proof -
  have "store_inv st" using store_steps_keep [OF assms(1), of view_inv] view_step_inv store_inv_empty by (simp add: store_inv_view)
  then show "canc_execution_id canc = e" "canc_owner_id canc = o'" using assms(2) by (simp_all add: store_inv_def)
  show "nonblank e" "nonblank o'"
    using steps_tombstones [OF assms(1) _ assms(2)] by (simp_all add: empty_store_def cancellation_of_def)
qed

text \<open>Other workers that leave the session alone; they may do whatever they like to leases, tombstones and other sessions.\<close>

definition leave_alone :: "string \<Rightarrow> schedule \<Rightarrow> bool" where
  "leave_alone sid sched \<longleftrightarrow> (\<forall>n s. revision_of (fold store_apply (sched n s) s) sid = revision_of s sid)"

lemma left_alone:
  assumes "leave_alone sid sched" "others_only sched st s"
  shows "revision_of s sid = revision_of st sid" "state_of s sid = state_of st sid"
proof -
  show "revision_of s sid = revision_of st sid"
    using assms(2) by (induction rule: others_only.induct) (use assms(1) in \<open>simp_all add: leave_alone_def\<close>)
  then show "state_of s sid = state_of st sid" by (rule steps_same_revision [OF others_steps [OF assms(2)]])
qed


lemma session_now_alone:
  "\<lbrakk>leave_alone sid sched; others_only sched st s\<rbrakk> \<Longrightarrow> session_now sid s = session_now sid st"
  by (simp add: session_now_def left_alone)

lemma named_session:
  assumes "nonblank e" "sid = e \<or> startswith sid (e @ '':'')"
  shows "py_strip sid \<noteq> []"
proof -
  have "set e \<subseteq> set sid"
    using assms(2) unfolding startswith_def by (metis Un_subset_iff order_refl set_append set_take_subset)
  then show ?thesis using assms(1) by (auto simp: nonblank_def py_strip_empty_iff)
qed

lemma cleanup_alone:
  assumes alone: "leave_alone sid sched" and reach: "store_steps empty_store st"
    and bound: "bound_checkpoint sha fr sid (session_now sid st) = Inr (Some (c, m))"
    and dead: "cancellation_of st (cd_execution_id m) (cd_owner_id m) = Some canc"
  shows "\<exists>st1. others_only sched st st1 \<and>
    reconcile_cancelled_execution_checkpoint sha fr (mem_env clock sched) who sid (n, st) =
      (case cancelled_state sha fr who canc c (state_of st sid) of
         Inr d \<Rightarrow> (Inr (\<lparr>snap_state = PyDict d, snap_revision = Some (revision_of st sid + 1)\<rparr>, Some canc), (n + 3, commit_state sid d st1))
       | Inl e \<Rightarrow> (Inl (Raised e), (n + 2, st1)))"
proof -
  let ?env = "mem_env clock sched"
  define sa where "sa = fold store_apply (sched n st) st"
  define sb where "sb = fold store_apply (sched (Suc n) sa) sa"
  define sc where "sc = fold store_apply (sched (Suc (Suc n)) sb) sb"
  have run: "others_only sched st sa" "others_only sched st sb" "others_only sched st sc"
    unfolding sa_def sb_def sc_def by (intro others_only.intros)+
  note same = left_alone [OF alone run(1)] left_alone [OF alone run(2)] left_alone [OF alone run(3)]
  have tomb: "cancellation_of sb (cd_execution_id m) (cd_owner_id m) = Some canc" "cancellation_of sc (cd_execution_id m) (cd_owner_id m) = Some canc"
    using steps_keep_tombstone [OF others_steps dead] run by blast+
  note ids = tombstone_named [OF reach dead]
  have rev: "0 \<le> revision_of st sid"
    using store_steps_revision [OF reach, of sid] by (simp add: empty_store_def revision_of_def)
  have sid: "sid \<noteq> []" using named_session [OF ids(3) bound_owner [OF bound]] by auto
  have load: "kernel_load_snapshot ?env sid (n, st) = (Inr (session_now sid st), (Suc n, sa))"
    using mem_world.load_in_store [of clock sched n sid sa] rev sid same session_now_alone [OF alone run(1)]
    by (simp add: kernel_load_snapshot_def rt_store_def rt_call_def session_now_eq sa_def)
  have named: "validate_lease_request (cd_execution_id m) (cd_owner_id m) None None = Inr ()"
    using ids by (simp add: validate_lease_request_ok)
  have target: "validate_execution_fence_target sid (cd_execution_id m) = Inr ()"
    using bound_owner [OF bound] by (simp add: validate_execution_fence_target_def)
  have commit: "commit_cancelled ?env sid m canc d (revision_of st sid) (Suc (Suc n), sb) =
      (Inr (\<lparr>snap_state = PyDict d, snap_revision = Some (revision_of st sid + 1)\<rparr>, Some canc), (n + 3, commit_state sid d sc))" for d
    using named target tomb(2) rev same
    by (simp add: commit_cancelled_def rt_store_def mem_runtime_def rt_bind_def rt_call_def rt_ret_def cas_state_def
        save_if_revision_and_execution_cancelled_def validate_expected_revision_def sc_def [symmetric])
  have "reconcile_rounds sha fr ?env who sid (Suc 15) None (n, st) =
      (case cancelled_state sha fr who canc c (state_of st sid) of
         Inr d \<Rightarrow> (Inr (\<lparr>snap_state = PyDict d, snap_revision = Some (revision_of st sid + 1)\<rparr>, Some canc), (n + 3, commit_state sid d sc))
       | Inl e \<Rightarrow> (Inl (Raised e), (n + 2, sb)))"
    unfolding reconcile_rounds.simps(2)
    using bound load named commit ids tomb(1) session_now_parts [of sid st]
    by (simp add: rt_bind_def rt_pure_def rt_res_def from_py_def reconcile_bound_def rt_store_def rt_call_def mem_runtime_def
        load_execution_cancellation_def cancel_round_def rt_catch_def sb_def [symmetric] split: sum.splits)
  then show ?thesis
    using sid run(2,3) by (auto simp: reconcile_cancelled_execution_checkpoint_def split: sum.splits)
qed

text \<open>
  C21: Once the owner of the checkpoint a session waits at is cancelled, in any state the store's methods lead to
  from the empty store, every answer is refused as long as the other workers do not write to this session (they
  may do anything else: leases, cancellations, other sessions). \<open>record_receipt\<close> first cleans up: if the cleaned
  state can be computed, it writes it, so that the checkpoint is gone, and raises \<open>ExecutionCancelledError\<close> for
  whatever answer, by whomever and under whatever fence; if it cannot (the journal of the session is damaged, or
  does not have the checkpoint's interaction), it raises that error and changes nothing.
\<close>
theorem late_answer_is_refused:
  assumes "leave_alone sid sched" "store_steps empty_store st"
    and "bound_checkpoint sha fr sid (session_now sid st) = Inr (Some (c, m))"
    and "cancellation_of st (cd_execution_id m) (cd_owner_id m) = Some canc"
  shows "\<exists>st1. others_only sched st st1 \<and> state_of st1 sid = state_of st sid \<and>
    record_receipt sha fr (mem_env clock sched) at_ms sid iid response who expected fence (n, st) =
      (case cancelled_state sha fr tree_canceller canc c (state_of st sid) of
         Inr d \<Rightarrow> (Inl (cancelled_failure canc), (n + 3, commit_state sid d st1))
       | Inl e \<Rightarrow> (Inl (Raised e), (n + 2, st1))) \<and>
    (\<forall>d. cancelled_state sha fr tree_canceller canc c (state_of st sid) = Inr d \<longrightarrow> dict_get d checkpoint_key = None)"
proof -
  obtain st1 where st1: "others_only sched st st1"
    and run: "reconcile_cancelled_execution_checkpoint sha fr (mem_env clock sched) tree_canceller sid (n, st) =
      (case cancelled_state sha fr tree_canceller canc c (state_of st sid) of
         Inr d \<Rightarrow> (Inr (\<lparr>snap_state = PyDict d, snap_revision = Some (revision_of st sid + 1)\<rparr>, Some canc), (n + 3, commit_state sid d st1))
       | Inl e \<Rightarrow> (Inl (Raised e), (n + 2, st1)))"
    using cleanup_alone [OF assms] by blast
  have "py_strip sid \<noteq> []" using named_session [OF tombstone_named(3) [OF assms(2,4)] bound_owner [OF assms(3)]] .
  then show ?thesis
    using st1 left_alone(2) [OF assms(1) st1] cancelled_state_gone(1) [where who = tree_canceller and canc = canc and c = c] run
    by (intro exI [of _ st1])
      (auto simp: record_receipt_def interaction_load_def load_interaction_def rt_bind_def rt_raise_def split: sum.splits)
qed

subsection \<open>A worked example\<close>

text \<open>
  A session that waits for an approval. Another worker answers it too: it commits its answer to the session
  just before the write of the first, and asks for a cancellation before every other access.
\<close>

definition approval_request :: interaction_request where
  "approval_request = built_request flat_sha ''s'' ''tool_approval'' ''run'' ''1'' (PyDict []) PyNone 0 PyNone"

definition approval_journal :: interaction_journal where
  "approval_journal = registered approval_request ''c'' new_interaction_journal"

definition approval_store :: session_store where
  "approval_store = commit_state ''s'' [(journal_key, journal_dict approval_journal)] empty_store"

definition rival_receipt :: interaction_receipt where
  "rival_receipt = projr (bindr (normalize_interaction_response flat_sha (\<lambda>_. []) (Inl approval_request) (RawValue (PyBool True))) (\<lambda>yes.
     build_interaction_receipt flat_sha (\<lambda>_. []) (Inl approval_request) yes (PyStr ''rival'') (PyInt 6)))"

definition rival_journal :: interaction_journal where
  "rival_journal = (case record_interaction_receipt flat_sha (\<lambda>_. []) (Inl rival_receipt) (journal_dict approval_journal) of
     Inr k \<Rightarrow> k | Inl _ \<Rightarrow> approval_journal)"

definition busy_sched :: schedule where
  "busy_sched n s =
     (if n = 1 \<and> state_of s ''s'' = [(journal_key, journal_dict approval_journal)]
      then [SaveIfRevision ''s'' [(journal_key, journal_dict rival_journal)] (revision_of s ''s'') 7]
      else [RequestCancel ''s'' ''w'' ''stop'' 7])"

definition busy_world :: "session_store world_env" where
  "busy_world = mem_env (\<lambda>_. 7) busy_sched"

lemma approval_request_ok: "request_ok flat_sha approval_request"
  by code_simp

lemma approval_session: "session_journal flat_sha fr (state_of approval_store ''s'') approval_journal"
proof -
  have "journal_inv flat_sha approval_journal"
    unfolding approval_journal_def by (rule registered_inv [OF new_journal_inv approval_request_ok ask_cid(1) ask_new])
  then show ?thesis
    by (simp add: session_journal_def approval_store_def dget_def journal_trip journal_inv_def)
qed


lemma cancel_keeps_states: "state_of (snd (request_execution_cancel e o' why now s)) x = state_of s x"
proof -
  have "state_of (set_cancellations e m st) x = state_of st x" for m st
    by (simp add: set_cancellations_def state_of_def)
  moreover have "state_of (snd (revoke_owner e o' r st)) x = state_of st x" for r st
    by (simp add: revoke_owner_def)
  ultimately show ?thesis
    by (simp add: request_execution_cancel_def Let_def split_beta split: option.splits sum.splits)
qed

lemma rival_recorded: "record_interaction_receipt flat_sha (\<lambda>_. []) (Inl rival_receipt) (journal_dict approval_journal) = Inr rival_journal"
proof -
  have "is_ok (record_interaction_receipt flat_sha (\<lambda>_. []) (Inl rival_receipt) (journal_dict approval_journal))" by code_simp
  then show ?thesis by (auto simp: rival_journal_def is_ok_iff)
qed

lemma rival_step: "journal_step flat_sha (\<lambda>_. []) [(journal_key, journal_dict approval_journal)] [(journal_key, journal_dict rival_journal)]"
proof -
  let ?d = "[(journal_key, journal_dict approval_journal)]"
  have d: "session_journal flat_sha (\<lambda>_. []) ?d approval_journal"
    using approval_session [of "\<lambda>_. []"] by (simp add: approval_store_def)
  then have "validate_interaction_journal flat_sha (\<lambda>_. []) (dget ?d journal_key) = Inr approval_journal" by (simp add: session_journal_def)
  from record_grows [OF this rival_recorded]
  show ?thesis using d by (auto simp: journal_step_def)
qed

lemma save_if_revision_effect:
  "state_of (store_apply (SaveIfRevision y d r now) s) x = state_of s x \<or>
   x = y \<and> state_of (store_apply (SaveIfRevision y d r now) s) x = d"
  by (simp add: save_if_revision_def cas_state_def split: sum.splits)

lemma busy_calls:
  obtains "busy_sched n s = [RequestCancel ''s'' ''w'' ''stop'' 7]"
  | "state_of s ''s'' = [(journal_key, journal_dict approval_journal)]"
    "busy_sched n s = [SaveIfRevision ''s'' [(journal_key, journal_dict rival_journal)] (revision_of s ''s'') 7]"
  unfolding busy_sched_def by meson

lemma busy_world_keeps: "other_workers_keep flat_sha (\<lambda>_. []) busy_sched"
  unfolding other_workers_keep_def
proof (intro allI)
  fix n s x
  show "journal_step flat_sha (\<lambda>_. []) (state_of s x) (state_of (fold store_apply (busy_sched n s) s) x)"
  proof (rule busy_calls [of n s])
    assume "busy_sched n s = [RequestCancel ''s'' ''w'' ''stop'' 7]"
    then show ?thesis by (simp only: fold_simps store_apply.simps cancel_keeps_states journal_step_refl)
  next
    assume old: "state_of s ''s'' = [(journal_key, journal_dict approval_journal)]"
      and calls: "busy_sched n s = [SaveIfRevision ''s'' [(journal_key, journal_dict rival_journal)] (revision_of s ''s'') 7]"
    from save_if_revision_effect [of "''s''" "[(journal_key, journal_dict rival_journal)]" "revision_of s ''s''" 7 s x]
    show ?thesis
    proof (elim disjE conjE)
      assume "state_of (store_apply (SaveIfRevision ''s'' [(journal_key, journal_dict rival_journal)] (revision_of s ''s'') 7) s) x = state_of s x"
      then show ?thesis by (simp only: calls fold_simps journal_step_refl)
    next
      assume "x = ''s''" "state_of (store_apply (SaveIfRevision ''s'' [(journal_key, journal_dict rival_journal)] (revision_of s ''s'') 7) s) x
          = [(journal_key, journal_dict rival_journal)]"
      then show ?thesis by (simp only: calls fold_simps old rival_step)
    qed
  qed
qed

text \<open>The rival's answer won the race: it is the recorded one, and it stays through later calls.\<close>

lemma approval_lost:
  "(case fst (record_receipt flat_sha (\<lambda>_. []) busy_world 5 ''s'' (iq_interaction_id approval_request) (RawValue (PyBool True)) ''user'' None None
     (0, approval_store)) of Inr x \<Rightarrow> map_option ic_submitted_by (is_receipt x) = Some ''rival'' | Inl _ \<Rightarrow> False)"
  by code_simp

theorem recorded_answer_is_durable_witness:
  "\<exists>x rc k e w. record_receipt flat_sha (\<lambda>_. []) busy_world 5 ''s'' (iq_interaction_id approval_request) (RawValue (PyBool True)) ''user'' None None
     (0, approval_store) = (Inr x, w) \<and>
    session_journal flat_sha (\<lambda>_. []) (state_of (snd (fold (runtime_apply flat_sha (\<lambda>_. []) busy_world ''s'') [Reconcile, LoadCheckpoint] w)) ''s'') k \<and>
    dict_get (ij_entries k) (iq_interaction_id (is_request x)) = Some e \<and> ie_receipt e = Some rc \<and> ic_submitted_by rc = ''rival''"
proof -
  let ?run = "record_receipt flat_sha (\<lambda>_. []) busy_world 5 ''s'' (iq_interaction_id approval_request) (RawValue (PyBool True)) ''user'' None None (0, approval_store)"
  obtain x w where run: "?run = (Inr x, w)" and won: "map_option ic_submitted_by (is_receipt x) = Some ''rival''"
    using approval_lost by (cases ?run; cases "fst ?run") auto
  from recorded_answer_is_durable [OF busy_world_keeps approval_session run [unfolded busy_world_def] prod.collapse [symmetric], of "[Reconcile, LoadCheckpoint]"]
  obtain rc k e where "is_receipt x = Some rc"
    "session_journal flat_sha (\<lambda>_. []) (state_of (snd (fold (runtime_apply flat_sha (\<lambda>_. []) busy_world ''s'') [Reconcile, LoadCheckpoint] w)) ''s'') k"
    "dict_get (ij_entries k) (iq_interaction_id (is_request x)) = Some e" "ie_receipt e = Some rc"
    unfolding busy_world_def by blast
  then show ?thesis using run won by auto
qed

theorem session_answers_survive_witness:
  "\<exists>k e'. session_journal flat_sha (\<lambda>_. []) (state_of (snd (fold (runtime_apply flat_sha (\<lambda>_. []) busy_world ''s'')
      [RecordReceipt 5 (iq_interaction_id approval_request) (RawValue (PyBool True)) ''user'' None None, Reconcile, LoadCheckpoint] (0, approval_store))) ''s'') k \<and>
    dict_get (ij_entries k) (iq_interaction_id approval_request) = Some e' \<and> ie_request e' = approval_request"
proof -
  have e: "dict_get (ij_entries approval_journal) (iq_interaction_id approval_request) = Some (fresh_entry approval_request ''c'')"
    by (simp add: approval_journal_def registered_def)
  show ?thesis
    using session_answers_survive [OF busy_world_keeps approval_session e prod.collapse [symmetric]]
    unfolding busy_world_def by (fastforce simp: entry_grows_def fresh_entry_def)
qed

text \<open>A session that holds a checkpoint whose owner is cancelled.\<close>

definition late_checkpoint :: pydict where
  "late_checkpoint = (case build_execution_checkpoint flat_sha (\<lambda>_. []) ck_run ''max_iterations'' ''run'' of Inr c \<Rightarrow> c | Inl _ \<Rightarrow> [])"

definition late_domain :: checkpoint_domain where
  "late_domain = \<lparr>cd_checkpoint_id = text_of (dget late_checkpoint ''checkpoint_id''), cd_execution_id = ''s'', cd_owner_id = ''w'', cd_token = 1\<rparr>"

definition late_store :: session_store where
  "late_store = store_apply (RequestCancel ''s'' ''w'' ''stop'' 7)
     (commit_state ''s'' [(checkpoint_key, PyDict late_checkpoint), (domain_key, domain_to_dict late_domain)] empty_store)"

lemma late_valid: "validate_execution_checkpoint flat_sha (\<lambda>_. []) (PyDict late_checkpoint) = Inr late_checkpoint"
  by code_simp

text \<open>Saving under a lease, while another worker asks for the cancellation of somebody else.\<close>

definition leased_store :: session_store where
  "leased_store = store_apply (Acquire ''s'' ''a'' 1000 None 0) empty_store"

definition leased_fence :: execution_fence where
  "leased_fence = \<lparr>fence_execution_id = ''s'', fence_owner_id = ''a'', fence_token = 1\<rparr>"

lemma late_saved:
  "is_ok (fst (save_execution_checkpoint_snapshot flat_sha (\<lambda>_. []) busy_world ''s'' (PyDict late_checkpoint) None (Some 0) (Some leased_fence)
     (0, leased_store)))"
  by code_simp

theorem saved_checkpoint_is_atomic_witness:
  "\<exists>st1 st2. others_only busy_sched leased_store st1 \<and>
    others_only busy_sched st2 (snd (snd (save_execution_checkpoint_snapshot flat_sha (\<lambda>_. []) busy_world ''s'' (PyDict late_checkpoint) None (Some 0)
       (Some leased_fence) (0, leased_store)))) \<and>
    (saves_at flat_sha (\<lambda>_. []) (\<lambda>_. 7) ''s'' late_checkpoint None (Some 0) (Some leased_fence) st1 st2 \<or>
     saved_before flat_sha (\<lambda>_. []) ''s'' late_checkpoint None st1 \<and> st2 = st1)"
proof -
  obtain v k s where run: "save_execution_checkpoint_snapshot flat_sha (\<lambda>_. []) busy_world ''s'' (PyDict late_checkpoint) None (Some 0) (Some leased_fence)
      (0, leased_store) = (Inr v, (k, s))" using late_saved by (auto simp: is_ok_iff prod_eq_iff)
  from saved_checkpoint_is_atomic [OF run [unfolded busy_world_def] late_valid]
  show ?thesis unfolding run by simp
qed

lemma late_bound: "bound_checkpoint flat_sha (\<lambda>_. []) ''s'' (session_now ''s'' late_store) = Inr (Some (late_checkpoint, late_domain))"
  by code_simp

lemma late_cancelled: "cancellation_of late_store ''s'' ''w'' = Some (the (cancellation_of late_store ''s'' ''w''))"
  by code_simp

lemma late_cleaned: "is_ok (cancelled_state flat_sha (\<lambda>_. []) tree_canceller (the (cancellation_of late_store ''s'' ''w'')) late_checkpoint (state_of late_store ''s''))"
  by code_simp

lemma late_reached: "store_steps empty_store late_store"
proof -
  have "store_steps empty_store (store_apply (Save ''s'' d 0) empty_store)" for d
    by (rule store_steps.call [OF store_steps.none])
  moreover have "store_apply (Save ''s'' d 0) empty_store = commit_state ''s'' d empty_store" for d
    by (simp add: save_def ensure_unfenced_write_allowed_def empty_store_def active_lease_def)
  ultimately show ?thesis unfolding late_store_def by (intro store_steps.call) simp
qed

text \<open>Another worker that takes the lease of the session again and again.\<close>

definition lease_sched :: schedule where
  "lease_sched n s = [Acquire ''s'' ''b'' 1000 None (int n)]"

lemma lease_alone: "leave_alone ''s'' lease_sched"
proof -
  have "revision_of (snd (acquire_lease e o' ttl x now s)) y = revision_of s y" for e o' ttl x now s y
    by (auto simp: acquire_lease_def grant_lease_def Let_def split_beta split: sum.splits option.splits)
  then show ?thesis by (simp add: leave_alone_def lease_sched_def)
qed

theorem late_answer_is_refused_witness:
  "\<exists>d st1. others_only lease_sched late_store st1 \<and>
    record_receipt flat_sha (\<lambda>_. []) (mem_env (\<lambda>_. 7) lease_sched) 5 ''s'' ''i'' (RawValue (PyBool True)) ''user'' None None (0, late_store) =
      (Inl (cancelled_failure (the (cancellation_of late_store ''s'' ''w''))), (3, commit_state ''s'' d st1)) \<and>
    dict_get d checkpoint_key = None"
proof -
  obtain d where d: "cancelled_state flat_sha (\<lambda>_. []) tree_canceller (the (cancellation_of late_store ''s'' ''w'')) late_checkpoint (state_of late_store ''s'') = Inr d"
    using late_cleaned by (auto simp: is_ok_iff)
  have dead: "cancellation_of late_store (cd_execution_id late_domain) (cd_owner_id late_domain) = Some (the (cancellation_of late_store ''s'' ''w''))"
    using late_cancelled by (simp add: late_domain_def)
  from late_answer_is_refused [OF lease_alone late_reached late_bound dead, of "\<lambda>_. 7" 5 "''i''" "RawValue (PyBool True)" "''user''" None None 0, unfolded d]
  show ?thesis by auto
qed



end
