(* ===== verification/Spec2Isabelle.thy ===== *)
theory Spec2Isabelle
  imports SessionRevision AgentComms Application Optimizers Retry DurableRuns DurableWorld SessionWorld
begin

text \<open>
  Verification of the unchain agent framework (\<open>src/unchain\<close>): the state that an agent run keeps,
  the operations that change it and the stores that make it durable.

  \<^bold>\<open>The program.\<close> A run of the kernel works on a run state: a graph of message versions, provider
  replay frames and the state of subagents. Harnesses and optimizers return deltas, which the kernel
  applies. One worker at a time runs a session: it holds an execution lease of the session store,
  and every write carries the fencing token of that lease. Model calls go through a retry loop. What
  a run did is appended to a journal, and before a provider request is sent the request coordinator
  claims a durable lease for it, so that a worker that comes back after a crash knows what may have
  been sent. Journal, artifacts and request leases are tables of one SQLite database; the bytes of artifacts
  are files named by their digests.

  \<^bold>\<open>Foundations.\<close>
  \<^item> \<open>Prelude\<close>: results \<open>'e + 'a\<close> of calls that may raise, insertion-ordered dictionaries, generic lemmas.
  \<^item> \<open>PyValue\<close>, \<open>PyText\<close>: JSON-shaped Python values, \<open>str\<close>, \<open>repr\<close>, \<open>int\<close>, \<open>==\<close>, truth values and
    the exceptions with their messages.

  \<^bold>\<open>Sessions and leases\<close> (\<open>execution.py\<close>, \<open>memory/manager.py\<close>, \<open>memory/revision.py\<close>).
  \<^item> \<open>Leases\<close> has the fences, leases, tombstones and errors; \<open>SessionStore\<close> the in-memory store with
    each of its methods, over integer milliseconds that the caller reads from the clock.
  \<^item> \<open>SessionSafety\<close> runs the store as a state machine with any calls at any times and shows the
    invariant, that a dead token or a cancelled owner never comes back, that there is one holder,
    and when a lease can be taken over or must be granted.
  \<^item> \<open>ExecutionGuard\<close> has the guard that a worker holds, its heartbeat thread, borrowed guards and the
    guarded model call, over a locale of lease stores interpreted by the in-memory store.
  \<^item> \<open>SessionRevision\<close> has snapshots with optimistic revisions, fenced and not: round trip and no lost update.

  \<^bold>\<open>Kernel state\<close> (\<open>kernel/\<close>, \<open>capabilities/\<close>, \<open>artifacts/core.py\<close>, \<open>optimizers/\<close>, \<open>retry/\<close>).
  \<^item> \<open>MessageGraph\<close>: versions and the lineage walk. A cyclic graph would make the walk run for ever,
    so the loop is a partial function; it is shown to return on every graph built with new version
    identifiers, and not to return after a version is created under the identifier of an ancestor.
  \<^item> \<open>RunState\<close>: seeding, rebuilding, applying deltas and updates, and the invariant they keep.
  \<^item> \<open>ProviderReplay\<close>: replay frames, their merging, and redaction, whose result shows of a secret
    only its length and the first 16 digits of its digest.
  \<^item> \<open>Application\<close>: applying a run delta operation by operation, errors included.
  \<^item> \<open>Optimizers\<close>: last-n, sliding window and tool pairs. \<open>Retry\<close>: delays, classification, the loop.

  \<^bold>\<open>Subagents\<close> (\<open>subagents/types.py\<close>, \<open>subagents/communication.py\<close>).
  \<^item> \<open>SubagentTypes\<close>: templates, policies, the shared state, its wire form and merging of child states.
  \<^item> \<open>AgentComms\<close>: threads, mailboxes and boards with their limits.

  \<^bold>\<open>Durable journal and provider requests\<close> (\<open>journal/models.py\<close>, \<open>providers/request_lease.py\<close>,
  \<open>providers/failure_diagnostic.py\<close>, \<open>providers/uncertainty_diagnostic.py\<close>, \<open>persistence/sqlite_v2.py\<close>).
  \<^item> \<open>JournalModels\<close>: the validated records; what a constructor accepts round-trips and hides credentials.
  \<^item> \<open>RequestLease\<close>: the lease record and every operation of the coordinator over an abstract port.
  \<^item> \<open>LeaseProtocol\<close>: coordinators that race, each a read phase and one swap, with an environment that
    may do anything else the store allows. The locale \<open>lease_store\<close> states what a port must promise
    (a load shows the durable lease, a swap is granted exactly on the revision it expects) and
    derives: one send per subject, a reason for every send, finality of terminal leases.
  \<^item> \<open>SqlStore\<close>: tables, transactions that roll back, keys and foreign keys, 64-bit binding of integers,
    journal append and reading, shown to refine an abstract log. \<open>SqlLeases\<close>: the lease tables,
    and the interpretation of \<open>lease_store\<close> by them.
  \<^item> \<open>DurableRuns\<close>: the theorems about journal and leases together, from an empty database on.

  \<^bold>\<open>Events, artifacts and recovery\<close> (\<open>journal/runtime.py\<close>, \<open>journal/resource_limits.py\<close>, \<open>journal/snapshot.py\<close>,
  the artifact methods of \<open>persistence/sqlite_v2.py\<close>).
  \<^item> \<open>ResourceLimits\<close>: the one-pass size check of JSON values over any objects, given what the pass sees of each:
    texts as Unicode code points, floats that may not be finite, keys that may not be texts, identities of
    containers. It accepts exactly the JSON trees whose UTF-8 encoding is within the limits.
  \<^item> \<open>Snapshot\<close>: snapshots of a journal, their encoding and digest, and capturing from the tables: exactly
    the log, within the limits.
  \<^item> \<open>SqlArtifacts\<close>: descriptors, objects and files. Files are installed inside a transaction but survive
    its failure, so a body works on the tables and the files and only the tables roll back. The
    step relation \<open>world_step\<close> has these operations on both, succeeding or failing: appending an event, appending
    an event with artifacts, putting an artifact, binding an execution and swapping a request lease. It does not have
    \<open>_persist_provider_turn_result_cas\<close>, which writes events, artifacts and leases by its own SQL, the writes of run
    bundles, and chat deletion (\<open>sqlite_chat_deletion_v2.py\<close>), which removes rows: what is shown to last, lasts until
    one of them runs. Artifacts stay readable, events and artifacts are stored together.
  \<^item> \<open>EventSink\<close>: the sink over an abstract journal (locale \<open>event_journal\<close>, interpreted by the tables and
    in \<open>DurableWorld\<close> by tables and files), replay in pages, and the recovery decision for a tool call.
    Replay reads at most a hundred thousand pages of up to a thousand events, as the code does.
  \<^item> \<open>ToolRecovery\<close>: replay is one pass, repeated delivery stores once, a recovered result is the recorded one.
    \<open>DurableWorld\<close>: the sink on the tables with their files, through every sequence of \<open>world_step\<close>: a started tool is
    never run again on its own, recovery moves forward, prepared events are stored with their artifacts.

  \<^bold>\<open>Interactions and checkpoints\<close> (\<open>interaction/durable.py\<close>, \<open>interaction/runtime.py\<close>, \<open>input/human_input.py\<close>,
  \<open>memory/ownership.py\<close>, \<open>memory/checkpoint_state.py\<close>, \<open>memory/runtime.py\<close>). A run that must wait, for an
  answer or after its last iteration, stores a checkpoint in its session, with the question it waits for in
  a journal beside it and with the owner of its lease; an answer arrives later, perhaps in another process.
  \<^item> \<open>Interactions\<close>: requests and receipts sealed by digests, and the journal with its validation and its
    operations as a state machine: what is recorded is final, at most one interaction is pending, a request that is
    built can be answered and applied.
  \<^item> \<open>HumanInput\<close>: questions, answers and the normalisation of responses of every kind.
  \<^item> \<open>Checkpoints\<close>: building, sealing and validating checkpoints, the interactions they file and apply, and the
    conversation a run continues with.
  \<^item> \<open>CheckpointRuntime\<close>, \<open>InteractionRuntime\<close>: the operations call by call. An operation is a function of the number of
    its next call and of the store; a world (\<open>world_env\<close>) gives the methods of the store at that call and what
    other workers do just before it. The cleanup after a cancellation tries sixteen rounds, as the code does.
  \<^item> \<open>RuntimeSafety\<close>: Hoare triples for these operations in the locale \<open>shared_sessions\<close>, which states what they rely on:
    loads that show the session, writes that compare and swap its revision, other workers that never change a
    session without raising its revision.
  \<^item> \<open>SessionWorld\<close>: the in-memory store interprets the locale for every clock and every schedule. A schedule gives,
    for the number of a call and the store at that moment, the calls other workers make just before it, so they may
    load the session and commit to it. Each property names what it asks of them: nothing, to keep the journal of the
    session extending and its tombstone, or to leave the session alone. A save is one atomic update with its question
    and its owner, answers survive every sequence of operations, the cleanup writes what it says or nothing, and a
    late answer is refused.

  \<^bold>\<open>Parameters.\<close> What is not code of the repository is an argument: the text of floats (\<open>fr\<close>), float
  multiplication and the jitter source, digests (\<open>sha\<close>), identifiers (\<open>uuid\<close>) and clocks. One argument stands
  for code of the repository that is not modelled: \<open>rb\<close>, the parser of run bundles, is \<open>run_bundle_from_dict\<close> of
  \<open>run_bundle_v2.py\<close>, and the round trip of subagent states that contain bundles assumes of it the hypothesis
  \<open>bundle_codec\<close>, that it reads back what it wrote. Times are integers of milliseconds as the callers pass them. A BLOB column holds
  either the canonical JSON of a value or foreign bytes; that \<open>json.dumps\<close> with sorted keys is
  injective on the values stored is the meaning of the constructor \<open>Canon\<close>. Integers are unbounded
  as in Python, and bound to 64 bits where SQLite stores them. Strings are lists of 8-bit
  characters, except in \<open>ResourceLimits\<close>; the Unicode normalisation of journal keys is modelled on that range.

  \<^bold>\<open>Not modelled.\<close> The kernel loop, provider adapters, tools and the context compiler drive threads,
  processes and network clients. Of the SQLite store, provider results, wire envelopes, run-bundle ledgers and chat deletion are
  left out, and with them the rebase, memory and curator repositories, which are mostly SQL text and row decoding.
  Of the memory runtime, recall and the commit of transcripts call retrieval components and a vector store. The
  arguments of the question tool are objects; their repair from JSON text is left out. The manifest
  lists every part with its reason.
\<close>

end
